(* ===== verification/Prelude.thy ===== *)
theory Prelude
  imports Main "HOL-Library.Word" "HOL-Library.Signed_Division" "HOL-Library.Monad_Syntax"
begin

unbundle bit_operations_syntax

text \<open>
  Shared material of the development: the names of the C integer types, the casts between
  them, the tests on signed values the sources write as \<^verbatim>\<open>(uae_s32)x < 0\<close>, and the
  generic lemmas on words that the component proofs use.
\<close>

section \<open>C integer types (src/cpu/sysdeps.h, src/cpu/uae/types.h)\<close>

type_synonym u8 = "8 word"
type_synonym u16 = "16 word"
type_synonym u32 = "32 word"
type_synonym u64 = "64 word"

text \<open>
  Signed types are the same words; \<open>sint\<close> reads them. A C cast to a narrower or equally wide
  unsigned type is \<open>ucast\<close>, a cast of a signed value to a wider type is \<open>scast\<close>.
  Collections used by the component theories:
  \<^item> \<open>flag_simps\<close>: reading the condition codes after writing them;
  \<^item> \<open>jit_simps\<close>: the state of the code generator after one of its operations.
\<close>

named_theorems flag_simps
named_theorems jit_simps
named_theorems a64_simps

abbreviation c_bool :: "bool \<Rightarrow> u64" where
  "c_bool b \<equiv> of_bool b"

definition sext8_32 :: "u32 \<Rightarrow> u32" where
  "sext8_32 x = scast (ucast x :: u8)"

definition sext16_32 :: "u32 \<Rightarrow> u32" where
  "sext16_32 x = scast (ucast x :: u16)"

section \<open>Signed readings\<close>

lemma sint_lt_0_iff_bit:
  "sint (w :: 'a::len word) < 0 \<longleftrightarrow> bit w (LENGTH('a) - 1)"
  by (simp add: sint_uint signed_take_bit_negative_iff bit_uint_iff)

lemma sint_range: "- (2 ^ (LENGTH('a) - 1)) \<le> sint (w :: 'a::len word)"
    "sint (w :: 'a::len word) < 2 ^ (LENGTH('a) - 1)"
  using sint_greater_eq [of w] sint_less [of w] by auto

section \<open>Words bit by bit\<close>

text \<open>
  Equality of words of the fixed widths as the conjunction over their bits. With the bit
  lemmas of the library it decides the masking and shifting identities of the sources.
\<close>

lemma bit_beyond_u8: "8 \<le> n \<Longrightarrow> bit (w :: u8) n = False"
  by (auto dest: bit_imp_le_length)

lemma bit_beyond_u16: "16 \<le> n \<Longrightarrow> bit (w :: u16) n = False"
  by (auto dest: bit_imp_le_length)

lemma bit_beyond_u32: "32 \<le> n \<Longrightarrow> bit (w :: u32) n = False"
  by (auto dest: bit_imp_le_length)

lemma bit_beyond_u64: "64 \<le> n \<Longrightarrow> bit (w :: u64) n = False"
  by (auto dest: bit_imp_le_length)

lemma upt_8: "[0..<8] = [0, 1, 2, 3, 4, 5, 6, 7]"
  by code_simp

lemma u8_eq_iff:
  "(a :: u8) = b \<longleftrightarrow> list_all (\<lambda>n. bit a n = bit b n)
     [0, 1, 2, 3, 4, 5, 6, 7]"
  unfolding upt_8 [symmetric] by (auto simp: list_all_iff intro!: bit_word_eqI)

lemma upt_16: "[0..<16] = [0, 1, 2, 3, 4, 5, 6, 7, 8, 9, 10, 11, 12, 13, 14, 15]"
  by code_simp

lemma u16_eq_iff:
  "(a :: u16) = b \<longleftrightarrow> list_all (\<lambda>n. bit a n = bit b n)
     [0, 1, 2, 3, 4, 5, 6, 7, 8, 9, 10, 11, 12, 13, 14, 15]"
  unfolding upt_16 [symmetric] by (auto simp: list_all_iff intro!: bit_word_eqI)

lemma upt_32: "[0..<32] = [0, 1, 2, 3, 4, 5, 6, 7, 8, 9, 10, 11, 12, 13, 14, 15, 16, 17, 18, 19, 20, 21, 22, 23, 24,
     25, 26, 27, 28, 29, 30, 31]"
  by code_simp

lemma u32_eq_iff:
  "(a :: u32) = b \<longleftrightarrow> list_all (\<lambda>n. bit a n = bit b n)
     [0, 1, 2, 3, 4, 5, 6, 7, 8, 9, 10, 11, 12, 13, 14, 15, 16, 17, 18, 19, 20, 21, 22, 23, 24,
     25, 26, 27, 28, 29, 30, 31]"
  unfolding upt_32 [symmetric] by (auto simp: list_all_iff intro!: bit_word_eqI)

lemma upt_64: "[0..<64] = [0, 1, 2, 3, 4, 5, 6, 7, 8, 9, 10, 11, 12, 13, 14, 15, 16, 17, 18, 19, 20, 21, 22, 23, 24,
     25, 26, 27, 28, 29, 30, 31, 32, 33, 34, 35, 36, 37, 38, 39, 40, 41, 42, 43, 44, 45, 46,
     47, 48, 49, 50, 51, 52, 53, 54, 55, 56, 57, 58, 59, 60, 61, 62, 63]"
  by code_simp

lemma u64_eq_iff:
  "(a :: u64) = b \<longleftrightarrow> list_all (\<lambda>n. bit a n = bit b n)
     [0, 1, 2, 3, 4, 5, 6, 7, 8, 9, 10, 11, 12, 13, 14, 15, 16, 17, 18, 19, 20, 21, 22, 23, 24,
     25, 26, 27, 28, 29, 30, 31, 32, 33, 34, 35, 36, 37, 38, 39, 40, 41, 42, 43, 44, 45, 46,
     47, 48, 49, 50, 51, 52, 53, 54, 55, 56, 57, 58, 59, 60, 61, 62, 63]"
  unfolding upt_64 [symmetric] by (auto simp: list_all_iff intro!: bit_word_eqI)

lemmas blast_simps = bit_simps bit_beyond_u8 bit_beyond_u16 bit_beyond_u32 bit_beyond_u64
lemmas blast8 = u8_eq_iff blast_simps
lemmas blast16 = u16_eq_iff blast_simps
lemmas blast32 = u32_eq_iff blast_simps
lemmas blast64 = u64_eq_iff blast_simps

lemma ucast_up_down [simp]:
  "(ucast (ucast (x8 :: u8) :: u16) :: u8) = x8" "(ucast (ucast (x8 :: u8) :: u32) :: u8) = x8"
  "(ucast (ucast (x8 :: u8) :: u64) :: u8) = x8"
  "(ucast (ucast (x16 :: u16) :: u32) :: u16) = x16"
  "(ucast (ucast (x16 :: u16) :: u64) :: u16) = x16"
  "(ucast (ucast (x32 :: u32) :: u64) :: u32) = x32"
  by (simp_all add: blast8 blast16 blast32)

lemma ucast_down_down [simp]:
  "(ucast (ucast (x :: u32) :: u16) :: u8) = ucast x"
  "(ucast (ucast (y :: u64) :: u32) :: u8) = ucast y"
  "(ucast (ucast (y :: u64) :: u32) :: u16) = ucast y"
  "(ucast (ucast (z :: u16) :: u32) :: u8) = ucast z"
  "(ucast (ucast (z :: u16) :: u64) :: u8) = ucast z"
  by (simp_all add: blast8 blast16)

lemma unat_plus_of_nat: "unat (x :: u32) + j < 2 ^ 32 \<Longrightarrow> unat (x + of_nat j) = unat x + j"
  by (simp add: unat_word_ariths unat_of_nat)

lemma ucast_plus_u32_u64:
  "unat (x :: u32) + k < 2 ^ 32 \<Longrightarrow> (ucast (x + of_nat k) :: u64) = ucast x + of_nat k"
  by (rule word_unat_eq_iff [THEN iffD2])
    (simp add: unat_word_ariths unat_of_nat unsigned_ucast_eq take_bit_eq_mod)

lemma ucast_minus_u32_u64:
  assumes "y \<le> (x :: u32)"
  shows "(ucast (x - y) :: u64) = ucast x - ucast y"
proof -
  have "unat y + unat (x - y) = unat x"
    using assms by (simp add: unat_sub word_le_nat_alt)
  then have "unat y + unat (x - y) < 2 ^ 32" using unsigned_less [where 'a=nat, of x] by simp
  from ucast_plus_u32_u64 [OF this] have "(ucast x :: u64) = ucast y + of_nat (unat (x - y))" by simp
  then show ?thesis by simp
qed

lemma of_nat_u64_inj: "i < 2 ^ 32 \<Longrightarrow> j < 2 ^ 32 \<Longrightarrow> (of_nat i = (of_nat j :: u64)) = (i = j)"
  by (simp add: word_unat_eq_iff unat_of_nat)

lemma add_1_of_nat: "a + of_nat j + 1 = a + of_nat (Suc j)" for a :: "'a::comm_semiring_1"
  by (simp add: ac_simps)

lemma add_numeral_of_nat:
  "a + of_nat j + numeral k = a + of_nat (j + numeral k)" for a :: "'a::comm_semiring_1"
  by (simp add: ac_simps)

lemmas offset_simps = add_1_of_nat add_numeral_of_nat

section \<open>Truncated division (C semantics)\<close>

text \<open>
  \<open>sdiv\<close> and \<open>smod\<close> of HOL-Library.Signed_Division are C's \<^verbatim>\<open>/\<close> and
  \<^verbatim>\<open>%\<close> on integers: the quotient rounds towards zero and the remainder has the sign
  of the dividend.
\<close>

lemma smod_bound: "b \<noteq> 0 \<Longrightarrow> \<bar>(a::int) smod b\<bar> < \<bar>b\<bar>"
  by (simp add: signed_modulo_int_def abs_mult)

lemma smod_sign: "(a::int) smod b \<noteq> 0 \<Longrightarrow> (a smod b < 0 \<longleftrightarrow> a < 0)"
proof (cases "b = 0")
  case False
  then have pos: "0 \<le> x mod \<bar>b\<bar>" for x :: int by simp
  assume "a smod b \<noteq> 0"
  with pos [of a] pos [of "- a"] show ?thesis
    by (auto simp: signed_modulo_int_def sgn_if split: if_splits)
qed (simp add: signed_modulo_int_def sgn_mult_abs)

end
