(* ===== verification/Membank.thy ===== *)
theory Membank
  imports Prelude
begin

unbundle bit_operations_syntax

text \<open>
  The memory subsystem: \<^verbatim>\<open>src/cpu/memory.c\<close>, the inline accessors of
  \<^verbatim>\<open>src/cpu/memory.h\<close> and the big-endian byte access of
  \<^verbatim>\<open>src/cpu/maccess.h\<close>.

  The 32-bit guest address space is divided into 65536 banks of 64K; \<open>m_mem_banks\<close> maps a
  bank index to a bank descriptor (the C array of pointers). The three static descriptors and
  the ones allocated by \<^verbatim>\<open>calloc\<close> are told apart by \<open>bankref\<close>; \<open>m_alive\<close>
  records which heap descriptors are allocated, so that a use after free or a second
  \<^verbatim>\<open>free\<close> is visible. The accessor function pointers of a descriptor are always assigned
  as one group, named by \<open>handlers\<close>. Host memory is the byte function \<open>m_hmem\<close> over host
  pointers, NULL is 0. Host callbacks (custom banks, the Musashi callbacks) are code outside the
  repository: they are functions on a host state of arbitrary type.

  A bus access returns \<open>None\<close> when it unwinds the current instruction with a bus error
  (\<^verbatim>\<open>uae_host_raise_bus_error\<close>, which throws unless it runs inside the JIT's fault
  recovery; \<open>m_bus_error_unwinds\<close> says which).
\<close>

section \<open>State\<close>

datatype handlers = H_none | H_dummy | H_musashi | H_ram | H_custom | H_testdev

datatype bankref = Dummy_bank | Musashi_bridge_bank | Test_device_bank | Heap_bank nat

record 'w addrbank =
  b_handlers :: handlers
  b_baseaddr :: u64
  b_mask :: u32
  b_flags :: u32
  b_start :: u32
  b_allocated_size :: u32
  b_host_flags :: u32
  b_jit_read_flag :: u32
  b_jit_write_flag :: u32
  b_r8 :: "('w \<Rightarrow> u32 \<Rightarrow> u8 \<times> 'w) option"
  b_r16 :: "('w \<Rightarrow> u32 \<Rightarrow> u16 \<times> 'w) option"
  b_r32 :: "('w \<Rightarrow> u32 \<Rightarrow> u32 \<times> 'w) option"
  b_w8 :: "('w \<Rightarrow> u32 \<Rightarrow> u8 \<Rightarrow> 'w) option"
  b_w16 :: "('w \<Rightarrow> u32 \<Rightarrow> u16 \<Rightarrow> 'w) option"
  b_w32 :: "('w \<Rightarrow> u32 \<Rightarrow> u32 \<Rightarrow> 'w) option"

record 'w musashi_callbacks =
  m68k_read_memory_8 :: "'w \<Rightarrow> u32 \<Rightarrow> u32 \<times> 'w"
  m68k_read_memory_16 :: "'w \<Rightarrow> u32 \<Rightarrow> u32 \<times> 'w"
  m68k_read_memory_32 :: "'w \<Rightarrow> u32 \<Rightarrow> u32 \<times> 'w"
  m68k_write_memory_8 :: "'w \<Rightarrow> u32 \<Rightarrow> u32 \<Rightarrow> 'w"
  m68k_write_memory_16 :: "'w \<Rightarrow> u32 \<Rightarrow> u32 \<Rightarrow> 'w"
  m68k_write_memory_32 :: "'w \<Rightarrow> u32 \<Rightarrow> u32 \<Rightarrow> 'w"

record uae_test_device_t =
  td_pass_count :: u32
  td_fail_count :: u32
  td_interrupt_level :: u32

record 'w mstate =
  m_mem_banks :: "nat \<Rightarrow> bankref"
  m_banks :: "bankref \<Rightarrow> 'w addrbank"
  m_alive :: "nat \<Rightarrow> bool"
  m_next :: nat
  m_hmem :: "u64 \<Rightarrow> u8"
  m_ce_cachable :: "nat \<Rightarrow> u8"
  m_ce_banktype :: "nat \<Rightarrow> nat"
  m_baseaddr :: "nat \<Rightarrow> u64"
  m_bank_ptr :: "bankref \<Rightarrow> u64"
  m_canbang :: bool
  m_natmem_offset :: u64
  m_jit_n_addr_bank_unsafe :: bool
  m_special_mem :: u32
  m_test_device :: uae_test_device_t
  m_pending_irq_level :: u32
  m_console :: "u8 list"
  m_musashi_mode :: bool
  m_unmapped_bus_error :: bool
  m_bus_error_unwinds :: bool
  m_host :: 'w

definition MEMORY_BANKS :: nat where "MEMORY_BANKS = 65536"

definition S_READ :: u32 where "S_READ = 1"
definition S_WRITE :: u32 where "S_WRITE = 2"
definition ABFLAG_RAM :: u32 where "ABFLAG_RAM = 1"
definition ABFLAG_ROM :: u32 where "ABFLAG_ROM = 2"
definition ABFLAG_IO :: u32 where "ABFLAG_IO = 8"
definition ABFLAG_NONE :: u32 where "ABFLAG_NONE = 16"
definition ABFLAG_JIT_UNSAFE_BURST :: u32 where "ABFLAG_JIT_UNSAFE_BURST = 0x10000"
definition UAE_MEM_ROM :: u32 where "UAE_MEM_ROM = 2"
definition UAE_MEM_IO :: u32 where "UAE_MEM_IO = 4"
definition UAE_MEM_CACHEABLE :: u32 where "UAE_MEM_CACHEABLE = 8"
definition UAE_MEM_JIT_DIRECT :: u32 where "UAE_MEM_JIT_DIRECT = 0x10"
definition UAE_MEM_JIT_UNSAFE_BURST :: u32 where "UAE_MEM_JIT_UNSAFE_BURST = 0x20"
definition CE_MEMBANK_NONE :: nat where "CE_MEMBANK_NONE = 0"
definition CE_MEMBANK_FAST32 :: nat where "CE_MEMBANK_FAST32 = 4"

lemmas mem_consts = S_READ_def S_WRITE_def ABFLAG_RAM_def ABFLAG_ROM_def ABFLAG_IO_def
  ABFLAG_NONE_def ABFLAG_JIT_UNSAFE_BURST_def UAE_MEM_ROM_def UAE_MEM_IO_def
  UAE_MEM_CACHEABLE_def UAE_MEM_JIT_DIRECT_def UAE_MEM_JIT_UNSAFE_BURST_def
  CE_MEMBANK_NONE_def CE_MEMBANK_FAST32_def

text \<open>\<^verbatim>\<open>bankindex\<close> and \<^verbatim>\<open>get_mem_bank\<close> of memory.h.\<close>

definition bankindex :: "u32 \<Rightarrow> nat" where
  "bankindex a = unat (drop_bit 16 a AND 0xFFFF)"

definition get_mem_bank :: "'w mstate \<Rightarrow> u32 \<Rightarrow> 'w addrbank" where
  "get_mem_bank m a = m_banks m (m_mem_banks m (bankindex a))"

section \<open>Big-endian host memory access (maccess.h)\<close>

definition do_get_mem_long :: "(u64 \<Rightarrow> u8) \<Rightarrow> u64 \<Rightarrow> u32" where
  "do_get_mem_long h p = push_bit 24 (ucast (h p)) OR push_bit 16 (ucast (h (p + 1))) OR
     push_bit 8 (ucast (h (p + 2))) OR ucast (h (p + 3))"

definition do_get_mem_word :: "(u64 \<Rightarrow> u8) \<Rightarrow> u64 \<Rightarrow> u16" where
  "do_get_mem_word h p = push_bit 8 (ucast (h p)) OR ucast (h (p + 1))"

definition do_put_mem_long :: "u64 \<Rightarrow> u32 \<Rightarrow> (u64 \<Rightarrow> u8) \<Rightarrow> (u64 \<Rightarrow> u8)" where
  "do_put_mem_long p v h = h(p := ucast (drop_bit 24 v), p + 1 := ucast (drop_bit 16 v),
     p + 2 := ucast (drop_bit 8 v), p + 3 := ucast v)"

definition do_put_mem_word :: "u64 \<Rightarrow> u16 \<Rightarrow> (u64 \<Rightarrow> u8) \<Rightarrow> (u64 \<Rightarrow> u8)" where
  "do_put_mem_word p v h = h(p := ucast (drop_bit 8 v), p + 1 := ucast v)"

text \<open>
  The versions for hosts with unaligned access: a little-endian load or store of the whole
  word, and \<^verbatim>\<open>be_swap32\<close>, which is \<^verbatim>\<open>bswap_32\<close> there.
\<close>

definition bswap_16 :: "u16 \<Rightarrow> u16" where
  "bswap_16 x = drop_bit 8 x OR push_bit 8 (x AND 0xFF)"

definition bswap_32 :: "u32 \<Rightarrow> u32" where
  "bswap_32 x = push_bit 24 x OR (push_bit 8 x AND 0x00FF0000) OR
     (drop_bit 8 x AND 0x0000FF00) OR drop_bit 24 x"

definition load_le32 :: "(u64 \<Rightarrow> u8) \<Rightarrow> u64 \<Rightarrow> u32" where
  "load_le32 h p = ucast (h p) OR push_bit 8 (ucast (h (p + 1))) OR
     push_bit 16 (ucast (h (p + 2))) OR push_bit 24 (ucast (h (p + 3)))"

definition store_le32 :: "u64 \<Rightarrow> u32 \<Rightarrow> (u64 \<Rightarrow> u8) \<Rightarrow> (u64 \<Rightarrow> u8)" where
  "store_le32 p v h = h(p := ucast v, p + 1 := ucast (drop_bit 8 v),
     p + 2 := ucast (drop_bit 16 v), p + 3 := ucast (drop_bit 24 v))"

definition do_get_mem_long_unaligned :: "(u64 \<Rightarrow> u8) \<Rightarrow> u64 \<Rightarrow> u32" where
  "do_get_mem_long_unaligned h p = bswap_32 (load_le32 h p)"

definition do_put_mem_long_unaligned :: "u64 \<Rightarrow> u32 \<Rightarrow> (u64 \<Rightarrow> u8) \<Rightarrow> (u64 \<Rightarrow> u8)" where
  "do_put_mem_long_unaligned p v h = store_le32 p (bswap_32 v) h"

section \<open>Bank handlers (memory.c)\<close>

text \<open>Unmapped banks.\<close>

definition dummy_lget :: "'w musashi_callbacks \<Rightarrow> u32 \<Rightarrow> 'w mstate \<Rightarrow> (u32 \<times> 'w mstate) option" where
  "dummy_lget cb a m =
     (if m_musashi_mode m then
        (let (v, w) = m68k_read_memory_32 cb (m_host m) a in Some (v, m\<lparr>m_host := w\<rparr>))
      else if m_unmapped_bus_error m \<and> m_bus_error_unwinds m then None
      else Some (0xFFFFFFFF, m))"

definition dummy_wget :: "'w musashi_callbacks \<Rightarrow> u32 \<Rightarrow> 'w mstate \<Rightarrow> (u32 \<times> 'w mstate) option" where
  "dummy_wget cb a m =
     (if m_musashi_mode m then
        (let (v, w) = m68k_read_memory_16 cb (m_host m) a in Some (v, m\<lparr>m_host := w\<rparr>))
      else if m_unmapped_bus_error m \<and> m_bus_error_unwinds m then None
      else Some (0xFFFF, m))"

definition dummy_bget :: "'w musashi_callbacks \<Rightarrow> u32 \<Rightarrow> 'w mstate \<Rightarrow> (u32 \<times> 'w mstate) option" where
  "dummy_bget cb a m =
     (if m_musashi_mode m then
        (let (v, w) = m68k_read_memory_8 cb (m_host m) a in Some (v, m\<lparr>m_host := w\<rparr>))
      else if m_unmapped_bus_error m \<and> m_bus_error_unwinds m then None
      else Some (0xFF, m))"

definition dummy_lput :: "'w musashi_callbacks \<Rightarrow> u32 \<Rightarrow> u32 \<Rightarrow> 'w mstate \<Rightarrow> 'w mstate option" where
  "dummy_lput cb a v m =
     (if m_musashi_mode m then
        Some (m\<lparr>m_host := m68k_write_memory_32 cb (m_host m) a v\<rparr>)
      else if m_unmapped_bus_error m \<and> m_bus_error_unwinds m then None
      else Some m)"

definition dummy_wput :: "'w musashi_callbacks \<Rightarrow> u32 \<Rightarrow> u32 \<Rightarrow> 'w mstate \<Rightarrow> 'w mstate option" where
  "dummy_wput cb a v m =
     (if m_musashi_mode m then
        Some (m\<lparr>m_host := m68k_write_memory_16 cb (m_host m) a v\<rparr>)
      else if m_unmapped_bus_error m \<and> m_bus_error_unwinds m then None
      else Some m)"

definition dummy_bput :: "'w musashi_callbacks \<Rightarrow> u32 \<Rightarrow> u32 \<Rightarrow> 'w mstate \<Rightarrow> 'w mstate option" where
  "dummy_bput cb a v m =
     (if m_musashi_mode m then
        Some (m\<lparr>m_host := m68k_write_memory_8 cb (m_host m) a v\<rparr>)
      else if m_unmapped_bus_error m \<and> m_bus_error_unwinds m then None
      else Some m)"

text \<open>The Musashi bridge forwards unconditionally.\<close>

definition musashi_lget :: "'w musashi_callbacks \<Rightarrow> u32 \<Rightarrow> 'w mstate \<Rightarrow> (u32 \<times> 'w mstate) option" where
  "musashi_lget cb a m =
     (let (v, w) = m68k_read_memory_32 cb (m_host m) a in Some (v, m\<lparr>m_host := w\<rparr>))"

definition musashi_lput :: "'w musashi_callbacks \<Rightarrow> u32 \<Rightarrow> u32 \<Rightarrow> 'w mstate \<Rightarrow> 'w mstate option" where
  "musashi_lput cb a v m = Some (m\<lparr>m_host := m68k_write_memory_32 cb (m_host m) a v\<rparr>)"

definition musashi_wget :: "'w musashi_callbacks \<Rightarrow> u32 \<Rightarrow> 'w mstate \<Rightarrow> (u32 \<times> 'w mstate) option" where
  "musashi_wget cb a m =
     (let (v, w) = m68k_read_memory_16 cb (m_host m) a in Some (v, m\<lparr>m_host := w\<rparr>))"

definition musashi_wput :: "'w musashi_callbacks \<Rightarrow> u32 \<Rightarrow> u32 \<Rightarrow> 'w mstate \<Rightarrow> 'w mstate option" where
  "musashi_wput cb a v m = Some (m\<lparr>m_host := m68k_write_memory_16 cb (m_host m) a v\<rparr>)"

definition musashi_bget :: "'w musashi_callbacks \<Rightarrow> u32 \<Rightarrow> 'w mstate \<Rightarrow> (u32 \<times> 'w mstate) option" where
  "musashi_bget cb a m =
     (let (v, w) = m68k_read_memory_8 cb (m_host m) a in Some (v, m\<lparr>m_host := w\<rparr>))"

definition musashi_bput :: "'w musashi_callbacks \<Rightarrow> u32 \<Rightarrow> u32 \<Rightarrow> 'w mstate \<Rightarrow> 'w mstate option" where
  "musashi_bput cb a v m = Some (m\<lparr>m_host := m68k_write_memory_8 cb (m_host m) a v\<rparr>)"

text \<open>Host RAM and ROM. Writes to a bank flagged \<^verbatim>\<open>ABFLAG_ROM\<close> are dropped.\<close>

definition ram_xlate :: "u32 \<Rightarrow> 'w mstate \<Rightarrow> u64" where
  "ram_xlate a m = b_baseaddr (get_mem_bank m a) + ucast (a - b_start (get_mem_bank m a))"

definition bank_is_rom :: "'w mstate \<Rightarrow> u32 \<Rightarrow> bool" where
  "bank_is_rom m a \<longleftrightarrow> b_flags (get_mem_bank m a) AND ABFLAG_ROM \<noteq> 0"

definition ram_lget :: "u32 \<Rightarrow> 'w mstate \<Rightarrow> (u32 \<times> 'w mstate) option" where
  "ram_lget a m = Some (do_get_mem_long (m_hmem m) (ram_xlate a m), m)"

definition ram_wget :: "u32 \<Rightarrow> 'w mstate \<Rightarrow> (u32 \<times> 'w mstate) option" where
  "ram_wget a m = Some (ucast (do_get_mem_word (m_hmem m) (ram_xlate a m)), m)"

definition ram_bget :: "u32 \<Rightarrow> 'w mstate \<Rightarrow> (u32 \<times> 'w mstate) option" where
  "ram_bget a m = Some (ucast (m_hmem m (ram_xlate a m)), m)"

definition ram_lput :: "u32 \<Rightarrow> u32 \<Rightarrow> 'w mstate \<Rightarrow> 'w mstate option" where
  "ram_lput a v m = Some (if bank_is_rom m a then m
     else m\<lparr>m_hmem := do_put_mem_long (ram_xlate a m) v (m_hmem m)\<rparr>)"

definition ram_wput :: "u32 \<Rightarrow> u32 \<Rightarrow> 'w mstate \<Rightarrow> 'w mstate option" where
  "ram_wput a v m = Some (if bank_is_rom m a then m
     else m\<lparr>m_hmem := do_put_mem_word (ram_xlate a m) (ucast v) (m_hmem m)\<rparr>)"

definition ram_bput :: "u32 \<Rightarrow> u32 \<Rightarrow> 'w mstate \<Rightarrow> 'w mstate option" where
  "ram_bput a v m = Some (if bank_is_rom m a then m
     else m\<lparr>m_hmem := (m_hmem m)(ram_xlate a m := ucast v)\<rparr>)"

text \<open>
  Custom devices. A missing wide callback is emulated with the next narrower one, high part
  first; a device with no callback at all reads as all ones and ignores writes.
\<close>

definition custom_lget :: "u32 \<Rightarrow> 'w mstate \<Rightarrow> (u32 \<times> 'w mstate) option" where
  "custom_lget a m =
    (let b = get_mem_bank m a in
     case b_r32 b of Some r32 \<Rightarrow> (let (v, w) = r32 (m_host m) a in Some (v, m\<lparr>m_host := w\<rparr>))
     | None \<Rightarrow> (case b_r16 b of
         Some r16 \<Rightarrow>
           (let (hi, w1) = r16 (m_host m) a; (lo, w2) = r16 w1 (a + 2)
            in Some (push_bit 16 (ucast hi) OR (ucast lo AND 0xFFFF), m\<lparr>m_host := w2\<rparr>))
       | None \<Rightarrow> (case b_r8 b of
           Some r8 \<Rightarrow>
             (let (b0, w0) = r8 (m_host m) a; (b1, w1) = r8 w0 (a + 1);
                  (b2, w2) = r8 w1 (a + 2); (b3, w3) = r8 w2 (a + 3)
              in Some (push_bit 24 (ucast b0) OR push_bit 16 (ucast b1) OR
                       push_bit 8 (ucast b2) OR ucast b3, m\<lparr>m_host := w3\<rparr>))
         | None \<Rightarrow> Some (0xFFFFFFFF, m))))"

definition custom_wget :: "u32 \<Rightarrow> 'w mstate \<Rightarrow> (u32 \<times> 'w mstate) option" where
  "custom_wget a m =
    (let b = get_mem_bank m a in
     case b_r16 b of Some r16 \<Rightarrow> (let (v, w) = r16 (m_host m) a in Some (ucast v, m\<lparr>m_host := w\<rparr>))
     | None \<Rightarrow> (case b_r8 b of
         Some r8 \<Rightarrow>
           (let (hi, w1) = r8 (m_host m) a; (lo, w2) = r8 w1 (a + 1)
            in Some (push_bit 8 (ucast hi) OR (ucast lo AND 0xFF), m\<lparr>m_host := w2\<rparr>))
       | None \<Rightarrow> Some (0xFFFF, m)))"

definition custom_bget :: "u32 \<Rightarrow> 'w mstate \<Rightarrow> (u32 \<times> 'w mstate) option" where
  "custom_bget a m =
    (case b_r8 (get_mem_bank m a) of
       Some r8 \<Rightarrow> (let (v, w) = r8 (m_host m) a in Some (ucast v, m\<lparr>m_host := w\<rparr>))
     | None \<Rightarrow> Some (0xFF, m))"

definition custom_lput :: "u32 \<Rightarrow> u32 \<Rightarrow> 'w mstate \<Rightarrow> 'w mstate option" where
  "custom_lput a v m =
    (let b = get_mem_bank m a in
     case b_w32 b of Some w32 \<Rightarrow> Some (m\<lparr>m_host := w32 (m_host m) a v\<rparr>)
     | None \<Rightarrow> (case b_w16 b of
         Some w16 \<Rightarrow>
           (let h1 = w16 (m_host m) a (ucast (drop_bit 16 v AND 0xFFFF))
            in Some (m\<lparr>m_host := w16 h1 (a + 2) (ucast (v AND 0xFFFF))\<rparr>))
       | None \<Rightarrow> (case b_w8 b of
           Some w8 \<Rightarrow>
             (let h1 = w8 (m_host m) a (ucast (drop_bit 24 v AND 0xFF));
                  h2 = w8 h1 (a + 1) (ucast (drop_bit 16 v AND 0xFF));
                  h3 = w8 h2 (a + 2) (ucast (drop_bit 8 v AND 0xFF))
              in Some (m\<lparr>m_host := w8 h3 (a + 3) (ucast (v AND 0xFF))\<rparr>))
         | None \<Rightarrow> Some m)))"

definition custom_wput :: "u32 \<Rightarrow> u32 \<Rightarrow> 'w mstate \<Rightarrow> 'w mstate option" where
  "custom_wput a v m =
    (let b = get_mem_bank m a in
     case b_w16 b of Some w16 \<Rightarrow> Some (m\<lparr>m_host := w16 (m_host m) a (ucast (v AND 0xFFFF))\<rparr>)
     | None \<Rightarrow> (case b_w8 b of
         Some w8 \<Rightarrow>
           (let h1 = w8 (m_host m) a (ucast (drop_bit 8 v AND 0xFF))
            in Some (m\<lparr>m_host := w8 h1 (a + 1) (ucast (v AND 0xFF))\<rparr>))
       | None \<Rightarrow> Some m))"

definition custom_bput :: "u32 \<Rightarrow> u32 \<Rightarrow> 'w mstate \<Rightarrow> 'w mstate option" where
  "custom_bput a v m =
    (case b_w8 (get_mem_bank m a) of
       Some w8 \<Rightarrow> Some (m\<lparr>m_host := w8 (m_host m) a (ucast (v AND 0xFF))\<rparr>)
     | None \<Rightarrow> Some m)"

text \<open>The test device counts passes and failures and drives the interrupt level.\<close>

definition handle_test_device_write :: "u32 \<Rightarrow> u32 \<Rightarrow> 'w mstate \<Rightarrow> 'w mstate" where
  "handle_test_device_write offset val m =
    (let o' = offset AND 0xFF; td = m_test_device m in
     if o' = 0x00 then m\<lparr>m_test_device := td\<lparr>td_fail_count := td_fail_count td + 1\<rparr>\<rparr>
     else if o' = 0x04 then m\<lparr>m_test_device := td\<lparr>td_pass_count := td_pass_count td + 1\<rparr>\<rparr>
     else if o' = 0x0C then m\<lparr>m_test_device := td\<lparr>td_interrupt_level := val AND 7\<rparr>,
                               m_pending_irq_level := val AND 7\<rparr>
     else if o' = 0x14 then m\<lparr>m_console := m_console m @ [ucast (val AND 0xFF)]\<rparr>
     else m)"

definition testdev_put :: "u32 \<Rightarrow> u32 \<Rightarrow> 'w mstate \<Rightarrow> 'w mstate option" where
  "testdev_put a v m = Some (handle_test_device_write (a AND 0xFF) v m)"

section \<open>Access primitives (memory.h)\<close>

text \<open>A descriptor with null function pointers cannot be called (\<open>H_none\<close>).\<close>

definition get_long :: "'w musashi_callbacks \<Rightarrow> u32 \<Rightarrow> 'w mstate \<Rightarrow> (u32 \<times> 'w mstate) option" where
  "get_long cb a m =
    (case b_handlers (get_mem_bank m a) of
       H_none \<Rightarrow> None | H_dummy \<Rightarrow> dummy_lget cb a m | H_musashi \<Rightarrow> musashi_lget cb a m
     | H_ram \<Rightarrow> ram_lget a m | H_custom \<Rightarrow> custom_lget a m | H_testdev \<Rightarrow> Some (0, m))"

definition get_word :: "'w musashi_callbacks \<Rightarrow> u32 \<Rightarrow> 'w mstate \<Rightarrow> (u32 \<times> 'w mstate) option" where
  "get_word cb a m = map_option (\<lambda>(v, m'). (ucast (ucast v :: u16), m'))
    (case b_handlers (get_mem_bank m a) of
       H_none \<Rightarrow> None | H_dummy \<Rightarrow> dummy_wget cb a m | H_musashi \<Rightarrow> musashi_wget cb a m
     | H_ram \<Rightarrow> ram_wget a m | H_custom \<Rightarrow> custom_wget a m | H_testdev \<Rightarrow> Some (0, m))"

definition get_byte :: "'w musashi_callbacks \<Rightarrow> u32 \<Rightarrow> 'w mstate \<Rightarrow> (u32 \<times> 'w mstate) option" where
  "get_byte cb a m = map_option (\<lambda>(v, m'). (ucast (ucast v :: u8), m'))
    (case b_handlers (get_mem_bank m a) of
       H_none \<Rightarrow> None | H_dummy \<Rightarrow> dummy_bget cb a m | H_musashi \<Rightarrow> musashi_bget cb a m
     | H_ram \<Rightarrow> ram_bget a m | H_custom \<Rightarrow> custom_bget a m | H_testdev \<Rightarrow> Some (0, m))"

definition put_long :: "'w musashi_callbacks \<Rightarrow> u32 \<Rightarrow> u32 \<Rightarrow> 'w mstate \<Rightarrow> 'w mstate option" where
  "put_long cb a v m =
    (case b_handlers (get_mem_bank m a) of
       H_none \<Rightarrow> None | H_dummy \<Rightarrow> dummy_lput cb a v m | H_musashi \<Rightarrow> musashi_lput cb a v m
     | H_ram \<Rightarrow> ram_lput a v m | H_custom \<Rightarrow> custom_lput a v m | H_testdev \<Rightarrow> testdev_put a v m)"

definition put_word :: "'w musashi_callbacks \<Rightarrow> u32 \<Rightarrow> u32 \<Rightarrow> 'w mstate \<Rightarrow> 'w mstate option" where
  "put_word cb a w m =
    (let v = ucast (ucast w :: u16) :: u32 in
     case b_handlers (get_mem_bank m a) of
       H_none \<Rightarrow> None | H_dummy \<Rightarrow> dummy_wput cb a v m | H_musashi \<Rightarrow> musashi_wput cb a v m
     | H_ram \<Rightarrow> ram_wput a v m | H_custom \<Rightarrow> custom_wput a v m | H_testdev \<Rightarrow> testdev_put a v m)"

definition put_byte :: "'w musashi_callbacks \<Rightarrow> u32 \<Rightarrow> u32 \<Rightarrow> 'w mstate \<Rightarrow> 'w mstate option" where
  "put_byte cb a b m =
    (let v = ucast (ucast b :: u8) :: u32 in
     case b_handlers (get_mem_bank m a) of
       H_none \<Rightarrow> None | H_dummy \<Rightarrow> dummy_bput cb a v m | H_musashi \<Rightarrow> musashi_bput cb a v m
     | H_ram \<Rightarrow> ram_bput a v m | H_custom \<Rightarrow> custom_bput a v m | H_testdev \<Rightarrow> testdev_put a v m)"

definition get_real_address :: "u32 \<Rightarrow> 'w mstate \<Rightarrow> u64" where
  "get_real_address a m =
    (case b_handlers (get_mem_bank m a) of H_ram \<Rightarrow> ram_xlate a m | _ \<Rightarrow> 0)"

definition valid_address :: "u32 \<Rightarrow> u32 \<Rightarrow> 'w mstate \<Rightarrow> bool" where
  "valid_address a sz m = (b_handlers (get_mem_bank m a) = H_ram)"

text \<open>The accessors of the profiled opcode tables also collect the bank's JIT flags.\<close>

definition get_long_jit :: "'w musashi_callbacks \<Rightarrow> u32 \<Rightarrow> 'w mstate \<Rightarrow> (u32 \<times> 'w mstate) option" where
  "get_long_jit cb a m =
     get_long cb a (m\<lparr>m_special_mem := m_special_mem m OR b_jit_read_flag (get_mem_bank m a)\<rparr>)"

definition put_long_jit :: "'w musashi_callbacks \<Rightarrow> u32 \<Rightarrow> u32 \<Rightarrow> 'w mstate \<Rightarrow> 'w mstate option" where
  "put_long_jit cb a v m =
     put_long cb a v (m\<lparr>m_special_mem := m_special_mem m OR b_jit_write_flag (get_mem_bank m a)\<rparr>)"

section \<open>Bank table management (memory.c)\<close>

definition jit_direct :: "'w mstate \<Rightarrow> 'w addrbank \<Rightarrow> bool" where
  "jit_direct m b \<longleftrightarrow> m_canbang m \<and> m_natmem_offset m \<noteq> 0 \<and> b_baseaddr b \<noteq> 0 \<and>
     b_host_flags b AND UAE_MEM_JIT_DIRECT \<noteq> 0 \<and>
     b_baseaddr b = m_natmem_offset m + ucast (b_start b)"

definition jit_sync_baseaddr :: "nat \<Rightarrow> 'w mstate \<Rightarrow> 'w mstate" where
  "jit_sync_baseaddr idx m =
    (let i = idx mod 65536; r = m_mem_banks m i; b = m_banks m r; direct = jit_direct m b in
     m\<lparr>m_baseaddr := (m_baseaddr m)(i :=
         if b_baseaddr b \<noteq> 0 then b_baseaddr b - ucast (b_start b) else m_bank_ptr m r + 1),
       m_banks := (m_banks m)(r := b\<lparr>
         b_jit_read_flag := (if direct then 0 else S_READ),
         b_jit_write_flag := (if direct \<and> b_flags b AND ABFLAG_ROM = 0 then 0 else S_WRITE)\<rparr>)\<rparr>)"

definition memory_jit_sync_all :: "'w mstate \<Rightarrow> 'w mstate" where
  "memory_jit_sync_all m =
    (let m' = fold jit_sync_baseaddr [0..<MEMORY_BANKS] m;
         burst = list_ex (\<lambda>i. b_flags (m_banks m' (m_mem_banks m' i)) AND ABFLAG_JIT_UNSAFE_BURST \<noteq> 0)
                   [0..<MEMORY_BANKS]
     in m'\<lparr>m_jit_n_addr_bank_unsafe := m_canbang m' \<and> burst\<rparr>)"

definition empty_bank :: "'w addrbank" where
  "empty_bank = \<lparr>b_handlers = H_none, b_baseaddr = 0, b_mask = 0, b_flags = 0, b_start = 0,
     b_allocated_size = 0, b_host_flags = 0, b_jit_read_flag = 0, b_jit_write_flag = 0,
     b_r8 = None, b_r16 = None, b_r32 = None, b_w8 = None, b_w16 = None, b_w32 = None\<rparr>"

definition set_bank :: "bankref \<Rightarrow> nat \<Rightarrow> 'w mstate \<Rightarrow> 'w mstate" where
  "set_bank r i m = m\<lparr>m_mem_banks := (m_mem_banks m)(i := r)\<rparr>"

definition reset_test_device :: uae_test_device_t where
  "reset_test_device = \<lparr>td_pass_count = 0, td_fail_count = 0, td_interrupt_level = 0\<rparr>"

definition memory_init_bank :: "nat \<Rightarrow> 'w mstate \<Rightarrow> 'w mstate" where
  "memory_init_bank i m =
    (let m' = jit_sync_baseaddr i (set_bank Dummy_bank i m) in
     m'\<lparr>m_ce_cachable := (m_ce_cachable m')(i := 0),
        m_ce_banktype := (m_ce_banktype m')(i := CE_MEMBANK_NONE)\<rparr>)"

definition memory_init :: "'w mstate \<Rightarrow> 'w mstate" where
  "memory_init m =
    (let dummy = empty_bank\<lparr>b_handlers := H_dummy, b_flags := ABFLAG_NONE,
                            b_jit_read_flag := S_READ, b_jit_write_flag := S_WRITE\<rparr>;
         bridge = empty_bank\<lparr>b_handlers := H_musashi, b_flags := ABFLAG_NONE\<rparr>;
         testdev = empty_bank\<lparr>b_handlers := H_testdev, b_flags := ABFLAG_IO\<rparr>;
         m1 = m\<lparr>m_banks := (m_banks m)(Dummy_bank := dummy, Musashi_bridge_bank := bridge,
                                       Test_device_bank := testdev)\<rparr>;
         m2 = fold memory_init_bank [0..<MEMORY_BANKS] m1
     in m2\<lparr>m_test_device := reset_test_device\<rparr>)"

definition memory_reset :: "'w mstate \<Rightarrow> 'w mstate" where
  "memory_reset m = m\<lparr>m_test_device := reset_test_device\<rparr>"

text \<open>\<^verbatim>\<open>free\<close> of a heap descriptor; freeing one that is not allocated is an error.\<close>

definition free_bank :: "bankref \<Rightarrow> 'w mstate \<Rightarrow> 'w mstate option" where
  "free_bank r m =
    (case r of Heap_bank n \<Rightarrow>
       if m_alive m n then Some (m\<lparr>m_alive := (m_alive m)(n := False)\<rparr>) else None
     | _ \<Rightarrow> None)"

definition is_heap :: "bankref \<Rightarrow> bool" where
  "is_heap r \<longleftrightarrow> r \<noteq> Dummy_bank \<and> r \<noteq> Musashi_bridge_bank \<and> r \<noteq> Test_device_bank"

definition uninit_inner :: "bankref \<Rightarrow> nat \<Rightarrow> 'w mstate \<Rightarrow> 'w mstate" where
  "uninit_inner r j m =
    (if m_mem_banks m j = r then jit_sync_baseaddr j (set_bank Dummy_bank j m) else m)"

definition uninit_step :: "nat \<Rightarrow> 'w mstate \<Rightarrow> 'w mstate option" where
  "uninit_step i m =
    (let r = m_mem_banks m i in
     do { m1 \<leftarrow> (if is_heap r
                  then free_bank r (fold (uninit_inner r) [i + 1..<MEMORY_BANKS] m)
                  else Some m);
          Some (jit_sync_baseaddr i (set_bank Dummy_bank i m1)) })"

fun uninit_loop :: "nat list \<Rightarrow> 'w mstate \<Rightarrow> 'w mstate option" where
  "uninit_loop [] m = Some m"
| "uninit_loop (i # is) m = do { m' \<leftarrow> uninit_step i m; uninit_loop is m' }"

definition memory_uninit :: "'w mstate \<Rightarrow> 'w mstate option" where
  "memory_uninit m = uninit_loop [0..<MEMORY_BANKS] m"

definition map_banks_step :: "bankref \<Rightarrow> nat \<Rightarrow> nat \<Rightarrow> 'w mstate \<Rightarrow> 'w mstate" where
  "map_banks_step r start i m =
    (let idx = (start + i) mod 65536 in jit_sync_baseaddr idx (set_bank r idx m))"

definition map_banks :: "bankref \<Rightarrow> nat \<Rightarrow> nat \<Rightarrow> 'w mstate \<Rightarrow> 'w mstate" where
  "map_banks r start sz m = fold (map_banks_step r start) [0..<sz] m"

text \<open>Number of banks of a region: 32-bit arithmetic, as in all three mapping functions.\<close>

definition num_banks :: "u32 \<Rightarrow> nat" where
  "num_banks sz = unat (drop_bit 16 (sz + 0xFFFF))"

definition map_ptr_step :: "bankref \<Rightarrow> u32 \<Rightarrow> nat \<Rightarrow> nat \<Rightarrow> 'w mstate \<Rightarrow> 'w mstate" where
  "map_ptr_step r flags start_bank i m =
    (let idx = (start_bank + i) mod 65536; m' = jit_sync_baseaddr idx (set_bank r idx m) in
     m'\<lparr>m_ce_cachable := (m_ce_cachable m')(idx := if flags AND UAE_MEM_CACHEABLE \<noteq> 0 then 1 else 0),
        m_ce_banktype := (m_ce_banktype m')(idx := CE_MEMBANK_FAST32)\<rparr>)"

definition ptr_bank :: "u32 \<Rightarrow> u32 \<Rightarrow> u64 \<Rightarrow> u32 \<Rightarrow> 'w addrbank" where
  "ptr_bank start_addr sz host_ptr flags = empty_bank\<lparr>b_handlers := H_ram,
     b_baseaddr := host_ptr, b_start := start_addr, b_allocated_size := sz, b_mask := sz - 1,
     b_flags := ABFLAG_RAM OR (if flags AND UAE_MEM_ROM \<noteq> 0 then ABFLAG_ROM else 0) OR
                (if flags AND UAE_MEM_JIT_UNSAFE_BURST \<noteq> 0 then ABFLAG_JIT_UNSAFE_BURST else 0),
     b_host_flags := flags, b_jit_read_flag := S_READ, b_jit_write_flag := S_WRITE\<rparr>"

definition alloc_bank :: "'w addrbank \<Rightarrow> 'w mstate \<Rightarrow> bankref \<times> 'w mstate" where
  "alloc_bank b m = (Heap_bank (m_next m),
     m\<lparr>m_banks := (m_banks m)(Heap_bank (m_next m) := b),
       m_alive := (m_alive m)(m_next m := True), m_next := m_next m + 1\<rparr>)"

text \<open>The result is the C return value: 0, or -1 when \<^verbatim>\<open>calloc\<close> fails.\<close>

definition memory_map_ptr ::
    "bool \<Rightarrow> u32 \<Rightarrow> u32 \<Rightarrow> u64 \<Rightarrow> u32 \<Rightarrow> 'w mstate \<Rightarrow> int \<times> 'w mstate" where
  "memory_map_ptr calloc_ok start_addr sz host_ptr flags m =
    (if \<not> calloc_ok then (-1, m)
     else let (r, m1) = alloc_bank (ptr_bank start_addr sz host_ptr flags) m;
              m2 = fold (map_ptr_step r flags (bankindex start_addr)) [0..<num_banks sz] m1
          in (0, memory_jit_sync_all m2))"

definition memory_map_custom :: "bool \<Rightarrow> u32 \<Rightarrow> u32 \<Rightarrow> 'w addrbank \<Rightarrow> 'w mstate \<Rightarrow> int \<times> 'w mstate" where
  "memory_map_custom calloc_ok start_addr sz cbs m =
    (if \<not> calloc_ok then (-1, m)
     else let b = empty_bank\<lparr>b_handlers := H_custom, b_start := start_addr, b_flags := ABFLAG_IO,
                    b_host_flags := UAE_MEM_IO, b_jit_read_flag := S_READ,
                    b_jit_write_flag := S_WRITE, b_r8 := b_r8 cbs, b_r16 := b_r16 cbs,
                    b_r32 := b_r32 cbs, b_w8 := b_w8 cbs, b_w16 := b_w16 cbs, b_w32 := b_w32 cbs\<rparr>;
              (r, m1) = alloc_bank b m;
              m2 = fold (map_banks_step r (bankindex start_addr)) [0..<num_banks sz] m1
          in (0, memory_jit_sync_all m2))"

definition unmap_step :: "nat \<Rightarrow> nat \<Rightarrow> 'w mstate \<Rightarrow> 'w mstate" where
  "unmap_step start_bank i m =
    (let idx = (start_bank + i) mod 65536; m' = jit_sync_baseaddr idx (set_bank Dummy_bank idx m) in
     m'\<lparr>m_ce_cachable := (m_ce_cachable m')(idx := 0),
        m_ce_banktype := (m_ce_banktype m')(idx := CE_MEMBANK_NONE)\<rparr>)"

text \<open>Only the descriptor of the first bank is a candidate for \<^verbatim>\<open>free\<close>, and only
  when no bank refers to it any more.\<close>

definition memory_unmap :: "u32 \<Rightarrow> u32 \<Rightarrow> 'w mstate \<Rightarrow> 'w mstate option" where
  "memory_unmap start_addr sz m =
    (let sb = bankindex start_addr; n = num_banks sz; r = m_mem_banks m sb;
         to_free = (if 0 < n \<and> is_heap r then Some r else None);
         m1 = fold (unmap_step sb) [0..<n] m
     in do { m2 \<leftarrow> (case to_free of
                 Some r \<Rightarrow> if list_ex (\<lambda>i. m_mem_banks m1 i = r) [0..<MEMORY_BANKS] then Some m1
                           else free_bank r m1
               | None \<Rightarrow> Some m1);
             Some (memory_jit_sync_all m2) })"

definition memory_host_flags :: "u32 \<Rightarrow> 'w mstate \<Rightarrow> u32" where
  "memory_host_flags a m = b_host_flags (get_mem_bank m a)"

section \<open>Byte order\<close>

lemma bytes_long: 
  "push_bit 24 (ucast (ucast (drop_bit 24 v) :: u8)) OR push_bit 16 (ucast (ucast (drop_bit 16 v) :: u8)) OR
     push_bit 8 (ucast (ucast (drop_bit 8 v):: u8)) OR ucast (ucast v :: u8) = (v :: u32)"
  by (simp add: blast32)
lemma bytes_word: 
  "push_bit 8 (ucast (ucast (drop_bit 8 v):: u8)) OR ucast (ucast v :: u8) = (v :: u16)"
  by (simp add: blast16)
lemma unaligned_get: "do_get_mem_long_unaligned h p = do_get_mem_long h p"
  by (simp add: do_get_mem_long_unaligned_def bswap_32_def load_le32_def do_get_mem_long_def blast32)

lemma bswap_bytes: "(ucast (bswap_32 v) :: u8) = ucast (drop_bit 24 v)"
  "(ucast (drop_bit 8 (bswap_32 v)) :: u8) = ucast (drop_bit 16 v)"
  "(ucast (drop_bit 16 (bswap_32 v)) :: u8) = ucast (drop_bit 8 v)"
  "(ucast (drop_bit 24 (bswap_32 v)) :: u8) = ucast v"
  by (simp_all add: bswap_32_def blast8)

lemma unaligned_put: "do_put_mem_long_unaligned p v h = do_put_mem_long p v h"
  by (simp add: do_put_mem_long_unaligned_def store_le32_def do_put_mem_long_def bswap_bytes)

lemma do_get_put_long: "do_get_mem_long (do_put_mem_long p v h) p = v"
  by (simp add: do_get_mem_long_def do_put_mem_long_def bytes_long)

section \<open>Plain RAM as a list of bytes\<close>

text \<open>
  \<open>ram_span m a n\<close>: the \<open>n\<close> guest bytes from \<open>a\<close> lie in one writable RAM bank.
  The RAM handlers look the bank up for the first byte only, so this is exactly when a wide
  access agrees with byte accesses. \<open>bytes\<close> is the contents.
\<close>

definition ram_span :: "'w mstate \<Rightarrow> u32 \<Rightarrow> nat \<Rightarrow> bool" where
  "ram_span m a n \<longleftrightarrow>
     (\<forall>k<n. m_mem_banks m (bankindex (a + of_nat k)) = m_mem_banks m (bankindex a)) \<and>
     b_handlers (get_mem_bank m a) = H_ram \<and> \<not> bank_is_rom m a \<and>
     unat (a - b_start (get_mem_bank m a)) + n \<le> 2 ^ 32"

definition peek :: "'w mstate \<Rightarrow> u32 \<Rightarrow> u8" where
  "peek m a = m_hmem m (ram_xlate a m)"

lemma ram_span_bank: "ram_span m a n \<Longrightarrow> k < n \<Longrightarrow> get_mem_bank m (a + of_nat k) = get_mem_bank m a"
  by (auto simp: ram_span_def get_mem_bank_def)

lemma ram_xlate_span:
  assumes "ram_span m a n" "k < n"
  shows "ram_xlate (a + of_nat k) m = ram_xlate a m + of_nat k"
proof -
  have "a + of_nat k - b_start (get_mem_bank m a) = (a - b_start (get_mem_bank m a)) + of_nat k"
    by simp
  moreover have "unat (a - b_start (get_mem_bank m a)) + k < 2 ^ 32"
    using assms by (simp add: ram_span_def)
  ultimately show ?thesis
    by (simp only: ram_xlate_def ram_span_bank [OF assms] ucast_plus_u32_u64 add.assoc)
qed

lemma ram_span_shift:
  assumes "ram_span m a n" "j + l \<le> n" "0 < l"
  shows "ram_span m (a + of_nat j) l"
proof -
  have b: "get_mem_bank m (a + of_nat j) = get_mem_bank m a" 
    and idx: "m_mem_banks m (bankindex (a + of_nat j)) = m_mem_banks m (bankindex a)"
    using assms by (auto simp: ram_span_def get_mem_bank_def)
  have "m_mem_banks m (bankindex (a + of_nat j + of_nat k)) = m_mem_banks m (bankindex a)" if "k < l" for k
  proof -
    have "j + k < n" using that assms by simp
    then have "m_mem_banks m (bankindex (a + of_nat (j + k))) = m_mem_banks m (bankindex a)"
      using assms(1) unfolding ram_span_def by blast
    then show ?thesis by (simp add: add.assoc)
  qed
  moreover have "unat (a + of_nat j - b_start (get_mem_bank m a)) + l \<le> 2 ^ 32"
  proof -
    have eq: "a + of_nat j - b_start (get_mem_bank m a) = (a - b_start (get_mem_bank m a)) + of_nat j"
      by simp
    have "unat (a - b_start (get_mem_bank m a)) + n \<le> 2 ^ 32"
      using assms by (simp add: ram_span_def)
    then have "unat ((a - b_start (get_mem_bank m a)) + of_nat j) + l \<le> 2 ^ 32"
      using assms(2,3) by (subst unat_plus_of_nat) linarith+
    then show ?thesis by (simp only: eq)
  qed
  ultimately show ?thesis
    using assms(1) by (simp add: ram_span_def b idx bank_is_rom_def)
qed

definition bytes :: "'w mstate \<Rightarrow> u32 \<Rightarrow> nat \<Rightarrow> u8 list" where
  "bytes m a n = map (\<lambda>k. peek m (a + of_nat k)) [0..<n]"

lemma peek_span: "ram_span m a n \<Longrightarrow> k < n \<Longrightarrow> peek m (a + of_nat k) = m_hmem m (ram_xlate a m + of_nat k)"
  by (simp add: peek_def ram_xlate_span)

lemma bytes_nth: "ram_span m a n \<Longrightarrow> k < n \<Longrightarrow> bytes m a n ! k = m_hmem m (ram_xlate a m + of_nat k)"
  by (simp add: bytes_def peek_span)

lemma span_handlers: "ram_span m a n \<Longrightarrow> j < n \<Longrightarrow> b_handlers (get_mem_bank m (a + of_nat j)) = H_ram"
  "ram_span m a n \<Longrightarrow> j < n \<Longrightarrow> \<not> bank_is_rom m (a + of_nat j)"
  by (simp_all add: ram_span_bank bank_is_rom_def) (simp_all add: ram_span_def bank_is_rom_def)

lemma get_byte_span:
  "ram_span m a n \<Longrightarrow> j + 1 \<le> n \<Longrightarrow> get_byte cb (a + of_nat j) m = Some (ucast (bytes m a n ! j), m)"
  by (simp add: get_byte_def span_handlers ram_bget_def bytes_nth ram_xlate_span blast8)

lemma get_word_span:
  assumes "ram_span m a n" "j + 2 \<le> n"
  shows "get_word cb (a + of_nat j) m =
    Some (push_bit 8 (ucast (bytes m a n ! j)) OR ucast (bytes m a n ! (j + 1)), m)"
proof -
  have "j < n" "j + 1 < n" using assms(2) by auto
  then show ?thesis using assms(1)
   by (simp add: get_word_def span_handlers ram_wget_def bytes_nth ram_xlate_span do_get_mem_word_def
      offset_simps del: of_nat_Suc) (simp add: blast32)
qed

lemma get_long_span:
  assumes "ram_span m a n" "j + 4 \<le> n"
  shows "get_long cb (a + of_nat j) m =
    Some (push_bit 24 (ucast (bytes m a n ! j)) OR push_bit 16 (ucast (bytes m a n ! (j + 1))) OR
      push_bit 8 (ucast (bytes m a n ! (j + 2))) OR ucast (bytes m a n ! (j + 3)), m)"
proof -
  have "j < n" "j + 1 < n" "j + 2 < n" "j + 3 < n" using assms(2) by auto
  then show ?thesis using assms(1)
   by (simp add: get_long_def span_handlers ram_lget_def bytes_nth ram_xlate_span do_get_mem_long_def
      offset_simps del: of_nat_Suc of_nat_add)
qed

lemma hmem_update_frame [simp]:
  "get_mem_bank (m\<lparr>m_hmem := h\<rparr>) a = get_mem_bank m a"
  "ram_xlate a (m\<lparr>m_hmem := h\<rparr>) = ram_xlate a m"
  "bank_is_rom (m\<lparr>m_hmem := h\<rparr>) a = bank_is_rom m a"
  "ram_span (m\<lparr>m_hmem := h\<rparr>) a n = ram_span m a n"
  by (simp_all add: get_mem_bank_def ram_xlate_def bank_is_rom_def ram_span_def)

lemma bytes_upd:
  assumes "ram_span m a n"  "\<And>k. k < n \<Longrightarrow> h (ram_xlate a m + of_nat k) = xs ! k" "length xs = n"
  shows "bytes (m\<lparr>m_hmem := h\<rparr>) a n = xs"
  using assms by (intro nth_equalityI) (auto simp: bytes_def peek_def ram_xlate_span)

lemma put_byte_span:
  assumes "ram_span m a n" "j + 1 \<le> n"
  shows "\<exists>m'. put_byte cb (a + of_nat j) v m = Some m' \<and> ram_span m' a n \<and>
     bytes m' a n = (bytes m a n)[j := ucast v]"
proof -
  have n: "n \<le> 2 ^ 32" using assms(1) by (simp add: ram_span_def)
  let ?h = "(m_hmem m)(ram_xlate a m + of_nat j := ucast v)"
  have "put_byte cb (a + of_nat j) v m = Some (m\<lparr>m_hmem := ?h\<rparr>)"
    using assms by (simp add: put_byte_def span_handlers ram_bput_def Let_def ram_xlate_span)
  moreover have "bytes (m\<lparr>m_hmem := ?h\<rparr>) a n = (bytes m a n)[j := ucast v]"
    using assms n
    by (intro bytes_upd) (auto simp: of_nat_u64_inj peek_span nth_list_update bytes_def)
  ultimately show ?thesis using assms(1) by auto
qed

lemma put_word_span:
  assumes "ram_span m a n" "j + 2 \<le> n"
  shows "\<exists>m'. put_word cb (a + of_nat j) v m = Some m' \<and> ram_span m' a n \<and>
     bytes m' a n = (bytes m a n)[j := ucast (drop_bit 8 v), j + 1 := ucast v]"
proof -
  have n: "n \<le> 2 ^ 32" using assms(1) by (simp add: ram_span_def)
  let ?h = "(m_hmem m)(ram_xlate a m + of_nat j := ucast (drop_bit 8 v), ram_xlate a m + of_nat (Suc j) := ucast v)"
  have c: "(ucast (drop_bit 8 (ucast v :: u16)) :: u8) = ucast (drop_bit 8 v)" 
    by (simp add: blast8)
  have "put_word cb (a + of_nat j) v m = Some (m\<lparr>m_hmem := ?h\<rparr>)"
    using assms by (simp add: put_word_def span_handlers ram_wput_def do_put_mem_word_def Let_def ram_xlate_span offset_simps c del: of_nat_Suc)
  moreover have "bytes (m\<lparr>m_hmem := ?h\<rparr>) a n = (bytes m a n)[j := ucast (drop_bit 8 v), j + 1 := ucast v]"
    using assms n
    by (intro bytes_upd) (auto simp: of_nat_u64_inj peek_span nth_list_update bytes_def simp del: of_nat_Suc)
  ultimately show ?thesis using assms(1) by auto
qed

lemma put_long_span:
  assumes "ram_span m a n" "j + 4 \<le> n"
  shows "\<exists>m'. put_long cb (a + of_nat j) v m = Some m' \<and> ram_span m' a n \<and>
     bytes m' a n = (bytes m a n)[j := ucast (drop_bit 24 v), j + 1 := ucast (drop_bit 16 v), 
        j + 2 := ucast (drop_bit 8 v), j + 3 := ucast v]"
proof -
  have n: "n \<le> 2 ^ 32" using assms(1) by (simp add: ram_span_def)
  let ?h = "do_put_mem_long (ram_xlate a m + of_nat j) v (m_hmem m)"
  have "put_long cb (a + of_nat j) v m = Some (m\<lparr>m_hmem := ?h\<rparr>)"
    using assms by (simp add: put_long_def span_handlers ram_lput_def ram_xlate_span)
  moreover have "bytes (m\<lparr>m_hmem := ?h\<rparr>) a n = (bytes m a n)[j := ucast (drop_bit 24 v), j + 1 := ucast (drop_bit 16 v), 
        j + 2 := ucast (drop_bit 8 v), j + 3 := ucast v]"
    using assms n
    by (intro bytes_upd) (auto simp: do_put_mem_long_def offset_simps of_nat_u64_inj peek_span nth_list_update bytes_def simp del: of_nat_Suc of_nat_add)
  ultimately show ?thesis using assms(1) by auto
qed
text \<open>
  The interface the instruction emulation uses: a span of guest memory is a list of bytes,
  wide accesses are big-endian, and a store changes the bytes it names and nothing else of
  the span.
\<close>

locale be_memory =
  fixes span :: "'m \<Rightarrow> u32 \<Rightarrow> nat \<Rightarrow> bool" and contents :: "'m \<Rightarrow> u32 \<Rightarrow> nat \<Rightarrow> u8 list"
    and rd8 rd16 rd32 :: "u32 \<Rightarrow> 'm \<Rightarrow> (u32 \<times> 'm) option"
    and wr8 wr16 wr32 :: "u32 \<Rightarrow> u32 \<Rightarrow> 'm \<Rightarrow> 'm option"
  assumes contents_length: "length (contents m a n) = n"
    and rd8: "span m a n \<Longrightarrow> j + 1 \<le> n \<Longrightarrow>
      rd8 (a + of_nat j) m = Some (ucast (contents m a n ! j), m)"
    and rd16: "span m a n \<Longrightarrow> j + 2 \<le> n \<Longrightarrow>
      rd16 (a + of_nat j) m = Some (push_bit 8 (ucast (contents m a n ! j)) OR
        ucast (contents m a n ! (j + 1)), m)"
    and rd32: "span m a n \<Longrightarrow> j + 4 \<le> n \<Longrightarrow>
      rd32 (a + of_nat j) m = Some (push_bit 24 (ucast (contents m a n ! j)) OR
        push_bit 16 (ucast (contents m a n ! (j + 1))) OR
        push_bit 8 (ucast (contents m a n ! (j + 2))) OR ucast (contents m a n ! (j + 3)), m)"
    and wr8: "span m a n \<Longrightarrow> j + 1 \<le> n \<Longrightarrow>
      \<exists>m'. wr8 (a + of_nat j) v m = Some m' \<and> span m' a n \<and>
        contents m' a n = (contents m a n)[j := ucast v]"
    and wr16: "span m a n \<Longrightarrow> j + 2 \<le> n \<Longrightarrow>
      \<exists>m'. wr16 (a + of_nat j) v m = Some m' \<and> span m' a n \<and>
        contents m' a n = (contents m a n)[j := ucast (drop_bit 8 v), j + 1 := ucast v]"
    and wr32: "span m a n \<Longrightarrow> j + 4 \<le> n \<Longrightarrow>
      \<exists>m'. wr32 (a + of_nat j) v m = Some m' \<and> span m' a n \<and>
        contents m' a n = (contents m a n)[j := ucast (drop_bit 24 v),
          j + 1 := ucast (drop_bit 16 v), j + 2 := ucast (drop_bit 8 v), j + 3 := ucast v]"
begin

lemma wr32_rd32:
  assumes "span m a n" "j + 4 \<le> n"
  shows "\<exists>m'. wr32 (a + of_nat j) v m = Some m' \<and> rd32 (a + of_nat j) m' = Some (v, m')"
proof -
  obtain m' where m': "wr32 (a + of_nat j) v m = Some m'" "span m' a n"
    "contents m' a n = (contents m a n)[j := ucast (drop_bit 24 v),
          j + 1 := ucast (drop_bit 16 v), j + 2 := ucast (drop_bit 8 v), j + 3 := ucast v]"
    using wr32 [OF assms] by blast
  then have "rd32 (a + of_nat j) m' = Some (v, m')"
    using assms(2) bytes_long [of v] by (subst rd32) (auto simp: contents_length nth_list_update)
  with m'(1) show ?thesis by blast
qed

lemma wr16_rd16:
  assumes "span m a n" "j + 2 \<le> n"
  shows "\<exists>m'. wr16 (a + of_nat j) v m = Some m' \<and> rd16 (a + of_nat j) m' = Some (v AND 0xFFFF, m')"
proof -
  obtain m' where m': "wr16 (a + of_nat j) v m = Some m'" "span m' a n"
    "contents m' a n = (contents m a n)[j := ucast (drop_bit 8 v), j + 1 := ucast v]"
    using wr16 [OF assms] by blast
  moreover have "push_bit 8 (ucast (ucast (drop_bit 8 v) :: u8)) OR ucast (ucast v :: u8) = v AND 0xFFFF"
    by (simp add: blast32)
  ultimately have "rd16 (a + of_nat j) m' = Some (v AND 0xFFFF, m')"
    using assms(2) by (subst rd16) (auto simp: contents_length nth_list_update)
  with m'(1) show ?thesis by blast
qed

end

lemma bytes_length [simp]: "length (bytes m a n) = n"
  by (simp add: bytes_def)

interpretation ram: be_memory ram_span bytes "get_byte cb" "get_word cb" "get_long cb"
  "put_byte cb" "put_word cb" "put_long cb" for cb :: "'w musashi_callbacks"
  by unfold_locales (erule get_byte_span get_word_span get_long_span put_byte_span put_word_span
    put_long_span, assumption | rule bytes_length)+

end
