(* ===== verification/Arm64.thy ===== *)
theory Arm64
  imports Membank
begin

unbundle bit_operations_syntax

text \<open>
  The target of the ARM64 code generator: the instructions that
  \<^verbatim>\<open>src/cpu/jit/arm/codegen_arm64.h\<close> encodes, their effect on the machine, and the
  helper routines of \<^verbatim>\<open>codegen_arm64.cpp\<close> that emit short fixed sequences.

  A macro of the header is a definition of the same name that yields an \<open>instr\<close>; the masks
  the macro applies to its immediate are part of the definition. What an instruction does is the
  architecture's documented behaviour (\<open>step\<close>), in particular a write to a 32-bit W register
  clears the upper half of the X register. Register 31 reads as zero and ignores writes (the
  modelled instructions do not use it as the stack pointer).
\<close>

section \<open>Machine\<close>

record a64 =
  xr :: "nat \<Rightarrow> u64"
  nf :: bool
  zf :: bool
  cf :: bool
  vf :: bool
  amem :: "u64 \<Rightarrow> u8"

datatype alu = ADD | SUB | AND_op | ORR | ORN | EOR | BIC
datatype ext = UXTB | UXTH | UXTW | UXTX | SXTB | SXTH | SXTW | SXTX
datatype shift = LSL | LSR | ASR | ROR
datatype bitfield = BFI | BFXIL | UBFX | SBFX | UBFIZ | SBFIZ
datatype opnd = Imm u64 | Reg nat | Shifted nat shift nat | Extended nat ext

text \<open>Condition codes of \<^verbatim>\<open>flags_arm.h\<close>.\<close>

datatype cc = CC_EQ | CC_NE | CC_CS | CC_CC | CC_MI | CC_PL | CC_VS | CC_VC | CC_HI | CC_LS
  | CC_GE | CC_LT | CC_GT | CC_LE | CC_AL

text \<open>
  The first argument of an instruction says whether it is the 64-bit form. A branch names how many
  of the following instructions it skips.
\<close>

datatype instr =
    MOVZ bool nat u64 nat
  | MOVN bool nat u64 nat
  | MOVK bool nat u64 nat
  | DP bool alu bool nat nat opnd
  | DPC bool bool bool nat nat nat
  | BF bool bitfield nat nat nat nat
  | SHI bool shift nat nat nat
  | SHV bool shift nat nat nat
  | LDRi bool nat nat u64
  | STRi bool nat nat u64
  | LDRx nat nat nat nat
  | STRx nat nat nat nat
  | REV nat nat
  | REV16 nat nat
  | CSETi bool nat cc
  | CSETM bool nat cc
  | CSEL bool nat nat nat cc
  | MRS_NZCV nat
  | MSR_NZCV nat
  | MUL bool nat nat nat
  | MULL bool nat nat nat
  | BR cc nat
  | CB bool bool nat nat
  | TB bool nat nat nat

section \<open>Arithmetic with flags\<close>

text \<open>The architecture's AddWithCarry: result, N, Z, C (unsigned carry) and V (signed overflow).\<close>

definition add_flags :: "'a::len word \<Rightarrow> 'a word \<Rightarrow> bool \<Rightarrow> 'a word \<times> bool \<times> bool \<times> bool \<times> bool" where
  "add_flags a b c =
    (let u = uint a + uint b + of_bool c; r = word_of_int u in
     (r, sint r < 0, r = 0, 2 ^ LENGTH('a) \<le> u, sint r \<noteq> sint a + sint b + of_bool c))"

text \<open>The logical operations clear C and V.\<close>

definition logic_flags :: "'a::len word \<Rightarrow> 'a word \<times> bool \<times> bool \<times> bool \<times> bool" where
  "logic_flags r = (r, sint r < 0, r = 0, False, False)"

definition alu_op :: "alu \<Rightarrow> 'a::len word \<Rightarrow> 'a word \<Rightarrow> 'a word \<times> bool \<times> bool \<times> bool \<times> bool" where
  "alu_op op a b =
    (case op of ADD \<Rightarrow> add_flags a b False | SUB \<Rightarrow> add_flags a (NOT b) True
     | AND_op \<Rightarrow> logic_flags (a AND b) | ORR \<Rightarrow> logic_flags (a OR b)
     | ORN \<Rightarrow> logic_flags (a OR NOT b) | EOR \<Rightarrow> logic_flags (a XOR b)
     | BIC \<Rightarrow> logic_flags (a AND NOT b))"

section \<open>Register and memory access\<close>

definition rdx :: "a64 \<Rightarrow> nat \<Rightarrow> u64" where
  "rdx s n = (if n = 31 then 0 else xr s n)"

definition rdw :: "a64 \<Rightarrow> nat \<Rightarrow> u32" where
  "rdw s n = ucast (rdx s n)"

definition wrx :: "nat \<Rightarrow> u64 \<Rightarrow> a64 \<Rightarrow> a64" where
  "wrx d v s = (if d = 31 then s else s\<lparr>xr := (xr s)(d := v)\<rparr>)"

definition wrw :: "nat \<Rightarrow> u32 \<Rightarrow> a64 \<Rightarrow> a64" where
  "wrw d v s = wrx d (ucast v) s"

definition set_flags :: "bool \<Rightarrow> bool \<times> bool \<times> bool \<times> bool \<Rightarrow> a64 \<Rightarrow> a64" where
  "set_flags b fl s = (if b then case fl of (n, z, c, v) \<Rightarrow> s\<lparr>nf := n, zf := z, cf := c, vf := v\<rparr> else s)"

definition nzcv_word :: "a64 \<Rightarrow> u64" where
  "nzcv_word s = (if nf s then 0x80000000 else 0) OR (if zf s then 0x40000000 else 0) OR
     (if cf s then 0x20000000 else 0) OR (if vf s then 0x10000000 else 0)"

text \<open>The host is little-endian; \<open>load_le32\<close> and \<open>store_le32\<close> are those of Membank.\<close>

definition load_le64 :: "(u64 \<Rightarrow> u8) \<Rightarrow> u64 \<Rightarrow> u64" where
  "load_le64 h p = ucast (load_le32 h p) OR push_bit 32 (ucast (load_le32 h (p + 4)))"

definition store_le64 :: "u64 \<Rightarrow> u64 \<Rightarrow> (u64 \<Rightarrow> u8) \<Rightarrow> (u64 \<Rightarrow> u8)" where
  "store_le64 p v h = store_le32 (p + 4) (ucast (drop_bit 32 v)) (store_le32 p (ucast v) h)"

definition opw :: "a64 \<Rightarrow> opnd \<Rightarrow> u32" where
  "opw s b = (case b of Imm i \<Rightarrow> ucast i | Reg m \<Rightarrow> rdw s m
     | Shifted m k i \<Rightarrow> (case k of LSL \<Rightarrow> push_bit i (rdw s m) | LSR \<Rightarrow> drop_bit i (rdw s m)
         | ASR \<Rightarrow> signed_drop_bit i (rdw s m) | ROR \<Rightarrow> word_rotr i (rdw s m))
     | Extended m e \<Rightarrow> (case e of UXTB \<Rightarrow> ucast (ucast (rdw s m) :: u8)
         | UXTH \<Rightarrow> ucast (ucast (rdw s m) :: u16) | SXTB \<Rightarrow> scast (ucast (rdw s m) :: u8)
         | SXTH \<Rightarrow> scast (ucast (rdw s m) :: u16) | _ \<Rightarrow> rdw s m))"

definition opx :: "a64 \<Rightarrow> opnd \<Rightarrow> u64" where
  "opx s b = (case b of Imm i \<Rightarrow> i | Reg m \<Rightarrow> rdx s m
     | Shifted m k i \<Rightarrow> (case k of LSL \<Rightarrow> push_bit i (rdx s m) | LSR \<Rightarrow> drop_bit i (rdx s m)
         | ASR \<Rightarrow> signed_drop_bit i (rdx s m) | ROR \<Rightarrow> word_rotr i (rdx s m))
     | Extended m e \<Rightarrow> (case e of UXTB \<Rightarrow> ucast (ucast (rdw s m) :: u8)
         | UXTH \<Rightarrow> ucast (ucast (rdw s m) :: u16) | UXTW \<Rightarrow> ucast (rdw s m)
         | SXTB \<Rightarrow> scast (ucast (rdw s m) :: u8) | SXTH \<Rightarrow> scast (ucast (rdw s m) :: u16)
         | SXTW \<Rightarrow> scast (rdw s m) | _ \<Rightarrow> rdx s m))"

definition shift_op :: "shift \<Rightarrow> 'a::len word \<Rightarrow> nat \<Rightarrow> 'a word" where
  "shift_op k a i = (case k of LSL \<Rightarrow> push_bit i a | LSR \<Rightarrow> drop_bit i a
     | ASR \<Rightarrow> signed_drop_bit i a | ROR \<Rightarrow> word_rotr i a)"

text \<open>Bit fields: \<open>field l w\<close> is the mask of bits \<open>l\<close> to \<open>l + w - 1\<close>.\<close>

definition bitfield_op :: "bitfield \<Rightarrow> 'a::len word \<Rightarrow> 'a word \<Rightarrow> nat \<Rightarrow> nat \<Rightarrow> 'a word" where
  "bitfield_op k d n lsb w =
    (case k of BFI \<Rightarrow> (d AND NOT (push_bit lsb (mask w))) OR push_bit lsb (take_bit w n)
     | BFXIL \<Rightarrow> (d AND NOT (mask w)) OR take_bit w (drop_bit lsb n)
     | UBFX \<Rightarrow> take_bit w (drop_bit lsb n)
     | SBFX \<Rightarrow> signed_take_bit (w - 1) (drop_bit lsb n)
     | UBFIZ \<Rightarrow> push_bit lsb (take_bit w n)
     | SBFIZ \<Rightarrow> push_bit lsb (signed_take_bit (w - 1) n))"

fun cc_holds :: "cc \<Rightarrow> a64 \<Rightarrow> bool" where
  "cc_holds CC_EQ s = zf s" | "cc_holds CC_NE s = (\<not> zf s)"
| "cc_holds CC_CS s = cf s" | "cc_holds CC_CC s = (\<not> cf s)"
| "cc_holds CC_MI s = nf s" | "cc_holds CC_PL s = (\<not> nf s)"
| "cc_holds CC_VS s = vf s" | "cc_holds CC_VC s = (\<not> vf s)"
| "cc_holds CC_HI s = (cf s \<and> \<not> zf s)" | "cc_holds CC_LS s = (\<not> cf s \<or> zf s)"
| "cc_holds CC_GE s = (nf s = vf s)" | "cc_holds CC_LT s = (nf s \<noteq> vf s)"
| "cc_holds CC_GT s = (\<not> zf s \<and> nf s = vf s)" | "cc_holds CC_LE s = (zf s \<or> nf s \<noteq> vf s)"
| "cc_holds CC_AL s = True"

section \<open>Execution\<close>

definition rev32 :: "u32 \<Rightarrow> u32" where
  "rev32 x = bswap_32 x"

definition rev16 :: "u32 \<Rightarrow> u32" where
  "rev16 x = (push_bit 8 x AND 0xFF00FF00) OR (drop_bit 8 x AND 0x00FF00FF)"

text \<open>
  Loads and stores with a register offset are those of the header's \<^verbatim>\<open>LDR_wXx\<close> family: the
  guest address register is zero-extended from 32 bits and added to the base.
\<close>

fun step :: "instr \<Rightarrow> a64 \<Rightarrow> a64" where
  "step (MOVZ x d i sh) s = (if x then wrx d (push_bit sh i) s else wrw d (ucast (push_bit sh i)) s)"
| "step (MOVN x d i sh) s =
     (if x then wrx d (NOT (push_bit sh i)) s else wrw d (ucast (NOT (push_bit sh i))) s)"
| "step (MOVK x d i sh) s =
     (let v = (rdx s d AND NOT (push_bit sh 0xFFFF)) OR push_bit sh i in
      if x then wrx d v s else wrw d (ucast v) s)"
| "step (DP x op f d n b) s =
     (if x then case alu_op op (rdx s n) (opx s b) of (r, fl) \<Rightarrow> set_flags f fl (wrx d r s)
      else case alu_op op (rdw s n) (opw s b) of (r, fl) \<Rightarrow> set_flags f fl (wrw d r s))"
| "step (DPC x sub f d n m) s =
     (if x then case add_flags (rdx s n) (if sub then NOT (rdx s m) else rdx s m) (cf s) of
        (r, fl) \<Rightarrow> set_flags f fl (wrx d r s)
      else case add_flags (rdw s n) (if sub then NOT (rdw s m) else rdw s m) (cf s) of
        (r, fl) \<Rightarrow> set_flags f fl (wrw d r s))"
| "step (BF x k d n l w) s =
     (if x then wrx d (bitfield_op k (rdx s d) (rdx s n) l w) s
      else wrw d (bitfield_op k (rdw s d) (rdw s n) l w) s)"
| "step (SHI x k d n i) s =
     (if x then wrx d (shift_op k (rdx s n) i) s else wrw d (shift_op k (rdw s n) i) s)"
| "step (SHV x k d n m) s =
     (if x then wrx d (shift_op k (rdx s n) (unat (rdx s m) mod 64)) s
      else wrw d (shift_op k (rdw s n) (unat (rdw s m) mod 32)) s)"
| "step (LDRi x t n i) s =
     (if x then wrx t (load_le64 (amem s) (rdx s n + i)) s
      else wrw t (load_le32 (amem s) (rdx s n + i)) s)"
| "step (STRi x t n i) s =
     (if x then s\<lparr>amem := store_le64 (rdx s n + i) (rdx s t) (amem s)\<rparr>
      else s\<lparr>amem := store_le32 (rdx s n + i) (rdw s t) (amem s)\<rparr>)"
| "step (LDRx sz t n m) s =
     (let a = rdx s m + ucast (rdw s n) in
      if sz = 1 then wrw t (ucast (amem s a)) s
      else if sz = 2 then wrw t (ucast (amem s a) OR push_bit 8 (ucast (amem s (a + 1)))) s
      else wrw t (load_le32 (amem s) a) s)"
| "step (STRx sz t n m) s =
     (let a = rdx s m + ucast (rdw s n) in
      if sz = 1 then s\<lparr>amem := (amem s)(a := ucast (rdw s t))\<rparr>
      else if sz = 2 then
        s\<lparr>amem := (amem s)(a := ucast (rdw s t), a + 1 := ucast (drop_bit 8 (rdw s t)))\<rparr>
      else s\<lparr>amem := store_le32 a (rdw s t) (amem s)\<rparr>)"
| "step (REV d n) s = wrw d (rev32 (rdw s n)) s"
| "step (REV16 d n) s = wrw d (rev16 (rdw s n)) s"
| "step (CSETi x d c) s = wrx d (of_bool (cc_holds c s)) s"
| "step (CSETM x d c) s =
     (if x then wrx d (if cc_holds c s then - 1 else 0) s
      else wrw d (if cc_holds c s then - 1 else 0) s)"
| "step (CSEL x d n m c) s =
     (if x then wrx d (if cc_holds c s then rdx s n else rdx s m) s
      else wrw d (if cc_holds c s then rdw s n else rdw s m) s)"
| "step (MRS_NZCV t) s = wrx t (nzcv_word s) s"
| "step (MSR_NZCV t) s =
     s\<lparr>nf := bit (rdx s t) 31, zf := bit (rdx s t) 30, cf := bit (rdx s t) 29, vf := bit (rdx s t) 28\<rparr>"
| "step (MUL x d n m) s = (if x then wrx d (rdx s n * rdx s m) s else wrw d (rdw s n * rdw s m) s)"
| "step (MULL sg d n m) s =
     (if sg then wrx d (scast (rdw s n) * scast (rdw s m)) s
      else wrx d (ucast (rdw s n) * ucast (rdw s m)) s)"
| "step (BR c k) s = s"
| "step (CB x nz t k) s = s"
| "step (TB nz t b k) s = s"

text \<open>How many of the following instructions are skipped.\<close>

definition skips :: "instr \<Rightarrow> a64 \<Rightarrow> nat" where
  "skips i s = (case i of BR c k \<Rightarrow> if cc_holds c s then k else 0
     | CB x nz t k \<Rightarrow> if (if x then rdx s t = 0 else rdw s t = 0) = (\<not> nz) then k else 0
     | TB nz t b k \<Rightarrow> if bit (rdx s t) b = nz then k else 0
     | _ \<Rightarrow> 0)"

function exec :: "instr list \<Rightarrow> a64 \<Rightarrow> a64" where
  "exec [] s = s"
| "exec (i # is) s = exec (drop (skips i s) is) (step i s)"
  by pat_completeness auto
termination
  by (relation "measure (length \<circ> fst)") auto


section \<open>The header's macros\<close>

definition MOV_wi :: "nat \<Rightarrow> u64 \<Rightarrow> instr" where [a64_simps]: "MOV_wi d i = MOVZ False d (i AND 0xFFFF) 0"
definition MOV_xi :: "nat \<Rightarrow> u64 \<Rightarrow> instr" where [a64_simps]: "MOV_xi d i = MOVZ True d (i AND 0xFFFF) 0"
definition MOV_wish :: "nat \<Rightarrow> u64 \<Rightarrow> nat \<Rightarrow> instr" where [a64_simps]: "MOV_wish d i sh = MOVZ False d (i AND 0xFFFF) sh"
definition MOV_xish :: "nat \<Rightarrow> u64 \<Rightarrow> nat \<Rightarrow> instr" where [a64_simps]: "MOV_xish d i sh = MOVZ True d (i AND 0xFFFF) sh"
definition MOVN_wi :: "nat \<Rightarrow> u64 \<Rightarrow> instr" where [a64_simps]: "MOVN_wi d i = MOVN False d (i AND 0xFFFF) 0"
definition MOVK_wish :: "nat \<Rightarrow> u64 \<Rightarrow> nat \<Rightarrow> instr" where [a64_simps]: "MOVK_wish d i sh = MOVK False d (i AND 0xFFFF) sh"
definition MOVK_xish :: "nat \<Rightarrow> u64 \<Rightarrow> nat \<Rightarrow> instr" where [a64_simps]: "MOVK_xish d i sh = MOVK True d (i AND 0xFFFF) sh"
definition MOV_ww :: "nat \<Rightarrow> nat \<Rightarrow> instr" where [a64_simps]: "MOV_ww d m = DP False ORR False d 31 (Reg m)"
definition MOV_xx :: "nat \<Rightarrow> nat \<Rightarrow> instr" where [a64_simps]: "MOV_xx d m = DP True ORR False d 31 (Reg m)"
definition MVN_ww :: "nat \<Rightarrow> nat \<Rightarrow> instr" where [a64_simps]: "MVN_ww d m = DP False ORN False d 31 (Reg m)"
definition LDR_wXi :: "nat \<Rightarrow> nat \<Rightarrow> u64 \<Rightarrow> instr" where [a64_simps]: "LDR_wXi t n i = LDRi False t n (4 * ((i div 4) AND 0xFFF))"
definition LDR_xXi :: "nat \<Rightarrow> nat \<Rightarrow> u64 \<Rightarrow> instr" where [a64_simps]: "LDR_xXi t n i = LDRi True t n (8 * ((i div 8) AND 0xFFF))"
definition STR_wXi :: "nat \<Rightarrow> nat \<Rightarrow> u64 \<Rightarrow> instr" where [a64_simps]: "STR_wXi t n i = STRi False t n (4 * ((i div 4) AND 0xFFF))"
definition STR_xXi :: "nat \<Rightarrow> nat \<Rightarrow> u64 \<Rightarrow> instr" where [a64_simps]: "STR_xXi t n i = STRi True t n (8 * ((i div 8) AND 0xFFF))"
definition ADD_wwi :: "nat \<Rightarrow> nat \<Rightarrow> u64 \<Rightarrow> instr" where [a64_simps]: "ADD_wwi d n i = DP False ADD False d n (Imm (i AND 0xFFF))"
definition ADD_xxi :: "nat \<Rightarrow> nat \<Rightarrow> u64 \<Rightarrow> instr" where [a64_simps]: "ADD_xxi d n i = DP True ADD False d n (Imm (i AND 0xFFF))"
definition ADD_www :: "nat \<Rightarrow> nat \<Rightarrow> nat \<Rightarrow> instr" where [a64_simps]: "ADD_www d n m = DP False ADD False d n (Reg m)"
definition ADD_xxx :: "nat \<Rightarrow> nat \<Rightarrow> nat \<Rightarrow> instr" where [a64_simps]: "ADD_xxx d n m = DP True ADD False d n (Reg m)"
definition ADD_wwwLSLi :: "nat \<Rightarrow> nat \<Rightarrow> nat \<Rightarrow> nat \<Rightarrow> instr" where [a64_simps]: "ADD_wwwLSLi d n m i = DP False ADD False d n (Shifted m LSL (i mod 32))"
definition ADD_wwwEX :: "nat \<Rightarrow> nat \<Rightarrow> nat \<Rightarrow> ext \<Rightarrow> instr" where [a64_simps]: "ADD_wwwEX d n m e = DP False ADD False d n (Extended m e)"
definition ADD_xxwEX :: "nat \<Rightarrow> nat \<Rightarrow> nat \<Rightarrow> ext \<Rightarrow> instr" where [a64_simps]: "ADD_xxwEX d n m e = DP True ADD False d n (Extended m e)"
definition ADDS_wwi :: "nat \<Rightarrow> nat \<Rightarrow> u64 \<Rightarrow> instr" where [a64_simps]: "ADDS_wwi d n i = DP False ADD True d n (Imm (i AND 0xFFF))"
definition ADDS_www :: "nat \<Rightarrow> nat \<Rightarrow> nat \<Rightarrow> instr" where [a64_simps]: "ADDS_www d n m = DP False ADD True d n (Reg m)"
definition ADDS_wwwLSLi :: "nat \<Rightarrow> nat \<Rightarrow> nat \<Rightarrow> nat \<Rightarrow> instr" where [a64_simps]: "ADDS_wwwLSLi d n m i = DP False ADD True d n (Shifted m LSL (i mod 32))"
definition SUB_wwi :: "nat \<Rightarrow> nat \<Rightarrow> u64 \<Rightarrow> instr" where [a64_simps]: "SUB_wwi d n i = DP False SUB False d n (Imm (i AND 0xFFF))"
definition SUB_xxi :: "nat \<Rightarrow> nat \<Rightarrow> u64 \<Rightarrow> instr" where [a64_simps]: "SUB_xxi d n i = DP True SUB False d n (Imm (i AND 0xFFF))"
definition SUB_www :: "nat \<Rightarrow> nat \<Rightarrow> nat \<Rightarrow> instr" where [a64_simps]: "SUB_www d n m = DP False SUB False d n (Reg m)"
definition SUB_xxx :: "nat \<Rightarrow> nat \<Rightarrow> nat \<Rightarrow> instr" where [a64_simps]: "SUB_xxx d n m = DP True SUB False d n (Reg m)"
definition SUBS_wwi :: "nat \<Rightarrow> nat \<Rightarrow> u64 \<Rightarrow> instr" where [a64_simps]: "SUBS_wwi d n i = DP False SUB True d n (Imm (i AND 0xFFF))"
definition SUBS_wwish :: "nat \<Rightarrow> nat \<Rightarrow> u64 \<Rightarrow> nat \<Rightarrow> instr" where [a64_simps]: "SUBS_wwish d n i sh = DP False SUB True d n (Imm (push_bit (12 * (sh mod 2)) (i AND 0xFFF)))"
definition SUBS_www :: "nat \<Rightarrow> nat \<Rightarrow> nat \<Rightarrow> instr" where [a64_simps]: "SUBS_www d n m = DP False SUB True d n (Reg m)"
definition SUBS_wwwLSLi :: "nat \<Rightarrow> nat \<Rightarrow> nat \<Rightarrow> nat \<Rightarrow> instr" where [a64_simps]: "SUBS_wwwLSLi d n m i = DP False SUB True d n (Shifted m LSL (i mod 32))"
definition CMP_wi :: "nat \<Rightarrow> u64 \<Rightarrow> instr" where [a64_simps]: "CMP_wi n i = DP False SUB True 31 n (Imm (i AND 0xFFF))"
definition CMP_ww :: "nat \<Rightarrow> nat \<Rightarrow> instr" where [a64_simps]: "CMP_ww n m = DP False SUB True 31 n (Reg m)"
definition CMP_xx :: "nat \<Rightarrow> nat \<Rightarrow> instr" where [a64_simps]: "CMP_xx n m = DP True SUB True 31 n (Reg m)"
definition CMP_wwLSLi :: "nat \<Rightarrow> nat \<Rightarrow> nat \<Rightarrow> instr" where [a64_simps]: "CMP_wwLSLi n m i = DP False SUB True 31 n (Shifted m LSL (i mod 32))"
definition CMP_wwEX :: "nat \<Rightarrow> nat \<Rightarrow> ext \<Rightarrow> instr" where [a64_simps]: "CMP_wwEX n m e = DP False SUB True 31 n (Extended m e)"
definition NEG_ww :: "nat \<Rightarrow> nat \<Rightarrow> instr" where [a64_simps]: "NEG_ww d m = DP False SUB False d 31 (Reg m)"
definition NEGS_ww :: "nat \<Rightarrow> nat \<Rightarrow> instr" where [a64_simps]: "NEGS_ww d m = DP False SUB True d 31 (Reg m)"
definition AND_www :: "nat \<Rightarrow> nat \<Rightarrow> nat \<Rightarrow> instr" where [a64_simps]: "AND_www d n m = DP False AND_op False d n (Reg m)"
definition ANDS_www :: "nat \<Rightarrow> nat \<Rightarrow> nat \<Rightarrow> instr" where [a64_simps]: "ANDS_www d n m = DP False AND_op True d n (Reg m)"
definition TST_ww :: "nat \<Rightarrow> nat \<Rightarrow> instr" where [a64_simps]: "TST_ww n m = DP False AND_op True 31 n (Reg m)"
definition EOR_www :: "nat \<Rightarrow> nat \<Rightarrow> nat \<Rightarrow> instr" where [a64_simps]: "EOR_www d n m = DP False EOR False d n (Reg m)"
definition ORR_www :: "nat \<Rightarrow> nat \<Rightarrow> nat \<Rightarrow> instr" where [a64_simps]: "ORR_www d n m = DP False ORR False d n (Reg m)"
definition SXTB_ww :: "nat \<Rightarrow> nat \<Rightarrow> instr" where [a64_simps]: "SXTB_ww d n = BF False SBFX d n 0 8"
definition SXTH_ww :: "nat \<Rightarrow> nat \<Rightarrow> instr" where [a64_simps]: "SXTH_ww d n = BF False SBFX d n 0 16"
definition UXTB_xx :: "nat \<Rightarrow> nat \<Rightarrow> instr" where [a64_simps]: "UXTB_xx d n = BF True UBFX d n 0 8"
definition UXTH_xx :: "nat \<Rightarrow> nat \<Rightarrow> instr" where [a64_simps]: "UXTH_xx d n = BF True UBFX d n 0 16"
definition LSL_wwi :: "nat \<Rightarrow> nat \<Rightarrow> nat \<Rightarrow> instr" where [a64_simps]: "LSL_wwi d n i = SHI False LSL d n (i mod 32)"
definition LSR_wwi :: "nat \<Rightarrow> nat \<Rightarrow> nat \<Rightarrow> instr" where [a64_simps]: "LSR_wwi d n i = SHI False LSR d n (i mod 32)"
definition ASR_wwi :: "nat \<Rightarrow> nat \<Rightarrow> nat \<Rightarrow> instr" where [a64_simps]: "ASR_wwi d n i = SHI False ASR d n (i mod 32)"
definition ROR_wwi :: "nat \<Rightarrow> nat \<Rightarrow> nat \<Rightarrow> instr" where [a64_simps]: "ROR_wwi d n i = SHI False ROR d n (i mod 32)"
definition BFI_wwii :: "nat \<Rightarrow> nat \<Rightarrow> nat \<Rightarrow> nat \<Rightarrow> instr" where [a64_simps]: "BFI_wwii d n l w = BF False BFI d n l w"
definition BFI_xxii :: "nat \<Rightarrow> nat \<Rightarrow> nat \<Rightarrow> nat \<Rightarrow> instr" where [a64_simps]: "BFI_xxii d n l w = BF True BFI d n l w"
definition BFXIL_xxii :: "nat \<Rightarrow> nat \<Rightarrow> nat \<Rightarrow> nat \<Rightarrow> instr" where [a64_simps]: "BFXIL_xxii d n l w = BF True BFXIL d n l w"
definition CSET_xc :: "nat \<Rightarrow> cc \<Rightarrow> instr" where [a64_simps]: "CSET_xc d c = CSETi True d c"
definition MRS_NZCV_x :: "nat \<Rightarrow> instr" where [a64_simps]: "MRS_NZCV_x t = MRS_NZCV t"
definition MSR_NZCV_x :: "nat \<Rightarrow> instr" where [a64_simps]: "MSR_NZCV_x t = MSR_NZCV t"

definition MOVK_wi :: "nat \<Rightarrow> u64 \<Rightarrow> instr" where [a64_simps]: "MOVK_wi d i = MOVK False d (i AND 0xFFFF) 0"
definition MOVN_xi :: "nat \<Rightarrow> u64 \<Rightarrow> instr" where [a64_simps]: "MOVN_xi d i = MOVN True d (i AND 0xFFFF) 0"
definition MOVN_xish :: "nat \<Rightarrow> u64 \<Rightarrow> nat \<Rightarrow> instr" where [a64_simps]: "MOVN_xish d i sh = MOVN True d (i AND 0xFFFF) sh"
definition ADCS_www :: "nat \<Rightarrow> nat \<Rightarrow> nat \<Rightarrow> instr" where [a64_simps]: "ADCS_www d n m = DPC False False True d n m"
definition SBC_www :: "nat \<Rightarrow> nat \<Rightarrow> nat \<Rightarrow> instr" where [a64_simps]: "SBC_www d n m = DPC False True False d n m"
definition SBCS_www :: "nat \<Rightarrow> nat \<Rightarrow> nat \<Rightarrow> instr" where [a64_simps]: "SBCS_www d n m = DPC False True True d n m"
definition NGC_ww :: "nat \<Rightarrow> nat \<Rightarrow> instr" where [a64_simps]: "NGC_ww d m = DPC False True False d 31 m"
definition NGCS_ww :: "nat \<Rightarrow> nat \<Rightarrow> instr" where [a64_simps]: "NGCS_ww d m = DPC False True True d 31 m"
definition EOR_xxx :: "nat \<Rightarrow> nat \<Rightarrow> nat \<Rightarrow> instr" where [a64_simps]: "EOR_xxx d n m = DP True EOR False d n (Reg m)"
definition AND_xxx :: "nat \<Rightarrow> nat \<Rightarrow> nat \<Rightarrow> instr" where [a64_simps]: "AND_xxx d n m = DP True AND_op False d n (Reg m)"
definition BIC_www :: "nat \<Rightarrow> nat \<Rightarrow> nat \<Rightarrow> instr" where [a64_simps]: "BIC_www d n m = DP False BIC False d n (Reg m)"
definition TST_xx :: "nat \<Rightarrow> nat \<Rightarrow> instr" where [a64_simps]: "TST_xx n m = DP True AND_op True 31 n (Reg m)"
definition UBFX_wwii :: "nat \<Rightarrow> nat \<Rightarrow> nat \<Rightarrow> nat \<Rightarrow> instr" where [a64_simps]: "UBFX_wwii d n l w = BF False UBFX d n l w"
definition UBFX_xxii :: "nat \<Rightarrow> nat \<Rightarrow> nat \<Rightarrow> nat \<Rightarrow> instr" where [a64_simps]: "UBFX_xxii d n l w = BF True UBFX d n l w"
definition UBFIZ_xxii :: "nat \<Rightarrow> nat \<Rightarrow> nat \<Rightarrow> nat \<Rightarrow> instr" where [a64_simps]: "UBFIZ_xxii d n l w = BF True UBFIZ d n l w"
definition BFXIL_wwii :: "nat \<Rightarrow> nat \<Rightarrow> nat \<Rightarrow> nat \<Rightarrow> instr" where [a64_simps]: "BFXIL_wwii d n l w = BF False BFXIL d n l w"
definition SXTW_xw :: "nat \<Rightarrow> nat \<Rightarrow> instr" where [a64_simps]: "SXTW_xw d n = BF True SBFX d n 0 32"
definition LSL_www :: "nat \<Rightarrow> nat \<Rightarrow> nat \<Rightarrow> instr" where [a64_simps]: "LSL_www d n m = SHV False LSL d n m"
definition LSL_xxx :: "nat \<Rightarrow> nat \<Rightarrow> nat \<Rightarrow> instr" where [a64_simps]: "LSL_xxx d n m = SHV True LSL d n m"
definition LSR_www :: "nat \<Rightarrow> nat \<Rightarrow> nat \<Rightarrow> instr" where [a64_simps]: "LSR_www d n m = SHV False LSR d n m"
definition LSR_xxx :: "nat \<Rightarrow> nat \<Rightarrow> nat \<Rightarrow> instr" where [a64_simps]: "LSR_xxx d n m = SHV True LSR d n m"
definition ASR_www :: "nat \<Rightarrow> nat \<Rightarrow> nat \<Rightarrow> instr" where [a64_simps]: "ASR_www d n m = SHV False ASR d n m"
definition ROR_www :: "nat \<Rightarrow> nat \<Rightarrow> nat \<Rightarrow> instr" where [a64_simps]: "ROR_www d n m = SHV False ROR d n m"
definition LSR_xxi :: "nat \<Rightarrow> nat \<Rightarrow> nat \<Rightarrow> instr" where [a64_simps]: "LSR_xxi d n i = SHI True LSR d n (i mod 64)"
definition SMULL_xww :: "nat \<Rightarrow> nat \<Rightarrow> nat \<Rightarrow> instr" where [a64_simps]: "SMULL_xww d n m = MULL True d n m"
definition UMULL_xww :: "nat \<Rightarrow> nat \<Rightarrow> nat \<Rightarrow> instr" where [a64_simps]: "UMULL_xww d n m = MULL False d n m"
definition CSEL_xxxc :: "nat \<Rightarrow> nat \<Rightarrow> nat \<Rightarrow> cc \<Rightarrow> instr" where [a64_simps]: "CSEL_xxxc d n m c = CSEL True d n m c"

text \<open>
  A branch macro takes the distance from the branch itself, in instructions; \<open>instr\<close> counts the
  instructions that are skipped.
\<close>

definition B_i :: "nat \<Rightarrow> instr" where [a64_simps]: "B_i i = BR CC_AL (i - 1)"
definition CC_B_i :: "cc \<Rightarrow> nat \<Rightarrow> instr" where [a64_simps]: "CC_B_i c i = BR c (i - 1)"
definition CBZ_wi :: "nat \<Rightarrow> nat \<Rightarrow> instr" where [a64_simps]: "CBZ_wi t i = CB False False t (i - 1)"
definition CBZ_xi :: "nat \<Rightarrow> nat \<Rightarrow> instr" where [a64_simps]: "CBZ_xi t i = CB True False t (i - 1)"
definition TBNZ_wii :: "nat \<Rightarrow> nat \<Rightarrow> nat \<Rightarrow> instr" where [a64_simps]: "TBNZ_wii t b i = TB True t (b mod 32) (i - 1)"
definition TBZ_wii :: "nat \<Rightarrow> nat \<Rightarrow> nat \<Rightarrow> instr" where [a64_simps]: "TBZ_wii t b i = TB False t (b mod 32) (i - 1)"
definition TBZ_xii :: "nat \<Rightarrow> nat \<Rightarrow> nat \<Rightarrow> instr" where [a64_simps]: "TBZ_xii t b i = TB False t (b mod 64) (i - 1)"

text \<open>
  The immediate of a logical instruction: \<^verbatim>\<open>imms + 1\<close> ones rotated right by
  \<^verbatim>\<open>immr\<close> (\<^verbatim>\<open>immEncode\<close>; the first argument selects the 64-bit or the 32-bit element).
\<close>

definition immEncode :: "bool \<Rightarrow> nat \<Rightarrow> nat \<Rightarrow> u64" where
  "immEncode x immr imms =
    (if x then word_rotr immr (mask (Suc imms)) else ucast (word_rotr immr (mask (Suc imms) :: u32)))"

definition EOR_xxCflag :: "nat \<Rightarrow> nat \<Rightarrow> instr" where [a64_simps]: "EOR_xxCflag d n = DP True EOR False d n (Imm (immEncode True 35 0))"
definition SET_xxNflag :: "nat \<Rightarrow> nat \<Rightarrow> instr" where [a64_simps]: "SET_xxNflag d n = DP True ORR False d n (Imm (immEncode True 33 0))"
definition SET_xxZflag :: "nat \<Rightarrow> nat \<Rightarrow> instr" where [a64_simps]: "SET_xxZflag d n = DP True ORR False d n (Imm (immEncode True 34 0))"
definition SET_xxCflag :: "nat \<Rightarrow> nat \<Rightarrow> instr" where [a64_simps]: "SET_xxCflag d n = DP True ORR False d n (Imm (immEncode True 35 0))"
definition SET_xxVflag :: "nat \<Rightarrow> nat \<Rightarrow> instr" where [a64_simps]: "SET_xxVflag d n = DP True ORR False d n (Imm (immEncode True 36 0))"
definition CLEAR_xxZflag :: "nat \<Rightarrow> nat \<Rightarrow> instr" where [a64_simps]: "CLEAR_xxZflag d n = DP True AND_op False d n (Imm (immEncode True 33 62))"
definition EOR_xxbit :: "nat \<Rightarrow> nat \<Rightarrow> nat \<Rightarrow> instr" where [a64_simps]: "EOR_xxbit d n b = DP True EOR False d n (Imm (immEncode True ((64 - b mod 64) mod 64) 0))"
definition SET_xxbit :: "nat \<Rightarrow> nat \<Rightarrow> nat \<Rightarrow> instr" where [a64_simps]: "SET_xxbit d n b = DP True ORR False d n (Imm (immEncode True ((64 - b mod 64) mod 64) 0))"
definition CLEAR_xxbit :: "nat \<Rightarrow> nat \<Rightarrow> nat \<Rightarrow> instr" where [a64_simps]: "CLEAR_xxbit d n b = DP True AND_op False d n (Imm (immEncode True ((64 - Suc b mod 64) mod 64) 62))"
definition CLEAR_LOW8_xx :: "nat \<Rightarrow> nat \<Rightarrow> instr" where [a64_simps]: "CLEAR_LOW8_xx d n = DP True AND_op False d n (Imm (immEncode True 56 55))"
definition CLEAR_LOW16_xx :: "nat \<Rightarrow> nat \<Rightarrow> instr" where [a64_simps]: "CLEAR_LOW16_xx d n = DP True AND_op False d n (Imm (immEncode True 48 47))"
definition AND_ww3f :: "nat \<Rightarrow> nat \<Rightarrow> instr" where [a64_simps]: "AND_ww3f d n = DP False AND_op False d n (Imm (immEncode False 0 5))"
definition ANDS_ww3f :: "nat \<Rightarrow> nat \<Rightarrow> instr" where [a64_simps]: "ANDS_ww3f d n = DP False AND_op True d n (Imm (immEncode False 0 5))"

text \<open>The macro's opcode has the 64-bit bit set although its operands are written as W registers.\<close>

definition SUB_wwwEX :: "nat \<Rightarrow> nat \<Rightarrow> nat \<Rightarrow> ext \<Rightarrow> instr" where [a64_simps]:
  "SUB_wwwEX d n m e = DP True SUB False d n (Extended m e)"

section \<open>Emitter helpers (codegen_arm64.cpp)\<close>

definition SIGNED8_IMM_2_REG :: "nat \<Rightarrow> u32 \<Rightarrow> instr list" where
  "SIGNED8_IMM_2_REG r v =
    (let v16 = scast (ucast v :: u8) :: u16 in
     if v16 AND 0x8000 \<noteq> 0 then [MOVN_wi r (ucast (NOT v16))] else [MOV_wi r (ucast v16)])"

definition UNSIGNED16_IMM_2_REG :: "nat \<Rightarrow> u32 \<Rightarrow> instr list" where
  "UNSIGNED16_IMM_2_REG r v = [MOV_wi r (ucast v)]"

definition SIGNED16_IMM_2_REG :: "nat \<Rightarrow> u32 \<Rightarrow> instr list" where
  "SIGNED16_IMM_2_REG r v =
    (if v AND 0x8000 \<noteq> 0 then [MOVN_wi r (ucast (ucast (NOT v) :: u16))]
     else [MOV_wi r (ucast (ucast v :: u16))])"

definition UNSIGNED8_REG_2_REG :: "nat \<Rightarrow> nat \<Rightarrow> instr list" where
  "UNSIGNED8_REG_2_REG d n = [UXTB_xx d n]"

definition SIGNED8_REG_2_REG :: "nat \<Rightarrow> nat \<Rightarrow> instr list" where
  "SIGNED8_REG_2_REG d n = [SXTB_ww d n]"

definition UNSIGNED16_REG_2_REG :: "nat \<Rightarrow> nat \<Rightarrow> instr list" where
  "UNSIGNED16_REG_2_REG d n = [UXTH_xx d n]"

definition SIGNED16_REG_2_REG :: "nat \<Rightarrow> nat \<Rightarrow> instr list" where
  "SIGNED16_REG_2_REG d n = [SXTH_ww d n]"

definition LOAD_U32 :: "nat \<Rightarrow> u32 \<Rightarrow> instr list" where
  "LOAD_U32 r val =
    (if val AND 0xFFFF0000 = 0xFFFF0000 then [MOVN_wi r (ucast (NOT val))]
     else MOV_wi r (ucast val) #
       (if drop_bit 16 val \<noteq> 0 then [MOVK_wish r (ucast (drop_bit 16 val)) 16] else []))"

definition LOAD_U64 :: "nat \<Rightarrow> u64 \<Rightarrow> instr list" where
  "LOAD_U64 r val = MOV_xi r val #
    (if drop_bit 16 val AND 0xFFFF \<noteq> 0 then [MOVK_xish r (drop_bit 16 val) 16] else []) @
    (if drop_bit 32 val AND 0xFFFF \<noteq> 0 then [MOVK_xish r (drop_bit 32 val) 32] else []) @
    (if drop_bit 48 val \<noteq> 0 then [MOVK_xish r (drop_bit 48 val) 48] else [])"

section \<open>Executing sequences\<close>

text \<open>A sequence is closed when no branch leaves it; then it can be followed by other code.\<close>

definition closed :: "instr list \<Rightarrow> bool" where
  "closed c \<longleftrightarrow> (\<forall>j s. j < length c \<longrightarrow> skips (c ! j) s \<le> length c - Suc j)"

lemma closed_Nil [simp]: "closed []"
  by (simp add: closed_def)

lemma closed_append [simp]: "closed xs \<Longrightarrow> closed ys \<Longrightarrow> closed (xs @ ys)"
proof (unfold closed_def, intro allI impI)
  fix j s
  assume a: "\<forall>j s. j < length xs \<longrightarrow> skips (xs ! j) s \<le> length xs - Suc j"
    "\<forall>j s. j < length ys \<longrightarrow> skips (ys ! j) s \<le> length ys - Suc j"
    and j: "j < length (xs @ ys)"
  show "skips ((xs @ ys) ! j) s \<le> length (xs @ ys) - Suc j"
  proof (cases "j < length xs")
    case True
    then have "skips (xs ! j) s \<le> length xs - Suc j" using a(1) by blast
    with True show ?thesis by (simp add: nth_append)
  next
    case False
    then obtain k where k: "j = length xs + k" by (metis le_Suc_ex not_less)
    then have "skips (ys ! k) s \<le> length ys - Suc k" using a(2) j by simp
    with k show ?thesis by (simp add: nth_append)
  qed
qed

lemma closed_ConsD: "closed (i # is) \<Longrightarrow> skips i s \<le> length is"
  by (auto simp: closed_def dest!: spec [of _ 0])

lemma closed_drop: "closed xs \<Longrightarrow> closed (drop k xs)"
proof (unfold closed_def, intro allI impI)
  fix j s
  assume c: "\<forall>j s. j < length xs \<longrightarrow> skips (xs ! j) s \<le> length xs - Suc j" and "j < length (drop k xs)"
  then have "skips (xs ! (k + j)) s \<le> length xs - Suc (k + j)" by auto
  with \<open>j < length (drop k xs)\<close> show "skips (drop k xs ! j) s \<le> length (drop k xs) - Suc j" by simp
qed

lemma exec_append: "closed xs \<Longrightarrow> exec (xs @ ys) s = exec ys (exec xs s)"
proof (induction xs s rule: exec.induct)
  case (2 i "is" s)
  have "skips i s \<le> length is" using 2 by (simp add: closed_ConsD)
  moreover have "closed (drop (skips i s) is)"
    using closed_drop [OF 2(2), of "Suc (skips i s)"] by simp
  ultimately show ?case using 2 by simp
qed simp

definition straight :: "instr \<Rightarrow> bool" where
  "straight i = (case i of BR c k \<Rightarrow> False | CB x nz t k \<Rightarrow> False | TB nz t b k \<Rightarrow> False | _ \<Rightarrow> True)"

lemma straight_skips: "straight i \<Longrightarrow> skips i s = 0"
  by (cases i) (simp_all add: straight_def skips_def)

lemma closed_straight: "list_all straight xs \<Longrightarrow> closed xs"
  by (auto simp: closed_def list_all_length straight_skips)

lemma exec_straight: "straight i \<Longrightarrow> exec (i # is) s = exec is (step i s)"
  by (simp add: straight_skips)


section \<open>Register access laws\<close>

lemma rdx_wrx [a64_simps]: "d \<noteq> 31 \<Longrightarrow> rdx (wrx d v s) n = (if n = d then v else rdx s n)"
  by (simp add: rdx_def wrx_def)

lemma rdx_wrw [a64_simps]: "d \<noteq> 31 \<Longrightarrow> rdx (wrw d v s) n = (if n = d then ucast v else rdx s n)"
  by (simp add: wrw_def rdx_wrx)

lemma rdx_31 [simp]: "rdx s 31 = 0"
  by (simp add: rdx_def)

lemma rdw_31 [simp]: "rdw s 31 = 0"
  by (simp add: rdw_def)

lemma wr_31 [simp]: "wrx 31 v s = s" "wrw 31 w s = s"
  by (simp_all add: wrx_def wrw_def)

lemma rdw_wrx [a64_simps]: "d \<noteq> 31 \<Longrightarrow> rdw (wrx d v s) n = (if n = d then ucast v else rdw s n)"
  by (simp add: rdw_def rdx_wrx)

lemma rdw_wrw [a64_simps]: "d \<noteq> 31 \<Longrightarrow> rdw (wrw d v s) n = (if n = d then v else rdw s n)"
  by (simp add: rdw_def rdx_wrw)

lemma xr_wrx: "d \<noteq> 31 \<Longrightarrow> xr (wrx d v s) n = (if n = d then v else xr s n)"
  by (simp add: wrx_def)

lemma wr_frame [simp]:
  "amem (wrx d v s) = amem s" "nf (wrx d v s) = nf s" "zf (wrx d v s) = zf s"
  "cf (wrx d v s) = cf s" "vf (wrx d v s) = vf s"
  "amem (wrw d w s) = amem s" "nf (wrw d w s) = nf s" "zf (wrw d w s) = zf s"
  "cf (wrw d w s) = cf s" "vf (wrw d w s) = vf s"
  by (simp_all add: wrx_def wrw_def)

lemma wr_twice [simp]: "wrx d v (wrx d u s) = wrx d v s" "wrw d v' (wrw d u' s) = wrw d v' s"
  "wrx d v (wrw d u' s) = wrx d v s" "wrw d v' (wrx d u s) = wrw d v' s"
  by (simp_all add: wrx_def wrw_def)

lemma set_flags_frame [simp]:
  "rdx (set_flags b fl s) n = rdx s n" "rdw (set_flags b fl s) n = rdw s n"
  "amem (set_flags b fl s) = amem s" "set_flags False fl s = s"
  by (auto simp: set_flags_def rdx_def rdw_def split: prod.split)

lemma set_flags_simps [simp]:
  "nf (set_flags True (n, z, c, v) s) = n" "zf (set_flags True (n, z, c, v) s) = z"
  "cf (set_flags True (n, z, c, v) s) = c" "vf (set_flags True (n, z, c, v) s) = v"
  by (simp_all add: set_flags_def)

lemma amem_frame [simp]:
  "rdx (s\<lparr>amem := h\<rparr>) n = rdx s n" "rdw (s\<lparr>amem := h\<rparr>) n = rdw s n"
  by (simp_all add: rdx_def rdw_def)

lemma alu_op_result [simp]:
  "fst (alu_op ADD a b) = a + b" "fst (alu_op SUB a b) = a - b" "fst (alu_op AND_op a b) = a AND b"
  "fst (alu_op ORR a b) = a OR b" "fst (alu_op EOR a b) = a XOR b" "fst (alu_op ORN a b) = a OR NOT b"
  "fst (alu_op BIC a b) = a AND NOT b"
  by (simp_all add: alu_op_def add_flags_def logic_flags_def Let_def not_eq_complement)

declare step.simps(4,5) [simp del]

lemma step_DP [simp]:
  "step (DP True op f d n b) s =
     set_flags f (snd (alu_op op (rdx s n) (opx s b))) (wrx d (fst (alu_op op (rdx s n) (opx s b))) s)"
  "step (DP False op f d n b) s =
     set_flags f (snd (alu_op op (rdw s n) (opw s b))) (wrw d (fst (alu_op op (rdw s n) (opw s b))) s)"
  by (simp_all add: step.simps(4) case_prod_beta)

lemma step_DPC [simp]:
  "step (DPC True sub f d n m) s =
     (let r = add_flags (rdx s n) (if sub then NOT (rdx s m) else rdx s m) (cf s)
      in set_flags f (snd r) (wrx d (fst r) s))"
  "step (DPC False sub f d n m) s =
     (let r = add_flags (rdw s n) (if sub then NOT (rdw s m) else rdw s m) (cf s)
      in set_flags f (snd r) (wrw d (fst r) s))"
  by (simp_all add: step.simps(5) case_prod_beta Let_def)

lemma op_simps [simp]:
  "opw s (Imm i) = ucast i" "opw s (Reg m) = rdw s m" "opw s (Shifted m LSL k) = push_bit k (rdw s m)"
  "opw s (Shifted m LSR k) = drop_bit k (rdw s m)"
  "opw s (Extended m SXTH) = scast (ucast (rdw s m) :: u16)"
  "opx s (Imm i) = i" "opx s (Reg m) = rdx s m" "opx s (Shifted m LSL k) = push_bit k (rdx s m)"
  "opx s (Extended m SXTH) = scast (ucast (rdw s m) :: u16)"
  "opx s (Extended m SXTW) = scast (rdw s m)"
  by (simp_all add: opw_def opx_def)

lemma set_flags_xr [simp]: "xr (set_flags b fl s) = xr s"
  by (auto simp: set_flags_def split: prod.split)

section \<open>What the helpers load\<close>

lemma straight_simps [simp]:
  "straight (MOVZ x d i sh)" "straight (MOVN x d i sh)" "straight (MOVK x d i sh)"
  "straight (DP x op f d n b)" "straight (DPC x sub f d n m)" "straight (BF x k d n l w)"
  "straight (SHI x k' d n i')" "straight (SHV x k' d n m)" "straight (LDRi x t n i)"
  "straight (STRi x t n i)" "straight (LDRx sz t n m)" "straight (STRx sz t n m)" "straight (REV d n)"
  "straight (REV16 d n)" "straight (CSETi x d c)" "straight (CSETM x d c)" "straight (CSEL x d n m c)"
  "straight (MRS_NZCV t)" "straight (MSR_NZCV t)" "straight (MUL x d n m)"
  "straight (MULL x d n m)"
  by (simp_all add: straight_def)

declare exec.simps(2) [simp del]
declare exec_straight [simp]

lemma LOAD_U32_parts:
  "val AND 0xFFFF0000 = 0xFFFF0000 \<Longrightarrow> (ucast (NOT (ucast (NOT val) AND 0xFFFF :: u64)) :: u32) = val"
  "drop_bit 16 val = 0 \<Longrightarrow> (ucast ((ucast val :: u64) AND 0xFFFF) :: u32) = val"
  "(ucast ((ucast (ucast ((ucast val :: u64) AND 0xFFFF) :: u32) AND NOT 0xFFFF0000) OR
      push_bit 16 (ucast (drop_bit 16 val) AND 0xFFFF) :: u64) :: u32) = val"
  for val :: u32
  by (simp_all add: blast32)

lemma exec_LOAD_U32:
  assumes "r \<noteq> 31"
  shows "exec (LOAD_U32 r val @ c) s = exec c (wrw r val s)"
  using assms LOAD_U32_parts [of val]
  by (auto simp: LOAD_U32_def a64_simps Let_def)

lemma closed_LOAD_U32 [simp]: "closed (LOAD_U32 r val)"
  by (rule closed_straight) (simp add: LOAD_U32_def a64_simps)

lemma exec_MOVK_field:
  assumes "r \<noteq> 31" "v AND push_bit k 0xFFFF = 0"
  shows "exec ((if f AND 0xFFFF \<noteq> 0 then [MOVK_xish r f k] else []) @ c) (wrx r v s) =
     exec c (wrx r (v OR push_bit k (f AND 0xFFFF)) s)"
proof -
  have "v AND NOT (push_bit k 0xFFFF) = v"
    using assms(2) by (simp add: bit_eq_iff bit_simps) blast
  then show ?thesis using assms(1) by (simp add: a64_simps Let_def del: push_bit_and)
qed

lemma exec_LOAD_U64:
  assumes "r \<noteq> 31"
  shows "exec (LOAD_U64 r val @ c) s = exec c (wrx r val s)"
proof -
  have h: "drop_bit 48 val AND 0xFFFF = drop_bit 48 val" by (simp add: blast64)
  have all: "((val AND 0xFFFF OR push_bit 16 (drop_bit 16 val AND 0xFFFF)) OR
      push_bit 32 (drop_bit 32 val AND 0xFFFF)) OR push_bit 48 (drop_bit 48 val) = val"
    by (simp add: blast64)
  have z: "(val AND 0xFFFF) AND push_bit 16 0xFFFF = 0"
    "(val AND 0xFFFF OR push_bit 16 (drop_bit 16 val AND 0xFFFF)) AND push_bit 32 0xFFFF = 0"
    "((val AND 0xFFFF OR push_bit 16 (drop_bit 16 val AND 0xFFFF)) OR
      push_bit 32 (drop_bit 32 val AND 0xFFFF)) AND push_bit 48 0xFFFF = 0"
    by (simp_all add: blast64)
  have m: "exec (MOV_xi r val # c) s = exec c (wrx r (val AND 0xFFFF) s)" for c
    by (simp add: a64_simps)
  show ?thesis
    unfolding LOAD_U64_def append_Cons append_assoc m
    by (simp only: exec_MOVK_field [OF assms z(1)] exec_MOVK_field [OF assms z(2)]
        exec_MOVK_field [OF assms z(3), of "drop_bit 48 val", unfolded h] all)
qed

lemma closed_LOAD_U64 [simp]: "closed (LOAD_U64 r val)"
  by (rule closed_straight) (simp add: LOAD_U64_def a64_simps)

lemma exec_SIGNED16_IMM:
  assumes "r \<noteq> 31"
  shows "exec (SIGNED16_IMM_2_REG r v @ c) s = exec c (wrw r (sext16_32 v) s)"
proof -
  have "v AND 0x8000 \<noteq> 0 \<longleftrightarrow> bit v 15"
    using and_exp_eq_0_iff_not_bit [of v 15] by simp
  moreover have "bit v 15 \<Longrightarrow> (ucast (NOT ((ucast (ucast (NOT v) :: u16) :: u64) AND 0xFFFF)) :: u32) = sext16_32 v"
    "\<not> bit v 15 \<Longrightarrow> (ucast ((ucast (ucast v :: u16) :: u64) AND 0xFFFF) :: u32) = sext16_32 v"
    by (simp_all add: sext16_32_def blast32)
  ultimately show ?thesis by (simp add: SIGNED16_IMM_2_REG_def a64_simps)
qed

lemma exec_SIGNED8_IMM:
  assumes "r \<noteq> 31"
  shows "exec (SIGNED8_IMM_2_REG r v @ c) s = exec c (wrw r (sext8_32 v) s)"
proof -
  have "(scast (ucast v :: u8) :: u16) AND 0x8000 \<noteq> 0 \<longleftrightarrow> bit v 7"
    using and_exp_eq_0_iff_not_bit [of "scast (ucast v :: u8) :: u16" 15] by (simp add: bit_simps)
  moreover have "bit v 7 \<Longrightarrow> (ucast (NOT ((ucast (NOT (scast (ucast v :: u8) :: u16)) :: u64) AND 0xFFFF)) :: u32) = sext8_32 v"
    "\<not> bit v 7 \<Longrightarrow> (ucast ((ucast (scast (ucast v :: u8) :: u16) :: u64) AND 0xFFFF) :: u32) = sext8_32 v"
    by (simp_all add: sext8_32_def blast32)
  ultimately show ?thesis by (simp add: SIGNED8_IMM_2_REG_def a64_simps Let_def)
qed

lemma closed_IMM [simp]: "closed (SIGNED16_IMM_2_REG r v)" "closed (SIGNED8_IMM_2_REG r v)"
  by (auto intro!: closed_straight simp: SIGNED16_IMM_2_REG_def SIGNED8_IMM_2_REG_def a64_simps Let_def)


section \<open>Logical immediates\<close>

lemma immEncode_flags [simp]:
  "immEncode True 33 0 = 0x80000000" "immEncode True 34 0 = 0x40000000"
  "immEncode True 35 0 = 0x20000000" "immEncode True 36 0 = 0x10000000"
  "immEncode True 33 62 = NOT 0x40000000" "immEncode False 0 5 = 0x3F"
  "immEncode True 56 55 = NOT 0xFF" "immEncode True 48 47 = NOT 0xFFFF"
  by code_simp+

lemma immEncode_bit: "b < 64 \<Longrightarrow> immEncode True ((64 - b mod 64) mod 64) 0 = push_bit b 1"
  "b < 64 \<Longrightarrow> immEncode True ((64 - Suc b mod 64) mod 64) 62 = NOT (push_bit b 1)"
proof -
  assume b: "b < 64"
  have r: "(i + (64 - b mod 64) mod 64) mod 64 = 0 \<longleftrightarrow> i = b" if "i < 64" for i
    using that b by (cases "b = 0") (auto simp: mod_if)
  have r': "(i + (64 - Suc b mod 64) mod 64) mod 64 < 63 \<longleftrightarrow> i \<noteq> b" if "i < 64" for i
    using that b by (cases "b = 63") (auto simp: mod_if)
  show "immEncode True ((64 - b mod 64) mod 64) 0 = push_bit b 1"
    by (rule bit_word_eqI) (simp add: immEncode_def bit_word_rotr_iff bit_simps r)
  show "immEncode True ((64 - Suc b mod 64) mod 64) 62 = NOT (push_bit b 1)"
    by (rule bit_word_eqI) (simp add: immEncode_def bit_word_rotr_iff bit_simps r')
qed

section \<open>Loads after stores\<close>

definition sep :: "u64 \<Rightarrow> nat \<Rightarrow> u64 \<Rightarrow> nat \<Rightarrow> bool" where
  "sep p n q k \<longleftrightarrow> (\<forall>i<n. \<forall>j<k. p + of_nat i \<noteq> q + of_nat j)"

lemma all_less_4: "(\<forall>i<4::nat. P i) \<longleftrightarrow> P 0 \<and> P 1 \<and> P 2 \<and> P 3"
  by (simp add: numeral_eq_Suc All_less_Suc conj_ac)

lemma load_le32_cong: "(\<And>i. i < 4 \<Longrightarrow> h (p + of_nat i) = h' (p + of_nat i)) \<Longrightarrow> load_le32 h p = load_le32 h' p"
  using all_less_4 [of "\<lambda>i. h (p + of_nat i) = h' (p + of_nat i)"] by (simp add: load_le32_def)

lemma store_le32_other: "(\<And>j. j < 4 \<Longrightarrow> a \<noteq> q + of_nat j) \<Longrightarrow> store_le32 q v h a = h a"
  using all_less_4 [of "\<lambda>j. a \<noteq> q + of_nat j"] by (simp add: store_le32_def)

lemma load_store_32 [simp]: "load_le32 (store_le32 p v h) p = v"
  by (simp add: load_le32_def store_le32_def blast32)

lemma load_store_32_sep: "sep p 4 q 4 \<Longrightarrow> load_le32 (store_le32 q v h) p = load_le32 h p"
  by (intro load_le32_cong store_le32_other) (simp add: sep_def)

lemma sep_halves: "sep p 8 q k \<Longrightarrow> sep p 4 q k \<and> sep (p + 4) 4 q k"
  "sep p n q 8 \<Longrightarrow> sep p n q 4 \<and> sep p n (q + 4) 4"
proof -
  have shift: "x + 4 + of_nat i = x + of_nat (i + 4)" for x :: u64 and i by (simp add: algebra_simps)
  show "sep p 8 q k \<Longrightarrow> sep p 4 q k \<and> sep (p + 4) 4 q k"
    unfolding sep_def shift by (auto simp del: of_nat_add)
  show "sep p n q 8 \<Longrightarrow> sep p n q 4 \<and> sep p n (q + 4) 4"
    unfolding sep_def shift by (auto simp del: of_nat_add)
qed

lemma sep_next: "sep (p + 4) 4 p 4" "sep p 4 (p + 4) 4"
proof -
  have ne: "p + of_nat (i + 4) \<noteq> p + of_nat j" if "j < 4" "i < 4" for i j :: nat
    using that of_nat_u64_inj [of "i + 4" j] by (simp del: of_nat_add)
  have sh: "p + 4 + of_nat i = p + of_nat (i + 4)" for i by (simp add: algebra_simps)
  show "sep (p + 4) 4 p 4" "sep p 4 (p + 4) 4"
    unfolding sep_def sh using ne ne [symmetric] by blast+
qed

lemma load_store_64 [simp]: "load_le64 (store_le64 p v h) p = v"
proof -
  have "load_le32 (store_le64 p v h) p = ucast v"
    by (simp add: store_le64_def load_store_32_sep sep_next)
  moreover have "load_le32 (store_le64 p v h) (p + 4) = ucast (drop_bit 32 v)"
    by (simp add: store_le64_def)
  ultimately show ?thesis by (simp add: load_le64_def blast64)
qed

lemma load_store_sep:
  "sep p 4 q 8 \<Longrightarrow> load_le32 (store_le64 q w h) p = load_le32 h p"
  "sep p 8 q 4 \<Longrightarrow> load_le64 (store_le32 q v h) p = load_le64 h p"
  "sep p 8 q 8 \<Longrightarrow> load_le64 (store_le64 q w h) p = load_le64 h p"
  by (auto simp: store_le64_def load_le64_def load_store_32_sep dest!: sep_halves)

end
