(* ===== verification/Links.thy ===== *)
theory Links
  imports Main
begin

text \<open>
  The lists of the block cache. All of them have one shape: a record in a list has a field \<open>next\<close> and
  a field \<open>prev_p\<close> that points to the pointer which points to the record, either a root (a global, an
  entry of a table) or the \<open>next\<close> field of the record before. The theory holds the fields of such lists
  as maps (one map for each field), the two operations every list function of the sources is made of,
  and what they do to the lists of records that the pointers stand for.
\<close>

section \<open>Operations\<close>

datatype ('r, 'b) slot = Root 'r | Next 'b

record ('r, 'b) links =
  lk_root :: "'r \<Rightarrow> 'b option"
  lk_next :: "'b \<Rightarrow> 'b option"
  lk_prev :: "'b \<Rightarrow> ('r, 'b) slot option"

fun store :: "('r, 'b) slot \<Rightarrow> 'b option \<Rightarrow> ('r, 'b) links \<Rightarrow> ('r, 'b) links" where
  "store (Root r) v L = L\<lparr>lk_root := (lk_root L)(r := v)\<rparr>"
| "store (Next b) v L = L\<lparr>lk_next := (lk_next L)(b := v)\<rparr>"

definition unlink :: "'b \<Rightarrow> ('r, 'b) links \<Rightarrow> ('r, 'b) links" where
  "unlink b L =
    (let L = (case lk_prev L b of None \<Rightarrow> L | Some p \<Rightarrow> store p (lk_next L b) L)
     in case lk_next L b of None \<Rightarrow> L
        | Some c \<Rightarrow> L\<lparr>lk_prev := (lk_prev L)(c := lk_prev L b)\<rparr>)"

definition link_front :: "'r \<Rightarrow> 'b \<Rightarrow> ('r, 'b) links \<Rightarrow> ('r, 'b) links" where
  "link_front r b L =
    (let L = (case lk_root L r of None \<Rightarrow> L
              | Some c \<Rightarrow> L\<lparr>lk_prev := (lk_prev L)(c := Some (Next b))\<rparr>);
         L = L\<lparr>lk_next := (lk_next L)(b := lk_root L r)\<rparr>
     in L\<lparr>lk_root := (lk_root L)(r := Some b), lk_prev := (lk_prev L)(b := Some (Root r))\<rparr>)"

section \<open>The records of a list\<close>

primrec chain :: "('r, 'b) links \<Rightarrow> ('r, 'b) slot \<Rightarrow> 'b option \<Rightarrow> 'b list \<Rightarrow> bool" where
  "chain L p h [] \<longleftrightarrow> h = None"
| "chain L p h (b # bs) \<longleftrightarrow> h = Some b \<and> lk_prev L b = Some p \<and> chain L (Next b) (lk_next L b) bs"

text \<open>
  \<open>links_on R L \<alpha>\<close>: from each root \<open>r\<close> in \<open>R\<close> the pointers of \<open>L\<close> reach exactly the records \<open>\<alpha> r\<close>, and
  no record is in two places. \<open>members R \<alpha>\<close> are the records in the lists of \<open>R\<close>.
\<close>

definition members :: "'r set \<Rightarrow> ('r \<Rightarrow> 'b list) \<Rightarrow> 'b set" where
  "members R \<alpha> = (\<Union>r\<in>R. set (\<alpha> r))"

definition links_on :: "'r set \<Rightarrow> ('r, 'b) links \<Rightarrow> ('r \<Rightarrow> 'b list) \<Rightarrow> bool" where
  "links_on R L \<alpha> \<longleftrightarrow> (\<forall>r\<in>R. chain L (Root r) (lk_root L r) (\<alpha> r) \<and> distinct (\<alpha> r)) \<and>
     (\<forall>r\<in>R. \<forall>r'\<in>R. r \<noteq> r' \<longrightarrow> set (\<alpha> r) \<inter> set (\<alpha> r') = {})"

lemma chain_cong:
  "(\<And>b. b \<in> set bs \<Longrightarrow> lk_next L b = lk_next L' b \<and> lk_prev L b = lk_prev L' b) \<Longrightarrow>
     chain L p h bs = chain L' p h bs"
  by (induction bs arbitrary: p h) auto

lemma chain_unique: "chain L p h bs \<Longrightarrow> chain L p h cs \<Longrightarrow> bs = cs"
  by (induction bs arbitrary: p h cs) (case_tac cs; auto)+

lemma chain_empty: "chain L p None bs \<longleftrightarrow> bs = []"
  by (cases bs) auto

lemma chain_hd: "chain L p h bs \<Longrightarrow> h = (case bs of [] \<Rightarrow> None | b # _ \<Rightarrow> Some b)"
  by (cases bs) auto

lemma links_onD:
  assumes "links_on R L \<alpha>" "r \<in> R"
  shows "chain L (Root r) (lk_root L r) (\<alpha> r)" "distinct (\<alpha> r)"
    "\<And>r'. r' \<in> R \<Longrightarrow> r' \<noteq> r \<Longrightarrow> set (\<alpha> r) \<inter> set (\<alpha> r') = {}"
  using assms unfolding links_on_def by auto

lemma links_on_root:
  "links_on R L \<alpha> \<Longrightarrow> r \<in> R \<Longrightarrow> lk_root L r = (case \<alpha> r of [] \<Rightarrow> None | b # _ \<Rightarrow> Some b)"
  by (rule chain_hd [OF links_onD(1)])

lemma links_on_mono: "links_on R L \<alpha> \<Longrightarrow> R' \<subseteq> R \<Longrightarrow> links_on R' L \<alpha>"
  unfolding links_on_def by blast

lemma links_on_cong:
  assumes "\<And>r. r \<in> R \<Longrightarrow> lk_root L r = lk_root L' r"
    and "\<And>b. b \<in> members R \<alpha> \<Longrightarrow> lk_next L b = lk_next L' b \<and> lk_prev L b = lk_prev L' b"
  shows "links_on R L \<alpha> = links_on R L' \<alpha>"
proof -
  have "chain L (Root r) (lk_root L r) (\<alpha> r) = chain L' (Root r) (lk_root L' r) (\<alpha> r)" if "r \<in> R" for r
    unfolding assms(1) [OF that] by (rule chain_cong) (use assms(2) that in \<open>auto simp: members_def\<close>)
  then show ?thesis by (auto simp: links_on_def)
qed

lemma links_on_nonmember:
  assumes "b \<notin> members R \<alpha>"
  shows "links_on R (L\<lparr>lk_next := (lk_next L)(b := v)\<rparr>) \<alpha> = links_on R L \<alpha>"
    "links_on R (L\<lparr>lk_prev := (lk_prev L)(b := w)\<rparr>) \<alpha> = links_on R L \<alpha>"
  by (rule links_on_cong; use assms in auto)+

section \<open>Putting a record in front\<close>

lemma link_front_simps [simp]:
  "lk_root (link_front r b L) = (lk_root L)(r := Some b)"
  "lk_next (link_front r b L) = (lk_next L)(b := lk_root L r)"
  "lk_prev (link_front r b L) = (case lk_root L r of None \<Rightarrow> lk_prev L | Some c \<Rightarrow> (lk_prev L)(c := Some (Next b)))
     (b := Some (Root r))"
  by (simp_all add: link_front_def split: option.splits)

lemma chain_link_front:
  assumes "chain L (Root r) (lk_root L r) bs" "b \<notin> set bs" "distinct bs"
  shows "chain (link_front r b L) (Root r) (Some b) (b # bs)"
proof (cases bs)
  case Nil
  with assms show ?thesis by simp
next
  case (Cons c cs)
  with assms have c: "lk_root L r = Some c" "c \<noteq> b" "c \<notin> set cs" "chain L (Next c) (lk_next L c) cs" by auto
  have "chain (link_front r b L) (Next c) (lk_next L c) cs = chain L (Next c) (lk_next L c) cs"
    by (rule chain_cong) (use c assms Cons in auto)
  with c Cons show ?thesis by simp
qed

lemma links_on_link_front:
  assumes "links_on R L \<alpha>" "r \<in> R" "b \<notin> members R \<alpha>"
  shows "links_on R (link_front r b L) (\<alpha>(r := b # \<alpha> r))"
proof -
  note r = links_onD [OF assms(1,2)]
  have b: "b \<notin> set (\<alpha> r')" if "r' \<in> R" for r' using assms(3) that by (auto simp: members_def)
  have other: "chain (link_front r b L) (Root r') (lk_root L r') (\<alpha> r')" if r': "r' \<in> R" "r' \<noteq> r" for r'
  proof -
    have "chain (link_front r b L) (Root r') (lk_root L r') (\<alpha> r') = chain L (Root r') (lk_root L r') (\<alpha> r')"
    proof (rule chain_cong)
      fix c assume c: "c \<in> set (\<alpha> r')"
      then have "lk_root L r \<noteq> Some c" using r(3) [OF r'] chain_hd [OF r(1)] by (cases "\<alpha> r") auto
      with c b [OF r'(1)] show "lk_next (link_front r b L) c = lk_next L c \<and> lk_prev (link_front r b L) c = lk_prev L c"
        by (auto split: option.splits)
    qed
    then show ?thesis using links_onD(1) [OF assms(1) r'(1)] by simp
  qed
  show ?thesis unfolding links_on_def
    using chain_link_front [OF r(1) _ r(2), of b] other b assms(1,2) links_onD(2,3) [OF assms(1)]
    by (auto simp: links_on_def)
qed

section \<open>Taking a record out\<close>

lemma chain_split:
  "chain L p h (xs @ b # ys) \<Longrightarrow>
     lk_prev L b = Some (if xs = [] then p else Next (last xs)) \<and> chain L (Next b) (lk_next L b) ys"
proof (induction xs arbitrary: p h)
  case (Cons x xs)
  then have "chain L (Next x) (lk_next L x) (xs @ b # ys)" by simp
  from Cons.IH [OF this] show ?case by simp
qed simp

lemma unlink_loose: "lk_prev L b = None \<Longrightarrow> lk_next L b = None \<Longrightarrow> unlink b L = L"
  by (simp add: unlink_def)

lemma unlink_simps:
  assumes "lk_prev L b = Some p" "p \<noteq> Next b"
  shows "lk_root (unlink b L) = (case p of Root r \<Rightarrow> (lk_root L)(r := lk_next L b) | Next c \<Rightarrow> lk_root L)"
    "lk_next (unlink b L) = (case p of Root r \<Rightarrow> lk_next L | Next c \<Rightarrow> (lk_next L)(c := lk_next L b))"
    "lk_prev (unlink b L) = (case lk_next L b of None \<Rightarrow> lk_prev L | Some c \<Rightarrow> (lk_prev L)(c := Some p))"
proof -
  have "lk_next (store p (lk_next L b) L) b = lk_next L b" "lk_prev (store p (lk_next L b) L) = lk_prev L"
    using assms(2) by (cases p; simp)+
  then have u: "unlink b L = (let K = store p (lk_next L b) L
     in case lk_next L b of None \<Rightarrow> K | Some c \<Rightarrow> K\<lparr>lk_prev := (lk_prev L)(c := Some p)\<rparr>)"
    by (cases "lk_next L b") (simp_all add: unlink_def assms(1) Let_def)
  show "lk_root (unlink b L) = (case p of Root r \<Rightarrow> (lk_root L)(r := lk_next L b) | Next c \<Rightarrow> lk_root L)"
    "lk_next (unlink b L) = (case p of Root r \<Rightarrow> lk_next L | Next c \<Rightarrow> (lk_next L)(c := lk_next L b))"
    "lk_prev (unlink b L) = (case lk_next L b of None \<Rightarrow> lk_prev L | Some c \<Rightarrow> (lk_prev L)(c := Some p))"
    unfolding u by (cases p; cases "lk_next L b"; simp)+
qed

lemma chain_unlink_tail:
  assumes "chain L (Next b) (lk_next L b) ys" "b \<notin> set ys" "distinct ys"
    "lk_prev L b = Some p" "p \<noteq> Next b" "\<And>c. p = Next c \<Longrightarrow> c \<notin> set ys"
  shows "chain (unlink b L) p (lk_next L b) ys"
proof (cases ys)
  case Nil
  with assms show ?thesis by simp
next
  case (Cons c cs)
  then have c: "lk_next L b = Some c" "c \<noteq> b" "c \<notin> set cs" "chain L (Next c) (lk_next L c) cs" using assms by auto
  have "chain (unlink b L) (Next c) (lk_next L c) cs = chain L (Next c) (lk_next L c) cs"
    by (rule chain_cong) (use c assms Cons in \<open>auto simp: unlink_simps [OF assms(4,5)] split: slot.splits\<close>)
  moreover have "lk_next (unlink b L) c = lk_next L c"
    using assms(6) Cons by (auto simp: unlink_simps [OF assms(4,5)] split: slot.splits)
  ultimately show ?thesis using c Cons by (simp add: unlink_simps [OF assms(4,5)])
qed

lemma chain_unlink:
  assumes "chain L p h (xs @ b # ys)" "distinct (xs @ b # ys)" "\<And>c. p = Next c \<Longrightarrow> c \<notin> set (xs @ b # ys)"
  shows "chain (unlink b L) p (if xs = [] then lk_next L b else h) (xs @ ys)"
  using assms
proof (induction xs arbitrary: p h)
  case Nil
  then show ?case using chain_unlink_tail [of L b ys p] by auto
next
  case (Cons x xs)
  have x: "h = Some x" "lk_prev L x = Some p" "chain L (Next x) (lk_next L x) (xs @ b # ys)" using Cons.prems(1) by auto
  let ?q = "if xs = [] then Next x else Next (last xs)"
  have q: "lk_prev L b = Some ?q" "chain L (Next b) (lk_next L b) ys" using chain_split [OF x(3)] by auto
  have s: "?q \<noteq> Next b" using Cons.prems(2) by (cases "xs = []") auto
  have nx: "lk_next L b \<noteq> Some x" using chain_hd [OF q(2)] Cons.prems(2) by (cases ys) auto
  have "lk_next (unlink b L) x = (if xs = [] then lk_next L b else lk_next L x)"
    using Cons.prems(2) by (auto simp: unlink_simps [OF q(1) s])
  moreover have "lk_prev (unlink b L) x = Some p"
    using x nx by (auto simp: unlink_simps [OF q(1) s] split: option.splits)
  moreover have "chain (unlink b L) (Next x) (if xs = [] then lk_next L b else lk_next L x) (xs @ ys)"
    using Cons.IH [OF x(3)] Cons.prems(2) by auto
  ultimately show ?case using x by simp
qed

lemma unlink_at:
  assumes "chain L (Root r) h (xs @ b # ys)" "distinct (xs @ b # ys)"
  shows "lk_prev L b = Some (if xs = [] then Root r else Next (last xs))"
    "(if xs = [] then Root r else Next (last xs)) \<noteq> Next b"
    "lk_next L b = (case ys of [] \<Rightarrow> None | c # _ \<Rightarrow> Some c)"
proof -
  have b: "lk_prev L b = Some (if xs = [] then Root r else Next (last xs))" "chain L (Next b) (lk_next L b) ys"
    using chain_split [OF assms(1)] by auto
  show "lk_prev L b = Some (if xs = [] then Root r else Next (last xs))" by (rule b(1))
  show "(if xs = [] then Root r else Next (last xs)) \<noteq> Next b" using assms(2) last_in_set [of xs] by auto
  show "lk_next L b = (case ys of [] \<Rightarrow> None | c # _ \<Rightarrow> Some c)" by (rule chain_hd [OF b(2)])
qed

lemma unlink_frame:
  assumes "chain L (Root r) h (xs @ b # ys)" "distinct (xs @ b # ys)"
  shows "c \<notin> set (xs @ b # ys) \<Longrightarrow> lk_next (unlink b L) c = lk_next L c \<and> lk_prev (unlink b L) c = lk_prev L c"
    "lk_root (unlink b L) = (if xs = [] then (lk_root L)(r := lk_next L b) else lk_root L)"
proof -
  note q = unlink_at [OF assms]
  show "lk_root (unlink b L) = (if xs = [] then (lk_root L)(r := lk_next L b) else lk_root L)"
    by (simp add: unlink_simps [OF q(1,2)])
  show "lk_next (unlink b L) c = lk_next L c \<and> lk_prev (unlink b L) c = lk_prev L c" if "c \<notin> set (xs @ b # ys)"
  proof -
    have "lk_next L b \<noteq> Some c" using that q(3) by (cases ys) auto
    moreover have "xs \<noteq> [] \<Longrightarrow> last xs \<noteq> c" using that last_in_set [of xs] by auto
    ultimately show ?thesis by (cases "xs = []"; cases "lk_next L b") (auto simp: unlink_simps [OF q(1,2)])
  qed
qed

lemma links_on_unlink:
  assumes "links_on R L \<alpha>" "r \<in> R" "b \<in> set (\<alpha> r)"
  shows "links_on R (unlink b L) (\<alpha>(r := remove1 b (\<alpha> r)))"
proof -
  note r = links_onD [OF assms(1,2)]
  obtain xs ys where xy: "\<alpha> r = xs @ b # ys" using split_list [OF assms(3)] by blast
  with r(2) have d: "distinct (xs @ b # ys)" by simp
  from d have rm: "remove1 b (\<alpha> r) = xs @ ys" by (simp add: xy remove1_append)
  have c: "chain L (Root r) (lk_root L r) (xs @ b # ys)" using r(1) xy by simp
  have "chain (unlink b L) (Root r) (lk_root (unlink b L) r) (xs @ ys)"
    using chain_unlink [OF c d] by (cases "xs = []") (simp_all add: unlink_frame(2) [OF c d])
  moreover have "chain (unlink b L) (Root r') (lk_root (unlink b L) r') (\<alpha> r')" if r': "r' \<in> R" "r' \<noteq> r" for r'
  proof -
    have "e \<notin> set (xs @ b # ys)" if "e \<in> set (\<alpha> r')" for e using r(3) [OF r'] that xy by auto
    then have "chain (unlink b L) (Root r') (lk_root L r') (\<alpha> r') = chain L (Root r') (lk_root L r') (\<alpha> r')"
      by (intro chain_cong) (use unlink_frame(1) [OF c d] in blast)
    moreover have "lk_root (unlink b L) r' = lk_root L r'" using r'(2) by (simp add: unlink_frame(2) [OF c d])
    ultimately show ?thesis using links_onD(1) [OF assms(1) r'(1)] by simp
  qed
  moreover have "distinct (xs @ ys)" using d by simp
  ultimately show ?thesis
    using assms(1) rm xy r(3) by (fastforce simp: links_on_def)
qed

section \<open>The interface of the lists\<close>

text \<open>
  What the block cache relies on: a state \<open>holds\<close> disjoint lists of distinct records, one for each root; a
  record that is in no list can be put in front of one, and a record of a list can be taken out. Moving
  a record to the front of a list, its own or another one, is a client of the two.
\<close>

definition moved :: "'r \<Rightarrow> 'b \<Rightarrow> ('r \<Rightarrow> 'b list) \<Rightarrow> 'r \<Rightarrow> 'b list" where
  "moved r b A = (\<lambda>r'. if r' = r then b # remove1 b (A r) else remove1 b (A r'))"

locale record_lists =
  fixes holds :: "'s \<Rightarrow> ('r \<Rightarrow> 'b list) \<Rightarrow> bool"
    and put :: "'r \<Rightarrow> 'b \<Rightarrow> 's \<Rightarrow> 's"
    and take_out :: "'b \<Rightarrow> 's \<Rightarrow> 's"
  assumes distinct_records: "holds s A \<Longrightarrow> distinct (A r)"
    and disjoint_lists: "holds s A \<Longrightarrow> r \<noteq> r' \<Longrightarrow> set (A r) \<inter> set (A r') = {}"
    and put_holds: "holds s A \<Longrightarrow> b \<notin> members UNIV A \<Longrightarrow> holds (put r b s) (A(r := b # A r))"
    and take_out_holds: "holds s A \<Longrightarrow> b \<in> set (A r) \<Longrightarrow> holds (take_out b s) (A(r := remove1 b (A r)))"
begin

lemma moved_mem:
  assumes "holds s A"
  shows "c \<noteq> b \<Longrightarrow> c \<in> set (moved r b A r') \<longleftrightarrow> c \<in> set (A r')" "b \<in> set (moved r b A r') \<longleftrightarrow> r' = r"
  using distinct_records [OF assms] by (auto simp: moved_def)

lemma moved_members:
  assumes "holds s A" "b \<in> members UNIV A"
  shows "members UNIV (moved r b A) = members UNIV A"
proof (intro set_eqI)
  fix c
  show "c \<in> members UNIV (moved r b A) \<longleftrightarrow> c \<in> members UNIV A"
    using moved_mem [OF assms(1)] assms(2) by (cases "c = b") (auto simp: members_def)
qed

lemma move_front_holds:
  assumes "holds s A" "b \<in> members UNIV A"
  shows "holds (put r b (take_out b s)) (moved r b A)"
proof -
  obtain q where q: "b \<in> set (A q)" using assms(2) by (auto simp: members_def)
  let ?A = "A(q := remove1 b (A q))"
  have o: "b \<notin> set (A q')" if "q' \<noteq> q" for q' using disjoint_lists [OF assms(1) that] q by blast
  then have n: "b \<notin> members UNIV ?A" using distinct_records [OF assms(1)] by (auto simp: members_def)
  have "?A(r := b # ?A r) = moved r b A" using o by (auto simp: moved_def remove1_idem fun_eq_iff)
  with put_holds [OF take_out_holds [OF assms(1) q] n, of r] show ?thesis by simp
qed

end

interpretation lists: record_lists "links_on UNIV" link_front unlink
proof unfold_locales
  fix L :: "('r, 'b) links" and A and b and r r' :: 'r
  assume l: "links_on UNIV L A"
  show "distinct (A r)" by (rule links_onD(2) [OF l UNIV_I])
  show "set (A r) \<inter> set (A r') = {}" if "r \<noteq> r'" using links_onD(3) [OF l UNIV_I UNIV_I] that by metis
  show "links_on UNIV (link_front r b L) (A(r := b # A r))" if "b \<notin> members UNIV A"
    by (rule links_on_link_front [OF l UNIV_I that])
  show "links_on UNIV (unlink b L) (A(r := remove1 b (A r)))" if "b \<in> set (A r)"
    by (rule links_on_unlink [OF l UNIV_I that])
qed

end
