(* ===== verification/Jit_Live.thy ===== *)
theory Jit_Live
  imports Arm64
begin

unbundle bit_operations_syntax

text \<open>
  The register allocator of the ARM64 JIT: the emit-time state \<^verbatim>\<open>live\<close>
  (\<^verbatim>\<open>src/cpu/jit/arm/compemu_arm.h\<close>), the operations on it of
  \<^verbatim>\<open>compemu_support_arm.cpp\<close> and the low-level moves of
  \<^verbatim>\<open>codegen_arm64.cpp\<close> they emit.

  Virtual registers 0 to 15 are the 68k's D and A registers, then come \<open>PC_P\<close>, \<open>FLAGX\<close>,
  \<open>FLAGTMP\<close> and three scratch registers. \<open>realreg = -1\<close> is \<open>None\<close>. The array
  \<^verbatim>\<open>holds\<close> with its length \<^verbatim>\<open>nholds\<close> is the list \<open>ns_holds\<close>. The emitted code is
  the list \<open>l_code\<close>. An operation that calls \<^verbatim>\<open>jit_abort\<close> yields \<open>None\<close>. The
  allocation statistics (\<^verbatim>\<open>log_*\<close>) are written and never read, and are left out.
\<close>

section \<open>State\<close>

datatype vstatus = INMEM | CLEAN | DIRTY | UNDEF | ISCONST
datatype fstat = NADA | TRASH | VALID
datatype needflush = NF_SCRATCH | NF_TOMEM | NF_HANDLER

record reg_status =
  rs_val :: u64
  rs_status :: vstatus
  rs_realreg :: "nat option"
  rs_realind :: nat
  rs_needflush :: needflush

record n_status =
  ns_touched :: u32
  ns_holds :: "nat list"
  ns_locked :: nat

record live =
  l_state :: "nat \<Rightarrow> reg_status"
  l_nat :: "nat \<Rightarrow> n_status"
  l_flags_on_stack :: fstat
  l_flags_in_flags :: fstat
  l_flags_are_important :: bool
  l_scratch_in_use :: "nat \<Rightarrow> bool"
  l_flags_carry_inverted :: bool
  l_touchcnt :: u32
  l_needed_flags :: u32
  l_m68k_pc_offset :: u32
  l_comp_pc_p :: u64
  l_jit_exception :: u32
  l_code :: "instr list"

text \<open>Where the state lives at run time: the addresses the emitted code is built with.\<close>

record jenv =
  e_regs :: u64
  e_mem :: "nat \<Rightarrow> u64"
  e_pc_oldp :: u64
  e_pc :: u64
  e_instruction_pc :: u64

definition N_REGS :: nat where "N_REGS = 18"
definition VREGS :: nat where "VREGS = 22"
definition PC_P :: nat where "PC_P = 16"
definition FLAGX :: nat where "FLAGX = 17"
definition FLAGTMP :: nat where "FLAGTMP = 18"
definition S1 :: nat where "S1 = 19"
definition SCRATCH_REGS :: nat where "SCRATCH_REGS = 3"
definition REG_WORK1 :: nat where "REG_WORK1 = 2"
definition REG_WORK2 :: nat where "REG_WORK2 = 3"
definition REG_WORK3 :: nat where "REG_WORK3 = 4"
definition REG_WORK4 :: nat where "REG_WORK4 = 5"
definition R_MEMSTART :: nat where "R_MEMSTART = 27"
definition R_REGSTRUCT :: nat where "R_REGSTRUCT = 28"
definition FLAG_X :: u32 where "FLAG_X = 0x10"

lemmas jit_consts = N_REGS_def VREGS_def PC_P_def FLAGX_def FLAGTMP_def S1_def SCRATCH_REGS_def
  REG_WORK1_def REG_WORK2_def REG_WORK3_def REG_WORK4_def R_MEMSTART_def R_REGSTRUCT_def FLAG_X_def

text \<open>The native registers that are never handed out; the list ends where the C array has -1.\<close>

definition always_used :: "nat list" where "always_used = [2, 3, 4, 5, 18, R_MEMSTART, R_REGSTRUCT]"

definition emit :: "instr list \<Rightarrow> live \<Rightarrow> live" where
  "emit c l = l\<lparr>l_code := l_code l @ c\<rparr>"

definition upd_state :: "nat \<Rightarrow> (reg_status \<Rightarrow> reg_status) \<Rightarrow> live \<Rightarrow> live" where
  "upd_state r f l = l\<lparr>l_state := (l_state l)(r := f (l_state l r))\<rparr>"

definition upd_nat :: "nat \<Rightarrow> (n_status \<Rightarrow> n_status) \<Rightarrow> live \<Rightarrow> live" where
  "upd_nat n f l = l\<lparr>l_nat := (l_nat l)(n := f (l_nat l n))\<rparr>"

abbreviation status :: "live \<Rightarrow> nat \<Rightarrow> vstatus" where
  "status l r \<equiv> rs_status (l_state l r)"

abbreviation val_of :: "live \<Rightarrow> nat \<Rightarrow> u64" where
  "val_of l r \<equiv> rs_val (l_state l r)"

abbreviation holds :: "live \<Rightarrow> nat \<Rightarrow> nat list" where
  "holds l n \<equiv> ns_holds (l_nat l n)"

abbreviation locked :: "live \<Rightarrow> nat \<Rightarrow> nat" where
  "locked l n \<equiv> ns_locked (l_nat l n)"

section \<open>Low-level moves (codegen_arm64.cpp)\<close>

definition compemu_raw_store_pc_state_from_work1 :: "jenv \<Rightarrow> instr list" where
  "compemu_raw_store_pc_state_from_work1 E =
    [STR_xXi REG_WORK1 R_REGSTRUCT (e_mem E PC_P - e_regs E),
     STR_xXi REG_WORK1 R_REGSTRUCT (e_pc_oldp E - e_regs E),
     SUB_xxx REG_WORK2 REG_WORK1 R_MEMSTART,
     STR_wXi REG_WORK2 R_REGSTRUCT (e_pc E - e_regs E),
     STR_wXi REG_WORK2 R_REGSTRUCT (e_instruction_pc E - e_regs E)]"

definition compemu_raw_set_pc_i :: "jenv \<Rightarrow> u64 \<Rightarrow> instr list" where
  "compemu_raw_set_pc_i E s = LOAD_U64 REG_WORK1 s @ compemu_raw_store_pc_state_from_work1 E"

definition compemu_raw_mov_l_mi :: "jenv \<Rightarrow> u64 \<Rightarrow> u64 \<Rightarrow> instr list" where
  "compemu_raw_mov_l_mi E d s =
    (let idx = d - e_regs E in
     if d = e_mem E PC_P \<or> d = e_pc_oldp E then
       LOAD_U64 REG_WORK2 s @ [STR_xXi REG_WORK2 R_REGSTRUCT idx]
     else if idx \<le> 16380 \<and> idx AND 3 = 0 then
       LOAD_U32 REG_WORK2 (ucast s) @ [STR_wXi REG_WORK2 R_REGSTRUCT idx]
     else LOAD_U64 REG_WORK1 d @ LOAD_U32 REG_WORK2 (ucast s) @ [STR_wXi REG_WORK2 REG_WORK1 0])"

definition compemu_raw_mov_l_mr :: "jenv \<Rightarrow> u64 \<Rightarrow> nat \<Rightarrow> instr list" where
  "compemu_raw_mov_l_mr E d s =
    (let idx = d - e_regs E in
     if d = e_mem E PC_P \<or> d = e_pc_oldp E then [STR_xXi s R_REGSTRUCT idx]
     else if idx \<le> 16380 \<and> idx AND 3 = 0 then [STR_wXi s R_REGSTRUCT idx]
     else LOAD_U64 REG_WORK1 d @ [STR_wXi s REG_WORK1 0])"

definition compemu_raw_mov_l_ri :: "nat \<Rightarrow> u32 \<Rightarrow> instr list" where
  "compemu_raw_mov_l_ri d s = LOAD_U32 d s"

definition compemu_raw_mov_l_rm :: "jenv \<Rightarrow> nat \<Rightarrow> u64 \<Rightarrow> instr list" where
  "compemu_raw_mov_l_rm E d s =
    (let idx = s - e_regs E in
     if s = e_mem E PC_P \<or> s = e_pc_oldp E then [LDR_xXi d R_REGSTRUCT idx]
     else if idx \<le> 16380 \<and> idx AND 3 = 0 then [LDR_wXi d R_REGSTRUCT idx]
     else LOAD_U64 REG_WORK1 s @ [LDR_wXi d REG_WORK1 0])"

definition compemu_raw_mov_l_rr :: "nat \<Rightarrow> nat \<Rightarrow> instr list" where
  "compemu_raw_mov_l_rr d s = [MOV_xx d s]"

section \<open>Register status\<close>

definition set_status :: "nat \<Rightarrow> vstatus \<Rightarrow> live \<Rightarrow> live" where
  "set_status r st l = upd_state r (\<lambda>x. x\<lparr>rs_status := st\<rparr>) l"

definition isinreg :: "live \<Rightarrow> nat \<Rightarrow> bool" where
  "isinreg l r \<longleftrightarrow> status l r = CLEAN \<or> status l r = DIRTY"

definition isconst :: "live \<Rightarrow> nat \<Rightarrow> bool" where
  "isconst l r \<longleftrightarrow> status l r = ISCONST"

definition tomem :: "jenv \<Rightarrow> nat \<Rightarrow> live \<Rightarrow> live" where
  "tomem E r l =
    (if status l r = DIRTY then
       set_status r CLEAN (emit (compemu_raw_mov_l_mr E (e_mem E r) (the (rs_realreg (l_state l r)))) l)
     else l)"

definition writeback_const :: "jenv \<Rightarrow> nat \<Rightarrow> live \<Rightarrow> live option" where
  "writeback_const E r l =
    (if \<not> isconst l r then Some l
     else if rs_needflush (l_state l r) = NF_HANDLER then None
     else let l1 = (if r = PC_P then emit (compemu_raw_set_pc_i E (val_of l r)) l
                    else emit (compemu_raw_mov_l_mi E (e_mem E r) (val_of l r)) l)
          in Some (set_status r INMEM (upd_state r (\<lambda>x. x\<lparr>rs_val := 0\<rparr>) l1)))"

definition tomem_c :: "jenv \<Rightarrow> nat \<Rightarrow> live \<Rightarrow> live option" where
  "tomem_c E r l = (if isconst l r then writeback_const E r l else Some (tomem E r l))"

definition evict :: "jenv \<Rightarrow> nat \<Rightarrow> live \<Rightarrow> live option" where
  "evict E r l =
    (if \<not> isinreg l r then Some l
     else let l1 = tomem E r l; rr = the (rs_realreg (l_state l1 r)); hs = holds l1 rr in
       if 0 < locked l1 rr \<and> length hs = 1 then None
       else let n = length hs - 1; thisind = rs_realind (l_state l1 r);
                l2 = (if n \<noteq> thisind then
                        let topreg = hs ! n in
                        upd_state topreg (\<lambda>x. x\<lparr>rs_realind := thisind\<rparr>)
                          (upd_nat rr (\<lambda>x. x\<lparr>ns_holds := take n (hs[thisind := topreg])\<rparr>) l1)
                      else upd_nat rr (\<lambda>x. x\<lparr>ns_holds := take n hs\<rparr>) l1)
            in Some (set_status r INMEM (upd_state r (\<lambda>x. x\<lparr>rs_realreg := None\<rparr>) l2)))"

text \<open>The loop of \<^verbatim>\<open>free_nreg\<close> reads \<^verbatim>\<open>holds[i]\<close> after each eviction, from the last
  entry down; an eviction from the end leaves the entries before it in place.\<close>

primrec free_nreg_loop :: "jenv \<Rightarrow> nat \<Rightarrow> nat \<Rightarrow> live \<Rightarrow> live option" where
  "free_nreg_loop E n 0 l = Some l"
| "free_nreg_loop E n (Suc i) l = do { l1 \<leftarrow> evict E (holds l n ! i) l; free_nreg_loop E n i l1 }"

definition free_nreg :: "jenv \<Rightarrow> nat \<Rightarrow> live \<Rightarrow> live option" where
  "free_nreg E n l = do {
     l1 \<leftarrow> free_nreg_loop E n (length (holds l n)) l;
     if holds l1 n \<noteq> [] then None else Some l1 }"

definition isclean :: "nat \<Rightarrow> live \<Rightarrow> live" where
  "isclean r l = (if isinreg l r then set_status r CLEAN (upd_state r (\<lambda>x. x\<lparr>rs_val := 0\<rparr>) l) else l)"

definition disassociate :: "jenv \<Rightarrow> nat \<Rightarrow> live \<Rightarrow> live option" where
  "disassociate E r l = evict E r (isclean r l)"

definition set_const :: "jenv \<Rightarrow> nat \<Rightarrow> u64 \<Rightarrow> live \<Rightarrow> live option" where
  "set_const E r v l = do {
     l1 \<leftarrow> disassociate E r l;
     let v' = (if r \<noteq> PC_P then ucast (ucast v :: u32) else v);
     Some (set_status r ISCONST (upd_state r (\<lambda>x. x\<lparr>rs_val := v'\<rparr>) l1)) }"

definition has_free_reg :: "live \<Rightarrow> bool" where
  "has_free_reg l \<longleftrightarrow> list_ex (\<lambda>i. locked l i = 0 \<and> holds l i = []) [0..<N_REGS]"

section \<open>Allocation\<close>

text \<open>
  The search of \<^verbatim>\<open>alloc_reg_hinted\<close>, from the highest register down. \<open>hint < 0\<close> is
  \<open>None\<close>. The result is the last register with smaller badness, with the early exits.
\<close>

fun best_reg :: "live \<Rightarrow> nat option \<Rightarrow> nat list \<Rightarrow> nat option \<times> int \<Rightarrow> nat option" where
  "best_reg l hint [] (best, when) = best"
| "best_reg l hint (i # is) (best, when) =
    (if locked l i = 0 then
       let b0 = (if holds l i = [] then 0 else sint (ns_touched (l_nat l i)));
           badness = (if hint = Some i then b0 - 200000000 else b0)
       in if badness < when then
            (if holds l i = [] \<and> hint = None \<or> hint = Some i then Some i
             else best_reg l hint is (Some i, badness))
          else best_reg l hint is (best, when)
     else best_reg l hint is (best, when))"

definition load_vreg :: "jenv \<Rightarrow> nat \<Rightarrow> nat \<Rightarrow> bool \<Rightarrow> live \<Rightarrow> live" where
  "load_vreg E r n willclobber l =
    (if \<not> willclobber then
       if status l r \<noteq> UNDEF then
         if isconst l r then
           set_status r DIRTY (upd_state r (\<lambda>x. x\<lparr>rs_val := 0\<rparr>)
             (emit (if r = PC_P then LOAD_U64 n (val_of l r)
                    else compemu_raw_mov_l_ri n (ucast (val_of l r))) l))
         else set_status r CLEAN (emit (compemu_raw_mov_l_rm E n (e_mem E r)) l)
       else set_status r CLEAN (upd_state r (\<lambda>x. x\<lparr>rs_val := 0\<rparr>) l)
     else set_status r DIRTY (upd_state r (\<lambda>x. x\<lparr>rs_val := 0\<rparr>) l))"

definition touch :: "nat \<Rightarrow> live \<Rightarrow> live" where
  "touch n l = (upd_nat n (\<lambda>x. x\<lparr>ns_touched := l_touchcnt l\<rparr>) l)\<lparr>l_touchcnt := l_touchcnt l + 1\<rparr>"

definition alloc_reg_hinted :: "jenv \<Rightarrow> nat \<Rightarrow> bool \<Rightarrow> nat option \<Rightarrow> live \<Rightarrow> (nat \<times> live) option" where
  "alloc_reg_hinted E r willclobber hint l =
    (case best_reg l hint (rev [0..<N_REGS]) (None, 2000000000) of
       None \<Rightarrow> None
     | Some n \<Rightarrow> do {
         l1 \<leftarrow> (if holds l n \<noteq> [] then free_nreg E n l else Some l);
         let l2 = load_vreg E r n willclobber l1;
         let l3 = upd_state r (\<lambda>x. x\<lparr>rs_realreg := Some n, rs_realind := 0\<rparr>) l2;
         Some (n, upd_nat n (\<lambda>x. x\<lparr>ns_holds := [r]\<rparr>) (touch n l3)) })"

definition unlock2 :: "nat \<Rightarrow> live \<Rightarrow> live option" where
  "unlock2 n l = (if locked l n = 0 then None else Some (upd_nat n (\<lambda>x. x\<lparr>ns_locked := ns_locked x - 1\<rparr>) l))"

definition setlock :: "nat \<Rightarrow> live \<Rightarrow> live" where
  "setlock n l = upd_nat n (\<lambda>x. x\<lparr>ns_locked := ns_locked x + 1\<rparr>) l"

definition move_holds :: "nat \<Rightarrow> nat list \<Rightarrow> live \<Rightarrow> live" where
  "move_holds d hs l = fold (\<lambda>i. upd_state (hs ! i) (\<lambda>x. x\<lparr>rs_realreg := Some d, rs_realind := i\<rparr>))
     [0..<length hs] l"

definition mov_nregs :: "jenv \<Rightarrow> nat \<Rightarrow> nat \<Rightarrow> live \<Rightarrow> live option" where
  "mov_nregs E d s l =
    (if s = d then Some l
     else do {
       l1 \<leftarrow> (if holds l d \<noteq> [] then free_nreg E d l else Some l);
       let l2 = emit (compemu_raw_mov_l_rr d s) l1;
       let l3 = move_holds d (holds l2 s) l2;
       Some (upd_nat s (\<lambda>x. x\<lparr>ns_holds := []\<rparr>) (upd_nat d (\<lambda>x. x\<lparr>ns_holds := holds l2 s\<rparr>) l3)) })"

definition make_exclusive :: "jenv \<Rightarrow> nat \<Rightarrow> bool \<Rightarrow> live \<Rightarrow> live option" where
  "make_exclusive E r needcopy l =
    (let rr = the (rs_realreg (l_state l r)) in
     if \<not> isinreg l r then Some l
     else if length (holds l rr) = 1 then Some l
     else do {
       let oldstate = l_state l r;
       l1 \<leftarrow> disassociate E r (setlock rr l);
       (nr, l2) \<leftarrow> alloc_reg_hinted E r True None l1;
       let nind = rs_realind (l_state l2 r);
       let l3 = upd_state r (\<lambda>_. oldstate\<lparr>rs_realreg := Some nr, rs_realind := nind\<rparr>) l2;
       let l4 = (if needcopy then emit (compemu_raw_mov_l_rr nr rr) l3 else l3);
       unlock2 rr l4 })"

definition readreg_general :: "jenv \<Rightarrow> nat \<Rightarrow> nat option \<Rightarrow> live \<Rightarrow> (nat \<times> live) option" where
  "readreg_general E r spec l = do {
     (answer, l1) \<leftarrow> (if isinreg l r then Some (the (rs_realreg (l_state l r)), l)
                      else alloc_reg_hinted E r False spec l);
     (answer, l2) \<leftarrow> (case spec of
         Some n \<Rightarrow> if n \<noteq> answer then do { l2 \<leftarrow> mov_nregs E n answer l1; Some (n, l2) }
                   else Some (answer, l1)
       | None \<Rightarrow> Some (answer, l1));
     Some (answer, touch answer (setlock answer l2)) }"

definition readreg :: "jenv \<Rightarrow> nat \<Rightarrow> live \<Rightarrow> (nat \<times> live) option" where
  "readreg E r l = readreg_general E r None l"

definition readreg_specific :: "jenv \<Rightarrow> nat \<Rightarrow> nat \<Rightarrow> live \<Rightarrow> (nat \<times> live) option" where
  "readreg_specific E r spec l = readreg_general E r (Some spec) l"

definition writereg :: "jenv \<Rightarrow> nat \<Rightarrow> live \<Rightarrow> (nat \<times> live) option" where
  "writereg E r l = do {
     l1 \<leftarrow> make_exclusive E r False l;
     (answer, l2) \<leftarrow> (if isinreg l1 r then Some (the (rs_realreg (l_state l1 r)), l1)
                      else alloc_reg_hinted E r True None l1);
     let l3 = touch answer (setlock answer l2);
     Some (answer, set_status r DIRTY (upd_state r (\<lambda>x. x\<lparr>rs_val := 0\<rparr>) l3)) }"

definition rmw :: "jenv \<Rightarrow> nat \<Rightarrow> live \<Rightarrow> (nat \<times> live) option" where
  "rmw E r l = do {
     l1 \<leftarrow> make_exclusive E r True l;
     (answer, l2) \<leftarrow> (if isinreg l1 r then Some (the (rs_realreg (l_state l1 r)), l1)
                      else alloc_reg_hinted E r False None l1);
     let l3 = set_status r DIRTY l2;
     Some (answer, touch answer (setlock answer l3)) }"

end
