(* ===== verification/Jit_Sound.thy ===== *)
theory Jit_Sound
  imports Jit_Live
begin

unbundle bit_operations_syntax

text \<open>
  Soundness of the register allocator. \<open>rep X E l s V\<close> relates the emit-time state \<open>l\<close>, the
  machine \<open>s\<close> after the code emitted so far and the values \<open>V\<close> that the virtual registers
  stand for: a register in memory has its value in its slot, a clean one in its native register and
  its slot, a dirty one in its native register, a constant in the allocator's own table. The
  registers in \<open>X\<close> are those whose value is about to be overwritten and may be anything. The
  allocator's operations keep \<open>V\<close> whatever they emit.
\<close>

section \<open>Layout of the register file\<close>

definition vsize :: "nat \<Rightarrow> nat" where
  "vsize r = (if r = PC_P then 8 else 4)"

text \<open>
  What the emitted code relies on: the slots of the virtual registers and the other program counter
  fields do not overlap, and the fields that are always addressed from \<^verbatim>\<open>R_REGSTRUCT\<close> are
  aligned and in reach of a scaled 12-bit offset.
\<close>

definition reach64 :: "jenv \<Rightarrow> u64 \<Rightarrow> bool" where
  "reach64 E a \<longleftrightarrow> a - e_regs E \<le> 32760 \<and> (a - e_regs E) AND 7 = 0"

definition reach32 :: "jenv \<Rightarrow> u64 \<Rightarrow> bool" where
  "reach32 E a \<longleftrightarrow> a - e_regs E \<le> 16380 \<and> (a - e_regs E) AND 3 = 0"

definition env_ok :: "jenv \<Rightarrow> bool" where
  "env_ok E \<longleftrightarrow>
    (\<forall>r<VREGS. \<forall>q<VREGS. r \<noteq> q \<longrightarrow> sep (e_mem E r) (vsize r) (e_mem E q) (vsize q)) \<and>
    (\<forall>r<VREGS. sep (e_mem E r) (vsize r) (e_pc_oldp E) 8 \<and>
       sep (e_mem E r) (vsize r) (e_pc E) 4 \<and> sep (e_mem E r) (vsize r) (e_instruction_pc E) 4) \<and>
    reach64 E (e_mem E PC_P) \<and> reach64 E (e_pc_oldp E) \<and>
    reach32 E (e_pc E) \<and> reach32 E (e_instruction_pc E)"

lemma scaled_offset:
  "(i :: u64) \<le> 16380 \<Longrightarrow> i AND 3 = 0 \<Longrightarrow> 4 * ((i div 4) AND 0xFFF) = i"
  "(i :: u64) \<le> 32760 \<Longrightarrow> i AND 7 = 0 \<Longrightarrow> 8 * ((i div 8) AND 0xFFF) = i"
proof -
  have m: "x AND 0xFFF = x" if "x \<le> 4095" for x :: u64
  proof -
    have "x AND 0xFFF = take_bit 12 x" by (simp add: take_bit_eq_mask mask_eq_exp_minus_1)
    also have "\<dots> = x" using that by (simp add: take_bit_eq_mod word_unat_eq_iff word_le_nat_alt unat_mod_distrib)
    finally show ?thesis .
  qed
  show "i \<le> 16380 \<Longrightarrow> i AND 3 = 0 \<Longrightarrow> 4 * ((i div 4) AND 0xFFF) = i"
  proof -
    assume a: "i \<le> 16380" "i AND 3 = 0"
    then have "i div 4 \<le> 4095" by (simp add: word_le_nat_alt unat_div_distrib)
    moreover have "i mod 4 = 0"
      using a(2) take_bit_eq_mask [of 2 i] by (simp add: take_bit_eq_mod mask_eq_exp_minus_1)
    ultimately show "4 * ((i div 4) AND 0xFFF) = i" using m mult_div_mod_eq [of 4 i] by simp
  qed
  show "i \<le> 32760 \<Longrightarrow> i AND 7 = 0 \<Longrightarrow> 8 * ((i div 8) AND 0xFFF) = i"
  proof -
    assume a: "i \<le> 32760" "i AND 7 = 0"
    then have "i div 8 \<le> 4095" by (simp add: word_le_nat_alt unat_div_distrib)
    moreover have "i mod 8 = 0"
      using a(2) take_bit_eq_mask [of 3 i] by (simp add: take_bit_eq_mod mask_eq_exp_minus_1)
    ultimately show "8 * ((i div 8) AND 0xFFF) = i" using m mult_div_mod_eq [of 8 i] by simp
  qed
qed

lemma reach_offset:
  "reach64 E a \<Longrightarrow> e_regs E + 8 * (((a - e_regs E) div 8) AND 0xFFF) = a"
  "reach32 E a \<Longrightarrow> e_regs E + 4 * (((a - e_regs E) div 4) AND 0xFFF) = a"
  by (simp_all add: reach64_def reach32_def scaled_offset)

lemma sep_ne: "sep p n q k \<Longrightarrow> 0 < n \<Longrightarrow> 0 < k \<Longrightarrow> p \<noteq> q"
  unfolding sep_def by (metis add.right_neutral of_nat_0)

lemma env_slot_ne:
  assumes "env_ok E" "r < VREGS" "r \<noteq> PC_P"
  shows "e_mem E r \<noteq> e_mem E PC_P" "e_mem E r \<noteq> e_pc_oldp E"
proof -
  have "sep (e_mem E r) (vsize r) (e_mem E PC_P) (vsize PC_P)" "sep (e_mem E r) (vsize r) (e_pc_oldp E) 8"
    using assms by (simp_all add: env_ok_def jit_consts)
  then show "e_mem E r \<noteq> e_mem E PC_P" "e_mem E r \<noteq> e_pc_oldp E"
    by (auto simp: vsize_def dest!: sep_ne split: if_splits)
qed

section \<open>Effect of the low-level moves\<close>

text \<open>A state change that keeps the flags and all registers outside \<open>W\<close>.\<close>

definition keeps :: "nat set \<Rightarrow> a64 \<Rightarrow> a64 \<Rightarrow> bool" where
  "keeps W s s' \<longleftrightarrow> (\<forall>k. k \<notin> W \<longrightarrow> xr s' k = xr s k) \<and>
     nf s' = nf s \<and> zf s' = zf s \<and> cf s' = cf s \<and> vf s' = vf s"

definition work :: "nat set" where
  "work = {2, 3, 4, 5}"

definition store_vreg :: "jenv \<Rightarrow> nat \<Rightarrow> u64 \<Rightarrow> (u64 \<Rightarrow> u8) \<Rightarrow> (u64 \<Rightarrow> u8)" where
  "store_vreg E r v h =
    (if r = PC_P then store_le64 (e_mem E r) v h else store_le32 (e_mem E r) (ucast v) h)"

definition load_slot :: "jenv \<Rightarrow> nat \<Rightarrow> (u64 \<Rightarrow> u8) \<Rightarrow> u64" where
  "load_slot E r h = (if r = PC_P then load_le64 h (e_mem E r) else ucast (load_le32 h (e_mem E r)))"

definition agree :: "nat \<Rightarrow> u64 \<Rightarrow> u64 \<Rightarrow> bool" where
  "agree r a b = (if r = PC_P then a = b else (ucast a :: u32) = ucast b)"

lemma agree_refl [simp]: "agree r a a"
  by (simp add: agree_def)

lemma load_store_slot:
  assumes "env_ok E" "r < VREGS" "q < VREGS"
  shows "agree r (load_slot E r (store_vreg E r v h)) v"
    "r \<noteq> q \<Longrightarrow> load_slot E r (store_vreg E q v h) = load_slot E r h"
proof -
  show "agree r (load_slot E r (store_vreg E r v h)) v"
    by (simp add: agree_def load_slot_def store_vreg_def)
  assume "r \<noteq> q"
  then have "sep (e_mem E r) (vsize r) (e_mem E q) (vsize q)" using assms by (simp add: env_ok_def)
  with \<open>r \<noteq> q\<close> show "load_slot E r (store_vreg E q v h) = load_slot E r h"
    by (simp add: load_slot_def store_vreg_def vsize_def load_store_32_sep load_store_sep split: if_splits)
qed

lemma straight_LOAD [simp]: "list_all straight (LOAD_U64 d v)" "list_all straight (LOAD_U32 d w)"
  by (simp_all add: LOAD_U64_def LOAD_U32_def a64_simps)

lemma xr_rdx: "n \<noteq> 31 \<Longrightarrow> rdx s n = xr s n"
  by (simp add: rdx_def)

lemma xr_wrw: "d \<noteq> 31 \<Longrightarrow> xr (wrw d v s) n = (if n = d then ucast v else xr s n)"
  by (simp add: wrw_def xr_wrx)

lemma exec_LOADs [simp]:
  "r \<noteq> 31 \<Longrightarrow> exec (LOAD_U64 r v @ c) s = exec c (wrx r v s)"
  "r \<noteq> 31 \<Longrightarrow> exec (LOAD_U32 r w @ c) s = exec c (wrw r w s)"
  "r \<noteq> 31 \<Longrightarrow> exec (LOAD_U64 r v) s = wrx r v s"
  "r \<noteq> 31 \<Longrightarrow> exec (LOAD_U32 r w) s = wrw r w s"
  using exec_LOAD_U64 [of r v "[]" s] exec_LOAD_U32 [of r w "[]" s]
  by (simp_all add: exec_LOAD_U64 exec_LOAD_U32)

lemma native_ne: "n < N_REGS \<Longrightarrow> n \<noteq> 31" "n < N_REGS \<Longrightarrow> n \<noteq> 27" "n < N_REGS \<Longrightarrow> n \<noteq> 28"
  by (simp_all add: N_REGS_def)

lemmas raw_simps = Let_def a64_simps keeps_def work_def REG_WORK1_def REG_WORK2_def R_REGSTRUCT_def
  R_MEMSTART_def xr_wrx xr_wrw rdw_def xr_rdx reach32_def

lemma exec_mov_l_mr:
  assumes "env_ok E" "r < VREGS" "xr s 28 = e_regs E" "n < N_REGS" "n \<notin> work"
  shows "keeps work s (exec (compemu_raw_mov_l_mr E (e_mem E r) n) s)"
    "amem (exec (compemu_raw_mov_l_mr E (e_mem E r) n) s) = store_vreg E r (xr s n) (amem s)"
    "closed (compemu_raw_mov_l_mr E (e_mem E r) n)"
proof -
  have n: "n \<noteq> 31" "n \<noteq> 2" using assms(4,5) by (auto simp: N_REGS_def work_def)
  have reach: "reach64 E (e_mem E PC_P)" using assms(1) by (simp add: env_ok_def)
  note ne = env_slot_ne [OF assms(1,2)]
  show "closed (compemu_raw_mov_l_mr E (e_mem E r) n)"
    by (auto simp: compemu_raw_mov_l_mr_def Let_def a64_simps intro!: closed_straight)
  show "keeps work s (exec (compemu_raw_mov_l_mr E (e_mem E r) n) s)"
    by (auto simp: compemu_raw_mov_l_mr_def raw_simps)
  show "amem (exec (compemu_raw_mov_l_mr E (e_mem E r) n) s) = store_vreg E r (xr s n) (amem s)"
    using n ne reach_offset(1) [OF reach] reach_offset(2) [of E "e_mem E r"] assms(3)
    by (auto simp: compemu_raw_mov_l_mr_def store_vreg_def raw_simps)
qed

lemma exec_mov_l_mi:
  assumes "env_ok E" "r < VREGS" "xr s 28 = e_regs E" "r \<noteq> PC_P"
  shows "keeps work s (exec (compemu_raw_mov_l_mi E (e_mem E r) v) s)"
    "amem (exec (compemu_raw_mov_l_mi E (e_mem E r) v) s) = store_vreg E r v (amem s)"
    "closed (compemu_raw_mov_l_mi E (e_mem E r) v)"
proof -
  note ne = env_slot_ne [OF assms(1,2,4)]
  show "closed (compemu_raw_mov_l_mi E (e_mem E r) v)"
    by (auto simp: compemu_raw_mov_l_mi_def Let_def a64_simps intro!: closed_straight)
  show "keeps work s (exec (compemu_raw_mov_l_mi E (e_mem E r) v) s)"
    by (auto simp: compemu_raw_mov_l_mi_def raw_simps)
  show "amem (exec (compemu_raw_mov_l_mi E (e_mem E r) v) s) = store_vreg E r v (amem s)"
    using ne reach_offset(2) [of E "e_mem E r"] assms(3,4)
    by (auto simp: compemu_raw_mov_l_mi_def store_vreg_def raw_simps)
qed

lemma exec_mov_l_rm:
  assumes "env_ok E" "r < VREGS" "xr s 28 = e_regs E" "n < N_REGS" "n \<notin> work"
  shows "keeps (insert n work) s (exec (compemu_raw_mov_l_rm E n (e_mem E r)) s)"
    "amem (exec (compemu_raw_mov_l_rm E n (e_mem E r)) s) = amem s"
    "xr (exec (compemu_raw_mov_l_rm E n (e_mem E r)) s) n = load_slot E r (amem s)"
    "closed (compemu_raw_mov_l_rm E n (e_mem E r))"
proof -
  have n: "n \<noteq> 31" "n \<noteq> 2" using assms(4,5) by (auto simp: N_REGS_def work_def)
  have reach: "reach64 E (e_mem E PC_P)" using assms(1) by (simp add: env_ok_def)
  note ne = env_slot_ne [OF assms(1,2)]
  show "closed (compemu_raw_mov_l_rm E n (e_mem E r))"
    by (auto simp: compemu_raw_mov_l_rm_def Let_def a64_simps intro!: closed_straight)
  show "keeps (insert n work) s (exec (compemu_raw_mov_l_rm E n (e_mem E r)) s)"
    "amem (exec (compemu_raw_mov_l_rm E n (e_mem E r)) s) = amem s"
    using n by (auto simp: compemu_raw_mov_l_rm_def raw_simps)
  show "xr (exec (compemu_raw_mov_l_rm E n (e_mem E r)) s) n = load_slot E r (amem s)"
    using n ne reach_offset(1) [OF reach] reach_offset(2) [of E "e_mem E r"] assms(3)
    by (auto simp: compemu_raw_mov_l_rm_def load_slot_def raw_simps)
qed

lemma exec_set_pc_i:
  assumes "env_ok E" "xr s 28 = e_regs E"
  shows "keeps work s (exec (compemu_raw_set_pc_i E v) s)"
    "load_slot E PC_P (amem (exec (compemu_raw_set_pc_i E v) s)) = v"
    "q < VREGS \<Longrightarrow> q \<noteq> PC_P \<Longrightarrow>
       load_slot E q (amem (exec (compemu_raw_set_pc_i E v) s)) = load_slot E q (amem s)"
    "closed (compemu_raw_set_pc_i E v)"
proof -
  let ?s = "exec (compemu_raw_set_pc_i E v) s"
  show "closed (compemu_raw_set_pc_i E v)"
    by (auto simp: compemu_raw_set_pc_i_def compemu_raw_store_pc_state_from_work1_def a64_simps
        intro!: closed_straight)
  show "keeps work s ?s"
    by (auto simp: compemu_raw_set_pc_i_def compemu_raw_store_pc_state_from_work1_def raw_simps)
  have m: "amem ?s = store_le32 (e_instruction_pc E) (ucast (v - xr s 27))
     (store_le32 (e_pc E) (ucast (v - xr s 27)) (store_le64 (e_pc_oldp E) v (store_le64 (e_mem E PC_P) v (amem s))))"
    using assms reach_offset [of E]
    by (simp add: compemu_raw_set_pc_i_def compemu_raw_store_pc_state_from_work1_def raw_simps env_ok_def)
  have sp: "sep (e_mem E r) (vsize r) (e_pc_oldp E) 8" "sep (e_mem E r) (vsize r) (e_pc E) 4"
    "sep (e_mem E r) (vsize r) (e_instruction_pc E) 4" if "r < VREGS" for r
    using assms(1) that by (simp_all add: env_ok_def)
  have "PC_P < VREGS" by (simp add: jit_consts)
  from sp [OF this] show "load_slot E PC_P (amem ?s) = v"
    by (simp add: m load_slot_def vsize_def load_store_sep)
  assume q: "q < VREGS" "q \<noteq> PC_P"
  then have "sep (e_mem E q) (vsize q) (e_mem E PC_P) (vsize PC_P)"
    using assms(1) \<open>PC_P < VREGS\<close> by (simp add: env_ok_def)
  with sp [OF q(1)] q show "load_slot E q (amem ?s) = load_slot E q (amem s)"
    by (simp add: m load_slot_def vsize_def load_store_sep load_store_32_sep)
qed


section \<open>Well-formed allocator states\<close>

text \<open>
  The two tables are inverse to each other, the work registers are locked and never hold a virtual
  register.
\<close>

definition wf :: "live \<Rightarrow> bool" where
  "wf l \<longleftrightarrow>
    (\<forall>r<VREGS. isinreg l r \<longrightarrow> (\<exists>n<N_REGS. rs_realreg (l_state l r) = Some n \<and>
       rs_realind (l_state l r) < length (holds l n) \<and> holds l n ! rs_realind (l_state l r) = r)) \<and>
    (\<forall>n<N_REGS. \<forall>i<length (holds l n). holds l n ! i < VREGS \<and> isinreg l (holds l n ! i) \<and>
       rs_realreg (l_state l (holds l n ! i)) = Some n \<and> rs_realind (l_state l (holds l n ! i)) = i) \<and>
    (\<forall>n\<in>work. holds l n = [] \<and> 0 < locked l n) \<and>
    (\<forall>r<VREGS. rs_needflush (l_state l r) \<noteq> NF_HANDLER)"

abbreviation realreg :: "live \<Rightarrow> nat \<Rightarrow> nat" where
  "realreg l r \<equiv> the (rs_realreg (l_state l r))"

lemma wf_inreg:
  assumes "wf l" "r < VREGS" "isinreg l r"
  shows "rs_realreg (l_state l r) = Some (realreg l r)" "realreg l r < N_REGS" "realreg l r \<notin> work"
    "rs_realind (l_state l r) < length (holds l (realreg l r))"
    "holds l (realreg l r) ! rs_realind (l_state l r) = r"
proof -
  obtain n where n: "n < N_REGS" "rs_realreg (l_state l r) = Some n"
    "rs_realind (l_state l r) < length (holds l n)" "holds l n ! rs_realind (l_state l r) = r"
    using assms by (auto simp: wf_def)
  moreover have "n \<notin> work" using assms(1) n(3) by (auto simp: wf_def)
  ultimately show "rs_realreg (l_state l r) = Some (realreg l r)" "realreg l r < N_REGS"
    "realreg l r \<notin> work" "rs_realind (l_state l r) < length (holds l (realreg l r))"
    "holds l (realreg l r) ! rs_realind (l_state l r) = r" by simp_all
qed

lemma wf_holds:
  assumes "wf l" "n < N_REGS" "i < length (holds l n)"
  shows "holds l n ! i < VREGS" "isinreg l (holds l n ! i)"
    "rs_realreg (l_state l (holds l n ! i)) = Some n" "rs_realind (l_state l (holds l n ! i)) = i"
  using assms by (auto simp: wf_def)

lemma wf_holds_iff:
  assumes "wf l" "n < N_REGS" "r < VREGS"
  shows "r \<in> set (holds l n) \<longleftrightarrow> isinreg l r \<and> realreg l r = n"
  using assms wf_holds [OF assms(1,2)] wf_inreg [OF assms(1,3)] nth_mem
  by (fastforce simp: in_set_conv_nth)

lemma wf_work: "wf l \<Longrightarrow> n \<in> work \<Longrightarrow> holds l n = [] \<and> 0 < locked l n"
  by (simp add: wf_def)

lemma wf_distinct: "wf l \<Longrightarrow> n < N_REGS \<Longrightarrow> distinct (holds l n)"
  unfolding distinct_conv_nth using wf_holds(4) by metis

section \<open>The values of the virtual registers\<close>

definition vrep :: "jenv \<Rightarrow> live \<Rightarrow> a64 \<Rightarrow> (nat \<Rightarrow> u64) \<Rightarrow> nat \<Rightarrow> bool" where
  "vrep E l s V r =
    (case status l r of
       UNDEF \<Rightarrow> True
     | INMEM \<Rightarrow> agree r (load_slot E r (amem s)) (V r)
     | CLEAN \<Rightarrow> agree r (load_slot E r (amem s)) (V r) \<and> agree r (xr s (realreg l r)) (V r)
     | DIRTY \<Rightarrow> agree r (xr s (realreg l r)) (V r)
     | ISCONST \<Rightarrow> agree r (val_of l r) (V r))"

definition rep :: "nat set \<Rightarrow> jenv \<Rightarrow> live \<Rightarrow> a64 \<Rightarrow> (nat \<Rightarrow> u64) \<Rightarrow> bool" where
  "rep X E l s V \<longleftrightarrow> xr s R_REGSTRUCT = e_regs E \<and> (\<forall>r<VREGS. r \<notin> X \<longrightarrow> vrep E l s V r)"

text \<open>The bytes of the register file; everything else is the guest's memory and the host's.\<close>

definition slots :: "jenv \<Rightarrow> u64 set" where
  "slots E = {e_mem E r + of_nat i |r i. r < VREGS \<and> i < vsize r} \<union>
     {e_pc_oldp E + of_nat i |i. i < 8} \<union> {e_pc E + of_nat i |i. i < 4} \<union>
     {e_instruction_pc E + of_nat i |i. i < 4}"

text \<open>
  What code emitted by the allocator leaves alone: the flags, the registers it does not manage and
  all memory outside the register file.
\<close>

definition quiet :: "jenv \<Rightarrow> a64 \<Rightarrow> a64 \<Rightarrow> bool" where
  "quiet E s s' \<longleftrightarrow> (\<forall>k. N_REGS \<le> k \<longrightarrow> xr s' k = xr s k) \<and>
     nf s' = nf s \<and> zf s' = zf s \<and> cf s' = cf s \<and> vf s' = vf s \<and>
     (\<forall>a. a \<notin> slots E \<longrightarrow> amem s' a = amem s a)"

lemma quiet_refl [simp]: "quiet E s s"
  by (simp add: quiet_def)

lemma quiet_trans: "quiet E s s' \<Longrightarrow> quiet E s' s'' \<Longrightarrow> quiet E s s''"
  by (simp add: quiet_def)

text \<open>
  The step \<open>l\<close> to \<open>l'\<close> of the allocator is sound: whatever it appends to the code turns a
  machine that represents \<open>V\<close> under \<open>l\<close> into one that represents \<open>V\<close> under \<open>l'\<close>, and leaves
  the native registers \<open>K\<close> (the ones in use) unchanged.
\<close>

definition pres :: "nat set \<Rightarrow> nat set \<Rightarrow> jenv \<Rightarrow> live \<Rightarrow> live \<Rightarrow> bool" where
  "pres K X E l l' \<longleftrightarrow> (\<exists>c. l_code l' = l_code l @ c \<and> closed c \<and>
     (\<forall>s V. rep X E l s V \<longrightarrow> rep X E l' (exec c s) V \<and> quiet E s (exec c s) \<and>
       (\<forall>k\<in>K. xr (exec c s) k = xr s k)))"

lemma pres_refl [simp]: "pres K X E l l"
  unfolding pres_def by (rule exI [of _ "[]"]) simp

lemma pres_trans:
  assumes "pres K X E l1 l2" "pres K X E l2 l3"
  shows "pres K X E l1 l3"
proof -
  obtain c1 where c1: "l_code l2 = l_code l1 @ c1" "closed c1"
    "\<And>s V. rep X E l1 s V \<Longrightarrow> rep X E l2 (exec c1 s) V \<and> quiet E s (exec c1 s) \<and>
       (\<forall>k\<in>K. xr (exec c1 s) k = xr s k)"
    using assms(1) by (auto simp: pres_def)
  obtain c2 where c2: "l_code l3 = l_code l2 @ c2" "closed c2"
    "\<And>s V. rep X E l2 s V \<Longrightarrow> rep X E l3 (exec c2 s) V \<and> quiet E s (exec c2 s) \<and>
       (\<forall>k\<in>K. xr (exec c2 s) k = xr s k)"
    using assms(2) by (auto simp: pres_def)
  have "rep X E l3 (exec (c1 @ c2) s) V \<and> quiet E s (exec (c1 @ c2) s) \<and>
      (\<forall>k\<in>K. xr (exec (c1 @ c2) s) k = xr s k)" if "rep X E l1 s V" for s V
    using c1(3) [OF that] c2(3) [of "exec c1 s" V] quiet_trans [of E s "exec c1 s" "exec c2 (exec c1 s)"]
    by (simp add: exec_append c1(2))
  with c1 c2 show ?thesis unfolding pres_def by (intro exI [of _ "c1 @ c2"]) simp
qed

text \<open>Steps that emit nothing.\<close>

lemma pres_same_code:
  assumes "l_code l' = l_code l" "\<And>s V r. r < VREGS \<Longrightarrow> r \<notin> X \<Longrightarrow> vrep E l s V r \<Longrightarrow> vrep E l' s V r"
  shows "pres K X E l l'"
  unfolding pres_def using assms by (intro exI [of _ "[]"]) (simp add: rep_def)

lemma keeps_quiet:
  assumes "keeps W s s'" "\<And>k. N_REGS \<le> k \<Longrightarrow> k \<notin> W" "\<And>a. a \<notin> slots E \<Longrightarrow> amem s' a = amem s a"
  shows "quiet E s s'"
  using assms by (simp add: keeps_def quiet_def)

lemma store_other:
  "(\<And>i. i < 4 \<Longrightarrow> a \<noteq> p + of_nat i) \<Longrightarrow> store_le32 p v h a = h a"
  "(\<And>i. i < 8 \<Longrightarrow> a \<noteq> p + of_nat i) \<Longrightarrow> store_le64 p w h a = h a"
proof -
  show a4: "store_le32 p v h a = h a" if "\<And>i. i < 4 \<Longrightarrow> a \<noteq> p + of_nat i" for p v h
    using that by (rule store_le32_other)
  assume n: "\<And>i. i < 8 \<Longrightarrow> a \<noteq> p + of_nat i"
  have "a \<noteq> p + 4 + of_nat i" if "i < 4" for i
    using n [of "i + 4"] that by (simp add: algebra_simps)
  with n show "store_le64 p w h a = h a" by (simp add: store_le64_def a4)
qed

lemma store_vreg_slots: "r < VREGS \<Longrightarrow> a \<notin> slots E \<Longrightarrow> store_vreg E r v h a = h a"
  unfolding store_vreg_def by (auto intro!: store_other simp: slots_def vsize_def)

end
