(* ===== verification/Jit_Alloc.thy ===== *)
theory Jit_Alloc
  imports Jit_Sound
begin

unbundle bit_operations_syntax

text \<open>
  Every operation of the register allocator terminates without \<^verbatim>\<open>jit_abort\<close> while a native
  register is free to be used, keeps the tables well formed and keeps the value of every virtual
  register.
\<close>

section \<open>Field updates\<close>

lemma upd_simps [simp]:
  "l_state (upd_state r f l) = (l_state l)(r := f (l_state l r))" "l_nat (upd_state r f l) = l_nat l"
  "l_code (upd_state r f l) = l_code l" "l_touchcnt (upd_state r f l) = l_touchcnt l"
  "l_nat (upd_nat n g l) = (l_nat l)(n := g (l_nat l n))" "l_state (upd_nat n g l) = l_state l"
  "l_code (upd_nat n g l) = l_code l" "l_touchcnt (upd_nat n g l) = l_touchcnt l"
  "l_state (emit c l) = l_state l" "l_nat (emit c l) = l_nat l" "l_code (emit c l) = l_code l @ c"
  "l_touchcnt (emit c l) = l_touchcnt l"
  by (simp_all add: upd_state_def upd_nat_def emit_def)

lemma set_status_simps [simp]:
  "l_state (set_status r st l) = (l_state l)(r := (l_state l r)\<lparr>rs_status := st\<rparr>)"
  "l_nat (set_status r st l) = l_nat l" "l_code (set_status r st l) = l_code l"
  "l_touchcnt (set_status r st l) = l_touchcnt l"
  by (simp_all add: set_status_def)

text \<open>The parts of the state that the allocator's operations never touch.\<close>

definition same_rest :: "live \<Rightarrow> live \<Rightarrow> bool" where
  "same_rest l l' \<longleftrightarrow> l_flags_on_stack l' = l_flags_on_stack l \<and> l_flags_in_flags l' = l_flags_in_flags l \<and>
     l_flags_are_important l' = l_flags_are_important l \<and> l_scratch_in_use l' = l_scratch_in_use l \<and>
     l_flags_carry_inverted l' = l_flags_carry_inverted l \<and> l_needed_flags l' = l_needed_flags l \<and>
     l_m68k_pc_offset l' = l_m68k_pc_offset l \<and> l_comp_pc_p l' = l_comp_pc_p l \<and>
     l_jit_exception l' = l_jit_exception l"

lemma same_rest_refl [simp]: "same_rest l l"
  by (simp add: same_rest_def)

lemma same_rest_trans: "same_rest l1 l2 \<Longrightarrow> same_rest l2 l3 \<Longrightarrow> same_rest l1 l3"
  by (simp add: same_rest_def)

lemma same_rest_upd [simp]:
  "same_rest l (upd_state r f l') = same_rest l l'" "same_rest l (upd_nat n g l') = same_rest l l'"
  "same_rest l (emit c l') = same_rest l l'" "same_rest l (set_status r st l') = same_rest l l'"
  "same_rest l (l'\<lparr>l_touchcnt := t\<rparr>) = same_rest l l'"
  by (simp_all add: same_rest_def upd_state_def upd_nat_def emit_def set_status_def)

section \<open>Writing registers back\<close>

lemma rep_28: "rep X E l s V \<Longrightarrow> xr s 28 = e_regs E"
  by (simp add: rep_def R_REGSTRUCT_def)

lemma keeps_work_28: "keeps work s s' \<Longrightarrow> xr s' 28 = xr s 28"
  by (simp add: keeps_def work_def)

lemma keeps_native: "keeps work s s' \<Longrightarrow> n \<notin> work \<Longrightarrow> xr s' n = xr s n"
  by (simp add: keeps_def)

lemma work_native: "k \<in> work \<Longrightarrow> k < N_REGS"
  by (auto simp: work_def N_REGS_def)

text \<open>Code that stores the value of \<open>r\<close> in its slot and does nothing else.\<close>

lemma rep_stored:
  assumes ok: "env_ok E" and wf: "wf l" and r: "r < VREGS" and rep: "rep X E l s V"
    and k: "keeps work s s'" and m: "\<And>q. q < VREGS \<Longrightarrow> q \<noteq> r \<Longrightarrow> load_slot E q (amem s') = load_slot E q (amem s)"
    and mr: "r \<notin> X \<Longrightarrow> agree r (load_slot E r (amem s')) (V r)" and st: "status l r \<noteq> UNDEF"
    and eq: "\<And>q. q \<noteq> r \<Longrightarrow> l_state l' q = l_state l q"
    and st': "status l' r = INMEM \<or> (status l' r = CLEAN \<and> isinreg l r \<and> realreg l' r = realreg l r)"
  shows "rep X E l' s' V"
proof -
  have "vrep E l' s' V q" if q: "q < VREGS" "q \<notin> X" for q
  proof (cases "q = r")
    case True
    have "agree r (xr s' (realreg l r)) (V r)" if "isinreg l r"
      using rep r q True that wf_inreg [OF wf r that] keeps_native [OF k]
      by (auto simp: rep_def vrep_def isinreg_def)
    with st' mr True q show ?thesis by (auto simp: vrep_def)
  next
    case False
    have "vrep E l s V q" using rep q by (simp add: rep_def)
    moreover have "xr s' (realreg l q) = xr s (realreg l q)" if "isinreg l q"
      using wf_inreg [OF wf q(1) that] keeps_native [OF k] by simp
    ultimately show ?thesis
      using eq [OF False] m [OF q(1) False] by (auto simp: vrep_def isinreg_def split: vstatus.splits)
  qed
  moreover have "xr s' 28 = e_regs E" using rep_28 [OF rep] keeps_work_28 [OF k] by simp
  ultimately show ?thesis by (simp add: rep_def R_REGSTRUCT_def)
qed

lemma rep_inreg: "rep X E l s V \<Longrightarrow> r < VREGS \<Longrightarrow> r \<notin> X \<Longrightarrow> isinreg l r \<Longrightarrow> agree r (xr s (realreg l r)) (V r)"
  by (auto simp: rep_def vrep_def isinreg_def)

lemma agree_trans: "agree r a b \<Longrightarrow> agree r b c \<Longrightarrow> agree r a c"
  by (auto simp: agree_def split: if_splits)

lemma tomem_pres:
  assumes ok: "env_ok E" and wf: "wf l" and r: "r < VREGS" and K: "K \<inter> work = {}"
  shows "pres K X E l (tomem E r l)"
proof (cases "status l r = DIRTY")
  case True
  let ?c = "compemu_raw_mov_l_mr E (e_mem E r) (realreg l r)"
  have i: "isinreg l r" using True by (simp add: isinreg_def)
  note n = wf_inreg(2,3) [OF wf r i]
  have "rep X E (tomem E r l) (exec ?c s) V \<and> quiet E s (exec ?c s) \<and> (\<forall>k\<in>K. xr (exec ?c s) k = xr s k)"
    if rep: "rep X E l s V" for s V
  proof (intro conjI ballI)
    note x = exec_mov_l_mr [OF ok r rep_28 [OF rep] n]
    show "rep X E (tomem E r l) (exec ?c s) V"
    proof (rule rep_stored [OF ok wf r rep x(1)])
      show "agree r (load_slot E r (amem (exec ?c s))) (V r)" if "r \<notin> X"
        unfolding x(2) using load_store_slot(1) [OF ok r r] rep_inreg [OF rep r that i] agree_trans by blast
    qed (use True i in \<open>auto simp: x(2) load_store_slot(2) [OF ok _ r] tomem_def\<close>)
    show "quiet E s (exec ?c s)"
      using x(1) by (rule keeps_quiet) (auto simp: x(2) store_vreg_slots [OF r] dest: work_native)
    show "xr (exec ?c s) k = xr s k" if "k \<in> K" for k using x(1) K that by (auto intro: keeps_native)
  qed
  moreover have "closed ?c" for s :: a64
    by (auto simp: compemu_raw_mov_l_mr_def Let_def a64_simps intro!: closed_straight)
  ultimately show ?thesis
    unfolding pres_def using True by (intro exI [of _ ?c]) (simp add: tomem_def)
qed (simp add: tomem_def)

lemma tomem_state:
  "l_nat (tomem E r l) = l_nat l" "l_touchcnt (tomem E r l) = l_touchcnt l" "same_rest l (tomem E r l)"
  "l_state (tomem E r l) =
     (l_state l)(r := (l_state l r)\<lparr>rs_status := if status l r = DIRTY then CLEAN else status l r\<rparr>)"
  by (auto simp: tomem_def)

lemma isinreg_tomem [simp]: "isinreg (tomem E r l) q = isinreg l q"
  by (auto simp: isinreg_def tomem_state)

lemma wf_cong:
  assumes "\<And>q. isinreg l' q = isinreg l q" "\<And>q. rs_realreg (l_state l' q) = rs_realreg (l_state l q)"
    "\<And>q. rs_realind (l_state l' q) = rs_realind (l_state l q)"
    "\<And>q. q < VREGS \<Longrightarrow> rs_needflush (l_state l q) \<noteq> NF_HANDLER \<Longrightarrow> rs_needflush (l_state l' q) \<noteq> NF_HANDLER"
    "\<And>n. holds l' n = holds l n" "\<And>n. n \<in> work \<Longrightarrow> 0 < locked l n \<Longrightarrow> 0 < locked l' n"
  shows "wf l \<Longrightarrow> wf l'"
  unfolding wf_def by (simp add: assms)

lemma wf_tomem: "wf l \<Longrightarrow> wf (tomem E r l)"
  by (rule wf_cong [of "tomem E r l" l]) (auto simp: tomem_state)

section \<open>Eviction\<close>

text \<open>\<open>evicted r l l'\<close> describes the tables after \<open>r\<close> has left its native register.\<close>

definition remove_at :: "nat \<Rightarrow> 'a list \<Rightarrow> 'a list" where
  "remove_at i hs = take (length hs - 1) (hs[i := hs ! (length hs - 1)])"

lemma remove_at_nth:
  "i < length hs \<Longrightarrow> k < length hs - 1 \<Longrightarrow>
    remove_at i hs ! k = (if k = i then hs ! (length hs - 1) else hs ! k)"
  by (simp add: remove_at_def nth_list_update)

lemma remove_at_length [simp]: "length (remove_at i hs) = length hs - 1"
  by (simp add: remove_at_def)

lemma remove_at_last: "remove_at (length hs - 1) hs = butlast hs"
  by (cases hs rule: rev_cases) (simp_all add: remove_at_def)

definition evicted :: "nat \<Rightarrow> live \<Rightarrow> live \<Rightarrow> bool" where
  "evicted r l l' \<longleftrightarrow> (let rr = realreg l r; ind = rs_realind (l_state l r); hs = holds l rr in
     (\<forall>n. locked l' n = locked l n \<and> ns_touched (l_nat l' n) = ns_touched (l_nat l n) \<and>
        holds l' n = (if n = rr then remove_at ind hs else holds l n)) \<and>
     l_touchcnt l' = l_touchcnt l \<and> same_rest l l' \<and>
     status l' r = INMEM \<and> val_of l' r = val_of l r \<and>
     rs_needflush (l_state l' r) = rs_needflush (l_state l r) \<and>
     (\<forall>q. q \<noteq> r \<longrightarrow> l_state l' q =
        (if q = hs ! (length hs - 1) then (l_state l q)\<lparr>rs_realind := ind\<rparr> else l_state l q)))"

lemma wf_evicted:
  assumes wf: "wf l" and r: "r < VREGS" and i: "isinreg l r" and ev: "evicted r l l'"
  shows "wf l'"
proof -
  define rr where "rr = realreg l r"
  define ind where "ind = rs_realind (l_state l r)"
  define hs where "hs = holds l rr"
  note w = wf_inreg [OF wf r i, folded rr_def ind_def hs_def]
  have rn: "rr < N_REGS" using w by simp
  have h: "holds l' n = (if n = rr then remove_at ind hs else holds l n)"
    and lk: "locked l' n = locked l n" for n
    using ev by (simp_all add: evicted_def rr_def ind_def hs_def Let_def)
  have st: "l_state l' q = (if q = hs ! (length hs - 1) then (l_state l q)\<lparr>rs_realind := ind\<rparr> else l_state l q)"
    if "q \<noteq> r" for q
    using ev that by (simp add: evicted_def rr_def ind_def hs_def Let_def)
  have nr: "\<not> isinreg l' r" using ev by (simp add: evicted_def isinreg_def Let_def)
  have in_eq: "isinreg l' q = isinreg l q" "rs_realreg (l_state l' q) = rs_realreg (l_state l q)"
    if "q \<noteq> r" for q using st [OF that] by (simp_all add: isinreg_def)
  note wh = wf_holds [OF wf]
  have d: "hs ! a = hs ! b \<longleftrightarrow> a = b" if "a < length hs" "b < length hs" for a b
    using wf_distinct [OF wf rn] that by (simp add: nth_eq_iff_index_eq hs_def)
  have top: "length hs - 1 < length hs" using w(4) by simp
  have A: "\<exists>n<N_REGS. rs_realreg (l_state l' q) = Some n \<and> rs_realind (l_state l' q) < length (holds l' n) \<and>
      holds l' n ! rs_realind (l_state l' q) = q" if q: "q < VREGS" and iq: "isinreg l' q" for q
  proof -
    have qr: "q \<noteq> r" using iq nr by auto
    then have iq': "isinreg l q" using in_eq iq by simp
    note v = wf_inreg [OF wf q iq']
    show ?thesis
    proof (cases "realreg l q = rr")
      case False
      then have "q \<noteq> hs ! (length hs - 1)"
        using wh(3) [OF rn, folded hs_def, OF top] by auto
      then have "l_state l' q = l_state l q" using st [OF qr] by simp
      with v False show ?thesis by (auto simp: h)
    next
      case True
      let ?k = "rs_realind (l_state l q)"
      have k: "?k < length hs" "hs ! ?k = q" using v(4,5) True by (simp_all add: hs_def)
      have "?k \<noteq> ind" using k w(5) qr by auto
      show ?thesis
      proof (cases "?k = length hs - 1")
        case True
        then have "l_state l' q = (l_state l q)\<lparr>rs_realind := ind\<rparr>" using st [OF qr] k by simp
        moreover have "ind < length hs - 1" using \<open>?k \<noteq> ind\<close> w(4) True by simp
        ultimately show ?thesis
          using v(1) rn k True \<open>realreg l q = rr\<close> w(4) by (auto simp: h remove_at_nth)
      next
        case False
        then have "l_state l' q = l_state l q" using st [OF qr] k d [OF _ top] by auto
        then show ?thesis
          using v(1) rn k False \<open>realreg l q = rr\<close> w(4) \<open>?k \<noteq> ind\<close> by (auto simp: h remove_at_nth)
      qed
    qed
  qed
  have B: "holds l' n ! k < VREGS \<and> isinreg l' (holds l' n ! k) \<and>
      rs_realreg (l_state l' (holds l' n ! k)) = Some n \<and> rs_realind (l_state l' (holds l' n ! k)) = k"
    if n: "n < N_REGS" and k: "k < length (holds l' n)" for n k
  proof (cases "n = rr")
    case False
    then have k': "k < length (holds l n)" using k by (simp add: h)
    have ne: "holds l n ! k \<noteq> r" "holds l n ! k \<noteq> hs ! (length hs - 1)"
      using wh(3) [OF n k'] w(1) False wh(3) [OF rn, folded hs_def, OF top] by auto
    with wh [OF n k'] False in_eq [OF ne(1)] st [OF ne(1)] show ?thesis by (simp add: h)
  next
    case True
    then have k': "k < length hs - 1" using k by (simp add: h)
    show ?thesis
    proof (cases "k = ind")
      case True
      then have eq: "holds l' n ! k = hs ! (length hs - 1)"
        using \<open>n = rr\<close> k' w(4) by (simp add: h remove_at_nth)
      have ne: "hs ! (length hs - 1) \<noteq> r" using True k' w(5) d [OF top] w(4) by auto
      show ?thesis
        unfolding eq using wh [OF rn, folded hs_def, OF top] in_eq [OF ne] st [OF ne] True \<open>n = rr\<close> by simp
    next
      case False
      then have eq: "holds l' n ! k = hs ! k"
        using \<open>n = rr\<close> k' w(4) by (simp add: h remove_at_nth)
      have kl: "k < length hs" using k' by simp
      have ne: "hs ! k \<noteq> r" "hs ! k \<noteq> hs ! (length hs - 1)"
        using False w(5) d [OF kl] w(4) top k' by auto
      show ?thesis
        unfolding eq using wh [OF rn, folded hs_def, OF kl] in_eq [OF ne(1)] st [OF ne(1)] ne(2) \<open>n = rr\<close> by simp
    qed
  qed
  have C: "holds l' n = [] \<and> 0 < locked l' n" if "n \<in> work" for n
    using wf_work [OF wf that] w(3) that by (auto simp: h lk)
  have D: "rs_needflush (l_state l' q) \<noteq> NF_HANDLER" if "q < VREGS" for q
  proof (cases "q = r")
    case True
    then show ?thesis using ev wf r by (simp add: evicted_def wf_def Let_def)
  next
    case False
    then show ?thesis using st [OF False] wf that by (simp add: wf_def)
  qed
  from A B C D show ?thesis unfolding wf_def by blast
qed


lemma evict_evicted:
  assumes wf: "wf l" and r: "r < VREGS" and i: "isinreg l r"
    and nl: "locked l (realreg l r) = 0 \<or> length (holds l (realreg l r)) \<noteq> 1"
  obtains l' where "evict E r l = Some l'" "evicted r l l'" "l_code l' = l_code (tomem E r l)"
proof -
  note w = wf_inreg [OF wf r i]
  define rr where "rr = realreg l r"
  define ind where "ind = rs_realind (l_state l r)"
  define hs where "hs = holds l rr"
  define n where "n = length hs - 1"
  define l1 where "l1 = tomem E r l"
  define l2 where "l2 = (if n \<noteq> ind then upd_state (hs ! n) (\<lambda>x. x\<lparr>rs_realind := ind\<rparr>)
      (upd_nat rr (\<lambda>x. x\<lparr>ns_holds := take n (hs[ind := hs ! n])\<rparr>) l1)
      else upd_nat rr (\<lambda>x. x\<lparr>ns_holds := take n hs\<rparr>) l1)"
  define l' where "l' = set_status r INMEM (upd_state r (\<lambda>x. x\<lparr>rs_realreg := None\<rparr>) l2)"
  have l1: "l_nat l1 = l_nat l" "l_touchcnt l1 = l_touchcnt l" "same_rest l l1"
    "l_state l1 = (l_state l)(r := (l_state l r)\<lparr>rs_status := if status l r = DIRTY then CLEAN else status l r\<rparr>)"
    unfolding l1_def by (rule tomem_state)+
  have "realreg l1 r = rr" "rs_realind (l_state l1 r) = ind" "holds l1 rr = hs" "locked l1 rr = locked l rr"
    by (simp_all add: l1 rr_def ind_def hs_def)
  then have "evict E r l = Some l'"
    using i nl by (auto simp: evict_def Let_def l'_def l2_def n_def rr_def hs_def simp flip: l1_def)
  moreover have "l_code l' = l_code (tomem E r l)"
    by (simp add: l'_def l2_def l1_def)
  moreover have "evicted r l l'"
  proof -
    have last: "hs ! n = r" "hs[ind := hs ! n] = hs" if "n = ind"
      using w(5) that by (simp add: hs_def rr_def ind_def, metis list_update_id)
    have top: "hs ! n \<noteq> r" if "n \<noteq> ind"
    proof -
      have "ind < length hs" "hs ! ind = r" "distinct hs"
        using w(4,5) wf_distinct [OF wf w(2)] by (simp_all add: hs_def rr_def ind_def)
      with that show ?thesis using nth_eq_iff_index_eq [of hs n ind] by (auto simp: n_def)
    qed
    have l2: "l_nat l2 = (l_nat l)(rr := (l_nat l rr)\<lparr>ns_holds := remove_at ind hs\<rparr>)"
      using last by (auto simp: l2_def l1 remove_at_def n_def)
    have s2: "l_state l2 = (if n \<noteq> ind then (l_state l1)(hs ! n := (l_state l1 (hs ! n))\<lparr>rs_realind := ind\<rparr>) else l_state l1)"
      by (simp add: l2_def)
    have nS: "length hs - Suc 0 = n" by (simp add: n_def)
    have sr: "same_rest l l2" "l_touchcnt l2 = l_touchcnt l" using l1(3) by (simp_all add: l2_def l1(2))
    show ?thesis
      unfolding evicted_def Let_def
    proof (intro conjI allI impI)
      fix q assume "q \<noteq> r"
      then show "l_state l' q = (if q = holds l (realreg l r) ! (length (holds l (realreg l r)) - 1)
          then (l_state l q)\<lparr>rs_realind := rs_realind (l_state l r)\<rparr> else l_state l q)"
        using last(1) nS by (auto simp: l'_def s2 l1 simp flip: rr_def hs_def ind_def)
    qed (use nS top sr in \<open>auto simp: l'_def l2 s2 l1 simp flip: rr_def hs_def ind_def\<close>)
  qed
  ultimately show ?thesis using that by blast
qed


definition same_nat :: "live \<Rightarrow> live \<Rightarrow> bool" where
  "same_nat l l' \<longleftrightarrow> (\<forall>n. locked l' n = locked l n \<and> ns_touched (l_nat l' n) = ns_touched (l_nat l n)) \<and>
     l_touchcnt l' = l_touchcnt l \<and> same_rest l l'"

lemma same_nat_trans: "same_nat l1 l2 \<Longrightarrow> same_nat l2 l3 \<Longrightarrow> same_nat l1 l3"
  by (auto simp: same_nat_def intro: same_rest_trans)

lemma same_nat_refl [simp]: "same_nat l l"
  by (simp add: same_nat_def)

lemma vrep_cong: "l_state l' q = l_state l q \<Longrightarrow> vrep E l' s V q = vrep E l s V q"
  by (simp add: vrep_def cong: vstatus.case_cong)

lemma evicted_same_nat: "evicted r l l' \<Longrightarrow> same_nat l l'"
  by (simp add: evicted_def same_nat_def Let_def)

lemma evicted_pres:
  assumes ok: "env_ok E" and wf: "wf l" and r: "r < VREGS" and i: "isinreg l r"
    and ev: "evicted r l l'" and code: "l_code l' = l_code (tomem E r l)" and K: "K \<inter> work = {}"
  shows "pres K X E l l'"
proof (rule pres_trans [OF tomem_pres [OF ok wf r K] pres_same_code [OF code]])
  fix s V q
  assume v: "vrep E (tomem E r l) s V q"
  show "vrep E l' s V q"
  proof (cases "q = r")
    case True
    then show ?thesis
      using v ev i by (auto simp: vrep_def tomem_state evicted_def isinreg_def Let_def split: if_splits)
  next
    case False
    then have "l_state l' q = l_state l q \<or> l_state l' q = (l_state l q)\<lparr>rs_realind := rs_realind (l_state l r)\<rparr>"
      using ev by (simp add: evicted_def Let_def)
    then show ?thesis using v False by (auto simp: vrep_def tomem_state split: vstatus.splits)
  qed
qed

lemma evict_ok:
  assumes ok: "env_ok E" and wf: "wf l" and r: "r < VREGS" and i: "isinreg l r"
    and nl: "locked l (realreg l r) = 0 \<or> length (holds l (realreg l r)) \<noteq> 1"
  shows "\<exists>l'. evict E r l = Some l' \<and> evicted r l l' \<and> wf l' \<and> (\<forall>K X. K \<inter> work = {} \<longrightarrow> pres K X E l l')"
proof -
  obtain l' where "evict E r l = Some l'" "evicted r l l'" "l_code l' = l_code (tomem E r l)"
    using evict_evicted [OF wf r i nl] .
  then show ?thesis using evicted_pres [OF ok wf r i] wf_evicted [OF wf r i] by blast
qed

text \<open>After \<open>free_nreg\<close> the native register is empty and what it held is in memory.\<close>

definition freed :: "nat \<Rightarrow> live \<Rightarrow> live \<Rightarrow> bool" where
  "freed n l l' \<longleftrightarrow> same_nat l l' \<and> holds l' n = [] \<and> (\<forall>m. m \<noteq> n \<longrightarrow> holds l' m = holds l m) \<and>
     (\<forall>q. l_state l' q = l_state l q \<or> (q \<in> set (holds l n) \<and> status l' q = INMEM))"

lemma free_nreg_loop_ok:
  assumes "env_ok E" "n < N_REGS"
  shows "wf l \<Longrightarrow> locked l n = 0 \<Longrightarrow> length (holds l n) = k \<Longrightarrow>
    \<exists>l'. free_nreg_loop E n k l = Some l' \<and> wf l' \<and> (\<forall>K X. K \<inter> work = {} \<longrightarrow> pres K X E l l') \<and> freed n l l'"
proof (induction k arbitrary: l)
  case 0
  then show ?case by (auto simp: freed_def)
next
  case (Suc k)
  let ?r = "holds l n ! k"
  have k: "k < length (holds l n)" using Suc.prems by simp
  note h = wf_holds [OF Suc.prems(1) assms(2) k]
  have rr: "realreg l ?r = n" using h(3) by simp
  obtain l1 where l1: "evict E ?r l = Some l1" "evicted ?r l l1" "wf l1" "\<And>K X. K \<inter> work = {} \<Longrightarrow> pres K X E l l1"
    using evict_ok [OF assms(1) Suc.prems(1) h(1,2)] Suc.prems(2) rr by auto
  have h1: "holds l1 n = butlast (holds l n)" and h2: "\<And>m. m \<noteq> n \<Longrightarrow> holds l1 m = holds l m"
    using l1(2) h(4) rr Suc.prems(3) remove_at_last [of "holds l n"] by (auto simp: evicted_def Let_def)
  have s1: "l_state l1 q = l_state l q \<or> (q = ?r \<and> status l1 q = INMEM)" for q
    using l1(2) rr Suc.prems(3) by (cases "q = ?r") (auto simp: evicted_def Let_def)
  have "locked l1 n = 0" "length (holds l1 n) = k"
    using evicted_same_nat [OF l1(2)] Suc.prems h1 by (simp_all add: same_nat_def)
  then obtain l' where l': "free_nreg_loop E n k l1 = Some l'" "wf l'" "\<And>K X. K \<inter> work = {} \<Longrightarrow> pres K X E l1 l'" "freed n l1 l'"
    using Suc.IH [OF l1(3)] by blast
  have "freed n l l'"
    unfolding freed_def
  proof (intro conjI allI impI)
    fix q
    show "l_state l' q = l_state l q \<or> q \<in> set (holds l n) \<and> status l' q = INMEM"
    proof (cases "l_state l' q = l_state l1 q")
      case True
      then show ?thesis using s1 [of q] nth_mem [OF k] by auto
    next
      case False
      then show ?thesis using l'(4) in_set_butlastD [of q "holds l n"] by (auto simp: freed_def h1)
    qed
  qed (use l'(4) h2 same_nat_trans [OF evicted_same_nat [OF l1(2)]] in \<open>auto simp: freed_def\<close>)
  moreover have "pres K X E l l'" if "K \<inter> work = {}" for K X using pres_trans [OF l1(4) [OF that] l'(3) [OF that]] .
  ultimately show ?case using l1(1) l'(1,2) by auto
qed

lemma free_nreg_ok:
  assumes "env_ok E" "wf l" "n < N_REGS" "locked l n = 0"
  shows "\<exists>l'. free_nreg E n l = Some l' \<and> wf l' \<and> (\<forall>K X. K \<inter> work = {} \<longrightarrow> pres K X E l l') \<and> freed n l l'"
  using free_nreg_loop_ok [OF assms(1,3,2,4) refl] by (auto simp: free_nreg_def freed_def)

lemma freed_refl: "holds l n = [] \<Longrightarrow> freed n l l"
  by (simp add: freed_def)

section \<open>Dropping a value\<close>

text \<open>\<open>disassociate\<close> forgets the value of its register, so it is sound for a register that is about
  to be overwritten.\<close>

lemma isclean_pres:
  assumes "r \<in> X \<or> status l r \<noteq> DIRTY"
  shows "pres K X E l (isclean r l)"
proof (rule pres_same_code)
  fix s V q
  assume "q \<notin> X" and v: "vrep E l s V q"
  have "l_state (isclean r l) q = l_state l q \<or> status l q = CLEAN \<and> status (isclean r l) q = CLEAN \<and>
      realreg (isclean r l) q = realreg l q"
    using \<open>q \<notin> X\<close> assms by (auto simp: isclean_def isinreg_def)
  then show "vrep E (isclean r l) s V q"
  proof
    assume "l_state (isclean r l) q = l_state l q"
    with v show ?thesis using vrep_cong by blast
  next
    assume "status l q = CLEAN \<and> status (isclean r l) q = CLEAN \<and> realreg (isclean r l) q = realreg l q"
    with v show ?thesis by (simp add: vrep_def)
  qed
qed (simp add: isclean_def)

lemma wf_isclean: "wf l \<Longrightarrow> wf (isclean r l)"
  by (rule wf_cong [of "isclean r l" l]) (auto simp: isclean_def isinreg_def)

lemma isclean_simps [simp]:
  "isinreg (isclean r l) q = isinreg l q" "l_nat (isclean r l) = l_nat l"
  "realreg (isclean r l) q = realreg l q" "l_touchcnt (isclean r l) = l_touchcnt l"
  "rs_realind (l_state (isclean r l) q) = rs_realind (l_state l q)" "same_rest l (isclean r l)"
  "q \<noteq> r \<Longrightarrow> l_state (isclean r l) q = l_state l q" "\<not> isinreg l r \<Longrightarrow> isclean r l = l"
  by (auto simp: isclean_def isinreg_def)


lemma disassociate_ok:
  assumes ok: "env_ok E" and wf: "wf l" and r: "r < VREGS"
    and nl: "isinreg l r \<Longrightarrow> locked l (realreg l r) = 0 \<or> length (holds l (realreg l r)) \<noteq> 1"
  shows "\<exists>l'. disassociate E r l = Some l' \<and> wf l' \<and> (\<forall>K X. K \<inter> work = {} \<longrightarrow> r \<in> X \<or> status l r \<noteq> DIRTY \<longrightarrow> pres K X E l l') \<and> same_nat l l' \<and>
    (if isinreg l r then evicted r (isclean r l) l' else l' = l)"
proof (cases "isinreg l r")
  case True
  have nl': "locked (isclean r l) (realreg (isclean r l) r) = 0 \<or>
      length (holds (isclean r l) (realreg (isclean r l) r)) \<noteq> 1" using nl [OF True] by simp
  have i': "isinreg (isclean r l) r" using True by simp
  obtain l' where l': "evict E r (isclean r l) = Some l'" "evicted r (isclean r l) l'" "wf l'"
    "\<And>K X. K \<inter> work = {} \<Longrightarrow> pres K X E (isclean r l) l'"
    using evict_ok [OF ok wf_isclean [OF wf] r i' nl'] by auto
  moreover have "same_nat l l'"
    by (rule same_nat_trans [OF _ evicted_same_nat [OF l'(2)]]) (simp add: same_nat_def)
  moreover have "pres K X E l l'" if "K \<inter> work = {}" "r \<in> X \<or> status l r \<noteq> DIRTY" for K X
    using pres_trans [OF isclean_pres [OF that(2)] l'(4) [OF that(1)]] .
  ultimately show ?thesis using True by (simp add: disassociate_def)
next
  case False
  then show ?thesis using wf by (simp add: disassociate_def evict_def)
qed

section \<open>Allocation\<close>

text \<open>
  A native register is available, and the use counter is far from the bound that
  \<^verbatim>\<open>alloc_reg_hinted\<close> starts its search with; \<open>t\<close> more uses fit.
\<close>

definition touch_ok :: "nat \<Rightarrow> live \<Rightarrow> bool" where
  "touch_ok t l \<longleftrightarrow> unat (l_touchcnt l) + t < 2000000000 \<and>
     (\<forall>n<N_REGS. unat (ns_touched (l_nat l n)) \<le> unat (l_touchcnt l))"

lemma best_reg_sound:
  "best_reg l hint is (best, when) = Some n \<Longrightarrow> best = Some n \<or> n \<in> set is \<and> locked l n = 0"
  by (induction "is" arbitrary: best "when") (auto simp: Let_def split: if_splits)

lemma best_reg_total:
  "(\<And>i. i \<in> set is \<Longrightarrow> sint (ns_touched (l_nat l i)) < 2000000000) \<Longrightarrow>
    best \<noteq> None \<or> when = 2000000000 \<and> (\<exists>i\<in>set is. locked l i = 0) \<Longrightarrow>
    best_reg l hint is (best, when) \<noteq> None"
proof (induction "is" arbitrary: best "when")
  case (Cons i "is")
  have IH: "best_reg l hint is (b, w) \<noteq> None" if "b \<noteq> None \<or> w = 2000000000 \<and> (\<exists>i\<in>set is. locked l i = 0)" for b w
    using Cons.IH [OF _ that] Cons.prems(1) by simp
  have b: "sint (ns_touched (l_nat l i)) < 2000000000" using Cons.prems(1) by simp
  show ?case
  proof (cases "best = None")
    case True
    then have w: "when = 2000000000" "locked l i = 0 \<or> (\<exists>i\<in>set is. locked l i = 0)" using Cons.prems(2) by auto
    with b show ?thesis using IH by (auto simp: Let_def)
  next
    case False
    then show ?thesis using IH by (auto simp: Let_def)
  qed
qed simp

lemma small_sint: assumes "unat (w::32 word) < 2000000000" shows "sint w < 2000000000"
proof -
  have a: "uint w < 2000000000" using assms unfolding uint_nat by linarith
  moreover have "signed_take_bit 31 (uint w) = uint w"
  proof (rule signed_take_bit_int_eq_self)
    show "uint w < 2 ^ 31" using a by simp
    show "- (2 ^ 31) \<le> uint w" using order_trans [OF _ uint_ge_0 [of w]] by simp
  qed
  moreover have "sint w = signed_take_bit 31 (uint w)" unfolding sint_uint by simp
  ultimately show ?thesis by linarith
qed

lemma touch_ok_badness:
  assumes "touch_ok t l" "n < N_REGS"
  shows "sint (ns_touched (l_nat l n)) < 2000000000"
  using assms by (intro small_sint) (auto simp: touch_ok_def dest!: spec [of _ n])

lemma best_reg_ok:
  assumes "touch_ok t l" "m < N_REGS" "locked l m = 0"
  obtains n where "best_reg l hint (rev [0..<N_REGS]) (None, 2000000000) = Some n"
    "n < N_REGS" "locked l n = 0"
proof -
  have "best_reg l hint (rev [0..<N_REGS]) (None, 2000000000) \<noteq> None"
    using touch_ok_badness [OF assms(1)] assms(2,3) by (intro best_reg_total) auto
  then show ?thesis using that best_reg_sound [of l hint "rev [0..<N_REGS]" None] by fastforce
qed


text \<open>Code that loads a native register which holds nothing else.\<close>

lemma rep_loaded:
  assumes wf: "wf l" and n: "n < N_REGS" "holds l n = []"
    and rep: "rep X E l s V" and k: "keeps (insert n work) s s'" and m: "amem s' = amem s"
    and st: "\<And>q. q \<noteq> r \<Longrightarrow> l_state l' q = l_state l q"
    and r: "r < VREGS" "r \<notin> X \<Longrightarrow> vrep E l' s' V r"
  shows "rep X E l' s' V"
proof -
  have "vrep E l' s' V q" if q: "q < VREGS" "q \<notin> X" for q
  proof (cases "q = r")
    case False
    have "vrep E l s V q" using rep q by (simp add: rep_def)
    moreover have "xr s' (realreg l q) = xr s (realreg l q)" if "isinreg l q"
    proof -
      have "realreg l q \<noteq> n" using wf_inreg(4) [OF wf q(1) that] n(2) by (metis list.size(3) not_less_zero)
      with wf_inreg(3) [OF wf q(1) that] k show ?thesis by (simp add: keeps_def)
    qed
    ultimately show ?thesis
      using st [OF False] m by (auto simp: vrep_def isinreg_def split: vstatus.splits)
  qed (use r(2) q in simp)
  moreover have "xr s' 28 = e_regs E"
    using rep_28 [OF rep] k n(1) by (simp add: keeps_def work_def N_REGS_def)
  ultimately show ?thesis by (simp add: rep_def R_REGSTRUCT_def)
qed

lemma load_vreg_state:
  "l_nat (load_vreg E r n w l) = l_nat l" "l_touchcnt (load_vreg E r n w l) = l_touchcnt l"
  "same_rest l (load_vreg E r n w l)" "q \<noteq> r \<Longrightarrow> l_state (load_vreg E r n w l) q = l_state l q"
  "status (load_vreg E r n w l) r = (if w \<or> isconst l r then DIRTY else CLEAN)"
  "rs_needflush (l_state (load_vreg E r n w l) r) = rs_needflush (l_state l r)"
  by (auto simp: load_vreg_def isconst_def)

definition bind_reg :: "nat \<Rightarrow> nat \<Rightarrow> live \<Rightarrow> live" where
  "bind_reg r n l = upd_nat n (\<lambda>x. x\<lparr>ns_holds := [r]\<rparr>)
     (touch n (upd_state r (\<lambda>x. x\<lparr>rs_realreg := Some n, rs_realind := 0\<rparr>) l))"

lemma touch_simps [simp]:
  "l_state (touch n l) = l_state l" "l_code (touch n l) = l_code l" "same_rest l' (touch n l) = same_rest l' l"
  "holds (touch n l) m = holds l m" "locked (touch n l) m = locked l m"
  "l_touchcnt (touch n l) = l_touchcnt l + 1"
  "ns_touched (l_nat (touch n l) m) = (if m = n then l_touchcnt l else ns_touched (l_nat l m))"
  by (auto simp: touch_def)

lemma bind_reg_simps:
  "l_code (bind_reg r n l) = l_code l" "same_rest l' (bind_reg r n l) = same_rest l' l"
  "l_state (bind_reg r n l) = (l_state l)(r := (l_state l r)\<lparr>rs_realreg := Some n, rs_realind := 0\<rparr>)"
  "holds (bind_reg r n l) m = (if m = n then [r] else holds l m)"
  "locked (bind_reg r n l) m = locked l m" "l_touchcnt (bind_reg r n l) = l_touchcnt l + 1"
  "ns_touched (l_nat (bind_reg r n l) m) = (if m = n then l_touchcnt l else ns_touched (l_nat l m))"
  by (auto simp: bind_reg_def)

lemma touch_ok_touch:
  assumes "touch_ok (Suc t) l" "l_touchcnt l' = l_touchcnt l + 1"
    "\<And>m. ns_touched (l_nat l' m) = ns_touched (l_nat l m) \<or> ns_touched (l_nat l' m) = l_touchcnt l"
  shows "touch_ok t l'"
proof -
  have "unat (l_touchcnt l + 1) = unat (l_touchcnt l) + 1"
    using assms(1) unat_plus_of_nat [of "l_touchcnt l" 1] by (simp add: touch_ok_def)
  then have u: "unat (l_touchcnt l') = unat (l_touchcnt l) + 1" by (simp add: assms(2))
  have "unat (ns_touched (l_nat l' m)) \<le> unat (l_touchcnt l')" if "m < N_REGS" for m
    using assms(1) assms(3) [of m] that u by (auto simp: touch_ok_def dest!: spec [of _ m])
  with assms(1) u show ?thesis by (simp add: touch_ok_def)
qed

lemma load_pres:
  assumes ok: "env_ok E" and wf: "wf l" and n: "n < N_REGS" "n \<notin> work" "holds l n = []"
    and r: "r < VREGS" "\<not> isinreg l r" and X: "r \<in> X \<or> \<not> w \<and> status l r \<noteq> UNDEF"
    and K: "K \<inter> work = {}" "n \<notin> K"
  shows "pres K X E l (bind_reg r n (load_vreg E r n w l))"
proof -
  let ?l' = "bind_reg r n (load_vreg E r n w l)"
  have st: "l_state ?l' q = l_state l q" if "q \<noteq> r" for q
    using that by (simp add: bind_reg_simps load_vreg_state)
  have n31: "n \<noteq> 31" using n by (simp add: N_REGS_def)
  consider "w \<or> status l r = UNDEF" | "\<not> w" "isconst l r" | "\<not> w" "status l r = INMEM"
    using r(2) by (cases "status l r") (auto simp: isconst_def isinreg_def)
  then show ?thesis
  proof cases
    case 1
    then have "l_code ?l' = l_code l" by (auto simp: bind_reg_simps load_vreg_def)
    moreover have "r \<in> X" using 1 X by auto
    ultimately show ?thesis using st vrep_cong by (intro pres_same_code) metis+
  next
    case 2
    let ?c = "if r = PC_P then LOAD_U64 n (val_of l r) else compemu_raw_mov_l_ri n (ucast (val_of l r))"
    have code: "l_code ?l' = l_code l @ ?c" using 2 by (auto simp: bind_reg_simps load_vreg_def isconst_def)
    have ex: "exec ?c s = (if r = PC_P then wrx n (val_of l r) s else wrw n (ucast (val_of l r)) s)" for s
      using n31 by (simp add: compemu_raw_mov_l_ri_def)
    have "rep X E ?l' (exec ?c s) V \<and> quiet E s (exec ?c s) \<and> (\<forall>k\<in>K. xr (exec ?c s) k = xr s k)"
      if rep: "rep X E l s V" for s V
    proof (intro conjI ballI)
      have k: "keeps (insert n work) s (exec ?c s)" using n31 by (auto simp: ex keeps_def xr_wrx xr_wrw)
      have v: "agree r (val_of l r) (V r)" if "r \<notin> X"
        using rep r that 2 by (auto simp: rep_def vrep_def isconst_def)
      show "rep X E ?l' (exec ?c s) V"
        using v n31 2 st
        by (intro rep_loaded [OF wf n(1,3) rep k]) (auto simp: ex r vrep_def bind_reg_simps load_vreg_state agree_def xr_wrx xr_wrw)
      show "quiet E s (exec ?c s)"
        by (rule keeps_quiet [OF k]) (use n in \<open>auto simp: ex dest: work_native\<close>)
      show "xr (exec ?c s) k' = xr s k'" if "k' \<in> K" for k' using k K that by (auto simp: keeps_def)
    qed
    moreover have "closed ?c" by (simp add: compemu_raw_mov_l_ri_def)
    ultimately show ?thesis unfolding pres_def using code by blast
  next
    case 3
    let ?c = "compemu_raw_mov_l_rm E n (e_mem E r)"
    have code: "l_code ?l' = l_code l @ ?c" using 3 by (auto simp: bind_reg_simps load_vreg_def isconst_def)
    have "rep X E ?l' (exec ?c s) V \<and> quiet E s (exec ?c s) \<and> (\<forall>k\<in>K. xr (exec ?c s) k = xr s k)"
      if rep: "rep X E l s V" for s V
    proof (intro conjI ballI)
      note x = exec_mov_l_rm [OF ok r(1) rep_28 [OF rep] n(1,2)]
      have v: "agree r (load_slot E r (amem s)) (V r)" if "r \<notin> X"
        using rep r that 3 by (auto simp: rep_def vrep_def)
      show "rep X E ?l' (exec ?c s) V"
        using v 3 st
        by (intro rep_loaded [OF wf n(1,3) rep x(1,2)]) (auto simp: r vrep_def bind_reg_simps load_vreg_state isconst_def x(2,3))
      show "quiet E s (exec ?c s)"
        by (rule keeps_quiet [OF x(1)]) (use n in \<open>auto simp: x(2) dest: work_native\<close>)
      show "xr (exec ?c s) k' = xr s k'" if "k' \<in> K" for k' using x(1) K that by (auto simp: keeps_def)
    qed
    moreover have "closed ?c"
      by (auto simp: compemu_raw_mov_l_rm_def Let_def a64_simps intro!: closed_straight)
    ultimately show ?thesis unfolding pres_def using code by blast
  qed
qed


lemma wf_bind:
  assumes wf: "wf l" and n: "n < N_REGS" "n \<notin> work" "holds l n = []" and r: "r < VREGS" "\<not> isinreg l r"
    and s: "\<And>q. q \<noteq> r \<Longrightarrow> l_state l' q = l_state l q" "isinreg l' r"
      "rs_realreg (l_state l' r) = Some n" "rs_realind (l_state l' r) = 0"
      "rs_needflush (l_state l' r) = rs_needflush (l_state l r)"
    and h: "\<And>m. holds l' m = (if m = n then [r] else holds l m)" "\<And>m. locked l' m = locked l m"
  shows "wf l'"
  unfolding wf_def
proof (intro conjI allI ballI impI)
  fix q
  assume q: "q < VREGS" and i: "isinreg l' q"
  show "\<exists>m<N_REGS. rs_realreg (l_state l' q) = Some m \<and> rs_realind (l_state l' q) < length (holds l' m) \<and>
      holds l' m ! rs_realind (l_state l' q) = q"
  proof (cases "q = r")
    case False
    then have i': "isinreg l q" using i s(1) by (simp add: isinreg_def)
    have "realreg l q \<noteq> n" using wf_inreg(4) [OF wf q i'] n(3) by (metis list.size(3) not_less_zero)
    with wf_inreg [OF wf q i'] s(1) [OF False] show ?thesis by (auto simp: h)
  qed (use n s h in auto)
next
  fix m k
  assume m: "m < N_REGS" and k: "k < length (holds l' m)"
  have "holds l' m ! k < VREGS \<and> isinreg l' (holds l' m ! k) \<and>
      rs_realreg (l_state l' (holds l' m ! k)) = Some m \<and> rs_realind (l_state l' (holds l' m ! k)) = k"
  proof (cases "m = n")
    case False
    then have k': "k < length (holds l m)" using k by (simp add: h)
    note w = wf_holds [OF wf m k']
    have "holds l m ! k \<noteq> r" using w(2) r(2) by auto
    with w False s(1) [OF this] show ?thesis by (simp add: h isinreg_def)
  qed (use k r s h in \<open>simp add: h\<close>)
  then show "holds l' m ! k < VREGS" "isinreg l' (holds l' m ! k)"
    "rs_realreg (l_state l' (holds l' m ! k)) = Some m" "rs_realind (l_state l' (holds l' m ! k)) = k"
    by blast+
next
  fix m assume "m \<in> work"
  then show "holds l' m = []" "0 < locked l' m" using wf_work [OF wf] n(2) by (auto simp: h)
next
  fix q assume "q < VREGS"
  then show "rs_needflush (l_state l' q) \<noteq> NF_HANDLER" using wf s(1) s(5) by (cases "q = r") (auto simp: wf_def)
qed

text \<open>The native registers that are in use, the work registers apart.\<close>

definition lockset :: "live \<Rightarrow> nat set" where
  "lockset l = {k. 0 < locked l k} - work"

text \<open>The effect of an allocation on the tables.\<close>

definition allocated :: "nat \<Rightarrow> nat \<Rightarrow> live \<Rightarrow> live \<Rightarrow> bool" where
  "allocated r n l l' \<longleftrightarrow> n < N_REGS \<and> n \<notin> work \<and> locked l n = 0 \<and> isinreg l' r \<and>
     rs_realreg (l_state l' r) = Some n \<and> holds l' n = [r] \<and>
     (\<forall>m. locked l' m = locked l m) \<and> (\<forall>m. m \<noteq> n \<longrightarrow> holds l' m = holds l m) \<and> same_rest l l' \<and>
     (\<forall>q. q \<noteq> r \<longrightarrow> l_state l' q = l_state l q \<or> q \<in> set (holds l n) \<and> status l' q = INMEM)"

lemma unlocked_not_work: "wf l \<Longrightarrow> locked l n = 0 \<Longrightarrow> n \<notin> work"
  using wf_work by fastforce

lemma free_if_ok:
  assumes "env_ok E" "wf l" "n < N_REGS" "locked l n = 0"
  shows "\<exists>l1. (if holds l n \<noteq> [] then free_nreg E n l else Some l) = Some l1 \<and> wf l1 \<and>
    (\<forall>K X. K \<inter> work = {} \<longrightarrow> pres K X E l l1) \<and> freed n l l1"
  using free_nreg_ok [OF assms] assms(2) by (auto simp: freed_refl)

lemma alloc_reg_hinted_ok:
  assumes ok: "env_ok E" and wf: "wf l" and r: "r < VREGS" "\<not> isinreg l r"
    and t: "touch_ok (Suc t) l" and av: "m < N_REGS" "locked l m = 0"
  shows "\<exists>n l'. alloc_reg_hinted E r w hint l = Some (n, l') \<and> wf l' \<and> allocated r n l l' \<and> touch_ok t l' \<and>
    (\<forall>K X. K \<subseteq> lockset l \<longrightarrow> r \<in> X \<or> \<not> w \<and> status l r \<noteq> UNDEF \<longrightarrow> pres K X E l l') \<and>
    (\<exists>l1. (\<forall>K X. K \<inter> work = {} \<longrightarrow> pres K X E l l1) \<and> (\<forall>q. q \<noteq> r \<longrightarrow> l_state l' q = l_state l1 q) \<and>
       l_state l1 r = l_state l r \<and> (w \<longrightarrow> l_code l' = l_code l1))"
proof -
  obtain n where b: "best_reg l hint (rev [0..<N_REGS]) (None, 2000000000) = Some n"
    and n: "n < N_REGS" "locked l n = 0"
    using best_reg_ok [OF t av] .
  obtain l1 where l1: "(if holds l n \<noteq> [] then free_nreg E n l else Some l) = Some l1" "wf l1"
    "\<And>K X. K \<inter> work = {} \<Longrightarrow> pres K X E l l1" "freed n l l1"
    using free_if_ok [OF ok wf n] by blast
  have nw: "n \<notin> work" using unlocked_not_work [OF wf n(2)] .
  have h1: "holds l1 n = []" "\<And>m. locked l1 m = locked l m" "\<And>m. m \<noteq> n \<Longrightarrow> holds l1 m = holds l m"
    using l1(4) by (auto simp: freed_def same_nat_def)
  have q1: "l_state l1 q = l_state l q \<or> (q \<in> set (holds l n) \<and> status l1 q = INMEM)" for q
    using l1(4) by (auto simp: freed_def)
  have rn: "r \<notin> set (holds l n)" using wf_holds_iff [OF wf n(1) r(1)] r(2) by simp
  then have r1: "l_state l1 r = l_state l r" "\<not> isinreg l1 r" using q1 [of r] r(2) by (auto simp: isinreg_def)
  define l' where "l' = bind_reg r n (load_vreg E r n w l1)"
  have a: "alloc_reg_hinted E r w hint l = Some (n, l')"
    using l1(1) by (simp add: alloc_reg_hinted_def b l'_def bind_reg_def Let_def)
  have "status l' r = (if w \<or> isconst l1 r then DIRTY else CLEAN)"
    by (simp add: l'_def bind_reg_simps load_vreg_state)
  then have i': "isinreg l' r" by (simp add: isinreg_def)
  have "wf l'"
    by (rule wf_bind [OF l1(2) n(1) nw h1(1) r(1) r1(2)])
      (use i' in \<open>auto simp: l'_def bind_reg_simps load_vreg_state\<close>)
  moreover have "allocated r n l l'"
    using n nw i' h1 q1 l1(4)
    by (auto simp: allocated_def l'_def bind_reg_simps load_vreg_state freed_def same_nat_def
        intro: same_rest_trans [OF _ load_vreg_state(3)])
  moreover have "touch_ok t l'"
    using t l1(4) by (intro touch_ok_touch [of t l l'])
      (auto simp: l'_def bind_reg_simps load_vreg_state freed_def same_nat_def)
  moreover have "pres K X E l l'" if K: "K \<subseteq> lockset l" and X: "r \<in> X \<or> \<not> w \<and> status l r \<noteq> UNDEF" for K X
  proof -
    have "K \<inter> work = {}" "n \<notin> K" using K n(2) by (auto simp: lockset_def)
    then show ?thesis
      unfolding l'_def using X r1
      by (intro pres_trans [OF l1(3) load_pres [OF ok l1(2) n(1) nw h1(1) r(1)]]) auto
  qed
  moreover have "\<forall>q. q \<noteq> r \<longrightarrow> l_state l' q = l_state l1 q" "w \<longrightarrow> l_code l' = l_code l1"
    by (auto simp: l'_def bind_reg_simps load_vreg_state load_vreg_def)
  ultimately show ?thesis using a l1(3) r1(1) by blast
qed

end
