(* ===== verification/Jit_Regs.thy ===== *)
theory Jit_Regs
  imports Jit_Alloc
begin

unbundle bit_operations_syntax

text \<open>
  The register access functions the code generators call: \<open>readreg\<close>, \<open>writereg\<close> and
  \<open>rmw\<close>, and \<open>make_exclusive\<close>, which splits a native register that two virtual registers
  share.
\<close>

section \<open>Available registers\<close>

definition avail :: "nat \<Rightarrow> live \<Rightarrow> bool" where
  "avail k l \<longleftrightarrow> k \<le> card {m. m < N_REGS \<and> locked l m = 0}"

lemma avail_other:
  assumes "avail (Suc (Suc k)) l"
  obtains m where "m < N_REGS" "locked l m = 0" "m \<noteq> x"
proof -
  let ?S = "{m. m < N_REGS \<and> locked l m = 0}"
  have "\<not> ?S \<subseteq> {x}"
  proof
    assume "?S \<subseteq> {x}"
    then have "card ?S \<le> card {x}" by (intro card_mono) auto
    then show False using assms by (simp add: avail_def)
  qed
  then show ?thesis using that by auto
qed

lemma avail_Suc: "avail (Suc k) l \<Longrightarrow> avail k l"
  by (simp add: avail_def)

lemma avail_some:
  assumes "avail (Suc k) l"
  obtains m where "m < N_REGS" "locked l m = 0"
proof -
  have "{m. m < N_REGS \<and> locked l m = 0} \<noteq> {}"
  proof
    assume e: "{m. m < N_REGS \<and> locked l m = 0} = {}"
    show False using assms by (simp add: avail_def e)
  qed
  then show ?thesis using that by auto
qed

lemma avail_lock:
  assumes "avail (Suc k) l" "\<And>m. m \<noteq> n \<Longrightarrow> locked l' m = locked l m"
  shows "avail k l'"
proof -
  let ?S = "{m. m < N_REGS \<and> locked l m = 0}" and ?S' = "{m. m < N_REGS \<and> locked l' m = 0}"
  have "?S - {n} \<subseteq> ?S'" using assms(2) by auto
  then have "card (?S - {n}) \<le> card ?S'" by (intro card_mono) auto
  moreover have "card ?S - 1 \<le> card (?S - {n})" by (simp add: card_Diff_singleton_if)
  ultimately show ?thesis using assms(1) by (simp add: avail_def)
qed

section \<open>Effect on the other registers\<close>

text \<open>
  A register other than \<open>r\<close> stays where it is, or it was in an unlocked native register and is
  now in memory.
\<close>

definition frame :: "nat \<Rightarrow> live \<Rightarrow> live \<Rightarrow> bool" where
  "frame r l l' \<longleftrightarrow> (\<forall>q<VREGS. q \<noteq> r \<longrightarrow>
     isinreg l q \<and> status l' q = status l q \<and> rs_realreg (l_state l' q) = rs_realreg (l_state l q) \<or>
     isinreg l q \<and> locked l (realreg l q) = 0 \<and> status l' q = INMEM \<or>
     \<not> isinreg l q \<and> status l' q = status l q \<and> val_of l' q = val_of l q)"

definition acquired :: "nat \<Rightarrow> nat \<Rightarrow> live \<Rightarrow> live \<Rightarrow> bool" where
  "acquired r n l l' \<longleftrightarrow> n < N_REGS \<and> n \<notin> work \<and> isinreg l' r \<and> rs_realreg (l_state l' r) = Some n \<and>
     (\<forall>m. locked l' m = (if m = n then Suc (locked l m) else locked l m)) \<and> same_rest l l' \<and> frame r l l'"

lemma frame_refl [simp]: "frame r l l"
  by (auto simp: frame_def)

lemma frame_allocated: "wf l \<Longrightarrow> allocated r n l l' \<Longrightarrow> frame r l l'"
  unfolding frame_def
proof (intro allI impI)
  fix q
  assume wf: "wf l" and a: "allocated r n l l'" and q: "q < VREGS" "q \<noteq> r"
  then have n: "n < N_REGS" "locked l n = 0"
    and s: "l_state l' q = l_state l q \<or> q \<in> set (holds l n) \<and> status l' q = INMEM"
    by (auto simp: allocated_def)
  then show "isinreg l q \<and> status l' q = status l q \<and> rs_realreg (l_state l' q) = rs_realreg (l_state l q) \<or>
     isinreg l q \<and> locked l (realreg l q) = 0 \<and> status l' q = INMEM \<or>
     \<not> isinreg l q \<and> status l' q = status l q \<and> val_of l' q = val_of l q"
    using wf_holds_iff [OF wf n(1) q(1)] by auto
qed

lemma frame_realind:
  assumes "\<And>q. q \<noteq> r \<Longrightarrow> l_state l' q = l_state l q \<or> (\<exists>i. l_state l' q = (l_state l q)\<lparr>rs_realind := i\<rparr>)"
  shows "frame r l l'"
  unfolding frame_def
proof (intro allI impI)
  fix q
  assume "q \<noteq> r"
  from assms [OF this]
  show "isinreg l q \<and> status l' q = status l q \<and> rs_realreg (l_state l' q) = rs_realreg (l_state l q) \<or>
     isinreg l q \<and> locked l (realreg l q) = 0 \<and> status l' q = INMEM \<or>
     \<not> isinreg l q \<and> status l' q = status l q \<and> val_of l' q = val_of l q" by auto
qed

lemma frame_evicted: "evicted r l l' \<Longrightarrow> frame r l l'"
  by (rule frame_realind) (auto simp: evicted_def Let_def)

lemma frame_trans:
  assumes "frame r l1 l2" "frame r l2 l3" "\<And>m. locked l1 m \<le> locked l2 m"
  shows "frame r l1 l3"
  unfolding frame_def
proof (intro allI impI)
  fix q
  assume q: "q < VREGS" "q \<noteq> r"
  note f1 = assms(1) [unfolded frame_def, rule_format, OF q]
  note f2 = assms(2) [unfolded frame_def, rule_format, OF q]
  have le: "locked l2 n = 0 \<Longrightarrow> locked l1 n = 0" for n using assms(3) [of n] by simp
  show "isinreg l1 q \<and> status l3 q = status l1 q \<and> rs_realreg (l_state l3 q) = rs_realreg (l_state l1 q) \<or>
     isinreg l1 q \<and> locked l1 (realreg l1 q) = 0 \<and> status l3 q = INMEM \<or>
     \<not> isinreg l1 q \<and> status l3 q = status l1 q \<and> val_of l3 q = val_of l1 q"
    using f1 f2 le by (fastforce simp: isinreg_def)
qed

lemma setlock_simps [simp]:
  "l_state (setlock n l) = l_state l" "l_code (setlock n l) = l_code l" "holds (setlock n l) m = holds l m"
  "locked (setlock n l) m = (if m = n then Suc (locked l m) else locked l m)"
  "l_touchcnt (setlock n l) = l_touchcnt l" "ns_touched (l_nat (setlock n l) m) = ns_touched (l_nat l m)"
  "same_rest l' (setlock n l) = same_rest l' l" "isinreg (setlock n l) q = isinreg l q"
  by (auto simp: setlock_def isinreg_def)

lemma isinreg_cong: "l_state l' = l_state l \<Longrightarrow> isinreg l' q = isinreg l q"
  by (simp add: isinreg_def)

lemma isinreg_touch [simp]: "isinreg (touch n l) q = isinreg l q"
  by (simp add: isinreg_def)

lemma wf_touch_lock: "wf l \<Longrightarrow> wf (touch n (setlock n l))"
  by (rule wf_cong [of "touch n (setlock n l)" l]) auto

lemma pres_state: "l_code l' = l_code l \<Longrightarrow> l_state l' = l_state l \<Longrightarrow> pres K X E l l'"
proof (rule pres_same_code)
  fix s V q
  assume "l_state l' = l_state l" "vrep E l s V q"
  then show "vrep E l' s V q" using vrep_cong [of l' q l] by simp
qed

lemma touch_ok_mono: "touch_ok (Suc t) l \<Longrightarrow> touch_ok t l"
  by (auto simp: touch_ok_def)

lemma acquire_held:
  assumes wf: "wf l" and r: "r < VREGS" and i: "isinreg l r" and t: "touch_ok (Suc t) l"
  shows "wf (touch (realreg l r) (setlock (realreg l r) l))"
    "acquired r (realreg l r) l (touch (realreg l r) (setlock (realreg l r) l))"
    "touch_ok t (touch (realreg l r) (setlock (realreg l r) l))"
    "pres K X E l (touch (realreg l r) (setlock (realreg l r) l))"
proof -
  show "wf (touch (realreg l r) (setlock (realreg l r) l))" using wf by (rule wf_touch_lock)
  show "pres K X E l (touch (realreg l r) (setlock (realreg l r) l))" by (rule pres_state) simp_all
  show "touch_ok t (touch (realreg l r) (setlock (realreg l r) l))"
    by (rule touch_ok_touch [OF t]) auto
  show "acquired r (realreg l r) l (touch (realreg l r) (setlock (realreg l r) l))"
    using wf_inreg [OF wf r i] i by (auto simp: acquired_def frame_def)
qed

section \<open>Reading\<close>

lemma acquired_allocated:
  assumes "wf l" "allocated r n l l'" "acquired r n l' l''" "realreg l' r = n"
  shows "acquired r n l l''"
proof -
  have f: "frame r l l''"
    using frame_trans [OF frame_allocated [OF assms(1,2)]] assms(2,3) by (auto simp: acquired_def allocated_def)
  have "same_rest l l''"
    using assms(2,3) same_rest_trans by (auto simp: acquired_def allocated_def)
  with f assms(2,3) show ?thesis by (simp add: acquired_def allocated_def)
qed

lemma readreg_ok:
  assumes ok: "env_ok E" and wf: "wf l" and r: "r < VREGS" "status l r \<noteq> UNDEF"
    and t: "touch_ok (Suc (Suc t)) l" and av: "avail (Suc k) l"
  shows "\<exists>n l'. readreg E r l = Some (n, l') \<and> wf l' \<and> acquired r n l l' \<and> touch_ok t l' \<and>
    (\<forall>K X. K \<subseteq> lockset l \<longrightarrow> pres K X E l l')"
proof (cases "isinreg l r")
  case True
  then show ?thesis
    using acquire_held [OF wf r(1) True touch_ok_mono [OF t]]
    by (auto simp: readreg_def readreg_general_def)
next
  case False
  obtain m where m: "m < N_REGS" "locked l m = 0" using avail_some [OF av] .
  obtain n l1 where l1: "alloc_reg_hinted E r False None l = Some (n, l1)" "wf l1" "allocated r n l l1"
    "touch_ok (Suc t) l1" "\<And>K X. K \<subseteq> lockset l \<Longrightarrow> pres K X E l l1"
    using alloc_reg_hinted_ok [OF ok wf r(1) False t m, of False None] r(2) by auto
  have n: "realreg l1 r = n" "isinreg l1 r" using l1(3) by (simp_all add: allocated_def)
  note h = acquire_held [OF l1(2) r(1) n(2) l1(4), unfolded n(1)]
  have "acquired r n l (touch n (setlock n l1))" using acquired_allocated [OF wf l1(3) h(2) n(1)] .
  moreover have "pres K X E l (touch n (setlock n l1))" if "K \<subseteq> lockset l" for K X
    using pres_trans [OF l1(5) [OF that] h(4)] .
  ultimately show ?thesis
    using l1(1) False h by (auto simp: readreg_def readreg_general_def)
qed


section \<open>Splitting a shared register\<close>

lemma rep_weaken: "rep X E l s V \<Longrightarrow> X \<subseteq> Y \<Longrightarrow> rep Y E l s V"
  by (auto simp: rep_def)

lemma rep_code_eq: "(\<And>q. q \<notin> X \<Longrightarrow> l_state l' q = l_state l q) \<Longrightarrow> rep X E l s V \<Longrightarrow> rep X E l' s V"
  unfolding rep_def using vrep_cong by blast

lemma unlock2_simps:
  assumes "0 < locked l n"
  shows "unlock2 n l = Some (upd_nat n (\<lambda>x. x\<lparr>ns_locked := ns_locked x - 1\<rparr>) l)"
  using assms by (simp add: unlock2_def)

text \<open>
  The state that \<open>make_exclusive\<close> builds: \<open>l2\<close> is the state after the allocation of the new
  register \<open>nr\<close>, \<open>old\<close> the saved entry.
\<close>

definition split_state :: "nat \<Rightarrow> reg_status \<Rightarrow> nat \<Rightarrow> nat \<Rightarrow> bool \<Rightarrow> live \<Rightarrow> live" where
  "split_state r old rr nr needcopy l2 =
    (let l3 = upd_state r (\<lambda>_. old\<lparr>rs_realreg := Some nr, rs_realind := rs_realind (l_state l2 r)\<rparr>) l2;
         l4 = (if needcopy then emit (compemu_raw_mov_l_rr nr rr) l3 else l3)
     in upd_nat rr (\<lambda>x. x\<lparr>ns_locked := ns_locked x - 1\<rparr>) l4)"

lemma split_state_simps:
  "l_state (split_state r old rr nr c l2) = (l_state l2)(r :=
     old\<lparr>rs_realreg := Some nr, rs_realind := rs_realind (l_state l2 r)\<rparr>)"
  "holds (split_state r old rr nr c l2) m = holds l2 m"
  "locked (split_state r old rr nr c l2) m = (if m = rr then locked l2 m - 1 else locked l2 m)"
  "l_code (split_state r old rr nr c l2) = l_code l2 @ (if c then [MOV_xx nr rr] else [])"
  "same_rest l (split_state r old rr nr c l2) = same_rest l l2"
  "l_touchcnt (split_state r old rr nr c l2) = l_touchcnt l2"
  "ns_touched (l_nat (split_state r old rr nr c l2) m) = ns_touched (l_nat l2 m)"
  by (auto simp: split_state_def Let_def compemu_raw_mov_l_rr_def)

lemma exec_MOV_xx: "nr \<noteq> 31 \<Longrightarrow> rr \<noteq> 31 \<Longrightarrow> exec [MOV_xx nr rr] s = wrx nr (xr s rr) s"
  by (simp add: a64_simps xr_rdx)

lemma make_exclusive_shared:
  assumes ok: "env_ok E" and wf: "wf l" and r: "r < VREGS" and i: "isinreg l r"
    and sh: "length (holds l (realreg l r)) \<noteq> 1"
    and t: "touch_ok (Suc t) l" and av: "m < N_REGS" "locked l m = 0" "m \<noteq> realreg l r"
  obtains l1 nr l2 l1' where
    "make_exclusive E r c l = Some (split_state r (l_state l r) (realreg l r) nr c l2)"
    "wf l2" "touch_ok t l2" "allocated r nr l1 l2" "frame r l l2" "wf l1" "\<not> isinreg l1 r"
    "\<And>q. locked l2 q = (if q = realreg l r then Suc (locked l q) else locked l q)" "nr \<noteq> realreg l r"
    "same_rest l l2" "l_code l2 = l_code l1'" "\<And>q. q \<noteq> r \<Longrightarrow> l_state l2 q = l_state l1' q"
    "\<And>K X. K \<inter> work = {} \<Longrightarrow> r \<in> X \<or> status l r \<noteq> DIRTY \<Longrightarrow> pres K X E l l1'"
    "status l1' r = INMEM"
proof -
  let ?rr = "realreg l r" and ?l0 = "setlock (realreg l r) l"
  have wf0: "wf ?l0" by (rule wf_cong [OF _ _ _ _ _ _ wf]) auto
  obtain l1 where l1: "disassociate E r ?l0 = Some l1" "wf l1" "same_nat ?l0 l1"
      "evicted r (isclean r ?l0) l1"
      "\<And>K X. K \<inter> work = {} \<Longrightarrow> r \<in> X \<or> status l r \<noteq> DIRTY \<Longrightarrow> pres K X E ?l0 l1"
  proof -
    have "locked ?l0 (realreg ?l0 r) = 0 \<or> length (holds ?l0 (realreg ?l0 r)) \<noteq> 1"
      using sh by simp
    from disassociate_ok [OF ok wf0 r this] i
    show thesis by (elim exE conjE) (rule that, simp_all, blast)
  qed
  have s1: "status l1 r = INMEM" using l1(4) by (simp add: evicted_def Let_def)
  then have n1: "\<not> isinreg l1 r" by (simp add: isinreg_def)
  have lk1: "locked l1 q = (if q = ?rr then Suc (locked l q) else locked l q)" for q
    using l1(3) by (simp add: same_nat_def)
  have t1: "touch_ok (Suc t) l1" using t l1(3) by (simp add: touch_ok_def same_nat_def)
  obtain nr l2 l1' where l2: "alloc_reg_hinted E r True None l1 = Some (nr, l2)" "wf l2"
      "allocated r nr l1 l2" "touch_ok t l2" "\<And>K X. K \<inter> work = {} \<Longrightarrow> pres K X E l1 l1'"
      "\<And>q. q \<noteq> r \<Longrightarrow> l_state l2 q = l_state l1' q" "l_state l1' r = l_state l1 r" "l_code l2 = l_code l1'"
  proof -
    have "locked l1 m = 0" using av lk1 by simp
    from alloc_reg_hinted_ok [OF ok l1(2) r n1 t1 av(1) this, of True None]
    show thesis by (elim exE conjE) (rule that, assumption, simp_all)
  qed
  have nr: "locked l1 nr = 0" "\<And>q. locked l2 q = locked l1 q" "same_rest l1 l2" using l2(3) by (simp_all add: allocated_def)
  have ne: "nr \<noteq> ?rr" using nr(1) lk1 by auto
  have me: "make_exclusive E r c l = Some (split_state r (l_state l r) ?rr nr c l2)"
    using i sh l1(1) l2(1) nr(2) lk1
    by (simp add: make_exclusive_def Let_def split_state_def unlock2_simps)
  have sr: "same_rest l l2"
    using l1(3) nr(3) same_rest_trans [of l ?l0 l1] same_rest_trans [of l l1 l2] by (simp add: same_nat_def)
  have fr: "frame r l l2"
  proof (rule frame_trans [of r l l1 l2])
    show "frame r l l1"
    proof (rule frame_realind)
      fix q assume q: "q \<noteq> r"
      then have "l_state (isclean r ?l0) q = l_state l q" by simp
      moreover have "l_state l1 q = l_state (isclean r ?l0) q \<or>
          l_state l1 q = (l_state (isclean r ?l0) q)\<lparr>rs_realind := rs_realind (l_state (isclean r ?l0) r)\<rparr>"
        using l1(4) q by (simp add: evicted_def Let_def)
      ultimately show "l_state l1 q = l_state l q \<or> (\<exists>i. l_state l1 q = (l_state l q)\<lparr>rs_realind := i\<rparr>)" by auto
    qed
    show "frame r l1 l2" using frame_allocated [OF l1(2) l2(3)] .
  qed (simp add: lk1)
  have pr: "pres K X E l l1'" if "K \<inter> work = {}" "r \<in> X \<or> status l r \<noteq> DIRTY" for K X
    using pres_trans [OF pres_trans [OF pres_state l1(5) [OF that]] l2(5) [OF that(1)]] by simp
  show ?thesis
    by (rule that [OF me l2(2,4,3) fr l1(2) n1 _ ne sr l2(8) l2(6) pr]) (simp_all add: nr(2) lk1 l2(7) s1)
qed


text \<open>After the split the register is alone in its native register, with its value.\<close>

definition exclusive :: "nat \<Rightarrow> live \<Rightarrow> bool" where
  "exclusive r l \<longleftrightarrow> (isinreg l r \<longrightarrow> holds l (realreg l r) = [r])"

lemma split_rep:
  assumes wf: "wf l" "wf l2" and r: "r < VREGS" and i: "isinreg l r"
    and al: "nr < N_REGS" "holds l2 nr = [r]" "nr \<noteq> realreg l r"
    and st: "\<And>q. q \<noteq> r \<Longrightarrow> l_state l2 q = l_state l1' q" "status l1' r = INMEM"
    and c: "c \<or> r \<in> X"
    and rep: "rep X E l s V" and rep1: "rep (insert r X) E l1' s1 V"
    and slot: "status l r = CLEAN \<Longrightarrow> r \<notin> X \<Longrightarrow> rep X E l1' s1 V" and k: "xr s1 (realreg l r) = xr s (realreg l r)"
  shows "rep X E (split_state r (l_state l r) (realreg l r) nr c l2)
    (exec (if c then [MOV_xx nr (realreg l r)] else []) s1) V"
proof -
  let ?l' = "split_state r (l_state l r) (realreg l r) nr c l2"
  let ?s' = "exec (if c then [MOV_xx nr (realreg l r)] else []) s1"
  note w = wf_inreg [OF wf(1) r i]
  have ex: "?s' = (if c then wrx nr (xr s (realreg l r)) s1 else s1)"
    using al(1) w(2) k by (simp add: exec_MOV_xx N_REGS_def)
  have "vrep E ?l' ?s' V q" if q: "q < VREGS" "q \<notin> X" for q
  proof (cases "q = r")
    case True
    have v: "vrep E l s V r" using rep q True by (simp add: rep_def)
    have "agree r (load_slot E r (amem s1)) (V r)" if "status l r = CLEAN"
      using slot [OF that] q True r st(2) by (auto simp: rep_def vrep_def)
    then show ?thesis
      unfolding ex using v i True c q al(1)
      by (auto simp: vrep_def split_state_simps isinreg_def xr_wrx N_REGS_def)
  next
    case False
    have "vrep E l1' s1 V q" using rep1 q False by (simp add: rep_def)
    then have v: "vrep E l2 s1 V q" using vrep_cong st(1) [OF False] by blast
    have "realreg l2 q \<noteq> nr" if "isinreg l2 q"
      using wf_holds_iff [OF wf(2) al(1) q(1)] al(2) that False by auto
    with v show ?thesis unfolding ex using False al(1)
      by (auto simp: vrep_def split_state_simps isinreg_def xr_wrx N_REGS_def split: vstatus.splits)
  qed
  moreover have "xr ?s' 28 = e_regs E" unfolding ex using rep_28 [OF rep1] al(1) by (simp add: xr_wrx N_REGS_def)
  ultimately show ?thesis by (simp add: rep_def R_REGSTRUCT_def)
qed

lemma wf_split:
  assumes wf: "wf l" "wf l2" and r: "r < VREGS" and i: "isinreg l r" "isinreg l2 r"
    and al: "rs_realreg (l_state l2 r) = Some nr" and lk: "\<And>q. q \<in> work \<Longrightarrow> 0 < locked l2 q"
    and w: "realreg l r \<notin> work"
  shows "wf (split_state r (l_state l r) (realreg l r) nr c l2)"
proof (rule wf_cong [OF _ _ _ _ _ _ wf(2)])
  show "isinreg (split_state r (l_state l r) (realreg l r) nr c l2) q = isinreg l2 q" for q
    using i by (auto simp: isinreg_def split_state_simps)
  show "rs_needflush (l_state (split_state r (l_state l r) (realreg l r) nr c l2) q) \<noteq> NF_HANDLER"
    if "q < VREGS" "rs_needflush (l_state l2 q) \<noteq> NF_HANDLER" for q
    using that wf(1) by (simp add: split_state_simps wf_def)
qed (use al lk w in \<open>auto simp: split_state_simps\<close>)

lemma make_exclusive_ok:
  assumes ok: "env_ok E" and wf: "wf l" and r: "r < VREGS"
    and t: "touch_ok (Suc t) l" and av: "avail (Suc (Suc k)) l"
  shows "\<exists>l'. make_exclusive E r c l = Some l' \<and> wf l' \<and> touch_ok t l' \<and> same_rest l l' \<and> frame r l l' \<and>
    (\<forall>m. locked l' m = locked l m) \<and> isinreg l' r = isinreg l r \<and> exclusive r l' \<and> status l' r = status l r \<and>
    val_of l' r = val_of l r \<and>
    (\<forall>K X. K \<subseteq> lockset l \<longrightarrow> c \<or> r \<in> X \<longrightarrow> pres K X E l l')"
proof (cases "isinreg l r \<and> length (holds l (realreg l r)) \<noteq> 1")
  case False
  have "exclusive r l"
    using False wf_inreg(4,5) [OF wf r] by (auto simp: exclusive_def length_Suc_conv)
  then show ?thesis using False wf touch_ok_mono [OF t] by (auto simp: make_exclusive_def Let_def)
next
  case True
  then have i: "isinreg l r" and sh: "length (holds l (realreg l r)) \<noteq> 1" by auto
  obtain m where m: "m < N_REGS" "locked l m = 0" "m \<noteq> realreg l r" using avail_other [OF av] .
  obtain l1 nr l2 l1' where me: "make_exclusive E r c l = Some (split_state r (l_state l r) (realreg l r) nr c l2)"
    "wf l2" "touch_ok t l2" "allocated r nr l1 l2" "frame r l l2" "wf l1" "\<not> isinreg l1 r"
    "\<And>q. locked l2 q = (if q = realreg l r then Suc (locked l q) else locked l q)" "nr \<noteq> realreg l r"
    "same_rest l l2" "l_code l2 = l_code l1'" "\<And>q. q \<noteq> r \<Longrightarrow> l_state l2 q = l_state l1' q"
    "\<And>K X. K \<inter> work = {} \<Longrightarrow> r \<in> X \<or> status l r \<noteq> DIRTY \<Longrightarrow> pres K X E l l1'"
    "status l1' r = INMEM"
    by (rule make_exclusive_shared [OF ok wf r i sh t m]) (rule that; assumption)
  let ?l' = "split_state r (l_state l r) (realreg l r) nr c l2"
  have al: "nr < N_REGS" "nr \<notin> work" "holds l2 nr = [r]" "isinreg l2 r" "rs_realreg (l_state l2 r) = Some nr"
    "locked l1 nr = 0" using me(4) by (simp_all add: allocated_def)
  note w = wf_inreg [OF wf r i]
  have st: "l_state ?l' r = (l_state l r)\<lparr>rs_realreg := Some nr, rs_realind := rs_realind (l_state l2 r)\<rparr>"
    by (simp add: split_state_simps)
  have wf': "wf ?l'"
    using al(4,5) w(3) wf_work [OF me(2)] by (intro wf_split [OF wf me(2) r i]) auto
  have lk: "locked ?l' m = locked l m" for m using me(8) by (simp add: split_state_simps)
  have fr: "frame r l ?l'" using me(5) by (auto simp: frame_def split_state_simps)
  have t': "touch_ok t ?l'" using me(3) by (simp add: touch_ok_def split_state_simps)
  have i': "isinreg ?l' r = isinreg l r" by (simp add: isinreg_def st)
  have ex: "exclusive r ?l'" using al(3) by (simp add: exclusive_def st split_state_simps)
  have pr: "pres K X E l ?l'" if K: "K \<subseteq> lockset l" and c: "c \<or> r \<in> X" for K X
  proof -
    let ?K = "insert (realreg l r) K"
    have Kw: "?K \<inter> work = {}" using K w(3) by (auto simp: lockset_def)
    obtain c1 where c1: "l_code l1' = l_code l @ c1" "closed c1"
      "\<And>s V. rep (insert r X) E l s V \<Longrightarrow> rep (insert r X) E l1' (exec c1 s) V \<and> quiet E s (exec c1 s) \<and>
         (\<forall>k\<in>?K. xr (exec c1 s) k = xr s k)"
      using me(13) [OF Kw, of "insert r X"] by (auto simp: pres_def)
    have slot: "rep X E l1' (exec c1 s) V" if "status l r = CLEAN" "rep X E l s V" for s V
      using me(13) [OF Kw, of X] that c1(1) by (auto simp: pres_def)
    let ?c = "if c then [MOV_xx nr (realreg l r)] else []"
    have "locked l nr = 0" using me(8) [of nr] me(9) al(6) me(4) by (simp add: allocated_def)
    then have nK: "nr \<notin> K" using K by (auto simp: lockset_def)
    have "rep X E ?l' (exec (c1 @ ?c) s) V \<and> quiet E s (exec (c1 @ ?c) s) \<and>
        (\<forall>k\<in>K. xr (exec (c1 @ ?c) s) k = xr s k)" if rep: "rep X E l s V" for s V
    proof -
      note q = c1(3) [OF rep_weaken [OF rep subset_insertI]]
      have "rep X E ?l' (exec ?c (exec c1 s)) V"
        using q by (intro split_rep [OF wf me(2) r i al(1,3) me(9,12,14) c rep]) (auto intro: slot [OF _ rep])
      moreover have ex: "exec ?c (exec c1 s) = (if c then wrx nr (xr s (realreg l r)) (exec c1 s) else exec c1 s)"
        using al(1) w(2) q by (simp add: exec_MOV_xx N_REGS_def)
      moreover have "quiet E s (exec ?c (exec c1 s))"
        unfolding ex using q al(1) by (auto simp: quiet_def xr_wrx N_REGS_def)
      moreover have "xr (exec ?c (exec c1 s)) k = xr s k" if "k \<in> K" for k
        unfolding ex using q that nK al(1) by (auto simp: xr_wrx N_REGS_def)
      ultimately show ?thesis by (simp only: exec_append [OF c1(2)]) blast
    qed
    moreover have "closed (c1 @ ?c)" using c1(2) by (intro closed_append) (auto intro!: closed_straight simp: a64_simps)
    ultimately show ?thesis
      unfolding pres_def by (intro exI [of _ "c1 @ ?c"]) (simp add: split_state_simps me(11) c1(1))
  qed
  show ?thesis
    using me(1) wf' t' fr lk i' ex pr me(10) by (intro exI [of _ ?l']) (simp add: split_state_simps)
qed


section \<open>Writing and modifying\<close>

lemma set_DIRTY_wf: "wf l \<Longrightarrow> isinreg l r \<Longrightarrow> wf (set_status r DIRTY (upd_state r (\<lambda>x. x\<lparr>rs_val := v\<rparr>) l))"
  by (rule wf_cong [of "set_status r DIRTY (upd_state r (\<lambda>x. x\<lparr>rs_val := v\<rparr>) l)" l]) (auto simp: isinreg_def)

lemma set_DIRTY_wf': "wf l \<Longrightarrow> isinreg l r \<Longrightarrow> wf (set_status r DIRTY l)"
  by (rule wf_cong [of "set_status r DIRTY l" l]) (auto simp: isinreg_def)

lemma pres_DIRTY:
  assumes "isinreg l r" "l_code l' = l_code l" "\<And>q. q \<noteq> r \<Longrightarrow> l_state l' q = l_state l q"
    "status l' r = DIRTY" "rs_realreg (l_state l' r) = rs_realreg (l_state l r)"
  shows "pres K X E l l'"
proof (rule pres_same_code [OF assms(2)])
  fix s V q
  assume v: "vrep E l s V q"
  show "vrep E l' s V q"
  proof (cases "q = r")
    case True
    with v assms show ?thesis by (auto simp: vrep_def isinreg_def)
  next
    case False
    with v assms(3) vrep_cong show ?thesis by blast
  qed
qed

text \<open>
  What \<open>writereg\<close> and \<open>rmw\<close> deliver: the register is in the native register \<open>n\<close> alone, dirty
  and locked.
\<close>

definition owned :: "nat \<Rightarrow> nat \<Rightarrow> live \<Rightarrow> bool" where
  "owned r n l \<longleftrightarrow> status l r = DIRTY \<and> rs_realreg (l_state l r) = Some n \<and> holds l n = [r] \<and>
     n < N_REGS \<and> n \<notin> work"

lemma acquire_excl:
  assumes ok: "env_ok E" and wf: "wf l" and r: "r < VREGS" and ex: "exclusive r l"
    and t: "touch_ok (Suc (Suc t)) l" and av: "avail (Suc k) l" and u: "w \<or> status l r \<noteq> UNDEF"
  shows "\<exists>n l'. (if isinreg l r then Some (realreg l r, l) else alloc_reg_hinted E r w None l) = Some (n, l') \<and>
    wf l' \<and> isinreg l' r \<and> rs_realreg (l_state l' r) = Some n \<and> holds l' n = [r] \<and> n < N_REGS \<and> n \<notin> work \<and>
    (\<forall>m. locked l' m = locked l m) \<and> same_rest l l' \<and> frame r l l' \<and> touch_ok (Suc t) l' \<and>
    (\<forall>K X. K \<subseteq> lockset l \<longrightarrow> \<not> w \<or> r \<in> X \<longrightarrow> pres K X E l l')"
proof (cases "isinreg l r")
  case True
  then show ?thesis
    using wf_inreg [OF wf r True] ex wf touch_ok_mono [OF t] by (auto simp: exclusive_def)
next
  case False
  obtain m where m: "m < N_REGS" "locked l m = 0" using avail_some [OF av] .
  from alloc_reg_hinted_ok [OF ok wf r False t m, of w None]
  obtain n l' where a: "alloc_reg_hinted E r w None l = Some (n, l')" "wf l'" "allocated r n l l'"
    "touch_ok (Suc t) l'" "\<forall>K X. K \<subseteq> lockset l \<longrightarrow> r \<in> X \<or> \<not> w \<and> status l r \<noteq> UNDEF \<longrightarrow> pres K X E l l'"
    by (elim exE conjE) (rule that, assumption+)
  have "\<forall>K X. K \<subseteq> lockset l \<longrightarrow> \<not> w \<or> r \<in> X \<longrightarrow> pres K X E l l'"
    using a(5) u by (metis (no_types))
  with a(1-4) show ?thesis using False frame_allocated [OF wf a(3)] by (simp add: allocated_def)
qed

lemma touch_lock_ok: "touch_ok (Suc t) l \<Longrightarrow> touch_ok t (touch n (setlock n l))"
  by (rule touch_ok_touch) auto

lemma rmw_ok:
  assumes ok: "env_ok E" and wf: "wf l" and r: "r < VREGS" "status l r \<noteq> UNDEF"
    and t: "touch_ok (Suc (Suc (Suc t))) l" and av: "avail (Suc (Suc k)) l"
  shows "\<exists>n l'. rmw E r l = Some (n, l') \<and> wf l' \<and> acquired r n l l' \<and> owned r n l' \<and> touch_ok t l' \<and>
    (\<forall>K X. K \<subseteq> lockset l \<longrightarrow> pres K X E l l')"
proof -
  from make_exclusive_ok [OF ok wf r(1) t av, of True]
  obtain l1 where l1: "make_exclusive E r True l = Some l1" "wf l1" "touch_ok (Suc (Suc t)) l1" "same_rest l l1"
    "frame r l l1" "\<And>m. locked l1 m = locked l m" "exclusive r l1" "status l1 r = status l r"
    "\<And>K X. K \<subseteq> lockset l \<Longrightarrow> pres K X E l l1"
    by (elim exE conjE) (rule that, assumption+, blast+)
  have ls: "lockset l1 = lockset l" using l1(6) by (simp add: lockset_def)
  have av1: "avail (Suc k) l1" using avail_Suc [OF av] l1(6) by (simp add: avail_def)
  have u: "False \<or> status l1 r \<noteq> UNDEF" using l1(8) r(2) by simp
  from acquire_excl [OF ok l1(2) r(1) l1(7,3) av1 u]
  obtain n l2 where l2: "(if isinreg l1 r then Some (realreg l1 r, l1) else alloc_reg_hinted E r False None l1) = Some (n, l2)"
    "wf l2" "isinreg l2 r" "rs_realreg (l_state l2 r) = Some n" "holds l2 n = [r]" "n < N_REGS" "n \<notin> work"
    "\<And>m. locked l2 m = locked l1 m" "same_rest l1 l2" "frame r l1 l2" "touch_ok (Suc t) l2"
    "\<forall>K X. K \<subseteq> lockset l1 \<longrightarrow> \<not> False \<or> r \<in> X \<longrightarrow> pres K X E l1 l2"
    by (elim exE conjE) (rule that, assumption+, erule spec, assumption+)
  let ?l3 = "set_status r DIRTY l2"
  let ?l' = "touch n (setlock n ?l3)"
  have "rmw E r l = Some (n, ?l')" using l1(1) l2(1) by (simp add: rmw_def Let_def)
  moreover have "wf ?l'" by (rule wf_touch_lock [OF set_DIRTY_wf' [OF l2(2,3)]])
  moreover have "touch_ok t ?l'" using l2(11) by (intro touch_lock_ok) (simp add: touch_ok_def)
  moreover have "owned r n ?l'" using l2(4-7) by (simp add: owned_def)
  moreover have "acquired r n l ?l'"
  proof -
    have "frame r l l2" using frame_trans [OF l1(5) l2(10)] l1(6) by simp
    then have "frame r l ?l'" by (auto simp: frame_def)
    then show ?thesis
      using l2(4,6,7) l1(4,6) l2(8,9) same_rest_trans by (auto simp: acquired_def isinreg_def)
  qed
  moreover have "pres K X E l ?l'" if "K \<subseteq> lockset l" for K X
  proof -
    have "pres K X E l2 ?l'" using l2(3,4) by (intro pres_DIRTY) auto
    then show ?thesis using pres_trans [OF pres_trans [OF l1(9) l2(12) [rule_format]]] that ls by simp
  qed
  ultimately show ?thesis by blast
qed

lemma writereg_ok:
  assumes ok: "env_ok E" and wf: "wf l" and r: "r < VREGS"
    and t: "touch_ok (Suc (Suc (Suc t))) l" and av: "avail (Suc (Suc k)) l"
  shows "\<exists>n l'. writereg E r l = Some (n, l') \<and> wf l' \<and> acquired r n l l' \<and> owned r n l' \<and> touch_ok t l' \<and>
    (\<forall>K X. K \<subseteq> lockset l \<longrightarrow> r \<in> X \<longrightarrow> pres K X E l l')"
proof -
  from make_exclusive_ok [OF ok wf r t av, of False]
  obtain l1 where l1: "make_exclusive E r False l = Some l1" "wf l1" "touch_ok (Suc (Suc t)) l1" "same_rest l l1"
    "frame r l l1" "\<And>m. locked l1 m = locked l m" "exclusive r l1" "status l1 r = status l r"
    "\<And>K X. K \<subseteq> lockset l \<Longrightarrow> r \<in> X \<Longrightarrow> pres K X E l l1"
    by (elim exE conjE) (rule that, assumption+, blast+)
  have ls: "lockset l1 = lockset l" using l1(6) by (simp add: lockset_def)
  have av1: "avail (Suc k) l1" using avail_Suc [OF av] l1(6) by (simp add: avail_def)
  have u: "True \<or> status l1 r \<noteq> UNDEF" by simp
  from acquire_excl [OF ok l1(2) r l1(7,3) av1 u]
  obtain n l2 where l2: "(if isinreg l1 r then Some (realreg l1 r, l1) else alloc_reg_hinted E r True None l1) = Some (n, l2)"
    "wf l2" "isinreg l2 r" "rs_realreg (l_state l2 r) = Some n" "holds l2 n = [r]" "n < N_REGS" "n \<notin> work"
    "\<And>m. locked l2 m = locked l1 m" "same_rest l1 l2" "frame r l1 l2" "touch_ok (Suc t) l2"
    "\<forall>K X. K \<subseteq> lockset l1 \<longrightarrow> \<not> True \<or> r \<in> X \<longrightarrow> pres K X E l1 l2"
    by (elim exE conjE) (rule that, assumption+, erule spec, assumption+)
  let ?l3 = "touch n (setlock n l2)"
  let ?l' = "set_status r DIRTY (upd_state r (\<lambda>x. x\<lparr>rs_val := 0\<rparr>) ?l3)"
  have "writereg E r l = Some (n, ?l')" using l1(1) l2(1) by (simp add: writereg_def Let_def)
  moreover have "wf ?l'" using l2(3) by (intro set_DIRTY_wf wf_touch_lock [OF l2(2)]) simp
  moreover have "touch_ok t ?l'" using touch_lock_ok [OF l2(11), of n] by (simp add: touch_ok_def)
  moreover have "owned r n ?l'" using l2(4-7) by (simp add: owned_def)
  moreover have "acquired r n l ?l'"
  proof -
    have "frame r l l2" using frame_trans [OF l1(5) l2(10)] l1(6) by simp
    then have "frame r l ?l'" by (auto simp: frame_def)
    then show ?thesis
      using l2(4,6,7) l1(4,6) l2(8,9) same_rest_trans by (auto simp: acquired_def isinreg_def)
  qed
  moreover have "pres K X E l ?l'" if "K \<subseteq> lockset l" "r \<in> X" for K X
  proof -
    have "pres K X E l2 ?l'" using l2(3,4) by (intro pres_DIRTY) auto
    then show ?thesis using pres_trans [OF pres_trans [OF l1(9) l2(12) [rule_format]]] that ls by simp
  qed
  ultimately show ?thesis by blast
qed

end
