(* ===== verification/Interp_Flags.thy ===== *)
theory Interp_Flags
  imports Arm64
begin

unbundle bit_operations_syntax

text \<open>
  The condition codes of the interpreter: \<^verbatim>\<open>genflags_normal\<close> of gencpu.c writes, for each
  kind of instruction and operand size, the C statements that compute N, Z, V and C of an opcode
  handler. The definitions below are those statements at an arbitrary operand width; they are the
  reference the translated code is compared with. The last section relates them to the flags of the
  host's AddWithCarry.
\<close>

section \<open>The generated statements\<close>

text \<open>Condition codes in the order N, Z, V, C.\<close>

type_synonym ccr4 = "bool \<times> bool \<times> bool \<times> bool"

definition flag_logical :: "'a::len word \<Rightarrow> ccr4" where
  "flag_logical v = (sint v < 0, v = 0, False, False)"

definition flag_add :: "'a::len word \<Rightarrow> 'a word \<Rightarrow> 'a word \<times> ccr4" where
  "flag_add src dst =
    (let newv = dst + src; flgs = sint src < 0; flgo = sint dst < 0; flgn = sint newv < 0 in
     (newv, flgn, newv = 0, (flgs \<noteq> flgn) \<and> (flgo \<noteq> flgn), NOT dst < src))"

definition flag_sub :: "'a::len word \<Rightarrow> 'a word \<Rightarrow> 'a word \<times> ccr4" where
  "flag_sub src dst =
    (let newv = dst - src; flgs = sint src < 0; flgo = sint dst < 0; flgn = sint newv < 0 in
     (newv, flgn, newv = 0, (flgs \<noteq> flgo) \<and> (flgn \<noteq> flgo), src > dst))"

definition flag_cmp :: "'a::len word \<Rightarrow> 'a word \<Rightarrow> ccr4" where
  "flag_cmp src dst =
    (let newv = dst - src; flgs = sint src < 0; flgo = sint dst < 0; flgn = sint newv < 0 in
     (flgn, newv = 0, flgs \<noteq> flgo \<and> flgn \<noteq> flgo, src > dst))"

text \<open>
  \<^verbatim>\<open>flag_addx\<close> and \<^verbatim>\<open>flag_subx\<close>, followed by \<^verbatim>\<open>flag_zn\<close>: the handlers of
  ADDX, SUBX and NEGX compute the result with the X flag and clear Z only for a nonzero result.
\<close>

definition flag_addx :: "bool \<Rightarrow> bool \<Rightarrow> 'a::len word \<Rightarrow> 'a word \<Rightarrow> 'a word \<times> ccr4" where
  "flag_addx x z src dst =
    (let newv = dst + src + of_bool x; flgs = sint src < 0; flgo = sint dst < 0; flgn = sint newv < 0 in
     (newv, flgn, z \<and> newv = 0, (flgs \<noteq> flgn) \<and> (flgo \<noteq> flgn),
      flgs \<noteq> ((flgs \<noteq> flgo) \<and> (flgo \<noteq> flgn))))"

definition flag_subx :: "bool \<Rightarrow> bool \<Rightarrow> 'a::len word \<Rightarrow> 'a word \<Rightarrow> 'a word \<times> ccr4" where
  "flag_subx x z src dst =
    (let newv = dst - src - of_bool x; flgs = sint src < 0; flgo = sint dst < 0; flgn = sint newv < 0 in
     (newv, flgn, z \<and> newv = 0, (flgs \<noteq> flgo) \<and> (flgo \<noteq> flgn),
      flgs \<noteq> ((flgs \<noteq> flgn) \<and> (flgo \<noteq> flgn))))"

section \<open>Agreement with AddWithCarry\<close>

lemma sint_bounds: "- (2 ^ (LENGTH('a) - 1)) \<le> sint (a :: 'a::len word)" "sint a < 2 ^ (LENGTH('a) - 1)"
  using sint_ge [of a] sint_lt [of a] by simp_all

lemma half_le: "(2::int) ^ (LENGTH('a::len) - 1) \<le> 2 ^ LENGTH('a)"
  by (rule power_increasing) auto

lemma uint_of_sint: "uint (a :: 'a::len word) = (if sint a < 0 then sint a + 2 ^ LENGTH('a) else sint a)"
proof -
  have u: "uint a = sint a mod 2 ^ LENGTH('a)"
    by (metis take_bit_eq_mod uint_sint)
  show ?thesis
  proof (cases "sint a < 0")
    case True
    have "(sint a + 2 ^ LENGTH('a)) mod 2 ^ LENGTH('a) = sint a + 2 ^ LENGTH('a)"
      using True sint_bounds(1) [of a] half_le [where 'a = 'a] by (intro mod_pos_pos_trivial) linarith+
    with u True show ?thesis by simp
  next
    case False
    have "sint a mod 2 ^ LENGTH('a) = sint a"
      using False sint_bounds(2) [of a] half_le [where 'a = 'a] by (intro mod_pos_pos_trivial) linarith+
    with u False show ?thesis by simp
  qed
qed

lemma sint_wrap:
  assumes "- (2 ^ LENGTH('a)) \<le> i" "i < 2 ^ LENGTH('a)"
  shows "sint (word_of_int i :: 'a::len word) =
    (if i < - (2 ^ (LENGTH('a) - 1)) then i + 2 ^ LENGTH('a)
     else if 2 ^ (LENGTH('a) - 1) \<le> i then i - 2 ^ LENGTH('a) else i)"
proof -
  let ?n = "LENGTH('a)"
  obtain m where m: "?n = Suc m" by (metis len_not_eq_0 not0_implies_Suc)
  have s: "sint (word_of_int i :: 'a word) = signed_take_bit m i"
    by (simp add: signed_of_int m)
  have e: "signed_take_bit m i = signed_take_bit m (i + k * 2 ^ Suc m)" for k
    by (simp add: signed_take_bit_eq_iff_take_bit_eq take_bit_eq_mod)
  show ?thesis
    using assms e [of 1] e [of "- 1"] unfolding s m
    by (auto simp: signed_take_bit_int_eq_self)
qed

lemma double_half: "(2::int) ^ LENGTH('a::len) = 2 * 2 ^ (LENGTH('a) - 1)"
  by (metis One_nat_def Suc_pred len_gt_0 power_Suc)

lemma sint_neg_uint: "sint (a :: 'a::len word) < 0 \<longleftrightarrow> 2 ^ (LENGTH('a) - 1) \<le> uint a"
  using uint_of_sint [of a] sint_bounds [of a] double_half [where 'a = 'a] by auto

text \<open>The sum with carry and its flags, for both of the interpreter's formulas.\<close>

lemma carry_cases:
  fixes a b :: "'a::len word" and c :: bool
  defines "r \<equiv> word_of_int (uint a + uint b + of_bool c) :: 'a word"
  shows "2 ^ LENGTH('a) \<le> uint a + uint b + of_bool c \<longleftrightarrow>
      (sint b < 0) \<noteq> (((sint b < 0) \<noteq> (sint a < 0)) \<and> ((sint a < 0) \<noteq> (sint r < 0)))"
    "sint r \<noteq> sint a + sint b + of_bool c \<longleftrightarrow>
      ((sint b < 0) \<noteq> (sint r < 0)) \<and> ((sint a < 0) \<noteq> (sint r < 0))"
proof -
  let ?i = "sint a + sint b + of_bool c" and ?h = "2 ^ (LENGTH('a) - 1) :: int"
  have r: "r = word_of_int ?i"
    by (simp add: r_def word_of_int_eq_iff take_bit_eq_mod uint_of_sint mod_simps)
  have b: "- ?h \<le> sint a" "sint a < ?h" "- ?h \<le> sint b" "sint b < ?h" using sint_bounds by blast+
  have c: "(0::int) \<le> of_bool c" "of_bool c \<le> (1::int)" by simp_all
  have s: "sint r = (if ?i < - ?h then ?i + 2 * ?h else if ?h \<le> ?i then ?i - 2 * ?h else ?i)"
    unfolding r double_half [where 'a = 'a, symmetric]
    by (rule sint_wrap) (use b c double_half [where 'a = 'a] in linarith)+
  show "2 ^ LENGTH('a) \<le> uint a + uint b + of_bool c \<longleftrightarrow>
      (sint b < 0) \<noteq> (((sint b < 0) \<noteq> (sint a < 0)) \<and> ((sint a < 0) \<noteq> (sint r < 0)))"
    unfolding uint_of_sint double_half [where 'a = 'a] s using b c by (auto split: if_splits)
  show "sint r \<noteq> ?i \<longleftrightarrow> ((sint b < 0) \<noteq> (sint r < 0)) \<and> ((sint a < 0) \<noteq> (sint r < 0))"
    unfolding s using b c by (auto split: if_splits)
qed


lemma uint_NOT: "uint (NOT a) = 2 ^ LENGTH('a) - 1 - uint a" for a :: "'a::len word"
proof -
  have "NOT a = word_of_int (2 ^ LENGTH('a) - 1 - uint a)"
    by (simp add: not_eq_complement)
  moreover have "0 \<le> 2 ^ LENGTH('a) - 1 - uint a" "2 ^ LENGTH('a) - 1 - uint a < 2 ^ LENGTH('a)"
    using uint_bounded [of a] uint_ge_0 [of a] by linarith+
  ultimately show ?thesis by (simp only: uint_word_of_int mod_pos_pos_trivial)
qed

lemma carry_of_add: "2 ^ LENGTH('a) \<le> uint a + uint b \<longleftrightarrow> NOT a < b" for a b :: "'a::len word"
proof -
  have "uint (NOT a) = 2 ^ LENGTH('a) - 1 - uint a"
    by (rule uint_NOT)
  then show ?thesis unfolding word_less_def by linarith
qed

lemma borrow_of_sub: "2 ^ LENGTH('a) \<le> uint a + uint (NOT b) + 1 \<longleftrightarrow> \<not> a < b" for a b :: "'a::len word"
proof -
  have "uint (NOT b) = 2 ^ LENGTH('a) - 1 - uint b"
    by (rule uint_NOT)
  then show ?thesis unfolding word_less_def by linarith
qed

lemma sint_NOT: "sint (NOT a) < 0 \<longleftrightarrow> \<not> sint a < 0" for a :: "'a::len word"
  using uint_NOT [of a] double_half [where 'a = 'a] by (auto simp: sint_neg_uint)

lemma word_of_int_sum:
  "word_of_int (uint a + uint b + of_bool c) = a + b + of_bool c" for a b :: "'a::len word"
  by simp

lemma add_flags_add:
  "add_flags dst src False = (case flag_add src dst of (r, n, z, v, c) \<Rightarrow> (r, n, z, c, v))"
  using carry_cases [of dst src False] carry_of_add [of dst src]
  by (simp add: add_flags_def flag_add_def Let_def)

lemma add_flags_sub:
  "add_flags dst (NOT src) True = (case flag_sub src dst of (r, n, z, v, c) \<Rightarrow> (r, n, z, \<not> c, v))"
proof -
  have r: "word_of_int (uint dst + uint (NOT src) + of_bool True) = dst - src"
    by (simp add: not_eq_complement)
  show ?thesis
    unfolding add_flags_def Let_def flag_sub_def
    using carry_cases(2) [of dst "NOT src" True] borrow_of_sub [of dst src]
    unfolding r sint_NOT by auto
qed


section \<open>Narrow operations in the upper part of a register\<close>

text \<open>
  The translated byte and word operations work on operands shifted to the top of a 32-bit register:
  the flags are those of the narrow operation.
\<close>

lemma uint_power_lower_mod: "uint ((2 :: 'a::len word) ^ k) = 2 ^ k mod 2 ^ LENGTH('a)"
  by (metis of_int_numeral of_int_power take_bit_eq_mod uint_word_of_int_eq)

lemma ucast_down:
  assumes "LENGTH('b) \<le> LENGTH('a)"
  shows "ucast (a + b :: 'a::len word) = (ucast a + ucast b :: 'b::len word)"
    "ucast (a - b :: 'a word) = (ucast a - ucast b :: 'b word)"
proof -
  have w: "(word_of_int (take_bit LENGTH('a) i) :: 'b word) = word_of_int i" for i
    using assms by (simp add: word_of_int_eq_iff min_def)
  have u: "(ucast x :: 'b word) = word_of_int (uint x)" for x :: "'a word" by (simp add: unsigned_of_int)
  show "ucast (a + b :: 'a word) = (ucast a + ucast b :: 'b word)"
    unfolding u uint_word_ariths(1) take_bit_eq_mod [symmetric] w by simp
  show "ucast (a - b :: 'a word) = (ucast a - ucast b :: 'b word)"
    unfolding u uint_word_ariths(2) take_bit_eq_mod [symmetric] w by simp
qed

lemma uint_push_bit:
  assumes "LENGTH('a) = k + LENGTH('b)"
  shows "uint (push_bit k a :: 'a::len word) = 2 ^ k * uint (ucast a :: 'b::len word)"
proof -
  have "uint (push_bit k a :: 'a word) = (2 ^ k * uint a) mod 2 ^ LENGTH('a)"
    by (simp add: push_bit_eq_mult [of k a] uint_word_ariths mod_simps mult.commute uint_power_lower_mod)
  also have "\<dots> = 2 ^ k * (uint a mod 2 ^ LENGTH('b))"
    unfolding assms power_add by (rule mod_mult_mult1)
  finally show ?thesis by (simp add: unsigned_ucast_eq take_bit_eq_mod)
qed

lemma sint_push_bit:
  assumes "LENGTH('a) = k + LENGTH('b)"
  shows "sint (push_bit k a :: 'a::len word) = 2 ^ k * sint (ucast a :: 'b::len word)"
proof -
  have h: "(2::int) ^ LENGTH('a) = 2 ^ k * 2 ^ LENGTH('b)" "(2::int) ^ (LENGTH('a) - 1) = 2 ^ k * 2 ^ (LENGTH('b) - 1)"
    using assms by (simp_all add: Suc_leI flip: power_add)
  have n: "sint (push_bit k a :: 'a word) < 0 \<longleftrightarrow> sint (ucast a :: 'b word) < 0"
    unfolding sint_neg_uint uint_push_bit [OF assms] h by simp
  show ?thesis
    using uint_of_sint [of "push_bit k a"] uint_of_sint [of "ucast a :: 'b word"] n
    unfolding uint_push_bit [OF assms] h by (auto simp: algebra_simps split: if_splits)
qed


lemma push_bit_zero:
  assumes "LENGTH('a) = k + LENGTH('b)"
  shows "push_bit k a = (0 :: 'a::len word) \<longleftrightarrow> (ucast a :: 'b::len word) = 0"
  unfolding word_uint_eq_iff uint_push_bit [OF assms] by simp

lemma shifted_logical:
  assumes "LENGTH('a) = k + LENGTH('b)"
  shows "flag_logical (push_bit k a :: 'a::len word) = flag_logical (ucast a :: 'b::len word)"
  unfolding flag_logical_def sint_push_bit [OF assms] push_bit_zero [OF assms]
  by (simp add: mult_less_0_iff)

lemma shifted_add:
  assumes "LENGTH('a) = k + LENGTH('b)"
  shows "flag_add (push_bit k s) (push_bit k d :: 'a::len word) =
    (push_bit k (d + s), snd (flag_add (ucast s :: 'b::len word) (ucast d)))"
proof -
  have u: "ucast (d + s) = (ucast d + ucast s :: 'b word)"
    using assms by (intro ucast_down) simp
  show ?thesis
    unfolding flag_add_def Let_def carry_of_add [symmetric] push_bit_add [symmetric]
      sint_push_bit [OF assms] push_bit_zero [OF assms] uint_push_bit [OF assms] u
    using assms by (simp add: mult_less_0_iff power_add flip: distrib_left)
qed

lemma shifted_sub:
  assumes "LENGTH('a) = k + LENGTH('b)"
  shows "flag_sub (push_bit k s) (push_bit k d :: 'a::len word) =
    (push_bit k (d - s), snd (flag_sub (ucast s :: 'b::len word) (ucast d)))"
    "flag_cmp (push_bit k s) (push_bit k d :: 'a word) = flag_cmp (ucast s :: 'b word) (ucast d)"
proof -
  have u: "ucast (d - s) = (ucast d - ucast s :: 'b word)"
    using assms by (intro ucast_down) simp
  have p: "push_bit k d - push_bit k s = push_bit k (d - s)"
    by (simp add: push_bit_eq_mult algebra_simps)
  show "flag_sub (push_bit k s) (push_bit k d :: 'a word) =
      (push_bit k (d - s), snd (flag_sub (ucast s :: 'b word) (ucast d)))"
    "flag_cmp (push_bit k s) (push_bit k d :: 'a word) = flag_cmp (ucast s :: 'b word) (ucast d)"
    unfolding flag_sub_def flag_cmp_def Let_def p word_less_def
      sint_push_bit [OF assms] push_bit_zero [OF assms] uint_push_bit [OF assms] u
    by (simp_all add: mult_less_0_iff)
qed

lemma scast_up:
  fixes a :: "'a::len word"
  assumes "LENGTH('a) \<le> LENGTH('b::len)"
  shows "sint (scast a :: 'b word) = sint a" "(scast a :: 'b word) = 0 \<longleftrightarrow> a = 0"
proof -
  show "sint (scast a :: 'b word) = sint a" using assms by (simp add: sint_up_scast is_up.rep_eq)
  then show "(scast a :: 'b word) = 0 \<longleftrightarrow> a = 0" by (metis sint_0 signed_word_eqI)
qed

lemma sext_logical: "flag_logical (sext8_32 x) = flag_logical (ucast x :: u8)"
  "flag_logical (sext16_32 x) = flag_logical (ucast x :: u16)"
  by (simp_all add: flag_logical_def sext8_32_def sext16_32_def scast_up)

end
