(* ===== verification/Jit_Sim.thy ===== *)
theory Jit_Sim
  imports Jit_Regs Interp_Flags
begin

unbundle bit_operations_syntax

text \<open>
  What it means that a code generator is correct. \<open>compiled X t E l l' F\<close>: the generator turned
  the allocator state \<open>l\<close> into \<open>l'\<close>, released every register it locked, and the code it
  appended takes any machine that represents the guest registers \<open>V\<close> to one that represents some
  \<open>V'\<close>, where \<open>F V f V' f'\<close> says what became of the registers and of the host flags. Generators
  are built from the register access functions, from straight pieces of code that write the
  registers they own, and from each other; the rules of this theory are one for each.
\<close>

section \<open>Code that stays in its registers\<close>

definition dest :: "instr \<Rightarrow> nat option" where
  "dest i = (case i of MOVZ x d k sh \<Rightarrow> Some d | MOVN x d k sh \<Rightarrow> Some d | MOVK x d k sh \<Rightarrow> Some d
     | DP x op f d n b \<Rightarrow> Some d | DPC x sub f d n m \<Rightarrow> Some d | BF x k d n l w \<Rightarrow> Some d
     | SHI x k d n j \<Rightarrow> Some d | SHV x k d n m \<Rightarrow> Some d | LDRi x t n j \<Rightarrow> Some t | LDRx sz t n m \<Rightarrow> Some t
     | REV d n \<Rightarrow> Some d | REV16 d n \<Rightarrow> Some d | CSETi x d c \<Rightarrow> Some d | CSETM x d c \<Rightarrow> Some d
     | CSEL x d n m c \<Rightarrow> Some d | MRS_NZCV t \<Rightarrow> Some t | MUL x d n m \<Rightarrow> Some d | MULL x d n m \<Rightarrow> Some d
     | _ \<Rightarrow> None)"

definition is_store :: "instr \<Rightarrow> bool" where
  "is_store i = (case i of STRi x t n j \<Rightarrow> True | STRx sz t n m \<Rightarrow> True | _ \<Rightarrow> False)"

definition confined :: "nat set \<Rightarrow> instr \<Rightarrow> bool" where
  "confined D i \<longleftrightarrow> \<not> is_store i \<and> (\<forall>d. dest i = Some d \<longrightarrow> d = 31 \<or> d \<in> work \<or> d \<in> D)"

definition jump :: "instr \<Rightarrow> nat" where
  "jump i = (case i of BR c k \<Rightarrow> k | CB x nz t k \<Rightarrow> k | TB nz t b k \<Rightarrow> k | _ \<Rightarrow> 0)"

fun closed_code :: "instr list \<Rightarrow> bool" where
  "closed_code [] = True"
| "closed_code (i # is) = (jump i \<le> length is \<and> closed_code is)"

lemma skips_le_jump: "skips i s \<le> jump i"
  by (cases i) (simp_all add: skips_def jump_def)

lemma closed_code_closed: "closed_code c \<Longrightarrow> closed c"
proof (induction c)
  case (Cons i c)
  then have c: "jump i \<le> length c" "closed c" by simp_all
  show ?case
    unfolding closed_def
  proof (intro allI impI)
    fix j s
    assume "j < length (i # c)"
    then show "skips ((i # c) ! j) s \<le> length (i # c) - Suc j"
      using c skips_le_jump [of i s] by (cases j) (auto simp: closed_def intro: order_trans)
  qed
qed simp

lemma closed_code_append: "closed_code xs \<Longrightarrow> closed_code ys \<Longrightarrow> closed_code (xs @ ys)"
  by (induction xs) auto

lemma step_dest: "dest i \<noteq> Some k \<Longrightarrow> xr (step i s) k = xr s k"
  by (cases i) (simp_all add: dest_def wrx_def wrw_def Let_def step.simps(4,5) case_prod_beta)

lemma step_dest31: "dest i = Some 31 \<Longrightarrow> xr (step i s) k = xr s k"
  by (cases i) (simp_all add: dest_def wrx_def wrw_def Let_def step.simps(4,5) case_prod_beta)

lemma step_mem: "\<not> is_store i \<Longrightarrow> amem (step i s) = amem s"
  by (cases i) (simp_all add: is_store_def wrx_def wrw_def Let_def step.simps(4,5) case_prod_beta)

lemma step_confined:
  assumes "confined D i"
  shows "k \<notin> D \<Longrightarrow> k \<notin> work \<Longrightarrow> xr (step i s) k = xr s k" "amem (step i s) = amem s"
proof -
  show "amem (step i s) = amem s" using assms by (intro step_mem) (simp add: confined_def)
  assume "k \<notin> D" "k \<notin> work"
  then show "xr (step i s) k = xr s k"
    using assms step_dest [of i k s] step_dest31 [of i s k] by (auto simp: confined_def)
qed

lemma exec_confined:
  assumes "list_all (confined D) c"
  shows "(\<forall>k. k \<notin> D \<longrightarrow> k \<notin> work \<longrightarrow> xr (exec c s) k = xr s k) \<and> amem (exec c s) = amem s"
  using assms
proof (induction c s rule: exec.induct)
  case (2 i "is" s)
  then have c: "confined D i" "list_all (confined D) (drop (skips i s) is)"
    by (auto simp: list_all_iff dest: in_set_dropD)
  show ?case
    using 2(1) [OF c(2)] step_confined [OF c(1), where s = s] by (simp add: exec.simps(2))
qed simp


section \<open>Simulation\<close>

type_synonym vregs = "nat \<Rightarrow> u64"
type_synonym nzcv_flags = "bool \<times> bool \<times> bool \<times> bool"
type_synonym effect = "vregs \<Rightarrow> nzcv_flags \<Rightarrow> vregs \<Rightarrow> nzcv_flags \<Rightarrow> bool"

definition nzcv :: "a64 \<Rightarrow> nzcv_flags" where
  "nzcv s = (nf s, zf s, cf s, vf s)"

text \<open>The machine outside the allocator's registers and the register file.\<close>

definition outer :: "jenv \<Rightarrow> a64 \<Rightarrow> a64 \<Rightarrow> bool" where
  "outer E s s' \<longleftrightarrow> (\<forall>k. N_REGS \<le> k \<longrightarrow> xr s' k = xr s k) \<and> (\<forall>a. a \<notin> slots E \<longrightarrow> amem s' a = amem s a)"

definition sim :: "nat set \<Rightarrow> jenv \<Rightarrow> live \<Rightarrow> live \<Rightarrow> effect \<Rightarrow> bool" where
  "sim X E l l' F \<longleftrightarrow> (\<exists>c. l_code l' = l_code l @ c \<and> closed c \<and>
     (\<forall>s V. rep X E l s V \<longrightarrow> (\<exists>V'. rep {} E l' (exec c s) V' \<and> outer E s (exec c s) \<and>
        F V (nzcv s) V' (nzcv (exec c s)))))"

lemma outer_refl [simp]: "outer E s s"
  by (simp add: outer_def)

lemma outer_trans: "outer E s s' \<Longrightarrow> outer E s' s'' \<Longrightarrow> outer E s s''"
  by (simp add: outer_def)

lemma quiet_outer: "quiet E s s' \<Longrightarrow> outer E s s'"
  by (simp add: quiet_def outer_def)

lemma quiet_nzcv: "quiet E s s' \<Longrightarrow> nzcv s' = nzcv s"
  by (simp add: quiet_def nzcv_def)

lemma sim_weaken: "sim Y E l l' F \<Longrightarrow> X \<subseteq> Y \<Longrightarrow> sim X E l l' F"
  unfolding sim_def using rep_weaken by metis

lemma sim_mono: "sim X E l l' F \<Longrightarrow> (\<And>V f V' f'. F V f V' f' \<Longrightarrow> G V f V' f') \<Longrightarrow> sim X E l l' G"
  unfolding sim_def by meson

lemma sim_pres:
  assumes "pres K X E l l1" "sim X E l1 l2 F"
  shows "sim X E l l2 F"
proof -
  obtain c1 where c1: "l_code l1 = l_code l @ c1" "closed c1"
    "\<And>s V. rep X E l s V \<Longrightarrow> rep X E l1 (exec c1 s) V \<and> quiet E s (exec c1 s)"
    using assms(1) unfolding pres_def by blast
  obtain c2 where c2: "l_code l2 = l_code l1 @ c2" "closed c2"
    "\<And>s V. rep X E l1 s V \<Longrightarrow> \<exists>V'. rep {} E l2 (exec c2 s) V' \<and> outer E s (exec c2 s) \<and> F V (nzcv s) V' (nzcv (exec c2 s))"
    using assms(2) unfolding sim_def by blast
  have "\<exists>V'. rep {} E l2 (exec (c1 @ c2) s) V' \<and> outer E s (exec (c1 @ c2) s) \<and>
      F V (nzcv s) V' (nzcv (exec (c1 @ c2) s))" if "rep X E l s V" for s V
  proof -
    from c1(3) [OF that] have r: "rep X E l1 (exec c1 s) V" and q: "quiet E s (exec c1 s)" by simp_all
    from c2(3) [OF r] obtain V' where "rep {} E l2 (exec c2 (exec c1 s)) V'"
      "outer E (exec c1 s) (exec c2 (exec c1 s))" "F V (nzcv (exec c1 s)) V' (nzcv (exec c2 (exec c1 s)))"
      by blast
    then show ?thesis
      using quiet_nzcv [OF q] outer_trans [OF quiet_outer [OF q]] by (auto simp: exec_append c1(2))
  qed
  then show ?thesis
    unfolding sim_def using c1 c2 by (intro exI [of _ "c1 @ c2"]) simp
qed

lemma sim_trans:
  assumes "sim X E l l1 F" "sim {} E l1 l2 G"
  shows "sim X E l l2 (\<lambda>V f V' f'. \<exists>V1 f1. F V f V1 f1 \<and> G V1 f1 V' f')"
proof -
  obtain c1 where c1: "l_code l1 = l_code l @ c1" "closed c1"
    "\<And>s V. rep X E l s V \<Longrightarrow> \<exists>V'. rep {} E l1 (exec c1 s) V' \<and> outer E s (exec c1 s) \<and> F V (nzcv s) V' (nzcv (exec c1 s))"
    using assms(1) unfolding sim_def by blast
  obtain c2 where c2: "l_code l2 = l_code l1 @ c2" "closed c2"
    "\<And>s V. rep {} E l1 s V \<Longrightarrow> \<exists>V'. rep {} E l2 (exec c2 s) V' \<and> outer E s (exec c2 s) \<and> G V (nzcv s) V' (nzcv (exec c2 s))"
    using assms(2) unfolding sim_def by blast
  have "\<exists>V'. rep {} E l2 (exec (c1 @ c2) s) V' \<and> outer E s (exec (c1 @ c2) s) \<and>
      (\<exists>V1 f1. F V (nzcv s) V1 f1 \<and> G V1 f1 V' (nzcv (exec (c1 @ c2) s)))" if "rep X E l s V" for s V
  proof -
    from c1(3) [OF that] obtain V1 where r: "rep {} E l1 (exec c1 s) V1" and o: "outer E s (exec c1 s)"
      and F: "F V (nzcv s) V1 (nzcv (exec c1 s))" by blast
    from c2(3) [OF r] obtain V' where "rep {} E l2 (exec c2 (exec c1 s)) V'"
      "outer E (exec c1 s) (exec c2 (exec c1 s))" "G V1 (nzcv (exec c1 s)) V' (nzcv (exec c2 (exec c1 s)))"
      by blast
    then show ?thesis unfolding exec_append [OF c1(2)] using F outer_trans [OF o] by blast
  qed
  then show ?thesis
    unfolding sim_def using c1 c2 by (intro exI [of _ "c1 @ c2"]) simp
qed

lemma sim_state:
  assumes "l_code l' = l_code l" "\<And>s V. rep X E l s V \<Longrightarrow> \<exists>V'. rep {} E l' s V' \<and> (\<forall>f. F V f V' f)"
  shows "sim X E l l' F"
  unfolding sim_def using assms by (intro exI [of _ "[]"]) fastforce

text \<open>Changes of the allocator state that do not concern the register tables.\<close>

lemma rep_same_state: assumes "l_state l' = l_state l" shows "rep X E l' s V = rep X E l s V"
  unfolding rep_def vrep_def assms ..

lemma sim_same_state:
  assumes "sim X E l l1 F" "l_code l2 = l_code l1" "l_state l2 = l_state l1"
  shows "sim X E l l2 F"
  using assms rep_same_state [OF assms(3)] unfolding sim_def by simp


section \<open>Correct code generators\<close>

text \<open>
  Besides the tables and the flags mode, a generator leaves the state of the translator alone, and
  no register becomes undefined.
\<close>

definition others_kept :: "live \<Rightarrow> live \<Rightarrow> bool" where
  "others_kept l l' \<longleftrightarrow> same_rest (l\<lparr>l_flags_carry_inverted := l_flags_carry_inverted l'\<rparr>) l' \<and>
     (\<forall>q<VREGS. status l q \<noteq> UNDEF \<longrightarrow> status l' q \<noteq> UNDEF)"

definition compiled :: "nat set \<Rightarrow> nat \<Rightarrow> jenv \<Rightarrow> live \<Rightarrow> live \<Rightarrow> effect \<Rightarrow> bool" where
  "compiled X t E l l' F \<longleftrightarrow> wf l' \<and> (\<forall>m. locked l' m = locked l m) \<and> touch_ok t l' \<and>
     others_kept l l' \<and> sim X E l l' F"

lemma others_kept_trans: "others_kept l l1 \<Longrightarrow> others_kept l1 l2 \<Longrightarrow> others_kept l l2"
  unfolding others_kept_def same_rest_def by simp

lemma others_kept_refl [simp]: "others_kept l l"
  by (simp add: others_kept_def)

lemma compiled_mono:
  "compiled X t E l l' F \<Longrightarrow> (\<And>V f V' f'. F V f V' f' \<Longrightarrow> G V f V' f') \<Longrightarrow> compiled X t E l l' G"
  unfolding compiled_def using sim_mono by blast

lemma compiled_trans:
  assumes "compiled X t' E l l1 F" "compiled {} t E l1 l2 G"
  shows "compiled X t E l l2 (\<lambda>V f V' f'. \<exists>V1 f1. F V f V1 f1 \<and> G V1 f1 V' f')"
proof -
  note a = assms [unfolded compiled_def]
  have "sim X E l l2 (\<lambda>V f V' f'. \<exists>V1 f1. F V f V1 f1 \<and> G V1 f1 V' f')"
    using a by (intro sim_trans) blast+
  moreover have "others_kept l l2" using a others_kept_trans by blast
  moreover have "locked l2 m = locked l m" for m using a by simp
  ultimately show ?thesis unfolding compiled_def using a(2) by blast
qed

lemma compiled_weaken: "compiled Y t E l l' F \<Longrightarrow> X \<subseteq> Y \<Longrightarrow> compiled X t E l l' F"
  unfolding compiled_def using sim_weaken by blast

lemma wf_inverted: "wf (l\<lparr>l_flags_carry_inverted := b\<rparr>) = wf l"
  by (simp add: wf_def isinreg_def)

lemma compiled_inverted:
  assumes "compiled X t E l l' F"
  shows "compiled X t E l (l'\<lparr>l_flags_carry_inverted := b\<rparr>) F"
proof -
  let ?l = "l'\<lparr>l_flags_carry_inverted := b\<rparr>"
  note a = assms [unfolded compiled_def]
  have "wf ?l" using a by (simp only: wf_inverted)
  moreover have "touch_ok t ?l" using a by (simp add: touch_ok_def)
  moreover have "others_kept l ?l" using a by (simp add: others_kept_def same_rest_def)
  moreover have "sim X E l ?l F" by (rule sim_same_state [of X E l l']) (use a in simp_all)
  moreover have "\<forall>m. locked ?l m = locked l m" using a by simp
  ultimately show ?thesis unfolding compiled_def by blast
qed

text \<open>A native register that the generator may read: the place of the virtual register \<open>r\<close>.\<close>

definition reads :: "nat \<Rightarrow> nat \<Rightarrow> live \<Rightarrow> bool" where
  "reads r n l \<longleftrightarrow> isinreg l r \<and> rs_realreg (l_state l r) = Some n \<and> n < N_REGS \<and> n \<notin> work"

lemma owned_reads: "owned r n l \<Longrightarrow> reads r n l"
  by (simp add: owned_def reads_def isinreg_def)

lemma rep_reads:
  assumes "rep X E l s V" "reads r n l" "r < VREGS" "r \<notin> X" "r \<noteq> PC_P"
  shows "rdw s n = ucast (V r)"
proof -
  have "vrep E l s V r" using assms by (simp add: rep_def)
  then have "agree r (xr s n) (V r)" using assms(2) by (auto simp: vrep_def reads_def isinreg_def)
  moreover have "n \<noteq> 31" using assms(2) by (auto simp: reads_def N_REGS_def)
  ultimately show ?thesis using assms(5) by (simp add: agree_def rdw_def rdx_def)
qed

end
