(* ===== verification/Jit_Midfunc.thy ===== *)
theory Jit_Midfunc
  imports Jit_Sim
begin

unbundle bit_operations_syntax

text \<open>
  The frame of the mid-level functions of compemu_midfunc_arm64.cpp: the macros that acquire the
  native registers of the operands, release them and copy the carry to the X flag, with the rules
  that reduce the correctness of a function to the effect of the code between them.
\<close>

section \<open>Code between acquire and release\<close>

lemma emit_simps [simp]:
  "l_state (emit c l) = l_state l" "l_nat (emit c l) = l_nat l" "l_code (emit c l) = l_code l @ c"
  "l_touchcnt (emit c l) = l_touchcnt l" "isinreg (emit c l) r = isinreg l r"
  by (simp_all add: emit_def isinreg_def)

lemma wf_emit [simp]: "wf (emit c l) = wf l"
  by (simp add: wf_def)

text \<open>
  Code that writes only registers that hold the virtual registers \<open>Q\<close> alone gives those new
  values and leaves the others as they are, wherever they live.
\<close>

lemma rep_body:
  assumes wf: "wf l" and Q: "\<And>q. q \<in> Q \<Longrightarrow> q < VREGS \<and> owned q (realreg l q) l"
    and c: "list_all (confined (realreg l ` Q)) c" and r: "rep Q E l s V"
  shows "rep {} E (emit c l) (exec c s) (\<lambda>q. if q \<in> Q then xr (exec c s) (realreg l q) else V q)"
    (is "rep {} E _ ?s ?V")
proof -
  have x: "xr ?s k = xr s k" if "k \<notin> realreg l ` Q" "k \<notin> work" for k
    using exec_confined [OF c, of s] that by blast
  have m: "amem ?s = amem s" using exec_confined [OF c, of s] by blast
  have "xr ?s R_REGSTRUCT = e_regs E"
  proof -
    have "R_REGSTRUCT \<notin> realreg l ` Q" using Q by (force simp: owned_def N_REGS_def R_REGSTRUCT_def)
    then have "xr ?s R_REGSTRUCT = xr s R_REGSTRUCT" by (rule x) (simp add: work_def R_REGSTRUCT_def)
    then show ?thesis using r by (simp add: rep_def)
  qed
  moreover have "vrep E (emit c l) ?s ?V q" if q: "q < VREGS" for q
  proof (cases "q \<in> Q")
    case True
    then have "status l q = DIRTY" using Q by (auto simp: owned_def)
    then show ?thesis using True by (simp add: vrep_def)
  next
    case False
    then have v: "vrep E l s V q" using r q by (simp add: rep_def)
    have "xr ?s (realreg l q) = xr s (realreg l q)" if i: "isinreg l q"
    proof (rule x)
      show "realreg l q \<notin> work" using wf_inreg [OF wf q i] by simp
      show "realreg l q \<notin> realreg l ` Q"
      proof
        assume "realreg l q \<in> realreg l ` Q"
        then obtain p where p: "p \<in> Q" "realreg l q = realreg l p" by blast
        then have "holds l (realreg l q) = [p]" using Q by (simp add: owned_def)
        moreover have "q \<in> set (holds l (realreg l q))"
          using wf_inreg [OF wf q i] by (metis nth_mem)
        ultimately show False using p False by simp
      qed
    qed
    then show ?thesis using v False m by (auto simp: vrep_def isinreg_def split: vstatus.splits)
  qed
  ultimately show ?thesis by (simp add: rep_def)
qed

lemma touch_ok_emit [simp]: "touch_ok t (emit c l) = touch_ok t l"
  by (simp add: touch_ok_def)

lemma others_kept_emit [simp]: "others_kept l (emit c l') = others_kept l l'"
  by (simp add: others_kept_def emit_def same_rest_def)

lemma compiled_emits:
  assumes wf: "wf l" and Q: "\<And>q. q \<in> Q \<Longrightarrow> q < VREGS \<and> owned q (realreg l q) l"
    and c: "list_all (confined (realreg l ` Q)) c" "closed_code c" and t: "touch_ok t l" and X: "X \<subseteq> Q"
    and F: "\<And>s V. rep X E l s V \<Longrightarrow>
      F V (nzcv s) (\<lambda>q. if q \<in> Q then xr (exec c s) (realreg l q) else V q) (nzcv (exec c s))"
  shows "compiled X t E l (emit c l) F"
proof -
  have "sim X E l (emit c l) F"
    unfolding sim_def
  proof (intro exI [of _ c] conjI allI impI)
    show "closed c" using c(2) by (rule closed_code_closed)
    fix s V
    assume r: "rep X E l s V"
    have o: "outer E s (exec c s)"
    proof -
      have "k \<notin> realreg l ` Q \<and> k \<notin> work" if "N_REGS \<le> k" for k
        using that Q by (force simp: owned_def N_REGS_def work_def)
      then show ?thesis using exec_confined [OF c(1), of s] by (simp add: outer_def)
    qed
    show "\<exists>V'. rep {} E (emit c l) (exec c s) V' \<and> outer E s (exec c s) \<and> F V (nzcv s) V' (nzcv (exec c s))"
      using rep_body [OF wf Q c(1) rep_weaken [OF r X]] o F [OF r] by blast
  qed simp
  then show ?thesis using wf t by (simp add: compiled_def)
qed

text \<open>The common cases: no register is written, or one.\<close>

lemma compiled_emit0:
  assumes "wf l" "list_all (confined {}) c" "closed_code c" "touch_ok t l"
    "\<And>s V. rep {} E l s V \<Longrightarrow> F V (nzcv s) V (nzcv (exec c s))"
  shows "compiled {} t E l (emit c l) F"
  using assms by (intro compiled_emits [where Q = "{}"]) simp_all

lemma compiled_emit1:
  assumes "wf l" "d < VREGS" "owned d n l" "list_all (confined {n}) c" "closed_code c" "touch_ok t l" "X \<subseteq> {d}"
    "\<And>s V. rep X E l s V \<Longrightarrow> F V (nzcv s) (V(d := xr (exec c s) n)) (nzcv (exec c s))"
  shows "compiled X t E l (emit c l) F"
proof (rule compiled_emits [where Q = "{d}"])
  have n: "realreg l d = n" using assms(3) by (simp add: owned_def)
  show "\<And>q. q \<in> {d} \<Longrightarrow> q < VREGS \<and> owned q (realreg l q) l" using assms(2,3) n by simp
  show "list_all (confined (realreg l ` {d})) c" using assms(4) n by simp
  fix s V
  assume "rep X E l s V"
  moreover have "(\<lambda>q. if q \<in> {d} then xr (exec c s) (realreg l q) else V q) = V(d := xr (exec c s) n)"
    using n by auto
  ultimately show "F V (nzcv s) (\<lambda>q. if q \<in> {d} then xr (exec c s) (realreg l q) else V q) (nzcv (exec c s))"
    using assms(8) by simp
qed (use assms in simp_all)


section \<open>Acquire and release\<close>

lemma unlock2_ok:
  assumes "compiled X t E l1 l2 F" "wf l2" "0 < locked l1 n" "n \<notin> work"
  shows "\<exists>l'. unlock2 n l2 = Some l' \<and> wf l' \<and> touch_ok t l' \<and> l_state l' = l_state l2 \<and>
    l_code l' = l_code l2 \<and> same_rest l2 l' \<and> (\<forall>m. locked l' m = (if m = n then locked l2 m - 1 else locked l2 m))"
proof -
  let ?l = "upd_nat n (\<lambda>x. x\<lparr>ns_locked := ns_locked x - 1\<rparr>) l2"
  have "0 < locked l2 n" using assms(1,3) by (simp add: compiled_def)
  then have "unlock2 n l2 = Some ?l" by (simp add: unlock2_simps)
  moreover have "wf ?l" using assms(2,4) by (rule_tac wf_cong [of ?l l2]) (auto simp: isinreg_def upd_nat_def)
  moreover have "touch_ok t ?l" using assms(1) by (auto simp: compiled_def touch_ok_def upd_nat_def)
  ultimately show ?thesis by (intro exI [of _ ?l]) (auto simp: upd_nat_def same_rest_def)
qed

lemma frame_defined:
  assumes "frame r l l'" "isinreg l' r" "q < VREGS" "status l q \<noteq> UNDEF"
  shows "status l' q \<noteq> UNDEF"
  using assms by (cases "q = r") (fastforce simp: frame_def isinreg_def)+

lemma acquired_kept: "acquired r n l l' \<Longrightarrow> others_kept l l'"
  using frame_defined [of r l l'] by (auto simp: acquired_def others_kept_def same_rest_def)

text \<open>A register that was acquired before stays where it is.\<close>

lemma acquired_reads: "acquired r n l l' \<Longrightarrow> reads r n l'"
  by (simp add: acquired_def reads_def)

lemma reads_frame:
  assumes "reads s n l" "acquired r m l l'" "0 < locked l n" "s \<noteq> r" "s < VREGS"
  shows "reads s n l'"
proof -
  have f: "isinreg l s \<and> status l' s = status l s \<and> rs_realreg (l_state l' s) = rs_realreg (l_state l s) \<or>
     isinreg l s \<and> locked l (realreg l s) = 0 \<and> status l' s = INMEM \<or>
     \<not> isinreg l s \<and> status l' s = status l s \<and> val_of l' s = val_of l s"
    using assms(2,4,5) by (simp add: acquired_def frame_def)
  with assms(1,3) show ?thesis by (auto simp: reads_def isinreg_def)
qed

text \<open>
  The rule of a bracket: the register is acquired by a step that keeps all values (those in \<open>X\<close>
  apart), the code generator \<open>M\<close> runs, and the register is unlocked.
\<close>

lemma bracket:
  assumes a: "acquired r n l l1" "pres {} X E l l1"
    and m: "M l1 = Some l2" "compiled X t E l1 l2 F"
  shows "\<exists>l'. (do { l2 \<leftarrow> M l1; unlock2 n l2 }) = Some l' \<and> compiled X t E l l' F \<and>
    l_flags_carry_inverted l' = l_flags_carry_inverted l2"
proof -
  have n: "n \<notin> work" "\<And>k. locked l1 k = (if k = n then Suc (locked l k) else locked l k)"
    using a(1) by (simp_all add: acquired_def)
  from unlock2_ok [OF m(2) _ _ n(1)] m(2) n(2)
  obtain l' where l': "unlock2 n l2 = Some l'" "wf l'" "touch_ok t l'" "l_state l' = l_state l2"
    "l_code l' = l_code l2" "same_rest l2 l'" "\<And>k. locked l' k = (if k = n then locked l2 k - 1 else locked l2 k)"
    by (auto simp: compiled_def)
  have "sim X E l l2 F" using sim_pres [OF a(2)] m(2) by (simp add: compiled_def)
  then have "sim X E l l' F" using sim_same_state l'(4,5) by blast
  moreover have "others_kept l l'"
  proof -
    have "others_kept l l2" using acquired_kept [OF a(1)] m(2) others_kept_trans by (auto simp: compiled_def)
    then show ?thesis using l'(4,6) by (simp add: others_kept_def same_rest_def)
  qed
  moreover have "locked l' k = locked l k" for k using l'(7) n(2) m(2) by (simp add: compiled_def)
  ultimately show ?thesis using l' m(1) by (simp add: compiled_def same_rest_def)
qed


section \<open>The macros\<close>

definition INIT_REGS :: "jenv \<Rightarrow> nat \<Rightarrow> nat \<Rightarrow> live \<Rightarrow> (nat \<times> nat \<times> live) option" where
  "INIT_REGS E d s l =
    (if s \<noteq> d then do { (s, l) \<leftarrow> readreg E s l; (d, l) \<leftarrow> rmw E d l; Some (d, s, l) }
     else do { (d, l) \<leftarrow> rmw E d l; Some (d, d, l) })"

definition INIT_RREGS :: "jenv \<Rightarrow> nat \<Rightarrow> nat \<Rightarrow> live \<Rightarrow> (nat \<times> nat \<times> live) option" where
  "INIT_RREGS E d s l =
    (if s \<noteq> d then do { (s, l) \<leftarrow> readreg E s l; (d, l) \<leftarrow> readreg E d l; Some (d, s, l) }
     else do { (d, l) \<leftarrow> readreg E d l; Some (d, d, l) })"

definition INIT_WREG :: "jenv \<Rightarrow> nat \<Rightarrow> live \<Rightarrow> (nat \<times> live) option" where
  "INIT_WREG E d l = (if d < 16 then rmw E d l else writereg E d l)"

definition EXIT_REGS :: "bool \<Rightarrow> nat \<Rightarrow> nat \<Rightarrow> live \<Rightarrow> live option" where
  "EXIT_REGS s_is_d d s l = do { l \<leftarrow> unlock2 d l; if s_is_d then Some l else unlock2 s l }"

definition set_carry_inverted :: "bool \<Rightarrow> live \<Rightarrow> live" where
  "set_carry_inverted b l = l\<lparr>l_flags_carry_inverted := b\<rparr>"

definition DUPLICACTE_CARRY :: "jenv \<Rightarrow> live \<Rightarrow> live option" where
  "DUPLICACTE_CARRY E l =
    (if l_needed_flags l AND FLAG_X \<noteq> 0 then do {
       (x, l) \<leftarrow> writereg E FLAGX l;
       unlock2 x (emit [CSET_xc x (if l_flags_carry_inverted l then CC_CC else CC_CS)] l) }
     else Some l)"

section \<open>Rules of the brackets\<close>

definition generates :: "nat set \<Rightarrow> nat \<Rightarrow> jenv \<Rightarrow> live \<Rightarrow> live option \<Rightarrow> bool \<Rightarrow> effect \<Rightarrow> bool" where
  "generates X t E l r b F \<longleftrightarrow>
    (\<exists>l'. r = Some l' \<and> compiled X t E l l' F \<and> l_flags_carry_inverted l' = b)"

lemma generates_mono:
  "generates X t E l r b F \<Longrightarrow> (\<And>V f V' f'. F V f V' f' \<Longrightarrow> G V f V' f') \<Longrightarrow> generates X t E l r b G"
  unfolding generates_def using compiled_mono by blast

lemma generates_weaken: "generates Y t E l r b F \<Longrightarrow> X \<subseteq> Y \<Longrightarrow> generates X t E l r b F"
  unfolding generates_def using compiled_weaken by blast

lemma generates_bracket:
  assumes "acquired r n l l1" "pres {} X E l l1" "generates X t E l1 g b F"
  shows "generates X t E l (g \<bind> unlock2 n) b F"
proof -
  obtain l2 where "g = Some l2" "compiled X t E l1 l2 F" "l_flags_carry_inverted l2 = b"
    using assms(3) by (auto simp: generates_def)
  with bracket [OF assms(1,2), of "\<lambda>_. g"] show ?thesis unfolding generates_def by fastforce
qed

lemma generates_trans:
  assumes "generates X t' E l r b' F" "\<And>l1. r = Some l1 \<Longrightarrow> compiled X t' E l l1 F \<Longrightarrow>
    l_flags_carry_inverted l1 = b' \<Longrightarrow> generates {} t E l1 (M l1) b G"
  shows "generates X t E l (r \<bind> M) b (\<lambda>V f V' f'. \<exists>V1 f1. F V f V1 f1 \<and> G V1 f1 V' f')"
proof -
  obtain l1 where l1: "r = Some l1" "compiled X t' E l l1 F" "l_flags_carry_inverted l1 = b'"
    using assms(1) by (auto simp: generates_def)
  obtain l2 where "M l1 = Some l2" "compiled {} t E l1 l2 G" "l_flags_carry_inverted l2 = b"
    using assms(2) [OF l1] by (auto simp: generates_def)
  with l1 compiled_trans [OF l1(2)] show ?thesis unfolding generates_def by auto
qed

text \<open>
  The interface between the code generators and the allocator: what a generator relies on when it
  acquires a register. \<open>needs\<close> is what the operation asks of the virtual register, \<open>fresh\<close> the
  registers whose value it gives up, \<open>grants\<close> what it promises of the native register besides
  holding the virtual one, \<open>cost\<close> and \<open>spare\<close> the ticks of the use counter and the unlocked
  native registers it takes.
\<close>

locale acquisition =
  fixes acquire :: "jenv \<Rightarrow> nat \<Rightarrow> live \<Rightarrow> (nat \<times> live) option"
    and needs :: "nat \<Rightarrow> live \<Rightarrow> bool"
    and fresh :: "nat \<Rightarrow> nat set"
    and grants :: "nat \<Rightarrow> nat \<Rightarrow> live \<Rightarrow> bool"
    and cost :: nat
    and spare :: nat
  assumes acquire_ok: "env_ok E \<Longrightarrow> wf l \<Longrightarrow> r < VREGS \<Longrightarrow> needs r l \<Longrightarrow> touch_ok (cost + t) l \<Longrightarrow> avail (spare + k) l \<Longrightarrow>
    \<exists>n l'. acquire E r l = Some (n, l') \<and> wf l' \<and> acquired r n l l' \<and> grants r n l' \<and> touch_ok t l' \<and>
      (\<forall>K X. K \<subseteq> lockset l \<longrightarrow> fresh r \<subseteq> X \<longrightarrow> pres K X E l l')"
begin

text \<open>The rule of a bracket: acquire a register, run a generator, unlock the register.\<close>

lemma with_acquire:
  assumes "env_ok E" "wf l" "r < VREGS" "needs r l" "touch_ok (cost + t') l" "avail (spare + k) l"
    and M: "\<And>n l1. wf l1 \<Longrightarrow> acquired r n l l1 \<Longrightarrow> grants r n l1 \<Longrightarrow> touch_ok t' l1 \<Longrightarrow>
      generates (fresh r) t E l1 (M n l1) b F"
  shows "generates {} t E l (do { (n, l1) \<leftarrow> acquire E r l; l2 \<leftarrow> M n l1; unlock2 n l2 }) b F"
proof -
  from acquire_ok [OF assms(1-6)]
  obtain n l1 where a: "acquire E r l = Some (n, l1)" "wf l1" "acquired r n l l1" "grants r n l1" "touch_ok t' l1"
    "\<forall>K X. K \<subseteq> lockset l \<longrightarrow> fresh r \<subseteq> X \<longrightarrow> pres K X E l l1"
    by (elim exE conjE) (rule that, assumption+)
  have "pres {} (fresh r) E l l1" using a(6) by simp
  from generates_weaken [OF generates_bracket [OF a(3) this M [OF a(2-5)]]] show ?thesis using a(1) by simp
qed

end

interpretation reading: acquisition readreg "\<lambda>r l. status l r \<noteq> UNDEF" "\<lambda>r. {}" "\<lambda>r n l. True" 2 1
  by unfold_locales (use readreg_ok in \<open>simp add: add_2_eq_Suc\<close>)

interpretation writing: acquisition writereg "\<lambda>r l. True" "\<lambda>r. {r}" owned 3 2
  by unfold_locales (use writereg_ok in \<open>simp add: add_2_eq_Suc eval_nat_numeral\<close>)

interpretation updating: acquisition rmw "\<lambda>r l. status l r \<noteq> UNDEF" "\<lambda>r. {}" owned 3 2
  by unfold_locales (use rmw_ok in \<open>simp add: add_2_eq_Suc eval_nat_numeral\<close>)

lemmas with_readreg = reading.with_acquire [unfolded add_2_eq_Suc One_nat_def plus_nat.add_Suc plus_nat.add_0 simp_thms]
lemmas with_writereg = writing.with_acquire [unfolded numeral_3_eq_3 numeral_2_eq_2 plus_nat.add_Suc plus_nat.add_0, OF _ _ _ TrueI]
lemmas with_rmw = updating.with_acquire [unfolded numeral_3_eq_3 numeral_2_eq_2 plus_nat.add_Suc plus_nat.add_0]


text \<open>What the code between the brackets may rely on.\<close>

definition inside :: "nat \<Rightarrow> nat \<Rightarrow> live \<Rightarrow> live \<Rightarrow> bool" where
  "inside t k l l1 \<longleftrightarrow> wf l1 \<and> touch_ok t l1 \<and> avail k l1 \<and> same_rest l l1 \<and>
     (\<forall>q<VREGS. status l q \<noteq> UNDEF \<longrightarrow> status l1 q \<noteq> UNDEF)"

lemma inside_acquired:
  assumes "acquired r n l l1" "wf l1" "touch_ok t l1" "avail (Suc k) l"
  shows "inside t k l l1"
proof -
  have "avail k l1" using assms(1,4) by (intro avail_lock [of k l n l1]) (auto simp: acquired_def)
  then show ?thesis
    using assms frame_defined [of r l l1] by (auto simp: inside_def acquired_def)
qed

lemma inside_trans: "inside t k l l1 \<Longrightarrow> inside t' k' l1 l2 \<Longrightarrow> inside t' k' l l2"
  unfolding inside_def using same_rest_trans by blast

lemma touch_ok_le: "touch_ok t l \<Longrightarrow> t' \<le> t \<Longrightarrow> touch_ok t' l"
  by (auto simp: touch_ok_def)

lemma avail_le: "avail k l \<Longrightarrow> k' \<le> k \<Longrightarrow> avail k' l"
  by (auto simp: avail_def)

lemma with_INIT_REGS:
  assumes ok: "env_ok E" and wf: "wf l" and d: "d < VREGS" "status l d \<noteq> UNDEF" and s: "s < VREGS" "status l s \<noteq> UNDEF"
    and t: "touch_ok (5 + t') l" and av: "avail (3 + k) l"
    and M: "\<And>dn sn l1. inside t' (Suc k) l l1 \<Longrightarrow> owned d dn l1 \<Longrightarrow> reads s sn l1 \<Longrightarrow> (sn = dn) = (s = d) \<Longrightarrow>
      generates {} t E l1 (M dn sn l1) b F"
  shows "generates {} t E l (do { (dn, sn, l1) \<leftarrow> INIT_REGS E d s l; l2 \<leftarrow> M dn sn l1; EXIT_REGS (s = d) dn sn l2 }) b F"
proof (cases "s = d")
  case True
  have t3: "touch_ok (Suc (Suc (Suc t'))) l" "avail (Suc (Suc (Suc k))) l" "avail (Suc (Suc k)) l"
    using touch_ok_le [OF t] avail_le [OF av] by simp_all
  have "generates {} t E l (do { (n, l1) \<leftarrow> rmw E d l; l2 \<leftarrow> M n n l1; unlock2 n l2 }) b F"
  proof (rule with_rmw [OF ok wf d t3(1,2)])
    fix n l1
    assume a: "wf l1" "acquired d n l l1" "owned d n l1" "touch_ok t' l1"
    show "generates {} t E l1 (M n n l1) b F"
      using M [OF inside_acquired [OF a(2,1,4) t3(3)] a(3)] owned_reads [OF a(3)] True by simp
  qed
  then show ?thesis using True by (simp add: INIT_REGS_def EXIT_REGS_def case_prod_unfold Option.bind_assoc)
next
  case False
  have t3: "touch_ok (Suc (Suc (Suc (Suc (Suc t'))))) l" "avail (Suc (Suc (Suc k))) l"
    using touch_ok_le [OF t] avail_le [OF av] by simp_all
  have "generates {} t E l (do { (sn, l1) \<leftarrow> readreg E s l;
      l2 \<leftarrow> (do { (dn, l1) \<leftarrow> rmw E d l1; l2 \<leftarrow> M dn sn l1; unlock2 dn l2 }); unlock2 sn l2 }) b F"
  proof (rule with_readreg [OF ok wf s t3])
    fix sn l1
    assume w1: "wf l1" and a1: "acquired s sn l l1" and t1: "touch_ok (Suc (Suc (Suc t'))) l1"
    have i1: "inside (Suc (Suc (Suc t'))) (Suc (Suc k)) l l1" using inside_acquired [OF a1 w1 t1 t3(2)] .
    then have u: "status l1 d \<noteq> UNDEF" "avail (Suc (Suc k)) l1" using d by (auto simp: inside_def)
    show "generates {} t E l1 (do { (dn, l1) \<leftarrow> rmw E d l1; l2 \<leftarrow> M dn sn l1; unlock2 dn l2 }) b F"
    proof (rule with_rmw [OF ok w1 d(1) u(1) t1 u(2)])
      fix dn l2
      assume w2: "wf l2" and a2: "acquired d dn l1 l2" and o: "owned d dn l2" and t2: "touch_ok t' l2"
      have lk: "0 < locked l1 sn" using a1 by (simp add: acquired_def)
      have r: "reads s sn l2" using reads_frame [OF acquired_reads [OF a1] a2 lk False s(1)] .
      moreover have "sn \<noteq> dn"
      proof
        assume e: "sn = dn"
        then have "holds l2 sn = [d]" using o by (simp add: owned_def)
        moreover have "s \<in> set (holds l2 sn)"
          using wf_holds_iff [OF w2 _ s(1), of sn] r by (auto simp: reads_def)
        ultimately show False using False by simp
      qed
      ultimately show "generates {} t E l2 (M dn sn l2) b F"
        using M [OF inside_trans [OF i1 inside_acquired [OF a2 w2 t2 u(2)]] o r] False by simp
    qed
  qed
  then show ?thesis using False by (simp add: INIT_REGS_def EXIT_REGS_def case_prod_unfold Option.bind_assoc)
qed


section \<open>The X flag\<close>

definition carry_bit :: "bool \<Rightarrow> nzcv_flags \<Rightarrow> bool" where
  "carry_bit i f = (case f of (n, z, c, v) \<Rightarrow> c \<noteq> i)"

text \<open>The condition codes the host flags stand for.\<close>

definition ccr_of :: "bool \<Rightarrow> nzcv_flags \<Rightarrow> ccr4" where
  "ccr_of i f = (case f of (n, z, c, v) \<Rightarrow> (n, z, v, c \<noteq> i))"

definition set_X :: "live \<Rightarrow> bool \<Rightarrow> vregs \<Rightarrow> vregs" where
  "set_X l c V = (if l_needed_flags l AND FLAG_X \<noteq> 0 then V(FLAGX := of_bool c) else V)"

lemma DUPLICACTE_CARRY_ok:
  assumes ok: "env_ok E" and wf: "wf l" and t: "touch_ok (3 + t) l" and av: "avail (Suc (Suc k)) l"
    and b: "l_flags_carry_inverted l = b"
  shows "generates {} t E l (DUPLICACTE_CARRY E l) b (\<lambda>V f V' f'. f' = f \<and> V' = set_X l (carry_bit b f) V)"
    (is "generates _ _ _ _ _ _ ?F")
proof (cases "l_needed_flags l AND FLAG_X = 0")
  case True
  have "sim {} E l l ?F" by (rule sim_state) (auto simp: set_X_def True)
  then show ?thesis
    using True wf b touch_ok_le [OF t, of t] by (simp add: DUPLICACTE_CARRY_def generates_def compiled_def)
next
  case False
  have "FLAGX < VREGS" "FLAGX \<noteq> PC_P" by (simp_all add: jit_consts)
  let ?M = "\<lambda>x l. Some (emit [CSET_xc x (if l_flags_carry_inverted l then CC_CC else CC_CS)] l)"
  have "generates {} t E l (do { (x, l1) \<leftarrow> writereg E FLAGX l; l2 \<leftarrow> ?M x l1; unlock2 x l2 }) b ?F"
  proof (rule with_writereg [OF ok wf \<open>FLAGX < VREGS\<close> touch_ok_le [OF t] av])
    fix n l1
    assume a: "wf l1" "acquired FLAGX n l l1" "owned FLAGX n l1" "touch_ok t l1"
    have n: "n \<noteq> 31" using a(3) by (auto simp: owned_def N_REGS_def)
    have "compiled {FLAGX} t E l1 (emit [CSET_xc n (if l_flags_carry_inverted l1 then CC_CC else CC_CS)] l1) ?F"
      using a(2) b n False
      by (intro compiled_emit1 [OF a(1) \<open>FLAGX < VREGS\<close> a(3) _ _ a(4)])
        (auto simp: confined_def dest_def is_store_def a64_simps jump_def nzcv_def carry_bit_def set_X_def
          acquired_def same_rest_def xr_wrx)
    then show "generates {FLAGX} t E l1 (?M n l1) b ?F"
      using a(2) b by (simp add: generates_def emit_def acquired_def same_rest_def)
  qed simp
  then show ?thesis using False by (simp add: DUPLICACTE_CARRY_def)
qed


section \<open>Rules of the mid-level functions\<close>

text \<open>
  Where a function starts: the tables are well-formed, no register is locked except the work
  registers, and the use counter has room for the register accesses of one function.
\<close>

definition ready :: "nat \<Rightarrow> jenv \<Rightarrow> live \<Rightarrow> bool" where
  "ready t E l \<longleftrightarrow> env_ok E \<and> wf l \<and> touch_ok (8 + t) l \<and> (\<forall>n<N_REGS. n \<notin> work \<longrightarrow> locked l n = 0)"

definition operand :: "nat \<Rightarrow> live \<Rightarrow> bool" where
  "operand r l \<longleftrightarrow> r < VREGS \<and> status l r \<noteq> UNDEF \<and> r \<noteq> PC_P"

lemma ready_avail: assumes "ready t E l" shows "avail 4 l"
proof -
  have "{0..<18} - {2, 3, 4, 5::nat} \<subseteq> {m. m < N_REGS \<and> locked l m = 0}"
    using assms by (auto simp: ready_def N_REGS_def work_def)
  then have "card ({0..<18} - {2, 3, 4, 5::nat}) \<le> card {m. m < N_REGS \<and> locked l m = 0}"
    by (intro card_mono) auto
  then show ?thesis by (simp add: avail_def)
qed

lemma ready_compiled: "ready t E l \<Longrightarrow> compiled X (8 + t') E l l' F \<Longrightarrow> ready t' E l'"
  by (simp add: ready_def compiled_def)

lemma emit_emit [simp]: "emit c (emit a l) = emit (a @ c) l"
  by (simp add: emit_def)

lemma set_carry_inverted_simps [simp]:
  "l_flags_carry_inverted (set_carry_inverted b l) = b" "l_state (set_carry_inverted b l) = l_state l"
  "l_needed_flags (set_carry_inverted b l) = l_needed_flags l" "wf (set_carry_inverted b l) = wf l"
  "emit c (set_carry_inverted b l) = set_carry_inverted b (emit c l)"
  "locked (set_carry_inverted b l) m = locked l m" "touch_ok t (set_carry_inverted b l) = touch_ok t l"
  "avail k (set_carry_inverted b l) = avail k l"
  by (simp_all add: set_carry_inverted_def wf_inverted emit_def touch_ok_def avail_def)

lemma unlock2_set [simp]:
  "do { l \<leftarrow> unlock2 n l; Some (set_carry_inverted b l) } = unlock2 n (set_carry_inverted b l)"
  "do { l \<leftarrow> unlock2 n l; Some (set_carry_inverted b (emit c l)) } = unlock2 n (set_carry_inverted b (emit c l))"
  by (simp_all add: unlock2_def upd_nat_def set_carry_inverted_def emit_def)

lemma EXIT_REGS_set [simp]:
  "do { l \<leftarrow> EXIT_REGS e d s l; Some (set_carry_inverted b l) } = EXIT_REGS e d s (set_carry_inverted b l)"
  by (simp add: EXIT_REGS_def unlock2_def upd_nat_def set_carry_inverted_def)

lemma compiled_set_carry: "compiled X t E l l' F \<Longrightarrow> compiled X t E l (set_carry_inverted b l') F"
  unfolding set_carry_inverted_def by (rule compiled_inverted)

lemma emit_flags [simp]: "l_flags_carry_inverted (emit c l) = l_flags_carry_inverted l"
  "l_needed_flags (emit c l) = l_needed_flags l" "locked (emit c l) m = locked l m" "avail k (emit c l) = avail k l"
  by (simp_all add: emit_def avail_def)


text \<open>The native registers the allocator hands out: all but the work registers.\<close>

definition free_nat :: "nat \<Rightarrow> bool" where
  "free_nat n \<longleftrightarrow> n < N_REGS \<and> n \<notin> work"

lemma free_nat_ne [simp]:
  assumes "free_nat n"
  shows "(n = 2) = False" "(n = 3) = False" "(n = 4) = False" "(n = 5) = False" "(n = 31) = False"
    "(2 = n) = False" "(3 = n) = False" "(4 = n) = False" "(5 = n) = False" "(31 = n) = False"
  using assms by (auto simp: free_nat_def N_REGS_def work_def)

text \<open>
  Whatever native registers the allocator chooses for the operands, the code \<open>c\<close> writes only the
  destination's and the work registers and has the effect \<open>F\<close>.
\<close>

definition code1 :: "live \<Rightarrow> nat \<Rightarrow> (nat \<Rightarrow> live \<Rightarrow> instr list) \<Rightarrow> effect \<Rightarrow> bool" where
  "code1 l d c F \<longleftrightarrow> (\<forall>n l1. free_nat n \<longrightarrow> same_rest l l1 \<longrightarrow>
     list_all (confined {n}) (c n l1) \<and> closed_code (c n l1) \<and>
     (\<forall>s V. rdw s n = ucast (V d) \<longrightarrow> F V (nzcv s) (V(d := xr (exec (c n l1) s) n)) (nzcv (exec (c n l1) s))))"

definition code2 :: "live \<Rightarrow> nat \<Rightarrow> nat \<Rightarrow> (nat \<Rightarrow> nat \<Rightarrow> live \<Rightarrow> instr list) \<Rightarrow> effect \<Rightarrow> bool" where
  "code2 l d s c F \<longleftrightarrow> (\<forall>dn sn l1. free_nat dn \<longrightarrow> free_nat sn \<longrightarrow>
     (sn = dn) = (s = d) \<longrightarrow> same_rest l l1 \<longrightarrow>
     list_all (confined {dn}) (c dn sn l1) \<and> closed_code (c dn sn l1) \<and>
     (\<forall>m V. rdw m dn = ucast (V d) \<longrightarrow> rdw m sn = ucast (V s) \<longrightarrow>
        F V (nzcv m) (V(d := xr (exec (c dn sn l1) m) dn)) (nzcv (exec (c dn sn l1) m))))"

text \<open>The three ways a function ends: without touching the flags, setting them, setting X too.\<close>

definition finish :: "jenv \<Rightarrow> bool option \<Rightarrow> bool \<Rightarrow> live \<Rightarrow> live option" where
  "finish E fl x l = (case fl of None \<Rightarrow> Some l
     | Some b \<Rightarrow> if x then DUPLICACTE_CARRY E (set_carry_inverted b l) else Some (set_carry_inverted b l))"

definition inverted_after :: "bool option \<Rightarrow> live \<Rightarrow> bool" where
  "inverted_after fl l = (case fl of None \<Rightarrow> l_flags_carry_inverted l | Some b \<Rightarrow> b)"

definition with_X :: "live \<Rightarrow> bool option \<Rightarrow> bool \<Rightarrow> effect \<Rightarrow> effect" where
  "with_X l fl x F V f V' f' \<longleftrightarrow>
    (if fl \<noteq> None \<and> x then \<exists>V1. F V f V1 f' \<and> V' = set_X l (carry_bit (the fl) f') V1 else F V f V' f')"

lemma finish_ok:
  assumes ok: "env_ok E" and c: "compiled X (3 + t) E l l1 F" and av: "avail (Suc (Suc k)) l"
    and i: "l_flags_carry_inverted l1 = l_flags_carry_inverted l"
  shows "generates X t E l (finish E fl x l1) (inverted_after fl l) (with_X l fl x F)"
proof (cases fl)
  case None
  have "compiled X t E l l1 F" using c touch_ok_le by (fastforce simp: compiled_def)
  then show ?thesis using None i by (simp add: finish_def generates_def inverted_after_def with_X_def [abs_def])
next
  case (Some b)
  let ?l1 = "set_carry_inverted b l1"
  have c1: "compiled X (3 + t) E l ?l1 F" using compiled_set_carry [OF c] .
  show ?thesis
  proof (cases x)
    case False
    have "compiled X t E l ?l1 F" using c1 touch_ok_le by (fastforce simp: compiled_def)
    then show ?thesis
      using Some False by (simp add: finish_def generates_def inverted_after_def with_X_def [abs_def])
  next
    case True
    have w: "wf ?l1" "touch_ok (3 + t) ?l1" "avail (Suc (Suc k)) ?l1" "l_needed_flags l1 = l_needed_flags l"
      using c1 av by (auto simp: compiled_def avail_def others_kept_def same_rest_def)
    have "generates X t E l (Some ?l1 \<bind> DUPLICACTE_CARRY E) b
        (\<lambda>V f V' f'. \<exists>V1 f1. F V f V1 f1 \<and> f' = f1 \<and> V' = set_X ?l1 (carry_bit b f1) V1)"
    proof (rule generates_trans)
      show "generates X (3 + t) E l (Some ?l1) b F" using c1 by (simp add: generates_def)
      fix l2
      assume "Some ?l1 = Some l2"
      then show "generates {} t E l2 (DUPLICACTE_CARRY E l2) b
          (\<lambda>V f V' f'. f' = f \<and> V' = set_X ?l1 (carry_bit b f) V)"
        using DUPLICACTE_CARRY_ok [OF ok w(1-3) set_carry_inverted_simps(1)] by simp
    qed
    then have "generates X t E l (DUPLICACTE_CARRY E ?l1) b (with_X l fl x F)"
      using Some True w(4) by (auto simp: with_X_def set_X_def elim!: generates_mono)
    then show ?thesis using Some True by (simp add: finish_def inverted_after_def)
  qed
qed


text \<open>The code of a function that reads its operands only.\<close>

definition rcode1 :: "live \<Rightarrow> nat \<Rightarrow> (nat \<Rightarrow> live \<Rightarrow> instr list) \<Rightarrow> effect \<Rightarrow> bool" where
  "rcode1 l d c F \<longleftrightarrow> (\<forall>n l1. free_nat n \<longrightarrow> same_rest l l1 \<longrightarrow>
     list_all (confined {}) (c n l1) \<and> closed_code (c n l1) \<and>
     (\<forall>s V. rdw s n = ucast (V d) \<longrightarrow> F V (nzcv s) V (nzcv (exec (c n l1) s))))"

definition rcode2 :: "live \<Rightarrow> nat \<Rightarrow> nat \<Rightarrow> (nat \<Rightarrow> nat \<Rightarrow> live \<Rightarrow> instr list) \<Rightarrow> effect \<Rightarrow> bool" where
  "rcode2 l d s c F \<longleftrightarrow> (\<forall>dn sn l1. free_nat dn \<longrightarrow> free_nat sn \<longrightarrow> same_rest l l1 \<longrightarrow>
     list_all (confined {}) (c dn sn l1) \<and> closed_code (c dn sn l1) \<and>
     (\<forall>m V. rdw m dn = ucast (V d) \<longrightarrow> rdw m sn = ucast (V s) \<longrightarrow> F V (nzcv m) V (nzcv (exec (c dn sn l1) m))))"

lemma with_X_rest: "same_rest l l1 \<Longrightarrow> with_X l1 fl x F = with_X l fl x F"
  by (auto simp: fun_eq_iff with_X_def set_X_def same_rest_def)

lemma inverted_after_rest: "same_rest l l1 \<Longrightarrow> inverted_after fl l1 = inverted_after fl l"
  by (auto simp: inverted_after_def same_rest_def split: option.split)

lemma emit_finish:
  assumes "env_ok E" "inside (3 + t) (Suc (Suc k)) l l1" "compiled X (3 + t) E l1 (emit c l1) F"
  shows "generates X t E l1 (finish E fl x (emit c l1)) (inverted_after fl l) (with_X l fl x F)"
proof -
  have i: "same_rest l l1" "avail (Suc (Suc k)) l1" using assms(2) by (simp_all add: inside_def)
  show ?thesis
    using finish_ok [OF assms(1,3) i(2), of fl x] unfolding with_X_rest [OF i(1)] inverted_after_rest [OF i(1)] by simp
qed

lemma op1_ok:
  assumes r: "ready t E l" and d: "operand d l" and c: "code1 l d c F"
  shows "generates {} t E l (do { (n, l1) \<leftarrow> rmw E d l; l2 \<leftarrow> finish E fl x (emit (c n l1) l1); unlock2 n l2 })
    (inverted_after fl l) (with_X l fl x F)"
proof -
  have ok: "env_ok E" "wf l" "d < VREGS" "status l d \<noteq> UNDEF" "d \<noteq> PC_P" using r d by (simp_all add: ready_def operand_def)
  have t: "touch_ok (Suc (Suc (Suc (3 + t)))) l" "avail (Suc (Suc (Suc 0))) l" "avail (Suc (Suc 0)) l"
    using r touch_ok_le [of "8 + t" l] avail_le [OF ready_avail [OF r]] by (simp_all add: ready_def)
  show ?thesis
  proof (rule with_rmw [OF ok(1-4) t(1,3)])
    fix n l1
    assume a: "wf l1" "acquired d n l l1" "owned d n l1" "touch_ok (3 + t) l1"
    have i: "inside (3 + t) (Suc (Suc 0)) l l1" using inside_acquired [OF a(2,1,4) t(2)] .
    have n: "n < N_REGS" "n \<notin> work" "same_rest l l1" using a(3) i by (simp_all add: owned_def inside_def)
    have "compiled {} (3 + t) E l1 (emit (c n l1) l1) F"
      using c n rep_reads [OF _ owned_reads [OF a(3)] ok(3) _ ok(5)]
      by (intro compiled_emit1 [OF a(1) ok(3) a(3) _ _ a(4)]) (auto simp: code1_def free_nat_def)
    from emit_finish [OF ok(1) i this]
    show "generates {} t E l1 (finish E fl x (emit (c n l1) l1)) (inverted_after fl l) (with_X l fl x F)" .
  qed
qed

lemma op2_ok:
  assumes r: "ready t E l" and d: "operand d l" and s: "operand s l" and c: "code2 l d s c F"
  shows "generates {} t E l (do { (dn, sn, l1) \<leftarrow> INIT_REGS E d s l;
      l2 \<leftarrow> finish E fl x (emit (c dn sn l1) l1); EXIT_REGS (s = d) dn sn l2 })
    (inverted_after fl l) (with_X l fl x F)"
proof -
  have ok: "env_ok E" "wf l" "d < VREGS" "status l d \<noteq> UNDEF" "s < VREGS" "status l s \<noteq> UNDEF" "d \<noteq> PC_P" "s \<noteq> PC_P"
    using r d s by (simp_all add: ready_def operand_def)
  have t: "touch_ok (5 + (3 + t)) l" "avail (3 + 1) l"
    using r ready_avail [OF r] by (simp_all add: ready_def)
  show ?thesis
  proof (rule with_INIT_REGS [OF ok(1-6) t])
    fix dn sn l1
    assume i: "inside (3 + t) (Suc 1) l l1" and o: "owned d dn l1" and rd: "reads s sn l1" and e: "(sn = dn) = (s = d)"
    have n: "dn < N_REGS" "dn \<notin> work" "sn < N_REGS" "sn \<notin> work" "same_rest l l1" "wf l1" "touch_ok (3 + t) l1"
      using o rd i by (simp_all add: owned_def inside_def reads_def)
    have "compiled {} (3 + t) E l1 (emit (c dn sn l1) l1) F"
    proof (rule compiled_emit1 [OF n(6) ok(3) o _ _ n(7)])
      fix m V
      assume R: "rep {} E l1 m V"
      have "rdw m dn = ucast (V d)" "rdw m sn = ucast (V s)"
        using rep_reads [OF R owned_reads [OF o]] rep_reads [OF R rd] ok by auto
      then show "F V (nzcv m) (V(d := xr (exec (c dn sn l1) m) dn)) (nzcv (exec (c dn sn l1) m))"
        using c n(1-5) e unfolding code2_def free_nat_def by blast
    qed (use c n(1-5) e in \<open>auto simp: code2_def free_nat_def\<close>)
    from emit_finish [OF ok(1) _ this] i
    show "generates {} t E l1 (finish E fl x (emit (c dn sn l1) l1)) (inverted_after fl l) (with_X l fl x F)" by simp
  qed
qed


lemma with_X_no: "with_X l fl False F = F" "with_X l None x F = F"
  by (auto simp: with_X_def fun_eq_iff)

lemmas op1 = op1_ok [where fl = None and x = False, unfolded finish_def option.case Option.bind_lunit inverted_after_def with_X_no]
lemmas op1f = op1_ok [where fl = "Some b" and x = False for b, unfolded finish_def option.case if_False Option.bind_lunit inverted_after_def with_X_no]
lemmas op1x = op1_ok [where fl = "Some b" and x = True for b, unfolded finish_def option.case if_True inverted_after_def]
lemmas op2 = op2_ok [where fl = None and x = False, unfolded finish_def option.case Option.bind_lunit inverted_after_def with_X_no]
lemmas op2f = op2_ok [where fl = "Some b" and x = False for b, unfolded finish_def option.case if_False Option.bind_lunit inverted_after_def with_X_no]
lemmas op2x = op2_ok [where fl = "Some b" and x = True for b, unfolded finish_def option.case if_True inverted_after_def]

section \<open>Effects\<close>

text \<open>
  A result of the operand's width goes to the low bits of the destination; a guest register keeps its
  other bits, a scratch register need not.
\<close>

definition writes :: "nat \<Rightarrow> 'a::len word \<Rightarrow> vregs \<Rightarrow> vregs \<Rightarrow> bool" where
  "writes d r V V' \<longleftrightarrow> (\<forall>q. q \<noteq> d \<longrightarrow> V' q = V q) \<and> ucast (V' d) = r \<and>
     (d < 16 \<longrightarrow> drop_bit LENGTH('a) (ucast (V' d) :: u32) = drop_bit LENGTH('a) (ucast (V d)))"

definition plain_effect :: "nat \<Rightarrow> (vregs \<Rightarrow> 'a::len word) \<Rightarrow> effect" where
  "plain_effect d op V f V' f' \<longleftrightarrow> writes d (op V) V V' \<and> f' = f"

definition logic_effect :: "bool \<Rightarrow> nat \<Rightarrow> (vregs \<Rightarrow> 'a::len word) \<Rightarrow> effect" where
  "logic_effect b d op V f V' f' \<longleftrightarrow> writes d (op V) V V' \<and> ccr_of b f' = flag_logical (op V)"

definition arith_effect :: "live \<Rightarrow> bool \<Rightarrow> nat \<Rightarrow> (vregs \<Rightarrow> 'a::len word \<times> ccr4) \<Rightarrow> effect" where
  "arith_effect l b d op V f V' f' \<longleftrightarrow> (case op V of (r, n, z, v, c) \<Rightarrow>
     (\<exists>V1. writes d r V V1 \<and> V' = set_X l c V1) \<and> ccr_of b f' = (n, z, v, c))"

definition compare_effect :: "bool \<Rightarrow> (vregs \<Rightarrow> ccr4) \<Rightarrow> effect" where
  "compare_effect b op V f V' f' \<longleftrightarrow> V' = V \<and> ccr_of b f' = op V"


definition result_effect :: "bool \<Rightarrow> nat \<Rightarrow> (vregs \<Rightarrow> 'a::len word \<times> ccr4) \<Rightarrow> effect" where
  "result_effect b d op V f V' f' \<longleftrightarrow> writes d (fst (op V)) V V' \<and> ccr_of b f' = snd (op V)"

lemma with_X_arith: "with_X l (Some b) True (result_effect b d op) V f V' f' \<Longrightarrow> arith_effect l b d op V f V' f'"
  by (auto simp: with_X_def result_effect_def arith_effect_def ccr_of_def carry_bit_def split: prod.splits)

lemma writes_upd: "writes d (r :: 'a::len word) V (V(d := w)) \<longleftrightarrow>
    ucast w = r \<and> (d < 16 \<longrightarrow> drop_bit LENGTH('a) (ucast w :: u32) = drop_bit LENGTH('a) (ucast (V d)))"
  by (auto simp: writes_def)

lemma op1a:
  "ready t E l \<Longrightarrow> operand d l \<Longrightarrow> code1 l d c (result_effect b d op) \<Longrightarrow>
    generates {} t E l (do { (n, l1) \<leftarrow> rmw E d l;
      l2 \<leftarrow> DUPLICACTE_CARRY E (set_carry_inverted b (emit (c n l1) l1)); unlock2 n l2 }) b (arith_effect l b d op)"
  by (rule generates_mono [OF op1x with_X_arith])

lemma op2a:
  "ready t E l \<Longrightarrow> operand d l \<Longrightarrow> operand s l \<Longrightarrow> code2 l d s c (result_effect b d op) \<Longrightarrow>
    generates {} t E l (do { (dn, sn, l1) \<leftarrow> INIT_REGS E d s l;
      l2 \<leftarrow> DUPLICACTE_CARRY E (set_carry_inverted b (emit (c dn sn l1) l1)); EXIT_REGS (s = d) dn sn l2 })
      b (arith_effect l b d op)"
  by (rule generates_mono [OF op2x with_X_arith])

section \<open>Executing the code\<close>

lemma flag_add_commute: "flag_add a b = flag_add b a"
  using carry_of_add [of a b] carry_of_add [of b a]
  by (simp add: flag_add_def Let_def add.commute) metis

lemma nzcv_simps [simp]:
  "nzcv (wrx d x s) = nzcv s" "nzcv (wrw d w s) = nzcv s" "nzcv (set_flags True fl s) = fl"
  "nzcv (s\<lparr>nf := n, zf := z, cf := c, vf := v\<rparr>) = (n, z, c, v)"
  by (auto simp: nzcv_def set_flags_def split: prod.split)

lemma xr_wr [simp]: "d \<noteq> 31 \<Longrightarrow> xr (wrx d v s) d = v" "d \<noteq> 31 \<Longrightarrow> xr (wrw d w s) d = ucast w"
  by (simp_all add: wrx_def wrw_def)

lemma ccr_of_alu [simp]:
  "ccr_of False (snd (alu_op ADD a b)) = snd (flag_add b a)"
  "ccr_of True (snd (alu_op SUB a b)) = snd (flag_sub b a)"
  "ccr_of False (snd (alu_op AND_op a b)) = flag_logical (a AND b)"
  by (auto simp: alu_op_def add_flags_add add_flags_sub logic_flags_def flag_logical_def ccr_of_def split: prod.splits)

lemma flag_results [simp]: "fst (flag_add a b) = b + a" "fst (flag_sub a b) = b - a"
  by (simp_all add: flag_add_def flag_sub_def Let_def)

lemmas shifted_u8 = shifted_add [where 'a = 32 and 'b = 8 and k = 24, simplified]
  shifted_sub [where 'a = 32 and 'b = 8 and k = 24, simplified]
  shifted_logical [where 'a = 32 and 'b = 8 and k = 24, simplified]

lemmas shifted_u16 = shifted_add [where 'a = 32 and 'b = 16 and k = 16, simplified]
  shifted_sub [where 'a = 32 and 'b = 16 and k = 16, simplified]
  shifted_logical [where 'a = 32 and 'b = 16 and k = 16, simplified]

text \<open>Parts of a register after a bit field insert.\<close>

lemma ucast_rdx [simp]: "(ucast (rdx m n) :: u32) = rdw m n"
  by (simp add: rdw_def)

lemma rdx_low [simp]: "(ucast (rdx m n) :: u8) = ucast (rdw m n)" "(ucast (rdx m n) :: u16) = ucast (rdw m n)"
  unfolding rdw_def by (simp_all add: blast8 blast16 del: ucast_rdx)

lemma insert_u8 [simp]:
  "(ucast (x AND NOT (mask 8) OR take_bit 8 y) :: u8) = ucast y"
  "drop_bit 8 (ucast (x AND NOT (mask 8) OR take_bit 8 y) :: u32) = drop_bit 8 (ucast x)" for x y :: u64
  by (simp_all add: blast8 blast32)

lemma insert_u16 [simp]:
  "(ucast (x AND NOT (mask 16) OR take_bit 16 y) :: u16) = ucast y"
  "drop_bit 16 (ucast (x AND NOT (mask 16) OR take_bit 16 y) :: u32) = drop_bit 16 (ucast x)" for x y :: u64
  by (simp_all add: blast16 blast32)

lemma insertw_u8 [simp]:
  "(ucast (ucast (x AND NOT (mask 8) OR take_bit 8 y) :: u64) :: u8) = ucast y"
  "(ucast (x AND NOT (mask 8) OR take_bit 8 y) :: u8) = ucast y"
  "drop_bit 8 (x AND NOT (mask 8) OR take_bit 8 y) = drop_bit 8 x" for x y :: u32
  by (simp_all add: blast8 blast32)

lemma insertw_u16 [simp]:
  "(ucast (ucast (x AND NOT (mask 16) OR take_bit 16 y) :: u64) :: u16) = ucast y"
  "(ucast (x AND NOT (mask 16) OR take_bit 16 y) :: u16) = ucast y"
  "drop_bit 16 (x AND NOT (mask 16) OR take_bit 16 y) = drop_bit 16 x" for x y :: u32
  by (simp_all add: blast16 blast32)

lemma top_u8 [simp]:
  "(ucast (drop_bit 24 (ucast (push_bit 24 a :: u32) :: u64)) :: u8) = ucast a"
  "(ucast (drop_bit 16 (ucast (push_bit 16 a :: u32) :: u64)) :: u16) = ucast a"
  by (simp_all add: blast8 blast16)

lemma push_bit_arith [simp]: "push_bit k a + push_bit k b = push_bit k (a + b)"
  "push_bit k a - push_bit k b = push_bit k (a - b)" for a b :: "'a::len word"
  unfolding push_bit_eq_mult by (simp_all only: distrib_right left_diff_distrib)

lemma ucast_u8_arith [simp]: "(ucast (a + b) :: u8) = ucast a + ucast b" "(ucast (a - b) :: u8) = ucast a - ucast b"
  "(ucast (a + b) :: u16) = ucast a + ucast b" "(ucast (a - b) :: u16) = ucast a - ucast b" for a b :: u32
  by (rule ucast_down, simp)+

lemmas run_simps = a64_simps jit_consts work_def confined_def dest_def is_store_def jump_def
  bitfield_op_def shift_op_def writes_upd shifted_u8 shifted_u16

end
