(* ===== verification/Jit_Rules.thy ===== *)
theory Jit_Rules
  imports Jit_Midfunc
begin

unbundle bit_operations_syntax

text \<open>
  Further rules for the mid-level functions: constants, functions that only read their operands,
  and functions that overwrite their destination without reading it.
\<close>

section \<open>Constants\<close>

definition set_val :: "nat \<Rightarrow> u64 \<Rightarrow> live \<Rightarrow> live" where
  "set_val r v l = upd_state r (\<lambda>x. x\<lparr>rs_val := v\<rparr>) l"

lemma set_val_simps [simp]:
  "val_of (set_val r v l) r = v" "status (set_val r v l) q = status l q" "isconst (set_val r v l) q = isconst l q"
  "isinreg (set_val r v l) q = isinreg l q" "l_code (set_val r v l) = l_code l" "l_nat (set_val r v l) = l_nat l"
  "rs_realreg (l_state (set_val r v l) q) = rs_realreg (l_state l q)" "touch_ok t (set_val r v l) = touch_ok t l"
  "q \<noteq> r \<Longrightarrow> l_state (set_val r v l) q = l_state l q" "same_rest l (set_val r v l)"
  "l_flags_carry_inverted (set_val r v l) = l_flags_carry_inverted l" "l_needed_flags (set_val r v l) = l_needed_flags l"
  "rs_realind (l_state (set_val r v l) q) = rs_realind (l_state l q)"
  "rs_needflush (l_state (set_val r v l) q) = rs_needflush (l_state l q)"
  by (simp_all add: set_val_def upd_state_def isconst_def isinreg_def touch_ok_def same_rest_def)

lemma wf_set_val [simp]: "wf (set_val r v l) = wf l"
  by (simp add: wf_def)

lemma emit_Nil [simp]: "emit [] l = l"
  by (simp add: emit_def)

lemma generates_rep:
  assumes "generates X t E l r b F" "\<And>s V f V' f'. rep X E l s V \<Longrightarrow> F V f V' f' \<Longrightarrow> G V f V' f'"
  shows "generates X t E l r b G"
proof -
  have "sim X E l l' F \<Longrightarrow> sim X E l l' G" for l' unfolding sim_def using assms(2) by meson
  then show ?thesis using assms(1) unfolding generates_def compiled_def by blast
qed

lemma rep_const:
  assumes "rep X E l s V" "isconst l q" "operand q l" "q \<notin> X"
  shows "(ucast (val_of l q) :: u32) = ucast (V q)"
proof -
  have "vrep E l s V q" using assms by (simp add: rep_def operand_def)
  then show ?thesis using assms(2,3) by (simp add: vrep_def isconst_def agree_def operand_def)
qed

text \<open>The function for a constant operand stands for the one that reads the register.\<close>

lemma with_const:
  assumes "generates {} t E l r b F" "isconst l s" "operand s l"
    "\<And>V f V' f'. (ucast (val_of l s) :: u32) = ucast (V s) \<Longrightarrow> F V f V' f' \<Longrightarrow> G V f V' f'"
  shows "generates {} t E l r b G"
  using generates_rep [OF assms(1)] rep_const [OF _ assms(2,3)] assms(4) by (metis empty_iff)

lemma ready_touch: "ready t E l \<Longrightarrow> touch_ok (8 + t) l \<and> touch_ok t l"
  using touch_ok_le [of "8 + t" l t] by (simp add: ready_def)

lemma vrep_cong2:
  assumes "l_state l' q = l_state l q" "V' q = V q"
  shows "vrep E l' s V' q = vrep E l s V q"
  unfolding vrep_def assms ..

lemma rep_set_val:
  assumes "rep {} E l s V" "isconst l d"
  shows "rep {} E (set_val d v l) s (V(d := v))"
proof -
  have "vrep E (set_val d v l) s (V(d := v)) q" if "q < VREGS" for q
  proof (cases "q = d")
    case True
    then show ?thesis using assms(2) by (simp add: vrep_def isconst_def)
  next
    case False
    then show ?thesis using assms(1) that vrep_cong2 [of "set_val d v l" q l "V(d := v)" V] by (simp add: rep_def)
  qed
  then show ?thesis using assms(1) by (simp add: rep_def)
qed

text \<open>Code that writes the work registers only.\<close>

lemma generates_emit0:
  assumes "wf l" "touch_ok t l" "list_all (confined {}) c" "closed_code c"
    "\<And>s V. rep {} E l s V \<Longrightarrow> F V (nzcv s) V (nzcv (exec c s))"
  shows "generates {} t E l (Some (emit c l)) (l_flags_carry_inverted l) F"
proof -
  have "compiled {} t E l (emit c l) F" by (rule compiled_emit0 [OF assms(1,3,4,2)]) (rule assms(5))
  then show ?thesis by (simp add: generates_def)
qed

lemma generates_set_carry:
  "generates X t E l (Some l') b F \<Longrightarrow> generates X t E l (Some (set_carry_inverted b' l')) b' F"
  by (auto simp: generates_def compiled_set_carry)

lemma op0:
  assumes "ready t E l" "list_all (confined {}) c" "closed_code c"
    "\<And>s V. rep {} E l s V \<Longrightarrow> F V (nzcv s) V (nzcv (exec c s))"
  shows "generates {} t E l (Some (set_carry_inverted b (emit c l))) b F"
proof -
  have "wf l" "touch_ok t l" using assms(1) ready_touch [OF assms(1)] by (simp_all add: ready_def)
  then show ?thesis by (intro generates_set_carry [OF generates_emit0]) (use assms in simp_all)
qed

lemma const_val:
  assumes r: "ready t E l" and c: "isconst l d" and d: "operand d l"
    and F: "\<And>V f. (ucast (val_of l d) :: u32) = ucast (V d) \<Longrightarrow> F V f (V(d := v)) f"
  shows "generates {} (8 + t) E l (Some (set_val d v l)) (l_flags_carry_inverted l) F"
proof -
  have "sim {} E l (set_val d v l) F"
    using rep_set_val [OF _ c] F rep_const [OF _ c d] by (intro sim_state) (simp, blast)
  moreover have "others_kept l (set_val d v l)"
    by (simp add: others_kept_def same_rest_def set_val_def upd_state_def)
  ultimately show ?thesis
    using r ready_touch [OF r] by (simp add: generates_def compiled_def ready_def)
qed

lemma generates_le: "generates X t E l r b F \<Longrightarrow> t' \<le> t \<Longrightarrow> generates X t' E l r b F"
  unfolding generates_def compiled_def using touch_ok_le by blast

text \<open>Two functions in sequence; the second starts from a state like the first's.\<close>

lemma seq:
  assumes "ready t' E l" "generates {} (8 + t) E l r b' F"
    "\<And>l1. ready t E l1 \<Longrightarrow> others_kept l l1 \<Longrightarrow> l_flags_carry_inverted l1 = b' \<Longrightarrow> r = Some l1 \<Longrightarrow>
      generates {} t E l1 (M l1) b G"
  shows "generates {} t E l (r \<bind> M) b (\<lambda>V f V' f'. \<exists>V1 f1. F V f V1 f1 \<and> G V1 f1 V' f')"
proof (rule generates_trans [OF assms(2)])
  fix l1
  assume l1: "r = Some l1" "compiled {} (8 + t) E l l1 F" "l_flags_carry_inverted l1 = b'"
  have "ready t E l1" using assms(1) l1(2) by (simp add: ready_def compiled_def)
  then show "generates {} t E l1 (M l1) b G" using assms(3) l1 by (simp add: compiled_def)
qed

lemma seq_plain:
  assumes "ready t' E l" "generates {} (8 + t) E l r b' F"
    "\<And>l1. ready t E l1 \<Longrightarrow> others_kept l l1 \<Longrightarrow> l_flags_carry_inverted l1 = b' \<Longrightarrow> r = Some l1 \<Longrightarrow>
      generates {} t E l1 (M l1) b G"
    "\<And>V f V1 f1 V' f'. F V f V1 f1 \<Longrightarrow> G V1 f1 V' f' \<Longrightarrow> H V f V' f'"
  shows "generates {} t E l (r \<bind> M) b H"
  using generates_mono [OF seq [OF assms(1-3)]] assms(4) by blast

lemma const_flags:
  assumes r: "ready t E l" and c: "isconst l d" and d: "operand d l"
    and i: "list_all (confined {}) i" "closed_code i"
    and F: "\<And>V s. (ucast (val_of l d) :: u32) = ucast (V d) \<Longrightarrow> F V (nzcv s) (V(d := v)) (nzcv (exec i s))"
  shows "generates {} t E l (Some (set_carry_inverted b (emit i (set_val d v l)))) b F"
proof -
  let ?F = "\<lambda>V f V' f'. (ucast (val_of l d) :: u32) = ucast (V d) \<and> V' = V(d := v) \<and> f' = f"
  let ?G = "\<lambda>V f V' f'. \<exists>s. f = nzcv s \<and> V' = V \<and> f' = nzcv (exec i s)"
  have "generates {} t E l (Some (set_val d v l) \<bind> (\<lambda>l. Some (set_carry_inverted b (emit i l)))) b F"
  proof (rule seq_plain [where F = ?F and G = ?G, OF r const_val [OF r c d]])
    fix l1
    assume "ready t E l1"
    then show "generates {} t E l1 (Some (set_carry_inverted b (emit i l1))) b ?G" by (rule op0 [OF _ i]) blast
  next
    fix V f V1 f1 V' f'
    assume "?F V f V1 f1" "?G V1 f1 V' f'"
    then show "F V f V' f'" using F by auto
  qed simp
  then show ?thesis by simp
qed

lemma disassociated:
  assumes r: "ready t E l" and d: "d < VREGS"
  obtains l1 where "disassociate E d l = Some l1" "wf l1" "pres {} {d} E l l1" "same_rest l l1" "frame d l l1"
    "\<not> isinreg l1 d" "\<And>m. locked l1 m = locked l m" "touch_ok (8 + t) l1" "others_kept l l1"
proof -
  have wf: "wf l" and ok: "env_ok E" using r by (simp_all add: ready_def)
  have "isinreg l d \<Longrightarrow> locked l (realreg l d) = 0" using wf_inreg [OF wf d] r by (simp add: ready_def)
  then obtain l1 where l1: "disassociate E d l = Some l1" "wf l1" "same_nat l l1" "pres {} {d} E l l1"
    "if isinreg l d then evicted d (isclean d l) l1 else l1 = l"
    using disassociate_ok [OF ok wf d] by blast
  have fr: "frame d l l1 \<and> same_rest l l1 \<and> \<not> isinreg l1 d \<and> (status l d \<noteq> UNDEF \<longrightarrow> status l1 d \<noteq> UNDEF)"
  proof (cases "isinreg l d")
    case True
    then have e: "evicted d (isclean d l) l1" using l1(5) by simp
    then have "same_rest (isclean d l) l1" "status l1 d = INMEM" by (simp_all add: evicted_def Let_def)
    moreover have "frame d l l1" using frame_evicted [OF e] by (simp add: frame_def)
    ultimately show ?thesis using same_rest_trans [of l "isclean d l" l1] by (simp add: isinreg_def)
  next
    case False
    then show ?thesis using l1(5) by simp
  qed
  then have "others_kept l l1" by (auto simp: others_kept_def same_rest_def frame_def isinreg_def)
  moreover have "touch_ok (8 + t) l1" using ready_touch [OF r] l1(3) by (simp add: touch_ok_def same_nat_def)
  ultimately show ?thesis using that l1 fr by (simp add: same_nat_def)
qed

lemma set_const_ok:
  assumes r: "ready t E l" and d: "d < VREGS" "d \<noteq> PC_P"
  shows "generates {} (8 + t) E l (set_const E d v l) (l_flags_carry_inverted l)
    (\<lambda>V f V' f'. f' = f \<and> V' = V(d := ucast (ucast v :: u32)))" (is "generates _ _ _ _ _ _ ?F")
proof -
  obtain l1 where l1: "disassociate E d l = Some l1" "wf l1" "pres {} {d} E l l1" "same_rest l l1" "frame d l l1"
    "\<not> isinreg l1 d" "\<And>m. locked l1 m = locked l m" "touch_ok (8 + t) l1" "others_kept l l1"
    using disassociated [OF r d(1)] by blast
  let ?v = "ucast (ucast v :: u32) :: u64"
  let ?l = "set_status d ISCONST (upd_state d (\<lambda>x. x\<lparr>rs_val := ?v\<rparr>) l1)"
  have "sim {d} E l1 ?l ?F"
  proof (rule sim_state)
    fix s V
    assume "rep {d} E l1 s V"
    moreover have "vrep E ?l s (V(d := ?v)) d" by (simp add: vrep_def)
    moreover have "vrep E ?l s (V(d := ?v)) q = vrep E l1 s V q" if "q \<noteq> d" for q
      using that by (intro vrep_cong2) simp_all
    ultimately have "rep {} E ?l s (V(d := ?v))" unfolding rep_def by (metis insert_iff empty_iff)
    then show "\<exists>V'. rep {} E ?l s V' \<and> (\<forall>f. ?F V f V' f)" by blast
  qed simp
  then have "sim {} E l ?l ?F" using sim_weaken [OF sim_pres [OF l1(3)]] by blast
  moreover have "wf ?l" using l1(2,6) by (intro wf_cong [of ?l l1]) (auto simp: isinreg_def)
  moreover have "touch_ok (8 + t) ?l" using l1(8) by (simp add: touch_ok_def)
  moreover have "others_kept l ?l"
    using l1(9) by (auto simp: others_kept_def same_rest_def set_status_def upd_state_def)
  ultimately show ?thesis using l1(1,4,7) d
    by (simp add: generates_def compiled_def set_const_def same_rest_def set_status_def upd_state_def)
qed

section \<open>Operands that are only read\<close>

lemma with_INIT_RREGS:
  assumes ok: "env_ok E" and wf: "wf l" and d: "d < VREGS" "status l d \<noteq> UNDEF" and s: "s < VREGS" "status l s \<noteq> UNDEF"
    and t: "touch_ok (4 + t') l" and av: "avail (3 + k) l"
    and M: "\<And>dn sn l1. inside t' (Suc k) l l1 \<Longrightarrow> reads d dn l1 \<Longrightarrow> reads s sn l1 \<Longrightarrow> (s = d \<longrightarrow> sn = dn) \<Longrightarrow>
      generates {} t E l1 (M dn sn l1) b F"
  shows "generates {} t E l (do { (dn, sn, l1) \<leftarrow> INIT_RREGS E d s l; l2 \<leftarrow> M dn sn l1; EXIT_REGS (s = d) dn sn l2 }) b F"
proof (cases "s = d")
  case True
  have t3: "touch_ok (Suc (Suc t')) l" "avail (Suc (Suc k)) l" using touch_ok_le [OF t] avail_le [OF av] by simp_all
  have "generates {} t E l (do { (n, l1) \<leftarrow> readreg E d l; l2 \<leftarrow> M n n l1; unlock2 n l2 }) b F"
  proof (rule with_readreg [OF ok wf d t3])
    fix n l1
    assume a: "wf l1" "acquired d n l l1" "touch_ok t' l1"
    show "generates {} t E l1 (M n n l1) b F"
      using M [OF inside_acquired [OF a(2,1,3) t3(2)]] acquired_reads [OF a(2)] True by simp
  qed
  then show ?thesis using True by (simp add: INIT_RREGS_def EXIT_REGS_def case_prod_unfold Option.bind_assoc)
next
  case False
  have t3: "touch_ok (Suc (Suc (Suc (Suc t')))) l" "avail (Suc (Suc (Suc k))) l"
    using touch_ok_le [OF t] avail_le [OF av] by simp_all
  have "generates {} t E l (do { (sn, l1) \<leftarrow> readreg E s l;
      l2 \<leftarrow> (do { (dn, l1) \<leftarrow> readreg E d l1; l2 \<leftarrow> M dn sn l1; unlock2 dn l2 }); unlock2 sn l2 }) b F"
  proof (rule with_readreg [OF ok wf s t3])
    fix sn l1
    assume w1: "wf l1" and a1: "acquired s sn l l1" and t1: "touch_ok (Suc (Suc t')) l1"
    have i1: "inside (Suc (Suc t')) (Suc (Suc k)) l l1" using inside_acquired [OF a1 w1 t1 t3(2)] .
    then have u: "status l1 d \<noteq> UNDEF" "avail (Suc (Suc k)) l1" using d by (auto simp: inside_def)
    show "generates {} t E l1 (do { (dn, l1) \<leftarrow> readreg E d l1; l2 \<leftarrow> M dn sn l1; unlock2 dn l2 }) b F"
    proof (rule with_readreg [OF ok w1 d(1) u(1) t1 u(2)])
      fix dn l2
      assume w2: "wf l2" and a2: "acquired d dn l1 l2" and t2: "touch_ok t' l2"
      have "0 < locked l1 sn" using a1 by (simp add: acquired_def)
      from reads_frame [OF acquired_reads [OF a1] a2 this False s(1)]
      show "generates {} t E l2 (M dn sn l2) b F"
        using M [OF inside_trans [OF i1 inside_acquired [OF a2 w2 t2 u(2)]] acquired_reads [OF a2]] False by simp
    qed
  qed
  then show ?thesis using False by (simp add: INIT_RREGS_def EXIT_REGS_def case_prod_unfold Option.bind_assoc)
qed

lemma rop1_ok:
  assumes r: "ready t E l" and d: "operand d l" and c: "rcode1 l d c F"
  shows "generates {} t E l (do { (n, l1) \<leftarrow> readreg E d l; l2 \<leftarrow> finish E fl False (emit (c n l1) l1); unlock2 n l2 })
    (inverted_after fl l) F"
proof -
  have ok: "env_ok E" "wf l" "d < VREGS" "status l d \<noteq> UNDEF" "d \<noteq> PC_P" using r d by (simp_all add: ready_def operand_def)
  have t: "touch_ok (Suc (Suc (3 + t))) l" "avail (Suc (Suc (Suc 0))) l"
    using r touch_ok_le [of "8 + t" l] avail_le [OF ready_avail [OF r]] by (simp_all add: ready_def)
  show ?thesis
  proof (rule with_readreg [OF ok(1-4) t])
    fix n l1
    assume a: "wf l1" "acquired d n l l1" "touch_ok (3 + t) l1"
    have i: "inside (3 + t) (Suc (Suc 0)) l l1" using inside_acquired [OF a(2,1,3) t(2)] .
    have n: "n < N_REGS" "n \<notin> work" "same_rest l l1" using a(2) by (simp_all add: acquired_def)
    have "compiled {} (3 + t) E l1 (emit (c n l1) l1) F"
      using c n rep_reads [OF _ acquired_reads [OF a(2)] ok(3) _ ok(5)]
      by (intro compiled_emit0 [OF a(1) _ _ a(3)]) (auto simp: rcode1_def free_nat_def)
    from emit_finish [OF ok(1) i this, where fl = fl and x = False]
    show "generates {} t E l1 (finish E fl False (emit (c n l1) l1)) (inverted_after fl l) F"
      by (simp add: with_X_no)
  qed
qed

lemma rop2_ok:
  assumes r: "ready t E l" and d: "operand d l" and s: "operand s l" and c: "rcode2 l d s c F"
  shows "generates {} t E l (do { (dn, sn, l1) \<leftarrow> INIT_RREGS E d s l;
      l2 \<leftarrow> finish E fl False (emit (c dn sn l1) l1); EXIT_REGS (s = d) dn sn l2 }) (inverted_after fl l) F"
proof -
  have ok: "env_ok E" "wf l" "d < VREGS" "status l d \<noteq> UNDEF" "s < VREGS" "status l s \<noteq> UNDEF" "d \<noteq> PC_P" "s \<noteq> PC_P"
    using r d s by (simp_all add: ready_def operand_def)
  have t: "touch_ok (4 + (3 + t)) l" "avail (3 + 1) l"
    using r touch_ok_le [of "8 + t" l] ready_avail [OF r] by (simp_all add: ready_def)
  show ?thesis
  proof (rule with_INIT_RREGS [OF ok(1-6) t])
    fix dn sn l1
    assume i: "inside (3 + t) (Suc 1) l l1" and rd: "reads d dn l1" "reads s sn l1"
    have n: "dn < N_REGS" "dn \<notin> work" "sn < N_REGS" "sn \<notin> work" "same_rest l l1" "wf l1" "touch_ok (3 + t) l1"
      using rd i by (simp_all add: inside_def reads_def)
    have "compiled {} (3 + t) E l1 (emit (c dn sn l1) l1) F"
    proof (rule compiled_emit0 [OF n(6) _ _ n(7)])
      fix m V
      assume R: "rep {} E l1 m V"
      have "rdw m dn = ucast (V d)" "rdw m sn = ucast (V s)"
        using rep_reads [OF R rd(1)] rep_reads [OF R rd(2)] ok by auto
      then show "F V (nzcv m) V (nzcv (exec (c dn sn l1) m))"
        using c n(1-5) unfolding rcode2_def free_nat_def by blast
    qed (use c n(1-5) in \<open>auto simp: rcode2_def free_nat_def\<close>)
    from emit_finish [OF ok(1) _ this, where fl = fl and x = False] i
    show "generates {} t E l1 (finish E fl False (emit (c dn sn l1) l1)) (inverted_after fl l) F"
      by (simp add: with_X_no)
  qed
qed

section \<open>Destinations that are only written\<close>

definition wcode1 :: "live \<Rightarrow> nat \<Rightarrow> (nat \<Rightarrow> live \<Rightarrow> instr list) \<Rightarrow> effect \<Rightarrow> bool" where
  "wcode1 l d c F \<longleftrightarrow> (\<forall>n l1. free_nat n \<longrightarrow> same_rest l l1 \<longrightarrow>
     list_all (confined {n}) (c n l1) \<and> closed_code (c n l1) \<and>
     (\<forall>s V. F V (nzcv s) (V(d := xr (exec (c n l1) s) n)) (nzcv (exec (c n l1) s))))"

lemma wop1_ok:
  assumes r: "ready t E l" and d: "d < VREGS" and c: "wcode1 l d c F"
  shows "generates {} t E l (do { (n, l1) \<leftarrow> writereg E d l; l2 \<leftarrow> finish E fl False (emit (c n l1) l1); unlock2 n l2 })
    (inverted_after fl l) F"
proof -
  have ok: "env_ok E" "wf l" using r by (simp_all add: ready_def)
  have t: "touch_ok (Suc (Suc (Suc (3 + t)))) l" "avail (Suc (Suc (Suc 0))) l" "avail (Suc (Suc 0)) l"
    using r touch_ok_le [of "8 + t" l] avail_le [OF ready_avail [OF r]] by (simp_all add: ready_def)
  show ?thesis
  proof (rule with_writereg [OF ok d t(1,3)])
    fix n l1
    assume a: "wf l1" "acquired d n l l1" "owned d n l1" "touch_ok (3 + t) l1"
    have i: "inside (3 + t) (Suc (Suc 0)) l l1" using inside_acquired [OF a(2,1,4) t(2)] .
    have n: "n < N_REGS" "n \<notin> work" "same_rest l l1" using a(3) i by (simp_all add: owned_def inside_def)
    have "compiled {d} (3 + t) E l1 (emit (c n l1) l1) F"
      using c n by (intro compiled_emit1 [OF a(1) d a(3) _ _ a(4)]) (auto simp: wcode1_def free_nat_def)
    from emit_finish [OF ok(1) i this, where fl = fl and x = False]
    show "generates {d} t E l1 (finish E fl False (emit (c n l1) l1)) (inverted_after fl l) F"
      by (simp add: with_X_no)
  qed
qed

text \<open>A source that is read and a different destination that is overwritten.\<close>

definition wcode2 :: "live \<Rightarrow> nat \<Rightarrow> nat \<Rightarrow> (nat \<Rightarrow> nat \<Rightarrow> live \<Rightarrow> instr list) \<Rightarrow> effect \<Rightarrow> bool" where
  "wcode2 l d s c F \<longleftrightarrow> (\<forall>dn sn l1. free_nat dn \<longrightarrow> free_nat sn \<longrightarrow> sn \<noteq> dn \<longrightarrow> same_rest l l1 \<longrightarrow>
     list_all (confined {dn}) (c dn sn l1) \<and> closed_code (c dn sn l1) \<and>
     (\<forall>m V. rdw m sn = ucast (V s) \<longrightarrow>
        F V (nzcv m) (V(d := xr (exec (c dn sn l1) m) dn)) (nzcv (exec (c dn sn l1) m))))"

lemma owned_other:
  assumes "wf l" "owned d dn l" "reads s sn l" "s \<noteq> d" "s < VREGS"
  shows "sn \<noteq> dn"
proof
  assume e: "sn = dn"
  then have "holds l sn = [d]" using assms(2) by (simp add: owned_def)
  moreover have "s \<in> set (holds l sn)" using wf_holds_iff [OF assms(1) _ assms(5), of sn] assms(3) by (auto simp: reads_def)
  ultimately show False using assms(4) by simp
qed

lemma wop2_ok:
  assumes r: "ready t E l" and d: "d < VREGS" and s: "operand s l" "s \<noteq> d" and c: "wcode2 l d s c F"
  shows "generates {} t E l (do { (sn, l1) \<leftarrow> readreg E s l; (dn, l1) \<leftarrow> writereg E d l1;
      l2 \<leftarrow> finish E fl False (emit (c dn sn l1) l1); l2 \<leftarrow> unlock2 dn l2; unlock2 sn l2 }) (inverted_after fl l) F"
proof -
  have ok: "env_ok E" "wf l" "s < VREGS" "status l s \<noteq> UNDEF" "s \<noteq> PC_P" using r s by (simp_all add: ready_def operand_def)
  have t: "touch_ok (Suc (Suc (Suc (Suc (Suc (3 + t)))))) l" "avail (Suc (Suc (Suc (Suc 0)))) l"
    using r ready_avail [OF r] by (simp_all add: ready_def eval_nat_numeral)
  have "generates {} t E l (do { (sn, l1) \<leftarrow> readreg E s l; l2 \<leftarrow> (do { (dn, l1) \<leftarrow> writereg E d l1;
      l2 \<leftarrow> finish E fl False (emit (c dn sn l1) l1); unlock2 dn l2 }); unlock2 sn l2 }) (inverted_after fl l) F"
  proof (rule with_readreg [OF ok(1-4) t])
    fix sn l1
    assume w1: "wf l1" and a1: "acquired s sn l l1" and t1: "touch_ok (Suc (Suc (Suc (3 + t)))) l1"
    have i1: "inside (Suc (Suc (Suc (3 + t)))) (Suc (Suc (Suc 0))) l l1" using inside_acquired [OF a1 w1 t1 t(2)] .
    then have u: "avail (Suc (Suc (Suc 0))) l1" "avail (Suc (Suc 0)) l1" using avail_le by (auto simp: inside_def)
    show "generates {} t E l1 (do { (dn, l1) \<leftarrow> writereg E d l1;
        l2 \<leftarrow> finish E fl False (emit (c dn sn l1) l1); unlock2 dn l2 }) (inverted_after fl l) F"
    proof (rule with_writereg [OF ok(1) w1 d t1 u(2)])
      fix dn l2
      assume w2: "wf l2" and a2: "acquired d dn l1 l2" and o: "owned d dn l2" and t2: "touch_ok (3 + t) l2"
      have lk: "0 < locked l1 sn" using a1 by (simp add: acquired_def)
      have rd: "reads s sn l2" using reads_frame [OF acquired_reads [OF a1] a2 lk s(2) ok(3)] .
      have i: "inside (3 + t) (Suc (Suc 0)) l l2"
        using inside_trans [OF i1 inside_acquired [OF a2 w2 t2 u(1)]] .
      have n: "dn < N_REGS" "dn \<notin> work" "sn < N_REGS" "sn \<notin> work" "sn \<noteq> dn" "same_rest l l2"
        using o rd i owned_other [OF w2 o rd s(2) ok(3)] by (simp_all add: owned_def inside_def reads_def)
      have "compiled {d} (3 + t) E l2 (emit (c dn sn l2) l2) F"
        using c n rep_reads [OF _ rd ok(3) _ ok(5)] s(2)
        by (intro compiled_emit1 [OF w2 d o _ _ t2]) (auto simp: wcode2_def free_nat_def)
      from emit_finish [OF ok(1) i this, where fl = fl and x = False]
      show "generates {d} t E l2 (finish E fl False (emit (c dn sn l2) l2)) (inverted_after fl l) F"
        by (simp add: with_X_no)
    qed
  qed
  then show ?thesis by (simp add: case_prod_unfold Option.bind_assoc)
qed

lemmas rop1 = rop1_ok [where fl = None, unfolded finish_def option.case Option.bind_lunit inverted_after_def]
lemmas rop1f = rop1_ok [where fl = "Some b" for b, unfolded finish_def option.case if_False Option.bind_lunit inverted_after_def]
lemmas rop2f = rop2_ok [where fl = "Some b" for b, unfolded finish_def option.case if_False Option.bind_lunit inverted_after_def]
lemmas wop1 = wop1_ok [where fl = None, unfolded finish_def option.case Option.bind_lunit inverted_after_def]
lemmas wop1f = wop1_ok [where fl = "Some b" for b, unfolded finish_def option.case if_False Option.bind_lunit inverted_after_def]
lemmas wop2 = wop2_ok [where fl = None, unfolded finish_def option.case Option.bind_lunit inverted_after_def]
lemmas wop2f = wop2_ok [where fl = "Some b" for b, unfolded finish_def option.case if_False Option.bind_lunit inverted_after_def]

end
