(* ===== verification/Jit_Words.thy ===== *)
theory Jit_Words
  imports Jit_Rules
begin

unbundle bit_operations_syntax

text \<open>
  The arithmetic of the emitted sequences: immediates, sign extension, and the merging of a byte or
  word result into a register. These are the facts that remain when a sequence has been executed
  symbolically.
\<close>

section \<open>Flag masks\<close>

definition FLAG_Z :: u32 where "FLAG_Z = 0x4"
definition FLAG_V :: u32 where "FLAG_V = 0x2"
definition ARM_N_FLAG :: u32 where "ARM_N_FLAG = 0x80000000"
definition ARM_Z_FLAG :: u32 where "ARM_Z_FLAG = 0x40000000"
definition ARM_C_FLAG :: u32 where "ARM_C_FLAG = 0x20000000"
definition ARM_V_FLAG :: u32 where "ARM_V_FLAG = 0x10000000"

lemmas arm_flags = ARM_N_FLAG_def ARM_Z_FLAG_def ARM_C_FLAG_def ARM_V_FLAG_def

lemma bit_flag_half [simp]:
  "bit (drop_bit 16 ARM_N_FLAG) k \<longleftrightarrow> k = 15" "bit (drop_bit 16 ARM_Z_FLAG) k \<longleftrightarrow> k = 14"
  "bit (drop_bit 16 ARM_C_FLAG) k \<longleftrightarrow> k = 13" "bit (drop_bit 16 ARM_V_FLAG) k \<longleftrightarrow> k = 12"
proof -
  have m: "ARM_N_FLAG = push_bit 31 1" "ARM_Z_FLAG = push_bit 30 1" "ARM_C_FLAG = push_bit 29 1" "ARM_V_FLAG = push_bit 28 1"
    by (simp_all add: arm_flags)
  show "bit (drop_bit 16 ARM_N_FLAG) k \<longleftrightarrow> k = 15" "bit (drop_bit 16 ARM_Z_FLAG) k \<longleftrightarrow> k = 14"
    "bit (drop_bit 16 ARM_C_FLAG) k \<longleftrightarrow> k = 13" "bit (drop_bit 16 ARM_V_FLAG) k \<longleftrightarrow> k = 12"
    unfolding m bit_drop_bit_eq bit_push_bit_iff by (auto simp: bit_1_iff)
qed

lemma bit_if: "bit (if c then a else b) k = (if c then bit a k else bit b k)"
  by simp

text \<open>The flags that the sequence MOV, MSR of a flag word sets.\<close>

lemma exec_flag_word:
  "nzcv (exec [MOV_xish REG_WORK1 (ucast f) 16, MSR_NZCV_x REG_WORK1] s) = (bit f 15, bit f 14, bit f 13, bit f 12)"
  for f :: u32
  by (simp add: a64_simps jit_consts nzcv_def bit_simps)

section \<open>Load sequences\<close>

lemma confined_LOAD_U32 [simp]: "list_all (confined D) (LOAD_U32 r v) \<longleftrightarrow> r = 31 \<or> r \<in> work \<or> r \<in> D"
  by (auto simp: LOAD_U32_def a64_simps confined_def dest_def is_store_def)

lemma confined_IMM [simp]:
  "list_all (confined D) (SIGNED16_IMM_2_REG r v) \<longleftrightarrow> r = 31 \<or> r \<in> work \<or> r \<in> D"
  "list_all (confined D) (SIGNED8_IMM_2_REG r v) \<longleftrightarrow> r = 31 \<or> r \<in> work \<or> r \<in> D"
  by (auto simp: SIGNED16_IMM_2_REG_def SIGNED8_IMM_2_REG_def Let_def a64_simps confined_def dest_def is_store_def)

lemma closed_code_LOAD [simp]:
  "closed_code (LOAD_U32 r v @ c) = closed_code c" "closed_code (LOAD_U32 r v)"
  "closed_code (SIGNED16_IMM_2_REG r v @ c) = closed_code c" "closed_code (SIGNED16_IMM_2_REG r v)"
  "closed_code (SIGNED8_IMM_2_REG r v @ c) = closed_code c" "closed_code (SIGNED8_IMM_2_REG r v)"
  by (auto simp: LOAD_U32_def SIGNED16_IMM_2_REG_def SIGNED8_IMM_2_REG_def Let_def a64_simps jump_def)

lemma exec_IMMs [simp]:
  "r \<noteq> 31 \<Longrightarrow> exec (SIGNED16_IMM_2_REG r v @ c) s = exec c (wrw r (sext16_32 v) s)"
  "r \<noteq> 31 \<Longrightarrow> exec (SIGNED16_IMM_2_REG r v) s = wrw r (sext16_32 v) s"
  "r \<noteq> 31 \<Longrightarrow> exec (SIGNED8_IMM_2_REG r v @ c) s = exec c (wrw r (sext8_32 v) s)"
  "r \<noteq> 31 \<Longrightarrow> exec (SIGNED8_IMM_2_REG r v) s = wrw r (sext8_32 v) s"
  using exec_SIGNED16_IMM [of r v "[]" s] exec_SIGNED8_IMM [of r v "[]" s]
  by (simp_all add: exec_SIGNED16_IMM exec_SIGNED8_IMM)

lemma sext_field [simp]:
  "signed_take_bit 7 w = sext8_32 w" "signed_take_bit 15 w = sext16_32 w" for w :: u32
  by (simp_all add: sext8_32_def sext16_32_def blast32)

lemma sext_parts [simp]:
  "(ucast (sext8_32 w) :: u8) = ucast w" "(ucast (sext16_32 w) :: u16) = ucast w"
  by (simp_all add: sext8_32_def sext16_32_def blast8 blast16)

text \<open>Immediates.\<close>

lemma imm_shifted [simp]:
  "(ucast (push_bit 16 (ucast (v AND 0xFFFF)) AND 0xFFFF0000 :: u64) :: u32) = push_bit 16 v"
  "(ucast (push_bit 16 (ucast (push_bit 8 v AND 0xFF00)) AND 0xFFFF0000 :: u64) :: u32) = push_bit 24 v" for v :: u32
  by (simp_all add: blast32)

lemma sless_eq_imm:
  assumes "0 <=s v" "v <=s 4095"
  shows "v AND 4095 = (v :: u32)"
proof -
  have "uint v = sint v" using assms(1) by (simp add: word_sle_eq uint_of_sint)
  moreover have "sint v \<le> 4095" using assms(2) by (simp add: word_sle_eq)
  ultimately have "uint v < 4096" by simp
  then have "take_bit 12 v = v" by (simp add: word_uint_eq_iff unsigned_take_bit_eq take_bit_int_eq_self)
  then show ?thesis by (simp add: take_bit_eq_mask mask_eq_exp_minus_1)
qed

lemma small_imm [simp]:
  assumes "0 <=s v" "v <=s 4095"
  shows "(ucast (ucast v AND 4095 :: u64) :: u32) = v"
proof -
  have "(ucast (ucast v AND 4095 :: u64) :: u32) = v AND 4095" by (simp add: blast32)
  then show ?thesis using sless_eq_imm [OF assms] by simp
qed

section \<open>Constants\<close>

definition same_low :: "u64 \<Rightarrow> u64 \<Rightarrow> bool" where
  "same_low a b \<longleftrightarrow> (ucast a :: u32) = ucast b \<and> (ucast a :: u16) = ucast b \<and> (ucast a :: u8) = ucast b"

lemma same_lowI: assumes "(ucast a :: u32) = ucast b" shows "same_low b a"
proof -
  have "(ucast b :: u16) = ucast (ucast b :: u32)" by simp
  also have "\<dots> = ucast a" unfolding assms [symmetric] by simp
  finally have 16: "(ucast b :: u16) = ucast a" .
  have "(ucast b :: u8) = ucast (ucast b :: u32)" by simp
  also have "\<dots> = ucast a" unfolding assms [symmetric] by simp
  finally show ?thesis using 16 by (simp add: same_low_def assms)
qed

lemma const_plain:
  assumes "ready t E l" "isconst l d" "operand d l"
    "\<And>V. same_low (V d) (val_of l d) \<Longrightarrow> writes d (op V) V (V(d := v))"
  shows "generates {} t E l (Some (set_val d v l)) (l_flags_carry_inverted l) (plain_effect d op)"
proof (rule generates_le)
  show "generates {} (8 + t) E l (Some (set_val d v l)) (l_flags_carry_inverted l) (plain_effect d op)"
    using assms(4) by (intro const_val [OF assms(1-3)]) (simp add: plain_effect_def same_lowI)
qed simp

lemma ucast_arith64 [simp]:
  "(ucast (a + b) :: u32) = ucast a + ucast b" "(ucast (a - b) :: u32) = ucast a - ucast b"
  "(ucast (a + b) :: u16) = ucast a + ucast b" "(ucast (a - b) :: u16) = ucast a - ucast b"
  "(ucast (a + b) :: u8) = ucast a + ucast b" "(ucast (a - b) :: u8) = ucast a - ucast b" for a b :: u64
  by (rule ucast_down, simp)+

lemma ucast_scast [simp]:
  "(ucast (scast (v :: u32) :: u64) :: u32) = v" "(ucast (scast (v :: u32) :: u64) :: u16) = ucast v"
  "(ucast (scast (v :: u32) :: u64) :: u8) = ucast v"
  by (simp_all add: blast32 blast16 blast8)

lemma merge8 [simp]:
  "(ucast (x AND 0xFFFFFF00 OR y AND 0xFF) :: u8) = ucast y"
  "drop_bit 8 (ucast (x AND 0xFFFFFF00 OR y AND 0xFF) :: u32) = drop_bit 8 (ucast x)" for x y :: u64
  by (simp_all add: blast8 blast32)

lemma merge16 [simp]:
  "(ucast (x AND 0xFFFF0000 OR y AND 0xFFFF) :: u16) = ucast y"
  "drop_bit 16 (ucast (x AND 0xFFFF0000 OR y AND 0xFFFF) :: u32) = drop_bit 16 (ucast x)" for x y :: u64
  by (simp_all add: blast16 blast32)

lemma field_upper [simp]:
  "drop_bit 8 x AND drop_bit 8 (NOT (mask 8)) OR drop_bit 8 (take_bit 8 y) = drop_bit 8 x"
  "drop_bit 16 x AND drop_bit 16 (NOT (mask 16)) OR drop_bit 16 (take_bit 16 y) = drop_bit 16 x" for x y :: u32
  by (simp_all add: blast32)

lemma ucast_via64 [simp]:
  "(ucast (ucast (x :: u32) :: u64) :: u8) = ucast x" "(ucast (ucast (x :: u32) :: u64) :: u16) = ucast x"
  by (simp_all add: blast8 blast16)

lemma imm_low [simp]:
  "(ucast (ucast (v AND 0xFF) AND 0xFFF :: u64) :: u32) = v AND 0xFF"
  "(ucast (ucast (v AND 0xFFFF) AND 0xFFFF :: u64) :: u32) = v AND 0xFFFF"
  "(ucast (v AND 0xFF) :: u8) = ucast v" "(ucast (v AND 0xFFFF) :: u16) = ucast v" for v :: u32
  by (simp_all add: blast32 blast16 blast8)

lemma imm_less [simp]:
  assumes "0 <=s v" "v <s 4096"
  shows "(ucast (ucast v AND 4095 :: u64) :: u32) = v"
  using small_imm [of v] assms by (simp add: word_sle_eq word_sless_alt)

lemma imm_low64 [simp]:
  "(ucast (x AND 0xFF) :: u8) = ucast x" "(ucast (x AND 0xFFFF) :: u16) = ucast x" for x :: u64
  by (simp_all add: blast8 blast16)

lemma imm_word [simp]: "(ucast (ucast v AND 0xFFFF :: u64) :: u16) = ucast v" for v :: u32
  by (simp add: blast16)

lemma imm_consts [simp]:
  "(ucast (push_bit 16 (ucast (push_bit 8 (ucast (b :: u8) :: u32))) AND 0xFFFF0000 :: u64) :: u32) = push_bit 24 (ucast b)"
  "(ucast (push_bit 16 x AND 0xFFFF0000 :: u64) :: u32) = push_bit 16 (ucast x)"
  "(ucast (ucast (v AND 0xFF) AND 0xFFFF :: u64) :: u32) = v AND 0xFF" for v :: u32
  by (simp_all add: blast32)

lemma push_bit_masked [simp]: "push_bit 16 v AND 0xFFFF0000 = push_bit 16 v" "push_bit 24 v AND 0xFF000000 = push_bit 24 v"
  for v :: u32
  by (simp_all add: blast32)

lemma ucast_scast16 [simp]: "(ucast (scast (w :: u16) :: u64) :: u32) = scast w"
  by (simp add: blast32)

lemma push_bit_uminus [simp]: "- push_bit k a = push_bit k (- a)" for a :: "'a::len word"
  using push_bit_arith(2) [of k 0 a] by simp

lemma shifted_neg [simp]:
  "snd (flag_sub (push_bit 24 a) 0) = snd (flag_sub (ucast a :: u8) 0)"
  "snd (flag_sub (push_bit 16 a) 0) = snd (flag_sub (ucast a :: u16) 0)" for a :: u32
  using shifted_u8(2) [of a 0] shifted_u16(2) [of a 0] by simp_all

lemma ucast_uminus [simp]:
  "(ucast (- a) :: u8) = - ucast a" "(ucast (- a) :: u16) = - ucast a" for a :: u32
  using ucast_u8_arith(2) [of 0 a] ucast_u8_arith(4) [of 0 a] by simp_all

text \<open>Sign extension is written with \<open>sext8_32\<close> and \<open>sext16_32\<close> throughout.\<close>

lemma sext_fold:
  "(scast (ucast v :: u8) :: u32) = sext8_32 v" "(scast (ucast v :: u16) :: u32) = sext16_32 v"
  "(scast (ucast x :: u8) :: u32) = sext8_32 (ucast x)" "(scast (ucast x :: u16) :: u32) = sext16_32 (ucast x)"
  "sext16_32 (ucast (w :: u16)) = scast w" "sext8_32 (ucast (b :: u8)) = scast b"
  "sext16_32 (sext16_32 v) = sext16_32 v" "sext8_32 (sext8_32 v) = sext8_32 v" for v :: u32 and x :: u64
  by (simp_all add: sext8_32_def sext16_32_def blast32)

lemma small_sext [simp]:
  assumes "0 <=s v" "v <s 4096"
  shows "sext16_32 v = v"
proof -
  have "v AND 4095 = v" using sless_eq_imm [of v] assms by (simp add: word_sle_eq word_sless_alt)
  moreover have "sext16_32 (v AND 4095) = v AND 4095" by (simp add: sext16_32_def blast32)
  ultimately show ?thesis by simp
qed

lemma flag_cmp_sub: "flag_cmp a b = snd (flag_sub a b)"
  by (simp add: flag_cmp_def flag_sub_def Let_def)

lemma if_or: "(if a then x else if b then x else y) = (if a \<or> b then x else y)"
  by simp

lemma small_imm16 [simp]:
  assumes "0 <=s (scast (w :: u16) :: u32)" "(scast w :: u32) <=s 4095"
  shows "(ucast (ucast w AND 4095 :: u64) :: u32) = scast w"
proof -
  have "(ucast (ucast w AND 4095 :: u64) :: u32) = ucast (ucast (scast w :: u32) AND 4095 :: u64)" by (simp add: blast32)
  then show ?thesis using small_imm [OF assms] by simp
qed

lemma neg_imm [simp]:
  assumes "- 4095 <=s v" "v <s 0"
  shows "- (ucast (ucast (- v) AND 4095 :: u64) :: u32) = v"
proof -
  have b: "- 4095 \<le> sint v" "sint v < 0" using assms by (simp_all add: word_sle_eq word_sless_alt)
  have s: "sint (- v) = - sint v"
    using b unfolding sint_word_ariths by (simp add: signed_take_bit_int_eq_self)
  have "0 <=s - v" "- v <=s 4095" using b s by (simp_all add: word_sle_eq)
  from small_imm [OF this] show ?thesis by simp
qed

lemma sext_scast [simp]: "sext16_32 (scast (w :: u16)) = scast w"
  by (simp add: sext16_32_def blast32)

lemmas code_simps = code1_def code2_def rcode1_def rcode2_def wcode1_def wcode2_def run_simps
  SIGNED8_REG_2_REG_def SIGNED16_REG_2_REG_def UNSIGNED8_REG_2_REG_def UNSIGNED16_REG_2_REG_def UNSIGNED16_IMM_2_REG_def
  flag_add_commute flag_cmp_sub sext_fold plain_effect_def result_effect_def logic_effect_def compare_effect_def

section \<open>Common shapes\<close>

lemma generates_ifI:
  "(c \<Longrightarrow> generates X t E l x b F) \<Longrightarrow> (\<not> c \<Longrightarrow> generates X t E l y b F) \<Longrightarrow> generates X t E l (if c then x else y) b F"
  by simp

text \<open>An effect stays the same when its operation is replaced by one that agrees on the constant.\<close>

lemma const_effect:
  assumes "isconst l s" "operand s l"
  shows "generates {} t E l r b (plain_effect d op0) \<Longrightarrow> (\<And>V. same_low (V s) (val_of l s) \<Longrightarrow> op0 V = op0' V) \<Longrightarrow>
      generates {} t E l r b (plain_effect d op0')"
    "generates {} t E l r b (logic_effect b' d op1) \<Longrightarrow> (\<And>V. same_low (V s) (val_of l s) \<Longrightarrow> op1 V = op1' V) \<Longrightarrow>
      generates {} t E l r b (logic_effect b' d op1')"
    "generates {} t E l r b (arith_effect l b' d op2) \<Longrightarrow> (\<And>V. same_low (V s) (val_of l s) \<Longrightarrow> op2 V = op2' V) \<Longrightarrow>
      generates {} t E l r b (arith_effect l b' d op2')"
    "generates {} t E l r b (compare_effect b' op3) \<Longrightarrow> (\<And>V. same_low (V s) (val_of l s) \<Longrightarrow> op3 V = op3' V) \<Longrightarrow>
      generates {} t E l r b (compare_effect b' op3')"
  using assms by (auto elim!: with_const [OF _ assms(1,2)] dest!: same_lowI
      simp: plain_effect_def logic_effect_def arith_effect_def compare_effect_def)

text \<open>A function that has a variant for a constant source, in the four kinds.\<close>

lemma plain_reg:
  assumes "ready t E l" "operand d l" "operand s l" "code2 l d s c (plain_effect d op)" "k \<Longrightarrow> isconst l s"
    "\<And>v. generates {} t E l (g v) (l_flags_carry_inverted l) (plain_effect d (f v))"
    "\<And>V. same_low (V s) (val_of l s) \<Longrightarrow> f v V = op V"
  shows "generates {} t E l (if k then g v else
      do { (dn, sn, l1) \<leftarrow> INIT_REGS E d s l; EXIT_REGS (s = d) dn sn (emit (c dn sn l1) l1) })
    (l_flags_carry_inverted l) (plain_effect d op)"
  using op2 [OF assms(1-4)] const_effect(1) [OF assms(5,3) assms(6,7)] by simp

lemma logic_reg:
  assumes "ready t E l" "operand d l" "operand s l" "code2 l d s c (logic_effect b d op)" "k \<Longrightarrow> isconst l s"
    "\<And>v. generates {} t E l (g v) b (logic_effect b d (f v))"
    "\<And>V. same_low (V s) (val_of l s) \<Longrightarrow> f v V = op V"
  shows "generates {} t E l (if k then g v else
      do { (dn, sn, l1) \<leftarrow> INIT_REGS E d s l; EXIT_REGS (s = d) dn sn (set_carry_inverted b (emit (c dn sn l1) l1)) })
    b (logic_effect b d op)"
  using op2f [OF assms(1-4)] const_effect(2) [OF assms(5,3) assms(6,7)] by simp

lemma arith_reg:
  assumes "ready t E l" "operand d l" "operand s l" "code2 l d s c (result_effect b d op)" "k \<Longrightarrow> isconst l s"
    "\<And>v. generates {} t E l (g v) b (arith_effect l b d (f v))"
    "\<And>V. same_low (V s) (val_of l s) \<Longrightarrow> f v V = op V"
  shows "generates {} t E l (if k then g v else
      do { (dn, sn, l1) \<leftarrow> INIT_REGS E d s l;
        l2 \<leftarrow> DUPLICACTE_CARRY E (set_carry_inverted b (emit (c dn sn l1) l1)); EXIT_REGS (s = d) dn sn l2 })
    b (arith_effect l b d op)"
  using op2a [OF assms(1-4)] const_effect(3) [OF assms(5,3) assms(6,7)] by simp

lemma compare_reg:
  assumes "ready t E l" "operand d l" "operand s l" "rcode2 l d s c (compare_effect b op)" "k \<Longrightarrow> isconst l s"
    "\<And>v. generates {} t E l (g v) b (compare_effect b (f v))"
    "\<And>V. same_low (V s) (val_of l s) \<Longrightarrow> f v V = op V"
  shows "generates {} t E l (if k then g v else
      do { (dn, sn, l1) \<leftarrow> INIT_RREGS E d s l; EXIT_REGS (s = d) dn sn (set_carry_inverted b (emit (c dn sn l1) l1)) })
    b (compare_effect b op)"
  using rop2f [OF assms(1-4)] const_effect(4) [OF assms(5,3) assms(6,7)] by simp

text \<open>A function that computes on a constant destination at translation time.\<close>

lemma plain_imm:
  assumes "ready t E l" "operand d l" "code1 l d c (plain_effect d op)"
    "\<And>V. isconst l d \<Longrightarrow> same_low (V d) (val_of l d) \<Longrightarrow> writes d (op V) V (V(d := v))"
  shows "generates {} t E l (if isconst l d then Some (set_val d v l)
      else do { (n, l1) \<leftarrow> rmw E d l; unlock2 n (emit (c n l1) l1) })
    (l_flags_carry_inverted l) (plain_effect d op)"
proof (rule generates_ifI)
  assume c: "isconst l d"
  show "generates {} t E l (Some (set_val d v l)) (l_flags_carry_inverted l) (plain_effect d op)"
    by (rule const_plain [OF assms(1) c assms(2)]) (rule assms(4) [OF c])
qed (rule op1 [OF assms(1-3)])

text \<open>Comparisons of a constant.\<close>

lemma const_compare:
  assumes r: "ready t E l" and d: "isconst l d" "operand d l" and c: "list_all (confined {}) c" "closed_code c"
    and F: "\<And>s V. same_low (V d) (val_of l d) \<Longrightarrow> ccr_of b (nzcv (exec c s)) = op V"
  shows "generates {} t E l (Some (set_carry_inverted b (emit c l))) b (compare_effect b op)"
proof (rule op0 [OF r c])
  fix s V
  assume "rep {} E l s V"
  from rep_const [OF this d] show "compare_effect b op V (nzcv s) V (nzcv (exec c s))"
    by (simp add: compare_effect_def F same_lowI)
qed

lemma confined_flag_word: "list_all (confined {}) [MOV_xish REG_WORK1 w 16, MSR_NZCV_x REG_WORK1]"
  "closed_code [MOV_xish REG_WORK1 w 16, MSR_NZCV_x REG_WORK1]"
  by (simp_all add: run_simps)

lemma flag_word_compare:
  fixes f :: u32
  assumes "ready t E l" "isconst l d" "operand d l"
    "\<And>V. same_low (V d) (val_of l d) \<Longrightarrow> (bit f 15, bit f 14, bit f 12, bit f 13) = op V"
  shows "generates {} t E l (Some (set_carry_inverted False (emit [MOV_xish REG_WORK1 (ucast f) 16, MSR_NZCV_x REG_WORK1] l)))
    False (compare_effect False op)"
  by (rule const_compare [OF assms(1-3) confined_flag_word]) (simp add: exec_flag_word ccr_of_def assms(4))

lemma flag_word_logic:
  fixes f :: u32
  assumes "ready t E l" "isconst l d" "operand d l"
    "\<And>V. same_low (V d) (val_of l d) \<Longrightarrow> writes d (op V) V (V(d := v)) \<and>
      (bit f 15, bit f 14, bit f 12, bit f 13) = flag_logical (op V)"
  shows "generates {} t E l (Some (set_carry_inverted False
      (emit [MOV_xish REG_WORK1 (ucast f) 16, MSR_NZCV_x REG_WORK1] (set_val d v l)))) False (logic_effect False d op)"
  by (rule const_flags [OF assms(1-3) confined_flag_word])
    (simp add: exec_flag_word ccr_of_def assms(4) logic_effect_def same_lowI)

lemmas flag_word_simps = bit_if bit_or_iff word_sless_alt same_low_def

lemma compare_imm:
  assumes "ready t E l" "operand d l" "rcode1 l d c (compare_effect b op)"
    "list_all (confined {}) c0" "closed_code c0"
    "\<And>s V. same_low (V d) (val_of l d) \<Longrightarrow> ccr_of b (nzcv (exec c0 s)) = op V"
  shows "generates {} t E l (if isconst l d then Some (set_carry_inverted b (emit c0 l))
      else do { (n, l1) \<leftarrow> readreg E d l; unlock2 n (set_carry_inverted b (emit (c n l1) l1)) }) b (compare_effect b op)"
  using rop1f [OF assms(1-3)] const_compare [OF assms(1) _ assms(2,4-6)] by simp

lemma compare_reg_const:
  assumes "ready t E l" "operand d l" "operand s l" "rcode2 l d s c (compare_effect b op)" "k \<Longrightarrow> isconst l s"
    "\<And>v. generates {} t E l (g v) b (compare_effect b (f v))"
    "\<And>V. same_low (V s) (val_of l s) \<Longrightarrow> f v V = op V"
    "rcode1 l s c1 (\<lambda>V f V' f'. same_low (V d) (val_of l d) \<longrightarrow> compare_effect b op V f V' f')"
  shows "generates {} t E l (if k then g v else if isconst l d
      then do { (sn, l1) \<leftarrow> readreg E s l; unlock2 sn (set_carry_inverted b (emit (c1 sn l1) l1)) }
      else do { (dn, sn, l1) \<leftarrow> INIT_RREGS E d s l; EXIT_REGS (s = d) dn sn (set_carry_inverted b (emit (c dn sn l1) l1)) })
    b (compare_effect b op)"
proof (intro generates_ifI)
  assume "isconst l d"
  from with_const [OF rop1f [OF assms(1,3,8)] this assms(2)]
  show "generates {} t E l (do { (sn, l1) \<leftarrow> readreg E s l; unlock2 sn (set_carry_inverted b (emit (c1 sn l1) l1)) })
      b (compare_effect b op)"
    using same_lowI by blast
qed (use rop2f [OF assms(1-4)] const_effect(4) [OF assms(5,3) assms(6,7)] in simp_all)

text \<open>A constant destination that becomes another constant.\<close>

lemma plain_set_const:
  assumes "ready t E l" "operand d l" "isconst l s" "operand s l"
    "\<And>V. same_low (V s) (val_of l s) \<Longrightarrow> writes d (op V) V (V(d := ucast (ucast v :: u32)))"
  shows "generates {} t E l (set_const E d v l) (l_flags_carry_inverted l) (plain_effect d op)"
proof (rule with_const [OF _ assms(3,4)])
  show "generates {} t E l (set_const E d v l) (l_flags_carry_inverted l)
      (\<lambda>V f V' f'. f' = f \<and> V' = V(d := ucast (ucast v :: u32)))"
    using generates_le [OF set_const_ok [OF assms(1)], where t' = t] assms(2) by (simp add: operand_def)
qed (use assms(5) in \<open>simp add: plain_effect_def same_lowI\<close>)

lemma bind_if: "Option.bind (if c then x else y) f = (if c then Option.bind x f else Option.bind y f)"
  by simp

lemma bind_case_prod: "Option.bind (case p of (a, b) \<Rightarrow> f a b) g = (case p of (a, b) \<Rightarrow> Option.bind (f a b) g)"
  by (rule prod.case_distrib)

lemma bind_case_prod3: "Option.bind (case p of (a, b, c) \<Rightarrow> f a b c) g = (case p of (a, b, c) \<Rightarrow> Option.bind (f a b c) g)"
  by (auto split: prod.split)

lemma unlock_emit [simp]:
  "do { l \<leftarrow> unlock2 n l; Some (emit c l) } = unlock2 n (emit c l)"
  by (simp add: unlock2_def upd_nat_def emit_def)

text \<open>Normalises a function whose branches join before its last steps.\<close>

lemmas join_simps = bind_if Option.bind_assoc bind_case_prod3 bind_case_prod Option.bind_lunit unlock2_set
  EXIT_REGS_set unlock_emit emit_emit prod.case append_Cons append_Nil append_assoc

end
