(* ===== verification/Jit_Parts.thy ===== *)
theory Jit_Parts
  imports Jit_Words
begin

unbundle bit_operations_syntax

text \<open>
  Bitwise operations on the byte and word parts of a register, as the logical, move and bit functions
  need them.
\<close>

section \<open>Bitwise arithmetic of the parts of a register\<close>

lemma sext_bitwise [simp]:
  "sext8_32 a AND sext8_32 b = sext8_32 (a AND b)" "sext8_32 a OR sext8_32 b = sext8_32 (a OR b)"
  "sext8_32 a XOR sext8_32 b = sext8_32 (a XOR b)" "NOT (sext8_32 a) = sext8_32 (NOT a)"
  "sext16_32 a AND sext16_32 b = sext16_32 (a AND b)" "sext16_32 a OR sext16_32 b = sext16_32 (a OR b)"
  "sext16_32 a XOR sext16_32 b = sext16_32 (a XOR b)" "NOT (sext16_32 a) = sext16_32 (NOT a)"
  by (simp_all add: sext8_32_def sext16_32_def blast32)

lemma ucast_bitwise [simp]:
  "(ucast (a AND b) :: u8) = ucast a AND ucast b" "(ucast (a OR b) :: u8) = ucast a OR ucast b"
  "(ucast (a XOR b) :: u8) = ucast a XOR ucast b" "(ucast (NOT a) :: u8) = NOT (ucast a)"
  "(ucast (a AND b) :: u16) = ucast a AND ucast b" "(ucast (a OR b) :: u16) = ucast a OR ucast b"
  "(ucast (a XOR b) :: u16) = ucast a XOR ucast b" "(ucast (NOT a) :: u16) = NOT (ucast a)" for a b :: u32
  by (simp_all add: blast8 blast16)

lemma ucast_bitwise64 [simp]:
  "(ucast (x AND y) :: u8) = ucast x AND ucast y" "(ucast (x OR y) :: u8) = ucast x OR ucast y"
  "(ucast (x XOR y) :: u8) = ucast x XOR ucast y" "(ucast (NOT x) :: u8) = NOT (ucast x)"
  "(ucast (x AND y) :: u16) = ucast x AND ucast y" "(ucast (x OR y) :: u16) = ucast x OR ucast y"
  "(ucast (x XOR y) :: u16) = ucast x XOR ucast y" "(ucast (NOT x) :: u16) = NOT (ucast x)"
  "(ucast (x AND y) :: u32) = ucast x AND ucast y" "(ucast (x OR y) :: u32) = ucast x OR ucast y"
  "(ucast (x XOR y) :: u32) = ucast x XOR ucast y" "(ucast (NOT x) :: u32) = NOT (ucast x)" for x y :: u64
  by (simp_all add: blast8 blast16 blast32)

lemma part_masks [simp]:
  "(ucast (mask 8 :: u32) :: u8) = - 1" "(ucast (mask 16 :: u32) :: u16) = - 1"
  "(ucast (take_bit 8 a) :: u8) = ucast a" "(ucast (take_bit 16 a) :: u16) = ucast a"
  "(0xFFFFFF00 :: u8) = 0" "(0xFF :: u8) = - 1" "(0xFFFF :: u8) = - 1" "(0xFFFF0000 :: u8) = 0" "(- 256 :: u8) = 0"
  "(0xFFFF :: u16) = - 1" "(0xFFFF0000 :: u16) = 0" for a :: u32
  by (simp_all add: blast8 blast16)

lemma drop_masks [simp]:
  "drop_bit 8 a AND 0xFFFFFF = drop_bit 8 a" "drop_bit 8 a AND ((b OR 0xFFFFFF) OR 0xFFFF00) = drop_bit 8 a"
  "drop_bit 16 a AND 0xFFFF = drop_bit 16 a" "drop_bit 16 a AND (b OR 0xFFFF) = drop_bit 16 a" for a b :: u32
  by (simp_all add: blast32)

lemma drop_take [simp]:
  "drop_bit 8 (take_bit 8 a) = 0" "drop_bit 16 (take_bit 16 a) = 0"
  "drop_bit 8 a AND drop_bit 8 (NOT (mask 8)) = drop_bit 8 a"
  "drop_bit 16 a AND drop_bit 16 (NOT (mask 16)) = drop_bit 16 a" for a :: u32
  by (simp_all add: blast32)

lemma sext_sign:
  "sint (sext8_32 x) < 0 \<longleftrightarrow> sint (ucast x :: u8) < 0" "sext8_32 x = 0 \<longleftrightarrow> (ucast x :: u8) = 0"
  "sint (sext16_32 x) < 0 \<longleftrightarrow> sint (ucast x :: u16) < 0" "sext16_32 x = 0 \<longleftrightarrow> (ucast x :: u16) = 0"
  using sext_logical [of x] by (simp_all add: flag_logical_def)

lemma imm8_sign [simp]:
  "s AND 0x80 \<noteq> 0 \<Longrightarrow> NOT (ucast (ucast (NOT (ucast s :: u8)) :: u64)) OR 0xFFFFFFFFFFFF0000 = sext8_32 s"
  "s AND 0x80 = 0 \<Longrightarrow> ucast (ucast (ucast s :: u8) :: u64) AND 0xFFFF = sext8_32 s" for s :: u32
  using and_exp_eq_0_iff_not_bit [of s 7] by (simp_all add: sext8_32_def blast32)

lemma sext_narrow [simp]:
  "(ucast (sext8_32 v) :: u16) = scast (ucast v :: u8)"
  for v :: u32
  by (simp add: sext8_32_def blast16)

lemma scast_logical [simp]: "flag_logical (scast (b :: u8) :: u16) = flag_logical b"
  by (simp add: flag_logical_def scast_up)

lemma swap_const:
  fixes x :: u64
  assumes "x < 0x100000000"
  shows "ucast (drop_bit 16 x) OR ucast (push_bit 16 x) = word_rotr 16 (ucast x :: u32)"
proof -
  have "uint (take_bit 32 x) = uint x"
    using assms by (simp add: unsigned_take_bit_eq take_bit_int_eq_self word_less_alt)
  then have "take_bit 32 x = x" by (simp only: word_uint_eq_iff)
  then have "32 \<le> k \<Longrightarrow> bit x k = False" for k by (metis bit_take_bit_iff not_le)
  then show ?thesis by (simp add: u32_eq_iff bit_simps bit_word_rotr_iff)
qed

end
