(* ===== verification/Jit_Copy.thy ===== *)
theory Jit_Copy
  imports Jit_Parts
begin

unbundle bit_operations_syntax

text \<open>
  Copies between virtual registers. \<open>mov_l_rr\<close> emits no move: the destination joins the source
  in its native register, and the two are separated when one of them is written
  (\<open>make_exclusive\<close>). \<open>forget_about\<close> drops a scratch register.
\<close>

section \<open>Definitions\<close>

definition mov_l_ri :: "jenv \<Rightarrow> nat \<Rightarrow> u64 \<Rightarrow> live \<Rightarrow> live option" where
  "mov_l_ri E d s l = set_const E d s l"

definition mov_l_rr :: "jenv \<Rightarrow> nat \<Rightarrow> nat \<Rightarrow> live \<Rightarrow> live option" where
  "mov_l_rr E d s l =
    (if d = s then Some l
     else if isconst l s then mov_l_ri E d (val_of l s) l
     else do {
       l \<leftarrow> disassociate E d l;
       (s, l) \<leftarrow> readreg E s l;
       let l = upd_state d (\<lambda>x. x\<lparr>rs_realreg := Some s, rs_realind := length (holds l s), rs_val := 0\<rparr>) l;
       let l = set_status d DIRTY l;
       let l = upd_nat s (\<lambda>x. x\<lparr>ns_holds := ns_holds x @ [d]\<rparr>) l;
       unlock2 s l })"

definition forget_about :: "jenv \<Rightarrow> nat \<Rightarrow> live \<Rightarrow> live option" where
  "forget_about E r l = do {
     l \<leftarrow> (if isinreg l r then disassociate E r l else Some l);
     Some (set_status r UNDEF (upd_state r (\<lambda>x. x\<lparr>rs_val := 0\<rparr>) l)) }"

section \<open>Joining a native register\<close>

definition alias_reg :: "nat \<Rightarrow> nat \<Rightarrow> live \<Rightarrow> live" where
  "alias_reg d n l = upd_nat n (\<lambda>x. x\<lparr>ns_holds := ns_holds x @ [d]\<rparr>) (set_status d DIRTY
     (upd_state d (\<lambda>x. x\<lparr>rs_realreg := Some n, rs_realind := length (holds l n), rs_val := 0\<rparr>) l))"

lemma alias_simps:
  "status (alias_reg d n l) q = (if q = d then DIRTY else status l q)"
  "rs_realreg (l_state (alias_reg d n l) q) = (if q = d then Some n else rs_realreg (l_state l q))"
  "rs_realind (l_state (alias_reg d n l) q) = (if q = d then length (holds l n) else rs_realind (l_state l q))"
  "rs_needflush (l_state (alias_reg d n l) q) = rs_needflush (l_state l q)"
  "holds (alias_reg d n l) m = (if m = n then holds l m @ [d] else holds l m)"
  "locked (alias_reg d n l) m = locked l m" "ns_touched (l_nat (alias_reg d n l) m) = ns_touched (l_nat l m)"
  "l_touchcnt (alias_reg d n l) = l_touchcnt l" "l_code (alias_reg d n l) = l_code l" "same_rest l (alias_reg d n l)"
  "isinreg (alias_reg d n l) q = (q = d \<or> isinreg l q)" "q \<noteq> d \<Longrightarrow> l_state (alias_reg d n l) q = l_state l q"
  by (auto simp: alias_reg_def set_status_def upd_state_def upd_nat_def same_rest_def isinreg_def)

lemma wf_alias:
  assumes wf: "wf l" and d: "d < VREGS" "\<not> isinreg l d" and n: "n < N_REGS" "n \<notin> work"
  shows "wf (alias_reg d n l)"
proof -
  have old: "holds l m ! i \<noteq> d" if "m < N_REGS" "i < length (holds l m)" for m i
    using wf_holds(2) [OF wf that] d(2) by metis
  have "\<exists>m<N_REGS. rs_realreg (l_state (alias_reg d n l) r) = Some m \<and>
      rs_realind (l_state (alias_reg d n l) r) < length (holds (alias_reg d n l) m) \<and>
      holds (alias_reg d n l) m ! rs_realind (l_state (alias_reg d n l) r) = r" if "r < VREGS" "isinreg (alias_reg d n l) r" for r
  proof (cases "r = d")
    case True
    then show ?thesis using n by (simp add: alias_simps)
  next
    case False
    then have "isinreg l r" using that by (simp add: alias_simps)
    from wf_inreg [OF wf that(1) this] False show ?thesis by (auto simp: alias_simps nth_append)
  qed
  moreover have "holds (alias_reg d n l) m ! i < VREGS \<and> isinreg (alias_reg d n l) (holds (alias_reg d n l) m ! i) \<and>
      rs_realreg (l_state (alias_reg d n l) (holds (alias_reg d n l) m ! i)) = Some m \<and>
      rs_realind (l_state (alias_reg d n l) (holds (alias_reg d n l) m ! i)) = i"
    if m: "m < N_REGS" and i: "i < length (holds (alias_reg d n l) m)" for m i
  proof (cases "i < length (holds l m)")
    case True
    then have "holds (alias_reg d n l) m ! i = holds l m ! i" by (auto simp: alias_simps nth_append)
    then show ?thesis using wf_holds [OF wf m True] old [OF m True] by (simp add: alias_simps)
  next
    case False
    then have "m = n" "i = length (holds l n)" using i by (auto simp: alias_simps split: if_splits)
    then show ?thesis using d by (simp add: alias_simps)
  qed
  ultimately show ?thesis using wf n(2) unfolding wf_def [of "alias_reg d n l"] by (auto simp: alias_simps wf_def)
qed

lemma rep_alias:
  assumes "rep {d} E l m V" "reads s n l" "s < VREGS" "s \<noteq> d" "s \<noteq> PC_P" "d \<noteq> PC_P"
  shows "rep {} E (alias_reg d n l) m (V(d := V s))"
proof -
  have "vrep E l m V s" using assms by (simp add: rep_def)
  then have "agree s (xr m n) (V s)" using assms(2) by (auto simp: vrep_def reads_def isinreg_def)
  then have "vrep E (alias_reg d n l) m (V(d := V s)) d" using assms(5,6) by (simp add: vrep_def alias_simps agree_def)
  moreover have "vrep E (alias_reg d n l) m (V(d := V s)) q" if "q \<noteq> d" "q < VREGS" for q
    using that assms(1) vrep_cong2 [of "alias_reg d n l" q l "V(d := V s)" V E m] by (simp add: alias_simps rep_def)
  ultimately show ?thesis using assms(1) unfolding rep_def by metis
qed

section \<open>Correctness\<close>

definition copy_effect :: "nat \<Rightarrow> nat \<Rightarrow> effect" where
  "copy_effect d s V f V' f' \<longleftrightarrow> f' = f \<and> V' = V(d := V s)"

lemma copy_plain: "copy_effect d s V f V' f' \<Longrightarrow> plain_effect d (\<lambda>V. ucast (V s) :: u32) V f V' f'"
  by (simp add: copy_effect_def plain_effect_def writes_upd)

lemma mov_l_rr_copy:
  assumes r: "ready t E l" and d: "d < VREGS" "d \<noteq> PC_P" and s: "operand s l" "s \<noteq> d" "\<not> isconst l s"
  shows "generates {} t E l (mov_l_rr E d s l) (l_flags_carry_inverted l) (copy_effect d s)"
proof -
  obtain l1 where l1: "disassociate E d l = Some l1" "wf l1" "pres {} {d} E l l1" "same_rest l l1" "frame d l l1"
    "\<not> isinreg l1 d" "\<And>m. locked l1 m = locked l m" "touch_ok (8 + t) l1" "others_kept l l1"
    using disassociated [OF r d(1)] by blast
  have sv: "s < VREGS" "s \<noteq> PC_P" "status l1 s \<noteq> UNDEF"
    using s l1(5) by (auto simp: operand_def frame_def isinreg_def)
  have "avail 4 l1" using ready_avail [OF r] l1(7) by (simp add: avail_def)
  then have av: "avail (Suc 0) l1" by (rule avail_le) simp
  have t: "touch_ok (Suc (Suc t)) l1" using touch_ok_le [OF l1(8)] by simp
  have ok: "env_ok E" using r by (simp add: ready_def)
  from readreg_ok [OF ok l1(2) sv(1,3) t av]
  obtain n l2 where l2: "readreg E s l1 = Some (n, l2)" "wf l2" "acquired s n l1 l2" "touch_ok t l2"
    "\<forall>K X. K \<subseteq> lockset l1 \<longrightarrow> pres K X E l1 l2"
    by (elim exE conjE) (rule that, assumption+)
  have nd: "\<not> isinreg l2 d"
    using l2(3) l1(6) d s(2) by (auto simp: acquired_def frame_def isinreg_def)
  have n: "n < N_REGS" "n \<notin> work" using l2(3) by (simp_all add: acquired_def)
  have "sim {d} E l2 (alias_reg d n l2) (copy_effect d s)"
    using rep_alias [OF _ acquired_reads [OF l2(3)] sv(1) s(2) sv(2) d(2)]
    by (intro sim_state) (auto simp: alias_simps copy_effect_def)
  moreover have "others_kept l2 (alias_reg d n l2)"
    using alias_simps(10) [of l2 d n] by (auto simp: others_kept_def same_rest_def alias_simps)
  moreover have "touch_ok t (alias_reg d n l2)" using l2(4) by (simp add: touch_ok_def alias_simps)
  ultimately have "compiled {d} t E l2 (alias_reg d n l2) (copy_effect d s)"
    using wf_alias [OF l2(2) d(1) nd n] by (simp add: compiled_def alias_simps)
  then have "generates {d} t E l2 (Some (alias_reg d n l2)) (l_flags_carry_inverted l2) (copy_effect d s)"
    using alias_simps(10) [of l2 d n] by (simp add: generates_def same_rest_def)
  moreover have "pres {} {d} E l1 l2" using l2(5) by simp
  ultimately have "generates {d} t E l1 (Some (alias_reg d n l2) \<bind> unlock2 n) (l_flags_carry_inverted l2) (copy_effect d s)"
    using generates_bracket [OF l2(3)] by blast
  then obtain l3 where l3: "unlock2 n (alias_reg d n l2) = Some l3" "compiled {d} t E l1 l3 (copy_effect d s)"
    "l_flags_carry_inverted l3 = l_flags_carry_inverted l2" by (auto simp: generates_def)
  have "sim {} E l l3 (copy_effect d s)"
    using sim_weaken [OF sim_pres [OF l1(3)]] l3(2) by (auto simp: compiled_def)
  then have "compiled {} t E l l3 (copy_effect d s)"
    using l3(2) l1(7) others_kept_trans [OF l1(9)] by (auto simp: compiled_def)
  moreover have "mov_l_rr E d s l = unlock2 n (alias_reg d n l2)"
    using s l1(1) l2(1) by (simp add: mov_l_rr_def alias_reg_def Let_def)
  moreover have "l_flags_carry_inverted l2 = l_flags_carry_inverted l"
    using l1(4) l2(3) by (simp add: acquired_def same_rest_def)
  ultimately show ?thesis using l3 by (simp add: generates_def)
qed

lemma generates_id:
  assumes "ready t E l" "\<And>V f. F V f V f"
  shows "generates {} t E l (Some l) (l_flags_carry_inverted l) F"
proof -
  have "sim {} E l l F" by (rule sim_state) (use assms(2) in auto)
  then show ?thesis using assms(1) ready_touch [OF assms(1)] by (simp add: generates_def compiled_def ready_def)
qed

lemma writes_self: "writes d r V V \<longleftrightarrow> ucast (V d) = r"
  by (auto simp: writes_def)

text \<open>A constant with its flags.\<close>

lemma set_const_flags:
  fixes f :: u32
  assumes r: "ready t E l" and d: "operand d l" and v: "ucast v = w" "(bit f 15, bit f 14, bit f 12, bit f 13) = flag_logical (w :: u32)"
  shows "generates {} t E l (do { l \<leftarrow> set_const E d v l;
      Some (set_carry_inverted False (emit [MOV_xish REG_WORK1 (ucast f) 16, MSR_NZCV_x REG_WORK1] l)) }) False
    (logic_effect False d (\<lambda>V. w))"
proof (rule seq_plain [OF r set_const_ok [OF r]])
  let ?c = "[MOV_xish REG_WORK1 (ucast f) 16, MSR_NZCV_x REG_WORK1]"
  fix l1
  assume "ready t E l1"
  then show "generates {} t E l1 (Some (set_carry_inverted False (emit ?c l1))) False
      (compare_effect False (\<lambda>V. flag_logical w))"
    by (rule op0 [OF _ confined_flag_word]) (simp add: compare_effect_def exec_flag_word ccr_of_def v)
qed (use d v(1) in \<open>simp_all add: operand_def logic_effect_def compare_effect_def writes_upd\<close>)

text \<open>Clearing a part of a register; a scratch register is set to the constant 0.\<close>

lemma clear_reg:
  assumes "ready t E l" "operand d l" "d < 16 \<Longrightarrow> code1 l d c (plain_effect d op)" "\<not> d < 16 \<Longrightarrow> op = (\<lambda>V. 0)"
  shows "generates {} t E l (if d \<ge> 16 then set_const E d 0 l else
      do { (n, l1) \<leftarrow> (if d < 16 then rmw E d l else writereg E d l); unlock2 n (emit (c n l1) l1) })
    (l_flags_carry_inverted l) (plain_effect d op)"
proof (rule generates_ifI)
  assume "16 \<le> d"
  then show "generates {} t E l (set_const E d 0 l) (l_flags_carry_inverted l) (plain_effect d op)"
    using assms(2,4)
    by (intro generates_mono [OF generates_le [OF set_const_ok [OF assms(1)]]])
      (auto simp: operand_def plain_effect_def writes_upd)
qed (use op1 [OF assms(1,2)] assms(3) in simp)

lemma clear_flags:
  assumes r: "ready t E l" and d: "operand d l"
    and M: "\<And>l1. ready t E l1 \<Longrightarrow> operand d l1 \<Longrightarrow>
      generates {} t E l1 (M l1) (l_flags_carry_inverted l1) (plain_effect d (\<lambda>V. 0 :: 'a::len word))"
  shows "generates {} t E l (Some (set_carry_inverted False (emit [MOV_xish REG_WORK1 0x4000 16, MSR_NZCV_x REG_WORK1] l)) \<bind> M)
    False (logic_effect False d (\<lambda>V. 0 :: 'a word))"
proof (rule seq_plain [OF r])
  let ?c = "[MOV_xish REG_WORK1 (ucast (0x4000 :: u32)) 16, MSR_NZCV_x REG_WORK1]"
  have "generates {} (8 + t) E l (Some (set_carry_inverted False (emit ?c l))) False
      (compare_effect False (\<lambda>V. flag_logical (0 :: 'a word)))"
    using r by (intro generates_set_carry [OF generates_emit0 [OF _ _ confined_flag_word]])
      (simp_all only: ready_def compare_effect_def exec_flag_word, simp_all add: ccr_of_def flag_logical_def)
  then show "generates {} (8 + t) E l (Some (set_carry_inverted False
      (emit [MOV_xish REG_WORK1 0x4000 16, MSR_NZCV_x REG_WORK1] l))) False
      (compare_effect False (\<lambda>V. flag_logical (0 :: 'a word)))" by simp
  fix l1
  assume l1: "ready t E l1" "others_kept l l1" "l_flags_carry_inverted l1 = False"
  then have "operand d l1" using d by (auto simp: operand_def others_kept_def)
  then show "generates {} t E l1 (M l1) False (plain_effect d (\<lambda>V. 0 :: 'a word))" using M [OF l1(1)] l1(3) by simp
qed (simp add: compare_effect_def plain_effect_def logic_effect_def)

lemma mov_l_rr_ok:
  assumes "ready t E l" "d < VREGS" "d \<noteq> PC_P" "operand s l"
  shows "generates {} t E l (mov_l_rr E d s l) (l_flags_carry_inverted l) (plain_effect d (\<lambda>V. ucast (V s) :: u32))"
proof -
  consider "d = s" | "d \<noteq> s" "isconst l s" | "d \<noteq> s" "\<not> isconst l s" by blast
  then show ?thesis
  proof cases
    case 1
    then have "mov_l_rr E d s l = Some l" by (simp add: mov_l_rr_def)
    moreover have "generates {} t E l (Some l) (l_flags_carry_inverted l) (plain_effect d (\<lambda>V. ucast (V s) :: u32))"
      by (rule generates_id [OF assms(1)]) (simp add: plain_effect_def writes_self 1)
    ultimately show ?thesis by simp
  next
    case 2
    have "generates {} t E l (mov_l_ri E d (val_of l s) l) (l_flags_carry_inverted l)
        (plain_effect d (\<lambda>V. ucast (V s) :: u32))"
      unfolding mov_l_ri_def
      by (rule with_const [OF generates_le [OF set_const_ok [OF assms(1-3)]] 2(2) assms(4)])
        (simp_all add: plain_effect_def writes_upd)
    then show ?thesis using 2 by (simp add: mov_l_rr_def)
  next
    case 3
    then show ?thesis using mov_l_rr_copy [OF assms(1-4)] copy_plain by (auto elim: generates_mono)
  qed
qed

end
