(* ===== verification/Jit_Flags.thy ===== *)
theory Jit_Flags
  imports Jit_Parts
begin

unbundle bit_operations_syntax

text \<open>
  Where the condition codes live while a block is compiled (compemu_support_arm.cpp, "Flags status
  handling", with \<^verbatim>\<open>raw_flags_to_reg\<close> and \<^verbatim>\<open>raw_reg_to_flags\<close> of codegen_arm64.cpp and the
  functions \<^verbatim>\<open>live_flags\<close>, \<^verbatim>\<open>dont_care_flags\<close>, \<^verbatim>\<open>make_flags_live\<close> and
  \<^verbatim>\<open>save_flags\<close>): in the host's flags, possibly with an inverted carry
  (\<open>l_flags_in_flags\<close>), in \<^verbatim>\<open>regflags.nzcv\<close>, the slot of the virtual register
  \<^verbatim>\<open>FLAGTMP\<close> (\<open>l_flags_on_stack\<close>), or in both. The transfers keep the condition codes.
\<close>

section \<open>Operations\<close>

definition raw_flags_to_reg :: "jenv \<Rightarrow> nat \<Rightarrow> live \<Rightarrow> live" where
  "raw_flags_to_reg E r l =
    (let l = emit [MRS_NZCV_x r] l;
         l = (if l_flags_carry_inverted l
              then set_carry_inverted False (emit [EOR_xxCflag r r, MSR_NZCV_x r] l) else l);
         l = emit (LOAD_U64 REG_WORK3 (e_mem E FLAGTMP) @ [STR_wXi r REG_WORK3 0]) l;
         l = set_status FLAGTMP INMEM l;
         l = upd_state FLAGTMP (\<lambda>x. x\<lparr>rs_realreg := None\<rparr>) l
     in upd_nat r (\<lambda>x. x\<lparr>ns_holds := []\<rparr>) l)"

definition raw_reg_to_flags :: "nat \<Rightarrow> live \<Rightarrow> live" where
  "raw_reg_to_flags r l = emit [MSR_NZCV_x r] l"

definition make_flags_live_internal :: "jenv \<Rightarrow> live \<Rightarrow> live option" where
  "make_flags_live_internal E l =
    (if l_flags_in_flags l = VALID then Some l
     else if l_flags_on_stack l = TRASH then None
     else if l_flags_on_stack l = VALID then do {
       (tmp, l) \<leftarrow> readreg E FLAGTMP l;
       l \<leftarrow> unlock2 tmp (raw_reg_to_flags tmp l);
       Some ((set_carry_inverted False l)\<lparr>l_flags_in_flags := VALID\<rparr>) }
     else None)"

definition flags_to_stack :: "jenv \<Rightarrow> live \<Rightarrow> live option" where
  "flags_to_stack E l =
    (if l_flags_on_stack l = VALID then Some (set_carry_inverted False l)
     else if \<not> l_flags_are_important l then Some (set_carry_inverted False (l\<lparr>l_flags_on_stack := VALID\<rparr>))
     else if l_flags_in_flags l \<noteq> VALID then None
     else do {
       (tmp, l) \<leftarrow> writereg E FLAGTMP l;
       l \<leftarrow> unlock2 tmp (raw_flags_to_reg E tmp l);
       Some (l\<lparr>l_flags_on_stack := VALID\<rparr>) })"

definition clobber_flags :: "jenv \<Rightarrow> live \<Rightarrow> live option" where
  "clobber_flags E l = do {
     l \<leftarrow> (if l_flags_in_flags l = VALID \<and> l_flags_on_stack l \<noteq> VALID then flags_to_stack E l else Some l);
     Some (l\<lparr>l_flags_in_flags := TRASH\<rparr>) }"

definition flush_flags :: "jenv \<Rightarrow> live \<Rightarrow> live option" where
  "flush_flags E l = flags_to_stack E l"

definition live_flags :: "live \<Rightarrow> live" where
  "live_flags l = l\<lparr>l_flags_on_stack := TRASH, l_flags_in_flags := VALID, l_flags_are_important := True\<rparr>"

definition dont_care_flags :: "live \<Rightarrow> live" where
  "dont_care_flags l = l\<lparr>l_flags_are_important := False\<rparr>"

definition make_flags_live :: "jenv \<Rightarrow> live \<Rightarrow> live option" where
  "make_flags_live E l = make_flags_live_internal E l"

definition save_flags :: "jenv \<Rightarrow> live \<Rightarrow> live option" where
  "save_flags E l = do { l \<leftarrow> make_flags_live_internal E l; flush_flags E l }"

section \<open>The flag word\<close>

definition flag_word :: "nzcv_flags \<Rightarrow> u64" where
  "flag_word f = (case f of (n, z, c, v) \<Rightarrow>
     of_bool n * 2 ^ 31 OR of_bool z * 2 ^ 30 OR of_bool c * 2 ^ 29 OR of_bool v * 2 ^ 28)"

definition word_flags :: "u64 \<Rightarrow> nzcv_flags" where
  "word_flags w = (bit w 31, bit w 30, bit w 29, bit w 28)"

definition plain_flags :: "bool \<Rightarrow> nzcv_flags \<Rightarrow> nzcv_flags" where
  "plain_flags i f = (case f of (n, z, c, v) \<Rightarrow> (n, z, c \<noteq> i, v))"

lemma word_flags_of [simp]: "word_flags (flag_word f) = f"
  by (cases f) (auto simp: word_flags_def flag_word_def bit_simps)

lemma word_flags_low: "word_flags w = word_flags w'" if "(ucast w :: u32) = ucast w'"
  using arg_cong [OF that, where f = "\<lambda>x. bit x 31"] arg_cong [OF that, where f = "\<lambda>x. bit x 30"]
    arg_cong [OF that, where f = "\<lambda>x. bit x 29"] arg_cong [OF that, where f = "\<lambda>x. bit x 28"]
  by (simp add: word_flags_def bit_simps)

lemma nzcv_word_eq: "nzcv_word s = flag_word (nzcv s)"
  by (rule bit_word_eqI) (auto simp: nzcv_word_def flag_word_def nzcv_def bit_simps)

lemma flip_carry: "flag_word f XOR 0x20000000 = flag_word (plain_flags True f)"
proof -
  obtain n z c v where f: "f = (n, z, c, v)" by (cases f)
  show ?thesis
    unfolding f flag_word_def plain_flags_def by (cases n; cases z; cases c; cases v; simp)
qed

lemma bit_flag_word [simp]:
  "bit (flag_word f) 31 = (case f of (n, z, c, v) \<Rightarrow> n)" "bit (flag_word f) 30 = (case f of (n, z, c, v) \<Rightarrow> z)"
  "bit (flag_word f) 29 = (case f of (n, z, c, v) \<Rightarrow> c)" "bit (flag_word f) 28 = (case f of (n, z, c, v) \<Rightarrow> v)"
  using word_flags_of [of f] by (cases f; simp add: word_flags_def)+

lemma plain_flags_False [simp]: "plain_flags False f = f"
  by (cases f) (simp add: plain_flags_def)

lemma ccr_plain: "ccr_of i f = ccr_of False (plain_flags i f)"
  by (cases f) (simp add: plain_flags_def ccr_of_def)

definition flags_code :: "jenv \<Rightarrow> bool \<Rightarrow> nat \<Rightarrow> instr list" where
  "flags_code E i r = [MRS_NZCV_x r] @ (if i then [EOR_xxCflag r r, MSR_NZCV_x r] else []) @
     LOAD_U64 REG_WORK3 (e_mem E FLAGTMP) @ [STR_wXi r REG_WORK3 0]"

lemma exec_flags_code:
  assumes "n < N_REGS" "n \<notin> work"
  shows "closed (flags_code E i n)"
    "k \<noteq> n \<Longrightarrow> k \<noteq> 4 \<Longrightarrow> xr (exec (flags_code E i n) s) k = xr s k"
    "nzcv (exec (flags_code E i n) s) = plain_flags i (nzcv s)"
    "amem (exec (flags_code E i n) s) = store_vreg E FLAGTMP (flag_word (plain_flags i (nzcv s))) (amem s)"
proof -
  have n: "n \<noteq> 31" "n \<noteq> 4" using assms by (auto simp: N_REGS_def work_def)
  have P: "FLAGTMP \<noteq> PC_P" by (simp add: jit_consts)
  show "closed (flags_code E i n)"
    by (auto simp: flags_code_def a64_simps intro!: closed_straight)
  show "k \<noteq> n \<Longrightarrow> k \<noteq> 4 \<Longrightarrow> xr (exec (flags_code E i n) s) k = xr s k"
    using n by (simp add: flags_code_def a64_simps REG_WORK3_def xr_wrx)
  show "nzcv (exec (flags_code E i n) s) = plain_flags i (nzcv s)"
    using n by (cases "nzcv s") (auto simp: flags_code_def a64_simps REG_WORK3_def nzcv_word_eq flip_carry plain_flags_def nzcv_def)
  show "amem (exec (flags_code E i n) s) = store_vreg E FLAGTMP (flag_word (plain_flags i (nzcv s))) (amem s)"
    using n P by (simp add: flags_code_def a64_simps REG_WORK3_def xr_wrx store_vreg_def nzcv_word_eq flip_carry rdw_def xr_rdx)
qed

section \<open>The transfers keep the values\<close>

lemma raw_flags_simps [simp]:
  "l_code (raw_flags_to_reg E n l) = l_code l @ flags_code E (l_flags_carry_inverted l) n"
  "l_state (raw_flags_to_reg E n l) =
     (l_state l)(FLAGTMP := (l_state l FLAGTMP)\<lparr>rs_status := INMEM, rs_realreg := None\<rparr>)"
  "l_nat (raw_flags_to_reg E n l) = (l_nat l)(n := (l_nat l n)\<lparr>ns_holds := []\<rparr>)"
  "l_touchcnt (raw_flags_to_reg E n l) = l_touchcnt l" "l_flags_carry_inverted (raw_flags_to_reg E n l) = False"
  "same_rest (l\<lparr>l_flags_carry_inverted := False\<rparr>) (raw_flags_to_reg E n l)"
  by (simp_all add: raw_flags_to_reg_def flags_code_def Let_def emit_def set_carry_inverted_def set_status_def
      upd_state_def upd_nat_def same_rest_def)

lemma wf_raw_flags:
  assumes "wf l" "owned FLAGTMP n l"
  shows "wf (raw_flags_to_reg E n l)"
proof -
  let ?l = "raw_flags_to_reg E n l"
  have o: "holds l n = [FLAGTMP]" "n < N_REGS" "n \<notin> work" using assms(2) by (simp_all add: owned_def)
  have F: "FLAGTMP < VREGS" by (simp add: jit_consts)
  have other: "realreg l r \<noteq> n" if "r < VREGS" "isinreg l r" "r \<noteq> FLAGTMP" for r
    using wf_holds_iff [OF assms(1) o(2) that(1)] o(1) that by auto
  have i: "isinreg ?l r \<longleftrightarrow> r \<noteq> FLAGTMP \<and> isinreg l r" for r by (simp add: isinreg_def)
  have h: "holds ?l m = (if m = n then [] else holds l m)" for m by simp
  have nf: "holds l m ! j \<noteq> FLAGTMP" if "m < N_REGS" "m \<noteq> n" "j < length (holds l m)" for m j
    using wf_holds(3) [OF assms(1) that(1,3)] assms(2) that(2) by (auto simp: owned_def)
  show ?thesis
    unfolding wf_def
  proof (intro conjI allI impI ballI)
    fix r
    assume r: "r < VREGS" "isinreg ?l r"
    then have q: "r \<noteq> FLAGTMP" "isinreg l r" using i by auto
    show "\<exists>m<N_REGS. rs_realreg (l_state ?l r) = Some m \<and> rs_realind (l_state ?l r) < length (holds ?l m) \<and>
        holds ?l m ! rs_realind (l_state ?l r) = r"
      using wf_inreg [OF assms(1) r(1) q(2)] other [OF r(1) q(2,1)] q(1) by (intro exI [of _ "realreg l r"]) simp
  next
    fix m j
    assume m: "m < N_REGS" "j < length (holds ?l m)"
    then have j: "m \<noteq> n" "j < length (holds l m)" by (auto split: if_splits)
    note w = wf_holds [OF assms(1) m(1) j(2)] nf [OF m(1) j]
    show "holds ?l m ! j < VREGS" "isinreg ?l (holds ?l m ! j)" "rs_realreg (l_state ?l (holds ?l m ! j)) = Some m"
      "rs_realind (l_state ?l (holds ?l m ! j)) = j"
      using w j(1) i by simp_all
  next
    fix m
    assume "m \<in> work"
    then show "holds ?l m = []" "0 < locked ?l m" using assms(1) o(3) by (auto simp: wf_def)
  next
    fix r
    assume "r < VREGS"
    then show "rs_needflush (l_state ?l r) \<noteq> NF_HANDLER" using assms(1) F by (auto simp: wf_def)
  qed
qed

definition stack_effect :: "bool \<Rightarrow> effect" where
  "stack_effect i V f V' f' \<longleftrightarrow> f' = plain_flags i f \<and> V' = V(FLAGTMP := flag_word f')"

lemma raw_flags_ok:
  assumes ok: "env_ok E" and wf: "wf l" and o: "owned FLAGTMP n l" and t: "touch_ok t l"
  shows "compiled {FLAGTMP} t E l (raw_flags_to_reg E n l) (stack_effect (l_flags_carry_inverted l))"
proof -
  let ?l = "raw_flags_to_reg E n l" and ?i = "l_flags_carry_inverted l"
  let ?c = "flags_code E ?i n"
  have n: "n < N_REGS" "n \<notin> work" and h: "holds l n = [FLAGTMP]" using o by (simp_all add: owned_def)
  have F: "FLAGTMP < VREGS" "FLAGTMP \<noteq> PC_P" by (simp_all add: jit_consts)
  note x = exec_flags_code [OF n]
  have "sim {FLAGTMP} E l ?l (stack_effect ?i)"
    unfolding sim_def
  proof (intro exI [of _ ?c] conjI allI impI)
    show "l_code ?l = l_code l @ ?c" "closed ?c" using x(1) by simp_all
    fix s V
    assume R: "rep {FLAGTMP} E l s V"
    let ?s = "exec ?c s" and ?w = "flag_word (plain_flags ?i (nzcv s))"
    have keep: "xr ?s k = xr s k" if "k \<noteq> n" "k \<notin> work" for k using x(2) that by (simp add: work_def)
    have slot: "load_slot E q (amem ?s) = load_slot E q (amem s)" if "q < VREGS" "q \<noteq> FLAGTMP" for q
      using load_store_slot(2) [OF ok that(1) F(1) that(2)] x(4) by simp
    have "vrep E ?l ?s (V(FLAGTMP := ?w)) q" if q: "q < VREGS" for q
    proof (cases "q = FLAGTMP")
      case True
      then show ?thesis using load_store_slot(1) [OF ok F(1) F(1)] x(4) by (simp add: vrep_def)
    next
      case False
      then have v: "vrep E l s V q" using R q by (simp add: rep_def)
      moreover have "xr ?s (realreg l q) = xr s (realreg l q)" if "isinreg l q"
        using wf_inreg [OF wf q that] wf_holds_iff [OF wf n(1) q] h False that by (intro keep) auto
      ultimately show ?thesis using slot [OF q False] False by (auto simp: vrep_def isinreg_def split: vstatus.splits)
    qed
    moreover have "outer E s ?s"
      using keep n store_vreg_slots [OF F(1)] x(4) by (auto simp: outer_def work_def N_REGS_def)
    moreover have "xr ?s R_REGSTRUCT = e_regs E"
      using R keep [of R_REGSTRUCT] n by (auto simp: rep_def jit_consts work_def)
    ultimately show "\<exists>V'. rep {} E ?l ?s V' \<and> outer E s ?s \<and> stack_effect ?i V (nzcv s) V' (nzcv ?s)"
      using x(3) by (intro exI [of _ "V(FLAGTMP := ?w)"]) (simp add: rep_def stack_effect_def)
  qed
  moreover have "others_kept l ?l" by (simp add: others_kept_def)
  moreover have "touch_ok t ?l" using t by (simp add: touch_ok_def)
  ultimately show ?thesis using wf_raw_flags [OF wf o] by (simp add: compiled_def)
qed

text \<open>Both transfers end with a change of the flag mode, which no register depends on.\<close>

lemma ready_writereg: "ready t E l \<Longrightarrow> touch_ok (Suc (Suc (Suc t))) l \<and> avail (Suc (Suc 0)) l"
  using touch_ok_le [of "8 + t" l] avail_le [OF ready_avail [of t E l]] by (auto simp: ready_def)

lemma store_flags_ok:
  assumes r: "ready t E l"
  shows "generates {} t E l (do { (n, l1) \<leftarrow> writereg E FLAGTMP l; unlock2 n (raw_flags_to_reg E n l1) }) False
    (stack_effect (l_flags_carry_inverted l))"
proof -
  have F: "FLAGTMP < VREGS" by (simp add: jit_consts)
  have ok: "env_ok E" "wf l" using r by (simp_all add: ready_def)
  have "generates {} t E l (do { (n, l1) \<leftarrow> writereg E FLAGTMP l; l2 \<leftarrow> Some (raw_flags_to_reg E n l1); unlock2 n l2 }) False
    (stack_effect (l_flags_carry_inverted l))"
  proof (rule with_writereg [OF ok F])
    fix n l1
    assume a: "wf l1" "acquired FLAGTMP n l l1" "owned FLAGTMP n l1" "touch_ok t l1"
    have "l_flags_carry_inverted l1 = l_flags_carry_inverted l" using a(2) by (simp add: acquired_def same_rest_def)
    then show "generates {FLAGTMP} t E l1 (Some (raw_flags_to_reg E n l1)) False (stack_effect (l_flags_carry_inverted l))"
      using raw_flags_ok [OF ok(1) a(1,3,4)] by (simp add: generates_def)
  qed (use ready_writereg [OF r] in \<open>auto intro: avail_le\<close>)
  then show ?thesis by simp
qed

definition load_effect :: effect where
  "load_effect V f V' f' \<longleftrightarrow> V' = V \<and> f' = word_flags (V FLAGTMP)"

lemma load_flags_ok:
  assumes r: "ready t E l" and u: "status l FLAGTMP \<noteq> UNDEF"
  shows "generates {} t E l (do { (n, l1) \<leftarrow> readreg E FLAGTMP l; unlock2 n (raw_reg_to_flags n l1) })
    (l_flags_carry_inverted l) load_effect"
proof -
  have "operand FLAGTMP l" using u by (simp add: operand_def jit_consts)
  moreover have "rcode1 l FLAGTMP (\<lambda>n l1. [MSR_NZCV_x n]) load_effect"
    unfolding rcode1_def
  proof (intro allI impI conjI)
    fix n l1 s and V :: vregs
    assume a: "free_nat n" "rdw s n = (ucast (V FLAGTMP) :: u32)"
    have "n \<noteq> 31" using a(1) by auto
    then have "(ucast (xr s n) :: u32) = ucast (V FLAGTMP)" using a(2) by (simp add: rdw_def xr_rdx)
    from word_flags_low [OF this] show "load_effect V (nzcv s) V (nzcv (exec [MSR_NZCV_x n] s))"
      using \<open>n \<noteq> 31\<close> by (simp add: load_effect_def nzcv_def a64_simps word_flags_def xr_rdx)
  qed (simp_all add: run_simps)
  ultimately show ?thesis using rop1 [OF r] by (simp add: raw_reg_to_flags_def)
qed

text \<open>The condition codes (N, Z, V, C) the flag mode stands for.\<close>

definition ccr_rep :: "live \<Rightarrow> vregs \<Rightarrow> nzcv_flags \<Rightarrow> ccr4 \<Rightarrow> bool" where
  "ccr_rep l V f k \<longleftrightarrow> (l_flags_in_flags l = VALID \<or> l_flags_on_stack l = VALID) \<and>
     (l_flags_in_flags l = VALID \<longrightarrow> ccr_of (l_flags_carry_inverted l) f = k) \<and>
     (l_flags_on_stack l = VALID \<longrightarrow> ccr_of False (word_flags (V FLAGTMP)) = k)"

definition tidy_flags :: "live \<Rightarrow> bool" where
  "tidy_flags l \<longleftrightarrow> l_flags_are_important l \<and> (l_flags_in_flags l = VALID \<or> l_flags_on_stack l = VALID) \<and>
     (l_flags_on_stack l = VALID \<longrightarrow> l_flags_in_flags l = VALID \<longrightarrow> \<not> l_flags_carry_inverted l)"

text \<open>
  A step of the flag handling: it returns, keeps every other virtual register and the condition
  codes, and leaves the tables ready for the next function.
\<close>

definition keeps_ccr :: "nat \<Rightarrow> jenv \<Rightarrow> live \<Rightarrow> live option \<Rightarrow> bool" where
  "keeps_ccr t E l r \<longleftrightarrow> (\<exists>l' c. r = Some l' \<and> ready t E l' \<and> tidy_flags l' \<and> l_code l' = l_code l @ c \<and> closed c \<and>
     (\<forall>s V k. rep {} E l s V \<longrightarrow> ccr_rep l V (nzcv s) k \<longrightarrow>
        (\<exists>V'. rep {} E l' (exec c s) V' \<and> outer E s (exec c s) \<and> (\<forall>q. q \<noteq> FLAGTMP \<longrightarrow> V' q = V q) \<and>
          ccr_rep l' V' (nzcv (exec c s)) k)))"

lemma ready_mode [simp]:
  "ready t E (l\<lparr>l_flags_on_stack := a\<rparr>) = ready t E l" "ready t E (l\<lparr>l_flags_in_flags := a\<rparr>) = ready t E l"
  "ready t E (set_carry_inverted b l) = ready t E l" "ready t E (l\<lparr>l_flags_are_important := i\<rparr>) = ready t E l"
  by (simp_all add: ready_def wf_def isinreg_def touch_ok_def set_carry_inverted_def)

lemma code_carry [simp]: "l_code (set_carry_inverted b l) = l_code l"
  by (simp add: set_carry_inverted_def)

lemma rep_mode [simp]:
  "rep X E (l\<lparr>l_flags_on_stack := a\<rparr>) s V = rep X E l s V" "rep X E (l\<lparr>l_flags_in_flags := a\<rparr>) s V = rep X E l s V"
  "rep X E (set_carry_inverted b l) s V = rep X E l s V" "rep X E (l\<lparr>l_flags_are_important := i\<rparr>) s V = rep X E l s V"
  by (rule rep_same_state, simp add: set_carry_inverted_def)+

lemma keeps_ccr_mode:
  assumes "ready t E l" "l_code l' = l_code l" "ready t E l'" "\<And>s V. rep {} E l' s V = rep {} E l s V"
    "\<And>V f k. ccr_rep l V f k \<Longrightarrow> ccr_rep l' V f k" "tidy_flags l'"
  shows "keeps_ccr t E l (Some l')"
  unfolding keeps_ccr_def
proof (intro exI [of _ l'] exI [of _ "[]"] conjI allI impI)
  fix s V k
  assume "rep {} E l s V" "ccr_rep l V (nzcv s) k"
  then show "\<exists>V'. rep {} E l' (exec [] s) V' \<and> outer E s (exec [] s) \<and> (\<forall>q. q \<noteq> FLAGTMP \<longrightarrow> V' q = V q) \<and>
      ccr_rep l' V' (nzcv (exec [] s)) k"
    using assms(4,5) by (intro exI [of _ V]) simp
qed (use assms in simp_all)

lemma keeps_ccr_step:
  assumes "ready (8 + t) E l" "generates {} (8 + t) E l r b F"
    "\<And>l'. r = Some l' \<Longrightarrow> l_flags_carry_inverted l' = b \<Longrightarrow> same_rest (l\<lparr>l_flags_carry_inverted := b\<rparr>) l' \<Longrightarrow> tidy_flags (m l') \<and> l_code (m l') = l_code l' \<and>
      (\<forall>s V. rep {} E (m l') s V = rep {} E l' s V) \<and> (ready t E l' \<longrightarrow> ready t E (m l')) \<and>
      (\<forall>V f V' f' k. F V f V' f' \<longrightarrow> ccr_rep l V f k \<longrightarrow> (\<forall>q. q \<noteq> FLAGTMP \<longrightarrow> V' q = V q) \<and> ccr_rep (m l') V' f' k)"
  shows "keeps_ccr t E l (do { l' \<leftarrow> r; Some (m l') })"
proof -
  obtain l' where l': "r = Some l'" "compiled {} (8 + t) E l l' F" "l_flags_carry_inverted l' = b"
    using assms(2) by (auto simp: generates_def)
  then have "same_rest (l\<lparr>l_flags_carry_inverted := b\<rparr>) l'" by (simp add: compiled_def others_kept_def)
  note m = assms(3) [OF l'(1,3) this]
  have rd: "ready t E l'" using ready_compiled [OF assms(1) l'(2)] .
  obtain c where c: "l_code l' = l_code l @ c" "closed c"
    "\<And>s V. rep {} E l s V \<Longrightarrow> \<exists>V'. rep {} E l' (exec c s) V' \<and> outer E s (exec c s) \<and> F V (nzcv s) V' (nzcv (exec c s))"
    using l'(2) by (auto simp: compiled_def sim_def)
  show ?thesis
    unfolding keeps_ccr_def
    by (intro exI [of _ "m l'"] exI [of _ c] conjI allI impI) (use l'(1) m rd c in \<open>auto, metis c(3)\<close>)
qed

lemma same_mode:
  assumes "same_rest (l\<lparr>l_flags_carry_inverted := b\<rparr>) l'"
  shows "l_flags_on_stack l' = l_flags_on_stack l" "l_flags_in_flags l' = l_flags_in_flags l"
    "l_flags_are_important l' = l_flags_are_important l" "l_flags_carry_inverted l' = b"
  using assms by (simp_all add: same_rest_def)

lemma flags_to_stack_keeps:
  assumes r: "ready (8 + t) E l" and f: "tidy_flags l"
  shows "keeps_ccr t E l (flags_to_stack E l)"
proof (cases "l_flags_on_stack l = VALID")
  case True
  have "ready t E l" using r by (auto simp: ready_def intro: touch_ok_le)
  moreover have "ccr_rep l V f' k \<Longrightarrow> ccr_rep (set_carry_inverted False l) V f' k" for V f' k
    using f True by (simp add: ccr_rep_def tidy_flags_def set_carry_inverted_def)
  moreover have "tidy_flags (set_carry_inverted False l)" using f by (simp add: tidy_flags_def set_carry_inverted_def)
  ultimately show ?thesis using True by (simp add: flags_to_stack_def keeps_ccr_mode)
next
  case False
  with f have m: "l_flags_in_flags l = VALID" "l_flags_are_important l" by (simp_all add: tidy_flags_def)
  have "keeps_ccr t E l (do { l1 \<leftarrow> (do { (n, l1) \<leftarrow> writereg E FLAGTMP l; unlock2 n (raw_flags_to_reg E n l1) });
      Some (l1\<lparr>l_flags_on_stack := VALID\<rparr>) })"
  proof (rule keeps_ccr_step [OF r store_flags_ok [OF r]])
    fix l'
    assume "l_flags_carry_inverted l' = False" "same_rest (l\<lparr>l_flags_carry_inverted := False\<rparr>) l'"
    note s = same_mode [OF this(2)]
    have "ccr_rep (l'\<lparr>l_flags_on_stack := VALID\<rparr>) V' f' k"
      if "stack_effect (l_flags_carry_inverted l) V f V' f'" "ccr_rep l V f k" for V f V' f' k
      using that m(1) False s ccr_plain [of "l_flags_carry_inverted l" f] by (simp add: ccr_rep_def stack_effect_def)
    moreover have "tidy_flags (l'\<lparr>l_flags_on_stack := VALID\<rparr>)" using s m by (simp add: tidy_flags_def)
    ultimately show "tidy_flags (l'\<lparr>l_flags_on_stack := VALID\<rparr>) \<and> l_code (l'\<lparr>l_flags_on_stack := VALID\<rparr>) = l_code l' \<and>
      (\<forall>s V. rep {} E (l'\<lparr>l_flags_on_stack := VALID\<rparr>) s V = rep {} E l' s V) \<and>
      (ready t E l' \<longrightarrow> ready t E (l'\<lparr>l_flags_on_stack := VALID\<rparr>)) \<and>
      (\<forall>V f V' f' k. stack_effect (l_flags_carry_inverted l) V f V' f' \<longrightarrow> ccr_rep l V f k \<longrightarrow>
         (\<forall>q. q \<noteq> FLAGTMP \<longrightarrow> V' q = V q) \<and> ccr_rep (l'\<lparr>l_flags_on_stack := VALID\<rparr>) V' f' k)"
      by (auto simp: stack_effect_def)
  qed
  then show ?thesis using False m by (simp add: flags_to_stack_def case_prod_unfold)
qed

lemma make_flags_live_keeps:
  assumes r: "ready (8 + t) E l" and f: "tidy_flags l" and u: "status l FLAGTMP \<noteq> UNDEF"
  shows "keeps_ccr t E l (make_flags_live_internal E l)"
proof (cases "l_flags_in_flags l = VALID")
  case True
  have "ready t E l" using r by (auto simp: ready_def intro: touch_ok_le)
  then show ?thesis using True f by (simp add: make_flags_live_internal_def keeps_ccr_mode)
next
  case False
  let ?m = "\<lambda>l. (set_carry_inverted False l)\<lparr>l_flags_in_flags := VALID\<rparr>"
  have m: "l_flags_on_stack l = VALID" using f False by (simp add: tidy_flags_def)
  have "keeps_ccr t E l (do { l1 \<leftarrow> (do { (n, l1) \<leftarrow> readreg E FLAGTMP l; unlock2 n (raw_reg_to_flags n l1) }); Some (?m l1) })"
  proof (rule keeps_ccr_step [OF r load_flags_ok [OF r u]])
    fix l'
    assume "same_rest (l\<lparr>l_flags_carry_inverted := l_flags_carry_inverted l\<rparr>) l'"
    note s = same_mode [OF this]
    have "ccr_rep (?m l') V' f' k" if "load_effect V f V' f'" "ccr_rep l V f k" for V f V' f' k
      using that m False s by (simp add: ccr_rep_def load_effect_def set_carry_inverted_def)
    moreover have "tidy_flags (?m l')" using s m f by (simp add: tidy_flags_def set_carry_inverted_def)
    ultimately show "tidy_flags (?m l') \<and> l_code (?m l') = l_code l' \<and> (\<forall>s V. rep {} E (?m l') s V = rep {} E l' s V) \<and>
      (ready t E l' \<longrightarrow> ready t E (?m l')) \<and> (\<forall>V f V' f' k. load_effect V f V' f' \<longrightarrow> ccr_rep l V f k \<longrightarrow>
         (\<forall>q. q \<noteq> FLAGTMP \<longrightarrow> V' q = V q) \<and> ccr_rep (?m l') V' f' k)"
      by (auto simp: load_effect_def)
  qed
  then show ?thesis using False m by (simp add: make_flags_live_internal_def case_prod_unfold)
qed

lemma keeps_ccr_trans:
  assumes "keeps_ccr t' E l r" "\<And>l1. r = Some l1 \<Longrightarrow> ready t' E l1 \<Longrightarrow> tidy_flags l1 \<Longrightarrow> keeps_ccr t E l1 (M l1)"
  shows "keeps_ccr t E l (r \<bind> M)"
proof -
  obtain l1 c1 where l1: "r = Some l1" "ready t' E l1" "tidy_flags l1" "l_code l1 = l_code l @ c1" "closed c1"
    and s1: "\<And>s V k. rep {} E l s V \<Longrightarrow> ccr_rep l V (nzcv s) k \<Longrightarrow>
        \<exists>V'. rep {} E l1 (exec c1 s) V' \<and> outer E s (exec c1 s) \<and> (\<forall>q. q \<noteq> FLAGTMP \<longrightarrow> V' q = V q) \<and>
          ccr_rep l1 V' (nzcv (exec c1 s)) k"
    using assms(1) unfolding keeps_ccr_def by blast
  obtain l2 c2 where l2: "M l1 = Some l2" "ready t E l2" "tidy_flags l2" "l_code l2 = l_code l1 @ c2" "closed c2"
    and s2: "\<And>s V k. rep {} E l1 s V \<Longrightarrow> ccr_rep l1 V (nzcv s) k \<Longrightarrow>
        \<exists>V'. rep {} E l2 (exec c2 s) V' \<and> outer E s (exec c2 s) \<and> (\<forall>q. q \<noteq> FLAGTMP \<longrightarrow> V' q = V q) \<and>
          ccr_rep l2 V' (nzcv (exec c2 s)) k"
    using assms(2) [OF l1(1-3)] unfolding keeps_ccr_def by blast
  show ?thesis
    unfolding keeps_ccr_def
  proof (intro exI [of _ l2] exI [of _ "c1 @ c2"] conjI allI impI)
    fix s V k
    assume "rep {} E l s V" "ccr_rep l V (nzcv s) k"
    from s1 [OF this] obtain V1 where v1: "rep {} E l1 (exec c1 s) V1" "outer E s (exec c1 s)"
      "\<And>q. q \<noteq> FLAGTMP \<Longrightarrow> V1 q = V q" "ccr_rep l1 V1 (nzcv (exec c1 s)) k" by blast
    from s2 [OF v1(1,4)] obtain V' where "rep {} E l2 (exec c2 (exec c1 s)) V'"
      "outer E (exec c1 s) (exec c2 (exec c1 s))" "\<And>q. q \<noteq> FLAGTMP \<Longrightarrow> V' q = V1 q"
      "ccr_rep l2 V' (nzcv (exec c2 (exec c1 s))) k" by blast
    then show "\<exists>V'. rep {} E l2 (exec (c1 @ c2) s) V' \<and> outer E s (exec (c1 @ c2) s) \<and>
        (\<forall>q. q \<noteq> FLAGTMP \<longrightarrow> V' q = V q) \<and> ccr_rep l2 V' (nzcv (exec (c1 @ c2) s)) k"
      using v1(3) outer_trans [OF v1(2)] by (intro exI [of _ V']) (simp add: exec_append [OF l1(5)])
  qed (use l1 l2 in simp_all)
qed

lemma flags_to_stack_valid: "flags_to_stack E l = Some l' \<Longrightarrow> l_flags_on_stack l' = VALID"
  by (auto simp: flags_to_stack_def set_carry_inverted_def split: if_splits bind_splits)

lemma clobber_flags_keeps:
  assumes r: "ready (8 + t) E l" and f: "tidy_flags l"
  shows "keeps_ccr t E l (clobber_flags E l)"
proof -
  have "keeps_ccr t E l (if l_flags_in_flags l = VALID \<and> l_flags_on_stack l \<noteq> VALID then flags_to_stack E l else Some l)"
    (is "keeps_ccr t E l ?r")
  proof (cases "l_flags_in_flags l = VALID \<and> l_flags_on_stack l \<noteq> VALID")
    case True
    then show ?thesis using flags_to_stack_keeps [OF assms] by simp
  next
    case False
    have "ready t E l" using r by (auto simp: ready_def intro: touch_ok_le)
    then show ?thesis using f by (subst if_not_P [OF False]) (simp add: keeps_ccr_mode)
  qed
  then have "keeps_ccr t E l (?r \<bind> (\<lambda>l. Some (l\<lparr>l_flags_in_flags := TRASH\<rparr>)))"
  proof (rule keeps_ccr_trans)
    fix l1
    assume a: "?r = Some l1" "ready t E l1" "tidy_flags l1"
    have on: "l_flags_on_stack l1 = VALID"
      using a(1) f flags_to_stack_valid by (auto simp: tidy_flags_def split: if_splits)
    then have "ccr_rep l1 V f k \<Longrightarrow> ccr_rep (l1\<lparr>l_flags_in_flags := TRASH\<rparr>) V f k" for V f k by (simp add: ccr_rep_def)
    moreover have "tidy_flags (l1\<lparr>l_flags_in_flags := TRASH\<rparr>)" using a(3) on by (simp add: tidy_flags_def)
    ultimately show "keeps_ccr t E l1 (Some (l1\<lparr>l_flags_in_flags := TRASH\<rparr>))"
      using a(2) by (intro keeps_ccr_mode) simp_all
  qed
  then show ?thesis by (simp add: clobber_flags_def)
qed

lemma save_flags_keeps:
  assumes "ready (16 + t) E l" "tidy_flags l" "status l FLAGTMP \<noteq> UNDEF"
  shows "keeps_ccr t E l (save_flags E l)"
  unfolding save_flags_def flush_flags_def
  using make_flags_live_keeps [of "8 + t" E l] assms
  by (intro keeps_ccr_trans [where t' = "8 + t"]) (simp_all add: flags_to_stack_keeps)

end
