(* ===== verification/Jit_Block.thy ===== *)
theory Jit_Block
  imports Jit_Copy Jit_Flags
begin

unbundle bit_operations_syntax

text \<open>
  The frame of a compiled block (compemu_support_arm.cpp): \<^verbatim>\<open>init_comp\<close> puts the allocator in
  the state in which every 68k register is in memory, the generated opcode handlers run, and
  \<^verbatim>\<open>flush\<close> writes everything back. Scratch registers are handed out by
  \<^verbatim>\<open>alloc_scratch\<close>. The floating point half of \<^verbatim>\<open>live\<close> (\<^verbatim>\<open>fate\<close>, \<^verbatim>\<open>fat\<close>) is not
  part of the model: no operation here touches it, so that after \<^verbatim>\<open>init_comp\<close> the two loops of
  \<^verbatim>\<open>flush\<close> over it find nothing to write.
\<close>

section \<open>Operations\<close>

definition init_vreg :: "nat \<Rightarrow> live \<Rightarrow> live" where
  "init_vreg i l = set_status i UNDEF (upd_state i (\<lambda>x. x\<lparr>rs_realreg := None, rs_val := 0\<rparr>) l)"

definition init_nreg :: "nat \<Rightarrow> nat list \<times> live \<Rightarrow> nat list \<times> live" where
  "init_nreg i p = (case p of (au, l) \<Rightarrow>
     let l = upd_nat i (\<lambda>x. x\<lparr>ns_touched := 0, ns_holds := [], ns_locked := 0\<rparr>) l in
     case au of a # as \<Rightarrow> if a = i then (as, upd_nat i (\<lambda>x. x\<lparr>ns_locked := 1\<rparr>) l) else (au, l)
     | [] \<Rightarrow> ([], l))"

definition init_comp :: "jenv \<Rightarrow> live \<Rightarrow> live option" where
  "init_comp E l = do {
     let l = fold init_vreg [0..<VREGS] l;
     let l = fold (\<lambda>i l. l\<lparr>l_scratch_in_use := (l_scratch_in_use l)(i := False)\<rparr>) [0..<SCRATCH_REGS] l;
     let l = fold (\<lambda>i l. if i < 16 then set_status i INMEM l else l) [0..<VREGS] l;
     l \<leftarrow> set_const E PC_P (l_comp_pc_p l) l;
     let l = set_status FLAGX INMEM l;
     let l = set_status FLAGTMP INMEM l;
     let l = set_carry_inverted False l;
     let l = snd (fold init_nreg [0..<N_REGS] (always_used, l));
     Some (l\<lparr>l_touchcnt := 1, l_m68k_pc_offset := 0, l_flags_in_flags := TRASH, l_flags_on_stack := VALID,
       l_flags_are_important := True, l_jit_exception := 0\<rparr>) }"

definition arm_ADD_l_ri :: "jenv \<Rightarrow> nat \<Rightarrow> u64 \<Rightarrow> live \<Rightarrow> live option" where
  "arm_ADD_l_ri E d i l =
    (if i = 0 then Some l
     else if isconst l d then
       if d = PC_P \<or> i > 0xFFFFFFFF \<or> val_of l d > 0xFFFFFFFF then
         let val = (if val_of l d \<le> 0xFFFFFFFF \<and> i > 0xFFFFFFFF then scast (ucast (val_of l d) :: u32) else val_of l d)
         in Some (set_val d (val + i) l)
       else Some (set_val d (ucast (ucast (val_of l d + i) :: u32)) l)
     else do {
       let is_ptr = (d = PC_P \<or> i > 0xFFFFFFFF);
       let is_pcp = (d = PC_P);
       (d, l) \<leftarrow> rmw E d l;
       let l = emit
         (if is_ptr then
            if is_pcp then
              if i \<le> 0xFFF then [ADD_xxi d d i] else LOAD_U64 REG_WORK1 i @ [ADD_xxx d d REG_WORK1]
            else LOAD_U64 REG_WORK1 i @ [ADD_xxwEX d REG_WORK1 d SXTW]
          else let i32 = ucast i :: u32 in
            if i32 \<le> 0xFFF then [ADD_wwi d d (ucast i32)] else LOAD_U32 REG_WORK1 i32 @ [ADD_www d d REG_WORK1]) l;
       unlock2 d l })"

definition sync_m68k_pc :: "jenv \<Rightarrow> live \<Rightarrow> live option" where
  "sync_m68k_pc E l =
    (if l_m68k_pc_offset l \<noteq> 0 then do {
       l \<leftarrow> arm_ADD_l_ri E PC_P (ucast (l_m68k_pc_offset l)) l;
       let l = l\<lparr>l_comp_pc_p := l_comp_pc_p l + ucast (l_m68k_pc_offset l)\<rparr>;
       Some (l\<lparr>l_m68k_pc_offset := 0\<rparr>) }
     else Some l)"

definition flush_reg :: "jenv \<Rightarrow> nat \<Rightarrow> live \<Rightarrow> live option" where
  "flush_reg E i l =
    (case status l i of
       INMEM \<Rightarrow> Some l
     | CLEAN \<Rightarrow> Some (tomem E i l)
     | DIRTY \<Rightarrow> Some (tomem E i l)
     | ISCONST \<Rightarrow> if i \<noteq> PC_P then writeback_const E i l else Some l
     | UNDEF \<Rightarrow> Some l)"

fun flush_regs :: "jenv \<Rightarrow> nat list \<Rightarrow> live \<Rightarrow> live option" where
  "flush_regs E [] l = Some l"
| "flush_regs E (i # is) l = do { l \<leftarrow> flush_reg E i l; flush_regs E is l }"

definition flush :: "jenv \<Rightarrow> bool \<Rightarrow> live \<Rightarrow> live option" where
  "flush E save_regs l = do {
     l \<leftarrow> flush_flags E l;
     l \<leftarrow> sync_m68k_pc E l;
     if save_regs then flush_regs E [0..<Suc FLAGTMP] l else Some l }"

definition alloc_scratch :: "live \<Rightarrow> (nat \<times> live) option" where
  "alloc_scratch l =
    (case find (\<lambda>i. \<not> l_scratch_in_use l i) [0..<SCRATCH_REGS] of
       Some i \<Rightarrow> Some (S1 + i, l\<lparr>l_scratch_in_use := (l_scratch_in_use l)(i := True)\<rparr>)
     | None \<Rightarrow> None)"

definition release_scratch :: "jenv \<Rightarrow> nat \<Rightarrow> live \<Rightarrow> live option" where
  "release_scratch E i l =
    (if l_scratch_in_use l (i - S1) then do {
       l \<leftarrow> forget_about E i l;
       Some (l\<lparr>l_scratch_in_use := (l_scratch_in_use l)(i - S1 := False)\<rparr>) }
     else Some l)"

fun forget_all :: "jenv \<Rightarrow> nat list \<Rightarrow> live \<Rightarrow> live option" where
  "forget_all E [] l = Some l"
| "forget_all E (i # is) l = do { l \<leftarrow> forget_about E i l; forget_all E is l }"

definition freescratch :: "jenv \<Rightarrow> live \<Rightarrow> live option" where
  "freescratch E l = do {
     l \<leftarrow> forget_all E [S1..<VREGS] l;
     Some (fold (\<lambda>i l. l\<lparr>l_scratch_in_use := (l_scratch_in_use l)(i := False)\<rparr>) [0..<SCRATCH_REGS] l) }"

section \<open>The initial state\<close>

lemma fold_init_vreg:
  "l_state (fold init_vreg is l) r = (if r \<in> set is then (l_state l r)\<lparr>rs_realreg := None, rs_val := 0, rs_status := UNDEF\<rparr> else l_state l r)"
  "l_nat (fold init_vreg is l) = l_nat l" "l_comp_pc_p (fold init_vreg is l) = l_comp_pc_p l"
  "l_code (fold init_vreg is l) = l_code l" "l_scratch_in_use (fold init_vreg is l) = l_scratch_in_use l"
  by (induction "is" arbitrary: l) (auto simp: init_vreg_def set_status_def upd_state_def)

lemma fold_scratch:
  "fold (\<lambda>i l. l\<lparr>l_scratch_in_use := (l_scratch_in_use l)(i := False)\<rparr>) is l =
     l\<lparr>l_scratch_in_use := \<lambda>i. i \<notin> set is \<and> l_scratch_in_use l i\<rparr>"
  by (induction "is" arbitrary: l) (auto simp: fun_eq_iff)

lemma fold_inmem:
  "l_state (fold (\<lambda>i l. if i < 16 then set_status i INMEM l else l) is l) r =
     (if r \<in> set is \<and> r < 16 then (l_state l r)\<lparr>rs_status := INMEM\<rparr> else l_state l r)"
  "l_nat (fold (\<lambda>i l. if i < 16 then set_status i INMEM l else l) is l) = l_nat l"
  "l_comp_pc_p (fold (\<lambda>i l. if i < 16 then set_status i INMEM l else l) is l) = l_comp_pc_p l"
  "l_code (fold (\<lambda>i l. if i < 16 then set_status i INMEM l else l) is l) = l_code l"
  "l_scratch_in_use (fold (\<lambda>i l. if i < 16 then set_status i INMEM l else l) is l) = l_scratch_in_use l"
  by (induction "is" arbitrary: l) (auto simp: set_status_def upd_state_def)

definition blank_nreg :: "nat set \<Rightarrow> nat \<Rightarrow> live \<Rightarrow> n_status" where
  "blank_nreg A n l = (l_nat l n)\<lparr>ns_touched := 0, ns_holds := [], ns_locked := of_bool (n \<in> A)\<rparr>"

lemma init_nreg_step:
  "init_nreg i (au, l) = ((if au \<noteq> [] \<and> hd au = i then tl au else au),
     upd_nat i (\<lambda>x. x\<lparr>ns_touched := 0, ns_holds := [], ns_locked := of_bool (au \<noteq> [] \<and> hd au = i)\<rparr>) l)"
  by (cases au) (auto simp: init_nreg_def upd_nat_def)

lemma fold_init_nreg_rest:
  "l_state (snd (fold init_nreg is p)) = l_state (snd p)" "l_code (snd (fold init_nreg is p)) = l_code (snd p)"
  "l_scratch_in_use (snd (fold init_nreg is p)) = l_scratch_in_use (snd p)"
  "l_comp_pc_p (snd (fold init_nreg is p)) = l_comp_pc_p (snd p)"
  "l_flags_carry_inverted (snd (fold init_nreg is p)) = l_flags_carry_inverted (snd p)"
  by (induction "is" arbitrary: p) (auto simp: init_nreg_step upd_nat_def split_paired_all)

lemma fold_init_nreg:
  assumes "sorted_wrt (<) au" "\<forall>a\<in>set au. i \<le> a"
  shows "l_nat (snd (fold init_nreg [i..<i + k] (au, l))) n = (if i \<le> n \<and> n < i + k then blank_nreg (set au) n l else l_nat l n)"
  using assms
proof (induction k arbitrary: i au l)
  case (Suc k)
  let ?a = "if au \<noteq> [] \<and> hd au = i then tl au else au"
  let ?l = "upd_nat i (\<lambda>x. x\<lparr>ns_touched := 0, ns_holds := [], ns_locked := of_bool (au \<noteq> [] \<and> hd au = i)\<rparr>) l"
  have f: "fold init_nreg [i..<i + Suc k] (au, l) = fold init_nreg [Suc i..<Suc i + k] (?a, ?l)"
    by (simp add: upt_conv_Cons init_nreg_step del: upt_Suc)
  have a: "sorted_wrt (<) ?a" "\<forall>x\<in>set ?a. Suc i \<le> x" "i \<in> set au \<longleftrightarrow> au \<noteq> [] \<and> hd au = i"
    "\<And>n. i < n \<Longrightarrow> n \<in> set ?a \<longleftrightarrow> n \<in> set au"
  proof -
    have "sorted_wrt (<) ?a \<and> (\<forall>x\<in>set ?a. Suc i \<le> x) \<and> (i \<in> set au \<longleftrightarrow> au \<noteq> [] \<and> hd au = i) \<and>
        (\<forall>n>i. n \<in> set ?a \<longleftrightarrow> n \<in> set au)"
    proof (cases au)
      case (Cons a as)
      then have p: "i \<le> a" "\<forall>x\<in>set as. a < x" "sorted_wrt (<) as" using Suc.prems by simp_all
      then have "\<forall>x\<in>set as. Suc i \<le> x" by fastforce
      with p Cons show ?thesis by auto
    qed simp
    then show "sorted_wrt (<) ?a" "\<forall>x\<in>set ?a. Suc i \<le> x" "i \<in> set au \<longleftrightarrow> au \<noteq> [] \<and> hd au = i"
      "\<And>n. i < n \<Longrightarrow> n \<in> set ?a \<longleftrightarrow> n \<in> set au" by blast+
  qed
  show ?case
    unfolding f Suc.IH [OF a(1,2)] using a(3,4) by (auto simp: blank_nreg_def upd_nat_def)
qed auto

section \<open>After \<open>init_comp\<close>\<close>

lemma set_const_absent:
  "\<not> isinreg l r \<Longrightarrow> set_const E r v l = Some (set_status r ISCONST
     (upd_state r (\<lambda>x. x\<lparr>rs_val := if r \<noteq> PC_P then ucast (ucast v :: u32) else v\<rparr>) l))"
  by (simp add: set_const_def disassociate_def isclean_def evict_def)

definition init_state :: "u64 \<Rightarrow> nat \<Rightarrow> reg_status \<Rightarrow> reg_status" where
  "init_state pc r x = x\<lparr>rs_realreg := None, rs_val := (if r = PC_P then pc else 0),
     rs_status := (if r = PC_P then ISCONST else if r < S1 then INMEM else UNDEF)\<rparr>"

lemma init_comp_state:
  obtains l' where "init_comp E l = Some l'" "\<And>r. r < VREGS \<Longrightarrow> l_state l' r = init_state (l_comp_pc_p l) r (l_state l r)"
    "\<And>n. n < N_REGS \<Longrightarrow> l_nat l' n = blank_nreg work n l" "l_code l' = l_code l" "l_touchcnt l' = 1"
    "l_m68k_pc_offset l' = 0" "l_flags_in_flags l' = TRASH" "l_flags_on_stack l' = VALID" "l_flags_are_important l'"
    "\<not> l_flags_carry_inverted l'" "\<And>i. i < SCRATCH_REGS \<Longrightarrow> \<not> l_scratch_in_use l' i" "l_comp_pc_p l' = l_comp_pc_p l"
proof -
  define l1 where "l1 = fold (\<lambda>i l. if i < 16 then set_status i INMEM l else l) [0..<VREGS]
    (fold (\<lambda>i l. l\<lparr>l_scratch_in_use := (l_scratch_in_use l)(i := False)\<rparr>) [0..<SCRATCH_REGS] (fold init_vreg [0..<VREGS] l))"
  have l1: "l_state l1 r = (if r < VREGS then (l_state l r)\<lparr>rs_realreg := None, rs_val := 0,
      rs_status := if r < 16 then INMEM else UNDEF\<rparr> else l_state l r)"
    "l_nat l1 = l_nat l" "l_comp_pc_p l1 = l_comp_pc_p l" "l_code l1 = l_code l" "i < SCRATCH_REGS \<Longrightarrow> \<not> l_scratch_in_use l1 i" for r i
    by (auto simp: l1_def fold_scratch fold_inmem fold_init_vreg VREGS_def)
  have "\<not> isinreg l1 PC_P" by (simp add: isinreg_def l1 jit_consts)
  note c = set_const_absent [OF this, of E "l_comp_pc_p l1"]
  let ?l2 = "set_carry_inverted False (set_status FLAGTMP INMEM (set_status FLAGX INMEM
    (set_status PC_P ISCONST (upd_state PC_P (\<lambda>x. x\<lparr>rs_val := l_comp_pc_p l1\<rparr>) l1))))"
  let ?l3 = "snd (fold init_nreg [0..<N_REGS] (always_used, ?l2))"
  have A: "sorted_wrt (<) always_used" "\<forall>a\<in>set always_used. 0 \<le> a" by (simp_all add: always_used_def jit_consts)
  have W: "n < N_REGS \<Longrightarrow> n \<in> set always_used \<longleftrightarrow> n \<in> work" for n by (auto simp: always_used_def jit_consts work_def)
  show thesis
  proof (rule that)
    show "init_comp E l = Some (?l3\<lparr>l_touchcnt := 1, l_m68k_pc_offset := 0, l_flags_in_flags := TRASH,
        l_flags_on_stack := VALID, l_flags_are_important := True, l_jit_exception := 0\<rparr>)"
      unfolding init_comp_def Let_def l1_def [symmetric] c by simp
    show "l_state (?l3\<lparr>l_touchcnt := 1, l_m68k_pc_offset := 0, l_flags_in_flags := TRASH,
        l_flags_on_stack := VALID, l_flags_are_important := True, l_jit_exception := 0\<rparr>) r =
        init_state (l_comp_pc_p l) r (l_state l r)" if "r < VREGS" for r
      using that by (auto simp: fold_init_nreg_rest l1 init_state_def jit_consts set_carry_inverted_def)
    show "l_nat (?l3\<lparr>l_touchcnt := 1, l_m68k_pc_offset := 0, l_flags_in_flags := TRASH,
        l_flags_on_stack := VALID, l_flags_are_important := True, l_jit_exception := 0\<rparr>) n = blank_nreg work n l"
      if "n < N_REGS" for n
      using that fold_init_nreg [OF A, of N_REGS ?l2 n] W [OF that]
      by (simp add: blank_nreg_def l1 set_carry_inverted_def)
  qed (simp_all add: fold_init_nreg_rest l1 set_carry_inverted_def set_status_def upd_state_def)
qed

lemma init_comp_ready:
  assumes "env_ok E" "\<And>r. r < VREGS \<Longrightarrow> rs_needflush (l_state l r) \<noteq> NF_HANDLER" "init_comp E l = Some l'" "t < 1999999990"
  shows "ready t E l'" "tidy_flags l'" "r < S1 \<Longrightarrow> r \<noteq> PC_P \<Longrightarrow> operand r l'"
    "status l' PC_P = ISCONST" "val_of l' PC_P = l_comp_pc_p l"
proof -
  obtain l1 where l1: "init_comp E l = Some l1" "\<And>r. r < VREGS \<Longrightarrow> l_state l1 r = init_state (l_comp_pc_p l) r (l_state l r)"
    "\<And>n. n < N_REGS \<Longrightarrow> l_nat l1 n = blank_nreg work n l" "l_touchcnt l1 = 1" "l_flags_in_flags l1 = TRASH"
    "l_flags_on_stack l1 = VALID" "l_flags_are_important l1"
    using init_comp_state [of E l] by metis
  then have e: "l' = l1" using assms(3) by simp
  have "\<not> isinreg l1 r" if "r < VREGS" for r using l1(2) [OF that] by (simp add: isinreg_def init_state_def)
  then have "wf l1"
    using l1(2,3) assms(2) work_native by (auto simp: wf_def blank_nreg_def init_state_def)
  moreover have "touch_ok (8 + t) l1" using l1(3,4) assms(4) by (simp add: touch_ok_def blank_nreg_def)
  moreover have "locked l1 n = 0" if "n < N_REGS" "n \<notin> work" for n using l1(3) that by (simp add: blank_nreg_def)
  ultimately show "ready t E l'" using assms(1) e by (simp add: ready_def)
  show "tidy_flags l'" using l1 e by (simp add: tidy_flags_def)
  show "r < S1 \<Longrightarrow> r \<noteq> PC_P \<Longrightarrow> operand r l'" using l1(2) [of r] e by (simp add: operand_def init_state_def jit_consts)
  have "PC_P < VREGS" by (simp add: jit_consts)
  from l1(2) [OF this] e show "status l' PC_P = ISCONST" "val_of l' PC_P = l_comp_pc_p l" by (simp_all add: init_state_def)
qed

text \<open>The values a machine that enters a block holds: the register file in memory, and the program counter.\<close>

definition entry_values :: "jenv \<Rightarrow> u64 \<Rightarrow> a64 \<Rightarrow> vregs" where
  "entry_values E pc s r = (if r = PC_P then pc else load_slot E r (amem s))"

lemma init_comp_rep:
  assumes "init_comp E l = Some l'" "xr s R_REGSTRUCT = e_regs E"
  shows "rep {} E l' s (entry_values E (l_comp_pc_p l) s)"
    "ccr_rep l' (entry_values E (l_comp_pc_p l) s) f (ccr_of False (word_flags (load_slot E FLAGTMP (amem s))))"
proof -
  obtain l1 where l1: "init_comp E l = Some l1" "\<And>r. r < VREGS \<Longrightarrow> l_state l1 r = init_state (l_comp_pc_p l) r (l_state l r)"
    "l_flags_in_flags l1 = TRASH" "l_flags_on_stack l1 = VALID"
    using init_comp_state [of E l] by metis
  then have e: "l' = l1" using assms(1) by simp
  show "rep {} E l' s (entry_values E (l_comp_pc_p l) s)"
    using l1(2) e assms(2) by (auto simp: rep_def vrep_def init_state_def entry_values_def)
  show "ccr_rep l' (entry_values E (l_comp_pc_p l) s) f (ccr_of False (word_flags (load_slot E FLAGTMP (amem s))))"
    using l1(3,4) e by (simp add: ccr_rep_def entry_values_def jit_consts)
qed

section \<open>The program counter\<close>

definition add_pc :: "u64 \<Rightarrow> effect" where
  "add_pc i V f V' f' \<longleftrightarrow> f' = f \<and> V' = V(PC_P := V PC_P + i)"

lemma rep_reads_pc:
  assumes "rep X E l s V" "reads PC_P n l" "PC_P \<notin> X"
  shows "xr s n = V PC_P"
proof -
  have "vrep E l s V PC_P" using assms by (simp add: rep_def jit_consts)
  then show ?thesis using assms(2) by (auto simp: vrep_def reads_def isinreg_def agree_def)
qed

lemma imm12: assumes "i \<le> 4095" shows "i AND 4095 = (i :: u64)"
proof -
  have "i AND 4095 = take_bit 12 i" by (simp add: take_bit_eq_mask mask_eq_exp_minus_1)
  also have "\<dots> = i" using assms by (simp add: take_bit_eq_mod word_unat_eq_iff word_le_nat_alt unat_mod_distrib)
  finally show ?thesis .
qed

lemma arm_ADD_pc_ok:
  assumes r: "ready t E l" and u: "status l PC_P \<noteq> UNDEF" and i: "i \<le> 0xFFFFFFFF"
  shows "generates {} t E l (arm_ADD_l_ri E PC_P i l) (l_flags_carry_inverted l) (add_pc i)"
proof -
  have P: "PC_P < VREGS" by (simp add: jit_consts)
  have ok: "env_ok E" "wf l" "touch_ok (Suc (Suc (Suc t))) l" "avail (Suc (Suc 0)) l"
    using r ready_writereg [OF r] by (simp_all add: ready_def)
  consider "i = 0" | "i \<noteq> 0" "isconst l PC_P" | "i \<noteq> 0" "\<not> isconst l PC_P" by blast
  then show ?thesis
  proof cases
    case 1
    then show ?thesis using generates_id [OF r] by (auto simp: arm_ADD_l_ri_def add_pc_def elim!: generates_mono)
  next
    case 2
    have "sim {} E l (set_val PC_P (val_of l PC_P + i) l) (add_pc i)"
    proof (rule sim_state)
      fix s V
      assume R: "rep {} E l s V"
      then have "val_of l PC_P = V PC_P" using 2(2) P by (auto simp: rep_def vrep_def isconst_def agree_def)
      with rep_set_val [OF R 2(2), of "val_of l PC_P + i"]
      show "\<exists>V'. rep {} E (set_val PC_P (val_of l PC_P + i) l) s V' \<and> (\<forall>f. add_pc i V f V' f)"
        by (auto simp: add_pc_def)
    qed simp
    moreover have "others_kept l (set_val PC_P (val_of l PC_P + i) l)"
      by (simp add: others_kept_def same_rest_def set_val_def upd_state_def)
    moreover have "wf (set_val PC_P (val_of l PC_P + i) l)" using ok(2) wf_set_val by blast
    moreover have "touch_ok t (set_val PC_P (val_of l PC_P + i) l)"
      using ready_touch [OF r] by (simp add: touch_ok_def set_val_def upd_state_def)
    ultimately have "generates {} t E l (Some (set_val PC_P (val_of l PC_P + i) l)) (l_flags_carry_inverted l) (add_pc i)"
      by (simp add: generates_def compiled_def set_val_def upd_state_def)
    then show ?thesis using 2 i by (simp add: arm_ADD_l_ri_def not_less [symmetric])
  next
    case 3
    let ?c = "\<lambda>n. if i \<le> 0xFFF then [ADD_xxi n n i] else LOAD_U64 REG_WORK1 i @ [ADD_xxx n n REG_WORK1]"
    have "generates {} t E l (do { (n, l1) \<leftarrow> rmw E PC_P l; l2 \<leftarrow> Some (emit (?c n) l1); unlock2 n l2 })
        (l_flags_carry_inverted l) (add_pc i)"
    proof (rule with_rmw [OF ok(1,2) P u ok(3,4)])
      fix n l1
      assume a: "wf l1" "acquired PC_P n l l1" "owned PC_P n l1" "touch_ok t l1"
      have n: "n \<noteq> 31" "n \<noteq> 2" using a(3) by (auto simp: owned_def N_REGS_def work_def)
      have "compiled {} t E l1 (emit (?c n) l1) (add_pc i)"
      proof (rule compiled_emit1 [OF a(1) P a(3) _ _ a(4)])
        fix s V
        assume "rep {} E l1 s V"
        from rep_reads_pc [OF this owned_reads [OF a(3)]] n
        show "add_pc i V (nzcv s) (V(PC_P := xr (exec (?c n) s) n)) (nzcv (exec (?c n) s))"
          by (auto simp: add_pc_def a64_simps REG_WORK1_def xr_rdx xr_wrx imm12)
      qed (use n in \<open>auto simp: run_simps LOAD_U64_def\<close>)
      then show "generates {} t E l1 (Some (emit (?c n) l1)) (l_flags_carry_inverted l) (add_pc i)"
        using a(2) by (simp add: generates_def acquired_def same_rest_def)
    qed
    then show ?thesis using 3 by (simp add: arm_ADD_l_ri_def)
  qed
qed

lemma sync_m68k_pc_ok:
  assumes r: "ready (8 + t) E l" and u: "status l PC_P \<noteq> UNDEF"
  obtains l' c where "sync_m68k_pc E l = Some l'" "ready t E l'" "l_code l' = l_code l @ c" "closed c"
    "l_m68k_pc_offset l' = 0" "l_comp_pc_p l' = l_comp_pc_p l + ucast (l_m68k_pc_offset l)"
    "l_flags_on_stack l' = l_flags_on_stack l" "\<And>q. q < VREGS \<Longrightarrow> status l q \<noteq> UNDEF \<Longrightarrow> status l' q \<noteq> UNDEF"
    "\<And>s V. rep {} E l s V \<Longrightarrow> rep {} E l' (exec c s) (V(PC_P := V PC_P + ucast (l_m68k_pc_offset l))) \<and>
       outer E s (exec c s) \<and> nzcv (exec c s) = nzcv s"
proof (cases "l_m68k_pc_offset l = 0")
  case True
  have "ready t E l" using r by (auto simp: ready_def intro: touch_ok_le)
  with True show thesis by (intro that [of l "[]"]) (simp_all add: sync_m68k_pc_def)
next
  case False
  let ?i = "ucast (l_m68k_pc_offset l) :: u64"
  have "?i \<le> 0xFFFFFFFF" using unsigned_less [of "l_m68k_pc_offset l", where ?'a = nat] by (simp add: word_le_nat_alt unsigned_ucast_eq take_bit_nat_eq_self)
  from arm_ADD_pc_ok [OF r u this]
  obtain l1 where l1: "arm_ADD_l_ri E PC_P ?i l = Some l1" "compiled {} (8 + t) E l l1 (add_pc ?i)"
    by (auto simp: generates_def)
  obtain c where c: "l_code l1 = l_code l @ c" "closed c" "\<And>s V. rep {} E l s V \<Longrightarrow>
      \<exists>V'. rep {} E l1 (exec c s) V' \<and> outer E s (exec c s) \<and> add_pc ?i V (nzcv s) V' (nzcv (exec c s))"
    using l1(2) by (auto simp: compiled_def sim_def)
  have o: "l_flags_on_stack l1 = l_flags_on_stack l" "l_comp_pc_p l1 = l_comp_pc_p l" "l_m68k_pc_offset l1 = l_m68k_pc_offset l"
    "\<And>q. q < VREGS \<Longrightarrow> status l q \<noteq> UNDEF \<Longrightarrow> status l1 q \<noteq> UNDEF"
    using l1(2) by (auto simp: compiled_def others_kept_def same_rest_def)
  let ?l = "l1\<lparr>l_comp_pc_p := l_comp_pc_p l1 + ?i, l_m68k_pc_offset := 0\<rparr>"
  have rd: "ready t E ?l" using ready_compiled [OF r l1(2)] by (simp add: ready_def wf_def isinreg_def touch_ok_def)
  have "rep {} E ?l s V = rep {} E l1 s V" for s V by (rule rep_same_state) simp
  with c(3) rd o c(1,2) show thesis
    using False l1(1) by (intro that [of ?l c]) (fastforce simp: sync_m68k_pc_def add_pc_def)+
qed

section \<open>Writing everything back\<close>

lemma writeback_const_ok:
  assumes ok: "env_ok E" and wf: "wf l" and r: "r < VREGS" "r \<noteq> PC_P" and c: "isconst l r"
  shows "\<exists>l'. writeback_const E r l = Some l' \<and> wf l' \<and> pres {} {} E l l' \<and> status l' r = INMEM \<and>
    (\<forall>q. q \<noteq> r \<longrightarrow> l_state l' q = l_state l q)"
proof -
  let ?c = "compemu_raw_mov_l_mi E (e_mem E r) (val_of l r)"
  let ?l = "set_status r INMEM (upd_state r (\<lambda>x. x\<lparr>rs_val := 0\<rparr>) (emit ?c l))"
  have st: "status l r = ISCONST" using c by (simp add: isconst_def)
  have w: "writeback_const E r l = Some ?l" using wf r c by (simp add: writeback_const_def wf_def)
  have "wf ?l" by (rule wf_cong [OF _ _ _ _ _ _ wf]) (use st in \<open>auto simp: isinreg_def upd_state_def emit_def set_status_def\<close>)
  moreover have "pres {} {} E l ?l"
    unfolding pres_def
  proof (intro exI [of _ ?c] conjI allI impI)
    show "closed ?c" by (auto simp: compemu_raw_mov_l_mi_def Let_def a64_simps intro!: closed_straight)
    fix s V
    assume R: "rep {} E l s V"
    note x = exec_mov_l_mi [OF ok r(1) rep_28 [OF R] r(2), where v = "val_of l r"]
    have "agree r (val_of l r) (V r)" using R r(1) st by (auto simp: rep_def vrep_def)
    then have a: "agree r (load_slot E r (amem (exec ?c s))) (V r)"
      unfolding x(2) using load_store_slot(1) [OF ok r(1) r(1)] agree_trans by blast
    show "rep {} E ?l (exec ?c s) V"
      by (rule rep_stored [OF ok wf r(1) R x(1)])
        (use st a in \<open>auto simp: x(2) load_store_slot(2) [OF ok _ r(1)]\<close>)
    show "quiet E s (exec ?c s)"
      using x(1) by (rule keeps_quiet) (auto simp: x(2) store_vreg_slots [OF r(1)] dest: work_native)
  qed simp_all
  ultimately show ?thesis using w by auto
qed

definition flushed :: "nat \<Rightarrow> live \<Rightarrow> bool" where
  "flushed r l \<longleftrightarrow> status l r = INMEM \<or> status l r = CLEAN \<or> status l r = UNDEF \<or> (r = PC_P \<and> status l r = ISCONST)"

lemma flush_reg_ok:
  assumes ok: "env_ok E" and wf: "wf l" and r: "r < VREGS"
  shows "\<exists>l'. flush_reg E r l = Some l' \<and> wf l' \<and> pres {} {} E l l' \<and> flushed r l' \<and>
    (status l r \<noteq> UNDEF \<longrightarrow> status l' r \<noteq> UNDEF) \<and> (\<forall>q. q \<noteq> r \<longrightarrow> l_state l' q = l_state l q)"
proof (cases "status l r = ISCONST \<and> r \<noteq> PC_P")
  case True
  with writeback_const_ok [OF ok wf r] show ?thesis by (auto simp: flush_reg_def flushed_def isconst_def)
next
  case False
  then consider "status l r = CLEAN \<or> status l r = DIRTY" | "status l r = INMEM" | "status l r = UNDEF" | "status l r = ISCONST" "r = PC_P"
    by (cases "status l r") auto
  then show ?thesis
  proof cases
    case 1
    then have "flush_reg E r l = Some (tomem E r l)" by (auto simp: flush_reg_def)
    moreover have "flushed r (tomem E r l)" "status (tomem E r l) r \<noteq> UNDEF" using 1 by (auto simp: flushed_def tomem_state)
    ultimately show ?thesis using tomem_pres [OF ok wf r, of "{}"] wf_tomem [OF wf] by (auto simp: tomem_state)
  qed (use wf in \<open>simp_all add: flush_reg_def flushed_def\<close>)
qed

lemma flush_regs_ok:
  assumes ok: "env_ok E" and wf: "wf l" and r: "\<And>r. r \<in> set rs \<Longrightarrow> r < VREGS" and d: "distinct rs"
  shows "\<exists>l'. flush_regs E rs l = Some l' \<and> wf l' \<and> pres {} {} E l l' \<and> (\<forall>r\<in>set rs. flushed r l') \<and>
    (\<forall>q. status l q \<noteq> UNDEF \<longrightarrow> status l' q \<noteq> UNDEF) \<and> (\<forall>q. q \<notin> set rs \<longrightarrow> l_state l' q = l_state l q)"
  using wf r d
proof (induction rs arbitrary: l)
  case Nil
  then show ?case by simp
next
  case (Cons i rs)
  from flush_reg_ok [OF ok Cons.prems(1), of i] Cons.prems(2)
  obtain l1 where l1: "flush_reg E i l = Some l1" "wf l1" "pres {} {} E l l1" "flushed i l1"
    "status l i \<noteq> UNDEF \<longrightarrow> status l1 i \<noteq> UNDEF" "\<forall>q. q \<noteq> i \<longrightarrow> l_state l1 q = l_state l q" by auto
  from Cons.IH [OF l1(2)] Cons.prems(2,3)
  obtain l2 where l2: "flush_regs E rs l1 = Some l2" "wf l2" "pres {} {} E l1 l2" "\<forall>r\<in>set rs. flushed r l2"
    "\<forall>q. status l1 q \<noteq> UNDEF \<longrightarrow> status l2 q \<noteq> UNDEF" "\<forall>q. q \<notin> set rs \<longrightarrow> l_state l2 q = l_state l1 q" by auto
  have "flushed i l2" using l1(4) l2(6) Cons.prems(3) by (simp add: flushed_def)
  moreover have "status l2 q \<noteq> UNDEF" if "status l q \<noteq> UNDEF" for q
    using that l1(5,6) l2(5) by (cases "q = i") auto
  ultimately show ?case
    using l1(1,6) l2 pres_trans [OF l1(3) l2(3)] by auto
qed

lemma flushed_slot:
  assumes "rep {} E l s V" "flushed r l" "r < VREGS" "status l r \<noteq> UNDEF" "r \<noteq> PC_P"
  shows "load_slot E r (amem s) = ucast (ucast (V r) :: u32)"
proof -
  have "agree r (load_slot E r (amem s)) (V r)"
    using assms by (auto simp: rep_def flushed_def vrep_def split: vstatus.splits)
  then have "load_le32 (amem s) (e_mem E r) = ucast (V r)" using assms(5) by (simp add: agree_def load_slot_def)
  then show ?thesis using assms(5) by (simp add: load_slot_def)
qed

text \<open>
  After \<^verbatim>\<open>flush (1)\<close> the register file in memory holds the values of the 68k registers and of
  X, \<^verbatim>\<open>regflags.nzcv\<close> the condition codes, and nothing else of the guest's memory has changed.
\<close>

definition written_back :: "jenv \<Rightarrow> live \<Rightarrow> a64 \<Rightarrow> a64 \<Rightarrow> vregs \<Rightarrow> ccr4 \<Rightarrow> bool" where
  "written_back E l s s' V k \<longleftrightarrow>
     (\<forall>r<FLAGTMP. r \<noteq> PC_P \<longrightarrow> status l r \<noteq> UNDEF \<longrightarrow> load_slot E r (amem s') = ucast (ucast (V r) :: u32)) \<and>
     ccr_of False (word_flags (load_slot E FLAGTMP (amem s'))) = k \<and> outer E s s'"

lemma flags_to_stack_defined:
  assumes r: "ready (8 + t) E l" and f: "tidy_flags l" and l': "flags_to_stack E l = Some l'" and q: "q < VREGS" "status l q \<noteq> UNDEF"
  shows "status l' q \<noteq> UNDEF"
proof (cases "l_flags_on_stack l = VALID")
  case True
  then show ?thesis using l' q by (auto simp: flags_to_stack_def set_carry_inverted_def)
next
  case False
  with f have m: "l_flags_in_flags l = VALID" "l_flags_are_important l" by (simp_all add: tidy_flags_def)
  obtain l1 where l1: "do { (n, l1) \<leftarrow> writereg E FLAGTMP l; unlock2 n (raw_flags_to_reg E n l1) } = Some l1" "others_kept l l1"
    using store_flags_ok [OF r] by (auto simp: generates_def compiled_def)
  then have "l' = l1\<lparr>l_flags_on_stack := VALID\<rparr>" using l' False m by (auto simp: flags_to_stack_def case_prod_unfold split: bind_splits)
  then show ?thesis using l1(2) q by (simp add: others_kept_def)
qed

lemma flush_ok:
  assumes r: "ready (16 + t) E l" and f: "tidy_flags l" and u: "status l PC_P \<noteq> UNDEF" "status l FLAGTMP \<noteq> UNDEF"
  obtains l' c where "flush E True l = Some l'" "l_code l' = l_code l @ c" "closed c"
    "\<And>s V k. rep {} E l s V \<Longrightarrow> ccr_rep l V (nzcv s) k \<Longrightarrow> written_back E l s (exec c s) V k"
proof -
  have ok: "env_ok E" and r8: "ready (8 + (8 + t)) E l" using r by (simp_all add: ready_def)
  have P: "PC_P < VREGS" "FLAGTMP < VREGS" "PC_P \<noteq> FLAGTMP" by (simp_all add: jit_consts)
  from flags_to_stack_keeps [OF r8 f]
  obtain l1 c1 where l1: "flags_to_stack E l = Some l1" "ready (8 + t) E l1" "l_code l1 = l_code l @ c1" "closed c1"
    and s1: "\<And>s V k. rep {} E l s V \<Longrightarrow> ccr_rep l V (nzcv s) k \<Longrightarrow> \<exists>V'. rep {} E l1 (exec c1 s) V' \<and> outer E s (exec c1 s) \<and>
        (\<forall>q. q \<noteq> FLAGTMP \<longrightarrow> V' q = V q) \<and> ccr_rep l1 V' (nzcv (exec c1 s)) k"
    unfolding keeps_ccr_def by blast
  note d1 = flags_to_stack_defined [OF r8 f l1(1)] and on = flags_to_stack_valid [OF l1(1)]
  obtain l2 c2 where l2: "sync_m68k_pc E l1 = Some l2" "ready t E l2" "l_code l2 = l_code l1 @ c2" "closed c2"
    "\<And>q. q < VREGS \<Longrightarrow> status l1 q \<noteq> UNDEF \<Longrightarrow> status l2 q \<noteq> UNDEF"
    and s2: "\<And>s V. rep {} E l1 s V \<Longrightarrow> rep {} E l2 (exec c2 s) (V(PC_P := V PC_P + ucast (l_m68k_pc_offset l1))) \<and>
       outer E s (exec c2 s) \<and> nzcv (exec c2 s) = nzcv s"
    using sync_m68k_pc_ok [OF l1(2) d1 [OF P(1) u(1)]] by metis
  have "wf l2" using l2(2) by (simp add: ready_def)
  from flush_regs_ok [OF ok this, of "[0..<Suc FLAGTMP]"]
  obtain l3 where l3: "flush_regs E [0..<Suc FLAGTMP] l2 = Some l3" "pres {} {} E l2 l3"
    "\<And>r. r \<le> FLAGTMP \<Longrightarrow> flushed r l3" "\<And>q. status l2 q \<noteq> UNDEF \<Longrightarrow> status l3 q \<noteq> UNDEF"
    by (auto simp: jit_consts less_Suc_eq_le)
  obtain c3 where c3: "l_code l3 = l_code l2 @ c3" "closed c3"
    and s3: "\<And>s V. rep {} E l2 s V \<Longrightarrow> rep {} E l3 (exec c3 s) V \<and> quiet E s (exec c3 s)"
    using l3(2) unfolding pres_def by blast
  show thesis
  proof (rule that [of l3 "c1 @ c2 @ c3"])
    show "flush E True l = Some l3" using l1(1) l2(1) l3(1) by (simp add: flush_def flush_flags_def)
    show "l_code l3 = l_code l @ c1 @ c2 @ c3" "closed (c1 @ c2 @ c3)" using l1(3,4) l2(3,4) c3 by (simp_all)
    fix s V k
    assume a: "rep {} E l s V" "ccr_rep l V (nzcv s) k"
    from s1 [OF a] obtain V1 where v1: "rep {} E l1 (exec c1 s) V1" "outer E s (exec c1 s)"
      "\<And>q. q \<noteq> FLAGTMP \<Longrightarrow> V1 q = V q" "ccr_rep l1 V1 (nzcv (exec c1 s)) k" by blast
    let ?V = "V1(PC_P := V1 PC_P + ucast (l_m68k_pc_offset l1))"
    have v2: "rep {} E l2 (exec c2 (exec c1 s)) ?V" "outer E (exec c1 s) (exec c2 (exec c1 s))" using s2 [OF v1(1)] by simp_all
    have v3: "rep {} E l3 (exec c3 (exec c2 (exec c1 s))) ?V" "outer E (exec c2 (exec c1 s)) (exec c3 (exec c2 (exec c1 s)))"
      using s3 [OF v2(1)] quiet_outer by simp_all
    have x: "exec (c1 @ c2 @ c3) s = exec c3 (exec c2 (exec c1 s))" by (simp add: exec_append l1(4) l2(4))
    have slot: "load_slot E r (amem (exec (c1 @ c2 @ c3) s)) = ucast (ucast (V1 r) :: u32)"
      if "r \<le> FLAGTMP" "r \<noteq> PC_P" "status l r \<noteq> UNDEF" for r
    proof -
      have "r < VREGS" using that(1) by (simp add: jit_consts)
      with flushed_slot [OF v3(1) l3(3)] l3(4) l2(5) d1 that show ?thesis by (simp add: x)
    qed
    have "word_flags (load_slot E FLAGTMP (amem (exec (c1 @ c2 @ c3) s))) = word_flags (V1 FLAGTMP)"
      using slot [of FLAGTMP] P(3) u(2) by (intro word_flags_low) simp
    then have "ccr_of False (word_flags (load_slot E FLAGTMP (amem (exec (c1 @ c2 @ c3) s)))) = k"
      using v1(4) on by (simp add: ccr_rep_def)
    moreover have "outer E s (exec (c1 @ c2 @ c3) s)" unfolding x using v1(2) v2(2) v3(2) outer_trans by blast
    ultimately show "written_back E l s (exec (c1 @ c2 @ c3) s) V k"
      using slot v1(3) by (auto simp: written_back_def)
  qed
qed

section \<open>A whole block\<close>

text \<open>A layout of the register file with eight bytes per field, for the examples.\<close>

definition field :: "nat \<Rightarrow> u64" where
  "field k = of_nat (0x1000 + 8 * k)"

definition sample_env :: jenv where
  "sample_env = \<lparr>e_regs = field 0, e_mem = field, e_pc_oldp = field 22, e_pc = field 23, e_instruction_pc = field 24\<rparr>"

lemma field_sep:
  assumes "a \<noteq> b" "a < 100" "b < 100" "n \<le> 8" "k \<le> 8"
  shows "sep (field a) n (field b) k"
  unfolding sep_def
proof (intro allI impI)
  fix i j
  assume i: "i < n" "j < k"
  have "field a + of_nat i = field b + of_nat j \<longleftrightarrow>
      (of_nat (0x1000 + 8 * a + i) :: u64) = of_nat (0x1000 + 8 * b + j)" by (simp add: field_def)
  also have "\<dots> \<longleftrightarrow> 0x1000 + 8 * a + i = 0x1000 + 8 * b + j"
    unfolding word_of_nat_eq_iff using i assms by (simp add: take_bit_nat_eq_self)
  finally show "field a + of_nat i \<noteq> field b + of_nat j" using i assms by auto
qed

lemma sample_env_ok: "env_ok sample_env"
proof -
  have "r < VREGS \<Longrightarrow> r < 100 \<and> r \<noteq> 22 \<and> r \<noteq> 23 \<and> r \<noteq> 24" for r by (simp add: VREGS_def)
  moreover have "vsize r \<le> 8" for r by (simp add: vsize_def)
  moreover have "reach64 sample_env (field 16)" "reach64 sample_env (field 22)" "reach32 sample_env (field 23)" "reach32 sample_env (field 24)"
    by (simp_all add: reach64_def reach32_def sample_env_def field_def)
  ultimately show ?thesis
    by (auto simp: env_ok_def sample_env_def PC_P_def intro!: field_sep)
qed

definition sample_live :: live where
  "sample_live = \<lparr>l_state = \<lambda>_. \<lparr>rs_val = 0, rs_status = UNDEF, rs_realreg = None, rs_realind = 0, rs_needflush = NF_SCRATCH\<rparr>,
     l_nat = \<lambda>_. \<lparr>ns_touched = 0, ns_holds = [], ns_locked = 0\<rparr>, l_flags_on_stack = NADA, l_flags_in_flags = NADA,
     l_flags_are_important = False, l_scratch_in_use = \<lambda>_. False, l_flags_carry_inverted = False, l_touchcnt = 0,
     l_needed_flags = 0x1F, l_m68k_pc_offset = 0, l_comp_pc_p = 0x4000, l_jit_exception = 0, l_code = []\<rparr>"

lemma block_frame:
  assumes ok: "env_ok E" and nf: "\<And>r. r < VREGS \<Longrightarrow> rs_needflush (l_state l r) \<noteq> NF_HANDLER"
    and i: "init_comp E l = Some l0" and t: "t < 1999999000"
    and b: "generates {} (24 + t) E l0 (body l0) b F" and s: "xr s R_REGSTRUCT = e_regs E"
  shows "\<exists>l2 c V' f'. do { l1 \<leftarrow> body l0; flush E True (live_flags l1) } = Some l2 \<and> l_code l2 = l_code l @ c \<and>
    F (entry_values E (l_comp_pc_p l) s) (nzcv s) V' f' \<and> written_back E l0 s (exec c s) V' (ccr_of b f')"
proof -
  have t': "24 + t < 1999999990" using t by simp
  note rd = init_comp_ready [OF ok nf i t'] and rp = init_comp_rep [OF i s]
  obtain l1 where l1: "body l0 = Some l1" "compiled {} (24 + t) E l0 l1 F" "l_flags_carry_inverted l1 = b"
    using b by (auto simp: generates_def)
  obtain c1 where c1: "l_code l1 = l_code l0 @ c1" "closed c1" "\<And>s V. rep {} E l0 s V \<Longrightarrow>
      \<exists>V'. rep {} E l1 (exec c1 s) V' \<and> outer E s (exec c1 s) \<and> F V (nzcv s) V' (nzcv (exec c1 s))"
    using l1(2) by (auto simp: compiled_def sim_def)
  have u0: "status l0 PC_P \<noteq> UNDEF" "status l0 FLAGTMP \<noteq> UNDEF"
    using rd(4) rd(3) [of FLAGTMP] by (simp_all add: operand_def jit_consts)
  have kept: "\<And>q. q < VREGS \<Longrightarrow> status l0 q \<noteq> UNDEF \<Longrightarrow> status l1 q \<noteq> UNDEF"
    using l1(2) by (simp add: compiled_def others_kept_def)
  have rd1: "ready (16 + t) E l1" using ready_compiled [OF rd(1), of "{}" "16 + t" l1 F] l1(2) by (simp add: add.assoc)
  let ?l = "live_flags l1"
  have "ready (16 + t) E ?l" "tidy_flags ?l" "status ?l PC_P \<noteq> UNDEF" "status ?l FLAGTMP \<noteq> UNDEF"
    using rd1 u0 kept by (simp_all add: live_flags_def tidy_flags_def ready_def wf_def isinreg_def touch_ok_def jit_consts)
  from flush_ok [OF this]
  obtain l2 c2 where l2: "flush E True ?l = Some l2" "l_code l2 = l_code ?l @ c2" "closed c2"
    "\<And>s V k. rep {} E ?l s V \<Longrightarrow> ccr_rep ?l V (nzcv s) k \<Longrightarrow> written_back E ?l s (exec c2 s) V k" by metis
  from c1(3) [OF rp(1)] obtain V' where V': "rep {} E l1 (exec c1 s) V'" "outer E s (exec c1 s)"
    "F (entry_values E (l_comp_pc_p l) s) (nzcv s) V' (nzcv (exec c1 s))" by blast
  have "rep {} E ?l (exec c1 s) V'" using V'(1) rep_same_state [of ?l l1] by (simp add: live_flags_def)
  moreover have "ccr_rep ?l V' (nzcv (exec c1 s)) (ccr_of b (nzcv (exec c1 s)))"
    using l1(3) by (simp add: ccr_rep_def live_flags_def)
  ultimately have w: "written_back E ?l (exec c1 s) (exec c2 (exec c1 s)) V' (ccr_of b (nzcv (exec c1 s)))" by (rule l2(4))
  have "written_back E l0 s (exec (c1 @ c2) s) V' (ccr_of b (nzcv (exec c1 s)))"
    using w kept outer_trans [OF V'(2)] by (auto simp: written_back_def live_flags_def exec_append [OF c1(2)] jit_consts)
  moreover have "l_code l2 = l_code l @ c1 @ c2" using l2(2) c1(1) init_comp_state [of E l] i by (simp add: live_flags_def) (metis option.inject)
  moreover have "do { l1 \<leftarrow> body l0; flush E True (live_flags l1) } = Some l2" using l1(1) l2(1) by simp
  ultimately show ?thesis using V'(3) by blast
qed

end
