(* ===== verification/Interp_Ops.thy ===== *)
theory Interp_Ops
  imports Interp_Flags
begin

unbundle bit_operations_syntax

text \<open>
  The instructions of the interpreter with register and immediate operands, as \<^verbatim>\<open>gen_opcode\<close> of
  gencpu.c writes them: operands are fetched (\<^verbatim>\<open>genamode\<close>), the condition codes computed
  (\<^verbatim>\<open>genflags\<close>) and the result stored (\<^verbatim>\<open>genastore\<close>). An instruction is a function on the
  state of the guest: the sixteen registers (address registers are 8 to 15), X, the condition codes
  N, Z, V and C, and \<^verbatim>\<open>regs.pc_p\<close>, the host address of the instruction. The statements that
  account for cycles and prefetch have no part in this state.
\<close>

record guest =
  g_reg :: "nat \<Rightarrow> u32"
  g_x :: bool
  g_ccr :: ccr4
  g_pc :: u64

section \<open>Operands\<close>

definition fetch_reg :: "nat \<Rightarrow> guest \<Rightarrow> 'a::len word" where
  "fetch_reg r g = ucast (g_reg g r)"

definition genastore :: "nat \<Rightarrow> 'a::len word \<Rightarrow> guest \<Rightarrow> guest" where
  "genastore d v g = g\<lparr>g_reg := (g_reg g)(d := (g_reg g d AND NOT (mask LENGTH('a))) OR ucast v)\<rparr>"

definition get_dibyte :: "(u64 \<Rightarrow> u8) \<Rightarrow> u64 \<Rightarrow> guest \<Rightarrow> u8" where
  "get_dibyte H k g = H (g_pc g + k + 1)"

definition get_diword :: "(u64 \<Rightarrow> u8) \<Rightarrow> u64 \<Rightarrow> guest \<Rightarrow> u16" where
  "get_diword H k g = do_get_mem_word H (g_pc g + k)"

definition get_dilong :: "(u64 \<Rightarrow> u8) \<Rightarrow> u64 \<Rightarrow> guest \<Rightarrow> u32" where
  "get_dilong H k g = do_get_mem_long H (g_pc g + k)"

definition incpc :: "u64 \<Rightarrow> guest \<Rightarrow> guest" where
  "incpc k g = g\<lparr>g_pc := g_pc g + k\<rparr>"

section \<open>Results with condition codes\<close>

definition store_logical :: "nat \<Rightarrow> 'a::len word \<Rightarrow> guest \<Rightarrow> guest" where
  "store_logical d v g = genastore d v (g\<lparr>g_ccr := flag_logical v\<rparr>)"

definition store_arith :: "nat \<Rightarrow> 'a::len word \<times> ccr4 \<Rightarrow> guest \<Rightarrow> guest" where
  "store_arith d p g = (case p of (newv, n, z, v, c) \<Rightarrow> genastore d newv (g\<lparr>g_ccr := (n, z, v, c), g_x := c\<rparr>))"

definition SET_Z :: "bool \<Rightarrow> guest \<Rightarrow> guest" where
  "SET_Z b g = (case g_ccr g of (n, z, v, c) \<Rightarrow> g\<lparr>g_ccr := (n, b, v, c)\<rparr>)"

section \<open>Instructions\<close>

definition i_OR :: "'a::len word \<Rightarrow> nat \<Rightarrow> guest \<Rightarrow> guest" where
  "i_OR src d g = store_logical d (src OR fetch_reg d g) g"

definition i_AND :: "'a::len word \<Rightarrow> nat \<Rightarrow> guest \<Rightarrow> guest" where
  "i_AND src d g = store_logical d (src AND fetch_reg d g) g"

definition i_EOR :: "'a::len word \<Rightarrow> nat \<Rightarrow> guest \<Rightarrow> guest" where
  "i_EOR src d g = store_logical d (src XOR fetch_reg d g) g"

definition i_SUB :: "'a::len word \<Rightarrow> nat \<Rightarrow> guest \<Rightarrow> guest" where
  "i_SUB src d g = store_arith d (flag_sub src (fetch_reg d g)) g"

definition i_SUBA :: "u32 \<Rightarrow> nat \<Rightarrow> guest \<Rightarrow> guest" where
  "i_SUBA src d g = genastore d (fetch_reg d g - src) g"

definition i_ADD :: "'a::len word \<Rightarrow> nat \<Rightarrow> guest \<Rightarrow> guest" where
  "i_ADD src d g = store_arith d (flag_add src (fetch_reg d g)) g"

definition i_ADDA :: "u32 \<Rightarrow> nat \<Rightarrow> guest \<Rightarrow> guest" where
  "i_ADDA src d g = genastore d (fetch_reg d g + src) g"

definition i_NEG :: "'a::len itself \<Rightarrow> nat \<Rightarrow> guest \<Rightarrow> guest" where
  "i_NEG T d g = store_arith d (flag_sub (fetch_reg d g :: 'a word) 0) g"

definition i_CLR :: "'a::len itself \<Rightarrow> nat \<Rightarrow> guest \<Rightarrow> guest" where
  "i_CLR T d g = store_logical d (0 :: 'a word) g"

definition i_NOT :: "'a::len itself \<Rightarrow> nat \<Rightarrow> guest \<Rightarrow> guest" where
  "i_NOT T d g = store_logical d (NOT (fetch_reg d g :: 'a word)) g"

definition i_TST :: "'a::len word \<Rightarrow> guest \<Rightarrow> guest" where
  "i_TST src g = g\<lparr>g_ccr := flag_logical src\<rparr>"

definition i_BTST :: "nat \<Rightarrow> 'a::len word \<Rightarrow> guest \<Rightarrow> guest" where
  "i_BTST src dst g = SET_Z (\<not> bit dst src) g"

definition i_BCHG :: "nat \<Rightarrow> nat \<Rightarrow> guest \<Rightarrow> guest" where
  "i_BCHG src d g = (let dst = (fetch_reg d g :: u32) XOR push_bit src 1
     in genastore d dst (SET_Z (bit dst src) g))"

definition i_BCLR :: "nat \<Rightarrow> nat \<Rightarrow> guest \<Rightarrow> guest" where
  "i_BCLR src d g = (let dst = fetch_reg d g :: u32
     in genastore d (dst AND NOT (push_bit src 1)) (SET_Z (\<not> bit dst src) g))"

definition i_BSET :: "nat \<Rightarrow> nat \<Rightarrow> guest \<Rightarrow> guest" where
  "i_BSET src d g = (let dst = fetch_reg d g :: u32
     in genastore d (dst OR push_bit src 1) (SET_Z (\<not> bit dst src) g))"

definition i_CMP :: "'a::len word \<Rightarrow> nat \<Rightarrow> guest \<Rightarrow> guest" where
  "i_CMP src d g = g\<lparr>g_ccr := flag_cmp src (fetch_reg d g)\<rparr>"

definition i_MOVE :: "'a::len word \<Rightarrow> nat \<Rightarrow> guest \<Rightarrow> guest" where
  "i_MOVE src d g = store_logical d src g"

definition i_MOVEA :: "u32 \<Rightarrow> nat \<Rightarrow> guest \<Rightarrow> guest" where
  "i_MOVEA src d g = genastore d src g"

definition i_SWAP :: "nat \<Rightarrow> guest \<Rightarrow> guest" where
  "i_SWAP d g = (let src = fetch_reg d g :: u32
     in store_logical d ((drop_bit 16 src AND 0xFFFF) OR push_bit 16 (src AND 0xFFFF)) g)"

definition i_EXG :: "nat \<Rightarrow> nat \<Rightarrow> guest \<Rightarrow> guest" where
  "i_EXG s d g = genastore d (fetch_reg s g :: u32) (genastore s (fetch_reg d g :: u32) g)"

definition i_EXT_b :: "nat \<Rightarrow> guest \<Rightarrow> guest" where
  "i_EXT_b d g = store_logical d (scast (fetch_reg d g :: u8) :: u32) g"

definition i_EXT_w :: "nat \<Rightarrow> guest \<Rightarrow> guest" where
  "i_EXT_w d g = store_logical d (scast (fetch_reg d g :: u8) :: u16) g"

definition i_EXT_l :: "nat \<Rightarrow> guest \<Rightarrow> guest" where
  "i_EXT_l d g = store_logical d (scast (fetch_reg d g :: u16) :: u32) g"

definition i_NOP :: "guest \<Rightarrow> guest" where
  "i_NOP g = g"

definition i_LEA :: "u32 \<Rightarrow> nat \<Rightarrow> guest \<Rightarrow> guest" where
  "i_LEA srca d g = genastore d srca g"

end
