(* ===== verification/Jit_Guest.thy ===== *)
theory Jit_Guest
  imports Jit_Block Interp_Ops
begin

unbundle bit_operations_syntax

text \<open>
  The contract of the opcode translators (compemu_arm.cpp). A translator is called between two
  instructions of a block, in a state that is \<open>op_ready\<close>; the machine that runs the code emitted so
  far then represents a guest (\<open>guest_rep\<close>): its registers, its program counter, X if it is among
  the live flags, and those of N, Z, V and C that are live. \<open>translated\<close> says that a translator
  returns and that its code does to the guest what the interpreter's instruction does, as far as the
  flags that are live afterwards can tell. The rules of this theory reduce it to the contract of the
  mid-level function the translator calls.
\<close>

section \<open>What the generated translators share\<close>

definition FLAG_N :: u32 where "FLAG_N = 8"
definition FLAG_C :: u32 where "FLAG_C = 1"
definition FLAG_CZNV :: u32 where "FLAG_CZNV = FLAG_C OR FLAG_Z OR FLAG_N OR FLAG_V"

definition SYNC_PC_OFFSET :: u32 where "SYNC_PC_OFFSET = 124"

definition imm8_table :: "nat \<Rightarrow> u32" where
  "imm8_table i = [8, 1, 2, 3, 4, 5, 6, 7] ! i"

type_synonym compop_func = "(u64 \<Rightarrow> u8) \<Rightarrow> jenv \<Rightarrow> u32 \<Rightarrow> live \<Rightarrow> live option"

definition comp_get_ibyte :: "(u64 \<Rightarrow> u8) \<Rightarrow> live \<Rightarrow> u32 \<Rightarrow> u8" where
  "comp_get_ibyte H l off = H (l_comp_pc_p l + ucast off + 1)"

definition comp_get_iword :: "(u64 \<Rightarrow> u8) \<Rightarrow> live \<Rightarrow> u32 \<Rightarrow> u16" where
  "comp_get_iword H l off = do_get_mem_word H (l_comp_pc_p l + ucast off)"

definition comp_get_ilong :: "(u64 \<Rightarrow> u8) \<Rightarrow> live \<Rightarrow> u32 \<Rightarrow> u32" where
  "comp_get_ilong H l off = do_get_mem_long H (l_comp_pc_p l + ucast off)"

definition add_pc_offset :: "u32 \<Rightarrow> live \<Rightarrow> live" where
  "add_pc_offset k l = l\<lparr>l_m68k_pc_offset := l_m68k_pc_offset l + k\<rparr>"

definition end_inst :: "jenv \<Rightarrow> live \<Rightarrow> live option" where
  "end_inst E l = (if l_m68k_pc_offset l > SYNC_PC_OFFSET then sync_m68k_pc E l else Some l)"

definition forget_unneeded :: "live \<Rightarrow> live" where
  "forget_unneeded l = (if l_needed_flags l AND FLAG_CZNV = 0 then dont_care_flags l else l)"

section \<open>The guest a machine represents\<close>

definition ccr_agree :: "u32 \<Rightarrow> ccr4 \<Rightarrow> ccr4 \<Rightarrow> bool" where
  "ccr_agree m k k' = (case k of (n, z, v, c) \<Rightarrow> case k' of (n', z', v', c') \<Rightarrow>
     (m AND FLAG_N \<noteq> 0 \<longrightarrow> n = n') \<and> (m AND FLAG_Z \<noteq> 0 \<longrightarrow> z = z') \<and>
     (m AND FLAG_V \<noteq> 0 \<longrightarrow> v = v') \<and> (m AND FLAG_C \<noteq> 0 \<longrightarrow> c = c'))"

definition regs_view :: "vregs \<Rightarrow> guest \<Rightarrow> bool" where
  "regs_view V g \<longleftrightarrow> (\<forall>r<16. ucast (V r) = g_reg g r)"

definition pc_at :: "live \<Rightarrow> u64" where
  "pc_at l = l_comp_pc_p l + ucast (l_m68k_pc_offset l)"

definition x_view :: "u32 \<Rightarrow> vregs \<Rightarrow> guest \<Rightarrow> bool" where
  "x_view m V g \<longleftrightarrow> (m AND FLAG_X \<noteq> 0 \<longrightarrow> ucast (V FLAGX) = (of_bool (g_x g) :: u32))"

definition ccr_view :: "u32 \<Rightarrow> live \<Rightarrow> vregs \<Rightarrow> nzcv_flags \<Rightarrow> guest \<Rightarrow> bool" where
  "ccr_view m l V f g \<longleftrightarrow> (m AND FLAG_CZNV \<noteq> 0 \<longrightarrow> (\<exists>k. ccr_rep l V f k \<and> ccr_agree m k (g_ccr g)))"

definition view :: "u32 \<Rightarrow> live \<Rightarrow> vregs \<Rightarrow> nzcv_flags \<Rightarrow> guest \<Rightarrow> bool" where
  "view m l V f g \<longleftrightarrow> regs_view V g \<and> V PC_P = l_comp_pc_p l \<and> g_pc g = pc_at l \<and>
     x_view m V g \<and> ccr_view m l V f g"

definition guest_rep :: "jenv \<Rightarrow> u32 \<Rightarrow> live \<Rightarrow> a64 \<Rightarrow> guest \<Rightarrow> bool" where
  "guest_rep E m l s g \<longleftrightarrow> (\<exists>V. rep {} E l s V \<and> view m l V (nzcv s) g)"

definition op_done :: "nat \<Rightarrow> jenv \<Rightarrow> u32 \<Rightarrow> live \<Rightarrow> bool" where
  "op_done t E m l \<longleftrightarrow> ready t E l \<and> (\<forall>r<S1. status l r \<noteq> UNDEF) \<and> l_m68k_pc_offset l \<le> SYNC_PC_OFFSET \<and>
     (l_flags_in_flags l = VALID \<or> l_flags_on_stack l = VALID) \<and> (m AND FLAG_CZNV \<noteq> 0 \<longrightarrow> tidy_flags l)"

definition op_ready :: "nat \<Rightarrow> jenv \<Rightarrow> u32 \<Rightarrow> live \<Rightarrow> bool" where
  "op_ready t E m l \<longleftrightarrow> op_done t E m l \<and> (\<forall>i<SCRATCH_REGS. \<not> l_scratch_in_use l i) \<and>
     (\<forall>r<VREGS. S1 \<le> r \<longrightarrow> status l r = UNDEF)"

definition translated :: "nat \<Rightarrow> jenv \<Rightarrow> u32 \<Rightarrow> u32 \<Rightarrow> live \<Rightarrow> live option \<Rightarrow> (guest \<Rightarrow> guest) \<Rightarrow> bool" where
  "translated t E mi mo l r st \<longleftrightarrow> (\<exists>l' c. r = Some l' \<and> op_done t E mo l' \<and> l_code l' = l_code l @ c \<and> closed c \<and>
     (\<forall>s g. guest_rep E mi l s g \<longrightarrow> guest_rep E mo l' (exec c s) (st g) \<and> outer E s (exec c s)))"

section \<open>Changes of the flags mode\<close>

definition mode_change :: "(live \<Rightarrow> live) \<Rightarrow> bool" where
  "mode_change p \<longleftrightarrow> (\<forall>l. \<exists>a b c u. p l = l\<lparr>l_flags_on_stack := a, l_flags_in_flags := b, l_flags_are_important := c,
     l_scratch_in_use := u\<rparr>)"

lemma mode_change_simps:
  assumes "mode_change p"
  shows "l_state (p l) = l_state l" "l_nat (p l) = l_nat l" "l_code (p l) = l_code l" "l_touchcnt (p l) = l_touchcnt l"
    "l_m68k_pc_offset (p l) = l_m68k_pc_offset l" "l_comp_pc_p (p l) = l_comp_pc_p l" "l_needed_flags (p l) = l_needed_flags l"
    "l_flags_carry_inverted (p l) = l_flags_carry_inverted l" "ready t E (p l) = ready t E l" "rep X E (p l) s V = rep X E l s V"
    "isconst (p l) r = isconst l r" "pc_at (p l) = pc_at l"
proof -
  obtain a b c u where p: "p l = l\<lparr>l_flags_on_stack := a, l_flags_in_flags := b, l_flags_are_important := c, l_scratch_in_use := u\<rparr>"
    using assms unfolding mode_change_def by blast
  show "l_state (p l) = l_state l" "l_nat (p l) = l_nat l" "l_code (p l) = l_code l" "l_touchcnt (p l) = l_touchcnt l"
    "l_m68k_pc_offset (p l) = l_m68k_pc_offset l" "l_comp_pc_p (p l) = l_comp_pc_p l" "l_needed_flags (p l) = l_needed_flags l"
    "l_flags_carry_inverted (p l) = l_flags_carry_inverted l" "pc_at (p l) = pc_at l"
    unfolding p pc_at_def by simp_all
  show "ready t E (p l) = ready t E l" unfolding p by (simp add: ready_def wf_def isinreg_def touch_ok_def)
  show "rep X E (p l) s V = rep X E l s V" by (rule rep_same_state) (simp add: p)
  show "isconst (p l) r = isconst l r" unfolding p by (simp add: isconst_def)
qed

lemma mode_change_comp: "mode_change p \<Longrightarrow> mode_change q \<Longrightarrow> mode_change (\<lambda>l. p (q l))"
  unfolding mode_change_def
proof
  fix l
  assume p: "\<forall>l. \<exists>a b c u. p l = l\<lparr>l_flags_on_stack := a, l_flags_in_flags := b, l_flags_are_important := c, l_scratch_in_use := u\<rparr>"
    and q: "\<forall>l. \<exists>a b c u. q l = l\<lparr>l_flags_on_stack := a, l_flags_in_flags := b, l_flags_are_important := c, l_scratch_in_use := u\<rparr>"
  obtain a b c u where "q l = l\<lparr>l_flags_on_stack := a, l_flags_in_flags := b, l_flags_are_important := c, l_scratch_in_use := u\<rparr>"
    using q by blast
  moreover obtain a' b' c' u' where "p (q l) = (q l)\<lparr>l_flags_on_stack := a', l_flags_in_flags := b', l_flags_are_important := c', l_scratch_in_use := u'\<rparr>"
    using p by blast
  ultimately show "\<exists>a b c u. p (q l) = l\<lparr>l_flags_on_stack := a, l_flags_in_flags := b, l_flags_are_important := c, l_scratch_in_use := u\<rparr>"
    by (intro exI [of _ a'] exI [of _ b'] exI [of _ c'] exI [of _ u']) simp
qed

lemma mode_changes [simp, intro]:
  "mode_change (\<lambda>l. l)" "mode_change live_flags" "mode_change dont_care_flags" "mode_change forget_unneeded"
proof -
  have e: "l = l\<lparr>l_flags_on_stack := l_flags_on_stack l, l_flags_in_flags := l_flags_in_flags l,
      l_flags_are_important := l_flags_are_important l, l_scratch_in_use := l_scratch_in_use l\<rparr>" for l by simp
  show "mode_change (\<lambda>l. l)" unfolding mode_change_def using e by blast
  have "live_flags l = l\<lparr>l_flags_on_stack := TRASH, l_flags_in_flags := VALID, l_flags_are_important := True,
      l_scratch_in_use := l_scratch_in_use l\<rparr>" for l by (simp add: live_flags_def)
  then show "mode_change live_flags" unfolding mode_change_def by blast
  have d: "dont_care_flags l = l\<lparr>l_flags_on_stack := l_flags_on_stack l, l_flags_in_flags := l_flags_in_flags l,
      l_flags_are_important := False, l_scratch_in_use := l_scratch_in_use l\<rparr>" for l by (simp add: dont_care_flags_def)
  then show "mode_change dont_care_flags" unfolding mode_change_def by blast
  show "mode_change forget_unneeded"
    unfolding mode_change_def
  proof
    fix l
    show "\<exists>a b c u. forget_unneeded l = l\<lparr>l_flags_on_stack := a, l_flags_in_flags := b, l_flags_are_important := c, l_scratch_in_use := u\<rparr>"
    proof (cases "l_needed_flags l AND FLAG_CZNV = 0")
      case True
      then have "forget_unneeded l = dont_care_flags l" by (simp add: forget_unneeded_def)
      then show ?thesis using d by metis
    next
      case False
      then have "forget_unneeded l = l" by (simp add: forget_unneeded_def)
      then show ?thesis using e by metis
    qed
  qed
qed


section \<open>The end of an instruction\<close>

lemma ucast_add_small:
  assumes "a \<le> (SYNC_PC_OFFSET :: u32)" "k \<le> 16"
  shows "(ucast (a + k) :: u64) = ucast a + ucast k"
proof -
  have "unat a \<le> 124" "unat k \<le> 16" using assms by (simp_all add: SYNC_PC_OFFSET_def word_le_nat_alt)
  then have "unat (a + k) = unat a + unat k" by (intro unat_add_lem [THEN iffD1]) simp
  then show ?thesis
    using \<open>unat a \<le> 124\<close> \<open>unat k \<le> 16\<close> by (simp add: word_unat_eq_iff unat_word_ariths unsigned_ucast_eq take_bit_nat_eq_self)
qed

lemma ucast_u32_le: "(ucast (a :: u32) :: u64) \<le> 0xFFFFFFFF"
  using unsigned_less [of a, where ?'a = nat] by (simp add: word_le_nat_alt unsigned_ucast_eq take_bit_nat_eq_self)

lemma end_inst_ok:
  assumes r: "ready (8 + t) E l" and u: "status l PC_P \<noteq> UNDEF"
  obtains l' c where "end_inst E l = Some l'" "ready t E l'" "l_code l' = l_code l @ c" "closed c"
    "l_m68k_pc_offset l' \<le> SYNC_PC_OFFSET" "pc_at l' = pc_at l"
    "same_rest (l\<lparr>l_m68k_pc_offset := l_m68k_pc_offset l', l_comp_pc_p := l_comp_pc_p l'\<rparr>) l'"
    "\<And>q. q < VREGS \<Longrightarrow> status l q \<noteq> UNDEF \<Longrightarrow> status l' q \<noteq> UNDEF"
    "\<And>s V. rep {} E l s V \<Longrightarrow> rep {} E l' (exec c s) (V(PC_P := V PC_P + (l_comp_pc_p l' - l_comp_pc_p l))) \<and>
       outer E s (exec c s) \<and> nzcv (exec c s) = nzcv s"
proof (cases "l_m68k_pc_offset l > SYNC_PC_OFFSET")
  case False
  have "ready t E l" using r by (auto simp: ready_def intro: touch_ok_le)
  with False show thesis by (intro that [of l "[]"]) (simp_all add: end_inst_def same_rest_def)
next
  case True
  let ?o = "ucast (l_m68k_pc_offset l) :: u64"
  have o: "l_m68k_pc_offset l \<noteq> 0" using True by auto
  have "?o \<le> 0xFFFFFFFF" by (rule ucast_u32_le)
  from arm_ADD_pc_ok [OF r u this]
  obtain l1 where l1: "arm_ADD_l_ri E PC_P ?o l = Some l1" "compiled {} (8 + t) E l l1 (add_pc ?o)"
    "l_flags_carry_inverted l1 = l_flags_carry_inverted l" by (auto simp: generates_def)
  have k: "others_kept l l1" "sim {} E l l1 (add_pc ?o)" using l1(2) by (simp_all add: compiled_def)
  let ?l = "l1\<lparr>l_comp_pc_p := l_comp_pc_p l1 + ?o, l_m68k_pc_offset := 0\<rparr>"
  have sr: "same_rest l l1" using k(1) l1(3) by (simp add: others_kept_def same_rest_def)
  then have e: "l_m68k_pc_offset l1 = l_m68k_pc_offset l" "l_comp_pc_p l1 = l_comp_pc_p l" by (simp_all add: same_rest_def)
  obtain c where c: "l_code l1 = l_code l @ c" "closed c" "\<And>s V. rep {} E l s V \<Longrightarrow> \<exists>V'. rep {} E l1 (exec c s) V' \<and>
      outer E s (exec c s) \<and> add_pc ?o V (nzcv s) V' (nzcv (exec c s))" using k(2) unfolding sim_def by blast
  show thesis
  proof (rule that [of ?l c])
    show "end_inst E l = Some ?l" using True o l1(1) e by (simp add: end_inst_def sync_m68k_pc_def)
    show "ready t E ?l"
      using ready_compiled [OF r l1(2)] by (simp add: ready_def wf_def isinreg_def touch_ok_def)
    show "pc_at ?l = pc_at l" using e by (simp add: pc_at_def)
    show "same_rest (l\<lparr>l_m68k_pc_offset := l_m68k_pc_offset ?l, l_comp_pc_p := l_comp_pc_p ?l\<rparr>) ?l"
      using sr by (simp add: same_rest_def)
    show "status ?l q \<noteq> UNDEF" if "q < VREGS" "status l q \<noteq> UNDEF" for q using k(1) that by (simp add: others_kept_def)
    fix s V
    assume "rep {} E l s V"
    from c(3) [OF this] show "rep {} E ?l (exec c s) (V(PC_P := V PC_P + (l_comp_pc_p ?l - l_comp_pc_p l))) \<and>
        outer E s (exec c s) \<and> nzcv (exec c s) = nzcv s"
      using rep_same_state [of ?l l1] e by (auto simp: add_pc_def)
  qed (use c in simp_all)
qed

section \<open>The frame of a translator\<close>

lemma add_pc_offset_simps [simp]:
  "l_state (add_pc_offset k l) = l_state l" "l_nat (add_pc_offset k l) = l_nat l" "l_code (add_pc_offset k l) = l_code l"
  "l_touchcnt (add_pc_offset k l) = l_touchcnt l" "l_comp_pc_p (add_pc_offset k l) = l_comp_pc_p l"
  "l_m68k_pc_offset (add_pc_offset k l) = l_m68k_pc_offset l + k" "l_needed_flags (add_pc_offset k l) = l_needed_flags l"
  "l_flags_carry_inverted (add_pc_offset k l) = l_flags_carry_inverted l" "ready t E (add_pc_offset k l) = ready t E l"
  "l_flags_on_stack (add_pc_offset k l) = l_flags_on_stack l" "l_flags_in_flags (add_pc_offset k l) = l_flags_in_flags l"
  "l_flags_are_important (add_pc_offset k l) = l_flags_are_important l" "isconst (add_pc_offset k l) r = isconst l r"
  "l_scratch_in_use (add_pc_offset k l) = l_scratch_in_use l" "add_pc_offset j (add_pc_offset k l) = add_pc_offset (k + j) l"
  by (simp_all add: add_pc_offset_def ready_def wf_def isinreg_def touch_ok_def isconst_def add.assoc)

lemma rep_add_pc_offset [simp]: "rep X E (add_pc_offset k l) s V = rep X E l s V"
  by (rule rep_same_state) simp

lemma view_cong:
  assumes "l_flags_on_stack l' = l_flags_on_stack l" "l_flags_in_flags l' = l_flags_in_flags l"
    "l_flags_carry_inverted l' = l_flags_carry_inverted l"
  shows "ccr_view m l' V f g = ccr_view m l V f g" "V' FLAGTMP = V FLAGTMP \<Longrightarrow> ccr_view m l V' f g = ccr_view m l V f g"
  using assms by (simp_all add: ccr_view_def ccr_rep_def)

text \<open>
  The end of a translator: from the state \<open>l2\<close> that its body leaves, a change of the flags mode and
  the line that advances the program counter.
\<close>

lemma translated_core:
  assumes R: "op_done t0 E mi l" and k: "k \<le> 16" and q: "mode_change q" and l2: "r = Some l2" and r2: "ready (8 + t) E l2"
    and ud: "\<And>q. q < S1 \<Longrightarrow> status l q \<noteq> UNDEF \<Longrightarrow> status l2 q \<noteq> UNDEF" and S: "sim {} E l l2 F"
    and pc: "l_comp_pc_p l2 = l_comp_pc_p l" "l_m68k_pc_offset l2 = l_m68k_pc_offset l + k"
    and mode: "(l_flags_in_flags (q l2) = VALID \<or> l_flags_on_stack (q l2) = VALID) \<and> (mo AND FLAG_CZNV \<noteq> 0 \<longrightarrow> tidy_flags (q l2))"
    and eff: "\<And>V f V' f' g. view mi l V f g \<Longrightarrow> F V f V' f' \<Longrightarrow>
      regs_view V' (st g) \<and> V' PC_P = V PC_P \<and> g_pc (st g) = g_pc g + ucast k \<and> x_view mo V' (st g) \<and> ccr_view mo (q l2) V' f' (st g)"
  shows "translated t E mi mo l (do { l2 \<leftarrow> r; end_inst E (q l2) }) st"
proof -
  note qs = mode_change_simps [OF q]
  have uP: "status (q l2) PC_P \<noteq> UNDEF" using R ud [of PC_P] by (simp add: op_done_def qs jit_consts)
  have r3: "ready (8 + t) E (q l2)" using r2 by (simp add: qs)
  obtain l3 c2 where l3: "end_inst E (q l2) = Some l3" "ready t E l3" "l_code l3 = l_code (q l2) @ c2" "closed c2"
    "l_m68k_pc_offset l3 \<le> SYNC_PC_OFFSET" "pc_at l3 = pc_at (q l2)"
    "same_rest ((q l2)\<lparr>l_m68k_pc_offset := l_m68k_pc_offset l3, l_comp_pc_p := l_comp_pc_p l3\<rparr>) l3"
    "\<And>q'. q' < VREGS \<Longrightarrow> status (q l2) q' \<noteq> UNDEF \<Longrightarrow> status l3 q' \<noteq> UNDEF"
    "\<And>s V. rep {} E (q l2) s V \<Longrightarrow> rep {} E l3 (exec c2 s) (V(PC_P := V PC_P + (l_comp_pc_p l3 - l_comp_pc_p (q l2)))) \<and>
       outer E s (exec c2 s) \<and> nzcv (exec c2 s) = nzcv s"
    using end_inst_ok [OF r3 uP] by blast
  have m3: "l_flags_on_stack l3 = l_flags_on_stack (q l2)" "l_flags_in_flags l3 = l_flags_in_flags (q l2)"
    "l_flags_are_important l3 = l_flags_are_important (q l2)" "l_flags_carry_inverted l3 = l_flags_carry_inverted (q l2)"
    using l3(7) by (simp_all add: same_rest_def)
  obtain c1 where c1: "l_code l2 = l_code l @ c1" "closed c1" "\<And>s V. rep {} E l s V \<Longrightarrow> \<exists>V'. rep {} E l2 (exec c1 s) V' \<and>
      outer E s (exec c1 s) \<and> F V (nzcv s) V' (nzcv (exec c1 s))" using S unfolding sim_def by blast
  have o: "(ucast (l_m68k_pc_offset l + k) :: u64) = ucast (l_m68k_pc_offset l) + ucast k"
    using ucast_add_small R k by (simp add: op_done_def)
  show ?thesis
    unfolding translated_def
  proof (intro exI [of _ l3] exI [of _ "c1 @ c2"] conjI allI impI)
    show "do { l2 \<leftarrow> r; end_inst E (q l2) } = Some l3" using l2 l3(1) by simp
    have "r < VREGS" if "r < S1" for r using that by (simp add: jit_consts)
    then show "op_done t E mo l3"
      using mode l3(2,5,8) ud R m3 by (auto simp: op_done_def qs tidy_flags_def)
    show "l_code l3 = l_code l @ c1 @ c2" using l3(3) c1(1) by (simp add: qs)
    show "closed (c1 @ c2)" using l3(4) c1(2) by simp
    fix s g
    assume "guest_rep E mi l s g"
    then obtain V where V: "rep {} E l s V" "view mi l V (nzcv s) g" unfolding guest_rep_def by blast
    from c1(3) [OF V(1)] obtain V1 where V1: "rep {} E l2 (exec c1 s) V1" "outer E s (exec c1 s)"
      "F V (nzcv s) V1 (nzcv (exec c1 s))" by blast
    from V1(1) have "rep {} E (q l2) (exec c1 s) V1" by (simp add: qs)
    note V2 = l3(9) [OF this]
    let ?V = "V1(PC_P := V1 PC_P + (l_comp_pc_p l3 - l_comp_pc_p (q l2)))"
    note e = eff [OF V(2) V1(3)]
    have P: "PC_P \<noteq> FLAGX" "PC_P \<noteq> FLAGTMP" "\<not> PC_P < 16" by (simp_all add: jit_consts)
    have "regs_view ?V (st g)" "x_view mo ?V (st g)" using e P by (auto simp: regs_view_def x_view_def)
    moreover have "?V PC_P = l_comp_pc_p l3" using e V(2) pc by (simp add: view_def qs)
    moreover have "g_pc (st g) = pc_at l3"
      using e V(2) l3(6) pc o by (simp add: view_def qs pc_at_def)
    moreover have "ccr_view mo l3 ?V (nzcv (exec c1 s)) (st g)"
    proof -
      have "ccr_view mo l3 ?V (nzcv (exec c1 s)) (st g) = ccr_view mo l3 V1 (nzcv (exec c1 s)) (st g)"
        by (rule view_cong(2) [OF refl refl refl]) (use P in simp)
      with e view_cong(1) [OF m3(1,2,4)] show ?thesis by simp
    qed
    ultimately show "guest_rep E mo l3 (exec (c1 @ c2) s) (st g)"
      unfolding guest_rep_def view_def using V2 by (auto simp: exec_append c1(2))
    show "outer E s (exec (c1 @ c2) s)" using V2 outer_trans [OF V1(2)] by (simp add: exec_append c1(2))
  qed
qed

text \<open>
  A translator that changes the flags mode, runs a mid-level function, and changes the flags mode
  again. \<open>kept_rest\<close> is what it knows of the state after the function.
\<close>

abbreviation kept_rest :: "live \<Rightarrow> bool \<Rightarrow> live \<Rightarrow> bool" where
  "kept_rest l b l' \<equiv> same_rest (l\<lparr>l_flags_carry_inverted := b\<rparr>) l'"

lemma translated_mid:
  assumes R: "op_done (16 + t) E mi l" and p: "mode_change p" and q: "mode_change q" and k: "k \<le> 16"
    and G: "generates {} (16 + t) E (p (add_pc_offset k l)) r b F"
    and mode: "\<And>l2. kept_rest (p (add_pc_offset k l)) b l2 \<Longrightarrow>
      (l_flags_in_flags (q l2) = VALID \<or> l_flags_on_stack (q l2) = VALID) \<and> (mo AND FLAG_CZNV \<noteq> 0 \<longrightarrow> tidy_flags (q l2))"
    and eff: "\<And>l2 V f V' f' g. kept_rest (p (add_pc_offset k l)) b l2 \<Longrightarrow> view mi l V f g \<Longrightarrow> F V f V' f' \<Longrightarrow>
      regs_view V' (st g) \<and> V' PC_P = V PC_P \<and> g_pc (st g) = g_pc g + ucast k \<and> x_view mo V' (st g) \<and> ccr_view mo (q l2) V' f' (st g)"
  shows "translated t E mi mo l (do { l2 \<leftarrow> r; end_inst E (q l2) }) st"
proof -
  let ?l1 = "p (add_pc_offset k l)"
  note ps = mode_change_simps [OF p]
  obtain l2 where l2: "r = Some l2" "compiled {} (8 + (8 + t)) E ?l1 l2 F" "l_flags_carry_inverted l2 = b"
    using G by (auto simp: generates_def add.assoc [symmetric])
  have r2: "ready (8 + t) E l2" using ready_compiled [OF _ l2(2), of "16 + t"] R by (simp add: ps op_done_def)
  have sr: "kept_rest ?l1 b l2" and ud: "\<And>q. q < VREGS \<Longrightarrow> status l q \<noteq> UNDEF \<Longrightarrow> status l2 q \<noteq> UNDEF"
    and S: "sim {} E l l2 F"
    using l2 by (simp_all add: compiled_def others_kept_def same_rest_def sim_def ps)
  have pc: "l_comp_pc_p l2 = l_comp_pc_p l" "l_m68k_pc_offset l2 = l_m68k_pc_offset l + k" using sr by (simp_all add: same_rest_def ps)
  show ?thesis
  proof (rule translated_core [OF R k q l2(1) r2 _ S pc mode [OF sr]])
    show "status l2 r' \<noteq> UNDEF" if "r' < S1" "status l r' \<noteq> UNDEF" for r' using ud [of r'] that by (simp add: jit_consts)
  qed (rule eff [OF sr])
qed

section \<open>Registers and results\<close>

lemma fetch_view: "regs_view V g \<Longrightarrow> r < 16 \<Longrightarrow> LENGTH('a) \<le> 32 \<Longrightarrow> (ucast (V r) :: 'a::len word) = fetch_reg r g"
proof -
  assume a: "regs_view V g" "r < 16" "LENGTH('a) \<le> 32"
  then have "g_reg g r = ucast (V r)" by (simp add: regs_view_def)
  then show ?thesis using a(3) by (intro bit_word_eqI) (auto simp: fetch_reg_def bit_ucast_iff)
qed

lemma writes_view:
  assumes "regs_view V g" "writes d (r :: 'a::len word) V V'" "d < 16" "LENGTH('a) \<le> 32"
  shows "regs_view V' (genastore d r g)"
proof -
  have w: "ucast (V' d) = r" "drop_bit LENGTH('a) (ucast (V' d) :: u32) = drop_bit LENGTH('a) (ucast (V d))"
    "\<And>q. q \<noteq> d \<Longrightarrow> V' q = V q" using assms by (simp_all add: writes_def)
  have v: "g_reg g d = ucast (V d)" using assms by (simp add: regs_view_def)
  have "(ucast (V' d) :: u32) = (g_reg g d AND NOT (mask LENGTH('a))) OR ucast r"
  proof (rule bit_word_eqI)
    fix n
    assume n: "n < LENGTH(32)"
    show "bit (ucast (V' d) :: u32) n = bit ((g_reg g d AND NOT (mask LENGTH('a))) OR ucast r) n"
    proof (cases "n < LENGTH('a)")
      case True
      then show ?thesis using n unfolding w(1) [symmetric] by (simp add: bit_simps bit_mask_iff)
    next
      case False
      have "bit (drop_bit LENGTH('a) (ucast (V' d) :: u32)) (n - LENGTH('a)) =
          bit (drop_bit LENGTH('a) (ucast (V d) :: u32)) (n - LENGTH('a))" using w(2) by simp
      then have "bit (ucast (V' d) :: u32) n = bit (ucast (V d) :: u32) n" using False by (simp add: bit_drop_bit_eq)
      then show ?thesis using n False unfolding v by (auto simp: bit_simps bit_mask_iff bit_ucast_iff dest: bit_imp_le_length)
    qed
  qed
  then show ?thesis using assms(1) w(3) by (auto simp: regs_view_def genastore_def)
qed

lemma writes_other: "writes d r V V' \<Longrightarrow> q \<noteq> d \<Longrightarrow> V' q = V q"
  by (simp add: writes_def)

lemma guest_simps [simp]:
  "regs_view V (incpc k g) = regs_view V g" "g_pc (incpc k g) = g_pc g + k" "g_x (incpc k g) = g_x g" "g_ccr (incpc k g) = g_ccr g"
  "g_x (genastore d r g) = g_x g" "g_ccr (genastore d r g) = g_ccr g" "g_pc (genastore d r g) = g_pc g"
  "regs_view V (g\<lparr>g_ccr := k'\<rparr>) = regs_view V g" "x_view m V (incpc k g) = x_view m V g" "ccr_view m l V f (incpc k g) = ccr_view m l V f g"
  "regs_view V (g\<lparr>g_x := x\<rparr>) = regs_view V g"
  by (simp_all add: incpc_def genastore_def regs_view_def x_view_def ccr_view_def)

lemma store_logical_simps [simp]:
  "g_x (store_logical d r g) = g_x g" "g_ccr (store_logical d r g) = flag_logical r" "g_pc (store_logical d r g) = g_pc g"
  "g_reg (store_logical d r g) = g_reg (genastore d r g)"
  by (simp_all add: store_logical_def) (simp add: genastore_def)

lemma store_arith_simps [simp]:
  "g_x (store_arith d (r, n, z, v, c) g) = c" "g_ccr (store_arith d (r, n, z, v, c) g) = (n, z, v, c)"
  "g_pc (store_arith d p g) = g_pc g" "g_reg (store_arith d p g) = g_reg (genastore d (fst p) g)"
  by (simp_all add: store_arith_def split: prod.splits) (auto simp: genastore_def)

lemma regs_view_reg: "g_reg g' = g_reg g \<Longrightarrow> regs_view V g' = regs_view V g"
  by (simp add: regs_view_def)

lemma ccr_agree_refl [simp]: "ccr_agree m k k"
  by (simp add: ccr_agree_def split: prod.splits)

section \<open>Translators that set the condition codes\<close>

definition live_mode :: "(live \<Rightarrow> live) \<Rightarrow> bool" where
  "live_mode q \<longleftrightarrow> q = live_flags \<or> q = (\<lambda>l. forget_unneeded (live_flags l))"

lemma live_modes [simp, intro]: "live_mode live_flags" "live_mode (\<lambda>l. forget_unneeded (live_flags l))"
  by (simp_all add: live_mode_def)

lemma live_mode_change: "live_mode q \<Longrightarrow> mode_change q"
  using mode_change_comp [OF mode_changes(4,2)] by (auto simp: live_mode_def)

lemma live_mode_fields:
  assumes "live_mode q"
  shows "l_flags_on_stack (q l) = TRASH" "l_flags_in_flags (q l) = VALID" "l_flags_carry_inverted (q l) = l_flags_carry_inverted l"
    "l_needed_flags l AND FLAG_CZNV \<noteq> 0 \<Longrightarrow> l_flags_are_important (q l)"
  using assms unfolding live_mode_def
  by (elim disjE; simp add: live_flags_def forget_unneeded_def dont_care_flags_def; fail)+

lemma live_mode_valid:
  assumes "live_mode q" "kept_rest l1 b l2" "mo AND FLAG_CZNV \<noteq> 0 \<longrightarrow> l_needed_flags l1 AND FLAG_CZNV \<noteq> 0"
  shows "(l_flags_in_flags (q l2) = VALID \<or> l_flags_on_stack (q l2) = VALID) \<and> (mo AND FLAG_CZNV \<noteq> 0 \<longrightarrow> tidy_flags (q l2))"
    "ccr_of b f = g_ccr g \<Longrightarrow> ccr_view mo (q l2) V f g"
proof -
  show "(l_flags_in_flags (q l2) = VALID \<or> l_flags_on_stack (q l2) = VALID) \<and> (mo AND FLAG_CZNV \<noteq> 0 \<longrightarrow> tidy_flags (q l2))"
    using assms(2,3) live_mode_fields [OF assms(1), of l2] by (simp add: tidy_flags_def same_rest_def)
  assume "ccr_of b f = g_ccr g"
  then have "ccr_rep (q l2) V f (g_ccr g)"
    using assms(2) live_mode_fields [OF assms(1), of l2] by (simp add: ccr_rep_def same_rest_def)
  then show "ccr_view mo (q l2) V f g" unfolding ccr_view_def by (intro impI exI [of _ "g_ccr g"]) simp
qed

text \<open>What the liveness of the flags gives: the flags that are live afterwards and not set were live before.\<close>

definition sets_flags :: "u32 \<Rightarrow> u32 \<Rightarrow> u32 \<Rightarrow> live \<Rightarrow> bool" where
  "sets_flags S mi mo l \<longleftrightarrow> l_needed_flags l = mo AND S \<and> mi = mo AND NOT S"

lemma sets_all: "sets_flags 0x1F mi mo l \<Longrightarrow> (mo AND FLAG_CZNV \<noteq> 0 \<longrightarrow> l_needed_flags l AND FLAG_CZNV \<noteq> 0) \<and>
    (mo AND FLAG_X \<noteq> 0 \<longrightarrow> l_needed_flags l AND FLAG_X \<noteq> 0)"
  by (simp add: sets_flags_def FLAG_CZNV_def FLAG_N_def FLAG_C_def FLAG_Z_def FLAG_V_def FLAG_X_def and.assoc)

lemma sets_cznv: "sets_flags 0xF mi mo l \<Longrightarrow> (mo AND FLAG_CZNV \<noteq> 0 \<longrightarrow> l_needed_flags l AND FLAG_CZNV \<noteq> 0) \<and>
    mi AND FLAG_X = mo AND FLAG_X"
  by (auto simp: sets_flags_def FLAG_CZNV_def FLAG_N_def FLAG_C_def FLAG_Z_def FLAG_V_def FLAG_X_def and.assoc)

lemma ff_arith:
  fixes op :: "vregs \<Rightarrow> 'a::len word \<times> ccr4"
  assumes R: "op_done (16 + t) E mi l" and S: "sets_flags 0x1F mi mo l" and p: "mode_change p" and q: "live_mode q"
    and k: "k \<le> 16" and d: "d < 16" and len: "LENGTH('a) \<le> 32"
    and G: "generates {} (16 + t) E (p (add_pc_offset k l)) r b (arith_effect (p (add_pc_offset k l)) b d op)"
    and op: "\<And>V g. regs_view V g \<Longrightarrow> g_pc g = pc_at l \<Longrightarrow> op V = op' g" and K: "K = ucast k"
  shows "translated t E mi mo l (do { l2 \<leftarrow> r; end_inst E (q l2) }) (\<lambda>g. incpc K (store_arith d (op' g) g))"
  unfolding K
proof (rule translated_mid [OF R p live_mode_change [OF q] k G])
  note ps = mode_change_simps [OF p]
  have n: "mo AND FLAG_CZNV \<noteq> 0 \<longrightarrow> l_needed_flags (p (add_pc_offset k l)) AND FLAG_CZNV \<noteq> 0"
    "mo AND FLAG_X \<noteq> 0 \<longrightarrow> l_needed_flags (p (add_pc_offset k l)) AND FLAG_X \<noteq> 0" using sets_all [OF S] by (simp_all add: ps)
  fix l2
  assume l2: "kept_rest (p (add_pc_offset k l)) b l2"
  show "(l_flags_in_flags (q l2) = VALID \<or> l_flags_on_stack (q l2) = VALID) \<and> (mo AND FLAG_CZNV \<noteq> 0 \<longrightarrow> tidy_flags (q l2))"
    by (rule live_mode_valid(1) [OF q l2 n(1)])
  fix V f V' f' g
  assume v: "view mi l V f g" and F: "arith_effect (p (add_pc_offset k l)) b d op V f V' f'"
  have g: "regs_view V g" "op V = op' g" using v op by (simp_all add: view_def)
  obtain w x y z c where o: "op' g = (w, x, y, z, c)" by (cases "op' g")
  from F obtain V1 where V1: "writes d w V V1" "V' = set_X (p (add_pc_offset k l)) c V1" "ccr_of b f' = (x, y, z, c)"
    by (auto simp: arith_effect_def g(2) o)
  have P: "d \<noteq> FLAGX" "d \<noteq> PC_P" "PC_P \<noteq> FLAGX" "\<not> FLAGX < 16" using d by (simp_all add: jit_consts)
  have "regs_view V1 (genastore d w g)" by (rule writes_view [OF g(1) V1(1) d len])
  then have "regs_view V' (store_arith d (op' g) g)" using P by (simp add: V1(2) o regs_view_def set_X_def)
  moreover have "V' PC_P = V PC_P" using V1 P by (simp add: set_X_def writes_other)
  moreover have "x_view mo V' (store_arith d (op' g) g)" using n(2) by (simp add: x_view_def V1(2) set_X_def o)
  moreover have "ccr_view mo (q l2) V' f' (store_arith d (op' g) g)" by (rule live_mode_valid(2) [OF q l2 n(1)]) (simp add: V1(3) o)
  ultimately show "regs_view V' (incpc (ucast k) (store_arith d (op' g) g)) \<and> V' PC_P = V PC_P \<and>
      g_pc (incpc (ucast k) (store_arith d (op' g) g)) = g_pc g + ucast k \<and> x_view mo V' (incpc (ucast k) (store_arith d (op' g) g)) \<and>
      ccr_view mo (q l2) V' f' (incpc (ucast k) (store_arith d (op' g) g))" by simp
qed

text \<open>Functions that set N, Z, V and C and leave X.\<close>

lemma ff_cznv:
  assumes R: "op_done (16 + t) E mi l" and S: "sets_flags 0xF mi mo l" and p: "mode_change p" and q: "live_mode q"
    and k: "k \<le> 16" and G: "generates {} (16 + t) E (p (add_pc_offset k l)) r b F"
    and eff: "\<And>V f V' f' g. regs_view V g \<Longrightarrow> g_pc g = pc_at l \<Longrightarrow> F V f V' f' \<Longrightarrow>
      regs_view V' (st g) \<and> V' PC_P = V PC_P \<and> V' FLAGX = V FLAGX \<and> g_pc (st g) = g_pc g \<and> g_x (st g) = g_x g \<and>
      ccr_of b f' = g_ccr (st g)" and K: "K = ucast k"
  shows "translated t E mi mo l (do { l2 \<leftarrow> r; end_inst E (q l2) }) (\<lambda>g. incpc K (st g))"
  unfolding K
proof (rule translated_mid [OF R p live_mode_change [OF q] k G])
  note ps = mode_change_simps [OF p]
  have n: "mo AND FLAG_CZNV \<noteq> 0 \<longrightarrow> l_needed_flags (p (add_pc_offset k l)) AND FLAG_CZNV \<noteq> 0"
    "mi AND FLAG_X = mo AND FLAG_X" using sets_cznv [OF S] by (simp_all add: ps)
  fix l2
  assume l2: "kept_rest (p (add_pc_offset k l)) b l2"
  show "(l_flags_in_flags (q l2) = VALID \<or> l_flags_on_stack (q l2) = VALID) \<and> (mo AND FLAG_CZNV \<noteq> 0 \<longrightarrow> tidy_flags (q l2))"
    by (rule live_mode_valid(1) [OF q l2 n(1)])
  fix V f V' f' g
  assume v: "view mi l V f g" and F: "F V f V' f'"
  have "regs_view V g" "g_pc g = pc_at l" "x_view mi V g" using v by (simp_all add: view_def)
  note e = eff [OF this(1,2) F]
  have "x_view mo V' (st g)" using e n(2) \<open>x_view mi V g\<close> by (simp add: x_view_def)
  moreover have "ccr_view mo (q l2) V' f' (st g)" by (rule live_mode_valid(2) [OF q l2 n(1)]) (simp add: e)
  ultimately show "regs_view V' (incpc (ucast k) (st g)) \<and> V' PC_P = V PC_P \<and> g_pc (incpc (ucast k) (st g)) = g_pc g + ucast k \<and>
      x_view mo V' (incpc (ucast k) (st g)) \<and> ccr_view mo (q l2) V' f' (incpc (ucast k) (st g))" using e by simp
qed

lemma ff_logic:
  fixes op :: "vregs \<Rightarrow> 'a::len word"
  assumes R: "op_done (16 + t) E mi l" and S: "sets_flags 0xF mi mo l" and p: "mode_change p" and q: "live_mode q"
    and k: "k \<le> 16" and d: "d < 16" and len: "LENGTH('a) \<le> 32"
    and G: "generates {} (16 + t) E (p (add_pc_offset k l)) r b (logic_effect b d op)"
    and op: "\<And>V g. regs_view V g \<Longrightarrow> g_pc g = pc_at l \<Longrightarrow> op V = op' g" and K: "K = ucast k"
  shows "translated t E mi mo l (do { l2 \<leftarrow> r; end_inst E (q l2) }) (\<lambda>g. incpc K (store_logical d (op' g) g))"
  unfolding K
proof (rule ff_cznv [OF R S p q k G _ refl])
  fix V f V' f' g
  assume v: "regs_view V g" and pc: "g_pc g = pc_at l" and F: "logic_effect b d op V f V' f'"
  have F': "writes d (op' g) V V'" "ccr_of b f' = flag_logical (op' g)" using F op [OF v pc] by (simp_all add: logic_effect_def)
  have P: "d \<noteq> FLAGX" "d \<noteq> PC_P" using d by (simp_all add: jit_consts)
  have "regs_view V' (genastore d (op' g) g)" by (rule writes_view [OF v F'(1) d len])
  then have "regs_view V' (store_logical d (op' g) g)" by (simp add: regs_view_def)
  then show "regs_view V' (store_logical d (op' g) g) \<and> V' PC_P = V PC_P \<and> V' FLAGX = V FLAGX \<and>
      g_pc (store_logical d (op' g) g) = g_pc g \<and> g_x (store_logical d (op' g) g) = g_x g \<and>
      ccr_of b f' = g_ccr (store_logical d (op' g) g)" using F' P by (simp add: writes_other)
qed

lemma ff_compare:
  assumes R: "op_done (16 + t) E mi l" and S: "sets_flags 0xF mi mo l" and p: "mode_change p" and q: "live_mode q"
    and k: "k \<le> 16" and G: "generates {} (16 + t) E (p (add_pc_offset k l)) r b (compare_effect b op)"
    and op: "\<And>V g. regs_view V g \<Longrightarrow> g_pc g = pc_at l \<Longrightarrow> op V = op' g" and K: "K = ucast k"
  shows "translated t E mi mo l (do { l2 \<leftarrow> r; end_inst E (q l2) }) (\<lambda>g. incpc K (g\<lparr>g_ccr := op' g\<rparr>))"
  unfolding K
  by (rule ff_cznv [OF R S p q k G _ refl]) (simp add: compare_effect_def op)

section \<open>Translators for which no condition code is live\<close>

definition keeps_mode :: "(live \<Rightarrow> live) \<Rightarrow> bool" where
  "keeps_mode p \<longleftrightarrow> mode_change p \<and> (\<forall>l. l_flags_on_stack (p l) = l_flags_on_stack l \<and> l_flags_in_flags (p l) = l_flags_in_flags l)"

lemma keeps_modes [simp, intro]: "keeps_mode (\<lambda>l. l)" "keeps_mode dont_care_flags"
  by (simp_all add: keeps_mode_def dont_care_flags_def)

lemma nf_any:
  assumes R: "op_done (16 + t) E mi l" and m: "mo AND FLAG_CZNV = 0" and x: "mo AND FLAG_X \<noteq> 0 \<Longrightarrow> mi AND FLAG_X \<noteq> 0"
    and p: "keeps_mode p" and q: "keeps_mode q" and k: "k \<le> 16" and G: "generates {} (16 + t) E (p (add_pc_offset k l)) r b F"
    and eff: "\<And>V f V' f' g. regs_view V g \<Longrightarrow> g_pc g = pc_at l \<Longrightarrow> F V f V' f' \<Longrightarrow>
      regs_view V' (st g) \<and> V' PC_P = V PC_P \<and> V' FLAGX = V FLAGX \<and> g_pc (st g) = g_pc g"
    and gx: "\<And>g. mo AND FLAG_X \<noteq> 0 \<Longrightarrow> g_x (st g) = g_x g" and K: "K = ucast k"
  shows "translated t E mi mo l (do { l2 \<leftarrow> r; end_inst E (q l2) }) (\<lambda>g. incpc K (st g))"
proof -
  have pq: "mode_change p" "mode_change q" using p q by (simp_all add: keeps_mode_def)
  show ?thesis unfolding K
  proof (rule translated_mid [OF R pq k G])
    fix l2
    assume l2: "kept_rest (p (add_pc_offset k l)) b l2"
    then have "l_flags_in_flags (q l2) = l_flags_in_flags l \<and> l_flags_on_stack (q l2) = l_flags_on_stack l"
      using p q by (simp add: keeps_mode_def same_rest_def)
    then show "(l_flags_in_flags (q l2) = VALID \<or> l_flags_on_stack (q l2) = VALID) \<and> (mo AND FLAG_CZNV \<noteq> 0 \<longrightarrow> tidy_flags (q l2))"
      using R m by (auto simp: op_done_def)
    fix V f V' f' g
    assume v: "view mi l V f g" and F: "F V f V' f'"
    have "regs_view V g" "g_pc g = pc_at l" "x_view mi V g" using v by (simp_all add: view_def)
    note e = eff [OF this(1,2) F]
    have "x_view mo V' (st g)" using e x gx \<open>x_view mi V g\<close> by (auto simp: x_view_def)
    moreover have "ccr_view mo (q l2) V' f' (st g)" using m by (simp add: ccr_view_def)
    ultimately show "regs_view V' (incpc (ucast k) (st g)) \<and> V' PC_P = V PC_P \<and> g_pc (incpc (ucast k) (st g)) = g_pc g + ucast k \<and>
        x_view mo V' (incpc (ucast k) (st g)) \<and> ccr_view mo (q l2) V' f' (incpc (ucast k) (st g))" using e by simp
  qed
qed

text \<open>
  The liveness when no flag the instruction sets is live: nothing of N, Z, V, C for an instruction
  that sets them all, and X only for one that does not set it.
\<close>

definition no_flags :: "u32 \<Rightarrow> u32 \<Rightarrow> u32 \<Rightarrow> bool" where
  "no_flags S mi mo \<longleftrightarrow> mo AND S = 0 \<and> mi = mo AND NOT S"

lemma no_flags_cznv: "no_flags S mi mo \<Longrightarrow> S = 0xF \<or> S = 0x1F \<Longrightarrow> mo AND FLAG_CZNV = 0"
proof -
  assume a: "no_flags S mi mo" "S = 0xF \<or> S = 0x1F"
  then have "mo AND FLAG_CZNV = (mo AND S) AND FLAG_CZNV"
    by (elim disjE) (simp_all add: FLAG_CZNV_def FLAG_N_def FLAG_C_def FLAG_Z_def FLAG_V_def and.assoc)
  with a show ?thesis by (simp add: no_flags_def)
qed

lemma no_flags_x: "no_flags 0xF mi mo \<Longrightarrow> mo AND FLAG_X \<noteq> 0 \<Longrightarrow> mi AND FLAG_X \<noteq> 0" "no_flags 0x1F mi mo \<Longrightarrow> mo AND FLAG_X = 0"
proof -
  assume "no_flags 0xF mi mo" "mo AND FLAG_X \<noteq> 0"
  then show "mi AND FLAG_X \<noteq> 0" by (auto simp: no_flags_def FLAG_X_def and.assoc)
next
  assume "no_flags 0x1F mi mo"
  moreover have "mo AND FLAG_X = (mo AND 0x1F) AND FLAG_X" by (simp add: FLAG_X_def and.assoc)
  ultimately show "mo AND FLAG_X = 0" by (simp add: no_flags_def)
qed

lemma nf_plain:
  fixes op :: "vregs \<Rightarrow> 'a::len word"
  assumes R: "op_done (16 + t) E mi l" and S: "no_flags S mi mo" "S = 0xF \<and> (\<forall>g. g_x (st g) = g_x g) \<or> S = 0x1F"
    and p: "keeps_mode p" and q: "keeps_mode q" and k: "k \<le> 16" and d: "d < 16" and len: "LENGTH('a) \<le> 32"
    and G: "generates {} (16 + t) E (p (add_pc_offset k l)) r b (plain_effect d op)"
    and st: "\<And>V g. regs_view V g \<Longrightarrow> g_pc g = pc_at l \<Longrightarrow> g_reg (st g) = g_reg (genastore d (op V) g) \<and> g_pc (st g) = g_pc g" and K: "K = ucast k"
  shows "translated t E mi mo l (do { l2 \<leftarrow> r; end_inst E (q l2) }) (\<lambda>g. incpc K (st g))"
  unfolding K
proof (rule nf_any [OF R _ _ p q k G _ _ refl])
  show "mo AND FLAG_CZNV = 0" using no_flags_cznv [OF S(1)] S(2) by blast
  show "mo AND FLAG_X \<noteq> 0 \<Longrightarrow> mi AND FLAG_X \<noteq> 0" using no_flags_x S by blast
  show "mo AND FLAG_X \<noteq> 0 \<Longrightarrow> g_x (st g) = g_x g" for g using no_flags_x(2) S by blast
  fix V f V' f' g
  assume v: "regs_view V g" and pc: "g_pc g = pc_at l" and F: "plain_effect d op V f V' f'"
  have w: "writes d (op V) V V'" using F by (simp add: plain_effect_def)
  have "regs_view V' (genastore d (op V) g)" by (rule writes_view [OF v w d len])
  then have "regs_view V' (st g)" using st [OF v pc] by (simp add: regs_view_def)
  moreover have "d \<noteq> FLAGX" "d \<noteq> PC_P" using d by (simp_all add: jit_consts)
  ultimately show "regs_view V' (st g) \<and> V' PC_P = V PC_P \<and> V' FLAGX = V FLAGX \<and> g_pc (st g) = g_pc g"
    using st [OF v pc] w by (simp add: writes_other)
qed

text \<open>No code at all: a comparison whose result is not needed.\<close>

lemma nf_none:
  assumes R: "op_done (16 + t) E mi l" and S: "no_flags 0xF mi mo" and p: "keeps_mode p" and k: "k \<le> 16"
    and st: "\<And>g. g_reg (st g) = g_reg g \<and> g_pc (st g) = g_pc g \<and> g_x (st g) = g_x g" and K: "K = ucast k"
  shows "translated t E mi mo l (end_inst E (p (add_pc_offset k l))) (\<lambda>g. incpc K (st g))"
proof -
  let ?l = "p (add_pc_offset k l)"
  have m: "mode_change p" using p by (simp add: keeps_mode_def)
  have "ready (16 + t) E ?l" using R by (simp add: op_done_def mode_change_simps [OF m])
  then have G: "generates {} (16 + t) E ?l (Some ?l) (l_flags_carry_inverted ?l) (\<lambda>V f V' f'. V' = V)"
    by (rule generates_id) simp
  have "translated t E mi mo l (do { l2 \<leftarrow> Some ?l; end_inst E l2 }) (\<lambda>g. incpc (ucast k) (st g))"
    by (rule nf_any [OF R _ _ p keeps_modes(1) k G _ _ refl])
      (use no_flags_cznv [OF S] no_flags_x(1) [OF S] st in \<open>auto simp: regs_view_def\<close>)
  then show ?thesis unfolding K by simp
qed

section \<open>Translators of instructions that leave the flags alone\<close>

lemma keep_any:
  assumes R: "op_done (16 + t) E m l" and k: "k \<le> 16" and p: "keeps_mode p" "\<And>l. l_flags_are_important (p l) = l_flags_are_important l"
    and G: "generates {} (16 + t) E (p (add_pc_offset k l)) r (l_flags_carry_inverted l) F"
    and eff: "\<And>V f V' f' g. regs_view V g \<Longrightarrow> g_pc g = pc_at l \<Longrightarrow> F V f V' f' \<Longrightarrow>
      regs_view V' (st g) \<and> V' PC_P = V PC_P \<and> V' FLAGX = V FLAGX \<and> V' FLAGTMP = V FLAGTMP \<and> f' = f \<and> g_pc (st g) = g_pc g \<and>
      g_x (st g) = g_x g \<and> g_ccr (st g) = g_ccr g" and K: "K = ucast k"
  shows "translated t E m m l (do { l2 \<leftarrow> r; end_inst E l2 }) (\<lambda>g. incpc K (st g))"
proof -
  have pm: "mode_change p" using p by (simp add: keeps_mode_def)
  show ?thesis unfolding K
  proof (rule translated_mid [OF R pm mode_changes(1) k G])
    fix l2
    assume l2: "kept_rest (p (add_pc_offset k l)) (l_flags_carry_inverted l) l2"
    then have m: "l_flags_in_flags l2 = l_flags_in_flags l" "l_flags_on_stack l2 = l_flags_on_stack l"
      "l_flags_are_important l2 = l_flags_are_important l" "l_flags_carry_inverted l2 = l_flags_carry_inverted l"
      using p by (simp_all add: keeps_mode_def same_rest_def)
    then show "(l_flags_in_flags l2 = VALID \<or> l_flags_on_stack l2 = VALID) \<and> (m AND FLAG_CZNV \<noteq> 0 \<longrightarrow> tidy_flags l2)"
      using R by (auto simp: op_done_def tidy_flags_def)
    fix V f V' f' g
    assume v: "view m l V f g" and F: "F V f V' f'"
    have "regs_view V g" "g_pc g = pc_at l" "x_view m V g" "ccr_view m l V f g" using v by (simp_all add: view_def)
    note e = eff [OF this(1,2) F] and w = this(3,4)
    have "ccr_view m l2 V' f' (st g)"
      using w(2) e m by (auto simp: ccr_view_def ccr_rep_def)
    moreover have "x_view m V' (st g)" using w(1) e by (simp add: x_view_def)
    ultimately show "regs_view V' (incpc (ucast k) (st g)) \<and> V' PC_P = V PC_P \<and> g_pc (incpc (ucast k) (st g)) = g_pc g + ucast k \<and>
        x_view m V' (incpc (ucast k) (st g)) \<and> ccr_view m l2 V' f' (incpc (ucast k) (st g))" using e by simp
  qed
qed

lemma keep_plain:
  assumes R: "op_done (16 + t) E m l" and k: "k \<le> 16" and d: "d < 16"
    and G: "generates {} (16 + t) E (add_pc_offset k l) r (l_flags_carry_inverted (add_pc_offset k l)) (plain_effect d op)"
    and op: "\<And>V g. regs_view V g \<Longrightarrow> g_pc g = pc_at l \<Longrightarrow> (op V :: u32) = op' g" and K: "K = ucast k"
  shows "translated t E m m l (do { l2 \<leftarrow> r; end_inst E l2 }) (\<lambda>g. incpc K (genastore d (op' g) g))"
  unfolding K
proof (rule keep_any [OF R k keeps_modes(1) refl G [unfolded add_pc_offset_simps(8)] _ refl])
  fix V f V' f' g
  assume v: "regs_view V g" and pc: "g_pc g = pc_at l" and F: "plain_effect d op V f V' f'"
  have F': "writes d (op' g) V V'" "f' = f" using F op [OF v pc] by (simp_all add: plain_effect_def)
  have "regs_view V' (genastore d (op' g) g)" by (rule writes_view [OF v F'(1) d]) simp
  moreover have "d \<noteq> FLAGX" "d \<noteq> PC_P" "d \<noteq> FLAGTMP" using d by (simp_all add: jit_consts)
  ultimately show "regs_view V' (genastore d (op' g) g) \<and> V' PC_P = V PC_P \<and> V' FLAGX = V FLAGX \<and> V' FLAGTMP = V FLAGTMP \<and> f' = f \<and>
      g_pc (genastore d (op' g) g) = g_pc g \<and> g_x (genastore d (op' g) g) = g_x g \<and> g_ccr (genastore d (op' g) g) = g_ccr g"
    using F' by (simp add: writes_other)
qed

section \<open>Translators of bit instructions\<close>

text \<open>\<^verbatim>\<open>make_flags_live\<close> before a bit instruction, which changes Z and leaves the others.\<close>

lemma make_flags_live_any:
  assumes r: "ready (8 + t) E l" and u: "status l FLAGTMP \<noteq> UNDEF" and v: "l_flags_in_flags l = VALID \<or> l_flags_on_stack l = VALID"
  obtains l' where "make_flags_live E l = Some l'" "ready t E l'" "l_flags_in_flags l' = VALID"
    "same_rest (l\<lparr>l_flags_in_flags := VALID, l_flags_carry_inverted := l_flags_carry_inverted l'\<rparr>) l'"
    "\<And>q. q < VREGS \<Longrightarrow> status l q \<noteq> UNDEF \<Longrightarrow> status l' q \<noteq> UNDEF"
    "sim {} E l l' (\<lambda>V f V' f'. V' = V \<and> (\<forall>k. ccr_rep l V f k \<longrightarrow> ccr_of (l_flags_carry_inverted l') f' = k))"
proof (cases "l_flags_in_flags l = VALID")
  case True
  have "ready t E l" using r by (auto simp: ready_def intro: touch_ok_le)
  moreover have "sim {} E l l (\<lambda>V f V' f'. V' = V \<and> (\<forall>k. ccr_rep l V f k \<longrightarrow> ccr_of (l_flags_carry_inverted l) f' = k))"
    by (rule sim_state) (auto simp: ccr_rep_def True)
  ultimately show thesis using True by (intro that [of l]) (simp_all add: make_flags_live_def make_flags_live_internal_def same_rest_def)
next
  case False
  with v have os: "l_flags_on_stack l = VALID" by simp
  obtain l1 where l1: "do { (n, l1) \<leftarrow> readreg E FLAGTMP l; unlock2 n (raw_reg_to_flags n l1) } = Some l1" "compiled {} (8 + t) E l l1 load_effect"
    using load_flags_ok [OF r u] by (auto simp: generates_def)
  let ?l = "(set_carry_inverted False l1)\<lparr>l_flags_in_flags := VALID\<rparr>"
  have k: "others_kept l l1" "sim {} E l l1 load_effect" using l1(2) by (simp_all add: compiled_def)
  show thesis
  proof (rule that [of ?l])
    show "make_flags_live E l = Some ?l"
      using l1(1) os False by (auto simp: make_flags_live_def make_flags_live_internal_def case_prod_unfold split: bind_splits)
    show "ready t E ?l" using ready_compiled [OF r l1(2)] by simp
    show "same_rest (l\<lparr>l_flags_in_flags := VALID, l_flags_carry_inverted := l_flags_carry_inverted ?l\<rparr>) ?l"
      using k(1) by (simp add: others_kept_def same_rest_def set_carry_inverted_def)
    show "status ?l q \<noteq> UNDEF" if "q < VREGS" "status l q \<noteq> UNDEF" for q
      using k(1) that by (simp add: others_kept_def set_carry_inverted_def)
    have "sim {} E l ?l load_effect" by (rule sim_same_state [OF k(2)]) (simp_all add: set_carry_inverted_def)
    then show "sim {} E l ?l (\<lambda>V f V' f'. V' = V \<and> (\<forall>k. ccr_rep l V f k \<longrightarrow> ccr_of (l_flags_carry_inverted ?l) f' = k))"
      by (rule sim_mono) (auto simp: load_effect_def ccr_rep_def os set_carry_inverted_def)
  qed simp
qed

definition only_Z :: "nzcv_flags \<Rightarrow> nzcv_flags \<Rightarrow> ccr4 \<Rightarrow> ccr4 \<Rightarrow> bool" where
  "only_Z f f' k k' \<longleftrightarrow> (\<exists>z. (case f of (n, y, c, v) \<Rightarrow> f' = (n, z, c, v)) \<and> (case k of (n, y, v, c) \<Rightarrow> k' = (n, z, v, c)))"

lemma only_Z_agree:
  assumes "only_Z f f' k k'" "mo AND FLAG_CZNV \<noteq> 0" "mi = mo AND NOT FLAG_Z"
    "mi AND FLAG_CZNV \<noteq> 0 \<Longrightarrow> ccr_agree mi (ccr_of i f) k"
  shows "ccr_agree mo (ccr_of i f') k'"
proof -
  have m: "mi AND FLAG_N = mo AND FLAG_N" "mi AND FLAG_V = mo AND FLAG_V" "mi AND FLAG_C = mo AND FLAG_C"
    using assms(3) by (simp_all add: FLAG_N_def FLAG_C_def FLAG_Z_def FLAG_V_def and.assoc)
  have "mi AND FLAG_CZNV \<noteq> 0" if "mi AND FLAG_N \<noteq> 0 \<or> mi AND FLAG_V \<noteq> 0 \<or> mi AND FLAG_C \<noteq> 0"
  proof
    assume z: "mi AND FLAG_CZNV = 0"
    have "mi AND FLAG_N = (mi AND FLAG_CZNV) AND FLAG_N" "mi AND FLAG_V = (mi AND FLAG_CZNV) AND FLAG_V"
      "mi AND FLAG_C = (mi AND FLAG_CZNV) AND FLAG_C"
      by (simp_all add: FLAG_CZNV_def FLAG_N_def FLAG_C_def FLAG_Z_def FLAG_V_def and.assoc)
    with z that show False by simp
  qed
  note z = this
  obtain n y c v n' y' v' c' where k: "f = (n, y, c, v)" "k = (n', y', v', c')" by (metis prod_cases4)
  with assms(1) obtain z where "f' = (n, z, c, v)" "k' = (n', z, v', c')" by (auto simp: only_Z_def)
  with k assms(4) z m show ?thesis
    by (cases "mi AND FLAG_N \<noteq> 0 \<or> mi AND FLAG_V \<noteq> 0 \<or> mi AND FLAG_C \<noteq> 0") (simp_all add: ccr_agree_def ccr_of_def)
qed

lemma ff_bits:
  assumes R: "op_done (24 + t) E mi l" and S: "sets_flags 4 mi mo l" and k: "k \<le> 16"
    and G: "\<And>l1. ready (16 + t) E l1 \<Longrightarrow> (\<And>r. r < 16 \<Longrightarrow> operand r l1) \<Longrightarrow> generates {} (16 + t) E l1 (M l1) (l_flags_carry_inverted l1) F"
    and eff: "\<And>V f V' f' g. regs_view V g \<Longrightarrow> g_pc g = pc_at l \<Longrightarrow> F V f V' f' \<Longrightarrow>
      regs_view V' (st g) \<and> V' PC_P = V PC_P \<and> V' FLAGX = V FLAGX \<and> g_pc (st g) = g_pc g \<and> g_x (st g) = g_x g \<and>
      only_Z f f' (g_ccr g) (g_ccr (st g))" and K: "K = ucast k"
  shows "translated t E mi mo l (do { l1 \<leftarrow> make_flags_live E (add_pc_offset k l); l2 \<leftarrow> M l1; end_inst E (live_flags l2) })
    (\<lambda>g. incpc K (st g))"
proof -
  let ?l = "add_pc_offset k l"
  have r: "ready (8 + (16 + t)) E ?l" "status ?l FLAGTMP \<noteq> UNDEF" "l_flags_in_flags ?l = VALID \<or> l_flags_on_stack ?l = VALID"
    using R by (simp_all add: op_done_def jit_consts add.assoc [symmetric])
  obtain l1 where l1: "make_flags_live E ?l = Some l1" "ready (16 + t) E l1" "l_flags_in_flags l1 = VALID"
    "same_rest (?l\<lparr>l_flags_in_flags := VALID, l_flags_carry_inverted := l_flags_carry_inverted l1\<rparr>) l1"
    "\<And>q. q < VREGS \<Longrightarrow> status ?l q \<noteq> UNDEF \<Longrightarrow> status l1 q \<noteq> UNDEF"
    "sim {} E ?l l1 (\<lambda>V f V' f'. V' = V \<and> (\<forall>k. ccr_rep ?l V f k \<longrightarrow> ccr_of (l_flags_carry_inverted l1) f' = k))"
    (is "sim {} E ?l l1 ?A") using make_flags_live_any [OF r] by blast
  let ?i = "l_flags_carry_inverted l1"
  have o: "operand r l1" if "r < 16" for r using R l1(5) [of r] that by (simp add: op_done_def operand_def jit_consts)
  obtain l2 where l2: "M l1 = Some l2" "compiled {} (8 + (8 + t)) E l1 l2 F" "l_flags_carry_inverted l2 = ?i"
    using G [OF l1(2) o] by (auto simp: generates_def add.assoc [symmetric])
  have r2: "ready (8 + t) E l2" by (rule ready_compiled [OF l1(2) l2(2)])
  have k2: "others_kept l1 l2" "sim {} E l1 l2 F" using l2(2) by (simp_all add: compiled_def)
  have S2: "sim {} E l l2 (\<lambda>V f V' f'. \<exists>V1 f1. ?A V f V1 f1 \<and> F V1 f1 V' f')"
    using sim_trans [OF l1(6) k2(2)] by (simp add: sim_def)
  have "translated t E mi mo l (do { l2 \<leftarrow> Some l2; end_inst E (live_flags l2) }) (\<lambda>g. incpc K (st g))"
  proof (rule translated_core [OF R k mode_changes(2) refl r2 _ S2])
    show "status l2 q \<noteq> UNDEF" if "q < S1" "status l q \<noteq> UNDEF" for q
      using that l1(5) [of q] k2(1) by (simp add: others_kept_def jit_consts)
    show "l_comp_pc_p l2 = l_comp_pc_p l" "l_m68k_pc_offset l2 = l_m68k_pc_offset l + k"
      using l1(4) k2(1) by (simp_all add: others_kept_def same_rest_def)
    show "(l_flags_in_flags (live_flags l2) = VALID \<or> l_flags_on_stack (live_flags l2) = VALID) \<and> (mo AND FLAG_CZNV \<noteq> 0 \<longrightarrow> tidy_flags (live_flags l2))"
      by (simp add: live_flags_def tidy_flags_def)
    fix V f V' f' g
    assume v: "view mi l V f g" and "\<exists>V1 f1. ?A V f V1 f1 \<and> F V1 f1 V' f'"
    then obtain f1 where f1: "\<forall>k. ccr_rep ?l V f k \<longrightarrow> ccr_of ?i f1 = k" "F V f1 V' f'" by blast
    have w: "regs_view V g" "g_pc g = pc_at l" "x_view mi V g" "ccr_view mi l V f g" using v by (simp_all add: view_def)
    note e = eff [OF w(1,2) f1(2)]
    have m: "mi = mo AND NOT FLAG_Z" using S by (simp add: sets_flags_def FLAG_Z_def)
    have "mi AND FLAG_X = mo AND FLAG_X" by (simp add: m FLAG_Z_def FLAG_X_def and.assoc)
    then have x: "x_view mo V' (st g)" using e w(3) by (simp add: x_view_def)
    have "ccr_view mo (live_flags l2) V' f' (st g)"
      unfolding ccr_view_def
    proof
      assume mo: "mo AND FLAG_CZNV \<noteq> 0"
      have "ccr_agree mo (ccr_of ?i f') (g_ccr (st g))"
      proof (rule only_Z_agree [OF _ mo m])
        show "only_Z f1 f' (g_ccr g) (g_ccr (st g))" using e by simp
        assume "mi AND FLAG_CZNV \<noteq> 0"
        then obtain k where "ccr_rep l V f k" "ccr_agree mi k (g_ccr g)" using w(4) by (auto simp: ccr_view_def)
        moreover from this(1) have "ccr_rep ?l V f k" by (simp add: ccr_rep_def)
        ultimately show "ccr_agree mi (ccr_of ?i f1) (g_ccr g)" using f1(1) by metis
      qed
      then show "\<exists>k. ccr_rep (live_flags l2) V' f' k \<and> ccr_agree mo k (g_ccr (st g))"
        by (intro exI [of _ "ccr_of ?i f'"]) (simp add: ccr_rep_def live_flags_def l2(3))
    qed
    then show "regs_view V' (incpc K (st g)) \<and> V' PC_P = V PC_P \<and> g_pc (incpc K (st g)) = g_pc g + ucast k \<and>
        x_view mo V' (incpc K (st g)) \<and> ccr_view mo (live_flags l2) V' f' (incpc K (st g))" using e x K by simp
  qed
  then show ?thesis using l1(1) l2(1) by simp
qed

section \<open>Decoding\<close>

abbreviation lo_reg :: "u32 \<Rightarrow> nat" where "lo_reg opcode \<equiv> unat (opcode AND 7)"
abbreviation hi_reg :: "u32 \<Rightarrow> nat" where "hi_reg opcode \<equiv> unat (drop_bit 9 opcode AND 7)"

lemma reg_less [simp]: "unat ((w :: u32) AND 7) < 16" "unat (w AND 7) < 8" "unat (w AND 7) + 8 < 16"
proof -
  have "w AND 7 = take_bit 3 w" by (simp add: take_bit_eq_mask mask_eq_exp_minus_1)
  then have "unat (w AND 7) < 8" by (simp add: unsigned_take_bit_eq take_bit_nat_less_exp [of 3, simplified])
  then show "unat (w AND 7) < 16" "unat (w AND 7) < 8" "unat (w AND 7) + 8 < 16" by simp_all
qed

lemma op_operand: "op_done t E m l \<Longrightarrow> r < 16 \<Longrightarrow> operand r l"
  by (simp add: op_done_def operand_def jit_consts)

lemma ready_modes [simp]:
  "ready t E (dont_care_flags l) = ready t E l" "operand r (dont_care_flags l) = operand r l"
  "operand r (add_pc_offset k l) = operand r l" "l_flags_carry_inverted (dont_care_flags l) = l_flags_carry_inverted l"
  "l_needed_flags (dont_care_flags l) = l_needed_flags l" "isconst (dont_care_flags l) r = isconst l r"
  "l_state (dont_care_flags l) = l_state l"
  by (simp_all add: mode_change_simps operand_def)

lemma op_done_le: "op_done t' E m l \<Longrightarrow> t \<le> t' \<Longrightarrow> op_done t E m l"
  by (auto simp: op_done_def ready_def intro: touch_ok_le)

lemma op_ready_done: "op_ready (64 + t) E m l \<Longrightarrow> op_done (16 + t) E m l"
  by (rule op_done_le [of "64 + t"]) (simp_all add: op_ready_def)

lemma op_done_ready: "op_done t E m l \<Longrightarrow> ready t E l"
  by (simp add: op_done_def)

lemma comp_get_offset [simp]:
  "comp_get_ibyte H (add_pc_offset k l) j = comp_get_ibyte H l j" "comp_get_iword H (add_pc_offset k l) j = comp_get_iword H l j"
  "comp_get_ilong H (add_pc_offset k l) j = comp_get_ilong H l j"
  by (simp_all add: comp_get_ibyte_def comp_get_iword_def comp_get_ilong_def)

lemma imm_view:
  assumes "op_done t E m l" "g_pc g = pc_at l"
  shows "get_dibyte H 2 g = comp_get_ibyte H l (l_m68k_pc_offset l + 2)"
    "get_diword H 2 g = comp_get_iword H l (l_m68k_pc_offset l + 2)" "get_dilong H 2 g = comp_get_ilong H l (l_m68k_pc_offset l + 2)"
proof -
  have "(ucast (l_m68k_pc_offset l + 2) :: u64) = ucast (l_m68k_pc_offset l) + 2"
    using ucast_add_small [of "l_m68k_pc_offset l" 2] assms(1) by (simp add: op_done_def)
  then show "get_dibyte H 2 g = comp_get_ibyte H l (l_m68k_pc_offset l + 2)"
    "get_diword H 2 g = comp_get_iword H l (l_m68k_pc_offset l + 2)" "get_dilong H 2 g = comp_get_ilong H l (l_m68k_pc_offset l + 2)"
    using assms(2) by (simp_all add: get_dibyte_def get_diword_def get_dilong_def comp_get_ibyte_def comp_get_iword_def
      comp_get_ilong_def pc_at_def add.assoc)
qed

lemma fetch_regs: "regs_view V g \<Longrightarrow> r < 16 \<Longrightarrow> LENGTH('a) \<le> 32 \<Longrightarrow> fetch_reg r g = (ucast (V r) :: 'a::len word)"
  using fetch_view by metis

text \<open>The interpreter writes the source operand first.\<close>

lemma i_logic_swap:
  "i_AND src d g = store_logical d (fetch_reg d g AND src) g" "i_OR src d g = store_logical d (fetch_reg d g OR src) g"
  "i_EOR src d g = store_logical d (fetch_reg d g XOR src) g"
  by (simp_all add: i_AND_def i_OR_def i_EOR_def and.commute or.commute xor.commute)

lemma i_SWAP_rotr: "i_SWAP d g = store_logical d (word_rotr 16 (fetch_reg d g :: u32)) g"
proof -
  have "(drop_bit 16 x AND 0xFFFF) OR push_bit 16 (x AND 0xFFFF) = word_rotr 16 x" for x :: u32
  proof (rule bit_word_eqI)
    fix n
    assume n: "n < LENGTH(32)"
    have m: "(0xFFFF :: u32) = mask 16" by (simp add: mask_eq_exp_minus_1)
    show "bit ((drop_bit 16 x AND 0xFFFF) OR push_bit 16 (x AND 0xFFFF)) n = bit (word_rotr 16 x) n"
      unfolding m using n by (cases "n < 16") (auto simp: bit_simps bit_word_rotr_iff mod_if add.commute)
  qed
  then show ?thesis by (simp add: i_SWAP_def Let_def)
qed

lemma ucast_scast_imm [simp]:
  "ucast (scast (b :: u8) :: u32) = b" "ucast (scast (w :: u16) :: u32) = w"
  by (rule bit_word_eqI; simp add: bit_simps bit_ucast_iff bit_signed_iff)+

lemma imm8_small: "i < 8 \<Longrightarrow> scast (ucast (imm8_table i) :: u16) = imm8_table i"
proof -
  assume "i < 8"
  then have "i = 0 \<or> i = 1 \<or> i = 2 \<or> i = 3 \<or> i = 4 \<or> i = 5 \<or> i = 6 \<or> i = 7" by arith
  then show ?thesis by (elim disjE) (simp_all add: imm8_table_def)
qed

lemma op_ready_done24: "op_ready (64 + t) E m l \<Longrightarrow> op_done (24 + t) E m l"
  by (rule op_done_le [of "64 + t"]) (simp_all add: op_ready_def)

lemma SET_Z_simps [simp]: "g_reg (SET_Z b g) = g_reg g" "g_pc (SET_Z b g) = g_pc g" "g_x (SET_Z b g) = g_x g"
  by (simp_all add: SET_Z_def split: prod.splits)

text \<open>
  A bit instruction whose Z is not live. Its translator also gives up N, V and C, so that it is correct
  only when none of them is live.
\<close>

lemma no_flags_z: "no_flags 4 mi mo \<Longrightarrow> mo AND FLAG_X \<noteq> 0 \<Longrightarrow> mi AND FLAG_X \<noteq> 0"
  by (auto simp: no_flags_def FLAG_X_def and.assoc)

lemma nf_z:
  assumes R: "op_done (16 + t) E mi l" and S: "no_flags 4 mi mo" and m: "mo AND FLAG_CZNV = 0" and k: "k \<le> 16" and d: "d < 16"
    and G: "generates {} (16 + t) E (add_pc_offset k l) r b (plain_effect d op)"
    and st: "\<And>V g. regs_view V g \<Longrightarrow> g_pc g = pc_at l \<Longrightarrow>
      g_reg (st g) = g_reg (genastore d (op V :: u32) g) \<and> g_pc (st g) = g_pc g \<and> g_x (st g) = g_x g"
    and gx: "\<And>g. g_x (st g) = g_x g" and K: "K = ucast k"
  shows "translated t E mi mo l (do { l2 \<leftarrow> r; end_inst E (dont_care_flags l2) }) (\<lambda>g. incpc K (st g))"
  unfolding K
proof (rule nf_any [OF R m no_flags_z [OF S] keeps_modes(1,2) k G _ gx refl])
  fix V f V' f' g
  assume v: "regs_view V g" and pc: "g_pc g = pc_at l" and F: "plain_effect d op V f V' f'"
  have w: "writes d (op V) V V'" using F by (simp add: plain_effect_def)
  have "regs_view V' (genastore d (op V) g)" by (rule writes_view [OF v w d]) simp
  then have "regs_view V' (st g)" using st [OF v pc] by (simp add: regs_view_def)
  moreover have "d \<noteq> FLAGX" "d \<noteq> PC_P" using d by (simp_all add: jit_consts)
  ultimately show "regs_view V' (st g) \<and> V' PC_P = V PC_P \<and> V' FLAGX = V FLAGX \<and> g_pc (st g) = g_pc g"
    using st [OF v pc] w by (simp add: writes_other)
qed

lemma nf_z_none:
  assumes R: "op_done (16 + t) E mi l" and S: "no_flags 4 mi mo" and m: "mo AND FLAG_CZNV = 0" and p: "keeps_mode p" and k: "k \<le> 16"
    and st: "\<And>g. g_reg (st g) = g_reg g \<and> g_pc (st g) = g_pc g \<and> g_x (st g) = g_x g" and K: "K = ucast k"
  shows "translated t E mi mo l (end_inst E (p (add_pc_offset k l))) (\<lambda>g. incpc K (st g))"
proof -
  let ?l = "p (add_pc_offset k l)"
  have pm: "mode_change p" using p by (simp add: keeps_mode_def)
  have "ready (16 + t) E ?l" using R by (simp add: op_done_def mode_change_simps [OF pm])
  then have G: "generates {} (16 + t) E ?l (Some ?l) (l_flags_carry_inverted ?l) (\<lambda>V f V' f'. V' = V)"
    by (rule generates_id) simp
  have "translated t E mi mo l (do { l2 \<leftarrow> Some ?l; end_inst E l2 }) (\<lambda>g. incpc (ucast k) (st g))"
    by (rule nf_any [OF R m no_flags_z [OF S] p keeps_modes(1) k G _ _ refl]) (use st in \<open>auto simp: regs_view_def\<close>)
  then show ?thesis unfolding K by simp
qed

end
