(* ===== verification/Jit_Scratch.thy ===== *)
theory Jit_Scratch
  imports Jit_Guest
begin

unbundle bit_operations_syntax

text \<open>
  Translators that use a scratch register: an immediate operand is put into the virtual register
  S1 as a constant (\<^verbatim>\<open>alloc_scratch\<close>, \<^verbatim>\<open>mov_l_ri\<close>), and the mid-level function reads it
  from there. Between two instructions no scratch register is in use.
\<close>

section \<open>A constant in a scratch register\<close>

definition use_scratch :: "live \<Rightarrow> live" where
  "use_scratch l = l\<lparr>l_scratch_in_use := (l_scratch_in_use l)(0 := True)\<rparr>"

definition scratch_const :: "u32 \<Rightarrow> live \<Rightarrow> live" where
  "scratch_const v l = set_status S1 ISCONST (upd_state S1 (\<lambda>x. x\<lparr>rs_val := ucast v\<rparr>) l)"

lemma keeps_use_scratch [simp, intro]: "keeps_mode use_scratch" "keeps_mode (\<lambda>l. dont_care_flags (use_scratch l))"
  "mode_change (\<lambda>l. dont_care_flags (use_scratch l))"
proof -
  have m: "mode_change use_scratch"
    unfolding mode_change_def
  proof
    fix l
    have "use_scratch l = l\<lparr>l_flags_on_stack := l_flags_on_stack l, l_flags_in_flags := l_flags_in_flags l,
      l_flags_are_important := l_flags_are_important l, l_scratch_in_use := (l_scratch_in_use l)(0 := True)\<rparr>"
      by (simp add: use_scratch_def)
    then show "\<exists>a b c u. use_scratch l = l\<lparr>l_flags_on_stack := a, l_flags_in_flags := b, l_flags_are_important := c, l_scratch_in_use := u\<rparr>"
      by blast
  qed
  show "keeps_mode use_scratch" using m by (simp add: keeps_mode_def use_scratch_def)
  show "mode_change (\<lambda>l. dont_care_flags (use_scratch l))" by (rule mode_change_comp [OF mode_changes(3) m])
  then show "keeps_mode (\<lambda>l. dont_care_flags (use_scratch l))"
    by (simp add: keeps_mode_def use_scratch_def dont_care_flags_def)
qed

lemma use_scratch_simps [simp]:
  "add_pc_offset k (use_scratch l) = use_scratch (add_pc_offset k l)" "l_m68k_pc_offset (use_scratch l) = l_m68k_pc_offset l"
  "comp_get_ibyte H (use_scratch l) j = comp_get_ibyte H l j" "comp_get_iword H (use_scratch l) j = comp_get_iword H l j"
  "comp_get_ilong H (use_scratch l) j = comp_get_ilong H l j" "l_state (use_scratch l) = l_state l"
  "dont_care_flags (scratch_const v l) = scratch_const v (dont_care_flags l)"
  "l_flags_carry_inverted (use_scratch l) = l_flags_carry_inverted l" "ready t E (use_scratch l) = ready t E l"
  "operand r (use_scratch l) = operand r l" "isconst (use_scratch l) r = isconst l r"
  by (simp_all add: use_scratch_def add_pc_offset_def comp_get_ibyte_def comp_get_iword_def comp_get_ilong_def
    scratch_const_def dont_care_flags_def set_status_def upd_state_def ready_def wf_def isinreg_def touch_ok_def operand_def isconst_def)

lemma scratch_const_simps [simp]:
  "l_code (scratch_const v l) = l_code l" "l_nat (scratch_const v l) = l_nat l" "l_touchcnt (scratch_const v l) = l_touchcnt l"
  "l_flags_carry_inverted (scratch_const v l) = l_flags_carry_inverted l" "same_rest l (scratch_const v l)"
  "l_state (scratch_const v l) = (l_state l)(S1 := (l_state l S1)\<lparr>rs_val := ucast v, rs_status := ISCONST\<rparr>)"
  by (simp_all add: scratch_const_def set_status_def upd_state_def same_rest_def)

lemma alloc_fresh:
  "op_ready t E m l \<Longrightarrow> alloc_scratch (add_pc_offset k l) = Some (S1, use_scratch (add_pc_offset k l))"
  by (simp add: op_ready_def alloc_scratch_def use_scratch_def SCRATCH_REGS_def upt_rec)

lemma fresh_status: "op_ready t E m l \<Longrightarrow> status l S1 = UNDEF"
  by (simp add: op_ready_def jit_consts)

lemma load_const: "status l S1 = UNDEF \<Longrightarrow> mov_l_ri E S1 (ucast v) l = Some (scratch_const v l)"
  by (simp add: mov_l_ri_def set_const_absent isinreg_def scratch_const_def jit_consts)

lemma ready_scratch_const: assumes "ready t E l" "status l S1 = UNDEF" shows "ready t E (scratch_const v l)"
proof -
  have w: "wf l" using assms by (simp add: ready_def)
  have "wf (scratch_const v l)" by (rule wf_cong [OF _ _ _ _ _ _ w]) (use assms(2) in \<open>auto simp: isinreg_def\<close>)
  then show ?thesis using assms(1) by (simp add: ready_def touch_ok_def)
qed

lemma operand_scratch_const: "operand S1 (scratch_const v l)" "operand r l \<Longrightarrow> operand r (scratch_const v l)"
  by (auto simp: operand_def jit_consts)

lemma generates_scratch:
  assumes r: "ready t E l" and u: "status l S1 = UNDEF" and G: "generates {} t E (scratch_const w l) x b F"
  shows "generates {} t E l x b (\<lambda>V f V' f'. F (V(S1 := ucast w)) f V' f')"
proof -
  let ?l = "scratch_const w l"
  obtain l' where l': "x = Some l'" "compiled {} t E ?l l' F" "l_flags_carry_inverted l' = b" using G by (auto simp: generates_def)
  have rep: "rep {} E ?l s (V(S1 := ucast w))" if "rep {} E l s V" for s V
    using that by (auto simp: rep_def vrep_def agree_def split: vstatus.splits)
  obtain c where c: "l_code l' = l_code l @ c" "closed c" "\<And>s V. rep {} E ?l s V \<Longrightarrow> \<exists>V'. rep {} E l' (exec c s) V' \<and>
      outer E s (exec c s) \<and> F V (nzcv s) V' (nzcv (exec c s))" using l'(2) by (auto simp: compiled_def sim_def)
  have "sim {} E l l' (\<lambda>V f V' f'. F (V(S1 := ucast w)) f V' f')" unfolding sim_def using c(1,2) c(3) [OF rep] by blast
  moreover have "others_kept l ?l" using scratch_const_simps(5) [of l w] by (simp add: others_kept_def same_rest_def)
  then have "others_kept l l'" using l'(2) others_kept_trans by (auto simp: compiled_def)
  ultimately have "compiled {} t E l l' (\<lambda>V f V' f'. F (V(S1 := ucast w)) f V' f')" using l'(2) by (simp add: compiled_def)
  then show ?thesis using l' by (simp add: generates_def)
qed

lemma scratch_view: "regs_view (V(S1 := w)) g = regs_view V g" "S1 \<noteq> PC_P" "S1 \<noteq> FLAGX" "S1 \<noteq> FLAGTMP" "\<not> S1 < 16"
  "PC_P \<noteq> S1" "FLAGX \<noteq> S1" "FLAGTMP \<noteq> S1"
  by (auto simp: regs_view_def jit_consts)

section \<open>Translators\<close>

lemma keep_scratch:
  assumes R: "op_ready (64 + t) E m l" and k: "k \<le> 16" and d: "d < 16"
    and G: "generates {} (16 + t) E (scratch_const w (use_scratch (add_pc_offset k l))) r
      (l_flags_carry_inverted (scratch_const w (use_scratch (add_pc_offset k l)))) (plain_effect d op)"
    and op: "\<And>V g. regs_view V g \<Longrightarrow> g_pc g = pc_at l \<Longrightarrow> V S1 = ucast w \<Longrightarrow> (op V :: u32) = op' g" and K: "K = ucast k"
  shows "translated t E m m l (do { l2 \<leftarrow> r; end_inst E l2 }) (\<lambda>g. incpc K (genastore d (op' g) g))"
proof -
  let ?l = "use_scratch (add_pc_offset k l)"
  have u: "ready (16 + t) E ?l" "status ?l S1 = UNDEF" using op_done_ready [OF op_ready_done [OF R]] fresh_status [OF R] by simp_all
  have i: "l_flags_are_important (use_scratch x) = l_flags_are_important x" for x by (simp add: use_scratch_def)
  note G' = generates_scratch [OF u G, simplified]
  show ?thesis
  proof (rule keep_any [OF op_ready_done [OF R] k keeps_use_scratch(1) i G' _ K])
    fix V f V' f' g
    assume v: "regs_view V g" and pc: "g_pc g = pc_at l" and F: "plain_effect d op (V(S1 := ucast w)) f V' f'"
    have o: "op (V(S1 := ucast w)) = op' g" by (rule op [OF _ pc]) (use v in \<open>simp_all add: scratch_view\<close>)
    have w: "writes d (op' g) (V(S1 := ucast w)) V'" "f' = f" using F o by (simp_all add: plain_effect_def)
    have "regs_view V' (genastore d (op' g) g)" by (rule writes_view [OF _ w(1) d]) (use v in \<open>simp_all add: scratch_view\<close>)
    moreover have "d \<noteq> FLAGX" "d \<noteq> PC_P" "d \<noteq> FLAGTMP" using d by (simp_all add: jit_consts)
    ultimately show "regs_view V' (genastore d (op' g) g) \<and> V' PC_P = V PC_P \<and> V' FLAGX = V FLAGX \<and> V' FLAGTMP = V FLAGTMP \<and> f' = f \<and>
        g_pc (genastore d (op' g) g) = g_pc g \<and> g_x (genastore d (op' g) g) = g_x g \<and> g_ccr (genastore d (op' g) g) = g_ccr g"
      using w by (simp add: writes_other scratch_view)
  qed
qed

lemma nf_scratch:
  assumes R: "op_ready (64 + t) E mi l" and S: "no_flags 0xF mi mo" and k: "k \<le> 16" and d: "d < 16"
    and G: "generates {} (16 + t) E (scratch_const w (dont_care_flags (use_scratch (add_pc_offset k l)))) r b (plain_effect d op)"
    and st: "\<And>V g. regs_view V g \<Longrightarrow> g_pc g = pc_at l \<Longrightarrow> V S1 = ucast w \<Longrightarrow>
      g_reg (st g) = g_reg (genastore d (op V :: u32) g) \<and> g_pc (st g) = g_pc g"
    and gx: "\<And>g. g_x (st g) = g_x g" and K: "K = ucast k"
  shows "translated t E mi mo l (do { l2 \<leftarrow> r; end_inst E l2 }) (\<lambda>g. incpc K (st g))"
proof -
  let ?l = "dont_care_flags (use_scratch (add_pc_offset k l))"
  have u: "ready (16 + t) E ?l" "status ?l S1 = UNDEF" using op_done_ready [OF op_ready_done [OF R]] fresh_status [OF R] by simp_all
  have "S1 \<noteq> d" using d by (simp add: jit_consts)
  show ?thesis
  proof (rule nf_any [OF op_ready_done [OF R] no_flags_cznv [OF S] no_flags_x(1) [OF S] keeps_use_scratch(2) keeps_modes(1) k
      generates_scratch [OF u G] _ gx K])
    show "0xF = 0xF \<or> 0xF = (0x1F :: u32)" by simp
    fix V f V' f' g
    assume v: "regs_view V g" and pc: "g_pc g = pc_at l" and F: "plain_effect d op (V(S1 := ucast w)) f V' f'"
    let ?V = "V(S1 := ucast w)"
    have s: "g_reg (st g) = g_reg (genastore d (op ?V) g) \<and> g_pc (st g) = g_pc g"
      by (rule st [OF _ pc]) (use v in \<open>simp_all add: scratch_view\<close>)
    have w: "writes d (op ?V) ?V V'" using F by (simp add: plain_effect_def)
    have "regs_view V' (genastore d (op ?V) g)" by (rule writes_view [OF _ w d]) (use v in \<open>simp_all add: scratch_view\<close>)
    then have "regs_view V' (st g)" using s by (simp add: regs_view_def)
    moreover have "d \<noteq> FLAGX" "d \<noteq> PC_P" using d by (simp_all add: jit_consts)
    ultimately show "regs_view V' (st g) \<and> V' PC_P = V PC_P \<and> V' FLAGX = V FLAGX \<and> g_pc (st g) = g_pc g"
      using s w by (simp add: writes_other scratch_view)
  qed
qed

lemma ff_scratch_compare:
  assumes R: "op_ready (64 + t) E mi l" and S: "sets_flags 0xF mi mo l" and q: "live_mode q" and k: "k \<le> 16"
    and G: "generates {} (16 + t) E (scratch_const w (dont_care_flags (use_scratch (add_pc_offset k l)))) r b (compare_effect b op)"
    and op: "\<And>V g. regs_view V g \<Longrightarrow> g_pc g = pc_at l \<Longrightarrow> V S1 = ucast w \<Longrightarrow> op V = op' g" and K: "K = ucast k"
  shows "translated t E mi mo l (do { l2 \<leftarrow> r; end_inst E (q l2) }) (\<lambda>g. incpc K (g\<lparr>g_ccr := op' g\<rparr>))"
proof -
  let ?l = "dont_care_flags (use_scratch (add_pc_offset k l))"
  have u: "ready (16 + t) E ?l" "status ?l S1 = UNDEF" using op_done_ready [OF op_ready_done [OF R]] fresh_status [OF R] by simp_all
  show ?thesis
    by (rule ff_cznv [OF op_ready_done [OF R] S keeps_use_scratch(3) q k generates_scratch [OF u G] _ K])
      (auto simp: compare_effect_def op scratch_view)
qed

lemma nf_scratch_none:
  assumes R: "op_ready (64 + t) E mi l" and S: "no_flags 0xF mi mo" and k: "k \<le> 16"
    and st: "\<And>g. g_reg (st g) = g_reg g \<and> g_pc (st g) = g_pc g \<and> g_x (st g) = g_x g" and K: "K = ucast k"
  shows "translated t E mi mo l (end_inst E (scratch_const w (dont_care_flags (use_scratch (add_pc_offset k l)))))
    (\<lambda>g. incpc K (st g))"
proof -
  let ?l = "dont_care_flags (use_scratch (add_pc_offset k l))"
  have u: "ready (16 + t) E ?l" "status ?l S1 = UNDEF" using op_done_ready [OF op_ready_done [OF R]] fresh_status [OF R] by simp_all
  have G: "generates {} (16 + t) E (scratch_const w ?l) (Some (scratch_const w ?l)) (l_flags_carry_inverted (scratch_const w ?l)) (\<lambda>V f V' f'. V' = V)"
    by (rule generates_id [OF ready_scratch_const [OF u]]) simp
  have "translated t E mi mo l (do { l2 \<leftarrow> Some (scratch_const w ?l); end_inst E l2 }) (\<lambda>g. incpc K (st g))"
    by (rule nf_any [OF op_ready_done [OF R] no_flags_cznv [OF S] no_flags_x(1) [OF S] keeps_use_scratch(2) keeps_modes(1) k
        generates_scratch [OF u G] _ _ K])
      (use st in \<open>auto simp: scratch_view regs_view_def\<close>)
  then show ?thesis by simp
qed

end
