(* ===== verification/Jit_Add.thy ===== *)
theory Jit_Add
  imports Jit_Words
begin

unbundle bit_operations_syntax

text \<open>
  Addition, subtraction, comparison and negation (compemu_midfunc_arm64_2.cpp): the functions
  \<^verbatim>\<open>jnf_ADD_*\<close>, \<^verbatim>\<open>jff_ADD_*\<close> and those of SUB, CMP, CMPA, NEG, ADDA and SUBA. A
  \<^verbatim>\<open>jff\<close> function leaves the condition codes in the host's flag register (and X in the virtual
  register \<^verbatim>\<open>FLAGX\<close>), a \<^verbatim>\<open>jnf\<close> function leaves them undefined. Each lemma \<open>f_ok\<close>
  states that the code \<open>f\<close> emits computes what the interpreter computes.
\<close>

definition jnf_ADD_b_imm :: "jenv \<Rightarrow> nat \<Rightarrow> u32 \<Rightarrow> live \<Rightarrow> live option" where
  "jnf_ADD_b_imm E d v l =
    (if isconst l d then Some (set_val d (((val_of l d) AND 0xFFFFFF00)
      OR (((val_of l d) + (scast v)) AND 0xFF)) l)
    else do {
      let targetIsReg = (d < 16);
      (d, l) \<leftarrow> rmw E d l;
      let l = emit (if targetIsReg then [ADD_wwi REG_WORK1 d (ucast (v AND 0xFF)), BFI_wwii d REG_WORK1 0 8]
        else [ADD_wwi d d (ucast (v AND 0xFF))]) l;
      unlock2 d l })"

definition jnf_ADD_b :: "jenv \<Rightarrow> nat \<Rightarrow> nat \<Rightarrow> live \<Rightarrow> live option" where
  "jnf_ADD_b E d s l =
    (if isconst l s then jnf_ADD_b_imm E d (ucast (val_of l s)) l
    else do {
      let targetIsReg = (d < 16);
      let s_is_d = (s = d);
      (d, s, l) \<leftarrow> INIT_REGS E d s l;
      let l = emit (if targetIsReg then [ADD_www REG_WORK1 d s, BFI_wwii d REG_WORK1 0 8]
        else [ADD_www d d s]) l;
      EXIT_REGS s_is_d d s l })"

definition jnf_ADD_w_imm :: "jenv \<Rightarrow> nat \<Rightarrow> u32 \<Rightarrow> live \<Rightarrow> live option" where
  "jnf_ADD_w_imm E d v l =
    do {
      let targetIsReg = (d < 16);
      (d, l) \<leftarrow> rmw E d l;
      let l = emit (if targetIsReg then (if 0 <=s v \<and> v <=s 0xFFF then [ADD_wwi REG_WORK1 d (ucast v)]
        else [MOV_xi REG_WORK1 (ucast (v AND 0xFFFF)), ADD_www REG_WORK1 d REG_WORK1])
        @ [BFI_wwii d REG_WORK1 0 16] else (if 0 <=s v \<and> v <=s 0xFFF then [ADD_wwi d d (ucast v)]
        else [MOV_xi REG_WORK1 (ucast (v AND 0xFFFF)), ADD_www d d REG_WORK1])) l;
      unlock2 d l }"

definition jnf_ADD_w :: "jenv \<Rightarrow> nat \<Rightarrow> nat \<Rightarrow> live \<Rightarrow> live option" where
  "jnf_ADD_w E d s l =
    (if isconst l s then jnf_ADD_w_imm E d (ucast (val_of l s)) l
    else do {
      let targetIsReg = (d < 16);
      let s_is_d = (s = d);
      (d, s, l) \<leftarrow> INIT_REGS E d s l;
      let l = emit (if targetIsReg then [ADD_www REG_WORK1 d s, BFI_wwii d REG_WORK1 0 16]
        else [ADD_www d d s]) l;
      EXIT_REGS s_is_d d s l })"

definition jnf_ADD_l_imm :: "jenv \<Rightarrow> nat \<Rightarrow> u32 \<Rightarrow> live \<Rightarrow> live option" where
  "jnf_ADD_l_imm E d v l =
    (if isconst l d then Some (set_val d ((val_of l d) + (scast v)) l)
    else do {
      (d, l) \<leftarrow> rmw E d l;
      let l = emit (if 0 <=s v \<and> v <=s 0xFFF then [ADD_wwi d d (ucast v)] else LOAD_U32 REG_WORK1 v
        @ [ADD_www d d REG_WORK1]) l;
      unlock2 d l })"

definition jnf_ADD_l :: "jenv \<Rightarrow> nat \<Rightarrow> nat \<Rightarrow> live \<Rightarrow> live option" where
  "jnf_ADD_l E d s l =
    (if isconst l d \<and> isconst l s then jnf_ADD_l_imm E d (ucast (val_of l s)) l
    else if isconst l s \<and> 0 <=s (ucast (val_of l s) :: u32) \<and> (ucast (val_of l s) :: u32) <=s 0xFFF
      then jnf_ADD_l_imm E d (ucast (val_of l s)) l
    else do {
      let s_is_d = (s = d);
      (d, s, l) \<leftarrow> INIT_REGS E d s l;
      let l = emit [ADD_www d d s] l;
      EXIT_REGS s_is_d d s l })"

definition jnf_ADDA_w_imm :: "jenv \<Rightarrow> nat \<Rightarrow> u32 \<Rightarrow> live \<Rightarrow> live option" where
  "jnf_ADDA_w_imm E d v l =
    (if isconst l d then Some (set_val d ((val_of l d) + (scast (scast (ucast v :: u16) :: u32))) l)
    else do {
      let tmp = (ucast v :: u16);
      (d, l) \<leftarrow> rmw E d l;
      let l = emit (if 0 <=s (scast tmp :: u32) \<and> (scast tmp :: u32) <=s 0xFFF
        then [ADD_wwi d d (ucast tmp)] else (if (- 0xFFF) <=s (scast tmp :: u32) \<and> (scast tmp :: u32) <s 0
        then [SUB_wwi d d (ucast (- (scast tmp :: u32)))] else SIGNED16_IMM_2_REG REG_WORK1 (scast tmp)
        @ [ADD_www d d REG_WORK1])) l;
      unlock2 d l })"

definition jnf_ADDA_w :: "jenv \<Rightarrow> nat \<Rightarrow> nat \<Rightarrow> live \<Rightarrow> live option" where
  "jnf_ADDA_w E d s l =
    (if isconst l s then jnf_ADDA_w_imm E d (ucast ((val_of l s) AND 0xFFFF)) l
    else do {
      let s_is_d = (s = d);
      (d, s, l) \<leftarrow> INIT_REGS E d s l;
      let l = emit [ADD_wwwEX d d s SXTH] l;
      EXIT_REGS s_is_d d s l })"

definition jnf_ADDA_l_imm :: "jenv \<Rightarrow> nat \<Rightarrow> u32 \<Rightarrow> live \<Rightarrow> live option" where
  "jnf_ADDA_l_imm E d v l =
    (if isconst l d then set_const E d ((val_of l d) + (scast v)) l
    else do {
      (d, l) \<leftarrow> rmw E d l;
      let l = emit (if 0 <=s v \<and> v <=s 0xFFF then [ADD_wwi d d (ucast v)]
        else (if (- 0xFFF) <=s v \<and> v <s 0 then [SUB_wwi d d (ucast (- v))] else LOAD_U32 REG_WORK1 v
        @ [ADD_www d d REG_WORK1])) l;
      unlock2 d l })"

definition jnf_ADDA_l :: "jenv \<Rightarrow> nat \<Rightarrow> nat \<Rightarrow> live \<Rightarrow> live option" where
  "jnf_ADDA_l E d s l =
    (if isconst l s then jnf_ADDA_l_imm E d (ucast (val_of l s)) l
    else do {
      let s_is_d = (s = d);
      (d, s, l) \<leftarrow> INIT_REGS E d s l;
      let l = emit [ADD_www d d s] l;
      EXIT_REGS s_is_d d s l })"

definition jff_ADD_b_imm :: "jenv \<Rightarrow> nat \<Rightarrow> u32 \<Rightarrow> live \<Rightarrow> live option" where
  "jff_ADD_b_imm E d v l =
    do {
      (d, l) \<leftarrow> rmw E d l;
      let l = emit [MOV_xish REG_WORK2 (ucast (push_bit 8 (v AND 0xFF))) 16,
        ADDS_wwwLSLi REG_WORK1 REG_WORK2 d 24, BFXIL_xxii d REG_WORK1 24 8] l;
      let l = set_carry_inverted False l;
      l \<leftarrow> DUPLICACTE_CARRY E l;
      unlock2 d l }"

definition jff_ADD_b :: "jenv \<Rightarrow> nat \<Rightarrow> nat \<Rightarrow> live \<Rightarrow> live option" where
  "jff_ADD_b E d s l =
    (if isconst l s then jff_ADD_b_imm E d (ucast (val_of l s)) l
    else do {
      let s_is_d = (s = d);
      (d, s, l) \<leftarrow> INIT_REGS E d s l;
      let l = emit [LSL_wwi REG_WORK2 s 24, ADDS_wwwLSLi REG_WORK1 REG_WORK2 d 24,
        BFXIL_xxii d REG_WORK1 24 8] l;
      let l = set_carry_inverted False l;
      l \<leftarrow> DUPLICACTE_CARRY E l;
      EXIT_REGS s_is_d d s l })"

definition jff_ADD_w_imm :: "jenv \<Rightarrow> nat \<Rightarrow> u32 \<Rightarrow> live \<Rightarrow> live option" where
  "jff_ADD_w_imm E d v l =
    do {
      (d, l) \<leftarrow> rmw E d l;
      let l = emit [MOV_xish REG_WORK1 (ucast (v AND 0xFFFF)) 16, ADDS_wwwLSLi REG_WORK1 REG_WORK1 d 16,
        BFXIL_xxii d REG_WORK1 16 16] l;
      let l = set_carry_inverted False l;
      l \<leftarrow> DUPLICACTE_CARRY E l;
      unlock2 d l }"

definition jff_ADD_w :: "jenv \<Rightarrow> nat \<Rightarrow> nat \<Rightarrow> live \<Rightarrow> live option" where
  "jff_ADD_w E d s l =
    (if isconst l s then jff_ADD_w_imm E d (ucast (val_of l s)) l
    else do {
      let s_is_d = (s = d);
      (d, s, l) \<leftarrow> INIT_REGS E d s l;
      let l = emit [LSL_wwi REG_WORK1 s 16, ADDS_wwwLSLi REG_WORK1 REG_WORK1 d 16,
        BFXIL_xxii d REG_WORK1 16 16] l;
      let l = set_carry_inverted False l;
      l \<leftarrow> DUPLICACTE_CARRY E l;
      EXIT_REGS s_is_d d s l })"

definition jff_ADD_l_imm :: "jenv \<Rightarrow> nat \<Rightarrow> u32 \<Rightarrow> live \<Rightarrow> live option" where
  "jff_ADD_l_imm E d v l =
    do {
      (d, l) \<leftarrow> rmw E d l;
      let l = emit (if 0 <=s v \<and> v <=s 0xFFF then [ADDS_wwi d d (ucast v)] else LOAD_U32 REG_WORK2 v
        @ [ADDS_www d d REG_WORK2]) l;
      let l = set_carry_inverted False l;
      l \<leftarrow> DUPLICACTE_CARRY E l;
      unlock2 d l }"

definition jff_ADD_l :: "jenv \<Rightarrow> nat \<Rightarrow> nat \<Rightarrow> live \<Rightarrow> live option" where
  "jff_ADD_l E d s l =
    (if isconst l s \<and> 0 <=s (ucast (val_of l s) :: u32) \<and> (ucast (val_of l s) :: u32) <=s 0xFFF
      then jff_ADD_l_imm E d (ucast (val_of l s)) l
    else do {
      let s_is_d = (s = d);
      (d, s, l) \<leftarrow> INIT_REGS E d s l;
      let l = emit [ADDS_www d d s] l;
      let l = set_carry_inverted False l;
      l \<leftarrow> DUPLICACTE_CARRY E l;
      EXIT_REGS s_is_d d s l })"

definition jnf_SUB_b_imm :: "jenv \<Rightarrow> nat \<Rightarrow> u32 \<Rightarrow> live \<Rightarrow> live option" where
  "jnf_SUB_b_imm E d v l =
    (if isconst l d then Some (set_val d (((val_of l d) AND 0xFFFFFF00)
      OR ((((val_of l d) AND 0xFF) - (scast (v AND 0xFF))) AND 0xFF)) l)
    else do {
      let targetIsReg = (d < 16);
      (d, l) \<leftarrow> rmw E d l;
      let l = emit (if targetIsReg then [SUB_wwi REG_WORK1 d (ucast (v AND 0xFF)), BFI_wwii d REG_WORK1 0 8]
        else [SUB_wwi d d (ucast (v AND 0xFF))]) l;
      unlock2 d l })"

definition jnf_SUB_b :: "jenv \<Rightarrow> nat \<Rightarrow> nat \<Rightarrow> live \<Rightarrow> live option" where
  "jnf_SUB_b E d s l =
    (if isconst l s then jnf_SUB_b_imm E d (ucast (val_of l s)) l
    else do {
      let targetIsReg = (d < 16);
      let s_is_d = (s = d);
      (d, s, l) \<leftarrow> INIT_REGS E d s l;
      let l = emit (if targetIsReg then [SUB_www REG_WORK1 d s, BFI_wwii d REG_WORK1 0 8]
        else [SUB_www d d s]) l;
      EXIT_REGS s_is_d d s l })"

definition jnf_SUB_w_imm :: "jenv \<Rightarrow> nat \<Rightarrow> u32 \<Rightarrow> live \<Rightarrow> live option" where
  "jnf_SUB_w_imm E d v l =
    (if isconst l d then Some (set_val d (((val_of l d) AND 0xFFFF0000)
      OR ((((val_of l d) AND 0xFFFF) - (scast (v AND 0xFFFF))) AND 0xFFFF)) l)
    else do {
      let targetIsReg = (d < 16);
      (d, l) \<leftarrow> rmw E d l;
      let l = emit (UNSIGNED16_IMM_2_REG REG_WORK1 (ucast (ucast v :: u16))
        @ (if targetIsReg then [SUB_www REG_WORK1 d REG_WORK1, BFI_wwii d REG_WORK1 0 16]
        else [SUB_www d d REG_WORK1])) l;
      unlock2 d l })"

definition jnf_SUB_w :: "jenv \<Rightarrow> nat \<Rightarrow> nat \<Rightarrow> live \<Rightarrow> live option" where
  "jnf_SUB_w E d s l =
    (if isconst l s then jnf_SUB_w_imm E d (ucast (val_of l s)) l
    else do {
      let targetIsReg = (d < 16);
      let s_is_d = (s = d);
      (d, s, l) \<leftarrow> INIT_REGS E d s l;
      let l = emit (if targetIsReg then [SUB_www REG_WORK1 d s, BFI_wwii d REG_WORK1 0 16]
        else [SUB_www d d s]) l;
      EXIT_REGS s_is_d d s l })"

definition jnf_SUB_l_imm :: "jenv \<Rightarrow> nat \<Rightarrow> u32 \<Rightarrow> live \<Rightarrow> live option" where
  "jnf_SUB_l_imm E d v l =
    (if isconst l d then Some (set_val d ((val_of l d) - (scast v)) l)
    else do {
      (d, l) \<leftarrow> rmw E d l;
      let l = emit (if 0 <=s v \<and> v <s 4096 then [SUB_wwi d d (ucast v)] else LOAD_U32 REG_WORK1 v
        @ [SUB_www d d REG_WORK1]) l;
      unlock2 d l })"

definition jnf_SUB_l :: "jenv \<Rightarrow> nat \<Rightarrow> nat \<Rightarrow> live \<Rightarrow> live option" where
  "jnf_SUB_l E d s l =
    (if isconst l s then jnf_SUB_l_imm E d (ucast (val_of l s)) l
    else do {
      let s_is_d = (s = d);
      (d, s, l) \<leftarrow> INIT_REGS E d s l;
      let l = emit [SUB_www d d s] l;
      EXIT_REGS s_is_d d s l })"

definition jnf_SUBA_w_imm :: "jenv \<Rightarrow> nat \<Rightarrow> u32 \<Rightarrow> live \<Rightarrow> live option" where
  "jnf_SUBA_w_imm E d v l =
    (if isconst l d then Some (set_val d ((val_of l d) - (scast (scast (ucast v :: u16) :: u32))) l)
    else do {
      (d, l) \<leftarrow> rmw E d l;
      let l = emit (if 0 <=s v \<and> v <s 4096 then [SUB_wwi d d (ucast v)]
        else SIGNED16_IMM_2_REG REG_WORK1 v @ [SUB_www d d REG_WORK1]) l;
      unlock2 d l })"

definition jnf_SUBA_w :: "jenv \<Rightarrow> nat \<Rightarrow> nat \<Rightarrow> live \<Rightarrow> live option" where
  "jnf_SUBA_w E d s l =
    (if isconst l s then jnf_SUBA_w_imm E d (ucast ((val_of l s) AND 0xFFFF)) l
    else do {
      let s_is_d = (s = d);
      (d, s, l) \<leftarrow> INIT_REGS E d s l;
      let l = emit [SUB_wwwEX d d s SXTH] l;
      EXIT_REGS s_is_d d s l })"

definition jnf_SUBA_l_imm :: "jenv \<Rightarrow> nat \<Rightarrow> u32 \<Rightarrow> live \<Rightarrow> live option" where
  "jnf_SUBA_l_imm E d v l =
    (if isconst l d then set_const E d ((val_of l d) - (scast v)) l
    else do {
      (d, l) \<leftarrow> rmw E d l;
      let l = emit (if 0 <=s v \<and> v <s 4096 then [SUB_wwi d d (ucast v)] else LOAD_U32 REG_WORK1 v
        @ [SUB_www d d REG_WORK1]) l;
      unlock2 d l })"

definition jnf_SUBA_l :: "jenv \<Rightarrow> nat \<Rightarrow> nat \<Rightarrow> live \<Rightarrow> live option" where
  "jnf_SUBA_l E d s l =
    (if isconst l s then jnf_SUBA_l_imm E d (ucast (val_of l s)) l
    else do {
      let s_is_d = (s = d);
      (d, s, l) \<leftarrow> INIT_REGS E d s l;
      let l = emit [SUB_www d d s] l;
      EXIT_REGS s_is_d d s l })"

definition jff_SUB_b_imm :: "jenv \<Rightarrow> nat \<Rightarrow> u32 \<Rightarrow> live \<Rightarrow> live option" where
  "jff_SUB_b_imm E d v l =
    do {
      (d, l) \<leftarrow> rmw E d l;
      let l = emit [LSL_wwi REG_WORK1 d 24, MOV_wish REG_WORK2 (ucast (push_bit 8 (v AND 0xFF))) 16,
        SUBS_www REG_WORK1 REG_WORK1 REG_WORK2, BFXIL_xxii d REG_WORK1 24 8] l;
      let l = set_carry_inverted True l;
      l \<leftarrow> DUPLICACTE_CARRY E l;
      unlock2 d l }"

definition jff_SUB_b :: "jenv \<Rightarrow> nat \<Rightarrow> nat \<Rightarrow> live \<Rightarrow> live option" where
  "jff_SUB_b E d s l =
    (if isconst l s then jff_SUB_b_imm E d (ucast (val_of l s)) l
    else do {
      let s_is_d = (s = d);
      (d, s, l) \<leftarrow> INIT_REGS E d s l;
      let l = emit [LSL_wwi REG_WORK1 d 24, SUBS_wwwLSLi REG_WORK1 REG_WORK1 s 24,
        BFXIL_xxii d REG_WORK1 24 8] l;
      let l = set_carry_inverted True l;
      l \<leftarrow> DUPLICACTE_CARRY E l;
      EXIT_REGS s_is_d d s l })"

definition jff_SUB_w_imm :: "jenv \<Rightarrow> nat \<Rightarrow> u32 \<Rightarrow> live \<Rightarrow> live option" where
  "jff_SUB_w_imm E d v l =
    do {
      (d, l) \<leftarrow> rmw E d l;
      let l = emit [MOV_xi REG_WORK1 (ucast v), LSL_wwi REG_WORK2 d 16,
        SUBS_wwwLSLi REG_WORK1 REG_WORK2 REG_WORK1 16, BFXIL_xxii d REG_WORK1 16 16] l;
      let l = set_carry_inverted True l;
      l \<leftarrow> DUPLICACTE_CARRY E l;
      unlock2 d l }"

definition jff_SUB_w :: "jenv \<Rightarrow> nat \<Rightarrow> nat \<Rightarrow> live \<Rightarrow> live option" where
  "jff_SUB_w E d s l =
    (if isconst l s then jff_SUB_w_imm E d (ucast (val_of l s)) l
    else do {
      let s_is_d = (s = d);
      (d, s, l) \<leftarrow> INIT_REGS E d s l;
      let l = emit [LSL_wwi REG_WORK1 d 16, SUBS_wwwLSLi REG_WORK1 REG_WORK1 s 16,
        BFXIL_xxii d REG_WORK1 16 16] l;
      let l = set_carry_inverted True l;
      l \<leftarrow> DUPLICACTE_CARRY E l;
      EXIT_REGS s_is_d d s l })"

definition jff_SUB_l_imm :: "jenv \<Rightarrow> nat \<Rightarrow> u32 \<Rightarrow> live \<Rightarrow> live option" where
  "jff_SUB_l_imm E d v l =
    do {
      (d, l) \<leftarrow> rmw E d l;
      let l = emit (if 0 <=s v \<and> v <s 4096 then [SUBS_wwi d d (ucast v)] else LOAD_U32 REG_WORK1 v
        @ [SUBS_www d d REG_WORK1]) l;
      let l = set_carry_inverted True l;
      l \<leftarrow> DUPLICACTE_CARRY E l;
      unlock2 d l }"

definition jff_SUB_l :: "jenv \<Rightarrow> nat \<Rightarrow> nat \<Rightarrow> live \<Rightarrow> live option" where
  "jff_SUB_l E d s l =
    (if isconst l s then jff_SUB_l_imm E d (ucast (val_of l s)) l
    else do {
      let s_is_d = (s = d);
      (d, s, l) \<leftarrow> INIT_REGS E d s l;
      let l = emit [SUBS_www d d s] l;
      let l = set_carry_inverted True l;
      l \<leftarrow> DUPLICACTE_CARRY E l;
      EXIT_REGS s_is_d d s l })"

definition jff_CMP_b_imm :: "jenv \<Rightarrow> nat \<Rightarrow> u32 \<Rightarrow> live \<Rightarrow> live option" where
  "jff_CMP_b_imm E d v l =
    do {
      l \<leftarrow> (if isconst l d then do {
        let tmp = (ucast ((val_of l d) AND 0xFF) :: u8);
        Some (emit [MOV_wish REG_WORK1 (ucast (push_bit 8 (ucast tmp :: u32))) 16] l) }
      else do {
        (d, l) \<leftarrow> readreg E d l;
        let l = emit [LSL_wwi REG_WORK1 d 24] l;
        unlock2 d l });
      let l = emit [MOV_wi REG_WORK2 (ucast (v AND 0xFF)), CMP_wwLSLi REG_WORK1 REG_WORK2 24] l;
      Some (set_carry_inverted True l) }"

definition jff_CMP_b :: "jenv \<Rightarrow> nat \<Rightarrow> nat \<Rightarrow> live \<Rightarrow> live option" where
  "jff_CMP_b E d s l =
    (if isconst l s then jff_CMP_b_imm E d (ucast (val_of l s)) l
    else do {
      l \<leftarrow> (if isconst l d then do {
        let tmp = (ucast ((val_of l d) AND 0xFF) :: u8);
        (s, l) \<leftarrow> readreg E s l;
        let l = emit [MOV_wish REG_WORK1 (ucast (push_bit 8 (ucast tmp :: u32))) 16,
          CMP_wwLSLi REG_WORK1 s 24] l;
        unlock2 s l }
      else do {
        let s_is_d = (s = d);
        (d, s, l) \<leftarrow> INIT_RREGS E d s l;
        let l = emit [LSL_wwi REG_WORK1 d 24, CMP_wwLSLi REG_WORK1 s 24] l;
        EXIT_REGS s_is_d d s l });
      Some (set_carry_inverted True l) })"

definition jff_CMP_w_imm :: "jenv \<Rightarrow> nat \<Rightarrow> u32 \<Rightarrow> live \<Rightarrow> live option" where
  "jff_CMP_w_imm E d v l =
    do {
      l \<leftarrow> (if isconst l d then Some (emit [MOV_wish REG_WORK1 ((val_of l d) AND 0xFFFF) 16,
        MOV_wish REG_WORK2 (ucast (v AND 0xFFFF)) 16, CMP_ww REG_WORK1 REG_WORK2] l)
      else do {
        (d, l) \<leftarrow> readreg E d l;
        let l = emit [LSL_wwi REG_WORK1 d 16, MOV_xi REG_WORK2 (ucast v), CMP_wwLSLi REG_WORK1 REG_WORK2 16] l;
        unlock2 d l });
      Some (set_carry_inverted True l) }"

definition jff_CMP_w :: "jenv \<Rightarrow> nat \<Rightarrow> nat \<Rightarrow> live \<Rightarrow> live option" where
  "jff_CMP_w E d s l =
    (if isconst l s then jff_CMP_w_imm E d (ucast (val_of l s)) l
    else do {
      l \<leftarrow> (if isconst l d then do {
        let tmp = (ucast ((val_of l d) AND 0xFFFF) :: u16);
        (s, l) \<leftarrow> readreg E s l;
        let l = emit [MOV_wish REG_WORK1 (ucast tmp) 16, CMP_wwLSLi REG_WORK1 s 16] l;
        unlock2 s l }
      else do {
        let s_is_d = (s = d);
        (d, s, l) \<leftarrow> INIT_RREGS E d s l;
        let l = emit [LSL_wwi REG_WORK1 d 16, CMP_wwLSLi REG_WORK1 s 16] l;
        EXIT_REGS s_is_d d s l });
      Some (set_carry_inverted True l) })"

definition jff_CMP_l_imm :: "jenv \<Rightarrow> nat \<Rightarrow> u32 \<Rightarrow> live \<Rightarrow> live option" where
  "jff_CMP_l_imm E d v l =
    (if isconst l d then do {
      let newv = ((ucast (val_of l d) :: u32) - v :: u32);
      let flgs = (v <s 0);
      let flgo = ((ucast (val_of l d) :: u32) <s 0);
      let flgn = (newv <s 0);
      let f = (if newv = 0 then drop_bit 16 ARM_Z_FLAG else 0)
        OR (if flgs \<noteq> flgo \<and> flgn \<noteq> flgo then drop_bit 16 ARM_V_FLAG else 0)
        OR (if (ucast (val_of l d) :: u32) < v then drop_bit 16 ARM_C_FLAG else 0)
        OR (if flgn then drop_bit 16 ARM_N_FLAG else 0);
      let l = emit [MOV_xish REG_WORK1 (ucast f) 16, MSR_NZCV_x REG_WORK1] l;
      Some (set_carry_inverted False l) }
    else do {
      (d, l) \<leftarrow> readreg E d l;
      let l = emit (LOAD_U32 REG_WORK1 v @ [CMP_ww d REG_WORK1]) l;
      let l = set_carry_inverted True l;
      unlock2 d l })"

definition jff_CMP_l :: "jenv \<Rightarrow> nat \<Rightarrow> nat \<Rightarrow> live \<Rightarrow> live option" where
  "jff_CMP_l E d s l =
    (if isconst l s then jff_CMP_l_imm E d (ucast (val_of l s)) l
    else do {
      let s_is_d = (s = d);
      (d, s, l) \<leftarrow> INIT_RREGS E d s l;
      let l = emit [CMP_ww d s] l;
      let l = set_carry_inverted True l;
      EXIT_REGS s_is_d d s l })"

definition jff_CMPA_w_imm :: "jenv \<Rightarrow> nat \<Rightarrow> u32 \<Rightarrow> live \<Rightarrow> live option" where
  "jff_CMPA_w_imm E d v l =
    do {
      let tmp = (ucast (v AND 0xFFFF) :: u16);
      (d, l) \<leftarrow> readreg E d l;
      let l = emit (SIGNED16_IMM_2_REG REG_WORK1 (ucast tmp) @ [CMP_ww d REG_WORK1]) l;
      l \<leftarrow> unlock2 d l;
      Some (set_carry_inverted True l) }"

definition jff_CMPA_w :: "jenv \<Rightarrow> nat \<Rightarrow> nat \<Rightarrow> live \<Rightarrow> live option" where
  "jff_CMPA_w E d s l =
    (if isconst l s then jff_CMPA_w_imm E d (ucast (val_of l s)) l
    else do {
      let s_is_d = (s = d);
      (d, s, l) \<leftarrow> INIT_RREGS E d s l;
      let l = emit [CMP_wwEX d s SXTH] l;
      l \<leftarrow> EXIT_REGS s_is_d d s l;
      Some (set_carry_inverted True l) })"

definition jff_CMPA_l_imm :: "jenv \<Rightarrow> nat \<Rightarrow> u32 \<Rightarrow> live \<Rightarrow> live option" where
  "jff_CMPA_l_imm E d v l =
    do {
      (d, l) \<leftarrow> readreg E d l;
      let l = emit (LOAD_U32 REG_WORK1 v @ [CMP_ww d REG_WORK1]) l;
      let l = set_carry_inverted True l;
      unlock2 d l }"

definition jff_CMPA_l :: "jenv \<Rightarrow> nat \<Rightarrow> nat \<Rightarrow> live \<Rightarrow> live option" where
  "jff_CMPA_l E d s l =
    (if isconst l s then jff_CMPA_l_imm E d (ucast (val_of l s)) l
    else do {
      let s_is_d = (s = d);
      (d, s, l) \<leftarrow> INIT_RREGS E d s l;
      let l = emit [CMP_ww d s] l;
      let l = set_carry_inverted True l;
      EXIT_REGS s_is_d d s l })"

definition jnf_NEG_b :: "jenv \<Rightarrow> nat \<Rightarrow> live \<Rightarrow> live option" where
  "jnf_NEG_b E d l =
    do {
      (d, l) \<leftarrow> rmw E d l;
      let l = emit (SIGNED8_REG_2_REG REG_WORK1 d @ [NEG_ww REG_WORK1 REG_WORK1, BFI_wwii d REG_WORK1 0 8]) l;
      unlock2 d l }"

definition jnf_NEG_w :: "jenv \<Rightarrow> nat \<Rightarrow> live \<Rightarrow> live option" where
  "jnf_NEG_w E d l =
    do {
      (d, l) \<leftarrow> rmw E d l;
      let l = emit (SIGNED16_REG_2_REG REG_WORK1 d @ [NEG_ww REG_WORK1 REG_WORK1, BFI_wwii d REG_WORK1 0 16]) l;
      unlock2 d l }"

definition jnf_NEG_l :: "jenv \<Rightarrow> nat \<Rightarrow> live \<Rightarrow> live option" where
  "jnf_NEG_l E d l =
    do {
      (d, l) \<leftarrow> rmw E d l;
      let l = emit [NEG_ww d d] l;
      unlock2 d l }"

definition jff_NEG_b :: "jenv \<Rightarrow> nat \<Rightarrow> live \<Rightarrow> live option" where
  "jff_NEG_b E d l =
    do {
      (d, l) \<leftarrow> rmw E d l;
      let l = emit [LSL_wwi REG_WORK1 d 24, NEGS_ww REG_WORK1 REG_WORK1, BFXIL_xxii d REG_WORK1 24 8] l;
      let l = set_carry_inverted True l;
      l \<leftarrow> DUPLICACTE_CARRY E l;
      unlock2 d l }"

definition jff_NEG_w :: "jenv \<Rightarrow> nat \<Rightarrow> live \<Rightarrow> live option" where
  "jff_NEG_w E d l =
    do {
      (d, l) \<leftarrow> rmw E d l;
      let l = emit [LSL_wwi REG_WORK1 d 16, NEGS_ww REG_WORK1 REG_WORK1, BFXIL_xxii d REG_WORK1 16 16] l;
      let l = set_carry_inverted True l;
      l \<leftarrow> DUPLICACTE_CARRY E l;
      unlock2 d l }"

definition jff_NEG_l :: "jenv \<Rightarrow> nat \<Rightarrow> live \<Rightarrow> live option" where
  "jff_NEG_l E d l =
    do {
      (d, l) \<leftarrow> rmw E d l;
      let l = emit [NEGS_ww d d] l;
      let l = set_carry_inverted True l;
      l \<leftarrow> DUPLICACTE_CARRY E l;
      unlock2 d l }"

lemma jnf_ADD_b_imm_ok:
  assumes "ready t E l" "operand d l"
  shows "generates {} t E l (jnf_ADD_b_imm E d v l) (l_flags_carry_inverted l)
    (plain_effect d (\<lambda>V. ucast (V d) + (ucast v :: u8)))"
  unfolding jnf_ADD_b_imm_def Let_def
  by (rule plain_imm [OF assms]) (simp_all add: code_simps sext_logical same_low_def)

lemma jnf_ADD_b_ok:
  assumes "ready t E l" "operand d l" "operand s l"
  shows "generates {} t E l (jnf_ADD_b E d s l) (l_flags_carry_inverted l)
    (plain_effect d (\<lambda>V. ucast (V d) + (ucast (V s) :: u8)))"
  unfolding jnf_ADD_b_def Let_def if_or
  by (rule plain_reg [OF assms _ _ jnf_ADD_b_imm_ok [OF assms(1,2)]]) (auto simp: code_simps sext_logical same_low_def)

lemma jff_ADD_b_imm_ok:
  assumes "ready t E l" "operand d l"
  shows "generates {} t E l (jff_ADD_b_imm E d v l) False
    (arith_effect l False d (\<lambda>V. flag_add (ucast v :: u8) (ucast (V d))))"
  unfolding jff_ADD_b_imm_def Let_def
  by (rule op1a [OF assms]) (simp_all add: code_simps sext_logical same_low_def)

lemma jff_ADD_b_ok:
  assumes "ready t E l" "operand d l" "operand s l"
  shows "generates {} t E l (jff_ADD_b E d s l) False
    (arith_effect l False d (\<lambda>V. flag_add (ucast (V s) :: u8) (ucast (V d))))"
  unfolding jff_ADD_b_def Let_def
  by (rule arith_reg [OF assms _ _ jff_ADD_b_imm_ok [OF assms(1,2)]]) (simp_all add: code_simps sext_logical same_low_def)

lemma jnf_ADD_w_imm_ok:
  assumes "ready t E l" "operand d l"
  shows "generates {} t E l (jnf_ADD_w_imm E d v l) (l_flags_carry_inverted l)
    (plain_effect d (\<lambda>V. ucast (V d) + (ucast v :: u16)))"
  unfolding jnf_ADD_w_imm_def Let_def
  by (rule op1 [OF assms]) (simp_all add: code_simps sext_logical same_low_def)

lemma jnf_ADD_w_ok:
  assumes "ready t E l" "operand d l" "operand s l"
  shows "generates {} t E l (jnf_ADD_w E d s l) (l_flags_carry_inverted l)
    (plain_effect d (\<lambda>V. ucast (V d) + (ucast (V s) :: u16)))"
  unfolding jnf_ADD_w_def Let_def if_or
  by (rule plain_reg [OF assms _ _ jnf_ADD_w_imm_ok [OF assms(1,2)]]) (auto simp: code_simps sext_logical same_low_def)

lemma jff_ADD_w_imm_ok:
  assumes "ready t E l" "operand d l"
  shows "generates {} t E l (jff_ADD_w_imm E d v l) False
    (arith_effect l False d (\<lambda>V. flag_add (ucast v :: u16) (ucast (V d))))"
  unfolding jff_ADD_w_imm_def Let_def
  by (rule op1a [OF assms]) (simp_all add: code_simps sext_logical same_low_def)

lemma jff_ADD_w_ok:
  assumes "ready t E l" "operand d l" "operand s l"
  shows "generates {} t E l (jff_ADD_w E d s l) False
    (arith_effect l False d (\<lambda>V. flag_add (ucast (V s) :: u16) (ucast (V d))))"
  unfolding jff_ADD_w_def Let_def
  by (rule arith_reg [OF assms _ _ jff_ADD_w_imm_ok [OF assms(1,2)]]) (simp_all add: code_simps sext_logical same_low_def)

lemma jnf_ADD_l_imm_ok:
  assumes "ready t E l" "operand d l"
  shows "generates {} t E l (jnf_ADD_l_imm E d v l) (l_flags_carry_inverted l)
    (plain_effect d (\<lambda>V. ucast (V d) + (ucast v :: u32)))"
  unfolding jnf_ADD_l_imm_def Let_def
  by (rule plain_imm [OF assms]) (simp_all add: code_simps sext_logical same_low_def)

lemma jnf_ADD_l_ok:
  assumes "ready t E l" "operand d l" "operand s l"
  shows "generates {} t E l (jnf_ADD_l E d s l) (l_flags_carry_inverted l)
    (plain_effect d (\<lambda>V. ucast (V d) + (ucast (V s) :: u32)))"
  unfolding jnf_ADD_l_def Let_def if_or
  by (rule plain_reg [OF assms _ _ jnf_ADD_l_imm_ok [OF assms(1,2)]]) (auto simp: code_simps sext_logical same_low_def)

lemma jff_ADD_l_imm_ok:
  assumes "ready t E l" "operand d l"
  shows "generates {} t E l (jff_ADD_l_imm E d v l) False
    (arith_effect l False d (\<lambda>V. flag_add (ucast v :: u32) (ucast (V d))))"
  unfolding jff_ADD_l_imm_def Let_def
  by (rule op1a [OF assms]) (simp_all add: code_simps sext_logical same_low_def)

lemma jff_ADD_l_ok:
  assumes "ready t E l" "operand d l" "operand s l"
  shows "generates {} t E l (jff_ADD_l E d s l) False
    (arith_effect l False d (\<lambda>V. flag_add (ucast (V s) :: u32) (ucast (V d))))"
  unfolding jff_ADD_l_def Let_def
  by (rule arith_reg [OF assms _ _ jff_ADD_l_imm_ok [OF assms(1,2)]]) (simp_all add: code_simps sext_logical same_low_def)

lemma jnf_ADDA_w_imm_ok:
  assumes "ready t E l" "operand d l"
  shows "generates {} t E l (jnf_ADDA_w_imm E d v l) (l_flags_carry_inverted l)
    (plain_effect d (\<lambda>V. ucast (V d) + (scast (ucast v :: u16) :: u32)))"
  unfolding jnf_ADDA_w_imm_def Let_def
  by (rule plain_imm [OF assms]) (simp_all add: code_simps sext_logical same_low_def)

lemma jnf_ADDA_w_ok:
  assumes "ready t E l" "operand d l" "operand s l"
  shows "generates {} t E l (jnf_ADDA_w E d s l) (l_flags_carry_inverted l)
    (plain_effect d (\<lambda>V. ucast (V d) + (scast (ucast (V s) :: u16) :: u32)))"
  unfolding jnf_ADDA_w_def Let_def
  by (rule plain_reg [OF assms _ _ jnf_ADDA_w_imm_ok [OF assms(1,2)]]) (simp_all add: code_simps sext_logical same_low_def)

lemma jnf_ADDA_l_imm_ok:
  assumes "ready t E l" "operand d l"
  shows "generates {} t E l (jnf_ADDA_l_imm E d v l) (l_flags_carry_inverted l)
    (plain_effect d (\<lambda>V. ucast (V d) + (v :: u32)))"
  unfolding jnf_ADDA_l_imm_def Let_def
  by (rule generates_ifI [OF plain_set_const [OF assms _ assms(2)] op1 [OF assms]]) (simp_all add: code_simps same_low_def)

lemma jnf_ADDA_l_ok:
  assumes "ready t E l" "operand d l" "operand s l"
  shows "generates {} t E l (jnf_ADDA_l E d s l) (l_flags_carry_inverted l)
    (plain_effect d (\<lambda>V. ucast (V d) + (ucast (V s) :: u32)))"
  unfolding jnf_ADDA_l_def Let_def
  by (rule plain_reg [OF assms _ _ jnf_ADDA_l_imm_ok [OF assms(1,2)]]) (simp_all add: code_simps sext_logical same_low_def)

lemma jnf_SUB_b_imm_ok:
  assumes "ready t E l" "operand d l"
  shows "generates {} t E l (jnf_SUB_b_imm E d v l) (l_flags_carry_inverted l)
    (plain_effect d (\<lambda>V. ucast (V d) - (ucast v :: u8)))"
  unfolding jnf_SUB_b_imm_def Let_def
  by (rule plain_imm [OF assms]) (simp_all add: code_simps sext_logical same_low_def)

lemma jnf_SUB_b_ok:
  assumes "ready t E l" "operand d l" "operand s l"
  shows "generates {} t E l (jnf_SUB_b E d s l) (l_flags_carry_inverted l)
    (plain_effect d (\<lambda>V. ucast (V d) - (ucast (V s) :: u8)))"
  unfolding jnf_SUB_b_def Let_def if_or
  by (rule plain_reg [OF assms _ _ jnf_SUB_b_imm_ok [OF assms(1,2)]]) (auto simp: code_simps sext_logical same_low_def)

lemma jff_SUB_b_imm_ok:
  assumes "ready t E l" "operand d l"
  shows "generates {} t E l (jff_SUB_b_imm E d v l) True
    (arith_effect l True d (\<lambda>V. flag_sub (ucast v :: u8) (ucast (V d))))"
  unfolding jff_SUB_b_imm_def Let_def
  by (rule op1a [OF assms]) (simp_all add: code_simps sext_logical same_low_def)

lemma jff_SUB_b_ok:
  assumes "ready t E l" "operand d l" "operand s l"
  shows "generates {} t E l (jff_SUB_b E d s l) True
    (arith_effect l True d (\<lambda>V. flag_sub (ucast (V s) :: u8) (ucast (V d))))"
  unfolding jff_SUB_b_def Let_def
  by (rule arith_reg [OF assms _ _ jff_SUB_b_imm_ok [OF assms(1,2)]]) (simp_all add: code_simps sext_logical same_low_def)

lemma jnf_SUB_w_imm_ok:
  assumes "ready t E l" "operand d l"
  shows "generates {} t E l (jnf_SUB_w_imm E d v l) (l_flags_carry_inverted l)
    (plain_effect d (\<lambda>V. ucast (V d) - (ucast v :: u16)))"
  unfolding jnf_SUB_w_imm_def Let_def
  by (rule plain_imm [OF assms]) (simp_all add: code_simps sext_logical same_low_def)

lemma jnf_SUB_w_ok:
  assumes "ready t E l" "operand d l" "operand s l"
  shows "generates {} t E l (jnf_SUB_w E d s l) (l_flags_carry_inverted l)
    (plain_effect d (\<lambda>V. ucast (V d) - (ucast (V s) :: u16)))"
  unfolding jnf_SUB_w_def Let_def if_or
  by (rule plain_reg [OF assms _ _ jnf_SUB_w_imm_ok [OF assms(1,2)]]) (auto simp: code_simps sext_logical same_low_def)

lemma jff_SUB_w_imm_ok:
  assumes "ready t E l" "operand d l"
  shows "generates {} t E l (jff_SUB_w_imm E d v l) True
    (arith_effect l True d (\<lambda>V. flag_sub (ucast v :: u16) (ucast (V d))))"
  unfolding jff_SUB_w_imm_def Let_def
  by (rule op1a [OF assms]) (simp_all add: code_simps sext_logical same_low_def)

lemma jff_SUB_w_ok:
  assumes "ready t E l" "operand d l" "operand s l"
  shows "generates {} t E l (jff_SUB_w E d s l) True
    (arith_effect l True d (\<lambda>V. flag_sub (ucast (V s) :: u16) (ucast (V d))))"
  unfolding jff_SUB_w_def Let_def
  by (rule arith_reg [OF assms _ _ jff_SUB_w_imm_ok [OF assms(1,2)]]) (simp_all add: code_simps sext_logical same_low_def)

lemma jnf_SUB_l_imm_ok:
  assumes "ready t E l" "operand d l"
  shows "generates {} t E l (jnf_SUB_l_imm E d v l) (l_flags_carry_inverted l)
    (plain_effect d (\<lambda>V. ucast (V d) - (ucast v :: u32)))"
  unfolding jnf_SUB_l_imm_def Let_def
  by (rule plain_imm [OF assms]) (simp_all add: code_simps sext_logical same_low_def)

lemma jnf_SUB_l_ok:
  assumes "ready t E l" "operand d l" "operand s l"
  shows "generates {} t E l (jnf_SUB_l E d s l) (l_flags_carry_inverted l)
    (plain_effect d (\<lambda>V. ucast (V d) - (ucast (V s) :: u32)))"
  unfolding jnf_SUB_l_def Let_def if_or
  by (rule plain_reg [OF assms _ _ jnf_SUB_l_imm_ok [OF assms(1,2)]]) (auto simp: code_simps sext_logical same_low_def)

lemma jff_SUB_l_imm_ok:
  assumes "ready t E l" "operand d l"
  shows "generates {} t E l (jff_SUB_l_imm E d v l) True
    (arith_effect l True d (\<lambda>V. flag_sub (ucast v :: u32) (ucast (V d))))"
  unfolding jff_SUB_l_imm_def Let_def
  by (rule op1a [OF assms]) (simp_all add: code_simps sext_logical same_low_def)

lemma jff_SUB_l_ok:
  assumes "ready t E l" "operand d l" "operand s l"
  shows "generates {} t E l (jff_SUB_l E d s l) True
    (arith_effect l True d (\<lambda>V. flag_sub (ucast (V s) :: u32) (ucast (V d))))"
  unfolding jff_SUB_l_def Let_def
  by (rule arith_reg [OF assms _ _ jff_SUB_l_imm_ok [OF assms(1,2)]]) (simp_all add: code_simps sext_logical same_low_def)

lemma jnf_SUBA_w_imm_ok:
  assumes "ready t E l" "operand d l"
  shows "generates {} t E l (jnf_SUBA_w_imm E d v l) (l_flags_carry_inverted l)
    (plain_effect d (\<lambda>V. ucast (V d) - (scast (ucast v :: u16) :: u32)))"
  unfolding jnf_SUBA_w_imm_def Let_def
  by (rule plain_imm [OF assms]) (simp_all add: code_simps sext_logical same_low_def)

lemma jnf_SUBA_w_ok:
  assumes "ready t E l" "operand d l" "operand s l"
  shows "generates {} t E l (jnf_SUBA_w E d s l) (l_flags_carry_inverted l)
    (plain_effect d (\<lambda>V. ucast (V d) - (scast (ucast (V s) :: u16) :: u32)))"
  unfolding jnf_SUBA_w_def Let_def
  by (rule plain_reg [OF assms _ _ jnf_SUBA_w_imm_ok [OF assms(1,2)]]) (simp_all add: code_simps sext_logical same_low_def)

lemma jnf_SUBA_l_imm_ok:
  assumes "ready t E l" "operand d l"
  shows "generates {} t E l (jnf_SUBA_l_imm E d v l) (l_flags_carry_inverted l)
    (plain_effect d (\<lambda>V. ucast (V d) - (v :: u32)))"
  unfolding jnf_SUBA_l_imm_def Let_def
  by (rule generates_ifI [OF plain_set_const [OF assms _ assms(2)] op1 [OF assms]]) (simp_all add: code_simps same_low_def)

lemma jnf_SUBA_l_ok:
  assumes "ready t E l" "operand d l" "operand s l"
  shows "generates {} t E l (jnf_SUBA_l E d s l) (l_flags_carry_inverted l)
    (plain_effect d (\<lambda>V. ucast (V d) - (ucast (V s) :: u32)))"
  unfolding jnf_SUBA_l_def Let_def
  by (rule plain_reg [OF assms _ _ jnf_SUBA_l_imm_ok [OF assms(1,2)]]) (simp_all add: code_simps sext_logical same_low_def)

lemma jff_CMP_b_imm_ok:
  assumes "ready t E l" "operand d l"
  shows "generates {} t E l (jff_CMP_b_imm E d v l) True
    (compare_effect True (\<lambda>V. flag_cmp (ucast v :: u8) (ucast (V d))))"
  unfolding jff_CMP_b_imm_def Let_def join_simps
  by (rule compare_imm [OF assms]) (simp_all add: code_simps sext_logical same_low_def)

lemma jff_CMP_b_ok:
  assumes "ready t E l" "operand d l" "operand s l"
  shows "generates {} t E l (jff_CMP_b E d s l) True
    (compare_effect True (\<lambda>V. flag_cmp (ucast (V s) :: u8) (ucast (V d))))"
  unfolding jff_CMP_b_def Let_def join_simps
  by (rule compare_reg_const [OF assms _ _ jff_CMP_b_imm_ok [OF assms(1,2)]]) (simp_all add: code_simps sext_logical same_low_def)

lemma jff_CMP_w_imm_ok:
  assumes "ready t E l" "operand d l"
  shows "generates {} t E l (jff_CMP_w_imm E d v l) True
    (compare_effect True (\<lambda>V. flag_cmp (ucast v :: u16) (ucast (V d))))"
  unfolding jff_CMP_w_imm_def Let_def join_simps
  by (rule compare_imm [OF assms]) (simp_all add: code_simps sext_logical same_low_def)

lemma jff_CMP_w_ok:
  assumes "ready t E l" "operand d l" "operand s l"
  shows "generates {} t E l (jff_CMP_w E d s l) True
    (compare_effect True (\<lambda>V. flag_cmp (ucast (V s) :: u16) (ucast (V d))))"
  unfolding jff_CMP_w_def Let_def join_simps
  by (rule compare_reg_const [OF assms _ _ jff_CMP_w_imm_ok [OF assms(1,2)]]) (simp_all add: code_simps sext_logical same_low_def)

lemma jff_CMP_l_imm_ok:
  assumes "ready t E l" "operand d l"
  shows "generates {} t E l (jff_CMP_l_imm E d v l) (\<not> isconst l d)
    (compare_effect (\<not> isconst l d) (\<lambda>V. flag_cmp (ucast v :: u32) (ucast (V d))))"
  proof (cases "isconst l d")
  case True
  show ?thesis unfolding jff_CMP_l_imm_def Let_def if_P [OF True] by (simp only: True not_True_eq_False)
    (rule flag_word_compare [OF assms(1) True assms(2)], simp add: flag_word_simps flag_cmp_def Let_def)
next
  case False
  show ?thesis unfolding jff_CMP_l_imm_def Let_def if_not_P [OF False] by (simp only: False not_False_eq_True)
    (rule rop1f [OF assms], simp add: code_simps)
qed

lemma jff_CMP_l_ok:
  assumes "ready t E l" "operand d l" "operand s l"
  shows "generates {} t E l (jff_CMP_l E d s l) (\<not> (isconst l d \<and> isconst l s))
    (compare_effect (\<not> (isconst l d \<and> isconst l s)) (\<lambda>V. flag_cmp (ucast (V s) :: u32) (ucast (V d))))"
  proof (cases "isconst l s")
  case True
  show ?thesis unfolding jff_CMP_l_def if_P [OF True] by (simp only: True simp_thms)
    (rule const_effect(4) [OF True assms(3) jff_CMP_l_imm_ok [OF assms(1,2)]], simp add: same_low_def)
next
  case False
  show ?thesis unfolding jff_CMP_l_def Let_def if_not_P [OF False] by (simp only: False simp_thms)
    (rule rop2f [OF assms], simp add: code_simps)
qed

lemma jff_CMPA_w_imm_ok:
  assumes "ready t E l" "operand d l"
  shows "generates {} t E l (jff_CMPA_w_imm E d v l) True
    (compare_effect True (\<lambda>V. flag_cmp (scast (ucast v :: u16) :: u32) (ucast (V d))))"
  unfolding jff_CMPA_w_imm_def Let_def join_simps
  by (rule rop1f [OF assms]) (simp_all add: code_simps sext_logical same_low_def)

lemma jff_CMPA_w_ok:
  assumes "ready t E l" "operand d l" "operand s l"
  shows "generates {} t E l (jff_CMPA_w E d s l) True
    (compare_effect True (\<lambda>V. flag_cmp (scast (ucast (V s) :: u16) :: u32) (ucast (V d))))"
  unfolding jff_CMPA_w_def Let_def join_simps
  by (rule compare_reg [OF assms _ _ jff_CMPA_w_imm_ok [OF assms(1,2)]]) (simp_all add: code_simps sext_logical same_low_def)

lemma jff_CMPA_l_imm_ok:
  assumes "ready t E l" "operand d l"
  shows "generates {} t E l (jff_CMPA_l_imm E d v l) True
    (compare_effect True (\<lambda>V. flag_cmp (v :: u32) (ucast (V d))))"
  unfolding jff_CMPA_l_imm_def Let_def join_simps
  by (rule rop1f [OF assms]) (simp_all add: code_simps sext_logical same_low_def)

lemma jff_CMPA_l_ok:
  assumes "ready t E l" "operand d l" "operand s l"
  shows "generates {} t E l (jff_CMPA_l E d s l) True
    (compare_effect True (\<lambda>V. flag_cmp (ucast (V s) :: u32) (ucast (V d))))"
  unfolding jff_CMPA_l_def Let_def join_simps
  by (rule compare_reg [OF assms _ _ jff_CMPA_l_imm_ok [OF assms(1,2)]]) (simp_all add: code_simps sext_logical same_low_def)

lemma jnf_NEG_b_ok:
  assumes "ready t E l" "operand d l"
  shows "generates {} t E l (jnf_NEG_b E d l) (l_flags_carry_inverted l)
    (plain_effect d (\<lambda>V. - (ucast (V d) :: u8)))"
  unfolding jnf_NEG_b_def Let_def
  by (rule op1 [OF assms]) (simp_all add: code_simps sext_logical same_low_def)

lemma jff_NEG_b_ok:
  assumes "ready t E l" "operand d l"
  shows "generates {} t E l (jff_NEG_b E d l) True
    (arith_effect l True d (\<lambda>V. flag_sub (ucast (V d) :: u8) 0))"
  unfolding jff_NEG_b_def Let_def
  by (rule op1a [OF assms]) (simp_all add: code_simps sext_logical same_low_def)

lemma jnf_NEG_w_ok:
  assumes "ready t E l" "operand d l"
  shows "generates {} t E l (jnf_NEG_w E d l) (l_flags_carry_inverted l)
    (plain_effect d (\<lambda>V. - (ucast (V d) :: u16)))"
  unfolding jnf_NEG_w_def Let_def
  by (rule op1 [OF assms]) (simp_all add: code_simps sext_logical same_low_def)

lemma jff_NEG_w_ok:
  assumes "ready t E l" "operand d l"
  shows "generates {} t E l (jff_NEG_w E d l) True
    (arith_effect l True d (\<lambda>V. flag_sub (ucast (V d) :: u16) 0))"
  unfolding jff_NEG_w_def Let_def
  by (rule op1a [OF assms]) (simp_all add: code_simps sext_logical same_low_def)

lemma jnf_NEG_l_ok:
  assumes "ready t E l" "operand d l"
  shows "generates {} t E l (jnf_NEG_l E d l) (l_flags_carry_inverted l)
    (plain_effect d (\<lambda>V. - (ucast (V d) :: u32)))"
  unfolding jnf_NEG_l_def Let_def
  by (rule op1 [OF assms]) (simp_all add: code_simps sext_logical same_low_def)

lemma jff_NEG_l_ok:
  assumes "ready t E l" "operand d l"
  shows "generates {} t E l (jff_NEG_l E d l) True
    (arith_effect l True d (\<lambda>V. flag_sub (ucast (V d) :: u32) 0))"
  unfolding jff_NEG_l_def Let_def
  by (rule op1a [OF assms]) (simp_all add: code_simps sext_logical same_low_def)


end
