(* ===== verification/Op_Arith.thy ===== *)
theory Op_Arith
  imports Jit_Scratch Jit_Add
begin

unbundle bit_operations_syntax

text \<open>
  The opcode translators of compemu_arm.cpp for ADD, ADDA, ADDQ, SUB, SUBA, SUBQ, NEG, CMP and CMPA
  on registers and immediate operands: each definition is one generated function, in the variant that
  sets the condition codes (\<^verbatim>\<open>_comp_ff\<close>) or the one that does not (\<^verbatim>\<open>_comp_nf\<close>), and each lemma says
  that its code does to the guest what the interpreter's instruction does.
\<close>

section \<open>The translators\<close>

definition op_400_0_comp_ff :: compop_func where
  "op_400_0_comp_ff H E opcode l = do {
     let dstreg = unat (opcode AND 7); let l = add_pc_offset 2 l;
     let src = (scast (comp_get_ibyte H l (l_m68k_pc_offset l)) :: u32); let l = add_pc_offset 2 l;
     let dst = dstreg; let l = dont_care_flags l; l \<leftarrow> jff_SUB_b_imm E dst src l;
     let l = live_flags l; let l = forget_unneeded l; end_inst E l }"

definition op_440_0_comp_ff :: compop_func where
  "op_440_0_comp_ff H E opcode l = do {
     let dstreg = unat (opcode AND 7); let l = add_pc_offset 2 l;
     let src = (scast (comp_get_iword H l (l_m68k_pc_offset l)) :: u32); let l = add_pc_offset 2 l;
     let dst = dstreg; let l = dont_care_flags l; l \<leftarrow> jff_SUB_w_imm E dst src l;
     let l = live_flags l; let l = forget_unneeded l; end_inst E l }"

definition op_480_0_comp_ff :: compop_func where
  "op_480_0_comp_ff H E opcode l = do {
     let dstreg = unat (opcode AND 7); let l = add_pc_offset 2 l;
     let src = comp_get_ilong H l (l_m68k_pc_offset l); let l = add_pc_offset 4 l; let dst = dstreg;
     let l = dont_care_flags l; l \<leftarrow> jff_SUB_l_imm E dst src l; let l = live_flags l;
     let l = forget_unneeded l; end_inst E l }"

definition op_600_0_comp_ff :: compop_func where
  "op_600_0_comp_ff H E opcode l = do {
     let dstreg = unat (opcode AND 7); let l = add_pc_offset 2 l;
     let src = (scast (comp_get_ibyte H l (l_m68k_pc_offset l)) :: u32); let l = add_pc_offset 2 l;
     let dst = dstreg; let l = dont_care_flags l; l \<leftarrow> jff_ADD_b_imm E dst src l;
     let l = live_flags l; let l = forget_unneeded l; end_inst E l }"

definition op_640_0_comp_ff :: compop_func where
  "op_640_0_comp_ff H E opcode l = do {
     let dstreg = unat (opcode AND 7); let l = add_pc_offset 2 l;
     let src = (scast (comp_get_iword H l (l_m68k_pc_offset l)) :: u32); let l = add_pc_offset 2 l;
     let dst = dstreg; let l = dont_care_flags l; l \<leftarrow> jff_ADD_w_imm E dst src l;
     let l = live_flags l; let l = forget_unneeded l; end_inst E l }"

definition op_680_0_comp_ff :: compop_func where
  "op_680_0_comp_ff H E opcode l = do {
     let dstreg = unat (opcode AND 7); let l = add_pc_offset 2 l;
     let src = comp_get_ilong H l (l_m68k_pc_offset l); let l = add_pc_offset 4 l; let dst = dstreg;
     let l = dont_care_flags l; l \<leftarrow> jff_ADD_l_imm E dst src l; let l = live_flags l;
     let l = forget_unneeded l; end_inst E l }"

definition op_c00_0_comp_ff :: compop_func where
  "op_c00_0_comp_ff H E opcode l = do {
     let dstreg = unat (opcode AND 7); let l = add_pc_offset 2 l;
     let src = (scast (comp_get_ibyte H l (l_m68k_pc_offset l)) :: u32); let l = add_pc_offset 2 l;
     let dst = dstreg; let l = dont_care_flags l; l \<leftarrow> jff_CMP_b_imm E dst src l;
     let l = live_flags l; let l = forget_unneeded l; end_inst E l }"

definition op_c40_0_comp_ff :: compop_func where
  "op_c40_0_comp_ff H E opcode l = do {
     let dstreg = unat (opcode AND 7); let l = add_pc_offset 2 l;
     let src = (scast (comp_get_iword H l (l_m68k_pc_offset l)) :: u32); let l = add_pc_offset 2 l;
     let dst = dstreg; let l = dont_care_flags l; l \<leftarrow> jff_CMP_w_imm E dst src l;
     let l = live_flags l; let l = forget_unneeded l; end_inst E l }"

definition op_c80_0_comp_ff :: compop_func where
  "op_c80_0_comp_ff H E opcode l = do {
     let dstreg = unat (opcode AND 7); let l = add_pc_offset 2 l;
     let src = comp_get_ilong H l (l_m68k_pc_offset l); let l = add_pc_offset 4 l; let dst = dstreg;
     let l = dont_care_flags l; l \<leftarrow> jff_CMP_l_imm E dst src l; let l = live_flags l;
     let l = forget_unneeded l; end_inst E l }"

definition op_4400_0_comp_ff :: compop_func where
  "op_4400_0_comp_ff H E opcode l = do {
     let srcreg = unat (opcode AND 7); let l = add_pc_offset 2 l; let src = srcreg;
     l \<leftarrow> jff_NEG_b E src l; let l = live_flags l; let l = forget_unneeded l; end_inst E l }"

definition op_4440_0_comp_ff :: compop_func where
  "op_4440_0_comp_ff H E opcode l = do {
     let srcreg = unat (opcode AND 7); let l = add_pc_offset 2 l; let src = srcreg;
     l \<leftarrow> jff_NEG_w E src l; let l = live_flags l; let l = forget_unneeded l; end_inst E l }"

definition op_4480_0_comp_ff :: compop_func where
  "op_4480_0_comp_ff H E opcode l = do {
     let srcreg = unat (opcode AND 7); let l = add_pc_offset 2 l; let src = srcreg;
     l \<leftarrow> jff_NEG_l E src l; let l = live_flags l; let l = forget_unneeded l; end_inst E l }"

definition op_5000_0_comp_ff :: compop_func where
  "op_5000_0_comp_ff H E opcode l = do {
     let srcreg = imm8_table (unat (drop_bit 9 opcode AND 7)); let dstreg = unat (opcode AND 7);
     let l = add_pc_offset 2 l; let src = srcreg; let dst = dstreg; let l = dont_care_flags l;
     l \<leftarrow> jff_ADD_b_imm E dst src l; let l = live_flags l; let l = forget_unneeded l;
     end_inst E l }"

definition op_5040_0_comp_ff :: compop_func where
  "op_5040_0_comp_ff H E opcode l = do {
     let srcreg = imm8_table (unat (drop_bit 9 opcode AND 7)); let dstreg = unat (opcode AND 7);
     let l = add_pc_offset 2 l; let src = srcreg; let dst = dstreg; let l = dont_care_flags l;
     l \<leftarrow> jff_ADD_w_imm E dst src l; let l = live_flags l; let l = forget_unneeded l;
     end_inst E l }"

definition op_5048_0_comp_ff :: compop_func where
  "op_5048_0_comp_ff H E opcode l = do {
     let srcreg = imm8_table (unat (drop_bit 9 opcode AND 7)); let dstreg = unat (opcode AND 7);
     let l = add_pc_offset 2 l; let src = srcreg; let dst = dstreg + 8;
     l \<leftarrow> jnf_ADDA_w_imm E dst src l; end_inst E l }"

definition op_5080_0_comp_ff :: compop_func where
  "op_5080_0_comp_ff H E opcode l = do {
     let srcreg = imm8_table (unat (drop_bit 9 opcode AND 7)); let dstreg = unat (opcode AND 7);
     let l = add_pc_offset 2 l; let src = srcreg; let dst = dstreg; let l = dont_care_flags l;
     l \<leftarrow> jff_ADD_l_imm E dst src l; let l = live_flags l; let l = forget_unneeded l;
     end_inst E l }"

definition op_5088_0_comp_ff :: compop_func where
  "op_5088_0_comp_ff H E opcode l = do {
     let srcreg = imm8_table (unat (drop_bit 9 opcode AND 7)); let dstreg = unat (opcode AND 7);
     let l = add_pc_offset 2 l; let src = srcreg; let dst = dstreg + 8;
     l \<leftarrow> jnf_ADDA_l_imm E dst src l; end_inst E l }"

definition op_5100_0_comp_ff :: compop_func where
  "op_5100_0_comp_ff H E opcode l = do {
     let srcreg = imm8_table (unat (drop_bit 9 opcode AND 7)); let dstreg = unat (opcode AND 7);
     let l = add_pc_offset 2 l; let src = srcreg; let dst = dstreg; let l = dont_care_flags l;
     l \<leftarrow> jff_SUB_b_imm E dst src l; let l = live_flags l; let l = forget_unneeded l;
     end_inst E l }"

definition op_5140_0_comp_ff :: compop_func where
  "op_5140_0_comp_ff H E opcode l = do {
     let srcreg = imm8_table (unat (drop_bit 9 opcode AND 7)); let dstreg = unat (opcode AND 7);
     let l = add_pc_offset 2 l; let src = srcreg; let dst = dstreg; let l = dont_care_flags l;
     l \<leftarrow> jff_SUB_w_imm E dst src l; let l = live_flags l; let l = forget_unneeded l;
     end_inst E l }"

definition op_5148_0_comp_ff :: compop_func where
  "op_5148_0_comp_ff H E opcode l = do {
     let srcreg = imm8_table (unat (drop_bit 9 opcode AND 7)); let dstreg = unat (opcode AND 7);
     let l = add_pc_offset 2 l; let src = srcreg; let dst = dstreg + 8;
     l \<leftarrow> jnf_SUBA_w_imm E dst src l; end_inst E l }"

definition op_5180_0_comp_ff :: compop_func where
  "op_5180_0_comp_ff H E opcode l = do {
     let srcreg = imm8_table (unat (drop_bit 9 opcode AND 7)); let dstreg = unat (opcode AND 7);
     let l = add_pc_offset 2 l; let src = srcreg; let dst = dstreg; let l = dont_care_flags l;
     l \<leftarrow> jff_SUB_l_imm E dst src l; let l = live_flags l; let l = forget_unneeded l;
     end_inst E l }"

definition op_5188_0_comp_ff :: compop_func where
  "op_5188_0_comp_ff H E opcode l = do {
     let srcreg = imm8_table (unat (drop_bit 9 opcode AND 7)); let dstreg = unat (opcode AND 7);
     let l = add_pc_offset 2 l; let src = srcreg; let dst = dstreg + 8;
     l \<leftarrow> jnf_SUBA_l_imm E dst src l; end_inst E l }"

definition op_9000_0_comp_ff :: compop_func where
  "op_9000_0_comp_ff H E opcode l = do {
     let srcreg = unat (opcode AND 7); let dstreg = unat (drop_bit 9 opcode AND 7);
     let l = add_pc_offset 2 l; let src = srcreg; let dst = dstreg; let l = dont_care_flags l;
     l \<leftarrow> jff_SUB_b E dst src l; let l = live_flags l; let l = forget_unneeded l; end_inst E l }"

definition op_903c_0_comp_ff :: compop_func where
  "op_903c_0_comp_ff H E opcode l = do {
     let dstreg = unat (drop_bit 9 opcode AND 7); let l = add_pc_offset 2 l;
     let src = (scast (comp_get_ibyte H l (l_m68k_pc_offset l)) :: u32); let l = add_pc_offset 2 l;
     let dst = dstreg; let l = dont_care_flags l; l \<leftarrow> jff_SUB_b_imm E dst src l;
     let l = live_flags l; let l = forget_unneeded l; end_inst E l }"

definition op_9040_0_comp_ff :: compop_func where
  "op_9040_0_comp_ff H E opcode l = do {
     let srcreg = unat (opcode AND 7); let dstreg = unat (drop_bit 9 opcode AND 7);
     let l = add_pc_offset 2 l; let src = srcreg; let dst = dstreg; let l = dont_care_flags l;
     l \<leftarrow> jff_SUB_w E dst src l; let l = live_flags l; let l = forget_unneeded l; end_inst E l }"

definition op_9048_0_comp_ff :: compop_func where
  "op_9048_0_comp_ff H E opcode l = do {
     let srcreg = unat (opcode AND 7); let dstreg = unat (drop_bit 9 opcode AND 7);
     let l = add_pc_offset 2 l; let src = srcreg + 8; let dst = dstreg; let l = dont_care_flags l;
     l \<leftarrow> jff_SUB_w E dst src l; let l = live_flags l; let l = forget_unneeded l; end_inst E l }"

definition op_907c_0_comp_ff :: compop_func where
  "op_907c_0_comp_ff H E opcode l = do {
     let dstreg = unat (drop_bit 9 opcode AND 7); let l = add_pc_offset 2 l;
     let src = (scast (comp_get_iword H l (l_m68k_pc_offset l)) :: u32); let l = add_pc_offset 2 l;
     let dst = dstreg; let l = dont_care_flags l; l \<leftarrow> jff_SUB_w_imm E dst src l;
     let l = live_flags l; let l = forget_unneeded l; end_inst E l }"

definition op_9080_0_comp_ff :: compop_func where
  "op_9080_0_comp_ff H E opcode l = do {
     let srcreg = unat (opcode AND 7); let dstreg = unat (drop_bit 9 opcode AND 7);
     let l = add_pc_offset 2 l; let src = srcreg; let dst = dstreg; let l = dont_care_flags l;
     l \<leftarrow> jff_SUB_l E dst src l; let l = live_flags l; let l = forget_unneeded l; end_inst E l }"

definition op_9088_0_comp_ff :: compop_func where
  "op_9088_0_comp_ff H E opcode l = do {
     let srcreg = unat (opcode AND 7); let dstreg = unat (drop_bit 9 opcode AND 7);
     let l = add_pc_offset 2 l; let src = srcreg + 8; let dst = dstreg; let l = dont_care_flags l;
     l \<leftarrow> jff_SUB_l E dst src l; let l = live_flags l; let l = forget_unneeded l; end_inst E l }"

definition op_90bc_0_comp_ff :: compop_func where
  "op_90bc_0_comp_ff H E opcode l = do {
     let dstreg = unat (drop_bit 9 opcode AND 7); let l = add_pc_offset 2 l;
     let src = comp_get_ilong H l (l_m68k_pc_offset l); let l = add_pc_offset 4 l; let dst = dstreg;
     let l = dont_care_flags l; l \<leftarrow> jff_SUB_l_imm E dst src l; let l = live_flags l;
     let l = forget_unneeded l; end_inst E l }"

definition op_90c0_0_comp_ff :: compop_func where
  "op_90c0_0_comp_ff H E opcode l = do {
     let srcreg = unat (opcode AND 7); let dstreg = unat (drop_bit 9 opcode AND 7);
     let l = add_pc_offset 2 l; let src = srcreg; let dst = dstreg + 8;
     l \<leftarrow> jnf_SUBA_w E dst src l; end_inst E l }"

definition op_90c8_0_comp_ff :: compop_func where
  "op_90c8_0_comp_ff H E opcode l = do {
     let srcreg = unat (opcode AND 7); let dstreg = unat (drop_bit 9 opcode AND 7);
     let l = add_pc_offset 2 l; let src = srcreg + 8; let dst = dstreg + 8;
     l \<leftarrow> jnf_SUBA_w E dst src l; end_inst E l }"

definition op_90fc_0_comp_ff :: compop_func where
  "op_90fc_0_comp_ff H E opcode l = do {
     let dstreg = unat (drop_bit 9 opcode AND 7); let l = add_pc_offset 2 l;
     let src = (scast (comp_get_iword H l (l_m68k_pc_offset l)) :: u32); let l = add_pc_offset 2 l;
     let dst = dstreg + 8; l \<leftarrow> jnf_SUBA_w_imm E dst src l; end_inst E l }"

definition op_91c0_0_comp_ff :: compop_func where
  "op_91c0_0_comp_ff H E opcode l = do {
     let srcreg = unat (opcode AND 7); let dstreg = unat (drop_bit 9 opcode AND 7);
     let l = add_pc_offset 2 l; let src = srcreg; let dst = dstreg + 8;
     l \<leftarrow> jnf_SUBA_l E dst src l; end_inst E l }"

definition op_91c8_0_comp_ff :: compop_func where
  "op_91c8_0_comp_ff H E opcode l = do {
     let srcreg = unat (opcode AND 7); let dstreg = unat (drop_bit 9 opcode AND 7);
     let l = add_pc_offset 2 l; let src = srcreg + 8; let dst = dstreg + 8;
     l \<leftarrow> jnf_SUBA_l E dst src l; end_inst E l }"

definition op_91fc_0_comp_ff :: compop_func where
  "op_91fc_0_comp_ff H E opcode l = do {
     let dstreg = unat (drop_bit 9 opcode AND 7); let l = add_pc_offset 2 l;
     let src = comp_get_ilong H l (l_m68k_pc_offset l); let l = add_pc_offset 4 l; let dst = dstreg + 8;
     l \<leftarrow> jnf_SUBA_l_imm E dst src l; end_inst E l }"

definition op_b000_0_comp_ff :: compop_func where
  "op_b000_0_comp_ff H E opcode l = do {
     let srcreg = unat (opcode AND 7); let dstreg = unat (drop_bit 9 opcode AND 7);
     let l = add_pc_offset 2 l; let src = srcreg; let dst = dstreg; let l = dont_care_flags l;
     l \<leftarrow> jff_CMP_b E dst src l; let l = live_flags l; let l = forget_unneeded l; end_inst E l }"

definition op_b03c_0_comp_ff :: compop_func where
  "op_b03c_0_comp_ff H E opcode l = do {
     let dstreg = unat (drop_bit 9 opcode AND 7); let l = add_pc_offset 2 l;
     let src = (scast (comp_get_ibyte H l (l_m68k_pc_offset l)) :: u32); let l = add_pc_offset 2 l;
     let dst = dstreg; let l = dont_care_flags l; l \<leftarrow> jff_CMP_b_imm E dst src l;
     let l = live_flags l; let l = forget_unneeded l; end_inst E l }"

definition op_b040_0_comp_ff :: compop_func where
  "op_b040_0_comp_ff H E opcode l = do {
     let srcreg = unat (opcode AND 7); let dstreg = unat (drop_bit 9 opcode AND 7);
     let l = add_pc_offset 2 l; let src = srcreg; let dst = dstreg; let l = dont_care_flags l;
     l \<leftarrow> jff_CMP_w E dst src l; let l = live_flags l; let l = forget_unneeded l; end_inst E l }"

definition op_b048_0_comp_ff :: compop_func where
  "op_b048_0_comp_ff H E opcode l = do {
     let srcreg = unat (opcode AND 7); let dstreg = unat (drop_bit 9 opcode AND 7);
     let l = add_pc_offset 2 l; let src = srcreg + 8; let dst = dstreg; let l = dont_care_flags l;
     l \<leftarrow> jff_CMP_w E dst src l; let l = live_flags l; let l = forget_unneeded l; end_inst E l }"

definition op_b07c_0_comp_ff :: compop_func where
  "op_b07c_0_comp_ff H E opcode l = do {
     let dstreg = unat (drop_bit 9 opcode AND 7); let l = add_pc_offset 2 l;
     let src = (scast (comp_get_iword H l (l_m68k_pc_offset l)) :: u32); let l = add_pc_offset 2 l;
     let dst = dstreg; let l = dont_care_flags l; l \<leftarrow> jff_CMP_w_imm E dst src l;
     let l = live_flags l; let l = forget_unneeded l; end_inst E l }"

definition op_b080_0_comp_ff :: compop_func where
  "op_b080_0_comp_ff H E opcode l = do {
     let srcreg = unat (opcode AND 7); let dstreg = unat (drop_bit 9 opcode AND 7);
     let l = add_pc_offset 2 l; let src = srcreg; let dst = dstreg; let l = dont_care_flags l;
     l \<leftarrow> jff_CMP_l E dst src l; let l = live_flags l; let l = forget_unneeded l; end_inst E l }"

definition op_b088_0_comp_ff :: compop_func where
  "op_b088_0_comp_ff H E opcode l = do {
     let srcreg = unat (opcode AND 7); let dstreg = unat (drop_bit 9 opcode AND 7);
     let l = add_pc_offset 2 l; let src = srcreg + 8; let dst = dstreg; let l = dont_care_flags l;
     l \<leftarrow> jff_CMP_l E dst src l; let l = live_flags l; let l = forget_unneeded l; end_inst E l }"

definition op_b0bc_0_comp_ff :: compop_func where
  "op_b0bc_0_comp_ff H E opcode l = do {
     let dstreg = unat (drop_bit 9 opcode AND 7); let l = add_pc_offset 2 l;
     let src = comp_get_ilong H l (l_m68k_pc_offset l); let l = add_pc_offset 4 l; let dst = dstreg;
     let l = dont_care_flags l; l \<leftarrow> jff_CMP_l_imm E dst src l; let l = live_flags l;
     let l = forget_unneeded l; end_inst E l }"

definition op_b0c0_0_comp_ff :: compop_func where
  "op_b0c0_0_comp_ff H E opcode l = do {
     let srcreg = unat (opcode AND 7); let dstreg = unat (drop_bit 9 opcode AND 7);
     let l = add_pc_offset 2 l; let src = srcreg; let dst = dstreg + 8; let l = dont_care_flags l;
     l \<leftarrow> jff_CMPA_w E dst src l; let l = live_flags l; let l = forget_unneeded l; end_inst E l }"

definition op_b0c8_0_comp_ff :: compop_func where
  "op_b0c8_0_comp_ff H E opcode l = do {
     let srcreg = unat (opcode AND 7); let dstreg = unat (drop_bit 9 opcode AND 7);
     let l = add_pc_offset 2 l; let src = srcreg + 8; let dst = dstreg + 8; let l = dont_care_flags l;
     l \<leftarrow> jff_CMPA_w E dst src l; let l = live_flags l; let l = forget_unneeded l; end_inst E l }"

definition op_b0fc_0_comp_ff :: compop_func where
  "op_b0fc_0_comp_ff H E opcode l = do {
     let dstreg = unat (drop_bit 9 opcode AND 7); let l = add_pc_offset 2 l;
     let src = (scast (comp_get_iword H l (l_m68k_pc_offset l)) :: u32); let l = add_pc_offset 2 l;
     let dst = dstreg + 8; let l = dont_care_flags l; l \<leftarrow> jff_CMPA_w_imm E dst src l;
     let l = live_flags l; let l = forget_unneeded l; end_inst E l }"

definition op_b1c0_0_comp_ff :: compop_func where
  "op_b1c0_0_comp_ff H E opcode l = do {
     let srcreg = unat (opcode AND 7); let dstreg = unat (drop_bit 9 opcode AND 7);
     let l = add_pc_offset 2 l; let src = srcreg; let dst = dstreg + 8; let l = dont_care_flags l;
     l \<leftarrow> jff_CMPA_l E dst src l; let l = live_flags l; let l = forget_unneeded l; end_inst E l }"

definition op_b1c8_0_comp_ff :: compop_func where
  "op_b1c8_0_comp_ff H E opcode l = do {
     let srcreg = unat (opcode AND 7); let dstreg = unat (drop_bit 9 opcode AND 7);
     let l = add_pc_offset 2 l; let src = srcreg + 8; let dst = dstreg + 8; let l = dont_care_flags l;
     l \<leftarrow> jff_CMPA_l E dst src l; let l = live_flags l; let l = forget_unneeded l; end_inst E l }"

definition op_b1fc_0_comp_ff :: compop_func where
  "op_b1fc_0_comp_ff H E opcode l = do {
     let dstreg = unat (drop_bit 9 opcode AND 7); let l = add_pc_offset 2 l;
     let src = comp_get_ilong H l (l_m68k_pc_offset l); let l = add_pc_offset 4 l; let dst = dstreg + 8;
     let l = dont_care_flags l; l \<leftarrow> jff_CMPA_l_imm E dst src l; let l = live_flags l;
     let l = forget_unneeded l; end_inst E l }"

definition op_d000_0_comp_ff :: compop_func where
  "op_d000_0_comp_ff H E opcode l = do {
     let srcreg = unat (opcode AND 7); let dstreg = unat (drop_bit 9 opcode AND 7);
     let l = add_pc_offset 2 l; let src = srcreg; let dst = dstreg; let l = dont_care_flags l;
     l \<leftarrow> jff_ADD_b E dst src l; let l = live_flags l; let l = forget_unneeded l; end_inst E l }"

definition op_d03c_0_comp_ff :: compop_func where
  "op_d03c_0_comp_ff H E opcode l = do {
     let dstreg = unat (drop_bit 9 opcode AND 7); let l = add_pc_offset 2 l;
     let src = (scast (comp_get_ibyte H l (l_m68k_pc_offset l)) :: u32); let l = add_pc_offset 2 l;
     let dst = dstreg; let l = dont_care_flags l; l \<leftarrow> jff_ADD_b_imm E dst src l;
     let l = live_flags l; let l = forget_unneeded l; end_inst E l }"

definition op_d040_0_comp_ff :: compop_func where
  "op_d040_0_comp_ff H E opcode l = do {
     let srcreg = unat (opcode AND 7); let dstreg = unat (drop_bit 9 opcode AND 7);
     let l = add_pc_offset 2 l; let src = srcreg; let dst = dstreg; let l = dont_care_flags l;
     l \<leftarrow> jff_ADD_w E dst src l; let l = live_flags l; let l = forget_unneeded l; end_inst E l }"

definition op_d048_0_comp_ff :: compop_func where
  "op_d048_0_comp_ff H E opcode l = do {
     let srcreg = unat (opcode AND 7); let dstreg = unat (drop_bit 9 opcode AND 7);
     let l = add_pc_offset 2 l; let src = srcreg + 8; let dst = dstreg; let l = dont_care_flags l;
     l \<leftarrow> jff_ADD_w E dst src l; let l = live_flags l; let l = forget_unneeded l; end_inst E l }"

definition op_d07c_0_comp_ff :: compop_func where
  "op_d07c_0_comp_ff H E opcode l = do {
     let dstreg = unat (drop_bit 9 opcode AND 7); let l = add_pc_offset 2 l;
     let src = (scast (comp_get_iword H l (l_m68k_pc_offset l)) :: u32); let l = add_pc_offset 2 l;
     let dst = dstreg; let l = dont_care_flags l; l \<leftarrow> jff_ADD_w_imm E dst src l;
     let l = live_flags l; let l = forget_unneeded l; end_inst E l }"

definition op_d080_0_comp_ff :: compop_func where
  "op_d080_0_comp_ff H E opcode l = do {
     let srcreg = unat (opcode AND 7); let dstreg = unat (drop_bit 9 opcode AND 7);
     let l = add_pc_offset 2 l; let src = srcreg; let dst = dstreg; let l = dont_care_flags l;
     l \<leftarrow> jff_ADD_l E dst src l; let l = live_flags l; let l = forget_unneeded l; end_inst E l }"

definition op_d088_0_comp_ff :: compop_func where
  "op_d088_0_comp_ff H E opcode l = do {
     let srcreg = unat (opcode AND 7); let dstreg = unat (drop_bit 9 opcode AND 7);
     let l = add_pc_offset 2 l; let src = srcreg + 8; let dst = dstreg; let l = dont_care_flags l;
     l \<leftarrow> jff_ADD_l E dst src l; let l = live_flags l; let l = forget_unneeded l; end_inst E l }"

definition op_d0bc_0_comp_ff :: compop_func where
  "op_d0bc_0_comp_ff H E opcode l = do {
     let dstreg = unat (drop_bit 9 opcode AND 7); let l = add_pc_offset 2 l;
     let src = comp_get_ilong H l (l_m68k_pc_offset l); let l = add_pc_offset 4 l; let dst = dstreg;
     let l = dont_care_flags l; l \<leftarrow> jff_ADD_l_imm E dst src l; let l = live_flags l;
     let l = forget_unneeded l; end_inst E l }"

definition op_d0c0_0_comp_ff :: compop_func where
  "op_d0c0_0_comp_ff H E opcode l = do {
     let srcreg = unat (opcode AND 7); let dstreg = unat (drop_bit 9 opcode AND 7);
     let l = add_pc_offset 2 l; let src = srcreg; let dst = dstreg + 8;
     l \<leftarrow> jnf_ADDA_w E dst src l; end_inst E l }"

definition op_d0c8_0_comp_ff :: compop_func where
  "op_d0c8_0_comp_ff H E opcode l = do {
     let srcreg = unat (opcode AND 7); let dstreg = unat (drop_bit 9 opcode AND 7);
     let l = add_pc_offset 2 l; let src = srcreg + 8; let dst = dstreg + 8;
     l \<leftarrow> jnf_ADDA_w E dst src l; end_inst E l }"

definition op_d0fc_0_comp_ff :: compop_func where
  "op_d0fc_0_comp_ff H E opcode l = do {
     let dstreg = unat (drop_bit 9 opcode AND 7); let l = add_pc_offset 2 l;
     let src = (scast (comp_get_iword H l (l_m68k_pc_offset l)) :: u32); let l = add_pc_offset 2 l;
     let dst = dstreg + 8; l \<leftarrow> jnf_ADDA_w_imm E dst src l; end_inst E l }"

definition op_d1c0_0_comp_ff :: compop_func where
  "op_d1c0_0_comp_ff H E opcode l = do {
     let srcreg = unat (opcode AND 7); let dstreg = unat (drop_bit 9 opcode AND 7);
     let l = add_pc_offset 2 l; let src = srcreg; let dst = dstreg + 8;
     l \<leftarrow> jnf_ADDA_l E dst src l; end_inst E l }"

definition op_d1c8_0_comp_ff :: compop_func where
  "op_d1c8_0_comp_ff H E opcode l = do {
     let srcreg = unat (opcode AND 7); let dstreg = unat (drop_bit 9 opcode AND 7);
     let l = add_pc_offset 2 l; let src = srcreg + 8; let dst = dstreg + 8;
     l \<leftarrow> jnf_ADDA_l E dst src l; end_inst E l }"

definition op_d1fc_0_comp_ff :: compop_func where
  "op_d1fc_0_comp_ff H E opcode l = do {
     let dstreg = unat (drop_bit 9 opcode AND 7); let l = add_pc_offset 2 l;
     let src = comp_get_ilong H l (l_m68k_pc_offset l); let l = add_pc_offset 4 l; let dst = dstreg + 8;
     l \<leftarrow> jnf_ADDA_l_imm E dst src l; end_inst E l }"

definition op_400_0_comp_nf :: compop_func where
  "op_400_0_comp_nf H E opcode l = do {
     let dstreg = unat (opcode AND 7); let l = add_pc_offset 2 l;
     let src = (scast (comp_get_ibyte H l (l_m68k_pc_offset l)) :: u32); let l = add_pc_offset 2 l;
     let dst = dstreg; let l = dont_care_flags l; l \<leftarrow> jnf_SUB_b_imm E dst src l; end_inst E l }"

definition op_440_0_comp_nf :: compop_func where
  "op_440_0_comp_nf H E opcode l = do {
     let dstreg = unat (opcode AND 7); let l = add_pc_offset 2 l;
     let src = (scast (comp_get_iword H l (l_m68k_pc_offset l)) :: u32); let l = add_pc_offset 2 l;
     let dst = dstreg; let l = dont_care_flags l; l \<leftarrow> jnf_SUB_w_imm E dst src l; end_inst E l }"

definition op_480_0_comp_nf :: compop_func where
  "op_480_0_comp_nf H E opcode l = do {
     let dstreg = unat (opcode AND 7); let l = add_pc_offset 2 l;
     let src = comp_get_ilong H l (l_m68k_pc_offset l); let l = add_pc_offset 4 l; let dst = dstreg;
     let l = dont_care_flags l; l \<leftarrow> jnf_SUB_l_imm E dst src l; end_inst E l }"

definition op_600_0_comp_nf :: compop_func where
  "op_600_0_comp_nf H E opcode l = do {
     let dstreg = unat (opcode AND 7); let l = add_pc_offset 2 l;
     let src = (scast (comp_get_ibyte H l (l_m68k_pc_offset l)) :: u32); let l = add_pc_offset 2 l;
     let dst = dstreg; let l = dont_care_flags l; l \<leftarrow> jnf_ADD_b_imm E dst src l; end_inst E l }"

definition op_640_0_comp_nf :: compop_func where
  "op_640_0_comp_nf H E opcode l = do {
     let dstreg = unat (opcode AND 7); let l = add_pc_offset 2 l;
     let src = (scast (comp_get_iword H l (l_m68k_pc_offset l)) :: u32); let l = add_pc_offset 2 l;
     let dst = dstreg; let l = dont_care_flags l; l \<leftarrow> jnf_ADD_w_imm E dst src l; end_inst E l }"

definition op_680_0_comp_nf :: compop_func where
  "op_680_0_comp_nf H E opcode l = do {
     let dstreg = unat (opcode AND 7); let l = add_pc_offset 2 l;
     let src = comp_get_ilong H l (l_m68k_pc_offset l); let l = add_pc_offset 4 l; let dst = dstreg;
     let l = dont_care_flags l; l \<leftarrow> jnf_ADD_l_imm E dst src l; end_inst E l }"

definition op_c00_0_comp_nf :: compop_func where
  "op_c00_0_comp_nf H E opcode l = do {
     let dstreg = unat (opcode AND 7); let l = add_pc_offset 2 l;
     let src = (scast (comp_get_ibyte H l (l_m68k_pc_offset l)) :: u32); let l = add_pc_offset 2 l;
     let dst = dstreg; let l = dont_care_flags l; end_inst E l }"

definition op_c40_0_comp_nf :: compop_func where
  "op_c40_0_comp_nf H E opcode l = do {
     let dstreg = unat (opcode AND 7); let l = add_pc_offset 2 l;
     let src = (scast (comp_get_iword H l (l_m68k_pc_offset l)) :: u32); let l = add_pc_offset 2 l;
     let dst = dstreg; let l = dont_care_flags l; end_inst E l }"

definition op_c80_0_comp_nf :: compop_func where
  "op_c80_0_comp_nf H E opcode l = do {
     let dstreg = unat (opcode AND 7); let l = add_pc_offset 2 l;
     let src = comp_get_ilong H l (l_m68k_pc_offset l); let l = add_pc_offset 4 l; let dst = dstreg;
     let l = dont_care_flags l; end_inst E l }"

definition op_4400_0_comp_nf :: compop_func where
  "op_4400_0_comp_nf H E opcode l = do {
     let srcreg = unat (opcode AND 7); let l = add_pc_offset 2 l; let src = srcreg;
     l \<leftarrow> jnf_NEG_b E src l; end_inst E l }"

definition op_4440_0_comp_nf :: compop_func where
  "op_4440_0_comp_nf H E opcode l = do {
     let srcreg = unat (opcode AND 7); let l = add_pc_offset 2 l; let src = srcreg;
     l \<leftarrow> jnf_NEG_w E src l; end_inst E l }"

definition op_4480_0_comp_nf :: compop_func where
  "op_4480_0_comp_nf H E opcode l = do {
     let srcreg = unat (opcode AND 7); let l = add_pc_offset 2 l; let src = srcreg;
     l \<leftarrow> jnf_NEG_l E src l; end_inst E l }"

definition op_5000_0_comp_nf :: compop_func where
  "op_5000_0_comp_nf H E opcode l = do {
     let srcreg = imm8_table (unat (drop_bit 9 opcode AND 7)); let dstreg = unat (opcode AND 7);
     let l = add_pc_offset 2 l; let src = srcreg; let dst = dstreg; let l = dont_care_flags l;
     l \<leftarrow> jnf_ADD_b_imm E dst src l; end_inst E l }"

definition op_5040_0_comp_nf :: compop_func where
  "op_5040_0_comp_nf H E opcode l = do {
     let srcreg = imm8_table (unat (drop_bit 9 opcode AND 7)); let dstreg = unat (opcode AND 7);
     let l = add_pc_offset 2 l; let src = srcreg; let dst = dstreg; let l = dont_care_flags l;
     l \<leftarrow> jnf_ADD_w_imm E dst src l; end_inst E l }"

definition op_5048_0_comp_nf :: compop_func where
  "op_5048_0_comp_nf H E opcode l = do {
     let srcreg = imm8_table (unat (drop_bit 9 opcode AND 7)); let dstreg = unat (opcode AND 7);
     let l = add_pc_offset 2 l; let src = srcreg; let dst = dstreg + 8;
     l \<leftarrow> jnf_ADDA_w_imm E dst src l; end_inst E l }"

definition op_5080_0_comp_nf :: compop_func where
  "op_5080_0_comp_nf H E opcode l = do {
     let srcreg = imm8_table (unat (drop_bit 9 opcode AND 7)); let dstreg = unat (opcode AND 7);
     let l = add_pc_offset 2 l; let src = srcreg; let dst = dstreg; let l = dont_care_flags l;
     l \<leftarrow> jnf_ADD_l_imm E dst src l; end_inst E l }"

definition op_5088_0_comp_nf :: compop_func where
  "op_5088_0_comp_nf H E opcode l = do {
     let srcreg = imm8_table (unat (drop_bit 9 opcode AND 7)); let dstreg = unat (opcode AND 7);
     let l = add_pc_offset 2 l; let src = srcreg; let dst = dstreg + 8;
     l \<leftarrow> jnf_ADDA_l_imm E dst src l; end_inst E l }"

definition op_5100_0_comp_nf :: compop_func where
  "op_5100_0_comp_nf H E opcode l = do {
     let srcreg = imm8_table (unat (drop_bit 9 opcode AND 7)); let dstreg = unat (opcode AND 7);
     let l = add_pc_offset 2 l; let src = srcreg; let dst = dstreg; let l = dont_care_flags l;
     l \<leftarrow> jnf_SUB_b_imm E dst src l; end_inst E l }"

definition op_5140_0_comp_nf :: compop_func where
  "op_5140_0_comp_nf H E opcode l = do {
     let srcreg = imm8_table (unat (drop_bit 9 opcode AND 7)); let dstreg = unat (opcode AND 7);
     let l = add_pc_offset 2 l; let src = srcreg; let dst = dstreg; let l = dont_care_flags l;
     l \<leftarrow> jnf_SUB_w_imm E dst src l; end_inst E l }"

definition op_5148_0_comp_nf :: compop_func where
  "op_5148_0_comp_nf H E opcode l = do {
     let srcreg = imm8_table (unat (drop_bit 9 opcode AND 7)); let dstreg = unat (opcode AND 7);
     let l = add_pc_offset 2 l; let src = srcreg; let dst = dstreg + 8;
     l \<leftarrow> jnf_SUBA_w_imm E dst src l; end_inst E l }"

definition op_5180_0_comp_nf :: compop_func where
  "op_5180_0_comp_nf H E opcode l = do {
     let srcreg = imm8_table (unat (drop_bit 9 opcode AND 7)); let dstreg = unat (opcode AND 7);
     let l = add_pc_offset 2 l; let src = srcreg; let dst = dstreg; let l = dont_care_flags l;
     l \<leftarrow> jnf_SUB_l_imm E dst src l; end_inst E l }"

definition op_5188_0_comp_nf :: compop_func where
  "op_5188_0_comp_nf H E opcode l = do {
     let srcreg = imm8_table (unat (drop_bit 9 opcode AND 7)); let dstreg = unat (opcode AND 7);
     let l = add_pc_offset 2 l; let src = srcreg; let dst = dstreg + 8;
     l \<leftarrow> jnf_SUBA_l_imm E dst src l; end_inst E l }"

definition op_9000_0_comp_nf :: compop_func where
  "op_9000_0_comp_nf H E opcode l = do {
     let srcreg = unat (opcode AND 7); let dstreg = unat (drop_bit 9 opcode AND 7);
     let l = add_pc_offset 2 l; let src = srcreg; let dst = dstreg; let l = dont_care_flags l;
     l \<leftarrow> jnf_SUB_b E dst src l; end_inst E l }"

definition op_903c_0_comp_nf :: compop_func where
  "op_903c_0_comp_nf H E opcode l = do {
     let dstreg = unat (drop_bit 9 opcode AND 7); let l = add_pc_offset 2 l;
     let src = (scast (comp_get_ibyte H l (l_m68k_pc_offset l)) :: u32); let l = add_pc_offset 2 l;
     let dst = dstreg; let l = dont_care_flags l; l \<leftarrow> jnf_SUB_b_imm E dst src l; end_inst E l }"

definition op_9040_0_comp_nf :: compop_func where
  "op_9040_0_comp_nf H E opcode l = do {
     let srcreg = unat (opcode AND 7); let dstreg = unat (drop_bit 9 opcode AND 7);
     let l = add_pc_offset 2 l; let src = srcreg; let dst = dstreg; let l = dont_care_flags l;
     l \<leftarrow> jnf_SUB_w E dst src l; end_inst E l }"

definition op_9048_0_comp_nf :: compop_func where
  "op_9048_0_comp_nf H E opcode l = do {
     let srcreg = unat (opcode AND 7); let dstreg = unat (drop_bit 9 opcode AND 7);
     let l = add_pc_offset 2 l; let src = srcreg + 8; let dst = dstreg; let l = dont_care_flags l;
     l \<leftarrow> jnf_SUB_w E dst src l; end_inst E l }"

definition op_907c_0_comp_nf :: compop_func where
  "op_907c_0_comp_nf H E opcode l = do {
     let dstreg = unat (drop_bit 9 opcode AND 7); let l = add_pc_offset 2 l;
     let src = (scast (comp_get_iword H l (l_m68k_pc_offset l)) :: u32); let l = add_pc_offset 2 l;
     let dst = dstreg; let l = dont_care_flags l; l \<leftarrow> jnf_SUB_w_imm E dst src l; end_inst E l }"

definition op_9080_0_comp_nf :: compop_func where
  "op_9080_0_comp_nf H E opcode l = do {
     let srcreg = unat (opcode AND 7); let dstreg = unat (drop_bit 9 opcode AND 7);
     let l = add_pc_offset 2 l; let src = srcreg; let dst = dstreg; let l = dont_care_flags l;
     l \<leftarrow> jnf_SUB_l E dst src l; end_inst E l }"

definition op_9088_0_comp_nf :: compop_func where
  "op_9088_0_comp_nf H E opcode l = do {
     let srcreg = unat (opcode AND 7); let dstreg = unat (drop_bit 9 opcode AND 7);
     let l = add_pc_offset 2 l; let src = srcreg + 8; let dst = dstreg; let l = dont_care_flags l;
     l \<leftarrow> jnf_SUB_l E dst src l; end_inst E l }"

definition op_90bc_0_comp_nf :: compop_func where
  "op_90bc_0_comp_nf H E opcode l = do {
     let dstreg = unat (drop_bit 9 opcode AND 7); let l = add_pc_offset 2 l;
     let src = comp_get_ilong H l (l_m68k_pc_offset l); let l = add_pc_offset 4 l; let dst = dstreg;
     let l = dont_care_flags l; l \<leftarrow> jnf_SUB_l_imm E dst src l; end_inst E l }"

definition op_90c0_0_comp_nf :: compop_func where
  "op_90c0_0_comp_nf H E opcode l = do {
     let srcreg = unat (opcode AND 7); let dstreg = unat (drop_bit 9 opcode AND 7);
     let l = add_pc_offset 2 l; let src = srcreg; let dst = dstreg + 8;
     l \<leftarrow> jnf_SUBA_w E dst src l; end_inst E l }"

definition op_90c8_0_comp_nf :: compop_func where
  "op_90c8_0_comp_nf H E opcode l = do {
     let srcreg = unat (opcode AND 7); let dstreg = unat (drop_bit 9 opcode AND 7);
     let l = add_pc_offset 2 l; let src = srcreg + 8; let dst = dstreg + 8;
     l \<leftarrow> jnf_SUBA_w E dst src l; end_inst E l }"

definition op_90fc_0_comp_nf :: compop_func where
  "op_90fc_0_comp_nf H E opcode l = do {
     let dstreg = unat (drop_bit 9 opcode AND 7); let l = add_pc_offset 2 l;
     let src = (scast (comp_get_iword H l (l_m68k_pc_offset l)) :: u32); let l = add_pc_offset 2 l;
     let dst = dstreg + 8; l \<leftarrow> jnf_SUBA_w_imm E dst src l; end_inst E l }"

definition op_91c0_0_comp_nf :: compop_func where
  "op_91c0_0_comp_nf H E opcode l = do {
     let srcreg = unat (opcode AND 7); let dstreg = unat (drop_bit 9 opcode AND 7);
     let l = add_pc_offset 2 l; let src = srcreg; let dst = dstreg + 8;
     l \<leftarrow> jnf_SUBA_l E dst src l; end_inst E l }"

definition op_91c8_0_comp_nf :: compop_func where
  "op_91c8_0_comp_nf H E opcode l = do {
     let srcreg = unat (opcode AND 7); let dstreg = unat (drop_bit 9 opcode AND 7);
     let l = add_pc_offset 2 l; let src = srcreg + 8; let dst = dstreg + 8;
     l \<leftarrow> jnf_SUBA_l E dst src l; end_inst E l }"

definition op_91fc_0_comp_nf :: compop_func where
  "op_91fc_0_comp_nf H E opcode l = do {
     let dstreg = unat (drop_bit 9 opcode AND 7); let l = add_pc_offset 2 l;
     let src = comp_get_ilong H l (l_m68k_pc_offset l); let l = add_pc_offset 4 l; let dst = dstreg + 8;
     l \<leftarrow> jnf_SUBA_l_imm E dst src l; end_inst E l }"

definition op_b000_0_comp_nf :: compop_func where
  "op_b000_0_comp_nf H E opcode l = do {
     let srcreg = unat (opcode AND 7); let dstreg = unat (drop_bit 9 opcode AND 7);
     let l = add_pc_offset 2 l; let src = srcreg; let dst = dstreg; let l = dont_care_flags l;
     end_inst E l }"

definition op_b03c_0_comp_nf :: compop_func where
  "op_b03c_0_comp_nf H E opcode l = do {
     let dstreg = unat (drop_bit 9 opcode AND 7); let l = add_pc_offset 2 l;
     let src = (scast (comp_get_ibyte H l (l_m68k_pc_offset l)) :: u32); let l = add_pc_offset 2 l;
     let dst = dstreg; let l = dont_care_flags l; end_inst E l }"

definition op_b040_0_comp_nf :: compop_func where
  "op_b040_0_comp_nf H E opcode l = do {
     let srcreg = unat (opcode AND 7); let dstreg = unat (drop_bit 9 opcode AND 7);
     let l = add_pc_offset 2 l; let src = srcreg; let dst = dstreg; let l = dont_care_flags l;
     end_inst E l }"

definition op_b048_0_comp_nf :: compop_func where
  "op_b048_0_comp_nf H E opcode l = do {
     let srcreg = unat (opcode AND 7); let dstreg = unat (drop_bit 9 opcode AND 7);
     let l = add_pc_offset 2 l; let src = srcreg + 8; let dst = dstreg; let l = dont_care_flags l;
     end_inst E l }"

definition op_b07c_0_comp_nf :: compop_func where
  "op_b07c_0_comp_nf H E opcode l = do {
     let dstreg = unat (drop_bit 9 opcode AND 7); let l = add_pc_offset 2 l;
     let src = (scast (comp_get_iword H l (l_m68k_pc_offset l)) :: u32); let l = add_pc_offset 2 l;
     let dst = dstreg; let l = dont_care_flags l; end_inst E l }"

definition op_b080_0_comp_nf :: compop_func where
  "op_b080_0_comp_nf H E opcode l = do {
     let srcreg = unat (opcode AND 7); let dstreg = unat (drop_bit 9 opcode AND 7);
     let l = add_pc_offset 2 l; let src = srcreg; let dst = dstreg; let l = dont_care_flags l;
     end_inst E l }"

definition op_b088_0_comp_nf :: compop_func where
  "op_b088_0_comp_nf H E opcode l = do {
     let srcreg = unat (opcode AND 7); let dstreg = unat (drop_bit 9 opcode AND 7);
     let l = add_pc_offset 2 l; let src = srcreg + 8; let dst = dstreg; let l = dont_care_flags l;
     end_inst E l }"

definition op_b0bc_0_comp_nf :: compop_func where
  "op_b0bc_0_comp_nf H E opcode l = do {
     let dstreg = unat (drop_bit 9 opcode AND 7); let l = add_pc_offset 2 l;
     let src = comp_get_ilong H l (l_m68k_pc_offset l); let l = add_pc_offset 4 l; let dst = dstreg;
     let l = dont_care_flags l; end_inst E l }"

definition op_b0c0_0_comp_nf :: compop_func where
  "op_b0c0_0_comp_nf H E opcode l = do {
     let srcreg = unat (opcode AND 7); let dstreg = unat (drop_bit 9 opcode AND 7);
     let l = add_pc_offset 2 l; let src = srcreg; let dst = dstreg + 8; let l = dont_care_flags l;
     end_inst E l }"

definition op_b0c8_0_comp_nf :: compop_func where
  "op_b0c8_0_comp_nf H E opcode l = do {
     let srcreg = unat (opcode AND 7); let dstreg = unat (drop_bit 9 opcode AND 7);
     let l = add_pc_offset 2 l; let src = srcreg + 8; let dst = dstreg + 8; let l = dont_care_flags l;
     end_inst E l }"

definition op_b0fc_0_comp_nf :: compop_func where
  "op_b0fc_0_comp_nf H E opcode l = do {
     let dstreg = unat (drop_bit 9 opcode AND 7); let l = add_pc_offset 2 l;
     let src = (scast (comp_get_iword H l (l_m68k_pc_offset l)) :: u32); let l = add_pc_offset 2 l;
     let dst = dstreg + 8; let l = dont_care_flags l; end_inst E l }"

definition op_b1c0_0_comp_nf :: compop_func where
  "op_b1c0_0_comp_nf H E opcode l = do {
     let srcreg = unat (opcode AND 7); let dstreg = unat (drop_bit 9 opcode AND 7);
     let l = add_pc_offset 2 l; let src = srcreg; let dst = dstreg + 8; let l = dont_care_flags l;
     end_inst E l }"

definition op_b1c8_0_comp_nf :: compop_func where
  "op_b1c8_0_comp_nf H E opcode l = do {
     let srcreg = unat (opcode AND 7); let dstreg = unat (drop_bit 9 opcode AND 7);
     let l = add_pc_offset 2 l; let src = srcreg + 8; let dst = dstreg + 8; let l = dont_care_flags l;
     end_inst E l }"

definition op_b1fc_0_comp_nf :: compop_func where
  "op_b1fc_0_comp_nf H E opcode l = do {
     let dstreg = unat (drop_bit 9 opcode AND 7); let l = add_pc_offset 2 l;
     let src = comp_get_ilong H l (l_m68k_pc_offset l); let l = add_pc_offset 4 l; let dst = dstreg + 8;
     let l = dont_care_flags l; end_inst E l }"

definition op_d000_0_comp_nf :: compop_func where
  "op_d000_0_comp_nf H E opcode l = do {
     let srcreg = unat (opcode AND 7); let dstreg = unat (drop_bit 9 opcode AND 7);
     let l = add_pc_offset 2 l; let src = srcreg; let dst = dstreg; let l = dont_care_flags l;
     l \<leftarrow> jnf_ADD_b E dst src l; end_inst E l }"

definition op_d03c_0_comp_nf :: compop_func where
  "op_d03c_0_comp_nf H E opcode l = do {
     let dstreg = unat (drop_bit 9 opcode AND 7); let l = add_pc_offset 2 l;
     let src = (scast (comp_get_ibyte H l (l_m68k_pc_offset l)) :: u32); let l = add_pc_offset 2 l;
     let dst = dstreg; let l = dont_care_flags l; l \<leftarrow> jnf_ADD_b_imm E dst src l; end_inst E l }"

definition op_d040_0_comp_nf :: compop_func where
  "op_d040_0_comp_nf H E opcode l = do {
     let srcreg = unat (opcode AND 7); let dstreg = unat (drop_bit 9 opcode AND 7);
     let l = add_pc_offset 2 l; let src = srcreg; let dst = dstreg; let l = dont_care_flags l;
     l \<leftarrow> jnf_ADD_w E dst src l; end_inst E l }"

definition op_d048_0_comp_nf :: compop_func where
  "op_d048_0_comp_nf H E opcode l = do {
     let srcreg = unat (opcode AND 7); let dstreg = unat (drop_bit 9 opcode AND 7);
     let l = add_pc_offset 2 l; let src = srcreg + 8; let dst = dstreg; let l = dont_care_flags l;
     l \<leftarrow> jnf_ADD_w E dst src l; end_inst E l }"

definition op_d07c_0_comp_nf :: compop_func where
  "op_d07c_0_comp_nf H E opcode l = do {
     let dstreg = unat (drop_bit 9 opcode AND 7); let l = add_pc_offset 2 l;
     let src = (scast (comp_get_iword H l (l_m68k_pc_offset l)) :: u32); let l = add_pc_offset 2 l;
     let dst = dstreg; let l = dont_care_flags l; l \<leftarrow> jnf_ADD_w_imm E dst src l; end_inst E l }"

definition op_d080_0_comp_nf :: compop_func where
  "op_d080_0_comp_nf H E opcode l = do {
     let srcreg = unat (opcode AND 7); let dstreg = unat (drop_bit 9 opcode AND 7);
     let l = add_pc_offset 2 l; let src = srcreg; let dst = dstreg; let l = dont_care_flags l;
     l \<leftarrow> jnf_ADD_l E dst src l; end_inst E l }"

definition op_d088_0_comp_nf :: compop_func where
  "op_d088_0_comp_nf H E opcode l = do {
     let srcreg = unat (opcode AND 7); let dstreg = unat (drop_bit 9 opcode AND 7);
     let l = add_pc_offset 2 l; let src = srcreg + 8; let dst = dstreg; let l = dont_care_flags l;
     l \<leftarrow> jnf_ADD_l E dst src l; end_inst E l }"

definition op_d0bc_0_comp_nf :: compop_func where
  "op_d0bc_0_comp_nf H E opcode l = do {
     let dstreg = unat (drop_bit 9 opcode AND 7); let l = add_pc_offset 2 l;
     let src = comp_get_ilong H l (l_m68k_pc_offset l); let l = add_pc_offset 4 l; let dst = dstreg;
     let l = dont_care_flags l; l \<leftarrow> jnf_ADD_l_imm E dst src l; end_inst E l }"

definition op_d0c0_0_comp_nf :: compop_func where
  "op_d0c0_0_comp_nf H E opcode l = do {
     let srcreg = unat (opcode AND 7); let dstreg = unat (drop_bit 9 opcode AND 7);
     let l = add_pc_offset 2 l; let src = srcreg; let dst = dstreg + 8;
     l \<leftarrow> jnf_ADDA_w E dst src l; end_inst E l }"

definition op_d0c8_0_comp_nf :: compop_func where
  "op_d0c8_0_comp_nf H E opcode l = do {
     let srcreg = unat (opcode AND 7); let dstreg = unat (drop_bit 9 opcode AND 7);
     let l = add_pc_offset 2 l; let src = srcreg + 8; let dst = dstreg + 8;
     l \<leftarrow> jnf_ADDA_w E dst src l; end_inst E l }"

definition op_d0fc_0_comp_nf :: compop_func where
  "op_d0fc_0_comp_nf H E opcode l = do {
     let dstreg = unat (drop_bit 9 opcode AND 7); let l = add_pc_offset 2 l;
     let src = (scast (comp_get_iword H l (l_m68k_pc_offset l)) :: u32); let l = add_pc_offset 2 l;
     let dst = dstreg + 8; l \<leftarrow> jnf_ADDA_w_imm E dst src l; end_inst E l }"

definition op_d1c0_0_comp_nf :: compop_func where
  "op_d1c0_0_comp_nf H E opcode l = do {
     let srcreg = unat (opcode AND 7); let dstreg = unat (drop_bit 9 opcode AND 7);
     let l = add_pc_offset 2 l; let src = srcreg; let dst = dstreg + 8;
     l \<leftarrow> jnf_ADDA_l E dst src l; end_inst E l }"

definition op_d1c8_0_comp_nf :: compop_func where
  "op_d1c8_0_comp_nf H E opcode l = do {
     let srcreg = unat (opcode AND 7); let dstreg = unat (drop_bit 9 opcode AND 7);
     let l = add_pc_offset 2 l; let src = srcreg + 8; let dst = dstreg + 8;
     l \<leftarrow> jnf_ADDA_l E dst src l; end_inst E l }"

definition op_d1fc_0_comp_nf :: compop_func where
  "op_d1fc_0_comp_nf H E opcode l = do {
     let dstreg = unat (drop_bit 9 opcode AND 7); let l = add_pc_offset 2 l;
     let src = comp_get_ilong H l (l_m68k_pc_offset l); let l = add_pc_offset 4 l; let dst = dstreg + 8;
     l \<leftarrow> jnf_ADDA_l_imm E dst src l; end_inst E l }"

section \<open>Their correctness\<close>

lemma op_400_0_comp_ff_ok:
  assumes "op_ready (64 + t) E mi l" "sets_flags 0x1F mi mo l"
  shows "translated t E mi mo l (op_400_0_comp_ff H E opcode l)
    (\<lambda>g. incpc 4 (i_SUB (get_dibyte H 2 g) (lo_reg opcode) g))"
  unfolding op_400_0_comp_ff_def Let_def add_pc_offset_simps comp_get_offset numeral_plus_numeral semiring_norm i_SUB_def
  by (rule ff_arith [where k = 4 and p = dont_care_flags, OF op_ready_done [OF assms(1)] assms(2)
      mode_changes(3) live_modes(2) _ _ _ jff_SUB_b_imm_ok])
    (simp_all add: fetch_regs imm_view [OF op_ready_done [OF assms(1)]] op_done_ready [OF op_ready_done [OF assms(1)]] op_operand [OF op_ready_done [OF assms(1)]])

lemma op_440_0_comp_ff_ok:
  assumes "op_ready (64 + t) E mi l" "sets_flags 0x1F mi mo l"
  shows "translated t E mi mo l (op_440_0_comp_ff H E opcode l)
    (\<lambda>g. incpc 4 (i_SUB (get_diword H 2 g) (lo_reg opcode) g))"
  unfolding op_440_0_comp_ff_def Let_def add_pc_offset_simps comp_get_offset numeral_plus_numeral semiring_norm i_SUB_def
  by (rule ff_arith [where k = 4 and p = dont_care_flags, OF op_ready_done [OF assms(1)] assms(2)
      mode_changes(3) live_modes(2) _ _ _ jff_SUB_w_imm_ok])
    (simp_all add: fetch_regs imm_view [OF op_ready_done [OF assms(1)]] op_done_ready [OF op_ready_done [OF assms(1)]] op_operand [OF op_ready_done [OF assms(1)]])

lemma op_480_0_comp_ff_ok:
  assumes "op_ready (64 + t) E mi l" "sets_flags 0x1F mi mo l"
  shows "translated t E mi mo l (op_480_0_comp_ff H E opcode l)
    (\<lambda>g. incpc 6 (i_SUB (get_dilong H 2 g) (lo_reg opcode) g))"
  unfolding op_480_0_comp_ff_def Let_def add_pc_offset_simps comp_get_offset numeral_plus_numeral semiring_norm i_SUB_def
  by (rule ff_arith [where k = 6 and p = dont_care_flags, OF op_ready_done [OF assms(1)] assms(2)
      mode_changes(3) live_modes(2) _ _ _ jff_SUB_l_imm_ok])
    (simp_all add: fetch_regs imm_view [OF op_ready_done [OF assms(1)]] op_done_ready [OF op_ready_done [OF assms(1)]] op_operand [OF op_ready_done [OF assms(1)]])

lemma op_600_0_comp_ff_ok:
  assumes "op_ready (64 + t) E mi l" "sets_flags 0x1F mi mo l"
  shows "translated t E mi mo l (op_600_0_comp_ff H E opcode l)
    (\<lambda>g. incpc 4 (i_ADD (get_dibyte H 2 g) (lo_reg opcode) g))"
  unfolding op_600_0_comp_ff_def Let_def add_pc_offset_simps comp_get_offset numeral_plus_numeral semiring_norm i_ADD_def
  by (rule ff_arith [where k = 4 and p = dont_care_flags, OF op_ready_done [OF assms(1)] assms(2)
      mode_changes(3) live_modes(2) _ _ _ jff_ADD_b_imm_ok])
    (simp_all add: fetch_regs imm_view [OF op_ready_done [OF assms(1)]] op_done_ready [OF op_ready_done [OF assms(1)]] op_operand [OF op_ready_done [OF assms(1)]])

lemma op_640_0_comp_ff_ok:
  assumes "op_ready (64 + t) E mi l" "sets_flags 0x1F mi mo l"
  shows "translated t E mi mo l (op_640_0_comp_ff H E opcode l)
    (\<lambda>g. incpc 4 (i_ADD (get_diword H 2 g) (lo_reg opcode) g))"
  unfolding op_640_0_comp_ff_def Let_def add_pc_offset_simps comp_get_offset numeral_plus_numeral semiring_norm i_ADD_def
  by (rule ff_arith [where k = 4 and p = dont_care_flags, OF op_ready_done [OF assms(1)] assms(2)
      mode_changes(3) live_modes(2) _ _ _ jff_ADD_w_imm_ok])
    (simp_all add: fetch_regs imm_view [OF op_ready_done [OF assms(1)]] op_done_ready [OF op_ready_done [OF assms(1)]] op_operand [OF op_ready_done [OF assms(1)]])

lemma op_680_0_comp_ff_ok:
  assumes "op_ready (64 + t) E mi l" "sets_flags 0x1F mi mo l"
  shows "translated t E mi mo l (op_680_0_comp_ff H E opcode l)
    (\<lambda>g. incpc 6 (i_ADD (get_dilong H 2 g) (lo_reg opcode) g))"
  unfolding op_680_0_comp_ff_def Let_def add_pc_offset_simps comp_get_offset numeral_plus_numeral semiring_norm i_ADD_def
  by (rule ff_arith [where k = 6 and p = dont_care_flags, OF op_ready_done [OF assms(1)] assms(2)
      mode_changes(3) live_modes(2) _ _ _ jff_ADD_l_imm_ok])
    (simp_all add: fetch_regs imm_view [OF op_ready_done [OF assms(1)]] op_done_ready [OF op_ready_done [OF assms(1)]] op_operand [OF op_ready_done [OF assms(1)]])

lemma op_c00_0_comp_ff_ok:
  assumes "op_ready (64 + t) E mi l" "sets_flags 0xF mi mo l"
  shows "translated t E mi mo l (op_c00_0_comp_ff H E opcode l)
    (\<lambda>g. incpc 4 (i_CMP (get_dibyte H 2 g) (lo_reg opcode) g))"
  unfolding op_c00_0_comp_ff_def Let_def add_pc_offset_simps comp_get_offset numeral_plus_numeral semiring_norm i_CMP_def
  by (rule ff_compare [where k = 4 and p = dont_care_flags, OF op_ready_done [OF assms(1)] assms(2)
      mode_changes(3) live_modes(2) _ jff_CMP_b_imm_ok])
    (simp_all add: fetch_regs imm_view [OF op_ready_done [OF assms(1)]] op_done_ready [OF op_ready_done [OF assms(1)]] op_operand [OF op_ready_done [OF assms(1)]])

lemma op_c40_0_comp_ff_ok:
  assumes "op_ready (64 + t) E mi l" "sets_flags 0xF mi mo l"
  shows "translated t E mi mo l (op_c40_0_comp_ff H E opcode l)
    (\<lambda>g. incpc 4 (i_CMP (get_diword H 2 g) (lo_reg opcode) g))"
  unfolding op_c40_0_comp_ff_def Let_def add_pc_offset_simps comp_get_offset numeral_plus_numeral semiring_norm i_CMP_def
  by (rule ff_compare [where k = 4 and p = dont_care_flags, OF op_ready_done [OF assms(1)] assms(2)
      mode_changes(3) live_modes(2) _ jff_CMP_w_imm_ok])
    (simp_all add: fetch_regs imm_view [OF op_ready_done [OF assms(1)]] op_done_ready [OF op_ready_done [OF assms(1)]] op_operand [OF op_ready_done [OF assms(1)]])

lemma op_c80_0_comp_ff_ok:
  assumes "op_ready (64 + t) E mi l" "sets_flags 0xF mi mo l"
  shows "translated t E mi mo l (op_c80_0_comp_ff H E opcode l)
    (\<lambda>g. incpc 6 (i_CMP (get_dilong H 2 g) (lo_reg opcode) g))"
  unfolding op_c80_0_comp_ff_def Let_def add_pc_offset_simps comp_get_offset numeral_plus_numeral semiring_norm i_CMP_def
  by (rule ff_compare [where k = 6 and p = dont_care_flags, OF op_ready_done [OF assms(1)] assms(2)
      mode_changes(3) live_modes(2) _ jff_CMP_l_imm_ok])
    (simp_all add: fetch_regs imm_view [OF op_ready_done [OF assms(1)]] op_done_ready [OF op_ready_done [OF assms(1)]] op_operand [OF op_ready_done [OF assms(1)]])

lemma op_4400_0_comp_ff_ok:
  assumes "op_ready (64 + t) E mi l" "sets_flags 0x1F mi mo l"
  shows "translated t E mi mo l (op_4400_0_comp_ff H E opcode l)
    (\<lambda>g. incpc 2 (i_NEG TYPE(8) (lo_reg opcode) g))"
  unfolding op_4400_0_comp_ff_def Let_def i_NEG_def
  by (rule ff_arith [where k = 2 and p = "\<lambda>l. l", OF op_ready_done [OF assms(1)] assms(2)
      mode_changes(1) live_modes(2) _ _ _ jff_NEG_b_ok])
    (simp_all add: fetch_regs imm_view [OF op_ready_done [OF assms(1)]] op_done_ready [OF op_ready_done [OF assms(1)]] op_operand [OF op_ready_done [OF assms(1)]])

lemma op_4440_0_comp_ff_ok:
  assumes "op_ready (64 + t) E mi l" "sets_flags 0x1F mi mo l"
  shows "translated t E mi mo l (op_4440_0_comp_ff H E opcode l)
    (\<lambda>g. incpc 2 (i_NEG TYPE(16) (lo_reg opcode) g))"
  unfolding op_4440_0_comp_ff_def Let_def i_NEG_def
  by (rule ff_arith [where k = 2 and p = "\<lambda>l. l", OF op_ready_done [OF assms(1)] assms(2)
      mode_changes(1) live_modes(2) _ _ _ jff_NEG_w_ok])
    (simp_all add: fetch_regs imm_view [OF op_ready_done [OF assms(1)]] op_done_ready [OF op_ready_done [OF assms(1)]] op_operand [OF op_ready_done [OF assms(1)]])

lemma op_4480_0_comp_ff_ok:
  assumes "op_ready (64 + t) E mi l" "sets_flags 0x1F mi mo l"
  shows "translated t E mi mo l (op_4480_0_comp_ff H E opcode l)
    (\<lambda>g. incpc 2 (i_NEG TYPE(32) (lo_reg opcode) g))"
  unfolding op_4480_0_comp_ff_def Let_def i_NEG_def
  by (rule ff_arith [where k = 2 and p = "\<lambda>l. l", OF op_ready_done [OF assms(1)] assms(2)
      mode_changes(1) live_modes(2) _ _ _ jff_NEG_l_ok])
    (simp_all add: fetch_regs imm_view [OF op_ready_done [OF assms(1)]] op_done_ready [OF op_ready_done [OF assms(1)]] op_operand [OF op_ready_done [OF assms(1)]])

lemma op_5000_0_comp_ff_ok:
  assumes "op_ready (64 + t) E mi l" "sets_flags 0x1F mi mo l"
  shows "translated t E mi mo l (op_5000_0_comp_ff H E opcode l)
    (\<lambda>g. incpc 2 (i_ADD (ucast (imm8_table (hi_reg opcode)) :: u8) (lo_reg opcode) g))"
  unfolding op_5000_0_comp_ff_def Let_def i_ADD_def
  by (rule ff_arith [where k = 2 and p = dont_care_flags, OF op_ready_done [OF assms(1)] assms(2)
      mode_changes(3) live_modes(2) _ _ _ jff_ADD_b_imm_ok])
    (simp_all add: fetch_regs imm_view [OF op_ready_done [OF assms(1)]] op_done_ready [OF op_ready_done [OF assms(1)]] op_operand [OF op_ready_done [OF assms(1)]])

lemma op_5040_0_comp_ff_ok:
  assumes "op_ready (64 + t) E mi l" "sets_flags 0x1F mi mo l"
  shows "translated t E mi mo l (op_5040_0_comp_ff H E opcode l)
    (\<lambda>g. incpc 2 (i_ADD (ucast (imm8_table (hi_reg opcode)) :: u16) (lo_reg opcode) g))"
  unfolding op_5040_0_comp_ff_def Let_def i_ADD_def
  by (rule ff_arith [where k = 2 and p = dont_care_flags, OF op_ready_done [OF assms(1)] assms(2)
      mode_changes(3) live_modes(2) _ _ _ jff_ADD_w_imm_ok])
    (simp_all add: fetch_regs imm_view [OF op_ready_done [OF assms(1)]] op_done_ready [OF op_ready_done [OF assms(1)]] op_operand [OF op_ready_done [OF assms(1)]])

lemma op_5048_0_comp_ff_ok:
  assumes "op_ready (64 + t) E mi l" "mi = mo"
  shows "translated t E mi mo l (op_5048_0_comp_ff H E opcode l)
    (\<lambda>g. incpc 2 (i_ADDA (imm8_table (hi_reg opcode)) (lo_reg opcode + 8) g))"
  unfolding op_5048_0_comp_ff_def Let_def assms(2) i_ADDA_def
  by (rule keep_plain [where k = 2, OF op_ready_done [OF assms(1) [unfolded assms(2)]] _ _ jnf_ADDA_w_imm_ok])
    (simp_all add: imm8_small fetch_regs imm_view [OF op_ready_done [OF assms(1) [unfolded assms(2)]]] op_done_ready [OF op_ready_done [OF assms(1) [unfolded assms(2)]]] op_operand [OF op_ready_done [OF assms(1) [unfolded assms(2)]]])

lemma op_5080_0_comp_ff_ok:
  assumes "op_ready (64 + t) E mi l" "sets_flags 0x1F mi mo l"
  shows "translated t E mi mo l (op_5080_0_comp_ff H E opcode l)
    (\<lambda>g. incpc 2 (i_ADD (ucast (imm8_table (hi_reg opcode)) :: u32) (lo_reg opcode) g))"
  unfolding op_5080_0_comp_ff_def Let_def i_ADD_def
  by (rule ff_arith [where k = 2 and p = dont_care_flags, OF op_ready_done [OF assms(1)] assms(2)
      mode_changes(3) live_modes(2) _ _ _ jff_ADD_l_imm_ok])
    (simp_all add: fetch_regs imm_view [OF op_ready_done [OF assms(1)]] op_done_ready [OF op_ready_done [OF assms(1)]] op_operand [OF op_ready_done [OF assms(1)]])

lemma op_5088_0_comp_ff_ok:
  assumes "op_ready (64 + t) E mi l" "mi = mo"
  shows "translated t E mi mo l (op_5088_0_comp_ff H E opcode l)
    (\<lambda>g. incpc 2 (i_ADDA (imm8_table (hi_reg opcode)) (lo_reg opcode + 8) g))"
  unfolding op_5088_0_comp_ff_def Let_def assms(2) i_ADDA_def
  by (rule keep_plain [where k = 2, OF op_ready_done [OF assms(1) [unfolded assms(2)]] _ _ jnf_ADDA_l_imm_ok])
    (simp_all add: imm8_small fetch_regs imm_view [OF op_ready_done [OF assms(1) [unfolded assms(2)]]] op_done_ready [OF op_ready_done [OF assms(1) [unfolded assms(2)]]] op_operand [OF op_ready_done [OF assms(1) [unfolded assms(2)]]])

lemma op_5100_0_comp_ff_ok:
  assumes "op_ready (64 + t) E mi l" "sets_flags 0x1F mi mo l"
  shows "translated t E mi mo l (op_5100_0_comp_ff H E opcode l)
    (\<lambda>g. incpc 2 (i_SUB (ucast (imm8_table (hi_reg opcode)) :: u8) (lo_reg opcode) g))"
  unfolding op_5100_0_comp_ff_def Let_def i_SUB_def
  by (rule ff_arith [where k = 2 and p = dont_care_flags, OF op_ready_done [OF assms(1)] assms(2)
      mode_changes(3) live_modes(2) _ _ _ jff_SUB_b_imm_ok])
    (simp_all add: fetch_regs imm_view [OF op_ready_done [OF assms(1)]] op_done_ready [OF op_ready_done [OF assms(1)]] op_operand [OF op_ready_done [OF assms(1)]])

lemma op_5140_0_comp_ff_ok:
  assumes "op_ready (64 + t) E mi l" "sets_flags 0x1F mi mo l"
  shows "translated t E mi mo l (op_5140_0_comp_ff H E opcode l)
    (\<lambda>g. incpc 2 (i_SUB (ucast (imm8_table (hi_reg opcode)) :: u16) (lo_reg opcode) g))"
  unfolding op_5140_0_comp_ff_def Let_def i_SUB_def
  by (rule ff_arith [where k = 2 and p = dont_care_flags, OF op_ready_done [OF assms(1)] assms(2)
      mode_changes(3) live_modes(2) _ _ _ jff_SUB_w_imm_ok])
    (simp_all add: fetch_regs imm_view [OF op_ready_done [OF assms(1)]] op_done_ready [OF op_ready_done [OF assms(1)]] op_operand [OF op_ready_done [OF assms(1)]])

lemma op_5148_0_comp_ff_ok:
  assumes "op_ready (64 + t) E mi l" "mi = mo"
  shows "translated t E mi mo l (op_5148_0_comp_ff H E opcode l)
    (\<lambda>g. incpc 2 (i_SUBA (imm8_table (hi_reg opcode)) (lo_reg opcode + 8) g))"
  unfolding op_5148_0_comp_ff_def Let_def assms(2) i_SUBA_def
  by (rule keep_plain [where k = 2, OF op_ready_done [OF assms(1) [unfolded assms(2)]] _ _ jnf_SUBA_w_imm_ok])
    (simp_all add: imm8_small fetch_regs imm_view [OF op_ready_done [OF assms(1) [unfolded assms(2)]]] op_done_ready [OF op_ready_done [OF assms(1) [unfolded assms(2)]]] op_operand [OF op_ready_done [OF assms(1) [unfolded assms(2)]]])

lemma op_5180_0_comp_ff_ok:
  assumes "op_ready (64 + t) E mi l" "sets_flags 0x1F mi mo l"
  shows "translated t E mi mo l (op_5180_0_comp_ff H E opcode l)
    (\<lambda>g. incpc 2 (i_SUB (ucast (imm8_table (hi_reg opcode)) :: u32) (lo_reg opcode) g))"
  unfolding op_5180_0_comp_ff_def Let_def i_SUB_def
  by (rule ff_arith [where k = 2 and p = dont_care_flags, OF op_ready_done [OF assms(1)] assms(2)
      mode_changes(3) live_modes(2) _ _ _ jff_SUB_l_imm_ok])
    (simp_all add: fetch_regs imm_view [OF op_ready_done [OF assms(1)]] op_done_ready [OF op_ready_done [OF assms(1)]] op_operand [OF op_ready_done [OF assms(1)]])

lemma op_5188_0_comp_ff_ok:
  assumes "op_ready (64 + t) E mi l" "mi = mo"
  shows "translated t E mi mo l (op_5188_0_comp_ff H E opcode l)
    (\<lambda>g. incpc 2 (i_SUBA (imm8_table (hi_reg opcode)) (lo_reg opcode + 8) g))"
  unfolding op_5188_0_comp_ff_def Let_def assms(2) i_SUBA_def
  by (rule keep_plain [where k = 2, OF op_ready_done [OF assms(1) [unfolded assms(2)]] _ _ jnf_SUBA_l_imm_ok])
    (simp_all add: imm8_small fetch_regs imm_view [OF op_ready_done [OF assms(1) [unfolded assms(2)]]] op_done_ready [OF op_ready_done [OF assms(1) [unfolded assms(2)]]] op_operand [OF op_ready_done [OF assms(1) [unfolded assms(2)]]])

lemma op_9000_0_comp_ff_ok:
  assumes "op_ready (64 + t) E mi l" "sets_flags 0x1F mi mo l"
  shows "translated t E mi mo l (op_9000_0_comp_ff H E opcode l)
    (\<lambda>g. incpc 2 (i_SUB (fetch_reg (lo_reg opcode) g :: u8) (hi_reg opcode) g))"
  unfolding op_9000_0_comp_ff_def Let_def i_SUB_def
  by (rule ff_arith [where k = 2 and p = dont_care_flags, OF op_ready_done [OF assms(1)] assms(2)
      mode_changes(3) live_modes(2) _ _ _ jff_SUB_b_ok])
    (simp_all add: fetch_regs imm_view [OF op_ready_done [OF assms(1)]] op_done_ready [OF op_ready_done [OF assms(1)]] op_operand [OF op_ready_done [OF assms(1)]])

lemma op_903c_0_comp_ff_ok:
  assumes "op_ready (64 + t) E mi l" "sets_flags 0x1F mi mo l"
  shows "translated t E mi mo l (op_903c_0_comp_ff H E opcode l)
    (\<lambda>g. incpc 4 (i_SUB (get_dibyte H 2 g) (hi_reg opcode) g))"
  unfolding op_903c_0_comp_ff_def Let_def add_pc_offset_simps comp_get_offset numeral_plus_numeral semiring_norm i_SUB_def
  by (rule ff_arith [where k = 4 and p = dont_care_flags, OF op_ready_done [OF assms(1)] assms(2)
      mode_changes(3) live_modes(2) _ _ _ jff_SUB_b_imm_ok])
    (simp_all add: fetch_regs imm_view [OF op_ready_done [OF assms(1)]] op_done_ready [OF op_ready_done [OF assms(1)]] op_operand [OF op_ready_done [OF assms(1)]])

lemma op_9040_0_comp_ff_ok:
  assumes "op_ready (64 + t) E mi l" "sets_flags 0x1F mi mo l"
  shows "translated t E mi mo l (op_9040_0_comp_ff H E opcode l)
    (\<lambda>g. incpc 2 (i_SUB (fetch_reg (lo_reg opcode) g :: u16) (hi_reg opcode) g))"
  unfolding op_9040_0_comp_ff_def Let_def i_SUB_def
  by (rule ff_arith [where k = 2 and p = dont_care_flags, OF op_ready_done [OF assms(1)] assms(2)
      mode_changes(3) live_modes(2) _ _ _ jff_SUB_w_ok])
    (simp_all add: fetch_regs imm_view [OF op_ready_done [OF assms(1)]] op_done_ready [OF op_ready_done [OF assms(1)]] op_operand [OF op_ready_done [OF assms(1)]])

lemma op_9048_0_comp_ff_ok:
  assumes "op_ready (64 + t) E mi l" "sets_flags 0x1F mi mo l"
  shows "translated t E mi mo l (op_9048_0_comp_ff H E opcode l)
    (\<lambda>g. incpc 2 (i_SUB (fetch_reg (lo_reg opcode + 8) g :: u16) (hi_reg opcode) g))"
  unfolding op_9048_0_comp_ff_def Let_def i_SUB_def
  by (rule ff_arith [where k = 2 and p = dont_care_flags, OF op_ready_done [OF assms(1)] assms(2)
      mode_changes(3) live_modes(2) _ _ _ jff_SUB_w_ok])
    (simp_all add: fetch_regs imm_view [OF op_ready_done [OF assms(1)]] op_done_ready [OF op_ready_done [OF assms(1)]] op_operand [OF op_ready_done [OF assms(1)]])

lemma op_907c_0_comp_ff_ok:
  assumes "op_ready (64 + t) E mi l" "sets_flags 0x1F mi mo l"
  shows "translated t E mi mo l (op_907c_0_comp_ff H E opcode l)
    (\<lambda>g. incpc 4 (i_SUB (get_diword H 2 g) (hi_reg opcode) g))"
  unfolding op_907c_0_comp_ff_def Let_def add_pc_offset_simps comp_get_offset numeral_plus_numeral semiring_norm i_SUB_def
  by (rule ff_arith [where k = 4 and p = dont_care_flags, OF op_ready_done [OF assms(1)] assms(2)
      mode_changes(3) live_modes(2) _ _ _ jff_SUB_w_imm_ok])
    (simp_all add: fetch_regs imm_view [OF op_ready_done [OF assms(1)]] op_done_ready [OF op_ready_done [OF assms(1)]] op_operand [OF op_ready_done [OF assms(1)]])

lemma op_9080_0_comp_ff_ok:
  assumes "op_ready (64 + t) E mi l" "sets_flags 0x1F mi mo l"
  shows "translated t E mi mo l (op_9080_0_comp_ff H E opcode l)
    (\<lambda>g. incpc 2 (i_SUB (fetch_reg (lo_reg opcode) g :: u32) (hi_reg opcode) g))"
  unfolding op_9080_0_comp_ff_def Let_def i_SUB_def
  by (rule ff_arith [where k = 2 and p = dont_care_flags, OF op_ready_done [OF assms(1)] assms(2)
      mode_changes(3) live_modes(2) _ _ _ jff_SUB_l_ok])
    (simp_all add: fetch_regs imm_view [OF op_ready_done [OF assms(1)]] op_done_ready [OF op_ready_done [OF assms(1)]] op_operand [OF op_ready_done [OF assms(1)]])

lemma op_9088_0_comp_ff_ok:
  assumes "op_ready (64 + t) E mi l" "sets_flags 0x1F mi mo l"
  shows "translated t E mi mo l (op_9088_0_comp_ff H E opcode l)
    (\<lambda>g. incpc 2 (i_SUB (fetch_reg (lo_reg opcode + 8) g :: u32) (hi_reg opcode) g))"
  unfolding op_9088_0_comp_ff_def Let_def i_SUB_def
  by (rule ff_arith [where k = 2 and p = dont_care_flags, OF op_ready_done [OF assms(1)] assms(2)
      mode_changes(3) live_modes(2) _ _ _ jff_SUB_l_ok])
    (simp_all add: fetch_regs imm_view [OF op_ready_done [OF assms(1)]] op_done_ready [OF op_ready_done [OF assms(1)]] op_operand [OF op_ready_done [OF assms(1)]])

lemma op_90bc_0_comp_ff_ok:
  assumes "op_ready (64 + t) E mi l" "sets_flags 0x1F mi mo l"
  shows "translated t E mi mo l (op_90bc_0_comp_ff H E opcode l)
    (\<lambda>g. incpc 6 (i_SUB (get_dilong H 2 g) (hi_reg opcode) g))"
  unfolding op_90bc_0_comp_ff_def Let_def add_pc_offset_simps comp_get_offset numeral_plus_numeral semiring_norm i_SUB_def
  by (rule ff_arith [where k = 6 and p = dont_care_flags, OF op_ready_done [OF assms(1)] assms(2)
      mode_changes(3) live_modes(2) _ _ _ jff_SUB_l_imm_ok])
    (simp_all add: fetch_regs imm_view [OF op_ready_done [OF assms(1)]] op_done_ready [OF op_ready_done [OF assms(1)]] op_operand [OF op_ready_done [OF assms(1)]])

lemma op_90c0_0_comp_ff_ok:
  assumes "op_ready (64 + t) E mi l" "mi = mo"
  shows "translated t E mi mo l (op_90c0_0_comp_ff H E opcode l)
    (\<lambda>g. incpc 2 (i_SUBA (scast (fetch_reg (lo_reg opcode) g :: u16)) (hi_reg opcode + 8) g))"
  unfolding op_90c0_0_comp_ff_def Let_def assms(2) i_SUBA_def
  by (rule keep_plain [where k = 2, OF op_ready_done [OF assms(1) [unfolded assms(2)]] _ _ jnf_SUBA_w_ok])
    (simp_all add: imm8_small fetch_regs imm_view [OF op_ready_done [OF assms(1) [unfolded assms(2)]]] op_done_ready [OF op_ready_done [OF assms(1) [unfolded assms(2)]]] op_operand [OF op_ready_done [OF assms(1) [unfolded assms(2)]]])

lemma op_90c8_0_comp_ff_ok:
  assumes "op_ready (64 + t) E mi l" "mi = mo"
  shows "translated t E mi mo l (op_90c8_0_comp_ff H E opcode l)
    (\<lambda>g. incpc 2 (i_SUBA (scast (fetch_reg (lo_reg opcode + 8) g :: u16)) (hi_reg opcode + 8) g))"
  unfolding op_90c8_0_comp_ff_def Let_def assms(2) i_SUBA_def
  by (rule keep_plain [where k = 2, OF op_ready_done [OF assms(1) [unfolded assms(2)]] _ _ jnf_SUBA_w_ok])
    (simp_all add: imm8_small fetch_regs imm_view [OF op_ready_done [OF assms(1) [unfolded assms(2)]]] op_done_ready [OF op_ready_done [OF assms(1) [unfolded assms(2)]]] op_operand [OF op_ready_done [OF assms(1) [unfolded assms(2)]]])

lemma op_90fc_0_comp_ff_ok:
  assumes "op_ready (64 + t) E mi l" "mi = mo"
  shows "translated t E mi mo l (op_90fc_0_comp_ff H E opcode l)
    (\<lambda>g. incpc 4 (i_SUBA (scast (get_diword H 2 g)) (hi_reg opcode + 8) g))"
  unfolding op_90fc_0_comp_ff_def Let_def add_pc_offset_simps comp_get_offset numeral_plus_numeral semiring_norm assms(2) i_SUBA_def
  by (rule keep_plain [where k = 4, OF op_ready_done [OF assms(1) [unfolded assms(2)]] _ _ jnf_SUBA_w_imm_ok])
    (simp_all add: imm8_small fetch_regs imm_view [OF op_ready_done [OF assms(1) [unfolded assms(2)]]] op_done_ready [OF op_ready_done [OF assms(1) [unfolded assms(2)]]] op_operand [OF op_ready_done [OF assms(1) [unfolded assms(2)]]])

lemma op_91c0_0_comp_ff_ok:
  assumes "op_ready (64 + t) E mi l" "mi = mo"
  shows "translated t E mi mo l (op_91c0_0_comp_ff H E opcode l)
    (\<lambda>g. incpc 2 (i_SUBA (fetch_reg (lo_reg opcode) g) (hi_reg opcode + 8) g))"
  unfolding op_91c0_0_comp_ff_def Let_def assms(2) i_SUBA_def
  by (rule keep_plain [where k = 2, OF op_ready_done [OF assms(1) [unfolded assms(2)]] _ _ jnf_SUBA_l_ok])
    (simp_all add: imm8_small fetch_regs imm_view [OF op_ready_done [OF assms(1) [unfolded assms(2)]]] op_done_ready [OF op_ready_done [OF assms(1) [unfolded assms(2)]]] op_operand [OF op_ready_done [OF assms(1) [unfolded assms(2)]]])

lemma op_91c8_0_comp_ff_ok:
  assumes "op_ready (64 + t) E mi l" "mi = mo"
  shows "translated t E mi mo l (op_91c8_0_comp_ff H E opcode l)
    (\<lambda>g. incpc 2 (i_SUBA (fetch_reg (lo_reg opcode + 8) g) (hi_reg opcode + 8) g))"
  unfolding op_91c8_0_comp_ff_def Let_def assms(2) i_SUBA_def
  by (rule keep_plain [where k = 2, OF op_ready_done [OF assms(1) [unfolded assms(2)]] _ _ jnf_SUBA_l_ok])
    (simp_all add: imm8_small fetch_regs imm_view [OF op_ready_done [OF assms(1) [unfolded assms(2)]]] op_done_ready [OF op_ready_done [OF assms(1) [unfolded assms(2)]]] op_operand [OF op_ready_done [OF assms(1) [unfolded assms(2)]]])

lemma op_91fc_0_comp_ff_ok:
  assumes "op_ready (64 + t) E mi l" "mi = mo"
  shows "translated t E mi mo l (op_91fc_0_comp_ff H E opcode l)
    (\<lambda>g. incpc 6 (i_SUBA (get_dilong H 2 g) (hi_reg opcode + 8) g))"
  unfolding op_91fc_0_comp_ff_def Let_def add_pc_offset_simps comp_get_offset numeral_plus_numeral semiring_norm assms(2) i_SUBA_def
  by (rule keep_plain [where k = 6, OF op_ready_done [OF assms(1) [unfolded assms(2)]] _ _ jnf_SUBA_l_imm_ok])
    (simp_all add: imm8_small fetch_regs imm_view [OF op_ready_done [OF assms(1) [unfolded assms(2)]]] op_done_ready [OF op_ready_done [OF assms(1) [unfolded assms(2)]]] op_operand [OF op_ready_done [OF assms(1) [unfolded assms(2)]]])

lemma op_b000_0_comp_ff_ok:
  assumes "op_ready (64 + t) E mi l" "sets_flags 0xF mi mo l"
  shows "translated t E mi mo l (op_b000_0_comp_ff H E opcode l)
    (\<lambda>g. incpc 2 (i_CMP (fetch_reg (lo_reg opcode) g :: u8) (hi_reg opcode) g))"
  unfolding op_b000_0_comp_ff_def Let_def i_CMP_def
  by (rule ff_compare [where k = 2 and p = dont_care_flags, OF op_ready_done [OF assms(1)] assms(2)
      mode_changes(3) live_modes(2) _ jff_CMP_b_ok])
    (simp_all add: fetch_regs imm_view [OF op_ready_done [OF assms(1)]] op_done_ready [OF op_ready_done [OF assms(1)]] op_operand [OF op_ready_done [OF assms(1)]])

lemma op_b03c_0_comp_ff_ok:
  assumes "op_ready (64 + t) E mi l" "sets_flags 0xF mi mo l"
  shows "translated t E mi mo l (op_b03c_0_comp_ff H E opcode l)
    (\<lambda>g. incpc 4 (i_CMP (get_dibyte H 2 g) (hi_reg opcode) g))"
  unfolding op_b03c_0_comp_ff_def Let_def add_pc_offset_simps comp_get_offset numeral_plus_numeral semiring_norm i_CMP_def
  by (rule ff_compare [where k = 4 and p = dont_care_flags, OF op_ready_done [OF assms(1)] assms(2)
      mode_changes(3) live_modes(2) _ jff_CMP_b_imm_ok])
    (simp_all add: fetch_regs imm_view [OF op_ready_done [OF assms(1)]] op_done_ready [OF op_ready_done [OF assms(1)]] op_operand [OF op_ready_done [OF assms(1)]])

lemma op_b040_0_comp_ff_ok:
  assumes "op_ready (64 + t) E mi l" "sets_flags 0xF mi mo l"
  shows "translated t E mi mo l (op_b040_0_comp_ff H E opcode l)
    (\<lambda>g. incpc 2 (i_CMP (fetch_reg (lo_reg opcode) g :: u16) (hi_reg opcode) g))"
  unfolding op_b040_0_comp_ff_def Let_def i_CMP_def
  by (rule ff_compare [where k = 2 and p = dont_care_flags, OF op_ready_done [OF assms(1)] assms(2)
      mode_changes(3) live_modes(2) _ jff_CMP_w_ok])
    (simp_all add: fetch_regs imm_view [OF op_ready_done [OF assms(1)]] op_done_ready [OF op_ready_done [OF assms(1)]] op_operand [OF op_ready_done [OF assms(1)]])

lemma op_b048_0_comp_ff_ok:
  assumes "op_ready (64 + t) E mi l" "sets_flags 0xF mi mo l"
  shows "translated t E mi mo l (op_b048_0_comp_ff H E opcode l)
    (\<lambda>g. incpc 2 (i_CMP (fetch_reg (lo_reg opcode + 8) g :: u16) (hi_reg opcode) g))"
  unfolding op_b048_0_comp_ff_def Let_def i_CMP_def
  by (rule ff_compare [where k = 2 and p = dont_care_flags, OF op_ready_done [OF assms(1)] assms(2)
      mode_changes(3) live_modes(2) _ jff_CMP_w_ok])
    (simp_all add: fetch_regs imm_view [OF op_ready_done [OF assms(1)]] op_done_ready [OF op_ready_done [OF assms(1)]] op_operand [OF op_ready_done [OF assms(1)]])

lemma op_b07c_0_comp_ff_ok:
  assumes "op_ready (64 + t) E mi l" "sets_flags 0xF mi mo l"
  shows "translated t E mi mo l (op_b07c_0_comp_ff H E opcode l)
    (\<lambda>g. incpc 4 (i_CMP (get_diword H 2 g) (hi_reg opcode) g))"
  unfolding op_b07c_0_comp_ff_def Let_def add_pc_offset_simps comp_get_offset numeral_plus_numeral semiring_norm i_CMP_def
  by (rule ff_compare [where k = 4 and p = dont_care_flags, OF op_ready_done [OF assms(1)] assms(2)
      mode_changes(3) live_modes(2) _ jff_CMP_w_imm_ok])
    (simp_all add: fetch_regs imm_view [OF op_ready_done [OF assms(1)]] op_done_ready [OF op_ready_done [OF assms(1)]] op_operand [OF op_ready_done [OF assms(1)]])

lemma op_b080_0_comp_ff_ok:
  assumes "op_ready (64 + t) E mi l" "sets_flags 0xF mi mo l"
  shows "translated t E mi mo l (op_b080_0_comp_ff H E opcode l)
    (\<lambda>g. incpc 2 (i_CMP (fetch_reg (lo_reg opcode) g :: u32) (hi_reg opcode) g))"
  unfolding op_b080_0_comp_ff_def Let_def i_CMP_def
  by (rule ff_compare [where k = 2 and p = dont_care_flags, OF op_ready_done [OF assms(1)] assms(2)
      mode_changes(3) live_modes(2) _ jff_CMP_l_ok])
    (simp_all add: fetch_regs imm_view [OF op_ready_done [OF assms(1)]] op_done_ready [OF op_ready_done [OF assms(1)]] op_operand [OF op_ready_done [OF assms(1)]])

lemma op_b088_0_comp_ff_ok:
  assumes "op_ready (64 + t) E mi l" "sets_flags 0xF mi mo l"
  shows "translated t E mi mo l (op_b088_0_comp_ff H E opcode l)
    (\<lambda>g. incpc 2 (i_CMP (fetch_reg (lo_reg opcode + 8) g :: u32) (hi_reg opcode) g))"
  unfolding op_b088_0_comp_ff_def Let_def i_CMP_def
  by (rule ff_compare [where k = 2 and p = dont_care_flags, OF op_ready_done [OF assms(1)] assms(2)
      mode_changes(3) live_modes(2) _ jff_CMP_l_ok])
    (simp_all add: fetch_regs imm_view [OF op_ready_done [OF assms(1)]] op_done_ready [OF op_ready_done [OF assms(1)]] op_operand [OF op_ready_done [OF assms(1)]])

lemma op_b0bc_0_comp_ff_ok:
  assumes "op_ready (64 + t) E mi l" "sets_flags 0xF mi mo l"
  shows "translated t E mi mo l (op_b0bc_0_comp_ff H E opcode l)
    (\<lambda>g. incpc 6 (i_CMP (get_dilong H 2 g) (hi_reg opcode) g))"
  unfolding op_b0bc_0_comp_ff_def Let_def add_pc_offset_simps comp_get_offset numeral_plus_numeral semiring_norm i_CMP_def
  by (rule ff_compare [where k = 6 and p = dont_care_flags, OF op_ready_done [OF assms(1)] assms(2)
      mode_changes(3) live_modes(2) _ jff_CMP_l_imm_ok])
    (simp_all add: fetch_regs imm_view [OF op_ready_done [OF assms(1)]] op_done_ready [OF op_ready_done [OF assms(1)]] op_operand [OF op_ready_done [OF assms(1)]])

lemma op_b0c0_0_comp_ff_ok:
  assumes "op_ready (64 + t) E mi l" "sets_flags 0xF mi mo l"
  shows "translated t E mi mo l (op_b0c0_0_comp_ff H E opcode l)
    (\<lambda>g. incpc 2 (i_CMP (scast (fetch_reg (lo_reg opcode) g :: u16) :: u32) (hi_reg opcode + 8) g))"
  unfolding op_b0c0_0_comp_ff_def Let_def i_CMP_def
  by (rule ff_compare [where k = 2 and p = dont_care_flags, OF op_ready_done [OF assms(1)] assms(2)
      mode_changes(3) live_modes(2) _ jff_CMPA_w_ok])
    (simp_all add: fetch_regs imm_view [OF op_ready_done [OF assms(1)]] op_done_ready [OF op_ready_done [OF assms(1)]] op_operand [OF op_ready_done [OF assms(1)]])

lemma op_b0c8_0_comp_ff_ok:
  assumes "op_ready (64 + t) E mi l" "sets_flags 0xF mi mo l"
  shows "translated t E mi mo l (op_b0c8_0_comp_ff H E opcode l)
    (\<lambda>g. incpc 2 (i_CMP (scast (fetch_reg (lo_reg opcode + 8) g :: u16) :: u32) (hi_reg opcode + 8) g))"
  unfolding op_b0c8_0_comp_ff_def Let_def i_CMP_def
  by (rule ff_compare [where k = 2 and p = dont_care_flags, OF op_ready_done [OF assms(1)] assms(2)
      mode_changes(3) live_modes(2) _ jff_CMPA_w_ok])
    (simp_all add: fetch_regs imm_view [OF op_ready_done [OF assms(1)]] op_done_ready [OF op_ready_done [OF assms(1)]] op_operand [OF op_ready_done [OF assms(1)]])

lemma op_b0fc_0_comp_ff_ok:
  assumes "op_ready (64 + t) E mi l" "sets_flags 0xF mi mo l"
  shows "translated t E mi mo l (op_b0fc_0_comp_ff H E opcode l)
    (\<lambda>g. incpc 4 (i_CMP (scast (get_diword H 2 g) :: u32) (hi_reg opcode + 8) g))"
  unfolding op_b0fc_0_comp_ff_def Let_def add_pc_offset_simps comp_get_offset numeral_plus_numeral semiring_norm i_CMP_def
  by (rule ff_compare [where k = 4 and p = dont_care_flags, OF op_ready_done [OF assms(1)] assms(2)
      mode_changes(3) live_modes(2) _ jff_CMPA_w_imm_ok])
    (simp_all add: fetch_regs imm_view [OF op_ready_done [OF assms(1)]] op_done_ready [OF op_ready_done [OF assms(1)]] op_operand [OF op_ready_done [OF assms(1)]])

lemma op_b1c0_0_comp_ff_ok:
  assumes "op_ready (64 + t) E mi l" "sets_flags 0xF mi mo l"
  shows "translated t E mi mo l (op_b1c0_0_comp_ff H E opcode l)
    (\<lambda>g. incpc 2 (i_CMP (fetch_reg (lo_reg opcode) g :: u32) (hi_reg opcode + 8) g))"
  unfolding op_b1c0_0_comp_ff_def Let_def i_CMP_def
  by (rule ff_compare [where k = 2 and p = dont_care_flags, OF op_ready_done [OF assms(1)] assms(2)
      mode_changes(3) live_modes(2) _ jff_CMPA_l_ok])
    (simp_all add: fetch_regs imm_view [OF op_ready_done [OF assms(1)]] op_done_ready [OF op_ready_done [OF assms(1)]] op_operand [OF op_ready_done [OF assms(1)]])

lemma op_b1c8_0_comp_ff_ok:
  assumes "op_ready (64 + t) E mi l" "sets_flags 0xF mi mo l"
  shows "translated t E mi mo l (op_b1c8_0_comp_ff H E opcode l)
    (\<lambda>g. incpc 2 (i_CMP (fetch_reg (lo_reg opcode + 8) g :: u32) (hi_reg opcode + 8) g))"
  unfolding op_b1c8_0_comp_ff_def Let_def i_CMP_def
  by (rule ff_compare [where k = 2 and p = dont_care_flags, OF op_ready_done [OF assms(1)] assms(2)
      mode_changes(3) live_modes(2) _ jff_CMPA_l_ok])
    (simp_all add: fetch_regs imm_view [OF op_ready_done [OF assms(1)]] op_done_ready [OF op_ready_done [OF assms(1)]] op_operand [OF op_ready_done [OF assms(1)]])

lemma op_b1fc_0_comp_ff_ok:
  assumes "op_ready (64 + t) E mi l" "sets_flags 0xF mi mo l"
  shows "translated t E mi mo l (op_b1fc_0_comp_ff H E opcode l)
    (\<lambda>g. incpc 6 (i_CMP (get_dilong H 2 g :: u32) (hi_reg opcode + 8) g))"
  unfolding op_b1fc_0_comp_ff_def Let_def add_pc_offset_simps comp_get_offset numeral_plus_numeral semiring_norm i_CMP_def
  by (rule ff_compare [where k = 6 and p = dont_care_flags, OF op_ready_done [OF assms(1)] assms(2)
      mode_changes(3) live_modes(2) _ jff_CMPA_l_imm_ok])
    (simp_all add: fetch_regs imm_view [OF op_ready_done [OF assms(1)]] op_done_ready [OF op_ready_done [OF assms(1)]] op_operand [OF op_ready_done [OF assms(1)]])

lemma op_d000_0_comp_ff_ok:
  assumes "op_ready (64 + t) E mi l" "sets_flags 0x1F mi mo l"
  shows "translated t E mi mo l (op_d000_0_comp_ff H E opcode l)
    (\<lambda>g. incpc 2 (i_ADD (fetch_reg (lo_reg opcode) g :: u8) (hi_reg opcode) g))"
  unfolding op_d000_0_comp_ff_def Let_def i_ADD_def
  by (rule ff_arith [where k = 2 and p = dont_care_flags, OF op_ready_done [OF assms(1)] assms(2)
      mode_changes(3) live_modes(2) _ _ _ jff_ADD_b_ok])
    (simp_all add: fetch_regs imm_view [OF op_ready_done [OF assms(1)]] op_done_ready [OF op_ready_done [OF assms(1)]] op_operand [OF op_ready_done [OF assms(1)]])

lemma op_d03c_0_comp_ff_ok:
  assumes "op_ready (64 + t) E mi l" "sets_flags 0x1F mi mo l"
  shows "translated t E mi mo l (op_d03c_0_comp_ff H E opcode l)
    (\<lambda>g. incpc 4 (i_ADD (get_dibyte H 2 g) (hi_reg opcode) g))"
  unfolding op_d03c_0_comp_ff_def Let_def add_pc_offset_simps comp_get_offset numeral_plus_numeral semiring_norm i_ADD_def
  by (rule ff_arith [where k = 4 and p = dont_care_flags, OF op_ready_done [OF assms(1)] assms(2)
      mode_changes(3) live_modes(2) _ _ _ jff_ADD_b_imm_ok])
    (simp_all add: fetch_regs imm_view [OF op_ready_done [OF assms(1)]] op_done_ready [OF op_ready_done [OF assms(1)]] op_operand [OF op_ready_done [OF assms(1)]])

lemma op_d040_0_comp_ff_ok:
  assumes "op_ready (64 + t) E mi l" "sets_flags 0x1F mi mo l"
  shows "translated t E mi mo l (op_d040_0_comp_ff H E opcode l)
    (\<lambda>g. incpc 2 (i_ADD (fetch_reg (lo_reg opcode) g :: u16) (hi_reg opcode) g))"
  unfolding op_d040_0_comp_ff_def Let_def i_ADD_def
  by (rule ff_arith [where k = 2 and p = dont_care_flags, OF op_ready_done [OF assms(1)] assms(2)
      mode_changes(3) live_modes(2) _ _ _ jff_ADD_w_ok])
    (simp_all add: fetch_regs imm_view [OF op_ready_done [OF assms(1)]] op_done_ready [OF op_ready_done [OF assms(1)]] op_operand [OF op_ready_done [OF assms(1)]])

lemma op_d048_0_comp_ff_ok:
  assumes "op_ready (64 + t) E mi l" "sets_flags 0x1F mi mo l"
  shows "translated t E mi mo l (op_d048_0_comp_ff H E opcode l)
    (\<lambda>g. incpc 2 (i_ADD (fetch_reg (lo_reg opcode + 8) g :: u16) (hi_reg opcode) g))"
  unfolding op_d048_0_comp_ff_def Let_def i_ADD_def
  by (rule ff_arith [where k = 2 and p = dont_care_flags, OF op_ready_done [OF assms(1)] assms(2)
      mode_changes(3) live_modes(2) _ _ _ jff_ADD_w_ok])
    (simp_all add: fetch_regs imm_view [OF op_ready_done [OF assms(1)]] op_done_ready [OF op_ready_done [OF assms(1)]] op_operand [OF op_ready_done [OF assms(1)]])

lemma op_d07c_0_comp_ff_ok:
  assumes "op_ready (64 + t) E mi l" "sets_flags 0x1F mi mo l"
  shows "translated t E mi mo l (op_d07c_0_comp_ff H E opcode l)
    (\<lambda>g. incpc 4 (i_ADD (get_diword H 2 g) (hi_reg opcode) g))"
  unfolding op_d07c_0_comp_ff_def Let_def add_pc_offset_simps comp_get_offset numeral_plus_numeral semiring_norm i_ADD_def
  by (rule ff_arith [where k = 4 and p = dont_care_flags, OF op_ready_done [OF assms(1)] assms(2)
      mode_changes(3) live_modes(2) _ _ _ jff_ADD_w_imm_ok])
    (simp_all add: fetch_regs imm_view [OF op_ready_done [OF assms(1)]] op_done_ready [OF op_ready_done [OF assms(1)]] op_operand [OF op_ready_done [OF assms(1)]])

lemma op_d080_0_comp_ff_ok:
  assumes "op_ready (64 + t) E mi l" "sets_flags 0x1F mi mo l"
  shows "translated t E mi mo l (op_d080_0_comp_ff H E opcode l)
    (\<lambda>g. incpc 2 (i_ADD (fetch_reg (lo_reg opcode) g :: u32) (hi_reg opcode) g))"
  unfolding op_d080_0_comp_ff_def Let_def i_ADD_def
  by (rule ff_arith [where k = 2 and p = dont_care_flags, OF op_ready_done [OF assms(1)] assms(2)
      mode_changes(3) live_modes(2) _ _ _ jff_ADD_l_ok])
    (simp_all add: fetch_regs imm_view [OF op_ready_done [OF assms(1)]] op_done_ready [OF op_ready_done [OF assms(1)]] op_operand [OF op_ready_done [OF assms(1)]])

lemma op_d088_0_comp_ff_ok:
  assumes "op_ready (64 + t) E mi l" "sets_flags 0x1F mi mo l"
  shows "translated t E mi mo l (op_d088_0_comp_ff H E opcode l)
    (\<lambda>g. incpc 2 (i_ADD (fetch_reg (lo_reg opcode + 8) g :: u32) (hi_reg opcode) g))"
  unfolding op_d088_0_comp_ff_def Let_def i_ADD_def
  by (rule ff_arith [where k = 2 and p = dont_care_flags, OF op_ready_done [OF assms(1)] assms(2)
      mode_changes(3) live_modes(2) _ _ _ jff_ADD_l_ok])
    (simp_all add: fetch_regs imm_view [OF op_ready_done [OF assms(1)]] op_done_ready [OF op_ready_done [OF assms(1)]] op_operand [OF op_ready_done [OF assms(1)]])

lemma op_d0bc_0_comp_ff_ok:
  assumes "op_ready (64 + t) E mi l" "sets_flags 0x1F mi mo l"
  shows "translated t E mi mo l (op_d0bc_0_comp_ff H E opcode l)
    (\<lambda>g. incpc 6 (i_ADD (get_dilong H 2 g) (hi_reg opcode) g))"
  unfolding op_d0bc_0_comp_ff_def Let_def add_pc_offset_simps comp_get_offset numeral_plus_numeral semiring_norm i_ADD_def
  by (rule ff_arith [where k = 6 and p = dont_care_flags, OF op_ready_done [OF assms(1)] assms(2)
      mode_changes(3) live_modes(2) _ _ _ jff_ADD_l_imm_ok])
    (simp_all add: fetch_regs imm_view [OF op_ready_done [OF assms(1)]] op_done_ready [OF op_ready_done [OF assms(1)]] op_operand [OF op_ready_done [OF assms(1)]])

lemma op_d0c0_0_comp_ff_ok:
  assumes "op_ready (64 + t) E mi l" "mi = mo"
  shows "translated t E mi mo l (op_d0c0_0_comp_ff H E opcode l)
    (\<lambda>g. incpc 2 (i_ADDA (scast (fetch_reg (lo_reg opcode) g :: u16)) (hi_reg opcode + 8) g))"
  unfolding op_d0c0_0_comp_ff_def Let_def assms(2) i_ADDA_def
  by (rule keep_plain [where k = 2, OF op_ready_done [OF assms(1) [unfolded assms(2)]] _ _ jnf_ADDA_w_ok])
    (simp_all add: imm8_small fetch_regs imm_view [OF op_ready_done [OF assms(1) [unfolded assms(2)]]] op_done_ready [OF op_ready_done [OF assms(1) [unfolded assms(2)]]] op_operand [OF op_ready_done [OF assms(1) [unfolded assms(2)]]])

lemma op_d0c8_0_comp_ff_ok:
  assumes "op_ready (64 + t) E mi l" "mi = mo"
  shows "translated t E mi mo l (op_d0c8_0_comp_ff H E opcode l)
    (\<lambda>g. incpc 2 (i_ADDA (scast (fetch_reg (lo_reg opcode + 8) g :: u16)) (hi_reg opcode + 8) g))"
  unfolding op_d0c8_0_comp_ff_def Let_def assms(2) i_ADDA_def
  by (rule keep_plain [where k = 2, OF op_ready_done [OF assms(1) [unfolded assms(2)]] _ _ jnf_ADDA_w_ok])
    (simp_all add: imm8_small fetch_regs imm_view [OF op_ready_done [OF assms(1) [unfolded assms(2)]]] op_done_ready [OF op_ready_done [OF assms(1) [unfolded assms(2)]]] op_operand [OF op_ready_done [OF assms(1) [unfolded assms(2)]]])

lemma op_d0fc_0_comp_ff_ok:
  assumes "op_ready (64 + t) E mi l" "mi = mo"
  shows "translated t E mi mo l (op_d0fc_0_comp_ff H E opcode l)
    (\<lambda>g. incpc 4 (i_ADDA (scast (get_diword H 2 g)) (hi_reg opcode + 8) g))"
  unfolding op_d0fc_0_comp_ff_def Let_def add_pc_offset_simps comp_get_offset numeral_plus_numeral semiring_norm assms(2) i_ADDA_def
  by (rule keep_plain [where k = 4, OF op_ready_done [OF assms(1) [unfolded assms(2)]] _ _ jnf_ADDA_w_imm_ok])
    (simp_all add: imm8_small fetch_regs imm_view [OF op_ready_done [OF assms(1) [unfolded assms(2)]]] op_done_ready [OF op_ready_done [OF assms(1) [unfolded assms(2)]]] op_operand [OF op_ready_done [OF assms(1) [unfolded assms(2)]]])

lemma op_d1c0_0_comp_ff_ok:
  assumes "op_ready (64 + t) E mi l" "mi = mo"
  shows "translated t E mi mo l (op_d1c0_0_comp_ff H E opcode l)
    (\<lambda>g. incpc 2 (i_ADDA (fetch_reg (lo_reg opcode) g) (hi_reg opcode + 8) g))"
  unfolding op_d1c0_0_comp_ff_def Let_def assms(2) i_ADDA_def
  by (rule keep_plain [where k = 2, OF op_ready_done [OF assms(1) [unfolded assms(2)]] _ _ jnf_ADDA_l_ok])
    (simp_all add: imm8_small fetch_regs imm_view [OF op_ready_done [OF assms(1) [unfolded assms(2)]]] op_done_ready [OF op_ready_done [OF assms(1) [unfolded assms(2)]]] op_operand [OF op_ready_done [OF assms(1) [unfolded assms(2)]]])

lemma op_d1c8_0_comp_ff_ok:
  assumes "op_ready (64 + t) E mi l" "mi = mo"
  shows "translated t E mi mo l (op_d1c8_0_comp_ff H E opcode l)
    (\<lambda>g. incpc 2 (i_ADDA (fetch_reg (lo_reg opcode + 8) g) (hi_reg opcode + 8) g))"
  unfolding op_d1c8_0_comp_ff_def Let_def assms(2) i_ADDA_def
  by (rule keep_plain [where k = 2, OF op_ready_done [OF assms(1) [unfolded assms(2)]] _ _ jnf_ADDA_l_ok])
    (simp_all add: imm8_small fetch_regs imm_view [OF op_ready_done [OF assms(1) [unfolded assms(2)]]] op_done_ready [OF op_ready_done [OF assms(1) [unfolded assms(2)]]] op_operand [OF op_ready_done [OF assms(1) [unfolded assms(2)]]])

lemma op_d1fc_0_comp_ff_ok:
  assumes "op_ready (64 + t) E mi l" "mi = mo"
  shows "translated t E mi mo l (op_d1fc_0_comp_ff H E opcode l)
    (\<lambda>g. incpc 6 (i_ADDA (get_dilong H 2 g) (hi_reg opcode + 8) g))"
  unfolding op_d1fc_0_comp_ff_def Let_def add_pc_offset_simps comp_get_offset numeral_plus_numeral semiring_norm assms(2) i_ADDA_def
  by (rule keep_plain [where k = 6, OF op_ready_done [OF assms(1) [unfolded assms(2)]] _ _ jnf_ADDA_l_imm_ok])
    (simp_all add: imm8_small fetch_regs imm_view [OF op_ready_done [OF assms(1) [unfolded assms(2)]]] op_done_ready [OF op_ready_done [OF assms(1) [unfolded assms(2)]]] op_operand [OF op_ready_done [OF assms(1) [unfolded assms(2)]]])

lemma op_400_0_comp_nf_ok:
  assumes "op_ready (64 + t) E mi l" "no_flags 0x1F mi mo"
  shows "translated t E mi mo l (op_400_0_comp_nf H E opcode l)
    (\<lambda>g. incpc 4 (i_SUB (get_dibyte H 2 g) (lo_reg opcode) g))"
  unfolding op_400_0_comp_nf_def Let_def add_pc_offset_simps comp_get_offset numeral_plus_numeral semiring_norm
  by (rule nf_plain [where k = 4 and p = dont_care_flags and q = "\<lambda>l. l", OF op_ready_done [OF assms(1)] assms(2) _ keeps_modes(2) keeps_modes(1) _ _ _ jnf_SUB_b_imm_ok])
    (simp_all add: i_SUB_def fetch_regs imm_view [OF op_ready_done [OF assms(1)]] op_done_ready [OF op_ready_done [OF assms(1)]] op_operand [OF op_ready_done [OF assms(1)]])

lemma op_440_0_comp_nf_ok:
  assumes "op_ready (64 + t) E mi l" "no_flags 0x1F mi mo"
  shows "translated t E mi mo l (op_440_0_comp_nf H E opcode l)
    (\<lambda>g. incpc 4 (i_SUB (get_diword H 2 g) (lo_reg opcode) g))"
  unfolding op_440_0_comp_nf_def Let_def add_pc_offset_simps comp_get_offset numeral_plus_numeral semiring_norm
  by (rule nf_plain [where k = 4 and p = dont_care_flags and q = "\<lambda>l. l", OF op_ready_done [OF assms(1)] assms(2) _ keeps_modes(2) keeps_modes(1) _ _ _ jnf_SUB_w_imm_ok])
    (simp_all add: i_SUB_def fetch_regs imm_view [OF op_ready_done [OF assms(1)]] op_done_ready [OF op_ready_done [OF assms(1)]] op_operand [OF op_ready_done [OF assms(1)]])

lemma op_480_0_comp_nf_ok:
  assumes "op_ready (64 + t) E mi l" "no_flags 0x1F mi mo"
  shows "translated t E mi mo l (op_480_0_comp_nf H E opcode l)
    (\<lambda>g. incpc 6 (i_SUB (get_dilong H 2 g) (lo_reg opcode) g))"
  unfolding op_480_0_comp_nf_def Let_def add_pc_offset_simps comp_get_offset numeral_plus_numeral semiring_norm
  by (rule nf_plain [where k = 6 and p = dont_care_flags and q = "\<lambda>l. l", OF op_ready_done [OF assms(1)] assms(2) _ keeps_modes(2) keeps_modes(1) _ _ _ jnf_SUB_l_imm_ok])
    (simp_all add: i_SUB_def fetch_regs imm_view [OF op_ready_done [OF assms(1)]] op_done_ready [OF op_ready_done [OF assms(1)]] op_operand [OF op_ready_done [OF assms(1)]])

lemma op_600_0_comp_nf_ok:
  assumes "op_ready (64 + t) E mi l" "no_flags 0x1F mi mo"
  shows "translated t E mi mo l (op_600_0_comp_nf H E opcode l)
    (\<lambda>g. incpc 4 (i_ADD (get_dibyte H 2 g) (lo_reg opcode) g))"
  unfolding op_600_0_comp_nf_def Let_def add_pc_offset_simps comp_get_offset numeral_plus_numeral semiring_norm
  by (rule nf_plain [where k = 4 and p = dont_care_flags and q = "\<lambda>l. l", OF op_ready_done [OF assms(1)] assms(2) _ keeps_modes(2) keeps_modes(1) _ _ _ jnf_ADD_b_imm_ok])
    (simp_all add: i_ADD_def fetch_regs imm_view [OF op_ready_done [OF assms(1)]] op_done_ready [OF op_ready_done [OF assms(1)]] op_operand [OF op_ready_done [OF assms(1)]])

lemma op_640_0_comp_nf_ok:
  assumes "op_ready (64 + t) E mi l" "no_flags 0x1F mi mo"
  shows "translated t E mi mo l (op_640_0_comp_nf H E opcode l)
    (\<lambda>g. incpc 4 (i_ADD (get_diword H 2 g) (lo_reg opcode) g))"
  unfolding op_640_0_comp_nf_def Let_def add_pc_offset_simps comp_get_offset numeral_plus_numeral semiring_norm
  by (rule nf_plain [where k = 4 and p = dont_care_flags and q = "\<lambda>l. l", OF op_ready_done [OF assms(1)] assms(2) _ keeps_modes(2) keeps_modes(1) _ _ _ jnf_ADD_w_imm_ok])
    (simp_all add: i_ADD_def fetch_regs imm_view [OF op_ready_done [OF assms(1)]] op_done_ready [OF op_ready_done [OF assms(1)]] op_operand [OF op_ready_done [OF assms(1)]])

lemma op_680_0_comp_nf_ok:
  assumes "op_ready (64 + t) E mi l" "no_flags 0x1F mi mo"
  shows "translated t E mi mo l (op_680_0_comp_nf H E opcode l)
    (\<lambda>g. incpc 6 (i_ADD (get_dilong H 2 g) (lo_reg opcode) g))"
  unfolding op_680_0_comp_nf_def Let_def add_pc_offset_simps comp_get_offset numeral_plus_numeral semiring_norm
  by (rule nf_plain [where k = 6 and p = dont_care_flags and q = "\<lambda>l. l", OF op_ready_done [OF assms(1)] assms(2) _ keeps_modes(2) keeps_modes(1) _ _ _ jnf_ADD_l_imm_ok])
    (simp_all add: i_ADD_def fetch_regs imm_view [OF op_ready_done [OF assms(1)]] op_done_ready [OF op_ready_done [OF assms(1)]] op_operand [OF op_ready_done [OF assms(1)]])

lemma op_c00_0_comp_nf_ok:
  assumes "op_ready (64 + t) E mi l" "no_flags 0xF mi mo"
  shows "translated t E mi mo l (op_c00_0_comp_nf H E opcode l)
    (\<lambda>g. incpc 4 (i_CMP (get_dibyte H 2 g) (lo_reg opcode) g))"
  unfolding op_c00_0_comp_nf_def Let_def add_pc_offset_simps comp_get_offset numeral_plus_numeral semiring_norm
  by (rule nf_none [where k = 4 and p = dont_care_flags, OF op_ready_done [OF assms(1)] assms(2) keeps_modes(2)]) (simp_all add: i_CMP_def)

lemma op_c40_0_comp_nf_ok:
  assumes "op_ready (64 + t) E mi l" "no_flags 0xF mi mo"
  shows "translated t E mi mo l (op_c40_0_comp_nf H E opcode l)
    (\<lambda>g. incpc 4 (i_CMP (get_diword H 2 g) (lo_reg opcode) g))"
  unfolding op_c40_0_comp_nf_def Let_def add_pc_offset_simps comp_get_offset numeral_plus_numeral semiring_norm
  by (rule nf_none [where k = 4 and p = dont_care_flags, OF op_ready_done [OF assms(1)] assms(2) keeps_modes(2)]) (simp_all add: i_CMP_def)

lemma op_c80_0_comp_nf_ok:
  assumes "op_ready (64 + t) E mi l" "no_flags 0xF mi mo"
  shows "translated t E mi mo l (op_c80_0_comp_nf H E opcode l)
    (\<lambda>g. incpc 6 (i_CMP (get_dilong H 2 g) (lo_reg opcode) g))"
  unfolding op_c80_0_comp_nf_def Let_def add_pc_offset_simps comp_get_offset numeral_plus_numeral semiring_norm
  by (rule nf_none [where k = 6 and p = dont_care_flags, OF op_ready_done [OF assms(1)] assms(2) keeps_modes(2)]) (simp_all add: i_CMP_def)

lemma op_4400_0_comp_nf_ok:
  assumes "op_ready (64 + t) E mi l" "no_flags 0x1F mi mo"
  shows "translated t E mi mo l (op_4400_0_comp_nf H E opcode l)
    (\<lambda>g. incpc 2 (i_NEG TYPE(8) (lo_reg opcode) g))"
  unfolding op_4400_0_comp_nf_def Let_def
  by (rule nf_plain [where k = 2 and p = "\<lambda>l. l" and q = "\<lambda>l. l", OF op_ready_done [OF assms(1)] assms(2) _ keeps_modes(1) keeps_modes(1) _ _ _ jnf_NEG_b_ok])
    (simp_all add: i_NEG_def fetch_regs imm_view [OF op_ready_done [OF assms(1)]] op_done_ready [OF op_ready_done [OF assms(1)]] op_operand [OF op_ready_done [OF assms(1)]])

lemma op_4440_0_comp_nf_ok:
  assumes "op_ready (64 + t) E mi l" "no_flags 0x1F mi mo"
  shows "translated t E mi mo l (op_4440_0_comp_nf H E opcode l)
    (\<lambda>g. incpc 2 (i_NEG TYPE(16) (lo_reg opcode) g))"
  unfolding op_4440_0_comp_nf_def Let_def
  by (rule nf_plain [where k = 2 and p = "\<lambda>l. l" and q = "\<lambda>l. l", OF op_ready_done [OF assms(1)] assms(2) _ keeps_modes(1) keeps_modes(1) _ _ _ jnf_NEG_w_ok])
    (simp_all add: i_NEG_def fetch_regs imm_view [OF op_ready_done [OF assms(1)]] op_done_ready [OF op_ready_done [OF assms(1)]] op_operand [OF op_ready_done [OF assms(1)]])

lemma op_4480_0_comp_nf_ok:
  assumes "op_ready (64 + t) E mi l" "no_flags 0x1F mi mo"
  shows "translated t E mi mo l (op_4480_0_comp_nf H E opcode l)
    (\<lambda>g. incpc 2 (i_NEG TYPE(32) (lo_reg opcode) g))"
  unfolding op_4480_0_comp_nf_def Let_def
  by (rule nf_plain [where k = 2 and p = "\<lambda>l. l" and q = "\<lambda>l. l", OF op_ready_done [OF assms(1)] assms(2) _ keeps_modes(1) keeps_modes(1) _ _ _ jnf_NEG_l_ok])
    (simp_all add: i_NEG_def fetch_regs imm_view [OF op_ready_done [OF assms(1)]] op_done_ready [OF op_ready_done [OF assms(1)]] op_operand [OF op_ready_done [OF assms(1)]])

lemma op_5000_0_comp_nf_ok:
  assumes "op_ready (64 + t) E mi l" "no_flags 0x1F mi mo"
  shows "translated t E mi mo l (op_5000_0_comp_nf H E opcode l)
    (\<lambda>g. incpc 2 (i_ADD (ucast (imm8_table (hi_reg opcode)) :: u8) (lo_reg opcode) g))"
  unfolding op_5000_0_comp_nf_def Let_def
  by (rule nf_plain [where k = 2 and p = dont_care_flags and q = "\<lambda>l. l", OF op_ready_done [OF assms(1)] assms(2) _ keeps_modes(2) keeps_modes(1) _ _ _ jnf_ADD_b_imm_ok])
    (simp_all add: i_ADD_def fetch_regs imm_view [OF op_ready_done [OF assms(1)]] op_done_ready [OF op_ready_done [OF assms(1)]] op_operand [OF op_ready_done [OF assms(1)]])

lemma op_5040_0_comp_nf_ok:
  assumes "op_ready (64 + t) E mi l" "no_flags 0x1F mi mo"
  shows "translated t E mi mo l (op_5040_0_comp_nf H E opcode l)
    (\<lambda>g. incpc 2 (i_ADD (ucast (imm8_table (hi_reg opcode)) :: u16) (lo_reg opcode) g))"
  unfolding op_5040_0_comp_nf_def Let_def
  by (rule nf_plain [where k = 2 and p = dont_care_flags and q = "\<lambda>l. l", OF op_ready_done [OF assms(1)] assms(2) _ keeps_modes(2) keeps_modes(1) _ _ _ jnf_ADD_w_imm_ok])
    (simp_all add: i_ADD_def fetch_regs imm_view [OF op_ready_done [OF assms(1)]] op_done_ready [OF op_ready_done [OF assms(1)]] op_operand [OF op_ready_done [OF assms(1)]])

lemma op_5048_0_comp_nf_ok:
  assumes "op_ready (64 + t) E mi l" "mi = mo"
  shows "translated t E mi mo l (op_5048_0_comp_nf H E opcode l)
    (\<lambda>g. incpc 2 (i_ADDA (imm8_table (hi_reg opcode)) (lo_reg opcode + 8) g))"
  unfolding op_5048_0_comp_nf_def Let_def assms(2) i_ADDA_def
  by (rule keep_plain [where k = 2, OF op_ready_done [OF assms(1) [unfolded assms(2)]] _ _ jnf_ADDA_w_imm_ok])
    (simp_all add: imm8_small fetch_regs imm_view [OF op_ready_done [OF assms(1) [unfolded assms(2)]]] op_done_ready [OF op_ready_done [OF assms(1) [unfolded assms(2)]]] op_operand [OF op_ready_done [OF assms(1) [unfolded assms(2)]]])

lemma op_5080_0_comp_nf_ok:
  assumes "op_ready (64 + t) E mi l" "no_flags 0x1F mi mo"
  shows "translated t E mi mo l (op_5080_0_comp_nf H E opcode l)
    (\<lambda>g. incpc 2 (i_ADD (ucast (imm8_table (hi_reg opcode)) :: u32) (lo_reg opcode) g))"
  unfolding op_5080_0_comp_nf_def Let_def
  by (rule nf_plain [where k = 2 and p = dont_care_flags and q = "\<lambda>l. l", OF op_ready_done [OF assms(1)] assms(2) _ keeps_modes(2) keeps_modes(1) _ _ _ jnf_ADD_l_imm_ok])
    (simp_all add: i_ADD_def fetch_regs imm_view [OF op_ready_done [OF assms(1)]] op_done_ready [OF op_ready_done [OF assms(1)]] op_operand [OF op_ready_done [OF assms(1)]])

lemma op_5088_0_comp_nf_ok:
  assumes "op_ready (64 + t) E mi l" "mi = mo"
  shows "translated t E mi mo l (op_5088_0_comp_nf H E opcode l)
    (\<lambda>g. incpc 2 (i_ADDA (imm8_table (hi_reg opcode)) (lo_reg opcode + 8) g))"
  unfolding op_5088_0_comp_nf_def Let_def assms(2) i_ADDA_def
  by (rule keep_plain [where k = 2, OF op_ready_done [OF assms(1) [unfolded assms(2)]] _ _ jnf_ADDA_l_imm_ok])
    (simp_all add: imm8_small fetch_regs imm_view [OF op_ready_done [OF assms(1) [unfolded assms(2)]]] op_done_ready [OF op_ready_done [OF assms(1) [unfolded assms(2)]]] op_operand [OF op_ready_done [OF assms(1) [unfolded assms(2)]]])

lemma op_5100_0_comp_nf_ok:
  assumes "op_ready (64 + t) E mi l" "no_flags 0x1F mi mo"
  shows "translated t E mi mo l (op_5100_0_comp_nf H E opcode l)
    (\<lambda>g. incpc 2 (i_SUB (ucast (imm8_table (hi_reg opcode)) :: u8) (lo_reg opcode) g))"
  unfolding op_5100_0_comp_nf_def Let_def
  by (rule nf_plain [where k = 2 and p = dont_care_flags and q = "\<lambda>l. l", OF op_ready_done [OF assms(1)] assms(2) _ keeps_modes(2) keeps_modes(1) _ _ _ jnf_SUB_b_imm_ok])
    (simp_all add: i_SUB_def fetch_regs imm_view [OF op_ready_done [OF assms(1)]] op_done_ready [OF op_ready_done [OF assms(1)]] op_operand [OF op_ready_done [OF assms(1)]])

lemma op_5140_0_comp_nf_ok:
  assumes "op_ready (64 + t) E mi l" "no_flags 0x1F mi mo"
  shows "translated t E mi mo l (op_5140_0_comp_nf H E opcode l)
    (\<lambda>g. incpc 2 (i_SUB (ucast (imm8_table (hi_reg opcode)) :: u16) (lo_reg opcode) g))"
  unfolding op_5140_0_comp_nf_def Let_def
  by (rule nf_plain [where k = 2 and p = dont_care_flags and q = "\<lambda>l. l", OF op_ready_done [OF assms(1)] assms(2) _ keeps_modes(2) keeps_modes(1) _ _ _ jnf_SUB_w_imm_ok])
    (simp_all add: i_SUB_def fetch_regs imm_view [OF op_ready_done [OF assms(1)]] op_done_ready [OF op_ready_done [OF assms(1)]] op_operand [OF op_ready_done [OF assms(1)]])

lemma op_5148_0_comp_nf_ok:
  assumes "op_ready (64 + t) E mi l" "mi = mo"
  shows "translated t E mi mo l (op_5148_0_comp_nf H E opcode l)
    (\<lambda>g. incpc 2 (i_SUBA (imm8_table (hi_reg opcode)) (lo_reg opcode + 8) g))"
  unfolding op_5148_0_comp_nf_def Let_def assms(2) i_SUBA_def
  by (rule keep_plain [where k = 2, OF op_ready_done [OF assms(1) [unfolded assms(2)]] _ _ jnf_SUBA_w_imm_ok])
    (simp_all add: imm8_small fetch_regs imm_view [OF op_ready_done [OF assms(1) [unfolded assms(2)]]] op_done_ready [OF op_ready_done [OF assms(1) [unfolded assms(2)]]] op_operand [OF op_ready_done [OF assms(1) [unfolded assms(2)]]])

lemma op_5180_0_comp_nf_ok:
  assumes "op_ready (64 + t) E mi l" "no_flags 0x1F mi mo"
  shows "translated t E mi mo l (op_5180_0_comp_nf H E opcode l)
    (\<lambda>g. incpc 2 (i_SUB (ucast (imm8_table (hi_reg opcode)) :: u32) (lo_reg opcode) g))"
  unfolding op_5180_0_comp_nf_def Let_def
  by (rule nf_plain [where k = 2 and p = dont_care_flags and q = "\<lambda>l. l", OF op_ready_done [OF assms(1)] assms(2) _ keeps_modes(2) keeps_modes(1) _ _ _ jnf_SUB_l_imm_ok])
    (simp_all add: i_SUB_def fetch_regs imm_view [OF op_ready_done [OF assms(1)]] op_done_ready [OF op_ready_done [OF assms(1)]] op_operand [OF op_ready_done [OF assms(1)]])

lemma op_5188_0_comp_nf_ok:
  assumes "op_ready (64 + t) E mi l" "mi = mo"
  shows "translated t E mi mo l (op_5188_0_comp_nf H E opcode l)
    (\<lambda>g. incpc 2 (i_SUBA (imm8_table (hi_reg opcode)) (lo_reg opcode + 8) g))"
  unfolding op_5188_0_comp_nf_def Let_def assms(2) i_SUBA_def
  by (rule keep_plain [where k = 2, OF op_ready_done [OF assms(1) [unfolded assms(2)]] _ _ jnf_SUBA_l_imm_ok])
    (simp_all add: imm8_small fetch_regs imm_view [OF op_ready_done [OF assms(1) [unfolded assms(2)]]] op_done_ready [OF op_ready_done [OF assms(1) [unfolded assms(2)]]] op_operand [OF op_ready_done [OF assms(1) [unfolded assms(2)]]])

lemma op_9000_0_comp_nf_ok:
  assumes "op_ready (64 + t) E mi l" "no_flags 0x1F mi mo"
  shows "translated t E mi mo l (op_9000_0_comp_nf H E opcode l)
    (\<lambda>g. incpc 2 (i_SUB (fetch_reg (lo_reg opcode) g :: u8) (hi_reg opcode) g))"
  unfolding op_9000_0_comp_nf_def Let_def
  by (rule nf_plain [where k = 2 and p = dont_care_flags and q = "\<lambda>l. l", OF op_ready_done [OF assms(1)] assms(2) _ keeps_modes(2) keeps_modes(1) _ _ _ jnf_SUB_b_ok])
    (simp_all add: i_SUB_def fetch_regs imm_view [OF op_ready_done [OF assms(1)]] op_done_ready [OF op_ready_done [OF assms(1)]] op_operand [OF op_ready_done [OF assms(1)]])

lemma op_903c_0_comp_nf_ok:
  assumes "op_ready (64 + t) E mi l" "no_flags 0x1F mi mo"
  shows "translated t E mi mo l (op_903c_0_comp_nf H E opcode l)
    (\<lambda>g. incpc 4 (i_SUB (get_dibyte H 2 g) (hi_reg opcode) g))"
  unfolding op_903c_0_comp_nf_def Let_def add_pc_offset_simps comp_get_offset numeral_plus_numeral semiring_norm
  by (rule nf_plain [where k = 4 and p = dont_care_flags and q = "\<lambda>l. l", OF op_ready_done [OF assms(1)] assms(2) _ keeps_modes(2) keeps_modes(1) _ _ _ jnf_SUB_b_imm_ok])
    (simp_all add: i_SUB_def fetch_regs imm_view [OF op_ready_done [OF assms(1)]] op_done_ready [OF op_ready_done [OF assms(1)]] op_operand [OF op_ready_done [OF assms(1)]])

lemma op_9040_0_comp_nf_ok:
  assumes "op_ready (64 + t) E mi l" "no_flags 0x1F mi mo"
  shows "translated t E mi mo l (op_9040_0_comp_nf H E opcode l)
    (\<lambda>g. incpc 2 (i_SUB (fetch_reg (lo_reg opcode) g :: u16) (hi_reg opcode) g))"
  unfolding op_9040_0_comp_nf_def Let_def
  by (rule nf_plain [where k = 2 and p = dont_care_flags and q = "\<lambda>l. l", OF op_ready_done [OF assms(1)] assms(2) _ keeps_modes(2) keeps_modes(1) _ _ _ jnf_SUB_w_ok])
    (simp_all add: i_SUB_def fetch_regs imm_view [OF op_ready_done [OF assms(1)]] op_done_ready [OF op_ready_done [OF assms(1)]] op_operand [OF op_ready_done [OF assms(1)]])

lemma op_9048_0_comp_nf_ok:
  assumes "op_ready (64 + t) E mi l" "no_flags 0x1F mi mo"
  shows "translated t E mi mo l (op_9048_0_comp_nf H E opcode l)
    (\<lambda>g. incpc 2 (i_SUB (fetch_reg (lo_reg opcode + 8) g :: u16) (hi_reg opcode) g))"
  unfolding op_9048_0_comp_nf_def Let_def
  by (rule nf_plain [where k = 2 and p = dont_care_flags and q = "\<lambda>l. l", OF op_ready_done [OF assms(1)] assms(2) _ keeps_modes(2) keeps_modes(1) _ _ _ jnf_SUB_w_ok])
    (simp_all add: i_SUB_def fetch_regs imm_view [OF op_ready_done [OF assms(1)]] op_done_ready [OF op_ready_done [OF assms(1)]] op_operand [OF op_ready_done [OF assms(1)]])

lemma op_907c_0_comp_nf_ok:
  assumes "op_ready (64 + t) E mi l" "no_flags 0x1F mi mo"
  shows "translated t E mi mo l (op_907c_0_comp_nf H E opcode l)
    (\<lambda>g. incpc 4 (i_SUB (get_diword H 2 g) (hi_reg opcode) g))"
  unfolding op_907c_0_comp_nf_def Let_def add_pc_offset_simps comp_get_offset numeral_plus_numeral semiring_norm
  by (rule nf_plain [where k = 4 and p = dont_care_flags and q = "\<lambda>l. l", OF op_ready_done [OF assms(1)] assms(2) _ keeps_modes(2) keeps_modes(1) _ _ _ jnf_SUB_w_imm_ok])
    (simp_all add: i_SUB_def fetch_regs imm_view [OF op_ready_done [OF assms(1)]] op_done_ready [OF op_ready_done [OF assms(1)]] op_operand [OF op_ready_done [OF assms(1)]])

lemma op_9080_0_comp_nf_ok:
  assumes "op_ready (64 + t) E mi l" "no_flags 0x1F mi mo"
  shows "translated t E mi mo l (op_9080_0_comp_nf H E opcode l)
    (\<lambda>g. incpc 2 (i_SUB (fetch_reg (lo_reg opcode) g :: u32) (hi_reg opcode) g))"
  unfolding op_9080_0_comp_nf_def Let_def
  by (rule nf_plain [where k = 2 and p = dont_care_flags and q = "\<lambda>l. l", OF op_ready_done [OF assms(1)] assms(2) _ keeps_modes(2) keeps_modes(1) _ _ _ jnf_SUB_l_ok])
    (simp_all add: i_SUB_def fetch_regs imm_view [OF op_ready_done [OF assms(1)]] op_done_ready [OF op_ready_done [OF assms(1)]] op_operand [OF op_ready_done [OF assms(1)]])

lemma op_9088_0_comp_nf_ok:
  assumes "op_ready (64 + t) E mi l" "no_flags 0x1F mi mo"
  shows "translated t E mi mo l (op_9088_0_comp_nf H E opcode l)
    (\<lambda>g. incpc 2 (i_SUB (fetch_reg (lo_reg opcode + 8) g :: u32) (hi_reg opcode) g))"
  unfolding op_9088_0_comp_nf_def Let_def
  by (rule nf_plain [where k = 2 and p = dont_care_flags and q = "\<lambda>l. l", OF op_ready_done [OF assms(1)] assms(2) _ keeps_modes(2) keeps_modes(1) _ _ _ jnf_SUB_l_ok])
    (simp_all add: i_SUB_def fetch_regs imm_view [OF op_ready_done [OF assms(1)]] op_done_ready [OF op_ready_done [OF assms(1)]] op_operand [OF op_ready_done [OF assms(1)]])

lemma op_90bc_0_comp_nf_ok:
  assumes "op_ready (64 + t) E mi l" "no_flags 0x1F mi mo"
  shows "translated t E mi mo l (op_90bc_0_comp_nf H E opcode l)
    (\<lambda>g. incpc 6 (i_SUB (get_dilong H 2 g) (hi_reg opcode) g))"
  unfolding op_90bc_0_comp_nf_def Let_def add_pc_offset_simps comp_get_offset numeral_plus_numeral semiring_norm
  by (rule nf_plain [where k = 6 and p = dont_care_flags and q = "\<lambda>l. l", OF op_ready_done [OF assms(1)] assms(2) _ keeps_modes(2) keeps_modes(1) _ _ _ jnf_SUB_l_imm_ok])
    (simp_all add: i_SUB_def fetch_regs imm_view [OF op_ready_done [OF assms(1)]] op_done_ready [OF op_ready_done [OF assms(1)]] op_operand [OF op_ready_done [OF assms(1)]])

lemma op_90c0_0_comp_nf_ok:
  assumes "op_ready (64 + t) E mi l" "mi = mo"
  shows "translated t E mi mo l (op_90c0_0_comp_nf H E opcode l)
    (\<lambda>g. incpc 2 (i_SUBA (scast (fetch_reg (lo_reg opcode) g :: u16)) (hi_reg opcode + 8) g))"
  unfolding op_90c0_0_comp_nf_def Let_def assms(2) i_SUBA_def
  by (rule keep_plain [where k = 2, OF op_ready_done [OF assms(1) [unfolded assms(2)]] _ _ jnf_SUBA_w_ok])
    (simp_all add: imm8_small fetch_regs imm_view [OF op_ready_done [OF assms(1) [unfolded assms(2)]]] op_done_ready [OF op_ready_done [OF assms(1) [unfolded assms(2)]]] op_operand [OF op_ready_done [OF assms(1) [unfolded assms(2)]]])

lemma op_90c8_0_comp_nf_ok:
  assumes "op_ready (64 + t) E mi l" "mi = mo"
  shows "translated t E mi mo l (op_90c8_0_comp_nf H E opcode l)
    (\<lambda>g. incpc 2 (i_SUBA (scast (fetch_reg (lo_reg opcode + 8) g :: u16)) (hi_reg opcode + 8) g))"
  unfolding op_90c8_0_comp_nf_def Let_def assms(2) i_SUBA_def
  by (rule keep_plain [where k = 2, OF op_ready_done [OF assms(1) [unfolded assms(2)]] _ _ jnf_SUBA_w_ok])
    (simp_all add: imm8_small fetch_regs imm_view [OF op_ready_done [OF assms(1) [unfolded assms(2)]]] op_done_ready [OF op_ready_done [OF assms(1) [unfolded assms(2)]]] op_operand [OF op_ready_done [OF assms(1) [unfolded assms(2)]]])

lemma op_90fc_0_comp_nf_ok:
  assumes "op_ready (64 + t) E mi l" "mi = mo"
  shows "translated t E mi mo l (op_90fc_0_comp_nf H E opcode l)
    (\<lambda>g. incpc 4 (i_SUBA (scast (get_diword H 2 g)) (hi_reg opcode + 8) g))"
  unfolding op_90fc_0_comp_nf_def Let_def add_pc_offset_simps comp_get_offset numeral_plus_numeral semiring_norm assms(2) i_SUBA_def
  by (rule keep_plain [where k = 4, OF op_ready_done [OF assms(1) [unfolded assms(2)]] _ _ jnf_SUBA_w_imm_ok])
    (simp_all add: imm8_small fetch_regs imm_view [OF op_ready_done [OF assms(1) [unfolded assms(2)]]] op_done_ready [OF op_ready_done [OF assms(1) [unfolded assms(2)]]] op_operand [OF op_ready_done [OF assms(1) [unfolded assms(2)]]])

lemma op_91c0_0_comp_nf_ok:
  assumes "op_ready (64 + t) E mi l" "mi = mo"
  shows "translated t E mi mo l (op_91c0_0_comp_nf H E opcode l)
    (\<lambda>g. incpc 2 (i_SUBA (fetch_reg (lo_reg opcode) g) (hi_reg opcode + 8) g))"
  unfolding op_91c0_0_comp_nf_def Let_def assms(2) i_SUBA_def
  by (rule keep_plain [where k = 2, OF op_ready_done [OF assms(1) [unfolded assms(2)]] _ _ jnf_SUBA_l_ok])
    (simp_all add: imm8_small fetch_regs imm_view [OF op_ready_done [OF assms(1) [unfolded assms(2)]]] op_done_ready [OF op_ready_done [OF assms(1) [unfolded assms(2)]]] op_operand [OF op_ready_done [OF assms(1) [unfolded assms(2)]]])

lemma op_91c8_0_comp_nf_ok:
  assumes "op_ready (64 + t) E mi l" "mi = mo"
  shows "translated t E mi mo l (op_91c8_0_comp_nf H E opcode l)
    (\<lambda>g. incpc 2 (i_SUBA (fetch_reg (lo_reg opcode + 8) g) (hi_reg opcode + 8) g))"
  unfolding op_91c8_0_comp_nf_def Let_def assms(2) i_SUBA_def
  by (rule keep_plain [where k = 2, OF op_ready_done [OF assms(1) [unfolded assms(2)]] _ _ jnf_SUBA_l_ok])
    (simp_all add: imm8_small fetch_regs imm_view [OF op_ready_done [OF assms(1) [unfolded assms(2)]]] op_done_ready [OF op_ready_done [OF assms(1) [unfolded assms(2)]]] op_operand [OF op_ready_done [OF assms(1) [unfolded assms(2)]]])

lemma op_91fc_0_comp_nf_ok:
  assumes "op_ready (64 + t) E mi l" "mi = mo"
  shows "translated t E mi mo l (op_91fc_0_comp_nf H E opcode l)
    (\<lambda>g. incpc 6 (i_SUBA (get_dilong H 2 g) (hi_reg opcode + 8) g))"
  unfolding op_91fc_0_comp_nf_def Let_def add_pc_offset_simps comp_get_offset numeral_plus_numeral semiring_norm assms(2) i_SUBA_def
  by (rule keep_plain [where k = 6, OF op_ready_done [OF assms(1) [unfolded assms(2)]] _ _ jnf_SUBA_l_imm_ok])
    (simp_all add: imm8_small fetch_regs imm_view [OF op_ready_done [OF assms(1) [unfolded assms(2)]]] op_done_ready [OF op_ready_done [OF assms(1) [unfolded assms(2)]]] op_operand [OF op_ready_done [OF assms(1) [unfolded assms(2)]]])

lemma op_b000_0_comp_nf_ok:
  assumes "op_ready (64 + t) E mi l" "no_flags 0xF mi mo"
  shows "translated t E mi mo l (op_b000_0_comp_nf H E opcode l)
    (\<lambda>g. incpc 2 (i_CMP (fetch_reg (lo_reg opcode) g :: u8) (hi_reg opcode) g))"
  unfolding op_b000_0_comp_nf_def Let_def
  by (rule nf_none [where k = 2 and p = dont_care_flags, OF op_ready_done [OF assms(1)] assms(2) keeps_modes(2)]) (simp_all add: i_CMP_def)

lemma op_b03c_0_comp_nf_ok:
  assumes "op_ready (64 + t) E mi l" "no_flags 0xF mi mo"
  shows "translated t E mi mo l (op_b03c_0_comp_nf H E opcode l)
    (\<lambda>g. incpc 4 (i_CMP (get_dibyte H 2 g) (hi_reg opcode) g))"
  unfolding op_b03c_0_comp_nf_def Let_def add_pc_offset_simps comp_get_offset numeral_plus_numeral semiring_norm
  by (rule nf_none [where k = 4 and p = dont_care_flags, OF op_ready_done [OF assms(1)] assms(2) keeps_modes(2)]) (simp_all add: i_CMP_def)

lemma op_b040_0_comp_nf_ok:
  assumes "op_ready (64 + t) E mi l" "no_flags 0xF mi mo"
  shows "translated t E mi mo l (op_b040_0_comp_nf H E opcode l)
    (\<lambda>g. incpc 2 (i_CMP (fetch_reg (lo_reg opcode) g :: u16) (hi_reg opcode) g))"
  unfolding op_b040_0_comp_nf_def Let_def
  by (rule nf_none [where k = 2 and p = dont_care_flags, OF op_ready_done [OF assms(1)] assms(2) keeps_modes(2)]) (simp_all add: i_CMP_def)

lemma op_b048_0_comp_nf_ok:
  assumes "op_ready (64 + t) E mi l" "no_flags 0xF mi mo"
  shows "translated t E mi mo l (op_b048_0_comp_nf H E opcode l)
    (\<lambda>g. incpc 2 (i_CMP (fetch_reg (lo_reg opcode + 8) g :: u16) (hi_reg opcode) g))"
  unfolding op_b048_0_comp_nf_def Let_def
  by (rule nf_none [where k = 2 and p = dont_care_flags, OF op_ready_done [OF assms(1)] assms(2) keeps_modes(2)]) (simp_all add: i_CMP_def)

lemma op_b07c_0_comp_nf_ok:
  assumes "op_ready (64 + t) E mi l" "no_flags 0xF mi mo"
  shows "translated t E mi mo l (op_b07c_0_comp_nf H E opcode l)
    (\<lambda>g. incpc 4 (i_CMP (get_diword H 2 g) (hi_reg opcode) g))"
  unfolding op_b07c_0_comp_nf_def Let_def add_pc_offset_simps comp_get_offset numeral_plus_numeral semiring_norm
  by (rule nf_none [where k = 4 and p = dont_care_flags, OF op_ready_done [OF assms(1)] assms(2) keeps_modes(2)]) (simp_all add: i_CMP_def)

lemma op_b080_0_comp_nf_ok:
  assumes "op_ready (64 + t) E mi l" "no_flags 0xF mi mo"
  shows "translated t E mi mo l (op_b080_0_comp_nf H E opcode l)
    (\<lambda>g. incpc 2 (i_CMP (fetch_reg (lo_reg opcode) g :: u32) (hi_reg opcode) g))"
  unfolding op_b080_0_comp_nf_def Let_def
  by (rule nf_none [where k = 2 and p = dont_care_flags, OF op_ready_done [OF assms(1)] assms(2) keeps_modes(2)]) (simp_all add: i_CMP_def)

lemma op_b088_0_comp_nf_ok:
  assumes "op_ready (64 + t) E mi l" "no_flags 0xF mi mo"
  shows "translated t E mi mo l (op_b088_0_comp_nf H E opcode l)
    (\<lambda>g. incpc 2 (i_CMP (fetch_reg (lo_reg opcode + 8) g :: u32) (hi_reg opcode) g))"
  unfolding op_b088_0_comp_nf_def Let_def
  by (rule nf_none [where k = 2 and p = dont_care_flags, OF op_ready_done [OF assms(1)] assms(2) keeps_modes(2)]) (simp_all add: i_CMP_def)

lemma op_b0bc_0_comp_nf_ok:
  assumes "op_ready (64 + t) E mi l" "no_flags 0xF mi mo"
  shows "translated t E mi mo l (op_b0bc_0_comp_nf H E opcode l)
    (\<lambda>g. incpc 6 (i_CMP (get_dilong H 2 g) (hi_reg opcode) g))"
  unfolding op_b0bc_0_comp_nf_def Let_def add_pc_offset_simps comp_get_offset numeral_plus_numeral semiring_norm
  by (rule nf_none [where k = 6 and p = dont_care_flags, OF op_ready_done [OF assms(1)] assms(2) keeps_modes(2)]) (simp_all add: i_CMP_def)

lemma op_b0c0_0_comp_nf_ok:
  assumes "op_ready (64 + t) E mi l" "no_flags 0xF mi mo"
  shows "translated t E mi mo l (op_b0c0_0_comp_nf H E opcode l)
    (\<lambda>g. incpc 2 (i_CMP (scast (fetch_reg (lo_reg opcode) g :: u16) :: u32) (hi_reg opcode + 8) g))"
  unfolding op_b0c0_0_comp_nf_def Let_def
  by (rule nf_none [where k = 2 and p = dont_care_flags, OF op_ready_done [OF assms(1)] assms(2) keeps_modes(2)]) (simp_all add: i_CMP_def)

lemma op_b0c8_0_comp_nf_ok:
  assumes "op_ready (64 + t) E mi l" "no_flags 0xF mi mo"
  shows "translated t E mi mo l (op_b0c8_0_comp_nf H E opcode l)
    (\<lambda>g. incpc 2 (i_CMP (scast (fetch_reg (lo_reg opcode + 8) g :: u16) :: u32) (hi_reg opcode + 8) g))"
  unfolding op_b0c8_0_comp_nf_def Let_def
  by (rule nf_none [where k = 2 and p = dont_care_flags, OF op_ready_done [OF assms(1)] assms(2) keeps_modes(2)]) (simp_all add: i_CMP_def)

lemma op_b0fc_0_comp_nf_ok:
  assumes "op_ready (64 + t) E mi l" "no_flags 0xF mi mo"
  shows "translated t E mi mo l (op_b0fc_0_comp_nf H E opcode l)
    (\<lambda>g. incpc 4 (i_CMP (scast (get_diword H 2 g) :: u32) (hi_reg opcode + 8) g))"
  unfolding op_b0fc_0_comp_nf_def Let_def add_pc_offset_simps comp_get_offset numeral_plus_numeral semiring_norm
  by (rule nf_none [where k = 4 and p = dont_care_flags, OF op_ready_done [OF assms(1)] assms(2) keeps_modes(2)]) (simp_all add: i_CMP_def)

lemma op_b1c0_0_comp_nf_ok:
  assumes "op_ready (64 + t) E mi l" "no_flags 0xF mi mo"
  shows "translated t E mi mo l (op_b1c0_0_comp_nf H E opcode l)
    (\<lambda>g. incpc 2 (i_CMP (fetch_reg (lo_reg opcode) g :: u32) (hi_reg opcode + 8) g))"
  unfolding op_b1c0_0_comp_nf_def Let_def
  by (rule nf_none [where k = 2 and p = dont_care_flags, OF op_ready_done [OF assms(1)] assms(2) keeps_modes(2)]) (simp_all add: i_CMP_def)

lemma op_b1c8_0_comp_nf_ok:
  assumes "op_ready (64 + t) E mi l" "no_flags 0xF mi mo"
  shows "translated t E mi mo l (op_b1c8_0_comp_nf H E opcode l)
    (\<lambda>g. incpc 2 (i_CMP (fetch_reg (lo_reg opcode + 8) g :: u32) (hi_reg opcode + 8) g))"
  unfolding op_b1c8_0_comp_nf_def Let_def
  by (rule nf_none [where k = 2 and p = dont_care_flags, OF op_ready_done [OF assms(1)] assms(2) keeps_modes(2)]) (simp_all add: i_CMP_def)

lemma op_b1fc_0_comp_nf_ok:
  assumes "op_ready (64 + t) E mi l" "no_flags 0xF mi mo"
  shows "translated t E mi mo l (op_b1fc_0_comp_nf H E opcode l)
    (\<lambda>g. incpc 6 (i_CMP (get_dilong H 2 g :: u32) (hi_reg opcode + 8) g))"
  unfolding op_b1fc_0_comp_nf_def Let_def add_pc_offset_simps comp_get_offset numeral_plus_numeral semiring_norm
  by (rule nf_none [where k = 6 and p = dont_care_flags, OF op_ready_done [OF assms(1)] assms(2) keeps_modes(2)]) (simp_all add: i_CMP_def)

lemma op_d000_0_comp_nf_ok:
  assumes "op_ready (64 + t) E mi l" "no_flags 0x1F mi mo"
  shows "translated t E mi mo l (op_d000_0_comp_nf H E opcode l)
    (\<lambda>g. incpc 2 (i_ADD (fetch_reg (lo_reg opcode) g :: u8) (hi_reg opcode) g))"
  unfolding op_d000_0_comp_nf_def Let_def
  by (rule nf_plain [where k = 2 and p = dont_care_flags and q = "\<lambda>l. l", OF op_ready_done [OF assms(1)] assms(2) _ keeps_modes(2) keeps_modes(1) _ _ _ jnf_ADD_b_ok])
    (simp_all add: i_ADD_def fetch_regs imm_view [OF op_ready_done [OF assms(1)]] op_done_ready [OF op_ready_done [OF assms(1)]] op_operand [OF op_ready_done [OF assms(1)]])

lemma op_d03c_0_comp_nf_ok:
  assumes "op_ready (64 + t) E mi l" "no_flags 0x1F mi mo"
  shows "translated t E mi mo l (op_d03c_0_comp_nf H E opcode l)
    (\<lambda>g. incpc 4 (i_ADD (get_dibyte H 2 g) (hi_reg opcode) g))"
  unfolding op_d03c_0_comp_nf_def Let_def add_pc_offset_simps comp_get_offset numeral_plus_numeral semiring_norm
  by (rule nf_plain [where k = 4 and p = dont_care_flags and q = "\<lambda>l. l", OF op_ready_done [OF assms(1)] assms(2) _ keeps_modes(2) keeps_modes(1) _ _ _ jnf_ADD_b_imm_ok])
    (simp_all add: i_ADD_def fetch_regs imm_view [OF op_ready_done [OF assms(1)]] op_done_ready [OF op_ready_done [OF assms(1)]] op_operand [OF op_ready_done [OF assms(1)]])

lemma op_d040_0_comp_nf_ok:
  assumes "op_ready (64 + t) E mi l" "no_flags 0x1F mi mo"
  shows "translated t E mi mo l (op_d040_0_comp_nf H E opcode l)
    (\<lambda>g. incpc 2 (i_ADD (fetch_reg (lo_reg opcode) g :: u16) (hi_reg opcode) g))"
  unfolding op_d040_0_comp_nf_def Let_def
  by (rule nf_plain [where k = 2 and p = dont_care_flags and q = "\<lambda>l. l", OF op_ready_done [OF assms(1)] assms(2) _ keeps_modes(2) keeps_modes(1) _ _ _ jnf_ADD_w_ok])
    (simp_all add: i_ADD_def fetch_regs imm_view [OF op_ready_done [OF assms(1)]] op_done_ready [OF op_ready_done [OF assms(1)]] op_operand [OF op_ready_done [OF assms(1)]])

lemma op_d048_0_comp_nf_ok:
  assumes "op_ready (64 + t) E mi l" "no_flags 0x1F mi mo"
  shows "translated t E mi mo l (op_d048_0_comp_nf H E opcode l)
    (\<lambda>g. incpc 2 (i_ADD (fetch_reg (lo_reg opcode + 8) g :: u16) (hi_reg opcode) g))"
  unfolding op_d048_0_comp_nf_def Let_def
  by (rule nf_plain [where k = 2 and p = dont_care_flags and q = "\<lambda>l. l", OF op_ready_done [OF assms(1)] assms(2) _ keeps_modes(2) keeps_modes(1) _ _ _ jnf_ADD_w_ok])
    (simp_all add: i_ADD_def fetch_regs imm_view [OF op_ready_done [OF assms(1)]] op_done_ready [OF op_ready_done [OF assms(1)]] op_operand [OF op_ready_done [OF assms(1)]])

lemma op_d07c_0_comp_nf_ok:
  assumes "op_ready (64 + t) E mi l" "no_flags 0x1F mi mo"
  shows "translated t E mi mo l (op_d07c_0_comp_nf H E opcode l)
    (\<lambda>g. incpc 4 (i_ADD (get_diword H 2 g) (hi_reg opcode) g))"
  unfolding op_d07c_0_comp_nf_def Let_def add_pc_offset_simps comp_get_offset numeral_plus_numeral semiring_norm
  by (rule nf_plain [where k = 4 and p = dont_care_flags and q = "\<lambda>l. l", OF op_ready_done [OF assms(1)] assms(2) _ keeps_modes(2) keeps_modes(1) _ _ _ jnf_ADD_w_imm_ok])
    (simp_all add: i_ADD_def fetch_regs imm_view [OF op_ready_done [OF assms(1)]] op_done_ready [OF op_ready_done [OF assms(1)]] op_operand [OF op_ready_done [OF assms(1)]])

lemma op_d080_0_comp_nf_ok:
  assumes "op_ready (64 + t) E mi l" "no_flags 0x1F mi mo"
  shows "translated t E mi mo l (op_d080_0_comp_nf H E opcode l)
    (\<lambda>g. incpc 2 (i_ADD (fetch_reg (lo_reg opcode) g :: u32) (hi_reg opcode) g))"
  unfolding op_d080_0_comp_nf_def Let_def
  by (rule nf_plain [where k = 2 and p = dont_care_flags and q = "\<lambda>l. l", OF op_ready_done [OF assms(1)] assms(2) _ keeps_modes(2) keeps_modes(1) _ _ _ jnf_ADD_l_ok])
    (simp_all add: i_ADD_def fetch_regs imm_view [OF op_ready_done [OF assms(1)]] op_done_ready [OF op_ready_done [OF assms(1)]] op_operand [OF op_ready_done [OF assms(1)]])

lemma op_d088_0_comp_nf_ok:
  assumes "op_ready (64 + t) E mi l" "no_flags 0x1F mi mo"
  shows "translated t E mi mo l (op_d088_0_comp_nf H E opcode l)
    (\<lambda>g. incpc 2 (i_ADD (fetch_reg (lo_reg opcode + 8) g :: u32) (hi_reg opcode) g))"
  unfolding op_d088_0_comp_nf_def Let_def
  by (rule nf_plain [where k = 2 and p = dont_care_flags and q = "\<lambda>l. l", OF op_ready_done [OF assms(1)] assms(2) _ keeps_modes(2) keeps_modes(1) _ _ _ jnf_ADD_l_ok])
    (simp_all add: i_ADD_def fetch_regs imm_view [OF op_ready_done [OF assms(1)]] op_done_ready [OF op_ready_done [OF assms(1)]] op_operand [OF op_ready_done [OF assms(1)]])

lemma op_d0bc_0_comp_nf_ok:
  assumes "op_ready (64 + t) E mi l" "no_flags 0x1F mi mo"
  shows "translated t E mi mo l (op_d0bc_0_comp_nf H E opcode l)
    (\<lambda>g. incpc 6 (i_ADD (get_dilong H 2 g) (hi_reg opcode) g))"
  unfolding op_d0bc_0_comp_nf_def Let_def add_pc_offset_simps comp_get_offset numeral_plus_numeral semiring_norm
  by (rule nf_plain [where k = 6 and p = dont_care_flags and q = "\<lambda>l. l", OF op_ready_done [OF assms(1)] assms(2) _ keeps_modes(2) keeps_modes(1) _ _ _ jnf_ADD_l_imm_ok])
    (simp_all add: i_ADD_def fetch_regs imm_view [OF op_ready_done [OF assms(1)]] op_done_ready [OF op_ready_done [OF assms(1)]] op_operand [OF op_ready_done [OF assms(1)]])

lemma op_d0c0_0_comp_nf_ok:
  assumes "op_ready (64 + t) E mi l" "mi = mo"
  shows "translated t E mi mo l (op_d0c0_0_comp_nf H E opcode l)
    (\<lambda>g. incpc 2 (i_ADDA (scast (fetch_reg (lo_reg opcode) g :: u16)) (hi_reg opcode + 8) g))"
  unfolding op_d0c0_0_comp_nf_def Let_def assms(2) i_ADDA_def
  by (rule keep_plain [where k = 2, OF op_ready_done [OF assms(1) [unfolded assms(2)]] _ _ jnf_ADDA_w_ok])
    (simp_all add: imm8_small fetch_regs imm_view [OF op_ready_done [OF assms(1) [unfolded assms(2)]]] op_done_ready [OF op_ready_done [OF assms(1) [unfolded assms(2)]]] op_operand [OF op_ready_done [OF assms(1) [unfolded assms(2)]]])

lemma op_d0c8_0_comp_nf_ok:
  assumes "op_ready (64 + t) E mi l" "mi = mo"
  shows "translated t E mi mo l (op_d0c8_0_comp_nf H E opcode l)
    (\<lambda>g. incpc 2 (i_ADDA (scast (fetch_reg (lo_reg opcode + 8) g :: u16)) (hi_reg opcode + 8) g))"
  unfolding op_d0c8_0_comp_nf_def Let_def assms(2) i_ADDA_def
  by (rule keep_plain [where k = 2, OF op_ready_done [OF assms(1) [unfolded assms(2)]] _ _ jnf_ADDA_w_ok])
    (simp_all add: imm8_small fetch_regs imm_view [OF op_ready_done [OF assms(1) [unfolded assms(2)]]] op_done_ready [OF op_ready_done [OF assms(1) [unfolded assms(2)]]] op_operand [OF op_ready_done [OF assms(1) [unfolded assms(2)]]])

lemma op_d0fc_0_comp_nf_ok:
  assumes "op_ready (64 + t) E mi l" "mi = mo"
  shows "translated t E mi mo l (op_d0fc_0_comp_nf H E opcode l)
    (\<lambda>g. incpc 4 (i_ADDA (scast (get_diword H 2 g)) (hi_reg opcode + 8) g))"
  unfolding op_d0fc_0_comp_nf_def Let_def add_pc_offset_simps comp_get_offset numeral_plus_numeral semiring_norm assms(2) i_ADDA_def
  by (rule keep_plain [where k = 4, OF op_ready_done [OF assms(1) [unfolded assms(2)]] _ _ jnf_ADDA_w_imm_ok])
    (simp_all add: imm8_small fetch_regs imm_view [OF op_ready_done [OF assms(1) [unfolded assms(2)]]] op_done_ready [OF op_ready_done [OF assms(1) [unfolded assms(2)]]] op_operand [OF op_ready_done [OF assms(1) [unfolded assms(2)]]])

lemma op_d1c0_0_comp_nf_ok:
  assumes "op_ready (64 + t) E mi l" "mi = mo"
  shows "translated t E mi mo l (op_d1c0_0_comp_nf H E opcode l)
    (\<lambda>g. incpc 2 (i_ADDA (fetch_reg (lo_reg opcode) g) (hi_reg opcode + 8) g))"
  unfolding op_d1c0_0_comp_nf_def Let_def assms(2) i_ADDA_def
  by (rule keep_plain [where k = 2, OF op_ready_done [OF assms(1) [unfolded assms(2)]] _ _ jnf_ADDA_l_ok])
    (simp_all add: imm8_small fetch_regs imm_view [OF op_ready_done [OF assms(1) [unfolded assms(2)]]] op_done_ready [OF op_ready_done [OF assms(1) [unfolded assms(2)]]] op_operand [OF op_ready_done [OF assms(1) [unfolded assms(2)]]])

lemma op_d1c8_0_comp_nf_ok:
  assumes "op_ready (64 + t) E mi l" "mi = mo"
  shows "translated t E mi mo l (op_d1c8_0_comp_nf H E opcode l)
    (\<lambda>g. incpc 2 (i_ADDA (fetch_reg (lo_reg opcode + 8) g) (hi_reg opcode + 8) g))"
  unfolding op_d1c8_0_comp_nf_def Let_def assms(2) i_ADDA_def
  by (rule keep_plain [where k = 2, OF op_ready_done [OF assms(1) [unfolded assms(2)]] _ _ jnf_ADDA_l_ok])
    (simp_all add: imm8_small fetch_regs imm_view [OF op_ready_done [OF assms(1) [unfolded assms(2)]]] op_done_ready [OF op_ready_done [OF assms(1) [unfolded assms(2)]]] op_operand [OF op_ready_done [OF assms(1) [unfolded assms(2)]]])

lemma op_d1fc_0_comp_nf_ok:
  assumes "op_ready (64 + t) E mi l" "mi = mo"
  shows "translated t E mi mo l (op_d1fc_0_comp_nf H E opcode l)
    (\<lambda>g. incpc 6 (i_ADDA (get_dilong H 2 g) (hi_reg opcode + 8) g))"
  unfolding op_d1fc_0_comp_nf_def Let_def add_pc_offset_simps comp_get_offset numeral_plus_numeral semiring_norm assms(2) i_ADDA_def
  by (rule keep_plain [where k = 6, OF op_ready_done [OF assms(1) [unfolded assms(2)]] _ _ jnf_ADDA_l_imm_ok])
    (simp_all add: imm8_small fetch_regs imm_view [OF op_ready_done [OF assms(1) [unfolded assms(2)]]] op_done_ready [OF op_ready_done [OF assms(1) [unfolded assms(2)]]] op_operand [OF op_ready_done [OF assms(1) [unfolded assms(2)]]])

end
