(* ===== verification/Jit_Logic.thy ===== *)
theory Jit_Logic
  imports Jit_Parts
begin

unbundle bit_operations_syntax

text \<open>
  The logical instructions AND, OR, EOR, NOT and TST (compemu_midfunc_arm64_2.cpp), for bytes, words
  and long words and for register and immediate operands.
\<close>

definition jnf_AND_b_imm :: "jenv \<Rightarrow> nat \<Rightarrow> u32 \<Rightarrow> live \<Rightarrow> live option" where
  "jnf_AND_b_imm E d v l =
    (if isconst l d then Some (set_val d (((val_of l d) AND 0xFFFFFF00)
      OR (((val_of l d) AND (scast v)) AND 0xFF)) l)
    else do {
      (d, l) \<leftarrow> rmw E d l;
      let l = emit [MOVN_xi REG_WORK1 (ucast ((NOT v) AND 0xFF)), AND_www d d REG_WORK1] l;
      unlock2 d l })"

definition jnf_AND_b :: "jenv \<Rightarrow> nat \<Rightarrow> nat \<Rightarrow> live \<Rightarrow> live option" where
  "jnf_AND_b E d s l =
    (if isconst l s then jnf_AND_b_imm E d (ucast (val_of l s)) l
    else do {
      let targetIsReg = (d < 16);
      let s_is_d = (s = d);
      (d, s, l) \<leftarrow> INIT_REGS E d s l;
      let l = emit (if targetIsReg then [AND_www REG_WORK1 d s, BFI_wwii d REG_WORK1 0 8]
        else [AND_www d d s]) l;
      EXIT_REGS s_is_d d s l })"

definition jnf_AND_w_imm :: "jenv \<Rightarrow> nat \<Rightarrow> u32 \<Rightarrow> live \<Rightarrow> live option" where
  "jnf_AND_w_imm E d v l =
    (if isconst l d then Some (set_val d (((val_of l d) AND 0xFFFF0000)
      OR (((val_of l d) AND (scast v)) AND 0xFFFF)) l)
    else do {
      (d, l) \<leftarrow> rmw E d l;
      let l = emit [MOVN_xi REG_WORK1 (ucast (NOT v)), AND_www d d REG_WORK1] l;
      unlock2 d l })"

definition jnf_AND_w :: "jenv \<Rightarrow> nat \<Rightarrow> nat \<Rightarrow> live \<Rightarrow> live option" where
  "jnf_AND_w E d s l =
    (if isconst l s then jnf_AND_w_imm E d (ucast (val_of l s)) l
    else do {
      let targetIsReg = (d < 16);
      let s_is_d = (s = d);
      (d, s, l) \<leftarrow> INIT_REGS E d s l;
      let l = emit (if targetIsReg then [AND_www REG_WORK1 d s, BFI_wwii d REG_WORK1 0 16]
        else [AND_www d d s]) l;
      EXIT_REGS s_is_d d s l })"

definition jnf_AND_l_imm :: "jenv \<Rightarrow> nat \<Rightarrow> u32 \<Rightarrow> live \<Rightarrow> live option" where
  "jnf_AND_l_imm E d v l =
    (if isconst l d then Some (set_val d ((val_of l d) AND (scast v)) l)
    else do {
      (d, l) \<leftarrow> rmw E d l;
      let l = emit (LOAD_U32 REG_WORK1 v @ [AND_www d d REG_WORK1]) l;
      unlock2 d l })"

definition jnf_AND_l :: "jenv \<Rightarrow> nat \<Rightarrow> nat \<Rightarrow> live \<Rightarrow> live option" where
  "jnf_AND_l E d s l =
    (if isconst l s then jnf_AND_l_imm E d (ucast (val_of l s)) l
    else do {
      let s_is_d = (s = d);
      (d, s, l) \<leftarrow> INIT_REGS E d s l;
      let l = emit [AND_www d d s] l;
      EXIT_REGS s_is_d d s l })"

definition jff_AND_b_imm :: "jenv \<Rightarrow> nat \<Rightarrow> u32 \<Rightarrow> live \<Rightarrow> live option" where
  "jff_AND_b_imm E d v l =
    do {
      let targetIsReg = (d < 16);
      (d, l) \<leftarrow> rmw E d l;
      let l = emit (SIGNED8_REG_2_REG REG_WORK1 d @ SIGNED8_IMM_2_REG REG_WORK2 v
        @ (if targetIsReg then [ANDS_www REG_WORK1 REG_WORK1 REG_WORK2, BFI_wwii d REG_WORK1 0 8]
        else [ANDS_www d REG_WORK1 REG_WORK2])) l;
      let l = set_carry_inverted False l;
      unlock2 d l }"

definition jff_AND_b :: "jenv \<Rightarrow> nat \<Rightarrow> nat \<Rightarrow> live \<Rightarrow> live option" where
  "jff_AND_b E d s l =
    (if isconst l s then jff_AND_b_imm E d (ucast (val_of l s)) l
    else do {
      let targetIsReg = (d < 16);
      let s_is_d = (s = d);
      (d, s, l) \<leftarrow> INIT_REGS E d s l;
      let l = emit (SIGNED8_REG_2_REG REG_WORK1 d @ SIGNED8_REG_2_REG REG_WORK2 s
        @ (if targetIsReg then [ANDS_www REG_WORK1 REG_WORK1 REG_WORK2, BFI_wwii d REG_WORK1 0 8]
        else [ANDS_www d REG_WORK1 REG_WORK2])) l;
      let l = set_carry_inverted False l;
      EXIT_REGS s_is_d d s l })"

definition jff_AND_w_imm :: "jenv \<Rightarrow> nat \<Rightarrow> u32 \<Rightarrow> live \<Rightarrow> live option" where
  "jff_AND_w_imm E d v l =
    do {
      let targetIsReg = (d < 16);
      (d, l) \<leftarrow> rmw E d l;
      let l = emit (SIGNED16_REG_2_REG REG_WORK1 d @ SIGNED16_IMM_2_REG REG_WORK2 v
        @ (if targetIsReg then [ANDS_www REG_WORK1 REG_WORK1 REG_WORK2, BFI_wwii d REG_WORK1 0 16]
        else [ANDS_www d REG_WORK1 REG_WORK2])) l;
      let l = set_carry_inverted False l;
      unlock2 d l }"

definition jff_AND_w :: "jenv \<Rightarrow> nat \<Rightarrow> nat \<Rightarrow> live \<Rightarrow> live option" where
  "jff_AND_w E d s l =
    (if isconst l s then jff_AND_w_imm E d (ucast (val_of l s)) l
    else do {
      let targetIsReg = (d < 16);
      let s_is_d = (s = d);
      (d, s, l) \<leftarrow> INIT_REGS E d s l;
      let l = emit (SIGNED16_REG_2_REG REG_WORK1 d @ SIGNED16_REG_2_REG REG_WORK2 s
        @ (if targetIsReg then [ANDS_www REG_WORK1 REG_WORK1 REG_WORK2, BFI_wwii d REG_WORK1 0 16]
        else [ANDS_www d REG_WORK1 REG_WORK2])) l;
      let l = set_carry_inverted False l;
      EXIT_REGS s_is_d d s l })"

definition jff_AND_l_imm :: "jenv \<Rightarrow> nat \<Rightarrow> u32 \<Rightarrow> live \<Rightarrow> live option" where
  "jff_AND_l_imm E d v l =
    do {
      (d, l) \<leftarrow> rmw E d l;
      let l = emit (LOAD_U32 REG_WORK1 v @ [ANDS_www d d REG_WORK1]) l;
      let l = set_carry_inverted False l;
      unlock2 d l }"

definition jff_AND_l :: "jenv \<Rightarrow> nat \<Rightarrow> nat \<Rightarrow> live \<Rightarrow> live option" where
  "jff_AND_l E d s l =
    (if isconst l s then jff_AND_l_imm E d (ucast (val_of l s)) l
    else do {
      let s_is_d = (s = d);
      (d, s, l) \<leftarrow> INIT_REGS E d s l;
      let l = emit [ANDS_www d d s] l;
      let l = set_carry_inverted False l;
      EXIT_REGS s_is_d d s l })"

definition jnf_OR_b_imm :: "jenv \<Rightarrow> nat \<Rightarrow> u32 \<Rightarrow> live \<Rightarrow> live option" where
  "jnf_OR_b_imm E d v l =
    (if isconst l d then Some (set_val d (((val_of l d) AND 0xFFFFFF00) OR (((val_of l d)
      OR (scast v)) AND 0xFF)) l)
    else do {
      (d, l) \<leftarrow> rmw E d l;
      let l = emit [MOV_xi REG_WORK2 (ucast (v AND 0xFF)), ORR_www d d REG_WORK2] l;
      unlock2 d l })"

definition jnf_OR_b :: "jenv \<Rightarrow> nat \<Rightarrow> nat \<Rightarrow> live \<Rightarrow> live option" where
  "jnf_OR_b E d s l =
    (if isconst l s then jnf_OR_b_imm E d (ucast (val_of l s)) l
    else do {
      let targetIsReg = (d < 16);
      let s_is_d = (s = d);
      (d, s, l) \<leftarrow> INIT_REGS E d s l;
      let l = emit (if targetIsReg then [ORR_www REG_WORK1 d s, BFI_wwii d REG_WORK1 0 8]
        else [ORR_www d d s]) l;
      EXIT_REGS s_is_d d s l })"

definition jnf_OR_w_imm :: "jenv \<Rightarrow> nat \<Rightarrow> u32 \<Rightarrow> live \<Rightarrow> live option" where
  "jnf_OR_w_imm E d v l =
    (if isconst l d then Some (set_val d (((val_of l d) AND 0xFFFF0000) OR (((val_of l d)
      OR (scast v)) AND 0xFFFF)) l)
    else do {
      (d, l) \<leftarrow> rmw E d l;
      let l = emit [MOV_xi REG_WORK1 (ucast (v AND 0xFFFF)), ORR_www d d REG_WORK1] l;
      unlock2 d l })"

definition jnf_OR_w :: "jenv \<Rightarrow> nat \<Rightarrow> nat \<Rightarrow> live \<Rightarrow> live option" where
  "jnf_OR_w E d s l =
    (if isconst l s then jnf_OR_w_imm E d (ucast (val_of l s)) l
    else do {
      let targetIsReg = (d < 16);
      let s_is_d = (s = d);
      (d, s, l) \<leftarrow> INIT_REGS E d s l;
      let l = emit (if targetIsReg then [ORR_www REG_WORK1 d s, BFI_wwii d REG_WORK1 0 16]
        else [ORR_www d d s]) l;
      EXIT_REGS s_is_d d s l })"

definition jnf_OR_l_imm :: "jenv \<Rightarrow> nat \<Rightarrow> u32 \<Rightarrow> live \<Rightarrow> live option" where
  "jnf_OR_l_imm E d v l =
    (if isconst l d then Some (set_val d ((val_of l d) OR (scast v)) l)
    else do {
      (d, l) \<leftarrow> rmw E d l;
      let l = emit (LOAD_U32 REG_WORK1 v @ [ORR_www d d REG_WORK1]) l;
      unlock2 d l })"

definition jnf_OR_l :: "jenv \<Rightarrow> nat \<Rightarrow> nat \<Rightarrow> live \<Rightarrow> live option" where
  "jnf_OR_l E d s l =
    (if isconst l s then jnf_OR_l_imm E d (ucast (val_of l s)) l
    else do {
      let s_is_d = (s = d);
      (d, s, l) \<leftarrow> INIT_REGS E d s l;
      let l = emit [ORR_www d d s] l;
      EXIT_REGS s_is_d d s l })"

definition jff_OR_b_imm :: "jenv \<Rightarrow> nat \<Rightarrow> u32 \<Rightarrow> live \<Rightarrow> live option" where
  "jff_OR_b_imm E d v l =
    do {
      let targetIsReg = (d < 16);
      (d, l) \<leftarrow> rmw E d l;
      let l = emit (SIGNED8_REG_2_REG REG_WORK1 d @ SIGNED8_IMM_2_REG REG_WORK2 v
        @ (if targetIsReg then [ORR_www REG_WORK1 REG_WORK1 REG_WORK2, TST_ww REG_WORK1 REG_WORK1,
        BFI_wwii d REG_WORK1 0 8] else [ORR_www d REG_WORK1 REG_WORK2, TST_ww d d])) l;
      let l = set_carry_inverted False l;
      unlock2 d l }"

definition jff_OR_b :: "jenv \<Rightarrow> nat \<Rightarrow> nat \<Rightarrow> live \<Rightarrow> live option" where
  "jff_OR_b E d s l =
    (if isconst l s then jff_OR_b_imm E d (ucast (val_of l s)) l
    else do {
      let targetIsReg = (d < 16);
      let s_is_d = (s = d);
      (d, s, l) \<leftarrow> INIT_REGS E d s l;
      let l = emit (SIGNED8_REG_2_REG REG_WORK1 d @ SIGNED8_REG_2_REG REG_WORK2 s
        @ (if targetIsReg then [ORR_www REG_WORK1 REG_WORK1 REG_WORK2, TST_ww REG_WORK1 REG_WORK1,
        BFI_wwii d REG_WORK1 0 8] else [ORR_www d REG_WORK1 REG_WORK2, TST_ww d d])) l;
      let l = set_carry_inverted False l;
      EXIT_REGS s_is_d d s l })"

definition jff_OR_w_imm :: "jenv \<Rightarrow> nat \<Rightarrow> u32 \<Rightarrow> live \<Rightarrow> live option" where
  "jff_OR_w_imm E d v l =
    do {
      let targetIsReg = (d < 16);
      (d, l) \<leftarrow> rmw E d l;
      let l = emit (SIGNED16_REG_2_REG REG_WORK1 d @ SIGNED16_IMM_2_REG REG_WORK2 v
        @ (if targetIsReg then [ORR_www REG_WORK1 REG_WORK1 REG_WORK2, TST_ww REG_WORK1 REG_WORK1,
        BFI_wwii d REG_WORK1 0 16] else [ORR_www d REG_WORK1 REG_WORK2, TST_ww d d])) l;
      let l = set_carry_inverted False l;
      unlock2 d l }"

definition jff_OR_w :: "jenv \<Rightarrow> nat \<Rightarrow> nat \<Rightarrow> live \<Rightarrow> live option" where
  "jff_OR_w E d s l =
    (if isconst l s then jff_OR_w_imm E d (ucast (val_of l s)) l
    else do {
      let targetIsReg = (d < 16);
      let s_is_d = (s = d);
      (d, s, l) \<leftarrow> INIT_REGS E d s l;
      let l = emit (SIGNED16_REG_2_REG REG_WORK1 d @ SIGNED16_REG_2_REG REG_WORK2 s
        @ (if targetIsReg then [ORR_www REG_WORK1 REG_WORK1 REG_WORK2, TST_ww REG_WORK1 REG_WORK1,
        BFI_wwii d REG_WORK1 0 16] else [ORR_www d REG_WORK1 REG_WORK2, TST_ww d d])) l;
      let l = set_carry_inverted False l;
      EXIT_REGS s_is_d d s l })"

definition jff_OR_l_imm :: "jenv \<Rightarrow> nat \<Rightarrow> u32 \<Rightarrow> live \<Rightarrow> live option" where
  "jff_OR_l_imm E d v l =
    do {
      (d, l) \<leftarrow> rmw E d l;
      let l = emit (LOAD_U32 REG_WORK1 v @ [ORR_www d d REG_WORK1, TST_ww d d]) l;
      let l = set_carry_inverted False l;
      unlock2 d l }"

definition jff_OR_l :: "jenv \<Rightarrow> nat \<Rightarrow> nat \<Rightarrow> live \<Rightarrow> live option" where
  "jff_OR_l E d s l =
    (if isconst l s then jff_OR_l_imm E d (ucast (val_of l s)) l
    else do {
      let s_is_d = (s = d);
      (d, s, l) \<leftarrow> INIT_REGS E d s l;
      let l = emit [ORR_www d d s, TST_ww d d] l;
      let l = set_carry_inverted False l;
      EXIT_REGS s_is_d d s l })"

definition jnf_EOR_b_imm :: "jenv \<Rightarrow> nat \<Rightarrow> u32 \<Rightarrow> live \<Rightarrow> live option" where
  "jnf_EOR_b_imm E d v l =
    do {
      (d, l) \<leftarrow> rmw E d l;
      let l = emit [MOV_xi REG_WORK1 (ucast (v AND 0xFF)), EOR_www d d REG_WORK1] l;
      unlock2 d l }"

definition jnf_EOR_b :: "jenv \<Rightarrow> nat \<Rightarrow> nat \<Rightarrow> live \<Rightarrow> live option" where
  "jnf_EOR_b E d s l =
    (if isconst l s then jnf_EOR_b_imm E d (ucast (val_of l s)) l
    else do {
      let targetIsReg = (d < 16);
      let s_is_d = (s = d);
      (d, s, l) \<leftarrow> INIT_REGS E d s l;
      let l = emit (if targetIsReg then [EOR_www REG_WORK1 d s, BFI_wwii d REG_WORK1 0 8]
        else [EOR_www d d s]) l;
      EXIT_REGS s_is_d d s l })"

definition jnf_EOR_w_imm :: "jenv \<Rightarrow> nat \<Rightarrow> u32 \<Rightarrow> live \<Rightarrow> live option" where
  "jnf_EOR_w_imm E d v l =
    do {
      (d, l) \<leftarrow> rmw E d l;
      let l = emit [MOV_xi REG_WORK1 (ucast (v AND 0xFFFF)), EOR_www d d REG_WORK1] l;
      unlock2 d l }"

definition jnf_EOR_w :: "jenv \<Rightarrow> nat \<Rightarrow> nat \<Rightarrow> live \<Rightarrow> live option" where
  "jnf_EOR_w E d s l =
    (if isconst l s then jnf_EOR_w_imm E d (ucast (val_of l s)) l
    else do {
      let s_is_d = (s = d);
      (d, s, l) \<leftarrow> INIT_REGS E d s l;
      let l = emit [EOR_www REG_WORK1 d s, BFI_wwii d REG_WORK1 0 16] l;
      EXIT_REGS s_is_d d s l })"

definition jnf_EOR_l_imm :: "jenv \<Rightarrow> nat \<Rightarrow> u32 \<Rightarrow> live \<Rightarrow> live option" where
  "jnf_EOR_l_imm E d v l =
    (if isconst l d then Some (set_val d ((val_of l d) XOR (scast v)) l)
    else do {
      (d, l) \<leftarrow> rmw E d l;
      let l = emit (LOAD_U32 REG_WORK1 v @ [EOR_www d d REG_WORK1]) l;
      unlock2 d l })"

definition jnf_EOR_l :: "jenv \<Rightarrow> nat \<Rightarrow> nat \<Rightarrow> live \<Rightarrow> live option" where
  "jnf_EOR_l E d s l =
    (if isconst l s then jnf_EOR_l_imm E d (ucast (val_of l s)) l
    else do {
      let s_is_d = (s = d);
      (d, s, l) \<leftarrow> INIT_REGS E d s l;
      let l = emit [EOR_www d d s] l;
      EXIT_REGS s_is_d d s l })"

definition jff_EOR_b_imm :: "jenv \<Rightarrow> nat \<Rightarrow> u32 \<Rightarrow> live \<Rightarrow> live option" where
  "jff_EOR_b_imm E d v l =
    do {
      let targetIsReg = (d < 16);
      (d, l) \<leftarrow> rmw E d l;
      let l = emit (SIGNED8_REG_2_REG REG_WORK1 d @ SIGNED8_IMM_2_REG REG_WORK2 v
        @ (if targetIsReg then [EOR_www REG_WORK1 REG_WORK1 REG_WORK2, BFI_wwii d REG_WORK1 0 8,
        TST_ww REG_WORK1 REG_WORK1] else [EOR_www d REG_WORK1 REG_WORK2, TST_ww d d])) l;
      let l = set_carry_inverted False l;
      unlock2 d l }"

definition jff_EOR_b :: "jenv \<Rightarrow> nat \<Rightarrow> nat \<Rightarrow> live \<Rightarrow> live option" where
  "jff_EOR_b E d s l =
    (if isconst l s then jff_EOR_b_imm E d (ucast (val_of l s)) l
    else do {
      let targetIsReg = (d < 16);
      let s_is_d = (s = d);
      (d, s, l) \<leftarrow> INIT_REGS E d s l;
      let l = emit (SIGNED8_REG_2_REG REG_WORK1 d @ SIGNED8_REG_2_REG REG_WORK2 s
        @ (if targetIsReg then [EOR_www REG_WORK1 REG_WORK1 REG_WORK2, BFI_wwii d REG_WORK1 0 8,
        TST_ww REG_WORK1 REG_WORK1] else [EOR_www d REG_WORK1 REG_WORK2, TST_ww d d])) l;
      let l = set_carry_inverted False l;
      EXIT_REGS s_is_d d s l })"

definition jff_EOR_w_imm :: "jenv \<Rightarrow> nat \<Rightarrow> u32 \<Rightarrow> live \<Rightarrow> live option" where
  "jff_EOR_w_imm E d v l =
    do {
      let targetIsReg = (d < 16);
      (d, l) \<leftarrow> rmw E d l;
      let l = emit (SIGNED16_REG_2_REG REG_WORK1 d @ SIGNED16_IMM_2_REG REG_WORK2 v
        @ (if targetIsReg then [EOR_www REG_WORK1 REG_WORK1 REG_WORK2, BFI_wwii d REG_WORK1 0 16,
        TST_ww REG_WORK1 REG_WORK1] else [EOR_www d REG_WORK1 REG_WORK2, TST_ww d d])) l;
      let l = set_carry_inverted False l;
      unlock2 d l }"

definition jff_EOR_w :: "jenv \<Rightarrow> nat \<Rightarrow> nat \<Rightarrow> live \<Rightarrow> live option" where
  "jff_EOR_w E d s l =
    (if isconst l s then jff_EOR_w_imm E d (ucast (val_of l s)) l
    else do {
      let targetIsReg = (d < 16);
      let s_is_d = (s = d);
      (d, s, l) \<leftarrow> INIT_REGS E d s l;
      let l = emit (SIGNED16_REG_2_REG REG_WORK1 d @ SIGNED16_REG_2_REG REG_WORK2 s
        @ (if targetIsReg then [EOR_www REG_WORK1 REG_WORK1 REG_WORK2, BFI_wwii d REG_WORK1 0 16,
        TST_ww REG_WORK1 REG_WORK1] else [EOR_www d REG_WORK1 REG_WORK2, TST_ww d d])) l;
      let l = set_carry_inverted False l;
      EXIT_REGS s_is_d d s l })"

definition jff_EOR_l_imm :: "jenv \<Rightarrow> nat \<Rightarrow> u32 \<Rightarrow> live \<Rightarrow> live option" where
  "jff_EOR_l_imm E d v l =
    do {
      (d, l) \<leftarrow> rmw E d l;
      let l = emit (LOAD_U32 REG_WORK1 v @ [EOR_www d d REG_WORK1, TST_ww d d]) l;
      let l = set_carry_inverted False l;
      unlock2 d l }"

definition jff_EOR_l :: "jenv \<Rightarrow> nat \<Rightarrow> nat \<Rightarrow> live \<Rightarrow> live option" where
  "jff_EOR_l E d s l =
    (if isconst l s then jff_EOR_l_imm E d (ucast (val_of l s)) l
    else do {
      let s_is_d = (s = d);
      (d, s, l) \<leftarrow> INIT_REGS E d s l;
      let l = emit [EOR_www d d s, TST_ww d d] l;
      let l = set_carry_inverted False l;
      EXIT_REGS s_is_d d s l })"

definition jnf_NOT_b :: "jenv \<Rightarrow> nat \<Rightarrow> live \<Rightarrow> live option" where
  "jnf_NOT_b E d l =
    (if isconst l d then Some (set_val d (((val_of l d) AND 0xFFFFFF00) OR ((NOT (val_of l d)) AND 0xFF)) l)
    else do {
      let targetIsReg = (d < 16);
      (d, l) \<leftarrow> rmw E d l;
      let l = emit (if targetIsReg then [MVN_ww REG_WORK1 d, BFI_wwii d REG_WORK1 0 8] else [MVN_ww d d]) l;
      unlock2 d l })"

definition jnf_NOT_w :: "jenv \<Rightarrow> nat \<Rightarrow> live \<Rightarrow> live option" where
  "jnf_NOT_w E d l =
    (if isconst l d then Some (set_val d (((val_of l d) AND 0xFFFF0000) OR ((NOT (val_of l d)) AND 0xFFFF)) l)
    else do {
      let targetIsReg = (d < 16);
      (d, l) \<leftarrow> rmw E d l;
      let l = emit (if targetIsReg then [MVN_ww REG_WORK1 d, BFI_wwii d REG_WORK1 0 16] else [MVN_ww d d]) l;
      unlock2 d l })"

definition jnf_NOT_l :: "jenv \<Rightarrow> nat \<Rightarrow> live \<Rightarrow> live option" where
  "jnf_NOT_l E d l =
    (if isconst l d then Some (set_val d (NOT (val_of l d)) l)
    else do {
      (d, l) \<leftarrow> rmw E d l;
      let l = emit [MVN_ww d d] l;
      unlock2 d l })"

definition jff_NOT_b :: "jenv \<Rightarrow> nat \<Rightarrow> live \<Rightarrow> live option" where
  "jff_NOT_b E d l =
    do {
      let targetIsReg = (d < 16);
      (d, l) \<leftarrow> rmw E d l;
      let l = emit (SIGNED8_REG_2_REG REG_WORK1 d @ (if targetIsReg then [MVN_ww REG_WORK1 REG_WORK1,
        BFI_wwii d REG_WORK1 0 8, TST_ww REG_WORK1 REG_WORK1] else [MVN_ww d REG_WORK1, TST_ww d d])) l;
      let l = set_carry_inverted False l;
      unlock2 d l }"

definition jff_NOT_w :: "jenv \<Rightarrow> nat \<Rightarrow> live \<Rightarrow> live option" where
  "jff_NOT_w E d l =
    do {
      let targetIsReg = (d < 16);
      (d, l) \<leftarrow> rmw E d l;
      let l = emit (SIGNED16_REG_2_REG REG_WORK1 d @ (if targetIsReg then [MVN_ww REG_WORK1 REG_WORK1,
        BFI_wwii d REG_WORK1 0 16, TST_ww REG_WORK1 REG_WORK1] else [MVN_ww d REG_WORK1, TST_ww d d])) l;
      let l = set_carry_inverted False l;
      unlock2 d l }"

definition jff_NOT_l :: "jenv \<Rightarrow> nat \<Rightarrow> live \<Rightarrow> live option" where
  "jff_NOT_l E d l =
    do {
      (d, l) \<leftarrow> rmw E d l;
      let l = emit [MVN_ww d d, TST_ww d d] l;
      let l = set_carry_inverted False l;
      unlock2 d l }"

definition jff_TST_b_imm :: "jenv \<Rightarrow> u32 \<Rightarrow> live \<Rightarrow> live option" where
  "jff_TST_b_imm E v l =
    do {
      let l = emit (SIGNED8_IMM_2_REG REG_WORK1 (ucast (ucast v :: u8)) @ [TST_ww REG_WORK1 REG_WORK1]) l;
      Some (set_carry_inverted False l) }"

definition jff_TST_b :: "jenv \<Rightarrow> nat \<Rightarrow> live \<Rightarrow> live option" where
  "jff_TST_b E s l =
    (if isconst l s then jff_TST_b_imm E (ucast (val_of l s)) l
    else do {
      (s, l) \<leftarrow> readreg E s l;
      let l = emit (SIGNED8_REG_2_REG REG_WORK1 s) l;
      l \<leftarrow> unlock2 s l;
      let l = emit [TST_ww REG_WORK1 REG_WORK1] l;
      Some (set_carry_inverted False l) })"

definition jff_TST_w_imm :: "jenv \<Rightarrow> u32 \<Rightarrow> live \<Rightarrow> live option" where
  "jff_TST_w_imm E v l =
    do {
      let l = emit (SIGNED16_IMM_2_REG REG_WORK1 (ucast (ucast v :: u16)) @ [TST_ww REG_WORK1 REG_WORK1]) l;
      Some (set_carry_inverted False l) }"

definition jff_TST_w :: "jenv \<Rightarrow> nat \<Rightarrow> live \<Rightarrow> live option" where
  "jff_TST_w E s l =
    (if isconst l s then jff_TST_w_imm E (ucast (val_of l s)) l
    else do {
      (s, l) \<leftarrow> readreg E s l;
      let l = emit (SIGNED16_REG_2_REG REG_WORK1 s) l;
      l \<leftarrow> unlock2 s l;
      let l = emit [TST_ww REG_WORK1 REG_WORK1] l;
      Some (set_carry_inverted False l) })"

definition jff_TST_l_imm :: "jenv \<Rightarrow> u32 \<Rightarrow> live \<Rightarrow> live option" where
  "jff_TST_l_imm E v l =
    do {
      let l = emit (LOAD_U32 REG_WORK1 v @ [TST_ww REG_WORK1 REG_WORK1]) l;
      Some (set_carry_inverted False l) }"

definition jff_TST_l :: "jenv \<Rightarrow> nat \<Rightarrow> live \<Rightarrow> live option" where
  "jff_TST_l E s l =
    (if isconst l s then jff_TST_l_imm E (ucast (val_of l s)) l
    else do {
      (s, l) \<leftarrow> readreg E s l;
      let l = emit [TST_ww s s] l;
      l \<leftarrow> unlock2 s l;
      Some (set_carry_inverted False l) })"

section \<open>Correctness\<close>

lemma jnf_AND_b_imm_ok:
  assumes "ready t E l" "operand d l"
  shows "generates {} t E l (jnf_AND_b_imm E d v l) (l_flags_carry_inverted l)
    (plain_effect d (\<lambda>V. ucast (V d) AND (ucast v :: u8)))"
  unfolding jnf_AND_b_imm_def Let_def
  by (rule plain_imm [OF assms]) (simp_all add: code_simps sext_logical same_low_def)

lemma jnf_AND_b_ok:
  assumes "ready t E l" "operand d l" "operand s l"
  shows "generates {} t E l (jnf_AND_b E d s l) (l_flags_carry_inverted l)
    (plain_effect d (\<lambda>V. ucast (V d) AND (ucast (V s) :: u8)))"
  unfolding jnf_AND_b_def Let_def
  by (rule plain_reg [OF assms _ _ jnf_AND_b_imm_ok [OF assms(1,2)]]) (simp_all add: code_simps sext_logical same_low_def)

lemma jff_AND_b_imm_ok:
  assumes "ready t E l" "operand d l"
  shows "generates {} t E l (jff_AND_b_imm E d v l) False
    (logic_effect False d (\<lambda>V. ucast (V d) AND (ucast v :: u8)))"
  unfolding jff_AND_b_imm_def Let_def
  by (rule op1f [OF assms]) (simp_all add: code_simps sext_logical same_low_def)

lemma jff_AND_b_ok:
  assumes "ready t E l" "operand d l" "operand s l"
  shows "generates {} t E l (jff_AND_b E d s l) False
    (logic_effect False d (\<lambda>V. ucast (V d) AND (ucast (V s) :: u8)))"
  unfolding jff_AND_b_def Let_def
  by (rule logic_reg [OF assms _ _ jff_AND_b_imm_ok [OF assms(1,2)]]) (simp_all add: code_simps sext_logical same_low_def)

lemma jnf_AND_w_imm_ok:
  assumes "ready t E l" "operand d l"
  shows "generates {} t E l (jnf_AND_w_imm E d v l) (l_flags_carry_inverted l)
    (plain_effect d (\<lambda>V. ucast (V d) AND (ucast v :: u16)))"
  unfolding jnf_AND_w_imm_def Let_def
  by (rule plain_imm [OF assms]) (simp_all add: code_simps sext_logical same_low_def)

lemma jnf_AND_w_ok:
  assumes "ready t E l" "operand d l" "operand s l"
  shows "generates {} t E l (jnf_AND_w E d s l) (l_flags_carry_inverted l)
    (plain_effect d (\<lambda>V. ucast (V d) AND (ucast (V s) :: u16)))"
  unfolding jnf_AND_w_def Let_def
  by (rule plain_reg [OF assms _ _ jnf_AND_w_imm_ok [OF assms(1,2)]]) (simp_all add: code_simps sext_logical same_low_def)

lemma jff_AND_w_imm_ok:
  assumes "ready t E l" "operand d l"
  shows "generates {} t E l (jff_AND_w_imm E d v l) False
    (logic_effect False d (\<lambda>V. ucast (V d) AND (ucast v :: u16)))"
  unfolding jff_AND_w_imm_def Let_def
  by (rule op1f [OF assms]) (simp_all add: code_simps sext_logical same_low_def)

lemma jff_AND_w_ok:
  assumes "ready t E l" "operand d l" "operand s l"
  shows "generates {} t E l (jff_AND_w E d s l) False
    (logic_effect False d (\<lambda>V. ucast (V d) AND (ucast (V s) :: u16)))"
  unfolding jff_AND_w_def Let_def
  by (rule logic_reg [OF assms _ _ jff_AND_w_imm_ok [OF assms(1,2)]]) (simp_all add: code_simps sext_logical same_low_def)

lemma jnf_AND_l_imm_ok:
  assumes "ready t E l" "operand d l"
  shows "generates {} t E l (jnf_AND_l_imm E d v l) (l_flags_carry_inverted l)
    (plain_effect d (\<lambda>V. ucast (V d) AND (ucast v :: u32)))"
  unfolding jnf_AND_l_imm_def Let_def
  by (rule plain_imm [OF assms]) (simp_all add: code_simps sext_logical same_low_def)

lemma jnf_AND_l_ok:
  assumes "ready t E l" "operand d l" "operand s l"
  shows "generates {} t E l (jnf_AND_l E d s l) (l_flags_carry_inverted l)
    (plain_effect d (\<lambda>V. ucast (V d) AND (ucast (V s) :: u32)))"
  unfolding jnf_AND_l_def Let_def
  by (rule plain_reg [OF assms _ _ jnf_AND_l_imm_ok [OF assms(1,2)]]) (simp_all add: code_simps sext_logical same_low_def)

lemma jff_AND_l_imm_ok:
  assumes "ready t E l" "operand d l"
  shows "generates {} t E l (jff_AND_l_imm E d v l) False
    (logic_effect False d (\<lambda>V. ucast (V d) AND (ucast v :: u32)))"
  unfolding jff_AND_l_imm_def Let_def
  by (rule op1f [OF assms]) (simp_all add: code_simps sext_logical same_low_def)

lemma jff_AND_l_ok:
  assumes "ready t E l" "operand d l" "operand s l"
  shows "generates {} t E l (jff_AND_l E d s l) False
    (logic_effect False d (\<lambda>V. ucast (V d) AND (ucast (V s) :: u32)))"
  unfolding jff_AND_l_def Let_def
  by (rule logic_reg [OF assms _ _ jff_AND_l_imm_ok [OF assms(1,2)]]) (simp_all add: code_simps sext_logical same_low_def)

lemma jnf_OR_b_imm_ok:
  assumes "ready t E l" "operand d l"
  shows "generates {} t E l (jnf_OR_b_imm E d v l) (l_flags_carry_inverted l)
    (plain_effect d (\<lambda>V. ucast (V d) OR (ucast v :: u8)))"
  unfolding jnf_OR_b_imm_def Let_def
  by (rule plain_imm [OF assms]) (simp_all add: code_simps sext_logical same_low_def)

lemma jnf_OR_b_ok:
  assumes "ready t E l" "operand d l" "operand s l"
  shows "generates {} t E l (jnf_OR_b E d s l) (l_flags_carry_inverted l)
    (plain_effect d (\<lambda>V. ucast (V d) OR (ucast (V s) :: u8)))"
  unfolding jnf_OR_b_def Let_def
  by (rule plain_reg [OF assms _ _ jnf_OR_b_imm_ok [OF assms(1,2)]]) (simp_all add: code_simps sext_logical same_low_def)

lemma jff_OR_b_imm_ok:
  assumes "ready t E l" "operand d l"
  shows "generates {} t E l (jff_OR_b_imm E d v l) False
    (logic_effect False d (\<lambda>V. ucast (V d) OR (ucast v :: u8)))"
  unfolding jff_OR_b_imm_def Let_def
  by (rule op1f [OF assms]) (simp_all add: code_simps sext_logical same_low_def)

lemma jff_OR_b_ok:
  assumes "ready t E l" "operand d l" "operand s l"
  shows "generates {} t E l (jff_OR_b E d s l) False
    (logic_effect False d (\<lambda>V. ucast (V d) OR (ucast (V s) :: u8)))"
  unfolding jff_OR_b_def Let_def
  by (rule logic_reg [OF assms _ _ jff_OR_b_imm_ok [OF assms(1,2)]]) (simp_all add: code_simps sext_logical same_low_def)

lemma jnf_OR_w_imm_ok:
  assumes "ready t E l" "operand d l"
  shows "generates {} t E l (jnf_OR_w_imm E d v l) (l_flags_carry_inverted l)
    (plain_effect d (\<lambda>V. ucast (V d) OR (ucast v :: u16)))"
  unfolding jnf_OR_w_imm_def Let_def
  by (rule plain_imm [OF assms]) (simp_all add: code_simps sext_logical same_low_def)

lemma jnf_OR_w_ok:
  assumes "ready t E l" "operand d l" "operand s l"
  shows "generates {} t E l (jnf_OR_w E d s l) (l_flags_carry_inverted l)
    (plain_effect d (\<lambda>V. ucast (V d) OR (ucast (V s) :: u16)))"
  unfolding jnf_OR_w_def Let_def
  by (rule plain_reg [OF assms _ _ jnf_OR_w_imm_ok [OF assms(1,2)]]) (simp_all add: code_simps sext_logical same_low_def)

lemma jff_OR_w_imm_ok:
  assumes "ready t E l" "operand d l"
  shows "generates {} t E l (jff_OR_w_imm E d v l) False
    (logic_effect False d (\<lambda>V. ucast (V d) OR (ucast v :: u16)))"
  unfolding jff_OR_w_imm_def Let_def
  by (rule op1f [OF assms]) (simp_all add: code_simps sext_logical same_low_def)

lemma jff_OR_w_ok:
  assumes "ready t E l" "operand d l" "operand s l"
  shows "generates {} t E l (jff_OR_w E d s l) False
    (logic_effect False d (\<lambda>V. ucast (V d) OR (ucast (V s) :: u16)))"
  unfolding jff_OR_w_def Let_def
  by (rule logic_reg [OF assms _ _ jff_OR_w_imm_ok [OF assms(1,2)]]) (simp_all add: code_simps sext_logical same_low_def)

lemma jnf_OR_l_imm_ok:
  assumes "ready t E l" "operand d l"
  shows "generates {} t E l (jnf_OR_l_imm E d v l) (l_flags_carry_inverted l)
    (plain_effect d (\<lambda>V. ucast (V d) OR (ucast v :: u32)))"
  unfolding jnf_OR_l_imm_def Let_def
  by (rule plain_imm [OF assms]) (simp_all add: code_simps sext_logical same_low_def)

lemma jnf_OR_l_ok:
  assumes "ready t E l" "operand d l" "operand s l"
  shows "generates {} t E l (jnf_OR_l E d s l) (l_flags_carry_inverted l)
    (plain_effect d (\<lambda>V. ucast (V d) OR (ucast (V s) :: u32)))"
  unfolding jnf_OR_l_def Let_def
  by (rule plain_reg [OF assms _ _ jnf_OR_l_imm_ok [OF assms(1,2)]]) (simp_all add: code_simps sext_logical same_low_def)

lemma jff_OR_l_imm_ok:
  assumes "ready t E l" "operand d l"
  shows "generates {} t E l (jff_OR_l_imm E d v l) False
    (logic_effect False d (\<lambda>V. ucast (V d) OR (ucast v :: u32)))"
  unfolding jff_OR_l_imm_def Let_def
  by (rule op1f [OF assms]) (simp_all add: code_simps sext_logical same_low_def)

lemma jff_OR_l_ok:
  assumes "ready t E l" "operand d l" "operand s l"
  shows "generates {} t E l (jff_OR_l E d s l) False
    (logic_effect False d (\<lambda>V. ucast (V d) OR (ucast (V s) :: u32)))"
  unfolding jff_OR_l_def Let_def
  by (rule logic_reg [OF assms _ _ jff_OR_l_imm_ok [OF assms(1,2)]]) (simp_all add: code_simps sext_logical same_low_def)

lemma jnf_EOR_b_imm_ok:
  assumes "ready t E l" "operand d l"
  shows "generates {} t E l (jnf_EOR_b_imm E d v l) (l_flags_carry_inverted l)
    (plain_effect d (\<lambda>V. ucast (V d) XOR (ucast v :: u8)))"
  unfolding jnf_EOR_b_imm_def Let_def
  by (rule op1 [OF assms]) (simp_all add: code_simps sext_logical same_low_def)

lemma jnf_EOR_b_ok:
  assumes "ready t E l" "operand d l" "operand s l"
  shows "generates {} t E l (jnf_EOR_b E d s l) (l_flags_carry_inverted l)
    (plain_effect d (\<lambda>V. ucast (V d) XOR (ucast (V s) :: u8)))"
  unfolding jnf_EOR_b_def Let_def
  by (rule plain_reg [OF assms _ _ jnf_EOR_b_imm_ok [OF assms(1,2)]]) (simp_all add: code_simps sext_logical same_low_def)

lemma jff_EOR_b_imm_ok:
  assumes "ready t E l" "operand d l"
  shows "generates {} t E l (jff_EOR_b_imm E d v l) False
    (logic_effect False d (\<lambda>V. ucast (V d) XOR (ucast v :: u8)))"
  unfolding jff_EOR_b_imm_def Let_def
  by (rule op1f [OF assms]) (simp_all add: code_simps sext_logical same_low_def)

lemma jff_EOR_b_ok:
  assumes "ready t E l" "operand d l" "operand s l"
  shows "generates {} t E l (jff_EOR_b E d s l) False
    (logic_effect False d (\<lambda>V. ucast (V d) XOR (ucast (V s) :: u8)))"
  unfolding jff_EOR_b_def Let_def
  by (rule logic_reg [OF assms _ _ jff_EOR_b_imm_ok [OF assms(1,2)]]) (simp_all add: code_simps sext_logical same_low_def)

lemma jnf_EOR_w_imm_ok:
  assumes "ready t E l" "operand d l"
  shows "generates {} t E l (jnf_EOR_w_imm E d v l) (l_flags_carry_inverted l)
    (plain_effect d (\<lambda>V. ucast (V d) XOR (ucast v :: u16)))"
  unfolding jnf_EOR_w_imm_def Let_def
  by (rule op1 [OF assms]) (simp_all add: code_simps sext_logical same_low_def)

lemma jnf_EOR_w_ok:
  assumes "ready t E l" "operand d l" "operand s l"
  shows "generates {} t E l (jnf_EOR_w E d s l) (l_flags_carry_inverted l)
    (plain_effect d (\<lambda>V. ucast (V d) XOR (ucast (V s) :: u16)))"
  unfolding jnf_EOR_w_def Let_def
  by (rule plain_reg [OF assms _ _ jnf_EOR_w_imm_ok [OF assms(1,2)]]) (simp_all add: code_simps sext_logical same_low_def)

lemma jff_EOR_w_imm_ok:
  assumes "ready t E l" "operand d l"
  shows "generates {} t E l (jff_EOR_w_imm E d v l) False
    (logic_effect False d (\<lambda>V. ucast (V d) XOR (ucast v :: u16)))"
  unfolding jff_EOR_w_imm_def Let_def
  by (rule op1f [OF assms]) (simp_all add: code_simps sext_logical same_low_def)

lemma jff_EOR_w_ok:
  assumes "ready t E l" "operand d l" "operand s l"
  shows "generates {} t E l (jff_EOR_w E d s l) False
    (logic_effect False d (\<lambda>V. ucast (V d) XOR (ucast (V s) :: u16)))"
  unfolding jff_EOR_w_def Let_def
  by (rule logic_reg [OF assms _ _ jff_EOR_w_imm_ok [OF assms(1,2)]]) (simp_all add: code_simps sext_logical same_low_def)

lemma jnf_EOR_l_imm_ok:
  assumes "ready t E l" "operand d l"
  shows "generates {} t E l (jnf_EOR_l_imm E d v l) (l_flags_carry_inverted l)
    (plain_effect d (\<lambda>V. ucast (V d) XOR (ucast v :: u32)))"
  unfolding jnf_EOR_l_imm_def Let_def
  by (rule plain_imm [OF assms]) (simp_all add: code_simps sext_logical same_low_def)

lemma jnf_EOR_l_ok:
  assumes "ready t E l" "operand d l" "operand s l"
  shows "generates {} t E l (jnf_EOR_l E d s l) (l_flags_carry_inverted l)
    (plain_effect d (\<lambda>V. ucast (V d) XOR (ucast (V s) :: u32)))"
  unfolding jnf_EOR_l_def Let_def
  by (rule plain_reg [OF assms _ _ jnf_EOR_l_imm_ok [OF assms(1,2)]]) (simp_all add: code_simps sext_logical same_low_def)

lemma jff_EOR_l_imm_ok:
  assumes "ready t E l" "operand d l"
  shows "generates {} t E l (jff_EOR_l_imm E d v l) False
    (logic_effect False d (\<lambda>V. ucast (V d) XOR (ucast v :: u32)))"
  unfolding jff_EOR_l_imm_def Let_def
  by (rule op1f [OF assms]) (simp_all add: code_simps sext_logical same_low_def)

lemma jff_EOR_l_ok:
  assumes "ready t E l" "operand d l" "operand s l"
  shows "generates {} t E l (jff_EOR_l E d s l) False
    (logic_effect False d (\<lambda>V. ucast (V d) XOR (ucast (V s) :: u32)))"
  unfolding jff_EOR_l_def Let_def
  by (rule logic_reg [OF assms _ _ jff_EOR_l_imm_ok [OF assms(1,2)]]) (simp_all add: code_simps sext_logical same_low_def)

lemma jnf_NOT_b_ok:
  assumes "ready t E l" "operand d l"
  shows "generates {} t E l (jnf_NOT_b E d l) (l_flags_carry_inverted l)
    (plain_effect d (\<lambda>V. NOT (ucast (V d) :: u8)))"
  unfolding jnf_NOT_b_def Let_def
  by (rule plain_imm [OF assms]) (simp_all add: code_simps sext_logical same_low_def)

lemma jff_NOT_b_ok:
  assumes "ready t E l" "operand d l"
  shows "generates {} t E l (jff_NOT_b E d l) False
    (logic_effect False d (\<lambda>V. NOT (ucast (V d) :: u8)))"
  unfolding jff_NOT_b_def Let_def
  by (rule op1f [OF assms]) (simp_all add: code_simps sext_logical same_low_def)

lemma jnf_NOT_w_ok:
  assumes "ready t E l" "operand d l"
  shows "generates {} t E l (jnf_NOT_w E d l) (l_flags_carry_inverted l)
    (plain_effect d (\<lambda>V. NOT (ucast (V d) :: u16)))"
  unfolding jnf_NOT_w_def Let_def
  by (rule plain_imm [OF assms]) (simp_all add: code_simps sext_logical same_low_def)

lemma jff_NOT_w_ok:
  assumes "ready t E l" "operand d l"
  shows "generates {} t E l (jff_NOT_w E d l) False
    (logic_effect False d (\<lambda>V. NOT (ucast (V d) :: u16)))"
  unfolding jff_NOT_w_def Let_def
  by (rule op1f [OF assms]) (simp_all add: code_simps sext_logical same_low_def)

lemma jnf_NOT_l_ok:
  assumes "ready t E l" "operand d l"
  shows "generates {} t E l (jnf_NOT_l E d l) (l_flags_carry_inverted l)
    (plain_effect d (\<lambda>V. NOT (ucast (V d) :: u32)))"
  unfolding jnf_NOT_l_def Let_def
  by (rule plain_imm [OF assms]) (simp_all add: code_simps sext_logical same_low_def)

lemma jff_NOT_l_ok:
  assumes "ready t E l" "operand d l"
  shows "generates {} t E l (jff_NOT_l E d l) False
    (logic_effect False d (\<lambda>V. NOT (ucast (V d) :: u32)))"
  unfolding jff_NOT_l_def Let_def
  by (rule op1f [OF assms]) (simp_all add: code_simps sext_logical same_low_def)

lemma jff_TST_b_imm_ok:
  assumes "ready t E l"
  shows "generates {} t E l (jff_TST_b_imm E v l) False
    (compare_effect False (\<lambda>V. flag_logical (ucast v :: u8)))"
  unfolding jff_TST_b_imm_def Let_def
  by (rule op0 [OF assms]) (simp_all add: code_simps sext_logical same_low_def)

lemma jff_TST_b_ok:
  assumes "ready t E l" "operand s l"
  shows "generates {} t E l (jff_TST_b E s l) False
    (compare_effect False (\<lambda>V. flag_logical (ucast (V s) :: u8)))"
  unfolding jff_TST_b_def Let_def join_simps
  by (rule generates_ifI [OF const_effect(4) [OF _ assms(2) jff_TST_b_imm_ok [OF assms(1)]] rop1f [OF assms]])
    (simp_all add: code_simps sext_logical same_low_def)

lemma jff_TST_w_imm_ok:
  assumes "ready t E l"
  shows "generates {} t E l (jff_TST_w_imm E v l) False
    (compare_effect False (\<lambda>V. flag_logical (ucast v :: u16)))"
  unfolding jff_TST_w_imm_def Let_def
  by (rule op0 [OF assms]) (simp_all add: code_simps sext_logical same_low_def)

lemma jff_TST_w_ok:
  assumes "ready t E l" "operand s l"
  shows "generates {} t E l (jff_TST_w E s l) False
    (compare_effect False (\<lambda>V. flag_logical (ucast (V s) :: u16)))"
  unfolding jff_TST_w_def Let_def join_simps
  by (rule generates_ifI [OF const_effect(4) [OF _ assms(2) jff_TST_w_imm_ok [OF assms(1)]] rop1f [OF assms]])
    (simp_all add: code_simps sext_logical same_low_def)

lemma jff_TST_l_imm_ok:
  assumes "ready t E l"
  shows "generates {} t E l (jff_TST_l_imm E v l) False
    (compare_effect False (\<lambda>V. flag_logical (ucast v :: u32)))"
  unfolding jff_TST_l_imm_def Let_def
  by (rule op0 [OF assms]) (simp_all add: code_simps sext_logical same_low_def)

lemma jff_TST_l_ok:
  assumes "ready t E l" "operand s l"
  shows "generates {} t E l (jff_TST_l E s l) False
    (compare_effect False (\<lambda>V. flag_logical (ucast (V s) :: u32)))"
  unfolding jff_TST_l_def Let_def join_simps
  by (rule generates_ifI [OF const_effect(4) [OF _ assms(2) jff_TST_l_imm_ok [OF assms(1)]] rop1f [OF assms]])
    (simp_all add: code_simps sext_logical same_low_def)


end
