(* ===== verification/Op_Logic.thy ===== *)
theory Op_Logic
  imports Jit_Scratch Jit_Logic
begin

unbundle bit_operations_syntax

text \<open>
  The opcode translators of compemu_arm.cpp for OR, AND, EOR, NOT and TST on registers and immediate
  operands, in the variants with and without condition codes, each with the lemma that its code does
  what the interpreter's instruction does.
\<close>

section \<open>The translators\<close>

definition op_0_0_comp_ff :: compop_func where
  "op_0_0_comp_ff H E opcode l = do {
     let dstreg = unat (opcode AND 7); let l = add_pc_offset 2 l;
     let src = (scast (comp_get_ibyte H l (l_m68k_pc_offset l)) :: u32); let l = add_pc_offset 2 l;
     let dst = dstreg; let l = dont_care_flags l; l \<leftarrow> jff_OR_b_imm E dst src l;
     let l = live_flags l; end_inst E l }"

definition op_40_0_comp_ff :: compop_func where
  "op_40_0_comp_ff H E opcode l = do {
     let dstreg = unat (opcode AND 7); let l = add_pc_offset 2 l;
     let src = (scast (comp_get_iword H l (l_m68k_pc_offset l)) :: u32); let l = add_pc_offset 2 l;
     let dst = dstreg; let l = dont_care_flags l; l \<leftarrow> jff_OR_w_imm E dst src l;
     let l = live_flags l; end_inst E l }"

definition op_80_0_comp_ff :: compop_func where
  "op_80_0_comp_ff H E opcode l = do {
     let dstreg = unat (opcode AND 7); let l = add_pc_offset 2 l;
     let src = comp_get_ilong H l (l_m68k_pc_offset l); let l = add_pc_offset 4 l; let dst = dstreg;
     let l = dont_care_flags l; l \<leftarrow> jff_OR_l_imm E dst src l; let l = live_flags l;
     end_inst E l }"

definition op_200_0_comp_ff :: compop_func where
  "op_200_0_comp_ff H E opcode l = do {
     let dstreg = unat (opcode AND 7); let l = add_pc_offset 2 l;
     let src = (scast (comp_get_ibyte H l (l_m68k_pc_offset l)) :: u32); let l = add_pc_offset 2 l;
     let dst = dstreg; let l = dont_care_flags l; l \<leftarrow> jff_AND_b_imm E dst src l;
     let l = live_flags l; end_inst E l }"

definition op_240_0_comp_ff :: compop_func where
  "op_240_0_comp_ff H E opcode l = do {
     let dstreg = unat (opcode AND 7); let l = add_pc_offset 2 l;
     let src = (scast (comp_get_iword H l (l_m68k_pc_offset l)) :: u32); let l = add_pc_offset 2 l;
     let dst = dstreg; let l = dont_care_flags l; l \<leftarrow> jff_AND_w_imm E dst src l;
     let l = live_flags l; end_inst E l }"

definition op_280_0_comp_ff :: compop_func where
  "op_280_0_comp_ff H E opcode l = do {
     let dstreg = unat (opcode AND 7); let l = add_pc_offset 2 l;
     let src = comp_get_ilong H l (l_m68k_pc_offset l); let l = add_pc_offset 4 l; let dst = dstreg;
     let l = dont_care_flags l; l \<leftarrow> jff_AND_l_imm E dst src l; let l = live_flags l;
     end_inst E l }"

definition op_a00_0_comp_ff :: compop_func where
  "op_a00_0_comp_ff H E opcode l = do {
     let dstreg = unat (opcode AND 7); let l = add_pc_offset 2 l;
     let src = (scast (comp_get_ibyte H l (l_m68k_pc_offset l)) :: u32); let l = add_pc_offset 2 l;
     let dst = dstreg; let l = dont_care_flags l; l \<leftarrow> jff_EOR_b_imm E dst src l;
     let l = live_flags l; end_inst E l }"

definition op_a40_0_comp_ff :: compop_func where
  "op_a40_0_comp_ff H E opcode l = do {
     let dstreg = unat (opcode AND 7); let l = add_pc_offset 2 l;
     let src = (scast (comp_get_iword H l (l_m68k_pc_offset l)) :: u32); let l = add_pc_offset 2 l;
     let dst = dstreg; let l = dont_care_flags l; l \<leftarrow> jff_EOR_w_imm E dst src l;
     let l = live_flags l; end_inst E l }"

definition op_a80_0_comp_ff :: compop_func where
  "op_a80_0_comp_ff H E opcode l = do {
     let dstreg = unat (opcode AND 7); let l = add_pc_offset 2 l;
     let src = comp_get_ilong H l (l_m68k_pc_offset l); let l = add_pc_offset 4 l; let dst = dstreg;
     let l = dont_care_flags l; l \<leftarrow> jff_EOR_l_imm E dst src l; let l = live_flags l;
     end_inst E l }"

definition op_4600_0_comp_ff :: compop_func where
  "op_4600_0_comp_ff H E opcode l = do {
     let srcreg = unat (opcode AND 7); let l = add_pc_offset 2 l; let src = srcreg;
     let l = dont_care_flags l; l \<leftarrow> jff_NOT_b E src l; let l = live_flags l; end_inst E l }"

definition op_4640_0_comp_ff :: compop_func where
  "op_4640_0_comp_ff H E opcode l = do {
     let srcreg = unat (opcode AND 7); let l = add_pc_offset 2 l; let src = srcreg;
     let l = dont_care_flags l; l \<leftarrow> jff_NOT_w E src l; let l = live_flags l; end_inst E l }"

definition op_4680_0_comp_ff :: compop_func where
  "op_4680_0_comp_ff H E opcode l = do {
     let srcreg = unat (opcode AND 7); let l = add_pc_offset 2 l; let src = srcreg;
     let l = dont_care_flags l; l \<leftarrow> jff_NOT_l E src l; let l = live_flags l; end_inst E l }"

definition op_4a00_0_comp_ff :: compop_func where
  "op_4a00_0_comp_ff H E opcode l = do {
     let srcreg = unat (opcode AND 7); let l = add_pc_offset 2 l; let src = srcreg;
     let l = dont_care_flags l; l \<leftarrow> jff_TST_b E src l; let l = live_flags l; end_inst E l }"

definition op_4a3c_0_comp_ff :: compop_func where
  "op_4a3c_0_comp_ff H E opcode l = do {
     let l = add_pc_offset 2 l; (src, l) \<leftarrow> alloc_scratch l;
     let val = scast (comp_get_ibyte H l (l_m68k_pc_offset l)); let l = add_pc_offset 2 l;
     l \<leftarrow> mov_l_ri E src (ucast (val :: u32)) l; let l = dont_care_flags l;
     l \<leftarrow> jff_TST_b E src l; let l = live_flags l; end_inst E l }"

definition op_4a40_0_comp_ff :: compop_func where
  "op_4a40_0_comp_ff H E opcode l = do {
     let srcreg = unat (opcode AND 7); let l = add_pc_offset 2 l; let src = srcreg;
     let l = dont_care_flags l; l \<leftarrow> jff_TST_w E src l; let l = live_flags l; end_inst E l }"

definition op_4a48_0_comp_ff :: compop_func where
  "op_4a48_0_comp_ff H E opcode l = do {
     let srcreg = unat (opcode AND 7); let l = add_pc_offset 2 l; let src = srcreg + 8;
     let l = dont_care_flags l; l \<leftarrow> jff_TST_w E src l; let l = live_flags l; end_inst E l }"

definition op_4a7c_0_comp_ff :: compop_func where
  "op_4a7c_0_comp_ff H E opcode l = do {
     let l = add_pc_offset 2 l; (src, l) \<leftarrow> alloc_scratch l;
     let val = scast (comp_get_iword H l (l_m68k_pc_offset l)); let l = add_pc_offset 2 l;
     l \<leftarrow> mov_l_ri E src (ucast (val :: u32)) l; let l = dont_care_flags l;
     l \<leftarrow> jff_TST_w E src l; let l = live_flags l; end_inst E l }"

definition op_4a80_0_comp_ff :: compop_func where
  "op_4a80_0_comp_ff H E opcode l = do {
     let srcreg = unat (opcode AND 7); let l = add_pc_offset 2 l; let src = srcreg;
     let l = dont_care_flags l; l \<leftarrow> jff_TST_l E src l; let l = live_flags l; end_inst E l }"

definition op_4a88_0_comp_ff :: compop_func where
  "op_4a88_0_comp_ff H E opcode l = do {
     let srcreg = unat (opcode AND 7); let l = add_pc_offset 2 l; let src = srcreg + 8;
     let l = dont_care_flags l; l \<leftarrow> jff_TST_l E src l; let l = live_flags l; end_inst E l }"

definition op_4abc_0_comp_ff :: compop_func where
  "op_4abc_0_comp_ff H E opcode l = do {
     let l = add_pc_offset 2 l; (src, l) \<leftarrow> alloc_scratch l;
     let val = comp_get_ilong H l (l_m68k_pc_offset l); let l = add_pc_offset 4 l;
     l \<leftarrow> mov_l_ri E src (ucast (val :: u32)) l; let l = dont_care_flags l;
     l \<leftarrow> jff_TST_l E src l; let l = live_flags l; end_inst E l }"

definition op_8000_0_comp_ff :: compop_func where
  "op_8000_0_comp_ff H E opcode l = do {
     let srcreg = unat (opcode AND 7); let dstreg = unat (drop_bit 9 opcode AND 7);
     let l = add_pc_offset 2 l; let src = srcreg; let dst = dstreg; let l = dont_care_flags l;
     l \<leftarrow> jff_OR_b E dst src l; let l = live_flags l; end_inst E l }"

definition op_803c_0_comp_ff :: compop_func where
  "op_803c_0_comp_ff H E opcode l = do {
     let dstreg = unat (drop_bit 9 opcode AND 7); let l = add_pc_offset 2 l;
     let src = (scast (comp_get_ibyte H l (l_m68k_pc_offset l)) :: u32); let l = add_pc_offset 2 l;
     let dst = dstreg; let l = dont_care_flags l; l \<leftarrow> jff_OR_b_imm E dst src l;
     let l = live_flags l; end_inst E l }"

definition op_8040_0_comp_ff :: compop_func where
  "op_8040_0_comp_ff H E opcode l = do {
     let srcreg = unat (opcode AND 7); let dstreg = unat (drop_bit 9 opcode AND 7);
     let l = add_pc_offset 2 l; let src = srcreg; let dst = dstreg; let l = dont_care_flags l;
     l \<leftarrow> jff_OR_w E dst src l; let l = live_flags l; end_inst E l }"

definition op_807c_0_comp_ff :: compop_func where
  "op_807c_0_comp_ff H E opcode l = do {
     let dstreg = unat (drop_bit 9 opcode AND 7); let l = add_pc_offset 2 l;
     let src = (scast (comp_get_iword H l (l_m68k_pc_offset l)) :: u32); let l = add_pc_offset 2 l;
     let dst = dstreg; let l = dont_care_flags l; l \<leftarrow> jff_OR_w_imm E dst src l;
     let l = live_flags l; end_inst E l }"

definition op_8080_0_comp_ff :: compop_func where
  "op_8080_0_comp_ff H E opcode l = do {
     let srcreg = unat (opcode AND 7); let dstreg = unat (drop_bit 9 opcode AND 7);
     let l = add_pc_offset 2 l; let src = srcreg; let dst = dstreg; let l = dont_care_flags l;
     l \<leftarrow> jff_OR_l E dst src l; let l = live_flags l; end_inst E l }"

definition op_80bc_0_comp_ff :: compop_func where
  "op_80bc_0_comp_ff H E opcode l = do {
     let dstreg = unat (drop_bit 9 opcode AND 7); let l = add_pc_offset 2 l;
     let src = comp_get_ilong H l (l_m68k_pc_offset l); let l = add_pc_offset 4 l; let dst = dstreg;
     let l = dont_care_flags l; l \<leftarrow> jff_OR_l_imm E dst src l; let l = live_flags l;
     end_inst E l }"

definition op_b100_0_comp_ff :: compop_func where
  "op_b100_0_comp_ff H E opcode l = do {
     let srcreg = unat (drop_bit 9 opcode AND 7); let dstreg = unat (opcode AND 7);
     let l = add_pc_offset 2 l; let src = srcreg; let dst = dstreg; let l = dont_care_flags l;
     l \<leftarrow> jff_EOR_b E dst src l; let l = live_flags l; end_inst E l }"

definition op_b140_0_comp_ff :: compop_func where
  "op_b140_0_comp_ff H E opcode l = do {
     let srcreg = unat (drop_bit 9 opcode AND 7); let dstreg = unat (opcode AND 7);
     let l = add_pc_offset 2 l; let src = srcreg; let dst = dstreg; let l = dont_care_flags l;
     l \<leftarrow> jff_EOR_w E dst src l; let l = live_flags l; end_inst E l }"

definition op_b180_0_comp_ff :: compop_func where
  "op_b180_0_comp_ff H E opcode l = do {
     let srcreg = unat (drop_bit 9 opcode AND 7); let dstreg = unat (opcode AND 7);
     let l = add_pc_offset 2 l; let src = srcreg; let dst = dstreg; let l = dont_care_flags l;
     l \<leftarrow> jff_EOR_l E dst src l; let l = live_flags l; end_inst E l }"

definition op_c000_0_comp_ff :: compop_func where
  "op_c000_0_comp_ff H E opcode l = do {
     let srcreg = unat (opcode AND 7); let dstreg = unat (drop_bit 9 opcode AND 7);
     let l = add_pc_offset 2 l; let src = srcreg; let dst = dstreg; let l = dont_care_flags l;
     l \<leftarrow> jff_AND_b E dst src l; let l = live_flags l; end_inst E l }"

definition op_c03c_0_comp_ff :: compop_func where
  "op_c03c_0_comp_ff H E opcode l = do {
     let dstreg = unat (drop_bit 9 opcode AND 7); let l = add_pc_offset 2 l;
     let src = (scast (comp_get_ibyte H l (l_m68k_pc_offset l)) :: u32); let l = add_pc_offset 2 l;
     let dst = dstreg; let l = dont_care_flags l; l \<leftarrow> jff_AND_b_imm E dst src l;
     let l = live_flags l; end_inst E l }"

definition op_c040_0_comp_ff :: compop_func where
  "op_c040_0_comp_ff H E opcode l = do {
     let srcreg = unat (opcode AND 7); let dstreg = unat (drop_bit 9 opcode AND 7);
     let l = add_pc_offset 2 l; let src = srcreg; let dst = dstreg; let l = dont_care_flags l;
     l \<leftarrow> jff_AND_w E dst src l; let l = live_flags l; end_inst E l }"

definition op_c07c_0_comp_ff :: compop_func where
  "op_c07c_0_comp_ff H E opcode l = do {
     let dstreg = unat (drop_bit 9 opcode AND 7); let l = add_pc_offset 2 l;
     let src = (scast (comp_get_iword H l (l_m68k_pc_offset l)) :: u32); let l = add_pc_offset 2 l;
     let dst = dstreg; let l = dont_care_flags l; l \<leftarrow> jff_AND_w_imm E dst src l;
     let l = live_flags l; end_inst E l }"

definition op_c080_0_comp_ff :: compop_func where
  "op_c080_0_comp_ff H E opcode l = do {
     let srcreg = unat (opcode AND 7); let dstreg = unat (drop_bit 9 opcode AND 7);
     let l = add_pc_offset 2 l; let src = srcreg; let dst = dstreg; let l = dont_care_flags l;
     l \<leftarrow> jff_AND_l E dst src l; let l = live_flags l; end_inst E l }"

definition op_c0bc_0_comp_ff :: compop_func where
  "op_c0bc_0_comp_ff H E opcode l = do {
     let dstreg = unat (drop_bit 9 opcode AND 7); let l = add_pc_offset 2 l;
     let src = comp_get_ilong H l (l_m68k_pc_offset l); let l = add_pc_offset 4 l; let dst = dstreg;
     let l = dont_care_flags l; l \<leftarrow> jff_AND_l_imm E dst src l; let l = live_flags l;
     end_inst E l }"

definition op_0_0_comp_nf :: compop_func where
  "op_0_0_comp_nf H E opcode l = do {
     let dstreg = unat (opcode AND 7); let l = add_pc_offset 2 l;
     let src = (scast (comp_get_ibyte H l (l_m68k_pc_offset l)) :: u32); let l = add_pc_offset 2 l;
     let dst = dstreg; let l = dont_care_flags l; l \<leftarrow> jnf_OR_b_imm E dst src l; end_inst E l }"

definition op_40_0_comp_nf :: compop_func where
  "op_40_0_comp_nf H E opcode l = do {
     let dstreg = unat (opcode AND 7); let l = add_pc_offset 2 l;
     let src = (scast (comp_get_iword H l (l_m68k_pc_offset l)) :: u32); let l = add_pc_offset 2 l;
     let dst = dstreg; let l = dont_care_flags l; l \<leftarrow> jnf_OR_w_imm E dst src l; end_inst E l }"

definition op_80_0_comp_nf :: compop_func where
  "op_80_0_comp_nf H E opcode l = do {
     let dstreg = unat (opcode AND 7); let l = add_pc_offset 2 l;
     let src = comp_get_ilong H l (l_m68k_pc_offset l); let l = add_pc_offset 4 l; let dst = dstreg;
     let l = dont_care_flags l; l \<leftarrow> jnf_OR_l_imm E dst src l; end_inst E l }"

definition op_200_0_comp_nf :: compop_func where
  "op_200_0_comp_nf H E opcode l = do {
     let dstreg = unat (opcode AND 7); let l = add_pc_offset 2 l;
     let src = (scast (comp_get_ibyte H l (l_m68k_pc_offset l)) :: u32); let l = add_pc_offset 2 l;
     let dst = dstreg; let l = dont_care_flags l; l \<leftarrow> jnf_AND_b_imm E dst src l; end_inst E l }"

definition op_240_0_comp_nf :: compop_func where
  "op_240_0_comp_nf H E opcode l = do {
     let dstreg = unat (opcode AND 7); let l = add_pc_offset 2 l;
     let src = (scast (comp_get_iword H l (l_m68k_pc_offset l)) :: u32); let l = add_pc_offset 2 l;
     let dst = dstreg; let l = dont_care_flags l; l \<leftarrow> jnf_AND_w_imm E dst src l; end_inst E l }"

definition op_280_0_comp_nf :: compop_func where
  "op_280_0_comp_nf H E opcode l = do {
     let dstreg = unat (opcode AND 7); let l = add_pc_offset 2 l;
     let src = comp_get_ilong H l (l_m68k_pc_offset l); let l = add_pc_offset 4 l; let dst = dstreg;
     let l = dont_care_flags l; l \<leftarrow> jnf_AND_l_imm E dst src l; end_inst E l }"

definition op_a00_0_comp_nf :: compop_func where
  "op_a00_0_comp_nf H E opcode l = do {
     let dstreg = unat (opcode AND 7); let l = add_pc_offset 2 l;
     let src = (scast (comp_get_ibyte H l (l_m68k_pc_offset l)) :: u32); let l = add_pc_offset 2 l;
     let dst = dstreg; let l = dont_care_flags l; l \<leftarrow> jnf_EOR_b_imm E dst src l; end_inst E l }"

definition op_a40_0_comp_nf :: compop_func where
  "op_a40_0_comp_nf H E opcode l = do {
     let dstreg = unat (opcode AND 7); let l = add_pc_offset 2 l;
     let src = (scast (comp_get_iword H l (l_m68k_pc_offset l)) :: u32); let l = add_pc_offset 2 l;
     let dst = dstreg; let l = dont_care_flags l; l \<leftarrow> jnf_EOR_w_imm E dst src l; end_inst E l }"

definition op_a80_0_comp_nf :: compop_func where
  "op_a80_0_comp_nf H E opcode l = do {
     let dstreg = unat (opcode AND 7); let l = add_pc_offset 2 l;
     let src = comp_get_ilong H l (l_m68k_pc_offset l); let l = add_pc_offset 4 l; let dst = dstreg;
     let l = dont_care_flags l; l \<leftarrow> jnf_EOR_l_imm E dst src l; end_inst E l }"

definition op_4600_0_comp_nf :: compop_func where
  "op_4600_0_comp_nf H E opcode l = do {
     let srcreg = unat (opcode AND 7); let l = add_pc_offset 2 l; let src = srcreg;
     let l = dont_care_flags l; l \<leftarrow> jnf_NOT_b E src l; end_inst E l }"

definition op_4640_0_comp_nf :: compop_func where
  "op_4640_0_comp_nf H E opcode l = do {
     let srcreg = unat (opcode AND 7); let l = add_pc_offset 2 l; let src = srcreg;
     let l = dont_care_flags l; l \<leftarrow> jnf_NOT_w E src l; end_inst E l }"

definition op_4680_0_comp_nf :: compop_func where
  "op_4680_0_comp_nf H E opcode l = do {
     let srcreg = unat (opcode AND 7); let l = add_pc_offset 2 l; let src = srcreg;
     let l = dont_care_flags l; l \<leftarrow> jnf_NOT_l E src l; end_inst E l }"

definition op_4a00_0_comp_nf :: compop_func where
  "op_4a00_0_comp_nf H E opcode l = do {
     let srcreg = unat (opcode AND 7); let l = add_pc_offset 2 l; let src = srcreg;
     let l = dont_care_flags l; end_inst E l }"

definition op_4a3c_0_comp_nf :: compop_func where
  "op_4a3c_0_comp_nf H E opcode l = do {
     let l = add_pc_offset 2 l; (src, l) \<leftarrow> alloc_scratch l;
     let val = scast (comp_get_ibyte H l (l_m68k_pc_offset l)); let l = add_pc_offset 2 l;
     l \<leftarrow> mov_l_ri E src (ucast (val :: u32)) l; let l = dont_care_flags l; end_inst E l }"

definition op_4a40_0_comp_nf :: compop_func where
  "op_4a40_0_comp_nf H E opcode l = do {
     let srcreg = unat (opcode AND 7); let l = add_pc_offset 2 l; let src = srcreg;
     let l = dont_care_flags l; end_inst E l }"

definition op_4a48_0_comp_nf :: compop_func where
  "op_4a48_0_comp_nf H E opcode l = do {
     let srcreg = unat (opcode AND 7); let l = add_pc_offset 2 l; let src = srcreg + 8;
     let l = dont_care_flags l; end_inst E l }"

definition op_4a7c_0_comp_nf :: compop_func where
  "op_4a7c_0_comp_nf H E opcode l = do {
     let l = add_pc_offset 2 l; (src, l) \<leftarrow> alloc_scratch l;
     let val = scast (comp_get_iword H l (l_m68k_pc_offset l)); let l = add_pc_offset 2 l;
     l \<leftarrow> mov_l_ri E src (ucast (val :: u32)) l; let l = dont_care_flags l; end_inst E l }"

definition op_4a80_0_comp_nf :: compop_func where
  "op_4a80_0_comp_nf H E opcode l = do {
     let srcreg = unat (opcode AND 7); let l = add_pc_offset 2 l; let src = srcreg;
     let l = dont_care_flags l; end_inst E l }"

definition op_4a88_0_comp_nf :: compop_func where
  "op_4a88_0_comp_nf H E opcode l = do {
     let srcreg = unat (opcode AND 7); let l = add_pc_offset 2 l; let src = srcreg + 8;
     let l = dont_care_flags l; end_inst E l }"

definition op_4abc_0_comp_nf :: compop_func where
  "op_4abc_0_comp_nf H E opcode l = do {
     let l = add_pc_offset 2 l; (src, l) \<leftarrow> alloc_scratch l;
     let val = comp_get_ilong H l (l_m68k_pc_offset l); let l = add_pc_offset 4 l;
     l \<leftarrow> mov_l_ri E src (ucast (val :: u32)) l; let l = dont_care_flags l; end_inst E l }"

definition op_8000_0_comp_nf :: compop_func where
  "op_8000_0_comp_nf H E opcode l = do {
     let srcreg = unat (opcode AND 7); let dstreg = unat (drop_bit 9 opcode AND 7);
     let l = add_pc_offset 2 l; let src = srcreg; let dst = dstreg; let l = dont_care_flags l;
     l \<leftarrow> jnf_OR_b E dst src l; end_inst E l }"

definition op_803c_0_comp_nf :: compop_func where
  "op_803c_0_comp_nf H E opcode l = do {
     let dstreg = unat (drop_bit 9 opcode AND 7); let l = add_pc_offset 2 l;
     let src = (scast (comp_get_ibyte H l (l_m68k_pc_offset l)) :: u32); let l = add_pc_offset 2 l;
     let dst = dstreg; let l = dont_care_flags l; l \<leftarrow> jnf_OR_b_imm E dst src l; end_inst E l }"

definition op_8040_0_comp_nf :: compop_func where
  "op_8040_0_comp_nf H E opcode l = do {
     let srcreg = unat (opcode AND 7); let dstreg = unat (drop_bit 9 opcode AND 7);
     let l = add_pc_offset 2 l; let src = srcreg; let dst = dstreg; let l = dont_care_flags l;
     l \<leftarrow> jnf_OR_w E dst src l; end_inst E l }"

definition op_807c_0_comp_nf :: compop_func where
  "op_807c_0_comp_nf H E opcode l = do {
     let dstreg = unat (drop_bit 9 opcode AND 7); let l = add_pc_offset 2 l;
     let src = (scast (comp_get_iword H l (l_m68k_pc_offset l)) :: u32); let l = add_pc_offset 2 l;
     let dst = dstreg; let l = dont_care_flags l; l \<leftarrow> jnf_OR_w_imm E dst src l; end_inst E l }"

definition op_8080_0_comp_nf :: compop_func where
  "op_8080_0_comp_nf H E opcode l = do {
     let srcreg = unat (opcode AND 7); let dstreg = unat (drop_bit 9 opcode AND 7);
     let l = add_pc_offset 2 l; let src = srcreg; let dst = dstreg; let l = dont_care_flags l;
     l \<leftarrow> jnf_OR_l E dst src l; end_inst E l }"

definition op_80bc_0_comp_nf :: compop_func where
  "op_80bc_0_comp_nf H E opcode l = do {
     let dstreg = unat (drop_bit 9 opcode AND 7); let l = add_pc_offset 2 l;
     let src = comp_get_ilong H l (l_m68k_pc_offset l); let l = add_pc_offset 4 l; let dst = dstreg;
     let l = dont_care_flags l; l \<leftarrow> jnf_OR_l_imm E dst src l; end_inst E l }"

definition op_b100_0_comp_nf :: compop_func where
  "op_b100_0_comp_nf H E opcode l = do {
     let srcreg = unat (drop_bit 9 opcode AND 7); let dstreg = unat (opcode AND 7);
     let l = add_pc_offset 2 l; let src = srcreg; let dst = dstreg; let l = dont_care_flags l;
     l \<leftarrow> jnf_EOR_b E dst src l; end_inst E l }"

definition op_b140_0_comp_nf :: compop_func where
  "op_b140_0_comp_nf H E opcode l = do {
     let srcreg = unat (drop_bit 9 opcode AND 7); let dstreg = unat (opcode AND 7);
     let l = add_pc_offset 2 l; let src = srcreg; let dst = dstreg; let l = dont_care_flags l;
     l \<leftarrow> jnf_EOR_w E dst src l; end_inst E l }"

definition op_b180_0_comp_nf :: compop_func where
  "op_b180_0_comp_nf H E opcode l = do {
     let srcreg = unat (drop_bit 9 opcode AND 7); let dstreg = unat (opcode AND 7);
     let l = add_pc_offset 2 l; let src = srcreg; let dst = dstreg; let l = dont_care_flags l;
     l \<leftarrow> jnf_EOR_l E dst src l; end_inst E l }"

definition op_c000_0_comp_nf :: compop_func where
  "op_c000_0_comp_nf H E opcode l = do {
     let srcreg = unat (opcode AND 7); let dstreg = unat (drop_bit 9 opcode AND 7);
     let l = add_pc_offset 2 l; let src = srcreg; let dst = dstreg; let l = dont_care_flags l;
     l \<leftarrow> jnf_AND_b E dst src l; end_inst E l }"

definition op_c03c_0_comp_nf :: compop_func where
  "op_c03c_0_comp_nf H E opcode l = do {
     let dstreg = unat (drop_bit 9 opcode AND 7); let l = add_pc_offset 2 l;
     let src = (scast (comp_get_ibyte H l (l_m68k_pc_offset l)) :: u32); let l = add_pc_offset 2 l;
     let dst = dstreg; let l = dont_care_flags l; l \<leftarrow> jnf_AND_b_imm E dst src l; end_inst E l }"

definition op_c040_0_comp_nf :: compop_func where
  "op_c040_0_comp_nf H E opcode l = do {
     let srcreg = unat (opcode AND 7); let dstreg = unat (drop_bit 9 opcode AND 7);
     let l = add_pc_offset 2 l; let src = srcreg; let dst = dstreg; let l = dont_care_flags l;
     l \<leftarrow> jnf_AND_w E dst src l; end_inst E l }"

definition op_c07c_0_comp_nf :: compop_func where
  "op_c07c_0_comp_nf H E opcode l = do {
     let dstreg = unat (drop_bit 9 opcode AND 7); let l = add_pc_offset 2 l;
     let src = (scast (comp_get_iword H l (l_m68k_pc_offset l)) :: u32); let l = add_pc_offset 2 l;
     let dst = dstreg; let l = dont_care_flags l; l \<leftarrow> jnf_AND_w_imm E dst src l; end_inst E l }"

definition op_c080_0_comp_nf :: compop_func where
  "op_c080_0_comp_nf H E opcode l = do {
     let srcreg = unat (opcode AND 7); let dstreg = unat (drop_bit 9 opcode AND 7);
     let l = add_pc_offset 2 l; let src = srcreg; let dst = dstreg; let l = dont_care_flags l;
     l \<leftarrow> jnf_AND_l E dst src l; end_inst E l }"

definition op_c0bc_0_comp_nf :: compop_func where
  "op_c0bc_0_comp_nf H E opcode l = do {
     let dstreg = unat (drop_bit 9 opcode AND 7); let l = add_pc_offset 2 l;
     let src = comp_get_ilong H l (l_m68k_pc_offset l); let l = add_pc_offset 4 l; let dst = dstreg;
     let l = dont_care_flags l; l \<leftarrow> jnf_AND_l_imm E dst src l; end_inst E l }"

section \<open>Their correctness\<close>

lemma op_0_0_comp_ff_ok:
  assumes "op_ready (64 + t) E mi l" "sets_flags 0xF mi mo l"
  shows "translated t E mi mo l (op_0_0_comp_ff H E opcode l)
    (\<lambda>g. incpc 4 (i_OR (get_dibyte H 2 g) (lo_reg opcode) g))"
  unfolding op_0_0_comp_ff_def Let_def add_pc_offset_simps comp_get_offset numeral_plus_numeral semiring_norm i_logic_swap
  by (rule ff_logic [where k = 4 and p = dont_care_flags, OF op_ready_done [OF assms(1)] assms(2)
      mode_changes(3) live_modes(1) _ _ _ jff_OR_b_imm_ok])
    (simp_all add: fetch_regs imm_view [OF op_ready_done [OF assms(1)]] op_done_ready [OF op_ready_done [OF assms(1)]] op_operand [OF op_ready_done [OF assms(1)]])

lemma op_40_0_comp_ff_ok:
  assumes "op_ready (64 + t) E mi l" "sets_flags 0xF mi mo l"
  shows "translated t E mi mo l (op_40_0_comp_ff H E opcode l)
    (\<lambda>g. incpc 4 (i_OR (get_diword H 2 g) (lo_reg opcode) g))"
  unfolding op_40_0_comp_ff_def Let_def add_pc_offset_simps comp_get_offset numeral_plus_numeral semiring_norm i_logic_swap
  by (rule ff_logic [where k = 4 and p = dont_care_flags, OF op_ready_done [OF assms(1)] assms(2)
      mode_changes(3) live_modes(1) _ _ _ jff_OR_w_imm_ok])
    (simp_all add: fetch_regs imm_view [OF op_ready_done [OF assms(1)]] op_done_ready [OF op_ready_done [OF assms(1)]] op_operand [OF op_ready_done [OF assms(1)]])

lemma op_80_0_comp_ff_ok:
  assumes "op_ready (64 + t) E mi l" "sets_flags 0xF mi mo l"
  shows "translated t E mi mo l (op_80_0_comp_ff H E opcode l)
    (\<lambda>g. incpc 6 (i_OR (get_dilong H 2 g) (lo_reg opcode) g))"
  unfolding op_80_0_comp_ff_def Let_def add_pc_offset_simps comp_get_offset numeral_plus_numeral semiring_norm i_logic_swap
  by (rule ff_logic [where k = 6 and p = dont_care_flags, OF op_ready_done [OF assms(1)] assms(2)
      mode_changes(3) live_modes(1) _ _ _ jff_OR_l_imm_ok])
    (simp_all add: fetch_regs imm_view [OF op_ready_done [OF assms(1)]] op_done_ready [OF op_ready_done [OF assms(1)]] op_operand [OF op_ready_done [OF assms(1)]])

lemma op_200_0_comp_ff_ok:
  assumes "op_ready (64 + t) E mi l" "sets_flags 0xF mi mo l"
  shows "translated t E mi mo l (op_200_0_comp_ff H E opcode l)
    (\<lambda>g. incpc 4 (i_AND (get_dibyte H 2 g) (lo_reg opcode) g))"
  unfolding op_200_0_comp_ff_def Let_def add_pc_offset_simps comp_get_offset numeral_plus_numeral semiring_norm i_logic_swap
  by (rule ff_logic [where k = 4 and p = dont_care_flags, OF op_ready_done [OF assms(1)] assms(2)
      mode_changes(3) live_modes(1) _ _ _ jff_AND_b_imm_ok])
    (simp_all add: fetch_regs imm_view [OF op_ready_done [OF assms(1)]] op_done_ready [OF op_ready_done [OF assms(1)]] op_operand [OF op_ready_done [OF assms(1)]])

lemma op_240_0_comp_ff_ok:
  assumes "op_ready (64 + t) E mi l" "sets_flags 0xF mi mo l"
  shows "translated t E mi mo l (op_240_0_comp_ff H E opcode l)
    (\<lambda>g. incpc 4 (i_AND (get_diword H 2 g) (lo_reg opcode) g))"
  unfolding op_240_0_comp_ff_def Let_def add_pc_offset_simps comp_get_offset numeral_plus_numeral semiring_norm i_logic_swap
  by (rule ff_logic [where k = 4 and p = dont_care_flags, OF op_ready_done [OF assms(1)] assms(2)
      mode_changes(3) live_modes(1) _ _ _ jff_AND_w_imm_ok])
    (simp_all add: fetch_regs imm_view [OF op_ready_done [OF assms(1)]] op_done_ready [OF op_ready_done [OF assms(1)]] op_operand [OF op_ready_done [OF assms(1)]])

lemma op_280_0_comp_ff_ok:
  assumes "op_ready (64 + t) E mi l" "sets_flags 0xF mi mo l"
  shows "translated t E mi mo l (op_280_0_comp_ff H E opcode l)
    (\<lambda>g. incpc 6 (i_AND (get_dilong H 2 g) (lo_reg opcode) g))"
  unfolding op_280_0_comp_ff_def Let_def add_pc_offset_simps comp_get_offset numeral_plus_numeral semiring_norm i_logic_swap
  by (rule ff_logic [where k = 6 and p = dont_care_flags, OF op_ready_done [OF assms(1)] assms(2)
      mode_changes(3) live_modes(1) _ _ _ jff_AND_l_imm_ok])
    (simp_all add: fetch_regs imm_view [OF op_ready_done [OF assms(1)]] op_done_ready [OF op_ready_done [OF assms(1)]] op_operand [OF op_ready_done [OF assms(1)]])

lemma op_a00_0_comp_ff_ok:
  assumes "op_ready (64 + t) E mi l" "sets_flags 0xF mi mo l"
  shows "translated t E mi mo l (op_a00_0_comp_ff H E opcode l)
    (\<lambda>g. incpc 4 (i_EOR (get_dibyte H 2 g) (lo_reg opcode) g))"
  unfolding op_a00_0_comp_ff_def Let_def add_pc_offset_simps comp_get_offset numeral_plus_numeral semiring_norm i_logic_swap
  by (rule ff_logic [where k = 4 and p = dont_care_flags, OF op_ready_done [OF assms(1)] assms(2)
      mode_changes(3) live_modes(1) _ _ _ jff_EOR_b_imm_ok])
    (simp_all add: fetch_regs imm_view [OF op_ready_done [OF assms(1)]] op_done_ready [OF op_ready_done [OF assms(1)]] op_operand [OF op_ready_done [OF assms(1)]])

lemma op_a40_0_comp_ff_ok:
  assumes "op_ready (64 + t) E mi l" "sets_flags 0xF mi mo l"
  shows "translated t E mi mo l (op_a40_0_comp_ff H E opcode l)
    (\<lambda>g. incpc 4 (i_EOR (get_diword H 2 g) (lo_reg opcode) g))"
  unfolding op_a40_0_comp_ff_def Let_def add_pc_offset_simps comp_get_offset numeral_plus_numeral semiring_norm i_logic_swap
  by (rule ff_logic [where k = 4 and p = dont_care_flags, OF op_ready_done [OF assms(1)] assms(2)
      mode_changes(3) live_modes(1) _ _ _ jff_EOR_w_imm_ok])
    (simp_all add: fetch_regs imm_view [OF op_ready_done [OF assms(1)]] op_done_ready [OF op_ready_done [OF assms(1)]] op_operand [OF op_ready_done [OF assms(1)]])

lemma op_a80_0_comp_ff_ok:
  assumes "op_ready (64 + t) E mi l" "sets_flags 0xF mi mo l"
  shows "translated t E mi mo l (op_a80_0_comp_ff H E opcode l)
    (\<lambda>g. incpc 6 (i_EOR (get_dilong H 2 g) (lo_reg opcode) g))"
  unfolding op_a80_0_comp_ff_def Let_def add_pc_offset_simps comp_get_offset numeral_plus_numeral semiring_norm i_logic_swap
  by (rule ff_logic [where k = 6 and p = dont_care_flags, OF op_ready_done [OF assms(1)] assms(2)
      mode_changes(3) live_modes(1) _ _ _ jff_EOR_l_imm_ok])
    (simp_all add: fetch_regs imm_view [OF op_ready_done [OF assms(1)]] op_done_ready [OF op_ready_done [OF assms(1)]] op_operand [OF op_ready_done [OF assms(1)]])

lemma op_4600_0_comp_ff_ok:
  assumes "op_ready (64 + t) E mi l" "sets_flags 0xF mi mo l"
  shows "translated t E mi mo l (op_4600_0_comp_ff H E opcode l)
    (\<lambda>g. incpc 2 (i_NOT TYPE(8) (lo_reg opcode) g))"
  unfolding op_4600_0_comp_ff_def Let_def i_NOT_def
  by (rule ff_logic [where k = 2 and p = dont_care_flags, OF op_ready_done [OF assms(1)] assms(2)
      mode_changes(3) live_modes(1) _ _ _ jff_NOT_b_ok])
    (simp_all add: fetch_regs imm_view [OF op_ready_done [OF assms(1)]] op_done_ready [OF op_ready_done [OF assms(1)]] op_operand [OF op_ready_done [OF assms(1)]])

lemma op_4640_0_comp_ff_ok:
  assumes "op_ready (64 + t) E mi l" "sets_flags 0xF mi mo l"
  shows "translated t E mi mo l (op_4640_0_comp_ff H E opcode l)
    (\<lambda>g. incpc 2 (i_NOT TYPE(16) (lo_reg opcode) g))"
  unfolding op_4640_0_comp_ff_def Let_def i_NOT_def
  by (rule ff_logic [where k = 2 and p = dont_care_flags, OF op_ready_done [OF assms(1)] assms(2)
      mode_changes(3) live_modes(1) _ _ _ jff_NOT_w_ok])
    (simp_all add: fetch_regs imm_view [OF op_ready_done [OF assms(1)]] op_done_ready [OF op_ready_done [OF assms(1)]] op_operand [OF op_ready_done [OF assms(1)]])

lemma op_4680_0_comp_ff_ok:
  assumes "op_ready (64 + t) E mi l" "sets_flags 0xF mi mo l"
  shows "translated t E mi mo l (op_4680_0_comp_ff H E opcode l)
    (\<lambda>g. incpc 2 (i_NOT TYPE(32) (lo_reg opcode) g))"
  unfolding op_4680_0_comp_ff_def Let_def i_NOT_def
  by (rule ff_logic [where k = 2 and p = dont_care_flags, OF op_ready_done [OF assms(1)] assms(2)
      mode_changes(3) live_modes(1) _ _ _ jff_NOT_l_ok])
    (simp_all add: fetch_regs imm_view [OF op_ready_done [OF assms(1)]] op_done_ready [OF op_ready_done [OF assms(1)]] op_operand [OF op_ready_done [OF assms(1)]])

lemma op_4a00_0_comp_ff_ok:
  assumes "op_ready (64 + t) E mi l" "sets_flags 0xF mi mo l"
  shows "translated t E mi mo l (op_4a00_0_comp_ff H E opcode l)
    (\<lambda>g. incpc 2 (i_TST (fetch_reg (lo_reg opcode) g :: u8) g))"
  unfolding op_4a00_0_comp_ff_def Let_def i_TST_def
  by (rule ff_compare [where k = 2 and p = dont_care_flags, OF op_ready_done [OF assms(1)] assms(2)
      mode_changes(3) live_modes(1) _ jff_TST_b_ok])
    (simp_all add: fetch_regs imm_view [OF op_ready_done [OF assms(1)]] op_done_ready [OF op_ready_done [OF assms(1)]] op_operand [OF op_ready_done [OF assms(1)]])

lemma op_4a3c_0_comp_ff_ok:
  assumes "op_ready (64 + t) E mi l" "sets_flags 0xF mi mo l"
  shows "translated t E mi mo l (op_4a3c_0_comp_ff H E opcode l)
    (\<lambda>g. incpc 4 (i_TST (get_dibyte H 2 g) g))"
proof -
  have u: "status l S1 = UNDEF" by (rule fresh_status [OF assms(1)])
  have e: "op_4a3c_0_comp_ff H E opcode l = do { l2 \<leftarrow> jff_TST_b E S1 (scratch_const (scast (comp_get_ibyte H l (l_m68k_pc_offset l + 2))) (dont_care_flags (use_scratch (add_pc_offset 4 l)))); end_inst E (live_flags l2) }"
    by (simp add: op_4a3c_0_comp_ff_def Let_def alloc_fresh [OF assms(1)] load_const u)
  show ?thesis
    unfolding e i_TST_def
    by (rule ff_scratch_compare [OF assms(1,2) live_modes(1) _ jff_TST_b_ok]) (simp_all add: op_done_ready [OF op_ready_done [OF assms(1)]] op_operand [OF op_ready_done [OF assms(1)]] imm_view [OF op_ready_done [OF assms(1)]] ready_scratch_const operand_scratch_const u)
qed

lemma op_4a40_0_comp_ff_ok:
  assumes "op_ready (64 + t) E mi l" "sets_flags 0xF mi mo l"
  shows "translated t E mi mo l (op_4a40_0_comp_ff H E opcode l)
    (\<lambda>g. incpc 2 (i_TST (fetch_reg (lo_reg opcode) g :: u16) g))"
  unfolding op_4a40_0_comp_ff_def Let_def i_TST_def
  by (rule ff_compare [where k = 2 and p = dont_care_flags, OF op_ready_done [OF assms(1)] assms(2)
      mode_changes(3) live_modes(1) _ jff_TST_w_ok])
    (simp_all add: fetch_regs imm_view [OF op_ready_done [OF assms(1)]] op_done_ready [OF op_ready_done [OF assms(1)]] op_operand [OF op_ready_done [OF assms(1)]])

lemma op_4a48_0_comp_ff_ok:
  assumes "op_ready (64 + t) E mi l" "sets_flags 0xF mi mo l"
  shows "translated t E mi mo l (op_4a48_0_comp_ff H E opcode l)
    (\<lambda>g. incpc 2 (i_TST (fetch_reg (lo_reg opcode + 8) g :: u16) g))"
  unfolding op_4a48_0_comp_ff_def Let_def i_TST_def
  by (rule ff_compare [where k = 2 and p = dont_care_flags, OF op_ready_done [OF assms(1)] assms(2)
      mode_changes(3) live_modes(1) _ jff_TST_w_ok])
    (simp_all add: fetch_regs imm_view [OF op_ready_done [OF assms(1)]] op_done_ready [OF op_ready_done [OF assms(1)]] op_operand [OF op_ready_done [OF assms(1)]])

lemma op_4a7c_0_comp_ff_ok:
  assumes "op_ready (64 + t) E mi l" "sets_flags 0xF mi mo l"
  shows "translated t E mi mo l (op_4a7c_0_comp_ff H E opcode l)
    (\<lambda>g. incpc 4 (i_TST (get_diword H 2 g) g))"
proof -
  have u: "status l S1 = UNDEF" by (rule fresh_status [OF assms(1)])
  have e: "op_4a7c_0_comp_ff H E opcode l = do { l2 \<leftarrow> jff_TST_w E S1 (scratch_const (scast (comp_get_iword H l (l_m68k_pc_offset l + 2))) (dont_care_flags (use_scratch (add_pc_offset 4 l)))); end_inst E (live_flags l2) }"
    by (simp add: op_4a7c_0_comp_ff_def Let_def alloc_fresh [OF assms(1)] load_const u)
  show ?thesis
    unfolding e i_TST_def
    by (rule ff_scratch_compare [OF assms(1,2) live_modes(1) _ jff_TST_w_ok]) (simp_all add: op_done_ready [OF op_ready_done [OF assms(1)]] op_operand [OF op_ready_done [OF assms(1)]] imm_view [OF op_ready_done [OF assms(1)]] ready_scratch_const operand_scratch_const u)
qed

lemma op_4a80_0_comp_ff_ok:
  assumes "op_ready (64 + t) E mi l" "sets_flags 0xF mi mo l"
  shows "translated t E mi mo l (op_4a80_0_comp_ff H E opcode l)
    (\<lambda>g. incpc 2 (i_TST (fetch_reg (lo_reg opcode) g :: u32) g))"
  unfolding op_4a80_0_comp_ff_def Let_def i_TST_def
  by (rule ff_compare [where k = 2 and p = dont_care_flags, OF op_ready_done [OF assms(1)] assms(2)
      mode_changes(3) live_modes(1) _ jff_TST_l_ok])
    (simp_all add: fetch_regs imm_view [OF op_ready_done [OF assms(1)]] op_done_ready [OF op_ready_done [OF assms(1)]] op_operand [OF op_ready_done [OF assms(1)]])

lemma op_4a88_0_comp_ff_ok:
  assumes "op_ready (64 + t) E mi l" "sets_flags 0xF mi mo l"
  shows "translated t E mi mo l (op_4a88_0_comp_ff H E opcode l)
    (\<lambda>g. incpc 2 (i_TST (fetch_reg (lo_reg opcode + 8) g :: u32) g))"
  unfolding op_4a88_0_comp_ff_def Let_def i_TST_def
  by (rule ff_compare [where k = 2 and p = dont_care_flags, OF op_ready_done [OF assms(1)] assms(2)
      mode_changes(3) live_modes(1) _ jff_TST_l_ok])
    (simp_all add: fetch_regs imm_view [OF op_ready_done [OF assms(1)]] op_done_ready [OF op_ready_done [OF assms(1)]] op_operand [OF op_ready_done [OF assms(1)]])

lemma op_4abc_0_comp_ff_ok:
  assumes "op_ready (64 + t) E mi l" "sets_flags 0xF mi mo l"
  shows "translated t E mi mo l (op_4abc_0_comp_ff H E opcode l)
    (\<lambda>g. incpc 6 (i_TST (get_dilong H 2 g) g))"
proof -
  have u: "status l S1 = UNDEF" by (rule fresh_status [OF assms(1)])
  have e: "op_4abc_0_comp_ff H E opcode l = do { l2 \<leftarrow> jff_TST_l E S1 (scratch_const (comp_get_ilong H l (l_m68k_pc_offset l + 2)) (dont_care_flags (use_scratch (add_pc_offset 6 l)))); end_inst E (live_flags l2) }"
    by (simp add: op_4abc_0_comp_ff_def Let_def alloc_fresh [OF assms(1)] load_const u)
  show ?thesis
    unfolding e i_TST_def
    by (rule ff_scratch_compare [OF assms(1,2) live_modes(1) _ jff_TST_l_ok]) (simp_all add: op_done_ready [OF op_ready_done [OF assms(1)]] op_operand [OF op_ready_done [OF assms(1)]] imm_view [OF op_ready_done [OF assms(1)]] ready_scratch_const operand_scratch_const u)
qed

lemma op_8000_0_comp_ff_ok:
  assumes "op_ready (64 + t) E mi l" "sets_flags 0xF mi mo l"
  shows "translated t E mi mo l (op_8000_0_comp_ff H E opcode l)
    (\<lambda>g. incpc 2 (i_OR (fetch_reg (lo_reg opcode) g :: u8) (hi_reg opcode) g))"
  unfolding op_8000_0_comp_ff_def Let_def i_logic_swap
  by (rule ff_logic [where k = 2 and p = dont_care_flags, OF op_ready_done [OF assms(1)] assms(2)
      mode_changes(3) live_modes(1) _ _ _ jff_OR_b_ok])
    (simp_all add: fetch_regs imm_view [OF op_ready_done [OF assms(1)]] op_done_ready [OF op_ready_done [OF assms(1)]] op_operand [OF op_ready_done [OF assms(1)]])

lemma op_803c_0_comp_ff_ok:
  assumes "op_ready (64 + t) E mi l" "sets_flags 0xF mi mo l"
  shows "translated t E mi mo l (op_803c_0_comp_ff H E opcode l)
    (\<lambda>g. incpc 4 (i_OR (get_dibyte H 2 g) (hi_reg opcode) g))"
  unfolding op_803c_0_comp_ff_def Let_def add_pc_offset_simps comp_get_offset numeral_plus_numeral semiring_norm i_logic_swap
  by (rule ff_logic [where k = 4 and p = dont_care_flags, OF op_ready_done [OF assms(1)] assms(2)
      mode_changes(3) live_modes(1) _ _ _ jff_OR_b_imm_ok])
    (simp_all add: fetch_regs imm_view [OF op_ready_done [OF assms(1)]] op_done_ready [OF op_ready_done [OF assms(1)]] op_operand [OF op_ready_done [OF assms(1)]])

lemma op_8040_0_comp_ff_ok:
  assumes "op_ready (64 + t) E mi l" "sets_flags 0xF mi mo l"
  shows "translated t E mi mo l (op_8040_0_comp_ff H E opcode l)
    (\<lambda>g. incpc 2 (i_OR (fetch_reg (lo_reg opcode) g :: u16) (hi_reg opcode) g))"
  unfolding op_8040_0_comp_ff_def Let_def i_logic_swap
  by (rule ff_logic [where k = 2 and p = dont_care_flags, OF op_ready_done [OF assms(1)] assms(2)
      mode_changes(3) live_modes(1) _ _ _ jff_OR_w_ok])
    (simp_all add: fetch_regs imm_view [OF op_ready_done [OF assms(1)]] op_done_ready [OF op_ready_done [OF assms(1)]] op_operand [OF op_ready_done [OF assms(1)]])

lemma op_807c_0_comp_ff_ok:
  assumes "op_ready (64 + t) E mi l" "sets_flags 0xF mi mo l"
  shows "translated t E mi mo l (op_807c_0_comp_ff H E opcode l)
    (\<lambda>g. incpc 4 (i_OR (get_diword H 2 g) (hi_reg opcode) g))"
  unfolding op_807c_0_comp_ff_def Let_def add_pc_offset_simps comp_get_offset numeral_plus_numeral semiring_norm i_logic_swap
  by (rule ff_logic [where k = 4 and p = dont_care_flags, OF op_ready_done [OF assms(1)] assms(2)
      mode_changes(3) live_modes(1) _ _ _ jff_OR_w_imm_ok])
    (simp_all add: fetch_regs imm_view [OF op_ready_done [OF assms(1)]] op_done_ready [OF op_ready_done [OF assms(1)]] op_operand [OF op_ready_done [OF assms(1)]])

lemma op_8080_0_comp_ff_ok:
  assumes "op_ready (64 + t) E mi l" "sets_flags 0xF mi mo l"
  shows "translated t E mi mo l (op_8080_0_comp_ff H E opcode l)
    (\<lambda>g. incpc 2 (i_OR (fetch_reg (lo_reg opcode) g :: u32) (hi_reg opcode) g))"
  unfolding op_8080_0_comp_ff_def Let_def i_logic_swap
  by (rule ff_logic [where k = 2 and p = dont_care_flags, OF op_ready_done [OF assms(1)] assms(2)
      mode_changes(3) live_modes(1) _ _ _ jff_OR_l_ok])
    (simp_all add: fetch_regs imm_view [OF op_ready_done [OF assms(1)]] op_done_ready [OF op_ready_done [OF assms(1)]] op_operand [OF op_ready_done [OF assms(1)]])

lemma op_80bc_0_comp_ff_ok:
  assumes "op_ready (64 + t) E mi l" "sets_flags 0xF mi mo l"
  shows "translated t E mi mo l (op_80bc_0_comp_ff H E opcode l)
    (\<lambda>g. incpc 6 (i_OR (get_dilong H 2 g) (hi_reg opcode) g))"
  unfolding op_80bc_0_comp_ff_def Let_def add_pc_offset_simps comp_get_offset numeral_plus_numeral semiring_norm i_logic_swap
  by (rule ff_logic [where k = 6 and p = dont_care_flags, OF op_ready_done [OF assms(1)] assms(2)
      mode_changes(3) live_modes(1) _ _ _ jff_OR_l_imm_ok])
    (simp_all add: fetch_regs imm_view [OF op_ready_done [OF assms(1)]] op_done_ready [OF op_ready_done [OF assms(1)]] op_operand [OF op_ready_done [OF assms(1)]])

lemma op_b100_0_comp_ff_ok:
  assumes "op_ready (64 + t) E mi l" "sets_flags 0xF mi mo l"
  shows "translated t E mi mo l (op_b100_0_comp_ff H E opcode l)
    (\<lambda>g. incpc 2 (i_EOR (fetch_reg (hi_reg opcode) g :: u8) (lo_reg opcode) g))"
  unfolding op_b100_0_comp_ff_def Let_def i_logic_swap
  by (rule ff_logic [where k = 2 and p = dont_care_flags, OF op_ready_done [OF assms(1)] assms(2)
      mode_changes(3) live_modes(1) _ _ _ jff_EOR_b_ok])
    (simp_all add: fetch_regs imm_view [OF op_ready_done [OF assms(1)]] op_done_ready [OF op_ready_done [OF assms(1)]] op_operand [OF op_ready_done [OF assms(1)]])

lemma op_b140_0_comp_ff_ok:
  assumes "op_ready (64 + t) E mi l" "sets_flags 0xF mi mo l"
  shows "translated t E mi mo l (op_b140_0_comp_ff H E opcode l)
    (\<lambda>g. incpc 2 (i_EOR (fetch_reg (hi_reg opcode) g :: u16) (lo_reg opcode) g))"
  unfolding op_b140_0_comp_ff_def Let_def i_logic_swap
  by (rule ff_logic [where k = 2 and p = dont_care_flags, OF op_ready_done [OF assms(1)] assms(2)
      mode_changes(3) live_modes(1) _ _ _ jff_EOR_w_ok])
    (simp_all add: fetch_regs imm_view [OF op_ready_done [OF assms(1)]] op_done_ready [OF op_ready_done [OF assms(1)]] op_operand [OF op_ready_done [OF assms(1)]])

lemma op_b180_0_comp_ff_ok:
  assumes "op_ready (64 + t) E mi l" "sets_flags 0xF mi mo l"
  shows "translated t E mi mo l (op_b180_0_comp_ff H E opcode l)
    (\<lambda>g. incpc 2 (i_EOR (fetch_reg (hi_reg opcode) g :: u32) (lo_reg opcode) g))"
  unfolding op_b180_0_comp_ff_def Let_def i_logic_swap
  by (rule ff_logic [where k = 2 and p = dont_care_flags, OF op_ready_done [OF assms(1)] assms(2)
      mode_changes(3) live_modes(1) _ _ _ jff_EOR_l_ok])
    (simp_all add: fetch_regs imm_view [OF op_ready_done [OF assms(1)]] op_done_ready [OF op_ready_done [OF assms(1)]] op_operand [OF op_ready_done [OF assms(1)]])

lemma op_c000_0_comp_ff_ok:
  assumes "op_ready (64 + t) E mi l" "sets_flags 0xF mi mo l"
  shows "translated t E mi mo l (op_c000_0_comp_ff H E opcode l)
    (\<lambda>g. incpc 2 (i_AND (fetch_reg (lo_reg opcode) g :: u8) (hi_reg opcode) g))"
  unfolding op_c000_0_comp_ff_def Let_def i_logic_swap
  by (rule ff_logic [where k = 2 and p = dont_care_flags, OF op_ready_done [OF assms(1)] assms(2)
      mode_changes(3) live_modes(1) _ _ _ jff_AND_b_ok])
    (simp_all add: fetch_regs imm_view [OF op_ready_done [OF assms(1)]] op_done_ready [OF op_ready_done [OF assms(1)]] op_operand [OF op_ready_done [OF assms(1)]])

lemma op_c03c_0_comp_ff_ok:
  assumes "op_ready (64 + t) E mi l" "sets_flags 0xF mi mo l"
  shows "translated t E mi mo l (op_c03c_0_comp_ff H E opcode l)
    (\<lambda>g. incpc 4 (i_AND (get_dibyte H 2 g) (hi_reg opcode) g))"
  unfolding op_c03c_0_comp_ff_def Let_def add_pc_offset_simps comp_get_offset numeral_plus_numeral semiring_norm i_logic_swap
  by (rule ff_logic [where k = 4 and p = dont_care_flags, OF op_ready_done [OF assms(1)] assms(2)
      mode_changes(3) live_modes(1) _ _ _ jff_AND_b_imm_ok])
    (simp_all add: fetch_regs imm_view [OF op_ready_done [OF assms(1)]] op_done_ready [OF op_ready_done [OF assms(1)]] op_operand [OF op_ready_done [OF assms(1)]])

lemma op_c040_0_comp_ff_ok:
  assumes "op_ready (64 + t) E mi l" "sets_flags 0xF mi mo l"
  shows "translated t E mi mo l (op_c040_0_comp_ff H E opcode l)
    (\<lambda>g. incpc 2 (i_AND (fetch_reg (lo_reg opcode) g :: u16) (hi_reg opcode) g))"
  unfolding op_c040_0_comp_ff_def Let_def i_logic_swap
  by (rule ff_logic [where k = 2 and p = dont_care_flags, OF op_ready_done [OF assms(1)] assms(2)
      mode_changes(3) live_modes(1) _ _ _ jff_AND_w_ok])
    (simp_all add: fetch_regs imm_view [OF op_ready_done [OF assms(1)]] op_done_ready [OF op_ready_done [OF assms(1)]] op_operand [OF op_ready_done [OF assms(1)]])

lemma op_c07c_0_comp_ff_ok:
  assumes "op_ready (64 + t) E mi l" "sets_flags 0xF mi mo l"
  shows "translated t E mi mo l (op_c07c_0_comp_ff H E opcode l)
    (\<lambda>g. incpc 4 (i_AND (get_diword H 2 g) (hi_reg opcode) g))"
  unfolding op_c07c_0_comp_ff_def Let_def add_pc_offset_simps comp_get_offset numeral_plus_numeral semiring_norm i_logic_swap
  by (rule ff_logic [where k = 4 and p = dont_care_flags, OF op_ready_done [OF assms(1)] assms(2)
      mode_changes(3) live_modes(1) _ _ _ jff_AND_w_imm_ok])
    (simp_all add: fetch_regs imm_view [OF op_ready_done [OF assms(1)]] op_done_ready [OF op_ready_done [OF assms(1)]] op_operand [OF op_ready_done [OF assms(1)]])

lemma op_c080_0_comp_ff_ok:
  assumes "op_ready (64 + t) E mi l" "sets_flags 0xF mi mo l"
  shows "translated t E mi mo l (op_c080_0_comp_ff H E opcode l)
    (\<lambda>g. incpc 2 (i_AND (fetch_reg (lo_reg opcode) g :: u32) (hi_reg opcode) g))"
  unfolding op_c080_0_comp_ff_def Let_def i_logic_swap
  by (rule ff_logic [where k = 2 and p = dont_care_flags, OF op_ready_done [OF assms(1)] assms(2)
      mode_changes(3) live_modes(1) _ _ _ jff_AND_l_ok])
    (simp_all add: fetch_regs imm_view [OF op_ready_done [OF assms(1)]] op_done_ready [OF op_ready_done [OF assms(1)]] op_operand [OF op_ready_done [OF assms(1)]])

lemma op_c0bc_0_comp_ff_ok:
  assumes "op_ready (64 + t) E mi l" "sets_flags 0xF mi mo l"
  shows "translated t E mi mo l (op_c0bc_0_comp_ff H E opcode l)
    (\<lambda>g. incpc 6 (i_AND (get_dilong H 2 g) (hi_reg opcode) g))"
  unfolding op_c0bc_0_comp_ff_def Let_def add_pc_offset_simps comp_get_offset numeral_plus_numeral semiring_norm i_logic_swap
  by (rule ff_logic [where k = 6 and p = dont_care_flags, OF op_ready_done [OF assms(1)] assms(2)
      mode_changes(3) live_modes(1) _ _ _ jff_AND_l_imm_ok])
    (simp_all add: fetch_regs imm_view [OF op_ready_done [OF assms(1)]] op_done_ready [OF op_ready_done [OF assms(1)]] op_operand [OF op_ready_done [OF assms(1)]])

lemma op_0_0_comp_nf_ok:
  assumes "op_ready (64 + t) E mi l" "no_flags 0xF mi mo"
  shows "translated t E mi mo l (op_0_0_comp_nf H E opcode l)
    (\<lambda>g. incpc 4 (i_OR (get_dibyte H 2 g) (lo_reg opcode) g))"
  unfolding op_0_0_comp_nf_def Let_def add_pc_offset_simps comp_get_offset numeral_plus_numeral semiring_norm
  by (rule nf_plain [where k = 4 and p = dont_care_flags and q = "\<lambda>l. l", OF op_ready_done [OF assms(1)] assms(2) _ keeps_modes(2) keeps_modes(1) _ _ _ jnf_OR_b_imm_ok])
    (simp_all add: i_logic_swap fetch_regs imm_view [OF op_ready_done [OF assms(1)]] op_done_ready [OF op_ready_done [OF assms(1)]] op_operand [OF op_ready_done [OF assms(1)]])

lemma op_40_0_comp_nf_ok:
  assumes "op_ready (64 + t) E mi l" "no_flags 0xF mi mo"
  shows "translated t E mi mo l (op_40_0_comp_nf H E opcode l)
    (\<lambda>g. incpc 4 (i_OR (get_diword H 2 g) (lo_reg opcode) g))"
  unfolding op_40_0_comp_nf_def Let_def add_pc_offset_simps comp_get_offset numeral_plus_numeral semiring_norm
  by (rule nf_plain [where k = 4 and p = dont_care_flags and q = "\<lambda>l. l", OF op_ready_done [OF assms(1)] assms(2) _ keeps_modes(2) keeps_modes(1) _ _ _ jnf_OR_w_imm_ok])
    (simp_all add: i_logic_swap fetch_regs imm_view [OF op_ready_done [OF assms(1)]] op_done_ready [OF op_ready_done [OF assms(1)]] op_operand [OF op_ready_done [OF assms(1)]])

lemma op_80_0_comp_nf_ok:
  assumes "op_ready (64 + t) E mi l" "no_flags 0xF mi mo"
  shows "translated t E mi mo l (op_80_0_comp_nf H E opcode l)
    (\<lambda>g. incpc 6 (i_OR (get_dilong H 2 g) (lo_reg opcode) g))"
  unfolding op_80_0_comp_nf_def Let_def add_pc_offset_simps comp_get_offset numeral_plus_numeral semiring_norm
  by (rule nf_plain [where k = 6 and p = dont_care_flags and q = "\<lambda>l. l", OF op_ready_done [OF assms(1)] assms(2) _ keeps_modes(2) keeps_modes(1) _ _ _ jnf_OR_l_imm_ok])
    (simp_all add: i_logic_swap fetch_regs imm_view [OF op_ready_done [OF assms(1)]] op_done_ready [OF op_ready_done [OF assms(1)]] op_operand [OF op_ready_done [OF assms(1)]])

lemma op_200_0_comp_nf_ok:
  assumes "op_ready (64 + t) E mi l" "no_flags 0xF mi mo"
  shows "translated t E mi mo l (op_200_0_comp_nf H E opcode l)
    (\<lambda>g. incpc 4 (i_AND (get_dibyte H 2 g) (lo_reg opcode) g))"
  unfolding op_200_0_comp_nf_def Let_def add_pc_offset_simps comp_get_offset numeral_plus_numeral semiring_norm
  by (rule nf_plain [where k = 4 and p = dont_care_flags and q = "\<lambda>l. l", OF op_ready_done [OF assms(1)] assms(2) _ keeps_modes(2) keeps_modes(1) _ _ _ jnf_AND_b_imm_ok])
    (simp_all add: i_logic_swap fetch_regs imm_view [OF op_ready_done [OF assms(1)]] op_done_ready [OF op_ready_done [OF assms(1)]] op_operand [OF op_ready_done [OF assms(1)]])

lemma op_240_0_comp_nf_ok:
  assumes "op_ready (64 + t) E mi l" "no_flags 0xF mi mo"
  shows "translated t E mi mo l (op_240_0_comp_nf H E opcode l)
    (\<lambda>g. incpc 4 (i_AND (get_diword H 2 g) (lo_reg opcode) g))"
  unfolding op_240_0_comp_nf_def Let_def add_pc_offset_simps comp_get_offset numeral_plus_numeral semiring_norm
  by (rule nf_plain [where k = 4 and p = dont_care_flags and q = "\<lambda>l. l", OF op_ready_done [OF assms(1)] assms(2) _ keeps_modes(2) keeps_modes(1) _ _ _ jnf_AND_w_imm_ok])
    (simp_all add: i_logic_swap fetch_regs imm_view [OF op_ready_done [OF assms(1)]] op_done_ready [OF op_ready_done [OF assms(1)]] op_operand [OF op_ready_done [OF assms(1)]])

lemma op_280_0_comp_nf_ok:
  assumes "op_ready (64 + t) E mi l" "no_flags 0xF mi mo"
  shows "translated t E mi mo l (op_280_0_comp_nf H E opcode l)
    (\<lambda>g. incpc 6 (i_AND (get_dilong H 2 g) (lo_reg opcode) g))"
  unfolding op_280_0_comp_nf_def Let_def add_pc_offset_simps comp_get_offset numeral_plus_numeral semiring_norm
  by (rule nf_plain [where k = 6 and p = dont_care_flags and q = "\<lambda>l. l", OF op_ready_done [OF assms(1)] assms(2) _ keeps_modes(2) keeps_modes(1) _ _ _ jnf_AND_l_imm_ok])
    (simp_all add: i_logic_swap fetch_regs imm_view [OF op_ready_done [OF assms(1)]] op_done_ready [OF op_ready_done [OF assms(1)]] op_operand [OF op_ready_done [OF assms(1)]])

lemma op_a00_0_comp_nf_ok:
  assumes "op_ready (64 + t) E mi l" "no_flags 0xF mi mo"
  shows "translated t E mi mo l (op_a00_0_comp_nf H E opcode l)
    (\<lambda>g. incpc 4 (i_EOR (get_dibyte H 2 g) (lo_reg opcode) g))"
  unfolding op_a00_0_comp_nf_def Let_def add_pc_offset_simps comp_get_offset numeral_plus_numeral semiring_norm
  by (rule nf_plain [where k = 4 and p = dont_care_flags and q = "\<lambda>l. l", OF op_ready_done [OF assms(1)] assms(2) _ keeps_modes(2) keeps_modes(1) _ _ _ jnf_EOR_b_imm_ok])
    (simp_all add: i_logic_swap fetch_regs imm_view [OF op_ready_done [OF assms(1)]] op_done_ready [OF op_ready_done [OF assms(1)]] op_operand [OF op_ready_done [OF assms(1)]])

lemma op_a40_0_comp_nf_ok:
  assumes "op_ready (64 + t) E mi l" "no_flags 0xF mi mo"
  shows "translated t E mi mo l (op_a40_0_comp_nf H E opcode l)
    (\<lambda>g. incpc 4 (i_EOR (get_diword H 2 g) (lo_reg opcode) g))"
  unfolding op_a40_0_comp_nf_def Let_def add_pc_offset_simps comp_get_offset numeral_plus_numeral semiring_norm
  by (rule nf_plain [where k = 4 and p = dont_care_flags and q = "\<lambda>l. l", OF op_ready_done [OF assms(1)] assms(2) _ keeps_modes(2) keeps_modes(1) _ _ _ jnf_EOR_w_imm_ok])
    (simp_all add: i_logic_swap fetch_regs imm_view [OF op_ready_done [OF assms(1)]] op_done_ready [OF op_ready_done [OF assms(1)]] op_operand [OF op_ready_done [OF assms(1)]])

lemma op_a80_0_comp_nf_ok:
  assumes "op_ready (64 + t) E mi l" "no_flags 0xF mi mo"
  shows "translated t E mi mo l (op_a80_0_comp_nf H E opcode l)
    (\<lambda>g. incpc 6 (i_EOR (get_dilong H 2 g) (lo_reg opcode) g))"
  unfolding op_a80_0_comp_nf_def Let_def add_pc_offset_simps comp_get_offset numeral_plus_numeral semiring_norm
  by (rule nf_plain [where k = 6 and p = dont_care_flags and q = "\<lambda>l. l", OF op_ready_done [OF assms(1)] assms(2) _ keeps_modes(2) keeps_modes(1) _ _ _ jnf_EOR_l_imm_ok])
    (simp_all add: i_logic_swap fetch_regs imm_view [OF op_ready_done [OF assms(1)]] op_done_ready [OF op_ready_done [OF assms(1)]] op_operand [OF op_ready_done [OF assms(1)]])

lemma op_4600_0_comp_nf_ok:
  assumes "op_ready (64 + t) E mi l" "no_flags 0xF mi mo"
  shows "translated t E mi mo l (op_4600_0_comp_nf H E opcode l)
    (\<lambda>g. incpc 2 (i_NOT TYPE(8) (lo_reg opcode) g))"
  unfolding op_4600_0_comp_nf_def Let_def
  by (rule nf_plain [where k = 2 and p = dont_care_flags and q = "\<lambda>l. l", OF op_ready_done [OF assms(1)] assms(2) _ keeps_modes(2) keeps_modes(1) _ _ _ jnf_NOT_b_ok])
    (simp_all add: i_NOT_def fetch_regs imm_view [OF op_ready_done [OF assms(1)]] op_done_ready [OF op_ready_done [OF assms(1)]] op_operand [OF op_ready_done [OF assms(1)]])

lemma op_4640_0_comp_nf_ok:
  assumes "op_ready (64 + t) E mi l" "no_flags 0xF mi mo"
  shows "translated t E mi mo l (op_4640_0_comp_nf H E opcode l)
    (\<lambda>g. incpc 2 (i_NOT TYPE(16) (lo_reg opcode) g))"
  unfolding op_4640_0_comp_nf_def Let_def
  by (rule nf_plain [where k = 2 and p = dont_care_flags and q = "\<lambda>l. l", OF op_ready_done [OF assms(1)] assms(2) _ keeps_modes(2) keeps_modes(1) _ _ _ jnf_NOT_w_ok])
    (simp_all add: i_NOT_def fetch_regs imm_view [OF op_ready_done [OF assms(1)]] op_done_ready [OF op_ready_done [OF assms(1)]] op_operand [OF op_ready_done [OF assms(1)]])

lemma op_4680_0_comp_nf_ok:
  assumes "op_ready (64 + t) E mi l" "no_flags 0xF mi mo"
  shows "translated t E mi mo l (op_4680_0_comp_nf H E opcode l)
    (\<lambda>g. incpc 2 (i_NOT TYPE(32) (lo_reg opcode) g))"
  unfolding op_4680_0_comp_nf_def Let_def
  by (rule nf_plain [where k = 2 and p = dont_care_flags and q = "\<lambda>l. l", OF op_ready_done [OF assms(1)] assms(2) _ keeps_modes(2) keeps_modes(1) _ _ _ jnf_NOT_l_ok])
    (simp_all add: i_NOT_def fetch_regs imm_view [OF op_ready_done [OF assms(1)]] op_done_ready [OF op_ready_done [OF assms(1)]] op_operand [OF op_ready_done [OF assms(1)]])

lemma op_4a00_0_comp_nf_ok:
  assumes "op_ready (64 + t) E mi l" "no_flags 0xF mi mo"
  shows "translated t E mi mo l (op_4a00_0_comp_nf H E opcode l)
    (\<lambda>g. incpc 2 (i_TST (fetch_reg (lo_reg opcode) g :: u8) g))"
  unfolding op_4a00_0_comp_nf_def Let_def
  by (rule nf_none [where k = 2 and p = dont_care_flags, OF op_ready_done [OF assms(1)] assms(2) keeps_modes(2)]) (simp_all add: i_TST_def)

lemma op_4a3c_0_comp_nf_ok:
  assumes "op_ready (64 + t) E mi l" "no_flags 0xF mi mo"
  shows "translated t E mi mo l (op_4a3c_0_comp_nf H E opcode l)
    (\<lambda>g. incpc 4 (i_TST (get_dibyte H 2 g) g))"
proof -
  have u: "status l S1 = UNDEF" by (rule fresh_status [OF assms(1)])
  have e: "op_4a3c_0_comp_nf H E opcode l = end_inst E (scratch_const (scast (comp_get_ibyte H l (l_m68k_pc_offset l + 2))) (dont_care_flags (use_scratch (add_pc_offset 4 l))))"
    by (simp add: op_4a3c_0_comp_nf_def Let_def alloc_fresh [OF assms(1)] load_const u)
  show ?thesis unfolding e by (rule nf_scratch_none [OF assms(1,2)]) (simp_all add: i_TST_def)
qed

lemma op_4a40_0_comp_nf_ok:
  assumes "op_ready (64 + t) E mi l" "no_flags 0xF mi mo"
  shows "translated t E mi mo l (op_4a40_0_comp_nf H E opcode l)
    (\<lambda>g. incpc 2 (i_TST (fetch_reg (lo_reg opcode) g :: u16) g))"
  unfolding op_4a40_0_comp_nf_def Let_def
  by (rule nf_none [where k = 2 and p = dont_care_flags, OF op_ready_done [OF assms(1)] assms(2) keeps_modes(2)]) (simp_all add: i_TST_def)

lemma op_4a48_0_comp_nf_ok:
  assumes "op_ready (64 + t) E mi l" "no_flags 0xF mi mo"
  shows "translated t E mi mo l (op_4a48_0_comp_nf H E opcode l)
    (\<lambda>g. incpc 2 (i_TST (fetch_reg (lo_reg opcode + 8) g :: u16) g))"
  unfolding op_4a48_0_comp_nf_def Let_def
  by (rule nf_none [where k = 2 and p = dont_care_flags, OF op_ready_done [OF assms(1)] assms(2) keeps_modes(2)]) (simp_all add: i_TST_def)

lemma op_4a7c_0_comp_nf_ok:
  assumes "op_ready (64 + t) E mi l" "no_flags 0xF mi mo"
  shows "translated t E mi mo l (op_4a7c_0_comp_nf H E opcode l)
    (\<lambda>g. incpc 4 (i_TST (get_diword H 2 g) g))"
proof -
  have u: "status l S1 = UNDEF" by (rule fresh_status [OF assms(1)])
  have e: "op_4a7c_0_comp_nf H E opcode l = end_inst E (scratch_const (scast (comp_get_iword H l (l_m68k_pc_offset l + 2))) (dont_care_flags (use_scratch (add_pc_offset 4 l))))"
    by (simp add: op_4a7c_0_comp_nf_def Let_def alloc_fresh [OF assms(1)] load_const u)
  show ?thesis unfolding e by (rule nf_scratch_none [OF assms(1,2)]) (simp_all add: i_TST_def)
qed

lemma op_4a80_0_comp_nf_ok:
  assumes "op_ready (64 + t) E mi l" "no_flags 0xF mi mo"
  shows "translated t E mi mo l (op_4a80_0_comp_nf H E opcode l)
    (\<lambda>g. incpc 2 (i_TST (fetch_reg (lo_reg opcode) g :: u32) g))"
  unfolding op_4a80_0_comp_nf_def Let_def
  by (rule nf_none [where k = 2 and p = dont_care_flags, OF op_ready_done [OF assms(1)] assms(2) keeps_modes(2)]) (simp_all add: i_TST_def)

lemma op_4a88_0_comp_nf_ok:
  assumes "op_ready (64 + t) E mi l" "no_flags 0xF mi mo"
  shows "translated t E mi mo l (op_4a88_0_comp_nf H E opcode l)
    (\<lambda>g. incpc 2 (i_TST (fetch_reg (lo_reg opcode + 8) g :: u32) g))"
  unfolding op_4a88_0_comp_nf_def Let_def
  by (rule nf_none [where k = 2 and p = dont_care_flags, OF op_ready_done [OF assms(1)] assms(2) keeps_modes(2)]) (simp_all add: i_TST_def)

lemma op_4abc_0_comp_nf_ok:
  assumes "op_ready (64 + t) E mi l" "no_flags 0xF mi mo"
  shows "translated t E mi mo l (op_4abc_0_comp_nf H E opcode l)
    (\<lambda>g. incpc 6 (i_TST (get_dilong H 2 g) g))"
proof -
  have u: "status l S1 = UNDEF" by (rule fresh_status [OF assms(1)])
  have e: "op_4abc_0_comp_nf H E opcode l = end_inst E (scratch_const (comp_get_ilong H l (l_m68k_pc_offset l + 2)) (dont_care_flags (use_scratch (add_pc_offset 6 l))))"
    by (simp add: op_4abc_0_comp_nf_def Let_def alloc_fresh [OF assms(1)] load_const u)
  show ?thesis unfolding e by (rule nf_scratch_none [OF assms(1,2)]) (simp_all add: i_TST_def)
qed

lemma op_8000_0_comp_nf_ok:
  assumes "op_ready (64 + t) E mi l" "no_flags 0xF mi mo"
  shows "translated t E mi mo l (op_8000_0_comp_nf H E opcode l)
    (\<lambda>g. incpc 2 (i_OR (fetch_reg (lo_reg opcode) g :: u8) (hi_reg opcode) g))"
  unfolding op_8000_0_comp_nf_def Let_def
  by (rule nf_plain [where k = 2 and p = dont_care_flags and q = "\<lambda>l. l", OF op_ready_done [OF assms(1)] assms(2) _ keeps_modes(2) keeps_modes(1) _ _ _ jnf_OR_b_ok])
    (simp_all add: i_logic_swap fetch_regs imm_view [OF op_ready_done [OF assms(1)]] op_done_ready [OF op_ready_done [OF assms(1)]] op_operand [OF op_ready_done [OF assms(1)]])

lemma op_803c_0_comp_nf_ok:
  assumes "op_ready (64 + t) E mi l" "no_flags 0xF mi mo"
  shows "translated t E mi mo l (op_803c_0_comp_nf H E opcode l)
    (\<lambda>g. incpc 4 (i_OR (get_dibyte H 2 g) (hi_reg opcode) g))"
  unfolding op_803c_0_comp_nf_def Let_def add_pc_offset_simps comp_get_offset numeral_plus_numeral semiring_norm
  by (rule nf_plain [where k = 4 and p = dont_care_flags and q = "\<lambda>l. l", OF op_ready_done [OF assms(1)] assms(2) _ keeps_modes(2) keeps_modes(1) _ _ _ jnf_OR_b_imm_ok])
    (simp_all add: i_logic_swap fetch_regs imm_view [OF op_ready_done [OF assms(1)]] op_done_ready [OF op_ready_done [OF assms(1)]] op_operand [OF op_ready_done [OF assms(1)]])

lemma op_8040_0_comp_nf_ok:
  assumes "op_ready (64 + t) E mi l" "no_flags 0xF mi mo"
  shows "translated t E mi mo l (op_8040_0_comp_nf H E opcode l)
    (\<lambda>g. incpc 2 (i_OR (fetch_reg (lo_reg opcode) g :: u16) (hi_reg opcode) g))"
  unfolding op_8040_0_comp_nf_def Let_def
  by (rule nf_plain [where k = 2 and p = dont_care_flags and q = "\<lambda>l. l", OF op_ready_done [OF assms(1)] assms(2) _ keeps_modes(2) keeps_modes(1) _ _ _ jnf_OR_w_ok])
    (simp_all add: i_logic_swap fetch_regs imm_view [OF op_ready_done [OF assms(1)]] op_done_ready [OF op_ready_done [OF assms(1)]] op_operand [OF op_ready_done [OF assms(1)]])

lemma op_807c_0_comp_nf_ok:
  assumes "op_ready (64 + t) E mi l" "no_flags 0xF mi mo"
  shows "translated t E mi mo l (op_807c_0_comp_nf H E opcode l)
    (\<lambda>g. incpc 4 (i_OR (get_diword H 2 g) (hi_reg opcode) g))"
  unfolding op_807c_0_comp_nf_def Let_def add_pc_offset_simps comp_get_offset numeral_plus_numeral semiring_norm
  by (rule nf_plain [where k = 4 and p = dont_care_flags and q = "\<lambda>l. l", OF op_ready_done [OF assms(1)] assms(2) _ keeps_modes(2) keeps_modes(1) _ _ _ jnf_OR_w_imm_ok])
    (simp_all add: i_logic_swap fetch_regs imm_view [OF op_ready_done [OF assms(1)]] op_done_ready [OF op_ready_done [OF assms(1)]] op_operand [OF op_ready_done [OF assms(1)]])

lemma op_8080_0_comp_nf_ok:
  assumes "op_ready (64 + t) E mi l" "no_flags 0xF mi mo"
  shows "translated t E mi mo l (op_8080_0_comp_nf H E opcode l)
    (\<lambda>g. incpc 2 (i_OR (fetch_reg (lo_reg opcode) g :: u32) (hi_reg opcode) g))"
  unfolding op_8080_0_comp_nf_def Let_def
  by (rule nf_plain [where k = 2 and p = dont_care_flags and q = "\<lambda>l. l", OF op_ready_done [OF assms(1)] assms(2) _ keeps_modes(2) keeps_modes(1) _ _ _ jnf_OR_l_ok])
    (simp_all add: i_logic_swap fetch_regs imm_view [OF op_ready_done [OF assms(1)]] op_done_ready [OF op_ready_done [OF assms(1)]] op_operand [OF op_ready_done [OF assms(1)]])

lemma op_80bc_0_comp_nf_ok:
  assumes "op_ready (64 + t) E mi l" "no_flags 0xF mi mo"
  shows "translated t E mi mo l (op_80bc_0_comp_nf H E opcode l)
    (\<lambda>g. incpc 6 (i_OR (get_dilong H 2 g) (hi_reg opcode) g))"
  unfolding op_80bc_0_comp_nf_def Let_def add_pc_offset_simps comp_get_offset numeral_plus_numeral semiring_norm
  by (rule nf_plain [where k = 6 and p = dont_care_flags and q = "\<lambda>l. l", OF op_ready_done [OF assms(1)] assms(2) _ keeps_modes(2) keeps_modes(1) _ _ _ jnf_OR_l_imm_ok])
    (simp_all add: i_logic_swap fetch_regs imm_view [OF op_ready_done [OF assms(1)]] op_done_ready [OF op_ready_done [OF assms(1)]] op_operand [OF op_ready_done [OF assms(1)]])

lemma op_b100_0_comp_nf_ok:
  assumes "op_ready (64 + t) E mi l" "no_flags 0xF mi mo"
  shows "translated t E mi mo l (op_b100_0_comp_nf H E opcode l)
    (\<lambda>g. incpc 2 (i_EOR (fetch_reg (hi_reg opcode) g :: u8) (lo_reg opcode) g))"
  unfolding op_b100_0_comp_nf_def Let_def
  by (rule nf_plain [where k = 2 and p = dont_care_flags and q = "\<lambda>l. l", OF op_ready_done [OF assms(1)] assms(2) _ keeps_modes(2) keeps_modes(1) _ _ _ jnf_EOR_b_ok])
    (simp_all add: i_logic_swap fetch_regs imm_view [OF op_ready_done [OF assms(1)]] op_done_ready [OF op_ready_done [OF assms(1)]] op_operand [OF op_ready_done [OF assms(1)]])

lemma op_b140_0_comp_nf_ok:
  assumes "op_ready (64 + t) E mi l" "no_flags 0xF mi mo"
  shows "translated t E mi mo l (op_b140_0_comp_nf H E opcode l)
    (\<lambda>g. incpc 2 (i_EOR (fetch_reg (hi_reg opcode) g :: u16) (lo_reg opcode) g))"
  unfolding op_b140_0_comp_nf_def Let_def
  by (rule nf_plain [where k = 2 and p = dont_care_flags and q = "\<lambda>l. l", OF op_ready_done [OF assms(1)] assms(2) _ keeps_modes(2) keeps_modes(1) _ _ _ jnf_EOR_w_ok])
    (simp_all add: i_logic_swap fetch_regs imm_view [OF op_ready_done [OF assms(1)]] op_done_ready [OF op_ready_done [OF assms(1)]] op_operand [OF op_ready_done [OF assms(1)]])

lemma op_b180_0_comp_nf_ok:
  assumes "op_ready (64 + t) E mi l" "no_flags 0xF mi mo"
  shows "translated t E mi mo l (op_b180_0_comp_nf H E opcode l)
    (\<lambda>g. incpc 2 (i_EOR (fetch_reg (hi_reg opcode) g :: u32) (lo_reg opcode) g))"
  unfolding op_b180_0_comp_nf_def Let_def
  by (rule nf_plain [where k = 2 and p = dont_care_flags and q = "\<lambda>l. l", OF op_ready_done [OF assms(1)] assms(2) _ keeps_modes(2) keeps_modes(1) _ _ _ jnf_EOR_l_ok])
    (simp_all add: i_logic_swap fetch_regs imm_view [OF op_ready_done [OF assms(1)]] op_done_ready [OF op_ready_done [OF assms(1)]] op_operand [OF op_ready_done [OF assms(1)]])

lemma op_c000_0_comp_nf_ok:
  assumes "op_ready (64 + t) E mi l" "no_flags 0xF mi mo"
  shows "translated t E mi mo l (op_c000_0_comp_nf H E opcode l)
    (\<lambda>g. incpc 2 (i_AND (fetch_reg (lo_reg opcode) g :: u8) (hi_reg opcode) g))"
  unfolding op_c000_0_comp_nf_def Let_def
  by (rule nf_plain [where k = 2 and p = dont_care_flags and q = "\<lambda>l. l", OF op_ready_done [OF assms(1)] assms(2) _ keeps_modes(2) keeps_modes(1) _ _ _ jnf_AND_b_ok])
    (simp_all add: i_logic_swap fetch_regs imm_view [OF op_ready_done [OF assms(1)]] op_done_ready [OF op_ready_done [OF assms(1)]] op_operand [OF op_ready_done [OF assms(1)]])

lemma op_c03c_0_comp_nf_ok:
  assumes "op_ready (64 + t) E mi l" "no_flags 0xF mi mo"
  shows "translated t E mi mo l (op_c03c_0_comp_nf H E opcode l)
    (\<lambda>g. incpc 4 (i_AND (get_dibyte H 2 g) (hi_reg opcode) g))"
  unfolding op_c03c_0_comp_nf_def Let_def add_pc_offset_simps comp_get_offset numeral_plus_numeral semiring_norm
  by (rule nf_plain [where k = 4 and p = dont_care_flags and q = "\<lambda>l. l", OF op_ready_done [OF assms(1)] assms(2) _ keeps_modes(2) keeps_modes(1) _ _ _ jnf_AND_b_imm_ok])
    (simp_all add: i_logic_swap fetch_regs imm_view [OF op_ready_done [OF assms(1)]] op_done_ready [OF op_ready_done [OF assms(1)]] op_operand [OF op_ready_done [OF assms(1)]])

lemma op_c040_0_comp_nf_ok:
  assumes "op_ready (64 + t) E mi l" "no_flags 0xF mi mo"
  shows "translated t E mi mo l (op_c040_0_comp_nf H E opcode l)
    (\<lambda>g. incpc 2 (i_AND (fetch_reg (lo_reg opcode) g :: u16) (hi_reg opcode) g))"
  unfolding op_c040_0_comp_nf_def Let_def
  by (rule nf_plain [where k = 2 and p = dont_care_flags and q = "\<lambda>l. l", OF op_ready_done [OF assms(1)] assms(2) _ keeps_modes(2) keeps_modes(1) _ _ _ jnf_AND_w_ok])
    (simp_all add: i_logic_swap fetch_regs imm_view [OF op_ready_done [OF assms(1)]] op_done_ready [OF op_ready_done [OF assms(1)]] op_operand [OF op_ready_done [OF assms(1)]])

lemma op_c07c_0_comp_nf_ok:
  assumes "op_ready (64 + t) E mi l" "no_flags 0xF mi mo"
  shows "translated t E mi mo l (op_c07c_0_comp_nf H E opcode l)
    (\<lambda>g. incpc 4 (i_AND (get_diword H 2 g) (hi_reg opcode) g))"
  unfolding op_c07c_0_comp_nf_def Let_def add_pc_offset_simps comp_get_offset numeral_plus_numeral semiring_norm
  by (rule nf_plain [where k = 4 and p = dont_care_flags and q = "\<lambda>l. l", OF op_ready_done [OF assms(1)] assms(2) _ keeps_modes(2) keeps_modes(1) _ _ _ jnf_AND_w_imm_ok])
    (simp_all add: i_logic_swap fetch_regs imm_view [OF op_ready_done [OF assms(1)]] op_done_ready [OF op_ready_done [OF assms(1)]] op_operand [OF op_ready_done [OF assms(1)]])

lemma op_c080_0_comp_nf_ok:
  assumes "op_ready (64 + t) E mi l" "no_flags 0xF mi mo"
  shows "translated t E mi mo l (op_c080_0_comp_nf H E opcode l)
    (\<lambda>g. incpc 2 (i_AND (fetch_reg (lo_reg opcode) g :: u32) (hi_reg opcode) g))"
  unfolding op_c080_0_comp_nf_def Let_def
  by (rule nf_plain [where k = 2 and p = dont_care_flags and q = "\<lambda>l. l", OF op_ready_done [OF assms(1)] assms(2) _ keeps_modes(2) keeps_modes(1) _ _ _ jnf_AND_l_ok])
    (simp_all add: i_logic_swap fetch_regs imm_view [OF op_ready_done [OF assms(1)]] op_done_ready [OF op_ready_done [OF assms(1)]] op_operand [OF op_ready_done [OF assms(1)]])

lemma op_c0bc_0_comp_nf_ok:
  assumes "op_ready (64 + t) E mi l" "no_flags 0xF mi mo"
  shows "translated t E mi mo l (op_c0bc_0_comp_nf H E opcode l)
    (\<lambda>g. incpc 6 (i_AND (get_dilong H 2 g) (hi_reg opcode) g))"
  unfolding op_c0bc_0_comp_nf_def Let_def add_pc_offset_simps comp_get_offset numeral_plus_numeral semiring_norm
  by (rule nf_plain [where k = 6 and p = dont_care_flags and q = "\<lambda>l. l", OF op_ready_done [OF assms(1)] assms(2) _ keeps_modes(2) keeps_modes(1) _ _ _ jnf_AND_l_imm_ok])
    (simp_all add: i_logic_swap fetch_regs imm_view [OF op_ready_done [OF assms(1)]] op_done_ready [OF op_ready_done [OF assms(1)]] op_operand [OF op_ready_done [OF assms(1)]])

end
