(* ===== verification/Jit_Move.thy ===== *)
theory Jit_Move
  imports Jit_Copy
begin

unbundle bit_operations_syntax

text \<open>
  The data movement functions (compemu_midfunc_arm64_2.cpp): MOVE, MOVEA, EXT, SWAP and CLR. Some of
  them are folded at compile time when their operand is a known constant.
\<close>

definition jnf_MOVE_b_imm :: "jenv \<Rightarrow> nat \<Rightarrow> u32 \<Rightarrow> live \<Rightarrow> live option" where
  "jnf_MOVE_b_imm E d s l =
    (if isconst l d then Some (set_val d (((val_of l d) AND 0xFFFFFF00) OR (scast (s AND 0xFF))) l)
    else do {
      (d, l) \<leftarrow> rmw E d l;
      let l = emit [MOV_xi REG_WORK1 (ucast (s AND 0xFF)), BFI_wwii d REG_WORK1 0 8] l;
      unlock2 d l })"

definition jnf_MOVE_w_imm :: "jenv \<Rightarrow> nat \<Rightarrow> u32 \<Rightarrow> live \<Rightarrow> live option" where
  "jnf_MOVE_w_imm E d s l =
    (if isconst l d then Some (set_val d (((val_of l d) AND 0xFFFF0000) OR (scast (s AND 0xFFFF))) l)
    else do {
      (d, l) \<leftarrow> rmw E d l;
      let l = emit [MOVK_wi d (ucast (s AND 0xFFFF))] l;
      unlock2 d l })"

definition jnf_MOVE_b :: "jenv \<Rightarrow> nat \<Rightarrow> nat \<Rightarrow> live \<Rightarrow> live option" where
  "jnf_MOVE_b E d s l =
    (if s = d then Some l
    else if isconst l s then jnf_MOVE_b_imm E d (ucast (val_of l s)) l
    else do {
      let s_is_d = (s = d);
      (d, s, l) \<leftarrow> INIT_REGS E d s l;
      let l = emit [BFI_wwii d s 0 8] l;
      EXIT_REGS s_is_d d s l })"

definition jnf_MOVE_w :: "jenv \<Rightarrow> nat \<Rightarrow> nat \<Rightarrow> live \<Rightarrow> live option" where
  "jnf_MOVE_w E d s l =
    (if s = d then Some l
    else if isconst l s then jnf_MOVE_w_imm E d (ucast (val_of l s)) l
    else do {
      let s_is_d = (s = d);
      (d, s, l) \<leftarrow> INIT_REGS E d s l;
      let l = emit [BFI_wwii d s 0 16] l;
      EXIT_REGS s_is_d d s l })"

definition jnf_MOVE_l :: "jenv \<Rightarrow> nat \<Rightarrow> nat \<Rightarrow> live \<Rightarrow> live option" where
  "jnf_MOVE_l E d s l =
    mov_l_rr E d s l"

definition jnf_MOVEA_w_imm :: "jenv \<Rightarrow> nat \<Rightarrow> u32 \<Rightarrow> live \<Rightarrow> live option" where
  "jnf_MOVEA_w_imm E d v l =
    set_const E d (scast (scast (ucast v :: u16) :: u32)) l"

definition jnf_MOVEA_w :: "jenv \<Rightarrow> nat \<Rightarrow> nat \<Rightarrow> live \<Rightarrow> live option" where
  "jnf_MOVEA_w E d s l =
    (if isconst l s then jnf_MOVEA_w_imm E d (ucast (val_of l s)) l
    else do {
      let s_is_d = (s = d);
      (d, s, l) \<leftarrow> INIT_REGS E d s l;
      let l = emit (SIGNED16_REG_2_REG d s) l;
      EXIT_REGS s_is_d d s l })"

definition jnf_MOVEA_l :: "jenv \<Rightarrow> nat \<Rightarrow> nat \<Rightarrow> live \<Rightarrow> live option" where
  "jnf_MOVEA_l E d s l =
    mov_l_rr E d s l"

definition jff_MOVE_b_imm :: "jenv \<Rightarrow> nat \<Rightarrow> u32 \<Rightarrow> live \<Rightarrow> live option" where
  "jff_MOVE_b_imm E d s l =
    do {
      (d, l) \<leftarrow> rmw E d l;
      let l = emit ((if s AND 0x80 \<noteq> 0 then [MOVN_wi REG_WORK1 (ucast (ucast (NOT s) :: u8))]
        else [MOV_xi REG_WORK1 (ucast (ucast s :: u8))]) @ [TST_ww REG_WORK1 REG_WORK1,
        BFI_wwii d REG_WORK1 0 8]) l;
      let l = set_carry_inverted False l;
      unlock2 d l }"

definition jff_MOVE_w_imm :: "jenv \<Rightarrow> nat \<Rightarrow> u32 \<Rightarrow> live \<Rightarrow> live option" where
  "jff_MOVE_w_imm E d s l =
    (if isconst l d then do {
      let l = set_val d (((val_of l d) AND 0xFFFF0000) OR (scast (s AND 0xFFFF))) l;
      let f = (if (scast (ucast s :: u16) :: u32) = 0 then drop_bit 16 ARM_Z_FLAG else 0)
        OR (if (scast (ucast s :: u16) :: u32) <s 0 then drop_bit 16 ARM_N_FLAG else 0);
      let l = emit [MOV_xish REG_WORK1 (ucast f) 16, MSR_NZCV_x REG_WORK1] l;
      Some (set_carry_inverted False l) }
    else do {
      (d, l) \<leftarrow> rmw E d l;
      let l = emit (SIGNED16_IMM_2_REG REG_WORK1 (ucast (ucast s :: u16))
        @ [TST_ww REG_WORK1 REG_WORK1, BFI_wwii d REG_WORK1 0 16]) l;
      let l = set_carry_inverted False l;
      unlock2 d l })"

definition jff_MOVE_l_imm :: "jenv \<Rightarrow> nat \<Rightarrow> u32 \<Rightarrow> live \<Rightarrow> live option" where
  "jff_MOVE_l_imm E d s l =
    do {
      l \<leftarrow> set_const E d (scast s) l;
      let f = (if s = 0 then drop_bit 16 ARM_Z_FLAG else 0) OR (if s <s 0 then drop_bit 16 ARM_N_FLAG else 0);
      let l = emit [MOV_xish REG_WORK1 (ucast f) 16, MSR_NZCV_x REG_WORK1] l;
      Some (set_carry_inverted False l) }"

definition jff_MOVE_b :: "jenv \<Rightarrow> nat \<Rightarrow> nat \<Rightarrow> live \<Rightarrow> live option" where
  "jff_MOVE_b E d s l =
    (if isconst l s then jff_MOVE_b_imm E d (ucast (val_of l s)) l
    else do {
      let s_is_d = (s = d);
      (d, s, l) \<leftarrow> (if \<not> s_is_d then do {
        (s, l) \<leftarrow> readreg E s l;
        (d, l) \<leftarrow> rmw E d l;
        Some (d, s, l) }
      else do {
        (d, l) \<leftarrow> readreg E d l;
        let s = d;
        Some (d, s, l) });
      let l = emit (SIGNED8_REG_2_REG REG_WORK1 s @ [TST_ww REG_WORK1 REG_WORK1]
        @ (if \<not> s_is_d then [BFI_wwii d REG_WORK1 0 8] else [])) l;
      let l = set_carry_inverted False l;
      EXIT_REGS s_is_d d s l })"

definition jff_MOVE_w :: "jenv \<Rightarrow> nat \<Rightarrow> nat \<Rightarrow> live \<Rightarrow> live option" where
  "jff_MOVE_w E d s l =
    (if isconst l s then jff_MOVE_w_imm E d (ucast (val_of l s)) l
    else do {
      let s_is_d = (s = d);
      (d, s, l) \<leftarrow> (if \<not> s_is_d then do {
        (s, l) \<leftarrow> readreg E s l;
        (d, l) \<leftarrow> rmw E d l;
        Some (d, s, l) }
      else do {
        (d, l) \<leftarrow> readreg E d l;
        let s = d;
        Some (d, s, l) });
      let l = emit (SIGNED16_REG_2_REG REG_WORK1 s @ [TST_ww REG_WORK1 REG_WORK1]
        @ (if \<not> s_is_d then [BFI_wwii d REG_WORK1 0 16] else [])) l;
      let l = set_carry_inverted False l;
      EXIT_REGS s_is_d d s l })"

definition jff_MOVE_l :: "jenv \<Rightarrow> nat \<Rightarrow> nat \<Rightarrow> live \<Rightarrow> live option" where
  "jff_MOVE_l E d s l =
    (if isconst l s then jff_MOVE_l_imm E d (ucast (val_of l s)) l
    else do {
      let s_is_d = (s = d);
      (s, l) \<leftarrow> readreg E s l;
      (d, l) \<leftarrow> (if \<not> s_is_d then do {
        (d, l) \<leftarrow> writereg E d l;
        let l = emit [MOV_ww d s] l;
        Some (d, l) }
      else Some (d, l));
      let l = emit [TST_ww s s] l;
      let l = set_carry_inverted False l;
      l \<leftarrow> (if \<not> s_is_d then unlock2 d l
      else Some l);
      unlock2 s l })"

definition jnf_EXT_b :: "jenv \<Rightarrow> nat \<Rightarrow> live \<Rightarrow> live option" where
  "jnf_EXT_b E d l =
    (if isconst l d then Some (set_val d (scast (scast (ucast (val_of l d) :: u8) :: u32)) l)
    else do {
      (d, l) \<leftarrow> rmw E d l;
      let l = emit (SIGNED8_REG_2_REG d d) l;
      unlock2 d l })"

definition jnf_EXT_w :: "jenv \<Rightarrow> nat \<Rightarrow> live \<Rightarrow> live option" where
  "jnf_EXT_w E d l =
    (if isconst l d then Some (set_val d (((val_of l d) AND 0xFFFF0000)
      OR (scast ((scast (ucast (val_of l d) :: u8) :: u32) AND 0xFFFF))) l)
    else do {
      (d, l) \<leftarrow> rmw E d l;
      let l = emit (SIGNED8_REG_2_REG REG_WORK1 d @ [BFI_wwii d REG_WORK1 0 16]) l;
      unlock2 d l })"

definition jnf_EXT_l :: "jenv \<Rightarrow> nat \<Rightarrow> live \<Rightarrow> live option" where
  "jnf_EXT_l E d l =
    (if isconst l d then Some (set_val d (scast (scast (ucast (val_of l d) :: u16) :: u32)) l)
    else do {
      (d, l) \<leftarrow> rmw E d l;
      let l = emit (SIGNED16_REG_2_REG d d) l;
      unlock2 d l })"

definition jff_EXT_b :: "jenv \<Rightarrow> nat \<Rightarrow> live \<Rightarrow> live option" where
  "jff_EXT_b E d l =
    do {
      (d, l) \<leftarrow> (if isconst l d then do {
        let tmp = (ucast (val_of l d) :: u8);
        (d, l) \<leftarrow> writereg E d l;
        let l = emit (SIGNED8_IMM_2_REG d (ucast tmp)) l;
        Some (d, l) }
      else do {
        (d, l) \<leftarrow> rmw E d l;
        let l = emit (SIGNED8_REG_2_REG d d) l;
        Some (d, l) });
      let l = emit [TST_ww d d] l;
      let l = set_carry_inverted False l;
      unlock2 d l }"

definition jff_EXT_w :: "jenv \<Rightarrow> nat \<Rightarrow> live \<Rightarrow> live option" where
  "jff_EXT_w E d l =
    do {
      (d, l) \<leftarrow> (if isconst l d then do {
        let tmp = (ucast (val_of l d) :: u8);
        (d, l) \<leftarrow> writereg E d l;
        let l = emit (SIGNED8_IMM_2_REG REG_WORK1 (ucast tmp)) l;
        Some (d, l) }
      else do {
        (d, l) \<leftarrow> rmw E d l;
        let l = emit (SIGNED8_REG_2_REG REG_WORK1 d) l;
        Some (d, l) });
      let l = emit [TST_ww REG_WORK1 REG_WORK1, BFI_wwii d REG_WORK1 0 16] l;
      let l = set_carry_inverted False l;
      unlock2 d l }"

definition jff_EXT_l :: "jenv \<Rightarrow> nat \<Rightarrow> live \<Rightarrow> live option" where
  "jff_EXT_l E d l =
    (if isconst l d then do {
      let l = set_val d (scast (scast (ucast (val_of l d) :: u16) :: u32)) l;
      let f = (if (ucast (val_of l d) :: u32) = 0 then drop_bit 16 ARM_Z_FLAG else 0)
        OR (if (ucast (val_of l d) :: u32) <s 0 then drop_bit 16 ARM_N_FLAG else 0);
      let l = emit [MOV_xish REG_WORK1 (ucast f) 16, MSR_NZCV_x REG_WORK1] l;
      Some (set_carry_inverted False l) }
    else do {
      (d, l) \<leftarrow> rmw E d l;
      let l = emit (SIGNED16_REG_2_REG d d @ [TST_ww d d]) l;
      let l = set_carry_inverted False l;
      unlock2 d l })"

definition jnf_SWAP :: "jenv \<Rightarrow> nat \<Rightarrow> live \<Rightarrow> live option" where
  "jnf_SWAP E d l =
    (if isconst l d then Some (set_val d ((drop_bit 16 (val_of l d)) OR (push_bit 16 (val_of l d))) l)
    else do {
      (d, l) \<leftarrow> rmw E d l;
      let l = emit [ROR_wwi d d 16] l;
      unlock2 d l })"

definition jff_SWAP :: "jenv \<Rightarrow> nat \<Rightarrow> live \<Rightarrow> live option" where
  "jff_SWAP E d l =
    (if isconst l d then do {
      let l = set_val d ((drop_bit 16 (val_of l d)) OR (push_bit 16 (val_of l d))) l;
      let f = (if (ucast (val_of l d) :: u32) = 0 then drop_bit 16 ARM_Z_FLAG else 0)
        OR (if (ucast (val_of l d) :: u32) <s 0 then drop_bit 16 ARM_N_FLAG else 0);
      let l = emit [MOV_xish REG_WORK1 (ucast f) 16, MSR_NZCV_x REG_WORK1] l;
      Some (set_carry_inverted False l) }
    else do {
      (d, l) \<leftarrow> rmw E d l;
      let l = emit [ROR_wwi d d 16, TST_ww d d] l;
      let l = set_carry_inverted False l;
      unlock2 d l })"

definition jnf_CLR_b :: "jenv \<Rightarrow> nat \<Rightarrow> live \<Rightarrow> live option" where
  "jnf_CLR_b E d l =
    (if d \<ge> 16 then set_const E d 0 l
    else do {
      (d, l) \<leftarrow> INIT_WREG E d l;
      let l = emit [CLEAR_LOW8_xx d d, MOV_ww d d] l;
      unlock2 d l })"

definition jnf_CLR_w :: "jenv \<Rightarrow> nat \<Rightarrow> live \<Rightarrow> live option" where
  "jnf_CLR_w E d l =
    (if d \<ge> 16 then set_const E d 0 l
    else do {
      (d, l) \<leftarrow> INIT_WREG E d l;
      let l = emit [CLEAR_LOW16_xx d d, MOV_ww d d] l;
      unlock2 d l })"

definition jnf_CLR_l :: "jenv \<Rightarrow> nat \<Rightarrow> live \<Rightarrow> live option" where
  "jnf_CLR_l E d l =
    set_const E d 0 l"

definition jff_CLR_b :: "jenv \<Rightarrow> nat \<Rightarrow> live \<Rightarrow> live option" where
  "jff_CLR_b E d l =
    do {
      let l = emit [MOV_xish REG_WORK1 0x4000 16, MSR_NZCV_x REG_WORK1] l;
      let l = set_carry_inverted False l;
      if d \<ge> 16 then set_const E d 0 l
      else do {
        (d, l) \<leftarrow> INIT_WREG E d l;
        let l = emit [CLEAR_LOW8_xx d d, MOV_ww d d] l;
        unlock2 d l } }"

definition jff_CLR_w :: "jenv \<Rightarrow> nat \<Rightarrow> live \<Rightarrow> live option" where
  "jff_CLR_w E d l =
    do {
      let l = emit [MOV_xish REG_WORK1 0x4000 16, MSR_NZCV_x REG_WORK1] l;
      let l = set_carry_inverted False l;
      if d \<ge> 16 then set_const E d 0 l
      else do {
        (d, l) \<leftarrow> INIT_WREG E d l;
        let l = emit [CLEAR_LOW16_xx d d, MOV_ww d d] l;
        unlock2 d l } }"

definition jff_CLR_l :: "jenv \<Rightarrow> nat \<Rightarrow> live \<Rightarrow> live option" where
  "jff_CLR_l E d l =
    do {
      let l = emit [MOV_xish REG_WORK1 0x4000 16, MSR_NZCV_x REG_WORK1] l;
      let l = set_carry_inverted False l;
      set_const E d 0 l }"

section \<open>Correctness\<close>

lemma jnf_MOVE_b_imm_ok:
  assumes "ready t E l" "operand d l"
  shows "generates {} t E l (jnf_MOVE_b_imm E d s l) (l_flags_carry_inverted l)
    (plain_effect d (\<lambda>V. ucast s :: u8))"
  unfolding jnf_MOVE_b_imm_def Let_def
  by (rule plain_imm [OF assms]) (simp_all add: code_simps sext_logical same_low_def)

lemma jnf_MOVE_b_ok:
  assumes "ready t E l" "operand d l" "operand s l"
  shows "generates {} t E l (jnf_MOVE_b E d s l) (l_flags_carry_inverted l)
    (plain_effect d (\<lambda>V. ucast (V s) :: u8))"
  unfolding jnf_MOVE_b_def Let_def
  by (rule generates_ifI [OF generates_id [OF assms(1)] plain_reg [OF assms _ _ jnf_MOVE_b_imm_ok [OF assms(1,2)]]])
    (simp_all add: code_simps same_low_def writes_def)

lemma jnf_MOVE_w_imm_ok:
  assumes "ready t E l" "operand d l"
  shows "generates {} t E l (jnf_MOVE_w_imm E d s l) (l_flags_carry_inverted l)
    (plain_effect d (\<lambda>V. ucast s :: u16))"
  unfolding jnf_MOVE_w_imm_def Let_def
  by (rule plain_imm [OF assms]) (simp_all add: code_simps sext_logical same_low_def)

lemma jnf_MOVE_w_ok:
  assumes "ready t E l" "operand d l" "operand s l"
  shows "generates {} t E l (jnf_MOVE_w E d s l) (l_flags_carry_inverted l)
    (plain_effect d (\<lambda>V. ucast (V s) :: u16))"
  unfolding jnf_MOVE_w_def Let_def
  by (rule generates_ifI [OF generates_id [OF assms(1)] plain_reg [OF assms _ _ jnf_MOVE_w_imm_ok [OF assms(1,2)]]])
    (simp_all add: code_simps same_low_def writes_def)

lemma jnf_MOVE_l_ok:
  assumes "ready t E l" "operand d l" "operand s l"
  shows "generates {} t E l (jnf_MOVE_l E d s l) (l_flags_carry_inverted l)
    (plain_effect d (\<lambda>V. ucast (V s) :: u32))"
  unfolding jnf_MOVE_l_def by (rule mov_l_rr_ok [OF assms(1) _ _ assms(3)]) (use assms(2) in \<open>simp_all add: operand_def\<close>)

lemma jnf_MOVEA_w_imm_ok:
  assumes "ready t E l" "operand d l"
  shows "generates {} t E l (jnf_MOVEA_w_imm E d v l) (l_flags_carry_inverted l)
    (plain_effect d (\<lambda>V. scast (ucast v :: u16) :: u32))"
  unfolding jnf_MOVEA_w_imm_def
  by (rule generates_mono [OF generates_le [OF set_const_ok [OF assms(1)]]])
    (use assms(2) in \<open>simp_all add: operand_def plain_effect_def writes_upd\<close>)

lemma jnf_MOVEA_w_ok:
  assumes "ready t E l" "operand d l" "operand s l"
  shows "generates {} t E l (jnf_MOVEA_w E d s l) (l_flags_carry_inverted l)
    (plain_effect d (\<lambda>V. scast (ucast (V s) :: u16) :: u32))"
  unfolding jnf_MOVEA_w_def Let_def
  by (rule plain_reg [OF assms _ _ jnf_MOVEA_w_imm_ok [OF assms(1,2)]]) (simp_all add: code_simps sext_logical same_low_def)

lemma jnf_MOVEA_l_ok:
  assumes "ready t E l" "operand d l" "operand s l"
  shows "generates {} t E l (jnf_MOVEA_l E d s l) (l_flags_carry_inverted l)
    (plain_effect d (\<lambda>V. ucast (V s) :: u32))"
  unfolding jnf_MOVEA_l_def by (rule mov_l_rr_ok [OF assms(1) _ _ assms(3)]) (use assms(2) in \<open>simp_all add: operand_def\<close>)

lemma jff_MOVE_b_imm_ok:
  assumes "ready t E l" "operand d l"
  shows "generates {} t E l (jff_MOVE_b_imm E d s l) False
    (logic_effect False d (\<lambda>V. ucast s :: u8))"
  unfolding jff_MOVE_b_imm_def Let_def
  by (rule op1f [OF assms]) (simp_all add: code_simps sext_logical same_low_def)

lemma jff_MOVE_w_imm_ok:
  assumes "ready t E l" "operand d l"
  shows "generates {} t E l (jff_MOVE_w_imm E d s l) False
    (logic_effect False d (\<lambda>V. ucast s :: u16))"
  unfolding jff_MOVE_w_imm_def Let_def
  by (rule generates_ifI [OF flag_word_logic [OF assms(1) _ assms(2)] op1f [OF assms]])
    (simp_all add: code_simps sext_logical flag_word_simps flag_logical_def sext_sign)

lemma jff_MOVE_l_imm_ok:
  assumes "ready t E l" "operand d l"
  shows "generates {} t E l (jff_MOVE_l_imm E d s l) False
    (logic_effect False d (\<lambda>V. s :: u32))"
  unfolding jff_MOVE_l_imm_def Let_def
  by (rule set_const_flags [OF assms]) (simp_all add: flag_word_simps flag_logical_def)

lemma jff_MOVE_b_ok:
  assumes "ready t E l" "operand d l" "operand s l"
  shows "generates {} t E l (jff_MOVE_b E d s l) False
    (logic_effect False d (\<lambda>V. ucast (V s) :: u8))"
  proof -
  consider (const) "isconst l s" | (same) "\<not> isconst l s" "s = d" | (other) "\<not> isconst l s" "s \<noteq> d" by blast
  then show ?thesis
  proof cases
    case const
    then show ?thesis unfolding jff_MOVE_b_def if_P [OF const]
      by (intro const_effect(2) [OF _ assms(3) jff_MOVE_b_imm_ok [OF assms(1,2)]]) (simp_all add: same_low_def)
  next
    case same
    let ?c = "\<lambda>n. SIGNED8_REG_2_REG REG_WORK1 n @ [TST_ww REG_WORK1 REG_WORK1]"
    have "jff_MOVE_b E d s l = do { (n, l1) \<leftarrow> readreg E d l; unlock2 n (set_carry_inverted False (emit (?c n) l1)) }"
      using same by (simp add: jff_MOVE_b_def Let_def EXIT_REGS_def join_simps case_prod_unfold)
    then show ?thesis using same
      by (simp only:) (rule rop1f [OF assms(1,2)], simp add: code_simps sext_logical writes_self)
  next
    case other
    let ?c = "\<lambda>d s. SIGNED8_REG_2_REG REG_WORK1 s @ [TST_ww REG_WORK1 REG_WORK1, BFI_wwii d REG_WORK1 0 8]"
    have "jff_MOVE_b E d s l = do { (dn, sn, l1) \<leftarrow> INIT_REGS E d s l;
        EXIT_REGS (s = d) dn sn (set_carry_inverted False (emit (?c dn sn) l1)) }"
      using other by (simp add: jff_MOVE_b_def Let_def INIT_REGS_def join_simps)
    then show ?thesis by (simp only:) (rule op2f [OF assms], simp add: code_simps sext_logical)
  qed
qed

lemma jff_MOVE_w_ok:
  assumes "ready t E l" "operand d l" "operand s l"
  shows "generates {} t E l (jff_MOVE_w E d s l) False
    (logic_effect False d (\<lambda>V. ucast (V s) :: u16))"
  proof -
  consider (const) "isconst l s" | (same) "\<not> isconst l s" "s = d" | (other) "\<not> isconst l s" "s \<noteq> d" by blast
  then show ?thesis
  proof cases
    case const
    then show ?thesis unfolding jff_MOVE_w_def if_P [OF const]
      by (intro const_effect(2) [OF _ assms(3) jff_MOVE_w_imm_ok [OF assms(1,2)]]) (simp_all add: same_low_def)
  next
    case same
    let ?c = "\<lambda>n. SIGNED16_REG_2_REG REG_WORK1 n @ [TST_ww REG_WORK1 REG_WORK1]"
    have "jff_MOVE_w E d s l = do { (n, l1) \<leftarrow> readreg E d l; unlock2 n (set_carry_inverted False (emit (?c n) l1)) }"
      using same by (simp add: jff_MOVE_w_def Let_def EXIT_REGS_def join_simps case_prod_unfold)
    then show ?thesis using same
      by (simp only:) (rule rop1f [OF assms(1,2)], simp add: code_simps sext_logical writes_self)
  next
    case other
    let ?c = "\<lambda>d s. SIGNED16_REG_2_REG REG_WORK1 s @ [TST_ww REG_WORK1 REG_WORK1, BFI_wwii d REG_WORK1 0 16]"
    have "jff_MOVE_w E d s l = do { (dn, sn, l1) \<leftarrow> INIT_REGS E d s l;
        EXIT_REGS (s = d) dn sn (set_carry_inverted False (emit (?c dn sn) l1)) }"
      using other by (simp add: jff_MOVE_w_def Let_def INIT_REGS_def join_simps)
    then show ?thesis by (simp only:) (rule op2f [OF assms], simp add: code_simps sext_logical)
  qed
qed

lemma jnf_EXT_b_ok:
  assumes "ready t E l" "operand d l"
  shows "generates {} t E l (jnf_EXT_b E d l) (l_flags_carry_inverted l)
    (plain_effect d (\<lambda>V. scast (ucast (V d) :: u8) :: u32))"
  unfolding jnf_EXT_b_def Let_def
  by (rule plain_imm [OF assms]) (simp_all add: code_simps sext_logical same_low_def)

lemma jff_EXT_b_ok:
  assumes "ready t E l" "operand d l"
  shows "generates {} t E l (jff_EXT_b E d l) False
    (logic_effect False d (\<lambda>V. scast (ucast (V d) :: u8) :: u32))"
  unfolding jff_EXT_b_def Let_def join_simps
  by (rule generates_ifI [OF const_effect(2) [OF _ assms(2) wop1f [OF assms(1)]] op1f [OF assms]])
    (use assms(2) in \<open>simp_all add: code_simps sext_logical same_low_def operand_def\<close>)

lemma jnf_EXT_w_ok:
  assumes "ready t E l" "operand d l"
  shows "generates {} t E l (jnf_EXT_w E d l) (l_flags_carry_inverted l)
    (plain_effect d (\<lambda>V. scast (ucast (V d) :: u8) :: u16))"
  unfolding jnf_EXT_w_def Let_def
  by (rule plain_imm [OF assms]) (simp_all add: code_simps sext_logical same_low_def)

lemma jff_EXT_w_ok:
  assumes "ready t E l" "operand d l" "\<not> isconst l d"
  shows "generates {} t E l (jff_EXT_w E d l) False
    (logic_effect False d (\<lambda>V. scast (ucast (V d) :: u8) :: u16))"
  unfolding jff_EXT_w_def Let_def join_simps if_not_P [OF assms(3)]
  by (rule op1f [OF assms(1,2)]) (simp add: code_simps sext_logical)

lemma jnf_EXT_l_ok:
  assumes "ready t E l" "operand d l"
  shows "generates {} t E l (jnf_EXT_l E d l) (l_flags_carry_inverted l)
    (plain_effect d (\<lambda>V. scast (ucast (V d) :: u16) :: u32))"
  unfolding jnf_EXT_l_def Let_def
  by (rule plain_imm [OF assms]) (simp_all add: code_simps sext_logical same_low_def)

lemma jff_EXT_l_ok:
  assumes "ready t E l" "operand d l"
  shows "generates {} t E l (jff_EXT_l E d l) False
    (logic_effect False d (\<lambda>V. scast (ucast (V d) :: u16) :: u32))"
  unfolding jff_EXT_l_def Let_def
  by (rule generates_ifI [OF flag_word_logic [OF assms(1) _ assms(2)] op1f [OF assms]])
    (simp_all add: code_simps sext_logical flag_word_simps flag_logical_def sext_sign)

lemma jnf_SWAP_ok:
  assumes "ready t E l" "operand d l" "isconst l d \<Longrightarrow> val_of l d < 0x100000000"
  shows "generates {} t E l (jnf_SWAP E d l) (l_flags_carry_inverted l)
    (plain_effect d (\<lambda>V. word_rotr 16 (ucast (V d) :: u32)))"
  unfolding jnf_SWAP_def Let_def
  by (rule plain_imm [OF assms(1,2)]) (simp_all add: code_simps same_low_def swap_const assms(3))

lemma jff_SWAP_ok:
  assumes "ready t E l" "operand d l" "isconst l d \<Longrightarrow> val_of l d < 0x100000000"
  shows "generates {} t E l (jff_SWAP E d l) False
    (logic_effect False d (\<lambda>V. word_rotr 16 (ucast (V d) :: u32)))"
  unfolding jff_SWAP_def Let_def
  by (rule generates_ifI [OF flag_word_logic [OF assms(1) _ assms(2)] op1f [OF assms(1,2)]])
    (simp_all add: code_simps flag_word_simps swap_const assms(3) flag_logical_def)

lemma jnf_CLR_b_ok:
  assumes "ready t E l" "operand d l"
  shows "generates {} t E l (jnf_CLR_b E d l) (l_flags_carry_inverted l)
    (plain_effect d (\<lambda>V. 0 :: u8))"
  unfolding jnf_CLR_b_def Let_def INIT_WREG_def
  by (rule clear_reg [OF assms]) (simp_all add: code_simps)

lemma jnf_CLR_w_ok:
  assumes "ready t E l" "operand d l"
  shows "generates {} t E l (jnf_CLR_w E d l) (l_flags_carry_inverted l)
    (plain_effect d (\<lambda>V. 0 :: u16))"
  unfolding jnf_CLR_w_def Let_def INIT_WREG_def
  by (rule clear_reg [OF assms]) (simp_all add: code_simps)

lemma jnf_CLR_l_ok:
  assumes "ready t E l" "operand d l"
  shows "generates {} t E l (jnf_CLR_l E d l) (l_flags_carry_inverted l)
    (plain_effect d (\<lambda>V. 0 :: u32))"
  unfolding jnf_CLR_l_def
  by (rule generates_mono [OF generates_le [OF set_const_ok [OF assms(1)]]])
    (use assms(2) in \<open>simp_all add: operand_def plain_effect_def writes_upd\<close>)

lemma jff_CLR_b_ok:
  assumes "ready t E l" "operand d l"
  shows "generates {} t E l (jff_CLR_b E d l) False
    (logic_effect False d (\<lambda>V. 0 :: u8))"
  proof -
  have "jff_CLR_b E d l = (Some (set_carry_inverted False (emit [MOV_xish REG_WORK1 0x4000 16, MSR_NZCV_x REG_WORK1] l))
      \<bind> jnf_CLR_b E d)"
    by (simp add: jff_CLR_b_def jnf_CLR_b_def Let_def)
  then show ?thesis using clear_flags [OF assms jnf_CLR_b_ok] by simp
qed

lemma jff_CLR_w_ok:
  assumes "ready t E l" "operand d l"
  shows "generates {} t E l (jff_CLR_w E d l) False
    (logic_effect False d (\<lambda>V. 0 :: u16))"
  proof -
  have "jff_CLR_w E d l = (Some (set_carry_inverted False (emit [MOV_xish REG_WORK1 0x4000 16, MSR_NZCV_x REG_WORK1] l))
      \<bind> jnf_CLR_w E d)"
    by (simp add: jff_CLR_w_def jnf_CLR_w_def Let_def)
  then show ?thesis using clear_flags [OF assms jnf_CLR_w_ok] by simp
qed

lemma jff_CLR_l_ok:
  assumes "ready t E l" "operand d l"
  shows "generates {} t E l (jff_CLR_l E d l) False
    (logic_effect False d (\<lambda>V. 0 :: u32))"
  proof -
  have "jff_CLR_l E d l = (Some (set_carry_inverted False (emit [MOV_xish REG_WORK1 0x4000 16, MSR_NZCV_x REG_WORK1] l))
      \<bind> jnf_CLR_l E d)"
    by (simp add: jff_CLR_l_def jnf_CLR_l_def Let_def)
  then show ?thesis using clear_flags [OF assms jnf_CLR_l_ok] by simp
qed

lemma jff_MOVE_l_ok:
  assumes "ready t E l" "operand d l" "operand s l"
  shows "generates {} t E l (jff_MOVE_l E d s l) False
    (logic_effect False d (\<lambda>V. ucast (V s) :: u32))"
  proof -
  consider (const) "isconst l s" | (same) "\<not> isconst l s" "s = d" | (other) "\<not> isconst l s" "s \<noteq> d" by blast
  then show ?thesis
  proof cases
    case const
    then show ?thesis unfolding jff_MOVE_l_def if_P [OF const]
      by (intro const_effect(2) [OF _ assms(3) jff_MOVE_l_imm_ok [OF assms(1,2)]]) (simp_all add: same_low_def)
  next
    case same
    then have "jff_MOVE_l E d s l = do { (n, l1) \<leftarrow> readreg E d l;
        unlock2 n (set_carry_inverted False (emit [TST_ww n n] l1)) }"
      by (simp add: jff_MOVE_l_def Let_def)
    then show ?thesis using same by (simp only:) (rule rop1f [OF assms(1,2)], simp add: code_simps writes_self)
  next
    case other
    then have "jff_MOVE_l E d s l = do { (sn, l1) \<leftarrow> readreg E s l; (dn, l1) \<leftarrow> writereg E d l1;
        l2 \<leftarrow> unlock2 dn (set_carry_inverted False (emit [MOV_ww dn sn, TST_ww sn sn] l1)); unlock2 sn l2 }"
      by (simp add: jff_MOVE_l_def Let_def case_prod_unfold)
    then show ?thesis using assms(2) other
      by (simp only:) (rule wop2f [OF assms(1) _ assms(3)], simp_all add: code_simps operand_def)
  qed
qed


end
