(* ===== verification/Op_Move.thy ===== *)
theory Op_Move
  imports Jit_Scratch Jit_Move
begin

unbundle bit_operations_syntax

text \<open>
  The opcode translators of compemu_arm.cpp for MOVE, MOVEA, MOVEQ, CLR, EXT, SWAP, EXG, LEA and NOP on
  registers and immediate operands, each with the lemma that its code does what the interpreter's
  instruction does.
\<close>

section \<open>Address and exchange\<close>

lemma keep_none:
  assumes R: "op_ready (64 + t) E m l" and k: "k \<le> 16" and K: "K = ucast k"
  shows "translated t E m m l (end_inst E (add_pc_offset k l)) (\<lambda>g. incpc K (i_NOP g))"
proof -
  let ?l = "add_pc_offset k l"
  have "ready (16 + t) E ?l" using op_done_ready [OF op_ready_done [OF R]] by simp
  then have G: "generates {} (16 + t) E ?l (Some ?l) (l_flags_carry_inverted l) (\<lambda>V f V' f'. V' = V \<and> f' = f)"
    using generates_id [of "16 + t" E ?l] by simp
  have "translated t E m m l (do { l2 \<leftarrow> Some ?l; end_inst E l2 }) (\<lambda>g. incpc K (i_NOP g))"
    by (rule keep_any [OF op_ready_done [OF R] k keeps_modes(1) refl G _ K]) (simp_all add: i_NOP_def)
  then show ?thesis by simp
qed

lemma move_unless_same:
  assumes "ready t E l" "d < 16" "operand s l"
  shows "generates {} t E l (if d \<noteq> s then mov_l_rr E d s l else Some l) (l_flags_carry_inverted l) (plain_effect d (\<lambda>V. ucast (V s) :: u32))"
proof (cases "d = s")
  case True
  then show ?thesis using generates_id [OF assms(1)] by (simp add: plain_effect_def writes_self)
next
  case False
  then show ?thesis using mov_l_rr_ok [OF assms(1) _ _ assms(3)] assms(2) by (simp add: jit_consts)
qed

definition exg_effect :: "nat \<Rightarrow> nat \<Rightarrow> effect" where
  "exg_effect s d V f V' f' \<longleftrightarrow> f' = f \<and> (\<forall>q. q \<noteq> s \<longrightarrow> q \<noteq> d \<longrightarrow> q \<noteq> S1 \<longrightarrow> V' q = V q) \<and>
     (ucast (V' d) :: u32) = ucast (V s) \<and> (s \<noteq> d \<longrightarrow> (ucast (V' s) :: u32) = ucast (V d))"

lemma seq_any:
  assumes "ready u E l" "generates {} (8 + t') E l r b' F"
    "\<And>l1. ready t' E l1 \<Longrightarrow> others_kept l l1 \<Longrightarrow> l_flags_carry_inverted l1 = b' \<Longrightarrow> r = Some l1 \<Longrightarrow> generates {} t E l1 (M l1) b G"
    "\<And>V f V1 f1 V' f'. F V f V1 f1 \<Longrightarrow> G V1 f1 V' f' \<Longrightarrow> H V f V' f'"
  shows "generates {} t E l (r \<bind> M) b H"
proof -
  have "generates {} t E l (r \<bind> M) b (\<lambda>V f V' f'. \<exists>V1 f1. F V f V1 f1 \<and> G V1 f1 V' f')"
  proof (rule generates_trans [OF assms(2)])
    fix l1
    assume l1: "r = Some l1" "compiled {} (8 + t') E l l1 F" "l_flags_carry_inverted l1 = b'"
    have "ready t' E l1" by (rule ready_compiled [OF assms(1) l1(2)])
    then show "generates {} t E l1 (M l1) b G" using assms(3) l1 by (simp add: compiled_def)
  qed
  then show ?thesis by (rule generates_mono) (use assms(4) in blast)
qed

lemma exchange_ok:
  assumes r: "ready (8 + (8 + t)) E l" and s: "s < 16" "operand s l" and d: "d < 16" "operand d l"
  shows "generates {} t E l (do { l1 \<leftarrow> mov_l_rr E S1 s l; l2 \<leftarrow> (if s \<noteq> d then mov_l_rr E s d l1 else Some l1);
      if d \<noteq> S1 then mov_l_rr E d S1 l2 else Some l2 }) (l_flags_carry_inverted l) (exg_effect s d)"
proof (rule seq_any [OF r])
  have S: "S1 < VREGS" "S1 \<noteq> PC_P" "s \<noteq> S1" "d \<noteq> S1" using s d by (simp_all add: jit_consts)
  show "generates {} (8 + (8 + t)) E l (mov_l_rr E S1 s l) (l_flags_carry_inverted l) (plain_effect S1 (\<lambda>V. ucast (V s) :: u32))"
    by (rule mov_l_rr_ok [OF r S(1,2) s(2)])
  fix l1
  assume r1: "ready (8 + t) E l1" and k1: "others_kept l l1" and c1: "l_flags_carry_inverted l1 = l_flags_carry_inverted l"
    and e1: "mov_l_rr E S1 s l = Some l1"
  have o1: "operand s l1" "operand d l1" using s d k1 by (auto simp: operand_def others_kept_def)
  have u1: "status l1 S1 \<noteq> UNDEF"
  proof -
    have "isconst l s \<Longrightarrow> status l1 S1 = ISCONST"
      using e1 S by (auto simp: mov_l_rr_def mov_l_ri_def set_const_def split: bind_splits)
    moreover have "\<not> isconst l s \<Longrightarrow> status l1 S1 = DIRTY"
      using e1 S by (auto simp: mov_l_rr_def unlock2_def split: bind_splits if_splits)
    ultimately show ?thesis by (cases "isconst l s") simp_all
  qed
  show "generates {} t E l1 (do { l2 \<leftarrow> (if s \<noteq> d then mov_l_rr E s d l1 else Some l1);
      if d \<noteq> S1 then mov_l_rr E d S1 l2 else Some l2 }) (l_flags_carry_inverted l)
      (\<lambda>V f V' f'. \<exists>V1. writes s (ucast (V d) :: u32) V V1 \<and> writes d (ucast (V1 S1) :: u32) V1 V' \<and> f' = f)"
  proof (rule seq_any [OF r1])
    show "generates {} (8 + t) E l1 (if s \<noteq> d then mov_l_rr E s d l1 else Some l1) (l_flags_carry_inverted l)
        (plain_effect s (\<lambda>V. ucast (V d) :: u32))"
      using move_unless_same [OF r1 s(1) o1(2)] c1 by simp
    fix l2
    assume r2: "ready t E l2" and k2: "others_kept l1 l2" and c2: "l_flags_carry_inverted l2 = l_flags_carry_inverted l"
    have "operand S1 l2" using u1 S k2 by (simp add: operand_def others_kept_def)
    from move_unless_same [OF r2 d(1) this]
    show "generates {} t E l2 (if d \<noteq> S1 then mov_l_rr E d S1 l2 else Some l2) (l_flags_carry_inverted l)
        (plain_effect d (\<lambda>V. ucast (V S1) :: u32))" unfolding c2 .
  qed (auto simp: plain_effect_def)
next
  have S: "s \<noteq> S1" "d \<noteq> S1" using s d by (simp_all add: jit_consts)
  fix V f V1 f1 V' f'
  assume F: "plain_effect S1 (\<lambda>V. ucast (V s) :: u32) V f V1 f1"
    and "\<exists>V2. writes s (ucast (V1 d) :: u32) V1 V2 \<and> writes d (ucast (V2 S1) :: u32) V2 V' \<and> f' = f1"
  then obtain V2 where V2: "writes s (ucast (V1 d) :: u32) V1 V2" "writes d (ucast (V2 S1) :: u32) V2 V'" "f' = f1" by blast
  have V1: "f1 = f" "\<And>q. q \<noteq> S1 \<Longrightarrow> V1 q = V q" "(ucast (V1 S1) :: u32) = ucast (V s)"
    using F by (simp_all add: plain_effect_def writes_def)
  have V2': "\<And>q. q \<noteq> s \<Longrightarrow> V2 q = V1 q" "(ucast (V2 s) :: u32) = ucast (V1 d)" using V2(1) by (simp_all add: writes_def)
  have V3: "\<And>q. q \<noteq> d \<Longrightarrow> V' q = V2 q" "(ucast (V' d) :: u32) = ucast (V2 S1)" using V2(2) by (simp_all add: writes_def)
  show "exg_effect s d V f V' f'"
    unfolding exg_effect_def using S V1 V2' V2(3) V3 by metis
qed

lemma keep_exg:
  assumes R: "op_ready (64 + t) E m l" and k: "k \<le> 16" and s: "s < 16" and d: "d < 16" and K: "K = ucast k"
  shows "translated t E m m l (do { l1 \<leftarrow> mov_l_rr E S1 s (use_scratch (add_pc_offset k l));
      l2 \<leftarrow> (if s \<noteq> d then mov_l_rr E s d l1 else Some l1);
      l3 \<leftarrow> (if d \<noteq> S1 then mov_l_rr E d S1 l2 else Some l2); end_inst E l3 }) (\<lambda>g. incpc K (i_EXG s d g))"
proof -
  let ?l = "use_scratch (add_pc_offset k l)"
  have r: "ready (8 + (8 + (16 + t))) E ?l" using op_done_ready [OF op_done_le [OF conjunct1 [OF R [unfolded op_ready_def]], of "32 + t"]] by simp
  have o: "operand s ?l" "operand d ?l" using op_operand [OF op_ready_done [OF R]] s d by simp_all
  have i: "l_flags_are_important (use_scratch x) = l_flags_are_important x" for x by (simp add: use_scratch_def)
  note G = exchange_ok [OF r s o(1) d o(2), unfolded use_scratch_simps add_pc_offset_simps]
  have "translated t E m m l (do { l3 \<leftarrow> do { l1 \<leftarrow> mov_l_rr E S1 s ?l; l2 \<leftarrow> (if s \<noteq> d then mov_l_rr E s d l1 else Some l1);
      if d \<noteq> S1 then mov_l_rr E d S1 l2 else Some l2 }; end_inst E l3 }) (\<lambda>g. incpc K (i_EXG s d g))"
  proof (rule keep_any [OF op_ready_done [OF R] k keeps_use_scratch(1) i G _ K])
    fix V f V' f' g
    assume v: "regs_view V g" and F: "exg_effect s d V f V' f'"
    have "NOT (mask 32 :: u32) = 0" by (rule bit_word_eqI) (simp add: bit_simps)
    then have "g_reg (i_EXG s d g) q = (if q = d then g_reg g s else if q = s then g_reg g d else g_reg g q)" for q
      by (simp add: i_EXG_def genastore_def fetch_reg_def)
    moreover have "q \<noteq> S1" if "q < 16" for q using that by (simp add: jit_consts)
    ultimately have "regs_view V' (i_EXG s d g)" using v F s d by (auto simp: regs_view_def exg_effect_def)
    moreover have "PC_P \<noteq> s" "PC_P \<noteq> d" "FLAGX \<noteq> s" "FLAGX \<noteq> d" "FLAGTMP \<noteq> s" "FLAGTMP \<noteq> d" using s d by (simp_all add: jit_consts)
    ultimately show "regs_view V' (i_EXG s d g) \<and> V' PC_P = V PC_P \<and> V' FLAGX = V FLAGX \<and> V' FLAGTMP = V FLAGTMP \<and> f' = f \<and>
        g_pc (i_EXG s d g) = g_pc g \<and> g_x (i_EXG s d g) = g_x g \<and> g_ccr (i_EXG s d g) = g_ccr g"
      using F by (simp add: exg_effect_def i_EXG_def scratch_view)
  qed
  then show ?thesis by (simp add: bind_assoc)
qed

section \<open>The translators\<close>

definition op_1000_0_comp_ff :: compop_func where
  "op_1000_0_comp_ff H E opcode l = do {
     let srcreg = unat (opcode AND 7); let dstreg = unat (drop_bit 9 opcode AND 7);
     let l = add_pc_offset 2 l; let src = srcreg; let dst = dstreg; let l = dont_care_flags l;
     l \<leftarrow> jff_MOVE_b E dst src l; let l = live_flags l; end_inst E l }"

definition op_103c_0_comp_ff :: compop_func where
  "op_103c_0_comp_ff H E opcode l = do {
     let dstreg = unat (drop_bit 9 opcode AND 7); let l = add_pc_offset 2 l;
     let src = (scast (comp_get_ibyte H l (l_m68k_pc_offset l)) :: u32); let l = add_pc_offset 2 l;
     let dst = dstreg; let l = dont_care_flags l; l \<leftarrow> jff_MOVE_b_imm E dst src l;
     let l = live_flags l; end_inst E l }"

definition op_2000_0_comp_ff :: compop_func where
  "op_2000_0_comp_ff H E opcode l = do {
     let srcreg = unat (opcode AND 7); let dstreg = unat (drop_bit 9 opcode AND 7);
     let l = add_pc_offset 2 l; let src = srcreg; let dst = dstreg; let l = dont_care_flags l;
     l \<leftarrow> jff_MOVE_l E dst src l; let l = live_flags l; end_inst E l }"

definition op_2008_0_comp_ff :: compop_func where
  "op_2008_0_comp_ff H E opcode l = do {
     let srcreg = unat (opcode AND 7); let dstreg = unat (drop_bit 9 opcode AND 7);
     let l = add_pc_offset 2 l; let src = srcreg + 8; let dst = dstreg; let l = dont_care_flags l;
     l \<leftarrow> jff_MOVE_l E dst src l; let l = live_flags l; end_inst E l }"

definition op_203c_0_comp_ff :: compop_func where
  "op_203c_0_comp_ff H E opcode l = do {
     let dstreg = unat (drop_bit 9 opcode AND 7); let l = add_pc_offset 2 l;
     let src = comp_get_ilong H l (l_m68k_pc_offset l); let l = add_pc_offset 4 l; let dst = dstreg;
     let l = dont_care_flags l; l \<leftarrow> jff_MOVE_l_imm E dst src l; let l = live_flags l;
     end_inst E l }"

definition op_2040_0_comp_ff :: compop_func where
  "op_2040_0_comp_ff H E opcode l = do {
     let srcreg = unat (opcode AND 7); let dstreg = unat (drop_bit 9 opcode AND 7);
     let l = add_pc_offset 2 l; let src = srcreg; let dst = dstreg + 8;
     l \<leftarrow> jnf_MOVEA_l E dst src l; end_inst E l }"

definition op_2048_0_comp_ff :: compop_func where
  "op_2048_0_comp_ff H E opcode l = do {
     let srcreg = unat (opcode AND 7); let dstreg = unat (drop_bit 9 opcode AND 7);
     let l = add_pc_offset 2 l; let src = srcreg + 8; let dst = dstreg + 8;
     l \<leftarrow> jnf_MOVEA_l E dst src l; end_inst E l }"

definition op_207c_0_comp_ff :: compop_func where
  "op_207c_0_comp_ff H E opcode l = do {
     let dstreg = unat (drop_bit 9 opcode AND 7); let l = add_pc_offset 2 l;
     (src, l) \<leftarrow> alloc_scratch l; let val = comp_get_ilong H l (l_m68k_pc_offset l);
     let l = add_pc_offset 4 l; l \<leftarrow> mov_l_ri E src (ucast (val :: u32)) l; let dst = dstreg + 8;
     l \<leftarrow> jnf_MOVEA_l E dst src l; end_inst E l }"

definition op_3000_0_comp_ff :: compop_func where
  "op_3000_0_comp_ff H E opcode l = do {
     let srcreg = unat (opcode AND 7); let dstreg = unat (drop_bit 9 opcode AND 7);
     let l = add_pc_offset 2 l; let src = srcreg; let dst = dstreg; let l = dont_care_flags l;
     l \<leftarrow> jff_MOVE_w E dst src l; let l = live_flags l; end_inst E l }"

definition op_3008_0_comp_ff :: compop_func where
  "op_3008_0_comp_ff H E opcode l = do {
     let srcreg = unat (opcode AND 7); let dstreg = unat (drop_bit 9 opcode AND 7);
     let l = add_pc_offset 2 l; let src = srcreg + 8; let dst = dstreg; let l = dont_care_flags l;
     l \<leftarrow> jff_MOVE_w E dst src l; let l = live_flags l; end_inst E l }"

definition op_303c_0_comp_ff :: compop_func where
  "op_303c_0_comp_ff H E opcode l = do {
     let dstreg = unat (drop_bit 9 opcode AND 7); let l = add_pc_offset 2 l;
     let src = (scast (comp_get_iword H l (l_m68k_pc_offset l)) :: u32); let l = add_pc_offset 2 l;
     let dst = dstreg; let l = dont_care_flags l; l \<leftarrow> jff_MOVE_w_imm E dst src l;
     let l = live_flags l; end_inst E l }"

definition op_3040_0_comp_ff :: compop_func where
  "op_3040_0_comp_ff H E opcode l = do {
     let srcreg = unat (opcode AND 7); let dstreg = unat (drop_bit 9 opcode AND 7);
     let l = add_pc_offset 2 l; let src = srcreg; let dst = dstreg + 8;
     l \<leftarrow> jnf_MOVEA_w E dst src l; end_inst E l }"

definition op_3048_0_comp_ff :: compop_func where
  "op_3048_0_comp_ff H E opcode l = do {
     let srcreg = unat (opcode AND 7); let dstreg = unat (drop_bit 9 opcode AND 7);
     let l = add_pc_offset 2 l; let src = srcreg + 8; let dst = dstreg + 8;
     l \<leftarrow> jnf_MOVEA_w E dst src l; end_inst E l }"

definition op_307c_0_comp_ff :: compop_func where
  "op_307c_0_comp_ff H E opcode l = do {
     let dstreg = unat (drop_bit 9 opcode AND 7); let l = add_pc_offset 2 l;
     (src, l) \<leftarrow> alloc_scratch l; let val = scast (comp_get_iword H l (l_m68k_pc_offset l));
     let l = add_pc_offset 2 l; l \<leftarrow> mov_l_ri E src (ucast (val :: u32)) l; let dst = dstreg + 8;
     l \<leftarrow> jnf_MOVEA_w E dst src l; end_inst E l }"

definition op_41d0_0_comp_ff :: compop_func where
  "op_41d0_0_comp_ff H E opcode l = do {
     let srcreg = unat (opcode AND 7); let dstreg = unat (drop_bit 9 opcode AND 7);
     let l = add_pc_offset 2 l; let srca = srcreg + 8; let dst = dstreg + 8;
     l \<leftarrow> (if dstreg + 8 \<noteq> srca then mov_l_rr E (dstreg + 8) srca l else Some l);
     end_inst E l }"

definition op_41f8_0_comp_ff :: compop_func where
  "op_41f8_0_comp_ff H E opcode l = do {
     let dstreg = unat (drop_bit 9 opcode AND 7); let l = add_pc_offset 2 l;
     (srca, l) \<leftarrow> alloc_scratch l; let val = scast (comp_get_iword H l (l_m68k_pc_offset l));
     let l = add_pc_offset 2 l; l \<leftarrow> mov_l_ri E srca (ucast (val :: u32)) l; let dst = dstreg + 8;
     l \<leftarrow> (if dstreg + 8 \<noteq> srca then mov_l_rr E (dstreg + 8) srca l else Some l);
     end_inst E l }"

definition op_41f9_0_comp_ff :: compop_func where
  "op_41f9_0_comp_ff H E opcode l = do {
     let dstreg = unat (drop_bit 9 opcode AND 7); let l = add_pc_offset 2 l;
     (srca, l) \<leftarrow> alloc_scratch l; let val = comp_get_ilong H l (l_m68k_pc_offset l);
     let l = add_pc_offset 4 l; l \<leftarrow> mov_l_ri E srca (ucast (val :: u32)) l; let dst = dstreg + 8;
     l \<leftarrow> (if dstreg + 8 \<noteq> srca then mov_l_rr E (dstreg + 8) srca l else Some l);
     end_inst E l }"

definition op_4200_0_comp_ff :: compop_func where
  "op_4200_0_comp_ff H E opcode l = do {
     let srcreg = unat (opcode AND 7); let l = add_pc_offset 2 l; let src = srcreg;
     let l = dont_care_flags l; l \<leftarrow> jff_CLR_b E src l; let l = live_flags l; end_inst E l }"

definition op_4240_0_comp_ff :: compop_func where
  "op_4240_0_comp_ff H E opcode l = do {
     let srcreg = unat (opcode AND 7); let l = add_pc_offset 2 l; let src = srcreg;
     let l = dont_care_flags l; l \<leftarrow> jff_CLR_w E src l; let l = live_flags l; end_inst E l }"

definition op_4280_0_comp_ff :: compop_func where
  "op_4280_0_comp_ff H E opcode l = do {
     let srcreg = unat (opcode AND 7); let l = add_pc_offset 2 l; let src = srcreg;
     let l = dont_care_flags l; l \<leftarrow> jff_CLR_l E src l; let l = live_flags l; end_inst E l }"

definition op_4840_0_comp_ff :: compop_func where
  "op_4840_0_comp_ff H E opcode l = do {
     let srcreg = unat (opcode AND 7); let l = add_pc_offset 2 l; let src = srcreg;
     let l = dont_care_flags l; l \<leftarrow> jff_SWAP E src l; let l = live_flags l;
     let l = forget_unneeded l; end_inst E l }"

definition op_4880_0_comp_ff :: compop_func where
  "op_4880_0_comp_ff H E opcode l = do {
     let srcreg = unat (opcode AND 7); let l = add_pc_offset 2 l; let src = srcreg;
     let l = dont_care_flags l; l \<leftarrow> jff_EXT_w E src l; let l = live_flags l; end_inst E l }"

definition op_48c0_0_comp_ff :: compop_func where
  "op_48c0_0_comp_ff H E opcode l = do {
     let srcreg = unat (opcode AND 7); let l = add_pc_offset 2 l; let src = srcreg;
     let l = dont_care_flags l; l \<leftarrow> jff_EXT_l E src l; let l = live_flags l; end_inst E l }"

definition op_49c0_0_comp_ff :: compop_func where
  "op_49c0_0_comp_ff H E opcode l = do {
     let srcreg = unat (opcode AND 7); let l = add_pc_offset 2 l; let src = srcreg;
     let l = dont_care_flags l; l \<leftarrow> jff_EXT_b E src l; let l = live_flags l; end_inst E l }"

definition op_4e71_0_comp_ff :: compop_func where
  "op_4e71_0_comp_ff H E opcode l = do {
     let l = add_pc_offset 2 l; end_inst E l }"

definition op_7000_0_comp_ff :: compop_func where
  "op_7000_0_comp_ff H E opcode l = do {
     let srcreg = (scast (ucast (opcode AND 255) :: u8) :: u32);
     let dstreg = unat (drop_bit 9 opcode AND 7); let l = add_pc_offset 2 l; let src = srcreg;
     let dst = dstreg; let l = dont_care_flags l; l \<leftarrow> jff_MOVE_l_imm E dst src l;
     let l = live_flags l; end_inst E l }"

definition op_c140_0_comp_ff :: compop_func where
  "op_c140_0_comp_ff H E opcode l = do {
     let srcreg = unat (drop_bit 9 opcode AND 7); let dstreg = unat (opcode AND 7);
     let l = add_pc_offset 2 l; let src = srcreg; let dst = dstreg; (tmp, l) \<leftarrow> alloc_scratch l;
     l \<leftarrow> mov_l_rr E tmp src l;
     l \<leftarrow> (if srcreg \<noteq> dst then mov_l_rr E srcreg dst l else Some l);
     l \<leftarrow> (if dstreg \<noteq> tmp then mov_l_rr E dstreg tmp l else Some l); end_inst E l }"

definition op_c148_0_comp_ff :: compop_func where
  "op_c148_0_comp_ff H E opcode l = do {
     let srcreg = unat (drop_bit 9 opcode AND 7); let dstreg = unat (opcode AND 7);
     let l = add_pc_offset 2 l; let src = srcreg + 8; let dst = dstreg + 8;
     (tmp, l) \<leftarrow> alloc_scratch l; l \<leftarrow> mov_l_rr E tmp src l;
     l \<leftarrow> (if srcreg + 8 \<noteq> dst then mov_l_rr E (srcreg + 8) dst l else Some l);
     l \<leftarrow> (if dstreg + 8 \<noteq> tmp then mov_l_rr E (dstreg + 8) tmp l else Some l);
     end_inst E l }"

definition op_c188_0_comp_ff :: compop_func where
  "op_c188_0_comp_ff H E opcode l = do {
     let srcreg = unat (drop_bit 9 opcode AND 7); let dstreg = unat (opcode AND 7);
     let l = add_pc_offset 2 l; let src = srcreg; let dst = dstreg + 8;
     (tmp, l) \<leftarrow> alloc_scratch l; l \<leftarrow> mov_l_rr E tmp src l;
     l \<leftarrow> (if srcreg \<noteq> dst then mov_l_rr E srcreg dst l else Some l);
     l \<leftarrow> (if dstreg + 8 \<noteq> tmp then mov_l_rr E (dstreg + 8) tmp l else Some l);
     end_inst E l }"

definition op_1000_0_comp_nf :: compop_func where
  "op_1000_0_comp_nf H E opcode l = do {
     let srcreg = unat (opcode AND 7); let dstreg = unat (drop_bit 9 opcode AND 7);
     let l = add_pc_offset 2 l; let src = srcreg; let dst = dstreg; let l = dont_care_flags l;
     l \<leftarrow> jnf_MOVE_b E dst src l; end_inst E l }"

definition op_103c_0_comp_nf :: compop_func where
  "op_103c_0_comp_nf H E opcode l = do {
     let dstreg = unat (drop_bit 9 opcode AND 7); let l = add_pc_offset 2 l;
     let src = (scast (comp_get_ibyte H l (l_m68k_pc_offset l)) :: u32); let l = add_pc_offset 2 l;
     let dst = dstreg; let l = dont_care_flags l; l \<leftarrow> jnf_MOVE_b_imm E dst src l; end_inst E l }"

definition op_2000_0_comp_nf :: compop_func where
  "op_2000_0_comp_nf H E opcode l = do {
     let srcreg = unat (opcode AND 7); let dstreg = unat (drop_bit 9 opcode AND 7);
     let l = add_pc_offset 2 l; let src = srcreg; let dst = dstreg; let l = dont_care_flags l;
     l \<leftarrow> jnf_MOVE_l E dst src l; end_inst E l }"

definition op_2008_0_comp_nf :: compop_func where
  "op_2008_0_comp_nf H E opcode l = do {
     let srcreg = unat (opcode AND 7); let dstreg = unat (drop_bit 9 opcode AND 7);
     let l = add_pc_offset 2 l; let src = srcreg + 8; let dst = dstreg; let l = dont_care_flags l;
     l \<leftarrow> jnf_MOVE_l E dst src l; end_inst E l }"

definition op_203c_0_comp_nf :: compop_func where
  "op_203c_0_comp_nf H E opcode l = do {
     let dstreg = unat (drop_bit 9 opcode AND 7); let l = add_pc_offset 2 l;
     (src, l) \<leftarrow> alloc_scratch l; let val = comp_get_ilong H l (l_m68k_pc_offset l);
     let l = add_pc_offset 4 l; l \<leftarrow> mov_l_ri E src (ucast (val :: u32)) l; let dst = dstreg;
     let l = dont_care_flags l; l \<leftarrow> jnf_MOVE_l E dst src l; end_inst E l }"

definition op_2040_0_comp_nf :: compop_func where
  "op_2040_0_comp_nf H E opcode l = do {
     let srcreg = unat (opcode AND 7); let dstreg = unat (drop_bit 9 opcode AND 7);
     let l = add_pc_offset 2 l; let src = srcreg; let dst = dstreg + 8;
     l \<leftarrow> jnf_MOVEA_l E dst src l; end_inst E l }"

definition op_2048_0_comp_nf :: compop_func where
  "op_2048_0_comp_nf H E opcode l = do {
     let srcreg = unat (opcode AND 7); let dstreg = unat (drop_bit 9 opcode AND 7);
     let l = add_pc_offset 2 l; let src = srcreg + 8; let dst = dstreg + 8;
     l \<leftarrow> jnf_MOVEA_l E dst src l; end_inst E l }"

definition op_207c_0_comp_nf :: compop_func where
  "op_207c_0_comp_nf H E opcode l = do {
     let dstreg = unat (drop_bit 9 opcode AND 7); let l = add_pc_offset 2 l;
     (src, l) \<leftarrow> alloc_scratch l; let val = comp_get_ilong H l (l_m68k_pc_offset l);
     let l = add_pc_offset 4 l; l \<leftarrow> mov_l_ri E src (ucast (val :: u32)) l; let dst = dstreg + 8;
     l \<leftarrow> jnf_MOVEA_l E dst src l; end_inst E l }"

definition op_3000_0_comp_nf :: compop_func where
  "op_3000_0_comp_nf H E opcode l = do {
     let srcreg = unat (opcode AND 7); let dstreg = unat (drop_bit 9 opcode AND 7);
     let l = add_pc_offset 2 l; let src = srcreg; let dst = dstreg; let l = dont_care_flags l;
     l \<leftarrow> jnf_MOVE_w E dst src l; end_inst E l }"

definition op_3008_0_comp_nf :: compop_func where
  "op_3008_0_comp_nf H E opcode l = do {
     let srcreg = unat (opcode AND 7); let dstreg = unat (drop_bit 9 opcode AND 7);
     let l = add_pc_offset 2 l; let src = srcreg + 8; let dst = dstreg; let l = dont_care_flags l;
     l \<leftarrow> jnf_MOVE_w E dst src l; end_inst E l }"

definition op_303c_0_comp_nf :: compop_func where
  "op_303c_0_comp_nf H E opcode l = do {
     let dstreg = unat (drop_bit 9 opcode AND 7); let l = add_pc_offset 2 l;
     let src = (scast (comp_get_iword H l (l_m68k_pc_offset l)) :: u32); let l = add_pc_offset 2 l;
     let dst = dstreg; let l = dont_care_flags l; l \<leftarrow> jnf_MOVE_w_imm E dst src l; end_inst E l }"

definition op_3040_0_comp_nf :: compop_func where
  "op_3040_0_comp_nf H E opcode l = do {
     let srcreg = unat (opcode AND 7); let dstreg = unat (drop_bit 9 opcode AND 7);
     let l = add_pc_offset 2 l; let src = srcreg; let dst = dstreg + 8;
     l \<leftarrow> jnf_MOVEA_w E dst src l; end_inst E l }"

definition op_3048_0_comp_nf :: compop_func where
  "op_3048_0_comp_nf H E opcode l = do {
     let srcreg = unat (opcode AND 7); let dstreg = unat (drop_bit 9 opcode AND 7);
     let l = add_pc_offset 2 l; let src = srcreg + 8; let dst = dstreg + 8;
     l \<leftarrow> jnf_MOVEA_w E dst src l; end_inst E l }"

definition op_307c_0_comp_nf :: compop_func where
  "op_307c_0_comp_nf H E opcode l = do {
     let dstreg = unat (drop_bit 9 opcode AND 7); let l = add_pc_offset 2 l;
     (src, l) \<leftarrow> alloc_scratch l; let val = scast (comp_get_iword H l (l_m68k_pc_offset l));
     let l = add_pc_offset 2 l; l \<leftarrow> mov_l_ri E src (ucast (val :: u32)) l; let dst = dstreg + 8;
     l \<leftarrow> jnf_MOVEA_w E dst src l; end_inst E l }"

definition op_41d0_0_comp_nf :: compop_func where
  "op_41d0_0_comp_nf H E opcode l = do {
     let srcreg = unat (opcode AND 7); let dstreg = unat (drop_bit 9 opcode AND 7);
     let l = add_pc_offset 2 l; let srca = srcreg + 8; let dst = dstreg + 8;
     l \<leftarrow> (if dstreg + 8 \<noteq> srca then mov_l_rr E (dstreg + 8) srca l else Some l);
     end_inst E l }"

definition op_41f8_0_comp_nf :: compop_func where
  "op_41f8_0_comp_nf H E opcode l = do {
     let dstreg = unat (drop_bit 9 opcode AND 7); let l = add_pc_offset 2 l;
     (srca, l) \<leftarrow> alloc_scratch l; let val = scast (comp_get_iword H l (l_m68k_pc_offset l));
     let l = add_pc_offset 2 l; l \<leftarrow> mov_l_ri E srca (ucast (val :: u32)) l; let dst = dstreg + 8;
     l \<leftarrow> (if dstreg + 8 \<noteq> srca then mov_l_rr E (dstreg + 8) srca l else Some l);
     end_inst E l }"

definition op_41f9_0_comp_nf :: compop_func where
  "op_41f9_0_comp_nf H E opcode l = do {
     let dstreg = unat (drop_bit 9 opcode AND 7); let l = add_pc_offset 2 l;
     (srca, l) \<leftarrow> alloc_scratch l; let val = comp_get_ilong H l (l_m68k_pc_offset l);
     let l = add_pc_offset 4 l; l \<leftarrow> mov_l_ri E srca (ucast (val :: u32)) l; let dst = dstreg + 8;
     l \<leftarrow> (if dstreg + 8 \<noteq> srca then mov_l_rr E (dstreg + 8) srca l else Some l);
     end_inst E l }"

definition op_4200_0_comp_nf :: compop_func where
  "op_4200_0_comp_nf H E opcode l = do {
     let srcreg = unat (opcode AND 7); let l = add_pc_offset 2 l; let src = srcreg;
     let l = dont_care_flags l; l \<leftarrow> jnf_CLR_b E src l; end_inst E l }"

definition op_4240_0_comp_nf :: compop_func where
  "op_4240_0_comp_nf H E opcode l = do {
     let srcreg = unat (opcode AND 7); let l = add_pc_offset 2 l; let src = srcreg;
     let l = dont_care_flags l; l \<leftarrow> jnf_CLR_w E src l; end_inst E l }"

definition op_4280_0_comp_nf :: compop_func where
  "op_4280_0_comp_nf H E opcode l = do {
     let srcreg = unat (opcode AND 7); let l = add_pc_offset 2 l; let src = srcreg;
     let l = dont_care_flags l; l \<leftarrow> jnf_CLR_l E src l; end_inst E l }"

definition op_4840_0_comp_nf :: compop_func where
  "op_4840_0_comp_nf H E opcode l = do {
     let srcreg = unat (opcode AND 7); let l = add_pc_offset 2 l; let src = srcreg;
     let l = dont_care_flags l; l \<leftarrow> jnf_SWAP E src l; end_inst E l }"

definition op_4880_0_comp_nf :: compop_func where
  "op_4880_0_comp_nf H E opcode l = do {
     let srcreg = unat (opcode AND 7); let l = add_pc_offset 2 l; let src = srcreg;
     let l = dont_care_flags l; l \<leftarrow> jnf_EXT_w E src l; end_inst E l }"

definition op_48c0_0_comp_nf :: compop_func where
  "op_48c0_0_comp_nf H E opcode l = do {
     let srcreg = unat (opcode AND 7); let l = add_pc_offset 2 l; let src = srcreg;
     let l = dont_care_flags l; l \<leftarrow> jnf_EXT_l E src l; end_inst E l }"

definition op_49c0_0_comp_nf :: compop_func where
  "op_49c0_0_comp_nf H E opcode l = do {
     let srcreg = unat (opcode AND 7); let l = add_pc_offset 2 l; let src = srcreg;
     let l = dont_care_flags l; l \<leftarrow> jnf_EXT_b E src l; end_inst E l }"

definition op_4e71_0_comp_nf :: compop_func where
  "op_4e71_0_comp_nf H E opcode l = do {
     let l = add_pc_offset 2 l; end_inst E l }"

definition op_7000_0_comp_nf :: compop_func where
  "op_7000_0_comp_nf H E opcode l = do {
     let srcreg = (scast (ucast (opcode AND 255) :: u8) :: u32);
     let dstreg = unat (drop_bit 9 opcode AND 7); let l = add_pc_offset 2 l;
     (src, l) \<leftarrow> alloc_scratch l; l \<leftarrow> mov_l_ri E src (ucast srcreg) l;
     let dst = dstreg; let l = dont_care_flags l; l \<leftarrow> jnf_MOVE_l E dst src l; end_inst E l }"

definition op_c140_0_comp_nf :: compop_func where
  "op_c140_0_comp_nf H E opcode l = do {
     let srcreg = unat (drop_bit 9 opcode AND 7); let dstreg = unat (opcode AND 7);
     let l = add_pc_offset 2 l; let src = srcreg; let dst = dstreg; (tmp, l) \<leftarrow> alloc_scratch l;
     l \<leftarrow> mov_l_rr E tmp src l;
     l \<leftarrow> (if srcreg \<noteq> dst then mov_l_rr E srcreg dst l else Some l);
     l \<leftarrow> (if dstreg \<noteq> tmp then mov_l_rr E dstreg tmp l else Some l); end_inst E l }"

definition op_c148_0_comp_nf :: compop_func where
  "op_c148_0_comp_nf H E opcode l = do {
     let srcreg = unat (drop_bit 9 opcode AND 7); let dstreg = unat (opcode AND 7);
     let l = add_pc_offset 2 l; let src = srcreg + 8; let dst = dstreg + 8;
     (tmp, l) \<leftarrow> alloc_scratch l; l \<leftarrow> mov_l_rr E tmp src l;
     l \<leftarrow> (if srcreg + 8 \<noteq> dst then mov_l_rr E (srcreg + 8) dst l else Some l);
     l \<leftarrow> (if dstreg + 8 \<noteq> tmp then mov_l_rr E (dstreg + 8) tmp l else Some l);
     end_inst E l }"

definition op_c188_0_comp_nf :: compop_func where
  "op_c188_0_comp_nf H E opcode l = do {
     let srcreg = unat (drop_bit 9 opcode AND 7); let dstreg = unat (opcode AND 7);
     let l = add_pc_offset 2 l; let src = srcreg; let dst = dstreg + 8;
     (tmp, l) \<leftarrow> alloc_scratch l; l \<leftarrow> mov_l_rr E tmp src l;
     l \<leftarrow> (if srcreg \<noteq> dst then mov_l_rr E srcreg dst l else Some l);
     l \<leftarrow> (if dstreg + 8 \<noteq> tmp then mov_l_rr E (dstreg + 8) tmp l else Some l);
     end_inst E l }"

section \<open>Their correctness\<close>

lemma op_1000_0_comp_ff_ok:
  assumes "op_ready (64 + t) E mi l" "sets_flags 0xF mi mo l"
  shows "translated t E mi mo l (op_1000_0_comp_ff H E opcode l)
    (\<lambda>g. incpc 2 (i_MOVE (fetch_reg (lo_reg opcode) g :: u8) (hi_reg opcode) g))"
  unfolding op_1000_0_comp_ff_def Let_def i_MOVE_def
  by (rule ff_logic [where k = 2 and p = dont_care_flags, OF op_ready_done [OF assms(1)] assms(2)
      mode_changes(3) live_modes(1) _ _ _ jff_MOVE_b_ok])
    (simp_all add: fetch_regs imm_view [OF op_ready_done [OF assms(1)]] op_done_ready [OF op_ready_done [OF assms(1)]] op_operand [OF op_ready_done [OF assms(1)]])

lemma op_103c_0_comp_ff_ok:
  assumes "op_ready (64 + t) E mi l" "sets_flags 0xF mi mo l"
  shows "translated t E mi mo l (op_103c_0_comp_ff H E opcode l)
    (\<lambda>g. incpc 4 (i_MOVE (get_dibyte H 2 g) (hi_reg opcode) g))"
  unfolding op_103c_0_comp_ff_def Let_def add_pc_offset_simps comp_get_offset numeral_plus_numeral semiring_norm i_MOVE_def
  by (rule ff_logic [where k = 4 and p = dont_care_flags, OF op_ready_done [OF assms(1)] assms(2)
      mode_changes(3) live_modes(1) _ _ _ jff_MOVE_b_imm_ok])
    (simp_all add: fetch_regs imm_view [OF op_ready_done [OF assms(1)]] op_done_ready [OF op_ready_done [OF assms(1)]] op_operand [OF op_ready_done [OF assms(1)]])

lemma op_2000_0_comp_ff_ok:
  assumes "op_ready (64 + t) E mi l" "sets_flags 0xF mi mo l"
  shows "translated t E mi mo l (op_2000_0_comp_ff H E opcode l)
    (\<lambda>g. incpc 2 (i_MOVE (fetch_reg (lo_reg opcode) g :: u32) (hi_reg opcode) g))"
  unfolding op_2000_0_comp_ff_def Let_def i_MOVE_def
  by (rule ff_logic [where k = 2 and p = dont_care_flags, OF op_ready_done [OF assms(1)] assms(2)
      mode_changes(3) live_modes(1) _ _ _ jff_MOVE_l_ok])
    (simp_all add: fetch_regs imm_view [OF op_ready_done [OF assms(1)]] op_done_ready [OF op_ready_done [OF assms(1)]] op_operand [OF op_ready_done [OF assms(1)]])

lemma op_2008_0_comp_ff_ok:
  assumes "op_ready (64 + t) E mi l" "sets_flags 0xF mi mo l"
  shows "translated t E mi mo l (op_2008_0_comp_ff H E opcode l)
    (\<lambda>g. incpc 2 (i_MOVE (fetch_reg (lo_reg opcode + 8) g :: u32) (hi_reg opcode) g))"
  unfolding op_2008_0_comp_ff_def Let_def i_MOVE_def
  by (rule ff_logic [where k = 2 and p = dont_care_flags, OF op_ready_done [OF assms(1)] assms(2)
      mode_changes(3) live_modes(1) _ _ _ jff_MOVE_l_ok])
    (simp_all add: fetch_regs imm_view [OF op_ready_done [OF assms(1)]] op_done_ready [OF op_ready_done [OF assms(1)]] op_operand [OF op_ready_done [OF assms(1)]])

lemma op_203c_0_comp_ff_ok:
  assumes "op_ready (64 + t) E mi l" "sets_flags 0xF mi mo l"
  shows "translated t E mi mo l (op_203c_0_comp_ff H E opcode l)
    (\<lambda>g. incpc 6 (i_MOVE (get_dilong H 2 g) (hi_reg opcode) g))"
  unfolding op_203c_0_comp_ff_def Let_def add_pc_offset_simps comp_get_offset numeral_plus_numeral semiring_norm i_MOVE_def
  by (rule ff_logic [where k = 6 and p = dont_care_flags, OF op_ready_done [OF assms(1)] assms(2)
      mode_changes(3) live_modes(1) _ _ _ jff_MOVE_l_imm_ok])
    (simp_all add: fetch_regs imm_view [OF op_ready_done [OF assms(1)]] op_done_ready [OF op_ready_done [OF assms(1)]] op_operand [OF op_ready_done [OF assms(1)]])

lemma op_2040_0_comp_ff_ok:
  assumes "op_ready (64 + t) E mi l" "mi = mo"
  shows "translated t E mi mo l (op_2040_0_comp_ff H E opcode l)
    (\<lambda>g. incpc 2 (i_MOVEA (fetch_reg (lo_reg opcode) g) (hi_reg opcode + 8) g))"
  unfolding op_2040_0_comp_ff_def Let_def assms(2) i_MOVEA_def
  by (rule keep_plain [where k = 2, OF op_ready_done [OF assms(1) [unfolded assms(2)]] _ _ jnf_MOVEA_l_ok])
    (simp_all add: imm8_small fetch_regs imm_view [OF op_ready_done [OF assms(1) [unfolded assms(2)]]] op_done_ready [OF op_ready_done [OF assms(1) [unfolded assms(2)]]] op_operand [OF op_ready_done [OF assms(1) [unfolded assms(2)]]])

lemma op_2048_0_comp_ff_ok:
  assumes "op_ready (64 + t) E mi l" "mi = mo"
  shows "translated t E mi mo l (op_2048_0_comp_ff H E opcode l)
    (\<lambda>g. incpc 2 (i_MOVEA (fetch_reg (lo_reg opcode + 8) g) (hi_reg opcode + 8) g))"
  unfolding op_2048_0_comp_ff_def Let_def assms(2) i_MOVEA_def
  by (rule keep_plain [where k = 2, OF op_ready_done [OF assms(1) [unfolded assms(2)]] _ _ jnf_MOVEA_l_ok])
    (simp_all add: imm8_small fetch_regs imm_view [OF op_ready_done [OF assms(1) [unfolded assms(2)]]] op_done_ready [OF op_ready_done [OF assms(1) [unfolded assms(2)]]] op_operand [OF op_ready_done [OF assms(1) [unfolded assms(2)]]])

lemma op_207c_0_comp_ff_ok:
  assumes "op_ready (64 + t) E mi l" "mi = mo"
  shows "translated t E mi mo l (op_207c_0_comp_ff H E opcode l)
    (\<lambda>g. incpc 6 (i_MOVEA (get_dilong H 2 g) (hi_reg opcode + 8) g))"
proof -
  have u: "status l S1 = UNDEF" by (rule fresh_status [OF assms(1)])
  have e: "op_207c_0_comp_ff H E opcode l = do { l2 \<leftarrow> jnf_MOVEA_l E (hi_reg opcode + 8) S1 (scratch_const (comp_get_ilong H l (l_m68k_pc_offset l + 2)) (use_scratch (add_pc_offset 6 l))); end_inst E l2 }"
    by (simp add: op_207c_0_comp_ff_def Let_def alloc_fresh [OF assms(1)] load_const u)
  show ?thesis
    unfolding e assms(2) i_MOVEA_def
    by (rule keep_scratch [OF assms(1) [unfolded assms(2)] _ _ jnf_MOVEA_l_ok]) (simp_all add: op_done_ready [OF op_ready_done [OF assms(1) [unfolded assms(2)]]] op_operand [OF op_ready_done [OF assms(1) [unfolded assms(2)]]] imm_view [OF op_ready_done [OF assms(1) [unfolded assms(2)]]] ready_scratch_const operand_scratch_const u)
qed

lemma op_3000_0_comp_ff_ok:
  assumes "op_ready (64 + t) E mi l" "sets_flags 0xF mi mo l"
  shows "translated t E mi mo l (op_3000_0_comp_ff H E opcode l)
    (\<lambda>g. incpc 2 (i_MOVE (fetch_reg (lo_reg opcode) g :: u16) (hi_reg opcode) g))"
  unfolding op_3000_0_comp_ff_def Let_def i_MOVE_def
  by (rule ff_logic [where k = 2 and p = dont_care_flags, OF op_ready_done [OF assms(1)] assms(2)
      mode_changes(3) live_modes(1) _ _ _ jff_MOVE_w_ok])
    (simp_all add: fetch_regs imm_view [OF op_ready_done [OF assms(1)]] op_done_ready [OF op_ready_done [OF assms(1)]] op_operand [OF op_ready_done [OF assms(1)]])

lemma op_3008_0_comp_ff_ok:
  assumes "op_ready (64 + t) E mi l" "sets_flags 0xF mi mo l"
  shows "translated t E mi mo l (op_3008_0_comp_ff H E opcode l)
    (\<lambda>g. incpc 2 (i_MOVE (fetch_reg (lo_reg opcode + 8) g :: u16) (hi_reg opcode) g))"
  unfolding op_3008_0_comp_ff_def Let_def i_MOVE_def
  by (rule ff_logic [where k = 2 and p = dont_care_flags, OF op_ready_done [OF assms(1)] assms(2)
      mode_changes(3) live_modes(1) _ _ _ jff_MOVE_w_ok])
    (simp_all add: fetch_regs imm_view [OF op_ready_done [OF assms(1)]] op_done_ready [OF op_ready_done [OF assms(1)]] op_operand [OF op_ready_done [OF assms(1)]])

lemma op_303c_0_comp_ff_ok:
  assumes "op_ready (64 + t) E mi l" "sets_flags 0xF mi mo l"
  shows "translated t E mi mo l (op_303c_0_comp_ff H E opcode l)
    (\<lambda>g. incpc 4 (i_MOVE (get_diword H 2 g) (hi_reg opcode) g))"
  unfolding op_303c_0_comp_ff_def Let_def add_pc_offset_simps comp_get_offset numeral_plus_numeral semiring_norm i_MOVE_def
  by (rule ff_logic [where k = 4 and p = dont_care_flags, OF op_ready_done [OF assms(1)] assms(2)
      mode_changes(3) live_modes(1) _ _ _ jff_MOVE_w_imm_ok])
    (simp_all add: fetch_regs imm_view [OF op_ready_done [OF assms(1)]] op_done_ready [OF op_ready_done [OF assms(1)]] op_operand [OF op_ready_done [OF assms(1)]])

lemma op_3040_0_comp_ff_ok:
  assumes "op_ready (64 + t) E mi l" "mi = mo"
  shows "translated t E mi mo l (op_3040_0_comp_ff H E opcode l)
    (\<lambda>g. incpc 2 (i_MOVEA (scast (fetch_reg (lo_reg opcode) g :: u16)) (hi_reg opcode + 8) g))"
  unfolding op_3040_0_comp_ff_def Let_def assms(2) i_MOVEA_def
  by (rule keep_plain [where k = 2, OF op_ready_done [OF assms(1) [unfolded assms(2)]] _ _ jnf_MOVEA_w_ok])
    (simp_all add: imm8_small fetch_regs imm_view [OF op_ready_done [OF assms(1) [unfolded assms(2)]]] op_done_ready [OF op_ready_done [OF assms(1) [unfolded assms(2)]]] op_operand [OF op_ready_done [OF assms(1) [unfolded assms(2)]]])

lemma op_3048_0_comp_ff_ok:
  assumes "op_ready (64 + t) E mi l" "mi = mo"
  shows "translated t E mi mo l (op_3048_0_comp_ff H E opcode l)
    (\<lambda>g. incpc 2 (i_MOVEA (scast (fetch_reg (lo_reg opcode + 8) g :: u16)) (hi_reg opcode + 8) g))"
  unfolding op_3048_0_comp_ff_def Let_def assms(2) i_MOVEA_def
  by (rule keep_plain [where k = 2, OF op_ready_done [OF assms(1) [unfolded assms(2)]] _ _ jnf_MOVEA_w_ok])
    (simp_all add: imm8_small fetch_regs imm_view [OF op_ready_done [OF assms(1) [unfolded assms(2)]]] op_done_ready [OF op_ready_done [OF assms(1) [unfolded assms(2)]]] op_operand [OF op_ready_done [OF assms(1) [unfolded assms(2)]]])

lemma op_307c_0_comp_ff_ok:
  assumes "op_ready (64 + t) E mi l" "mi = mo"
  shows "translated t E mi mo l (op_307c_0_comp_ff H E opcode l)
    (\<lambda>g. incpc 4 (i_MOVEA (scast (get_diword H 2 g)) (hi_reg opcode + 8) g))"
proof -
  have u: "status l S1 = UNDEF" by (rule fresh_status [OF assms(1)])
  have e: "op_307c_0_comp_ff H E opcode l = do { l2 \<leftarrow> jnf_MOVEA_w E (hi_reg opcode + 8) S1 (scratch_const (scast (comp_get_iword H l (l_m68k_pc_offset l + 2))) (use_scratch (add_pc_offset 4 l))); end_inst E l2 }"
    by (simp add: op_307c_0_comp_ff_def Let_def alloc_fresh [OF assms(1)] load_const u)
  show ?thesis
    unfolding e assms(2) i_MOVEA_def
    by (rule keep_scratch [OF assms(1) [unfolded assms(2)] _ _ jnf_MOVEA_w_ok]) (simp_all add: op_done_ready [OF op_ready_done [OF assms(1) [unfolded assms(2)]]] op_operand [OF op_ready_done [OF assms(1) [unfolded assms(2)]]] imm_view [OF op_ready_done [OF assms(1) [unfolded assms(2)]]] ready_scratch_const operand_scratch_const u)
qed

lemma op_41d0_0_comp_ff_ok:
  assumes "op_ready (64 + t) E mi l" "mi = mo"
  shows "translated t E mi mo l (op_41d0_0_comp_ff H E opcode l)
    (\<lambda>g. incpc 2 (i_LEA (fetch_reg (lo_reg opcode + 8) g) (hi_reg opcode + 8) g))"
  unfolding op_41d0_0_comp_ff_def Let_def assms(2) i_LEA_def
  by (rule keep_plain [where k = 2, OF op_ready_done [OF assms(1) [unfolded assms(2)]] _ _ move_unless_same])
    (simp_all add: fetch_regs imm_view [OF op_ready_done [OF assms(1) [unfolded assms(2)]]] op_done_ready [OF op_ready_done [OF assms(1) [unfolded assms(2)]]] op_operand [OF op_ready_done [OF assms(1) [unfolded assms(2)]]])

lemma op_41f8_0_comp_ff_ok:
  assumes "op_ready (64 + t) E mi l" "mi = mo"
  shows "translated t E mi mo l (op_41f8_0_comp_ff H E opcode l)
    (\<lambda>g. incpc 4 (i_LEA (scast (get_diword H 2 g)) (hi_reg opcode + 8) g))"
proof -
  have u: "status l S1 = UNDEF" by (rule fresh_status [OF assms(1)])
  have e: "op_41f8_0_comp_ff H E opcode l = do { l2 \<leftarrow> (if hi_reg opcode + 8 \<noteq> S1 then mov_l_rr E (hi_reg opcode + 8) S1 (scratch_const (scast (comp_get_iword H l (l_m68k_pc_offset l + 2))) (use_scratch (add_pc_offset 4 l))) else Some (scratch_const (scast (comp_get_iword H l (l_m68k_pc_offset l + 2))) (use_scratch (add_pc_offset 4 l)))); end_inst E l2 }"
    by (simp add: op_41f8_0_comp_ff_def Let_def alloc_fresh [OF assms(1)] load_const u)
  show ?thesis
    unfolding e assms(2) i_LEA_def
    by (rule keep_scratch [OF assms(1) [unfolded assms(2)] _ _ move_unless_same]) (simp_all add: op_done_ready [OF op_ready_done [OF assms(1) [unfolded assms(2)]]] op_operand [OF op_ready_done [OF assms(1) [unfolded assms(2)]]] imm_view [OF op_ready_done [OF assms(1) [unfolded assms(2)]]] ready_scratch_const operand_scratch_const u)
qed

lemma op_41f9_0_comp_ff_ok:
  assumes "op_ready (64 + t) E mi l" "mi = mo"
  shows "translated t E mi mo l (op_41f9_0_comp_ff H E opcode l)
    (\<lambda>g. incpc 6 (i_LEA (get_dilong H 2 g) (hi_reg opcode + 8) g))"
proof -
  have u: "status l S1 = UNDEF" by (rule fresh_status [OF assms(1)])
  have e: "op_41f9_0_comp_ff H E opcode l = do { l2 \<leftarrow> (if hi_reg opcode + 8 \<noteq> S1 then mov_l_rr E (hi_reg opcode + 8) S1 (scratch_const (comp_get_ilong H l (l_m68k_pc_offset l + 2)) (use_scratch (add_pc_offset 6 l))) else Some (scratch_const (comp_get_ilong H l (l_m68k_pc_offset l + 2)) (use_scratch (add_pc_offset 6 l)))); end_inst E l2 }"
    by (simp add: op_41f9_0_comp_ff_def Let_def alloc_fresh [OF assms(1)] load_const u)
  show ?thesis
    unfolding e assms(2) i_LEA_def
    by (rule keep_scratch [OF assms(1) [unfolded assms(2)] _ _ move_unless_same]) (simp_all add: op_done_ready [OF op_ready_done [OF assms(1) [unfolded assms(2)]]] op_operand [OF op_ready_done [OF assms(1) [unfolded assms(2)]]] imm_view [OF op_ready_done [OF assms(1) [unfolded assms(2)]]] ready_scratch_const operand_scratch_const u)
qed

lemma op_4200_0_comp_ff_ok:
  assumes "op_ready (64 + t) E mi l" "sets_flags 0xF mi mo l"
  shows "translated t E mi mo l (op_4200_0_comp_ff H E opcode l)
    (\<lambda>g. incpc 2 (i_CLR TYPE(8) (lo_reg opcode) g))"
  unfolding op_4200_0_comp_ff_def Let_def i_CLR_def
  by (rule ff_logic [where k = 2 and p = dont_care_flags, OF op_ready_done [OF assms(1)] assms(2)
      mode_changes(3) live_modes(1) _ _ _ jff_CLR_b_ok])
    (simp_all add: fetch_regs imm_view [OF op_ready_done [OF assms(1)]] op_done_ready [OF op_ready_done [OF assms(1)]] op_operand [OF op_ready_done [OF assms(1)]])

lemma op_4240_0_comp_ff_ok:
  assumes "op_ready (64 + t) E mi l" "sets_flags 0xF mi mo l"
  shows "translated t E mi mo l (op_4240_0_comp_ff H E opcode l)
    (\<lambda>g. incpc 2 (i_CLR TYPE(16) (lo_reg opcode) g))"
  unfolding op_4240_0_comp_ff_def Let_def i_CLR_def
  by (rule ff_logic [where k = 2 and p = dont_care_flags, OF op_ready_done [OF assms(1)] assms(2)
      mode_changes(3) live_modes(1) _ _ _ jff_CLR_w_ok])
    (simp_all add: fetch_regs imm_view [OF op_ready_done [OF assms(1)]] op_done_ready [OF op_ready_done [OF assms(1)]] op_operand [OF op_ready_done [OF assms(1)]])

lemma op_4280_0_comp_ff_ok:
  assumes "op_ready (64 + t) E mi l" "sets_flags 0xF mi mo l"
  shows "translated t E mi mo l (op_4280_0_comp_ff H E opcode l)
    (\<lambda>g. incpc 2 (i_CLR TYPE(32) (lo_reg opcode) g))"
  unfolding op_4280_0_comp_ff_def Let_def i_CLR_def
  by (rule ff_logic [where k = 2 and p = dont_care_flags, OF op_ready_done [OF assms(1)] assms(2)
      mode_changes(3) live_modes(1) _ _ _ jff_CLR_l_ok])
    (simp_all add: fetch_regs imm_view [OF op_ready_done [OF assms(1)]] op_done_ready [OF op_ready_done [OF assms(1)]] op_operand [OF op_ready_done [OF assms(1)]])

lemma op_4840_0_comp_ff_ok:
  assumes "op_ready (64 + t) E mi l" "sets_flags 0xF mi mo l" "isconst l (lo_reg opcode) \<Longrightarrow> val_of l (lo_reg opcode) < 0x100000000"
  shows "translated t E mi mo l (op_4840_0_comp_ff H E opcode l)
    (\<lambda>g. incpc 2 (i_SWAP (lo_reg opcode) g))"
  unfolding op_4840_0_comp_ff_def Let_def i_SWAP_rotr
  by (rule ff_logic [where k = 2 and p = dont_care_flags, OF op_ready_done [OF assms(1)] assms(2)
      mode_changes(3) live_modes(2) _ _ _ jff_SWAP_ok])
    (simp_all add: fetch_regs imm_view [OF op_ready_done [OF assms(1)]] op_done_ready [OF op_ready_done [OF assms(1)]] op_operand [OF op_ready_done [OF assms(1)]] assms(3))

lemma op_4880_0_comp_ff_ok:
  assumes "op_ready (64 + t) E mi l" "sets_flags 0xF mi mo l" "\<not> isconst l (lo_reg opcode)"
  shows "translated t E mi mo l (op_4880_0_comp_ff H E opcode l)
    (\<lambda>g. incpc 2 (i_EXT_w (lo_reg opcode) g))"
  unfolding op_4880_0_comp_ff_def Let_def i_EXT_w_def
  by (rule ff_logic [where k = 2 and p = dont_care_flags, OF op_ready_done [OF assms(1)] assms(2)
      mode_changes(3) live_modes(1) _ _ _ jff_EXT_w_ok])
    (simp_all add: fetch_regs imm_view [OF op_ready_done [OF assms(1)]] op_done_ready [OF op_ready_done [OF assms(1)]] op_operand [OF op_ready_done [OF assms(1)]] assms(3))

lemma op_48c0_0_comp_ff_ok:
  assumes "op_ready (64 + t) E mi l" "sets_flags 0xF mi mo l"
  shows "translated t E mi mo l (op_48c0_0_comp_ff H E opcode l)
    (\<lambda>g. incpc 2 (i_EXT_l (lo_reg opcode) g))"
  unfolding op_48c0_0_comp_ff_def Let_def i_EXT_l_def
  by (rule ff_logic [where k = 2 and p = dont_care_flags, OF op_ready_done [OF assms(1)] assms(2)
      mode_changes(3) live_modes(1) _ _ _ jff_EXT_l_ok])
    (simp_all add: fetch_regs imm_view [OF op_ready_done [OF assms(1)]] op_done_ready [OF op_ready_done [OF assms(1)]] op_operand [OF op_ready_done [OF assms(1)]])

lemma op_49c0_0_comp_ff_ok:
  assumes "op_ready (64 + t) E mi l" "sets_flags 0xF mi mo l"
  shows "translated t E mi mo l (op_49c0_0_comp_ff H E opcode l)
    (\<lambda>g. incpc 2 (i_EXT_b (lo_reg opcode) g))"
  unfolding op_49c0_0_comp_ff_def Let_def i_EXT_b_def
  by (rule ff_logic [where k = 2 and p = dont_care_flags, OF op_ready_done [OF assms(1)] assms(2)
      mode_changes(3) live_modes(1) _ _ _ jff_EXT_b_ok])
    (simp_all add: fetch_regs imm_view [OF op_ready_done [OF assms(1)]] op_done_ready [OF op_ready_done [OF assms(1)]] op_operand [OF op_ready_done [OF assms(1)]])

lemma op_4e71_0_comp_ff_ok:
  assumes "op_ready (64 + t) E mi l" "mi = mo"
  shows "translated t E mi mo l (op_4e71_0_comp_ff H E opcode l)
    (\<lambda>g. incpc 2 (i_NOP g))"
  unfolding op_4e71_0_comp_ff_def Let_def assms(2) by (rule keep_none [OF assms(1) [unfolded assms(2)]]) simp_all

lemma op_7000_0_comp_ff_ok:
  assumes "op_ready (64 + t) E mi l" "sets_flags 0xF mi mo l"
  shows "translated t E mi mo l (op_7000_0_comp_ff H E opcode l)
    (\<lambda>g. incpc 2 (i_MOVE (scast (ucast (opcode AND 255) :: u8) :: u32) (hi_reg opcode) g))"
  unfolding op_7000_0_comp_ff_def Let_def i_MOVE_def
  by (rule ff_logic [where k = 2 and p = dont_care_flags, OF op_ready_done [OF assms(1)] assms(2)
      mode_changes(3) live_modes(1) _ _ _ jff_MOVE_l_imm_ok])
    (simp_all add: fetch_regs imm_view [OF op_ready_done [OF assms(1)]] op_done_ready [OF op_ready_done [OF assms(1)]] op_operand [OF op_ready_done [OF assms(1)]])

lemma op_c140_0_comp_ff_ok:
  assumes "op_ready (64 + t) E mi l" "mi = mo"
  shows "translated t E mi mo l (op_c140_0_comp_ff H E opcode l)
    (\<lambda>g. incpc 2 (i_EXG (hi_reg opcode) (lo_reg opcode) g))"
  unfolding op_c140_0_comp_ff_def Let_def assms(2) alloc_fresh [OF assms(1)] bind.bind_lunit prod.case
  by (rule keep_exg [where k = 2, OF assms(1) [unfolded assms(2)]]) simp_all

lemma op_c148_0_comp_ff_ok:
  assumes "op_ready (64 + t) E mi l" "mi = mo"
  shows "translated t E mi mo l (op_c148_0_comp_ff H E opcode l)
    (\<lambda>g. incpc 2 (i_EXG (hi_reg opcode + 8) (lo_reg opcode + 8) g))"
  unfolding op_c148_0_comp_ff_def Let_def assms(2) alloc_fresh [OF assms(1)] bind.bind_lunit prod.case
  by (rule keep_exg [where k = 2, OF assms(1) [unfolded assms(2)]]) simp_all

lemma op_c188_0_comp_ff_ok:
  assumes "op_ready (64 + t) E mi l" "mi = mo"
  shows "translated t E mi mo l (op_c188_0_comp_ff H E opcode l)
    (\<lambda>g. incpc 2 (i_EXG (hi_reg opcode) (lo_reg opcode + 8) g))"
  unfolding op_c188_0_comp_ff_def Let_def assms(2) alloc_fresh [OF assms(1)] bind.bind_lunit prod.case
  by (rule keep_exg [where k = 2, OF assms(1) [unfolded assms(2)]]) simp_all

lemma op_1000_0_comp_nf_ok:
  assumes "op_ready (64 + t) E mi l" "no_flags 0xF mi mo"
  shows "translated t E mi mo l (op_1000_0_comp_nf H E opcode l)
    (\<lambda>g. incpc 2 (i_MOVE (fetch_reg (lo_reg opcode) g :: u8) (hi_reg opcode) g))"
  unfolding op_1000_0_comp_nf_def Let_def
  by (rule nf_plain [where k = 2 and p = dont_care_flags and q = "\<lambda>l. l", OF op_ready_done [OF assms(1)] assms(2) _ keeps_modes(2) keeps_modes(1) _ _ _ jnf_MOVE_b_ok])
    (simp_all add: i_MOVE_def fetch_regs imm_view [OF op_ready_done [OF assms(1)]] op_done_ready [OF op_ready_done [OF assms(1)]] op_operand [OF op_ready_done [OF assms(1)]])

lemma op_103c_0_comp_nf_ok:
  assumes "op_ready (64 + t) E mi l" "no_flags 0xF mi mo"
  shows "translated t E mi mo l (op_103c_0_comp_nf H E opcode l)
    (\<lambda>g. incpc 4 (i_MOVE (get_dibyte H 2 g) (hi_reg opcode) g))"
  unfolding op_103c_0_comp_nf_def Let_def add_pc_offset_simps comp_get_offset numeral_plus_numeral semiring_norm
  by (rule nf_plain [where k = 4 and p = dont_care_flags and q = "\<lambda>l. l", OF op_ready_done [OF assms(1)] assms(2) _ keeps_modes(2) keeps_modes(1) _ _ _ jnf_MOVE_b_imm_ok])
    (simp_all add: i_MOVE_def fetch_regs imm_view [OF op_ready_done [OF assms(1)]] op_done_ready [OF op_ready_done [OF assms(1)]] op_operand [OF op_ready_done [OF assms(1)]])

lemma op_2000_0_comp_nf_ok:
  assumes "op_ready (64 + t) E mi l" "no_flags 0xF mi mo"
  shows "translated t E mi mo l (op_2000_0_comp_nf H E opcode l)
    (\<lambda>g. incpc 2 (i_MOVE (fetch_reg (lo_reg opcode) g :: u32) (hi_reg opcode) g))"
  unfolding op_2000_0_comp_nf_def Let_def
  by (rule nf_plain [where k = 2 and p = dont_care_flags and q = "\<lambda>l. l", OF op_ready_done [OF assms(1)] assms(2) _ keeps_modes(2) keeps_modes(1) _ _ _ jnf_MOVE_l_ok])
    (simp_all add: i_MOVE_def fetch_regs imm_view [OF op_ready_done [OF assms(1)]] op_done_ready [OF op_ready_done [OF assms(1)]] op_operand [OF op_ready_done [OF assms(1)]])

lemma op_2008_0_comp_nf_ok:
  assumes "op_ready (64 + t) E mi l" "no_flags 0xF mi mo"
  shows "translated t E mi mo l (op_2008_0_comp_nf H E opcode l)
    (\<lambda>g. incpc 2 (i_MOVE (fetch_reg (lo_reg opcode + 8) g :: u32) (hi_reg opcode) g))"
  unfolding op_2008_0_comp_nf_def Let_def
  by (rule nf_plain [where k = 2 and p = dont_care_flags and q = "\<lambda>l. l", OF op_ready_done [OF assms(1)] assms(2) _ keeps_modes(2) keeps_modes(1) _ _ _ jnf_MOVE_l_ok])
    (simp_all add: i_MOVE_def fetch_regs imm_view [OF op_ready_done [OF assms(1)]] op_done_ready [OF op_ready_done [OF assms(1)]] op_operand [OF op_ready_done [OF assms(1)]])

lemma op_203c_0_comp_nf_ok:
  assumes "op_ready (64 + t) E mi l" "no_flags 0xF mi mo"
  shows "translated t E mi mo l (op_203c_0_comp_nf H E opcode l)
    (\<lambda>g. incpc 6 (i_MOVE (get_dilong H 2 g) (hi_reg opcode) g))"
proof -
  have u: "status l S1 = UNDEF" by (rule fresh_status [OF assms(1)])
  have e: "op_203c_0_comp_nf H E opcode l = do { l2 \<leftarrow> jnf_MOVE_l E (hi_reg opcode) S1 (scratch_const (comp_get_ilong H l (l_m68k_pc_offset l + 2)) (dont_care_flags (use_scratch (add_pc_offset 6 l)))); end_inst E l2 }"
    by (simp add: op_203c_0_comp_nf_def Let_def alloc_fresh [OF assms(1)] load_const u)
  show ?thesis
    unfolding e
    by (rule nf_scratch [OF assms(1,2) _ _ jnf_MOVE_l_ok]) (simp_all add: i_MOVE_def op_done_ready [OF op_ready_done [OF assms(1)]] op_operand [OF op_ready_done [OF assms(1)]] imm_view [OF op_ready_done [OF assms(1)]] ready_scratch_const operand_scratch_const u)
qed

lemma op_2040_0_comp_nf_ok:
  assumes "op_ready (64 + t) E mi l" "mi = mo"
  shows "translated t E mi mo l (op_2040_0_comp_nf H E opcode l)
    (\<lambda>g. incpc 2 (i_MOVEA (fetch_reg (lo_reg opcode) g) (hi_reg opcode + 8) g))"
  unfolding op_2040_0_comp_nf_def Let_def assms(2) i_MOVEA_def
  by (rule keep_plain [where k = 2, OF op_ready_done [OF assms(1) [unfolded assms(2)]] _ _ jnf_MOVEA_l_ok])
    (simp_all add: imm8_small fetch_regs imm_view [OF op_ready_done [OF assms(1) [unfolded assms(2)]]] op_done_ready [OF op_ready_done [OF assms(1) [unfolded assms(2)]]] op_operand [OF op_ready_done [OF assms(1) [unfolded assms(2)]]])

lemma op_2048_0_comp_nf_ok:
  assumes "op_ready (64 + t) E mi l" "mi = mo"
  shows "translated t E mi mo l (op_2048_0_comp_nf H E opcode l)
    (\<lambda>g. incpc 2 (i_MOVEA (fetch_reg (lo_reg opcode + 8) g) (hi_reg opcode + 8) g))"
  unfolding op_2048_0_comp_nf_def Let_def assms(2) i_MOVEA_def
  by (rule keep_plain [where k = 2, OF op_ready_done [OF assms(1) [unfolded assms(2)]] _ _ jnf_MOVEA_l_ok])
    (simp_all add: imm8_small fetch_regs imm_view [OF op_ready_done [OF assms(1) [unfolded assms(2)]]] op_done_ready [OF op_ready_done [OF assms(1) [unfolded assms(2)]]] op_operand [OF op_ready_done [OF assms(1) [unfolded assms(2)]]])

lemma op_207c_0_comp_nf_ok:
  assumes "op_ready (64 + t) E mi l" "mi = mo"
  shows "translated t E mi mo l (op_207c_0_comp_nf H E opcode l)
    (\<lambda>g. incpc 6 (i_MOVEA (get_dilong H 2 g) (hi_reg opcode + 8) g))"
proof -
  have u: "status l S1 = UNDEF" by (rule fresh_status [OF assms(1)])
  have e: "op_207c_0_comp_nf H E opcode l = do { l2 \<leftarrow> jnf_MOVEA_l E (hi_reg opcode + 8) S1 (scratch_const (comp_get_ilong H l (l_m68k_pc_offset l + 2)) (use_scratch (add_pc_offset 6 l))); end_inst E l2 }"
    by (simp add: op_207c_0_comp_nf_def Let_def alloc_fresh [OF assms(1)] load_const u)
  show ?thesis
    unfolding e assms(2) i_MOVEA_def
    by (rule keep_scratch [OF assms(1) [unfolded assms(2)] _ _ jnf_MOVEA_l_ok]) (simp_all add: op_done_ready [OF op_ready_done [OF assms(1) [unfolded assms(2)]]] op_operand [OF op_ready_done [OF assms(1) [unfolded assms(2)]]] imm_view [OF op_ready_done [OF assms(1) [unfolded assms(2)]]] ready_scratch_const operand_scratch_const u)
qed

lemma op_3000_0_comp_nf_ok:
  assumes "op_ready (64 + t) E mi l" "no_flags 0xF mi mo"
  shows "translated t E mi mo l (op_3000_0_comp_nf H E opcode l)
    (\<lambda>g. incpc 2 (i_MOVE (fetch_reg (lo_reg opcode) g :: u16) (hi_reg opcode) g))"
  unfolding op_3000_0_comp_nf_def Let_def
  by (rule nf_plain [where k = 2 and p = dont_care_flags and q = "\<lambda>l. l", OF op_ready_done [OF assms(1)] assms(2) _ keeps_modes(2) keeps_modes(1) _ _ _ jnf_MOVE_w_ok])
    (simp_all add: i_MOVE_def fetch_regs imm_view [OF op_ready_done [OF assms(1)]] op_done_ready [OF op_ready_done [OF assms(1)]] op_operand [OF op_ready_done [OF assms(1)]])

lemma op_3008_0_comp_nf_ok:
  assumes "op_ready (64 + t) E mi l" "no_flags 0xF mi mo"
  shows "translated t E mi mo l (op_3008_0_comp_nf H E opcode l)
    (\<lambda>g. incpc 2 (i_MOVE (fetch_reg (lo_reg opcode + 8) g :: u16) (hi_reg opcode) g))"
  unfolding op_3008_0_comp_nf_def Let_def
  by (rule nf_plain [where k = 2 and p = dont_care_flags and q = "\<lambda>l. l", OF op_ready_done [OF assms(1)] assms(2) _ keeps_modes(2) keeps_modes(1) _ _ _ jnf_MOVE_w_ok])
    (simp_all add: i_MOVE_def fetch_regs imm_view [OF op_ready_done [OF assms(1)]] op_done_ready [OF op_ready_done [OF assms(1)]] op_operand [OF op_ready_done [OF assms(1)]])

lemma op_303c_0_comp_nf_ok:
  assumes "op_ready (64 + t) E mi l" "no_flags 0xF mi mo"
  shows "translated t E mi mo l (op_303c_0_comp_nf H E opcode l)
    (\<lambda>g. incpc 4 (i_MOVE (get_diword H 2 g) (hi_reg opcode) g))"
  unfolding op_303c_0_comp_nf_def Let_def add_pc_offset_simps comp_get_offset numeral_plus_numeral semiring_norm
  by (rule nf_plain [where k = 4 and p = dont_care_flags and q = "\<lambda>l. l", OF op_ready_done [OF assms(1)] assms(2) _ keeps_modes(2) keeps_modes(1) _ _ _ jnf_MOVE_w_imm_ok])
    (simp_all add: i_MOVE_def fetch_regs imm_view [OF op_ready_done [OF assms(1)]] op_done_ready [OF op_ready_done [OF assms(1)]] op_operand [OF op_ready_done [OF assms(1)]])

lemma op_3040_0_comp_nf_ok:
  assumes "op_ready (64 + t) E mi l" "mi = mo"
  shows "translated t E mi mo l (op_3040_0_comp_nf H E opcode l)
    (\<lambda>g. incpc 2 (i_MOVEA (scast (fetch_reg (lo_reg opcode) g :: u16)) (hi_reg opcode + 8) g))"
  unfolding op_3040_0_comp_nf_def Let_def assms(2) i_MOVEA_def
  by (rule keep_plain [where k = 2, OF op_ready_done [OF assms(1) [unfolded assms(2)]] _ _ jnf_MOVEA_w_ok])
    (simp_all add: imm8_small fetch_regs imm_view [OF op_ready_done [OF assms(1) [unfolded assms(2)]]] op_done_ready [OF op_ready_done [OF assms(1) [unfolded assms(2)]]] op_operand [OF op_ready_done [OF assms(1) [unfolded assms(2)]]])

lemma op_3048_0_comp_nf_ok:
  assumes "op_ready (64 + t) E mi l" "mi = mo"
  shows "translated t E mi mo l (op_3048_0_comp_nf H E opcode l)
    (\<lambda>g. incpc 2 (i_MOVEA (scast (fetch_reg (lo_reg opcode + 8) g :: u16)) (hi_reg opcode + 8) g))"
  unfolding op_3048_0_comp_nf_def Let_def assms(2) i_MOVEA_def
  by (rule keep_plain [where k = 2, OF op_ready_done [OF assms(1) [unfolded assms(2)]] _ _ jnf_MOVEA_w_ok])
    (simp_all add: imm8_small fetch_regs imm_view [OF op_ready_done [OF assms(1) [unfolded assms(2)]]] op_done_ready [OF op_ready_done [OF assms(1) [unfolded assms(2)]]] op_operand [OF op_ready_done [OF assms(1) [unfolded assms(2)]]])

lemma op_307c_0_comp_nf_ok:
  assumes "op_ready (64 + t) E mi l" "mi = mo"
  shows "translated t E mi mo l (op_307c_0_comp_nf H E opcode l)
    (\<lambda>g. incpc 4 (i_MOVEA (scast (get_diword H 2 g)) (hi_reg opcode + 8) g))"
proof -
  have u: "status l S1 = UNDEF" by (rule fresh_status [OF assms(1)])
  have e: "op_307c_0_comp_nf H E opcode l = do { l2 \<leftarrow> jnf_MOVEA_w E (hi_reg opcode + 8) S1 (scratch_const (scast (comp_get_iword H l (l_m68k_pc_offset l + 2))) (use_scratch (add_pc_offset 4 l))); end_inst E l2 }"
    by (simp add: op_307c_0_comp_nf_def Let_def alloc_fresh [OF assms(1)] load_const u)
  show ?thesis
    unfolding e assms(2) i_MOVEA_def
    by (rule keep_scratch [OF assms(1) [unfolded assms(2)] _ _ jnf_MOVEA_w_ok]) (simp_all add: op_done_ready [OF op_ready_done [OF assms(1) [unfolded assms(2)]]] op_operand [OF op_ready_done [OF assms(1) [unfolded assms(2)]]] imm_view [OF op_ready_done [OF assms(1) [unfolded assms(2)]]] ready_scratch_const operand_scratch_const u)
qed

lemma op_41d0_0_comp_nf_ok:
  assumes "op_ready (64 + t) E mi l" "mi = mo"
  shows "translated t E mi mo l (op_41d0_0_comp_nf H E opcode l)
    (\<lambda>g. incpc 2 (i_LEA (fetch_reg (lo_reg opcode + 8) g) (hi_reg opcode + 8) g))"
  unfolding op_41d0_0_comp_nf_def Let_def assms(2) i_LEA_def
  by (rule keep_plain [where k = 2, OF op_ready_done [OF assms(1) [unfolded assms(2)]] _ _ move_unless_same])
    (simp_all add: fetch_regs imm_view [OF op_ready_done [OF assms(1) [unfolded assms(2)]]] op_done_ready [OF op_ready_done [OF assms(1) [unfolded assms(2)]]] op_operand [OF op_ready_done [OF assms(1) [unfolded assms(2)]]])

lemma op_41f8_0_comp_nf_ok:
  assumes "op_ready (64 + t) E mi l" "mi = mo"
  shows "translated t E mi mo l (op_41f8_0_comp_nf H E opcode l)
    (\<lambda>g. incpc 4 (i_LEA (scast (get_diword H 2 g)) (hi_reg opcode + 8) g))"
proof -
  have u: "status l S1 = UNDEF" by (rule fresh_status [OF assms(1)])
  have e: "op_41f8_0_comp_nf H E opcode l = do { l2 \<leftarrow> (if hi_reg opcode + 8 \<noteq> S1 then mov_l_rr E (hi_reg opcode + 8) S1 (scratch_const (scast (comp_get_iword H l (l_m68k_pc_offset l + 2))) (use_scratch (add_pc_offset 4 l))) else Some (scratch_const (scast (comp_get_iword H l (l_m68k_pc_offset l + 2))) (use_scratch (add_pc_offset 4 l)))); end_inst E l2 }"
    by (simp add: op_41f8_0_comp_nf_def Let_def alloc_fresh [OF assms(1)] load_const u)
  show ?thesis
    unfolding e assms(2) i_LEA_def
    by (rule keep_scratch [OF assms(1) [unfolded assms(2)] _ _ move_unless_same]) (simp_all add: op_done_ready [OF op_ready_done [OF assms(1) [unfolded assms(2)]]] op_operand [OF op_ready_done [OF assms(1) [unfolded assms(2)]]] imm_view [OF op_ready_done [OF assms(1) [unfolded assms(2)]]] ready_scratch_const operand_scratch_const u)
qed

lemma op_41f9_0_comp_nf_ok:
  assumes "op_ready (64 + t) E mi l" "mi = mo"
  shows "translated t E mi mo l (op_41f9_0_comp_nf H E opcode l)
    (\<lambda>g. incpc 6 (i_LEA (get_dilong H 2 g) (hi_reg opcode + 8) g))"
proof -
  have u: "status l S1 = UNDEF" by (rule fresh_status [OF assms(1)])
  have e: "op_41f9_0_comp_nf H E opcode l = do { l2 \<leftarrow> (if hi_reg opcode + 8 \<noteq> S1 then mov_l_rr E (hi_reg opcode + 8) S1 (scratch_const (comp_get_ilong H l (l_m68k_pc_offset l + 2)) (use_scratch (add_pc_offset 6 l))) else Some (scratch_const (comp_get_ilong H l (l_m68k_pc_offset l + 2)) (use_scratch (add_pc_offset 6 l)))); end_inst E l2 }"
    by (simp add: op_41f9_0_comp_nf_def Let_def alloc_fresh [OF assms(1)] load_const u)
  show ?thesis
    unfolding e assms(2) i_LEA_def
    by (rule keep_scratch [OF assms(1) [unfolded assms(2)] _ _ move_unless_same]) (simp_all add: op_done_ready [OF op_ready_done [OF assms(1) [unfolded assms(2)]]] op_operand [OF op_ready_done [OF assms(1) [unfolded assms(2)]]] imm_view [OF op_ready_done [OF assms(1) [unfolded assms(2)]]] ready_scratch_const operand_scratch_const u)
qed

lemma op_4200_0_comp_nf_ok:
  assumes "op_ready (64 + t) E mi l" "no_flags 0xF mi mo"
  shows "translated t E mi mo l (op_4200_0_comp_nf H E opcode l)
    (\<lambda>g. incpc 2 (i_CLR TYPE(8) (lo_reg opcode) g))"
  unfolding op_4200_0_comp_nf_def Let_def
  by (rule nf_plain [where k = 2 and p = dont_care_flags and q = "\<lambda>l. l", OF op_ready_done [OF assms(1)] assms(2) _ keeps_modes(2) keeps_modes(1) _ _ _ jnf_CLR_b_ok])
    (simp_all add: i_CLR_def fetch_regs imm_view [OF op_ready_done [OF assms(1)]] op_done_ready [OF op_ready_done [OF assms(1)]] op_operand [OF op_ready_done [OF assms(1)]])

lemma op_4240_0_comp_nf_ok:
  assumes "op_ready (64 + t) E mi l" "no_flags 0xF mi mo"
  shows "translated t E mi mo l (op_4240_0_comp_nf H E opcode l)
    (\<lambda>g. incpc 2 (i_CLR TYPE(16) (lo_reg opcode) g))"
  unfolding op_4240_0_comp_nf_def Let_def
  by (rule nf_plain [where k = 2 and p = dont_care_flags and q = "\<lambda>l. l", OF op_ready_done [OF assms(1)] assms(2) _ keeps_modes(2) keeps_modes(1) _ _ _ jnf_CLR_w_ok])
    (simp_all add: i_CLR_def fetch_regs imm_view [OF op_ready_done [OF assms(1)]] op_done_ready [OF op_ready_done [OF assms(1)]] op_operand [OF op_ready_done [OF assms(1)]])

lemma op_4280_0_comp_nf_ok:
  assumes "op_ready (64 + t) E mi l" "no_flags 0xF mi mo"
  shows "translated t E mi mo l (op_4280_0_comp_nf H E opcode l)
    (\<lambda>g. incpc 2 (i_CLR TYPE(32) (lo_reg opcode) g))"
  unfolding op_4280_0_comp_nf_def Let_def
  by (rule nf_plain [where k = 2 and p = dont_care_flags and q = "\<lambda>l. l", OF op_ready_done [OF assms(1)] assms(2) _ keeps_modes(2) keeps_modes(1) _ _ _ jnf_CLR_l_ok])
    (simp_all add: i_CLR_def fetch_regs imm_view [OF op_ready_done [OF assms(1)]] op_done_ready [OF op_ready_done [OF assms(1)]] op_operand [OF op_ready_done [OF assms(1)]])

lemma op_4840_0_comp_nf_ok:
  assumes "op_ready (64 + t) E mi l" "no_flags 0xF mi mo" "isconst l (lo_reg opcode) \<Longrightarrow> val_of l (lo_reg opcode) < 0x100000000"
  shows "translated t E mi mo l (op_4840_0_comp_nf H E opcode l)
    (\<lambda>g. incpc 2 (i_SWAP (lo_reg opcode) g))"
  unfolding op_4840_0_comp_nf_def Let_def
  by (rule nf_plain [where k = 2 and p = dont_care_flags and q = "\<lambda>l. l", OF op_ready_done [OF assms(1)] assms(2) _ keeps_modes(2) keeps_modes(1) _ _ _ jnf_SWAP_ok])
    (simp_all add: i_SWAP_rotr fetch_regs imm_view [OF op_ready_done [OF assms(1)]] op_done_ready [OF op_ready_done [OF assms(1)]] op_operand [OF op_ready_done [OF assms(1)]] assms(3))

lemma op_4880_0_comp_nf_ok:
  assumes "op_ready (64 + t) E mi l" "no_flags 0xF mi mo"
  shows "translated t E mi mo l (op_4880_0_comp_nf H E opcode l)
    (\<lambda>g. incpc 2 (i_EXT_w (lo_reg opcode) g))"
  unfolding op_4880_0_comp_nf_def Let_def
  by (rule nf_plain [where k = 2 and p = dont_care_flags and q = "\<lambda>l. l", OF op_ready_done [OF assms(1)] assms(2) _ keeps_modes(2) keeps_modes(1) _ _ _ jnf_EXT_w_ok])
    (simp_all add: i_EXT_w_def fetch_regs imm_view [OF op_ready_done [OF assms(1)]] op_done_ready [OF op_ready_done [OF assms(1)]] op_operand [OF op_ready_done [OF assms(1)]])

lemma op_48c0_0_comp_nf_ok:
  assumes "op_ready (64 + t) E mi l" "no_flags 0xF mi mo"
  shows "translated t E mi mo l (op_48c0_0_comp_nf H E opcode l)
    (\<lambda>g. incpc 2 (i_EXT_l (lo_reg opcode) g))"
  unfolding op_48c0_0_comp_nf_def Let_def
  by (rule nf_plain [where k = 2 and p = dont_care_flags and q = "\<lambda>l. l", OF op_ready_done [OF assms(1)] assms(2) _ keeps_modes(2) keeps_modes(1) _ _ _ jnf_EXT_l_ok])
    (simp_all add: i_EXT_l_def fetch_regs imm_view [OF op_ready_done [OF assms(1)]] op_done_ready [OF op_ready_done [OF assms(1)]] op_operand [OF op_ready_done [OF assms(1)]])

lemma op_49c0_0_comp_nf_ok:
  assumes "op_ready (64 + t) E mi l" "no_flags 0xF mi mo"
  shows "translated t E mi mo l (op_49c0_0_comp_nf H E opcode l)
    (\<lambda>g. incpc 2 (i_EXT_b (lo_reg opcode) g))"
  unfolding op_49c0_0_comp_nf_def Let_def
  by (rule nf_plain [where k = 2 and p = dont_care_flags and q = "\<lambda>l. l", OF op_ready_done [OF assms(1)] assms(2) _ keeps_modes(2) keeps_modes(1) _ _ _ jnf_EXT_b_ok])
    (simp_all add: i_EXT_b_def fetch_regs imm_view [OF op_ready_done [OF assms(1)]] op_done_ready [OF op_ready_done [OF assms(1)]] op_operand [OF op_ready_done [OF assms(1)]])

lemma op_4e71_0_comp_nf_ok:
  assumes "op_ready (64 + t) E mi l" "mi = mo"
  shows "translated t E mi mo l (op_4e71_0_comp_nf H E opcode l)
    (\<lambda>g. incpc 2 (i_NOP g))"
  unfolding op_4e71_0_comp_nf_def Let_def assms(2) by (rule keep_none [OF assms(1) [unfolded assms(2)]]) simp_all

lemma op_7000_0_comp_nf_ok:
  assumes "op_ready (64 + t) E mi l" "no_flags 0xF mi mo"
  shows "translated t E mi mo l (op_7000_0_comp_nf H E opcode l)
    (\<lambda>g. incpc 2 (i_MOVE (scast (ucast (opcode AND 255) :: u8) :: u32) (hi_reg opcode) g))"
proof -
  have u: "status l S1 = UNDEF" by (rule fresh_status [OF assms(1)])
  have e: "op_7000_0_comp_nf H E opcode l = do { l2 \<leftarrow> jnf_MOVE_l E (hi_reg opcode) S1 (scratch_const (scast (ucast (opcode AND 255) :: u8)) (dont_care_flags (use_scratch (add_pc_offset 2 l)))); end_inst E l2 }"
    by (simp add: op_7000_0_comp_nf_def Let_def alloc_fresh [OF assms(1)] load_const u)
  show ?thesis
    unfolding e
    by (rule nf_scratch [OF assms(1,2) _ _ jnf_MOVE_l_ok]) (simp_all add: i_MOVE_def op_done_ready [OF op_ready_done [OF assms(1)]] op_operand [OF op_ready_done [OF assms(1)]] imm_view [OF op_ready_done [OF assms(1)]] ready_scratch_const operand_scratch_const u)
qed

lemma op_c140_0_comp_nf_ok:
  assumes "op_ready (64 + t) E mi l" "mi = mo"
  shows "translated t E mi mo l (op_c140_0_comp_nf H E opcode l)
    (\<lambda>g. incpc 2 (i_EXG (hi_reg opcode) (lo_reg opcode) g))"
  unfolding op_c140_0_comp_nf_def Let_def assms(2) alloc_fresh [OF assms(1)] bind.bind_lunit prod.case
  by (rule keep_exg [where k = 2, OF assms(1) [unfolded assms(2)]]) simp_all

lemma op_c148_0_comp_nf_ok:
  assumes "op_ready (64 + t) E mi l" "mi = mo"
  shows "translated t E mi mo l (op_c148_0_comp_nf H E opcode l)
    (\<lambda>g. incpc 2 (i_EXG (hi_reg opcode + 8) (lo_reg opcode + 8) g))"
  unfolding op_c148_0_comp_nf_def Let_def assms(2) alloc_fresh [OF assms(1)] bind.bind_lunit prod.case
  by (rule keep_exg [where k = 2, OF assms(1) [unfolded assms(2)]]) simp_all

lemma op_c188_0_comp_nf_ok:
  assumes "op_ready (64 + t) E mi l" "mi = mo"
  shows "translated t E mi mo l (op_c188_0_comp_nf H E opcode l)
    (\<lambda>g. incpc 2 (i_EXG (hi_reg opcode) (lo_reg opcode + 8) g))"
  unfolding op_c188_0_comp_nf_def Let_def assms(2) alloc_fresh [OF assms(1)] bind.bind_lunit prod.case
  by (rule keep_exg [where k = 2, OF assms(1) [unfolded assms(2)]]) simp_all

end
