(* ===== verification/Jit_Bits.thy ===== *)
theory Jit_Bits
  imports Jit_Parts
begin

unbundle bit_operations_syntax

text \<open>
  The bit instructions BTST, BCHG, BCLR and BSET (compemu_midfunc_arm64_2.cpp), with the bit number
  in an immediate or in a register; a byte operand takes it modulo 8 and a long word modulo 32.
\<close>

definition jff_BTST_b_imm :: "jenv \<Rightarrow> nat \<Rightarrow> u32 \<Rightarrow> live \<Rightarrow> live option" where
  "jff_BTST_b_imm E d s l =
    do {
      (d, l) \<leftarrow> readreg E d l;
      let l = emit [MRS_NZCV_x REG_WORK1, CLEAR_xxZflag REG_WORK1 REG_WORK1, TBNZ_wii d (unat (s AND 7)) 2,
        SET_xxZflag REG_WORK1 REG_WORK1, MSR_NZCV_x REG_WORK1] l;
      unlock2 d l }"

definition jff_BTST_l_imm :: "jenv \<Rightarrow> nat \<Rightarrow> u32 \<Rightarrow> live \<Rightarrow> live option" where
  "jff_BTST_l_imm E d s l =
    do {
      (d, l) \<leftarrow> readreg E d l;
      let l = emit [MRS_NZCV_x REG_WORK1, CLEAR_xxZflag REG_WORK1 REG_WORK1, TBNZ_wii d (unat (s AND 0x1F)) 2,
        SET_xxZflag REG_WORK1 REG_WORK1, MSR_NZCV_x REG_WORK1] l;
      unlock2 d l }"

definition jff_BTST_b :: "jenv \<Rightarrow> nat \<Rightarrow> nat \<Rightarrow> live \<Rightarrow> live option" where
  "jff_BTST_b E d s l =
    (if isconst l s then jff_BTST_b_imm E d (ucast (val_of l s)) l
    else do {
      (s, l) \<leftarrow> readreg E s l;
      (d, l) \<leftarrow> readreg E d l;
      let l = emit [UBFIZ_xxii REG_WORK1 s 0 3, MOV_xi REG_WORK2 1, LSL_www REG_WORK2 REG_WORK2 REG_WORK1,
        MRS_NZCV_x REG_WORK1, TST_ww d REG_WORK2, CSET_xc REG_WORK3 CC_EQ, BFI_xxii REG_WORK1 REG_WORK3 30 1,
        MSR_NZCV_x REG_WORK1] l;
      l \<leftarrow> unlock2 d l;
      unlock2 s l })"

definition jff_BTST_l :: "jenv \<Rightarrow> nat \<Rightarrow> nat \<Rightarrow> live \<Rightarrow> live option" where
  "jff_BTST_l E d s l =
    (if isconst l s then jff_BTST_l_imm E d (ucast (val_of l s)) l
    else do {
      let s_is_d = (s = d);
      (d, l) \<leftarrow> readreg E d l;
      (s, l) \<leftarrow> (if \<not> s_is_d then do {
        (s, l) \<leftarrow> readreg E s l;
        Some (s, l) }
      else do {
        let s = d;
        Some (s, l) });
      let l = emit [UBFIZ_xxii REG_WORK1 s 0 5, MOV_xi REG_WORK2 1, LSL_www REG_WORK2 REG_WORK2 REG_WORK1,
        MRS_NZCV_x REG_WORK1, TST_ww d REG_WORK2, CSET_xc REG_WORK3 CC_EQ, BFI_xxii REG_WORK1 REG_WORK3 30 1,
        MSR_NZCV_x REG_WORK1] l;
      l \<leftarrow> unlock2 d l;
      if \<not> s_is_d then unlock2 s l
      else Some l })"

definition jnf_BCHG_b_imm :: "jenv \<Rightarrow> nat \<Rightarrow> u32 \<Rightarrow> live \<Rightarrow> live option" where
  "jnf_BCHG_b_imm E d s l =
    do {
      (d, l) \<leftarrow> rmw E d l;
      let l = emit [EOR_xxbit d d (unat (s AND 7))] l;
      unlock2 d l }"

definition jnf_BCHG_l_imm :: "jenv \<Rightarrow> nat \<Rightarrow> u32 \<Rightarrow> live \<Rightarrow> live option" where
  "jnf_BCHG_l_imm E d s l =
    do {
      (d, l) \<leftarrow> rmw E d l;
      let l = emit [EOR_xxbit d d (unat (s AND 0x1F))] l;
      unlock2 d l }"

definition jnf_BCHG_b :: "jenv \<Rightarrow> nat \<Rightarrow> nat \<Rightarrow> live \<Rightarrow> live option" where
  "jnf_BCHG_b E d s l =
    (if isconst l s then jnf_BCHG_b_imm E d (ucast (val_of l s)) l
    else do {
      (s, l) \<leftarrow> readreg E s l;
      (d, l) \<leftarrow> rmw E d l;
      let l = emit [UBFIZ_xxii REG_WORK1 s 0 3, MOV_xi REG_WORK2 1, LSL_www REG_WORK2 REG_WORK2 REG_WORK1,
        EOR_www d d REG_WORK2] l;
      l \<leftarrow> unlock2 d l;
      unlock2 s l })"

definition jnf_BCHG_l :: "jenv \<Rightarrow> nat \<Rightarrow> nat \<Rightarrow> live \<Rightarrow> live option" where
  "jnf_BCHG_l E d s l =
    (if isconst l s then jnf_BCHG_l_imm E d (ucast (val_of l s)) l
    else do {
      let s_is_d = (s = d);
      (d, s, l) \<leftarrow> INIT_REGS E d s l;
      let l = emit [UBFIZ_xxii REG_WORK1 s 0 5, MOV_xi REG_WORK2 1, LSL_www REG_WORK2 REG_WORK2 REG_WORK1,
        EOR_www d d REG_WORK2] l;
      EXIT_REGS s_is_d d s l })"

definition jff_BCHG_b_imm :: "jenv \<Rightarrow> nat \<Rightarrow> u32 \<Rightarrow> live \<Rightarrow> live option" where
  "jff_BCHG_b_imm E d s l =
    do {
      (d, l) \<leftarrow> rmw E d l;
      let l = emit [MRS_NZCV_x REG_WORK1, EOR_xxbit d d (unat (s AND 7)),
        UBFX_xxii REG_WORK2 d (unat (s AND 7)) 1, BFI_xxii REG_WORK1 REG_WORK2 30 1, MSR_NZCV_x REG_WORK1] l;
      unlock2 d l }"

definition jff_BCHG_l_imm :: "jenv \<Rightarrow> nat \<Rightarrow> u32 \<Rightarrow> live \<Rightarrow> live option" where
  "jff_BCHG_l_imm E d s l =
    do {
      (d, l) \<leftarrow> rmw E d l;
      let l = emit [MRS_NZCV_x REG_WORK1, EOR_xxbit d d (unat (s AND 0x1F)),
        UBFX_xxii REG_WORK2 d (unat (s AND 0x1F)) 1, BFI_xxii REG_WORK1 REG_WORK2 30 1, MSR_NZCV_x REG_WORK1] l;
      unlock2 d l }"

definition jff_BCHG_b :: "jenv \<Rightarrow> nat \<Rightarrow> nat \<Rightarrow> live \<Rightarrow> live option" where
  "jff_BCHG_b E d s l =
    (if isconst l s then jff_BCHG_b_imm E d (ucast (val_of l s)) l
    else do {
      (s, l) \<leftarrow> readreg E s l;
      (d, l) \<leftarrow> rmw E d l;
      let l = emit [UBFIZ_xxii REG_WORK1 s 0 3, MOV_xi REG_WORK2 1, LSL_www REG_WORK2 REG_WORK2 REG_WORK1,
        MRS_NZCV_x REG_WORK1, TST_ww d REG_WORK2, CSET_xc REG_WORK3 CC_EQ, BFI_xxii REG_WORK1 REG_WORK3 30 1,
        MSR_NZCV_x REG_WORK1, EOR_www d d REG_WORK2] l;
      l \<leftarrow> unlock2 d l;
      unlock2 s l })"

definition jff_BCHG_l :: "jenv \<Rightarrow> nat \<Rightarrow> nat \<Rightarrow> live \<Rightarrow> live option" where
  "jff_BCHG_l E d s l =
    (if isconst l s then jff_BCHG_l_imm E d (ucast (val_of l s)) l
    else do {
      let s_is_d = (s = d);
      (d, s, l) \<leftarrow> INIT_REGS E d s l;
      let l = emit [UBFIZ_xxii REG_WORK1 s 0 5, MOV_xi REG_WORK2 1, LSL_www REG_WORK2 REG_WORK2 REG_WORK1,
        MRS_NZCV_x REG_WORK1, TST_ww d REG_WORK2, CSET_xc REG_WORK3 CC_EQ, BFI_xxii REG_WORK1 REG_WORK3 30 1,
        MSR_NZCV_x REG_WORK1, EOR_www d d REG_WORK2] l;
      EXIT_REGS s_is_d d s l })"

definition jnf_BCLR_b_imm :: "jenv \<Rightarrow> nat \<Rightarrow> u32 \<Rightarrow> live \<Rightarrow> live option" where
  "jnf_BCLR_b_imm E d s l =
    do {
      (d, l) \<leftarrow> rmw E d l;
      let l = emit [CLEAR_xxbit d d (unat (s AND 7))] l;
      unlock2 d l }"

definition jnf_BCLR_l_imm :: "jenv \<Rightarrow> nat \<Rightarrow> u32 \<Rightarrow> live \<Rightarrow> live option" where
  "jnf_BCLR_l_imm E d s l =
    (if isconst l d then Some (set_val d ((val_of l d) AND (scast (NOT (push_bit (unat (s AND 0x1F)) (1 :: u32))))) l)
    else do {
      (d, l) \<leftarrow> rmw E d l;
      let l = emit [CLEAR_xxbit d d (unat (s AND 0x1F))] l;
      unlock2 d l })"

definition jnf_BCLR_b :: "jenv \<Rightarrow> nat \<Rightarrow> nat \<Rightarrow> live \<Rightarrow> live option" where
  "jnf_BCLR_b E d s l =
    (if isconst l s then jnf_BCLR_b_imm E d (ucast (val_of l s)) l
    else do {
      (s, l) \<leftarrow> readreg E s l;
      (d, l) \<leftarrow> rmw E d l;
      let l = emit [UBFIZ_xxii REG_WORK1 s 0 3, MOV_xi REG_WORK2 1, LSL_www REG_WORK2 REG_WORK2 REG_WORK1,
        BIC_www d d REG_WORK2] l;
      l \<leftarrow> unlock2 d l;
      unlock2 s l })"

definition jnf_BCLR_l :: "jenv \<Rightarrow> nat \<Rightarrow> nat \<Rightarrow> live \<Rightarrow> live option" where
  "jnf_BCLR_l E d s l =
    (if isconst l s then jnf_BCLR_l_imm E d (ucast (val_of l s)) l
    else do {
      let s_is_d = (s = d);
      (d, s, l) \<leftarrow> INIT_REGS E d s l;
      let l = emit [UBFIZ_xxii REG_WORK1 s 0 5, MOV_xi REG_WORK2 1, LSL_www REG_WORK2 REG_WORK2 REG_WORK1,
        BIC_www d d REG_WORK2] l;
      EXIT_REGS s_is_d d s l })"

definition jff_BCLR_b_imm :: "jenv \<Rightarrow> nat \<Rightarrow> u32 \<Rightarrow> live \<Rightarrow> live option" where
  "jff_BCLR_b_imm E d s l =
    do {
      (d, l) \<leftarrow> rmw E d l;
      let l = emit [MRS_NZCV_x REG_WORK1, CLEAR_xxZflag REG_WORK1 REG_WORK1, TBNZ_wii d (unat (s AND 7)) 2,
        SET_xxZflag REG_WORK1 REG_WORK1, MSR_NZCV_x REG_WORK1, CLEAR_xxbit d d (unat (s AND 7))] l;
      unlock2 d l }"

definition jff_BCLR_l_imm :: "jenv \<Rightarrow> nat \<Rightarrow> u32 \<Rightarrow> live \<Rightarrow> live option" where
  "jff_BCLR_l_imm E d s l =
    do {
      (d, l) \<leftarrow> rmw E d l;
      let l = emit [MRS_NZCV_x REG_WORK1, CLEAR_xxZflag REG_WORK1 REG_WORK1, TBNZ_wii d (unat (s AND 0x1F)) 2,
        SET_xxZflag REG_WORK1 REG_WORK1, MSR_NZCV_x REG_WORK1, CLEAR_xxbit d d (unat (s AND 0x1F))] l;
      unlock2 d l }"

definition jff_BCLR_b :: "jenv \<Rightarrow> nat \<Rightarrow> nat \<Rightarrow> live \<Rightarrow> live option" where
  "jff_BCLR_b E d s l =
    (if isconst l s then jff_BCLR_b_imm E d (ucast (val_of l s)) l
    else do {
      (s, l) \<leftarrow> readreg E s l;
      (d, l) \<leftarrow> rmw E d l;
      let l = emit [UBFIZ_xxii REG_WORK1 s 0 3, MOV_xi REG_WORK2 1, LSL_www REG_WORK2 REG_WORK2 REG_WORK1,
        MRS_NZCV_x REG_WORK1, TST_ww d REG_WORK2, CSET_xc REG_WORK3 CC_EQ, BFI_xxii REG_WORK1 REG_WORK3 30 1,
        MSR_NZCV_x REG_WORK1, BIC_www d d REG_WORK2] l;
      l \<leftarrow> unlock2 d l;
      unlock2 s l })"

definition jff_BCLR_l :: "jenv \<Rightarrow> nat \<Rightarrow> nat \<Rightarrow> live \<Rightarrow> live option" where
  "jff_BCLR_l E d s l =
    (if isconst l s then jff_BCLR_l_imm E d (ucast (val_of l s)) l
    else do {
      let s_is_d = (s = d);
      (d, s, l) \<leftarrow> INIT_REGS E d s l;
      let l = emit [UBFIZ_xxii REG_WORK1 s 0 5, MOV_xi REG_WORK2 1, LSL_www REG_WORK2 REG_WORK2 REG_WORK1,
        MRS_NZCV_x REG_WORK1, TST_ww d REG_WORK2, CSET_xc REG_WORK3 CC_EQ, BFI_xxii REG_WORK1 REG_WORK3 30 1,
        MSR_NZCV_x REG_WORK1, BIC_www d d REG_WORK2] l;
      EXIT_REGS s_is_d d s l })"

definition jnf_BSET_b_imm :: "jenv \<Rightarrow> nat \<Rightarrow> u32 \<Rightarrow> live \<Rightarrow> live option" where
  "jnf_BSET_b_imm E d s l =
    do {
      (d, l) \<leftarrow> rmw E d l;
      let l = emit [SET_xxbit d d (unat (s AND 7))] l;
      unlock2 d l }"

definition jnf_BSET_l_imm :: "jenv \<Rightarrow> nat \<Rightarrow> u32 \<Rightarrow> live \<Rightarrow> live option" where
  "jnf_BSET_l_imm E d s l =
    do {
      (d, l) \<leftarrow> rmw E d l;
      let l = emit [SET_xxbit d d (unat (s AND 0x1F))] l;
      unlock2 d l }"

definition jnf_BSET_b :: "jenv \<Rightarrow> nat \<Rightarrow> nat \<Rightarrow> live \<Rightarrow> live option" where
  "jnf_BSET_b E d s l =
    (if isconst l s then jnf_BSET_b_imm E d (ucast (val_of l s)) l
    else do {
      (s, l) \<leftarrow> readreg E s l;
      (d, l) \<leftarrow> rmw E d l;
      let l = emit [UBFIZ_xxii REG_WORK1 s 0 3, MOV_xi REG_WORK2 1, LSL_www REG_WORK2 REG_WORK2 REG_WORK1,
        ORR_www d d REG_WORK2] l;
      l \<leftarrow> unlock2 d l;
      unlock2 s l })"

definition jnf_BSET_l :: "jenv \<Rightarrow> nat \<Rightarrow> nat \<Rightarrow> live \<Rightarrow> live option" where
  "jnf_BSET_l E d s l =
    (if isconst l s then jnf_BSET_l_imm E d (ucast (val_of l s)) l
    else do {
      let s_is_d = (s = d);
      (d, s, l) \<leftarrow> INIT_REGS E d s l;
      let l = emit [UBFIZ_xxii REG_WORK1 s 0 5, MOV_xi REG_WORK2 1, LSL_www REG_WORK2 REG_WORK2 REG_WORK1,
        ORR_www d d REG_WORK2] l;
      EXIT_REGS s_is_d d s l })"

definition jff_BSET_b_imm :: "jenv \<Rightarrow> nat \<Rightarrow> u32 \<Rightarrow> live \<Rightarrow> live option" where
  "jff_BSET_b_imm E d s l =
    do {
      (d, l) \<leftarrow> rmw E d l;
      let l = emit [MRS_NZCV_x REG_WORK1, CLEAR_xxZflag REG_WORK1 REG_WORK1, TBNZ_wii d (unat (s AND 7)) 2,
        SET_xxZflag REG_WORK1 REG_WORK1, MSR_NZCV_x REG_WORK1, SET_xxbit d d (unat (s AND 7))] l;
      unlock2 d l }"

definition jff_BSET_l_imm :: "jenv \<Rightarrow> nat \<Rightarrow> u32 \<Rightarrow> live \<Rightarrow> live option" where
  "jff_BSET_l_imm E d s l =
    do {
      (d, l) \<leftarrow> rmw E d l;
      let l = emit [MRS_NZCV_x REG_WORK1, CLEAR_xxZflag REG_WORK1 REG_WORK1, TBNZ_wii d (unat (s AND 0x1F)) 2,
        SET_xxZflag REG_WORK1 REG_WORK1, MSR_NZCV_x REG_WORK1, SET_xxbit d d (unat (s AND 0x1F))] l;
      unlock2 d l }"

definition jff_BSET_b :: "jenv \<Rightarrow> nat \<Rightarrow> nat \<Rightarrow> live \<Rightarrow> live option" where
  "jff_BSET_b E d s l =
    (if isconst l s then jff_BSET_b_imm E d (ucast (val_of l s)) l
    else do {
      (s, l) \<leftarrow> readreg E s l;
      (d, l) \<leftarrow> rmw E d l;
      let l = emit [UBFIZ_xxii REG_WORK1 s 0 3, MOV_xi REG_WORK2 1, LSL_www REG_WORK2 REG_WORK2 REG_WORK1,
        MRS_NZCV_x REG_WORK1, TST_ww d REG_WORK2, CSET_xc REG_WORK3 CC_EQ, BFI_xxii REG_WORK1 REG_WORK3 30 1,
        MSR_NZCV_x REG_WORK1, ORR_www d d REG_WORK2] l;
      l \<leftarrow> unlock2 d l;
      unlock2 s l })"

definition jff_BSET_l :: "jenv \<Rightarrow> nat \<Rightarrow> nat \<Rightarrow> live \<Rightarrow> live option" where
  "jff_BSET_l E d s l =
    (if isconst l s then jff_BSET_l_imm E d (ucast (val_of l s)) l
    else do {
      let s_is_d = (s = d);
      (d, s, l) \<leftarrow> INIT_REGS E d s l;
      let l = emit [UBFIZ_xxii REG_WORK1 s 0 5, MOV_xi REG_WORK2 1, LSL_www REG_WORK2 REG_WORK2 REG_WORK1,
        MRS_NZCV_x REG_WORK1, TST_ww d REG_WORK2, CSET_xc REG_WORK3 CC_EQ, BFI_xxii REG_WORK1 REG_WORK3 30 1,
        MSR_NZCV_x REG_WORK1, ORR_www d d REG_WORK2] l;
      EXIT_REGS s_is_d d s l })"

section \<open>Effects\<close>

text \<open>
  The bit instructions set Z to the complement of the bit they test and leave the other condition
  codes; the carry stays in the form it has.
\<close>

definition bit_effect :: "nat \<Rightarrow> (vregs \<Rightarrow> 'a::len word) \<Rightarrow> (vregs \<Rightarrow> nat) \<Rightarrow> effect" where
  "bit_effect d op k V f V' f' \<longleftrightarrow> writes d (op V) V V' \<and>
     (case f of (n, z, c, v) \<Rightarrow> f' = (n, \<not> bit (V d) (k V), c, v))"

definition test_effect :: "nat \<Rightarrow> (vregs \<Rightarrow> nat) \<Rightarrow> effect" where
  "test_effect d k V f V' f' \<longleftrightarrow> V' = V \<and> (case f of (n, z, c, v) \<Rightarrow> f' = (n, \<not> bit (V d) (k V), c, v))"

lemma bit_reg:
  assumes "ready t E l" "operand d l" "operand s l" "code2 l d s c (bit_effect d op k)" "g \<Longrightarrow> isconst l s"
    "\<And>v. generates {} t E l (h v) (l_flags_carry_inverted l) (bit_effect d (f v) (j v))"
    "\<And>V. same_low (V s) (val_of l s) \<Longrightarrow> f v V = op V \<and> j v V = k V"
  shows "generates {} t E l (if g then h v else
      do { (dn, sn, l1) \<leftarrow> INIT_REGS E d s l; EXIT_REGS (s = d) dn sn (emit (c dn sn l1) l1) })
    (l_flags_carry_inverted l) (bit_effect d op k)"
proof (rule generates_ifI)
  assume "g"
  with assms(5) have "isconst l s" by simp
  show "generates {} t E l (h v) (l_flags_carry_inverted l) (bit_effect d op k)"
    by (rule with_const [OF assms(6) \<open>isconst l s\<close> assms(3)]) (use assms(7) in \<open>simp add: bit_effect_def same_lowI\<close>)
qed (rule op2 [OF assms(1-4)])

text \<open>The byte forms acquire the two registers one by one; their destination is in memory.\<close>

lemma init_other:
  assumes "s \<noteq> d"
  shows "do { (sn, l1) \<leftarrow> readreg E s l; (dn, l1) \<leftarrow> rmw E d l1; l2 \<leftarrow> unlock2 dn (emit (c dn sn) l1); unlock2 sn l2 } =
    do { (dn, sn, l1) \<leftarrow> INIT_REGS E d s l; EXIT_REGS (s = d) dn sn (emit (c dn sn) l1) }"
  using assms by (simp add: INIT_REGS_def EXIT_REGS_def case_prod_unfold)

lemma unlock2_comm: "do { l1 \<leftarrow> unlock2 a l; unlock2 b l1 } = do { l1 \<leftarrow> unlock2 b l; unlock2 a l1 }"
  by (cases "a = b") (simp_all add: unlock2_def upd_nat_def fun_upd_twist)

lemma rinit_other:
  assumes "s \<noteq> d"
  shows "do { (sn, l1) \<leftarrow> readreg E s l; (dn, l1) \<leftarrow> readreg E d l1; l2 \<leftarrow> unlock2 dn (emit (c dn sn) l1); unlock2 sn l2 } =
    do { (dn, sn, l1) \<leftarrow> INIT_RREGS E d s l; EXIT_REGS (s = d) dn sn (emit (c dn sn) l1) }"
  using assms by (simp add: INIT_RREGS_def EXIT_REGS_def case_prod_unfold)

text \<open>\<^verbatim>\<open>jff_BTST_l\<close> acquires its destination first.\<close>

lemma rinit_swapped:
  "do { (dn, l1) \<leftarrow> readreg E d l;
       (sn, l1) \<leftarrow> (if s \<noteq> d then do { (sn, l1) \<leftarrow> readreg E s l1; Some (sn, l1) } else Some (dn, l1));
       l2 \<leftarrow> unlock2 dn (emit (c dn sn) l1); if s \<noteq> d then unlock2 sn l2 else Some l2 } =
    do { (sn, dn, l1) \<leftarrow> INIT_RREGS E s d l; EXIT_REGS (d = s) sn dn (emit (c dn sn) l1) }"
  by (cases "s = d") (auto simp: INIT_RREGS_def EXIT_REGS_def case_prod_unfold unlock2_comm [of "fst (the (readreg E d l))"]
    intro!: Option.bind_cong [OF refl] unlock2_comm)

lemmas rop2 = rop2_ok [where fl = None, unfolded finish_def option.case Option.bind_lunit inverted_after_def]

lemma test_reg:
  assumes "ready t E l" "operand d l" "operand s l"
    "generates {} t E l c (l_flags_carry_inverted l) (test_effect d k)" "g \<Longrightarrow> isconst l s"
    "\<And>v. generates {} t E l (h v) (l_flags_carry_inverted l) (test_effect d (j v))"
    "\<And>V. same_low (V s) (val_of l s) \<Longrightarrow> j v V = k V"
  shows "generates {} t E l (if g then h v else c) (l_flags_carry_inverted l) (test_effect d k)"
proof (rule generates_ifI)
  assume "g"
  with assms(5) have "isconst l s" by simp
  show "generates {} t E l (h v) (l_flags_carry_inverted l) (test_effect d k)"
    by (rule with_const [OF assms(6) \<open>isconst l s\<close> assms(3)]) (use assms(7) in \<open>simp add: test_effect_def same_lowI\<close>)
qed (rule assms(4))

section \<open>Single bits\<close>

lemma and_low_mask: "v AND 7 = take_bit 3 v" "v AND 0x1F = take_bit 5 v" for v :: u32
  by (simp_all add: take_bit_eq_mask mask_eq_exp_minus_1)

lemma unat_take_less [simp]:
  "unat (take_bit 3 v) < 8" "unat (take_bit 3 v) < 32" "unat (take_bit 3 v) < 64"
  "unat (take_bit 5 v) < 32" "unat (take_bit 5 v) < 64" for v :: u32
  using take_bit_nat_less_exp [of 3 "unat v"] take_bit_nat_less_exp [of 5 "unat v"] by (simp_all add: unsigned_take_bit_eq)

lemma shift_count [simp]:
  "unat (ucast (take_bit 3 (rdx m n)) :: u32) mod 32 = unat (take_bit 3 (rdw m n))"
  "unat (ucast (take_bit 5 (rdx m n)) :: u32) mod 32 = unat (take_bit 5 (rdw m n))"
proof -
  have "(ucast (take_bit 3 (rdx m n)) :: u32) = take_bit 3 (rdw m n)" "(ucast (take_bit 5 (rdx m n)) :: u32) = take_bit 5 (rdw m n)"
    by (simp_all add: rdw_def blast32 del: ucast_rdx)
  then show "unat (ucast (take_bit 3 (rdx m n)) :: u32) mod 32 = unat (take_bit 3 (rdw m n))"
    "unat (ucast (take_bit 5 (rdx m n)) :: u32) mod 32 = unat (take_bit 5 (rdw m n))" by simp_all
qed

lemma bit_rdx: "k < 32 \<Longrightarrow> bit (rdx m n) k = bit (rdw m n) k"
  by (simp add: rdw_def bit_simps del: ucast_rdx)

lemma bit_nzcv_word [simp]:
  "bit (nzcv_word s) 31 = nf s" "bit (nzcv_word s) 30 = zf s" "bit (nzcv_word s) 29 = cf s" "bit (nzcv_word s) 28 = vf s"
  by (simp_all add: nzcv_word_def bit_simps)

lemma flags_regs [simp]:
  "xr (s\<lparr>nf := n, zf := z, cf := c, vf := v\<rparr>) = xr s" "rdx (s\<lparr>nf := n, zf := z, cf := c, vf := v\<rparr>) k = rdx s k"
  "rdw (s\<lparr>nf := n, zf := z, cf := c, vf := v\<rparr>) k = rdw s k"
  by (simp_all add: rdx_def rdw_def del: ucast_rdx)

lemma exec_TB [simp]:
  "exec (TB nz t b k # is) s = exec (if bit (rdx s t) b = nz then drop k is else is) s"
  by (simp add: exec.simps(2) skips_def)

text \<open>The mask of one bit, in a register and in its parts.\<close>

definition one_bit :: "nat \<Rightarrow> 'a::len word" where
  "one_bit k = push_bit k 1"

lemma bit_one_bit: "bit (one_bit k :: 'a::len word) j \<longleftrightarrow> j = k \<and> k < LENGTH('a)"
  by (auto simp: one_bit_def bit_simps)

lemma ucast_one_bit [simp]:
  "(ucast (one_bit k :: u64) :: u32) = one_bit k" "(ucast (one_bit k :: u32) :: u8) = one_bit k"
  "(ucast (one_bit k :: u64) :: u8) = one_bit k"
  by (rule bit_word_eqI, auto simp: bit_simps bit_one_bit)+

lemma drop_one_bit [simp]:
  assumes "k < 8"
  shows "drop_bit 8 (one_bit k :: u32) = 0" "drop_bit 8 x AND drop_bit 8 (NOT (one_bit k)) = drop_bit 8 (x :: u32)"
  by (rule bit_word_eqI, use assms in \<open>auto simp: bit_simps bit_one_bit dest: bit_imp_le_length\<close>)+

lemma parity_bit:
  assumes "k < 32"
  shows "odd (drop_bit k (one_bit k :: u64))" "odd (drop_bit k (rdx m n)) = bit (rdw m n) k"
  using assms by (simp_all add: bit_iff_odd_drop_bit [symmetric] bit_one_bit bit_rdx)

lemma zf_test [simp]: "zf (set_flags True (snd (alu_op AND_op a b)) s) = (a AND b = 0)"
  by (simp add: set_flags_def alu_op_def logic_flags_def)

lemma test_one_bit: "k < LENGTH('a) \<Longrightarrow> x AND one_bit k = 0 \<longleftrightarrow> \<not> bit x k" for x :: "'a::len word"
  unfolding one_bit_def by (metis and_exp_eq_0_iff_not_bit push_bit_of_1)

lemma bit_macros:
  assumes "b < 64"
  shows "EOR_xxbit d n b = DP True EOR False d n (Imm (one_bit b))" "SET_xxbit d n b = DP True ORR False d n (Imm (one_bit b))"
    "CLEAR_xxbit d n b = DP True AND_op False d n (Imm (NOT (one_bit b)))"
  using immEncode_bit [OF assms] by (simp_all add: EOR_xxbit_def SET_xxbit_def CLEAR_xxbit_def one_bit_def)

lemma shift_one: "push_bit k (1 :: 'a::len word) = one_bit k" "2 ^ k = (one_bit k :: 'a word)"
  by (simp_all add: one_bit_def)

lemmas bits_simps = code_simps parity_bit bit_effect_def test_effect_def and_low_mask bit_rdx bit_macros nzcv_def bit_simps
  bit_one_bit test_one_bit xr_wrx xr_wrw shift_one

section \<open>Correctness\<close>

lemma jff_BTST_b_imm_ok:
  assumes "ready t E l" "operand d l"
  shows "generates {} t E l (jff_BTST_b_imm E d s l) (l_flags_carry_inverted l)
    (test_effect d (\<lambda>V. unat (take_bit 3 s)))"
  unfolding jff_BTST_b_imm_def Let_def
  by (rule rop1 [OF assms]) (simp_all add: bits_simps del: EOR_xxbit_def CLEAR_xxbit_def SET_xxbit_def push_bit_of_1)

lemma jff_BTST_b_ok:
  assumes "ready t E l" "operand d l" "operand s l" "s \<noteq> d"
  shows "generates {} t E l (jff_BTST_b E d s l) (l_flags_carry_inverted l)
    (test_effect d (\<lambda>V. unat (take_bit 3 (ucast (V s) :: u32))))"
  unfolding jff_BTST_b_def Let_def rinit_other [OF assms(4)]
  by (rule test_reg [OF assms(1-3) rop2 [OF assms(1-3)] _ jff_BTST_b_imm_ok [OF assms(1,2)]]) (simp_all add: bits_simps same_low_def del: push_bit_of_1)

lemma jnf_BCHG_b_imm_ok:
  assumes "ready t E l" "operand d l"
  shows "generates {} t E l (jnf_BCHG_b_imm E d s l) (l_flags_carry_inverted l)
    (plain_effect d (\<lambda>V. (ucast (V d) :: u8) XOR one_bit (unat (take_bit 3 s))))"
  unfolding jnf_BCHG_b_imm_def Let_def
  by (rule op1 [OF assms]) (simp_all add: bits_simps same_low_def del: EOR_xxbit_def CLEAR_xxbit_def SET_xxbit_def push_bit_of_1)

lemma jnf_BCHG_b_ok:
  assumes "ready t E l" "operand d l" "operand s l" "s \<noteq> d"
  shows "generates {} t E l (jnf_BCHG_b E d s l) (l_flags_carry_inverted l)
    (plain_effect d (\<lambda>V. (ucast (V d) :: u8) XOR one_bit (unat (take_bit 3 (ucast (V s) :: u32)))))"
  unfolding jnf_BCHG_b_def Let_def init_other [OF assms(4)]
  by (rule plain_reg [OF assms(1-3) _ _ jnf_BCHG_b_imm_ok [OF assms(1,2)]]) (simp_all add: bits_simps same_low_def del: push_bit_of_1)

lemma jff_BCHG_b_imm_ok:
  assumes "ready t E l" "operand d l"
  shows "generates {} t E l (jff_BCHG_b_imm E d s l) (l_flags_carry_inverted l)
    (bit_effect d (\<lambda>V. (ucast (V d) :: u8) XOR one_bit (unat (take_bit 3 s))) (\<lambda>V. unat (take_bit 3 s)))"
  unfolding jff_BCHG_b_imm_def Let_def
  by (rule op1 [OF assms]) (simp_all add: bits_simps same_low_def del: EOR_xxbit_def CLEAR_xxbit_def SET_xxbit_def push_bit_of_1)

lemma jff_BCHG_b_ok:
  assumes "ready t E l" "operand d l" "operand s l" "s \<noteq> d"
  shows "generates {} t E l (jff_BCHG_b E d s l) (l_flags_carry_inverted l)
    (bit_effect d (\<lambda>V. (ucast (V d) :: u8) XOR one_bit (unat (take_bit 3 (ucast (V s) :: u32)))) (\<lambda>V. unat (take_bit 3 (ucast (V s) :: u32))))"
  unfolding jff_BCHG_b_def Let_def init_other [OF assms(4)]
  by (rule bit_reg [OF assms(1-3) _ _ jff_BCHG_b_imm_ok [OF assms(1,2)]]) (simp_all add: bits_simps same_low_def del: push_bit_of_1)

lemma jnf_BCLR_b_imm_ok:
  assumes "ready t E l" "operand d l"
  shows "generates {} t E l (jnf_BCLR_b_imm E d s l) (l_flags_carry_inverted l)
    (plain_effect d (\<lambda>V. (ucast (V d) :: u8) AND NOT (one_bit (unat (take_bit 3 s)))))"
  unfolding jnf_BCLR_b_imm_def Let_def
  by (rule op1 [OF assms]) (simp_all add: bits_simps same_low_def del: EOR_xxbit_def CLEAR_xxbit_def SET_xxbit_def push_bit_of_1)

lemma jnf_BCLR_b_ok:
  assumes "ready t E l" "operand d l" "operand s l" "s \<noteq> d"
  shows "generates {} t E l (jnf_BCLR_b E d s l) (l_flags_carry_inverted l)
    (plain_effect d (\<lambda>V. (ucast (V d) :: u8) AND NOT (one_bit (unat (take_bit 3 (ucast (V s) :: u32))))))"
  unfolding jnf_BCLR_b_def Let_def init_other [OF assms(4)]
  by (rule plain_reg [OF assms(1-3) _ _ jnf_BCLR_b_imm_ok [OF assms(1,2)]]) (simp_all add: bits_simps same_low_def del: push_bit_of_1)

lemma jff_BCLR_b_imm_ok:
  assumes "ready t E l" "operand d l"
  shows "generates {} t E l (jff_BCLR_b_imm E d s l) (l_flags_carry_inverted l)
    (bit_effect d (\<lambda>V. (ucast (V d) :: u8) AND NOT (one_bit (unat (take_bit 3 s)))) (\<lambda>V. unat (take_bit 3 s)))"
  unfolding jff_BCLR_b_imm_def Let_def
  by (rule op1 [OF assms]) (simp_all add: bits_simps same_low_def del: EOR_xxbit_def CLEAR_xxbit_def SET_xxbit_def push_bit_of_1)

lemma jff_BCLR_b_ok:
  assumes "ready t E l" "operand d l" "operand s l" "s \<noteq> d"
  shows "generates {} t E l (jff_BCLR_b E d s l) (l_flags_carry_inverted l)
    (bit_effect d (\<lambda>V. (ucast (V d) :: u8) AND NOT (one_bit (unat (take_bit 3 (ucast (V s) :: u32))))) (\<lambda>V. unat (take_bit 3 (ucast (V s) :: u32))))"
  unfolding jff_BCLR_b_def Let_def init_other [OF assms(4)]
  by (rule bit_reg [OF assms(1-3) _ _ jff_BCLR_b_imm_ok [OF assms(1,2)]]) (simp_all add: bits_simps same_low_def del: push_bit_of_1)

lemma jnf_BSET_b_imm_ok:
  assumes "ready t E l" "operand d l"
  shows "generates {} t E l (jnf_BSET_b_imm E d s l) (l_flags_carry_inverted l)
    (plain_effect d (\<lambda>V. (ucast (V d) :: u8) OR one_bit (unat (take_bit 3 s))))"
  unfolding jnf_BSET_b_imm_def Let_def
  by (rule op1 [OF assms]) (simp_all add: bits_simps same_low_def del: EOR_xxbit_def CLEAR_xxbit_def SET_xxbit_def push_bit_of_1)

lemma jnf_BSET_b_ok:
  assumes "ready t E l" "operand d l" "operand s l" "s \<noteq> d"
  shows "generates {} t E l (jnf_BSET_b E d s l) (l_flags_carry_inverted l)
    (plain_effect d (\<lambda>V. (ucast (V d) :: u8) OR one_bit (unat (take_bit 3 (ucast (V s) :: u32)))))"
  unfolding jnf_BSET_b_def Let_def init_other [OF assms(4)]
  by (rule plain_reg [OF assms(1-3) _ _ jnf_BSET_b_imm_ok [OF assms(1,2)]]) (simp_all add: bits_simps same_low_def del: push_bit_of_1)

lemma jff_BSET_b_imm_ok:
  assumes "ready t E l" "operand d l"
  shows "generates {} t E l (jff_BSET_b_imm E d s l) (l_flags_carry_inverted l)
    (bit_effect d (\<lambda>V. (ucast (V d) :: u8) OR one_bit (unat (take_bit 3 s))) (\<lambda>V. unat (take_bit 3 s)))"
  unfolding jff_BSET_b_imm_def Let_def
  by (rule op1 [OF assms]) (simp_all add: bits_simps same_low_def del: EOR_xxbit_def CLEAR_xxbit_def SET_xxbit_def push_bit_of_1)

lemma jff_BSET_b_ok:
  assumes "ready t E l" "operand d l" "operand s l" "s \<noteq> d"
  shows "generates {} t E l (jff_BSET_b E d s l) (l_flags_carry_inverted l)
    (bit_effect d (\<lambda>V. (ucast (V d) :: u8) OR one_bit (unat (take_bit 3 (ucast (V s) :: u32)))) (\<lambda>V. unat (take_bit 3 (ucast (V s) :: u32))))"
  unfolding jff_BSET_b_def Let_def init_other [OF assms(4)]
  by (rule bit_reg [OF assms(1-3) _ _ jff_BSET_b_imm_ok [OF assms(1,2)]]) (simp_all add: bits_simps same_low_def del: push_bit_of_1)

lemma jff_BTST_l_imm_ok:
  assumes "ready t E l" "operand d l"
  shows "generates {} t E l (jff_BTST_l_imm E d s l) (l_flags_carry_inverted l)
    (test_effect d (\<lambda>V. unat (take_bit 5 s)))"
  unfolding jff_BTST_l_imm_def Let_def
  by (rule rop1 [OF assms]) (simp_all add: bits_simps del: EOR_xxbit_def CLEAR_xxbit_def SET_xxbit_def push_bit_of_1)

lemma jff_BTST_l_ok:
  assumes "ready t E l" "operand d l" "operand s l"
  shows "generates {} t E l (jff_BTST_l E d s l) (l_flags_carry_inverted l)
    (test_effect d (\<lambda>V. unat (take_bit 5 (ucast (V s) :: u32))))"
  unfolding jff_BTST_l_def Let_def rinit_swapped
  by (rule test_reg [OF assms(1-3) rop2 [OF assms(1,3,2)] _ jff_BTST_l_imm_ok [OF assms(1,2)]]) (simp_all add: bits_simps same_low_def del: push_bit_of_1)

lemma jnf_BCHG_l_imm_ok:
  assumes "ready t E l" "operand d l"
  shows "generates {} t E l (jnf_BCHG_l_imm E d s l) (l_flags_carry_inverted l)
    (plain_effect d (\<lambda>V. (ucast (V d) :: u32) XOR one_bit (unat (take_bit 5 s))))"
  unfolding jnf_BCHG_l_imm_def Let_def
  by (rule op1 [OF assms]) (simp_all add: bits_simps same_low_def del: EOR_xxbit_def CLEAR_xxbit_def SET_xxbit_def push_bit_of_1)

lemma jnf_BCHG_l_ok:
  assumes "ready t E l" "operand d l" "operand s l"
  shows "generates {} t E l (jnf_BCHG_l E d s l) (l_flags_carry_inverted l)
    (plain_effect d (\<lambda>V. (ucast (V d) :: u32) XOR one_bit (unat (take_bit 5 (ucast (V s) :: u32)))))"
  unfolding jnf_BCHG_l_def Let_def
  by (rule plain_reg [OF assms(1-3) _ _ jnf_BCHG_l_imm_ok [OF assms(1,2)]]) (simp_all add: bits_simps same_low_def del: push_bit_of_1)

lemma jff_BCHG_l_imm_ok:
  assumes "ready t E l" "operand d l"
  shows "generates {} t E l (jff_BCHG_l_imm E d s l) (l_flags_carry_inverted l)
    (bit_effect d (\<lambda>V. (ucast (V d) :: u32) XOR one_bit (unat (take_bit 5 s))) (\<lambda>V. unat (take_bit 5 s)))"
  unfolding jff_BCHG_l_imm_def Let_def
  by (rule op1 [OF assms]) (simp_all add: bits_simps same_low_def del: EOR_xxbit_def CLEAR_xxbit_def SET_xxbit_def push_bit_of_1)

lemma jff_BCHG_l_ok:
  assumes "ready t E l" "operand d l" "operand s l"
  shows "generates {} t E l (jff_BCHG_l E d s l) (l_flags_carry_inverted l)
    (bit_effect d (\<lambda>V. (ucast (V d) :: u32) XOR one_bit (unat (take_bit 5 (ucast (V s) :: u32)))) (\<lambda>V. unat (take_bit 5 (ucast (V s) :: u32))))"
  unfolding jff_BCHG_l_def Let_def
  by (rule bit_reg [OF assms(1-3) _ _ jff_BCHG_l_imm_ok [OF assms(1,2)]]) (simp_all add: bits_simps same_low_def del: push_bit_of_1)

lemma jnf_BCLR_l_imm_ok:
  assumes "ready t E l" "operand d l"
  shows "generates {} t E l (jnf_BCLR_l_imm E d s l) (l_flags_carry_inverted l)
    (plain_effect d (\<lambda>V. (ucast (V d) :: u32) AND NOT (one_bit (unat (take_bit 5 s)))))"
  unfolding jnf_BCLR_l_imm_def Let_def
  by (rule plain_imm [OF assms]) (simp_all add: bits_simps same_low_def del: EOR_xxbit_def CLEAR_xxbit_def SET_xxbit_def push_bit_of_1)

lemma jnf_BCLR_l_ok:
  assumes "ready t E l" "operand d l" "operand s l"
  shows "generates {} t E l (jnf_BCLR_l E d s l) (l_flags_carry_inverted l)
    (plain_effect d (\<lambda>V. (ucast (V d) :: u32) AND NOT (one_bit (unat (take_bit 5 (ucast (V s) :: u32))))))"
  unfolding jnf_BCLR_l_def Let_def
  by (rule plain_reg [OF assms(1-3) _ _ jnf_BCLR_l_imm_ok [OF assms(1,2)]]) (simp_all add: bits_simps same_low_def del: push_bit_of_1)

lemma jff_BCLR_l_imm_ok:
  assumes "ready t E l" "operand d l"
  shows "generates {} t E l (jff_BCLR_l_imm E d s l) (l_flags_carry_inverted l)
    (bit_effect d (\<lambda>V. (ucast (V d) :: u32) AND NOT (one_bit (unat (take_bit 5 s)))) (\<lambda>V. unat (take_bit 5 s)))"
  unfolding jff_BCLR_l_imm_def Let_def
  by (rule op1 [OF assms]) (simp_all add: bits_simps same_low_def del: EOR_xxbit_def CLEAR_xxbit_def SET_xxbit_def push_bit_of_1)

lemma jff_BCLR_l_ok:
  assumes "ready t E l" "operand d l" "operand s l"
  shows "generates {} t E l (jff_BCLR_l E d s l) (l_flags_carry_inverted l)
    (bit_effect d (\<lambda>V. (ucast (V d) :: u32) AND NOT (one_bit (unat (take_bit 5 (ucast (V s) :: u32))))) (\<lambda>V. unat (take_bit 5 (ucast (V s) :: u32))))"
  unfolding jff_BCLR_l_def Let_def
  by (rule bit_reg [OF assms(1-3) _ _ jff_BCLR_l_imm_ok [OF assms(1,2)]]) (simp_all add: bits_simps same_low_def del: push_bit_of_1)

lemma jnf_BSET_l_imm_ok:
  assumes "ready t E l" "operand d l"
  shows "generates {} t E l (jnf_BSET_l_imm E d s l) (l_flags_carry_inverted l)
    (plain_effect d (\<lambda>V. (ucast (V d) :: u32) OR one_bit (unat (take_bit 5 s))))"
  unfolding jnf_BSET_l_imm_def Let_def
  by (rule op1 [OF assms]) (simp_all add: bits_simps same_low_def del: EOR_xxbit_def CLEAR_xxbit_def SET_xxbit_def push_bit_of_1)

lemma jnf_BSET_l_ok:
  assumes "ready t E l" "operand d l" "operand s l"
  shows "generates {} t E l (jnf_BSET_l E d s l) (l_flags_carry_inverted l)
    (plain_effect d (\<lambda>V. (ucast (V d) :: u32) OR one_bit (unat (take_bit 5 (ucast (V s) :: u32)))))"
  unfolding jnf_BSET_l_def Let_def
  by (rule plain_reg [OF assms(1-3) _ _ jnf_BSET_l_imm_ok [OF assms(1,2)]]) (simp_all add: bits_simps same_low_def del: push_bit_of_1)

lemma jff_BSET_l_imm_ok:
  assumes "ready t E l" "operand d l"
  shows "generates {} t E l (jff_BSET_l_imm E d s l) (l_flags_carry_inverted l)
    (bit_effect d (\<lambda>V. (ucast (V d) :: u32) OR one_bit (unat (take_bit 5 s))) (\<lambda>V. unat (take_bit 5 s)))"
  unfolding jff_BSET_l_imm_def Let_def
  by (rule op1 [OF assms]) (simp_all add: bits_simps same_low_def del: EOR_xxbit_def CLEAR_xxbit_def SET_xxbit_def push_bit_of_1)

lemma jff_BSET_l_ok:
  assumes "ready t E l" "operand d l" "operand s l"
  shows "generates {} t E l (jff_BSET_l E d s l) (l_flags_carry_inverted l)
    (bit_effect d (\<lambda>V. (ucast (V d) :: u32) OR one_bit (unat (take_bit 5 (ucast (V s) :: u32)))) (\<lambda>V. unat (take_bit 5 (ucast (V s) :: u32))))"
  unfolding jff_BSET_l_def Let_def
  by (rule bit_reg [OF assms(1-3) _ _ jff_BSET_l_imm_ok [OF assms(1,2)]]) (simp_all add: bits_simps same_low_def del: push_bit_of_1)


end
