(* ===== verification/Op_Bits.thy ===== *)
theory Op_Bits
  imports Jit_Scratch Jit_Bits
begin

unbundle bit_operations_syntax

text \<open>
  The opcode translators of compemu_arm.cpp for BTST, BCHG, BCLR and BSET on a data register. The
  variants without condition codes give up all of N, Z, V and C although the instructions leave N, V
  and C alone: their lemmas need that none of the four is live.
\<close>

section \<open>Bits\<close>

lemma take_bit5_less [simp]: "unat (take_bit 5 (x :: 'a::len word)) < 32"
  using take_bit_nat_less_exp [of 5 "unat x"] by (simp add: unsigned_take_bit_eq)

lemma bit_fetch: "regs_view V g \<Longrightarrow> d < 16 \<Longrightarrow> k < 32 \<Longrightarrow> bit (fetch_reg d g :: u32) k = bit (V d) k"
  by (simp add: fetch_regs bit_ucast_iff)

lemma only_Z_SET: "(case f of (n, z, c, v) \<Rightarrow> f' = (n, b, c, v)) \<Longrightarrow> only_Z f f' (g_ccr g) (g_ccr (SET_Z b g))"
  by (cases f; cases "g_ccr g") (auto simp: only_Z_def SET_Z_def)

lemma ff_test:
  assumes R: "op_done (24 + t) E mi l" and S: "sets_flags 4 mi mo l" and k: "k \<le> 16" and d: "d < 16"
    and G: "\<And>l1. ready (16 + t) E l1 \<Longrightarrow> (\<And>r. r < 16 \<Longrightarrow> operand r l1) \<Longrightarrow>
      generates {} (16 + t) E l1 (M l1) (l_flags_carry_inverted l1) (test_effect d n)"
    and n: "\<And>V g. regs_view V g \<Longrightarrow> g_pc g = pc_at l \<Longrightarrow> n V = n' g" and lt: "\<And>g. n' g < 32" and K: "K = ucast k"
  shows "translated t E mi mo l (do { l1 \<leftarrow> make_flags_live E (add_pc_offset k l); l2 \<leftarrow> M l1; end_inst E (live_flags l2) })
    (\<lambda>g. incpc K (i_BTST (n' g) (fetch_reg d g :: u32) g))"
proof (rule ff_bits [OF R S k G _ K])
  fix V f V' f' g
  assume v: "regs_view V g" and pc: "g_pc g = pc_at l" and F: "test_effect d n V f V' f'"
  have b: "bit (fetch_reg d g :: u32) (n' g) = bit (V d) (n V)" using bit_fetch [OF v d lt] n [OF v pc] by simp
  have "only_Z f f' (g_ccr g) (g_ccr (i_BTST (n' g) (fetch_reg d g :: u32) g))"
    unfolding i_BTST_def b by (rule only_Z_SET) (use F in \<open>simp add: test_effect_def\<close>)
  then show "regs_view V' (i_BTST (n' g) (fetch_reg d g :: u32) g) \<and> V' PC_P = V PC_P \<and> V' FLAGX = V FLAGX \<and>
      g_pc (i_BTST (n' g) (fetch_reg d g :: u32) g) = g_pc g \<and> g_x (i_BTST (n' g) (fetch_reg d g :: u32) g) = g_x g \<and>
      only_Z f f' (g_ccr g) (g_ccr (i_BTST (n' g) (fetch_reg d g :: u32) g))"
    using v F by (simp add: test_effect_def i_BTST_def regs_view_def)
qed (use G in blast)+

lemma ff_bitop:
  assumes R: "op_done (24 + t) E mi l" and S: "sets_flags 4 mi mo l" and k: "k \<le> 16" and d: "d < 16"
    and G: "\<And>l1. ready (16 + t) E l1 \<Longrightarrow> (\<And>r. r < 16 \<Longrightarrow> operand r l1) \<Longrightarrow>
      generates {} (16 + t) E l1 (M l1) (l_flags_carry_inverted l1) (bit_effect d op n)"
    and st: "\<And>V g. regs_view V g \<Longrightarrow> g_pc g = pc_at l \<Longrightarrow>
      st g = genastore d (op V :: u32) (SET_Z (\<not> bit (fetch_reg d g :: u32) (n V)) g) \<and> n V < 32" and K: "K = ucast k"
  shows "translated t E mi mo l (do { l1 \<leftarrow> make_flags_live E (add_pc_offset k l); l2 \<leftarrow> M l1; end_inst E (live_flags l2) })
    (\<lambda>g. incpc K (st g))"
proof (rule ff_bits [OF R S k G _ K])
  fix V f V' f' g
  assume v: "regs_view V g" and pc: "g_pc g = pc_at l" and F: "bit_effect d op n V f V' f'"
  have b: "bit (fetch_reg d g :: u32) (n V) = bit (V d) (n V)" using bit_fetch [OF v d] st [OF v pc] by simp
  have w: "writes d (op V) V V'" using F by (simp add: bit_effect_def)
  have "only_Z f f' (g_ccr g) (g_ccr (SET_Z (\<not> bit (fetch_reg d g :: u32) (n V)) g))"
    unfolding b by (rule only_Z_SET) (use F in \<open>simp add: bit_effect_def\<close>)
  moreover have "regs_view V' (genastore d (op V) g)" by (rule writes_view [OF v w d]) simp
  moreover have "d \<noteq> FLAGX" "d \<noteq> PC_P" using d by (simp_all add: jit_consts)
  ultimately show "regs_view V' (st g) \<and> V' PC_P = V PC_P \<and> V' FLAGX = V FLAGX \<and> g_pc (st g) = g_pc g \<and>
      g_x (st g) = g_x g \<and> only_Z f f' (g_ccr g) (g_ccr (st g))"
    using st [OF v pc] w by (simp add: writes_other regs_view_def genastore_def)
qed (use G in blast)+

lemma bit_instructions:
  fixes g :: guest
  assumes "n < 32"
  shows "i_BCHG n d g = genastore d ((fetch_reg d g :: u32) XOR push_bit n 1) (SET_Z (\<not> bit (fetch_reg d g :: u32) n) g)"
    "i_BCLR n d g = genastore d ((fetch_reg d g :: u32) AND NOT (push_bit n 1)) (SET_Z (\<not> bit (fetch_reg d g :: u32) n) g)"
    "i_BSET n d g = genastore d ((fetch_reg d g :: u32) OR push_bit n 1) (SET_Z (\<not> bit (fetch_reg d g :: u32) n) g)"
  using assms by (simp_all add: i_BCHG_def i_BCLR_def i_BSET_def Let_def bit_simps)

lemma take_bit5_scast [simp]: "unat (take_bit 5 (scast (w :: u16) :: u32)) = unat (take_bit 5 w)"
proof -
  have "take_bit 5 (scast w :: u32) = ucast (take_bit 5 w)"
    by (rule bit_word_eqI) (auto simp: bit_simps bit_signed_iff bit_take_bit_iff bit_ucast_iff)
  moreover have "unat (ucast x :: u32) = unat x" for x :: u16
    using unsigned_less [of x, where ?'a = nat] by (simp add: unsigned_ucast_eq take_bit_nat_eq_self)
  ultimately show ?thesis by simp
qed

lemma store_SET_Z [simp]: "g_reg (genastore d v (SET_Z b g)) = g_reg (genastore d v g)"
  by (simp add: genastore_def)

section \<open>The translators\<close>

definition op_100_0_comp_ff :: compop_func where
  "op_100_0_comp_ff H E opcode l = do {
     let srcreg = unat (drop_bit 9 opcode AND 7); let dstreg = unat (opcode AND 7);
     let l = add_pc_offset 2 l; let src = srcreg; let dst = dstreg; l \<leftarrow> make_flags_live E l;
     l \<leftarrow> jff_BTST_l E dst src l; let l = live_flags l; end_inst E l }"

definition op_140_0_comp_ff :: compop_func where
  "op_140_0_comp_ff H E opcode l = do {
     let srcreg = unat (drop_bit 9 opcode AND 7); let dstreg = unat (opcode AND 7);
     let l = add_pc_offset 2 l; let src = srcreg; let dst = dstreg; l \<leftarrow> make_flags_live E l;
     l \<leftarrow> jff_BCHG_l E dst src l; let l = live_flags l; end_inst E l }"

definition op_180_0_comp_ff :: compop_func where
  "op_180_0_comp_ff H E opcode l = do {
     let srcreg = unat (drop_bit 9 opcode AND 7); let dstreg = unat (opcode AND 7);
     let l = add_pc_offset 2 l; let src = srcreg; let dst = dstreg; l \<leftarrow> make_flags_live E l;
     l \<leftarrow> jff_BCLR_l E dst src l; let l = live_flags l; end_inst E l }"

definition op_1c0_0_comp_ff :: compop_func where
  "op_1c0_0_comp_ff H E opcode l = do {
     let srcreg = unat (drop_bit 9 opcode AND 7); let dstreg = unat (opcode AND 7);
     let l = add_pc_offset 2 l; let src = srcreg; let dst = dstreg; l \<leftarrow> make_flags_live E l;
     l \<leftarrow> jff_BSET_l E dst src l; let l = live_flags l; end_inst E l }"

definition op_800_0_comp_ff :: compop_func where
  "op_800_0_comp_ff H E opcode l = do {
     let dstreg = unat (opcode AND 7); let l = add_pc_offset 2 l;
     let src = (scast (comp_get_iword H l (l_m68k_pc_offset l)) :: u32); let l = add_pc_offset 2 l;
     let dst = dstreg; l \<leftarrow> make_flags_live E l; l \<leftarrow> jff_BTST_l_imm E dst src l;
     let l = live_flags l; end_inst E l }"

definition op_840_0_comp_ff :: compop_func where
  "op_840_0_comp_ff H E opcode l = do {
     let dstreg = unat (opcode AND 7); let l = add_pc_offset 2 l;
     let src = (scast (comp_get_iword H l (l_m68k_pc_offset l)) :: u32); let l = add_pc_offset 2 l;
     let dst = dstreg; l \<leftarrow> make_flags_live E l; l \<leftarrow> jff_BCHG_l_imm E dst src l;
     let l = live_flags l; end_inst E l }"

definition op_880_0_comp_ff :: compop_func where
  "op_880_0_comp_ff H E opcode l = do {
     let dstreg = unat (opcode AND 7); let l = add_pc_offset 2 l;
     let src = (scast (comp_get_iword H l (l_m68k_pc_offset l)) :: u32); let l = add_pc_offset 2 l;
     let dst = dstreg; l \<leftarrow> make_flags_live E l; l \<leftarrow> jff_BCLR_l_imm E dst src l;
     let l = live_flags l; end_inst E l }"

definition op_8c0_0_comp_ff :: compop_func where
  "op_8c0_0_comp_ff H E opcode l = do {
     let dstreg = unat (opcode AND 7); let l = add_pc_offset 2 l;
     let src = (scast (comp_get_iword H l (l_m68k_pc_offset l)) :: u32); let l = add_pc_offset 2 l;
     let dst = dstreg; l \<leftarrow> make_flags_live E l; l \<leftarrow> jff_BSET_l_imm E dst src l;
     let l = live_flags l; end_inst E l }"

definition op_100_0_comp_nf :: compop_func where
  "op_100_0_comp_nf H E opcode l = do {
     let srcreg = unat (drop_bit 9 opcode AND 7); let dstreg = unat (opcode AND 7);
     let l = add_pc_offset 2 l; let src = srcreg; let dst = dstreg; let l = dont_care_flags l;
     end_inst E l }"

definition op_140_0_comp_nf :: compop_func where
  "op_140_0_comp_nf H E opcode l = do {
     let srcreg = unat (drop_bit 9 opcode AND 7); let dstreg = unat (opcode AND 7);
     let l = add_pc_offset 2 l; let src = srcreg; let dst = dstreg; l \<leftarrow> jnf_BCHG_l E dst src l;
     let l = dont_care_flags l; end_inst E l }"

definition op_180_0_comp_nf :: compop_func where
  "op_180_0_comp_nf H E opcode l = do {
     let srcreg = unat (drop_bit 9 opcode AND 7); let dstreg = unat (opcode AND 7);
     let l = add_pc_offset 2 l; let src = srcreg; let dst = dstreg; l \<leftarrow> jnf_BCLR_l E dst src l;
     let l = dont_care_flags l; end_inst E l }"

definition op_1c0_0_comp_nf :: compop_func where
  "op_1c0_0_comp_nf H E opcode l = do {
     let srcreg = unat (drop_bit 9 opcode AND 7); let dstreg = unat (opcode AND 7);
     let l = add_pc_offset 2 l; let src = srcreg; let dst = dstreg; l \<leftarrow> jnf_BSET_l E dst src l;
     let l = dont_care_flags l; end_inst E l }"

definition op_800_0_comp_nf :: compop_func where
  "op_800_0_comp_nf H E opcode l = do {
     let dstreg = unat (opcode AND 7); let l = add_pc_offset 2 l;
     let src = (scast (comp_get_iword H l (l_m68k_pc_offset l)) :: u32); let l = add_pc_offset 2 l;
     let dst = dstreg; let l = dont_care_flags l; end_inst E l }"

definition op_840_0_comp_nf :: compop_func where
  "op_840_0_comp_nf H E opcode l = do {
     let dstreg = unat (opcode AND 7); let l = add_pc_offset 2 l;
     let src = (scast (comp_get_iword H l (l_m68k_pc_offset l)) :: u32); let l = add_pc_offset 2 l;
     let dst = dstreg; l \<leftarrow> jnf_BCHG_l_imm E dst src l; let l = dont_care_flags l; end_inst E l }"

definition op_880_0_comp_nf :: compop_func where
  "op_880_0_comp_nf H E opcode l = do {
     let dstreg = unat (opcode AND 7); let l = add_pc_offset 2 l;
     let src = (scast (comp_get_iword H l (l_m68k_pc_offset l)) :: u32); let l = add_pc_offset 2 l;
     let dst = dstreg; l \<leftarrow> jnf_BCLR_l_imm E dst src l; let l = dont_care_flags l; end_inst E l }"

definition op_8c0_0_comp_nf :: compop_func where
  "op_8c0_0_comp_nf H E opcode l = do {
     let dstreg = unat (opcode AND 7); let l = add_pc_offset 2 l;
     let src = (scast (comp_get_iword H l (l_m68k_pc_offset l)) :: u32); let l = add_pc_offset 2 l;
     let dst = dstreg; l \<leftarrow> jnf_BSET_l_imm E dst src l; let l = dont_care_flags l; end_inst E l }"

section \<open>Their correctness\<close>

lemma op_100_0_comp_ff_ok:
  assumes "op_ready (64 + t) E mi l" "sets_flags 4 mi mo l"
  shows "translated t E mi mo l (op_100_0_comp_ff H E opcode l)
    (\<lambda>g. incpc 2 (i_BTST (unat (take_bit 5 (fetch_reg (hi_reg opcode) g :: u32))) (fetch_reg (lo_reg opcode) g :: u32) g))"
  unfolding op_100_0_comp_ff_def Let_def
  by (rule ff_test [where k = 2 and d = "lo_reg opcode", OF op_ready_done24 [OF assms(1)] assms(2)], simp, simp, rule jff_BTST_l_ok)
    (simp_all add: bit_instructions one_bit_def fetch_regs imm_view [OF op_ready_done [OF assms(1)]] op_done_ready [OF op_ready_done [OF assms(1)]] op_operand [OF op_ready_done [OF assms(1)]])

lemma op_140_0_comp_ff_ok:
  assumes "op_ready (64 + t) E mi l" "sets_flags 4 mi mo l"
  shows "translated t E mi mo l (op_140_0_comp_ff H E opcode l)
    (\<lambda>g. incpc 2 (i_BCHG (unat (take_bit 5 (fetch_reg (hi_reg opcode) g :: u32))) (lo_reg opcode) g))"
  unfolding op_140_0_comp_ff_def Let_def
  by (rule ff_bitop [where k = 2 and d = "lo_reg opcode", OF op_ready_done24 [OF assms(1)] assms(2)], simp, simp, rule jff_BCHG_l_ok)
    (simp_all add: bit_instructions one_bit_def fetch_regs imm_view [OF op_ready_done [OF assms(1)]] op_done_ready [OF op_ready_done [OF assms(1)]] op_operand [OF op_ready_done [OF assms(1)]])

lemma op_180_0_comp_ff_ok:
  assumes "op_ready (64 + t) E mi l" "sets_flags 4 mi mo l"
  shows "translated t E mi mo l (op_180_0_comp_ff H E opcode l)
    (\<lambda>g. incpc 2 (i_BCLR (unat (take_bit 5 (fetch_reg (hi_reg opcode) g :: u32))) (lo_reg opcode) g))"
  unfolding op_180_0_comp_ff_def Let_def
  by (rule ff_bitop [where k = 2 and d = "lo_reg opcode", OF op_ready_done24 [OF assms(1)] assms(2)], simp, simp, rule jff_BCLR_l_ok)
    (simp_all add: bit_instructions one_bit_def fetch_regs imm_view [OF op_ready_done [OF assms(1)]] op_done_ready [OF op_ready_done [OF assms(1)]] op_operand [OF op_ready_done [OF assms(1)]])

lemma op_1c0_0_comp_ff_ok:
  assumes "op_ready (64 + t) E mi l" "sets_flags 4 mi mo l"
  shows "translated t E mi mo l (op_1c0_0_comp_ff H E opcode l)
    (\<lambda>g. incpc 2 (i_BSET (unat (take_bit 5 (fetch_reg (hi_reg opcode) g :: u32))) (lo_reg opcode) g))"
  unfolding op_1c0_0_comp_ff_def Let_def
  by (rule ff_bitop [where k = 2 and d = "lo_reg opcode", OF op_ready_done24 [OF assms(1)] assms(2)], simp, simp, rule jff_BSET_l_ok)
    (simp_all add: bit_instructions one_bit_def fetch_regs imm_view [OF op_ready_done [OF assms(1)]] op_done_ready [OF op_ready_done [OF assms(1)]] op_operand [OF op_ready_done [OF assms(1)]])

lemma op_800_0_comp_ff_ok:
  assumes "op_ready (64 + t) E mi l" "sets_flags 4 mi mo l"
  shows "translated t E mi mo l (op_800_0_comp_ff H E opcode l)
    (\<lambda>g. incpc 4 (i_BTST (unat (take_bit 5 (get_diword H 2 g))) (fetch_reg (lo_reg opcode) g :: u32) g))"
  unfolding op_800_0_comp_ff_def Let_def add_pc_offset_simps comp_get_offset numeral_plus_numeral semiring_norm
  by (rule ff_test [where k = 4 and d = "lo_reg opcode", OF op_ready_done24 [OF assms(1)] assms(2)], simp, simp, rule jff_BTST_l_imm_ok)
    (simp_all add: bit_instructions one_bit_def fetch_regs imm_view [OF op_ready_done [OF assms(1)]] op_done_ready [OF op_ready_done [OF assms(1)]] op_operand [OF op_ready_done [OF assms(1)]])

lemma op_840_0_comp_ff_ok:
  assumes "op_ready (64 + t) E mi l" "sets_flags 4 mi mo l"
  shows "translated t E mi mo l (op_840_0_comp_ff H E opcode l)
    (\<lambda>g. incpc 4 (i_BCHG (unat (take_bit 5 (get_diword H 2 g))) (lo_reg opcode) g))"
  unfolding op_840_0_comp_ff_def Let_def add_pc_offset_simps comp_get_offset numeral_plus_numeral semiring_norm
  by (rule ff_bitop [where k = 4 and d = "lo_reg opcode", OF op_ready_done24 [OF assms(1)] assms(2)], simp, simp, rule jff_BCHG_l_imm_ok)
    (simp_all add: bit_instructions one_bit_def fetch_regs imm_view [OF op_ready_done [OF assms(1)]] op_done_ready [OF op_ready_done [OF assms(1)]] op_operand [OF op_ready_done [OF assms(1)]])

lemma op_880_0_comp_ff_ok:
  assumes "op_ready (64 + t) E mi l" "sets_flags 4 mi mo l"
  shows "translated t E mi mo l (op_880_0_comp_ff H E opcode l)
    (\<lambda>g. incpc 4 (i_BCLR (unat (take_bit 5 (get_diword H 2 g))) (lo_reg opcode) g))"
  unfolding op_880_0_comp_ff_def Let_def add_pc_offset_simps comp_get_offset numeral_plus_numeral semiring_norm
  by (rule ff_bitop [where k = 4 and d = "lo_reg opcode", OF op_ready_done24 [OF assms(1)] assms(2)], simp, simp, rule jff_BCLR_l_imm_ok)
    (simp_all add: bit_instructions one_bit_def fetch_regs imm_view [OF op_ready_done [OF assms(1)]] op_done_ready [OF op_ready_done [OF assms(1)]] op_operand [OF op_ready_done [OF assms(1)]])

lemma op_8c0_0_comp_ff_ok:
  assumes "op_ready (64 + t) E mi l" "sets_flags 4 mi mo l"
  shows "translated t E mi mo l (op_8c0_0_comp_ff H E opcode l)
    (\<lambda>g. incpc 4 (i_BSET (unat (take_bit 5 (get_diword H 2 g))) (lo_reg opcode) g))"
  unfolding op_8c0_0_comp_ff_def Let_def add_pc_offset_simps comp_get_offset numeral_plus_numeral semiring_norm
  by (rule ff_bitop [where k = 4 and d = "lo_reg opcode", OF op_ready_done24 [OF assms(1)] assms(2)], simp, simp, rule jff_BSET_l_imm_ok)
    (simp_all add: bit_instructions one_bit_def fetch_regs imm_view [OF op_ready_done [OF assms(1)]] op_done_ready [OF op_ready_done [OF assms(1)]] op_operand [OF op_ready_done [OF assms(1)]])

lemma op_100_0_comp_nf_ok:
  assumes "op_ready (64 + t) E mi l" "no_flags 4 mi mo" "mo AND FLAG_CZNV = 0"
  shows "translated t E mi mo l (op_100_0_comp_nf H E opcode l)
    (\<lambda>g. incpc 2 (i_BTST (unat (take_bit 5 (fetch_reg (hi_reg opcode) g :: u32))) (fetch_reg (lo_reg opcode) g :: u32) g))"
  unfolding op_100_0_comp_nf_def Let_def
  by (rule nf_z_none [where k = 2 and p = dont_care_flags, OF op_ready_done [OF assms(1)] assms(2,3) keeps_modes(2)]) (simp_all add: i_BTST_def SET_Z_simps)

lemma op_140_0_comp_nf_ok:
  assumes "op_ready (64 + t) E mi l" "no_flags 4 mi mo" "mo AND FLAG_CZNV = 0"
  shows "translated t E mi mo l (op_140_0_comp_nf H E opcode l)
    (\<lambda>g. incpc 2 (i_BCHG (unat (take_bit 5 (fetch_reg (hi_reg opcode) g :: u32))) (lo_reg opcode) g))"
  unfolding op_140_0_comp_nf_def Let_def
  by (rule nf_z [where k = 2, OF op_ready_done [OF assms(1)] assms(2,3) _ _ jnf_BCHG_l_ok])
    (simp_all add: bit_instructions one_bit_def fetch_regs imm_view [OF op_ready_done [OF assms(1)]] op_done_ready [OF op_ready_done [OF assms(1)]] op_operand [OF op_ready_done [OF assms(1)]])

lemma op_180_0_comp_nf_ok:
  assumes "op_ready (64 + t) E mi l" "no_flags 4 mi mo" "mo AND FLAG_CZNV = 0"
  shows "translated t E mi mo l (op_180_0_comp_nf H E opcode l)
    (\<lambda>g. incpc 2 (i_BCLR (unat (take_bit 5 (fetch_reg (hi_reg opcode) g :: u32))) (lo_reg opcode) g))"
  unfolding op_180_0_comp_nf_def Let_def
  by (rule nf_z [where k = 2, OF op_ready_done [OF assms(1)] assms(2,3) _ _ jnf_BCLR_l_ok])
    (simp_all add: bit_instructions one_bit_def fetch_regs imm_view [OF op_ready_done [OF assms(1)]] op_done_ready [OF op_ready_done [OF assms(1)]] op_operand [OF op_ready_done [OF assms(1)]])

lemma op_1c0_0_comp_nf_ok:
  assumes "op_ready (64 + t) E mi l" "no_flags 4 mi mo" "mo AND FLAG_CZNV = 0"
  shows "translated t E mi mo l (op_1c0_0_comp_nf H E opcode l)
    (\<lambda>g. incpc 2 (i_BSET (unat (take_bit 5 (fetch_reg (hi_reg opcode) g :: u32))) (lo_reg opcode) g))"
  unfolding op_1c0_0_comp_nf_def Let_def
  by (rule nf_z [where k = 2, OF op_ready_done [OF assms(1)] assms(2,3) _ _ jnf_BSET_l_ok])
    (simp_all add: bit_instructions one_bit_def fetch_regs imm_view [OF op_ready_done [OF assms(1)]] op_done_ready [OF op_ready_done [OF assms(1)]] op_operand [OF op_ready_done [OF assms(1)]])

lemma op_800_0_comp_nf_ok:
  assumes "op_ready (64 + t) E mi l" "no_flags 4 mi mo" "mo AND FLAG_CZNV = 0"
  shows "translated t E mi mo l (op_800_0_comp_nf H E opcode l)
    (\<lambda>g. incpc 4 (i_BTST (unat (take_bit 5 (get_diword H 2 g))) (fetch_reg (lo_reg opcode) g :: u32) g))"
  unfolding op_800_0_comp_nf_def Let_def add_pc_offset_simps comp_get_offset numeral_plus_numeral semiring_norm
  by (rule nf_z_none [where k = 4 and p = dont_care_flags, OF op_ready_done [OF assms(1)] assms(2,3) keeps_modes(2)]) (simp_all add: i_BTST_def SET_Z_simps)

lemma op_840_0_comp_nf_ok:
  assumes "op_ready (64 + t) E mi l" "no_flags 4 mi mo" "mo AND FLAG_CZNV = 0"
  shows "translated t E mi mo l (op_840_0_comp_nf H E opcode l)
    (\<lambda>g. incpc 4 (i_BCHG (unat (take_bit 5 (get_diword H 2 g))) (lo_reg opcode) g))"
  unfolding op_840_0_comp_nf_def Let_def add_pc_offset_simps comp_get_offset numeral_plus_numeral semiring_norm
  by (rule nf_z [where k = 4, OF op_ready_done [OF assms(1)] assms(2,3) _ _ jnf_BCHG_l_imm_ok])
    (simp_all add: bit_instructions one_bit_def fetch_regs imm_view [OF op_ready_done [OF assms(1)]] op_done_ready [OF op_ready_done [OF assms(1)]] op_operand [OF op_ready_done [OF assms(1)]])

lemma op_880_0_comp_nf_ok:
  assumes "op_ready (64 + t) E mi l" "no_flags 4 mi mo" "mo AND FLAG_CZNV = 0"
  shows "translated t E mi mo l (op_880_0_comp_nf H E opcode l)
    (\<lambda>g. incpc 4 (i_BCLR (unat (take_bit 5 (get_diword H 2 g))) (lo_reg opcode) g))"
  unfolding op_880_0_comp_nf_def Let_def add_pc_offset_simps comp_get_offset numeral_plus_numeral semiring_norm
  by (rule nf_z [where k = 4, OF op_ready_done [OF assms(1)] assms(2,3) _ _ jnf_BCLR_l_imm_ok])
    (simp_all add: bit_instructions one_bit_def fetch_regs imm_view [OF op_ready_done [OF assms(1)]] op_done_ready [OF op_ready_done [OF assms(1)]] op_operand [OF op_ready_done [OF assms(1)]])

lemma op_8c0_0_comp_nf_ok:
  assumes "op_ready (64 + t) E mi l" "no_flags 4 mi mo" "mo AND FLAG_CZNV = 0"
  shows "translated t E mi mo l (op_8c0_0_comp_nf H E opcode l)
    (\<lambda>g. incpc 4 (i_BSET (unat (take_bit 5 (get_diword H 2 g))) (lo_reg opcode) g))"
  unfolding op_8c0_0_comp_nf_def Let_def add_pc_offset_simps comp_get_offset numeral_plus_numeral semiring_norm
  by (rule nf_z [where k = 4, OF op_ready_done [OF assms(1)] assms(2,3) _ _ jnf_BSET_l_imm_ok])
    (simp_all add: bit_instructions one_bit_def fetch_regs imm_view [OF op_ready_done [OF assms(1)]] op_done_ready [OF op_ready_done [OF assms(1)]] op_operand [OF op_ready_done [OF assms(1)]])

end
