(* ===== verification/Op_Table.thy ===== *)
theory Op_Table
  imports Op_Arith Op_Logic Op_Move Op_Bits
begin

unbundle bit_operations_syntax

text \<open>
  The tables of opcodes. A row stands for one line of \<^verbatim>\<open>op_smalltbl_0_comp_ff\<close> and of
  \<^verbatim>\<open>op_smalltbl_0_comp_nf\<close> (compstbl_arm.cpp), with the mask of the bits that are not register numbers
  or data (the merging of the opcodes of one handler in readcpu.c), the flags the instruction sets
  (table68k) and what the interpreter's function for it does. \<^verbatim>\<open>build_comp\<close> spreads the rows over the
  65536 opcodes, except those that the host wants to see interpreted (\<^verbatim>\<open>uae_host_jit_must_interpret\<close>, a
  parameter). SWAP and EXT.W are left out: their translators are correct only where their register
  does not hold certain constants. The locale \<open>translators\<close> is what the compiler of blocks relies on; it is
  interpreted on the tables that \<^verbatim>\<open>build_comp\<close> makes.
\<close>

section \<open>Rows\<close>

record insn =
  i_opcode :: u32
  i_mask :: u32
  i_set :: u32
  i_ff :: compop_func
  i_nf :: compop_func
  i_step :: "(u64 \<Rightarrow> u8) \<Rightarrow> u32 \<Rightarrow> guest \<Rightarrow> guest"

definition arith_insns :: "insn list" where
  "arith_insns = [
    \<lparr>i_opcode = 0x400, i_mask = 0xFFF8, i_set = 0x1F, i_ff = op_400_0_comp_ff, i_nf = op_400_0_comp_nf,
      i_step = \<lambda>H opcode g. incpc 4 (i_SUB (get_dibyte H 2 g) (lo_reg opcode) g)\<rparr>,
    \<lparr>i_opcode = 0x440, i_mask = 0xFFF8, i_set = 0x1F, i_ff = op_440_0_comp_ff, i_nf = op_440_0_comp_nf,
      i_step = \<lambda>H opcode g. incpc 4 (i_SUB (get_diword H 2 g) (lo_reg opcode) g)\<rparr>,
    \<lparr>i_opcode = 0x480, i_mask = 0xFFF8, i_set = 0x1F, i_ff = op_480_0_comp_ff, i_nf = op_480_0_comp_nf,
      i_step = \<lambda>H opcode g. incpc 6 (i_SUB (get_dilong H 2 g) (lo_reg opcode) g)\<rparr>,
    \<lparr>i_opcode = 0x600, i_mask = 0xFFF8, i_set = 0x1F, i_ff = op_600_0_comp_ff, i_nf = op_600_0_comp_nf,
      i_step = \<lambda>H opcode g. incpc 4 (i_ADD (get_dibyte H 2 g) (lo_reg opcode) g)\<rparr>,
    \<lparr>i_opcode = 0x640, i_mask = 0xFFF8, i_set = 0x1F, i_ff = op_640_0_comp_ff, i_nf = op_640_0_comp_nf,
      i_step = \<lambda>H opcode g. incpc 4 (i_ADD (get_diword H 2 g) (lo_reg opcode) g)\<rparr>,
    \<lparr>i_opcode = 0x680, i_mask = 0xFFF8, i_set = 0x1F, i_ff = op_680_0_comp_ff, i_nf = op_680_0_comp_nf,
      i_step = \<lambda>H opcode g. incpc 6 (i_ADD (get_dilong H 2 g) (lo_reg opcode) g)\<rparr>,
    \<lparr>i_opcode = 0xC00, i_mask = 0xFFF8, i_set = 0xF, i_ff = op_c00_0_comp_ff, i_nf = op_c00_0_comp_nf,
      i_step = \<lambda>H opcode g. incpc 4 (i_CMP (get_dibyte H 2 g) (lo_reg opcode) g)\<rparr>,
    \<lparr>i_opcode = 0xC40, i_mask = 0xFFF8, i_set = 0xF, i_ff = op_c40_0_comp_ff, i_nf = op_c40_0_comp_nf,
      i_step = \<lambda>H opcode g. incpc 4 (i_CMP (get_diword H 2 g) (lo_reg opcode) g)\<rparr>,
    \<lparr>i_opcode = 0xC80, i_mask = 0xFFF8, i_set = 0xF, i_ff = op_c80_0_comp_ff, i_nf = op_c80_0_comp_nf,
      i_step = \<lambda>H opcode g. incpc 6 (i_CMP (get_dilong H 2 g) (lo_reg opcode) g)\<rparr>,
    \<lparr>i_opcode = 0x4400, i_mask = 0xFFF8, i_set = 0x1F, i_ff = op_4400_0_comp_ff, i_nf = op_4400_0_comp_nf,
      i_step = \<lambda>H opcode g. incpc 2 (i_NEG TYPE(8) (lo_reg opcode) g)\<rparr>,
    \<lparr>i_opcode = 0x4440, i_mask = 0xFFF8, i_set = 0x1F, i_ff = op_4440_0_comp_ff, i_nf = op_4440_0_comp_nf,
      i_step = \<lambda>H opcode g. incpc 2 (i_NEG TYPE(16) (lo_reg opcode) g)\<rparr>,
    \<lparr>i_opcode = 0x4480, i_mask = 0xFFF8, i_set = 0x1F, i_ff = op_4480_0_comp_ff, i_nf = op_4480_0_comp_nf,
      i_step = \<lambda>H opcode g. incpc 2 (i_NEG TYPE(32) (lo_reg opcode) g)\<rparr>,
    \<lparr>i_opcode = 0x5000, i_mask = 0xF1F8, i_set = 0x1F, i_ff = op_5000_0_comp_ff, i_nf = op_5000_0_comp_nf,
      i_step = \<lambda>H opcode g. incpc 2 (i_ADD (ucast (imm8_table (hi_reg opcode)) :: u8) (lo_reg opcode) g)\<rparr>,
    \<lparr>i_opcode = 0x5040, i_mask = 0xF1F8, i_set = 0x1F, i_ff = op_5040_0_comp_ff, i_nf = op_5040_0_comp_nf,
      i_step = \<lambda>H opcode g. incpc 2 (i_ADD (ucast (imm8_table (hi_reg opcode)) :: u16) (lo_reg opcode) g)\<rparr>,
    \<lparr>i_opcode = 0x5048, i_mask = 0xF1F8, i_set = 0x0, i_ff = op_5048_0_comp_ff, i_nf = op_5048_0_comp_nf,
      i_step = \<lambda>H opcode g. incpc 2 (i_ADDA (imm8_table (hi_reg opcode)) (lo_reg opcode + 8) g)\<rparr>,
    \<lparr>i_opcode = 0x5080, i_mask = 0xF1F8, i_set = 0x1F, i_ff = op_5080_0_comp_ff, i_nf = op_5080_0_comp_nf,
      i_step = \<lambda>H opcode g. incpc 2 (i_ADD (ucast (imm8_table (hi_reg opcode)) :: u32) (lo_reg opcode) g)\<rparr>,
    \<lparr>i_opcode = 0x5088, i_mask = 0xF1F8, i_set = 0x0, i_ff = op_5088_0_comp_ff, i_nf = op_5088_0_comp_nf,
      i_step = \<lambda>H opcode g. incpc 2 (i_ADDA (imm8_table (hi_reg opcode)) (lo_reg opcode + 8) g)\<rparr>,
    \<lparr>i_opcode = 0x5100, i_mask = 0xF1F8, i_set = 0x1F, i_ff = op_5100_0_comp_ff, i_nf = op_5100_0_comp_nf,
      i_step = \<lambda>H opcode g. incpc 2 (i_SUB (ucast (imm8_table (hi_reg opcode)) :: u8) (lo_reg opcode) g)\<rparr>,
    \<lparr>i_opcode = 0x5140, i_mask = 0xF1F8, i_set = 0x1F, i_ff = op_5140_0_comp_ff, i_nf = op_5140_0_comp_nf,
      i_step = \<lambda>H opcode g. incpc 2 (i_SUB (ucast (imm8_table (hi_reg opcode)) :: u16) (lo_reg opcode) g)\<rparr>,
    \<lparr>i_opcode = 0x5148, i_mask = 0xF1F8, i_set = 0x0, i_ff = op_5148_0_comp_ff, i_nf = op_5148_0_comp_nf,
      i_step = \<lambda>H opcode g. incpc 2 (i_SUBA (imm8_table (hi_reg opcode)) (lo_reg opcode + 8) g)\<rparr>,
    \<lparr>i_opcode = 0x5180, i_mask = 0xF1F8, i_set = 0x1F, i_ff = op_5180_0_comp_ff, i_nf = op_5180_0_comp_nf,
      i_step = \<lambda>H opcode g. incpc 2 (i_SUB (ucast (imm8_table (hi_reg opcode)) :: u32) (lo_reg opcode) g)\<rparr>,
    \<lparr>i_opcode = 0x5188, i_mask = 0xF1F8, i_set = 0x0, i_ff = op_5188_0_comp_ff, i_nf = op_5188_0_comp_nf,
      i_step = \<lambda>H opcode g. incpc 2 (i_SUBA (imm8_table (hi_reg opcode)) (lo_reg opcode + 8) g)\<rparr>,
    \<lparr>i_opcode = 0x9000, i_mask = 0xF1F8, i_set = 0x1F, i_ff = op_9000_0_comp_ff, i_nf = op_9000_0_comp_nf,
      i_step = \<lambda>H opcode g. incpc 2 (i_SUB (fetch_reg (lo_reg opcode) g :: u8) (hi_reg opcode) g)\<rparr>,
    \<lparr>i_opcode = 0x903C, i_mask = 0xF1FF, i_set = 0x1F, i_ff = op_903c_0_comp_ff, i_nf = op_903c_0_comp_nf,
      i_step = \<lambda>H opcode g. incpc 4 (i_SUB (get_dibyte H 2 g) (hi_reg opcode) g)\<rparr>,
    \<lparr>i_opcode = 0x9040, i_mask = 0xF1F8, i_set = 0x1F, i_ff = op_9040_0_comp_ff, i_nf = op_9040_0_comp_nf,
      i_step = \<lambda>H opcode g. incpc 2 (i_SUB (fetch_reg (lo_reg opcode) g :: u16) (hi_reg opcode) g)\<rparr>,
    \<lparr>i_opcode = 0x9048, i_mask = 0xF1F8, i_set = 0x1F, i_ff = op_9048_0_comp_ff, i_nf = op_9048_0_comp_nf,
      i_step = \<lambda>H opcode g. incpc 2 (i_SUB (fetch_reg (lo_reg opcode + 8) g :: u16) (hi_reg opcode) g)\<rparr>,
    \<lparr>i_opcode = 0x907C, i_mask = 0xF1FF, i_set = 0x1F, i_ff = op_907c_0_comp_ff, i_nf = op_907c_0_comp_nf,
      i_step = \<lambda>H opcode g. incpc 4 (i_SUB (get_diword H 2 g) (hi_reg opcode) g)\<rparr>,
    \<lparr>i_opcode = 0x9080, i_mask = 0xF1F8, i_set = 0x1F, i_ff = op_9080_0_comp_ff, i_nf = op_9080_0_comp_nf,
      i_step = \<lambda>H opcode g. incpc 2 (i_SUB (fetch_reg (lo_reg opcode) g :: u32) (hi_reg opcode) g)\<rparr>,
    \<lparr>i_opcode = 0x9088, i_mask = 0xF1F8, i_set = 0x1F, i_ff = op_9088_0_comp_ff, i_nf = op_9088_0_comp_nf,
      i_step = \<lambda>H opcode g. incpc 2 (i_SUB (fetch_reg (lo_reg opcode + 8) g :: u32) (hi_reg opcode) g)\<rparr>,
    \<lparr>i_opcode = 0x90BC, i_mask = 0xF1FF, i_set = 0x1F, i_ff = op_90bc_0_comp_ff, i_nf = op_90bc_0_comp_nf,
      i_step = \<lambda>H opcode g. incpc 6 (i_SUB (get_dilong H 2 g) (hi_reg opcode) g)\<rparr>,
    \<lparr>i_opcode = 0x90C0, i_mask = 0xF1F8, i_set = 0x0, i_ff = op_90c0_0_comp_ff, i_nf = op_90c0_0_comp_nf,
      i_step = \<lambda>H opcode g. incpc 2 (i_SUBA (scast (fetch_reg (lo_reg opcode) g :: u16)) (hi_reg opcode + 8) g)\<rparr>,
    \<lparr>i_opcode = 0x90C8, i_mask = 0xF1F8, i_set = 0x0, i_ff = op_90c8_0_comp_ff, i_nf = op_90c8_0_comp_nf,
      i_step = \<lambda>H opcode g. incpc 2 (i_SUBA (scast (fetch_reg (lo_reg opcode + 8) g :: u16)) (hi_reg opcode + 8) g)\<rparr>,
    \<lparr>i_opcode = 0x90FC, i_mask = 0xF1FF, i_set = 0x0, i_ff = op_90fc_0_comp_ff, i_nf = op_90fc_0_comp_nf,
      i_step = \<lambda>H opcode g. incpc 4 (i_SUBA (scast (get_diword H 2 g)) (hi_reg opcode + 8) g)\<rparr>,
    \<lparr>i_opcode = 0x91C0, i_mask = 0xF1F8, i_set = 0x0, i_ff = op_91c0_0_comp_ff, i_nf = op_91c0_0_comp_nf,
      i_step = \<lambda>H opcode g. incpc 2 (i_SUBA (fetch_reg (lo_reg opcode) g) (hi_reg opcode + 8) g)\<rparr>,
    \<lparr>i_opcode = 0x91C8, i_mask = 0xF1F8, i_set = 0x0, i_ff = op_91c8_0_comp_ff, i_nf = op_91c8_0_comp_nf,
      i_step = \<lambda>H opcode g. incpc 2 (i_SUBA (fetch_reg (lo_reg opcode + 8) g) (hi_reg opcode + 8) g)\<rparr>,
    \<lparr>i_opcode = 0x91FC, i_mask = 0xF1FF, i_set = 0x0, i_ff = op_91fc_0_comp_ff, i_nf = op_91fc_0_comp_nf,
      i_step = \<lambda>H opcode g. incpc 6 (i_SUBA (get_dilong H 2 g) (hi_reg opcode + 8) g)\<rparr>,
    \<lparr>i_opcode = 0xB000, i_mask = 0xF1F8, i_set = 0xF, i_ff = op_b000_0_comp_ff, i_nf = op_b000_0_comp_nf,
      i_step = \<lambda>H opcode g. incpc 2 (i_CMP (fetch_reg (lo_reg opcode) g :: u8) (hi_reg opcode) g)\<rparr>,
    \<lparr>i_opcode = 0xB03C, i_mask = 0xF1FF, i_set = 0xF, i_ff = op_b03c_0_comp_ff, i_nf = op_b03c_0_comp_nf,
      i_step = \<lambda>H opcode g. incpc 4 (i_CMP (get_dibyte H 2 g) (hi_reg opcode) g)\<rparr>,
    \<lparr>i_opcode = 0xB040, i_mask = 0xF1F8, i_set = 0xF, i_ff = op_b040_0_comp_ff, i_nf = op_b040_0_comp_nf,
      i_step = \<lambda>H opcode g. incpc 2 (i_CMP (fetch_reg (lo_reg opcode) g :: u16) (hi_reg opcode) g)\<rparr>,
    \<lparr>i_opcode = 0xB048, i_mask = 0xF1F8, i_set = 0xF, i_ff = op_b048_0_comp_ff, i_nf = op_b048_0_comp_nf,
      i_step = \<lambda>H opcode g. incpc 2 (i_CMP (fetch_reg (lo_reg opcode + 8) g :: u16) (hi_reg opcode) g)\<rparr>,
    \<lparr>i_opcode = 0xB07C, i_mask = 0xF1FF, i_set = 0xF, i_ff = op_b07c_0_comp_ff, i_nf = op_b07c_0_comp_nf,
      i_step = \<lambda>H opcode g. incpc 4 (i_CMP (get_diword H 2 g) (hi_reg opcode) g)\<rparr>,
    \<lparr>i_opcode = 0xB080, i_mask = 0xF1F8, i_set = 0xF, i_ff = op_b080_0_comp_ff, i_nf = op_b080_0_comp_nf,
      i_step = \<lambda>H opcode g. incpc 2 (i_CMP (fetch_reg (lo_reg opcode) g :: u32) (hi_reg opcode) g)\<rparr>,
    \<lparr>i_opcode = 0xB088, i_mask = 0xF1F8, i_set = 0xF, i_ff = op_b088_0_comp_ff, i_nf = op_b088_0_comp_nf,
      i_step = \<lambda>H opcode g. incpc 2 (i_CMP (fetch_reg (lo_reg opcode + 8) g :: u32) (hi_reg opcode) g)\<rparr>,
    \<lparr>i_opcode = 0xB0BC, i_mask = 0xF1FF, i_set = 0xF, i_ff = op_b0bc_0_comp_ff, i_nf = op_b0bc_0_comp_nf,
      i_step = \<lambda>H opcode g. incpc 6 (i_CMP (get_dilong H 2 g) (hi_reg opcode) g)\<rparr>,
    \<lparr>i_opcode = 0xB0C0, i_mask = 0xF1F8, i_set = 0xF, i_ff = op_b0c0_0_comp_ff, i_nf = op_b0c0_0_comp_nf,
      i_step = \<lambda>H opcode g. incpc 2 (i_CMP (scast (fetch_reg (lo_reg opcode) g :: u16) :: u32) (hi_reg opcode + 8) g)\<rparr>,
    \<lparr>i_opcode = 0xB0C8, i_mask = 0xF1F8, i_set = 0xF, i_ff = op_b0c8_0_comp_ff, i_nf = op_b0c8_0_comp_nf,
      i_step = \<lambda>H opcode g. incpc 2 (i_CMP (scast (fetch_reg (lo_reg opcode + 8) g :: u16) :: u32) (hi_reg opcode + 8) g)\<rparr>,
    \<lparr>i_opcode = 0xB0FC, i_mask = 0xF1FF, i_set = 0xF, i_ff = op_b0fc_0_comp_ff, i_nf = op_b0fc_0_comp_nf,
      i_step = \<lambda>H opcode g. incpc 4 (i_CMP (scast (get_diword H 2 g) :: u32) (hi_reg opcode + 8) g)\<rparr>,
    \<lparr>i_opcode = 0xB1C0, i_mask = 0xF1F8, i_set = 0xF, i_ff = op_b1c0_0_comp_ff, i_nf = op_b1c0_0_comp_nf,
      i_step = \<lambda>H opcode g. incpc 2 (i_CMP (fetch_reg (lo_reg opcode) g :: u32) (hi_reg opcode + 8) g)\<rparr>,
    \<lparr>i_opcode = 0xB1C8, i_mask = 0xF1F8, i_set = 0xF, i_ff = op_b1c8_0_comp_ff, i_nf = op_b1c8_0_comp_nf,
      i_step = \<lambda>H opcode g. incpc 2 (i_CMP (fetch_reg (lo_reg opcode + 8) g :: u32) (hi_reg opcode + 8) g)\<rparr>,
    \<lparr>i_opcode = 0xB1FC, i_mask = 0xF1FF, i_set = 0xF, i_ff = op_b1fc_0_comp_ff, i_nf = op_b1fc_0_comp_nf,
      i_step = \<lambda>H opcode g. incpc 6 (i_CMP (get_dilong H 2 g :: u32) (hi_reg opcode + 8) g)\<rparr>,
    \<lparr>i_opcode = 0xD000, i_mask = 0xF1F8, i_set = 0x1F, i_ff = op_d000_0_comp_ff, i_nf = op_d000_0_comp_nf,
      i_step = \<lambda>H opcode g. incpc 2 (i_ADD (fetch_reg (lo_reg opcode) g :: u8) (hi_reg opcode) g)\<rparr>,
    \<lparr>i_opcode = 0xD03C, i_mask = 0xF1FF, i_set = 0x1F, i_ff = op_d03c_0_comp_ff, i_nf = op_d03c_0_comp_nf,
      i_step = \<lambda>H opcode g. incpc 4 (i_ADD (get_dibyte H 2 g) (hi_reg opcode) g)\<rparr>,
    \<lparr>i_opcode = 0xD040, i_mask = 0xF1F8, i_set = 0x1F, i_ff = op_d040_0_comp_ff, i_nf = op_d040_0_comp_nf,
      i_step = \<lambda>H opcode g. incpc 2 (i_ADD (fetch_reg (lo_reg opcode) g :: u16) (hi_reg opcode) g)\<rparr>,
    \<lparr>i_opcode = 0xD048, i_mask = 0xF1F8, i_set = 0x1F, i_ff = op_d048_0_comp_ff, i_nf = op_d048_0_comp_nf,
      i_step = \<lambda>H opcode g. incpc 2 (i_ADD (fetch_reg (lo_reg opcode + 8) g :: u16) (hi_reg opcode) g)\<rparr>,
    \<lparr>i_opcode = 0xD07C, i_mask = 0xF1FF, i_set = 0x1F, i_ff = op_d07c_0_comp_ff, i_nf = op_d07c_0_comp_nf,
      i_step = \<lambda>H opcode g. incpc 4 (i_ADD (get_diword H 2 g) (hi_reg opcode) g)\<rparr>,
    \<lparr>i_opcode = 0xD080, i_mask = 0xF1F8, i_set = 0x1F, i_ff = op_d080_0_comp_ff, i_nf = op_d080_0_comp_nf,
      i_step = \<lambda>H opcode g. incpc 2 (i_ADD (fetch_reg (lo_reg opcode) g :: u32) (hi_reg opcode) g)\<rparr>,
    \<lparr>i_opcode = 0xD088, i_mask = 0xF1F8, i_set = 0x1F, i_ff = op_d088_0_comp_ff, i_nf = op_d088_0_comp_nf,
      i_step = \<lambda>H opcode g. incpc 2 (i_ADD (fetch_reg (lo_reg opcode + 8) g :: u32) (hi_reg opcode) g)\<rparr>,
    \<lparr>i_opcode = 0xD0BC, i_mask = 0xF1FF, i_set = 0x1F, i_ff = op_d0bc_0_comp_ff, i_nf = op_d0bc_0_comp_nf,
      i_step = \<lambda>H opcode g. incpc 6 (i_ADD (get_dilong H 2 g) (hi_reg opcode) g)\<rparr>,
    \<lparr>i_opcode = 0xD0C0, i_mask = 0xF1F8, i_set = 0x0, i_ff = op_d0c0_0_comp_ff, i_nf = op_d0c0_0_comp_nf,
      i_step = \<lambda>H opcode g. incpc 2 (i_ADDA (scast (fetch_reg (lo_reg opcode) g :: u16)) (hi_reg opcode + 8) g)\<rparr>,
    \<lparr>i_opcode = 0xD0C8, i_mask = 0xF1F8, i_set = 0x0, i_ff = op_d0c8_0_comp_ff, i_nf = op_d0c8_0_comp_nf,
      i_step = \<lambda>H opcode g. incpc 2 (i_ADDA (scast (fetch_reg (lo_reg opcode + 8) g :: u16)) (hi_reg opcode + 8) g)\<rparr>,
    \<lparr>i_opcode = 0xD0FC, i_mask = 0xF1FF, i_set = 0x0, i_ff = op_d0fc_0_comp_ff, i_nf = op_d0fc_0_comp_nf,
      i_step = \<lambda>H opcode g. incpc 4 (i_ADDA (scast (get_diword H 2 g)) (hi_reg opcode + 8) g)\<rparr>,
    \<lparr>i_opcode = 0xD1C0, i_mask = 0xF1F8, i_set = 0x0, i_ff = op_d1c0_0_comp_ff, i_nf = op_d1c0_0_comp_nf,
      i_step = \<lambda>H opcode g. incpc 2 (i_ADDA (fetch_reg (lo_reg opcode) g) (hi_reg opcode + 8) g)\<rparr>,
    \<lparr>i_opcode = 0xD1C8, i_mask = 0xF1F8, i_set = 0x0, i_ff = op_d1c8_0_comp_ff, i_nf = op_d1c8_0_comp_nf,
      i_step = \<lambda>H opcode g. incpc 2 (i_ADDA (fetch_reg (lo_reg opcode + 8) g) (hi_reg opcode + 8) g)\<rparr>,
    \<lparr>i_opcode = 0xD1FC, i_mask = 0xF1FF, i_set = 0x0, i_ff = op_d1fc_0_comp_ff, i_nf = op_d1fc_0_comp_nf,
      i_step = \<lambda>H opcode g. incpc 6 (i_ADDA (get_dilong H 2 g) (hi_reg opcode + 8) g)\<rparr>]"

definition logic_insns :: "insn list" where
  "logic_insns = [
    \<lparr>i_opcode = 0x0, i_mask = 0xFFF8, i_set = 0xF, i_ff = op_0_0_comp_ff, i_nf = op_0_0_comp_nf,
      i_step = \<lambda>H opcode g. incpc 4 (i_OR (get_dibyte H 2 g) (lo_reg opcode) g)\<rparr>,
    \<lparr>i_opcode = 0x40, i_mask = 0xFFF8, i_set = 0xF, i_ff = op_40_0_comp_ff, i_nf = op_40_0_comp_nf,
      i_step = \<lambda>H opcode g. incpc 4 (i_OR (get_diword H 2 g) (lo_reg opcode) g)\<rparr>,
    \<lparr>i_opcode = 0x80, i_mask = 0xFFF8, i_set = 0xF, i_ff = op_80_0_comp_ff, i_nf = op_80_0_comp_nf,
      i_step = \<lambda>H opcode g. incpc 6 (i_OR (get_dilong H 2 g) (lo_reg opcode) g)\<rparr>,
    \<lparr>i_opcode = 0x200, i_mask = 0xFFF8, i_set = 0xF, i_ff = op_200_0_comp_ff, i_nf = op_200_0_comp_nf,
      i_step = \<lambda>H opcode g. incpc 4 (i_AND (get_dibyte H 2 g) (lo_reg opcode) g)\<rparr>,
    \<lparr>i_opcode = 0x240, i_mask = 0xFFF8, i_set = 0xF, i_ff = op_240_0_comp_ff, i_nf = op_240_0_comp_nf,
      i_step = \<lambda>H opcode g. incpc 4 (i_AND (get_diword H 2 g) (lo_reg opcode) g)\<rparr>,
    \<lparr>i_opcode = 0x280, i_mask = 0xFFF8, i_set = 0xF, i_ff = op_280_0_comp_ff, i_nf = op_280_0_comp_nf,
      i_step = \<lambda>H opcode g. incpc 6 (i_AND (get_dilong H 2 g) (lo_reg opcode) g)\<rparr>,
    \<lparr>i_opcode = 0xA00, i_mask = 0xFFF8, i_set = 0xF, i_ff = op_a00_0_comp_ff, i_nf = op_a00_0_comp_nf,
      i_step = \<lambda>H opcode g. incpc 4 (i_EOR (get_dibyte H 2 g) (lo_reg opcode) g)\<rparr>,
    \<lparr>i_opcode = 0xA40, i_mask = 0xFFF8, i_set = 0xF, i_ff = op_a40_0_comp_ff, i_nf = op_a40_0_comp_nf,
      i_step = \<lambda>H opcode g. incpc 4 (i_EOR (get_diword H 2 g) (lo_reg opcode) g)\<rparr>,
    \<lparr>i_opcode = 0xA80, i_mask = 0xFFF8, i_set = 0xF, i_ff = op_a80_0_comp_ff, i_nf = op_a80_0_comp_nf,
      i_step = \<lambda>H opcode g. incpc 6 (i_EOR (get_dilong H 2 g) (lo_reg opcode) g)\<rparr>,
    \<lparr>i_opcode = 0x4600, i_mask = 0xFFF8, i_set = 0xF, i_ff = op_4600_0_comp_ff, i_nf = op_4600_0_comp_nf,
      i_step = \<lambda>H opcode g. incpc 2 (i_NOT TYPE(8) (lo_reg opcode) g)\<rparr>,
    \<lparr>i_opcode = 0x4640, i_mask = 0xFFF8, i_set = 0xF, i_ff = op_4640_0_comp_ff, i_nf = op_4640_0_comp_nf,
      i_step = \<lambda>H opcode g. incpc 2 (i_NOT TYPE(16) (lo_reg opcode) g)\<rparr>,
    \<lparr>i_opcode = 0x4680, i_mask = 0xFFF8, i_set = 0xF, i_ff = op_4680_0_comp_ff, i_nf = op_4680_0_comp_nf,
      i_step = \<lambda>H opcode g. incpc 2 (i_NOT TYPE(32) (lo_reg opcode) g)\<rparr>,
    \<lparr>i_opcode = 0x4A00, i_mask = 0xFFF8, i_set = 0xF, i_ff = op_4a00_0_comp_ff, i_nf = op_4a00_0_comp_nf,
      i_step = \<lambda>H opcode g. incpc 2 (i_TST (fetch_reg (lo_reg opcode) g :: u8) g)\<rparr>,
    \<lparr>i_opcode = 0x4A3C, i_mask = 0xFFFF, i_set = 0xF, i_ff = op_4a3c_0_comp_ff, i_nf = op_4a3c_0_comp_nf,
      i_step = \<lambda>H opcode g. incpc 4 (i_TST (get_dibyte H 2 g) g)\<rparr>,
    \<lparr>i_opcode = 0x4A40, i_mask = 0xFFF8, i_set = 0xF, i_ff = op_4a40_0_comp_ff, i_nf = op_4a40_0_comp_nf,
      i_step = \<lambda>H opcode g. incpc 2 (i_TST (fetch_reg (lo_reg opcode) g :: u16) g)\<rparr>,
    \<lparr>i_opcode = 0x4A48, i_mask = 0xFFF8, i_set = 0xF, i_ff = op_4a48_0_comp_ff, i_nf = op_4a48_0_comp_nf,
      i_step = \<lambda>H opcode g. incpc 2 (i_TST (fetch_reg (lo_reg opcode + 8) g :: u16) g)\<rparr>,
    \<lparr>i_opcode = 0x4A7C, i_mask = 0xFFFF, i_set = 0xF, i_ff = op_4a7c_0_comp_ff, i_nf = op_4a7c_0_comp_nf,
      i_step = \<lambda>H opcode g. incpc 4 (i_TST (get_diword H 2 g) g)\<rparr>,
    \<lparr>i_opcode = 0x4A80, i_mask = 0xFFF8, i_set = 0xF, i_ff = op_4a80_0_comp_ff, i_nf = op_4a80_0_comp_nf,
      i_step = \<lambda>H opcode g. incpc 2 (i_TST (fetch_reg (lo_reg opcode) g :: u32) g)\<rparr>,
    \<lparr>i_opcode = 0x4A88, i_mask = 0xFFF8, i_set = 0xF, i_ff = op_4a88_0_comp_ff, i_nf = op_4a88_0_comp_nf,
      i_step = \<lambda>H opcode g. incpc 2 (i_TST (fetch_reg (lo_reg opcode + 8) g :: u32) g)\<rparr>,
    \<lparr>i_opcode = 0x4ABC, i_mask = 0xFFFF, i_set = 0xF, i_ff = op_4abc_0_comp_ff, i_nf = op_4abc_0_comp_nf,
      i_step = \<lambda>H opcode g. incpc 6 (i_TST (get_dilong H 2 g) g)\<rparr>,
    \<lparr>i_opcode = 0x8000, i_mask = 0xF1F8, i_set = 0xF, i_ff = op_8000_0_comp_ff, i_nf = op_8000_0_comp_nf,
      i_step = \<lambda>H opcode g. incpc 2 (i_OR (fetch_reg (lo_reg opcode) g :: u8) (hi_reg opcode) g)\<rparr>,
    \<lparr>i_opcode = 0x803C, i_mask = 0xF1FF, i_set = 0xF, i_ff = op_803c_0_comp_ff, i_nf = op_803c_0_comp_nf,
      i_step = \<lambda>H opcode g. incpc 4 (i_OR (get_dibyte H 2 g) (hi_reg opcode) g)\<rparr>,
    \<lparr>i_opcode = 0x8040, i_mask = 0xF1F8, i_set = 0xF, i_ff = op_8040_0_comp_ff, i_nf = op_8040_0_comp_nf,
      i_step = \<lambda>H opcode g. incpc 2 (i_OR (fetch_reg (lo_reg opcode) g :: u16) (hi_reg opcode) g)\<rparr>,
    \<lparr>i_opcode = 0x807C, i_mask = 0xF1FF, i_set = 0xF, i_ff = op_807c_0_comp_ff, i_nf = op_807c_0_comp_nf,
      i_step = \<lambda>H opcode g. incpc 4 (i_OR (get_diword H 2 g) (hi_reg opcode) g)\<rparr>,
    \<lparr>i_opcode = 0x8080, i_mask = 0xF1F8, i_set = 0xF, i_ff = op_8080_0_comp_ff, i_nf = op_8080_0_comp_nf,
      i_step = \<lambda>H opcode g. incpc 2 (i_OR (fetch_reg (lo_reg opcode) g :: u32) (hi_reg opcode) g)\<rparr>,
    \<lparr>i_opcode = 0x80BC, i_mask = 0xF1FF, i_set = 0xF, i_ff = op_80bc_0_comp_ff, i_nf = op_80bc_0_comp_nf,
      i_step = \<lambda>H opcode g. incpc 6 (i_OR (get_dilong H 2 g) (hi_reg opcode) g)\<rparr>,
    \<lparr>i_opcode = 0xB100, i_mask = 0xF1F8, i_set = 0xF, i_ff = op_b100_0_comp_ff, i_nf = op_b100_0_comp_nf,
      i_step = \<lambda>H opcode g. incpc 2 (i_EOR (fetch_reg (hi_reg opcode) g :: u8) (lo_reg opcode) g)\<rparr>,
    \<lparr>i_opcode = 0xB140, i_mask = 0xF1F8, i_set = 0xF, i_ff = op_b140_0_comp_ff, i_nf = op_b140_0_comp_nf,
      i_step = \<lambda>H opcode g. incpc 2 (i_EOR (fetch_reg (hi_reg opcode) g :: u16) (lo_reg opcode) g)\<rparr>,
    \<lparr>i_opcode = 0xB180, i_mask = 0xF1F8, i_set = 0xF, i_ff = op_b180_0_comp_ff, i_nf = op_b180_0_comp_nf,
      i_step = \<lambda>H opcode g. incpc 2 (i_EOR (fetch_reg (hi_reg opcode) g :: u32) (lo_reg opcode) g)\<rparr>,
    \<lparr>i_opcode = 0xC000, i_mask = 0xF1F8, i_set = 0xF, i_ff = op_c000_0_comp_ff, i_nf = op_c000_0_comp_nf,
      i_step = \<lambda>H opcode g. incpc 2 (i_AND (fetch_reg (lo_reg opcode) g :: u8) (hi_reg opcode) g)\<rparr>,
    \<lparr>i_opcode = 0xC03C, i_mask = 0xF1FF, i_set = 0xF, i_ff = op_c03c_0_comp_ff, i_nf = op_c03c_0_comp_nf,
      i_step = \<lambda>H opcode g. incpc 4 (i_AND (get_dibyte H 2 g) (hi_reg opcode) g)\<rparr>,
    \<lparr>i_opcode = 0xC040, i_mask = 0xF1F8, i_set = 0xF, i_ff = op_c040_0_comp_ff, i_nf = op_c040_0_comp_nf,
      i_step = \<lambda>H opcode g. incpc 2 (i_AND (fetch_reg (lo_reg opcode) g :: u16) (hi_reg opcode) g)\<rparr>,
    \<lparr>i_opcode = 0xC07C, i_mask = 0xF1FF, i_set = 0xF, i_ff = op_c07c_0_comp_ff, i_nf = op_c07c_0_comp_nf,
      i_step = \<lambda>H opcode g. incpc 4 (i_AND (get_diword H 2 g) (hi_reg opcode) g)\<rparr>,
    \<lparr>i_opcode = 0xC080, i_mask = 0xF1F8, i_set = 0xF, i_ff = op_c080_0_comp_ff, i_nf = op_c080_0_comp_nf,
      i_step = \<lambda>H opcode g. incpc 2 (i_AND (fetch_reg (lo_reg opcode) g :: u32) (hi_reg opcode) g)\<rparr>,
    \<lparr>i_opcode = 0xC0BC, i_mask = 0xF1FF, i_set = 0xF, i_ff = op_c0bc_0_comp_ff, i_nf = op_c0bc_0_comp_nf,
      i_step = \<lambda>H opcode g. incpc 6 (i_AND (get_dilong H 2 g) (hi_reg opcode) g)\<rparr>]"

definition move_insns :: "insn list" where
  "move_insns = [
    \<lparr>i_opcode = 0x1000, i_mask = 0xF1F8, i_set = 0xF, i_ff = op_1000_0_comp_ff, i_nf = op_1000_0_comp_nf,
      i_step = \<lambda>H opcode g. incpc 2 (i_MOVE (fetch_reg (lo_reg opcode) g :: u8) (hi_reg opcode) g)\<rparr>,
    \<lparr>i_opcode = 0x103C, i_mask = 0xF1FF, i_set = 0xF, i_ff = op_103c_0_comp_ff, i_nf = op_103c_0_comp_nf,
      i_step = \<lambda>H opcode g. incpc 4 (i_MOVE (get_dibyte H 2 g) (hi_reg opcode) g)\<rparr>,
    \<lparr>i_opcode = 0x2000, i_mask = 0xF1F8, i_set = 0xF, i_ff = op_2000_0_comp_ff, i_nf = op_2000_0_comp_nf,
      i_step = \<lambda>H opcode g. incpc 2 (i_MOVE (fetch_reg (lo_reg opcode) g :: u32) (hi_reg opcode) g)\<rparr>,
    \<lparr>i_opcode = 0x2008, i_mask = 0xF1F8, i_set = 0xF, i_ff = op_2008_0_comp_ff, i_nf = op_2008_0_comp_nf,
      i_step = \<lambda>H opcode g. incpc 2 (i_MOVE (fetch_reg (lo_reg opcode + 8) g :: u32) (hi_reg opcode) g)\<rparr>,
    \<lparr>i_opcode = 0x203C, i_mask = 0xF1FF, i_set = 0xF, i_ff = op_203c_0_comp_ff, i_nf = op_203c_0_comp_nf,
      i_step = \<lambda>H opcode g. incpc 6 (i_MOVE (get_dilong H 2 g) (hi_reg opcode) g)\<rparr>,
    \<lparr>i_opcode = 0x2040, i_mask = 0xF1F8, i_set = 0x0, i_ff = op_2040_0_comp_ff, i_nf = op_2040_0_comp_nf,
      i_step = \<lambda>H opcode g. incpc 2 (i_MOVEA (fetch_reg (lo_reg opcode) g) (hi_reg opcode + 8) g)\<rparr>,
    \<lparr>i_opcode = 0x2048, i_mask = 0xF1F8, i_set = 0x0, i_ff = op_2048_0_comp_ff, i_nf = op_2048_0_comp_nf,
      i_step = \<lambda>H opcode g. incpc 2 (i_MOVEA (fetch_reg (lo_reg opcode + 8) g) (hi_reg opcode + 8) g)\<rparr>,
    \<lparr>i_opcode = 0x207C, i_mask = 0xF1FF, i_set = 0x0, i_ff = op_207c_0_comp_ff, i_nf = op_207c_0_comp_nf,
      i_step = \<lambda>H opcode g. incpc 6 (i_MOVEA (get_dilong H 2 g) (hi_reg opcode + 8) g)\<rparr>,
    \<lparr>i_opcode = 0x3000, i_mask = 0xF1F8, i_set = 0xF, i_ff = op_3000_0_comp_ff, i_nf = op_3000_0_comp_nf,
      i_step = \<lambda>H opcode g. incpc 2 (i_MOVE (fetch_reg (lo_reg opcode) g :: u16) (hi_reg opcode) g)\<rparr>,
    \<lparr>i_opcode = 0x3008, i_mask = 0xF1F8, i_set = 0xF, i_ff = op_3008_0_comp_ff, i_nf = op_3008_0_comp_nf,
      i_step = \<lambda>H opcode g. incpc 2 (i_MOVE (fetch_reg (lo_reg opcode + 8) g :: u16) (hi_reg opcode) g)\<rparr>,
    \<lparr>i_opcode = 0x303C, i_mask = 0xF1FF, i_set = 0xF, i_ff = op_303c_0_comp_ff, i_nf = op_303c_0_comp_nf,
      i_step = \<lambda>H opcode g. incpc 4 (i_MOVE (get_diword H 2 g) (hi_reg opcode) g)\<rparr>,
    \<lparr>i_opcode = 0x3040, i_mask = 0xF1F8, i_set = 0x0, i_ff = op_3040_0_comp_ff, i_nf = op_3040_0_comp_nf,
      i_step = \<lambda>H opcode g. incpc 2 (i_MOVEA (scast (fetch_reg (lo_reg opcode) g :: u16)) (hi_reg opcode + 8) g)\<rparr>,
    \<lparr>i_opcode = 0x3048, i_mask = 0xF1F8, i_set = 0x0, i_ff = op_3048_0_comp_ff, i_nf = op_3048_0_comp_nf,
      i_step = \<lambda>H opcode g. incpc 2 (i_MOVEA (scast (fetch_reg (lo_reg opcode + 8) g :: u16)) (hi_reg opcode + 8) g)\<rparr>,
    \<lparr>i_opcode = 0x307C, i_mask = 0xF1FF, i_set = 0x0, i_ff = op_307c_0_comp_ff, i_nf = op_307c_0_comp_nf,
      i_step = \<lambda>H opcode g. incpc 4 (i_MOVEA (scast (get_diword H 2 g)) (hi_reg opcode + 8) g)\<rparr>,
    \<lparr>i_opcode = 0x41D0, i_mask = 0xF1F8, i_set = 0x0, i_ff = op_41d0_0_comp_ff, i_nf = op_41d0_0_comp_nf,
      i_step = \<lambda>H opcode g. incpc 2 (i_LEA (fetch_reg (lo_reg opcode + 8) g) (hi_reg opcode + 8) g)\<rparr>,
    \<lparr>i_opcode = 0x41F8, i_mask = 0xF1FF, i_set = 0x0, i_ff = op_41f8_0_comp_ff, i_nf = op_41f8_0_comp_nf,
      i_step = \<lambda>H opcode g. incpc 4 (i_LEA (scast (get_diword H 2 g)) (hi_reg opcode + 8) g)\<rparr>,
    \<lparr>i_opcode = 0x41F9, i_mask = 0xF1FF, i_set = 0x0, i_ff = op_41f9_0_comp_ff, i_nf = op_41f9_0_comp_nf,
      i_step = \<lambda>H opcode g. incpc 6 (i_LEA (get_dilong H 2 g) (hi_reg opcode + 8) g)\<rparr>,
    \<lparr>i_opcode = 0x4200, i_mask = 0xFFF8, i_set = 0xF, i_ff = op_4200_0_comp_ff, i_nf = op_4200_0_comp_nf,
      i_step = \<lambda>H opcode g. incpc 2 (i_CLR TYPE(8) (lo_reg opcode) g)\<rparr>,
    \<lparr>i_opcode = 0x4240, i_mask = 0xFFF8, i_set = 0xF, i_ff = op_4240_0_comp_ff, i_nf = op_4240_0_comp_nf,
      i_step = \<lambda>H opcode g. incpc 2 (i_CLR TYPE(16) (lo_reg opcode) g)\<rparr>,
    \<lparr>i_opcode = 0x4280, i_mask = 0xFFF8, i_set = 0xF, i_ff = op_4280_0_comp_ff, i_nf = op_4280_0_comp_nf,
      i_step = \<lambda>H opcode g. incpc 2 (i_CLR TYPE(32) (lo_reg opcode) g)\<rparr>,
    \<lparr>i_opcode = 0x48C0, i_mask = 0xFFF8, i_set = 0xF, i_ff = op_48c0_0_comp_ff, i_nf = op_48c0_0_comp_nf,
      i_step = \<lambda>H opcode g. incpc 2 (i_EXT_l (lo_reg opcode) g)\<rparr>,
    \<lparr>i_opcode = 0x49C0, i_mask = 0xFFF8, i_set = 0xF, i_ff = op_49c0_0_comp_ff, i_nf = op_49c0_0_comp_nf,
      i_step = \<lambda>H opcode g. incpc 2 (i_EXT_b (lo_reg opcode) g)\<rparr>,
    \<lparr>i_opcode = 0x4E71, i_mask = 0xFFFF, i_set = 0x0, i_ff = op_4e71_0_comp_ff, i_nf = op_4e71_0_comp_nf,
      i_step = \<lambda>H opcode g. incpc 2 (i_NOP g)\<rparr>,
    \<lparr>i_opcode = 0x7000, i_mask = 0xF100, i_set = 0xF, i_ff = op_7000_0_comp_ff, i_nf = op_7000_0_comp_nf,
      i_step = \<lambda>H opcode g. incpc 2 (i_MOVE (scast (ucast (opcode AND 255) :: u8) :: u32) (hi_reg opcode) g)\<rparr>,
    \<lparr>i_opcode = 0xC140, i_mask = 0xF1F8, i_set = 0x0, i_ff = op_c140_0_comp_ff, i_nf = op_c140_0_comp_nf,
      i_step = \<lambda>H opcode g. incpc 2 (i_EXG (hi_reg opcode) (lo_reg opcode) g)\<rparr>,
    \<lparr>i_opcode = 0xC148, i_mask = 0xF1F8, i_set = 0x0, i_ff = op_c148_0_comp_ff, i_nf = op_c148_0_comp_nf,
      i_step = \<lambda>H opcode g. incpc 2 (i_EXG (hi_reg opcode + 8) (lo_reg opcode + 8) g)\<rparr>,
    \<lparr>i_opcode = 0xC188, i_mask = 0xF1F8, i_set = 0x0, i_ff = op_c188_0_comp_ff, i_nf = op_c188_0_comp_nf,
      i_step = \<lambda>H opcode g. incpc 2 (i_EXG (hi_reg opcode) (lo_reg opcode + 8) g)\<rparr>]"

definition bits_insns :: "insn list" where
  "bits_insns = [
    \<lparr>i_opcode = 0x100, i_mask = 0xF1F8, i_set = 0x4, i_ff = op_100_0_comp_ff, i_nf = op_100_0_comp_nf,
      i_step = \<lambda>H opcode g. incpc 2 (i_BTST (unat (take_bit 5 (fetch_reg (hi_reg opcode) g :: u32))) (fetch_reg (lo_reg opcode) g :: u32) g)\<rparr>,
    \<lparr>i_opcode = 0x140, i_mask = 0xF1F8, i_set = 0x4, i_ff = op_140_0_comp_ff, i_nf = op_140_0_comp_nf,
      i_step = \<lambda>H opcode g. incpc 2 (i_BCHG (unat (take_bit 5 (fetch_reg (hi_reg opcode) g :: u32))) (lo_reg opcode) g)\<rparr>,
    \<lparr>i_opcode = 0x180, i_mask = 0xF1F8, i_set = 0x4, i_ff = op_180_0_comp_ff, i_nf = op_180_0_comp_nf,
      i_step = \<lambda>H opcode g. incpc 2 (i_BCLR (unat (take_bit 5 (fetch_reg (hi_reg opcode) g :: u32))) (lo_reg opcode) g)\<rparr>,
    \<lparr>i_opcode = 0x1C0, i_mask = 0xF1F8, i_set = 0x4, i_ff = op_1c0_0_comp_ff, i_nf = op_1c0_0_comp_nf,
      i_step = \<lambda>H opcode g. incpc 2 (i_BSET (unat (take_bit 5 (fetch_reg (hi_reg opcode) g :: u32))) (lo_reg opcode) g)\<rparr>,
    \<lparr>i_opcode = 0x800, i_mask = 0xFFF8, i_set = 0x4, i_ff = op_800_0_comp_ff, i_nf = op_800_0_comp_nf,
      i_step = \<lambda>H opcode g. incpc 4 (i_BTST (unat (take_bit 5 (get_diword H 2 g))) (fetch_reg (lo_reg opcode) g :: u32) g)\<rparr>,
    \<lparr>i_opcode = 0x840, i_mask = 0xFFF8, i_set = 0x4, i_ff = op_840_0_comp_ff, i_nf = op_840_0_comp_nf,
      i_step = \<lambda>H opcode g. incpc 4 (i_BCHG (unat (take_bit 5 (get_diword H 2 g))) (lo_reg opcode) g)\<rparr>,
    \<lparr>i_opcode = 0x880, i_mask = 0xFFF8, i_set = 0x4, i_ff = op_880_0_comp_ff, i_nf = op_880_0_comp_nf,
      i_step = \<lambda>H opcode g. incpc 4 (i_BCLR (unat (take_bit 5 (get_diword H 2 g))) (lo_reg opcode) g)\<rparr>,
    \<lparr>i_opcode = 0x8C0, i_mask = 0xFFF8, i_set = 0x4, i_ff = op_8c0_0_comp_ff, i_nf = op_8c0_0_comp_nf,
      i_step = \<lambda>H opcode g. incpc 4 (i_BSET (unat (take_bit 5 (get_diword H 2 g))) (lo_reg opcode) g)\<rparr>]"

definition op_smalltbl :: "insn list" where
  "op_smalltbl = arith_insns @ logic_insns @ move_insns @ bits_insns"

section \<open>The tables\<close>

definition FLAG_ALL :: u32 where "FLAG_ALL = FLAG_C OR FLAG_Z OR FLAG_N OR FLAG_V OR FLAG_X"

record op_properties =
  use_flags :: u32
  set_flags :: u32
  is_addx :: bool

record comp_tables =
  compfunctbl :: "u32 \<Rightarrow> compop_func option"
  nfcompfunctbl :: "u32 \<Rightarrow> compop_func option"
  op_prop :: "u32 \<Rightarrow> op_properties"
  cpufunctbl :: "u32 \<Rightarrow> ((u64 \<Rightarrow> u8) \<Rightarrow> u32 \<Rightarrow> guest \<Rightarrow> guest) option"

definition lookup_op :: "insn list \<Rightarrow> u32 \<Rightarrow> insn option" where
  "lookup_op tbl opcode = find (\<lambda>i. opcode AND i_mask i = i_opcode i) tbl"

definition build_comp :: "(u32 \<Rightarrow> bool) \<Rightarrow> insn list \<Rightarrow> comp_tables" where
  "build_comp must_interpret tbl =
    \<lparr>compfunctbl = \<lambda>opcode. if must_interpret opcode then None else map_option i_ff (lookup_op tbl opcode),
     nfcompfunctbl = \<lambda>opcode. if must_interpret opcode then None else map_option i_nf (lookup_op tbl opcode),
     op_prop = \<lambda>opcode. (case lookup_op tbl opcode of
         Some i \<Rightarrow> \<lparr>use_flags = 0, set_flags = i_set i, is_addx = False\<rparr>
       | None \<Rightarrow> \<lparr>use_flags = FLAG_ALL, set_flags = FLAG_ALL, is_addx = False\<rparr>),
     cpufunctbl = \<lambda>opcode. map_option i_step (lookup_op tbl opcode)\<rparr>"

section \<open>What a row promises\<close>

text \<open>
  The variant without condition codes is called only when none of the flags that the instruction sets
  is live, and is correct if then none of N, Z, V and C is live or the instruction sets no flag at all.
\<close>

definition nf_safe :: "u32 \<Rightarrow> u32 \<Rightarrow> bool" where
  "nf_safe S m \<longleftrightarrow> S = 0 \<or> m AND FLAG_CZNV = 0"

definition insn_ok :: "insn \<Rightarrow> bool" where
  "insn_ok i \<longleftrightarrow> (\<forall>H E opcode t mi mo l. op_ready (64 + t) E mi l \<longrightarrow>
     (sets_flags (i_set i) mi mo l \<longrightarrow> translated t E mi mo l (i_ff i H E opcode l) (i_step i H opcode)) \<and>
     (no_flags (i_set i) mi mo \<longrightarrow> nf_safe (i_set i) mo \<longrightarrow> translated t E mi mo l (i_nf i H E opcode l) (i_step i H opcode))) \<and>
     (\<exists>k. \<forall>H opcode g. g_pc (i_step i H opcode g) = g_pc g + k)"

lemma insn_sets:
  assumes "\<And>H E opcode t mi mo l. op_ready (64 + t) E mi l \<Longrightarrow> sets_flags S mi mo l \<Longrightarrow>
      translated t E mi mo l (h H E opcode l) (\<lambda>g. incpc k (st H opcode g))"
    "\<And>H E opcode t mi mo l. op_ready (64 + t) E mi l \<Longrightarrow> no_flags S mi mo \<Longrightarrow>
      translated t E mi mo l (h' H E opcode l) (\<lambda>g. incpc k (st H opcode g))"
    "\<And>H opcode g. g_pc (st H opcode g) = g_pc g"
  shows "insn_ok \<lparr>i_opcode = op, i_mask = m, i_set = S, i_ff = h, i_nf = h', i_step = \<lambda>H opcode g. incpc k (st H opcode g)\<rparr>"
  using assms by (auto simp: insn_ok_def)

lemma insn_keeps:
  assumes "\<And>H E opcode t mi mo l. op_ready (64 + t) E mi l \<Longrightarrow> mi = mo \<Longrightarrow>
      translated t E mi mo l (h H E opcode l) (\<lambda>g. incpc k (st H opcode g))"
    "\<And>H E opcode t mi mo l. op_ready (64 + t) E mi l \<Longrightarrow> mi = mo \<Longrightarrow>
      translated t E mi mo l (h' H E opcode l) (\<lambda>g. incpc k (st H opcode g))"
    "\<And>H opcode g. g_pc (st H opcode g) = g_pc g"
  shows "insn_ok \<lparr>i_opcode = op, i_mask = m, i_set = 0, i_ff = h, i_nf = h', i_step = \<lambda>H opcode g. incpc k (st H opcode g)\<rparr>"
  using assms by (auto simp: insn_ok_def sets_flags_def no_flags_def)

lemma insn_bits:
  assumes "\<And>H E opcode t mi mo l. op_ready (64 + t) E mi l \<Longrightarrow> sets_flags 4 mi mo l \<Longrightarrow>
      translated t E mi mo l (h H E opcode l) (\<lambda>g. incpc k (st H opcode g))"
    "\<And>H E opcode t mi mo l. op_ready (64 + t) E mi l \<Longrightarrow> no_flags 4 mi mo \<Longrightarrow> mo AND FLAG_CZNV = 0 \<Longrightarrow>
      translated t E mi mo l (h' H E opcode l) (\<lambda>g. incpc k (st H opcode g))"
    "\<And>H opcode g. g_pc (st H opcode g) = g_pc g"
  shows "insn_ok \<lparr>i_opcode = op, i_mask = m, i_set = 4, i_ff = h, i_nf = h', i_step = \<lambda>H opcode g. incpc k (st H opcode g)\<rparr>"
  using assms by (auto simp: insn_ok_def nf_safe_def)

lemmas insn_steps = i_OR_def i_AND_def i_EOR_def i_SUB_def i_SUBA_def i_ADD_def i_ADDA_def i_NEG_def i_CLR_def i_NOT_def i_TST_def
  i_BTST_def i_BCHG_def i_BCLR_def i_BSET_def i_CMP_def i_MOVE_def i_MOVEA_def i_EXG_def i_EXT_b_def i_EXT_w_def i_EXT_l_def
  i_NOP_def i_LEA_def

lemma arith_insns_ok: "list_all insn_ok arith_insns"
  unfolding arith_insns_def list.pred_inject
  by (intro conjI TrueI
    insn_sets [OF op_400_0_comp_ff_ok op_400_0_comp_nf_ok]
    insn_sets [OF op_440_0_comp_ff_ok op_440_0_comp_nf_ok]
    insn_sets [OF op_480_0_comp_ff_ok op_480_0_comp_nf_ok]
    insn_sets [OF op_600_0_comp_ff_ok op_600_0_comp_nf_ok]
    insn_sets [OF op_640_0_comp_ff_ok op_640_0_comp_nf_ok]
    insn_sets [OF op_680_0_comp_ff_ok op_680_0_comp_nf_ok]
    insn_sets [OF op_c00_0_comp_ff_ok op_c00_0_comp_nf_ok]
    insn_sets [OF op_c40_0_comp_ff_ok op_c40_0_comp_nf_ok]
    insn_sets [OF op_c80_0_comp_ff_ok op_c80_0_comp_nf_ok]
    insn_sets [OF op_4400_0_comp_ff_ok op_4400_0_comp_nf_ok]
    insn_sets [OF op_4440_0_comp_ff_ok op_4440_0_comp_nf_ok]
    insn_sets [OF op_4480_0_comp_ff_ok op_4480_0_comp_nf_ok]
    insn_sets [OF op_5000_0_comp_ff_ok op_5000_0_comp_nf_ok]
    insn_sets [OF op_5040_0_comp_ff_ok op_5040_0_comp_nf_ok]
    insn_keeps [OF op_5048_0_comp_ff_ok op_5048_0_comp_nf_ok]
    insn_sets [OF op_5080_0_comp_ff_ok op_5080_0_comp_nf_ok]
    insn_keeps [OF op_5088_0_comp_ff_ok op_5088_0_comp_nf_ok]
    insn_sets [OF op_5100_0_comp_ff_ok op_5100_0_comp_nf_ok]
    insn_sets [OF op_5140_0_comp_ff_ok op_5140_0_comp_nf_ok]
    insn_keeps [OF op_5148_0_comp_ff_ok op_5148_0_comp_nf_ok]
    insn_sets [OF op_5180_0_comp_ff_ok op_5180_0_comp_nf_ok]
    insn_keeps [OF op_5188_0_comp_ff_ok op_5188_0_comp_nf_ok]
    insn_sets [OF op_9000_0_comp_ff_ok op_9000_0_comp_nf_ok]
    insn_sets [OF op_903c_0_comp_ff_ok op_903c_0_comp_nf_ok]
    insn_sets [OF op_9040_0_comp_ff_ok op_9040_0_comp_nf_ok]
    insn_sets [OF op_9048_0_comp_ff_ok op_9048_0_comp_nf_ok]
    insn_sets [OF op_907c_0_comp_ff_ok op_907c_0_comp_nf_ok]
    insn_sets [OF op_9080_0_comp_ff_ok op_9080_0_comp_nf_ok]
    insn_sets [OF op_9088_0_comp_ff_ok op_9088_0_comp_nf_ok]
    insn_sets [OF op_90bc_0_comp_ff_ok op_90bc_0_comp_nf_ok]
    insn_keeps [OF op_90c0_0_comp_ff_ok op_90c0_0_comp_nf_ok]
    insn_keeps [OF op_90c8_0_comp_ff_ok op_90c8_0_comp_nf_ok]
    insn_keeps [OF op_90fc_0_comp_ff_ok op_90fc_0_comp_nf_ok]
    insn_keeps [OF op_91c0_0_comp_ff_ok op_91c0_0_comp_nf_ok]
    insn_keeps [OF op_91c8_0_comp_ff_ok op_91c8_0_comp_nf_ok]
    insn_keeps [OF op_91fc_0_comp_ff_ok op_91fc_0_comp_nf_ok]
    insn_sets [OF op_b000_0_comp_ff_ok op_b000_0_comp_nf_ok]
    insn_sets [OF op_b03c_0_comp_ff_ok op_b03c_0_comp_nf_ok]
    insn_sets [OF op_b040_0_comp_ff_ok op_b040_0_comp_nf_ok]
    insn_sets [OF op_b048_0_comp_ff_ok op_b048_0_comp_nf_ok]
    insn_sets [OF op_b07c_0_comp_ff_ok op_b07c_0_comp_nf_ok]
    insn_sets [OF op_b080_0_comp_ff_ok op_b080_0_comp_nf_ok]
    insn_sets [OF op_b088_0_comp_ff_ok op_b088_0_comp_nf_ok]
    insn_sets [OF op_b0bc_0_comp_ff_ok op_b0bc_0_comp_nf_ok]
    insn_sets [OF op_b0c0_0_comp_ff_ok op_b0c0_0_comp_nf_ok]
    insn_sets [OF op_b0c8_0_comp_ff_ok op_b0c8_0_comp_nf_ok]
    insn_sets [OF op_b0fc_0_comp_ff_ok op_b0fc_0_comp_nf_ok]
    insn_sets [OF op_b1c0_0_comp_ff_ok op_b1c0_0_comp_nf_ok]
    insn_sets [OF op_b1c8_0_comp_ff_ok op_b1c8_0_comp_nf_ok]
    insn_sets [OF op_b1fc_0_comp_ff_ok op_b1fc_0_comp_nf_ok]
    insn_sets [OF op_d000_0_comp_ff_ok op_d000_0_comp_nf_ok]
    insn_sets [OF op_d03c_0_comp_ff_ok op_d03c_0_comp_nf_ok]
    insn_sets [OF op_d040_0_comp_ff_ok op_d040_0_comp_nf_ok]
    insn_sets [OF op_d048_0_comp_ff_ok op_d048_0_comp_nf_ok]
    insn_sets [OF op_d07c_0_comp_ff_ok op_d07c_0_comp_nf_ok]
    insn_sets [OF op_d080_0_comp_ff_ok op_d080_0_comp_nf_ok]
    insn_sets [OF op_d088_0_comp_ff_ok op_d088_0_comp_nf_ok]
    insn_sets [OF op_d0bc_0_comp_ff_ok op_d0bc_0_comp_nf_ok]
    insn_keeps [OF op_d0c0_0_comp_ff_ok op_d0c0_0_comp_nf_ok]
    insn_keeps [OF op_d0c8_0_comp_ff_ok op_d0c8_0_comp_nf_ok]
    insn_keeps [OF op_d0fc_0_comp_ff_ok op_d0fc_0_comp_nf_ok]
    insn_keeps [OF op_d1c0_0_comp_ff_ok op_d1c0_0_comp_nf_ok]
    insn_keeps [OF op_d1c8_0_comp_ff_ok op_d1c8_0_comp_nf_ok]
    insn_keeps [OF op_d1fc_0_comp_ff_ok op_d1fc_0_comp_nf_ok])
    (simp_all add: insn_steps Let_def)

lemma logic_insns_ok: "list_all insn_ok logic_insns"
  unfolding logic_insns_def list.pred_inject
  by (intro conjI TrueI
    insn_sets [OF op_0_0_comp_ff_ok op_0_0_comp_nf_ok]
    insn_sets [OF op_40_0_comp_ff_ok op_40_0_comp_nf_ok]
    insn_sets [OF op_80_0_comp_ff_ok op_80_0_comp_nf_ok]
    insn_sets [OF op_200_0_comp_ff_ok op_200_0_comp_nf_ok]
    insn_sets [OF op_240_0_comp_ff_ok op_240_0_comp_nf_ok]
    insn_sets [OF op_280_0_comp_ff_ok op_280_0_comp_nf_ok]
    insn_sets [OF op_a00_0_comp_ff_ok op_a00_0_comp_nf_ok]
    insn_sets [OF op_a40_0_comp_ff_ok op_a40_0_comp_nf_ok]
    insn_sets [OF op_a80_0_comp_ff_ok op_a80_0_comp_nf_ok]
    insn_sets [OF op_4600_0_comp_ff_ok op_4600_0_comp_nf_ok]
    insn_sets [OF op_4640_0_comp_ff_ok op_4640_0_comp_nf_ok]
    insn_sets [OF op_4680_0_comp_ff_ok op_4680_0_comp_nf_ok]
    insn_sets [OF op_4a00_0_comp_ff_ok op_4a00_0_comp_nf_ok]
    insn_sets [OF op_4a3c_0_comp_ff_ok op_4a3c_0_comp_nf_ok]
    insn_sets [OF op_4a40_0_comp_ff_ok op_4a40_0_comp_nf_ok]
    insn_sets [OF op_4a48_0_comp_ff_ok op_4a48_0_comp_nf_ok]
    insn_sets [OF op_4a7c_0_comp_ff_ok op_4a7c_0_comp_nf_ok]
    insn_sets [OF op_4a80_0_comp_ff_ok op_4a80_0_comp_nf_ok]
    insn_sets [OF op_4a88_0_comp_ff_ok op_4a88_0_comp_nf_ok]
    insn_sets [OF op_4abc_0_comp_ff_ok op_4abc_0_comp_nf_ok]
    insn_sets [OF op_8000_0_comp_ff_ok op_8000_0_comp_nf_ok]
    insn_sets [OF op_803c_0_comp_ff_ok op_803c_0_comp_nf_ok]
    insn_sets [OF op_8040_0_comp_ff_ok op_8040_0_comp_nf_ok]
    insn_sets [OF op_807c_0_comp_ff_ok op_807c_0_comp_nf_ok]
    insn_sets [OF op_8080_0_comp_ff_ok op_8080_0_comp_nf_ok]
    insn_sets [OF op_80bc_0_comp_ff_ok op_80bc_0_comp_nf_ok]
    insn_sets [OF op_b100_0_comp_ff_ok op_b100_0_comp_nf_ok]
    insn_sets [OF op_b140_0_comp_ff_ok op_b140_0_comp_nf_ok]
    insn_sets [OF op_b180_0_comp_ff_ok op_b180_0_comp_nf_ok]
    insn_sets [OF op_c000_0_comp_ff_ok op_c000_0_comp_nf_ok]
    insn_sets [OF op_c03c_0_comp_ff_ok op_c03c_0_comp_nf_ok]
    insn_sets [OF op_c040_0_comp_ff_ok op_c040_0_comp_nf_ok]
    insn_sets [OF op_c07c_0_comp_ff_ok op_c07c_0_comp_nf_ok]
    insn_sets [OF op_c080_0_comp_ff_ok op_c080_0_comp_nf_ok]
    insn_sets [OF op_c0bc_0_comp_ff_ok op_c0bc_0_comp_nf_ok])
    (simp_all add: insn_steps Let_def)

lemma move_insns_ok: "list_all insn_ok move_insns"
  unfolding move_insns_def list.pred_inject
  by (intro conjI TrueI
    insn_sets [OF op_1000_0_comp_ff_ok op_1000_0_comp_nf_ok]
    insn_sets [OF op_103c_0_comp_ff_ok op_103c_0_comp_nf_ok]
    insn_sets [OF op_2000_0_comp_ff_ok op_2000_0_comp_nf_ok]
    insn_sets [OF op_2008_0_comp_ff_ok op_2008_0_comp_nf_ok]
    insn_sets [OF op_203c_0_comp_ff_ok op_203c_0_comp_nf_ok]
    insn_keeps [OF op_2040_0_comp_ff_ok op_2040_0_comp_nf_ok]
    insn_keeps [OF op_2048_0_comp_ff_ok op_2048_0_comp_nf_ok]
    insn_keeps [OF op_207c_0_comp_ff_ok op_207c_0_comp_nf_ok]
    insn_sets [OF op_3000_0_comp_ff_ok op_3000_0_comp_nf_ok]
    insn_sets [OF op_3008_0_comp_ff_ok op_3008_0_comp_nf_ok]
    insn_sets [OF op_303c_0_comp_ff_ok op_303c_0_comp_nf_ok]
    insn_keeps [OF op_3040_0_comp_ff_ok op_3040_0_comp_nf_ok]
    insn_keeps [OF op_3048_0_comp_ff_ok op_3048_0_comp_nf_ok]
    insn_keeps [OF op_307c_0_comp_ff_ok op_307c_0_comp_nf_ok]
    insn_keeps [OF op_41d0_0_comp_ff_ok op_41d0_0_comp_nf_ok]
    insn_keeps [OF op_41f8_0_comp_ff_ok op_41f8_0_comp_nf_ok]
    insn_keeps [OF op_41f9_0_comp_ff_ok op_41f9_0_comp_nf_ok]
    insn_sets [OF op_4200_0_comp_ff_ok op_4200_0_comp_nf_ok]
    insn_sets [OF op_4240_0_comp_ff_ok op_4240_0_comp_nf_ok]
    insn_sets [OF op_4280_0_comp_ff_ok op_4280_0_comp_nf_ok]
    insn_sets [OF op_48c0_0_comp_ff_ok op_48c0_0_comp_nf_ok]
    insn_sets [OF op_49c0_0_comp_ff_ok op_49c0_0_comp_nf_ok]
    insn_keeps [OF op_4e71_0_comp_ff_ok op_4e71_0_comp_nf_ok]
    insn_sets [OF op_7000_0_comp_ff_ok op_7000_0_comp_nf_ok]
    insn_keeps [OF op_c140_0_comp_ff_ok op_c140_0_comp_nf_ok]
    insn_keeps [OF op_c148_0_comp_ff_ok op_c148_0_comp_nf_ok]
    insn_keeps [OF op_c188_0_comp_ff_ok op_c188_0_comp_nf_ok])
    (simp_all add: insn_steps Let_def)

lemma bits_insns_ok: "list_all insn_ok bits_insns"
  unfolding bits_insns_def list.pred_inject
  by (intro conjI TrueI
    insn_bits [OF op_100_0_comp_ff_ok op_100_0_comp_nf_ok]
    insn_bits [OF op_140_0_comp_ff_ok op_140_0_comp_nf_ok]
    insn_bits [OF op_180_0_comp_ff_ok op_180_0_comp_nf_ok]
    insn_bits [OF op_1c0_0_comp_ff_ok op_1c0_0_comp_nf_ok]
    insn_bits [OF op_800_0_comp_ff_ok op_800_0_comp_nf_ok]
    insn_bits [OF op_840_0_comp_ff_ok op_840_0_comp_nf_ok]
    insn_bits [OF op_880_0_comp_ff_ok op_880_0_comp_nf_ok]
    insn_bits [OF op_8c0_0_comp_ff_ok op_8c0_0_comp_nf_ok])
    (simp_all add: insn_steps Let_def)

section \<open>Dead flags\<close>

text \<open>
  Two guests that differ only in flags that are not live before an instruction differ after it only in
  flags that are not live then.
\<close>

definition agree_on :: "u32 \<Rightarrow> guest \<Rightarrow> guest \<Rightarrow> bool" where
  "agree_on m g h \<longleftrightarrow> g_reg g = g_reg h \<and> g_pc g = g_pc h \<and> (m AND FLAG_X \<noteq> 0 \<longrightarrow> g_x g = g_x h) \<and> ccr_agree m (g_ccr g) (g_ccr h)"

definition step_agrees :: "insn \<Rightarrow> bool" where
  "step_agrees i \<longleftrightarrow> (\<forall>H op m g h. agree_on (m AND NOT (i_set i)) g h \<longrightarrow> agree_on m (i_step i H op g) (i_step i H op h))"

lemma guest_flags [simp]:
  "fetch_reg d (g\<lparr>g_x := x, g_ccr := k\<rparr>) = fetch_reg d g" 
  "get_dibyte H j (g\<lparr>g_x := x, g_ccr := k\<rparr>) = get_dibyte H j g" "get_diword H j (g\<lparr>g_x := x, g_ccr := k\<rparr>) = get_diword H j g"
  "get_dilong H j (g\<lparr>g_x := x, g_ccr := k\<rparr>) = get_dilong H j g"
  by (simp_all add: fetch_reg_def get_dibyte_def get_diword_def get_dilong_def)

lemma agree_onE:
  assumes "agree_on m g h"
  obtains x k where "h = g\<lparr>g_x := x, g_ccr := k\<rparr>" "m AND FLAG_X \<noteq> 0 \<Longrightarrow> x = g_x g" "ccr_agree m (g_ccr g) k"
proof (rule that [where x = "g_x h" and k = "g_ccr h"])
  show "h = g\<lparr>g_x := g_x h, g_ccr := g_ccr h\<rparr>" using assms by (cases g; cases h) (simp add: agree_on_def)
  show "g_x h = g_x g" if "m AND FLAG_X \<noteq> 0" using assms that unfolding agree_on_def by metis
  show "ccr_agree m (g_ccr g) (g_ccr h)" using assms unfolding agree_on_def by blast
qed

lemma step_agreesI:
  assumes "\<And>H op m g x k. ((m AND NOT S) AND FLAG_X \<noteq> 0 \<Longrightarrow> x = g_x g) \<Longrightarrow> ccr_agree (m AND NOT S) (g_ccr g) k \<Longrightarrow>
     agree_on m (st H op g) (st H op (g\<lparr>g_x := x, g_ccr := k\<rparr>))"
  shows "step_agrees \<lparr>i_opcode = opc, i_mask = mk, i_set = S, i_ff = a, i_nf = b, i_step = st\<rparr>"
  unfolding step_agrees_def
proof (intro allI impI)
  fix H op m g h
  assume "agree_on (m AND NOT (i_set \<lparr>i_opcode = opc, i_mask = mk, i_set = S, i_ff = a, i_nf = b, i_step = st\<rparr>)) g h"
  then have "agree_on (m AND NOT S) g h" by simp
  then obtain x k where "h = g\<lparr>g_x := x, g_ccr := k\<rparr>" "(m AND NOT S) AND FLAG_X \<noteq> 0 \<Longrightarrow> x = g_x g" "ccr_agree (m AND NOT S) (g_ccr g) k"
    by (blast elim: agree_onE)
  with assms show "agree_on m (i_step \<lparr>i_opcode = opc, i_mask = mk, i_set = S, i_ff = a, i_nf = b, i_step = st\<rparr> H op g)
      (i_step \<lparr>i_opcode = opc, i_mask = mk, i_set = S, i_ff = a, i_nf = b, i_step = st\<rparr> H op h)" by simp
qed

lemmas agree_steps = insn_steps store_logical_def store_arith_def genastore_def incpc_def SET_Z_def agree_on_def ccr_agree_def FLAG_X_def FLAG_N_def FLAG_C_def FLAG_Z_def FLAG_V_def

lemma arith_insns_agree: "list_all step_agrees arith_insns"
  unfolding arith_insns_def list.pred_inject
  by (intro conjI TrueI step_agreesI) (auto simp: agree_steps Let_def and.assoc split: prod.splits)

lemma logic_insns_agree: "list_all step_agrees logic_insns"
  unfolding logic_insns_def list.pred_inject
  by (intro conjI TrueI step_agreesI) (auto simp: agree_steps Let_def and.assoc split: prod.splits)

lemma move_insns_agree: "list_all step_agrees move_insns"
  unfolding move_insns_def list.pred_inject
  by (intro conjI TrueI step_agreesI) (auto simp: agree_steps Let_def and.assoc split: prod.splits)

lemma bits_insns_agree: "list_all step_agrees bits_insns"
  unfolding bits_insns_def list.pred_inject
  by (intro conjI TrueI step_agreesI) (auto simp: agree_steps Let_def and.assoc split: prod.splits)

lemma op_smalltbl_ok: "list_all insn_ok op_smalltbl"
  by (simp add: op_smalltbl_def arith_insns_ok logic_insns_ok move_insns_ok bits_insns_ok)

lemma op_smalltbl_agree: "list_all step_agrees op_smalltbl"
  by (simp add: op_smalltbl_def arith_insns_agree logic_insns_agree move_insns_agree bits_insns_agree)

section \<open>The contract of the tables\<close>

locale translators =
  fixes T :: comp_tables
  assumes ff_translated: "compfunctbl T op = Some h \<Longrightarrow> cpufunctbl T op = Some f \<Longrightarrow> op_ready (64 + t) E mi l \<Longrightarrow>
      sets_flags (set_flags (op_prop T op)) mi mo l \<Longrightarrow> translated t E mi mo l (h H E op l) (f H op)"
    and nf_translated: "nfcompfunctbl T op = Some h \<Longrightarrow> cpufunctbl T op = Some f \<Longrightarrow> op_ready (64 + t) E mi l \<Longrightarrow>
      no_flags (set_flags (op_prop T op)) mi mo \<Longrightarrow> nf_safe (set_flags (op_prop T op)) mo \<Longrightarrow> translated t E mi mo l (h H E op l) (f H op)"
    and uses_none: "compfunctbl T op = Some h \<Longrightarrow> use_flags (op_prop T op) = 0 \<and> \<not> is_addx (op_prop T op)"
    and has_nf: "compfunctbl T op = Some h \<Longrightarrow> nfcompfunctbl T op \<noteq> None"
    and has_step: "compfunctbl T op = Some h \<Longrightarrow> cpufunctbl T op \<noteq> None"
    and step_pc: "cpufunctbl T op = Some f \<Longrightarrow> \<exists>k. \<forall>H g. g_pc (f H op g) = g_pc g + k"
    and step_agree: "cpufunctbl T op = Some f \<Longrightarrow> agree_on (m AND NOT (set_flags (op_prop T op))) g g' \<Longrightarrow>
      agree_on m (f H op g) (f H op g')"

lemma lookup_op_all: "list_all P tbl \<Longrightarrow> lookup_op tbl op = Some i \<Longrightarrow> P i"
  by (auto simp: lookup_op_def find_Some_iff list_all_iff)

lemma build_comp_translators:
  assumes "list_all insn_ok tbl" "list_all step_agrees tbl"
  shows "translators (build_comp must_interpret tbl)"
proof
  fix op f
  assume "cpufunctbl (build_comp must_interpret tbl) op = Some f"
  then obtain i where "lookup_op tbl op = Some i" "f = i_step i" by (auto simp: build_comp_def)
  with lookup_op_all [OF assms(1)] show "\<exists>k. \<forall>H g. g_pc (f H op g) = g_pc g + k" by (fastforce simp: insn_ok_def)
qed (use lookup_op_all [OF assms(1)] lookup_op_all [OF assms(2)] in \<open>auto simp: build_comp_def insn_ok_def step_agrees_def split: option.splits if_splits\<close>)

interpretation jt: translators "build_comp must_interpret op_smalltbl" for must_interpret
  by (rule build_comp_translators [OF op_smalltbl_ok op_smalltbl_agree])

end
