(* ===== verification/Jit_Regfile.thy ===== *)
theory Jit_Regfile
  imports Jit_Guest
begin

unbundle bit_operations_syntax

text \<open>
  The two ends of a compiled block at the level of the guest. \<open>in_regfile\<close> says that the register file
  in memory holds a guest, as far as the live flags can tell. \<^verbatim>\<open>init_comp\<close> starts from it,
  \<^verbatim>\<open>freescratch\<close> between two instructions keeps the guest and frees the scratch registers, and
  \<^verbatim>\<open>flush (1)\<close> establishes it again, whether or not the condition codes are still wanted.
\<close>

section \<open>Freeing the scratch registers\<close>

text \<open>Forgetting a scratch register keeps everything else, and leaves it undefined.\<close>

lemma forget_about_ok:
  assumes r: "ready t E l" and d: "d < VREGS"
  obtains l' c where "forget_about E d l = Some l'" "ready t E l'" "same_rest l l'" "status l' d = UNDEF"
    "\<And>q. q < VREGS \<Longrightarrow> q \<noteq> d \<Longrightarrow> status l' q = UNDEF \<longleftrightarrow> status l q = UNDEF" "l_code l' = l_code l @ c" "closed c"
    "\<And>s V. rep {} E l s V \<Longrightarrow> rep {} E l' (exec c s) V \<and> quiet E s (exec c s)"
proof -
  obtain l1 where l1: "(if isinreg l d then disassociate E d l else Some l) = Some l1" "wf l1" "pres {} {d} E l l1"
    "same_rest l l1" "frame d l l1" "\<not> isinreg l1 d" "\<And>m. locked l1 m = locked l m" "touch_ok (8 + t) l1"
  proof (cases "isinreg l d")
    case True
    with disassociated [OF r d] that show thesis by (metis (full_types))
  next
    case False
    have "frame d l l" "wf l" "touch_ok (8 + t) l" using r by (auto simp: frame_def ready_def)
    with False that [of l] show thesis by simp
  qed
  let ?l = "set_status d UNDEF (upd_state d (\<lambda>x. x\<lparr>rs_val := 0\<rparr>) l1)"
  obtain c where c: "l_code l1 = l_code l @ c" "closed c" "\<And>s V. rep {d} E l s V \<Longrightarrow> rep {d} E l1 (exec c s) V \<and> quiet E s (exec c s)"
    using l1(3) unfolding pres_def by blast
  show thesis
  proof (rule that [of ?l c])
    show "forget_about E d l = Some ?l" using l1(1) by (simp add: forget_about_def split: if_splits)
    have "wf ?l" by (rule wf_cong [OF _ _ _ _ _ _ l1(2)]) (use l1(6) in \<open>auto simp: isinreg_def\<close>)
    then show "ready t E ?l" using r l1(7,8) by (simp add: ready_def touch_ok_def set_status_def upd_state_def)
    show "same_rest l ?l" using l1(4) by (simp add: same_rest_def set_status_def upd_state_def)
    show "status ?l q = UNDEF \<longleftrightarrow> status l q = UNDEF" if "q < VREGS" "q \<noteq> d" for q
    proof -
      have "status l1 q = UNDEF \<longleftrightarrow> status l q = UNDEF" using l1(5) that by (auto simp: frame_def isinreg_def)
      then show ?thesis using that by simp
    qed
    fix s V
    assume "rep {} E l s V"
    then have "rep {d} E l s V" by (simp add: rep_def)
    note x = c(3) [OF this]
    have "vrep E ?l (exec c s) V q = vrep E l1 (exec c s) V q" if "q \<noteq> d" for q
      using that by (cases "status l1 q") (simp_all add: vrep_def)
    moreover have "vrep E ?l (exec c s) V d" by (simp add: vrep_def)
    ultimately show "rep {} E ?l (exec c s) V \<and> quiet E s (exec c s)" using x unfolding rep_def by (metis singletonD)
  qed (use c in simp_all)
qed

lemma forget_all_ok:
  assumes "ready t E l" "\<And>d. d \<in> set ds \<Longrightarrow> d < VREGS"
  shows "\<exists>l' c. forget_all E ds l = Some l' \<and> ready t E l' \<and> same_rest l l' \<and> (\<forall>d\<in>set ds. status l' d = UNDEF) \<and>
    (\<forall>q<VREGS. q \<notin> set ds \<longrightarrow> (status l' q = UNDEF \<longleftrightarrow> status l q = UNDEF)) \<and> l_code l' = l_code l @ c \<and> closed c \<and>
    (\<forall>s V. rep {} E l s V \<longrightarrow> rep {} E l' (exec c s) V \<and> quiet E s (exec c s))"
  using assms
proof (induction ds arbitrary: l)
  case Nil
  then show ?case by (auto intro: exI [of _ "[]"])
next
  case (Cons d ds)
  obtain l1 c1 where l1: "forget_about E d l = Some l1" "ready t E l1" "same_rest l l1" "status l1 d = UNDEF"
    "\<And>q. q < VREGS \<Longrightarrow> q \<noteq> d \<Longrightarrow> status l1 q = UNDEF \<longleftrightarrow> status l q = UNDEF" "l_code l1 = l_code l @ c1" "closed c1"
    "\<And>s V. rep {} E l s V \<Longrightarrow> rep {} E l1 (exec c1 s) V \<and> quiet E s (exec c1 s)"
    using forget_about_ok [OF Cons.prems(1), of d] Cons.prems(2) by auto
  obtain l2 c2 where l2: "forget_all E ds l1 = Some l2" "ready t E l2" "same_rest l1 l2" "\<forall>d\<in>set ds. status l2 d = UNDEF"
    "\<forall>q<VREGS. q \<notin> set ds \<longrightarrow> (status l2 q = UNDEF \<longleftrightarrow> status l1 q = UNDEF)" "l_code l2 = l_code l1 @ c2" "closed c2"
    "\<forall>s V. rep {} E l1 s V \<longrightarrow> rep {} E l2 (exec c2 s) V \<and> quiet E s (exec c2 s)"
    using Cons.IH [OF l1(2)] Cons.prems(2) by auto
  have "status l2 d = UNDEF" using l1(4) l2(4,5) Cons.prems(2) [of d] by auto
  moreover have "rep {} E l2 (exec (c1 @ c2) s) V \<and> quiet E s (exec (c1 @ c2) s)" if "rep {} E l s V" for s V
    using l1(8) [OF that] l2(8) quiet_trans by (simp add: exec_append l1(7)) blast
  ultimately show ?case
    using l1 l2 same_rest_trans by (intro exI [of _ l2] exI [of _ "c1 @ c2"]) auto
qed

lemma freescratch_ok:
  assumes R: "op_done t E m l"
  obtains l' c where "freescratch E l = Some l'" "op_ready t E m l'" "l_code l' = l_code l @ c" "closed c"
    "l_needed_flags l' = l_needed_flags l"
    "\<And>s g. guest_rep E m l s g \<Longrightarrow> guest_rep E m l' (exec c s) g \<and> outer E s (exec c s)"
proof -
  have r: "ready t E l" using R by (rule op_done_ready)
  have S: "q < S1 \<Longrightarrow> q < VREGS" for q by (simp add: jit_consts)
  obtain l1 c where l1: "forget_all E [S1..<VREGS] l = Some l1" "ready t E l1" "same_rest l l1" "\<forall>d. S1 \<le> d \<and> d < VREGS \<longrightarrow> status l1 d = UNDEF"
    "\<forall>q<S1. status l1 q = UNDEF \<longleftrightarrow> status l q = UNDEF" "l_code l1 = l_code l @ c" "closed c"
    "\<forall>s V. rep {} E l s V \<longrightarrow> rep {} E l1 (exec c s) V \<and> quiet E s (exec c s)"
    using forget_all_ok [OF r, of "[S1..<VREGS]"] S by (auto simp: not_less)
  let ?l = "l1\<lparr>l_scratch_in_use := \<lambda>i. i \<notin> set [0..<SCRATCH_REGS] \<and> l_scratch_in_use l1 i\<rparr>"
  have rd: "ready t E ?l" using l1(2) by (simp add: ready_def wf_def isinreg_def touch_ok_def)
  have rp: "rep {} E ?l s V = rep {} E l1 s V" for s V by (rule rep_same_state) simp
  show thesis
  proof (rule that [of ?l c])
    show "freescratch E l = Some ?l" unfolding freescratch_def l1(1) by (simp add: fold_scratch)
    show "op_ready t E m ?l"
      using R rd l1(3-5) by (auto simp: op_ready_def op_done_def same_rest_def tidy_flags_def)
    fix s g
    assume "guest_rep E m l s g"
    then obtain V where V: "rep {} E l s V" "view m l V (nzcv s) g" unfolding guest_rep_def by blast
    have x: "rep {} E l1 (exec c s) V" "quiet E s (exec c s)" using l1(8) V(1) by blast+
    have "nzcv (exec c s) = nzcv s" using x(2) by (simp add: quiet_def nzcv_def)
    moreover have "view m ?l V f g = view m l V f g" for f
      using l1(3) by (simp add: view_def pc_at_def ccr_view_def ccr_rep_def same_rest_def)
    ultimately have "view m ?l V (nzcv (exec c s)) g" using V(2) by metis
    moreover have "rep {} E ?l (exec c s) V" using x(1) rp by blast
    ultimately show "guest_rep E m ?l (exec c s) g \<and> outer E s (exec c s)"
      using quiet_outer [OF x(2)] unfolding guest_rep_def by blast
  qed (use l1 in \<open>simp_all add: same_rest_def\<close>)
qed


section \<open>The register file\<close>

text \<open>
  A machine between two blocks: the register file in memory holds the registers of the guest, X if it
  is among the flags \<open>m\<close>, and those of N, Z, V and C that are.
\<close>

definition in_regfile :: "jenv \<Rightarrow> u32 \<Rightarrow> a64 \<Rightarrow> guest \<Rightarrow> bool" where
  "in_regfile E m s g \<longleftrightarrow> xr s R_REGSTRUCT = e_regs E \<and> (\<forall>r<16. ucast (load_slot E r (amem s)) = g_reg g r) \<and>
     (m AND FLAG_X \<noteq> 0 \<longrightarrow> ucast (load_slot E FLAGX (amem s)) = (of_bool (g_x g) :: u32)) \<and>
     (m AND FLAG_CZNV \<noteq> 0 \<longrightarrow> ccr_agree m (ccr_of False (word_flags (load_slot E FLAGTMP (amem s)))) (g_ccr g))"

lemma flags_saved:
  assumes R: "op_done (16 + t) E m l"
  obtains l1 c where "flags_to_stack E l = Some l1" "ready (8 + t) E l1" "l_code l1 = l_code l @ c" "closed c"
    "\<And>r. r < S1 \<Longrightarrow> status l1 r \<noteq> UNDEF" "l_comp_pc_p l1 = l_comp_pc_p l" "l_m68k_pc_offset l1 = l_m68k_pc_offset l"
    "\<And>s g. guest_rep E m l s g \<Longrightarrow> \<exists>V. rep {} E l1 (exec c s) V \<and> outer E s (exec c s) \<and> regs_view V g \<and> x_view m V g \<and>
       g_pc g = pc_at l \<and> (m AND FLAG_CZNV \<noteq> 0 \<longrightarrow> ccr_agree m (ccr_of False (word_flags (V FLAGTMP))) (g_ccr g))"
proof -
  have r: "ready (8 + (8 + t)) E l" and d: "\<And>r. r < S1 \<Longrightarrow> status l r \<noteq> UNDEF"
    and v: "l_flags_in_flags l = VALID \<or> l_flags_on_stack l = VALID" and td: "m AND FLAG_CZNV \<noteq> 0 \<Longrightarrow> tidy_flags l"
    using R by (auto simp: op_done_def)
  have r8: "ready (8 + t) E l" using r by (auto simp: ready_def intro: touch_ok_le)
  have S: "r < S1 \<Longrightarrow> r < VREGS" for r by (simp add: jit_consts)
  consider "l_flags_on_stack l = VALID" | "l_flags_on_stack l \<noteq> VALID" "\<not> l_flags_are_important l"
    | "l_flags_on_stack l \<noteq> VALID" "l_flags_are_important l" "l_flags_in_flags l = VALID" using v by blast
  then show thesis
  proof cases
    case 1
    have "rep {} E (set_carry_inverted False l) s V = rep {} E l s V" for s V by (rule rep_same_state) (simp add: set_carry_inverted_def)
    moreover have "ready (8 + t) E (l\<lparr>l_flags_carry_inverted := False\<rparr>)"
      using r8 ready_mode(3) [of "8 + t" E False l] by (simp add: set_carry_inverted_def)
    ultimately show thesis
      using 1 d by (intro that [of "set_carry_inverted False l" "[]"])
        (auto simp: flags_to_stack_def guest_rep_def view_def ccr_view_def ccr_rep_def set_carry_inverted_def)
  next
    case 2
    let ?l = "set_carry_inverted False (l\<lparr>l_flags_on_stack := VALID\<rparr>)"
    have "m AND FLAG_CZNV = 0" using td 2 by (auto simp: tidy_flags_def)
    moreover have "rep {} E ?l s V = rep {} E l s V" for s V by (rule rep_same_state) (simp add: set_carry_inverted_def)
    moreover have "ready (8 + t) E (l\<lparr>l_flags_on_stack := VALID, l_flags_carry_inverted := False\<rparr>)"
      using r8 ready_mode(3) [of "8 + t" E False "l\<lparr>l_flags_on_stack := VALID\<rparr>"] by (simp add: set_carry_inverted_def)
    ultimately show thesis
      using 2 d by (intro that [of ?l "[]"]) (auto simp: flags_to_stack_def guest_rep_def view_def set_carry_inverted_def)
  next
    case 3
    then have tidy: "tidy_flags l" by (simp add: tidy_flags_def)
    obtain l1 where l1: "do { (n, l1) \<leftarrow> writereg E FLAGTMP l; unlock2 n (raw_flags_to_reg E n l1) } = Some l1" "others_kept l l1"
      using store_flags_ok [OF r] by (auto simp: generates_def compiled_def)
    then have f: "flags_to_stack E l = Some (l1\<lparr>l_flags_on_stack := VALID\<rparr>)"
      using 3 by (auto simp: flags_to_stack_def case_prod_unfold split: bind_splits)
    from flags_to_stack_keeps [OF r tidy]
    obtain c where l2: "ready (8 + t) E (l1\<lparr>l_flags_on_stack := VALID\<rparr>)" "l_code (l1\<lparr>l_flags_on_stack := VALID\<rparr>) = l_code l @ c" "closed c"
      and s1: "\<And>s V k. rep {} E l s V \<Longrightarrow> ccr_rep l V (nzcv s) k \<Longrightarrow> \<exists>V'. rep {} E (l1\<lparr>l_flags_on_stack := VALID\<rparr>) (exec c s) V' \<and>
        outer E s (exec c s) \<and> (\<forall>q. q \<noteq> FLAGTMP \<longrightarrow> V' q = V q) \<and> ccr_rep (l1\<lparr>l_flags_on_stack := VALID\<rparr>) V' (nzcv (exec c s)) k"
      unfolding keeps_ccr_def f by auto
    show thesis
    proof (rule that [OF f l2])
      show "status (l1\<lparr>l_flags_on_stack := VALID\<rparr>) r \<noteq> UNDEF" if "r < S1" for r
        using flags_to_stack_defined [OF r tidy f S [OF that] d [OF that]] .
      fix s g
      assume "guest_rep E m l s g"
      then obtain V where V: "rep {} E l s V" "view m l V (nzcv s) g" unfolding guest_rep_def by blast
      let ?k = "ccr_of (l_flags_carry_inverted l) (nzcv s)"
      have "ccr_rep l V (nzcv s) ?k" using 3 by (simp add: ccr_rep_def)
      from s1 [OF V(1) this] obtain V' where V': "rep {} E (l1\<lparr>l_flags_on_stack := VALID\<rparr>) (exec c s) V'" "outer E s (exec c s)"
        "\<And>q. q \<noteq> FLAGTMP \<Longrightarrow> V' q = V q" "ccr_rep (l1\<lparr>l_flags_on_stack := VALID\<rparr>) V' (nzcv (exec c s)) ?k" by blast
      have "r < 16 \<Longrightarrow> r \<noteq> FLAGTMP" "FLAGX \<noteq> FLAGTMP" for r by (simp_all add: jit_consts)
      then have "regs_view V' g" "x_view m V' g" using V(2) V'(3) by (simp_all add: view_def regs_view_def x_view_def)
      moreover have "ccr_agree m (ccr_of False (word_flags (V' FLAGTMP))) (g_ccr g)" if "m AND FLAG_CZNV \<noteq> 0"
        using V(2) V'(4) that 3 by (auto simp: view_def ccr_view_def ccr_rep_def)
      ultimately show "\<exists>V. rep {} E (l1\<lparr>l_flags_on_stack := VALID\<rparr>) (exec c s) V \<and> outer E s (exec c s) \<and> regs_view V g \<and> x_view m V g \<and>
          g_pc g = pc_at l \<and> (m AND FLAG_CZNV \<noteq> 0 \<longrightarrow> ccr_agree m (ccr_of False (word_flags (V FLAGTMP))) (g_ccr g))"
        using V'(1,2) V(2) by (auto simp: view_def)
    qed (use l1(2) in \<open>simp_all add: others_kept_def same_rest_def\<close>)
  qed
qed

lemma flush_regs_pc: "flush_regs E rs l = Some l' \<Longrightarrow> l_comp_pc_p l' = l_comp_pc_p l"
proof (induction rs arbitrary: l)
  case (Cons r rs)
  then obtain l1 where l1: "flush_reg E r l = Some l1" "flush_regs E rs l1 = Some l'" by (auto split: bind_splits)
  then have "l_comp_pc_p l1 = l_comp_pc_p l"
    by (auto simp: flush_reg_def tomem_def writeback_const_def set_status_def upd_state_def emit_def Let_def split: vstatus.splits if_splits)
  with Cons.IH [OF l1(2)] show ?case by simp
qed simp

lemma flush_guest:
  assumes R: "op_done (16 + t) E m l"
  obtains l' c where "flush E True l = Some l'" "l_code l' = l_code l @ c" "closed c" "l_comp_pc_p l' = pc_at l"
    "\<And>s g. guest_rep E m l s g \<Longrightarrow> in_regfile E m (exec c s) g \<and> g_pc g = pc_at l \<and> outer E s (exec c s)"
proof -
  have ok: "env_ok E" using R by (simp add: op_done_def ready_def)
  obtain l1 c1 where l1: "flags_to_stack E l = Some l1" "ready (8 + t) E l1" "l_code l1 = l_code l @ c1" "closed c1"
    "\<And>r. r < S1 \<Longrightarrow> status l1 r \<noteq> UNDEF" "l_comp_pc_p l1 = l_comp_pc_p l" "l_m68k_pc_offset l1 = l_m68k_pc_offset l"
    and s1: "\<And>s g. guest_rep E m l s g \<Longrightarrow> \<exists>V. rep {} E l1 (exec c1 s) V \<and> outer E s (exec c1 s) \<and> regs_view V g \<and> x_view m V g \<and>
       g_pc g = pc_at l \<and> (m AND FLAG_CZNV \<noteq> 0 \<longrightarrow> ccr_agree m (ccr_of False (word_flags (V FLAGTMP))) (g_ccr g))"
    using flags_saved [OF R] by metis
  have P: "PC_P < S1" "FLAGTMP < S1" "PC_P \<noteq> FLAGTMP" by (simp_all add: jit_consts)
  obtain l2 c2 where l2: "sync_m68k_pc E l1 = Some l2" "ready t E l2" "l_code l2 = l_code l1 @ c2" "closed c2"
    "l_comp_pc_p l2 = l_comp_pc_p l1 + ucast (l_m68k_pc_offset l1)" "\<And>q. q < VREGS \<Longrightarrow> status l1 q \<noteq> UNDEF \<Longrightarrow> status l2 q \<noteq> UNDEF"
    and s2: "\<And>s V. rep {} E l1 s V \<Longrightarrow> rep {} E l2 (exec c2 s) (V(PC_P := V PC_P + ucast (l_m68k_pc_offset l1))) \<and>
       outer E s (exec c2 s) \<and> nzcv (exec c2 s) = nzcv s"
    using sync_m68k_pc_ok [OF l1(2) l1(5) [OF P(1)]] by metis
  have "wf l2" using l2(2) by (simp add: ready_def)
  from flush_regs_ok [OF ok this, of "[0..<Suc FLAGTMP]"]
  obtain l3 where l3: "flush_regs E [0..<Suc FLAGTMP] l2 = Some l3" "pres {} {} E l2 l3"
    "\<And>r. r \<le> FLAGTMP \<Longrightarrow> flushed r l3" "\<And>q. status l2 q \<noteq> UNDEF \<Longrightarrow> status l3 q \<noteq> UNDEF"
    by (auto simp: jit_consts less_Suc_eq_le)
  obtain c3 where c3: "l_code l3 = l_code l2 @ c3" "closed c3"
    and s3: "\<And>s V. rep {} E l2 s V \<Longrightarrow> rep {} E l3 (exec c3 s) V \<and> quiet E s (exec c3 s)"
    using l3(2) unfolding pres_def by blast
  show thesis
  proof (rule that [of l3 "c1 @ c2 @ c3"])
    show "flush E True l = Some l3" using l1(1) l2(1) l3(1) by (simp add: flush_def flush_flags_def)
    show "l_code l3 = l_code l @ c1 @ c2 @ c3" "closed (c1 @ c2 @ c3)" using l1(3,4) l2(3,4) c3 by simp_all
    show "l_comp_pc_p l3 = pc_at l" using flush_regs_pc [OF l3(1)] l2(5) l1(6,7) by (simp add: pc_at_def)
    fix s g
    assume "guest_rep E m l s g"
    from s1 [OF this] obtain V where V: "rep {} E l1 (exec c1 s) V" "outer E s (exec c1 s)" "regs_view V g" "x_view m V g" "g_pc g = pc_at l"
      "m AND FLAG_CZNV \<noteq> 0 \<Longrightarrow> ccr_agree m (ccr_of False (word_flags (V FLAGTMP))) (g_ccr g)" by blast
    let ?V = "V(PC_P := V PC_P + ucast (l_m68k_pc_offset l1))" and ?s = "exec c3 (exec c2 (exec c1 s))"
    have v2: "rep {} E l2 (exec c2 (exec c1 s)) ?V" "outer E (exec c1 s) (exec c2 (exec c1 s))" using s2 [OF V(1)] by simp_all
    have v3: "rep {} E l3 ?s ?V" "outer E (exec c2 (exec c1 s)) ?s" using s3 [OF v2(1)] quiet_outer by simp_all
    have x: "exec (c1 @ c2 @ c3) s = ?s" by (simp add: exec_append l1(4) l2(4))
    have slot: "load_slot E r (amem ?s) = ucast (ucast (V r) :: u32)" if "r \<le> FLAGTMP" "r \<noteq> PC_P" for r
    proof -
      have "r < VREGS" "r < S1" using that(1) by (simp_all add: jit_consts)
      with flushed_slot [OF v3(1) l3(3)] l3(4) l2(6) l1(5) that show ?thesis by simp
    qed
    have low: "(ucast (ucast (w :: u32) :: u64) :: u32) = w" for w by (rule bit_word_eqI) (auto simp: bit_ucast_iff)
    have "r < 16 \<Longrightarrow> r \<le> FLAGTMP \<and> r \<noteq> PC_P" "FLAGX \<le> FLAGTMP \<and> FLAGX \<noteq> PC_P" for r by (simp_all add: jit_consts)
    then have "\<forall>r<16. ucast (load_slot E r (amem ?s)) = g_reg g r" "m AND FLAG_X \<noteq> 0 \<Longrightarrow> ucast (load_slot E FLAGX (amem ?s)) = (of_bool (g_x g) :: u32)"
      using V(3,4) slot low by (simp_all add: regs_view_def x_view_def)
    moreover have "word_flags (load_slot E FLAGTMP (amem ?s)) = word_flags (V FLAGTMP)"
      using slot [of FLAGTMP] P(3) low by (intro word_flags_low) simp
    ultimately have "in_regfile E m ?s g" using V(6) rep_28 [OF v3(1)] by (simp add: in_regfile_def R_REGSTRUCT_def)
    moreover have "outer E s ?s" using V(2) v2(2) v3(2) outer_trans by blast
    ultimately show "in_regfile E m (exec (c1 @ c2 @ c3) s) g \<and> g_pc g = pc_at l \<and> outer E s (exec (c1 @ c2 @ c3) s)"
      using V(5) by (simp add: x)
  qed
qed


section \<open>The entry of a block\<close>

lemma init_comp_guest:
  assumes ok: "env_ok E" and nf: "\<And>r. r < VREGS \<Longrightarrow> rs_needflush (l_state l r) \<noteq> NF_HANDLER" and t: "t < 1999999990"
  obtains l0 where "init_comp E l = Some l0" "op_ready t E m l0" "l_code l0 = l_code l" "pc_at l0 = l_comp_pc_p l"
    "\<And>s g. in_regfile E m s g \<Longrightarrow> g_pc g = l_comp_pc_p l \<Longrightarrow> guest_rep E m l0 s g"
proof -
  obtain l0 where l0: "init_comp E l = Some l0" "\<And>r. r < VREGS \<Longrightarrow> l_state l0 r = init_state (l_comp_pc_p l) r (l_state l r)"
    "l_code l0 = l_code l" "l_m68k_pc_offset l0 = 0" "l_flags_on_stack l0 = VALID"
    "\<And>i. i < SCRATCH_REGS \<Longrightarrow> \<not> l_scratch_in_use l0 i" "l_comp_pc_p l0 = l_comp_pc_p l"
    using init_comp_state [of E l] by metis
  note rd = init_comp_ready [OF ok nf l0(1) t]
  show thesis
  proof (rule that [OF l0(1) _ l0(3)])
    have "status l0 r \<noteq> UNDEF" if "r < S1" for r using l0(2) [of r] that by (auto simp: init_state_def jit_consts)
    moreover have "status l0 r = UNDEF" if "r < VREGS" "S1 \<le> r" for r using l0(2) [of r] that by (auto simp: init_state_def jit_consts)
    ultimately show "op_ready t E m l0" using rd(1,2) l0 by (auto simp: op_ready_def op_done_def SYNC_PC_OFFSET_def)
    show "pc_at l0 = l_comp_pc_p l" using l0(4,7) by (simp add: pc_at_def)
    fix s g
    assume a: "in_regfile E m s g" "g_pc g = l_comp_pc_p l"
    then have "xr s R_REGSTRUCT = e_regs E" by (simp add: in_regfile_def)
    note rp = init_comp_rep [OF l0(1) this]
    let ?V = "entry_values E (l_comp_pc_p l) s"
    have "r < 16 \<Longrightarrow> r \<noteq> PC_P" "FLAGX \<noteq> PC_P" for r by (simp_all add: jit_consts)
    then have "regs_view ?V g" "x_view m ?V g" using a(1) by (simp_all add: in_regfile_def regs_view_def x_view_def entry_values_def)
    moreover have "ccr_view m l0 ?V (nzcv s) g" using a(1) rp(2) unfolding in_regfile_def ccr_view_def by blast
    moreover have "?V PC_P = l_comp_pc_p l0" "g_pc g = pc_at l0" using a(2) l0(4,7) by (simp_all add: entry_values_def pc_at_def)
    ultimately have "view m l0 ?V (nzcv s) g" by (simp add: view_def)
    with rp(1) show "guest_rep E m l0 s g" unfolding guest_rep_def by blast
  qed
qed

end
