(* ===== verification/Jit_Compile.thy ===== *)
theory Jit_Compile
  imports Op_Table Jit_Regfile
begin

unbundle bit_operations_syntax

text \<open>
  The compiler of a straight-line block (\<^verbatim>\<open>compile_block\<close> of compemu_support_arm.cpp) against the
  interpreter's loop that records it (\<^verbatim>\<open>execute_normal\<close> of newcpu.c): the analysis of the live flags
  from the end of the block backwards, the loop that calls a translator for each instruction, and the
  flush at the end. The model covers the path of a block all of whose instructions have a translator
  and that registers no branch, at an optimisation level above 1.
\<close>

section \<open>Operations\<close>

definition DO_GET_OPCODE :: "(u64 \<Rightarrow> u8) \<Rightarrow> u64 \<Rightarrow> u32" where
  "DO_GET_OPCODE H pc = ucast (do_get_mem_word H pc)"

definition MAXRUN :: nat where "MAXRUN = 1024"

fun execute_normal :: "comp_tables \<Rightarrow> (u64 \<Rightarrow> u8) \<Rightarrow> nat \<Rightarrow> guest \<Rightarrow> (u64 list \<times> guest) option" where
  "execute_normal T H 0 g = Some ([], g)"
| "execute_normal T H (Suc n) g = (let opcode = DO_GET_OPCODE H (g_pc g) in
     do { f \<leftarrow> cpufunctbl T opcode;
          (pc_hist, g') \<leftarrow> execute_normal T H n (f H opcode g);
          Some (g_pc g # pc_hist, g') })"

definition live_before :: "comp_tables \<Rightarrow> bool \<Rightarrow> u32 \<Rightarrow> u32 \<Rightarrow> u32" where
  "live_before T compnf opcode m =
    (if \<not> compnf then FLAG_ALL
     else let p = op_prop T opcode; f = (m AND NOT (set_flags p)) OR use_flags p
       in if is_addx p \<and> m AND FLAG_Z = 0 then f AND NOT FLAG_Z else f)"

fun liveflags :: "comp_tables \<Rightarrow> bool \<Rightarrow> u32 list \<Rightarrow> u32 \<Rightarrow> u32 list" where
  "liveflags T compnf [] successor_flags = [successor_flags]"
| "liveflags T compnf (opcode # ops) successor_flags =
    (let L = liveflags T compnf ops successor_flags in live_before T compnf opcode (hd L) # L)"

definition compile_insn :: "comp_tables \<Rightarrow> (u64 \<Rightarrow> u8) \<Rightarrow> jenv \<Rightarrow> bool \<Rightarrow> u32 \<Rightarrow> u32 \<Rightarrow> live \<Rightarrow> live option" where
  "compile_insn T H E compnf opcode m l = do {
     let needed_flags = m AND set_flags (op_prop T opcode);
     let l = l\<lparr>l_needed_flags := needed_flags\<rparr>;
     h \<leftarrow> (if needed_flags = 0 \<and> compnf then nfcompfunctbl T opcode else compfunctbl T opcode);
     l \<leftarrow> h H E opcode l;
     l \<leftarrow> freescratch E l;
     Some (if m AND FLAG_CZNV = 0 then dont_care_flags l else l) }"

fun compile_insns :: "comp_tables \<Rightarrow> (u64 \<Rightarrow> u8) \<Rightarrow> jenv \<Rightarrow> bool \<Rightarrow> nat \<Rightarrow> (u32 \<times> u32) list \<Rightarrow> live \<Rightarrow> live option" where
  "compile_insns T H E compnf room [] l = Some l"
| "compile_insns T H E compnf room ((opcode, m) # is) l =
    (if length (l_code l) < room
     then do { l \<leftarrow> compile_insn T H E compnf opcode m l; compile_insns T H E compnf room is l }
     else Some l)"

definition compile_block_body :: "comp_tables \<Rightarrow> (u64 \<Rightarrow> u8) \<Rightarrow> jenv \<Rightarrow> bool \<Rightarrow> nat \<Rightarrow> u32 \<Rightarrow> u64 list \<Rightarrow> live \<Rightarrow> live option" where
  "compile_block_body T H E compnf room successor_flags pc_hist l = do {
     let ops = map (DO_GET_OPCODE H) pc_hist;
     let L = liveflags T compnf ops successor_flags;
     l \<leftarrow> init_comp E (l\<lparr>l_comp_pc_p := hd pc_hist\<rparr>);
     l \<leftarrow> compile_insns T H E compnf room (zip ops (tl L)) l;
     flush E True l }"

section \<open>Fewer live flags\<close>

definition fewer :: "u32 \<Rightarrow> u32 \<Rightarrow> bool" where
  "fewer m' m \<longleftrightarrow> m' AND m = m'"

lemma fewer_zero: "fewer m' m \<Longrightarrow> m AND x = 0 \<Longrightarrow> m' AND x = 0"
proof -
  assume "fewer m' m" "m AND x = 0"
  then have "m' AND x = m' AND (m AND x)" unfolding fewer_def by (metis and.assoc)
  with \<open>m AND x = 0\<close> show ?thesis by simp
qed

lemma guest_rep_fewer:
  assumes "guest_rep E m l s g" "fewer m' m"
  shows "guest_rep E m' l s g"
proof -
  have z: "m' AND x \<noteq> 0 \<Longrightarrow> m AND x \<noteq> 0" for x using fewer_zero [OF assms(2)] by blast
  have "ccr_agree m k k' \<Longrightarrow> ccr_agree m' k k'" for k k' using z by (auto simp: ccr_agree_def split: prod.splits)
  then have "view m l V f g \<Longrightarrow> view m' l V f g" for V f using z unfolding view_def x_view_def ccr_view_def by blast
  then show ?thesis using assms(1) unfolding guest_rep_def by blast
qed

lemma op_ready_fewer: "op_ready t E m l \<Longrightarrow> fewer m' m \<Longrightarrow> op_ready t E m' l"
  using fewer_zero by (auto simp: op_ready_def op_done_def)

lemma op_ready_needed [simp]: "op_ready t E m (l\<lparr>l_needed_flags := n\<rparr>) = op_ready t E m l"
  by (simp add: op_ready_def op_done_def ready_def wf_def isinreg_def touch_ok_def tidy_flags_def)

lemma guest_rep_needed [simp]: "guest_rep E m (l\<lparr>l_needed_flags := n\<rparr>) s g = guest_rep E m l s g"
proof -
  have "rep {} E (l\<lparr>l_needed_flags := n\<rparr>) s V = rep {} E l s V" for V by (rule rep_same_state) simp
  then show ?thesis by (simp add: guest_rep_def view_def pc_at_def ccr_view_def ccr_rep_def)
qed

lemma dont_care_ready:
  assumes "m AND FLAG_CZNV = 0"
  shows "op_ready t E m (dont_care_flags l) = op_ready t E m l" "guest_rep E m (dont_care_flags l) s g = guest_rep E m l s g"
proof -
  note m = mode_change_simps [OF mode_changes(3)]
  show "op_ready t E m (dont_care_flags l) = op_ready t E m l"
    using assms by (simp add: op_ready_def op_done_def m) (simp add: dont_care_flags_def)
  show "guest_rep E m (dont_care_flags l) s g = guest_rep E m l s g"
    using assms by (simp add: guest_rep_def view_def ccr_view_def m)
qed

lemma liveflags_hd [simp]: "liveflags T compnf ops m \<noteq> []" "length (liveflags T compnf ops m) = Suc (length ops)"
  by (induction ops) (simp_all add: Let_def)


section \<open>One instruction\<close>

lemma fewer_refl [simp]: "fewer m m"
  by (simp add: fewer_def)

lemma fewer_unset: "fewer m x \<Longrightarrow> fewer (m AND NOT S) x"
proof -
  have "(m AND NOT S) AND x = (m AND x) AND NOT S" by (simp add: ac_simps)
  then show "fewer m x \<Longrightarrow> fewer (m AND NOT S) x" by (simp add: fewer_def)
qed

definition nf_sound :: "comp_tables \<Rightarrow> bool \<Rightarrow> u32 \<Rightarrow> u32 \<Rightarrow> bool" where
  "nf_sound T compnf opcode m = (compnf \<and> m AND set_flags (op_prop T opcode) = 0 \<longrightarrow> nf_safe (set_flags (op_prop T opcode)) m)"

context translators
begin

lemma live_before_plain:
  assumes "compfunctbl T op = Some h"
  shows "live_before T compnf op m = (if compnf then m AND NOT (set_flags (op_prop T op)) else FLAG_ALL)"
  using uses_none [OF assms] by (simp add: live_before_def Let_def)

lemma live_before_fewer:
  assumes "compfunctbl T op = Some h" "fewer m FLAG_ALL"
  shows "fewer (live_before T compnf op m) FLAG_ALL" "fewer (m AND NOT (set_flags (op_prop T op))) (live_before T compnf op m)"
  using fewer_unset [OF assms(2)] by (simp_all add: live_before_plain [OF assms(1)])

lemma compile_insn_ok:
  assumes R: "op_ready (64 + t) E (live_before T compnf op m) l" and h: "compfunctbl T op = Some h" and f: "cpufunctbl T op = Some f"
    and m: "fewer m FLAG_ALL" and s: "nf_sound T compnf op m"
  obtains l' c where "compile_insn T H E compnf op m l = Some l'" "op_ready t E m l'" "l_code l' = l_code l @ c" "closed c"
    "\<And>s g. guest_rep E (live_before T compnf op m) l s g \<Longrightarrow> guest_rep E m l' (exec c s) (f H op g) \<and> outer E s (exec c s)"
proof -
  let ?S = "set_flags (op_prop T op)" and ?b = "live_before T compnf op m"
  let ?mi = "m AND NOT ?S" and ?l = "l\<lparr>l_needed_flags := m AND ?S\<rparr>"
  have w: "fewer ?mi ?b" using live_before_fewer [OF h m] by simp
  have R': "op_ready (64 + t) E ?mi ?l" using op_ready_fewer [OF R w] by simp
  obtain h' where h': "nfcompfunctbl T op = Some h'" using has_nf [OF h] by blast
  let ?h = "if m AND ?S = 0 \<and> compnf then h' else h"
  have "translated t E ?mi m ?l (?h H E op ?l) (f H op)"
  proof (cases "m AND ?S = 0 \<and> compnf")
    case True
    then have "nf_safe ?S m" using s by (simp add: nf_sound_def)
    moreover have "no_flags ?S ?mi m" using True by (simp add: no_flags_def)
    ultimately show ?thesis using nf_translated [OF h' f R'] True by simp
  next
    case False
    have "sets_flags ?S ?mi m ?l" by (simp add: sets_flags_def)
    from ff_translated [OF h f R' this] False show ?thesis by auto
  qed
  then obtain l1 c1 where l1: "?h H E op ?l = Some l1" "op_done t E m l1" "l_code l1 = l_code l @ c1" "closed c1"
    "\<And>s g. guest_rep E ?mi l s g \<Longrightarrow> guest_rep E m l1 (exec c1 s) (f H op g) \<and> outer E s (exec c1 s)"
    unfolding translated_def by auto
  obtain l2 c2 where l2: "freescratch E l1 = Some l2" "op_ready t E m l2" "l_code l2 = l_code l1 @ c2" "closed c2"
    "\<And>s g. guest_rep E m l1 s g \<Longrightarrow> guest_rep E m l2 (exec c2 s) g \<and> outer E s (exec c2 s)"
    using freescratch_ok [OF l1(2)] by metis
  let ?r = "if m AND FLAG_CZNV = 0 then dont_care_flags l2 else l2"
  show thesis
  proof (rule that [of ?r "c1 @ c2"])
    have "(if m AND ?S = 0 \<and> compnf then nfcompfunctbl T op else compfunctbl T op) = Some ?h" using h h' by simp
    then show "compile_insn T H E compnf op m l = Some ?r"
      using l1(1) l2(1) by (simp add: compile_insn_def Let_def)
    show "op_ready t E m ?r" using l2(2) dont_care_ready(1) by simp
    show "l_code ?r = l_code l @ c1 @ c2" using l1(3) l2(3) by (simp add: dont_care_flags_def)
    show "closed (c1 @ c2)" using l1(4) l2(4) by simp
    fix s g
    assume "guest_rep E ?b l s g"
    from l1(5) [OF guest_rep_fewer [OF this w]] l2(5) [of "exec c1 s" "f H op g"] outer_trans
    show "guest_rep E m ?r (exec (c1 @ c2) s) (f H op g) \<and> outer E s (exec (c1 @ c2) s)"
      using dont_care_ready(2) by (auto simp: exec_append l1(4))
  qed
qed

end

section \<open>The whole block\<close>

definition supported :: "comp_tables \<Rightarrow> u32 list \<Rightarrow> bool" where
  "supported T ops = list_all (\<lambda>op. compfunctbl T op \<noteq> None) ops"

definition nf_sound_block :: "comp_tables \<Rightarrow> bool \<Rightarrow> u32 list \<Rightarrow> u32 \<Rightarrow> bool" where
  "nf_sound_block T compnf ops m = list_all (\<lambda>(op, m). nf_sound T compnf op m) (zip ops (tl (liveflags T compnf ops m)))"

lemma op_ready_le: "op_ready t' E m l \<Longrightarrow> t \<le> t' \<Longrightarrow> op_ready t E m l"
  using op_done_le by (auto simp: op_ready_def)

lemma zip_hd_tl: "xs \<noteq> [] \<Longrightarrow> zip (x # ys) xs = (x, hd xs) # zip ys (tl xs)"
  by (cases xs) simp_all

context translators
begin

lemma liveflags_fewer: "supported T ops \<Longrightarrow> fewer m FLAG_ALL \<Longrightarrow> fewer (hd (liveflags T compnf ops m)) FLAG_ALL"
  by (induction ops) (auto simp: supported_def Let_def intro: live_before_fewer(1))

lemma compile_insns_ok:
  assumes "op_ready (64 * length ops + t) E (hd (liveflags T compnf ops m)) l" "supported T ops"
    "nf_sound_block T compnf ops m" "fewer m FLAG_ALL"
  shows "\<exists>l' c k. compile_insns T H E compnf room (zip ops (tl (liveflags T compnf ops m))) l = Some l' \<and>
    op_ready t E (liveflags T compnf ops m ! k) l' \<and> l_code l' = l_code l @ c \<and> closed c \<and> k \<le> length ops \<and>
    (k = length ops \<or> room \<le> length (l_code l')) \<and>
    (\<forall>s g pcs g'. guest_rep E (hd (liveflags T compnf ops m)) l s g \<longrightarrow> execute_normal T H k g = Some (pcs, g') \<longrightarrow>
      map (DO_GET_OPCODE H) pcs = take k ops \<longrightarrow> guest_rep E (liveflags T compnf ops m ! k) l' (exec c s) g' \<and> outer E s (exec c s))"
  using assms(1-3)
proof (induction ops arbitrary: l)
  case Nil
  then show ?case by (intro exI [of _ l] exI [of _ "[]"] exI [of _ 0]) simp
next
  case (Cons op ops)
  let ?L = "liveflags T compnf ops m" and ?b = "live_before T compnf op (hd (liveflags T compnf ops m))"
  have LL: "liveflags T compnf (op # ops) m = ?b # ?L" by (simp add: Let_def)
  have z: "zip (op # ops) ?L = (op, hd ?L) # zip ops (tl ?L)" by (simp add: zip_hd_tl)
  show ?case
  proof (cases "length (l_code l) < room")
    case False
    have "op_ready t E ?b l" using op_ready_le [OF Cons.prems(1), of t] by (simp add: Let_def)
    with False show ?thesis
      unfolding LL list.sel z
      by (intro exI [of _ l] exI [of _ "[]"] exI [of _ 0]) simp
  next
    case True
    obtain h f where h: "compfunctbl T op = Some h" "cpufunctbl T op = Some f"
      using Cons.prems(2) has_step by (fastforce simp: supported_def)
    have sup: "supported T ops" "nf_sound_block T compnf ops m" "nf_sound T compnf op (hd ?L)"
      using Cons.prems(2,3) unfolding nf_sound_block_def LL list.sel z by (simp_all add: supported_def)
    have R: "op_ready (64 + (64 * length ops + t)) E ?b l" using Cons.prems(1) by (simp add: Let_def ac_simps)
    obtain l1 c1 where l1: "compile_insn T H E compnf op (hd ?L) l = Some l1" "op_ready (64 * length ops + t) E (hd ?L) l1"
      "l_code l1 = l_code l @ c1" "closed c1"
      "\<And>s g. guest_rep E ?b l s g \<Longrightarrow> guest_rep E (hd ?L) l1 (exec c1 s) (f H op g) \<and> outer E s (exec c1 s)"
      using compile_insn_ok [OF R h liveflags_fewer [OF sup(1) assms(4)] sup(3)] by metis
    from Cons.IH [OF l1(2) sup(1,2)]
    obtain l2 c2 k where l2: "compile_insns T H E compnf room (zip ops (tl ?L)) l1 = Some l2" "op_ready t E (?L ! k) l2"
      "l_code l2 = l_code l1 @ c2" "closed c2" "k \<le> length ops" "k = length ops \<or> room \<le> length (l_code l2)"
      "\<And>s g pcs g'. guest_rep E (hd ?L) l1 s g \<Longrightarrow> execute_normal T H k g = Some (pcs, g') \<Longrightarrow>
        map (DO_GET_OPCODE H) pcs = take k ops \<Longrightarrow> guest_rep E (?L ! k) l2 (exec c2 s) g' \<and> outer E s (exec c2 s)" by blast
    have step: "guest_rep E (?L ! k) l2 (exec (c1 @ c2) s) g' \<and> outer E s (exec (c1 @ c2) s)"
      if a: "guest_rep E ?b l s g" "execute_normal T H (Suc k) g = Some (pcs, g')" "map (DO_GET_OPCODE H) pcs = op # take k ops" for s g pcs g'
    proof -
      have "DO_GET_OPCODE H (g_pc g) = op" using a(2,3) by (auto simp: Let_def split: bind_splits)
      then obtain ps where ps: "execute_normal T H k (f H op g) = Some (ps, g')" "pcs = g_pc g # ps"
        using a(2) h(2) by (auto simp: Let_def split: bind_splits)
      from l1(5) [OF a(1)] l2(7) [OF _ ps(1)] a(3) ps(2) outer_trans show ?thesis
        by (auto simp: exec_append l1(4))
    qed
    then show ?thesis
      unfolding LL list.sel z using True l1(1,3,4) l2(1-6)
      by (intro exI [of _ l2] exI [of _ "c1 @ c2"] exI [of _ "Suc k"] conjI) simp_all
  qed
qed

lemma execute_normal_pcs:
  assumes "execute_normal T H n g = Some (pcs, g')" "k \<le> n" "g_pc h = g_pc g"
  shows "\<exists>h'. execute_normal T H k h = Some (take k pcs, h')"
  using assms
proof (induction n arbitrary: k g h pcs)
  case (Suc n)
  let ?op = "DO_GET_OPCODE H (g_pc g)"
  obtain f ps where f: "cpufunctbl T ?op = Some f" "execute_normal T H n (f H ?op g) = Some (ps, g')" "pcs = g_pc g # ps"
    using Suc.prems(1) by (auto simp: Let_def split: bind_splits)
  obtain j where j: "\<And>H g. g_pc (f H ?op g) = g_pc g + j" using step_pc [OF f(1)] by blast
  show ?case
  proof (cases k)
    case (Suc k')
    then obtain h' where "execute_normal T H k' (f H ?op h) = Some (take k' ps, h')"
      using Suc.IH [OF f(2), of k' "f H ?op h"] Suc.prems(2,3) j by auto
    then show ?thesis using f(1,3) Suc Suc.prems(3) by (simp add: Let_def)
  qed simp
qed simp

lemma agree_on_fewer: "agree_on m g h \<Longrightarrow> fewer m' m \<Longrightarrow> agree_on m' g h"
proof -
  assume a: "agree_on m g h" "fewer m' m"
  have z: "m' AND x \<noteq> 0 \<Longrightarrow> m AND x \<noteq> 0" for x using fewer_zero [OF a(2)] by blast
  have "ccr_agree m (g_ccr g) (g_ccr h) \<Longrightarrow> ccr_agree m' (g_ccr g) (g_ccr h)" using z by (auto simp: ccr_agree_def split: prod.splits)
  with a(1) z show ?thesis unfolding agree_on_def by blast
qed

lemma liveflags_sound:
  assumes "supported T ops" "fewer m FLAG_ALL" "agree_on (hd (liveflags T compnf ops m)) g h"
    "execute_normal T H k g = Some (pcs, g')" "map (DO_GET_OPCODE H) pcs = take k ops" "k \<le> length ops"
  shows "\<exists>h'. execute_normal T H k h = Some (pcs, h') \<and> agree_on (liveflags T compnf ops m ! k) g' h'"
  using assms(1,3-)
proof (induction ops arbitrary: k g h pcs)
  case (Cons op ops)
  let ?L = "liveflags T compnf ops m" and ?b = "live_before T compnf op (hd (liveflags T compnf ops m))"
  have LL: "liveflags T compnf (op # ops) m = ?b # ?L" by (simp add: Let_def)
  have pc: "g_pc h = g_pc g" using Cons.prems(2) by (simp add: agree_on_def)
  show ?case
  proof (cases k)
    case 0
    then show ?thesis using Cons.prems unfolding LL by simp
  next
    case (Suc k')
    obtain c where c: "compfunctbl T op = Some c" and sup: "supported T ops" using Cons.prems(1) by (auto simp: supported_def)
    have op: "DO_GET_OPCODE H (g_pc g) = op" using Cons.prems(3,4) Suc by (auto simp: Let_def split: bind_splits)
    then obtain f ps where f: "cpufunctbl T op = Some f" "execute_normal T H k' (f H op g) = Some (ps, g')" "pcs = g_pc g # ps"
      using Cons.prems(3) Suc by (auto simp: Let_def split: bind_splits)
    have "fewer (hd ?L AND NOT (set_flags (op_prop T op))) ?b"
      by (rule live_before_fewer(2) [OF c liveflags_fewer [OF sup assms(2)]])
    then have "agree_on (hd ?L) (f H op g) (f H op h)"
      using step_agree [OF f(1)] agree_on_fewer Cons.prems(2) unfolding LL by simp
    from Cons.IH [OF sup this f(2)] Cons.prems(4,5) Suc f(3)
    obtain h' where "execute_normal T H k' (f H op h) = Some (ps, h')" "agree_on (?L ! k') g' h'" by auto
    then show ?thesis using f(1,3) op pc Suc unfolding LL by (simp add: Let_def)
  qed
qed simp

lemma execute_normal_length: "execute_normal T H n g = Some (pcs, g') \<Longrightarrow> length pcs = n \<and> (0 < n \<longrightarrow> hd pcs = g_pc g)"
  by (induction n arbitrary: g pcs) (auto simp: Let_def split: bind_splits)

lemma compile_block_ok:
  assumes ok: "env_ok E" and nf: "\<And>r. r < VREGS \<Longrightarrow> rs_needflush (l_state l r) \<noteq> NF_HANDLER"
    and run: "execute_normal T H n g0 = Some (pcs, g1)" and n: "0 < n" "n \<le> MAXRUN"
    and sup: "supported T (map (DO_GET_OPCODE H) pcs)" "nf_sound_block T compnf (map (DO_GET_OPCODE H) pcs) m" "fewer m FLAG_ALL"
  shows "\<exists>l' c k. compile_block_body T H E compnf room m pcs l = Some l' \<and> l_code l' = l_code l @ c \<and> k \<le> n \<and>
    (k = n \<or> room \<le> length (l_code l')) \<and>
    (\<forall>s g. in_regfile E (hd (liveflags T compnf (map (DO_GET_OPCODE H) pcs) m)) s g \<longrightarrow> g_pc g = g_pc g0 \<longrightarrow>
      (\<exists>g'. execute_normal T H k g = Some (take k pcs, g') \<and> g_pc g' = l_comp_pc_p l' \<and>
        in_regfile E (liveflags T compnf (map (DO_GET_OPCODE H) pcs) m ! k) (exec c s) g' \<and> outer E s (exec c s)))"
proof -
  let ?ops = "map (DO_GET_OPCODE H) pcs" and ?l = "l\<lparr>l_comp_pc_p := hd pcs\<rparr>"
  let ?L = "liveflags T compnf ?ops m"
  note len = execute_normal_length [OF run]
  have t: "64 * length ?ops + 16 < 1999999990" using len n by (simp add: MAXRUN_def)
  have nf': "r < VREGS \<Longrightarrow> rs_needflush (l_state ?l r) \<noteq> NF_HANDLER" for r using nf by simp
  obtain l0 where i: "init_comp E ?l = Some l0" "op_ready (64 * length ?ops + 16) E (hd ?L) l0" "l_code l0 = l_code ?l"
    "\<And>s g. in_regfile E (hd ?L) s g \<Longrightarrow> g_pc g = l_comp_pc_p ?l \<Longrightarrow> guest_rep E (hd ?L) l0 s g"
    using init_comp_guest [OF ok nf' t, of "hd ?L"] by metis
  then have l0: "init_comp E ?l = Some l0" "op_ready (64 * length ?ops + 16) E (hd ?L) l0" "l_code l0 = l_code l"
    "\<And>s g. in_regfile E (hd ?L) s g \<Longrightarrow> g_pc g = hd pcs \<Longrightarrow> guest_rep E (hd ?L) l0 s g"
    by simp_all
  from compile_insns_ok [OF l0(2) sup, of H room]
  obtain l1 c1 k where l1: "compile_insns T H E compnf room (zip ?ops (tl ?L)) l0 = Some l1" "op_ready 16 E (?L ! k) l1"
    "l_code l1 = l_code l0 @ c1" "closed c1" "k \<le> length ?ops" "k = length ?ops \<or> room \<le> length (l_code l1)"
    "\<And>s g ps g'. guest_rep E (hd ?L) l0 s g \<Longrightarrow> execute_normal T H k g = Some (ps, g') \<Longrightarrow>
      map (DO_GET_OPCODE H) ps = take k ?ops \<Longrightarrow> guest_rep E (?L ! k) l1 (exec c1 s) g' \<and> outer E s (exec c1 s)" by blast
  have "op_done (16 + 0) E (?L ! k) l1" using l1(2) by (simp add: op_ready_def)
  from flush_guest [OF this]
  obtain l2 c2 where l2: "flush E True l1 = Some l2" "l_code l2 = l_code l1 @ c2" "closed c2" "l_comp_pc_p l2 = pc_at l1"
    "\<And>s g. guest_rep E (?L ! k) l1 s g \<Longrightarrow> in_regfile E (?L ! k) (exec c2 s) g \<and> g_pc g = pc_at l1 \<and> outer E s (exec c2 s)" by metis
  show ?thesis
  proof (intro exI [of _ l2] exI [of _ "c1 @ c2"] exI [of _ k] conjI allI impI)
    show "compile_block_body T H E compnf room m pcs l = Some l2" using l0(1) l1(1) l2(1) by (simp add: compile_block_body_def Let_def)
    show "l_code l2 = l_code l @ c1 @ c2" using l0(3) l1(3) l2(2) by simp
    show "k \<le> n" "k = n \<or> room \<le> length (l_code l2)" using l1(5,6) l2(2) len by auto
    fix s g
    assume a: "in_regfile E (hd ?L) s g" "g_pc g = g_pc g0"
    obtain g' where g': "execute_normal T H k g = Some (take k pcs, g')"
      using execute_normal_pcs [OF run _ a(2)] l1(5) len by auto
    have "guest_rep E (hd ?L) l0 s g" using l0(4) a len n by simp
    from l1(7) [OF this g'] have "guest_rep E (?L ! k) l1 (exec c1 s) g'" "outer E s (exec c1 s)" by (simp_all add: take_map)
    with l2(5) [OF this(1)] l2(4) g' outer_trans
    show "\<exists>g'. execute_normal T H k g = Some (take k pcs, g') \<and> g_pc g' = l_comp_pc_p l2 \<and>
        in_regfile E (?L ! k) (exec (c1 @ c2) s) g' \<and> outer E s (exec (c1 @ c2) s)"
      by (auto simp: exec_append l1(4))
  qed
qed

text \<open>With enough room in the code cache the size of the cache does not matter.\<close>

lemma compile_insns_room:
  assumes "op_ready (64 * length ops + t) E (hd (liveflags T compnf ops m)) l" "supported T ops"
    "nf_sound_block T compnf ops m" "fewer m FLAG_ALL"
  shows "\<exists>N l'. \<forall>room>N. compile_insns T H E compnf room (zip ops (tl (liveflags T compnf ops m))) l = Some l'"
  using assms(1-3)
proof (induction ops arbitrary: l)
  case (Cons op ops)
  let ?L = "liveflags T compnf ops m" and ?b = "live_before T compnf op (hd (liveflags T compnf ops m))"
  have LL: "liveflags T compnf (op # ops) m = ?b # ?L" by (simp add: Let_def)
  have z: "zip (op # ops) ?L = (op, hd ?L) # zip ops (tl ?L)" by (simp add: zip_hd_tl)
  obtain h f where h: "compfunctbl T op = Some h" "cpufunctbl T op = Some f"
    using Cons.prems(2) has_step by (fastforce simp: supported_def)
  have sup: "supported T ops" "nf_sound_block T compnf ops m" "nf_sound T compnf op (hd ?L)"
    using Cons.prems(2,3) unfolding nf_sound_block_def LL list.sel z by (simp_all add: supported_def)
  have R: "op_ready (64 + (64 * length ops + t)) E ?b l" using Cons.prems(1) by (simp add: Let_def ac_simps)
  obtain l1 where l1: "compile_insn T H E compnf op (hd ?L) l = Some l1" "op_ready (64 * length ops + t) E (hd ?L) l1"
    using compile_insn_ok [OF R h liveflags_fewer [OF sup(1) assms(4)] sup(3)] by metis
  obtain N l' where N: "\<forall>room>N. compile_insns T H E compnf room (zip ops (tl ?L)) l1 = Some l'"
    using Cons.IH [OF l1(2) sup(1,2)] by blast
  show ?case
    unfolding LL list.sel z using N l1(1)
    by (intro exI [of _ "max N (length (l_code l))"] exI [of _ l']) simp
qed simp

lemma compile_block_room:
  assumes ok: "env_ok E" and nf: "\<And>r. r < VREGS \<Longrightarrow> rs_needflush (l_state l r) \<noteq> NF_HANDLER"
    and run: "execute_normal T H n g0 = Some (pcs, g1)" and n: "0 < n" "n \<le> MAXRUN"
    and sup: "supported T (map (DO_GET_OPCODE H) pcs)" "nf_sound_block T compnf (map (DO_GET_OPCODE H) pcs) m" "fewer m FLAG_ALL"
  shows "\<exists>N l'. \<forall>room>N. compile_block_body T H E compnf room m pcs l = Some l' \<and> length (l_code l') < room"
proof -
  let ?ops = "map (DO_GET_OPCODE H) pcs" and ?l = "l\<lparr>l_comp_pc_p := hd pcs\<rparr>"
  let ?L = "liveflags T compnf ?ops m"
  have t: "64 * length ?ops + 16 < 1999999990" using execute_normal_length [OF run] n by (simp add: MAXRUN_def)
  have nf': "r < VREGS \<Longrightarrow> rs_needflush (l_state ?l r) \<noteq> NF_HANDLER" for r using nf by simp
  obtain l0 where l0: "init_comp E ?l = Some l0" "op_ready (64 * length ?ops + 16) E (hd ?L) l0"
    using init_comp_guest [OF ok nf' t, of "hd ?L"] by metis
  obtain N l1 where N: "\<forall>room>N. compile_insns T H E compnf room (zip ?ops (tl ?L)) l0 = Some l1"
    using compile_insns_room [OF l0(2) sup, of H] by blast
  have b: "compile_block_body T H E compnf room m pcs l = flush E True l1" if "N < room" for room
    using l0(1) N that by (simp add: compile_block_body_def Let_def)
  obtain l2 where "flush E True l1 = Some l2"
    using compile_block_ok [OF ok nf run n sup, of "Suc N"] b [of "Suc N"] by auto
  with b show ?thesis by (intro exI [of _ "max N (length (l_code l2))"] exI [of _ l2]) auto
qed

lemma compile_block_all:
  assumes ok: "env_ok E" and nf: "\<And>r. r < VREGS \<Longrightarrow> rs_needflush (l_state l r) \<noteq> NF_HANDLER"
    and run: "execute_normal T H n g0 = Some (pcs, g1)" and n: "0 < n" "n \<le> MAXRUN"
    and sup: "supported T (map (DO_GET_OPCODE H) pcs)" "nf_sound_block T compnf (map (DO_GET_OPCODE H) pcs) m" "fewer m FLAG_ALL"
  shows "\<exists>N l' c. l_code l' = l_code l @ c \<and> (\<forall>room>N. compile_block_body T H E compnf room m pcs l = Some l') \<and>
    (\<forall>s g. in_regfile E (hd (liveflags T compnf (map (DO_GET_OPCODE H) pcs) m)) s g \<longrightarrow> g_pc g = g_pc g0 \<longrightarrow>
      (\<exists>g'. execute_normal T H n g = Some (pcs, g') \<and> g_pc g' = l_comp_pc_p l' \<and> in_regfile E m (exec c s) g' \<and> outer E s (exec c s)))"
proof -
  let ?ops = "map (DO_GET_OPCODE H) pcs"
  obtain N l' where N: "\<And>room. N < room \<Longrightarrow> compile_block_body T H E compnf room m pcs l = Some l' \<and> length (l_code l') < room"
    using compile_block_room [OF ok nf run n sup] by blast
  have last: "liveflags T compnf ops m ! length ops = m" for ops by (induction ops) (simp_all add: Let_def)
  have len: "length pcs = n" using execute_normal_length [OF run] by simp
  from compile_block_ok [OF ok nf run n sup, of "Suc N"]
  obtain c k where c: "l_code l' = l_code l @ c" "k = n"
    "\<forall>s g. in_regfile E (hd (liveflags T compnf ?ops m)) s g \<longrightarrow> g_pc g = g_pc g0 \<longrightarrow>
      (\<exists>g'. execute_normal T H k g = Some (take k pcs, g') \<and> g_pc g' = l_comp_pc_p l' \<and>
        in_regfile E (liveflags T compnf ?ops m ! k) (exec c s) g' \<and> outer E s (exec c s))"
    using N [of "Suc N"] by fastforce
  have "liveflags T compnf ?ops m ! n = m" using last [of ?ops] len by simp
  with c len N show ?thesis by (intro exI [of _ N] exI [of _ l'] exI [of _ c]) simp
qed

end

end
