(* ===== verification/Block_Cache.thy ===== *)
theory Block_Cache
  imports Links Jit_Compile
begin

unbundle bit_operations_syntax

text \<open>
  The cache of compiled blocks (compemu_support_arm.cpp, compemu_arm.h): the records of the blocks,
  the table of entry points indexed by the low bits of the address, the lists that share a table
  entry, the lists of the active and of the dormant blocks, the jumps that chain one block to the
  next, the pool of free records, and the operations that look blocks up, invalidate them, flush the
  cache and check the checksum of a block whose code may have changed.

  A pointer to a block is the number of its record. A handler is an entry point: a routine made at
  start-up, or an offset in the code cache. An operation returns \<open>None\<close> where the sources abort.
\<close>

section \<open>Data\<close>

type_synonym bid = nat

datatype handler = HNull | Popall_execute_normal | Popall_check_checksum | Code nat

datatype bi_status = BI_INVALID | BI_ACTIVE | BI_NEED_RECOMP | BI_NEED_CHECK | BI_CHECKING
  | BI_COMPILING | BI_FINALIZING

record checksum_info =
  ci_start_p :: u64
  ci_length :: u32

record dependency =
  dp_jmp_off :: "nat option"
  dp_target :: "bid option"
  dp_source :: "bid option"

record blockinfo =
  bi_count :: int
  bi_direct_handler_to_use :: handler
  bi_handler_to_use :: handler
  bi_handler :: handler
  bi_direct_handler :: handler
  bi_direct_pen :: handler
  bi_direct_pcc :: handler
  bi_nexthandler :: nat
  bi_pc_p :: u64
  bi_c1 :: u32
  bi_c2 :: u32
  bi_csi :: "checksum_info list"
  bi_optlevel :: nat
  bi_needed_flags :: u8
  bi_status :: bi_status
  bi_dep :: "nat \<Rightarrow> dependency"

datatype list_root = Active | Dormant

text \<open>
  The table \<^verbatim>\<open>cache_tags\<close> holds a handler in its even entries and the head of a list of blocks in
  its odd ones, since the processor only executes from even addresses; the two kinds of entry are
  \<open>bc_handler\<close> and the roots of \<open>bc_cl\<close>. The links of the lists are \<open>next_same_cl\<close>, \<open>prev_same_cl_p\<close>
  (\<open>bc_cl\<close>), \<open>next\<close>, \<open>prev_p\<close> (\<open>bc_list\<close>), and those of the two dependencies of each block
  (\<open>bc_deps\<close>, with \<open>deplist\<close> as their roots). \<open>bc_jumps\<close> are the targets of the jumps in the code cache
  that \<^verbatim>\<open>write_jmp_target\<close> has written (how it encodes them is in \<^verbatim>\<open>Jit_Jump\<close>), \<open>bc_room\<close> the number of pools the host still grants.
\<close>

record bcache =
  bc_handler :: "nat \<Rightarrow> handler"
  bc_cl :: "(nat, bid) links"
  bc_list :: "(list_root, bid) links"
  bc_deps :: "(bid, bid \<times> nat) links"
  bc_blk :: "bid \<Rightarrow> blockinfo"
  bc_hold :: "nat \<Rightarrow> bid option"
  bc_chunks :: "bid option"
  bc_pools :: nat
  bc_room :: nat
  bc_compile_p :: nat
  bc_jumps :: "nat \<Rightarrow> handler"

definition upd_blk :: "bid \<Rightarrow> (blockinfo \<Rightarrow> blockinfo) \<Rightarrow> bcache \<Rightarrow> bcache" where
  "upd_blk b f s = s\<lparr>bc_blk := (bc_blk s)(b := f (bc_blk s b))\<rparr>"

definition TAGMASK :: u64 where "TAGMASK = 0xffff"

definition cacheline :: "u64 \<Rightarrow> nat" where
  "cacheline x = unat (x AND TAGMASK)"

definition MAX_HOLD_BI :: nat where "MAX_HOLD_BI = 3"

definition optcount :: "int list" where
  "optcount = [4, 0, 0, 0, 0, 0, -1, -1, -1, -1]"

section \<open>Looking blocks up\<close>

definition get_blockinfo :: "nat \<Rightarrow> bcache \<Rightarrow> bid option" where
  "get_blockinfo cl s = lk_root (bc_cl s) (cl + 1)"

partial_function (option) find_pc :: "u64 \<Rightarrow> bid option \<Rightarrow> bcache \<Rightarrow> bid option option" where
  [code]: "find_pc addr bi s = (case bi of None \<Rightarrow> Some None
     | Some b \<Rightarrow> if bi_pc_p (bc_blk s b) = addr then Some (Some b) else find_pc addr (lk_next (bc_cl s) b) s)"

definition get_blockinfo_addr :: "u64 \<Rightarrow> bcache \<Rightarrow> bid option option" where
  "get_blockinfo_addr addr s = find_pc addr (get_blockinfo (cacheline addr) s) s"

section \<open>Lists\<close>

definition remove_from_cl_list :: "bid \<Rightarrow> bcache \<Rightarrow> bcache" where
  "remove_from_cl_list bi s =
    (let cl = cacheline (bi_pc_p (bc_blk s bi));
         s = s\<lparr>bc_cl := unlink bi (bc_cl s)\<rparr>
     in s\<lparr>bc_handler := (bc_handler s)(cl :=
          case lk_root (bc_cl s) (cl + 1) of Some h \<Rightarrow> bi_handler_to_use (bc_blk s h) | None \<Rightarrow> Popall_execute_normal)\<rparr>)"

definition remove_from_list :: "bid \<Rightarrow> bcache \<Rightarrow> bcache" where
  "remove_from_list bi s = s\<lparr>bc_list := unlink bi (bc_list s)\<rparr>"

definition add_to_cl_list :: "bid \<Rightarrow> bcache \<Rightarrow> bcache" where
  "add_to_cl_list bi s =
    (let cl = cacheline (bi_pc_p (bc_blk s bi))
     in s\<lparr>bc_cl := link_front (cl + 1) bi (bc_cl s),
          bc_handler := (bc_handler s)(cl := bi_handler_to_use (bc_blk s bi))\<rparr>)"

definition raise_in_cl_list :: "bid \<Rightarrow> bcache \<Rightarrow> bcache" where
  "raise_in_cl_list bi s = add_to_cl_list bi (remove_from_cl_list bi s)"

definition add_to_active :: "bid \<Rightarrow> bcache \<Rightarrow> bcache" where
  "add_to_active bi s = s\<lparr>bc_list := link_front Active bi (bc_list s)\<rparr>"

definition add_to_dormant :: "bid \<Rightarrow> bcache \<Rightarrow> bcache" where
  "add_to_dormant bi s = s\<lparr>bc_list := link_front Dormant bi (bc_list s)\<rparr>"

definition remove_dep :: "bid \<times> nat \<Rightarrow> bcache \<Rightarrow> bcache" where
  "remove_dep d s =
    (let L = unlink d (bc_deps s)
     in s\<lparr>bc_deps := L\<lparr>lk_prev := (lk_prev L)(d := None), lk_next := (lk_next L)(d := None)\<rparr>\<rparr>)"

definition remove_deps :: "bid \<Rightarrow> bcache \<Rightarrow> bcache" where
  "remove_deps bi s = remove_dep (bi, 1) (remove_dep (bi, 0) s)"

section \<open>Jumps between blocks\<close>

definition write_jmp_target :: "nat \<Rightarrow> handler \<Rightarrow> bcache \<Rightarrow> bcache" where
  "write_jmp_target jmpaddr a s = s\<lparr>bc_jumps := (bc_jumps s)(jmpaddr := a)\<rparr>"

definition adjust_jmpdep :: "nat \<Rightarrow> handler \<Rightarrow> bcache \<Rightarrow> bcache" where
  "adjust_jmpdep jmp_off a s = write_jmp_target jmp_off a s"

definition dep_of :: "bid \<times> nat \<Rightarrow> bcache \<Rightarrow> dependency" where
  "dep_of d s = bi_dep (bc_blk s (fst d)) (snd d)"

partial_function (option) adjust_all :: "handler \<Rightarrow> (bid \<times> nat) option \<Rightarrow> bcache \<Rightarrow> bcache option" where
  [code]: "adjust_all dh x s = (case x of None \<Rightarrow> Some s
     | Some d \<Rightarrow>
         (let s = (case dp_jmp_off (dep_of d s) of None \<Rightarrow> s | Some a \<Rightarrow> adjust_jmpdep a dh s)
          in adjust_all dh (lk_next (bc_deps s) d) s))"

definition set_dhtu :: "bid \<Rightarrow> handler \<Rightarrow> bcache \<Rightarrow> bcache option" where
  "set_dhtu bi dh s =
    (if dh \<noteq> bi_direct_handler_to_use (bc_blk s bi)
     then do { s \<leftarrow> adjust_all dh (lk_root (bc_deps s) bi) s;
               Some (upd_blk bi (bi_direct_handler_to_use_update (\<lambda>_. dh)) s) }
     else Some s)"

definition clear_dep :: "dependency \<Rightarrow> dependency" where
  "clear_dep d = d\<lparr>dp_jmp_off := None, dp_target := None\<rparr>"

definition invalidate_block :: "bid \<Rightarrow> bcache \<Rightarrow> bcache option" where
  "invalidate_block bi s = do {
     let s = upd_blk bi (\<lambda>x. x\<lparr>bi_optlevel := 0, bi_count := optcount ! 0 - 1, bi_handler := HNull,
               bi_handler_to_use := Popall_execute_normal, bi_direct_handler := HNull\<rparr>) s;
     s \<leftarrow> set_dhtu bi (bi_direct_pen (bc_blk s bi)) s;
     let s = upd_blk bi (\<lambda>x. x\<lparr>bi_needed_flags := 0xff, bi_status := BI_INVALID,
               bi_dep := (bi_dep x)(0 := clear_dep (bi_dep x 0), 1 := clear_dep (bi_dep x 1))\<rparr>) s;
     Some (remove_deps bi s) }"

definition create_jmpdep :: "bid \<Rightarrow> nat \<Rightarrow> nat \<Rightarrow> u64 \<Rightarrow> bcache \<Rightarrow> bcache option" where
  "create_jmpdep bi i jmpaddr target s = do {
     t \<leftarrow> get_blockinfo_addr target s;
     tbi \<leftarrow> t;
     let s = upd_blk bi (\<lambda>x. x\<lparr>bi_dep := (bi_dep x)(i := (bi_dep x i)\<lparr>dp_jmp_off := Some jmpaddr,
               dp_source := Some bi, dp_target := Some tbi\<rparr>)\<rparr>) s;
     Some (s\<lparr>bc_deps := link_front tbi (bi, i) (bc_deps s)\<rparr>) }"

definition block_need_recompile :: "bid \<Rightarrow> bcache \<Rightarrow> bcache option" where
  "block_need_recompile bi s = do {
     let cl = cacheline (bi_pc_p (bc_blk s bi));
     s \<leftarrow> set_dhtu bi (bi_direct_pen (bc_blk s bi)) s;
     let s = upd_blk bi (\<lambda>x. x\<lparr>bi_direct_handler := bi_direct_pen x, bi_handler_to_use := Popall_execute_normal,
               bi_handler := Popall_execute_normal\<rparr>) s;
     let s = (if get_blockinfo cl s = Some bi
              then s\<lparr>bc_handler := (bc_handler s)(cl := Popall_execute_normal)\<rparr> else s);
     Some (upd_blk bi (bi_status_update (\<lambda>_. BI_NEED_RECOMP)) s) }"

section \<open>Records of blocks\<close>

definition kPoolSize :: "nat \<Rightarrow> nat" where
  "kPoolSize n = 1 + (16384 - n - 8) div n"

definition sizeof_blockinfo :: nat where "sizeof_blockinfo = 216"

definition release :: "bid \<Rightarrow> bcache \<Rightarrow> bcache" where
  "release chunk s = s\<lparr>bc_list := (bc_list s)\<lparr>lk_next := (lk_next (bc_list s))(chunk := bc_chunks s)\<rparr>,
                       bc_chunks := Some chunk\<rparr>"

definition grow :: "bcache \<Rightarrow> bcache option" where
  "grow s =
    (if bc_room s = 0 then None
     else let k = kPoolSize sizeof_blockinfo;
              s = fold release [bc_pools s * k ..< (bc_pools s + 1) * k] s
          in Some (s\<lparr>bc_pools := bc_pools s + 1, bc_room := bc_room s - 1\<rparr>))"

definition acquire :: "bcache \<Rightarrow> (bid \<times> bcache) option" where
  "acquire s = do {
     s \<leftarrow> (if bc_chunks s = None then grow s else Some s);
     chunk \<leftarrow> bc_chunks s;
     Some (chunk, s\<lparr>bc_chunks := lk_next (bc_list s) chunk\<rparr>) }"

definition alloc_blockinfo :: "bcache \<Rightarrow> (bid \<times> bcache) option" where
  "alloc_blockinfo s = do { (bi, s) \<leftarrow> acquire s; Some (bi, upd_blk bi (bi_csi_update (\<lambda>_. [])) s) }"

definition free_blockinfo :: "bid \<Rightarrow> bcache \<Rightarrow> bcache" where
  "free_blockinfo bi s = release bi (upd_blk bi (bi_csi_update (\<lambda>_. [])) s)"

text \<open>
  The environment: where the ROMs are, the kind of control flow of an opcode, the tables of the
  translator, the preferences, the size of the code cache, and the length of the two stubs of a block
  (\<^verbatim>\<open>compemu_raw_execute_normal\<close>, \<^verbatim>\<open>compemu_raw_check_checksum\<close>), which depends on the
  address of its record.
\<close>

record cenv =
  ce_kickmem :: u64
  ce_rtarea :: u64
  ce_cflow :: "u32 \<Rightarrow> u32"
  ce_tables :: comp_tables
  ce_compnf :: bool
  ce_cpu_compatible :: bool
  ce_constjump :: bool
  ce_max_compile :: nat
  ce_pen_len :: "bid \<Rightarrow> nat"
  ce_pcc_len :: "bid \<Rightarrow> nat"

definition FLAG_ALL8 :: u8 where "FLAG_ALL8 = ucast FLAG_ALL"

definition prepare_block :: "cenv \<Rightarrow> bid \<Rightarrow> bcache \<Rightarrow> bcache" where
  "prepare_block E bi s =
    (let pen = bc_compile_p s; pcc = pen + ce_pen_len E bi;
         s = upd_blk bi (\<lambda>x. x\<lparr>bi_direct_pen := Code pen, bi_direct_pcc := Code pcc,
               bi_needed_flags := FLAG_ALL8, bi_status := BI_INVALID\<rparr>) s;
         L = bc_deps s
     in s\<lparr>bc_compile_p := pcc + ce_pcc_len E bi,
          bc_deps := L\<lparr>lk_root := (lk_root L)(bi := None),
            lk_prev := (lk_prev L)((bi, 0) := None, (bi, 1) := None),
            lk_next := (lk_next L)((bi, 0) := None, (bi, 1) := None)\<rparr>\<rparr>)"

fun alloc_held :: "cenv \<Rightarrow> nat list \<Rightarrow> bcache \<Rightarrow> bcache option" where
  "alloc_held E [] s = Some s"
| "alloc_held E (i # is) s =
    (if bc_hold s i \<noteq> None then Some s
     else do { (bi, s) \<leftarrow> alloc_blockinfo s;
               alloc_held E is (prepare_block E bi (s\<lparr>bc_hold := (bc_hold s)(i := Some bi)\<rparr>)) })"

definition alloc_blockinfos :: "cenv \<Rightarrow> bcache \<Rightarrow> bcache option" where
  "alloc_blockinfos E s = alloc_held E [0..<MAX_HOLD_BI] s"

fun take_held :: "u64 \<Rightarrow> nat list \<Rightarrow> bcache \<Rightarrow> (bid \<times> bcache) option" where
  "take_held addr [] s = None"
| "take_held addr (i # is) s = (case bc_hold s i of
     None \<Rightarrow> take_held addr is s
   | Some bi \<Rightarrow> do {
       let s = s\<lparr>bc_hold := (bc_hold s)(i := None)\<rparr>;
       s \<leftarrow> invalidate_block bi (upd_blk bi (bi_pc_p_update (\<lambda>_. addr)) s);
       Some (bi, add_to_cl_list bi (add_to_active bi s)) })"

definition get_blockinfo_addr_new :: "u64 \<Rightarrow> bcache \<Rightarrow> (bid \<times> bcache) option" where
  "get_blockinfo_addr_new addr s = do {
     bi \<leftarrow> get_blockinfo_addr addr s;
     (case bi of Some b \<Rightarrow> Some (b, s) | None \<Rightarrow> take_held addr [0..<MAX_HOLD_BI] s) }"

section \<open>Checksums\<close>

definition host_long :: "(u64 \<Rightarrow> u8) \<Rightarrow> u64 \<Rightarrow> u32" where
  "host_long H p = ucast (H p) OR push_bit 8 (ucast (H (p + 1))) OR push_bit 16 (ucast (H (p + 2)))
     OR push_bit 24 (ucast (H (p + 3)))"

definition MAX_CHECKSUM_LEN :: int where "MAX_CHECKSUM_LEN = 2048"

fun sum_words :: "(u64 \<Rightarrow> u8) \<Rightarrow> u64 \<Rightarrow> nat \<Rightarrow> u32 \<times> u32 \<Rightarrow> u32 \<times> u32" where
  "sum_words H pos 0 k = k"
| "sum_words H pos (Suc len) (k1, k2) =
    sum_words H (pos + 4) (Suc len - 4) (k1 + host_long H pos, k2 XOR host_long H pos)"

definition sum_info :: "(u64 \<Rightarrow> u8) \<Rightarrow> checksum_info \<Rightarrow> u32 \<times> u32 \<Rightarrow> u32 \<times> u32" where
  "sum_info H csi k =
    (let len = sint (ci_length csi + ucast (ci_start_p csi AND 3));
         pos = ci_start_p csi AND NOT 3
     in if 0 \<le> len \<and> len \<le> MAX_CHECKSUM_LEN then sum_words H pos (nat len) k else k)"

definition calc_checksum :: "(u64 \<Rightarrow> u8) \<Rightarrow> bid \<Rightarrow> bcache \<Rightarrow> (u32 \<times> u32) option" where
  "calc_checksum H bi s =
    (let csi = bi_csi (bc_blk s bi) in if csi = [] then None else Some (fold (sum_info H) csi (0, 0)))"

text \<open>
  The check of a block follows the jumps of the block to the blocks it leads to. It stops where a
  block is not in the state \<open>BI_NEED_CHECK\<close>; the model counts the calls down with fuel.
\<close>

fun block_check_checksum :: "nat \<Rightarrow> (u64 \<Rightarrow> u8) \<Rightarrow> bid \<Rightarrow> bcache \<Rightarrow> (bool \<times> bcache) option"
  and called_check_checksum :: "nat \<Rightarrow> (u64 \<Rightarrow> u8) \<Rightarrow> nat list \<Rightarrow> bid \<Rightarrow> bcache \<Rightarrow> (bool \<times> bcache) option"
where
  "block_check_checksum 0 H bi s = None"
| "block_check_checksum (Suc n) H bi s =
    (if bi_status (bc_blk s bi) \<noteq> BI_NEED_CHECK then Some (True, s)
     else do {
       (c1, c2) \<leftarrow> (if bi_c1 (bc_blk s bi) \<noteq> 0 \<or> bi_c2 (bc_blk s bi) \<noteq> 0 then calc_checksum H bi s else Some (1, 1));
       (isgood, s) \<leftarrow>
         (if c1 = bi_c1 (bc_blk s bi) \<and> c2 = bi_c2 (bc_blk s bi)
          then do {
            let s = upd_blk bi (\<lambda>x. x\<lparr>bi_handler_to_use := bi_handler x\<rparr>) s;
            s \<leftarrow> set_dhtu bi (bi_direct_handler (bc_blk s bi)) s;
            called_check_checksum n H [0, 1] bi (upd_blk bi (bi_status_update (\<lambda>_. BI_CHECKING)) s) }
          else Some (False, s));
       if isgood
       then Some (True, upd_blk bi (bi_status_update (\<lambda>_. BI_ACTIVE))
                   (raise_in_cl_list bi (add_to_active bi (remove_from_list bi s))))
       else do { s \<leftarrow> invalidate_block bi s; Some (False, raise_in_cl_list bi s) } })"
| "called_check_checksum n H [] bi s = Some (True, s)"
| "called_check_checksum n H (i # is) bi s =
    (if dp_jmp_off (bi_dep (bc_blk s bi) i) \<noteq> None
     then do {
       t \<leftarrow> dp_target (bi_dep (bc_blk s bi) i);
       (isgood, s) \<leftarrow> block_check_checksum n H t s;
       if isgood then called_check_checksum n H is bi s else Some (False, s) }
     else called_check_checksum n H is bi s)"

end
