(* ===== verification/Block_Deps.thy ===== *)
theory Block_Deps
  imports Block_Cache
begin

text \<open>
  The jumps from block to block. The invariant \<open>deps_ok\<close> says what the lists of dependencies hold and
  that every chained jump leads to the handler its target uses at the moment; the lemmas show how the
  operations on dependencies keep it.
\<close>

section \<open>The invariant\<close>

abbreviation resident :: "(list_root \<Rightarrow> bid list) \<Rightarrow> bid set" where
  "resident A \<equiv> members UNIV A"

definition linked :: "(bid \<Rightarrow> (bid \<times> nat) list) \<Rightarrow> (bid \<times> nat) set" where
  "linked D = (\<Union>t. set (D t))"

definition jump_ok :: "nat \<Rightarrow> bcache \<Rightarrow> bid \<times> nat \<Rightarrow> bid \<Rightarrow> bool" where
  "jump_ok lim s d t \<longleftrightarrow> dp_target (dep_of d s) = Some t \<and>
     (\<exists>a < lim. dp_jmp_off (dep_of d s) = Some a \<and> bc_jumps s a = bi_direct_handler_to_use (bc_blk s t))"

definition loose :: "bcache \<Rightarrow> bid \<times> nat \<Rightarrow> bool" where
  "loose s d \<longleftrightarrow> lk_prev (bc_deps s) d = None \<and> lk_next (bc_deps s) d = None"

definition deps_ok :: "nat \<Rightarrow> bcache \<Rightarrow> bid set \<Rightarrow> bid set \<Rightarrow> (bid \<Rightarrow> (bid \<times> nat) list) \<Rightarrow> bool" where
  "deps_ok lim s V R D \<longleftrightarrow> V \<subseteq> R \<and>
     links_on (R) (bc_deps s) D \<and>
     (\<forall>t. D t \<noteq> [] \<longrightarrow> t \<in> V) \<and>
     (\<forall>t. \<forall>d \<in> set (D t). fst d \<in> V \<and> snd d < 2 \<and> jump_ok lim s d t) \<and>
     (\<forall>d \<in> linked D. \<forall>d' \<in> linked D. dp_jmp_off (dep_of d s) = dp_jmp_off (dep_of d' s) \<longrightarrow> d = d') \<and>
     (\<forall>b \<in> R. \<forall>i < 2. (b, i) \<notin> linked D \<longrightarrow> loose s (b, i)) \<and>
     (\<forall>b \<in> V. \<forall>i < 2. (b, i) \<notin> linked D \<longrightarrow> dp_jmp_off (dep_of (b, i) s) = None \<and> dp_target (dep_of (b, i) s) = None)"

lemma upd_blk_simps [simp]:
  "bc_handler (upd_blk b f s) = bc_handler s" "bc_cl (upd_blk b f s) = bc_cl s" "bc_list (upd_blk b f s) = bc_list s"
  "bc_deps (upd_blk b f s) = bc_deps s" "bc_hold (upd_blk b f s) = bc_hold s" "bc_chunks (upd_blk b f s) = bc_chunks s"
  "bc_pools (upd_blk b f s) = bc_pools s" "bc_room (upd_blk b f s) = bc_room s"
  "bc_compile_p (upd_blk b f s) = bc_compile_p s" "bc_jumps (upd_blk b f s) = bc_jumps s"
  "bc_blk (upd_blk b f s) = (bc_blk s)(b := f (bc_blk s b))"
  by (simp_all add: upd_blk_def)

lemma deps_okD:
  assumes "deps_ok lim s V R D"
  shows "links_on (R) (bc_deps s) D"
    "\<And>t. D t \<noteq> [] \<Longrightarrow> t \<in> V"
    "\<And>t d. d \<in> set (D t) \<Longrightarrow> fst d \<in> V" "\<And>t d. d \<in> set (D t) \<Longrightarrow> snd d < 2"
    "\<And>t d. d \<in> set (D t) \<Longrightarrow> jump_ok lim s d t"
    "\<And>d d'. d \<in> linked D \<Longrightarrow> d' \<in> linked D \<Longrightarrow> dp_jmp_off (dep_of d s) = dp_jmp_off (dep_of d' s) \<Longrightarrow> d = d'"
    "\<And>b i. b \<in> R \<Longrightarrow> i < 2 \<Longrightarrow> (b, i) \<notin> linked D \<Longrightarrow> loose s (b, i)"
    "\<And>b i. b \<in> V \<Longrightarrow> i < 2 \<Longrightarrow> (b, i) \<notin> linked D \<Longrightarrow>
       dp_jmp_off (dep_of (b, i) s) = None \<and> dp_target (dep_of (b, i) s) = None"
    "V \<subseteq> R"
  using assms unfolding deps_ok_def by blast+

lemma deps_okI:
  assumes "links_on (R) (bc_deps s) D" "\<And>t. D t \<noteq> [] \<Longrightarrow> t \<in> V"
    "\<And>t d. d \<in> set (D t) \<Longrightarrow> fst d \<in> V \<and> snd d < 2" "\<And>t d. d \<in> set (D t) \<Longrightarrow> jump_ok lim s d t"
    "\<And>d d'. d \<in> linked D \<Longrightarrow> d' \<in> linked D \<Longrightarrow> dp_jmp_off (dep_of d s) = dp_jmp_off (dep_of d' s) \<Longrightarrow> d = d'"
    "\<And>b i. b \<in> R \<Longrightarrow> i < 2 \<Longrightarrow> (b, i) \<notin> linked D \<Longrightarrow> loose s (b, i)"
    "\<And>b i. b \<in> V \<Longrightarrow> i < 2 \<Longrightarrow> (b, i) \<notin> linked D \<Longrightarrow>
       dp_jmp_off (dep_of (b, i) s) = None \<and> dp_target (dep_of (b, i) s) = None"
    "V \<subseteq> R"
  shows "deps_ok lim s V R D"
  unfolding deps_ok_def using assms(1-4) assms(6-8) assms(5) by (intro conjI allI ballI impI) simp_all

text \<open>A change of the state that leaves the parts the invariant reads.\<close>

lemma deps_ok_cong:
  assumes "bc_deps s' = bc_deps s" "bc_jumps s' = bc_jumps s"
    and "\<And>b. b \<in> V \<Longrightarrow> bi_dep (bc_blk s' b) = bi_dep (bc_blk s b)"
    and "\<And>b. b \<in> V \<Longrightarrow> bi_direct_handler_to_use (bc_blk s' b) = bi_direct_handler_to_use (bc_blk s b)"
    and "deps_ok lim s V R D"
  shows "deps_ok lim s' V R D"
proof -
  note d = deps_okD [OF assms(5)]
  have e: "dep_of d s' = dep_of d s" if "fst d \<in> V" for d using assms(3) [OF that] by (simp add: dep_of_def)
  have l: "fst d \<in> V" if "d \<in> linked D" for d using that d(3) unfolding linked_def by blast
  have j: "jump_ok lim s' d t" if "d \<in> set (D t)" for d t
  proof -
    have "t \<in> V" using that by (intro d(2)) auto
    then show ?thesis using d(5) [OF that] e [OF d(3) [OF that]] assms(2,4) by (auto simp: jump_ok_def)
  qed
  have u: "dep_of (b, i) s' = dep_of (b, i) s" if "b \<in> V" for b i using e [of "(b, i)"] that by simp
  show ?thesis unfolding deps_ok_def
    using d(1-4,6,7,8,9) j e l u assms(1) by (auto simp: loose_def)
qed

lemma deps_ok_mono: "deps_ok lim s V R D \<Longrightarrow> lim \<le> lim' \<Longrightarrow> deps_ok lim' s V R D"
  unfolding deps_ok_def jump_ok_def by (meson less_le_trans)

section \<open>Redirecting the jumps to a block\<close>

lemma adjust_all_chain:
  assumes "chain (bc_deps s) p x ds" "\<And>d. d \<in> set ds \<Longrightarrow> \<exists>a. dp_jmp_off (dep_of d s) = Some a"
  shows "\<exists>J. adjust_all dh x s = Some (s\<lparr>bc_jumps := J\<rparr>) \<and>
    (\<forall>a. J a = (if \<exists>d \<in> set ds. dp_jmp_off (dep_of d s) = Some a then dh else bc_jumps s a))"
  using assms
proof (induction ds arbitrary: p x s)
  case Nil
  then show ?case by (intro exI [of _ "bc_jumps s"]) (simp add: adjust_all.simps)
next
  case (Cons d ds)
  obtain a where a: "dp_jmp_off (dep_of d s) = Some a" using Cons.prems(2) [of d] by auto
  let ?s = "s\<lparr>bc_jumps := (bc_jumps s)(a := dh)\<rparr>"
  have dep: "dep_of e ?s = dep_of e s" for e by (simp add: dep_of_def)
  have "\<exists>J. adjust_all dh (lk_next (bc_deps s) d) ?s = Some (?s\<lparr>bc_jumps := J\<rparr>) \<and>
    (\<forall>c. J c = (if \<exists>e \<in> set ds. dp_jmp_off (dep_of e ?s) = Some c then dh else bc_jumps ?s c))"
    using Cons.prems by (intro Cons.IH) (auto simp: dep)
  then obtain J where J: "adjust_all dh (lk_next (bc_deps s) d) ?s = Some (s\<lparr>bc_jumps := J\<rparr>)"
    "\<And>c. J c = (if \<exists>e \<in> set ds. dp_jmp_off (dep_of e s) = Some c then dh else ((bc_jumps s)(a := dh)) c)"
    by (auto simp: dep)
  have "x = Some d" using Cons.prems(1) by simp
  then have "adjust_all dh x s = adjust_all dh (lk_next (bc_deps s) d) ?s"
    by (subst adjust_all.simps) (simp add: a adjust_jmpdep_def write_jmp_target_def)
  then have "adjust_all dh x s = Some (s\<lparr>bc_jumps := J\<rparr>)" using J(1) by simp
  moreover have "J c = (if \<exists>e \<in> set (d # ds). dp_jmp_off (dep_of e s) = Some c then dh else bc_jumps s c)" for c
    unfolding J(2) using a by (cases "c = a") simp_all
  ultimately show ?case by blast
qed

lemma set_dhtu_ok:
  assumes "deps_ok lim s V R D" "b \<in> R"
  shows "\<exists>J. set_dhtu b dh s = Some (upd_blk b (bi_direct_handler_to_use_update (\<lambda>_. dh)) (s\<lparr>bc_jumps := J\<rparr>)) \<and>
    deps_ok lim (upd_blk b (bi_direct_handler_to_use_update (\<lambda>_. dh)) (s\<lparr>bc_jumps := J\<rparr>)) V R D"
proof (cases "dh = bi_direct_handler_to_use (bc_blk s b)")
  case True
  then have u: "upd_blk b (bi_direct_handler_to_use_update (\<lambda>_. dh)) (s\<lparr>bc_jumps := bc_jumps s\<rparr>) = s"
    by (simp add: upd_blk_def)
  show ?thesis by (rule exI [of _ "bc_jumps s"], unfold u) (use True assms(1) in \<open>simp add: set_dhtu_def\<close>)
next
  case False
  note d = deps_okD [OF assms(1)]
  have "chain (bc_deps s) (Root b) (lk_root (bc_deps s) b) (D b)" using links_onD(1) [OF d(1), of b] assms(2) by auto
  moreover have "\<And>e. e \<in> set (D b) \<Longrightarrow> \<exists>a. dp_jmp_off (dep_of e s) = Some a" using d(5) unfolding jump_ok_def by blast
  ultimately obtain J where J: "adjust_all dh (lk_root (bc_deps s) b) s = Some (s\<lparr>bc_jumps := J\<rparr>)"
    "\<And>a. J a = (if \<exists>d \<in> set (D b). dp_jmp_off (dep_of d s) = Some a then dh else bc_jumps s a)"
    using adjust_all_chain by blast
  let ?s = "upd_blk b (bi_direct_handler_to_use_update (\<lambda>_. dh)) (s\<lparr>bc_jumps := J\<rparr>)"
  have dep: "dep_of e ?s = dep_of e s" for e by (simp add: dep_of_def)
  have "jump_ok lim ?s e t" if e: "e \<in> set (D t)" for e t
  proof -
    obtain a where a: "dp_target (dep_of e s) = Some t" "a < lim" "dp_jmp_off (dep_of e s) = Some a"
      "bc_jumps s a = bi_direct_handler_to_use (bc_blk s t)" using d(5) [OF e] by (auto simp: jump_ok_def)
    have "J a = (if t = b then dh else bc_jumps s a)"
    proof (cases "t = b")
      case True
      then show ?thesis using e a(3) by (auto simp: J(2))
    next
      case False
      have "\<not> (\<exists>f \<in> set (D b). dp_jmp_off (dep_of f s) = Some a)"
      proof
        assume "\<exists>f \<in> set (D b). dp_jmp_off (dep_of f s) = Some a"
        then obtain f where f: "f \<in> set (D b)" "dp_jmp_off (dep_of f s) = Some a" by blast
        have "f = e" by (rule d(6)) (use f e a in \<open>auto simp: linked_def\<close>)
        moreover have "dp_target (dep_of f s) = Some b" using d(5) [OF f(1)] by (simp add: jump_ok_def)
        ultimately show False using a(1) False by simp
      qed
      then show ?thesis using False by (auto simp: J(2))
    qed
    with a show ?thesis by (auto simp: jump_ok_def dep)
  qed
  then have "deps_ok lim ?s V R D" unfolding deps_ok_def using d by (auto simp: dep loose_def)
  moreover have "set_dhtu b dh s = Some ?s" using False J(1) by (simp add: set_dhtu_def)
  ultimately show ?thesis by blast
qed

section \<open>Dropping a dependency\<close>

lemma remove_dep_simps [simp]:
  "bc_blk (remove_dep d s) = bc_blk s" "bc_jumps (remove_dep d s) = bc_jumps s" "bc_hold (remove_dep d s) = bc_hold s"
  "bc_handler (remove_dep d s) = bc_handler s" "bc_cl (remove_dep d s) = bc_cl s" "bc_list (remove_dep d s) = bc_list s"
  "bc_chunks (remove_dep d s) = bc_chunks s" "bc_pools (remove_dep d s) = bc_pools s"
  "bc_room (remove_dep d s) = bc_room s" "bc_compile_p (remove_dep d s) = bc_compile_p s"
  by (simp_all add: remove_dep_def Let_def)

lemma remove_dep_loose: "loose s d \<Longrightarrow> remove_dep d s = s"
  by (simp add: remove_dep_def unlink_loose loose_def Let_def fun_upd_idem)

lemma remove_dep_upd: "remove_dep d (upd_blk b f s) = upd_blk b f (remove_dep d s)"
  by (simp add: remove_dep_def upd_blk_def Let_def)

lemma remove_dep_links:
  assumes "links_on R (bc_deps s) D" "t \<in> R" "d \<in> set (D t)" "\<And>t. t \<notin> R \<Longrightarrow> D t = []"
  shows "links_on R (bc_deps (remove_dep d s)) (\<lambda>t. remove1 d (D t))" "loose (remove_dep d s) d"
    "loose s e \<Longrightarrow> e \<notin> linked D \<Longrightarrow> loose (remove_dep d s) e"
proof -
  have u: "(\<lambda>t. remove1 d (D t)) = D(t := remove1 d (D t))"
  proof
    fix t'
    show "remove1 d (D t') = (D(t := remove1 d (D t))) t'"
      using links_onD(3) [OF assms(1,2), of t'] assms(3) assms(4) [of t'] by (cases "t' \<in> R") (auto intro!: remove1_idem)
  qed
  have l: "links_on R (unlink d (bc_deps s)) (\<lambda>t. remove1 d (D t))"
    unfolding u by (rule links_on_unlink [OF assms(1-3)])
  have "d \<notin> members R (\<lambda>t. remove1 d (D t))"
    using links_onD(2) [OF assms(1)] by (auto simp: members_def)
  then show "links_on R (bc_deps (remove_dep d s)) (\<lambda>t. remove1 d (D t))"
    using l by (subst links_on_cong [where L' = "unlink d (bc_deps s)"]) (auto simp: remove_dep_def Let_def)
  show "loose (remove_dep d s) d" by (simp add: remove_dep_def loose_def Let_def)
  show "loose (remove_dep d s) e" if e: "loose s e" "e \<notin> linked D"
  proof -
    obtain xs ys where xy: "D t = xs @ d # ys" using split_list [OF assms(3)] by blast
    have c: "chain (bc_deps s) (Root t) (lk_root (bc_deps s) t) (xs @ d # ys)" "distinct (xs @ d # ys)"
      using links_onD(1,2) [OF assms(1,2)] xy by auto
    have "e \<notin> set (xs @ d # ys)" using e(2) unfolding xy [symmetric] linked_def by blast
    from unlink_frame(1) [OF c this] e(1) show ?thesis by (auto simp: remove_dep_def loose_def Let_def)
  qed
qed

definition drop_dep :: "bid \<Rightarrow> nat \<Rightarrow> bcache \<Rightarrow> bcache" where
  "drop_dep b i s = upd_blk b (\<lambda>x. x\<lparr>bi_dep := (bi_dep x)(i := clear_dep (bi_dep x i))\<rparr>) (remove_dep (b, i) s)"

lemma drop_dep_ok:
  assumes "deps_ok lim s V R D" "b \<in> R" "i < 2"
  shows "deps_ok lim (drop_dep b i s) V R (\<lambda>t. remove1 (b, i) (D t))"
    "linked (\<lambda>t. remove1 (b, i) (D t)) = linked D - {(b, i)}"
proof -
  note d = deps_okD [OF assms(1)]
  let ?D = "\<lambda>t. remove1 (b, i) (D t)"
  have dis: "distinct (D t)" for t using links_onD(2) [OF d(1), of t] d(2) [of t] d(9) by (cases "D t = []") auto
  show l: "linked ?D = linked D - {(b, i)}" using dis by (auto simp: linked_def)
  have nil: "\<And>t. t \<notin> R \<Longrightarrow> D t = []" using d(2,9) by blast
  have dep: "dep_of e (drop_dep b i s) = (if e = (b, i) then clear_dep (dep_of e s) else dep_of e s)" for e
    by (cases e) (auto simp: dep_of_def drop_dep_def)
  have core: "links_on (R) (bc_deps (drop_dep b i s)) ?D \<and> loose (drop_dep b i s) (b, i) \<and>
    (\<forall>e. loose s e \<longrightarrow> e \<notin> linked D \<longrightarrow> loose (drop_dep b i s) e)"
  proof (cases "(b, i) \<in> linked D")
    case True
    then obtain t where t: "(b, i) \<in> set (D t)" by (auto simp: linked_def)
    then have "D t \<noteq> []" by auto
    then have "t \<in> R" using d(2) [of t] d(9) by blast
    from remove_dep_links [OF d(1) this t nil] show ?thesis by (auto simp: drop_dep_def loose_def)
  next
    case False
    then have "?D = D" by (intro ext remove1_idem) (auto simp: linked_def)
    moreover have "loose s (b, i)" using d(7) assms(2,3) False by blast
    ultimately show ?thesis using d(1) by (simp add: drop_dep_def remove_dep_loose) (simp add: loose_def)
  qed
  have j: "jump_ok lim (drop_dep b i s) e t" if "e \<in> set (?D t)" for e t
  proof -
    have e: "e \<in> set (D t)" "e \<noteq> (b, i)" using that dis by auto
    then show ?thesis using d(5) [OF e(1)] by (auto simp: jump_ok_def dep) (auto simp: drop_dep_def)
  qed
  have j6: "\<forall>e \<in> linked ?D. \<forall>f \<in> linked ?D.
      dp_jmp_off (dep_of e (drop_dep b i s)) = dp_jmp_off (dep_of f (drop_dep b i s)) \<longrightarrow> e = f"
    using d(6) unfolding l dep by simp
  have j7: "loose (drop_dep b i s) (c, k)" if "c \<in> R" "k < 2" "(c, k) \<notin> linked ?D" for c k
    using that core d(7) [of c k] unfolding l by blast
  have j8: "dp_jmp_off (dep_of (c, k) (drop_dep b i s)) = None \<and> dp_target (dep_of (c, k) (drop_dep b i s)) = None"
    if "c \<in> V" "k < 2" "(c, k) \<notin> linked ?D" for c k
  proof (cases "(c, k) = (b, i)")
    case True
    then show ?thesis unfolding dep by (simp add: clear_dep_def)
  next
    case False
    then have "(c, k) \<notin> linked D" using that(3) unfolding l by blast
    with d(8) [OF that(1,2)] False show ?thesis unfolding dep by (simp only: if_False simp_thms)
  qed
  have j3: "t \<in> V" if "?D t \<noteq> []" for t using that d(2) [of t] by (cases "D t") simp_all
  have j4: "fst e \<in> V \<and> snd e < 2" if "e \<in> set (?D t)" for e t
    using d(3,4) [of e t] notin_set_remove1 [of e "D t" "(b, i)"] that by metis
  show "deps_ok lim (drop_dep b i s) V R ?D"
    by (rule deps_okI) (use core in blast, rule j3, assumption, rule j4, assumption, rule j, assumption,
      use j6 in blast, rule j7, assumption+, rule j8, assumption+, rule d(9))
qed

section \<open>Chaining a block to the next\<close>

lemma link_dep_ok:
  assumes "deps_ok lim s V R D" "b \<in> V" "i < 2" "(b, i) \<notin> linked D" "t \<in> V" "lim \<le> a" "a < lim'"
    and "s' = (upd_blk b (\<lambda>x. x\<lparr>bi_dep := (bi_dep x)(i := (bi_dep x i)\<lparr>dp_jmp_off := Some a, dp_source := Some b,
         dp_target := Some t\<rparr>)\<rparr>) (write_jmp_target a (bi_direct_handler_to_use (bc_blk s t)) s))"
  shows "deps_ok lim' (s'\<lparr>bc_deps := link_front t (b, i) (bc_deps s')\<rparr>) V R (D(t := (b, i) # D t))"
proof -
  note d = deps_okD [OF assms(1)]
  let ?s = "s'\<lparr>bc_deps := link_front t (b, i) (bc_deps s')\<rparr>" and ?D = "D(t := (b, i) # D t)"
  have s': "bc_deps s' = bc_deps s" unfolding assms(8) by (simp_all add: write_jmp_target_def)
  have l: "linked ?D = insert (b, i) (linked D)" by (auto simp: linked_def split: if_splits)
  have dep: "dep_of e ?s = (if e = (b, i) then (dep_of e s)\<lparr>dp_jmp_off := Some a, dp_source := Some b, dp_target := Some t\<rparr>
      else dep_of e s)" for e
    unfolding assms(8) by (cases e) (auto simp: dep_of_def write_jmp_target_def)
  have jb: "bc_jumps ?s = (bc_jumps s)(a := bi_direct_handler_to_use (bc_blk s t))"
    "bi_direct_handler_to_use (bc_blk ?s c) = bi_direct_handler_to_use (bc_blk s c)" for c
    unfolding assms(8) by (simp_all add: write_jmp_target_def)
  have m: "(b, i) \<notin> members (R) D" using assms(4) by (auto simp: members_def linked_def)
  have lo: "links_on (R) (bc_deps ?s) ?D"
    using links_on_link_front [OF d(1) _ m, of t] assms(5) d(9) s' by auto
  have old: "\<exists>c < lim. dp_jmp_off (dep_of e s) = Some c" if e: "e \<in> linked D" for e
  proof -
    obtain u where "e \<in> set (D u)" using e unfolding linked_def by blast
    from d(5) [OF this] show ?thesis by (auto simp: jump_ok_def)
  qed
  have j: "jump_ok lim' ?s e u" if "e \<in> set (?D u)" for e u
  proof (cases "e = (b, i)")
    case True
    then have "u = t" using that assms(4) by (auto simp: linked_def split: if_splits)
    with True assms(7) show ?thesis unfolding jump_ok_def dep jb by simp
  next
    case False
    then have "e \<in> set (D u)" using that by (auto split: if_splits)
    from d(5) [OF this] show ?thesis using False assms(6,7) unfolding jump_ok_def dep jb by auto
  qed
  have j6: "e = f" if "e \<in> linked ?D" "f \<in> linked ?D" "dp_jmp_off (dep_of e ?s) = dp_jmp_off (dep_of f ?s)" for e f
  proof -
    have n: "dp_jmp_off (dep_of g s) \<noteq> Some a" if "g \<in> linked D" for g using old [OF that] assms(6) by auto
    show ?thesis using that d(6) [of e f] n [of e] n [of f] unfolding l dep
      by (cases "e = (b, i)"; cases "f = (b, i)") simp_all
  qed
  have fr: "loose ?s (c, k)" if c: "c \<in> R" "k < 2" "(c, k) \<notin> linked ?D" for c k
  proof -
    have k: "(c, k) \<noteq> (b, i)" "loose s (c, k)" "(c, k) \<notin> linked D" using c d(7) [of c k] unfolding l by auto
    have "(c, k) \<notin> set (D t)" using k(3) unfolding linked_def by blast
    then have "lk_root (bc_deps s) t \<noteq> Some (c, k)"
      using links_on_root [OF d(1), of t] assms(5) d(9) by (cases "D t") auto
    with k s' show ?thesis by (auto simp: loose_def split: option.splits)
  qed
  have j8: "dp_jmp_off (dep_of (c, k) ?s) = None \<and> dp_target (dep_of (c, k) ?s) = None"
    if "c \<in> V" "k < 2" "(c, k) \<notin> linked ?D" for c k
    using that d(8) [of c k] unfolding l dep by auto
  have j3: "u \<in> V" if "?D u \<noteq> []" for u using that d(2) [of u] assms(5) by (auto split: if_splits)
  have j4: "fst e \<in> V \<and> snd e < 2" if "e \<in> set (?D u)" for e u
    using that d(3,4) [of e u] assms(2,3) by (cases "u = t") auto
  show ?thesis
    by (rule deps_okI) (rule lo, rule j3, assumption, rule j4, assumption, rule j, assumption,
      rule j6, assumption+, rule fr, assumption+, rule j8, assumption+, rule d(9))
qed

end
