(* ===== verification/Block_Flow.thy ===== *)
theory Block_Flow
  imports Block_Cache
begin

unbundle bit_operations_syntax

text \<open>
  The operations of the block cache that the emulator reaches (compemu_support_arm.cpp): the handlers
  of a miss and of a pending checksum, the two kinds of flush, and what \<^verbatim>\<open>compile_block\<close> does to
  the cache around the translation of a block. The steps from one call to the next make up the
  relation \<open>cache_step\<close>.
\<close>

section \<open>Handlers\<close>

text \<open>
  A handler returns whether it goes on with \<^verbatim>\<open>execute_normal\<close>. There are no more calls of
  \<^verbatim>\<open>block_check_checksum\<close> inside one another than records of blocks, and one more.
\<close>

definition check_fuel :: "bcache \<Rightarrow> nat" where
  "check_fuel s = bc_pools s * kPoolSize sizeof_blockinfo + 1"

definition check_for_cache_miss :: "u64 \<Rightarrow> bcache \<Rightarrow> (bool \<times> bcache) option" where
  "check_for_cache_miss pc_p s = do {
     bi \<leftarrow> get_blockinfo_addr pc_p s;
     (case bi of None \<Rightarrow> Some (False, s)
      | Some b \<Rightarrow> if get_blockinfo (cacheline pc_p) s \<noteq> Some b then Some (True, raise_in_cl_list b s) else Some (False, s)) }"

definition recompile_block :: "u64 \<Rightarrow> bcache \<Rightarrow> (bool \<times> bcache) option" where
  "recompile_block pc_p s = do {
     bi \<leftarrow> get_blockinfo_addr pc_p s;
     b \<leftarrow> bi;
     Some (True, raise_in_cl_list b s) }"

definition cache_miss :: "u64 \<Rightarrow> bcache \<Rightarrow> (bool \<times> bcache) option" where
  "cache_miss pc_p s = do {
     bi \<leftarrow> get_blockinfo_addr pc_p s;
     (case bi of None \<Rightarrow> Some (True, s)
      | Some b \<Rightarrow>
          let bi2 = get_blockinfo (cacheline pc_p) s
          in if bi2 = None \<or> bi2 = Some b then None else Some (False, raise_in_cl_list b s)) }"

definition check_checksum :: "(u64 \<Rightarrow> u8) \<Rightarrow> u64 \<Rightarrow> bcache \<Rightarrow> (bool \<times> bcache) option" where
  "check_checksum H pc_p s = do {
     bi \<leftarrow> get_blockinfo_addr pc_p s;
     (case bi of None \<Rightarrow> Some (True, s)
      | Some b \<Rightarrow>
          if get_blockinfo (cacheline pc_p) s \<noteq> Some b then cache_miss pc_p s
          else do { (isgood, s) \<leftarrow> block_check_checksum (check_fuel s) H b s; Some (\<not> isgood, s) }) }"

definition match_states :: "(u64 \<Rightarrow> u8) \<Rightarrow> bid \<Rightarrow> bcache \<Rightarrow> bcache option" where
  "match_states H bi s =
    (if bi_status (bc_blk s bi) = BI_NEED_CHECK
     then do { (isgood, s) \<leftarrow> block_check_checksum (check_fuel s) H bi s; Some s }
     else Some s)"

section \<open>Flushing\<close>

definition reset_lists :: "bcache \<Rightarrow> bcache" where
  "reset_lists s = s\<lparr>bc_hold := (\<lambda>_. None),
     bc_list := (bc_list s)\<lparr>lk_root := (lk_root (bc_list s))(Active := None, Dormant := None)\<rparr>\<rparr>"

definition clear_tag :: "u64 \<Rightarrow> bcache \<Rightarrow> bcache" where
  "clear_tag pc_p s = s\<lparr>bc_handler := (bc_handler s)(cacheline pc_p := Popall_execute_normal),
     bc_cl := (bc_cl s)\<lparr>lk_root := (lk_root (bc_cl s))(cacheline pc_p + 1 := None)\<rparr>\<rparr>"

partial_function (option) free_list :: "bid option \<Rightarrow> bcache \<Rightarrow> bcache option" where
  [code]: "free_list bi s = (case bi of None \<Rightarrow> Some s
     | Some dbi \<Rightarrow>
         (let s = clear_tag (bi_pc_p (bc_blk s dbi)) s
          in free_list (lk_next (bc_list s) dbi) (free_blockinfo dbi s)))"

definition flush_icache_hard :: "bcache \<Rightarrow> bcache option" where
  "flush_icache_hard s = do {
     s \<leftarrow> free_list (lk_root (bc_list s) Active) s;
     s \<leftarrow> free_list (lk_root (bc_list s) Dormant) s;
     Some ((reset_lists s)\<lparr>bc_compile_p := 0\<rparr>) }"

definition flush_lazy_block :: "bid \<Rightarrow> bcache \<Rightarrow> bcache option" where
  "flush_lazy_block bi s =
    (let cl = cacheline (bi_pc_p (bc_blk s bi));
         recomp = bi_status (bc_blk s bi) = BI_INVALID \<or> bi_status (bc_blk s bi) = BI_NEED_RECOMP;
         h = (if recomp then Popall_execute_normal else Popall_check_checksum);
         s = (if get_blockinfo cl s = Some bi then s\<lparr>bc_handler := (bc_handler s)(cl := h)\<rparr> else s);
         s = upd_blk bi (bi_handler_to_use_update (\<lambda>_. h)) s
     in do { s \<leftarrow> set_dhtu bi (if recomp then bi_direct_pen (bc_blk s bi) else bi_direct_pcc (bc_blk s bi)) s;
             Some (upd_blk bi (bi_status_update (\<lambda>_. if recomp then BI_INVALID else BI_NEED_CHECK)) s) })"

partial_function (option) flush_lazy_list :: "bid option \<Rightarrow> bid \<Rightarrow> bcache \<Rightarrow> (bid \<times> bcache) option" where
  [code]: "flush_lazy_list bi bi2 s = (case bi of None \<Rightarrow> Some (bi2, s)
     | Some b \<Rightarrow> do { s \<leftarrow> flush_lazy_block b s; flush_lazy_list (lk_next (bc_list s) b) b s })"

definition append_dormant :: "bid \<Rightarrow> (list_root, bid) links \<Rightarrow> (list_root, bid) links" where
  "append_dormant bi2 L =
    (let L = L\<lparr>lk_next := (lk_next L)(bi2 := lk_root L Dormant)\<rparr>;
         L = (case lk_root L Dormant of None \<Rightarrow> L | Some d \<Rightarrow> L\<lparr>lk_prev := (lk_prev L)(d := Some (Next bi2))\<rparr>);
         L = L\<lparr>lk_root := (lk_root L)(Dormant := lk_root L Active)\<rparr>;
         L = (case lk_root L Active of None \<Rightarrow> L | Some a \<Rightarrow> L\<lparr>lk_prev := (lk_prev L)(a := Some (Root Dormant))\<rparr>)
     in L\<lparr>lk_root := (lk_root L)(Active := None)\<rparr>)"

definition flush_icache_lazy :: "bcache \<Rightarrow> bcache option" where
  "flush_icache_lazy s = (case lk_root (bc_list s) Active of None \<Rightarrow> Some s
     | Some a \<Rightarrow> do { (bi2, s) \<leftarrow> flush_lazy_list (Some a) a s;
                      Some (s\<lparr>bc_list := append_dormant bi2 (bc_list s)\<rparr>) })"

definition set_cache_state :: "bool \<Rightarrow> bool \<Rightarrow> bcache \<Rightarrow> (bool \<times> bcache) option" where
  "set_cache_state enabled cache_enabled s = do {
     s \<leftarrow> (if enabled \<noteq> cache_enabled then flush_icache_hard s else Some s);
     Some (enabled, s) }"

text \<open>
  A fault of the host at the place \<open>pc\<close> of the code cache deletes the block whose code holds it. The code of a
  block starts at a place of the code cache, so an entry point made at start-up is not compared.
\<close>

definition in_code :: "nat \<Rightarrow> blockinfo \<Rightarrow> bool" where
  "in_code pc x \<longleftrightarrow> bi_handler x \<noteq> HNull \<and> (case bi_direct_handler x of HNull \<Rightarrow> True | Code p \<Rightarrow> p \<le> pc | _ \<Rightarrow> False) \<and>
     pc < bi_nexthandler x"

partial_function (option) delete_trigger :: "nat \<Rightarrow> bid option \<Rightarrow> bcache \<Rightarrow> (bool \<times> bcache) option" where
  [code]: "delete_trigger pc bi s = (case bi of None \<Rightarrow> Some (False, s)
     | Some b \<Rightarrow>
         if in_code pc (bc_blk s b) then do { s \<leftarrow> invalidate_block b s; Some (True, raise_in_cl_list b s) }
         else delete_trigger pc (lk_next (bc_list s) b) s)"

definition delete_triggers :: "nat \<Rightarrow> bcache \<Rightarrow> (bool \<times> bcache) option" where
  "delete_triggers pc s = do {
     (deleted, s) \<leftarrow> delete_trigger pc (lk_root (bc_list s) Active) s;
     if deleted then Some (True, s) else delete_trigger pc (lk_root (bc_list s) Dormant) s }"

section \<open>Compiling a block\<close>

record cpu_history =
  h_location :: u64
  h_specmem :: bool

text \<open>
  What the translation of the instructions leaves behind: the length of the code up to the handler
  that checks the address, the length of that handler, and how the block ends, with the places of the
  jumps to the blocks that follow.
\<close>

datatype exits = Branch u64 u64 bool nat nat | Const_end u64 nat | Dynamic_end

record codegen =
  cg_len :: nat
  cg_tail :: nat
  cg_exits :: exits

definition isinrtarea :: "cenv \<Rightarrow> u64 \<Rightarrow> bool" where
  "isinrtarea E addr \<longleftrightarrow> ce_rtarea E \<noteq> 0 \<and> ce_rtarea E \<le> addr \<and> addr < ce_rtarea E + 65536"

definition isinrom :: "cenv \<Rightarrow> u64 \<Rightarrow> bool" where
  "isinrom E addr \<longleftrightarrow> ce_kickmem E \<le> addr \<and> addr < ce_kickmem E + 8 * 65536 \<or>
     ce_rtarea E \<noteq> 0 \<and> ce_rtarea E \<le> addr \<and> addr < ce_rtarea E + 65536"

definition fl_trap :: u32 where "fl_trap = 4"
definition fl_const_jump :: u32 where "fl_const_jump = 8"
definition LONGEST_68K_INST :: u32 where "LONGEST_68K_INST = 16"

definition span_info :: "u64 \<Rightarrow> u64 \<Rightarrow> checksum_info" where
  "span_info min_pcp max_pcp = \<lparr>ci_start_p = min_pcp, ci_length = ucast (max_pcp - min_pcp) + LONGEST_68K_INST\<rparr>"

text \<open>The spans of the block, from the last instruction backwards.\<close>

fun block_spans :: "cenv \<Rightarrow> (u64 \<Rightarrow> u8) \<Rightarrow> u64 list \<Rightarrow> u64 \<Rightarrow> u64 \<Rightarrow> checksum_info list \<Rightarrow> checksum_info list" where
  "block_spans E H [] min_pcp max_pcp csi = span_info min_pcp max_pcp # csi"
| "block_spans E H (currpcp # pcs) min_pcp max_pcp csi =
    (if ce_constjump E \<and> ce_cflow E (DO_GET_OPCODE H currpcp) = fl_const_jump
     then block_spans E H pcs currpcp currpcp (span_info min_pcp max_pcp # csi)
     else block_spans E H pcs currpcp max_pcp csi)"

definition next_level :: "nat \<Rightarrow> nat option" where
  "next_level optlev = find (\<lambda>i. optcount ! i \<noteq> 0) [optlev ..< length optcount]"

definition choose_optlev :: "cenv \<Rightarrow> bid \<Rightarrow> bid option \<Rightarrow> bcache \<Rightarrow> (nat \<times> bcache) option" where
  "choose_optlev E bi bi2 s =
    (let x = bc_blk s bi; optlev = (if ce_cpu_compatible E then 0 else bi_optlevel x)
     in if bi_status x \<noteq> BI_INVALID \<and> bi2 \<noteq> Some bi then None
        else if bi_status x \<noteq> BI_INVALID \<and> bi_count x \<noteq> -1 \<and> bi_status x \<noteq> BI_NEED_RECOMP then None
        else if bi_count x = -1
        then if ce_cpu_compatible E then Some (0, s)
             else do { optlev \<leftarrow> next_level (optlev + 1);
                       Some (optlev, upd_blk bi (bi_count_update (\<lambda>_. optcount ! optlev - 1)) s) }
        else Some (optlev, s))"

definition successor_flags :: "bid \<Rightarrow> bcache \<Rightarrow> u8" where
  "successor_flags bi s =
    (case dp_target (bi_dep (bc_blk s bi) 0) of None \<Rightarrow> FLAG_ALL8
     | Some t0 \<Rightarrow>
         if bi_status (bc_blk s t0) = BI_INVALID then FLAG_ALL8
         else case dp_target (bi_dep (bc_blk s bi) 1) of None \<Rightarrow> bi_needed_flags (bc_blk s t0)
              | Some t1 \<Rightarrow> if bi_status (bc_blk s t1) = BI_INVALID then FLAG_ALL8
                          else bi_needed_flags (bc_blk s t0) OR bi_needed_flags (bc_blk s t1))"

definition link_exit :: "(u64 \<Rightarrow> u8) \<Rightarrow> bid \<Rightarrow> nat \<Rightarrow> nat \<Rightarrow> u64 \<Rightarrow> bcache \<Rightarrow> bcache option" where
  "link_exit H bi i tba t s = do {
     (tbi, s) \<leftarrow> get_blockinfo_addr_new t s;
     s \<leftarrow> match_states H tbi s;
     (hbi, s) \<leftarrow> get_blockinfo_addr_new t s;
     create_jmpdep bi i tba t (write_jmp_target tba (bi_direct_handler_to_use (bc_blk s hbi)) s) }"

definition link_exits :: "(u64 \<Rightarrow> u8) \<Rightarrow> bid \<Rightarrow> u64 \<Rightarrow> exits \<Rightarrow> bcache \<Rightarrow> bcache option" where
  "link_exits H bi pc ex s = (case ex of
     Branch next_pc_p taken_pc_p was_comp tba1 tba2 \<Rightarrow> do {
       s \<leftarrow> (if was_comp \<and> taken_pc_p = pc
             then do { (bi1, s) \<leftarrow> get_blockinfo_addr_new next_pc_p s;
                       (bi2, s) \<leftarrow> get_blockinfo_addr_new taken_pc_p s; Some s }
             else Some s);
       let (t1, t2) = (if taken_pc_p < next_pc_p then (taken_pc_p, next_pc_p) else (next_pc_p, taken_pc_p));
       s \<leftarrow> link_exit H bi 0 tba1 t1 s;
       link_exit H bi 1 tba2 t2 s }
   | Const_end v tba \<Rightarrow> link_exit H bi 0 tba v s
   | Dynamic_end \<Rightarrow> Some s)"

definition start_block :: "cenv \<Rightarrow> (u64 \<Rightarrow> u8) \<Rightarrow> cpu_history list \<Rightarrow> bid \<Rightarrow> nat \<Rightarrow> bcache \<Rightarrow> (nat \<times> bcache) option" where
  "start_block E H pc_hist bi optlev s =
    (let locs = map h_location pc_hist; last_pc = last locs;
         ops = map (DO_GET_OPCODE H) locs;
         flags = successor_flags bi s;
         s = remove_deps bi s;
         s = upd_blk bi (\<lambda>x. x\<lparr>bi_optlevel := optlev, bi_pc_p := hd locs,
               bi_csi := block_spans E H (rev locs) last_pc last_pc [],
               bi_needed_flags := ucast (hd (liveflags (ce_tables E) (ce_compnf E) ops (ucast flags)))\<rparr>) s;
         ram_trap = (\<exists>pc \<in> set locs. ce_cflow E (DO_GET_OPCODE H pc) AND fl_trap \<noteq> 0 \<and> \<not> isinrom E pc);
         optlev = (if ram_trap then 0 else optlev);
         s = (if ram_trap then upd_blk bi (\<lambda>x. x\<lparr>bi_optlevel := 0, bi_count := -1\<rparr>) s else s);
         s = upd_blk bi (bi_direct_handler_update (\<lambda>_. Code (bc_compile_p s))) s
     in do { s \<leftarrow> set_dhtu bi (Code (bc_compile_p s)) s;
             Some (optlev, upd_blk bi (bi_status_update (\<lambda>_. BI_COMPILING)) s) })"

definition finish_block :: "cenv \<Rightarrow> (u64 \<Rightarrow> u8) \<Rightarrow> cpu_history list \<Rightarrow> bid \<Rightarrow> codegen \<Rightarrow> bcache \<Rightarrow> bcache option" where
  "finish_block E H pc_hist bi cg s = do {
     let s = remove_from_list bi s;
     s \<leftarrow> (if \<forall>h \<in> set pc_hist. isinrom E (h_location h)
           then Some (add_to_dormant bi (upd_blk bi (bi_csi_update (\<lambda>_. [])) s))
           else do { (c1, c2) \<leftarrow> calc_checksum H bi s;
                     Some (add_to_active bi (upd_blk bi (\<lambda>x. x\<lparr>bi_c1 := c1, bi_c2 := c2\<rparr>) s)) });
     let s = upd_blk bi (\<lambda>x. x\<lparr>bi_handler := Code (bc_compile_p s + cg_len cg),
               bi_handler_to_use := Code (bc_compile_p s + cg_len cg), bi_status := BI_FINALIZING\<rparr>) s;
     s \<leftarrow> match_states H bi s;
     let s = raise_in_cl_list bi (s\<lparr>bc_compile_p := bc_compile_p s + cg_len cg + cg_tail cg\<rparr>);
     let s = upd_blk bi (bi_nexthandler_update (\<lambda>_. bc_compile_p s)) s;
     s \<leftarrow> (if ce_max_compile E \<le> bc_compile_p s then flush_icache_hard s else Some s);
     Some (upd_blk bi (bi_status_update (\<lambda>_. BI_ACTIVE)) s) }"

definition unsafe_block :: "cenv \<Rightarrow> bool \<Rightarrow> bool \<Rightarrow> cpu_history list \<Rightarrow> bool" where
  "unsafe_block E indirect_rtarea unsafe_memory pc_hist \<longleftrightarrow>
     indirect_rtarea \<and> isinrtarea E (h_location (hd pc_hist)) \<or> unsafe_memory \<and> (\<exists>h \<in> set pc_hist. h_specmem h)"

text \<open>
  \<^verbatim>\<open>redo_current_block\<close> is cleared at the start and set nowhere in the sources, so a block is not marked
  for recompilation at the end. The code generator is the parameter \<open>gen\<close>: the optimisation level and
  the place where the code starts give what it emits.
\<close>

definition compile_block :: "cenv \<Rightarrow> bool \<Rightarrow> bool \<Rightarrow> (u64 \<Rightarrow> u8) \<Rightarrow> (nat \<Rightarrow> nat \<Rightarrow> codegen) \<Rightarrow> cpu_history list \<Rightarrow> bcache \<Rightarrow> bcache option" where
  "compile_block E indirect_rtarea unsafe_memory H gen pc_hist s = do {
     let pc = h_location (hd pc_hist);
     s \<leftarrow> (if ce_max_compile E \<le> bc_compile_p s then flush_icache_hard s else Some s);
     s \<leftarrow> alloc_blockinfos E s;
     (bi, s) \<leftarrow> get_blockinfo_addr_new pc s;
     (optlev, s) \<leftarrow> choose_optlev E bi (get_blockinfo (cacheline pc) s) s;
     (optlev, s) \<leftarrow> start_block E H pc_hist bi optlev s;
     let cg = gen optlev (bc_compile_p s);
     s \<leftarrow> (if optlev = 0 \<or> unsafe_block E indirect_rtarea unsafe_memory pc_hist then Some s
           else link_exits H bi pc (cg_exits cg) s);
     finish_block E H pc_hist bi cg s }"

section \<open>Steps\<close>

definition blank_block :: blockinfo where
  "blank_block = \<lparr>bi_count = 0, bi_direct_handler_to_use = HNull, bi_handler_to_use = HNull, bi_handler = HNull,
     bi_direct_handler = HNull, bi_direct_pen = HNull, bi_direct_pcc = HNull, bi_nexthandler = 0, bi_pc_p = 0,
     bi_c1 = 0, bi_c2 = 0, bi_csi = [], bi_optlevel = 0, bi_needed_flags = 0, bi_status = BI_INVALID,
     bi_dep = (\<lambda>_. \<lparr>dp_jmp_off = None, dp_target = None, dp_source = None\<rparr>)\<rparr>"

text \<open>The state \<^verbatim>\<open>build_comp\<close> leaves: every list is empty, every handler interprets.\<close>

definition start_cache :: "nat \<Rightarrow> bcache" where
  "start_cache room = \<lparr>bc_handler = (\<lambda>_. Popall_execute_normal),
     bc_cl = \<lparr>lk_root = (\<lambda>_. None), lk_next = (\<lambda>_. None), lk_prev = (\<lambda>_. None)\<rparr>,
     bc_list = \<lparr>lk_root = (\<lambda>_. None), lk_next = (\<lambda>_. None), lk_prev = (\<lambda>_. None)\<rparr>,
     bc_deps = \<lparr>lk_root = (\<lambda>_. None), lk_next = (\<lambda>_. None), lk_prev = (\<lambda>_. None)\<rparr>,
     bc_blk = (\<lambda>_. blank_block), bc_hold = (\<lambda>_. None), bc_chunks = None, bc_pools = 0, bc_room = room,
     bc_compile_p = 0, bc_jumps = (\<lambda>_. HNull)\<rparr>"

text \<open>The code of a block that is still counted starts with a decrement of its counter.\<close>

definition count_down :: "bid \<Rightarrow> bcache \<Rightarrow> bcache" where
  "count_down bi s = upd_blk bi (\<lambda>x. x\<lparr>bi_count := bi_count x - 1\<rparr>) s"

text \<open>What the generator promises: the jumps it reports are places of the code it emitted, in order.\<close>

definition gen_ok :: "(nat \<Rightarrow> nat \<Rightarrow> codegen) \<Rightarrow> bool" where
  "gen_ok gen \<longleftrightarrow> (\<forall>optlev p. case cg_exits (gen optlev p) of
     Branch _ _ _ tba1 tba2 \<Rightarrow> p \<le> tba1 \<and> tba1 < tba2 \<and> tba2 < p + cg_len (gen optlev p)
   | Const_end _ tba \<Rightarrow> p \<le> tba \<and> tba < p + cg_len (gen optlev p)
   | Dynamic_end \<Rightarrow> True)"

inductive cache_step :: "cenv \<Rightarrow> bcache \<Rightarrow> bcache \<Rightarrow> bool" for E where
  compile: "pc_hist \<noteq> [] \<Longrightarrow> gen_ok gen \<Longrightarrow> compile_block E ind uns H gen pc_hist s = Some s' \<Longrightarrow> cache_step E s s'"
| no_miss: "check_for_cache_miss pc_p s = Some (r, s') \<Longrightarrow> cache_step E s s'"
| miss: "cache_miss pc_p s = Some (r, s') \<Longrightarrow> cache_step E s s'"
| recompile: "recompile_block pc_p s = Some (r, s') \<Longrightarrow> cache_step E s s'"
| check: "check_checksum H pc_p s = Some (r, s') \<Longrightarrow> cache_step E s s'"
| lazy: "flush_icache_lazy s = Some s' \<Longrightarrow> cache_step E s s'"
| hard: "flush_icache_hard s = Some s' \<Longrightarrow> cache_step E s s'"
| state: "set_cache_state enabled cache_enabled s = Some (r, s') \<Longrightarrow> cache_step E s s'"
| trigger: "delete_triggers pc s = Some (r, s') \<Longrightarrow> cache_step E s s'"
| count: "bi_status (bc_blk s b) = BI_ACTIVE \<Longrightarrow> 0 \<le> bi_count (bc_blk s b) \<Longrightarrow> cache_step E s (count_down b s)"

inductive cache_reachable :: "cenv \<Rightarrow> bcache \<Rightarrow> bool" for E where
  start: "cache_reachable E (start_cache room)"
| step: "cache_reachable E s \<Longrightarrow> cache_step E s s' \<Longrightarrow> cache_reachable E s'"

end
