(* ===== verification/Block_Inv.thy ===== *)
theory Block_Inv
  imports Block_Deps Block_Flow
begin

text \<open>
  The invariant of the block cache and the operations of one step: lookup, moving a block between the
  lists, invalidation, and taking a fresh record.
\<close>

section \<open>The invariant\<close>

definition held :: "bcache \<Rightarrow> bid set" where
  "held s = {b. \<exists>i < MAX_HOLD_BI. bc_hold s i = Some b}"

lemma held_simps [simp]:
  "held (upd_blk b f s) = held s" "held (s\<lparr>bc_deps := L\<rparr>) = held s" "held (s\<lparr>bc_jumps := J\<rparr>) = held s"
  "held (s\<lparr>bc_list := L1\<rparr>) = held s" "held (s\<lparr>bc_cl := L2\<rparr>) = held s" "held (s\<lparr>bc_handler := T\<rparr>) = held s"
  "held (s\<lparr>bc_compile_p := n\<rparr>) = held s" "held (s\<lparr>bc_chunks := c\<rparr>) = held s" "held (s\<lparr>bc_blk := m\<rparr>) = held s"
  by (simp_all add: held_def)

primrec free_chain :: "(bid \<Rightarrow> bid option) \<Rightarrow> bid option \<Rightarrow> bid list \<Rightarrow> bool" where
  "free_chain nx h [] \<longleftrightarrow> h = None"
| "free_chain nx h (b # bs) \<longleftrightarrow> h = Some b \<and> free_chain nx (nx b) bs"

abbreviation records :: "bcache \<Rightarrow> nat" where
  "records s \<equiv> bc_pools s * kPoolSize sizeof_blockinfo"

text \<open>No record is held twice; the empty places come before the others.\<close>

definition hold_ok :: "bcache \<Rightarrow> bool" where
  "hold_ok s \<longleftrightarrow>
     (\<forall>i < MAX_HOLD_BI. \<forall>j < MAX_HOLD_BI. i \<noteq> j \<longrightarrow> bc_hold s i = bc_hold s j \<longrightarrow> bc_hold s i = None)"

definition hold_filled :: "(nat \<Rightarrow> bid option) \<Rightarrow> bool" where
  "hold_filled h \<longleftrightarrow> (\<forall>i. Suc i < MAX_HOLD_BI \<longrightarrow> h i \<noteq> None \<longrightarrow> h (Suc i) \<noteq> None)"

definition lists_ok :: "bcache \<Rightarrow> (list_root \<Rightarrow> bid list) \<Rightarrow> bid list \<Rightarrow> bool" where
  "lists_ok s A F \<longleftrightarrow> links_on UNIV (bc_list s) A \<and> free_chain (lk_next (bc_list s)) (bc_chunks s) F \<and> distinct F \<and>
     set F \<inter> resident A = {} \<and> set F \<inter> held s = {} \<and> held s \<inter> resident A = {} \<and>
     resident A \<union> held s \<union> set F \<subseteq> {..<records s} \<and> hold_ok s"

definition cl_ok :: "bcache \<Rightarrow> bid set \<Rightarrow> (nat \<Rightarrow> bid list) \<Rightarrow> bool" where
  "cl_ok s V C \<longleftrightarrow> links_on UNIV (bc_cl s) C \<and>
     (\<forall>i. set (C i) = {b \<in> V. i = cacheline (bi_pc_p (bc_blk s b)) + 1}) \<and> inj_on (\<lambda>b. bi_pc_p (bc_blk s b)) V"

definition tags_ok :: "bid set \<Rightarrow> bcache \<Rightarrow> (nat \<Rightarrow> bid list) \<Rightarrow> bool" where
  "tags_ok X s C \<longleftrightarrow> (\<forall>cl. case C (cl + 1) of [] \<Rightarrow> bc_handler s cl = Popall_execute_normal
     | b # _ \<Rightarrow> b \<notin> X \<longrightarrow> bc_handler s cl = bi_handler_to_use (bc_blk s b))"

text \<open>What the state of a block says about its entry points and its checksum.\<close>

definition block_ok :: "cenv \<Rightarrow> blockinfo \<Rightarrow> bool \<Rightarrow> bool" where
  "block_ok E x active \<longleftrightarrow> (case bi_status x of
     BI_INVALID \<Rightarrow> bi_handler_to_use x = Popall_execute_normal \<and> bi_direct_handler_to_use x = bi_direct_pen x \<and>
       bi_count x \<noteq> -2
   | BI_NEED_CHECK \<Rightarrow> bi_handler_to_use x = Popall_check_checksum \<and> bi_direct_handler_to_use x = bi_direct_pcc x \<and>
       bi_csi x \<noteq> []
   | BI_ACTIVE \<Rightarrow> bi_handler_to_use x = bi_handler x \<and> bi_direct_handler_to_use x = bi_direct_handler x \<and>
       (if active then bi_csi x \<noteq> [] else bi_csi x = [] \<and> isinrom E (bi_pc_p x))
   | _ \<Rightarrow> False)"

definition blocks_ok :: "cenv \<Rightarrow> bid set \<Rightarrow> bcache \<Rightarrow> (list_root \<Rightarrow> bid list) \<Rightarrow> bool" where
  "blocks_ok E X s A \<longleftrightarrow> (\<forall>b \<in> resident A - X. block_ok E (bc_blk s b) (b \<in> set (A Active))) \<and>
     (\<forall>b \<in> X. bi_status (bc_blk s b) \<noteq> BI_NEED_CHECK)"

definition counts_ok :: "bcache \<Rightarrow> bid set \<Rightarrow> (bid \<times> nat) set \<Rightarrow> bool" where
  "counts_ok s V K \<longleftrightarrow> (\<forall>b \<in> V. bi_count (bc_blk s b) = -2 \<or>
     bi_optlevel (bc_blk s b) = 0 \<and> -1 \<le> bi_count (bc_blk s b) \<and> (\<forall>i. (b, i) \<notin> K))"

definition cache_inv :: "cenv \<Rightarrow> bid set \<Rightarrow> nat \<Rightarrow> bcache \<Rightarrow> (list_root \<Rightarrow> bid list) \<Rightarrow> (nat \<Rightarrow> bid list) \<Rightarrow>
    (bid \<Rightarrow> (bid \<times> nat) list) \<Rightarrow> bid list \<Rightarrow> bool" where
  "cache_inv E X lim s A C D F \<longleftrightarrow> lists_ok s A F \<and> cl_ok s (resident A) C \<and> tags_ok X s C \<and>
     deps_ok lim s (resident A) (resident A \<union> held s) D \<and> counts_ok s (resident A) (linked D) \<and> blocks_ok E X s A"

definition cache_ok :: "cenv \<Rightarrow> bcache \<Rightarrow> bool" where
  "cache_ok E s \<longleftrightarrow> hold_filled (bc_hold s) \<and> (\<exists>A C D F. cache_inv E {} (bc_compile_p s) s A C D F)"

lemma cache_invD:
  assumes "cache_inv E X lim s A C D F"
  shows "lists_ok s A F" "cl_ok s (resident A) C" "tags_ok X s C" "deps_ok lim s (resident A) (resident A \<union> held s) D"
    "counts_ok s (resident A) (linked D)" "blocks_ok E X s A"
  using assms by (auto simp: cache_inv_def)

lemma cache_invI:
  "lists_ok s A F \<Longrightarrow> cl_ok s (resident A) C \<Longrightarrow> tags_ok X s C \<Longrightarrow> deps_ok lim s (resident A) (resident A \<union> held s) D \<Longrightarrow>
     counts_ok s (resident A) (linked D) \<Longrightarrow> blocks_ok E X s A \<Longrightarrow> cache_inv E X lim s A C D F"
  by (simp add: cache_inv_def)

lemma blocks_okD:
  "blocks_ok E X s A \<Longrightarrow> b \<in> resident A \<Longrightarrow> b \<notin> X \<Longrightarrow> block_ok E (bc_blk s b) (b \<in> set (A Active))"
  "blocks_ok E X s A \<Longrightarrow> b \<in> X \<Longrightarrow> bi_status (bc_blk s b) \<noteq> BI_NEED_CHECK"
  by (auto simp: blocks_ok_def)

lemma block_ok_cases:
  "bi_status x = BI_INVALID \<Longrightarrow> block_ok E x a \<longleftrightarrow> bi_handler_to_use x = Popall_execute_normal \<and>
     bi_direct_handler_to_use x = bi_direct_pen x \<and> bi_count x \<noteq> -2"
  "bi_status x = BI_NEED_CHECK \<Longrightarrow> block_ok E x a \<longleftrightarrow> bi_handler_to_use x = Popall_check_checksum \<and>
     bi_direct_handler_to_use x = bi_direct_pcc x \<and> bi_csi x \<noteq> []"
  "bi_status x = BI_ACTIVE \<Longrightarrow> block_ok E x a \<longleftrightarrow> bi_handler_to_use x = bi_handler x \<and>
     bi_direct_handler_to_use x = bi_direct_handler x \<and>
     (if a then bi_csi x \<noteq> [] else bi_csi x = [] \<and> isinrom E (bi_pc_p x))"
  "block_ok E x a \<Longrightarrow> bi_status x \<in> {BI_INVALID, BI_NEED_CHECK, BI_ACTIVE}"
  by (auto simp: block_ok_def split: bi_status.splits)

subsection \<open>What each part reads\<close>

lemma lists_ok_cong:
  "bc_list s' = bc_list s \<Longrightarrow> bc_chunks s' = bc_chunks s \<Longrightarrow> bc_hold s' = bc_hold s \<Longrightarrow> bc_pools s' = bc_pools s \<Longrightarrow>
     lists_ok s' A F = lists_ok s A F"
  by (simp add: lists_ok_def hold_ok_def held_def)

lemma cl_ok_cong:
  assumes "bc_cl s' = bc_cl s" "\<And>b. b \<in> V \<Longrightarrow> bi_pc_p (bc_blk s' b) = bi_pc_p (bc_blk s b)"
  shows "cl_ok s' V C = cl_ok s V C"
proof -
  have "{b \<in> V. i = cacheline (bi_pc_p (bc_blk s' b)) + 1} = {b \<in> V. i = cacheline (bi_pc_p (bc_blk s b)) + 1}" for i
    using assms(2) by auto
  moreover have "inj_on (\<lambda>b. bi_pc_p (bc_blk s' b)) V = inj_on (\<lambda>b. bi_pc_p (bc_blk s b)) V"
    by (rule inj_on_cong) (rule assms(2))
  ultimately show ?thesis by (simp add: cl_ok_def assms(1))
qed

lemma tags_ok_cong:
  assumes "bc_handler s' = bc_handler s" "X \<subseteq> X'"
    "\<And>b. b \<notin> X' \<Longrightarrow> bi_handler_to_use (bc_blk s' b) = bi_handler_to_use (bc_blk s b)" "tags_ok X s C"
  shows "tags_ok X' s' C"
  unfolding tags_ok_def
proof
  fix cl
  show "case C (cl + 1) of [] \<Rightarrow> bc_handler s' cl = Popall_execute_normal
     | b # _ \<Rightarrow> b \<notin> X' \<longrightarrow> bc_handler s' cl = bi_handler_to_use (bc_blk s' b)"
    using spec [OF assms(4) [unfolded tags_ok_def], of cl] assms(1-3) by (cases "C (cl + 1)") auto
qed

section \<open>Lookup\<close>

lemma find_pc_chain:
  "chain (bc_cl s) p h bs \<Longrightarrow> find_pc addr h s = Some (find (\<lambda>b. bi_pc_p (bc_blk s b) = addr) bs)"
proof (induction bs arbitrary: p h)
  case Nil
  then show ?case by (simp add: find_pc.simps)
next
  case (Cons b bs)
  then have "h = Some b" "chain (bc_cl s) (Next b) (lk_next (bc_cl s) b) bs" by auto
  with Cons.IH show ?case by (subst find_pc.simps) auto
qed

lemma cl_okD:
  assumes "cl_ok s V C"
  shows "links_on UNIV (bc_cl s) C" "\<And>i b. b \<in> set (C i) \<longleftrightarrow> b \<in> V \<and> i = cacheline (bi_pc_p (bc_blk s b)) + 1"
    "\<And>b c. b \<in> V \<Longrightarrow> c \<in> V \<Longrightarrow> bi_pc_p (bc_blk s b) = bi_pc_p (bc_blk s c) \<Longrightarrow> b = c"
  using assms unfolding cl_ok_def inj_on_def by auto

lemma get_blockinfo_addr_ok:
  assumes "cl_ok s V C"
  shows "(\<forall>b \<in> V. bi_pc_p (bc_blk s b) \<noteq> addr) \<Longrightarrow> get_blockinfo_addr addr s = Some None"
    "b \<in> V \<Longrightarrow> bi_pc_p (bc_blk s b) = addr \<Longrightarrow> get_blockinfo_addr addr s = Some (Some b)"
proof -
  note c = cl_okD [OF assms]
  let ?bs = "C (cacheline addr + 1)"
  have f: "get_blockinfo_addr addr s = Some (find (\<lambda>b. bi_pc_p (bc_blk s b) = addr) ?bs)"
    unfolding get_blockinfo_addr_def get_blockinfo_def by (rule find_pc_chain [OF links_onD(1) [OF c(1) UNIV_I]])
  show "get_blockinfo_addr addr s = Some None" if "\<forall>b \<in> V. bi_pc_p (bc_blk s b) \<noteq> addr"
    unfolding f using that c(2) [of _ "cacheline addr + 1"] by (auto simp: find_None_iff)
  show "get_blockinfo_addr addr s = Some (Some b)" if b: "b \<in> V" "bi_pc_p (bc_blk s b) = addr"
  proof -
    have "b \<in> set ?bs" using b c(2) by auto
    then obtain e where e: "find (\<lambda>b. bi_pc_p (bc_blk s b) = addr) ?bs = Some e"
      using b(2) by (cases "find (\<lambda>b. bi_pc_p (bc_blk s b) = addr) ?bs") (auto simp: find_None_iff)
    then have "e \<in> set ?bs" "bi_pc_p (bc_blk s e) = addr" by (auto simp: find_Some_iff)
    then have "e = b" using c(2) [of e] c(3) [of e b] b by auto
    with e f show ?thesis by simp
  qed
qed

lemma get_blockinfo_addrD:
  assumes "cl_ok s V C" "get_blockinfo_addr addr s = Some r"
  shows "case r of None \<Rightarrow> \<forall>b \<in> V. bi_pc_p (bc_blk s b) \<noteq> addr | Some b \<Rightarrow> b \<in> V \<and> bi_pc_p (bc_blk s b) = addr"
  using get_blockinfo_addr_ok [OF assms(1), where addr = addr] assms(2) by (cases "\<exists>b \<in> V. bi_pc_p (bc_blk s b) = addr") auto

section \<open>Moving a block\<close>

lemma raise_simps [simp]:
  "bc_list (raise_in_cl_list b s) = bc_list s" "bc_deps (raise_in_cl_list b s) = bc_deps s"
  "bc_blk (raise_in_cl_list b s) = bc_blk s" "bc_hold (raise_in_cl_list b s) = bc_hold s"
  "bc_chunks (raise_in_cl_list b s) = bc_chunks s" "bc_pools (raise_in_cl_list b s) = bc_pools s"
  "bc_compile_p (raise_in_cl_list b s) = bc_compile_p s" "bc_jumps (raise_in_cl_list b s) = bc_jumps s"
  "held (raise_in_cl_list b s) = held s"
  by (simp_all add: raise_in_cl_list_def add_to_cl_list_def remove_from_cl_list_def Let_def)

lemma raise_ok:
  assumes "cl_ok s V C" "tags_ok X s C" "b \<in> V"
  shows "\<exists>C'. cl_ok (raise_in_cl_list b s) V C' \<and> tags_ok (X - {b}) (raise_in_cl_list b s) C' \<and>
    hd (C' (cacheline (bi_pc_p (bc_blk s b)) + 1)) = b"
proof -
  note c = cl_okD [OF assms(1)]
  let ?cl = "cacheline (bi_pc_p (bc_blk s b))"
  let ?C = "moved (?cl + 1) b C"
  have b: "b \<in> set (C (?cl + 1))" using assms(3) c(2) by auto
  then have "b \<in> members UNIV C" by (auto simp: members_def)
  from lists.move_front_holds [OF c(1) this] have l2: "links_on UNIV (link_front (?cl + 1) b (unlink b (bc_cl s))) ?C" .
  have r: "bc_cl (raise_in_cl_list b s) = link_front (?cl + 1) b (unlink b (bc_cl s))"
    "\<And>k. bc_handler (raise_in_cl_list b s) k = (if k = ?cl then bi_handler_to_use (bc_blk s b) else bc_handler s k)"
    by (auto simp: raise_in_cl_list_def add_to_cl_list_def remove_from_cl_list_def Let_def)
  have own: "b \<in> set (C i) \<longleftrightarrow> i = ?cl + 1" for i using b lists.disjoint_lists [OF c(1), of i "?cl + 1"] by auto
  have "set (?C i) = set (C i)" for i
  proof (intro set_eqI)
    fix e show "e \<in> set (?C i) \<longleftrightarrow> e \<in> set (C i)" using own lists.moved_mem [OF c(1)] by (cases "e = b") simp_all
  qed
  then have "cl_ok (raise_in_cl_list b s) V ?C" using l2 assms(1) unfolding cl_ok_def r raise_simps by simp
  moreover have "tags_ok (X - {b}) (raise_in_cl_list b s) ?C"
    unfolding tags_ok_def r raise_simps
  proof
    fix k
    show "case ?C (k + 1) of [] \<Rightarrow> (if k = ?cl then bi_handler_to_use (bc_blk s b) else bc_handler s k) = Popall_execute_normal
      | a # _ \<Rightarrow> a \<notin> X - {b} \<longrightarrow> (if k = ?cl then bi_handler_to_use (bc_blk s b) else bc_handler s k) = bi_handler_to_use (bc_blk s a)"
    proof (cases "k = ?cl")
      case False
      then have n: "b \<notin> set (C (k + 1))" using own by simp
      then have "?C (k + 1) = C (k + 1)" using False by (simp add: moved_def remove1_idem)
      then show ?thesis using False n spec [OF assms(2) [unfolded tags_ok_def], of k] by (cases "C (k + 1)") auto
    qed (simp add: moved_def)
  qed
  ultimately show ?thesis by (intro exI [of _ ?C]) (simp add: moved_def)
qed

lemma UNIV_list_root: "UNIV = {Active, Dormant}"
  using list_root.exhaust by auto

lemma live_eq: "resident A = set (A Active) \<union> set (A Dormant)"
  by (auto simp: members_def UNIV_list_root)

lemma lists_okD:
  assumes "lists_ok s A F"
  shows "links_on UNIV (bc_list s) A" "free_chain (lk_next (bc_list s)) (bc_chunks s) F" "distinct F"
    "set F \<inter> resident A = {}" "set F \<inter> held s = {}" "held s \<inter> resident A = {}"
    "resident A \<union> held s \<union> set F \<subseteq> {..<records s}" "hold_ok s"
  using assms by (auto simp: lists_ok_def)

lemma lists_disjoint: "lists_ok s A F \<Longrightarrow> set (A Active) \<inter> set (A Dormant) = {}"
  using links_onD(3) [OF lists_okD(1), of s A F Active Dormant] by auto

lemma free_chain_cong: "(\<And>b. b \<in> set bs \<Longrightarrow> nx b = nx' b) \<Longrightarrow> free_chain nx h bs = free_chain nx' h bs"
  by (induction bs arbitrary: h) auto

lemma moved_sets:
  assumes "lists_ok s A F" "b \<in> resident A"
  shows "resident (moved r b A) = resident A" "c \<noteq> b \<Longrightarrow> c \<in> set (moved r b A r') \<longleftrightarrow> c \<in> set (A r')"
    "b \<in> set (moved r b A r') \<longleftrightarrow> r' = r"
  using lists.moved_members [OF lists_okD(1) [OF assms(1)] assms(2)] lists.moved_mem [OF lists_okD(1) [OF assms(1)]] by simp_all

lemma move_ok:
  assumes "lists_ok s A F" "b \<in> resident A"
  shows "lists_ok (s\<lparr>bc_list := link_front r b (unlink b (bc_list s))\<rparr>) (moved r b A) F"
proof -
  note l = lists_okD [OF assms(1)]
  obtain q where q: "b \<in> set (A q)" using assms(2) by (auto simp: members_def)
  have lk: "links_on UNIV (link_front r b (unlink b (bc_list s))) (moved r b A)"
    by (rule lists.move_front_holds [OF l(1) assms(2)])
  obtain xs ys where xy: "A q = xs @ b # ys" using split_list [OF q] by blast
  have c: "chain (bc_list s) (Root q) (lk_root (bc_list s) q) (xs @ b # ys)" "distinct (xs @ b # ys)"
    using links_onD(1,2) [OF l(1), of q] xy by auto
  have "lk_next (link_front r b (unlink b (bc_list s))) f = lk_next (bc_list s) f" if "f \<in> set F" for f
  proof -
    have "f \<notin> resident A" using that l(4) by blast
    then have "f \<notin> set (xs @ b # ys)" unfolding xy [symmetric] members_def by blast
    with unlink_frame(1) [OF c this] show ?thesis by auto
  qed
  then have "free_chain (lk_next (link_front r b (unlink b (bc_list s)))) (bc_chunks s) F"
    using l(2) free_chain_cong [of F "lk_next (link_front r b (unlink b (bc_list s)))" "lk_next (bc_list s)"] by simp
  then show ?thesis using l lk moved_sets(1) [OF assms] by (simp add: lists_ok_def hold_ok_def)
qed

end
