(* ===== verification/Block_Check.thy ===== *)
theory Block_Check
  imports Block_Inv
begin

text \<open>
  Invalidation of a block, fresh records, and the check of the checksums: each keeps the invariant of
  the block cache, and the check ends.
\<close>

section \<open>Invalidation\<close>

definition invalid_info :: "blockinfo \<Rightarrow> blockinfo" where
  "invalid_info x = x\<lparr>bi_optlevel := 0, bi_count := 3, bi_handler := HNull, bi_handler_to_use := Popall_execute_normal,
     bi_direct_handler := HNull, bi_direct_handler_to_use := bi_direct_pen x, bi_needed_flags := 0xff,
     bi_status := BI_INVALID, bi_dep := (bi_dep x)(0 := clear_dep (bi_dep x 0), 1 := clear_dep (bi_dep x 1))\<rparr>"

lemma upd_blk_upd_blk: "upd_blk b f (upd_blk b g s) = upd_blk b (\<lambda>x. f (g x)) s"
  by (simp add: upd_blk_def)

lemma invalid_info_simps [simp]:
  "bi_status (invalid_info x) = BI_INVALID" "bi_pc_p (invalid_info x) = bi_pc_p x" "bi_count (invalid_info x) = 3"
  "bi_optlevel (invalid_info x) = 0" "bi_handler_to_use (invalid_info x) = Popall_execute_normal"
  "bi_direct_handler_to_use (invalid_info x) = bi_direct_pen x" "bi_direct_pen (invalid_info x) = bi_direct_pen x"
  by (simp_all add: invalid_info_def)

lemma block_ok_invalid [simp]: "block_ok E (invalid_info x) a"
  by (simp add: block_ok_def)

lemma invalidate_block_ok:
  assumes "deps_ok lim s V R D" "b \<in> R"
  shows "\<exists>J L D'. invalidate_block b s = Some (s\<lparr>bc_blk := (bc_blk s)(b := invalid_info (bc_blk s b)), bc_jumps := J, bc_deps := L\<rparr>) \<and>
    deps_ok lim (s\<lparr>bc_blk := (bc_blk s)(b := invalid_info (bc_blk s b)), bc_jumps := J, bc_deps := L\<rparr>) V R D' \<and>
    linked D' = linked D - {(b, 0), (b, 1)} \<and>
    (\<forall>i < 2. dep_of (b, i) (s\<lparr>bc_blk := (bc_blk s)(b := invalid_info (bc_blk s b))\<rparr>) = clear_dep (dep_of (b, i) s)) \<and>
    (\<forall>i < 2. lk_prev L (b, i) = None \<and> lk_next L (b, i) = None)"
proof -
  let ?g = "\<lambda>x. x\<lparr>bi_optlevel := 0, bi_count := optcount ! 0 - 1, bi_handler := HNull,
               bi_handler_to_use := Popall_execute_normal, bi_direct_handler := HNull\<rparr>"
  let ?f = "\<lambda>x. x\<lparr>bi_needed_flags := 0xff, bi_status := BI_INVALID,
               bi_dep := (bi_dep x)(0 := clear_dep (bi_dep x 0), 1 := clear_dep (bi_dep x 1))\<rparr>"
  let ?h = "\<lambda>x. x\<lparr>bi_needed_flags := 0xff, bi_status := BI_INVALID\<rparr>"
  have "deps_ok lim (upd_blk b ?g s) V R D" by (rule deps_ok_cong [OF _ _ _ _ assms(1)]) simp_all
  from set_dhtu_ok [OF this assms(2), of "bi_direct_pen (bc_blk s b)"]
  obtain J where J: "set_dhtu b (bi_direct_pen (bc_blk s b)) (upd_blk b ?g s) =
      Some (upd_blk b (bi_direct_handler_to_use_update (\<lambda>_. bi_direct_pen (bc_blk s b))) ((upd_blk b ?g s)\<lparr>bc_jumps := J\<rparr>))"
    and ok: "deps_ok lim (upd_blk b (bi_direct_handler_to_use_update (\<lambda>_. bi_direct_pen (bc_blk s b))) ((upd_blk b ?g s)\<lparr>bc_jumps := J\<rparr>)) V R D"
    by blast
  let ?s = "upd_blk b (bi_direct_handler_to_use_update (\<lambda>_. bi_direct_pen (bc_blk s b))) ((upd_blk b ?g s)\<lparr>bc_jumps := J\<rparr>)"
  let ?D1 = "\<lambda>t. remove1 (b, 0) (D t)" and ?D2 = "\<lambda>t. remove1 (b, 1) (remove1 (b, 0) (D t))"
  have i: "(0::nat) < 2" "(1::nat) < 2" by simp_all
  note d0 = drop_dep_ok [OF ok assms(2) i(1)]
  note d1 = drop_dep_ok [OF d0(1) assms(2) i(2)]
  let ?t = "upd_blk b ?h (drop_dep b 1 (drop_dep b 0 ?s))"
  have ok2: "deps_ok lim ?t V R ?D2" by (rule deps_ok_cong [OF _ _ _ _ d1(1)]) simp_all
  have t: "remove_deps b (upd_blk b ?f ?s) = ?t"
    unfolding remove_deps_def drop_dep_def remove_dep_upd upd_blk_upd_blk
    by (rule arg_cong [where f = "\<lambda>g. upd_blk b g _"]) auto
  have t2: "?t = s\<lparr>bc_blk := (bc_blk s)(b := invalid_info (bc_blk s b)), bc_jumps := J, bc_deps := bc_deps ?t\<rparr>"
  proof -
    have "bc_blk ?t b = invalid_info (bc_blk s b)"
      by (rule blockinfo.equality) (simp_all add: drop_dep_def invalid_info_def optcount_def)
    then have "bc_blk ?t = (bc_blk s)(b := invalid_info (bc_blk s b))" by (auto simp: drop_dep_def fun_eq_iff)
    then show ?thesis by (intro bcache.equality) (simp_all add: drop_dep_def)
  qed
  have inv: "invalidate_block b s = Some ?t"
    unfolding invalidate_block_def using J t by simp
  have lk: "linked ?D2 = linked D - {(b, 0), (b, 1)}" unfolding d1(2) d0(2) by auto
  have lo: "lk_prev (bc_deps ?t) (b, i) = None \<and> lk_next (bc_deps ?t) (b, i) = None" if "i < 2" for i
    using deps_okD(7) [OF ok2 assms(2) that] lk that unfolding loose_def by (cases "i = 0") (auto simp: less_2_cases_iff)
  have de: "dep_of (b, i) (s\<lparr>bc_blk := (bc_blk s)(b := invalid_info (bc_blk s b))\<rparr>) = clear_dep (dep_of (b, i) s)" if "i < 2" for i
    using that by (auto simp: dep_of_def invalid_info_def less_2_cases_iff)
  show ?thesis
    by (rule exI [of _ J], rule exI [of _ "bc_deps ?t"], rule exI [of _ ?D2])
      (use inv ok2 lk lo de t2 in \<open>simp only: t2 [symmetric]; simp\<close>)
qed

section \<open>Fresh records\<close>

lemma take_held_find:
  "take_held addr is s = (case find (\<lambda>i. bc_hold s i \<noteq> None) is of None \<Rightarrow> None
     | Some i \<Rightarrow> do {
         let bi = the (bc_hold s i);
         s \<leftarrow> invalidate_block bi (upd_blk bi (bi_pc_p_update (\<lambda>_. addr)) (s\<lparr>bc_hold := (bc_hold s)(i := None)\<rparr>));
         Some (bi, add_to_cl_list bi (add_to_active bi s)) })"
  by (induction "is") (auto split: option.splits)

lemma deps_ok_grow:
  assumes "deps_ok lim s V R D" "b \<in> R"
    and "\<And>i. i < 2 \<Longrightarrow> dp_jmp_off (dep_of (b, i) s) = None \<and> dp_target (dep_of (b, i) s) = None"
  shows "deps_ok lim s (insert b V) R D"
proof -
  note d = deps_okD [OF assms(1)]
  show ?thesis
  proof (rule deps_okI)
    show "fst e \<in> insert b V \<and> snd e < 2" if "e \<in> set (D t)" for t e using d(3,4) [OF that] by simp
    show "dp_jmp_off (dep_of (c, i) s) = None \<and> dp_target (dep_of (c, i) s) = None"
      if "c \<in> insert b V" "i < 2" "(c, i) \<notin> linked D" for c i
      using that d(8) [of c i] assms(3) [of i] by (cases "c = b") auto
  qed (use d(1,2,5-7,9) assms(2) in \<open>simp_all\<close>)
qed

lemma held_fresh:
  assumes "lists_ok s A F" "find (\<lambda>i. bc_hold s i \<noteq> None) [0..<MAX_HOLD_BI] = Some i" "b = the (bc_hold s i)"
    and "s' = s\<lparr>bc_hold := (bc_hold s)(i := None), bc_list := link_front Active b (bc_list s)\<rparr>"
  shows "b \<in> held s" "held s' = held s - {b}" "lists_ok s' (A(Active := b # A Active)) F"
    "hold_filled (bc_hold s) \<Longrightarrow> hold_filled (bc_hold s')"
proof -
  note l = lists_okD [OF assms(1)]
  have i: "i < MAX_HOLD_BI" "bc_hold s i = Some b" "\<And>j. j < i \<Longrightarrow> bc_hold s j = None"
    using assms(2,3) by (auto simp: find_Some_iff)
  show b: "b \<in> held s" using i by (auto simp: held_def)
  have u: "j = i" if "j < MAX_HOLD_BI" "bc_hold s j = Some b" for j
  proof (rule ccontr)
    assume "j \<noteq> i"
    moreover have "\<forall>i < MAX_HOLD_BI. \<forall>j < MAX_HOLD_BI. i \<noteq> j \<longrightarrow> bc_hold s i = bc_hold s j \<longrightarrow> bc_hold s i = None"
      using l(8) by (simp add: hold_ok_def)
    ultimately show False using that i(1,2) by (metis option.distinct(1))
  qed
  show h: "held s' = held s - {b}"
  proof (intro set_eqI)
    fix c
    have "c \<in> held s' \<longleftrightarrow> (\<exists>j < MAX_HOLD_BI. j \<noteq> i \<and> bc_hold s j = Some c)" unfolding held_def assms(4) by auto
    also have "\<dots> \<longleftrightarrow> c \<in> held s - {b}"
    proof (cases "c = b")
      case True
      then show ?thesis using u by blast
    next
      case False
      then have "bc_hold s i \<noteq> Some c" using i(2) by simp
      then show ?thesis using False unfolding held_def by auto
    qed
    finally show "c \<in> held s' \<longleftrightarrow> c \<in> held s - {b}" .
  qed
  have ho: "hold_ok s'" using l(8) unfolding hold_ok_def assms(4) by auto
  show "hold_filled (bc_hold s')" if f: "hold_filled (bc_hold s)"
    unfolding hold_filled_def
  proof (intro allI impI)
    fix j assume j: "Suc j < MAX_HOLD_BI" "bc_hold s' j \<noteq> None"
    have "j \<noteq> i" "bc_hold s j \<noteq> None" using j(2) unfolding assms(4) by (auto split: if_splits)
    then have "i < j" using i(3) [of j] by (cases j i rule: linorder_cases) auto
    moreover have "bc_hold s (Suc j) \<noteq> None" using f j(1) \<open>bc_hold s j \<noteq> None\<close> unfolding hold_filled_def by blast
    ultimately show "bc_hold s' (Suc j) \<noteq> None" unfolding assms(4) by simp
  qed
  have n: "b \<notin> resident A" "b \<notin> set F" using b l(5,6) by auto
  have "links_on UNIV (link_front Active b (bc_list s)) (A(Active := b # A Active))"
    by (rule links_on_link_front [OF l(1) UNIV_I n(1)])
  moreover have "free_chain (lk_next (link_front Active b (bc_list s))) (bc_chunks s) F"
  proof -
    have "lk_next (link_front Active b (bc_list s)) f = lk_next (bc_list s) f" if "f \<in> set F" for f using n(2) that by auto
    then show ?thesis using l(2) free_chain_cong by metis
  qed
  moreover have "resident (A(Active := b # A Active)) = insert b (resident A)" by (auto simp: live_eq)
  ultimately show "lists_ok s' (A(Active := b # A Active)) F"
    using l b h n ho unfolding lists_ok_def by (auto simp: assms(4))
qed

lemma add_cl_ok:
  assumes "cl_ok s V C" "tags_ok X s C" "b \<notin> V" "\<forall>c \<in> V. bi_pc_p (bc_blk s c) \<noteq> bi_pc_p (bc_blk s b)"
  shows "\<exists>C'. cl_ok (add_to_cl_list b s) (insert b V) C' \<and> tags_ok X (add_to_cl_list b s) C'"
proof -
  note c = cl_okD [OF assms(1)]
  let ?cl = "cacheline (bi_pc_p (bc_blk s b))"
  let ?C = "C(?cl + 1 := b # C (?cl + 1))"
  have n: "b \<notin> members UNIV C" using assms(3) c(2) by (auto simp: members_def)
  have l: "links_on UNIV (link_front (?cl + 1) b (bc_cl s)) ?C" by (rule links_on_link_front [OF c(1) UNIV_I n])
  have r: "bc_cl (add_to_cl_list b s) = link_front (?cl + 1) b (bc_cl s)" "bc_blk (add_to_cl_list b s) = bc_blk s"
    "\<And>k. bc_handler (add_to_cl_list b s) k = (if k = ?cl then bi_handler_to_use (bc_blk s b) else bc_handler s k)"
    by (auto simp: add_to_cl_list_def Let_def)
  have "set (?C i) = {a \<in> insert b V. i = cacheline (bi_pc_p (bc_blk s a)) + 1}" for i using c(2) by auto
  moreover have "inj_on (\<lambda>a. bi_pc_p (bc_blk s a)) (insert b V)" using assms(1,3,4) by (auto simp: cl_ok_def)
  ultimately have "cl_ok (add_to_cl_list b s) (insert b V) ?C" using l unfolding cl_ok_def r by simp
  moreover have "tags_ok X (add_to_cl_list b s) ?C"
    unfolding tags_ok_def r
  proof
    fix k
    show "case ?C (k + 1) of [] \<Rightarrow> (if k = ?cl then bi_handler_to_use (bc_blk s b) else bc_handler s k) = Popall_execute_normal
      | a # _ \<Rightarrow> a \<notin> X \<longrightarrow> (if k = ?cl then bi_handler_to_use (bc_blk s b) else bc_handler s k) = bi_handler_to_use (bc_blk s a)"
      using spec [OF assms(2) [unfolded tags_ok_def], of k] by (cases "k = ?cl") auto
  qed
  ultimately show ?thesis by blast
qed

lemma take_held_ok:
  assumes "cache_inv E X lim s A C D F" "\<forall>b \<in> resident A. bi_pc_p (bc_blk s b) \<noteq> addr" "held s \<noteq> {}"
  shows "\<exists>b s' C' D'. take_held addr [0..<MAX_HOLD_BI] s = Some (b, s') \<and>
    cache_inv E X lim s' (A(Active := b # A Active)) C' D' F \<and> b \<in> held s \<and> held s' = held s - {b} \<and>
    linked D' = linked D \<and> bi_pc_p (bc_blk s' b) = addr \<and> bi_status (bc_blk s' b) = BI_INVALID \<and>
    (\<forall>c. c \<noteq> b \<longrightarrow> bc_blk s' c = bc_blk s c) \<and> bc_compile_p s' = bc_compile_p s \<and> bc_pools s' = bc_pools s \<and>
    (hold_filled (bc_hold s) \<longrightarrow> hold_filled (bc_hold s'))"
proof -
  note I = cache_invD [OF assms(1)]
  let ?find = "find (\<lambda>i. bc_hold s i \<noteq> None) [0..<MAX_HOLD_BI]"
  obtain i where i: "?find = Some i"
    using assms(3) by (cases ?find) (auto simp: find_None_iff held_def)
  define b where "b = the (bc_hold s i)"
  define s0 where "s0 = upd_blk b (bi_pc_p_update (\<lambda>_. addr)) (s\<lparr>bc_hold := (bc_hold s)(i := None)\<rparr>)"
  note h = held_fresh [OF I(1) i b_def refl]
  have nb: "b \<notin> resident A" using lists_okD(6) [OF I(1)] h(1) by auto
  let ?V = "resident A" and ?R = "resident A \<union> held s"
  have "deps_ok lim s0 ?V ?R D"
    by (rule deps_ok_cong [OF _ _ _ _ I(4)]) (use nb in \<open>auto simp: s0_def\<close>)
  from invalidate_block_ok [OF this, of b] h(1)
  obtain J L D' s1 where s1: "s1 = s0\<lparr>bc_blk := (bc_blk s0)(b := invalid_info (bc_blk s0 b)), bc_jumps := J, bc_deps := L\<rparr>"
    and inv: "invalidate_block b s0 = Some s1" and d1: "deps_ok lim s1 ?V ?R D'" and lk: "linked D' = linked D - {(b, 0), (b, 1)}"
    and cl: "\<forall>i < 2. dep_of (b, i) (s0\<lparr>bc_blk := (bc_blk s0)(b := invalid_info (bc_blk s0 b))\<rparr>) = clear_dep (dep_of (b, i) s0)"
    by auto
  have ub: "(b, k) \<notin> linked D" for k using deps_okD(3) [OF I(4)] nb unfolding linked_def by fastforce
  have lk': "linked D' = linked D" using lk ub by auto
  have d2: "deps_ok lim s1 (insert b ?V) ?R D'"
    by (rule deps_ok_grow [OF d1]) (use h(1) cl in \<open>auto simp: s1 dep_of_def clear_dep_def\<close>)
  have c1: "cl_ok s1 ?V C" unfolding s1 s0_def by (subst cl_ok_cong [where s = s]) (use nb I(2) in auto)
  have nC: "b \<notin> set (C k)" for k using cl_okD(2) [OF I(2)] nb by auto
  have t1: "tags_ok X s1 C" unfolding tags_ok_def
  proof
    fix k
    show "case C (k + 1) of [] \<Rightarrow> bc_handler s1 k = Popall_execute_normal
      | a # _ \<Rightarrow> a \<notin> X \<longrightarrow> bc_handler s1 k = bi_handler_to_use (bc_blk s1 a)"
      using spec [OF I(3) [unfolded tags_ok_def], of k] nC [of "k + 1"] by (cases "C (k + 1)") (auto simp: s1 s0_def)
  qed
  let ?s2 = "add_to_active b s1" let ?s3 = "add_to_cl_list b ?s2" let ?A = "A(Active := b # A Active)"
  have "cl_ok ?s2 ?V C" using c1 by (subst cl_ok_cong [where s = s1]) (auto simp: add_to_active_def)
  moreover have "tags_ok X ?s2 C" by (rule tags_ok_cong [OF _ _ _ t1]) (auto simp: add_to_active_def)
  moreover have "\<forall>c \<in> ?V. bi_pc_p (bc_blk ?s2 c) \<noteq> bi_pc_p (bc_blk ?s2 b)"
    using assms(2) nb by (auto simp: add_to_active_def s1 s0_def)
  ultimately obtain C' where C': "cl_ok ?s3 (insert b ?V) C'" "tags_ok X ?s3 C'" using add_cl_ok nb by blast
  have lv: "resident ?A = insert b ?V" by (auto simp: live_eq)
  have f: "bc_blk ?s3 = (bc_blk s)(b := invalid_info ((bc_blk s b)\<lparr>bi_pc_p := addr\<rparr>))" "bc_hold ?s3 = (bc_hold s)(i := None)"
    "bc_list ?s3 = link_front Active b (bc_list s)" "bc_chunks ?s3 = bc_chunks s" "bc_pools ?s3 = bc_pools s"
    "bc_compile_p ?s3 = bc_compile_p s" "bc_deps ?s3 = bc_deps s1" "bc_jumps ?s3 = bc_jumps s1" "bc_blk s1 = bc_blk ?s3"
    by (simp_all add: add_to_cl_list_def add_to_active_def s1 s0_def Let_def)
  have hs: "held ?s3 = held s - {b}" using h(2) by (simp add: held_def f(2))
  have "lists_ok ?s3 ?A F" using h(3) by (subst lists_ok_cong [OF _ _ _ _]) (auto simp: f)
  moreover have "deps_ok lim ?s3 (resident ?A) (resident ?A \<union> held ?s3) D'"
  proof -
    have "insert b ?V \<union> held ?s3 = ?R" using h(1) unfolding hs by auto
    moreover have "deps_ok lim ?s3 (insert b ?V) ?R D'" by (rule deps_ok_cong [OF _ _ _ _ d2]) (simp_all add: f)
    ultimately show ?thesis unfolding lv by (simp only:)
  qed
  moreover have "counts_ok ?s3 (resident ?A) (linked D')"
    using I(5) ub unfolding counts_ok_def lv lk' f by auto
  moreover have "blocks_ok E X ?s3 ?A"
    using I(6) nb unfolding blocks_ok_def lv f by auto
  ultimately have "cache_inv E X lim ?s3 ?A C' D' F" using C' lv by (intro cache_invI) simp_all
  moreover have "take_held addr [0..<MAX_HOLD_BI] s = Some (b, ?s3)"
    unfolding take_held_find i using inv by (simp add: b_def [symmetric] s0_def [symmetric])
  ultimately show ?thesis
    by (intro exI [of _ b] exI [of _ ?s3] exI [of _ C'] exI [of _ D'] conjI) (use h(1,4) hs lk' in \<open>simp_all add: f\<close>)
qed

end
