(* ===== verification/Block_Recheck.thy ===== *)
theory Block_Recheck
  imports Block_Check
begin

text \<open>
  The check of a block whose code may have changed: the steps of \<open>block_check_checksum\<close>, the invariant
  over the whole recursion, and its end.
\<close>

section \<open>The steps of a check\<close>

text \<open>What a check may change: the records of the blocks that wait for a check, and nothing of where a block is.\<close>

definition checked :: "bcache \<Rightarrow> bcache \<Rightarrow> bool" where
  "checked s s' \<longleftrightarrow> bc_hold s' = bc_hold s \<and> bc_compile_p s' = bc_compile_p s \<and> bc_pools s' = bc_pools s \<and>
     (\<forall>c. bi_status (bc_blk s c) \<noteq> BI_NEED_CHECK \<longrightarrow> bc_blk s' c = bc_blk s c) \<and>
     (\<forall>c. bi_pc_p (bc_blk s' c) = bi_pc_p (bc_blk s c)) \<and>
     (\<forall>c. bi_status (bc_blk s' c) = BI_NEED_CHECK \<longrightarrow> bi_status (bc_blk s c) = BI_NEED_CHECK)"

lemma checked_refl [simp]: "checked s s"
  by (simp add: checked_def)

lemma checked_trans: "checked s s' \<Longrightarrow> checked s' s'' \<Longrightarrow> checked s s''"
  unfolding checked_def by metis

lemma checkedD:
  assumes "checked s s'"
  shows "bc_hold s' = bc_hold s" "held s' = held s" "bc_compile_p s' = bc_compile_p s" "bc_pools s' = bc_pools s"
    "bi_status (bc_blk s c) \<noteq> BI_NEED_CHECK \<Longrightarrow> bc_blk s' c = bc_blk s c"
    "bi_pc_p (bc_blk s' c) = bi_pc_p (bc_blk s c)"
    "bi_status (bc_blk s' c) = BI_NEED_CHECK \<Longrightarrow> bi_status (bc_blk s c) = BI_NEED_CHECK"
proof -
  have h: "bc_hold s' = bc_hold s" using assms unfolding checked_def by blast
  then show "bc_hold s' = bc_hold s" "held s' = held s" by (simp_all add: held_def)
qed (use assms in \<open>unfold checked_def, blast+\<close>)

lemma checked_upd:
  assumes "checked s s1" "bi_status (bc_blk s b) = BI_NEED_CHECK" "bc_blk s' = (bc_blk s1)(b := x)"
    "bi_pc_p x = bi_pc_p (bc_blk s1 b)" "bi_status x \<noteq> BI_NEED_CHECK"
    "bc_hold s' = bc_hold s1" "bc_compile_p s' = bc_compile_p s1" "bc_pools s' = bc_pools s1"
  shows "checked s s'"
  unfolding checked_def
proof (intro conjI allI impI)
  note c = checkedD [OF assms(1)]
  show "bc_hold s' = bc_hold s" "bc_compile_p s' = bc_compile_p s" "bc_pools s' = bc_pools s"
    using c(1,3,4) assms(6-8) by simp_all
  show "bc_blk s' d = bc_blk s d" if "bi_status (bc_blk s d) \<noteq> BI_NEED_CHECK" for d
    using c(5) [OF that] that assms(2,3) by (cases "d = b") simp_all
  show "bi_pc_p (bc_blk s' d) = bi_pc_p (bc_blk s d)" for d using c(6) [of d] assms(3,4) by (cases "d = b") simp_all
  show "bi_status (bc_blk s d) = BI_NEED_CHECK" if "bi_status (bc_blk s' d) = BI_NEED_CHECK" for d
    using c(7) [of d] that assms(2,3,5) by (cases "d = b") simp_all
qed

definition pending :: "bid set \<Rightarrow> bcache \<Rightarrow> bid set" where
  "pending V s = {c \<in> V. bi_status (bc_blk s c) = BI_NEED_CHECK}"

lemma begin_check_ok:
  assumes "cache_inv E X lim s A C D F" "b \<in> resident A"
    and "x = (bc_blk s b)\<lparr>bi_handler_to_use := bi_handler (bc_blk s b),
           bi_direct_handler_to_use := bi_direct_handler (bc_blk s b), bi_status := BI_CHECKING\<rparr>"
  shows "\<exists>J. set_dhtu b (bi_direct_handler (bc_blk s b)) (upd_blk b (\<lambda>x. x\<lparr>bi_handler_to_use := bi_handler x\<rparr>) s) =
      Some (upd_blk b (bi_direct_handler_to_use_update (\<lambda>_. bi_direct_handler (bc_blk s b)))
        ((upd_blk b (\<lambda>x. x\<lparr>bi_handler_to_use := bi_handler x\<rparr>) s)\<lparr>bc_jumps := J\<rparr>)) \<and>
    upd_blk b (bi_status_update (\<lambda>_. BI_CHECKING)) (upd_blk b (bi_direct_handler_to_use_update (\<lambda>_. bi_direct_handler (bc_blk s b)))
        ((upd_blk b (\<lambda>x. x\<lparr>bi_handler_to_use := bi_handler x\<rparr>) s)\<lparr>bc_jumps := J\<rparr>)) =
      s\<lparr>bc_blk := (bc_blk s)(b := x), bc_jumps := J\<rparr> \<and>
    cache_inv E (insert b X) lim (s\<lparr>bc_blk := (bc_blk s)(b := x), bc_jumps := J\<rparr>) A C D F"
proof -
  note I = cache_invD [OF assms(1)]
  let ?s1 = "upd_blk b (\<lambda>x. x\<lparr>bi_handler_to_use := bi_handler x\<rparr>) s"
  let ?dh = "bi_direct_handler (bc_blk s b)"
  have "deps_ok lim ?s1 (resident A) (resident A \<union> held s) D" by (rule deps_ok_cong [OF _ _ _ _ I(4)]) simp_all
  from set_dhtu_ok [OF this, of b ?dh] assms(2)
  obtain J where J: "set_dhtu b ?dh ?s1 = Some (upd_blk b (bi_direct_handler_to_use_update (\<lambda>_. ?dh)) (?s1\<lparr>bc_jumps := J\<rparr>))"
    "deps_ok lim (upd_blk b (bi_direct_handler_to_use_update (\<lambda>_. ?dh)) (?s1\<lparr>bc_jumps := J\<rparr>)) (resident A) (resident A \<union> held s) D"
    by blast
  let ?s = "s\<lparr>bc_blk := (bc_blk s)(b := x), bc_jumps := J\<rparr>"
  have e: "upd_blk b (bi_status_update (\<lambda>_. BI_CHECKING)) (upd_blk b (bi_direct_handler_to_use_update (\<lambda>_. ?dh)) (?s1\<lparr>bc_jumps := J\<rparr>)) = ?s"
    by (rule bcache.equality) (simp_all add: assms(3))
  have "cache_inv E (insert b X) lim ?s A C D F"
  proof (rule cache_invI)
    show "lists_ok ?s A F" using I(1) by (subst lists_ok_cong [where s = s]) simp_all
    show "cl_ok ?s (resident A) C" using I(2) by (subst cl_ok_cong [where s = s]) (auto simp: assms(3))
    show "tags_ok (insert b X) ?s C" by (rule tags_ok_cong [OF _ _ _ I(3)]) auto
    show "deps_ok lim ?s (resident A) (resident A \<union> held ?s) D"
      using deps_ok_cong [OF _ _ _ _ J(2), of ?s] by (simp add: assms(3))
    show "counts_ok ?s (resident A) (linked D)" using I(5) by (auto simp: counts_ok_def assms(3))
    show "blocks_ok E (insert b X) ?s A" using I(6) by (auto simp: blocks_ok_def assms(3))
  qed
  with J(1) e show ?thesis by blast
qed

lemma raise_upd:
  assumes "\<And>x. bi_pc_p (f x) = bi_pc_p x" "\<And>x. bi_handler_to_use (f x) = bi_handler_to_use x"
  shows "upd_blk b f (raise_in_cl_list b s) = raise_in_cl_list b (upd_blk b f s)"
  using assms by (simp add: raise_in_cl_list_def add_to_cl_list_def remove_from_cl_list_def upd_blk_def Let_def)

text \<open>
  A block gets its new record \<open>y\<close>, goes to the front of one of the two lists and to the front of the
  list of its table entry.
\<close>

lemma settle_ok:
  assumes "cache_inv E X lim s A C D F" "b \<in> resident A"
    and t: "bc_list t = link_front r b (unlink b (bc_list s))" "bc_blk t = (bc_blk s)(b := y)" "bc_cl t = bc_cl s"
      "bc_handler t = bc_handler s" "bc_deps t = bc_deps s" "bc_jumps t = bc_jumps s" "bc_hold t = bc_hold s"
      "bc_chunks t = bc_chunks s" "bc_pools t = bc_pools s"
    and y: "bi_pc_p y = bi_pc_p (bc_blk s b)" "bi_dep y = bi_dep (bc_blk s b)" "bi_count y = bi_count (bc_blk s b)"
      "bi_direct_handler_to_use y = bi_direct_handler_to_use (bc_blk s b)" "bi_optlevel y = bi_optlevel (bc_blk s b)"
      "block_ok E y (Active = r)"
  shows "\<exists>C'. cache_inv E (X - {b}) lim (raise_in_cl_list b t) (moved r b A) C' D F \<and> resident (moved r b A) = resident A"
proof -
  note I = cache_invD [OF assms(1)]
  note m = moved_sets [OF I(1) assms(2), where r = r]
  let ?A = "moved r b A"
  have h: "held t = held s" by (simp add: held_def t)
  have l: "lists_ok t ?A F"
    using move_ok [OF I(1) assms(2), of r] by (subst lists_ok_cong [where s = "s\<lparr>bc_list := link_front r b (unlink b (bc_list s))\<rparr>"]) (simp_all add: t)
  have "cl_ok t (resident A) C" using I(2) y(1) by (subst cl_ok_cong [where s = s]) (auto simp: t)
  moreover have "tags_ok (insert b X) t C" by (rule tags_ok_cong [OF _ _ _ I(3)]) (auto simp: t)
  ultimately obtain C' where C': "cl_ok (raise_in_cl_list b t) (resident A) C'" "tags_ok (insert b X - {b}) (raise_in_cl_list b t) C'"
    using raise_ok assms(2) by blast
  have "cache_inv E (X - {b}) lim (raise_in_cl_list b t) ?A C' D F"
  proof (rule cache_invI, unfold m(1))
    show "lists_ok (raise_in_cl_list b t) ?A F" using l by (subst lists_ok_cong [where s = t]) simp_all
    show "cl_ok (raise_in_cl_list b t) (resident A) C'" by (rule C'(1))
    show "tags_ok (X - {b}) (raise_in_cl_list b t) C'" using C'(2) by simp
    show "deps_ok lim (raise_in_cl_list b t) (resident A) (resident A \<union> held (raise_in_cl_list b t)) D"
      using deps_ok_cong [OF _ _ _ _ I(4), of "raise_in_cl_list b t"] y(2,4) by (simp add: t h)
    show "counts_ok (raise_in_cl_list b t) (resident A) (linked D)" using I(5) y(3,5) by (auto simp: counts_ok_def t)
    show "blocks_ok E (X - {b}) (raise_in_cl_list b t) ?A"
      unfolding blocks_ok_def m(1)
    proof (intro conjI ballI)
      fix c assume c: "c \<in> resident A - (X - {b})"
      show "block_ok E (bc_blk (raise_in_cl_list b t) c) (c \<in> set (?A Active))"
        using y(6) m(3) m(2) [of c] c blocks_okD(1) [OF I(6), of c] by (cases "c = b") (auto simp: t)
    next
      fix c assume "c \<in> X - {b}"
      then show "bi_status (bc_blk (raise_in_cl_list b t) c) \<noteq> BI_NEED_CHECK" using blocks_okD(2) [OF I(6)] by (auto simp: t)
    qed
  qed
  with m(1) show ?thesis by blast
qed

lemma reactivate_ok:
  assumes "cache_inv E X lim s A C D F" "b \<in> resident A"
    and "s' = upd_blk b (bi_status_update (\<lambda>_. BI_ACTIVE)) (raise_in_cl_list b (add_to_active b (remove_from_list b s)))"
    and "bi_handler_to_use (bc_blk s b) = bi_handler (bc_blk s b)" "bi_csi (bc_blk s b) \<noteq> []"
    "bi_direct_handler_to_use (bc_blk s b) = bi_direct_handler (bc_blk s b)"
  shows "\<exists>A' C'. cache_inv E (X - {b}) lim s' A' C' D F \<and> resident A' = resident A"
proof -
  have "s' = raise_in_cl_list b (upd_blk b (bi_status_update (\<lambda>_. BI_ACTIVE)) (add_to_active b (remove_from_list b s)))"
    unfolding assms(3) by (rule raise_upd) simp_all
  moreover have "\<exists>C'. cache_inv E (X - {b}) lim (raise_in_cl_list b
        (upd_blk b (bi_status_update (\<lambda>_. BI_ACTIVE)) (add_to_active b (remove_from_list b s)))) (moved Active b A) C' D F \<and>
      resident (moved Active b A) = resident A"
    by (rule settle_ok [OF assms(1,2), where y = "(bc_blk s b)\<lparr>bi_status := BI_ACTIVE\<rparr>"])
      (use assms(4-6) in \<open>simp_all add: add_to_active_def remove_from_list_def block_ok_def\<close>)
  ultimately show ?thesis by blast
qed

lemma discard_ok:
  assumes "cache_inv E X lim s A C D F" "b \<in> resident A"
  shows "\<exists>s1 C' D'. invalidate_block b s = Some s1 \<and> cache_inv E (X - {b}) lim (raise_in_cl_list b s1) A C' D' F \<and>
    bc_blk s1 = (bc_blk s)(b := invalid_info (bc_blk s b)) \<and> bc_hold s1 = bc_hold s \<and> bc_compile_p s1 = bc_compile_p s \<and>
    bc_pools s1 = bc_pools s"
proof -
  note I = cache_invD [OF assms(1)]
  have "b \<in> resident A \<union> held s" using assms(2) by simp
  from invalidate_block_ok [OF I(4) this]
  obtain J L D' s1 where s1: "s1 = s\<lparr>bc_blk := (bc_blk s)(b := invalid_info (bc_blk s b)), bc_jumps := J, bc_deps := L\<rparr>"
    and inv: "invalidate_block b s = Some s1" and d1: "deps_ok lim s1 (resident A) (resident A \<union> held s) D'"
    and lk: "linked D' = linked D - {(b, 0), (b, 1)}" by auto
  have ub: "(b, i) \<notin> linked D'" for i
  proof
    assume "(b, i) \<in> linked D'"
    then obtain t where t: "(b, i) \<in> set (D' t)" by (auto simp: linked_def)
    then have "i < 2" using deps_okD(4) [OF d1 t] by simp
    with \<open>(b, i) \<in> linked D'\<close> show False unfolding lk by (auto simp: less_2_cases_iff)
  qed
  have "cl_ok s1 (resident A) C" using I(2) by (subst cl_ok_cong [where s = s]) (auto simp: s1)
  moreover have "tags_ok (insert b X) s1 C" by (rule tags_ok_cong [OF _ _ _ I(3)]) (auto simp: s1)
  ultimately obtain C' where C': "cl_ok (raise_in_cl_list b s1) (resident A) C'" "tags_ok (insert b X - {b}) (raise_in_cl_list b s1) C'"
    using raise_ok assms(2) by blast
  have "cache_inv E (X - {b}) lim (raise_in_cl_list b s1) A C' D' F" (is "cache_inv E _ lim ?s _ _ _ _")
  proof (rule cache_invI)
    show "lists_ok ?s A F" using I(1) by (subst lists_ok_cong [where s = s]) (simp_all add: s1)
    show "cl_ok ?s (resident A) C'" by (rule C'(1))
    show "tags_ok (X - {b}) ?s C'" using C'(2) by simp
    have h: "held s1 = held s" by (simp add: s1)
    show "deps_ok lim ?s (resident A) (resident A \<union> held ?s) D'"
      using deps_ok_cong [OF _ _ _ _ d1, of ?s] by (simp add: h)
    show "counts_ok ?s (resident A) (linked D')" using I(5) ub lk by (auto simp: counts_ok_def s1)
    show "blocks_ok E (X - {b}) ?s A" using I(6) by (auto simp: blocks_ok_def s1)
  qed
  with inv show ?thesis
    by (intro exI [of _ s1] exI [of _ C'] exI [of _ D'] conjI) (assumption+, simp_all add: s1)
qed

section \<open>The recursion\<close>

lemma finite_live: "finite (resident A)"
  by (simp add: live_eq)

lemma pending_finite [simp]: "finite (pending (resident A) s)"
  by (simp add: pending_def finite_live)

lemma pending_mono: "checked s s' \<Longrightarrow> card (pending (resident A) s') \<le> card (pending (resident A) s)"
  by (rule card_mono [OF pending_finite]) (auto simp: pending_def dest: checkedD(7))

abbreviation check_post :: "cenv \<Rightarrow> bid set \<Rightarrow> nat \<Rightarrow> bid list \<Rightarrow> bcache \<Rightarrow> bid set \<Rightarrow> (bool \<times> bcache) option \<Rightarrow> (bool \<Rightarrow> bcache \<Rightarrow> bool) \<Rightarrow> bool" where
  "check_post E X lim F s V r Q \<equiv> \<exists>isgood s' A' C' D'. r = Some (isgood, s') \<and> cache_inv E X lim s' A' C' D' F \<and>
     resident A' = V \<and> checked s s' \<and> Q isgood s'"

definition outcome :: "bcache \<Rightarrow> bid \<Rightarrow> bool \<Rightarrow> bcache \<Rightarrow> bool" where
  "outcome s b isgood s' \<longleftrightarrow> bi_status (bc_blk s b) = BI_NEED_CHECK \<longrightarrow>
     bi_status (bc_blk s' b) = (if isgood then BI_ACTIVE else BI_INVALID)"

lemma called_ok:
  assumes block: "\<And>X s A C D t. cache_inv E X lim s A C D F \<Longrightarrow> t \<in> resident A \<Longrightarrow> card (pending (resident A) s) < n \<Longrightarrow>
      check_post E X lim F s (resident A) (block_check_checksum n H t s) (outcome s t)"
    and "cache_inv E X lim s A C D F" "b \<in> resident A" "bi_status (bc_blk s b) \<noteq> BI_NEED_CHECK"
    and "card (pending (resident A) s) < n" "set is \<subseteq> {0, 1}"
  shows "check_post E X lim F s (resident A) (called_check_checksum n H is b s) (\<lambda>_ _. True)"
  using assms(2-6)
proof (induction "is" arbitrary: s A C D)
  case Nil
  then show ?case by auto
next
  case (Cons i "is")
  show ?case
  proof (cases "dp_jmp_off (bi_dep (bc_blk s b) i) = None")
    case True
    then show ?thesis using Cons.IH [OF Cons.prems(1-4)] Cons.prems(5) by simp
  next
    case False
    note d = deps_okD [OF cache_invD(4) [OF Cons.prems(1)]]
    have i: "i < 2" using Cons.prems(5) by auto
    have "(b, i) \<in> linked D" using d(8) [OF Cons.prems(2) i] False by (auto simp: dep_of_def)
    then obtain t where t: "(b, i) \<in> set (D t)" by (auto simp: linked_def)
    then have "D t \<noteq> []" by auto
    then have tt: "dp_target (bi_dep (bc_blk s b) i) = Some t" "t \<in> resident A"
      using d(5) [OF t] d(2) [of t] by (auto simp: jump_ok_def dep_of_def)
    from block [OF Cons.prems(1) tt(2) Cons.prems(4)]
    obtain g s' A' C' D' where r: "block_check_checksum n H t s = Some (g, s')" "cache_inv E X lim s' A' C' D' F"
      "resident A' = resident A" "checked s s'" by auto
    show ?thesis
    proof (cases g)
      case False
      then show ?thesis using r \<open>dp_jmp_off _ \<noteq> None\<close> tt by auto
    next
      case True
      have "bc_blk s' b = bc_blk s b" by (rule checkedD(5) [OF r(4) Cons.prems(3)])
      moreover have "card (pending (resident A') s') < n" using pending_mono [OF r(4), of A] Cons.prems(4) r(3) by simp
      ultimately have "check_post E X lim F s' (resident A') (called_check_checksum n H is b s') (\<lambda>_ _. True)"
        using Cons.IH [OF r(2)] Cons.prems(2,3,5) r(3) by simp
      then show ?thesis using r True \<open>dp_jmp_off _ \<noteq> None\<close> tt checked_trans [OF r(4)] by fastforce
    qed
  qed
qed

theorem block_check_ok:
  assumes "cache_inv E X lim s A C D F" "b \<in> resident A" "card (pending (resident A) s) < n"
  shows "check_post E X lim F s (resident A) (block_check_checksum n H b s) (outcome s b)"
  using assms
proof (induction n arbitrary: X s A C D b)
  case (Suc n)
  note I = cache_invD [OF Suc.prems(1)]
  let ?x = "bc_blk s b"
  show ?case
  proof (cases "bi_status ?x = BI_NEED_CHECK")
    case False
    then show ?thesis using Suc.prems(1)
      by (intro exI [of _ True] exI [of _ s] exI [of _ A] exI [of _ C] exI [of _ D] conjI) (simp_all add: outcome_def)
  next
    case st: True
    have bX: "b \<notin> X" using blocks_okD(2) [OF I(6)] st by blast
    have bo: "bi_csi ?x \<noteq> []" using blocks_okD(1) [OF I(6) Suc.prems(2) bX] st by (simp add: block_ok_cases(2))
    let ?k = "if bi_c1 ?x \<noteq> 0 \<or> bi_c2 ?x \<noteq> 0 then calc_checksum H b s else Some (1, 1)"
    obtain c1 c2 where k: "?k = Some (c1, c2)" using bo
      by (cases ?k) (auto simp: calc_checksum_def Let_def split: if_splits)
    have bad: "check_post E X lim F s (resident A)
        (do { s1 \<leftarrow> invalidate_block b s4; Some (False, raise_in_cl_list b s1) }) (outcome s b)"
      if p: "cache_inv E Y lim s4 A4 C4 D4 F" "resident A4 = resident A" "Y - {b} = X" "checked s s4" for Y s4 A4 C4 D4
    proof -
      have "b \<in> resident A4" using Suc.prems(2) p(2) by simp
      from discard_ok [OF p(1) this, unfolded p(3)] obtain s1 C' D' where r: "invalidate_block b s4 = Some s1"
        "cache_inv E X lim (raise_in_cl_list b s1) A4 C' D' F" "bc_blk s1 = (bc_blk s4)(b := invalid_info (bc_blk s4 b))"
        "bc_hold s1 = bc_hold s4" "bc_compile_p s1 = bc_compile_p s4" "bc_pools s1 = bc_pools s4" by blast
      have "checked s (raise_in_cl_list b s1)"
        by (rule checked_upd [OF p(4) st, where x = "invalid_info (bc_blk s4 b)"]) (simp_all add: r(3-6))
      with r p(2) show ?thesis
        by (intro exI [of _ False] exI [of _ "raise_in_cl_list b s1"] exI [of _ A4] exI [of _ C'] exI [of _ D'] conjI)
          (simp_all add: outcome_def)
    qed
    show ?thesis
    proof (cases "c1 = bi_c1 ?x \<and> c2 = bi_c2 ?x")
      case False
      then have "block_check_checksum (Suc n) H b s =
          do { s1 \<leftarrow> invalidate_block b s; Some (False, raise_in_cl_list b s1) }" using st k by auto
      moreover have "X - {b} = X" using bX by auto
      ultimately show ?thesis using bad [OF Suc.prems(1) refl _ checked_refl] by simp
    next
      case match: True
      define x where "x = ?x\<lparr>bi_handler_to_use := bi_handler ?x, bi_direct_handler_to_use := bi_direct_handler ?x, bi_status := BI_CHECKING\<rparr>"
      from begin_check_ok [OF Suc.prems(1,2) x_def] obtain J s2 s3 where
        set: "set_dhtu b (bi_direct_handler ?x) (upd_blk b (\<lambda>x. x\<lparr>bi_handler_to_use := bi_handler x\<rparr>) s) = Some s2"
        and s3: "upd_blk b (bi_status_update (\<lambda>_. BI_CHECKING)) s2 = s3" "s3 = s\<lparr>bc_blk := (bc_blk s)(b := x), bc_jumps := J\<rparr>"
        and i3: "cache_inv E (insert b X) lim s3 A C D F" by auto
      have b3: "bc_blk s3 b = x" "bi_status (bc_blk s3 b) \<noteq> BI_NEED_CHECK" by (simp_all add: s3(2) x_def)
      have "pending (resident A) s3 = pending (resident A) s - {b}" by (auto simp: pending_def s3(2) x_def)
      then have card: "card (pending (resident A) s3) < n"
        using Suc.prems(2,3) st card_Diff1_less [OF pending_finite, of b A s] by (simp add: pending_def)
      have ck3: "checked s s3" by (rule checked_upd [OF checked_refl st, where x = x]) (simp_all add: s3(2) x_def)
      have "check_post E (insert b X) lim F s3 (resident A) (called_check_checksum n H [0, 1] b s3) (\<lambda>_ _. True)"
        by (rule called_ok [OF Suc.IH i3 Suc.prems(2) b3(2) card]) simp_all
      then obtain g s4 A4 C4 D4 where r: "called_check_checksum n H [0, 1] b s3 = Some (g, s4)"
        "cache_inv E (insert b X) lim s4 A4 C4 D4 F" "resident A4 = resident A" "checked s3 s4" by auto
      have ck4: "checked s s4" by (rule checked_trans [OF ck3 r(4)])
      have b4: "bc_blk s4 b = x" using checkedD(5) [OF r(4) b3(2)] b3(1) by simp
      let ?s5 = "upd_blk b (bi_status_update (\<lambda>_. BI_ACTIVE)) (raise_in_cl_list b (add_to_active b (remove_from_list b s4)))"
      have step: "block_check_checksum (Suc n) H b s =
          (if g then Some (True, ?s5) else do { s1 \<leftarrow> invalidate_block b s4; Some (False, raise_in_cl_list b s1) })"
        unfolding block_check_checksum.simps(2) k using st match set s3(1) r(1)
        by (simp del: block_check_checksum.simps called_check_checksum.simps)
      show ?thesis
      proof (cases g)
        case False
        then show ?thesis using bad [OF r(2,3) _ ck4] bX step by simp
      next
        case True
        have "b \<in> resident A4" using Suc.prems(2) r(3) by simp
        from reactivate_ok [OF r(2) this refl] bo bX
        obtain A' C' where a: "cache_inv E X lim ?s5 A' C' D4 F" "resident A' = resident A4" by (auto simp: b4 x_def)
        have "checked s ?s5"
          by (rule checked_upd [OF ck4 st, where x = "x\<lparr>bi_status := BI_ACTIVE\<rparr>"])
            (simp_all add: add_to_active_def remove_from_list_def b4)
        with a r(3) True step show ?thesis
          by (intro exI [of _ True] exI [of _ ?s5] exI [of _ A'] exI [of _ C'] exI [of _ D4] conjI) (simp_all add: outcome_def)
      qed
    qed
  qed
qed simp

end
