(* ===== verification/Block_Fresh.thy ===== *)
theory Block_Fresh
  imports Block_Recheck
begin

text \<open>
  The spare of block records: the pool, the records held for the block in work and its successors,
  and the lookup that creates a block. Three held records are enough for one compilation.
\<close>

section \<open>The pool\<close>

lemma release_all:
  assumes "free_chain (lk_next (bc_list s)) (bc_chunks s) F" "distinct (xs @ F)"
  shows "\<exists>nx c. fold release xs s = s\<lparr>bc_list := (bc_list s)\<lparr>lk_next := nx\<rparr>, bc_chunks := c\<rparr> \<and>
    free_chain nx c (rev xs @ F) \<and> (\<forall>b. b \<notin> set xs \<longrightarrow> nx b = lk_next (bc_list s) b)"
  using assms
proof (induction xs arbitrary: s F)
  case Nil
  then show ?case by (intro exI [of _ "lk_next (bc_list s)"] exI [of _ "bc_chunks s"]) simp
next
  case (Cons x xs)
  let ?s = "release x s"
  have "free_chain (lk_next (bc_list ?s)) (bc_chunks s) F = free_chain (lk_next (bc_list s)) (bc_chunks s) F"
    by (rule free_chain_cong) (use Cons.prems(2) in \<open>auto simp: release_def\<close>)
  then have "free_chain (lk_next (bc_list ?s)) (bc_chunks ?s) (x # F)" using Cons.prems(1) by (simp add: release_def)
  from Cons.IH [OF this] Cons.prems(2)
  obtain nx c where r: "fold release xs ?s = ?s\<lparr>bc_list := (bc_list ?s)\<lparr>lk_next := nx\<rparr>, bc_chunks := c\<rparr>"
    "free_chain nx c (rev xs @ x # F)" "\<forall>b. b \<notin> set xs \<longrightarrow> nx b = lk_next (bc_list ?s) b" by auto
  have "fold release (x # xs) s = s\<lparr>bc_list := (bc_list s)\<lparr>lk_next := nx\<rparr>, bc_chunks := c\<rparr>"
    using r(1) by (simp add: release_def)
  moreover have "\<forall>b. b \<notin> set (x # xs) \<longrightarrow> nx b = lk_next (bc_list s) b" using r(3) by (simp add: release_def)
  ultimately show ?case using r(2) by (intro exI [of _ nx] exI [of _ c]) simp
qed

lemma links_on_next:
  assumes "links_on R L A" "\<And>b. b \<in> members R A \<Longrightarrow> nx b = lk_next L b"
  shows "links_on R (L\<lparr>lk_next := nx\<rparr>) A"
  using assms by (subst links_on_cong [where L' = L]) auto

lemma grow_ok:
  assumes "lists_ok s A []" "grow s = Some s'"
  shows "\<exists>F nx c. lists_ok s' A F \<and> length F = kPoolSize sizeof_blockinfo \<and> bc_pools s' = bc_pools s + 1 \<and>
    s' = s\<lparr>bc_list := (bc_list s)\<lparr>lk_next := nx\<rparr>, bc_chunks := c, bc_pools := bc_pools s + 1, bc_room := bc_room s - 1\<rparr>"
proof -
  note l = lists_okD [OF assms(1)]
  let ?k = "kPoolSize sizeof_blockinfo"
  let ?xs = "[records s ..< (bc_pools s + 1) * ?k]"
  obtain nx c where r: "fold release ?xs s = s\<lparr>bc_list := (bc_list s)\<lparr>lk_next := nx\<rparr>, bc_chunks := c\<rparr>"
    "free_chain nx c (rev ?xs)" "\<And>b. b \<notin> set ?xs \<Longrightarrow> nx b = lk_next (bc_list s) b"
    using release_all [OF l(2), of ?xs] by auto
  have s': "s' = s\<lparr>bc_list := (bc_list s)\<lparr>lk_next := nx\<rparr>, bc_chunks := c, bc_pools := bc_pools s + 1, bc_room := bc_room s - 1\<rparr>"
    using assms(2) unfolding grow_def Let_def r(1) by (auto split: if_splits)
  have h: "held s' = held s" by (simp add: s' held_def)
  have "links_on UNIV (bc_list s') A"
    unfolding s' using l(1,7) by (simp, intro links_on_next) (auto intro!: r(3))
  then have "lists_ok s' A (rev ?xs)"
    using l(5-8) r(2) unfolding lists_ok_def h by (auto simp: s' hold_ok_def)
  moreover have "length (rev ?xs) = ?k" by simp
  ultimately show ?thesis using s' by (intro exI [of _ "rev ?xs"] exI [of _ nx] exI [of _ c]) simp
qed

definition spare :: "bcache \<Rightarrow> bid list \<Rightarrow> nat" where
  "spare s F = length F + bc_room s * kPoolSize sizeof_blockinfo"

lemma alloc_blockinfo_some:
  assumes "lists_ok s A F" "0 < spare s F"
  shows "\<exists>b s'. alloc_blockinfo s = Some (b, s')"
proof (cases "bc_chunks s")
  case None
  then have F: "F = []" using lists_okD(2) [OF assms(1)] by (cases F) auto
  then have "bc_room s \<noteq> 0" using assms(2) by (simp add: spare_def)
  then obtain t where t: "grow s = Some t" by (auto simp: grow_def Let_def)
  from grow_ok [OF assms(1) [unfolded F] t] obtain G where "lists_ok t A G" "length G = kPoolSize sizeof_blockinfo" by blast
  then have "bc_chunks t \<noteq> None" using lists_okD(2) [of t A G] by (cases G) (auto simp: kPoolSize_def)
  then show ?thesis using None t by (auto simp: alloc_blockinfo_def acquire_def)
next
  case (Some b)
  then show ?thesis by (simp add: alloc_blockinfo_def acquire_def)
qed

lemma alloc_blockinfo_ok:
  assumes "lists_ok s A F" "alloc_blockinfo s = Some (b, s')"
  shows "\<exists>F' L c p r. lists_ok s' A F' \<and> b \<notin> resident A \<union> held s \<union> set F' \<and> b < records s' \<and> bc_pools s \<le> bc_pools s' \<and>
    spare s F = Suc (spare s' F') \<and>
    s' = s\<lparr>bc_list := L, bc_chunks := c, bc_pools := p, bc_room := r, bc_blk := (bc_blk s)(b := (bc_blk s b)\<lparr>bi_csi := []\<rparr>)\<rparr>"
proof -
  have pop: "\<exists>F'. lists_ok (t\<lparr>bc_chunks := lk_next (bc_list t) b\<rparr>) A F' \<and> b \<notin> resident A \<union> held t \<union> set F' \<and> b < records t \<and> length G = Suc (length F')"
    if t: "lists_ok t A G" "bc_chunks t = Some b" for t G
  proof -
    note l = lists_okD [OF t(1)]
    obtain F' where G: "G = b # F'" using l(2) t(2) by (cases G) auto
    with l show ?thesis by (intro exI [of _ F']) (auto simp: lists_ok_def hold_ok_def)
  qed
  have pops: "\<exists>L c p r. s' = s\<lparr>bc_list := L, bc_chunks := c, bc_pools := p, bc_room := r, bc_blk := (bc_blk s)(b := (bc_blk s b)\<lparr>bi_csi := []\<rparr>)\<rparr>"
    if "s' = upd_blk b (bi_csi_update (\<lambda>_. [])) (t\<lparr>bc_chunks := c0\<rparr>)" "t = s\<lparr>bc_list := L0, bc_chunks := c1, bc_pools := p0, bc_room := r0\<rparr>"
    for t c0 L0 c1 p0 r0
    by (intro exI [of _ L0] exI [of _ c0] exI [of _ p0] exI [of _ r0]) (simp add: that upd_blk_def)
  obtain t G where t: "lists_ok t A G" "bc_chunks t = Some b" "held t = held s" "bc_pools s \<le> bc_pools t"
      "s' = upd_blk b (bi_csi_update (\<lambda>_. [])) (t\<lparr>bc_chunks := lk_next (bc_list t) b\<rparr>)"
      "spare t G = spare s F"
    and u: "\<exists>L0 c1 p0 r0. t = s\<lparr>bc_list := L0, bc_chunks := c1, bc_pools := p0, bc_room := r0\<rparr>"
  proof (cases "bc_chunks s")
    case None
    then have "F = []" using lists_okD(2) [OF assms(1)] by (cases F) auto
    obtain t where g: "grow s = Some t" "bc_chunks t = Some b"
      "s' = upd_blk b (bi_csi_update (\<lambda>_. [])) (t\<lparr>bc_chunks := lk_next (bc_list t) b\<rparr>)"
      using assms(2) None by (auto simp: alloc_blockinfo_def acquire_def bind_eq_Some_conv)
    from grow_ok [OF assms(1) [unfolded \<open>F = []\<close>] g(1)] obtain G nx c where r: "lists_ok t A G"
      "t = s\<lparr>bc_list := (bc_list s)\<lparr>lk_next := nx\<rparr>, bc_chunks := c, bc_pools := bc_pools s + 1, bc_room := bc_room s - 1\<rparr>"
      "length G = kPoolSize sizeof_blockinfo" by auto
    have "bc_room s \<noteq> 0" using g(1) by (auto simp: grow_def split: if_splits)
    then have "spare t G = spare s F" using r(2,3) \<open>F = []\<close> by (cases "bc_room s") (simp_all add: spare_def)
    moreover have "\<exists>L0 c1 p0 r0. t = s\<lparr>bc_list := L0, bc_chunks := c1, bc_pools := p0, bc_room := r0\<rparr>" using r(2) by blast
    moreover have "held t = held s" by (simp add: r(2) held_def)
    ultimately show ?thesis using g r that by simp
  next
    case (Some d)
    then have "bc_chunks s = Some b" "s' = upd_blk b (bi_csi_update (\<lambda>_. [])) (s\<lparr>bc_chunks := lk_next (bc_list s) b\<rparr>)"
      using assms(2) by (auto simp: alloc_blockinfo_def acquire_def)
    moreover have "s = s\<lparr>bc_list := bc_list s, bc_chunks := bc_chunks s, bc_pools := bc_pools s, bc_room := bc_room s\<rparr>" by simp
    ultimately show ?thesis using that [OF assms(1)] by blast
  qed
  obtain F' where F': "lists_ok (t\<lparr>bc_chunks := lk_next (bc_list t) b\<rparr>) A F'" "b \<notin> resident A \<union> held t \<union> set F'" "b < records t"
    "length G = Suc (length F')"
    using pop [OF t(1,2)] by blast
  have "lists_ok s' A F'" using F'(1) by (subst lists_ok_cong [where s = "t\<lparr>bc_chunks := lk_next (bc_list t) b\<rparr>"]) (simp_all add: t(5))
  moreover have "b < records s'" "bc_pools s \<le> bc_pools s'" using F'(3) t(4) by (simp_all add: t(5))
  moreover have "spare s F = Suc (spare s' F')" using t(6) F'(4) by (simp add: spare_def t(5))
  ultimately show ?thesis using F'(2) t(3) u pops [OF t(5)] by metis
qed

section \<open>Records held for a compilation\<close>

lemma deps_ok_prepare:
  assumes "deps_ok lim s V R D" "b \<notin> R" "\<And>c. c \<in> V \<Longrightarrow> bc_blk s' c = bc_blk s c" "bc_jumps s' = bc_jumps s"
    and "bc_deps s' = (bc_deps s)\<lparr>lk_root := (lk_root (bc_deps s))(b := None),
            lk_prev := (lk_prev (bc_deps s))((b, 0) := None, (b, 1) := None),
            lk_next := (lk_next (bc_deps s))((b, 0) := None, (b, 1) := None)\<rparr>"
  shows "deps_ok lim s' V (insert b R) D"
proof -
  note d = deps_okD [OF assms(1)]
  have nb: "b \<notin> V" using d(9) assms(2) by blast
  have Db: "D b = []" using d(2) [of b] nb by blast
  have fV: "fst e \<noteq> b" if e: "e \<in> linked D" for e
  proof -
    obtain t where "e \<in> set (D t)" using e unfolding linked_def by blast
    from d(3) [OF this] nb show ?thesis by auto
  qed
  have fm: "e \<noteq> (b, i)" if "e \<in> members (insert b R) D" for e i
  proof -
    have "e \<in> linked D" using that unfolding members_def linked_def by blast
    from fV [OF this] show ?thesis by auto
  qed
  have l0: "links_on R (bc_deps s') D"
    unfolding assms(5) using d(1)
    by (subst links_on_cong [where L' = "bc_deps s"]) (use assms(2) fm in \<open>auto simp: members_def\<close>)
  have l1: "links_on (insert b R) (bc_deps s') D"
    using l0 Db unfolding links_on_def by (auto simp: assms(5))
  have dep: "dep_of e s' = dep_of e s" if "fst e \<in> V" for e using assms(3) [OF that] by (simp add: dep_of_def)
  have fl: "fst e \<in> V" if "e \<in> linked D" for e using that d(3) unfolding linked_def by blast
  show ?thesis
  proof (rule deps_okI)
    show "jump_ok lim s' e t" if e: "e \<in> set (D t)" for t e
    proof -
      have "t \<in> V" using e by (intro d(2)) auto
      then show ?thesis using d(5) [OF e] dep [OF d(3) [OF e]] assms(3) [of t] assms(4) by (simp add: jump_ok_def)
    qed
    show "e = f" if "e \<in> linked D" "f \<in> linked D" "dp_jmp_off (dep_of e s') = dp_jmp_off (dep_of f s')" for e f
      using d(6) that dep fl by metis
    show "loose s' (c, i)" if c: "c \<in> insert b R" "i < 2" "(c, i) \<notin> linked D" for c i
    proof (cases "c = b")
      case True
      then show ?thesis using c(2) by (auto simp: loose_def assms(5) less_2_cases_iff)
    next
      case False
      then show ?thesis using c d(7) [of c i] by (auto simp: loose_def assms(5))
    qed
    show "dp_jmp_off (dep_of (c, i) s') = None \<and> dp_target (dep_of (c, i) s') = None"
      if "c \<in> V" "i < 2" "(c, i) \<notin> linked D" for c i using d(8) [OF that] dep [of "(c, i)"] that(1) by simp
  qed (use l1 d(2,3,4,9) in \<open>auto\<close>)
qed

lemma hold_one_ok:
  assumes "cache_inv E X lim s A C D F" "i < MAX_HOLD_BI" "bc_hold s i = None"
    and "alloc_blockinfo s = Some (b, s1)" "s' = prepare_block E b (s1\<lparr>bc_hold := (bc_hold s1)(i := Some b)\<rparr>)"
  shows "\<exists>F'. cache_inv E X lim s' A C D F' \<and> bc_hold s' = (bc_hold s)(i := Some b) \<and>
    (\<forall>c \<in> resident A. bc_blk s' c = bc_blk s c) \<and> bc_compile_p s \<le> bc_compile_p s' \<and> bc_pools s \<le> bc_pools s' \<and>
    spare s F = Suc (spare s' F')"
proof -
  note I = cache_invD [OF assms(1)]
  from alloc_blockinfo_ok [OF I(1) assms(4)] obtain F' L c p r where a: "lists_ok s1 A F'" "b \<notin> resident A \<union> held s \<union> set F'"
    "b < records s1" "bc_pools s \<le> bc_pools s1" "spare s F = Suc (spare s1 F')"
    and s1: "s1 = s\<lparr>bc_list := L, bc_chunks := c, bc_pools := p, bc_room := r, bc_blk := (bc_blk s)(b := (bc_blk s b)\<lparr>bi_csi := []\<rparr>)\<rparr>"
    by blast
  note l = lists_okD [OF a(1)]
  let ?x = "(bc_blk s b)\<lparr>bi_csi := [], bi_direct_pen := Code (bc_compile_p s), bi_direct_pcc := Code (bc_compile_p s + ce_pen_len E b),
     bi_needed_flags := FLAG_ALL8, bi_status := BI_INVALID\<rparr>"
  have s': "bc_list s' = bc_list s1" "bc_chunks s' = bc_chunks s1" "bc_pools s' = bc_pools s1" "bc_cl s' = bc_cl s"
    "bc_handler s' = bc_handler s" "bc_jumps s' = bc_jumps s" "bc_hold s' = (bc_hold s)(i := Some b)"
    "bc_blk s' = (bc_blk s)(b := ?x)" "bc_compile_p s \<le> bc_compile_p s'" "bc_room s' = bc_room s1"
    "bc_deps s' = (bc_deps s)\<lparr>lk_root := (lk_root (bc_deps s))(b := None),
            lk_prev := (lk_prev (bc_deps s))((b, 0) := None, (b, 1) := None),
            lk_next := (lk_next (bc_deps s))((b, 0) := None, (b, 1) := None)\<rparr>"
    by (simp_all add: assms(5) prepare_block_def Let_def s1)
  have h1: "held s1 = held s" by (simp add: s1 held_def)
  have h: "held s' = insert b (held s)"
  proof (intro set_eqI)
    fix d
    show "d \<in> held s' \<longleftrightarrow> d \<in> insert b (held s)"
      using assms(2,3) unfolding held_def s'(7) by (cases "d = b") (auto, metis option.distinct(1))
  qed
  have nb: "bc_hold s j \<noteq> Some b" if "j < MAX_HOLD_BI" for j using a(2) that unfolding held_def by blast
  have "hold_ok s'" unfolding hold_ok_def s'(7)
  proof (intro allI impI)
    fix j k assume jk: "j < MAX_HOLD_BI" "k < MAX_HOLD_BI" "j \<noteq> k" "((bc_hold s)(i := Some b)) j = ((bc_hold s)(i := Some b)) k"
    then have "j \<noteq> i \<and> k \<noteq> i" using nb [of j] nb [of k] by (auto split: if_splits)
    then show "((bc_hold s)(i := Some b)) j = None" using jk lists_okD(8) [OF I(1)] unfolding hold_ok_def by simp
  qed
  then have "lists_ok s' A F'" using l a(2,3) unfolding lists_ok_def h s'(1-3) h1 by auto
  moreover have "cl_ok s' (resident A) C" using I(2) a(2) by (subst cl_ok_cong [where s = s]) (auto simp: s')
  moreover have "tags_ok X s' C" by (rule tags_ok_cong [OF _ _ _ I(3)]) (auto simp: s')
  moreover have "deps_ok lim s' (resident A) (resident A \<union> held s') D"
  proof -
    have "bc_blk s' d = bc_blk s d" if "d \<in> resident A" for d using a(2) that by (auto simp: s'(8))
    from deps_ok_prepare [OF I(4) _ this s'(6) s'(11)] a(2) show ?thesis by (simp add: h)
  qed
  moreover have "counts_ok s' (resident A) (linked D)" using I(5) a(2) by (auto simp: counts_ok_def s')
  moreover have "blocks_ok E X s' A" using I(6) a(2) by (auto simp: blocks_ok_def s')
  ultimately have "cache_inv E X lim s' A C D F'" by (rule cache_invI)
  then show ?thesis using s'(3,7,9,10) a(2,4,5) by (intro exI [of _ F']) (auto simp: s'(8) spare_def)
qed

lemma alloc_held_ok:
  assumes "alloc_held E [i..<MAX_HOLD_BI] s = Some s'" "cache_inv E X lim s A C D F" "i \<le> MAX_HOLD_BI"
    and "\<forall>j < i. bc_hold s j \<noteq> None" "\<forall>j \<ge> i. Suc j < MAX_HOLD_BI \<longrightarrow> bc_hold s j \<noteq> None \<longrightarrow> bc_hold s (Suc j) \<noteq> None"
  shows "\<exists>F'. cache_inv E X lim s' A C D F' \<and> (\<forall>j < MAX_HOLD_BI. bc_hold s' j \<noteq> None) \<and>
    (\<forall>c \<in> resident A. bc_blk s' c = bc_blk s c) \<and> bc_compile_p s \<le> bc_compile_p s' \<and> bc_pools s \<le> bc_pools s'"
  using assms
proof (induction "MAX_HOLD_BI - i" arbitrary: i s F)
  case 0
  then show ?case by auto
next
  case (Suc n)
  then have i: "i < MAX_HOLD_BI" "[i..<MAX_HOLD_BI] = i # [Suc i..<MAX_HOLD_BI]" by (auto simp: upt_conv_Cons)
  show ?case
  proof (cases "bc_hold s i = None")
    case False
    have "bc_hold s j \<noteq> None" if "i \<le> j" "j < MAX_HOLD_BI" for j
      using that
    proof (induction j)
      case (Suc j)
      then show ?case using False Suc.prems Suc(2) \<open>\<forall>j \<ge> i. _ j\<close> by (cases "i = Suc j") auto
    qed (use False in simp)
    moreover have "s' = s" using Suc.prems(1) False unfolding i(2) by simp
    ultimately show ?thesis using Suc.prems(2,4) by (intro exI [of _ F]) (metis le_refl not_le)
  next
    case True
    then obtain b s1 where a: "alloc_blockinfo s = Some (b, s1)"
      "alloc_held E [Suc i..<MAX_HOLD_BI] (prepare_block E b (s1\<lparr>bc_hold := (bc_hold s1)(i := Some b)\<rparr>)) = Some s'"
      using Suc.prems(1) unfolding i(2) by (auto simp: bind_eq_Some_conv)
    from hold_one_ok [OF Suc.prems(2) i(1) True a(1) refl] obtain F1 s2 where
      s2: "s2 = prepare_block E b (s1\<lparr>bc_hold := (bc_hold s1)(i := Some b)\<rparr>)" and
      h: "cache_inv E X lim s2 A C D F1" "bc_hold s2 = (bc_hold s)(i := Some b)" "\<forall>c \<in> resident A. bc_blk s2 c = bc_blk s c"
        "bc_compile_p s \<le> bc_compile_p s2" "bc_pools s \<le> bc_pools s2" by blast
    have "\<forall>j < Suc i. bc_hold s2 j \<noteq> None" using Suc.prems(4) by (auto simp: h(2) less_Suc_eq)
    moreover have "\<forall>j \<ge> Suc i. Suc j < MAX_HOLD_BI \<longrightarrow> bc_hold s2 j \<noteq> None \<longrightarrow> bc_hold s2 (Suc j) \<noteq> None"
      using Suc.prems(5) by (auto simp: h(2))
    moreover have n: "n = MAX_HOLD_BI - Suc i" using Suc.hyps(2) by simp
    ultimately obtain F' where f: "cache_inv E X lim s' A C D F'" "\<forall>j < MAX_HOLD_BI. bc_hold s' j \<noteq> None"
      "\<forall>c \<in> resident A. bc_blk s' c = bc_blk s2 c" "bc_compile_p s2 \<le> bc_compile_p s'" "bc_pools s2 \<le> bc_pools s'"
      using Suc.hyps(1) [of "Suc i" s2 F1] n a(2) [folded s2] h(1) i(1) by auto
    show ?thesis by (rule exI [of _ F']) (use f h(3-5) in auto)
  qed
qed

lemma alloc_held_some:
  assumes "cache_inv E X lim s A C D F" "MAX_HOLD_BI - i \<le> spare s F" "i \<le> MAX_HOLD_BI"
  shows "\<exists>s'. alloc_held E [i..<MAX_HOLD_BI] s = Some s'"
  using assms
proof (induction "MAX_HOLD_BI - i" arbitrary: i s F)
  case (Suc n)
  then have i: "i < MAX_HOLD_BI" "[i..<MAX_HOLD_BI] = i # [Suc i..<MAX_HOLD_BI]" by (auto simp: upt_conv_Cons)
  show ?case
  proof (cases "bc_hold s i = None")
    case True
    have "0 < spare s F" using Suc.hyps(2) Suc.prems(2) by linarith
    from alloc_blockinfo_some [OF cache_invD(1) [OF Suc.prems(1)] this] obtain b s1 where a: "alloc_blockinfo s = Some (b, s1)" by blast
    from hold_one_ok [OF Suc.prems(1) i(1) True a refl] obtain F1 where
      "cache_inv E X lim (prepare_block E b (s1\<lparr>bc_hold := (bc_hold s1)(i := Some b)\<rparr>)) A C D F1"
      "spare s F = Suc (spare (prepare_block E b (s1\<lparr>bc_hold := (bc_hold s1)(i := Some b)\<rparr>)) F1)" by blast
    from Suc.hyps(1) [OF _ this(1)] this(2) Suc.hyps(2) Suc.prems(2) i(1) show ?thesis
      unfolding i(2) using True a by auto
  qed (simp add: i(2))
qed simp

lemma card_held:
  assumes "hold_ok s" "\<forall>j < MAX_HOLD_BI. bc_hold s j \<noteq> None"
  shows "card (held s) = MAX_HOLD_BI"
proof -
  have "held s = (\<lambda>i. the (bc_hold s i)) ` {..<MAX_HOLD_BI}" using assms(2) by (force simp: held_def image_iff)
  moreover have "inj_on (\<lambda>i. the (bc_hold s i)) {..<MAX_HOLD_BI}"
  proof (rule inj_onI)
    fix i j assume ij: "i \<in> {..<MAX_HOLD_BI}" "j \<in> {..<MAX_HOLD_BI}" "the (bc_hold s i) = the (bc_hold s j)"
    then have "bc_hold s i = bc_hold s j" using assms(2) by (metis lessThan_iff option.collapse)
    with ij assms show "i = j" unfolding hold_ok_def by auto
  qed
  ultimately show ?thesis by (simp add: card_image)
qed

lemma held_finite [simp]: "finite (held s)"
proof -
  have "held s \<subseteq> (\<lambda>i. the (bc_hold s i)) ` {..<MAX_HOLD_BI}" by (force simp: held_def)
  then show ?thesis by (rule finite_subset) simp
qed

section \<open>Lookup that creates\<close>

text \<open>There is a held record for every address of \<open>S\<close> that has no block yet.\<close>

definition room_for :: "bcache \<Rightarrow> bid set \<Rightarrow> u64 set \<Rightarrow> bool" where
  "room_for s V S \<longleftrightarrow> finite S \<and> card (S - (\<lambda>b. bi_pc_p (bc_blk s b)) ` V) \<le> card (held s)"

text \<open>What a creating lookup leaves: the blocks that were there, and one more at most.\<close>

definition extended :: "bcache \<Rightarrow> bid set \<Rightarrow> bcache \<Rightarrow> bid set \<Rightarrow> bool" where
  "extended s V s' V' \<longleftrightarrow> V \<subseteq> V' \<and> V' \<union> held s' = V \<union> held s \<and> (\<forall>c \<in> V. bc_blk s' c = bc_blk s c) \<and>
     bc_compile_p s' = bc_compile_p s \<and> bc_pools s' = bc_pools s \<and>
     (hold_filled (bc_hold s) \<longrightarrow> hold_filled (bc_hold s'))"

lemma room_for_mono:
  assumes "room_for s V S" "S' \<subseteq> S"
  shows "room_for s V S'"
proof -
  have "finite S" using assms(1) by (simp add: room_for_def)
  then have "card (S' - (\<lambda>b. bi_pc_p (bc_blk s b)) ` V) \<le> card (S - (\<lambda>b. bi_pc_p (bc_blk s b)) ` V)"
    using assms(2) by (intro card_mono) auto
  then show ?thesis using assms \<open>finite S\<close> finite_subset unfolding room_for_def by (metis order_trans)
qed

lemma get_new_ok:
  assumes "cache_inv E X lim s A C D F" "room_for s (resident A) {addr}"
  shows "\<exists>b s' A' C' D'. get_blockinfo_addr_new addr s = Some (b, s') \<and> cache_inv E X lim s' A' C' D' F \<and>
    b \<in> resident A' \<and> bi_pc_p (bc_blk s' b) = addr \<and> linked D' = linked D \<and> extended s (resident A) s' (resident A') \<and>
    (\<forall>S. room_for s (resident A) S \<longrightarrow> addr \<in> S \<longrightarrow> room_for s' (resident A') S) \<and>
    (b \<in> resident A \<or> bi_status (bc_blk s' b) = BI_INVALID)"
proof (cases "\<exists>b \<in> resident A. bi_pc_p (bc_blk s b) = addr")
  case True
  then obtain b where b: "b \<in> resident A" "bi_pc_p (bc_blk s b) = addr" by blast
  then have "get_blockinfo_addr_new addr s = Some (b, s)"
    using get_blockinfo_addr_ok(2) [OF cache_invD(2) [OF assms(1)]] by (simp add: get_blockinfo_addr_new_def)
  with b assms(1,2) show ?thesis
    by (intro exI [of _ b] exI [of _ s] exI [of _ A] exI [of _ C] exI [of _ D] conjI) (simp_all add: extended_def)
next
  case False
  let ?P = "\<lambda>s b. bi_pc_p (bc_blk s b)"
  have m: "{addr} - ?P s ` resident A = {addr}" using False by auto
  then have "0 < card ({addr} - ?P s ` resident A)" by simp
  then have "0 < card (held s)" using assms(2) by (simp only: room_for_def) linarith
  then have "held s \<noteq> {}" by auto
  moreover have none: "\<forall>b \<in> resident A. ?P s b \<noteq> addr" using False by blast
  ultimately obtain b s' C' D' where t: "take_held addr [0..<MAX_HOLD_BI] s = Some (b, s')"
    "cache_inv E X lim s' (A(Active := b # A Active)) C' D' F" "b \<in> held s" "held s' = held s - {b}"
    "linked D' = linked D" "?P s' b = addr" "bi_status (bc_blk s' b) = BI_INVALID"
    "\<forall>c. c \<noteq> b \<longrightarrow> bc_blk s' c = bc_blk s c" "bc_compile_p s' = bc_compile_p s" "bc_pools s' = bc_pools s"
    "hold_filled (bc_hold s) \<longrightarrow> hold_filled (bc_hold s')"
    using take_held_ok [OF assms(1)] by blast
  let ?A = "A(Active := b # A Active)"
  have lv: "resident ?A = insert b (resident A)" by (auto simp: live_eq)
  have nb: "b \<notin> resident A" using lists_okD(6) [OF cache_invD(1) [OF assms(1)]] t(3) by auto
  have "get_blockinfo_addr_new addr s = Some (b, s')"
    using get_blockinfo_addr_ok(1) [OF cache_invD(2) [OF assms(1)] none] t(1) by (simp add: get_blockinfo_addr_new_def)
  moreover have "extended s (resident A) s' (resident ?A)" using t(3,4,8-11) nb unfolding extended_def lv by auto
  moreover have "room_for s' (resident ?A) S" if S: "room_for s (resident A) S" "addr \<in> S" for S
  proof -
    have "?P s' c = ?P s c" if "c \<in> resident A" for c using t(8) nb that by metis
    then have "?P s' ` resident A = ?P s ` resident A" by (intro image_cong) simp_all
    then have "?P s' ` resident ?A = insert addr (?P s ` resident A)" using t(6) unfolding lv by simp
    then have "S - ?P s' ` resident ?A = (S - ?P s ` resident A) - {addr}" by auto
    moreover have "addr \<in> S - ?P s ` resident A" using S(2) False by auto
    ultimately show ?thesis using S(1) t(3,4) by (simp add: room_for_def card_Diff_singleton)
  qed
  ultimately show ?thesis using t(2,5,6,7) lv
    by (intro exI [of _ b] exI [of _ s'] exI [of _ ?A] exI [of _ C'] exI [of _ D'] conjI) simp_all
qed

end
