(* ===== verification/Block_Flush.thy ===== *)
theory Block_Flush
  imports Block_Fresh
begin

text \<open>
  The two kinds of flush and the handlers of a miss keep the invariant. After the soft flush no block
  can be entered without a check, those translated from ROM apart; after the hard flush no block is left.
\<close>

section \<open>The soft flush\<close>

lemma chain_join:
  assumes "chain L p h (xs @ [x])" "\<And>b. b \<in> set xs \<Longrightarrow> lk_next L' b = lk_next L b"
    "\<And>b. b \<in> set (tl (xs @ [x])) \<Longrightarrow> lk_prev L' b = lk_prev L b" "lk_prev L' (hd (xs @ [x])) = Some p'"
    "chain L' (Next x) (lk_next L' x) ys"
  shows "chain L' p' h (xs @ x # ys)"
  using assms(1-4)
proof (induction xs arbitrary: p h p')
  case Nil
  then show ?case using assms(5) by simp
next
  case (Cons a xs)
  then have c: "h = Some a" "chain L (Next a) (lk_next L a) (xs @ [x])" by auto
  have "chain L' (Next a) (lk_next L a) (xs @ x # ys)"
  proof (rule Cons.IH [OF c(2)])
    show "lk_next L' b = lk_next L b" if "b \<in> set xs" for b using Cons.prems(2) that by simp
    have mem: "b \<in> set (tl ((a # xs) @ [x]))" if "b \<in> set (xs @ [x])" for b using that by simp
    show "lk_prev L' b = lk_prev L b" if "b \<in> set (tl (xs @ [x]))" for b
      using Cons.prems(3) [OF mem] that by (cases xs) auto
    have "hd (xs @ [x]) \<in> set (xs @ [x])" by (rule hd_in_set) simp
    moreover have "lk_prev L (hd (xs @ [x])) = Some (Next a)" using c(2) by (cases xs) auto
    ultimately show "lk_prev L' (hd (xs @ [x])) = Some (Next a)" using Cons.prems(3) [OF mem] by simp
  qed
  moreover have "lk_prev L' a = Some p'" "lk_next L' a = lk_next L a" using Cons.prems by auto
  ultimately show ?case using c(1) by simp
qed

lemma append_dormant_ok:
  assumes "links_on UNIV L A" "A Active \<noteq> []" "L' = append_dormant (last (A Active)) L"
  shows "links_on UNIV L' (A(Active := [], Dormant := A Active @ A Dormant))"
    "b \<notin> set (A Active) \<Longrightarrow> lk_next L' b = lk_next L b"
proof -
  let ?a = "A Active" and ?d = "A Dormant" and ?x = "last (A Active)"
  have ch: "chain L (Root r) (lk_root L r) (A r)" "distinct (A r)" for r using links_onD(1,2) [OF assms(1) UNIV_I] .
  have dj: "set ?a \<inter> set ?d = {}" using links_onD(3) [OF assms(1), of Active Dormant] by auto
  have ra: "lk_root L Active = Some (hd ?a)" using ch(1) [of Active] assms(2) by (cases ?a) auto
  have rd: "lk_root L Dormant = (case ?d of [] \<Rightarrow> None | b # _ \<Rightarrow> Some b)" by (rule chain_hd [OF ch(1)])
  have f: "lk_next L' = (lk_next L)(?x := lk_root L Dormant)" "lk_root L' = (lk_root L)(Dormant := Some (hd ?a), Active := None)"
    "lk_prev L' = (case ?d of [] \<Rightarrow> lk_prev L | d # _ \<Rightarrow> (lk_prev L)(d := Some (Next ?x)))(hd ?a := Some (Root Dormant))"
    by (cases ?d; simp add: assms(3) append_dormant_def Let_def ra rd)+
  show "lk_next L' b = lk_next L b" if "b \<notin> set ?a" using that assms(2) unfolding f by auto
  obtain xs where xs: "?a = xs @ [?x]" using assms(2) by (metis append_butlast_last_id)
  have hx: "hd ?a \<in> set ?a" "?x \<in> set ?a" using assms(2) by simp_all
  have k1: "chain L' (Next ?x) (lk_next L' ?x) ?d"
  proof (cases ?d)
    case Nil
    then show ?thesis using rd by (simp add: f)
  next
    case (Cons d ds)
    have n: "c \<noteq> ?x" "c \<noteq> hd ?a" if "c \<in> set ?d" for c using that dj hx by auto
    have "chain L' (Next d) (lk_next L d) ds = chain L (Next d) (lk_next L d) ds"
      by (rule chain_cong) (use n ch(2) [of Dormant] Cons in \<open>auto simp: f\<close>)
    then show ?thesis using ch(1) [of Dormant] n [of d] Cons by (simp add: f rd)
  qed
  have k2: "chain L (Root Active) (Some (hd ?a)) (xs @ [?x])" using ch(1) [of Active] xs ra by simp
  have k3: "lk_next L' b = lk_next L b" if "b \<in> set xs" for b using ch(2) [of Active] that unfolding f by (subst (asm) xs) auto
  have k4: "lk_prev L' b = lk_prev L b" if b: "b \<in> set (tl (xs @ [?x]))" for b
  proof -
    have t: "b \<in> set (tl ?a)" using b unfolding xs [symmetric] .
    then have "b \<noteq> hd ?a" "b \<in> set ?a" using ch(2) [of Active] by (cases ?a; auto)+
    moreover have "d \<notin> set ?a" if "?d = d # ds" for d ds using dj that by auto
    ultimately show ?thesis unfolding f by (cases ?d) auto
  qed
  have k5: "lk_prev L' (hd (xs @ [?x])) = Some (Root Dormant)" unfolding xs [symmetric] f by simp
  have "chain L' (Root Dormant) (Some (hd ?a)) (xs @ ?x # ?d)" by (rule chain_join [OF k2 k3 k4 k5 k1])
  moreover have "xs @ ?x # ?d = ?a @ ?d" by (metis append.assoc append_Cons append_Nil xs)
  ultimately have "chain L' (Root Dormant) (lk_root L' Dormant) (?a @ ?d)" by (simp add: f)
  then show "links_on UNIV L' (A(Active := [], Dormant := ?a @ ?d))"
    using ch(2) dj unfolding links_on_def UNIV_list_root by (auto simp: f)
qed

text \<open>What a soft flush leaves of the record of a block.\<close>

definition flushed_state :: "blockinfo \<Rightarrow> bool" where
  "flushed_state x \<longleftrightarrow> bi_status x = BI_INVALID \<or> bi_status x = BI_NEED_CHECK"

lemma flush_lazy_block_ok:
  assumes "cache_inv E {} lim s A C D F" "b \<in> set (A Active)"
  shows "\<exists>s'. flush_lazy_block b s = Some s' \<and> cache_inv E {} lim s' A C D F \<and> bc_list s' = bc_list s \<and>
    bc_hold s' = bc_hold s \<and> bc_compile_p s' = bc_compile_p s \<and> bc_pools s' = bc_pools s \<and>
    flushed_state (bc_blk s' b) \<and> (\<forall>c. c \<noteq> b \<longrightarrow> bc_blk s' c = bc_blk s c) \<and> bi_pc_p (bc_blk s' b) = bi_pc_p (bc_blk s b)"
proof -
  note I = cache_invD [OF assms(1)]
  let ?x = "bc_blk s b" let ?cl = "cacheline (bi_pc_p ?x)"
  define rec where "rec \<longleftrightarrow> bi_status ?x = BI_INVALID \<or> bi_status ?x = BI_NEED_RECOMP"
  define h where "h = (if rec then Popall_execute_normal else Popall_check_checksum)"
  define dh where "dh = (if rec then bi_direct_pen ?x else bi_direct_pcc ?x)"
  have bl: "b \<in> resident A" using assms(2) by (simp add: live_eq)
  have bo: "block_ok E ?x True" using blocks_okD(1) [OF I(6) bl] assms(2) by simp
  have ri: "rec \<longleftrightarrow> bi_status ?x = BI_INVALID" using block_ok_cases(4) [OF bo] by (auto simp: rec_def)
  have csi: "bi_csi ?x \<noteq> []" if "\<not> rec"
    using block_ok_cases(4) [OF bo] bo that block_ok_cases(2,3) [of ?x E True] by (auto simp: ri)
  define s1 where "s1 = (if get_blockinfo ?cl s = Some b then s\<lparr>bc_handler := (bc_handler s)(?cl := h)\<rparr> else s)"
  define s2 where "s2 = upd_blk b (bi_handler_to_use_update (\<lambda>_. h)) s1"
  have e1: "bc_blk s1 = bc_blk s" "bc_cl s1 = bc_cl s" "bc_list s1 = bc_list s" "bc_deps s1 = bc_deps s" "bc_hold s1 = bc_hold s"
    "bc_chunks s1 = bc_chunks s" "bc_pools s1 = bc_pools s" "bc_compile_p s1 = bc_compile_p s" "bc_jumps s1 = bc_jumps s"
    by (simp_all add: s1_def)
  have "deps_ok lim s2 (resident A) (resident A \<union> held s) D"
    by (rule deps_ok_cong [OF _ _ _ _ I(4)]) (simp_all add: s2_def e1)
  from set_dhtu_ok [OF this, of b dh] bl
  obtain J where J: "set_dhtu b dh s2 = Some (upd_blk b (bi_direct_handler_to_use_update (\<lambda>_. dh)) (s2\<lparr>bc_jumps := J\<rparr>))"
    "deps_ok lim (upd_blk b (bi_direct_handler_to_use_update (\<lambda>_. dh)) (s2\<lparr>bc_jumps := J\<rparr>)) (resident A) (resident A \<union> held s) D"
    by blast
  let ?st = "if rec then BI_INVALID else BI_NEED_CHECK"
  define s' where "s' = upd_blk b (bi_status_update (\<lambda>_. ?st)) (upd_blk b (bi_direct_handler_to_use_update (\<lambda>_. dh)) (s2\<lparr>bc_jumps := J\<rparr>))"
  have dh': "dh = (if rec then bi_direct_pen (bc_blk s2 b) else bi_direct_pcc (bc_blk s2 b))" by (simp add: s2_def e1 dh_def)
  have run: "flush_lazy_block b s = Some s'"
    unfolding flush_lazy_block_def Let_def rec_def [symmetric] h_def [symmetric] s1_def [symmetric] s2_def [symmetric] dh' [symmetric] J(1)
    by (simp add: s'_def)
  let ?y = "?x\<lparr>bi_handler_to_use := h, bi_direct_handler_to_use := dh, bi_status := ?st\<rparr>"
  have f: "bc_blk s' = (bc_blk s)(b := ?y)" "bc_list s' = bc_list s" "bc_hold s' = bc_hold s" "bc_compile_p s' = bc_compile_p s"
    "bc_pools s' = bc_pools s" "bc_chunks s' = bc_chunks s" "bc_cl s' = bc_cl s" "bc_handler s' = bc_handler s1"
    by (simp_all add: s'_def s2_def e1)
  have hd: "held s' = held s" by (simp add: held_def f(3))
  have "tags_ok {} s' C" unfolding tags_ok_def
  proof
    fix k
    have rt: "lk_root (bc_cl s) (k + 1) = (case C (k + 1) of [] \<Rightarrow> None | d # _ \<Rightarrow> Some d)"
      by (rule links_on_root [OF cl_okD(1) [OF I(2)] UNIV_I])
    have kb: "k = ?cl" if "C (k + 1) = b # bs" for bs
    proof -
      have "b \<in> set (C (k + 1))" using that by simp
      then show ?thesis using cl_okD(2) [OF I(2), of b "k + 1"] by simp
    qed
    show "case C (k + 1) of [] \<Rightarrow> bc_handler s' k = Popall_execute_normal
      | d # _ \<Rightarrow> d \<notin> {} \<longrightarrow> bc_handler s' k = bi_handler_to_use (bc_blk s' d)"
    proof (cases "C (k + 1)")
      case Nil
      then show ?thesis using spec [OF I(3) [unfolded tags_ok_def], of k] rt by (auto simp: f s1_def get_blockinfo_def)
    next
      case (Cons d ds)
      then show ?thesis using spec [OF I(3) [unfolded tags_ok_def], of k] rt kb [of ds]
        by (cases "d = b") (auto simp: f s1_def get_blockinfo_def)
    qed
  qed
  moreover have "deps_ok lim s' (resident A) (resident A \<union> held s') D"
    unfolding hd by (rule deps_ok_cong [OF _ _ _ _ J(2)]) (simp_all add: s'_def)
  moreover have "lists_ok s' A F" using I(1) by (subst lists_ok_cong [where s = s]) (simp_all add: f)
  moreover have "cl_ok s' (resident A) C" using I(2) by (subst cl_ok_cong [where s = s]) (auto simp: f)
  moreover have "counts_ok s' (resident A) (linked D)" using I(5) by (auto simp: counts_ok_def f)
  moreover have "block_ok E ?y True"
    using csi bo block_ok_cases(1) [of ?x E True] by (cases rec) (auto simp: block_ok_def h_def dh_def ri)
  then have "blocks_ok E {} s' A" using I(6) assms(2) by (auto simp: blocks_ok_def f)
  ultimately have "cache_inv E {} lim s' A C D F" by (intro cache_invI)
  then show ?thesis using run f by (intro exI [of _ s'] conjI) (simp_all add: flushed_state_def)
qed

lemma flush_lazy_list_ok:
  assumes "cache_inv E {} lim s A C D F" "chain (bc_list s) p h bs" "set bs \<subseteq> set (A Active)"
  shows "\<exists>s'. flush_lazy_list h b2 s = Some (if bs = [] then b2 else last bs, s') \<and> cache_inv E {} lim s' A C D F \<and>
    bc_list s' = bc_list s \<and> bc_hold s' = bc_hold s \<and> bc_compile_p s' = bc_compile_p s \<and> bc_pools s' = bc_pools s \<and>
    (\<forall>c. (c \<in> set bs \<or> flushed_state (bc_blk s c)) \<longrightarrow> flushed_state (bc_blk s' c)) \<and>
    (\<forall>c. c \<notin> set bs \<longrightarrow> bc_blk s' c = bc_blk s c)"
  using assms
proof (induction bs arbitrary: p h b2 s)
  case Nil
  then show ?case by (intro exI [of _ s]) (simp add: flush_lazy_list.simps)
next
  case (Cons b bs)
  then have c: "h = Some b" "chain (bc_list s) (Next b) (lk_next (bc_list s) b) bs" "b \<in> set (A Active)" by auto
  from flush_lazy_block_ok [OF Cons.prems(1) c(3)] obtain s1 where s1: "flush_lazy_block b s = Some s1"
    "cache_inv E {} lim s1 A C D F" "bc_list s1 = bc_list s" "bc_hold s1 = bc_hold s" "bc_compile_p s1 = bc_compile_p s"
    "bc_pools s1 = bc_pools s" "flushed_state (bc_blk s1 b)" "\<forall>c. c \<noteq> b \<longrightarrow> bc_blk s1 c = bc_blk s c" by blast
  have "chain (bc_list s1) (Next b) (lk_next (bc_list s1) b) bs" using c(2) s1(3) by simp
  from Cons.IH [OF s1(2) this, of b] Cons.prems(3)
  obtain s' where s': "flush_lazy_list (lk_next (bc_list s1) b) b s1 = Some (if bs = [] then b else last bs, s')"
    "cache_inv E {} lim s' A C D F" "bc_list s' = bc_list s1" "bc_hold s' = bc_hold s1" "bc_compile_p s' = bc_compile_p s1"
    "bc_pools s' = bc_pools s1" "\<forall>c. (c \<in> set bs \<or> flushed_state (bc_blk s1 c)) \<longrightarrow> flushed_state (bc_blk s' c)"
    "\<forall>c. c \<notin> set bs \<longrightarrow> bc_blk s' c = bc_blk s1 c" by auto
  have "flush_lazy_list h b2 s = Some (last (b # bs), s')" unfolding c(1) by (subst flush_lazy_list.simps) (simp add: s1(1) s'(1))
  moreover have "flushed_state (bc_blk s' c)" if "c \<in> set (b # bs) \<or> flushed_state (bc_blk s c)" for c
    using that s'(7) s1(7,8) by (cases "c = b") auto
  moreover have "bc_blk s' c = bc_blk s c" if "c \<notin> set (b # bs)" for c using that s'(8) s1(8) by auto
  ultimately show ?case using s'(2-6) s1(3-6) by (intro exI [of _ s'] conjI) simp_all
qed

theorem flush_icache_lazy_ok:
  assumes "cache_inv E {} lim s A C D F"
  shows "\<exists>s' A'. flush_icache_lazy s = Some s' \<and> cache_inv E {} lim s' A' C D F \<and> resident A' = resident A \<and> A' Active = [] \<and>
    bc_hold s' = bc_hold s \<and> bc_compile_p s' = bc_compile_p s"
proof (cases "A Active")
  case Nil
  then have "lk_root (bc_list s) Active = None"
    using links_on_root [OF lists_okD(1) [OF cache_invD(1) [OF assms]] UNIV_I, of Active] by simp
  with Nil assms show ?thesis by (intro exI [of _ s] exI [of _ A]) (simp add: flush_icache_lazy_def)
next
  case (Cons a as)
  note I = cache_invD [OF assms]
  note l = lists_okD [OF I(1)]
  have r: "lk_root (bc_list s) Active = Some a" using links_on_root [OF l(1) UNIV_I, of Active] Cons by simp
  have "chain (bc_list s) (Root Active) (Some a) (A Active)" using links_onD(1) [OF l(1), of Active] r by simp
  from flush_lazy_list_ok [OF assms this, of a] Cons
  obtain s1 where s1: "flush_lazy_list (Some a) a s = Some (last (A Active), s1)" "cache_inv E {} lim s1 A C D F"
    "bc_list s1 = bc_list s" "bc_hold s1 = bc_hold s" "bc_compile_p s1 = bc_compile_p s" "bc_pools s1 = bc_pools s"
    "\<forall>c. c \<in> set (A Active) \<longrightarrow> flushed_state (bc_blk s1 c)" by auto
  note I1 = cache_invD [OF s1(2)]
  note l1 = lists_okD [OF I1(1)]
  let ?L = "append_dormant (last (A Active)) (bc_list s1)"
  let ?s = "s1\<lparr>bc_list := ?L\<rparr>" and ?A = "A(Active := [], Dormant := A Active @ A Dormant)"
  have ne: "A Active \<noteq> []" using Cons by simp
  note ap = append_dormant_ok [OF l1(1) ne refl]
  have lv: "resident ?A = resident A" by (auto simp: live_eq)
  have "free_chain (lk_next ?L) (bc_chunks s1) F = free_chain (lk_next (bc_list s1)) (bc_chunks s1) F"
  proof (rule free_chain_cong)
    fix b assume "b \<in> set F"
    then have "b \<notin> set (A Active)" using l1(4) by (auto simp: live_eq)
    then show "lk_next ?L b = lk_next (bc_list s1) b" by (rule ap(2))
  qed
  then have "lists_ok ?s ?A F" using l1 ap(1) lv by (simp add: lists_ok_def hold_ok_def)
  moreover have "cl_ok ?s (resident ?A) C" using I1(2) unfolding lv by (subst cl_ok_cong [where s = s1]) simp_all
  moreover have "tags_ok {} ?s C" by (rule tags_ok_cong [OF _ _ _ I1(3)]) simp_all
  moreover have "deps_ok lim ?s (resident ?A) (resident ?A \<union> held ?s) D"
    unfolding lv using deps_ok_cong [OF _ _ _ _ I1(4), of ?s] by simp
  moreover have "counts_ok ?s (resident ?A) (linked D)" using I1(5) unfolding lv by (simp add: counts_ok_def)
  moreover have "blocks_ok E {} ?s ?A"
  proof -
    have "block_ok E (bc_blk s1 b) False" if "b \<in> resident A" for b
    proof (cases "b \<in> set (A Active)")
      case True
      then show ?thesis using blocks_okD(1) [OF I1(6) that] s1(7) block_ok_cases(1,2) [of "bc_blk s1 b"]
        by (auto simp: flushed_state_def)
    next
      case False
      then show ?thesis using blocks_okD(1) [OF I1(6) that] by simp
    qed
    then show ?thesis using lv by (simp add: blocks_ok_def)
  qed
  ultimately have "cache_inv E {} lim ?s ?A C D F" by (rule cache_invI)
  moreover have "flush_icache_lazy s = Some ?s" by (simp add: flush_icache_lazy_def r s1(1))
  ultimately show ?thesis using lv s1(4,5) by (intro exI [of _ ?s] exI [of _ ?A]) simp
qed

section \<open>The hard flush\<close>

text \<open>What freeing the blocks \<open>bs\<close> changes.\<close>

definition released :: "bid list \<Rightarrow> bcache \<Rightarrow> bcache \<Rightarrow> bool" where
  "released bs s s' \<longleftrightarrow> lk_root (bc_list s') = lk_root (bc_list s) \<and> lk_prev (bc_list s') = lk_prev (bc_list s) \<and>
     (\<forall>c. c \<notin> set bs \<longrightarrow> lk_next (bc_list s') c = lk_next (bc_list s) c) \<and>
     (\<forall>k. bc_handler s' k = (if k \<in> (\<lambda>b. cacheline (bi_pc_p (bc_blk s b))) ` set bs then Popall_execute_normal else bc_handler s k)) \<and>
     (\<forall>k. lk_root (bc_cl s') k = (if k \<in> (\<lambda>b. cacheline (bi_pc_p (bc_blk s b)) + 1) ` set bs then None else lk_root (bc_cl s) k)) \<and>
     bc_pools s' = bc_pools s \<and> bc_room s' = bc_room s \<and> (\<forall>c. bi_pc_p (bc_blk s' c) = bi_pc_p (bc_blk s c))"

lemma free_list_ok:
  assumes "chain (bc_list s) p h bs" "distinct bs" "free_chain (lk_next (bc_list s)) (bc_chunks s) F" "set bs \<inter> set F = {}"
  shows "\<exists>s'. free_list h s = Some s' \<and> free_chain (lk_next (bc_list s')) (bc_chunks s') (rev bs @ F) \<and> released bs s s'"
  using assms
proof (induction bs arbitrary: p h s F)
  case Nil
  then show ?case by (intro exI [of _ s]) (simp add: free_list.simps released_def)
next
  case (Cons b bs)
  have c: "h = Some b" "chain (bc_list s) (Next b) (lk_next (bc_list s) b) bs" "b \<notin> set bs" "b \<notin> set F"
    using Cons.prems by auto
  let ?s = "free_blockinfo b (clear_tag (bi_pc_p (bc_blk s b)) s)"
  have e: "bc_list ?s = (bc_list s)\<lparr>lk_next := (lk_next (bc_list s))(b := bc_chunks s)\<rparr>" "bc_chunks ?s = Some b"
    "\<And>d. bi_pc_p (bc_blk ?s d) = bi_pc_p (bc_blk s d)" "bc_pools ?s = bc_pools s" "bc_room ?s = bc_room s"
    "bc_handler ?s = (bc_handler s)(cacheline (bi_pc_p (bc_blk s b)) := Popall_execute_normal)"
    "lk_root (bc_cl ?s) = (lk_root (bc_cl s))(cacheline (bi_pc_p (bc_blk s b)) + 1 := None)"
    by (simp_all add: free_blockinfo_def release_def clear_tag_def)
  have "chain (bc_list ?s) (Next b) (lk_next (bc_list s) b) bs = chain (bc_list s) (Next b) (lk_next (bc_list s) b) bs"
    by (rule chain_cong) (use c(3) in \<open>auto simp: e\<close>)
  then have c1: "chain (bc_list ?s) (Next b) (lk_next (bc_list s) b) bs" using c(2) by simp
  have "free_chain (lk_next (bc_list ?s)) (bc_chunks s) F = free_chain (lk_next (bc_list s)) (bc_chunks s) F"
    by (rule free_chain_cong) (use c(4) in \<open>auto simp: e\<close>)
  then have c2: "free_chain (lk_next (bc_list ?s)) (bc_chunks ?s) (b # F)" using Cons.prems(3) by (simp add: e)
  from Cons.IH [OF c1 _ c2] Cons.prems(2,4) obtain s' where s': "free_list (lk_next (bc_list s) b) ?s = Some s'"
    "free_chain (lk_next (bc_list s')) (bc_chunks s') (rev bs @ b # F)" "released bs ?s s'" by auto
  have "free_list h s = Some s'" unfolding c(1) using s'(1) by (subst free_list.simps) (simp add: Let_def clear_tag_def)
  moreover have "released (b # bs) s s'" using s'(3) unfolding released_def e by (auto simp: e)
  ultimately show ?case using s'(2) by auto
qed

lemma empty_inv:
  assumes "free_chain (lk_next (bc_list s)) (bc_chunks s) F" "distinct F" "set F \<subseteq> {..<records s}"
    and "\<And>r. lk_root (bc_list s) r = None" "\<And>k. lk_root (bc_cl s) k = None" "\<And>k. bc_handler s k = Popall_execute_normal"
    "\<And>i. bc_hold s i = None"
  shows "cache_inv E {} lim s (\<lambda>_. []) (\<lambda>_. []) (\<lambda>_. []) F"
proof -
  have h: "held s = {}" by (simp add: held_def assms(7))
  have l: "resident (\<lambda>_. []) = {}" by (simp add: members_def)
  show ?thesis
    unfolding cache_inv_def lists_ok_def cl_ok_def tags_ok_def deps_ok_def counts_ok_def blocks_ok_def h l
    using assms by (simp add: links_on_def hold_ok_def linked_def)
qed

theorem flush_icache_hard_ok:
  assumes "cache_inv E X lim s A C D F"
  shows "\<exists>s' F'. flush_icache_hard s = Some s' \<and> cache_inv E {} 0 s' (\<lambda>_. []) (\<lambda>_. []) (\<lambda>_. []) F' \<and>
    bc_compile_p s' = 0 \<and> bc_hold s' = (\<lambda>_. None) \<and> bc_room s' = bc_room s"
proof -
  note I = cache_invD [OF assms]
  note l = lists_okD [OF I(1)]
  have ch: "chain (bc_list s) (Root r) (lk_root (bc_list s) r) (A r)" "distinct (A r)" for r
    using links_onD(1,2) [OF l(1) UNIV_I] .
  have dj: "set (A Active) \<inter> set (A Dormant) = {}" by (rule lists_disjoint [OF I(1)])
  have df: "set (A r) \<inter> set F = {}" for r using l(4) by (cases r) (auto simp: live_eq)
  from free_list_ok [OF ch(1) [of Active] ch(2) l(2) df]
  obtain s1 where s1: "free_list (lk_root (bc_list s) Active) s = Some s1"
    "free_chain (lk_next (bc_list s1)) (bc_chunks s1) (rev (A Active) @ F)" "released (A Active) s s1" by blast
  have "chain (bc_list s1) (Root Dormant) (lk_root (bc_list s) Dormant) (A Dormant) =
      chain (bc_list s) (Root Dormant) (lk_root (bc_list s) Dormant) (A Dormant)"
    by (rule chain_cong) (use s1(3) dj in \<open>auto simp: released_def\<close>)
  then have c1: "chain (bc_list s1) (Root Dormant) (lk_root (bc_list s1) Dormant) (A Dormant)"
    using ch(1) s1(3) by (simp add: released_def)
  have "set (A Dormant) \<inter> set (rev (A Active) @ F) = {}" using dj df [of Dormant] by auto
  from free_list_ok [OF c1 ch(2) s1(2) this]
  obtain s2 where s2: "free_list (lk_root (bc_list s1) Dormant) s1 = Some s2"
    "free_chain (lk_next (bc_list s2)) (bc_chunks s2) (rev (A Dormant) @ rev (A Active) @ F)" "released (A Dormant) s1 s2" by blast
  let ?s = "(reset_lists s2)\<lparr>bc_compile_p := 0\<rparr>" and ?F = "rev (A Dormant) @ rev (A Active) @ F"
  have pc: "bi_pc_p (bc_blk s1 b) = bi_pc_p (bc_blk s b)" for b using s1(3) by (simp add: released_def)
  have tag: "bc_handler s2 k = Popall_execute_normal \<and> lk_root (bc_cl s2) (k + 1) = None" for k
  proof (cases "C (k + 1)")
    case Nil
    then have "bc_handler s k = Popall_execute_normal" "lk_root (bc_cl s) (k + 1) = None"
      using spec [OF I(3) [unfolded tags_ok_def], of k] links_on_root [OF cl_okD(1) [OF I(2)] UNIV_I, of "k + 1"] by auto
    then show ?thesis using s1(3) s2(3) unfolding released_def by auto
  next
    case (Cons b bs)
    then have "b \<in> resident A" "k = cacheline (bi_pc_p (bc_blk s b))" using cl_okD(2) [OF I(2), of b "k + 1"] by auto
    then show ?thesis using s1(3) s2(3) unfolding released_def live_eq pc by auto
  qed
  have zero: "lk_root (bc_cl s2) 0 = None"
  proof -
    have "C 0 = []" using cl_okD(2) [OF I(2), of _ 0] by (cases "C 0") auto
    then have "lk_root (bc_cl s) 0 = None" using links_on_root [OF cl_okD(1) [OF I(2)] UNIV_I, of 0] by simp
    then show ?thesis using s1(3) s2(3) unfolding released_def by auto
  qed
  have "cache_inv E {} 0 ?s (\<lambda>_. []) (\<lambda>_. []) (\<lambda>_. []) ?F"
  proof (rule empty_inv)
    show "free_chain (lk_next (bc_list ?s)) (bc_chunks ?s) ?F" using s2(2) by (simp add: reset_lists_def)
    show "distinct ?F" using ch(2) dj df l(3) by auto
    show "set ?F \<subseteq> {..<records ?s}" using l(7) s1(3) s2(3) by (auto simp: released_def reset_lists_def live_eq)
    show "lk_root (bc_list ?s) r = None" for r by (cases r) (simp_all add: reset_lists_def)
    show "lk_root (bc_cl ?s) k = None" for k using tag [of "k - 1"] zero by (cases k) (simp_all add: reset_lists_def)
    show "bc_handler ?s k = Popall_execute_normal" for k using tag by (simp add: reset_lists_def)
    show "bc_hold ?s i = None" for i by (simp add: reset_lists_def)
  qed
  moreover have "flush_icache_hard s = Some ?s" by (simp add: flush_icache_hard_def s1(1) s2(1))
  moreover have "bc_room ?s = bc_room s" using s1(3) s2(3) by (simp add: released_def reset_lists_def)
  ultimately show ?thesis by (intro exI [of _ ?s] exI [of _ ?F]) (simp add: reset_lists_def)
qed

section \<open>Misses\<close>

lemma raise_inv:
  assumes "cache_inv E {} lim s A C D F" "b \<in> resident A"
  shows "\<exists>C'. cache_inv E {} lim (raise_in_cl_list b s) A C' D F \<and>
    get_blockinfo (cacheline (bi_pc_p (bc_blk s b))) (raise_in_cl_list b s) = Some b"
proof -
  note I = cache_invD [OF assms(1)]
  obtain C' where C': "cl_ok (raise_in_cl_list b s) (resident A) C'" "tags_ok {} (raise_in_cl_list b s) C'"
    using raise_ok [OF I(2,3) assms(2)] by auto
  have "cache_inv E {} lim (raise_in_cl_list b s) A C' D F"
  proof (rule cache_invI)
    show "lists_ok (raise_in_cl_list b s) A F" using I(1) by (subst lists_ok_cong [where s = s]) simp_all
    show "deps_ok lim (raise_in_cl_list b s) (resident A) (resident A \<union> held (raise_in_cl_list b s)) D"
      using deps_ok_cong [OF _ _ _ _ I(4), of "raise_in_cl_list b s"] by simp
  qed (use C' I(5,6) in \<open>simp_all add: counts_ok_def blocks_ok_def\<close>)
  moreover have "get_blockinfo (cacheline (bi_pc_p (bc_blk s b))) (raise_in_cl_list b s) = Some b"
    by (simp add: get_blockinfo_def raise_in_cl_list_def add_to_cl_list_def remove_from_cl_list_def Let_def)
  ultimately show ?thesis by blast
qed

lemma miss_ok:
  assumes "cache_inv E {} (bc_compile_p s) s A C D F"
    and "check_for_cache_miss pc s = Some (r, s') \<or> cache_miss pc s = Some (r, s') \<or> recompile_block pc s = Some (r, s')"
  shows "\<exists>C'. cache_inv E {} (bc_compile_p s') s' A C' D F \<and> bc_hold s' = bc_hold s"
proof -
  note I = cache_invD [OF assms(1)]
  obtain f where f: "get_blockinfo_addr pc s = Some f"
    using assms(2) by (auto simp: check_for_cache_miss_def cache_miss_def recompile_block_def bind_eq_Some_conv)
  note g = get_blockinfo_addrD [OF I(2) f]
  have "s' = s \<or> (\<exists>b. f = Some b \<and> s' = raise_in_cl_list b s)"
    using assms(2) f by (auto simp: check_for_cache_miss_def cache_miss_def recompile_block_def Let_def split: option.splits if_splits)
  then show ?thesis
  proof
    assume "s' = s"
    then show ?thesis using assms(1) by blast
  next
    assume "\<exists>b. f = Some b \<and> s' = raise_in_cl_list b s"
    then obtain b where b: "f = Some b" "s' = raise_in_cl_list b s" by blast
    then have "b \<in> resident A" using g by simp
    from raise_inv [OF assms(1) this] show ?thesis by (auto simp: b(2))
  qed
qed

text \<open>A host fault deletes one block at most, and the search for it ends.\<close>

lemma delete_trigger_ok:
  assumes "cache_inv E {} lim s A C D F" "chain (bc_list s) p h bs" "set bs \<subseteq> resident A"
  shows "\<exists>r s' C' D'. delete_trigger pc h s = Some (r, s') \<and> cache_inv E {} lim s' A C' D' F \<and>
    bc_hold s' = bc_hold s \<and> bc_compile_p s' = bc_compile_p s \<and> (\<not> r \<longrightarrow> s' = s)"
  using assms(2,3)
proof (induction bs arbitrary: p h)
  case Nil
  then show ?case using assms(1) by (subst delete_trigger.simps) auto
next
  case (Cons b bs)
  then have c: "h = Some b" "chain (bc_list s) (Next b) (lk_next (bc_list s) b) bs" "b \<in> resident A" by auto
  show ?case
  proof (cases "in_code pc (bc_blk s b)")
    case True
    from discard_ok [OF assms(1) c(3)] obtain s1 C' D' where d: "invalidate_block b s = Some s1"
      "cache_inv E {} lim (raise_in_cl_list b s1) A C' D' F" "bc_hold s1 = bc_hold s" "bc_compile_p s1 = bc_compile_p s" by auto
    then show ?thesis using True c(1) by (subst delete_trigger.simps) auto
  next
    case False
    then have "delete_trigger pc h s = delete_trigger pc (lk_next (bc_list s) b) s" using c(1) by (subst delete_trigger.simps) simp
    then show ?thesis using Cons.IH [OF c(2)] Cons.prems(2) by simp
  qed
qed

lemma delete_triggers_ok:
  assumes "cache_inv E {} lim s A C D F"
  shows "\<exists>r s' C' D'. delete_triggers pc s = Some (r, s') \<and> cache_inv E {} lim s' A C' D' F \<and>
    bc_hold s' = bc_hold s \<and> bc_compile_p s' = bc_compile_p s"
proof -
  note l = lists_okD(1) [OF cache_invD(1) [OF assms]]
  have ch: "chain (bc_list s) (Root r) (lk_root (bc_list s) r) (A r)" "set (A r) \<subseteq> resident A" for r
    using links_onD(1) [OF l UNIV_I] by (auto simp: members_def)
  from delete_trigger_ok [OF assms ch, of pc Active] obtain r s1 C1 D1 where d: "delete_trigger pc (lk_root (bc_list s) Active) s = Some (r, s1)"
    "cache_inv E {} lim s1 A C1 D1 F" "bc_hold s1 = bc_hold s" "bc_compile_p s1 = bc_compile_p s" "\<not> r \<longrightarrow> s1 = s" by blast
  show ?thesis
  proof (cases r)
    case True
    then show ?thesis using d by (auto simp: delete_triggers_def)
  next
    case False
    then have "delete_triggers pc s = delete_trigger pc (lk_root (bc_list s) Dormant) s" using d(1,5) by (simp add: delete_triggers_def)
    then show ?thesis using delete_trigger_ok [OF assms ch, of pc Dormant] by auto
  qed
qed

lemma pending_bound:
  assumes "cache_inv E X lim s A C D F"
  shows "card (pending (resident A) s) < check_fuel s"
proof -
  have "pending (resident A) s \<subseteq> {..<records s}" using lists_okD(7) [OF cache_invD(1) [OF assms]] by (auto simp: pending_def)
  then have "card (pending (resident A) s) \<le> card {..<records s}" by (rule card_mono [rotated]) simp
  then show ?thesis by (simp add: check_fuel_def)
qed

lemma check_checksum_ok:
  assumes "cache_inv E {} (bc_compile_p s) s A C D F" "check_checksum H pc s = Some (r, s')"
  shows "\<exists>A' C' D'. cache_inv E {} (bc_compile_p s') s' A' C' D' F \<and> bc_hold s' = bc_hold s"
proof -
  note I = cache_invD [OF assms(1)]
  obtain f where f: "get_blockinfo_addr pc s = Some f" using assms(2) by (auto simp: check_checksum_def bind_eq_Some_conv)
  note g = get_blockinfo_addrD [OF I(2) f]
  consider "s' = s" | "cache_miss pc s = Some (r, s')" | b isgood where "f = Some b" "block_check_checksum (check_fuel s) H b s = Some (isgood, s')"
    using assms(2) f by (auto simp: check_checksum_def bind_eq_Some_conv split: option.splits if_splits)
  then show ?thesis
  proof cases
    case 1
    then show ?thesis using assms(1) by blast
  next
    case 2
    then show ?thesis using miss_ok [OF assms(1)] by blast
  next
    case (3 b isgood)
    then have "b \<in> resident A" using g by simp
    from block_check_ok [OF assms(1) this pending_bound [OF assms(1)], of H] 3(2)
    obtain A' C' D' where "cache_inv E {} (bc_compile_p s) s' A' C' D' F" "checked s s'" by auto
    then show ?thesis using checkedD(1,3) by metis
  qed
qed

end
