(* ===== verification/Block_Compile.thy ===== *)
theory Block_Compile
  imports Block_Flush
begin

text \<open>
  What \<^verbatim>\<open>compile_block\<close> does to the cache: the choice of the level, the chaining of the block to the blocks
  that follow, and the end of the compilation, when the block becomes active.
\<close>

section \<open>Chaining\<close>

lemma linked_iff:
  assumes "deps_ok lim s V R D" "b \<in> V" "i < 2"
  shows "(b, i) \<in> linked D \<longleftrightarrow> dp_jmp_off (bi_dep (bc_blk s b) i) \<noteq> None"
proof
  assume "(b, i) \<in> linked D"
  then obtain t where "(b, i) \<in> set (D t)" by (auto simp: linked_def)
  from deps_okD(5) [OF assms(1) this] show "dp_jmp_off (bi_dep (bc_blk s b) i) \<noteq> None" by (auto simp: jump_ok_def dep_of_def)
next
  assume "dp_jmp_off (bi_dep (bc_blk s b) i) \<noteq> None"
  then show "(b, i) \<in> linked D"
    using deps_okD(8) [OF assms] by (cases "(b, i) \<in> linked D") (auto simp: dep_of_def)
qed

lemma match_states_ok:
  assumes "cache_inv E X lim s A C D F" "b \<in> resident A"
  shows "\<exists>s' A' C' D'. match_states H b s = Some s' \<and> cache_inv E X lim s' A' C' D' F \<and> resident A' = resident A \<and> checked s s'"
proof (cases "bi_status (bc_blk s b) = BI_NEED_CHECK")
  case True
  from block_check_ok [OF assms pending_bound [OF assms(1)], of H]
  show ?thesis unfolding match_states_def using True by fastforce
next
  case False
  then show ?thesis using assms(1)
    by (intro exI [of _ s] exI [of _ A] exI [of _ C] exI [of _ D]) (simp add: match_states_def)
qed

lemma room_for_checked: "checked s s' \<Longrightarrow> room_for s' V S = room_for s V S"
  using checkedD(2,6) [of s s'] by (simp add: room_for_def)

text \<open>What the compilation keeps of the block in work while it is chained.\<close>

definition in_work :: "bid \<Rightarrow> bcache \<Rightarrow> bid set \<Rightarrow> bcache \<Rightarrow> bid set \<Rightarrow> bool" where
  "in_work b s V s' V' \<longleftrightarrow> V \<subseteq> V' \<and> (\<exists>d. bc_blk s' b = (bc_blk s b)\<lparr>bi_dep := d\<rparr>) \<and>
     bc_compile_p s' = bc_compile_p s \<and> (hold_filled (bc_hold s) \<longrightarrow> hold_filled (bc_hold s'))"

lemma in_work_refl [simp]: "in_work b s V s V"
  by (auto simp: in_work_def intro: exI [of _ "bi_dep (bc_blk s b)"])

lemma in_work_trans: "in_work b s V s' V' \<Longrightarrow> in_work b s' V' s'' V'' \<Longrightarrow> in_work b s V s'' V''"
  unfolding in_work_def by fastforce

lemma get_new_work:
  assumes "cache_inv E X lim s A C D F" "room_for s (resident A) S" "addr \<in> S" "b \<in> resident A"
  shows "\<exists>t s' A' C' D'. get_blockinfo_addr_new addr s = Some (t, s') \<and> cache_inv E X lim s' A' C' D' F \<and> t \<in> resident A' \<and>
    bi_pc_p (bc_blk s' t) = addr \<and> in_work b s (resident A) s' (resident A') \<and> bc_blk s' b = bc_blk s b \<and> room_for s' (resident A') S"
proof -
  have "room_for s (resident A) {addr}" using room_for_mono [OF assms(2)] assms(3) by simp
  from get_new_ok [OF assms(1) this] assms(2,3) obtain t s' A' C' D' where g: "get_blockinfo_addr_new addr s = Some (t, s')"
    "cache_inv E X lim s' A' C' D' F" "t \<in> resident A'" "bi_pc_p (bc_blk s' t) = addr" "extended s (resident A) s' (resident A')"
    "room_for s' (resident A') S" by blast
  then have "bc_blk s' b = bc_blk s b" "in_work b s (resident A) s' (resident A')"
    using assms(4) by (auto simp: extended_def in_work_def intro: exI [of _ "bi_dep (bc_blk s b)"])
  with g show ?thesis by blast
qed

lemma link_exit_ok:
  assumes "cache_inv E X lim s A C D F" "b \<in> resident A" "b \<in> X" "i < 2" "(b, i) \<notin> linked D" "bi_count (bc_blk s b) = -2"
    and "lim \<le> tba" "tba < lim'" "room_for s (resident A) S" "t \<in> S"
  shows "\<exists>s' A' C' D'. link_exit H b i tba t s = Some s' \<and> cache_inv E X lim' s' A' C' D' F \<and>
    in_work b s (resident A) s' (resident A') \<and> room_for s' (resident A') S \<and>
    (\<forall>j < 2. j \<noteq> i \<longrightarrow> (b, j) \<notin> linked D \<longrightarrow> (b, j) \<notin> linked D')"
proof -
  from get_new_work [OF assms(1,9,10,2)] obtain u s1 A1 C1 D1 where g: "get_blockinfo_addr_new t s = Some (u, s1)"
    "cache_inv E X lim s1 A1 C1 D1 F" "u \<in> resident A1" "bi_pc_p (bc_blk s1 u) = t" "in_work b s (resident A) s1 (resident A1)"
    "bc_blk s1 b = bc_blk s b" "room_for s1 (resident A1) S" by blast
  from match_states_ok [OF g(2,3)] obtain s2 A2 C2 D2 where m: "match_states H u s1 = Some s2"
    "cache_inv E X lim s2 A2 C2 D2 F" "resident A2 = resident A1" "checked s1 s2" by blast
  note I = cache_invD [OF m(2)]
  have bA: "b \<in> resident A2" "u \<in> resident A2" using assms(2) g(3,5) m(3) by (auto simp: in_work_def)
  have st: "bi_status (bc_blk s1 b) \<noteq> BI_NEED_CHECK" using blocks_okD(2) [OF cache_invD(6) [OF g(2)] assms(3)] .
  have b2: "bc_blk s2 b = bc_blk s b" using checkedD(5) [OF m(4) st] g(6) by simp
  have pc: "bi_pc_p (bc_blk s2 u) = t" using checkedD(6) [OF m(4)] g(4) by simp
  have lk: "(b, j) \<in> linked D2 \<longleftrightarrow> (b, j) \<in> linked D" if "j < 2" for j
    using linked_iff [OF I(4) bA(1) that] linked_iff [OF cache_invD(4) [OF assms(1)] assms(2) that] b2 by simp
  have look: "get_blockinfo_addr t s2 = Some (Some u)" by (rule get_blockinfo_addr_ok(2) [OF I(2) bA(2) pc])
  then have new2: "get_blockinfo_addr_new t s2 = Some (u, s2)" by (simp add: get_blockinfo_addr_new_def)
  let ?dh = "bi_direct_handler_to_use (bc_blk s2 u)"
  let ?s3 = "write_jmp_target tba ?dh s2"
  define s4 where "s4 = upd_blk b (\<lambda>x. x\<lparr>bi_dep := (bi_dep x)(i := (bi_dep x i)\<lparr>dp_jmp_off := Some tba, dp_source := Some b,
         dp_target := Some u\<rparr>)\<rparr>) ?s3"
  let ?s = "s4\<lparr>bc_deps := link_front u (b, i) (bc_deps s4)\<rparr>" and ?D = "D2(u := (b, i) # D2 u)"
  have look3: "get_blockinfo_addr t ?s3 = Some (Some u)"
    by (rule get_blockinfo_addr_ok(2) [where V = "resident A2" and C = C2])
      (use I(2) bA(2) pc in \<open>auto simp: write_jmp_target_def cl_ok_def\<close>)
  have run: "link_exit H b i tba t s = Some ?s"
    unfolding link_exit_def create_jmpdep_def using g(1) m(1) look3 new2 by (simp add: s4_def)
  have f: "bc_blk ?s = (bc_blk s2)(b := (bc_blk s2 b)\<lparr>bi_dep := (bi_dep (bc_blk s2 b))(i := (bi_dep (bc_blk s2 b) i)
        \<lparr>dp_jmp_off := Some tba, dp_source := Some b, dp_target := Some u\<rparr>)\<rparr>)"
    "bc_list ?s = bc_list s2" "bc_chunks ?s = bc_chunks s2" "bc_hold ?s = bc_hold s2" "bc_pools ?s = bc_pools s2"
    "bc_cl ?s = bc_cl s2" "bc_handler ?s = bc_handler s2" "bc_compile_p ?s = bc_compile_p s2"
    by (simp_all add: s4_def write_jmp_target_def)
  have h: "held ?s = held s2" by (simp add: held_def f(4))
  have ub: "(b, i) \<notin> linked D2" using lk assms(4,5) by simp
  have lD: "linked ?D = insert (b, i) (linked D2)" by (auto simp: linked_def split: if_splits)
  have "cache_inv E X lim' ?s A2 C2 ?D F"
  proof (rule cache_invI)
    show "lists_ok ?s A2 F" using I(1) by (subst lists_ok_cong [where s = s2]) (simp_all add: f)
    show "cl_ok ?s (resident A2) C2" using I(2) by (subst cl_ok_cong [where s = s2]) (auto simp: f)
    show "tags_ok X ?s C2" by (rule tags_ok_cong [OF _ _ _ I(3)]) (auto simp: f)
    show "deps_ok lim' ?s (resident A2) (resident A2 \<union> held ?s) ?D"
      unfolding h by (rule link_dep_ok [OF I(4) bA(1) assms(4) ub bA(2) assms(7,8) s4_def])
    show "counts_ok ?s (resident A2) (linked ?D)" using I(5) assms(6) b2 unfolding counts_ok_def lD f by auto
    show "blocks_ok E X ?s A2" using I(6) assms(3) unfolding blocks_ok_def f by auto
  qed
  moreover have "in_work b s (resident A) ?s (resident A2)"
    using g(5,6) m(3) checkedD(1,3) [OF m(4)] b2 by (auto simp: in_work_def f)
  moreover have "room_for ?s (resident A2) S"
  proof -
    have "bi_pc_p (bc_blk ?s c) = bi_pc_p (bc_blk s2 c)" for c unfolding f by simp
    then have "room_for ?s (resident A2) S = room_for s2 (resident A2) S" unfolding room_for_def h by (simp only:)
    then show ?thesis using room_for_checked [OF m(4)] g(7) m(3) by simp
  qed
  moreover have "(b, j) \<notin> linked ?D" if "j < 2" "j \<noteq> i" "(b, j) \<notin> linked D" for j using that lk unfolding lD by auto
  ultimately show ?thesis using run by (intro exI [of _ ?s] exI [of _ A2] exI [of _ C2] exI [of _ ?D]) blast
qed

definition exits_ok :: "exits \<Rightarrow> nat \<Rightarrow> nat \<Rightarrow> bool" where
  "exits_ok ex p q \<longleftrightarrow> (case ex of Branch _ _ _ tba1 tba2 \<Rightarrow> p \<le> tba1 \<and> tba1 < tba2 \<and> tba2 < q
     | Const_end _ tba \<Rightarrow> p \<le> tba \<and> tba < q | Dynamic_end \<Rightarrow> True)"

definition exit_pcs :: "exits \<Rightarrow> u64 set" where
  "exit_pcs ex = (case ex of Branch n t _ _ _ \<Rightarrow> {n, t} | Const_end v _ \<Rightarrow> {v} | Dynamic_end \<Rightarrow> {})"

lemma link_exits_ok:
  assumes "cache_inv E X lim s A C D F" "b \<in> resident A" "b \<in> X" "\<And>i. (b, i) \<notin> linked D" "bi_count (bc_blk s b) = -2"
    and "exits_ok ex lim q" "room_for s (resident A) S" "exit_pcs ex \<subseteq> S" "lim \<le> q"
  shows "\<exists>s' A' C' D'. link_exits H b pc ex s = Some s' \<and> cache_inv E X q s' A' C' D' F \<and> in_work b s (resident A) s' (resident A')"
proof (cases ex)
  case Dynamic_end
  then show ?thesis using assms(1) deps_ok_mono [OF cache_invD(4) [OF assms(1)] assms(9)]
    by (intro exI [of _ s] exI [of _ A] exI [of _ C] exI [of _ D]) (simp add: link_exits_def cache_inv_def)
next
  case (Const_end v tba)
  then have "lim \<le> tba" "tba < q" "v \<in> S" using assms(6,8) by (auto simp: exits_ok_def exit_pcs_def)
  from link_exit_ok [OF assms(1-3) _ assms(4,5) this(1,2) assms(7) this(3), of 0 H] show ?thesis
    by (auto simp: link_exits_def Const_end)
next
  case (Branch n t w tba1 tba2)
  have o: "lim \<le> tba1" "tba1 < tba2" "tba2 < q" "n \<in> S" "t \<in> S" using assms(6,8) by (auto simp: exits_ok_def exit_pcs_def Branch)
  let ?pre = "if w \<and> t = pc then do { (bi1, s) \<leftarrow> get_blockinfo_addr_new n s; (bi2, s) \<leftarrow> get_blockinfo_addr_new t s; Some s } else Some s"
  have "\<exists>s1 A1 C1 D1. ?pre = Some s1 \<and> cache_inv E X lim s1 A1 C1 D1 F \<and> in_work b s (resident A) s1 (resident A1) \<and>
      room_for s1 (resident A1) S \<and> bc_blk s1 b = bc_blk s b"
  proof (cases "w \<and> t = pc")
    case False
    then show ?thesis using assms(1,7) by (intro exI [of _ s] exI [of _ A] exI [of _ C] exI [of _ D]) auto
  next
    case True
    from get_new_work [OF assms(1,7) o(4) assms(2)] obtain u s1 A1 C1 D1 where g: "get_blockinfo_addr_new n s = Some (u, s1)"
      "cache_inv E X lim s1 A1 C1 D1 F" "in_work b s (resident A) s1 (resident A1)" "bc_blk s1 b = bc_blk s b" "room_for s1 (resident A1) S"
      by blast
    have "b \<in> resident A1" using assms(2) g(3) by (auto simp: in_work_def)
    from get_new_work [OF g(2,5) o(5) this] obtain v s2 A2 C2 D2 where g2: "get_blockinfo_addr_new t s1 = Some (v, s2)"
      "cache_inv E X lim s2 A2 C2 D2 F" "in_work b s1 (resident A1) s2 (resident A2)" "bc_blk s2 b = bc_blk s1 b" "room_for s2 (resident A2) S"
      by blast
    show ?thesis using True g g2 in_work_trans [OF g(3) g2(3)]
      by (intro exI [of _ s2] exI [of _ A2] exI [of _ C2] exI [of _ D2]) simp
  qed
  then obtain s1 A1 C1 D1 where p: "?pre = Some s1" "cache_inv E X lim s1 A1 C1 D1 F" "in_work b s (resident A) s1 (resident A1)"
    "room_for s1 (resident A1) S" "bc_blk s1 b = bc_blk s b" by blast
  have b1: "b \<in> resident A1" using assms(2) p(3) by (auto simp: in_work_def)
  have ub: "(b, i) \<notin> linked D1" if "i < 2" for i
    using linked_iff [OF cache_invD(4) [OF p(2)] b1 that] linked_iff [OF cache_invD(4) [OF assms(1)] assms(2) that] assms(4) p(5) by simp
  have c1: "bi_count (bc_blk s1 b) = -2" using assms(5) p(5) by simp
  obtain t1 t2 where t: "(if t < n then (t, n) else (n, t)) = (t1, t2)" "t1 \<in> S" "t2 \<in> S" using o(4,5) by (cases "t < n") auto
  have i: "(0::nat) < 2" "(1::nat) < 2" by simp_all
  from link_exit_ok [OF p(2) b1 assms(3) i(1) ub [OF i(1)] c1 o(1,2) p(4) t(2), of H]
  obtain s2 A2 C2 D2 where l: "link_exit H b 0 tba1 t1 s1 = Some s2" "cache_inv E X tba2 s2 A2 C2 D2 F"
    "in_work b s1 (resident A1) s2 (resident A2)" "room_for s2 (resident A2) S" "(b, 1) \<notin> linked D2"
    using ub [OF i(2)] by (metis i(2) zero_neq_one)
  have b2: "b \<in> resident A2" "bi_count (bc_blk s2 b) = -2" using b1 l(3) c1 by (auto simp: in_work_def)
  from link_exit_ok [OF l(2) b2(1) assms(3) i(2) l(5) b2(2) order_refl o(3) l(4) t(3), of H]
  obtain s3 A3 C3 D3 where r: "link_exit H b 1 tba2 t2 s2 = Some s3" "cache_inv E X q s3 A3 C3 D3 F"
    "in_work b s2 (resident A2) s3 (resident A3)" by blast
  have "link_exits H b pc ex s = Some s3" unfolding link_exits_def Branch using p(1) t(1) l(1) r(1) by simp
  then show ?thesis using r(2) in_work_trans [OF in_work_trans [OF p(3) l(3)] r(3)] by blast
qed

section \<open>The start of a compilation\<close>

lemma block_spans_nonempty: "block_spans E H pcs lo hi csi \<noteq> []"
  by (induction pcs arbitrary: lo hi csi) auto

lemma choose_optlevD:
  assumes "cache_inv E {} lim s A C D F" "b \<in> resident A" "choose_optlev E b b2 s = Some (o1, s1)"
  shows "\<And>i. (b, i) \<notin> linked D"
    "\<exists>c. s1 = upd_blk b (bi_count_update (\<lambda>_. c)) s \<and> (c = -2 \<or> o1 = 0 \<and> -1 \<le> c)"
proof -
  note I = cache_invD [OF assms(1)]
  let ?x = "bc_blk s b"
  have bo: "block_ok E ?x (b \<in> set (A Active))" using blocks_okD(1) [OF I(6) assms(2)] by simp
  have "bi_count ?x \<noteq> -2"
    using assms(3) bo block_ok_cases(4) [OF bo] block_ok_cases(1) [of ?x E]
    by (auto simp: choose_optlev_def Let_def split: if_splits)
  then have c: "bi_optlevel ?x = 0" "-1 \<le> bi_count ?x" "\<And>i. (b, i) \<notin> linked D" using I(5) assms(2) by (auto simp: counts_ok_def)
  show "(b, i) \<notin> linked D" for i by (rule c(3))
  have nl: "next_level (Suc 0) = Some 6" by (simp add: next_level_def optcount_def upt_rec)
  have same: "s = upd_blk b (bi_count_update (\<lambda>_. bi_count ?x)) s" by (simp add: upd_blk_def)
  show "\<exists>c. s1 = upd_blk b (bi_count_update (\<lambda>_. c)) s \<and> (c = -2 \<or> o1 = 0 \<and> -1 \<le> c)"
  proof (cases "bi_count ?x = -1 \<and> \<not> ce_cpu_compatible E")
    case True
    then have "s1 = upd_blk b (bi_count_update (\<lambda>_. -2)) s"
      using assms(3) c(1) nl by (auto simp: choose_optlev_def Let_def optcount_def split: if_splits)
    then show ?thesis by blast
  next
    case False
    then have "s1 = s" "o1 = 0" using assms(3) c(1) by (auto simp: choose_optlev_def Let_def split: if_splits)
    then show ?thesis using same c(2) by blast
  qed
qed

lemma successor_flags_all:
  assumes "deps_ok lim s V R D" "b \<in> V" "\<And>i. (b, i) \<notin> linked D"
  shows "successor_flags b s = FLAG_ALL8"
  using deps_okD(8) [OF assms(1,2), of 0] assms(3) by (simp add: successor_flags_def dep_of_def)

lemma remove_deps_loose:
  assumes "deps_ok lim s V R D" "b \<in> R" "\<And>i. (b, i) \<notin> linked D"
  shows "remove_deps b s = s"
proof -
  have "loose s (b, 0)" "loose s (b, 1)" using deps_okD(7) [OF assms(1,2)] assms(3) by simp_all
  then show ?thesis by (simp add: remove_deps_def remove_dep_loose)
qed

text \<open>The block in work: not yet settled, with its code at \<open>Code p\<close>.\<close>

definition work_ok :: "u64 \<Rightarrow> blockinfo \<Rightarrow> bool" where
  "work_ok pc x \<longleftrightarrow> bi_status x = BI_COMPILING \<and> bi_csi x \<noteq> [] \<and> bi_pc_p x = pc \<and>
     bi_direct_handler_to_use x = bi_direct_handler x"

lemma start_block_ok:
  assumes "cache_inv E {} lim s A C D F" "b \<in> resident A" "choose_optlev E b b2 s = Some (o1, s1)"
    and "pc_hist \<noteq> []" "bi_pc_p (bc_blk s b) = h_location (hd pc_hist)"
  shows "\<exists>o2 s2. start_block E H pc_hist b o1 s1 = Some (o2, s2) \<and> cache_inv E {b} lim s2 A C D F \<and>
    (o2 \<noteq> 0 \<longrightarrow> bi_count (bc_blk s2 b) = -2) \<and> work_ok (h_location (hd pc_hist)) (bc_blk s2 b) \<and>
    bc_hold s2 = bc_hold s \<and> bc_compile_p s2 = bc_compile_p s \<and> (\<forall>c. bi_pc_p (bc_blk s2 c) = bi_pc_p (bc_blk s c))"
proof -
  note I = cache_invD [OF assms(1)]
  note ub = choose_optlevD(1) [OF assms(1-3)]
  obtain n where n: "s1 = upd_blk b (bi_count_update (\<lambda>_. n)) s" "n = -2 \<or> o1 = 0 \<and> -1 \<le> n"
    using choose_optlevD(2) [OF assms(1-3)] by blast
  let ?R = "resident A \<union> held s" let ?locs = "map h_location pc_hist" let ?p = "bc_compile_p s"
  have d1: "deps_ok lim s1 (resident A) ?R D" by (rule deps_ok_cong [OF _ _ _ _ I(4)]) (simp_all add: n)
  have bR: "b \<in> ?R" using assms(2) by simp
  have rm: "remove_deps b s1 = s1" by (rule remove_deps_loose [OF d1 bR ub])
  define trap where "trap \<longleftrightarrow> (\<exists>pc \<in> set ?locs. ce_cflow E (DO_GET_OPCODE H pc) AND fl_trap \<noteq> 0 \<and> \<not> isinrom E pc)"
  define o2 where "o2 = (if trap then 0 else o1)"
  define fl where "fl = (ucast (hd (liveflags (ce_tables E) (ce_compnf E) (map (DO_GET_OPCODE H) ?locs) (ucast (successor_flags b s1)))) :: u8)"
  define csi where "csi = block_spans E H (rev ?locs) (last ?locs) (last ?locs) []"
  define y where "y = (bc_blk s b)\<lparr>bi_count := (if trap then -1 else n), bi_optlevel := o2, bi_pc_p := hd ?locs, bi_csi := csi,
     bi_needed_flags := fl, bi_direct_handler := Code ?p\<rparr>"
  define s2 where "s2 = s\<lparr>bc_blk := (bc_blk s)(b := y)\<rparr>"
  have hd: "hd ?locs = bi_pc_p (bc_blk s b)" using assms(4,5) by (simp add: hd_map)
  have "deps_ok lim s2 (resident A) ?R D" by (rule deps_ok_cong [OF _ _ _ _ I(4)]) (simp_all add: s2_def y_def)
  from set_dhtu_ok [OF this bR, of "Code ?p"]
  obtain J where J: "set_dhtu b (Code ?p) s2 = Some (upd_blk b (bi_direct_handler_to_use_update (\<lambda>_. Code ?p)) (s2\<lparr>bc_jumps := J\<rparr>))"
    "deps_ok lim (upd_blk b (bi_direct_handler_to_use_update (\<lambda>_. Code ?p)) (s2\<lparr>bc_jumps := J\<rparr>)) (resident A) ?R D" by blast
  define s3 where "s3 = upd_blk b (bi_status_update (\<lambda>_. BI_COMPILING)) (upd_blk b (bi_direct_handler_to_use_update (\<lambda>_. Code ?p)) (s2\<lparr>bc_jumps := J\<rparr>))"
  have eq2: "upd_blk b (bi_direct_handler_update (\<lambda>_. Code ?p))
      (if trap then upd_blk b (\<lambda>x. x\<lparr>bi_optlevel := 0, bi_count := -1\<rparr>) t else t) = s2"
    if t: "t = upd_blk b (\<lambda>x. x\<lparr>bi_optlevel := o1, bi_pc_p := hd ?locs, bi_csi := csi, bi_needed_flags := fl\<rparr>) s1" for t
    by (rule bcache.equality) (auto simp: t n s2_def y_def o2_def)
  have p2: "bc_compile_p s2 = ?p" by (simp add: s2_def)
  have "start_block E H pc_hist b o1 s1 = Some (o2, s3)"
    unfolding start_block_def Let_def rm fl_def [symmetric] csi_def [symmetric] trap_def [symmetric] o2_def [symmetric]
    using eq2 [OF refl] J(1) by (cases trap) (simp_all add: s3_def n(1) p2)
  moreover have "cache_inv E {b} lim s3 A C D F"
  proof (rule cache_invI)
    have h: "held s3 = held s" by (simp add: s3_def s2_def held_def)
    show "lists_ok s3 A F" using I(1) by (subst lists_ok_cong [where s = s]) (simp_all add: s3_def s2_def)
    show "cl_ok s3 (resident A) C" using I(2) by (subst cl_ok_cong [where s = s]) (auto simp: s3_def s2_def y_def hd)
    show "tags_ok {b} s3 C" by (rule tags_ok_cong [OF _ _ _ I(3)]) (auto simp: s3_def s2_def)
    show "deps_ok lim s3 (resident A) (resident A \<union> held s3) D"
      unfolding h by (rule deps_ok_cong [OF _ _ _ _ J(2)]) (simp_all add: s3_def)
    show "counts_ok s3 (resident A) (linked D)" using I(5) n(2) ub by (auto simp: counts_ok_def s3_def s2_def y_def o2_def)
    show "blocks_ok E {b} s3 A" using I(6) by (auto simp: blocks_ok_def s3_def s2_def)
  qed
  moreover have "work_ok (h_location (hd pc_hist)) (bc_blk s3 b)"
    using block_spans_nonempty hd assms(5) by (simp add: work_ok_def s3_def s2_def y_def csi_def)
  moreover have "o2 \<noteq> 0 \<longrightarrow> bi_count (bc_blk s3 b) = -2" using n(2) by (auto simp: s3_def s2_def y_def o2_def)
  ultimately show ?thesis
    by (intro exI [of _ o2] exI [of _ s3] conjI) (auto simp: s3_def s2_def y_def hd)
qed

section \<open>The end of a compilation\<close>

lemma empty_inv_upd:
  assumes "cache_inv E {} lim s (\<lambda>_. []) (\<lambda>_. []) (\<lambda>_. []) F"
  shows "cache_inv E {} lim (upd_blk b f s) (\<lambda>_. []) (\<lambda>_. []) (\<lambda>_. []) F"
proof -
  note I = cache_invD [OF assms]
  have "lists_ok (upd_blk b f s) (\<lambda>_. []) F" using I(1) by (subst lists_ok_cong [where s = s]) simp_all
  moreover have "resident (\<lambda>_. []) = {}" by (simp add: members_def)
  ultimately show ?thesis using I
    unfolding cache_inv_def cl_ok_def tags_ok_def deps_ok_def counts_ok_def blocks_ok_def by (simp add: loose_def linked_def)
qed

lemma finish_block_ok:
  assumes "cache_inv E {b} lim s A C D F" "b \<in> resident A" "work_ok (h_location (hd pc_hist)) (bc_blk s b)" "pc_hist \<noteq> []"
    and "lim \<le> bc_compile_p s + cg_len cg" "hold_filled (bc_hold s)"
  shows "\<exists>s'. finish_block E H pc_hist b cg s = Some s' \<and> cache_ok E s' \<and>
    (bc_compile_p s + cg_len cg + cg_tail cg < ce_max_compile E \<longrightarrow> bi_status (bc_blk s' b) = BI_ACTIVE \<and>
       bi_pc_p (bc_blk s' b) = h_location (hd pc_hist) \<and> get_blockinfo (cacheline (h_location (hd pc_hist))) s' = Some b) \<and>
    (ce_max_compile E \<le> bc_compile_p s + cg_len cg + cg_tail cg \<longrightarrow> bc_compile_p s' = 0)"
proof -
  note w = assms(3) [unfolded work_ok_def]
  define rom where "rom \<longleftrightarrow> (\<forall>h \<in> set pc_hist. isinrom E (h_location h))"
  define r where "r = (if rom then Dormant else Active)"
  let ?x = "bc_blk s b" let ?h = "Code (bc_compile_p s + cg_len cg)" let ?q = "bc_compile_p s + cg_len cg + cg_tail cg"
  obtain c1 c2 where cs: "calc_checksum H b s = Some (c1, c2)"
    using w by (cases "calc_checksum H b s") (auto simp: calc_checksum_def Let_def)
  then have cs': "calc_checksum H b (s\<lparr>bc_list := L\<rparr>) = Some (c1, c2)" for L by (simp add: calc_checksum_def)
  define y where "y = (if rom then ?x\<lparr>bi_csi := []\<rparr> else ?x\<lparr>bi_c1 := c1, bi_c2 := c2\<rparr>)"
  define z where "z = y\<lparr>bi_handler := ?h, bi_handler_to_use := ?h, bi_status := BI_FINALIZING\<rparr>"
  define t where "t = s\<lparr>bc_list := link_front r b (unlink b (bc_list s)), bc_blk := (bc_blk s)(b := z), bc_compile_p := ?q\<rparr>"
  define s1 where "s1 = upd_blk b (bi_nexthandler_update (\<lambda>_. ?q)) (raise_in_cl_list b t)"
  have run: "finish_block E H pc_hist b cg s = do {
      s \<leftarrow> (if ce_max_compile E \<le> ?q then flush_icache_hard s1 else Some s1);
      Some (upd_blk b (bi_status_update (\<lambda>_. BI_ACTIVE)) s) }"
    by (cases rom)
      (simp_all add: finish_block_def rom_def [symmetric] cs' remove_from_list_def add_to_dormant_def
        add_to_active_def match_states_def s1_def t_def z_def y_def r_def upd_blk_def Let_def)
  let ?f = "\<lambda>x. x\<lparr>bi_nexthandler := ?q, bi_status := BI_ACTIVE\<rparr>"
  have e: "upd_blk b (bi_status_update (\<lambda>_. BI_ACTIVE)) s1 = raise_in_cl_list b (upd_blk b ?f t)"
    unfolding s1_def upd_blk_upd_blk by (rule raise_upd) simp_all
  have "hd pc_hist \<in> set pc_hist" using assms(4) by simp
  then have "rom \<Longrightarrow> isinrom E (bi_pc_p ?x)" using w by (auto simp: rom_def)
  then have bo: "block_ok E (?f z) (Active = r)"
    using w by (cases rom) (simp_all add: block_ok_def z_def y_def r_def)
  have fl: "bi_pc_p (?f z) = bi_pc_p ?x" "bi_dep (?f z) = bi_dep ?x" "bi_count (?f z) = bi_count ?x"
    "bi_direct_handler_to_use (?f z) = bi_direct_handler_to_use ?x" "bi_optlevel (?f z) = bi_optlevel ?x"
    by (simp_all add: z_def y_def)
  have set: "\<exists>C'. cache_inv E ({b} - {b}) lim (raise_in_cl_list b (upd_blk b ?f t)) (moved r b A) C' D F \<and>
      resident (moved r b A) = resident A"
    by (rule settle_ok [OF assms(1,2), where y = "?f z"]) (use fl bo in \<open>simp_all add: t_def\<close>)
  then obtain C' where C': "cache_inv E {} lim (raise_in_cl_list b (upd_blk b ?f t)) (moved r b A) C' D F" by auto
  show ?thesis
  proof (cases "ce_max_compile E \<le> ?q")
    case False
    let ?s = "raise_in_cl_list b (upd_blk b ?f t)"
    have q: "bc_compile_p ?s = ?q" "bc_hold ?s = bc_hold s" by (simp_all add: t_def)
    have "deps_ok ?q ?s (resident (moved r b A)) (resident (moved r b A) \<union> held ?s) D"
      using deps_ok_mono [OF cache_invD(4) [OF C']] assms(5) by simp
    then have "cache_inv E {} (bc_compile_p ?s) ?s (moved r b A) C' D F" using C' unfolding q by (simp add: cache_inv_def)
    then have "cache_ok E ?s" using assms(6) q unfolding cache_ok_def by auto
    moreover have "bi_pc_p (bc_blk ?s b) = h_location (hd pc_hist)" using w by (simp add: t_def z_def y_def)
    moreover have "get_blockinfo (cacheline (bi_pc_p (bc_blk ?s b))) ?s = Some b"
      by (simp add: get_blockinfo_def raise_in_cl_list_def add_to_cl_list_def remove_from_cl_list_def Let_def)
    moreover have "bi_status (bc_blk ?s b) = BI_ACTIVE" by (simp add: t_def)
    ultimately show ?thesis using False run e by (intro exI [of _ ?s]) simp
  next
    case True
    have i1: "\<exists>X A C D. cache_inv E X lim s1 A C D F"
    proof -
      let ?g = "\<lambda>x. x\<lparr>bi_status := BI_FINALIZING\<rparr>"
      have "s1 = upd_blk b ?g (raise_in_cl_list b (upd_blk b ?f t))"
        unfolding e [symmetric] upd_blk_upd_blk
        by (rule bcache.equality) (auto simp: s1_def t_def z_def intro!: arg_cong2 [where f = "fun_upd (bc_blk s)"] blockinfo.equality)
      moreover note I = cache_invD [OF C']
      ultimately have "cache_inv E {b} lim s1 (moved r b A) C' D F"
      proof (intro cache_invI)
        assume s1: "s1 = upd_blk b ?g (raise_in_cl_list b (upd_blk b ?f t))"
        show "lists_ok s1 (moved r b A) F" using I(1) by (subst lists_ok_cong [where s = "raise_in_cl_list b (upd_blk b ?f t)"]) (simp_all add: s1)
        show "cl_ok s1 (resident (moved r b A)) C'" using I(2) by (subst cl_ok_cong [where s = "raise_in_cl_list b (upd_blk b ?f t)"]) (auto simp: s1)
        show "tags_ok {b} s1 C'" by (rule tags_ok_cong [OF _ _ _ I(3)]) (auto simp: s1)
        show "deps_ok lim s1 (resident (moved r b A)) (resident (moved r b A) \<union> held s1) D"
          using deps_ok_cong [OF _ _ _ _ I(4), of s1] by (simp add: s1)
        show "counts_ok s1 (resident (moved r b A)) (linked D)" using I(5) by (auto simp: counts_ok_def s1)
        show "blocks_ok E {b} s1 (moved r b A)" unfolding blocks_ok_def
        proof (intro conjI ballI)
          fix c assume "c \<in> resident (moved r b A) - {b}"
          then show "block_ok E (bc_blk s1 c) (c \<in> set (moved r b A Active))" using blocks_okD(1) [OF I(6), of c] by (simp add: s1)
        qed (simp add: s1)
      qed
      then show ?thesis by blast
    qed
    then obtain X A1 C1 D1 where "cache_inv E X lim s1 A1 C1 D1 F" by blast
    from flush_icache_hard_ok [OF this] obtain s2 F' where f: "flush_icache_hard s1 = Some s2"
      "cache_inv E {} 0 s2 (\<lambda>_. []) (\<lambda>_. []) (\<lambda>_. []) F'" "bc_compile_p s2 = 0" "bc_hold s2 = (\<lambda>_. None)" by blast
    let ?s = "upd_blk b (bi_status_update (\<lambda>_. BI_ACTIVE)) s2"
    have "cache_inv E {} (bc_compile_p ?s) ?s (\<lambda>_. []) (\<lambda>_. []) (\<lambda>_. []) F'" using empty_inv_upd [OF f(2)] f(3) by simp
    then have "cache_ok E ?s" unfolding cache_ok_def using f(4) by (auto simp only: hold_filled_def upd_blk_simps)
    then show ?thesis using True run f(1,3) by (intro exI [of _ ?s]) simp
  qed
qed

section \<open>The whole compilation\<close>

lemma cache_okE:
  assumes "cache_ok E s"
  obtains A C D F where "cache_inv E {} (bc_compile_p s) s A C D F" "hold_filled (bc_hold s)"
  using assms unfolding cache_ok_def by blast

lemma gen_okD: "gen_ok gen \<Longrightarrow> exits_ok (cg_exits (gen lev p)) p (p + cg_len (gen lev p))"
  unfolding gen_ok_def exits_ok_def by blast

lemma cache_inv_mono: "cache_inv E X lim s A C D F \<Longrightarrow> lim \<le> lim' \<Longrightarrow> cache_inv E X lim' s A C D F"
  using deps_ok_mono unfolding cache_inv_def by blast

lemma alloc_blockinfos_ok:
  assumes "cache_ok E s" "alloc_blockinfos E s = Some s'"
  obtains A C D F where "cache_inv E {} (bc_compile_p s') s' A C D F" "hold_filled (bc_hold s')" "card (held s') = MAX_HOLD_BI"
    "\<exists>C D F. cache_inv E {} (bc_compile_p s) s A C D F" "\<forall>c \<in> resident A. bc_blk s' c = bc_blk s c"
proof -
  obtain A C D F where i: "cache_inv E {} (bc_compile_p s) s A C D F" "hold_filled (bc_hold s)" by (rule cache_okE [OF assms(1)])
  from alloc_held_ok [OF assms(2) [unfolded alloc_blockinfos_def] i(1)] i(2)
  obtain F' where f: "cache_inv E {} (bc_compile_p s) s' A C D F'" "\<forall>j < MAX_HOLD_BI. bc_hold s' j \<noteq> None"
    "\<forall>c \<in> resident A. bc_blk s' c = bc_blk s c" "bc_compile_p s \<le> bc_compile_p s'" by (auto simp: hold_filled_def)
  show thesis
  proof (rule that)
    show "cache_inv E {} (bc_compile_p s') s' A C D F'" by (rule cache_inv_mono [OF f(1,4)])
    show "hold_filled (bc_hold s')" using f(2) by (simp add: hold_filled_def)
    show "card (held s') = MAX_HOLD_BI" by (rule card_held [OF lists_okD(8) [OF cache_invD(1) [OF f(1)]] f(2)])
    show "\<exists>C D F. cache_inv E {} (bc_compile_p s) s A C D F" using i(1) by blast
  qed (rule f(3))
qed

lemma card_exit_pcs: "card (insert pc (exit_pcs ex)) \<le> MAX_HOLD_BI" "finite (exit_pcs ex)"
proof -
  have "card {n, t} \<le> 2" for n t :: u64 using card_insert_le_m1 [of 2 "{t}" n] by simp
  then have "card (exit_pcs ex) \<le> 2" by (auto simp: exit_pcs_def split: exits.splits)
  moreover show "finite (exit_pcs ex)" by (auto simp: exit_pcs_def split: exits.splits)
  ultimately show "card (insert pc (exit_pcs ex)) \<le> MAX_HOLD_BI"
    using card_insert_le_m1 [of 3 "exit_pcs ex" pc] by (simp add: MAX_HOLD_BI_def)
qed

text \<open>
  With the records in hand the compilation goes through: it aborts only where the host has no memory
  for another pool, or where the block is in use already.
\<close>

definition full_flush :: "cenv \<Rightarrow> bcache \<Rightarrow> bcache option" where
  "full_flush E s = (if ce_max_compile E \<le> bc_compile_p s then flush_icache_hard s else Some s)"

lemma full_flush_ok:
  assumes "cache_ok E s"
  shows "\<exists>s'. full_flush E s = Some s' \<and> cache_ok E s' \<and> bc_room s' = bc_room s \<and>
    (s' = s \<or> (\<exists>F. cache_inv E {} 0 s' (\<lambda>_. []) (\<lambda>_. []) (\<lambda>_. []) F))"
proof -
  obtain A C D F where i: "cache_inv E {} (bc_compile_p s) s A C D F" by (rule cache_okE [OF assms])
  from flush_icache_hard_ok [OF i] obtain s' F' where f: "flush_icache_hard s = Some s'"
    "cache_inv E {} 0 s' (\<lambda>_. []) (\<lambda>_. []) (\<lambda>_. []) F'" "bc_compile_p s' = 0" "bc_hold s' = (\<lambda>_. None)" "bc_room s' = bc_room s" by blast
  have "cache_ok E s'" using f(2-4) unfolding cache_ok_def hold_filled_def by auto
  then show ?thesis using f(1,2,5) assms by (cases "ce_max_compile E \<le> bc_compile_p s") (auto simp: full_flush_def)
qed

lemma compile_block_run:
  assumes "cache_ok E s" "pc_hist \<noteq> []" "gen_ok gen" "full_flush E s = Some s0" "alloc_blockinfos E s0 = Some sa"
    and pc: "pc = h_location (hd pc_hist)"
  obtains b s1 A C D F where "get_blockinfo_addr_new pc sa = Some (b, s1)" "cache_inv E {} (bc_compile_p s1) s1 A C D F" "b \<in> resident A"
    "\<exists>A' C' D' F'. cache_inv E {} (bc_compile_p s0) s0 A' C' D' F' \<and>
       (b \<in> resident A' \<and> bi_pc_p (bc_blk s0 b) = pc \<and> bc_blk s1 b = bc_blk s0 b \<or> bi_status (bc_blk s1 b) = BI_INVALID)"
    "\<And>o1 s2. choose_optlev E b (get_blockinfo (cacheline pc) s1) s1 = Some (o1, s2) \<Longrightarrow>
       \<exists>s'. compile_block E ind uns H gen pc_hist s = Some s' \<and> cache_ok E s' \<and>
         (bc_compile_p s' \<noteq> 0 \<longrightarrow> bi_status (bc_blk s' b) = BI_ACTIVE \<and> bi_pc_p (bc_blk s' b) = pc \<and>
            get_blockinfo (cacheline pc) s' = Some b)"
proof -
  obtain s0' where "full_flush E s = Some s0'" "cache_ok E s0'" using full_flush_ok [OF assms(1)] by blast
  then have k0: "cache_ok E s0" using assms(4) by simp
  obtain A C D F where a: "cache_inv E {} (bc_compile_p sa) sa A C D F" "hold_filled (bc_hold sa)" "card (held sa) = MAX_HOLD_BI"
    "\<exists>C D F. cache_inv E {} (bc_compile_p s0) s0 A C D F" "\<forall>c \<in> resident A. bc_blk sa c = bc_blk s0 c"
    by (rule alloc_blockinfos_ok [OF k0 assms(5)])
  have room: "room_for sa (resident A) S" if "finite S" "card S \<le> MAX_HOLD_BI" for S
  proof -
    have "card (S - (\<lambda>b. bi_pc_p (bc_blk sa b)) ` resident A) \<le> card S" by (rule card_mono [OF that(1)]) auto
    then show ?thesis using that a(3) by (simp add: room_for_def)
  qed
  have "room_for sa (resident A) {pc}" by (rule room) (simp_all add: MAX_HOLD_BI_def)
  from get_new_ok [OF a(1) this] obtain b s1 A1 C1 D1 where g: "get_blockinfo_addr_new pc sa = Some (b, s1)"
    "cache_inv E {} (bc_compile_p sa) s1 A1 C1 D1 F" "b \<in> resident A1" "bi_pc_p (bc_blk s1 b) = pc"
    "extended sa (resident A) s1 (resident A1)" "\<forall>S. room_for sa (resident A) S \<longrightarrow> pc \<in> S \<longrightarrow> room_for s1 (resident A1) S"
    "b \<in> resident A \<or> bi_status (bc_blk s1 b) = BI_INVALID" by blast
  have p1: "bc_compile_p s1 = bc_compile_p sa" "hold_filled (bc_hold s1)" using g(5) a(2) by (auto simp: extended_def)
  show thesis
  proof (rule that [of b s1 A1 C1 D1 F])
    show "get_blockinfo_addr_new pc sa = Some (b, s1)" by (rule g(1))
    show "cache_inv E {} (bc_compile_p s1) s1 A1 C1 D1 F" "b \<in> resident A1" using g(2,3) p1 by simp_all
    obtain C' D' F' where i0: "cache_inv E {} (bc_compile_p s0) s0 A C' D' F'" using a(4) by blast
    moreover have "bc_blk s1 b = bc_blk s0 b" if "b \<in> resident A" using that g(5) a(5) by (simp add: extended_def)
    ultimately show "\<exists>A' C' D' F'. cache_inv E {} (bc_compile_p s0) s0 A' C' D' F' \<and>
       (b \<in> resident A' \<and> bi_pc_p (bc_blk s0 b) = pc \<and> bc_blk s1 b = bc_blk s0 b \<or> bi_status (bc_blk s1 b) = BI_INVALID)"
      using g(4,7) by (metis (no_types))
    fix o1 s2 assume ch: "choose_optlev E b (get_blockinfo (cacheline pc) s1) s1 = Some (o1, s2)"
    have "bi_pc_p (bc_blk s1 b) = h_location (hd pc_hist)" using g(4) pc by simp
    from start_block_ok [OF g(2,3) ch assms(2) this, of H] obtain o2 s3 where
      st: "start_block E H pc_hist b o1 s2 = Some (o2, s3)" "cache_inv E {b} (bc_compile_p sa) s3 A1 C1 D1 F"
      "o2 \<noteq> 0 \<longrightarrow> bi_count (bc_blk s3 b) = -2" "work_ok pc (bc_blk s3 b)" "bc_hold s3 = bc_hold s1"
      "bc_compile_p s3 = bc_compile_p s1" "\<forall>c. bi_pc_p (bc_blk s3 c) = bi_pc_p (bc_blk s1 c)" unfolding pc by blast
    let ?cg = "gen o2 (bc_compile_p s3)" let ?q = "bc_compile_p sa + cg_len ?cg"
    let ?S = "insert pc (exit_pcs (cg_exits ?cg))"
    have r1: "room_for s1 (resident A1) ?S" using g(6) room [of ?S] card_exit_pcs by simp
    have r3: "room_for s3 (resident A1) ?S"
      using r1 st(5,7) by (simp add: room_for_def held_def)
    note ub = choose_optlevD(1) [OF g(2,3) ch]
    have ex: "exits_ok (cg_exits ?cg) (bc_compile_p sa) ?q" using gen_okD [OF assms(3), of o2 "bc_compile_p s3"] st(6) p1 by simp
    let ?link = "if o2 = 0 \<or> unsafe_block E ind uns pc_hist then Some s3 else link_exits H b pc (cg_exits ?cg) s3"
    have "\<exists>s4 A4 C4 D4. ?link = Some s4 \<and> cache_inv E {b} ?q s4 A4 C4 D4 F \<and> in_work b s3 (resident A1) s4 (resident A4)"
    proof (cases "o2 = 0 \<or> unsafe_block E ind uns pc_hist")
      case True
      then show ?thesis using cache_inv_mono [OF st(2), of ?q]
        by (intro exI [of _ s3] exI [of _ A1] exI [of _ C1] exI [of _ D1]) auto
    next
      case False
      then have "bi_count (bc_blk s3 b) = -2" using st(3) by simp
      from link_exits_ok [OF st(2) g(3) _ ub this ex r3, of H pc] False show ?thesis by auto
    qed
    then obtain s4 A4 C4 D4 where l: "?link = Some s4" "cache_inv E {b} ?q s4 A4 C4 D4 F" "in_work b s3 (resident A1) s4 (resident A4)" by blast
    have w4: "b \<in> resident A4" "work_ok (h_location (hd pc_hist)) (bc_blk s4 b)" "bc_compile_p s4 = bc_compile_p sa" "hold_filled (bc_hold s4)"
      using l(3) g(3) st(4-6) p1 by (auto simp: in_work_def work_ok_def pc)
    have "?q \<le> bc_compile_p s4 + cg_len ?cg" using w4(3) by simp
    from finish_block_ok [OF l(2) w4(1,2) assms(2) this w4(4), of H] obtain s5 where
      f: "finish_block E H pc_hist b ?cg s4 = Some s5" "cache_ok E s5"
        "bc_compile_p s4 + cg_len ?cg + cg_tail ?cg < ce_max_compile E \<longrightarrow> bi_status (bc_blk s5 b) = BI_ACTIVE \<and>
          bi_pc_p (bc_blk s5 b) = h_location (hd pc_hist) \<and> get_blockinfo (cacheline (h_location (hd pc_hist))) s5 = Some b"
        "ce_max_compile E \<le> bc_compile_p s4 + cg_len ?cg + cg_tail ?cg \<longrightarrow> bc_compile_p s5 = 0" by blast
    have "compile_block E ind uns H gen pc_hist s = Some s5"
      unfolding compile_block_def Let_def full_flush_def [symmetric] assms(4)
      unfolding pc [symmetric] using assms(5) g(1) ch st(1) l(1) f(1) by simp
    then show "\<exists>s'. compile_block E ind uns H gen pc_hist s = Some s' \<and> cache_ok E s' \<and>
         (bc_compile_p s' \<noteq> 0 \<longrightarrow> bi_status (bc_blk s' b) = BI_ACTIVE \<and> bi_pc_p (bc_blk s' b) = pc \<and>
            get_blockinfo (cacheline pc) s' = Some b)"
      using f(2-4) pc by (intro exI [of _ s5]) (auto simp: not_less)
  qed
qed

end
