(* ===== verification/Block_Sample.thy ===== *)
theory Block_Sample
  imports Block_Flow
begin

unbundle bit_operations_syntax

text \<open>
  A short run of the cache, worked out state by state: the block at 0x1000 is compiled, counted down,
  and compiled again at a higher level with a jump to the block at 0x2000; then the cache is flushed
  softly. The host memory holds the byte 1 everywhere.
\<close>

section \<open>The first compilation\<close>

definition block_env :: cenv where
  "block_env = \<lparr>ce_kickmem = 0x10000000, ce_rtarea = 0, ce_cflow = (\<lambda>_. 0), ce_tables = build_comp (\<lambda>_. False) [],
     ce_compnf = False, ce_cpu_compatible = False, ce_constjump = False, ce_max_compile = 4096,
     ce_pen_len = (\<lambda>_. 16), ce_pcc_len = (\<lambda>_. 16)\<rparr>"
definition sample_gen :: "nat \<Rightarrow> nat \<Rightarrow> codegen" where
  "sample_gen lev p = \<lparr>cg_len = 64, cg_tail = 16, cg_exits = (if lev = 0 then Dynamic_end else Const_end 0x2000 (p + 32))\<rparr>"
definition sample_hist :: "cpu_history list" where "sample_hist = [\<lparr>h_location = 0x1000, h_specmem = False\<rparr>]"

definition pool_next :: "nat \<Rightarrow> nat \<Rightarrow> nat option" where
  "pool_next k n = (if n = 0 \<or> k < n then None else Some (n - 1))"

lemma fold_release_start: "fold release [0..<Suc k] (start_cache r) =
   (start_cache r)\<lparr>bc_list := (bc_list (start_cache r))\<lparr>lk_next := pool_next k\<rparr>, bc_chunks := Some k\<rparr>"
proof (induction k)
  case 0
  then show ?case by (auto simp: release_def start_cache_def pool_next_def fun_eq_iff)
next
  case (Suc k)
  then show ?case by (simp add: release_def start_cache_def pool_next_def fun_eq_iff)
qed

lemma kPoolSize_val: "kPoolSize sizeof_blockinfo = 75" by (simp add: kPoolSize_def sizeof_blockinfo_def)

lemma grow_start: "grow (start_cache (Suc n)) = Some ((start_cache (Suc n))\<lparr>bc_list := (bc_list (start_cache (Suc n)))\<lparr>lk_next := pool_next 74\<rparr>,
   bc_chunks := Some 74, bc_pools := 1, bc_room := n\<rparr>)"
  using fold_release_start [of 74 "Suc n"] by (simp add: grow_def kPoolSize_val start_cache_def)

lemma pool_vals: "pool_next 74 74 = Some 73" "pool_next 74 73 = Some 72" "pool_next 74 72 = Some 71" "pool_next 74 71 = Some 70"
  by (simp_all add: pool_next_def)

lemmas alloc_eval = alloc_blockinfos_def MAX_HOLD_BI_def upt_rec alloc_blockinfo_def acquire_def grow_start pool_vals prepare_block_def Let_def upd_blk_def

definition held_block :: "nat \<Rightarrow> blockinfo" where
  "held_block p = blank_block\<lparr>bi_direct_pen := Code p, bi_direct_pcc := Code (p + 16), bi_needed_flags := FLAG_ALL8\<rparr>"

definition sample_mem :: "u64 \<Rightarrow> u8" where "sample_mem = (\<lambda>_. 1)"

definition sample0 :: bcache where
  "sample0 = (start_cache 2)\<lparr>bc_list := (bc_list (start_cache 2))\<lparr>lk_next := pool_next 74\<rparr>,
     bc_blk := (\<lambda>_. blank_block)(74 := held_block 0, 73 := held_block 32, 72 := held_block 64),
     bc_hold := [0 \<mapsto> 74, 1 \<mapsto> 73, 2 \<mapsto> 72], bc_chunks := Some 71, bc_pools := 1, bc_room := 1, bc_compile_p := 96\<rparr>"

definition sample_info :: blockinfo where
  "sample_info = (held_block 0)\<lparr>bi_count := 3, bi_direct_handler_to_use := Code 96, bi_handler_to_use := Code 160,
     bi_handler := Code 160, bi_direct_handler := Code 96, bi_nexthandler := 176, bi_pc_p := 0x1000,
     bi_c1 := 0x4040404, bi_c2 := 0, bi_csi := [\<lparr>ci_start_p = 0x1000, ci_length = 16\<rparr>], bi_status := BI_ACTIVE\<rparr>"

definition sample1 :: bcache where
  "sample1 = sample0\<lparr>bc_handler := (\<lambda>_. Popall_execute_normal)(0x1000 := Code 160),
     bc_cl := \<lparr>lk_root = [0x1001 \<mapsto> 74], lk_next = (\<lambda>_. None), lk_prev = [74 \<mapsto> Root 0x1001]\<rparr>,
     bc_list := \<lparr>lk_root = [Active \<mapsto> 74], lk_next = (pool_next 74)(74 := None), lk_prev = [74 \<mapsto> Root Active]\<rparr>,
     bc_blk := (bc_blk sample0)(74 := sample_info),
     bc_hold := [1 \<mapsto> 73, 2 \<mapsto> 72], bc_compile_p := 176\<rparr>"

lemma alloc0: "alloc_blockinfos block_env (start_cache 2) = Some sample0"
  by (simp add: alloc_eval numeral_2_eq_2) (simp add: start_cache_def block_env_def sample0_def held_block_def blank_block_def numeral_2_eq_2)

lemma lines: "cacheline 0x1000 = 0x1000" "cacheline 0x2000 = 0x2000"
  by (simp_all add: cacheline_def TAGMASK_def)

lemma find0: "get_blockinfo_addr 0x1000 sample0 = Some None"
  by (simp add: get_blockinfo_addr_def get_blockinfo_def sample0_def start_cache_def find_pc.simps)

definition sample_new :: bcache where
  "sample_new = sample1\<lparr>bc_handler := (\<lambda>_. Popall_execute_normal), bc_compile_p := 96,
     bc_blk := (bc_blk sample0)(74 := (held_block 0)\<lparr>bi_count := 3, bi_direct_handler_to_use := Code 0,
       bi_handler_to_use := Popall_execute_normal, bi_pc_p := 0x1000, bi_needed_flags := 0xff\<rparr>)\<rparr>"

lemma take0: "take_held 0x1000 [0..<MAX_HOLD_BI] sample0 = Some (74, sample_new)"
  apply (simp add: alloc_eval invalidate_block_def set_dhtu_def adjust_all.simps sample0_def start_cache_def held_block_def blank_block_def optcount_def clear_dep_def)
  apply (simp add: unlink_def link_front_def remove_deps_def remove_dep_def  add_to_active_def add_to_cl_list_def Let_def lines sample_new_def sample1_def
    sample0_def start_cache_def held_block_def blank_block_def fun_upd_def fun_eq_iff)
  done

lemma new0: "get_blockinfo_addr_new 0x1000 sample0 = Some (74, sample_new)"
  by (simp add: get_blockinfo_addr_new_def find0 take0)

lemmas state_defs = sample1_def sample0_def start_cache_def held_block_def blank_block_def sample_info_def

lemma choose0: "choose_optlev block_env 74 b sample_new = Some (0, sample_new)"
  by (simp add: choose_optlev_def Let_def sample_new_def state_defs block_env_def)

lemma sample_sum: "sum_info sample_mem \<lparr>ci_start_p = 0x1000, ci_length = 16\<rparr> (0, 0) = (0x4040404, 0)"
  by code_simp

definition sample_work :: bcache where
  "sample_work = upd_blk 74 (\<lambda>x. x\<lparr>bi_csi := [\<lparr>ci_start_p = 0x1000, ci_length = 16\<rparr>], bi_needed_flags := FLAG_ALL8,
     bi_direct_handler := Code 96, bi_direct_handler_to_use := Code 96, bi_status := BI_COMPILING\<rparr>) sample_new"

lemma start0: "start_block block_env sample_mem sample_hist 74 0 sample_new = Some (0, sample_work)"
  apply (simp add: start_block_def Let_def sample_new_def state_defs block_env_def sample_hist_def  remove_deps_def remove_dep_def unlink_def set_dhtu_def
    adjust_all.simps span_info_def live_before_def LONGEST_68K_INST_def FLAG_ALL8_def sample_work_def upd_blk_def)
  done

lemma finish0: "finish_block block_env sample_mem sample_hist 74 (sample_gen 0 96) sample_work = Some sample1"
  apply (simp add: finish_block_def Let_def sample_new_def state_defs block_env_def sample_hist_def sample_gen_def sample_work_def upd_blk_def
    isinrom_def calc_checksum_def sample_sum remove_from_list_def unlink_def link_front_def add_to_active_def match_states_def
    raise_in_cl_list_def remove_from_cl_list_def add_to_cl_list_def lines)
  done

section \<open>The second compilation\<close>

definition sample2 :: bcache where
  "sample2 = upd_blk 74 (bi_count_update (\<lambda>_. -1)) sample1"

lemma counted: "count_down 74 (count_down 74 (count_down 74 (count_down 74 sample1))) = sample2"
  by (simp add: count_down_def sample2_def upd_blk_def state_defs)

definition sample_loop :: bcache where
  "sample_loop = sample2\<lparr>bc_list := \<lparr>lk_root = [Active \<mapsto> 74], lk_next = (pool_next 74)(74 := None), lk_prev = [74 \<mapsto> Root Active]\<rparr>,
     bc_blk := (bc_blk sample2)(71 := held_block 176),
     bc_hold := [0 \<mapsto> 71, 1 \<mapsto> 73, 2 \<mapsto> 72], bc_chunks := Some 70, bc_compile_p := 208\<rparr>"

lemma alloc2: "alloc_blockinfos block_env sample2 = Some sample_loop"
  apply (simp add: alloc_eval sample2_def sample_loop_def state_defs block_env_def)
  by (simp add: fun_upd_def fun_eq_iff)

lemma new2: "get_blockinfo_addr_new 0x1000 sample_loop = Some (74, sample_loop)"
  by (simp add: get_blockinfo_addr_new_def get_blockinfo_addr_def get_blockinfo_def find_pc.simps lines sample_loop_def sample2_def state_defs upd_blk_def)

lemma choose2: "choose_optlev block_env 74 (get_blockinfo 0x1000 sample_loop) sample_loop = Some (6, upd_blk 74 (bi_count_update (\<lambda>_. -2)) sample_loop)"
  by (simp add: choose_optlev_def Let_def sample_loop_def sample2_def state_defs block_env_def get_blockinfo_def upd_blk_def next_level_def optcount_def upt_rec)

definition sample_work2 :: bcache where
  "sample_work2 = upd_blk 74 (\<lambda>x. x\<lparr>bi_count := -2, bi_optlevel := 6,
     bi_direct_handler := Code 208, bi_direct_handler_to_use := Code 208, bi_status := BI_COMPILING\<rparr>) sample_loop"

lemma start2: "start_block block_env sample_mem sample_hist 74 6 (upd_blk 74 (bi_count_update (\<lambda>_. -2)) sample_loop) = Some (6, sample_work2)"
  by (simp add: start_block_def Let_def sample_loop_def sample2_def state_defs block_env_def sample_hist_def remove_deps_def remove_dep_def unlink_def set_dhtu_def
    adjust_all.simps span_info_def live_before_def LONGEST_68K_INST_def FLAG_ALL8_def sample_work2_def upd_blk_def fun_upd_def fun_eq_iff)

definition sample_dep :: dependency where
  "sample_dep = \<lparr>dp_jmp_off = Some 240, dp_target = Some 71, dp_source = Some 74\<rparr>"

definition sample_chained :: bcache where
  "sample_chained = sample_work2\<lparr>bc_cl := \<lparr>lk_root = [0x1001 \<mapsto> 74, 0x2001 \<mapsto> 71], lk_next = (\<lambda>_. None), lk_prev = [74 \<mapsto> Root 0x1001, 71 \<mapsto> Root 0x2001]\<rparr>,
     bc_list := \<lparr>lk_root = [Active \<mapsto> 71], lk_next = (pool_next 74)(74 := None, 71 := Some 74), lk_prev = [74 \<mapsto> Next 71, 71 \<mapsto> Root Active]\<rparr>,
     bc_deps := \<lparr>lk_root = [71 \<mapsto> (74, 0)], lk_next = (\<lambda>_. None), lk_prev = [(74, 0) \<mapsto> Root 71]\<rparr>,
     bc_blk := (bc_blk sample_work2)(71 := (held_block 176)\<lparr>bi_count := 3, bi_direct_handler_to_use := Code 176,
       bi_handler_to_use := Popall_execute_normal, bi_pc_p := 0x2000, bi_needed_flags := 0xff\<rparr>,
       74 := (bc_blk sample_work2 74)\<lparr>bi_dep := (bi_dep blank_block)(0 := sample_dep)\<rparr>),
     bc_hold := [1 \<mapsto> 73, 2 \<mapsto> 72], bc_jumps := (\<lambda>_. HNull)(240 := Code 176)\<rparr>"

definition sample_new2 :: bcache where
  "sample_new2 = sample_chained\<lparr>bc_deps := bc_deps sample0, bc_blk := (bc_blk sample_chained)(74 := bc_blk sample_work2 74), bc_jumps := (\<lambda>_. HNull)\<rparr>"

lemmas state2_defs = sample_new2_def sample_chained_def sample_dep_def sample_work2_def sample_loop_def sample2_def upd_blk_def state_defs

lemma find2: "get_blockinfo_addr 0x2000 sample_work2 = Some None"
  by (simp add: get_blockinfo_addr_def get_blockinfo_def find_pc.simps lines state2_defs)

lemma take2: "take_held 0x2000 [0..<MAX_HOLD_BI] sample_work2 = Some (71, sample_new2)"
  apply (simp add: alloc_eval invalidate_block_def set_dhtu_def adjust_all.simps state2_defs optcount_def clear_dep_def)
  apply (simp add: unlink_def link_front_def remove_deps_def remove_dep_def  add_to_active_def add_to_cl_list_def Let_def lines state2_defs)
  by (simp add: fun_upd_def fun_eq_iff)

lemma refind2: "get_blockinfo_addr 0x2000 sample_new2 = Some (Some 71)"
  by (simp add: get_blockinfo_addr_def get_blockinfo_def find_pc.simps lines state2_defs)

lemma match2: "match_states sample_mem 71 sample_new2 = Some sample_new2"
  by (simp add: match_states_def state2_defs)

lemma refind2': "get_blockinfo_addr 0x2000 (write_jmp_target a h sample_new2) = Some (Some 71)"
  by (simp add: write_jmp_target_def get_blockinfo_addr_def get_blockinfo_def find_pc.simps lines state2_defs)

lemma dep2: "create_jmpdep 74 0 240 0x2000 (write_jmp_target 240 (bi_direct_handler_to_use (bc_blk sample_new2 71)) sample_new2) = Some sample_chained"
  by (simp add: create_jmpdep_def refind2' Let_def) (simp add: write_jmp_target_def link_front_def Let_def state2_defs)

lemma exits2: "link_exits sample_mem 74 0x1000 (cg_exits (sample_gen 6 208)) sample_work2 = Some sample_chained"
  using dep2 by (simp add: link_exits_def sample_gen_def link_exit_def get_blockinfo_addr_new_def find2 take2 match2 refind2)

definition sample3 :: bcache where
  "sample3 = sample_chained\<lparr>bc_handler := (\<lambda>_. Popall_execute_normal)(0x1000 := Code 272),
     bc_list := \<lparr>lk_root = [Active \<mapsto> 74], lk_next = (pool_next 74)(74 := Some 71, 71 := None), lk_prev = [71 \<mapsto> Next 74, 74 \<mapsto> Root Active]\<rparr>,
     bc_blk := (bc_blk sample_chained)(74 := (bc_blk sample_chained 74)\<lparr>bi_handler := Code 272, bi_handler_to_use := Code 272,
       bi_nexthandler := 288, bi_status := BI_ACTIVE\<rparr>), bc_compile_p := 288\<rparr>"

lemma finish2: "finish_block block_env sample_mem sample_hist 74 (sample_gen 6 208) sample_chained = Some sample3"
  apply (simp add: finish_block_def Let_def sample3_def state2_defs block_env_def sample_hist_def sample_gen_def upd_blk_def
    isinrom_def calc_checksum_def sample_sum remove_from_list_def unlink_def link_front_def add_to_active_def match_states_def
    raise_in_cl_list_def remove_from_cl_list_def add_to_cl_list_def lines)
  apply (simp add: fun_upd_def fun_eq_iff)
  done

section \<open>The flush, and the states the run reaches\<close>

definition sample4 :: bcache where
  "sample4 = sample3\<lparr>bc_handler := (bc_handler sample3)(0x1000 := Popall_check_checksum),
     bc_list := (bc_list sample3)\<lparr>lk_root := [Dormant \<mapsto> 74], lk_prev := [71 \<mapsto> Next 74, 74 \<mapsto> Root Dormant]\<rparr>,
     bc_blk := (bc_blk sample3)(74 := (bc_blk sample3 74)\<lparr>bi_handler_to_use := Popall_check_checksum,
       bi_direct_handler_to_use := Code 16, bi_status := BI_NEED_CHECK\<rparr>)\<rparr>"

lemma lazy3: "flush_icache_lazy sample3 = Some sample4"
  apply (simp add: flush_icache_lazy_def flush_lazy_list.simps flush_lazy_block_def set_dhtu_def adjust_all.simps Let_def append_dormant_def lines
    get_blockinfo_def sample4_def sample3_def state2_defs)
  apply (simp add: fun_upd_def fun_eq_iff)
  done
lemma sample_gen_ok: "gen_ok sample_gen"
  by (simp add: gen_ok_def sample_gen_def)

lemma compile0: "compile_block block_env False False sample_mem sample_gen sample_hist (start_cache 2) = Some sample1"
proof -
  have "bc_compile_p (start_cache 2) = 0" "ce_max_compile block_env = 4096" "bc_compile_p sample_work = 96" "h_location (hd sample_hist) = 0x1000"
    by (simp_all add: start_cache_def block_env_def sample_work_def sample_new_def upd_blk_def sample_hist_def)
  then show ?thesis by (simp add: compile_block_def Let_def alloc0 new0 choose0 start0 finish0)
qed

lemma compile2: "compile_block block_env False False sample_mem sample_gen sample_hist sample2 = Some sample3"
proof -
  have "bc_compile_p sample2 = 176" "ce_max_compile block_env = 4096" "bc_compile_p sample_work2 = 208" "h_location (hd sample_hist) = 0x1000"
    "\<not> unsafe_block block_env False False sample_hist"
    by (simp_all add: state2_defs block_env_def sample_hist_def unsafe_block_def)
  then show ?thesis by (simp add: compile_block_def Let_def alloc2 new2 choose2 lines start2 exits2 finish2)
qed

lemma sample_hist_ne: "sample_hist \<noteq> []"
  by (simp add: sample_hist_def)

lemma count_reach:
  assumes "cache_reachable E s" "bi_status (bc_blk s b) = BI_ACTIVE" "0 \<le> bi_count (bc_blk s b)"
  shows "cache_reachable E (count_down b s)"
  using cache_reachable.step [OF assms(1) cache_step.count [OF assms(2,3)]] .

lemma reach1: "cache_reachable block_env sample1"
  by (rule cache_reachable.step [OF cache_reachable.start cache_step.compile [OF sample_hist_ne sample_gen_ok compile0]])

lemma reach2: "cache_reachable block_env sample2"
  unfolding counted [symmetric]
  by (intro count_reach reach1) (simp_all add: count_down_def state2_defs)

lemma reach3: "cache_reachable block_env sample3"
  by (rule cache_reachable.step [OF reach2 cache_step.compile [OF sample_hist_ne sample_gen_ok compile2]])

lemma reach4: "cache_reachable block_env sample4"
  by (rule cache_reachable.step [OF reach3 cache_step.lazy [OF lazy3]])

lemmas sample_defs = sample4_def sample3_def state2_defs

end
