(* ===== verification/Block_Program.thy ===== *)
theory Block_Program
  imports Block_Compile Block_Sample
begin

text \<open>
  The properties of the block cache over all states the emulator reaches: every sequence of
  compilations, misses, checks, flushes and countdowns from the empty cache keeps the invariant.
\<close>

section \<open>Reachable states\<close>

lemma start_cache_ok: "cache_ok E (start_cache room)"
proof -
  have "cache_inv E {} (bc_compile_p (start_cache room)) (start_cache room) (\<lambda>_. []) (\<lambda>_. []) (\<lambda>_. []) []"
    by (rule empty_inv) (simp_all add: start_cache_def)
  then show ?thesis unfolding cache_ok_def by (auto simp: hold_filled_def start_cache_def)
qed

lemma count_down_ok:
  assumes "cache_ok E s" "bi_status (bc_blk s b) = BI_ACTIVE" "0 \<le> bi_count (bc_blk s b)"
  shows "cache_ok E (count_down b s)"
proof -
  obtain A C D F where i: "cache_inv E {} (bc_compile_p s) s A C D F" "hold_filled (bc_hold s)" by (rule cache_okE [OF assms(1)])
  note I = cache_invD [OF i(1)]
  let ?s = "count_down b s"
  have "cache_inv E {} (bc_compile_p s) ?s A C D F"
  proof (rule cache_invI)
    show "lists_ok ?s A F" using I(1) by (subst lists_ok_cong [where s = s]) (simp_all add: count_down_def)
    show "cl_ok ?s (resident A) C" using I(2) by (subst cl_ok_cong [where s = s]) (simp_all add: count_down_def)
    show "tags_ok {} ?s C" by (rule tags_ok_cong [OF _ _ _ I(3)]) (simp_all add: count_down_def)
    show "deps_ok (bc_compile_p s) ?s (resident A) (resident A \<union> held ?s) D"
      using deps_ok_cong [OF _ _ _ _ I(4), of ?s] by (simp add: count_down_def)
    show "counts_ok ?s (resident A) (linked D)" using I(5) assms(3) by (auto simp: counts_ok_def count_down_def)
    show "blocks_ok E {} ?s A"
      unfolding blocks_ok_def
    proof (intro conjI ballI)
      fix c assume "c \<in> resident A - {}"
      then show "block_ok E (bc_blk ?s c) (c \<in> set (A Active))"
        using blocks_okD(1) [OF I(6), of c] assms(2) block_ok_cases(3) [of "bc_blk s c"] by (cases "c = b") (auto simp: count_down_def block_ok_def)
    qed simp
  qed
  then show ?thesis using i(2) unfolding cache_ok_def by (auto simp: count_down_def)
qed


lemma compile_block_keeps:
  assumes "cache_ok E s" "pc_hist \<noteq> []" "gen_ok gen" "compile_block E ind uns H gen pc_hist s = Some s'"
  shows "cache_ok E s'"
proof -
  obtain s0 sa where c: "full_flush E s = Some s0" "alloc_blockinfos E s0 = Some sa"
    using assms(4) by (auto simp: compile_block_def Let_def full_flush_def bind_eq_Some_conv)
  obtain b s1 A C D F where r: "get_blockinfo_addr_new (h_location (hd pc_hist)) sa = Some (b, s1)"
    "\<And>o1 s2. choose_optlev E b (get_blockinfo (cacheline (h_location (hd pc_hist))) s1) s1 = Some (o1, s2) \<Longrightarrow>
       \<exists>s'. compile_block E ind uns H gen pc_hist s = Some s' \<and> cache_ok E s'"
    by (rule compile_block_run [OF assms(1-3) c refl, where ind = ind and uns = uns and H = H]) blast
  have "choose_optlev E b (get_blockinfo (cacheline (h_location (hd pc_hist))) s1) s1 \<noteq> None"
    using assms(4) c r(1) by (auto simp: compile_block_def Let_def full_flush_def bind_eq_Some_conv)
  then show ?thesis using r(2) assms(4) by fastforce
qed

lemma flush_hard_cache_ok:
  assumes "cache_inv E X lim s A C D F"
  shows "\<exists>t. flush_icache_hard s = Some t \<and> cache_ok E t"
proof -
  obtain t F' where t: "flush_icache_hard s = Some t" "cache_inv E {} 0 t (\<lambda>_. []) (\<lambda>_. []) (\<lambda>_. []) F'"
    "bc_compile_p t = 0" "bc_hold t = (\<lambda>_. None)" using flush_icache_hard_ok [OF assms] by blast
  then have "cache_ok E t" unfolding cache_ok_def hold_filled_def by auto
  then show ?thesis using t(1) by blast
qed

lemma cache_step_ok:
  assumes "cache_step E s s'" "cache_ok E s"
  shows "cache_ok E s'"
proof -
  obtain A C D F where i: "cache_inv E {} (bc_compile_p s) s A C D F" "hold_filled (bc_hold s)" by (rule cache_okE [OF assms(2)])
  have fin: "cache_ok E t" if "cache_inv E {} (bc_compile_p t) t A' C' D' F'" "bc_hold t = bc_hold s" for t A' C' D' F'
    using that i(2) unfolding cache_ok_def by auto
  from assms(1) show ?thesis
  proof cases
    case (compile pc_hist gen ind uns H)
    then show ?thesis using compile_block_keeps [OF assms(2)] by blast
  next
    case (no_miss pc r)
    then show ?thesis using miss_ok [OF i(1), of pc r s'] fin by blast
  next
    case (miss pc r)
    then show ?thesis using miss_ok [OF i(1), of pc r s'] fin by blast
  next
    case (recompile pc r)
    then show ?thesis using miss_ok [OF i(1), of pc r s'] fin by blast
  next
    case (check H pc r)
    then show ?thesis using check_checksum_ok [OF i(1)] fin by blast
  next
    case lazy
    obtain t A' where t: "flush_icache_lazy s = Some t" "cache_inv E {} (bc_compile_p s) t A' C D F"
      "bc_hold t = bc_hold s" "bc_compile_p t = bc_compile_p s" using flush_icache_lazy_ok [OF i(1)] by blast
    then show ?thesis using lazy fin [of t] by simp
  next
    case hard
    then show ?thesis using flush_hard_cache_ok [OF i(1)] by auto
  next
    case (state enabled cache_enabled r)
    obtain t where t: "flush_icache_hard s = Some t" "cache_ok E t" using flush_hard_cache_ok [OF i(1)] by blast
    then show ?thesis using state assms(2) by (cases "enabled = cache_enabled") (auto simp: set_cache_state_def)
  next
    case (trigger pc r)
    from delete_triggers_ok [OF i(1), of pc] trigger obtain C' D' where "cache_inv E {} (bc_compile_p s') s' A C' D' F" "bc_hold s' = bc_hold s"
      by auto
    then show ?thesis using fin by blast
  next
    case (count b)
    then show ?thesis using count_down_ok [OF assms(2)] by simp
  qed
qed

lemma cache_reachable_ok: "cache_reachable E s \<Longrightarrow> cache_ok E s"
  by (induction rule: cache_reachable.induct) (auto intro: start_cache_ok cache_step_ok)

lemma reachableE:
  assumes "cache_reachable E s"
  obtains A C D F where "cache_inv E {} (bc_compile_p s) s A C D F" "hold_filled (bc_hold s)"
  by (rule cache_okE [OF cache_reachable_ok [OF assms]])

text \<open>A block is in the cache when the lookup of its address finds it.\<close>

definition cached :: "bcache \<Rightarrow> bid \<Rightarrow> bool" where
  "cached s b \<longleftrightarrow> get_blockinfo_addr (bi_pc_p (bc_blk s b)) s = Some (Some b)"

lemma cached_live:
  assumes "cl_ok s V C"
  shows "cached s b \<longleftrightarrow> b \<in> V"
proof
  assume "cached s b"
  from get_blockinfo_addrD [OF assms this [unfolded cached_def]] show "b \<in> V" by simp
next
  assume "b \<in> V"
  then show "cached s b" unfolding cached_def using get_blockinfo_addr_ok(2) [OF assms] by simp
qed

text \<open>Where a block with the given record is entered from another block, and through the table.\<close>

definition direct_entry :: "blockinfo \<Rightarrow> handler" where
  "direct_entry x = (case bi_status x of BI_INVALID \<Rightarrow> bi_direct_pen x | BI_NEED_CHECK \<Rightarrow> bi_direct_pcc x
     | BI_ACTIVE \<Rightarrow> bi_direct_handler x | _ \<Rightarrow> HNull)"

definition table_entry :: "blockinfo \<Rightarrow> handler" where
  "table_entry x = (case bi_status x of BI_INVALID \<Rightarrow> Popall_execute_normal | BI_NEED_CHECK \<Rightarrow> Popall_check_checksum
     | BI_ACTIVE \<Rightarrow> bi_handler x | _ \<Rightarrow> HNull)"

lemma block_ok_entries:
  assumes "block_ok E x a"
  shows "bi_direct_handler_to_use x = direct_entry x" "bi_handler_to_use x = table_entry x"
    "bi_status x \<in> {BI_INVALID, BI_NEED_CHECK, BI_ACTIVE}"
  using assms by (auto simp: block_ok_def direct_entry_def table_entry_def split: bi_status.splits)

lemma first_block:
  assumes "cache_ok E s"
  shows "bc_handler s cl = (case get_blockinfo cl s of None \<Rightarrow> Popall_execute_normal | Some b \<Rightarrow> table_entry (bc_blk s b)) \<and>
    (\<forall>b. get_blockinfo cl s = Some b \<longrightarrow> cached s b \<and> cacheline (bi_pc_p (bc_blk s b)) = cl \<and>
       bi_status (bc_blk s b) \<in> {BI_INVALID, BI_NEED_CHECK, BI_ACTIVE})"
proof -
  obtain A C D F where i: "cache_inv E {} (bc_compile_p s) s A C D F" by (rule cache_okE [OF assms])
  note I = cache_invD [OF i]
  have r: "get_blockinfo cl s = (case C (cl + 1) of [] \<Rightarrow> None | b # _ \<Rightarrow> Some b)"
    unfolding get_blockinfo_def by (rule links_on_root [OF cl_okD(1) [OF I(2)] UNIV_I])
  have tag: "case C (cl + 1) of [] \<Rightarrow> bc_handler s cl = Popall_execute_normal
     | b # _ \<Rightarrow> b \<notin> {} \<longrightarrow> bc_handler s cl = bi_handler_to_use (bc_blk s b)"
    using I(3) by (simp only: tags_ok_def)
  show ?thesis
  proof (cases "C (cl + 1)")
    case Nil
    then show ?thesis using r tag by simp
  next
    case (Cons b bs)
    then have b: "b \<in> resident A" "cl = cacheline (bi_pc_p (bc_blk s b))" using cl_okD(2) [OF I(2), of b "cl + 1"] by auto
    have e: "block_ok E (bc_blk s b) (b \<in> set (A Active))" using blocks_okD(1) [OF I(6) b(1)] by simp
    show ?thesis using r tag Cons b(1) b(2) [symmetric] cached_live [OF I(2)] block_ok_entries [OF e] by simp
  qed
qed

section \<open>Properties\<close>

lemma sample3_cached: "cached sample3 74" "cached sample3 71" "get_blockinfo_addr 0x2000 sample3 = Some (Some 71)"
  by (simp_all add: cached_def get_blockinfo_addr_def get_blockinfo_def find_pc.simps lines sample_defs)

text \<open>
  C6. In every reachable state, a chained jump of a block in the cache leads to the entry point that
  the state of its target asks for: the interpreter stub of an invalid block, the checksum stub of a
  block that waits for a check, the code of an active one. The target is in the cache, and the
  jump is a place of the code generated so far.
\<close>

theorem chained_jumps_current:
  assumes "cache_reachable E s" "cached s b" "i < 2" "dp_jmp_off (bi_dep (bc_blk s b) i) = Some a"
  shows "\<exists>t. dp_target (bi_dep (bc_blk s b) i) = Some t \<and> cached s t \<and> a < bc_compile_p s \<and>
    bc_jumps s a = direct_entry (bc_blk s t) \<and> bi_status (bc_blk s t) \<in> {BI_INVALID, BI_NEED_CHECK, BI_ACTIVE}"
proof -
  obtain A C D F where i: "cache_inv E {} (bc_compile_p s) s A C D F" by (rule reachableE [OF assms(1)])
  note I = cache_invD [OF i]
  have b: "b \<in> resident A" using assms(2) cached_live [OF I(2)] by simp
  have "(b, i) \<in> linked D" using linked_iff [OF I(4) b assms(3)] assms(4) by simp
  then obtain t where t: "(b, i) \<in> set (D t)" by (auto simp: linked_def)
  then have "D t \<noteq> []" by auto
  then have tl: "t \<in> resident A" by (rule deps_okD(2) [OF I(4)])
  have "jump_ok (bc_compile_p s) s (b, i) t" by (rule deps_okD(5) [OF I(4) t])
  then show ?thesis
    using block_ok_entries [OF blocks_okD(1) [OF I(6) tl]] assms(4) tl cached_live [OF I(2)]
    by (intro exI [of _ t]) (auto simp: jump_ok_def dep_of_def)
qed

theorem chained_jumps_current_witness:
  "dp_jmp_off (bi_dep (bc_blk sample3 74) 0) = Some 240 \<and> bi_status (bc_blk sample3 71) = BI_INVALID \<and>
   bc_jumps sample3 240 = direct_entry (bc_blk sample3 71)"
proof -
  have "dp_jmp_off (bi_dep (bc_blk sample3 74) 0) = Some 240" "dp_target (bi_dep (bc_blk sample3 74) 0) = Some 71"
    "bi_status (bc_blk sample3 71) = BI_INVALID" by (simp_all add: sample_defs)
  with chained_jumps_current [OF reach3 sample3_cached(1) _ this(1)] show ?thesis by simp
qed

text \<open>
  C9. In every reachable state the entry of the dispatch table for an address leads where the state of
  the first block of that entry asks for, and to the interpreter if there is none; the first block is
  in the cache and belongs to that entry.
\<close>

theorem dispatch_current:
  assumes "cache_reachable E s"
  shows "bc_handler s cl = (case get_blockinfo cl s of None \<Rightarrow> Popall_execute_normal | Some b \<Rightarrow> table_entry (bc_blk s b)) \<and>
    (\<forall>b. get_blockinfo cl s = Some b \<longrightarrow> cached s b \<and> cacheline (bi_pc_p (bc_blk s b)) = cl \<and>
       bi_status (bc_blk s b) \<in> {BI_INVALID, BI_NEED_CHECK, BI_ACTIVE})"
  by (rule first_block [OF cache_reachable_ok [OF assms]])

theorem dispatch_current_witness:
  "get_blockinfo 0x1000 sample3 = Some 74 \<and> bc_handler sample3 0x1000 = bi_handler (bc_blk sample3 74)"
proof -
  have "get_blockinfo 0x1000 sample3 = Some 74" "bi_status (bc_blk sample3 74) = BI_ACTIVE" by (simp_all add: get_blockinfo_def sample_defs)
  with dispatch_current [OF reach3, of "0x1000"] show ?thesis by (simp add: table_entry_def)
qed



text \<open>
  C8. The check of a block ends with the fuel of the model, whatever the memory holds, and however the
  blocks chained to one another lead back to it. A block that waited for the check becomes active only
  if its checksum is the one recorded when it was compiled; otherwise it is invalid, and its jumps and
  its table entry lead to the interpreter. The block stays in the cache.
\<close>

theorem check_ends:
  assumes "cache_reachable E s" "cached s b" "check_fuel s \<le> n" "bi_status (bc_blk s b) = BI_NEED_CHECK"
  shows "\<exists>isgood s'. block_check_checksum n H b s = Some (isgood, s') \<and> cached s' b \<and>
    (if isgood then bi_status (bc_blk s' b) = BI_ACTIVE \<and> calc_checksum H b s = Some (bi_c1 (bc_blk s b), bi_c2 (bc_blk s b))
     else bi_status (bc_blk s' b) = BI_INVALID \<and> bi_handler_to_use (bc_blk s' b) = Popall_execute_normal \<and>
       bi_direct_handler_to_use (bc_blk s' b) = bi_direct_pen (bc_blk s' b))"
proof -
  obtain A C D F where i: "cache_inv E {} (bc_compile_p s) s A C D F" by (rule reachableE [OF assms(1)])
  have b: "b \<in> resident A" using assms(2) cached_live [OF cache_invD(2) [OF i]] by simp
  have n: "card (pending (resident A) s) < n" using pending_bound [OF i] assms(3) by simp
  from block_check_ok [OF i b n, of H] obtain g s' A' C' D' where c: "block_check_checksum n H b s = Some (g, s')"
    "cache_inv E {} (bc_compile_p s) s' A' C' D' F" "resident A' = resident A" "outcome s b g s'" by auto
  note I = cache_invD [OF c(2)]
  have bl: "b \<in> resident A'" using b c(3) by simp
  have st: "bi_status (bc_blk s' b) = (if g then BI_ACTIVE else BI_INVALID)" using c(4) assms(4) by (simp add: outcome_def)
  have bad: "\<not> g \<Longrightarrow> bi_handler_to_use (bc_blk s' b) = Popall_execute_normal \<and> bi_direct_handler_to_use (bc_blk s' b) = bi_direct_pen (bc_blk s' b)"
    using blocks_okD(1) [OF I(6) bl] st by (simp add: block_ok_cases(1))
  have good: "calc_checksum H b s = Some (bi_c1 (bc_blk s b), bi_c2 (bc_blk s b))" if "g"
  proof -
    obtain m where m: "n = Suc m" using n by (cases n) auto
    show ?thesis using c(1) that assms(4) unfolding m
      by (auto simp del: called_check_checksum.simps simp: bind_eq_Some_conv split: if_splits)
  qed
  show ?thesis using c(1) cached_live [OF I(2)] bl st bad good
    by (intro exI [of _ g] exI [of _ s'] conjI) auto
qed

theorem check_ends_witness:
  "\<exists>isgood s'. block_check_checksum (check_fuel sample4) sample_mem 74 sample4 = Some (isgood, s') \<and>
     bi_status (bc_blk s' 74) = (if isgood then BI_ACTIVE else BI_INVALID)"
proof -
  have "cached sample4 74" "bi_status (bc_blk sample4 74) = BI_NEED_CHECK"
    by (simp_all add: cached_def get_blockinfo_addr_def get_blockinfo_def find_pc.simps lines sample_defs)
  from check_ends [OF reach4 this(1) order_refl this(2), of sample_mem] show ?thesis by (metis (full_types))
qed



text \<open>
  C30. The hard flush always ends and leaves no block behind: no address is found, every entry of the table
  leads to the interpreter, and code generation starts over.
\<close>

theorem hard_flush_empties:
  assumes "cache_reachable E s"
  shows "\<exists>s'. flush_icache_hard s = Some s' \<and> (\<forall>pc. get_blockinfo_addr pc s' = Some None) \<and>
    (\<forall>cl. bc_handler s' cl = Popall_execute_normal) \<and> bc_compile_p s' = 0"
proof -
  obtain A C D F where i: "cache_inv E {} (bc_compile_p s) s A C D F" by (rule reachableE [OF assms])
  from flush_icache_hard_ok [OF i] obtain s' F' where f: "flush_icache_hard s = Some s'"
    "cache_inv E {} 0 s' (\<lambda>_. []) (\<lambda>_. []) (\<lambda>_. []) F'" "bc_compile_p s' = 0" by blast
  note I = cache_invD [OF f(2)]
  have "get_blockinfo_addr pc s' = Some None" for pc using get_blockinfo_addr_ok(1) [OF I(2)] by (simp add: members_def)
  moreover have "bc_handler s' cl = Popall_execute_normal" for cl using I(3) by (simp add: tags_ok_def)
  ultimately show ?thesis using f(1,3) by blast
qed

theorem hard_flush_empties_witness:
  "cached sample3 74 \<and> (\<exists>s'. flush_icache_hard sample3 = Some s' \<and> get_blockinfo_addr 0x1000 s' = Some None)"
  using hard_flush_empties [OF reach3] sample3_cached(1) by blast



end
