(* ===== verification/Flags.thy ===== *)
theory Flags
  imports Prelude
begin

unbundle bit_operations_syntax

text \<open>
  The host-dependent condition code storage (\<^verbatim>\<open>src/cpu/machdep/m68k.h\<close> and
  \<^verbatim>\<open>m68k.c\<close>). The header keeps the 68k flags N, Z, C and V inside one host word at
  bit positions chosen by the preprocessor, so that translated code can copy the host's own
  condition register, and X in a second word. The three configurations are the three values of
  \<open>flag_layout\<close> below; the accessor macros and \<open>cctrue\<close> are written once over the
  layout, as the header and \<^verbatim>\<open>m68k.c\<close> write them once per configuration.
\<close>

section \<open>Layouts\<close>

record flag_layout =
  FLAGBIT_N :: nat
  FLAGBIT_Z :: nat
  FLAGBIT_C :: nat
  FLAGBIT_V :: nat
  FLAGBIT_X :: nat
  copy_carry_masks :: bool

definition aarch64_layout :: flag_layout where
  "aarch64_layout = \<lparr>FLAGBIT_N = 31, FLAGBIT_Z = 30, FLAGBIT_C = 29, FLAGBIT_V = 28,
     FLAGBIT_X = 0, copy_carry_masks = True\<rparr>"

definition x86_layout :: flag_layout where
  "x86_layout = \<lparr>FLAGBIT_N = 7, FLAGBIT_Z = 6, FLAGBIT_C = 0, FLAGBIT_V = 11,
     FLAGBIT_X = 0, copy_carry_masks = False\<rparr>"

definition sahf_layout :: flag_layout where
  "sahf_layout = \<lparr>FLAGBIT_N = 15, FLAGBIT_Z = 14, FLAGBIT_C = 8, FLAGBIT_V = 0,
     FLAGBIT_X = 0, copy_carry_masks = False\<rparr>"

text \<open>What the macros need of a layout: four different positions inside a 32-bit word.\<close>

definition layout_ok :: "flag_layout \<Rightarrow> bool" where
  "layout_ok L \<longleftrightarrow> distinct [FLAGBIT_N L, FLAGBIT_Z L, FLAGBIT_C L, FLAGBIT_V L] \<and>
     FLAGBIT_N L < 32 \<and> FLAGBIT_Z L < 32 \<and> FLAGBIT_C L < 32 \<and> FLAGBIT_V L < 32 \<and>
     FLAGBIT_X L = 0"

lemma layout_ok_hosts [simp]:
  "layout_ok aarch64_layout" "layout_ok x86_layout" "layout_ok sahf_layout"
  by (simp_all add: layout_ok_def aarch64_layout_def x86_layout_def sahf_layout_def)

section \<open>Accessors\<close>

record flag_struct =
  cznv :: u64
  flg_x :: u64

definition set_flag_bit :: "nat \<Rightarrow> u64 \<Rightarrow> u64 \<Rightarrow> u64" where
  "set_flag_bit b y w = (w AND NOT (push_bit b 1)) OR push_bit b (y AND 1)"

definition get_flag_bit :: "nat \<Rightarrow> u64 \<Rightarrow> u64" where
  "get_flag_bit b w = drop_bit b w AND 1"

definition SET_NFLG :: "flag_layout \<Rightarrow> u64 \<Rightarrow> flag_struct \<Rightarrow> flag_struct" where
  "SET_NFLG L y f = f\<lparr>cznv := set_flag_bit (FLAGBIT_N L) y (cznv f)\<rparr>"

definition SET_ZFLG :: "flag_layout \<Rightarrow> u64 \<Rightarrow> flag_struct \<Rightarrow> flag_struct" where
  "SET_ZFLG L y f = f\<lparr>cznv := set_flag_bit (FLAGBIT_Z L) y (cznv f)\<rparr>"

definition SET_CFLG :: "flag_layout \<Rightarrow> u64 \<Rightarrow> flag_struct \<Rightarrow> flag_struct" where
  "SET_CFLG L y f = f\<lparr>cznv := set_flag_bit (FLAGBIT_C L) y (cznv f)\<rparr>"

definition SET_VFLG :: "flag_layout \<Rightarrow> u64 \<Rightarrow> flag_struct \<Rightarrow> flag_struct" where
  "SET_VFLG L y f = f\<lparr>cznv := set_flag_bit (FLAGBIT_V L) y (cznv f)\<rparr>"

definition SET_XFLG :: "flag_layout \<Rightarrow> u64 \<Rightarrow> flag_struct \<Rightarrow> flag_struct" where
  "SET_XFLG L y f = f\<lparr>flg_x := push_bit (FLAGBIT_X L) (y AND 1)\<rparr>"

definition GET_NFLG :: "flag_layout \<Rightarrow> flag_struct \<Rightarrow> u64" where
  "GET_NFLG L f = get_flag_bit (FLAGBIT_N L) (cznv f)"

definition GET_ZFLG :: "flag_layout \<Rightarrow> flag_struct \<Rightarrow> u64" where
  "GET_ZFLG L f = get_flag_bit (FLAGBIT_Z L) (cznv f)"

definition GET_CFLG :: "flag_layout \<Rightarrow> flag_struct \<Rightarrow> u64" where
  "GET_CFLG L f = get_flag_bit (FLAGBIT_C L) (cznv f)"

definition GET_VFLG :: "flag_layout \<Rightarrow> flag_struct \<Rightarrow> u64" where
  "GET_VFLG L f = get_flag_bit (FLAGBIT_V L) (cznv f)"

definition GET_XFLG :: "flag_layout \<Rightarrow> flag_struct \<Rightarrow> u64" where
  "GET_XFLG L f = get_flag_bit (FLAGBIT_X L) (flg_x f)"

definition CLEAR_CZNV :: "flag_struct \<Rightarrow> flag_struct" where
  "CLEAR_CZNV f = f\<lparr>cznv := 0\<rparr>"

text \<open>The AArch64 version masks the carry, the other two shift the whole word.\<close>

definition COPY_CARRY :: "flag_layout \<Rightarrow> flag_struct \<Rightarrow> flag_struct" where
  "COPY_CARRY L f =
     (if copy_carry_masks L then f\<lparr>flg_x := drop_bit (FLAGBIT_C L) (cznv f) AND 1\<rparr>
      else f\<lparr>flg_x := drop_bit (FLAGBIT_C L - FLAGBIT_X L) (cznv f)\<rparr>)"

section \<open>Condition tests\<close>

text \<open>
  \<open>cctrue\<close> tests the word directly. The comparison conditions shift the V bit onto the N bit
  or the N bit onto the V bit, whichever is the higher one (the \<^verbatim>\<open>#if\<close> of the source).
\<close>

definition cctrue :: "flag_layout \<Rightarrow> nat \<Rightarrow> flag_struct \<Rightarrow> nat" where
  "cctrue L cc f =
    (let w = ucast (cznv f) :: u32;
         vC = push_bit (FLAGBIT_C L) 1; vZ = push_bit (FLAGBIT_Z L) 1;
         vN = push_bit (FLAGBIT_N L) 1; vV = push_bit (FLAGBIT_V L) 1;
         m = w AND (vN OR vZ OR vV);
         nv = FLAGBIT_N L - FLAGBIT_V L; vn = FLAGBIT_V L - FLAGBIT_N L
     in if cc = 0 then 1
        else if cc = 1 then 0
        else if cc = 2 then of_bool (w AND (vC OR vZ) = 0)
        else if cc = 3 then of_bool (w AND (vC OR vZ) \<noteq> 0)
        else if cc = 4 then of_bool (w AND vC = 0)
        else if cc = 5 then of_bool (w AND vC \<noteq> 0)
        else if cc = 6 then of_bool (w AND vZ = 0)
        else if cc = 7 then of_bool (w AND vZ \<noteq> 0)
        else if cc = 8 then of_bool (w AND vV = 0)
        else if cc = 9 then of_bool (w AND vV \<noteq> 0)
        else if cc = 10 then of_bool (w AND vN = 0)
        else if cc = 11 then of_bool (w AND vN \<noteq> 0)
        else if FLAGBIT_V L < FLAGBIT_N L then
          (if cc = 12 then of_bool ((push_bit nv w XOR w) AND vN = 0)
           else if cc = 13 then of_bool ((push_bit nv w XOR w) AND vN \<noteq> 0)
           else if cc = 14 then of_bool ((push_bit nv m XOR m) AND (vN OR vZ) = 0)
           else if cc = 15 then of_bool ((push_bit nv m XOR m) AND (vN OR vZ) \<noteq> 0)
           else 0)
        else
          (if cc = 12 then of_bool ((push_bit vn w XOR w) AND vV = 0)
           else if cc = 13 then of_bool ((push_bit vn w XOR w) AND vV \<noteq> 0)
           else if cc = 14 then of_bool ((push_bit vn m XOR m) AND (vV OR vZ) = 0)
           else if cc = 15 then of_bool ((push_bit vn m XOR m) AND (vV OR vZ) \<noteq> 0)
           else 0))"

section \<open>Laws of the accessors\<close>

lemma bit_set_flag_bit:
  "b < 64 \<Longrightarrow> bit (set_flag_bit b y w) i = (if i = b then bit y 0 else bit w i)"
  by (auto simp: set_flag_bit_def bit_simps bit_1_iff dest: bit_imp_le_length)

lemma get_flag_bit_eq: "get_flag_bit b w = of_bool (bit w b)"
  by (rule bit_word_eqI) (auto simp: get_flag_bit_def bit_simps bit_1_iff)

lemma and_1_eq_bit0: "(y :: u64) AND 1 = of_bool (bit y 0)"
  by (rule bit_word_eqI) (auto simp: bit_simps bit_1_iff)

text \<open>
  What the rest of the emulator relies on: each flag is read back as it was written, and
  writing one flag leaves the others alone. The X flag lives in its own word.
\<close>

locale ccr =
  fixes setN setZ setC setV setX :: "u64 \<Rightarrow> 'f \<Rightarrow> 'f"
    and getN getZ getC getV getX :: "'f \<Rightarrow> u64"
    and clear :: "'f \<Rightarrow> 'f"
  assumes setN_get: "getN (setN y f) = y AND 1" "getZ (setN y f) = getZ f"
      "getC (setN y f) = getC f" "getV (setN y f) = getV f" "getX (setN y f) = getX f"
    and setZ_get: "getN (setZ y f) = getN f" "getZ (setZ y f) = y AND 1"
      "getC (setZ y f) = getC f" "getV (setZ y f) = getV f" "getX (setZ y f) = getX f"
    and setC_get: "getN (setC y f) = getN f" "getZ (setC y f) = getZ f"
      "getC (setC y f) = y AND 1" "getV (setC y f) = getV f" "getX (setC y f) = getX f"
    and setV_get: "getN (setV y f) = getN f" "getZ (setV y f) = getZ f"
      "getC (setV y f) = getC f" "getV (setV y f) = y AND 1" "getX (setV y f) = getX f"
    and setX_get: "getN (setX y f) = getN f" "getZ (setX y f) = getZ f"
      "getC (setX y f) = getC f" "getV (setX y f) = getV f" "getX (setX y f) = y AND 1"
    and clear_get: "getN (clear f) = 0" "getZ (clear f) = 0" "getC (clear f) = 0"
      "getV (clear f) = 0" "getX (clear f) = getX f"
begin

text \<open>The condition code register as five booleans, in the order X N Z V C of the 68k.\<close>

definition view :: "'f \<Rightarrow> bool \<times> bool \<times> bool \<times> bool \<times> bool" where
  "view f = (getX f = 1, getN f = 1, getZ f = 1, getV f = 1, getC f = 1)"

lemmas get_laws = setN_get setZ_get setC_get setV_get setX_get clear_get

lemma view_setZN:
  "view (setZ (of_bool z) (setN (of_bool n) (clear f))) = (getX f = 1, n, z, False, False)"
  by (simp add: view_def get_laws and_1_eq_bit0 bit_simps)

end

lemma accessor_laws [flag_simps]:
  assumes "layout_ok L"
  shows "GET_NFLG L (SET_NFLG L y f) = y AND 1" "GET_ZFLG L (SET_NFLG L y f) = GET_ZFLG L f"
    "GET_CFLG L (SET_NFLG L y f) = GET_CFLG L f" "GET_VFLG L (SET_NFLG L y f) = GET_VFLG L f"
    "GET_XFLG L (SET_NFLG L y f) = GET_XFLG L f"
    "GET_NFLG L (SET_ZFLG L y f) = GET_NFLG L f" "GET_ZFLG L (SET_ZFLG L y f) = y AND 1"
    "GET_CFLG L (SET_ZFLG L y f) = GET_CFLG L f" "GET_VFLG L (SET_ZFLG L y f) = GET_VFLG L f"
    "GET_XFLG L (SET_ZFLG L y f) = GET_XFLG L f"
    "GET_NFLG L (SET_CFLG L y f) = GET_NFLG L f" "GET_ZFLG L (SET_CFLG L y f) = GET_ZFLG L f"
    "GET_CFLG L (SET_CFLG L y f) = y AND 1" "GET_VFLG L (SET_CFLG L y f) = GET_VFLG L f"
    "GET_XFLG L (SET_CFLG L y f) = GET_XFLG L f"
    "GET_NFLG L (SET_VFLG L y f) = GET_NFLG L f" "GET_ZFLG L (SET_VFLG L y f) = GET_ZFLG L f"
    "GET_CFLG L (SET_VFLG L y f) = GET_CFLG L f" "GET_VFLG L (SET_VFLG L y f) = y AND 1"
    "GET_XFLG L (SET_VFLG L y f) = GET_XFLG L f"
    "GET_NFLG L (SET_XFLG L y f) = GET_NFLG L f" "GET_ZFLG L (SET_XFLG L y f) = GET_ZFLG L f"
    "GET_CFLG L (SET_XFLG L y f) = GET_CFLG L f" "GET_VFLG L (SET_XFLG L y f) = GET_VFLG L f"
    "GET_XFLG L (SET_XFLG L y f) = y AND 1"
    "GET_NFLG L (CLEAR_CZNV f) = 0" "GET_ZFLG L (CLEAR_CZNV f) = 0"
    "GET_CFLG L (CLEAR_CZNV f) = 0" "GET_VFLG L (CLEAR_CZNV f) = 0"
    "GET_XFLG L (CLEAR_CZNV f) = GET_XFLG L f"
  using assms
  by (simp_all add: layout_ok_def GET_NFLG_def GET_ZFLG_def GET_CFLG_def GET_VFLG_def
      GET_XFLG_def SET_NFLG_def SET_ZFLG_def SET_CFLG_def SET_VFLG_def SET_XFLG_def
      CLEAR_CZNV_def get_flag_bit_eq bit_set_flag_bit and_1_eq_bit0)

interpretation aarch64_ccr: ccr "SET_NFLG aarch64_layout" "SET_ZFLG aarch64_layout"
  "SET_CFLG aarch64_layout" "SET_VFLG aarch64_layout" "SET_XFLG aarch64_layout"
  "GET_NFLG aarch64_layout" "GET_ZFLG aarch64_layout" "GET_CFLG aarch64_layout"
  "GET_VFLG aarch64_layout" "GET_XFLG aarch64_layout" CLEAR_CZNV
  by unfold_locales (simp_all add: flag_simps)

interpretation x86_ccr: ccr "SET_NFLG x86_layout" "SET_ZFLG x86_layout"
  "SET_CFLG x86_layout" "SET_VFLG x86_layout" "SET_XFLG x86_layout"
  "GET_NFLG x86_layout" "GET_ZFLG x86_layout" "GET_CFLG x86_layout"
  "GET_VFLG x86_layout" "GET_XFLG x86_layout" CLEAR_CZNV
  by unfold_locales (simp_all add: flag_simps)

interpretation sahf_ccr: ccr "SET_NFLG sahf_layout" "SET_ZFLG sahf_layout"
  "SET_CFLG sahf_layout" "SET_VFLG sahf_layout" "SET_XFLG sahf_layout"
  "GET_NFLG sahf_layout" "GET_ZFLG sahf_layout" "GET_CFLG sahf_layout"
  "GET_VFLG sahf_layout" "GET_XFLG sahf_layout" CLEAR_CZNV
  by unfold_locales (simp_all add: flag_simps)

section \<open>The condition tests against the 68k condition table\<close>

text \<open>The table of conditions, in terms of the flags (the comments of \<^verbatim>\<open>cctrue\<close>).\<close>

definition cc_spec :: "nat \<Rightarrow> bool \<Rightarrow> bool \<Rightarrow> bool \<Rightarrow> bool \<Rightarrow> bool" where
  "cc_spec cc n z v c =
     (case cc of 0 \<Rightarrow> True
      | Suc 0 \<Rightarrow> False
      | _ \<Rightarrow> [\<not> c \<and> \<not> z, c \<or> z, \<not> c, c, \<not> z, z, \<not> v, v, \<not> n, n,
              n = v, n \<noteq> v, \<not> z \<and> n = v, z \<or> n \<noteq> v] ! (cc - 2))"

lemma and_exp_eq_0: "((w :: 'a::len word) AND 2 ^ b = 0) = (\<not> bit w b)"
  by (simp add: and_exp_eq_0_iff_not_bit)

lemma and_or_eq_0: "((w :: 'a::len word) AND (x OR y) = 0) = (w AND x = 0 \<and> w AND y = 0)"
  by (metis bit.conj_disj_distrib or_eq_0_iff)

lemma bit_push_bit_u32: "bit (push_bit n (w :: u32)) i = (n \<le> i \<and> i < 32 \<and> bit w (i - n))"
  by (auto simp: bit_simps dest: bit_imp_le_length)

lemmas cc_bit_simps = and_exp_eq_0 and_or_eq_0 bit_push_bit_u32 bit_xor_iff bit_and_iff
  bit_or_iff bit_ucast_iff bit_1_iff bit_exp_iff

text \<open>
  The conditions GT and LE shift the masked word; the bit that lands on Z must not be one of
  the three that the mask keeps. This is a property of the three layouts.
\<close>

definition shift_misses_Z :: "flag_layout \<Rightarrow> bool" where
  "shift_misses_Z L \<longleftrightarrow>
    (let d = (if FLAGBIT_V L < FLAGBIT_N L then FLAGBIT_N L - FLAGBIT_V L
              else FLAGBIT_V L - FLAGBIT_N L)
     in FLAGBIT_Z L < d \<or>
        FLAGBIT_Z L - d \<notin> {FLAGBIT_N L, FLAGBIT_Z L, FLAGBIT_V L})"

lemma shift_misses_Z_hosts:
  "shift_misses_Z aarch64_layout" "shift_misses_Z x86_layout" "shift_misses_Z sahf_layout"
  by (simp_all add: shift_misses_Z_def aarch64_layout_def x86_layout_def sahf_layout_def)

lemma less_16_cases: "(n::nat) < 16 \<Longrightarrow> n \<in> {0,1,2,3,4,5,6,7,8,9,10,11,12,13,14,15}"
  by simp arith

lemma bit_shift_onto:
  "V < N \<Longrightarrow> N < 32 \<Longrightarrow>
    bit (push_bit (N - V) (w :: u32) XOR w) N = (bit w N \<noteq> bit w V)"
  by (auto simp: cc_bit_simps)

lemma bit_masked_shift_Z:
  fixes w :: u32
  assumes "Z < d \<or> Z - d \<notin> {N, Z, V}" "Z < 32"
  shows "bit (push_bit d (w AND (2 ^ N OR 2 ^ Z OR 2 ^ V)) XOR
       (w AND (2 ^ N OR 2 ^ Z OR 2 ^ V))) Z = bit w Z"
  using assms by (auto simp: cc_bit_simps)

lemma masked_bit:
  fixes w :: u32
  assumes "b \<in> {N, Z, V}" "N < 32" "Z < 32" "V < 32"
  shows "bit (w AND (2 ^ N OR 2 ^ Z OR 2 ^ V)) b = bit w b"
  using assms by (auto simp: cc_bit_simps)

lemmas flag_get_defs = GET_NFLG_def GET_ZFLG_def GET_VFLG_def GET_CFLG_def get_flag_bit_eq

lemma cctrue_layout_ok:
  assumes "layout_ok L" and "shift_misses_Z L" and "cc < 16"
  shows "cctrue L cc f =
    of_bool (cc_spec cc (GET_NFLG L f = 1) (GET_ZFLG L f = 1) (GET_VFLG L f = 1) (GET_CFLG L f = 1))"
proof -
  define w where "w = (ucast (cznv f) :: u32)"
  let ?N = "FLAGBIT_N L" and ?Z = "FLAGBIT_Z L" and ?C = "FLAGBIT_C L" and ?V = "FLAGBIT_V L"
  have lt: "?N < 32" "?Z < 32" "?C < 32" "?V < 32" "?N \<noteq> ?V"
    using assms(1) by (auto simp: layout_ok_def)
  have gets: "GET_NFLG L f = of_bool (bit w ?N)" "GET_ZFLG L f = of_bool (bit w ?Z)"
    "GET_VFLG L f = of_bool (bit w ?V)" "GET_CFLG L f = of_bool (bit w ?C)"
    using lt by (simp_all add: flag_get_defs w_def bit_ucast_iff)
  let ?m = "w AND (2 ^ ?N OR 2 ^ ?Z OR 2 ^ ?V)"
  have m: "bit ?m ?N = bit w ?N" "bit ?m ?V = bit w ?V"
    using lt by (simp_all add: masked_bit)
  have nv: "bit (push_bit (?N - ?V) x XOR x) ?N = (bit x ?N \<noteq> bit x ?V)"
    if "?V < ?N" for x :: u32 using bit_shift_onto that lt by blast
  have vn: "bit (push_bit (?V - ?N) x XOR x) ?V = (bit x ?V \<noteq> bit x ?N)"
    if "\<not> ?V < ?N" for x :: u32 using bit_shift_onto [of ?N ?V] that lt by auto
  have z: "bit (push_bit d ?m XOR ?m) ?Z = bit w ?Z"
    if "d = (if ?V < ?N then ?N - ?V else ?V - ?N)" for d
    using assms(2) lt that
    by (intro bit_masked_shift_Z) (auto simp: shift_misses_Z_def Let_def)
  show ?thesis
    using less_16_cases [OF assms(3)]
    by (elim insertE emptyE; cases "?V < ?N";
        simp add: cctrue_def cc_spec_def gets w_def [symmetric] Let_def and_exp_eq_0
          and_or_eq_0 nv vn z m del: push_bit_and push_bit_or push_bit_xor; blast?)
qed

text \<open>
  C36. Condition tests. For every one of the sixteen condition codes and on each of the three host
  layouts of the flag word, \<open>cctrue\<close> (which masks, shifts and compares the packed word) decides the
  condition of the 68000 manual on the N, Z, V and C flags that the accessors return.
\<close>

theorem cctrue_correct:
  assumes "L \<in> {aarch64_layout, x86_layout, sahf_layout}" and "cc < 16"
  shows "cctrue L cc f =
    of_bool (cc_spec cc (GET_NFLG L f = 1) (GET_ZFLG L f = 1) (GET_VFLG L f = 1) (GET_CFLG L f = 1))"
  using assms by (elim insertE emptyE) (simp_all only: cctrue_layout_ok layout_ok_hosts shift_misses_Z_hosts)

theorem cctrue_correct_witness:
  "cctrue aarch64_layout 14 (SET_NFLG aarch64_layout 1 (SET_VFLG aarch64_layout 1 (CLEAR_CZNV \<lparr>cznv = 0, flg_x = 0\<rparr>))) = 1"
  using cctrue_correct [of aarch64_layout 14
      "SET_NFLG aarch64_layout 1 (SET_VFLG aarch64_layout 1 (CLEAR_CZNV \<lparr>cznv = 0, flg_x = 0\<rparr>))"]
  by code_simp

end
