(* ===== verification/Jit_Correct.thy ===== *)
theory Jit_Correct
  imports Jit_Block Jit_Add Jit_Logic Jit_Move Jit_Bits
begin

unbundle bit_operations_syntax

text \<open>
  The contract of the mid-level functions, family by family. Each states of every function of the
  family, from a state that is \<open>ready\<close> (as \<^verbatim>\<open>init_comp\<close> leaves it and every function keeps it):
  the compilation returns (\<^verbatim>\<open>jit_abort\<close> is not reached), no register stays locked, and the
  emitted code, run on a machine that represents the values \<open>V\<close> of the virtual registers, ends in one that
  represents \<open>V'\<close>, where \<open>V\<close>, \<open>V'\<close> and the host flags before and after are related by the named
  effect; memory outside the register file and the reserved registers keep their contents. The effects
  name the result of the interpreter's statement (\<open>flag_add\<close> and the others of Interp_Flags), so that the
  translated instruction computes what the interpreter computes, in the registers and in the
  condition codes.
\<close>

section \<open>A state to start from\<close>

definition sample_state :: live where
  "sample_state = the (init_comp sample_env sample_live)"

lemma sample_ready:
  "ready 100 sample_env sample_state" "tidy_flags sample_state" "r < S1 \<Longrightarrow> r \<noteq> PC_P \<Longrightarrow> operand r sample_state"
proof -
  obtain l where l: "init_comp sample_env sample_live = Some l" using init_comp_state by metis
  then have "sample_state = l" by (simp add: sample_state_def)
  with init_comp_ready [OF sample_env_ok _ l, of 100]
  show "ready 100 sample_env sample_state" "tidy_flags sample_state" "r < S1 \<Longrightarrow> r \<noteq> PC_P \<Longrightarrow> operand r sample_state"
    by (simp_all add: sample_live_def)
qed

lemma sample_operands: "operand 0 sample_state" "operand 1 sample_state"
  by (simp_all add: sample_ready jit_consts)

lemma sample_not_const: "\<not> isconst sample_state 0" "\<not> isconst sample_state 1"
proof -
  obtain l where l: "init_comp sample_env sample_live = Some l"
    "\<And>r. r < VREGS \<Longrightarrow> l_state l r = init_state (l_comp_pc_p sample_live) r (l_state sample_live r)"
    using init_comp_state by metis
  then show "\<not> isconst sample_state 0" "\<not> isconst sample_state 1"
    by (simp_all add: sample_state_def isconst_def init_state_def jit_consts)
qed

lemma sample_state_flags:
  "l_flags_in_flags sample_state = TRASH" "l_flags_on_stack sample_state = VALID" "l_flags_are_important sample_state"
  "\<not> l_flags_carry_inverted sample_state" "status sample_state FLAGTMP \<noteq> UNDEF" "l_code sample_state = []"
proof -
  obtain l where l: "init_comp sample_env sample_live = Some l" "l_code l = l_code sample_live" "l_flags_in_flags l = TRASH"
    "l_flags_on_stack l = VALID" "l_flags_are_important l" "\<not> l_flags_carry_inverted l"
    using init_comp_state by metis
  then show "l_flags_in_flags sample_state = TRASH" "l_flags_on_stack sample_state = VALID" "l_flags_are_important sample_state"
    "\<not> l_flags_carry_inverted sample_state" "l_code sample_state = []"
    by (simp_all add: sample_state_def sample_live_def)
  show "status sample_state FLAGTMP \<noteq> UNDEF" using sample_ready(3) [of FLAGTMP] by (simp add: operand_def jit_consts)
qed

lemma sample_scratch: "\<exists>r l1. alloc_scratch sample_state = Some (r, l1)"
proof -
  obtain l where l: "init_comp sample_env sample_live = Some l" "\<And>i. i < SCRATCH_REGS \<Longrightarrow> \<not> l_scratch_in_use l i"
    using init_comp_state by metis
  then have "find (\<lambda>i. \<not> l_scratch_in_use sample_state i) [0..<SCRATCH_REGS] \<noteq> None"
    by (auto simp: find_None_iff sample_state_def SCRATCH_REGS_def intro: exI [of _ 0])
  then show ?thesis by (auto simp: alloc_scratch_def)
qed

definition sample_machine :: a64 where
  "sample_machine = \<lparr>xr = \<lambda>_. 0x1000, nf = False, zf = False, cf = False, vf = False,
     amem = store_le32 (field 0) 0x7FFFFFFF (store_le32 (field 1) 1 (\<lambda>_. 0))\<rparr>"

section \<open>Families\<close>

lemmas add_family_rules = jnf_ADD_b_imm_ok jnf_ADD_b_ok jff_ADD_b_imm_ok jff_ADD_b_ok
  jnf_ADD_w_imm_ok jnf_ADD_w_ok jff_ADD_w_imm_ok jff_ADD_w_ok jnf_ADD_l_imm_ok jnf_ADD_l_ok
  jff_ADD_l_imm_ok jff_ADD_l_ok jnf_ADDA_w_imm_ok jnf_ADDA_w_ok jnf_ADDA_l_imm_ok jnf_ADDA_l_ok

text \<open>C12: ADD and ADDA. Every mid-level function of the family, for all operand sizes, immediate and
  register sources, with and without condition codes, emits code that computes the sum with the
  interpreter's condition codes (ADDA: the sum with the sign-extended source, no condition codes).\<close>

theorem add_family:
  assumes "ready t E l" "operand d l" "operand s l"
  shows "generates {} t E l (jnf_ADD_b_imm E d v l) (l_flags_carry_inverted l)
      (plain_effect d (\<lambda>V. ucast (V d) + (ucast v :: u8))) \<and>
    generates {} t E l (jnf_ADD_b E d s l) (l_flags_carry_inverted l)
      (plain_effect d (\<lambda>V. ucast (V d) + (ucast (V s) :: u8))) \<and>
    generates {} t E l (jff_ADD_b_imm E d v l) False
      (arith_effect l False d (\<lambda>V. flag_add (ucast v :: u8) (ucast (V d)))) \<and>
    generates {} t E l (jff_ADD_b E d s l) False
      (arith_effect l False d (\<lambda>V. flag_add (ucast (V s) :: u8) (ucast (V d)))) \<and>
    generates {} t E l (jnf_ADD_w_imm E d v l) (l_flags_carry_inverted l)
      (plain_effect d (\<lambda>V. ucast (V d) + (ucast v :: u16))) \<and>
    generates {} t E l (jnf_ADD_w E d s l) (l_flags_carry_inverted l)
      (plain_effect d (\<lambda>V. ucast (V d) + (ucast (V s) :: u16))) \<and>
    generates {} t E l (jff_ADD_w_imm E d v l) False
      (arith_effect l False d (\<lambda>V. flag_add (ucast v :: u16) (ucast (V d)))) \<and>
    generates {} t E l (jff_ADD_w E d s l) False
      (arith_effect l False d (\<lambda>V. flag_add (ucast (V s) :: u16) (ucast (V d)))) \<and>
    generates {} t E l (jnf_ADD_l_imm E d v l) (l_flags_carry_inverted l)
      (plain_effect d (\<lambda>V. ucast (V d) + (ucast v :: u32))) \<and>
    generates {} t E l (jnf_ADD_l E d s l) (l_flags_carry_inverted l)
      (plain_effect d (\<lambda>V. ucast (V d) + (ucast (V s) :: u32))) \<and>
    generates {} t E l (jff_ADD_l_imm E d v l) False
      (arith_effect l False d (\<lambda>V. flag_add (ucast v :: u32) (ucast (V d)))) \<and>
    generates {} t E l (jff_ADD_l E d s l) False
      (arith_effect l False d (\<lambda>V. flag_add (ucast (V s) :: u32) (ucast (V d)))) \<and>
    generates {} t E l (jnf_ADDA_w_imm E d v l) (l_flags_carry_inverted l)
      (plain_effect d (\<lambda>V. ucast (V d) + (scast (ucast v :: u16) :: u32))) \<and>
    generates {} t E l (jnf_ADDA_w E d s l) (l_flags_carry_inverted l)
      (plain_effect d (\<lambda>V. ucast (V d) + (scast (ucast (V s) :: u16) :: u32))) \<and>
    generates {} t E l (jnf_ADDA_l_imm E d v l) (l_flags_carry_inverted l)
      (plain_effect d (\<lambda>V. ucast (V d) + (v :: u32))) \<and>
    generates {} t E l (jnf_ADDA_l E d s l) (l_flags_carry_inverted l)
      (plain_effect d (\<lambda>V. ucast (V d) + (ucast (V s) :: u32)))"
  using assms by (intro conjI impI) (rule add_family_rules; simp)+

lemma add_family_witness:
  "generates {} 100 sample_env sample_state (jff_ADD_l sample_env 0 1 sample_state) False
    (arith_effect sample_state False 0 (\<lambda>V. flag_add (ucast (V 1) :: u32) (ucast (V 0))))"
  using add_family [OF sample_ready(1) sample_operands, where v = "0x85"] sample_not_const by simp

lemmas sub_family_rules = jnf_SUB_b_imm_ok jnf_SUB_b_ok jff_SUB_b_imm_ok jff_SUB_b_ok
  jnf_SUB_w_imm_ok jnf_SUB_w_ok jff_SUB_w_imm_ok jff_SUB_w_ok jnf_SUB_l_imm_ok jnf_SUB_l_ok
  jff_SUB_l_imm_ok jff_SUB_l_ok jnf_SUBA_w_imm_ok jnf_SUBA_w_ok jnf_SUBA_l_imm_ok jnf_SUBA_l_ok

text \<open>C13: SUB and SUBA. Every mid-level function of the family, for all operand sizes, immediate and
  register sources, with and without condition codes, emits code that computes the difference with
  the interpreter's condition codes and the carry left inverted in the host flags (SUBA: no
  condition codes).\<close>

theorem sub_family:
  assumes "ready t E l" "operand d l" "operand s l"
  shows "generates {} t E l (jnf_SUB_b_imm E d v l) (l_flags_carry_inverted l)
      (plain_effect d (\<lambda>V. ucast (V d) - (ucast v :: u8))) \<and>
    generates {} t E l (jnf_SUB_b E d s l) (l_flags_carry_inverted l)
      (plain_effect d (\<lambda>V. ucast (V d) - (ucast (V s) :: u8))) \<and>
    generates {} t E l (jff_SUB_b_imm E d v l) True
      (arith_effect l True d (\<lambda>V. flag_sub (ucast v :: u8) (ucast (V d)))) \<and>
    generates {} t E l (jff_SUB_b E d s l) True
      (arith_effect l True d (\<lambda>V. flag_sub (ucast (V s) :: u8) (ucast (V d)))) \<and>
    generates {} t E l (jnf_SUB_w_imm E d v l) (l_flags_carry_inverted l)
      (plain_effect d (\<lambda>V. ucast (V d) - (ucast v :: u16))) \<and>
    generates {} t E l (jnf_SUB_w E d s l) (l_flags_carry_inverted l)
      (plain_effect d (\<lambda>V. ucast (V d) - (ucast (V s) :: u16))) \<and>
    generates {} t E l (jff_SUB_w_imm E d v l) True
      (arith_effect l True d (\<lambda>V. flag_sub (ucast v :: u16) (ucast (V d)))) \<and>
    generates {} t E l (jff_SUB_w E d s l) True
      (arith_effect l True d (\<lambda>V. flag_sub (ucast (V s) :: u16) (ucast (V d)))) \<and>
    generates {} t E l (jnf_SUB_l_imm E d v l) (l_flags_carry_inverted l)
      (plain_effect d (\<lambda>V. ucast (V d) - (ucast v :: u32))) \<and>
    generates {} t E l (jnf_SUB_l E d s l) (l_flags_carry_inverted l)
      (plain_effect d (\<lambda>V. ucast (V d) - (ucast (V s) :: u32))) \<and>
    generates {} t E l (jff_SUB_l_imm E d v l) True
      (arith_effect l True d (\<lambda>V. flag_sub (ucast v :: u32) (ucast (V d)))) \<and>
    generates {} t E l (jff_SUB_l E d s l) True
      (arith_effect l True d (\<lambda>V. flag_sub (ucast (V s) :: u32) (ucast (V d)))) \<and>
    generates {} t E l (jnf_SUBA_w_imm E d v l) (l_flags_carry_inverted l)
      (plain_effect d (\<lambda>V. ucast (V d) - (scast (ucast v :: u16) :: u32))) \<and>
    generates {} t E l (jnf_SUBA_w E d s l) (l_flags_carry_inverted l)
      (plain_effect d (\<lambda>V. ucast (V d) - (scast (ucast (V s) :: u16) :: u32))) \<and>
    generates {} t E l (jnf_SUBA_l_imm E d v l) (l_flags_carry_inverted l)
      (plain_effect d (\<lambda>V. ucast (V d) - (v :: u32))) \<and>
    generates {} t E l (jnf_SUBA_l E d s l) (l_flags_carry_inverted l)
      (plain_effect d (\<lambda>V. ucast (V d) - (ucast (V s) :: u32)))"
  using assms by (intro conjI impI) (rule sub_family_rules; simp)+

lemma sub_family_witness:
  "generates {} 100 sample_env sample_state (jff_SUB_l sample_env 0 1 sample_state) True
    (arith_effect sample_state True 0 (\<lambda>V. flag_sub (ucast (V 1) :: u32) (ucast (V 0))))"
  using sub_family [OF sample_ready(1) sample_operands, where v = "0x85"] sample_not_const by simp

lemmas cmp_family_rules = jff_CMP_b_imm_ok jff_CMP_b_ok jff_CMP_w_imm_ok jff_CMP_w_ok
  jff_CMP_l_imm_ok jff_CMP_l_ok jff_CMPA_w_imm_ok jff_CMPA_w_ok jff_CMPA_l_imm_ok jff_CMPA_l_ok

text \<open>C14: CMP and CMPA. Every mid-level function of the family, for all operand sizes, immediate and
  register sources, with and without condition codes, emits code that computes the condition codes
  of the comparison; no register changes.\<close>

theorem cmp_family:
  assumes "ready t E l" "operand d l" "operand s l"
  shows "generates {} t E l (jff_CMP_b_imm E d v l) True
      (compare_effect True (\<lambda>V. flag_cmp (ucast v :: u8) (ucast (V d)))) \<and>
    generates {} t E l (jff_CMP_b E d s l) True
      (compare_effect True (\<lambda>V. flag_cmp (ucast (V s) :: u8) (ucast (V d)))) \<and>
    generates {} t E l (jff_CMP_w_imm E d v l) True
      (compare_effect True (\<lambda>V. flag_cmp (ucast v :: u16) (ucast (V d)))) \<and>
    generates {} t E l (jff_CMP_w E d s l) True
      (compare_effect True (\<lambda>V. flag_cmp (ucast (V s) :: u16) (ucast (V d)))) \<and>
    generates {} t E l (jff_CMP_l_imm E d v l) (\<not> isconst l d)
      (compare_effect (\<not> isconst l d) (\<lambda>V. flag_cmp (ucast v :: u32) (ucast (V d)))) \<and>
    generates {} t E l (jff_CMP_l E d s l) (\<not> (isconst l d \<and> isconst l s))
      (compare_effect (\<not> (isconst l d \<and> isconst l s)) (\<lambda>V. flag_cmp (ucast (V s) :: u32) (ucast (V d)))) \<and>
    generates {} t E l (jff_CMPA_w_imm E d v l) True
      (compare_effect True (\<lambda>V. flag_cmp (scast (ucast v :: u16) :: u32) (ucast (V d)))) \<and>
    generates {} t E l (jff_CMPA_w E d s l) True
      (compare_effect True (\<lambda>V. flag_cmp (scast (ucast (V s) :: u16) :: u32) (ucast (V d)))) \<and>
    generates {} t E l (jff_CMPA_l_imm E d v l) True
      (compare_effect True (\<lambda>V. flag_cmp (v :: u32) (ucast (V d)))) \<and>
    generates {} t E l (jff_CMPA_l E d s l) True
      (compare_effect True (\<lambda>V. flag_cmp (ucast (V s) :: u32) (ucast (V d))))"
  using assms by (intro conjI impI) (rule cmp_family_rules; simp)+

lemma cmp_family_witness:
  "generates {} 100 sample_env sample_state (jff_CMPA_l sample_env 0 1 sample_state) True
    (compare_effect True (\<lambda>V. flag_cmp (ucast (V 1) :: u32) (ucast (V 0))))"
  using cmp_family [OF sample_ready(1) sample_operands, where v = "0x85"] sample_not_const by simp

lemmas neg_family_rules = jnf_NEG_b_ok jff_NEG_b_ok jnf_NEG_w_ok jff_NEG_w_ok jnf_NEG_l_ok
  jff_NEG_l_ok

text \<open>C24: NEG. Every mid-level function of the family, for all operand sizes, immediate and register
  sources, with and without condition codes, emits code that computes zero minus the operand.\<close>

theorem neg_family:
  assumes "ready t E l" "operand d l" "operand s l"
  shows "generates {} t E l (jnf_NEG_b E d l) (l_flags_carry_inverted l)
      (plain_effect d (\<lambda>V. - (ucast (V d) :: u8))) \<and>
    generates {} t E l (jff_NEG_b E d l) True
      (arith_effect l True d (\<lambda>V. flag_sub (ucast (V d) :: u8) 0)) \<and>
    generates {} t E l (jnf_NEG_w E d l) (l_flags_carry_inverted l)
      (plain_effect d (\<lambda>V. - (ucast (V d) :: u16))) \<and>
    generates {} t E l (jff_NEG_w E d l) True
      (arith_effect l True d (\<lambda>V. flag_sub (ucast (V d) :: u16) 0)) \<and>
    generates {} t E l (jnf_NEG_l E d l) (l_flags_carry_inverted l)
      (plain_effect d (\<lambda>V. - (ucast (V d) :: u32))) \<and>
    generates {} t E l (jff_NEG_l E d l) True
      (arith_effect l True d (\<lambda>V. flag_sub (ucast (V d) :: u32) 0))"
  using assms by (intro conjI impI) (rule neg_family_rules; simp)+

lemma neg_family_witness:
  "generates {} 100 sample_env sample_state (jff_NEG_l sample_env 0 sample_state) True
    (arith_effect sample_state True 0 (\<lambda>V. flag_sub (ucast (V 0) :: u32) 0))"
  using neg_family [OF sample_ready(1) sample_operands] sample_not_const by simp

lemmas and_family_rules = jnf_AND_b_imm_ok jnf_AND_b_ok jff_AND_b_imm_ok jff_AND_b_ok
  jnf_AND_w_imm_ok jnf_AND_w_ok jff_AND_w_imm_ok jff_AND_w_ok jnf_AND_l_imm_ok jnf_AND_l_ok
  jff_AND_l_imm_ok jff_AND_l_ok

text \<open>C20: AND. Every mid-level function of the family, for all operand sizes, immediate and register
  sources, with and without condition codes, emits code that computes the bitwise conjunction.\<close>

theorem and_family:
  assumes "ready t E l" "operand d l" "operand s l"
  shows "generates {} t E l (jnf_AND_b_imm E d v l) (l_flags_carry_inverted l)
      (plain_effect d (\<lambda>V. ucast (V d) AND (ucast v :: u8))) \<and>
    generates {} t E l (jnf_AND_b E d s l) (l_flags_carry_inverted l)
      (plain_effect d (\<lambda>V. ucast (V d) AND (ucast (V s) :: u8))) \<and>
    generates {} t E l (jff_AND_b_imm E d v l) False
      (logic_effect False d (\<lambda>V. ucast (V d) AND (ucast v :: u8))) \<and>
    generates {} t E l (jff_AND_b E d s l) False
      (logic_effect False d (\<lambda>V. ucast (V d) AND (ucast (V s) :: u8))) \<and>
    generates {} t E l (jnf_AND_w_imm E d v l) (l_flags_carry_inverted l)
      (plain_effect d (\<lambda>V. ucast (V d) AND (ucast v :: u16))) \<and>
    generates {} t E l (jnf_AND_w E d s l) (l_flags_carry_inverted l)
      (plain_effect d (\<lambda>V. ucast (V d) AND (ucast (V s) :: u16))) \<and>
    generates {} t E l (jff_AND_w_imm E d v l) False
      (logic_effect False d (\<lambda>V. ucast (V d) AND (ucast v :: u16))) \<and>
    generates {} t E l (jff_AND_w E d s l) False
      (logic_effect False d (\<lambda>V. ucast (V d) AND (ucast (V s) :: u16))) \<and>
    generates {} t E l (jnf_AND_l_imm E d v l) (l_flags_carry_inverted l)
      (plain_effect d (\<lambda>V. ucast (V d) AND (ucast v :: u32))) \<and>
    generates {} t E l (jnf_AND_l E d s l) (l_flags_carry_inverted l)
      (plain_effect d (\<lambda>V. ucast (V d) AND (ucast (V s) :: u32))) \<and>
    generates {} t E l (jff_AND_l_imm E d v l) False
      (logic_effect False d (\<lambda>V. ucast (V d) AND (ucast v :: u32))) \<and>
    generates {} t E l (jff_AND_l E d s l) False
      (logic_effect False d (\<lambda>V. ucast (V d) AND (ucast (V s) :: u32)))"
  using assms by (intro conjI impI) (rule and_family_rules; simp)+

lemma and_family_witness:
  "generates {} 100 sample_env sample_state (jff_AND_l sample_env 0 1 sample_state) False
    (logic_effect False 0 (\<lambda>V. ucast (V 0) AND (ucast (V 1) :: u32)))"
  using and_family [OF sample_ready(1) sample_operands, where v = "0x85"] sample_not_const by simp

lemmas or_family_rules = jnf_OR_b_imm_ok jnf_OR_b_ok jff_OR_b_imm_ok jff_OR_b_ok jnf_OR_w_imm_ok
  jnf_OR_w_ok jff_OR_w_imm_ok jff_OR_w_ok jnf_OR_l_imm_ok jnf_OR_l_ok jff_OR_l_imm_ok jff_OR_l_ok

text \<open>C21: OR. Every mid-level function of the family, for all operand sizes, immediate and register
  sources, with and without condition codes, emits code that computes the bitwise disjunction.\<close>

theorem or_family:
  assumes "ready t E l" "operand d l" "operand s l"
  shows "generates {} t E l (jnf_OR_b_imm E d v l) (l_flags_carry_inverted l)
      (plain_effect d (\<lambda>V. ucast (V d) OR (ucast v :: u8))) \<and>
    generates {} t E l (jnf_OR_b E d s l) (l_flags_carry_inverted l)
      (plain_effect d (\<lambda>V. ucast (V d) OR (ucast (V s) :: u8))) \<and>
    generates {} t E l (jff_OR_b_imm E d v l) False
      (logic_effect False d (\<lambda>V. ucast (V d) OR (ucast v :: u8))) \<and>
    generates {} t E l (jff_OR_b E d s l) False
      (logic_effect False d (\<lambda>V. ucast (V d) OR (ucast (V s) :: u8))) \<and>
    generates {} t E l (jnf_OR_w_imm E d v l) (l_flags_carry_inverted l)
      (plain_effect d (\<lambda>V. ucast (V d) OR (ucast v :: u16))) \<and>
    generates {} t E l (jnf_OR_w E d s l) (l_flags_carry_inverted l)
      (plain_effect d (\<lambda>V. ucast (V d) OR (ucast (V s) :: u16))) \<and>
    generates {} t E l (jff_OR_w_imm E d v l) False
      (logic_effect False d (\<lambda>V. ucast (V d) OR (ucast v :: u16))) \<and>
    generates {} t E l (jff_OR_w E d s l) False
      (logic_effect False d (\<lambda>V. ucast (V d) OR (ucast (V s) :: u16))) \<and>
    generates {} t E l (jnf_OR_l_imm E d v l) (l_flags_carry_inverted l)
      (plain_effect d (\<lambda>V. ucast (V d) OR (ucast v :: u32))) \<and>
    generates {} t E l (jnf_OR_l E d s l) (l_flags_carry_inverted l)
      (plain_effect d (\<lambda>V. ucast (V d) OR (ucast (V s) :: u32))) \<and>
    generates {} t E l (jff_OR_l_imm E d v l) False
      (logic_effect False d (\<lambda>V. ucast (V d) OR (ucast v :: u32))) \<and>
    generates {} t E l (jff_OR_l E d s l) False
      (logic_effect False d (\<lambda>V. ucast (V d) OR (ucast (V s) :: u32)))"
  using assms by (intro conjI impI) (rule or_family_rules; simp)+

lemma or_family_witness:
  "generates {} 100 sample_env sample_state (jff_OR_l sample_env 0 1 sample_state) False
    (logic_effect False 0 (\<lambda>V. ucast (V 0) OR (ucast (V 1) :: u32)))"
  using or_family [OF sample_ready(1) sample_operands, where v = "0x85"] sample_not_const by simp

lemmas eor_family_rules = jnf_EOR_b_imm_ok jnf_EOR_b_ok jff_EOR_b_imm_ok jff_EOR_b_ok
  jnf_EOR_w_imm_ok jnf_EOR_w_ok jff_EOR_w_imm_ok jff_EOR_w_ok jnf_EOR_l_imm_ok jnf_EOR_l_ok
  jff_EOR_l_imm_ok jff_EOR_l_ok

text \<open>C22: EOR. Every mid-level function of the family, for all operand sizes, immediate and register
  sources, with and without condition codes, emits code that computes the bitwise exclusive
  disjunction.\<close>

theorem eor_family:
  assumes "ready t E l" "operand d l" "operand s l"
  shows "generates {} t E l (jnf_EOR_b_imm E d v l) (l_flags_carry_inverted l)
      (plain_effect d (\<lambda>V. ucast (V d) XOR (ucast v :: u8))) \<and>
    generates {} t E l (jnf_EOR_b E d s l) (l_flags_carry_inverted l)
      (plain_effect d (\<lambda>V. ucast (V d) XOR (ucast (V s) :: u8))) \<and>
    generates {} t E l (jff_EOR_b_imm E d v l) False
      (logic_effect False d (\<lambda>V. ucast (V d) XOR (ucast v :: u8))) \<and>
    generates {} t E l (jff_EOR_b E d s l) False
      (logic_effect False d (\<lambda>V. ucast (V d) XOR (ucast (V s) :: u8))) \<and>
    generates {} t E l (jnf_EOR_w_imm E d v l) (l_flags_carry_inverted l)
      (plain_effect d (\<lambda>V. ucast (V d) XOR (ucast v :: u16))) \<and>
    generates {} t E l (jnf_EOR_w E d s l) (l_flags_carry_inverted l)
      (plain_effect d (\<lambda>V. ucast (V d) XOR (ucast (V s) :: u16))) \<and>
    generates {} t E l (jff_EOR_w_imm E d v l) False
      (logic_effect False d (\<lambda>V. ucast (V d) XOR (ucast v :: u16))) \<and>
    generates {} t E l (jff_EOR_w E d s l) False
      (logic_effect False d (\<lambda>V. ucast (V d) XOR (ucast (V s) :: u16))) \<and>
    generates {} t E l (jnf_EOR_l_imm E d v l) (l_flags_carry_inverted l)
      (plain_effect d (\<lambda>V. ucast (V d) XOR (ucast v :: u32))) \<and>
    generates {} t E l (jnf_EOR_l E d s l) (l_flags_carry_inverted l)
      (plain_effect d (\<lambda>V. ucast (V d) XOR (ucast (V s) :: u32))) \<and>
    generates {} t E l (jff_EOR_l_imm E d v l) False
      (logic_effect False d (\<lambda>V. ucast (V d) XOR (ucast v :: u32))) \<and>
    generates {} t E l (jff_EOR_l E d s l) False
      (logic_effect False d (\<lambda>V. ucast (V d) XOR (ucast (V s) :: u32)))"
  using assms by (intro conjI impI) (rule eor_family_rules; simp)+

lemma eor_family_witness:
  "generates {} 100 sample_env sample_state (jff_EOR_l sample_env 0 1 sample_state) False
    (logic_effect False 0 (\<lambda>V. ucast (V 0) XOR (ucast (V 1) :: u32)))"
  using eor_family [OF sample_ready(1) sample_operands, where v = "0x85"] sample_not_const by simp

lemmas not_tst_family_rules = jnf_NOT_b_ok jff_NOT_b_ok jnf_NOT_w_ok jff_NOT_w_ok jnf_NOT_l_ok
  jff_NOT_l_ok jff_TST_b_imm_ok jff_TST_b_ok jff_TST_w_imm_ok jff_TST_w_ok jff_TST_l_imm_ok
  jff_TST_l_ok

text \<open>C23: NOT and TST. Every mid-level function of the family, for all operand sizes, immediate and
  register sources, with and without condition codes, emits code that computes the complement, and
  the condition codes of a value.\<close>

theorem not_tst_family:
  assumes "ready t E l" "operand d l" "operand s l"
  shows "generates {} t E l (jnf_NOT_b E d l) (l_flags_carry_inverted l)
      (plain_effect d (\<lambda>V. NOT (ucast (V d) :: u8))) \<and>
    generates {} t E l (jff_NOT_b E d l) False (logic_effect False d (\<lambda>V. NOT (ucast (V d) :: u8))) \<and>
    generates {} t E l (jnf_NOT_w E d l) (l_flags_carry_inverted l)
      (plain_effect d (\<lambda>V. NOT (ucast (V d) :: u16))) \<and>
    generates {} t E l (jff_NOT_w E d l) False (logic_effect False d (\<lambda>V. NOT (ucast (V d) :: u16))) \<and>
    generates {} t E l (jnf_NOT_l E d l) (l_flags_carry_inverted l)
      (plain_effect d (\<lambda>V. NOT (ucast (V d) :: u32))) \<and>
    generates {} t E l (jff_NOT_l E d l) False (logic_effect False d (\<lambda>V. NOT (ucast (V d) :: u32))) \<and>
    generates {} t E l (jff_TST_b_imm E v l) False
      (compare_effect False (\<lambda>V. flag_logical (ucast v :: u8))) \<and>
    generates {} t E l (jff_TST_b E s l) False
      (compare_effect False (\<lambda>V. flag_logical (ucast (V s) :: u8))) \<and>
    generates {} t E l (jff_TST_w_imm E v l) False
      (compare_effect False (\<lambda>V. flag_logical (ucast v :: u16))) \<and>
    generates {} t E l (jff_TST_w E s l) False
      (compare_effect False (\<lambda>V. flag_logical (ucast (V s) :: u16))) \<and>
    generates {} t E l (jff_TST_l_imm E v l) False
      (compare_effect False (\<lambda>V. flag_logical (ucast v :: u32))) \<and>
    generates {} t E l (jff_TST_l E s l) False
      (compare_effect False (\<lambda>V. flag_logical (ucast (V s) :: u32)))"
  using assms by (intro conjI impI) (rule not_tst_family_rules; simp)+

lemma not_tst_family_witness:
  "generates {} 100 sample_env sample_state (jff_TST_l sample_env 1 sample_state) False
    (compare_effect False (\<lambda>V. flag_logical (ucast (V 1) :: u32)))"
  using not_tst_family [OF sample_ready(1) sample_operands, where v = "0x85"] sample_not_const by simp

lemmas move_family_rules = jnf_MOVE_b_imm_ok jnf_MOVE_b_ok jnf_MOVE_w_imm_ok jnf_MOVE_w_ok
  jnf_MOVE_l_ok jnf_MOVEA_w_imm_ok jnf_MOVEA_w_ok jnf_MOVEA_l_ok jff_MOVE_b_imm_ok jff_MOVE_w_imm_ok
  jff_MOVE_l_imm_ok jff_MOVE_b_ok jff_MOVE_w_ok jff_MOVE_l_ok

text \<open>C25: MOVE and MOVEA. Every mid-level function of the family, for all operand sizes, immediate and
  register sources, with and without condition codes, emits code that computes the source in the
  destination's low part (MOVEA: sign-extended to the whole register).\<close>

theorem move_family:
  assumes "ready t E l" "operand d l" "operand s l"
  shows "generates {} t E l (jnf_MOVE_b_imm E d v l) (l_flags_carry_inverted l)
      (plain_effect d (\<lambda>V. ucast v :: u8)) \<and>
    generates {} t E l (jnf_MOVE_b E d s l) (l_flags_carry_inverted l)
      (plain_effect d (\<lambda>V. ucast (V s) :: u8)) \<and>
    generates {} t E l (jnf_MOVE_w_imm E d v l) (l_flags_carry_inverted l)
      (plain_effect d (\<lambda>V. ucast v :: u16)) \<and>
    generates {} t E l (jnf_MOVE_w E d s l) (l_flags_carry_inverted l)
      (plain_effect d (\<lambda>V. ucast (V s) :: u16)) \<and>
    generates {} t E l (jnf_MOVE_l E d s l) (l_flags_carry_inverted l)
      (plain_effect d (\<lambda>V. ucast (V s) :: u32)) \<and>
    generates {} t E l (jnf_MOVEA_w_imm E d v l) (l_flags_carry_inverted l)
      (plain_effect d (\<lambda>V. scast (ucast v :: u16) :: u32)) \<and>
    generates {} t E l (jnf_MOVEA_w E d s l) (l_flags_carry_inverted l)
      (plain_effect d (\<lambda>V. scast (ucast (V s) :: u16) :: u32)) \<and>
    generates {} t E l (jnf_MOVEA_l E d s l) (l_flags_carry_inverted l)
      (plain_effect d (\<lambda>V. ucast (V s) :: u32)) \<and>
    generates {} t E l (jff_MOVE_b_imm E d v l) False (logic_effect False d (\<lambda>V. ucast v :: u8)) \<and>
    generates {} t E l (jff_MOVE_w_imm E d v l) False (logic_effect False d (\<lambda>V. ucast v :: u16)) \<and>
    generates {} t E l (jff_MOVE_l_imm E d v l) False (logic_effect False d (\<lambda>V. v :: u32)) \<and>
    generates {} t E l (jff_MOVE_b E d s l) False (logic_effect False d (\<lambda>V. ucast (V s) :: u8)) \<and>
    generates {} t E l (jff_MOVE_w E d s l) False (logic_effect False d (\<lambda>V. ucast (V s) :: u16)) \<and>
    generates {} t E l (jff_MOVE_l E d s l) False (logic_effect False d (\<lambda>V. ucast (V s) :: u32))"
  using assms by (intro conjI impI) (rule move_family_rules; simp)+

lemma move_family_witness:
  "generates {} 100 sample_env sample_state (jff_MOVE_l sample_env 0 1 sample_state) False
    (logic_effect False 0 (\<lambda>V. ucast (V 1) :: u32))"
  using move_family [OF sample_ready(1) sample_operands, where v = "0x85"] sample_not_const by simp




lemmas bit_byte_family_rules = jff_BTST_b_imm_ok jff_BTST_b_ok jnf_BCHG_b_imm_ok jnf_BCHG_b_ok
  jff_BCHG_b_imm_ok jff_BCHG_b_ok jnf_BCLR_b_imm_ok jnf_BCLR_b_ok jff_BCLR_b_imm_ok jff_BCLR_b_ok
  jnf_BSET_b_imm_ok jnf_BSET_b_ok jff_BSET_b_imm_ok jff_BSET_b_ok

text \<open>C27: BTST, BCHG, BCLR and BSET on bytes. Every mid-level function of the family, for all operand
  sizes, immediate and register sources, with and without condition codes, emits code that
  computes the bit changed and Z set to its complement, the other condition codes kept; the source
  is not the destination, which is in memory.\<close>

theorem bit_byte_family:
  assumes "ready t E l" "operand d l" "operand s l" "s \<noteq> d"
  shows "generates {} t E l (jff_BTST_b_imm E d v l) (l_flags_carry_inverted l)
      (test_effect d (\<lambda>V. unat (take_bit 3 v))) \<and>
    generates {} t E l (jff_BTST_b E d s l) (l_flags_carry_inverted l)
      (test_effect d (\<lambda>V. unat (take_bit 3 (ucast (V s) :: u32)))) \<and>
    generates {} t E l (jnf_BCHG_b_imm E d v l) (l_flags_carry_inverted l)
      (plain_effect d (\<lambda>V. (ucast (V d) :: u8) XOR one_bit (unat (take_bit 3 v)))) \<and>
    generates {} t E l (jnf_BCHG_b E d s l) (l_flags_carry_inverted l)
      (plain_effect d (\<lambda>V. (ucast (V d) :: u8) XOR one_bit (unat (take_bit 3 (ucast (V s) :: u32))))) \<and>
    generates {} t E l (jff_BCHG_b_imm E d v l) (l_flags_carry_inverted l)
      (bit_effect d (\<lambda>V. (ucast (V d) :: u8) XOR one_bit (unat (take_bit 3 v))) (\<lambda>V. unat (take_bit 3 v))) \<and>
    generates {} t E l (jff_BCHG_b E d s l) (l_flags_carry_inverted l)
      (bit_effect d (\<lambda>V. (ucast (V d) :: u8) XOR one_bit (unat (take_bit 3 (ucast (V s) :: u32)))) (\<lambda>V. unat (take_bit 3 (ucast (V s) :: u32)))) \<and>
    generates {} t E l (jnf_BCLR_b_imm E d v l) (l_flags_carry_inverted l)
      (plain_effect d (\<lambda>V. (ucast (V d) :: u8) AND NOT (one_bit (unat (take_bit 3 v))))) \<and>
    generates {} t E l (jnf_BCLR_b E d s l) (l_flags_carry_inverted l)
      (plain_effect d (\<lambda>V. (ucast (V d) :: u8) AND NOT (one_bit (unat (take_bit 3 (ucast (V s) :: u32)))))) \<and>
    generates {} t E l (jff_BCLR_b_imm E d v l) (l_flags_carry_inverted l)
      (bit_effect d (\<lambda>V. (ucast (V d) :: u8) AND NOT (one_bit (unat (take_bit 3 v)))) (\<lambda>V. unat (take_bit 3 v))) \<and>
    generates {} t E l (jff_BCLR_b E d s l) (l_flags_carry_inverted l)
      (bit_effect d (\<lambda>V. (ucast (V d) :: u8) AND NOT (one_bit (unat (take_bit 3 (ucast (V s) :: u32))))) (\<lambda>V. unat (take_bit 3 (ucast (V s) :: u32)))) \<and>
    generates {} t E l (jnf_BSET_b_imm E d v l) (l_flags_carry_inverted l)
      (plain_effect d (\<lambda>V. (ucast (V d) :: u8) OR one_bit (unat (take_bit 3 v)))) \<and>
    generates {} t E l (jnf_BSET_b E d s l) (l_flags_carry_inverted l)
      (plain_effect d (\<lambda>V. (ucast (V d) :: u8) OR one_bit (unat (take_bit 3 (ucast (V s) :: u32))))) \<and>
    generates {} t E l (jff_BSET_b_imm E d v l) (l_flags_carry_inverted l)
      (bit_effect d (\<lambda>V. (ucast (V d) :: u8) OR one_bit (unat (take_bit 3 v))) (\<lambda>V. unat (take_bit 3 v))) \<and>
    generates {} t E l (jff_BSET_b E d s l) (l_flags_carry_inverted l)
      (bit_effect d (\<lambda>V. (ucast (V d) :: u8) OR one_bit (unat (take_bit 3 (ucast (V s) :: u32)))) (\<lambda>V. unat (take_bit 3 (ucast (V s) :: u32))))"
  using assms by (intro conjI impI) (rule bit_byte_family_rules; simp)+

lemma bit_byte_family_witness:
  "generates {} 100 sample_env sample_state (jff_BSET_b sample_env 0 1 sample_state) (l_flags_carry_inverted sample_state)
    (bit_effect 0 (\<lambda>V. (ucast (V 0) :: u8) OR one_bit (unat (take_bit 3 (ucast (V 1) :: u32)))) (\<lambda>V. unat (take_bit 3 (ucast (V 1) :: u32))))"
  using bit_byte_family [OF sample_ready(1) sample_operands one_neq_zero, where v = "0x85"] sample_not_const by simp

lemmas bit_long_family_rules = jff_BTST_l_imm_ok jff_BTST_l_ok jnf_BCHG_l_imm_ok jnf_BCHG_l_ok
  jff_BCHG_l_imm_ok jff_BCHG_l_ok jnf_BCLR_l_imm_ok jnf_BCLR_l_ok jff_BCLR_l_imm_ok jff_BCLR_l_ok
  jnf_BSET_l_imm_ok jnf_BSET_l_ok jff_BSET_l_imm_ok jff_BSET_l_ok

text \<open>C28: BTST, BCHG, BCLR and BSET on registers. Every mid-level function of the family, for all
  operand sizes, immediate and register sources, with and without condition codes, emits code that
  computes the bit changed and Z set to its complement, the other condition codes kept.\<close>

theorem bit_long_family:
  assumes "ready t E l" "operand d l" "operand s l"
  shows "generates {} t E l (jff_BTST_l_imm E d v l) (l_flags_carry_inverted l)
      (test_effect d (\<lambda>V. unat (take_bit 5 v))) \<and>
    generates {} t E l (jff_BTST_l E d s l) (l_flags_carry_inverted l)
      (test_effect d (\<lambda>V. unat (take_bit 5 (ucast (V s) :: u32)))) \<and>
    generates {} t E l (jnf_BCHG_l_imm E d v l) (l_flags_carry_inverted l)
      (plain_effect d (\<lambda>V. (ucast (V d) :: u32) XOR one_bit (unat (take_bit 5 v)))) \<and>
    generates {} t E l (jnf_BCHG_l E d s l) (l_flags_carry_inverted l)
      (plain_effect d (\<lambda>V. (ucast (V d) :: u32) XOR one_bit (unat (take_bit 5 (ucast (V s) :: u32))))) \<and>
    generates {} t E l (jff_BCHG_l_imm E d v l) (l_flags_carry_inverted l)
      (bit_effect d (\<lambda>V. (ucast (V d) :: u32) XOR one_bit (unat (take_bit 5 v))) (\<lambda>V. unat (take_bit 5 v))) \<and>
    generates {} t E l (jff_BCHG_l E d s l) (l_flags_carry_inverted l)
      (bit_effect d (\<lambda>V. (ucast (V d) :: u32) XOR one_bit (unat (take_bit 5 (ucast (V s) :: u32)))) (\<lambda>V. unat (take_bit 5 (ucast (V s) :: u32)))) \<and>
    generates {} t E l (jnf_BCLR_l_imm E d v l) (l_flags_carry_inverted l)
      (plain_effect d (\<lambda>V. (ucast (V d) :: u32) AND NOT (one_bit (unat (take_bit 5 v))))) \<and>
    generates {} t E l (jnf_BCLR_l E d s l) (l_flags_carry_inverted l)
      (plain_effect d (\<lambda>V. (ucast (V d) :: u32) AND NOT (one_bit (unat (take_bit 5 (ucast (V s) :: u32)))))) \<and>
    generates {} t E l (jff_BCLR_l_imm E d v l) (l_flags_carry_inverted l)
      (bit_effect d (\<lambda>V. (ucast (V d) :: u32) AND NOT (one_bit (unat (take_bit 5 v)))) (\<lambda>V. unat (take_bit 5 v))) \<and>
    generates {} t E l (jff_BCLR_l E d s l) (l_flags_carry_inverted l)
      (bit_effect d (\<lambda>V. (ucast (V d) :: u32) AND NOT (one_bit (unat (take_bit 5 (ucast (V s) :: u32))))) (\<lambda>V. unat (take_bit 5 (ucast (V s) :: u32)))) \<and>
    generates {} t E l (jnf_BSET_l_imm E d v l) (l_flags_carry_inverted l)
      (plain_effect d (\<lambda>V. (ucast (V d) :: u32) OR one_bit (unat (take_bit 5 v)))) \<and>
    generates {} t E l (jnf_BSET_l E d s l) (l_flags_carry_inverted l)
      (plain_effect d (\<lambda>V. (ucast (V d) :: u32) OR one_bit (unat (take_bit 5 (ucast (V s) :: u32))))) \<and>
    generates {} t E l (jff_BSET_l_imm E d v l) (l_flags_carry_inverted l)
      (bit_effect d (\<lambda>V. (ucast (V d) :: u32) OR one_bit (unat (take_bit 5 v))) (\<lambda>V. unat (take_bit 5 v))) \<and>
    generates {} t E l (jff_BSET_l E d s l) (l_flags_carry_inverted l)
      (bit_effect d (\<lambda>V. (ucast (V d) :: u32) OR one_bit (unat (take_bit 5 (ucast (V s) :: u32)))) (\<lambda>V. unat (take_bit 5 (ucast (V s) :: u32))))"
  using assms by (intro conjI impI) (rule bit_long_family_rules; simp)+

lemma bit_long_family_witness:
  "generates {} 100 sample_env sample_state (jff_BSET_l sample_env 0 1 sample_state) (l_flags_carry_inverted sample_state)
    (bit_effect 0 (\<lambda>V. (ucast (V 0) :: u32) OR one_bit (unat (take_bit 5 (ucast (V 1) :: u32)))) (\<lambda>V. unat (take_bit 5 (ucast (V 1) :: u32))))"
  using bit_long_family [OF sample_ready(1) sample_operands, where v = "0x85"] sample_not_const by simp

section \<open>The register allocator\<close>

text \<open>C15: Register access. While the use counter has room and two native registers are unlocked, an access
  to a virtual register never aborts: \<^verbatim>\<open>readreg\<close> and \<^verbatim>\<open>rmw\<close> (of a register with a value) and
  \<^verbatim>\<open>writereg\<close> return a native register that holds it, keep the tables consistent, and emit code
  that keeps the value of every virtual register (\<^verbatim>\<open>writereg\<close>: of every other one) and the
  contents of every locked native register; after \<^verbatim>\<open>rmw\<close> and \<^verbatim>\<open>writereg\<close> no other virtual
  register shares the native one.\<close>

theorem registers_acquired:
  assumes "env_ok E" "wf l" "r < VREGS" "touch_ok (3 + t) l" "avail (2 + k) l"
  shows "(status l r \<noteq> UNDEF \<longrightarrow> (\<exists>n l'. readreg E r l = Some (n, l') \<and> wf l' \<and> acquired r n l l' \<and>
      touch_ok (Suc t) l' \<and> (\<forall>K X. K \<subseteq> lockset l \<longrightarrow> pres K X E l l'))) \<and>
    (status l r \<noteq> UNDEF \<longrightarrow> (\<exists>n l'. rmw E r l = Some (n, l') \<and> wf l' \<and> acquired r n l l' \<and> owned r n l' \<and>
      touch_ok t l' \<and> (\<forall>K X. K \<subseteq> lockset l \<longrightarrow> pres K X E l l'))) \<and>
    (\<exists>n l'. writereg E r l = Some (n, l') \<and> wf l' \<and> acquired r n l l' \<and> owned r n l' \<and>
      touch_ok t l' \<and> (\<forall>K X. K \<subseteq> lockset l \<longrightarrow> r \<in> X \<longrightarrow> pres K X E l l'))"
proof (intro conjI impI)
  have a: "touch_ok (2 + Suc t) l" "avail (1 + Suc k) l" using assms(4,5) by (simp_all add: numeral_3_eq_3)
  show "\<exists>n l'. readreg E r l = Some (n, l') \<and> wf l' \<and> acquired r n l l' \<and> touch_ok (Suc t) l' \<and>
      (\<forall>K X. K \<subseteq> lockset l \<longrightarrow> pres K X E l l')" if "status l r \<noteq> UNDEF"
    using reading.acquire_ok [OF assms(1-3) that a] by simp
  show "\<exists>n l'. rmw E r l = Some (n, l') \<and> wf l' \<and> acquired r n l l' \<and> owned r n l' \<and> touch_ok t l' \<and>
      (\<forall>K X. K \<subseteq> lockset l \<longrightarrow> pres K X E l l')" if "status l r \<noteq> UNDEF"
    using updating.acquire_ok [OF assms(1-3) that assms(4,5)] by simp
  show "\<exists>n l'. writereg E r l = Some (n, l') \<and> wf l' \<and> acquired r n l l' \<and> owned r n l' \<and> touch_ok t l' \<and>
      (\<forall>K X. K \<subseteq> lockset l \<longrightarrow> r \<in> X \<longrightarrow> pres K X E l l')"
    using writing.acquire_ok [OF assms(1-3) TrueI assms(4,5)] by simp
qed

lemma sample_allocator: "env_ok sample_env" "wf sample_state" "touch_ok (3 + 100) sample_state" "avail (2 + 0) sample_state"
  using sample_ready(1) ready_writereg [OF sample_ready(1)] by (simp_all add: ready_def eval_nat_numeral)

lemma registers_acquired_witness:
  "\<exists>n l'. writereg sample_env 3 sample_state = Some (n, l') \<and> wf l' \<and> acquired 3 n sample_state l' \<and> owned 3 n l' \<and>
    (\<forall>K X. K \<subseteq> lockset sample_state \<longrightarrow> 3 \<in> X \<longrightarrow> pres K X sample_env sample_state l')"
  using registers_acquired [OF sample_allocator(1,2) _ sample_allocator(3,4), of 3] by (auto simp: jit_consts)

text \<open>C32: Eviction terminates. \<^verbatim>\<open>free_nreg\<close> on an unlocked native register runs its loop over all
  virtual registers the native one holds without reaching the abort after it: the register is empty
  afterwards, what it held is in memory, nothing else changes its place, and all values are kept.\<close>

theorem native_register_freed:
  assumes "env_ok E" "wf l" "n < N_REGS" "locked l n = 0"
  shows "\<exists>l'. free_nreg E n l = Some l' \<and> wf l' \<and> holds l' n = [] \<and> (\<forall>m. m \<noteq> n \<longrightarrow> holds l' m = holds l m) \<and>
    (\<forall>q. l_state l' q = l_state l q \<or> q \<in> set (holds l n) \<and> status l' q = INMEM) \<and> pres {} {} E l l'"
  using free_nreg_ok [OF assms] by (auto simp: freed_def)

lemma native_register_freed_witness:
  "\<exists>l'. free_nreg sample_env 17 sample_state = Some l' \<and> wf l' \<and> holds l' 17 = [] \<and> pres {} {} sample_env sample_state l'"
  using native_register_freed [OF sample_allocator(1,2), of 17] sample_ready(1)
  by (auto simp: ready_def N_REGS_def work_def)



section \<open>Moves and constants\<close>

text \<open>Constants. The sequences that materialise a constant leave exactly it in the register, whatever
  instructions they choose: a 32-bit one zero-extended, a 64-bit one whole, a 16-bit one zero- or
  sign-extended.\<close>

theorem constants_loaded:
  assumes "r \<noteq> 31"
  shows "exec (LOAD_U32 r v @ c) s = exec c (wrw r v s) \<and> exec (LOAD_U64 r w @ c) s = exec c (wrx r w s) \<and>
    exec (UNSIGNED16_IMM_2_REG r v @ c) s = exec c (wrw r (ucast (ucast v :: u16)) s) \<and>
    exec (SIGNED16_IMM_2_REG r v @ c) s = exec c (wrw r (scast (ucast v :: u16)) s)"
proof -
  have "(ucast (ucast v AND 0xFFFF :: u64) :: u32) = ucast (ucast v :: u16)" by (simp add: blast32)
  then have "exec (UNSIGNED16_IMM_2_REG r v @ c) s = exec c (wrw r (ucast (ucast v :: u16)) s)"
    using assms by (simp add: UNSIGNED16_IMM_2_REG_def a64_simps)
  then show ?thesis
    using exec_LOAD_U32 [OF assms] exec_LOAD_U64 [OF assms] exec_SIGNED16_IMM [OF assms] by (simp add: sext16_32_def)
qed

lemma constants_loaded_witness:
  "exec (LOAD_U64 2 0x123400000056) sample_machine = wrx 2 0x123400000056 sample_machine"
  using constants_loaded [of 2 0 "[]" sample_machine "0x123400000056"] by simp

text \<open>Register moves. \<^verbatim>\<open>mov_l_ri\<close> and \<^verbatim>\<open>mov_l_rr\<close> give the destination the value of the constant or of
  the source and leave every other register and the flags; a copy between registers shares the native
  register and emits a store only where the old value of the destination is still needed.\<close>

theorem moves_correct:
  assumes "ready t E l" "d < VREGS" "d \<noteq> PC_P" "operand s l"
  shows "generates {} t E l (mov_l_ri E d v l) (l_flags_carry_inverted l) (plain_effect d (\<lambda>V. ucast v :: u32)) \<and>
    generates {} t E l (mov_l_rr E d s l) (l_flags_carry_inverted l) (plain_effect d (\<lambda>V. ucast (V s) :: u32))"
proof
  show "generates {} t E l (mov_l_ri E d v l) (l_flags_carry_inverted l) (plain_effect d (\<lambda>V. ucast v :: u32))"
    unfolding mov_l_ri_def
    by (rule generates_mono [OF generates_le [OF set_const_ok [OF assms(1-3)]]]) (simp_all add: plain_effect_def writes_upd)
  show "generates {} t E l (mov_l_rr E d s l) (l_flags_carry_inverted l) (plain_effect d (\<lambda>V. ucast (V s) :: u32))"
    by (rule mov_l_rr_ok [OF assms])
qed

lemma moves_correct_witness:
  "generates {} 100 sample_env sample_state (mov_l_rr sample_env 0 1 sample_state) False (plain_effect 0 (\<lambda>V. ucast (V 1) :: u32))"
  using moves_correct [OF sample_ready(1) _ _ sample_operands(2), of 0 0] sample_state_flags by (simp add: jit_consts)

section \<open>The condition codes\<close>

text \<open>C35: Meaning of the flag statements. The interpreter's statements for C and V of additions,
  subtractions and comparisons are the carry out of the unsigned and the overflow of the signed
  operation, at every operand width.\<close>

theorem condition_codes_meaning:
  fixes a b :: "'a::len word"
  shows "flag_add a b = (b + a, sint (b + a) < 0, b + a = 0,
      sint b + sint a \<notin> {- (2 ^ (LENGTH('a) - 1))..<2 ^ (LENGTH('a) - 1)}, 2 ^ LENGTH('a) \<le> uint b + uint a) \<and>
    flag_sub a b = (b - a, sint (b - a) < 0, b - a = 0,
      sint b - sint a \<notin> {- (2 ^ (LENGTH('a) - 1))..<2 ^ (LENGTH('a) - 1)}, uint b < uint a) \<and>
    flag_cmp a b = snd (flag_sub a b)"
proof (intro conjI)
  let ?h = "2 ^ (LENGTH('a) - 1) :: int"
  have b: "- ?h \<le> sint a" "sint a < ?h" "- ?h \<le> sint b" "sint b < ?h" "(2::int) ^ LENGTH('a) = 2 * ?h"
    using sint_bounds [of a] sint_bounds [of b] double_half [where 'a = 'a] by simp_all
  have add: "sint (b + a) = (if sint b + sint a < - ?h then sint b + sint a + 2 * ?h
      else if ?h \<le> sint b + sint a then sint b + sint a - 2 * ?h else sint b + sint a)"
    using sint_wrap [of "sint b + sint a", where 'a = 'a] b by (simp add: wi_hom_add)
  have sub: "sint (b - a) = (if sint b - sint a < - ?h then sint b - sint a + 2 * ?h
      else if ?h \<le> sint b - sint a then sint b - sint a - 2 * ?h else sint b - sint a)"
    using sint_wrap [of "sint b - sint a", where 'a = 'a] b by (simp add: wi_hom_sub)
  show "flag_add a b = (b + a, sint (b + a) < 0, b + a = 0,
      sint b + sint a \<notin> {- ?h..<?h}, 2 ^ LENGTH('a) \<le> uint b + uint a)"
    using add b carry_of_add [of b a] by (auto simp: flag_add_def Let_def)
  show "flag_sub a b = (b - a, sint (b - a) < 0, b - a = 0, sint b - sint a \<notin> {- ?h..<?h}, uint b < uint a)"
    using sub b by (auto simp: flag_sub_def Let_def word_less_def)
  show "flag_cmp a b = snd (flag_sub a b)" by (simp add: flag_cmp_def flag_sub_def Let_def)
qed

text \<open>C19: Moving the condition codes. Making the flags live, writing them to \<^verbatim>\<open>regflags.nzcv\<close>,
  clobbering and saving them never aborts while one copy is valid, keeps every register, and keeps
  the condition codes the two copies stand for, the inverted carry of subtractions included.\<close>

theorem condition_codes_kept:
  assumes "ready (16 + t) E l" "tidy_flags l" "status l FLAGTMP \<noteq> UNDEF"
  shows "keeps_ccr t E l (make_flags_live E l) \<and> keeps_ccr t E l (flush_flags E l) \<and>
    keeps_ccr t E l (clobber_flags E l) \<and> keeps_ccr t E l (save_flags E l)"
proof -
  have r: "ready (8 + t) E l" using assms(1) by (auto simp: ready_def intro: touch_ok_le)
  show ?thesis
    using make_flags_live_keeps [OF r assms(2,3)] flags_to_stack_keeps [OF r assms(2)] clobber_flags_keeps [OF r assms(2)]
      save_flags_keeps [OF assms] by (simp add: make_flags_live_def flush_flags_def)
qed

lemma condition_codes_kept_witness: "keeps_ccr 84 sample_env sample_state (save_flags sample_env sample_state)"
  using condition_codes_kept [of 84 sample_env sample_state] sample_ready sample_state_flags by simp

lemma clobber_flags_defined:
  assumes "ready (8 + t) E l" "tidy_flags l" "clobber_flags E l = Some l'" "status l FLAGTMP \<noteq> UNDEF"
  shows "status l' FLAGTMP \<noteq> UNDEF"
proof -
  have "FLAGTMP < VREGS" by (simp add: jit_consts)
  with assms show ?thesis
    using flags_to_stack_defined [OF assms(1,2)] by (auto simp: clobber_flags_def split: bind_splits if_splits)
qed

lemma make_flags_live_plain:
  assumes "make_flags_live_internal E l = Some l'" "l_flags_in_flags l = TRASH"
  shows "l_flags_in_flags l' = VALID \<and> \<not> l_flags_carry_inverted l'"
  using assms by (auto simp: make_flags_live_internal_def set_carry_inverted_def split: bind_splits if_splits)

lemma clobber_flags_trash: "clobber_flags E l = Some l' \<Longrightarrow> l_flags_in_flags l' = TRASH"
  by (auto simp: clobber_flags_def split: bind_splits)

text \<open>Round trip of the condition codes. Host flags that are spilled to memory and made live again
  stand for the same N, Z, V and C, now with a plain carry.\<close>

theorem condition_codes_round_trip:
  assumes "ready (16 + t) E l" "tidy_flags l" "l_flags_in_flags l = VALID" "status l FLAGTMP \<noteq> UNDEF"
  shows "\<exists>l' c. do { l1 \<leftarrow> clobber_flags E l; make_flags_live_internal E l1 } = Some l' \<and> l_code l' = l_code l @ c \<and>
    (\<forall>s V. rep {} E l s V \<longrightarrow> ccr_rep l V (nzcv s) (ccr_of (l_flags_carry_inverted l) (nzcv s)) \<longrightarrow>
      ccr_of False (nzcv (exec c s)) = ccr_of (l_flags_carry_inverted l) (nzcv s))"
proof -
  have r: "ready (8 + (8 + t)) E l" using assms(1) by (auto simp: ready_def intro: touch_ok_le)
  have "keeps_ccr t E l (do { l1 \<leftarrow> clobber_flags E l; make_flags_live_internal E l1 })"
  proof (rule keeps_ccr_trans [OF clobber_flags_keeps [OF r assms(2)]])
    fix l1
    assume l1: "clobber_flags E l = Some l1" "ready (8 + t) E l1" "tidy_flags l1"
    show "keeps_ccr t E l1 (make_flags_live_internal E l1)"
      using make_flags_live_keeps [OF l1(2,3)] clobber_flags_defined [OF r assms(2) l1(1)] assms(4) by simp
  qed
  then obtain l' c where l': "do { l1 \<leftarrow> clobber_flags E l; make_flags_live_internal E l1 } = Some l'" "l_code l' = l_code l @ c"
    and s: "\<And>s V k. rep {} E l s V \<Longrightarrow> ccr_rep l V (nzcv s) k \<Longrightarrow> \<exists>V'. ccr_rep l' V' (nzcv (exec c s)) k"
    unfolding keeps_ccr_def by blast
  have "l_flags_in_flags l' = VALID" "\<not> l_flags_carry_inverted l'"
    using l'(1) make_flags_live_plain clobber_flags_trash by (auto split: bind_splits)
  then have "ccr_rep l' V' f k \<Longrightarrow> ccr_of False f = k" for V' f k by (simp add: ccr_rep_def)
  with l' s show ?thesis by blast
qed

lemma condition_codes_round_trip_witness:
  "\<exists>l'. do { l1 \<leftarrow> clobber_flags sample_env (live_flags sample_state); make_flags_live_internal sample_env l1 } = Some l'"
  using condition_codes_round_trip [of 84 sample_env "live_flags sample_state"] sample_ready sample_state_flags
  by (auto simp: live_flags_def tidy_flags_def)

section \<open>Blocks\<close>

text \<open>C34: A block starts in order. From any earlier allocator state \<^verbatim>\<open>init_comp\<close> returns a state
  in which the tables are consistent and a function can be compiled, every 68k register and X have a
  value, the condition codes are those of \<^verbatim>\<open>regflags.nzcv\<close>, and a machine that enters the block
  with the register file in memory is represented by it.\<close>

theorem block_starts:
  assumes "env_ok E" "\<forall>r<VREGS. rs_needflush (l_state l r) \<noteq> NF_HANDLER" "t < 1999999990"
  shows "\<exists>l'. init_comp E l = Some l' \<and> ready t E l' \<and> tidy_flags l' \<and> l_code l' = l_code l \<and>
    (\<forall>r<S1. r \<noteq> PC_P \<longrightarrow> operand r l') \<and>
    (\<forall>s. xr s R_REGSTRUCT = e_regs E \<longrightarrow> rep {} E l' s (entry_values E (l_comp_pc_p l) s) \<and>
      ccr_rep l' (entry_values E (l_comp_pc_p l) s) (nzcv s) (ccr_of False (word_flags (load_slot E FLAGTMP (amem s)))))"
proof -
  obtain l' where l': "init_comp E l = Some l'" "l_code l' = l_code l" using init_comp_state [of E l] by metis
  with init_comp_ready [OF assms(1) _ l'(1) assms(3)] init_comp_rep [OF l'(1)] assms(2) show ?thesis by blast
qed

lemma block_starts_witness: "\<exists>l'. init_comp sample_env sample_live = Some l' \<and> ready 100 sample_env l' \<and> operand 15 l'"
  using block_starts [OF sample_env_ok, of sample_live 100] by (force simp: sample_live_def jit_consts)

text \<open>C11: A block is translated correctly. Take any code generator that fulfils a contract (the
  functions of the families above, or a sequence of them), put between \<^verbatim>\<open>init_comp\<close> and
  \<^verbatim>\<open>flush (1)\<close>. The compilation of the whole returns, and its code, run on a machine with the
  register file in memory, writes back to memory the 68k registers and X and, in \<^verbatim>\<open>regflags.nzcv\<close>,
  the condition codes that the contract prescribes for the values the registers had on entry; it
  changes no other memory.\<close>

theorem block_correct:
  assumes "env_ok E" "\<forall>r<VREGS. rs_needflush (l_state l r) \<noteq> NF_HANDLER" "init_comp E l = Some l0" "t < 1999999000"
    "generates {} (24 + t) E l0 (body l0) b F" "xr s R_REGSTRUCT = e_regs E"
  shows "\<exists>l2 c V' f'. do { l1 \<leftarrow> body l0; flush E True (live_flags l1) } = Some l2 \<and> l_code l2 = l_code l @ c \<and>
    F (entry_values E (l_comp_pc_p l) s) (nzcv s) V' f' \<and>
    (\<forall>r<FLAGTMP. r \<noteq> PC_P \<longrightarrow> status l0 r \<noteq> UNDEF \<longrightarrow> load_slot E r (amem (exec c s)) = ucast (ucast (V' r) :: u32)) \<and>
    ccr_of False (word_flags (load_slot E FLAGTMP (amem (exec c s)))) = ccr_of b f' \<and>
    (\<forall>a. a \<notin> slots E \<longrightarrow> amem (exec c s) a = amem s a)"
proof -
  have nf: "\<And>r. r < VREGS \<Longrightarrow> rs_needflush (l_state l r) \<noteq> NF_HANDLER" using assms(2) by simp
  show ?thesis
    using block_frame [where body = body, OF assms(1) nf assms(3-6)] unfolding written_back_def outer_def by blast
qed

text \<open>The block of ADD.L D1,D0 on a machine with D0 = 0x7FFFFFFF and D1 = 1.\<close>

lemma block_correct_witness:
  "\<exists>l2 c. do { l1 \<leftarrow> jff_ADD_l sample_env 0 1 sample_state; flush sample_env True (live_flags l1) } = Some l2 \<and>
    l_code l2 = c \<and> load_slot sample_env 0 (amem (exec c sample_machine)) = 0x80000000 \<and>
    ccr_of False (word_flags (load_slot sample_env FLAGTMP (amem (exec c sample_machine)))) = (True, False, True, False)"
proof -
  have i: "init_comp sample_env sample_live = Some sample_state"
    using init_comp_state [of sample_env sample_live] by (metis option.sel sample_state_def)
  have g: "generates {} (24 + 76) sample_env sample_state (jff_ADD_l sample_env 0 1 sample_state) False
      (arith_effect sample_state False 0 (\<lambda>V. flag_add (ucast (V 1) :: u32) (ucast (V 0))))"
    using jff_ADD_l_ok [OF sample_ready(1) sample_operands] by simp
  have nf: "\<forall>r<VREGS. rs_needflush (l_state sample_live r) \<noteq> NF_HANDLER" by (simp add: sample_live_def)
  have rs: "xr sample_machine R_REGSTRUCT = e_regs sample_env" by (simp add: sample_machine_def sample_env_def field_def)
  let ?V = "entry_values sample_env (l_comp_pc_p sample_live) sample_machine"
  obtain l2 c V' f' where b: "do { l1 \<leftarrow> jff_ADD_l sample_env 0 1 sample_state; flush sample_env True (live_flags l1) } = Some l2"
    "l_code l2 = l_code sample_live @ c"
    "arith_effect sample_state False 0 (\<lambda>V. flag_add (ucast (V 1) :: u32) (ucast (V 0))) ?V (nzcv sample_machine) V' f'"
    "\<forall>r<FLAGTMP. r \<noteq> PC_P \<longrightarrow> status sample_state r \<noteq> UNDEF \<longrightarrow>
      load_slot sample_env r (amem (exec c sample_machine)) = ucast (ucast (V' r) :: u32)"
    "ccr_of False (word_flags (load_slot sample_env FLAGTMP (amem (exec c sample_machine)))) = ccr_of False f'"
    using block_correct [where body = "jff_ADD_l sample_env 0 1", OF sample_env_ok nf i _ g rs] by auto
  have sep01: "sep (field 1) 4 (field 0) 4" by (rule field_sep) simp_all
  have v: "(ucast (?V 0) :: u32) = 0x7FFFFFFF" "(ucast (?V 1) :: u32) = 1"
    using load_store_32_sep [of "field 1" "field 0"] sep01
    by (simp_all add: entry_values_def load_slot_def sample_machine_def sample_env_def jit_consts)
  have "ccr_of False f' = (True, False, True, False)" "(ucast (V' 0) :: u32) = 0x80000000"
    using b(3) v by (auto simp: arith_effect_def flag_add_def writes_def set_X_def jit_consts split: if_splits)
  then show ?thesis using b sample_operands(1) by (auto simp: sample_live_def operand_def jit_consts)
qed

text \<open>Scratch registers. \<^verbatim>\<open>alloc_scratch\<close> hands out one of S1 to S3 that was not in use and marks
  it; releasing it makes it undefined and free again.\<close>

theorem scratch_registers:
  assumes "ready t E l" "alloc_scratch l = Some (r, l1)"
  shows "S1 \<le> r \<and> r < VREGS \<and> \<not> l_scratch_in_use l (r - S1) \<and> l_scratch_in_use l1 (r - S1) \<and>
    (\<exists>l2. release_scratch E r l1 = Some l2 \<and> status l2 r = UNDEF \<and> \<not> l_scratch_in_use l2 (r - S1) \<and> wf l2)"
proof -
  obtain i where i: "i < SCRATCH_REGS" "\<not> l_scratch_in_use l i" "r = S1 + i" "l1 = l\<lparr>l_scratch_in_use := (l_scratch_in_use l)(i := True)\<rparr>"
    using assms(2) by (auto simp: alloc_scratch_def find_Some_iff split: option.splits)
  have r: "S1 \<le> r" "r < VREGS" "r - S1 = i" using i(1,3) by (simp_all add: jit_consts)
  have "ready t E l1" using assms(1) i(4) by (simp add: ready_def wf_def isinreg_def touch_ok_def)
  then obtain l2 where l2: "disassociate E r l1 = Some l2" "wf l2" "\<not> isinreg l2 r" "same_rest l1 l2"
    using disassociated [OF _ r(2)] by metis
  let ?l = "if isinreg l1 r then l2 else l1"
  have w: "wf ?l" "\<not> isinreg ?l r" using l2 \<open>ready t E l1\<close> by (auto simp: ready_def)
  let ?m = "set_status r UNDEF (upd_state r (\<lambda>x. x\<lparr>rs_val := 0\<rparr>) ?l)"
  have f: "forget_about E r l1 = Some ?m" using l2(1) by (simp add: forget_about_def)
  have "wf ?m" by (rule wf_cong [OF _ _ _ _ _ _ w(1)]) (use w(2) in \<open>auto simp: isinreg_def\<close>)
  then have "wf (?m\<lparr>l_scratch_in_use := x\<rparr>)" for x by (simp add: wf_def isinreg_def)
  then show ?thesis using i f r by (simp add: release_scratch_def)
qed

lemma scratch_registers_witness:
  "\<exists>r l1 l2. alloc_scratch sample_state = Some (r, l1) \<and> S1 \<le> r \<and> release_scratch sample_env r l1 = Some l2 \<and> status l2 r = UNDEF"
proof -
  obtain r l1 where a: "alloc_scratch sample_state = Some (r, l1)" using sample_scratch by auto
  from scratch_registers [OF sample_ready(1) a] a show ?thesis by blast
qed

section \<open>Two defects\<close>






end
