(* ===== verification/Jit_Jump.thy ===== *)
theory Jit_Jump
  imports Arm64
begin

unbundle bit_operations_syntax

text \<open>
  Patching a branch: \<^verbatim>\<open>write_jmp_target\<close> of compemu_midfunc_arm64.cpp on the instruction words that the
  branch macros of codegen_arm64.h encode, against the targets the architecture gives these words, and
  the choice of \<^verbatim>\<open>compemu_raw_jmp\<close> between a branch and a load of the target.
\<close>

section \<open>Operations\<close>

definition enc_B_i :: "u32 \<Rightarrow> u32" where
  "enc_B_i i = 0x14000000 OR (i AND 0x03ffffff)"


definition enc_CBZ_wi :: "u32 \<Rightarrow> u32 \<Rightarrow> u32" where
  "enc_CBZ_wi Wt i = 0x34000000 OR push_bit 5 (i AND 0x7ffff) OR Wt"

definition patch_branch :: "u64 \<Rightarrow> u64 \<Rightarrow> u32 \<Rightarrow> u32" where
  "patch_branch jmpaddr a insn =
    (let off = drop_bit 2 (a - jmpaddr)
     in if insn AND 0xfc000000 = 0x14000000
        then (insn AND 0xfc000000) OR ucast (off AND 0x3ffffff)
        else if insn AND 0x7c000000 = 0x34000000
        then (insn AND 0xfffc001f) OR ucast (push_bit 5 (off AND 0x3fff))
        else (insn AND 0xff00001f) OR ucast (push_bit 5 (off AND 0x7ffff)))"

definition jmp_direct :: "u64 \<Rightarrow> u64 \<Rightarrow> bool" where
  "jmp_direct t loc \<longleftrightarrow> loc - 127 * 1024 * 1024 < t \<and> t < loc + 127 * 1024 * 1024"

section \<open>Where a branch leads\<close>

text \<open>The kinds of branch with an immediate displacement, and their targets, as the architecture defines them.\<close>

datatype branch = Always | Conditional | Test_bit | Compare

definition branch_kind :: "u32 \<Rightarrow> branch option" where
  "branch_kind w =
    (if w AND 0xfc000000 = 0x14000000 then Some Always
     else if w AND 0xff000010 = 0x54000000 then Some Conditional
     else if w AND 0x7e000000 = 0x36000000 then Some Test_bit
     else if w AND 0x7e000000 = 0x34000000 then Some Compare else None)"

definition branch_disp :: "branch \<Rightarrow> u32 \<Rightarrow> u64" where
  "branch_disp k w = (case k of
     Always \<Rightarrow> push_bit 2 (scast (ucast w :: 26 word))
   | Conditional \<Rightarrow> push_bit 2 (scast (ucast (drop_bit 5 w) :: 19 word))
   | Test_bit \<Rightarrow> push_bit 2 (scast (ucast (drop_bit 5 w) :: 14 word))
   | Compare \<Rightarrow> push_bit 2 (scast (ucast (drop_bit 5 w) :: 19 word)))"

definition fits :: "nat \<Rightarrow> u64 \<Rightarrow> bool" where
  "fits n D \<longleftrightarrow> - (2 ^ n) \<le> sint D \<and> sint D < 2 ^ n"

text \<open>The distances that a word of a kind can be patched to: all that its field holds, for a
  comparing branch only forward ones of 13 bits, and from a word with an empty upper field.\<close>

definition in_reach :: "branch \<Rightarrow> u32 \<Rightarrow> u64 \<Rightarrow> bool" where
  "in_reach k w D \<longleftrightarrow> D AND 3 = 0 \<and> (case k of
     Always \<Rightarrow> fits 27 D
   | Conditional \<Rightarrow> fits 20 D
   | Test_bit \<Rightarrow> fits 15 D \<and> w AND 0x40000 = 0
   | Compare \<Rightarrow> D < 0x8000 \<and> w AND 0xfc0000 = 0)"

lemma aligned_bits: "(D :: u64) AND 3 = 0 \<Longrightarrow> n < 2 \<Longrightarrow> \<not> bit D n"
proof
  assume a: "D AND 3 = 0" "n < 2" "bit D n"
  have "bit (3 :: u64) n" using a(2) by (cases n) (auto simp: bit_simps less_2_cases_iff)
  then have "bit (D AND 3) n" using a(3) by (simp add: bit_and_iff)
  then show False using a(1) by simp
qed

lemma fits_bits:
  assumes "fits n D" "k < 64" "n < 64"
  shows "bit D k = bit D (min n k)"
proof -
  have s: "signed_take_bit n (sint D) = sint D" using assms(1) by (intro signed_take_bit_int_eq_self) (simp_all add: fits_def)
  have "bit (sint D) k = bit (sint D) (min n k)" using arg_cong [OF s, of "\<lambda>x. bit x k"] by (simp add: bit_signed_take_bit_iff)
  moreover have "bit (sint D) j = bit D j" if "j < 64" for j using that by (simp add: bit_sint_iff)
  ultimately show ?thesis using assms(2,3) by simp
qed

lemma scast_disp:
  assumes "fits (LENGTH('n) + 1) D" "D AND 3 = 0" "0 < LENGTH('n::len)" "LENGTH('n) + 2 \<le> 64"
  shows "push_bit 2 (scast (ucast (drop_bit 2 D) :: 'n word)) = (D :: u64)"
proof (rule bit_word_eqI)
  fix n assume n: "n < LENGTH(64)"
  have s: "bit D n = bit D (min (LENGTH('n) + 1) n)" by (rule fits_bits [OF assms(1)]) (use n assms(4) in simp_all)
  show "bit (push_bit 2 (scast (ucast (drop_bit 2 D) :: 'n word)) :: u64) n = bit D n"
  proof (cases "n < 2")
    case True
    then show ?thesis using aligned_bits [OF assms(2)] by (simp add: bit_push_bit_iff)
  next
    case False
    have n2: "n - 2 < 64" using n by simp
    let ?m = "min (LENGTH('n) - 1) (n - 2)"
    have "bit (push_bit 2 (scast (ucast (drop_bit 2 D) :: 'n word)) :: u64) n = bit (ucast (drop_bit 2 D) :: 'n word) ?m"
      using False n n2 by (simp add: bit_push_bit_iff bit_signed_iff)
    also have "\<dots> = bit D (2 + ?m)" by (simp add: bit_unsigned_iff bit_drop_bit_eq min.strict_coboundedI1)
    also have "2 + ?m = min (LENGTH('n) + 1) n" using False by (auto simp: min_def)
    finally show ?thesis using s by simp
  qed
qed

lemma masked_kind:
  assumes "branch_kind w = Some Conditional"
  shows "w AND 0xfc000000 \<noteq> 0x14000000" "w AND 0x7c000000 \<noteq> 0x34000000"
proof -
  have "w AND 0xff000010 = 0x54000000" using assms by (auto simp: branch_kind_def split: if_splits)
  then have "(w AND 0xff000010) AND 0x7c000000 = 0x54000000" by simp
  then have "w AND 0x7c000000 = 0x54000000" by (simp add: and.assoc)
  show "w AND 0xfc000000 \<noteq> 0x14000000" using assms by (auto simp: branch_kind_def split: if_splits)
  show "w AND 0x7c000000 \<noteq> 0x34000000" using \<open>w AND 0x7c000000 = 0x54000000\<close> by simp
qed

lemma ucast_masked: "(ucast (off AND ucast m) :: u32) = ucast (off :: u64) AND m"
  by (simp add: unsigned_and_eq)

lemma ucast_shifted: "(ucast (push_bit 5 x) :: u32) = push_bit 5 (ucast (x :: u64))"
  by (rule bit_word_eqI) (auto simp: bit_simps)

lemma ucast_via_u32:
  assumes "LENGTH('n::len) \<le> 32"
  shows "(ucast (ucast (x :: u64) :: u32) :: 'n word) = ucast x"
  by (rule bit_word_eqI) (use assms in \<open>auto simp: bit_simps\<close>)

lemma ucast_field:
  assumes "(x :: u32) AND mask LENGTH('n::len) = y AND mask LENGTH('n)"
  shows "(ucast x :: 'n word) = ucast y"
proof (rule bit_word_eqI)
  fix n assume "n < LENGTH('n)"
  then show "bit (ucast x :: 'n word) n = bit (ucast y :: 'n word) n"
    using arg_cong [OF assms, of "\<lambda>z. bit z n"] by (cases "n < 32") (auto simp: bit_simps bit_beyond_u32)
qed

lemma field_masks: "(mask 26 :: u32) = 0x3ffffff" "(mask 19 :: u32) = 0x7ffff" "(mask 14 :: u32) = 0x3fff"
  by (simp_all add: mask_eq_exp_minus_1)

lemma patch_always:
  fixes w :: u32
  shows "((w AND 0xfc000000) OR (v AND 0x3ffffff)) AND 0xfc000000 = w AND 0xfc000000"
    "(ucast ((w AND 0xfc000000) OR (v AND 0x3ffffff)) :: 26 word) = ucast v"
proof -
  show "((w AND 0xfc000000) OR (v AND 0x3ffffff)) AND 0xfc000000 = w AND 0xfc000000" by (simp add: blast32)
  show "(ucast ((w AND 0xfc000000) OR (v AND 0x3ffffff)) :: 26 word) = ucast v"
    by (rule ucast_field) (simp add: field_masks blast32)
qed

lemma patch_wide:
  fixes w :: u32
  shows "((w AND 0xff00001f) OR push_bit 5 (v AND 0x7ffff)) AND 0xff00001f = w AND 0xff00001f"
    "(ucast (drop_bit 5 ((w AND 0xff00001f) OR push_bit 5 (v AND 0x7ffff))) :: 19 word) = ucast v"
proof -
  show "((w AND 0xff00001f) OR push_bit 5 (v AND 0x7ffff)) AND 0xff00001f = w AND 0xff00001f" by (simp add: blast32)
  show "(ucast (drop_bit 5 ((w AND 0xff00001f) OR push_bit 5 (v AND 0x7ffff))) :: 19 word) = ucast v"
    by (rule ucast_field) (simp add: field_masks blast32)
qed

lemma patch_narrow:
  fixes w :: u32
  shows "((w AND 0xfffc001f) OR push_bit 5 (v AND 0x3fff)) AND 0xff00001f = w AND 0xff00001f"
    "w AND 0x40000 = 0 \<Longrightarrow> (ucast (drop_bit 5 ((w AND 0xfffc001f) OR push_bit 5 (v AND 0x3fff))) :: 14 word) = ucast v"
    "w AND 0xfc0000 = 0 \<Longrightarrow> drop_bit 13 v = 0 \<Longrightarrow>
       (ucast (drop_bit 5 ((w AND 0xfffc001f) OR push_bit 5 (v AND 0x3fff))) :: 19 word) = ucast v"
proof -
  show "((w AND 0xfffc001f) OR push_bit 5 (v AND 0x3fff)) AND 0xff00001f = w AND 0xff00001f" by (simp add: blast32)
  show "(ucast (drop_bit 5 ((w AND 0xfffc001f) OR push_bit 5 (v AND 0x3fff))) :: 14 word) = ucast v" if "w AND 0x40000 = 0"
    by (rule ucast_field) (use that in \<open>simp add: field_masks blast32\<close>)
  assume "w AND 0xfc0000 = 0" "drop_bit 13 v = 0"
  then show "(ucast (drop_bit 5 ((w AND 0xfffc001f) OR push_bit 5 (v AND 0x3fff))) :: 19 word) = ucast v"
    by (intro ucast_field) (simp add: field_masks blast32)
qed


lemma patch_branch_eq:
  fixes p a :: u64 and w :: u32
  defines "v \<equiv> ucast (drop_bit 2 (a - p)) :: u32"
  shows "branch_kind w = Some Always \<Longrightarrow> patch_branch p a w = (w AND 0xfc000000) OR (v AND 0x3ffffff)"
    "branch_kind w = Some Conditional \<Longrightarrow> patch_branch p a w = (w AND 0xff00001f) OR push_bit 5 (v AND 0x7ffff)"
    "branch_kind w \<in> {Some Test_bit, Some Compare} \<Longrightarrow> patch_branch p a w = (w AND 0xfffc001f) OR push_bit 5 (v AND 0x3fff)"
proof -
  show "patch_branch p a w = (w AND 0xfc000000) OR (v AND 0x3ffffff)" if "branch_kind w = Some Always"
  proof -
    have "w AND 0xfc000000 = 0x14000000" using that by (simp add: branch_kind_def split: if_splits)
    then show ?thesis by (simp add: patch_branch_def Let_def v_def unsigned_and_eq)
  qed
  show "patch_branch p a w = (w AND 0xff00001f) OR push_bit 5 (v AND 0x7ffff)" if "branch_kind w = Some Conditional"
    using masked_kind [OF that] by (simp add: patch_branch_def Let_def v_def unsigned_and_eq ucast_shifted)
  show "patch_branch p a w = (w AND 0xfffc001f) OR push_bit 5 (v AND 0x3fff)" if "branch_kind w \<in> {Some Test_bit, Some Compare}"
  proof -
    have k: "w AND 0xfc000000 \<noteq> 0x14000000" "w AND 0x7e000000 \<in> {0x36000000, 0x34000000}"
      using that by (auto simp: branch_kind_def split: if_splits)
    have "w AND 0x7c000000 = (w AND 0x7e000000) AND 0x7c000000" by (simp add: and.assoc)
    also have "\<dots> = 0x34000000" using k(2) by auto
    finally show ?thesis using k(1) by (simp add: patch_branch_def Let_def v_def unsigned_and_eq ucast_shifted)
  qed
qed


lemma small_disp: "D < 0x8000 \<Longrightarrow> 0 \<le> sint (D :: u64) \<and> sint D < 0x8000"
proof -
  assume "D < 0x8000"
  then have "0 \<le> uint D" "uint D < 0x8000" by (simp_all add: word_less_def)
  moreover from this have "signed_take_bit 63 (uint D) = uint D"
    by (intro signed_take_bit_int_eq_self) (rule order_trans [OF _ uint_ge_0], simp_all)
  ultimately show ?thesis by (simp add: sint_uint)
qed

lemma small_drop: "D < 0x8000 \<Longrightarrow> drop_bit 13 (ucast (drop_bit 2 (D :: u64)) :: u32) = 0"
proof (rule bit_word_eqI)
  fix k assume s: "D < 0x8000"
  then have "take_bit 15 (uint D) = uint D" by (intro take_bit_int_eq_self) (simp_all add: word_less_def)
  then have "take_bit 15 D = D" by (simp add: word_uint_eq_iff unsigned_take_bit_eq)
  then have "\<not> bit D j" if "15 \<le> j" for j using that bit_take_bit_iff [of 15 D j] by simp
  then show "bit (drop_bit 13 (ucast (drop_bit 2 D) :: u32)) k = bit 0 k" by (auto simp: bit_simps)
qed

lemma patch_reaches:
  assumes "branch_kind w = Some k" "in_reach k w (a - p)"
  shows "branch_disp k (patch_branch p a w) = a - p"
proof -
  define D where "D = a - p"
  define v where "v = (ucast (drop_bit 2 D) :: u32)"
  note e = patch_branch_eq [of w p a, folded D_def, folded v_def]
  have r: "in_reach k w D" using assms(2) by (simp add: D_def)
  then have al: "D AND 3 = 0" by (simp add: in_reach_def)
  have u: "(ucast v :: 26 word) = ucast (drop_bit 2 D)" "(ucast v :: 19 word) = ucast (drop_bit 2 D)"
    "(ucast v :: 14 word) = ucast (drop_bit 2 D)"
    by (simp_all add: v_def ucast_via_u32)
  have "branch_disp k (patch_branch p a w) = D"
  proof (cases k)
    case Always
    then have f: "fits (LENGTH(26) + 1) D" "patch_branch p a w = (w AND 0xfc000000) OR (v AND 0x3ffffff)"
      using r assms(1) e(1) by (simp_all add: in_reach_def)
    from scast_disp [OF f(1) al] show ?thesis unfolding branch_disp_def Always f(2) by (simp add: patch_always(2) u)
  next
    case Conditional
    then have f: "fits (LENGTH(19) + 1) D" "patch_branch p a w = (w AND 0xff00001f) OR push_bit 5 (v AND 0x7ffff)"
      using r assms(1) e(2) by (simp add: in_reach_def, blast)
    from scast_disp [OF f(1) al] show ?thesis unfolding branch_disp_def Conditional f(2) patch_wide(2) u by simp
  next
    case Test_bit
    then have f: "fits (LENGTH(14) + 1) D" "w AND 0x40000 = 0" using r by (simp_all add: in_reach_def)
    have "patch_branch p a w = (w AND 0xfffc001f) OR push_bit 5 (v AND 0x3fff)" using Test_bit e(3) assms(1) by blast
    with scast_disp [OF f(1) al] show ?thesis unfolding branch_disp_def Test_bit by (simp only: patch_narrow(2) [OF f(2)] u branch.case) simp
  next
    case Compare
    then have c: "D < 0x8000" "w AND 0xfc0000 = 0" using r by (simp_all add: in_reach_def)
    have f: "fits (LENGTH(19) + 1) D" using small_disp [OF c(1)] by (simp add: fits_def)
    have d: "drop_bit 13 v = 0" using small_drop [OF c(1)] by (simp only: v_def)
    have "patch_branch p a w = (w AND 0xfffc001f) OR push_bit 5 (v AND 0x3fff)" using Compare e(3) assms(1) by blast
    with scast_disp [OF f al] show ?thesis unfolding branch_disp_def Compare by (simp only: patch_narrow(3) [OF c(2) d] u branch.case) simp
  qed
  then show ?thesis by (simp add: D_def)
qed

lemma jmp_direct_fits:
  assumes "jmp_direct t loc"
  shows "fits 27 (t - loc)"
proof -
  have *: "\<bar>uint t - uint loc\<bar> < 2 ^ 27"
    using assms unfolding jmp_direct_def word_less_def uint_sub_if' uint_plus_if' by (auto split: if_splits)
  have "t - loc = word_of_int (uint t - uint loc)" by simp
  then have "sint (t - loc) = uint t - uint loc"
    by (simp only: sint_sbintrunc') (rule signed_take_bit_int_eq_self; use * in simp)
  with * show ?thesis by (auto simp: fits_def)
qed


lemma raw_jmp_reaches:
  assumes "jmp_direct t loc" "(t - loc) AND 3 = 0"
  shows "loc + branch_disp Always (patch_branch loc t (enc_B_i 0)) = t"
proof -
  have "branch_kind (enc_B_i 0) = Some Always" by (simp add: branch_kind_def enc_B_i_def)
  moreover have "in_reach Always (enc_B_i 0) (t - loc)" using jmp_direct_fits [OF assms(1)] assms(2) by (simp add: in_reach_def)
  ultimately show ?thesis using patch_reaches by simp
qed

section \<open>Properties\<close>



section \<open>Where the patch goes wrong\<close>

text \<open>
  The field of a comparing branch has 19 bits, but the patch writes 14 of them: a branch back by two
  instructions becomes one forward by nearly 64K, without the message that the branch is too long.
\<close>

lemma compare_branch_backwards:
  "branch_kind (enc_CBZ_wi 1 0) = Some Compare"
  "0x1000 + branch_disp Compare (patch_branch 0x1000 0xff8 (enc_CBZ_wi 1 0)) = 0x10ff8"
  by code_simp+

text \<open>
  The patch of a branch on a bit clears 13 of the 14 bits of the field: patched to a backward target first, it
  cannot be patched to a forward one.
\<close>

lemma test_branch_repatched:
  "branch_kind 0x36000001 = Some Test_bit"
  "0x1000 + branch_disp Test_bit (patch_branch 0x1000 0x1008 (patch_branch 0x1000 0xff8 0x36000001)) \<noteq> 0x1008"
  by code_simp+

end
