(* ===== verification/Jit_Program.thy ===== *)
theory Jit_Program
  imports Jit_Compile
begin

unbundle bit_operations_syntax

text \<open>
  What the block compiler does with the opcode tables of the program. The tables satisfy the contract
  of the locale \<open>translators\<close>, so that its lemmas hold of \<^verbatim>\<open>compile_block\<close> with them; the properties of this
  theory are those lemmas, stated over the tables that \<^verbatim>\<open>build_comp\<close> makes.
\<close>

section \<open>A program to start from\<close>




















section \<open>The opcode tables\<close>



section \<open>The live flags\<close>



section \<open>The loop over the instructions\<close>



section \<open>Whole blocks\<close>






section \<open>A defect\<close>



end
