(* ===== verification/Memory_Map.thy ===== *)
theory Memory_Map
  imports Membank
begin

unbundle bit_operations_syntax

text \<open>
  The bank table over the lifetime of an instance: which operations keep it well formed, that a
  descriptor is freed exactly once and never while a bank refers to it, and what a mapped region
  reads and writes. The operations are those of \<^verbatim>\<open>src/cpu/memory.c\<close>, modelled in
  Membank.
\<close>

section \<open>Frame lemmas\<close>

text \<open>\<open>jit_sync_baseaddr\<close> touches the host base table and the two JIT flags of a descriptor.\<close>

lemma jit_sync_frame [simp]:
  "m_mem_banks (jit_sync_baseaddr i m) = m_mem_banks m"
  "m_alive (jit_sync_baseaddr i m) = m_alive m"
  "m_next (jit_sync_baseaddr i m) = m_next m"
  "m_hmem (jit_sync_baseaddr i m) = m_hmem m"
  "m_host (jit_sync_baseaddr i m) = m_host m"
  "m_canbang (jit_sync_baseaddr i m) = m_canbang m"
  "m_natmem_offset (jit_sync_baseaddr i m) = m_natmem_offset m"
  by (simp_all add: jit_sync_baseaddr_def Let_def)

lemma jit_sync_desc [simp]:
  "b_handlers (m_banks (jit_sync_baseaddr i m) r) = b_handlers (m_banks m r)"
  "b_baseaddr (m_banks (jit_sync_baseaddr i m) r) = b_baseaddr (m_banks m r)"
  "b_start (m_banks (jit_sync_baseaddr i m) r) = b_start (m_banks m r)"
  "b_flags (m_banks (jit_sync_baseaddr i m) r) = b_flags (m_banks m r)"
  "b_host_flags (m_banks (jit_sync_baseaddr i m) r) = b_host_flags (m_banks m r)"
  "b_r8 (m_banks (jit_sync_baseaddr i m) r) = b_r8 (m_banks m r)"
  "b_r16 (m_banks (jit_sync_baseaddr i m) r) = b_r16 (m_banks m r)"
  "b_r32 (m_banks (jit_sync_baseaddr i m) r) = b_r32 (m_banks m r)"
  "b_w8 (m_banks (jit_sync_baseaddr i m) r) = b_w8 (m_banks m r)"
  "b_w16 (m_banks (jit_sync_baseaddr i m) r) = b_w16 (m_banks m r)"
  "b_w32 (m_banks (jit_sync_baseaddr i m) r) = b_w32 (m_banks m r)"
  by (simp_all add: jit_sync_baseaddr_def Let_def)

lemma set_bank_frame [simp]:
  "m_mem_banks (set_bank r i m) = (m_mem_banks m)(i := r)"
  "m_banks (set_bank r i m) = m_banks m"
  "m_alive (set_bank r i m) = m_alive m"
  "m_next (set_bank r i m) = m_next m"
  "m_hmem (set_bank r i m) = m_hmem m"
  "m_host (set_bank r i m) = m_host m"
  "m_canbang (set_bank r i m) = m_canbang m"
  "m_natmem_offset (set_bank r i m) = m_natmem_offset m"
  by (simp_all add: set_bank_def)

text \<open>
  The parts of the state that a step keeps, collected in one relation: the descriptors up to their
  JIT flags, the allocation state, host memory and the host's own state.
\<close>

definition same_core :: "'w mstate \<Rightarrow> 'w mstate \<Rightarrow> bool" where
  "same_core m m' \<longleftrightarrow> m_alive m' = m_alive m \<and> m_next m' = m_next m \<and> m_hmem m' = m_hmem m \<and>
     m_host m' = m_host m \<and> m_canbang m' = m_canbang m \<and> m_natmem_offset m' = m_natmem_offset m \<and>
     (\<forall>r. b_handlers (m_banks m' r) = b_handlers (m_banks m r) \<and>
          b_baseaddr (m_banks m' r) = b_baseaddr (m_banks m r) \<and>
          b_start (m_banks m' r) = b_start (m_banks m r) \<and>
          b_flags (m_banks m' r) = b_flags (m_banks m r) \<and>
          b_host_flags (m_banks m' r) = b_host_flags (m_banks m r))"

lemma same_core_refl [simp]: "same_core m m"
  by (simp add: same_core_def)

lemma same_core_trans: "same_core m1 m2 \<Longrightarrow> same_core m2 m3 \<Longrightarrow> same_core m1 m3"
  by (simp add: same_core_def)

lemma same_core_fold: "(\<And>x m. same_core m (f x m)) \<Longrightarrow> same_core m (fold f xs m)"
  by (induction xs arbitrary: m) (auto intro: same_core_trans)

lemma same_core_steps [simp]:
  "same_core m (jit_sync_baseaddr i m)"
  "same_core m (set_bank r i m)"
  "same_core m (map_banks_step r s i m)"
  "same_core m (map_ptr_step r fl s i m)"
  "same_core m (unmap_step s i m)"
  "same_core m (uninit_inner r i m)"
  by (simp_all add: same_core_def map_banks_step_def map_ptr_step_def unmap_step_def
      uninit_inner_def Let_def)

lemma same_core_sync_all [simp]: "same_core m (memory_jit_sync_all m)"
proof -
  have "same_core m (fold jit_sync_baseaddr [0..<MEMORY_BANKS] m)"
    by (intro same_core_fold) simp
  then show ?thesis by (simp add: memory_jit_sync_all_def Let_def same_core_def)
qed

lemma mem_banks_fold_sync [simp]: "m_mem_banks (fold jit_sync_baseaddr xs m) = m_mem_banks m"
  by (induction xs arbitrary: m) auto

lemma mem_banks_sync_all [simp]: "m_mem_banks (memory_jit_sync_all m) = m_mem_banks m"
  by (simp add: memory_jit_sync_all_def Let_def)

section \<open>What the loops write into the table\<close>

definition in_range :: "nat \<Rightarrow> nat \<Rightarrow> nat \<Rightarrow> bool" where
  "in_range s n i \<longleftrightarrow> (\<exists>k<n. i = (s + k) mod 65536)"

lemma in_range_0: "\<not> in_range s 0 i"
  by (simp add: in_range_def)

lemma in_range_Suc: "in_range s (Suc n) i \<longleftrightarrow> in_range s n i \<or> i = (s + n) mod 65536"
  by (auto simp: in_range_def less_Suc_eq)

lemma fold_table:
  assumes "\<And>k m. m_mem_banks (f k m) = (m_mem_banks m)((s + k) mod 65536 := r)"
  shows "m_mem_banks (fold f [0..<n] m) i = (if in_range s n i then r else m_mem_banks m i)"
  by (induction n) (simp_all add: assms in_range_Suc in_range_0)

lemma step_tables:
  "m_mem_banks (map_banks_step r s k m) = (m_mem_banks m)((s + k) mod 65536 := r)"
  "m_mem_banks (map_ptr_step r fl s k m) = (m_mem_banks m)((s + k) mod 65536 := r)"
  "m_mem_banks (unmap_step s k m) = (m_mem_banks m)((s + k) mod 65536 := Dummy_bank)"
  by (simp_all add: map_banks_step_def map_ptr_step_def unmap_step_def Let_def)

lemmas map_tables = fold_table [OF step_tables(1)] fold_table [OF step_tables(2)]
  fold_table [OF step_tables(3)]

section \<open>The table invariant\<close>

text \<open>
  Every bank refers to a static descriptor or to an allocated one; allocated descriptors are
  numbered below \<open>m_next\<close>; only RAM descriptors have a host pointer, and every referenced
  descriptor has its accessors.
\<close>

definition ref_ok :: "'w mstate \<Rightarrow> bankref \<Rightarrow> bool" where
  "ref_ok m r \<longleftrightarrow> (case r of Heap_bank n \<Rightarrow> m_alive m n | _ \<Rightarrow> True) \<and>
     b_handlers (m_banks m r) \<noteq> H_none \<and>
     (b_baseaddr (m_banks m r) \<noteq> 0 \<longrightarrow> b_handlers (m_banks m r) = H_ram)"

definition table_ok :: "'w mstate \<Rightarrow> bool" where
  "table_ok m \<longleftrightarrow> (\<forall>i<MEMORY_BANKS. ref_ok m (m_mem_banks m i)) \<and>
     (\<forall>n. m_alive m n \<longrightarrow> n < m_next m) \<and>
     ref_ok m Dummy_bank"

lemma ref_ok_core: "same_core m m' \<Longrightarrow> ref_ok m' r = ref_ok m r"
  by (auto simp: ref_ok_def same_core_def split: bankref.splits)

lemma table_ok_core:
  assumes "same_core m m'" "table_ok m"
    "\<And>i. i < MEMORY_BANKS \<Longrightarrow> m_mem_banks m' i = m_mem_banks m i \<or> ref_ok m (m_mem_banks m' i)"
  shows "table_ok m'"
proof -
  have "ref_ok m (m_mem_banks m' i)" if "i < MEMORY_BANKS" for i
    using that assms(2) assms(3) [of i] by (auto simp: table_ok_def)
  then show ?thesis
    using assms(1,2) by (simp add: table_ok_def ref_ok_core) (simp add: same_core_def)
qed


lemma bankindex_eq: "bankindex a = unat a div 65536"
proof -
  have "drop_bit 16 a AND 0xFFFF = drop_bit 16 a" by (simp add: blast32)
  then show ?thesis by (simp add: bankindex_def drop_bit_eq_div unat_div_distrib)
qed

lemma bankindex_less [simp]: "bankindex a < MEMORY_BANKS"
  using unsigned_less [where 'a=nat, of a] by (simp add: bankindex_eq MEMORY_BANKS_def less_mult_imp_div_less)

lemma table_ok_bank: "table_ok m \<Longrightarrow> ref_ok m (m_mem_banks m (bankindex a))"
  by (simp add: table_ok_def)

subsection \<open>Mapping\<close>

lemma alloc_bank_ok:
  assumes "table_ok m" "alloc_bank b m = (r, m1)"
    and "b_handlers b \<noteq> H_none" "b_baseaddr b \<noteq> 0 \<longrightarrow> b_handlers b = H_ram"
  shows "table_ok m1" "ref_ok m1 r" "r = Heap_bank (m_next m)" "m_banks m1 r = b"
    "m_mem_banks m1 = m_mem_banks m" "m_hmem m1 = m_hmem m"
proof -
  have r: "r = Heap_bank (m_next m)"
    and m1: "m1 = m\<lparr>m_banks := (m_banks m)(Heap_bank (m_next m) := b),
       m_alive := (m_alive m)(m_next m := True), m_next := m_next m + 1\<rparr>"
    using assms(2) by (auto simp: alloc_bank_def)
  have fresh: "s \<noteq> Heap_bank (m_next m)" if "ref_ok m s" for s
    using that assms(1) by (auto simp: ref_ok_def table_ok_def)
  then have old: "ref_ok m1 s" if "ref_ok m s" for s
    using that by (auto simp: ref_ok_def m1 split: bankref.splits)
  show "ref_ok m1 r" using assms(3,4) by (simp add: ref_ok_def r m1)
  show "table_ok m1" using assms(1) old by (auto simp: table_ok_def m1 less_Suc_eq split: if_splits)
  show "r = Heap_bank (m_next m)" "m_banks m1 r = b" "m_mem_banks m1 = m_mem_banks m" "m_hmem m1 = m_hmem m"
    by (simp_all add: r m1)
qed

lemma same_core_map:
  "same_core m (memory_jit_sync_all (fold (map_ptr_step r fl s) xs m))"
  "same_core m (memory_jit_sync_all (fold (map_banks_step r s) xs m))"
  "same_core m (fold (unmap_step s) xs m)"
  by (rule same_core_trans [OF same_core_fold same_core_sync_all] same_core_fold, simp)+

lemma table_ok_map:
  assumes "table_ok m" "ref_ok m r"
  shows "table_ok (memory_jit_sync_all (fold (map_ptr_step r fl s) [0..<n] m))"
    "table_ok (memory_jit_sync_all (fold (map_banks_step r s) [0..<n] m))"
  by (rule table_ok_core [OF same_core_map(1)] table_ok_core [OF same_core_map(2)];
      use assms in \<open>simp add: map_tables\<close>)+

lemma ptr_bank_simps [simp]:
  "b_handlers (ptr_bank st sz p fl) = H_ram" "b_baseaddr (ptr_bank st sz p fl) = p"
  "b_start (ptr_bank st sz p fl) = st"
  "b_host_flags (ptr_bank st sz p fl) = fl"
  by (simp_all add: ptr_bank_def)

lemma ptr_bank_rom: "b_flags (ptr_bank st sz p fl) AND ABFLAG_ROM \<noteq> 0 \<longleftrightarrow> fl AND UAE_MEM_ROM \<noteq> 0"
proof -
  have "(1 OR 2 OR x) AND 2 = (2 :: u32)" "(1 OR 0 OR 0) AND 2 = (0 :: u32)"
    "(1 OR 0 OR 0x10000) AND 2 = (0 :: u32)" for x
    by (simp_all add: blast32)
  then show ?thesis by (simp add: ptr_bank_def mem_consts)
qed

lemma memory_map_ptr_ok:
  assumes "table_ok m"
  shows "table_ok (snd (memory_map_ptr ok st sz p fl m))"
proof -
  obtain r m1 where a: "alloc_bank (ptr_bank st sz p fl) m = (r, m1)" by fastforce
  then have "table_ok m1" "ref_ok m1 r" using alloc_bank_ok(1,2) [OF assms a] by simp_all
  with a assms show ?thesis by (simp add: memory_map_ptr_def table_ok_map)
qed

lemma memory_map_custom_ok:
  assumes "table_ok m"
  shows "table_ok (snd (memory_map_custom ok st sz cbs m))"
proof (cases ok)
  case True
  define b where "b = empty_bank\<lparr>b_handlers := H_custom, b_start := st, b_flags := ABFLAG_IO,
      b_host_flags := UAE_MEM_IO, b_jit_read_flag := S_READ, b_jit_write_flag := S_WRITE,
      b_r8 := b_r8 cbs, b_r16 := b_r16 cbs, b_r32 := b_r32 cbs, b_w8 := b_w8 cbs,
      b_w16 := b_w16 cbs, b_w32 := b_w32 cbs\<rparr>"
  obtain r m1 where a: "alloc_bank b m = (r, m1)" by fastforce
  have "b_handlers b \<noteq> H_none" "b_baseaddr b \<noteq> 0 \<longrightarrow> b_handlers b = H_ram"
    by (simp_all add: b_def empty_bank_def)
  then have "table_ok m1" "ref_ok m1 r" using alloc_bank_ok(1,2) [OF assms a] by simp_all
  with a True show ?thesis
    by (simp add: memory_map_custom_def b_def [symmetric] Let_def table_ok_map)
qed (use assms in \<open>simp add: memory_map_custom_def\<close>)

subsection \<open>Unmapping\<close>

lemma is_heap_iff: "is_heap r \<longleftrightarrow> (\<exists>n. r = Heap_bank n)"
  by (cases r) (auto simp: is_heap_def)

lemma free_bank_ok:
  assumes "table_ok m" "m_alive m n" "\<And>i. i < MEMORY_BANKS \<Longrightarrow> m_mem_banks m i \<noteq> Heap_bank n"
  shows "table_ok (m\<lparr>m_alive := (m_alive m)(n := False)\<rparr>)"
  using assms by (auto simp: table_ok_def ref_ok_def split: bankref.splits)

lemma memory_unmap_ok:
  assumes ok: "table_ok m"
  shows "\<exists>m'. memory_unmap a sz m = Some m' \<and> table_ok m' \<and>
    (\<forall>i<MEMORY_BANKS. m_mem_banks m' i =
       (if in_range (bankindex a) (num_banks sz) i then Dummy_bank else m_mem_banks m i))"
proof -
  let ?sb = "bankindex a" and ?n = "num_banks sz"
  let ?m1 = "fold (unmap_step ?sb) [0..<?n] m"
  have t: "m_mem_banks ?m1 i = (if in_range ?sb ?n i then Dummy_bank else m_mem_banks m i)" for i
    by (simp add: map_tables)
  have ok1: "table_ok ?m1"
    by (rule table_ok_core [OF same_core_map(3) ok]) (use ok in \<open>simp add: t table_ok_def\<close>)
  have "\<exists>m2. (case if 0 < ?n \<and> is_heap (m_mem_banks m ?sb) then Some (m_mem_banks m ?sb) else None of
        Some r \<Rightarrow> if list_ex (\<lambda>i. m_mem_banks ?m1 i = r) [0..<MEMORY_BANKS] then Some ?m1
                  else free_bank r ?m1
      | None \<Rightarrow> Some ?m1) = Some m2 \<and> table_ok m2 \<and> m_mem_banks m2 = m_mem_banks ?m1"
  proof (cases "0 < ?n \<and> is_heap (m_mem_banks m ?sb)")
    case True
    then obtain n where n: "m_mem_banks m ?sb = Heap_bank n" by (auto simp: is_heap_iff)
    have "m_alive m n" using table_ok_bank [OF ok, of a] n by (simp add: ref_ok_def)
    then have al: "m_alive ?m1 n" using same_core_map(3) [of m] by (simp add: same_core_def)
    show ?thesis
      using True ok1 al n free_bank_ok [OF ok1 al]
      by (auto simp: free_bank_def list_ex_iff)
  qed (use ok1 in auto)
  then obtain m2 where m2: "(case if 0 < ?n \<and> is_heap (m_mem_banks m ?sb) then Some (m_mem_banks m ?sb) else None of
        Some r \<Rightarrow> if list_ex (\<lambda>i. m_mem_banks ?m1 i = r) [0..<MEMORY_BANKS] then Some ?m1
                  else free_bank r ?m1
      | None \<Rightarrow> Some ?m1) = Some m2" "table_ok m2" "m_mem_banks m2 = m_mem_banks ?m1" by blast
  have "table_ok (memory_jit_sync_all m2)"
    by (rule table_ok_core [OF same_core_sync_all m2(2)]) simp
  with m2 show ?thesis by (simp add: memory_unmap_def Let_def t)
qed

subsection \<open>Tearing down\<close>

lemma uninit_inner_table:
  "m_mem_banks (fold (uninit_inner r) js m) =
     (\<lambda>j. if j \<in> set js \<and> m_mem_banks m j = r then Dummy_bank else m_mem_banks m j)"
  by (induction js arbitrary: m) (auto simp: uninit_inner_def fun_eq_iff)

lemma same_core_inner: "same_core m (fold (uninit_inner r) js m)"
  by (rule same_core_fold) simp

lemma set_bank_alive: "set_bank r i (m\<lparr>m_alive := A\<rparr>) = (set_bank r i m)\<lparr>m_alive := A\<rparr>"
  by (cases m) (simp add: set_bank_def)

lemma uninit_step_ok:
  assumes ok: "table_ok m" and i: "i < MEMORY_BANKS" and low: "\<And>j. j < i \<Longrightarrow> m_mem_banks m j = Dummy_bank"
  shows "\<exists>m'. uninit_step i m = Some m' \<and> table_ok m' \<and>
    (\<forall>j<MEMORY_BANKS. m_mem_banks m' j =
       (if j = i \<or> m_mem_banks m j = m_mem_banks m i \<and> is_heap (m_mem_banks m i) then Dummy_bank
        else m_mem_banks m j)) \<and>
    (\<forall>n. m_alive m' n = (m_alive m n \<and> m_mem_banks m i \<noteq> Heap_bank n))"
proof (cases "is_heap (m_mem_banks m i)")
  case True
  then obtain n where n: "m_mem_banks m i = Heap_bank n" by (auto simp: is_heap_iff)
  let ?m1 = "fold (uninit_inner (Heap_bank n)) [Suc i..<MEMORY_BANKS] m"
  let ?m2 = "set_bank Dummy_bank i ?m1"
  let ?m3 = "?m2\<lparr>m_alive := (m_alive ?m2)(n := False)\<rparr>"
  have core: "same_core m ?m2"
    by (rule same_core_trans [OF same_core_inner same_core_steps(2)])
  have t2: "m_mem_banks ?m2 j = (if j = i \<or> m_mem_banks m j = Heap_bank n then Dummy_bank
      else m_mem_banks m j)" if "j < MEMORY_BANKS" for j
    using that low [of j] by (cases "j < i") (auto simp: uninit_inner_table)
  have ok2: "table_ok ?m2"
    by (rule table_ok_core [OF core ok]) (use ok in \<open>simp only: t2 table_ok_def; auto\<close>)
  have al: "m_alive m n" using ok i n by (auto simp: table_ok_def ref_ok_def dest!: spec [of _ i])
  have al2: "m_alive ?m2 = m_alive m" "m_alive ?m1 = m_alive m"
    using core same_core_inner [of m] by (simp_all add: same_core_def)
  have ok3: "table_ok ?m3"
    by (rule free_bank_ok [OF ok2]) (simp_all add: al2 al t2 del: set_bank_frame)
  have "table_ok (jit_sync_baseaddr i ?m3)"
    by (rule table_ok_core [OF _ ok3]) simp_all
  moreover have "uninit_step i m = Some (jit_sync_baseaddr i ?m3)"
    using n al al2 by (simp add: uninit_step_def is_heap_iff free_bank_def set_bank_alive Let_def)
  moreover have "m_mem_banks (jit_sync_baseaddr i ?m3) = m_mem_banks ?m2" by simp
  ultimately show ?thesis
    using t2 n al2 by (auto simp: is_heap_iff simp del: set_bank_frame)
next
  case False
  let ?m2 = "jit_sync_baseaddr i (set_bank Dummy_bank i m)"
  have "table_ok ?m2"
    by (rule table_ok_core [OF same_core_trans ok, of "set_bank Dummy_bank i m"])
      (use ok in \<open>auto simp: table_ok_def\<close>)
  with False show ?thesis by (auto simp: uninit_step_def is_heap_iff)
qed

lemma uninit_loop_ok:
  assumes "table_ok m" "i \<le> MEMORY_BANKS" "\<And>j. j < i \<Longrightarrow> m_mem_banks m j = Dummy_bank"
  shows "\<exists>m'. uninit_loop [i..<MEMORY_BANKS] m = Some m' \<and> table_ok m' \<and>
    (\<forall>j<MEMORY_BANKS. m_mem_banks m' j = Dummy_bank) \<and>
    (\<forall>n. m_alive m' n = (m_alive m n \<and> (\<forall>j<MEMORY_BANKS. m_mem_banks m j \<noteq> Heap_bank n)))"
  using assms
proof (induction "MEMORY_BANKS - i" arbitrary: i m)
  case 0
  then have "i = MEMORY_BANKS" by simp
  with 0 show ?case by auto
next
  case (Suc k)
  then have i: "i < MEMORY_BANKS" by simp
  obtain m1 where m1: "uninit_step i m = Some m1" "table_ok m1"
    "\<And>j. j < MEMORY_BANKS \<Longrightarrow> m_mem_banks m1 j =
       (if j = i \<or> m_mem_banks m j = m_mem_banks m i \<and> is_heap (m_mem_banks m i) then Dummy_bank
        else m_mem_banks m j)"
    "\<And>n. m_alive m1 n = (m_alive m n \<and> m_mem_banks m i \<noteq> Heap_bank n)"
    using uninit_step_ok [OF Suc.prems(1) i Suc.prems(3)] by blast
  have low: "m_mem_banks m1 j = Dummy_bank" if "j < Suc i" for j
    using that i m1(3) [of j] Suc.prems(3) [of j] by (cases "j = i") auto
  have "\<exists>m'. uninit_loop [Suc i..<MEMORY_BANKS] m1 = Some m' \<and> table_ok m' \<and>
    (\<forall>j<MEMORY_BANKS. m_mem_banks m' j = Dummy_bank) \<and>
    (\<forall>n. m_alive m' n = (m_alive m1 n \<and> (\<forall>j<MEMORY_BANKS. m_mem_banks m1 j \<noteq> Heap_bank n)))"
    by (rule Suc.hyps(1)) (use Suc.hyps(2) i m1(2) low in auto)
  moreover have "(m_alive m1 n \<and> (\<forall>j<MEMORY_BANKS. m_mem_banks m1 j \<noteq> Heap_bank n)) =
      (m_alive m n \<and> (\<forall>j<MEMORY_BANKS. m_mem_banks m j \<noteq> Heap_bank n))" for n
    using m1(3,4) i by (auto simp: is_heap_iff) metis
  ultimately show ?case using i m1(1) by (simp add: upt_conv_Cons)
qed


subsection \<open>Initial state and reachable states\<close>

lemma memory_init_fold:
  "m_mem_banks (fold memory_init_bank xs m) i = (if i \<in> set xs then Dummy_bank else m_mem_banks m i)"
  by (induction xs arbitrary: m) (auto simp: memory_init_bank_def Let_def)

lemma memory_init_table: "i < MEMORY_BANKS \<Longrightarrow> m_mem_banks (memory_init m) i = Dummy_bank"
  by (simp add: memory_init_def Let_def memory_init_fold)

lemma memory_init_fold_core: "same_core m (fold memory_init_bank xs m)"
  by (rule same_core_fold) (simp add: memory_init_bank_def same_core_def Let_def)

lemma memory_init_core:
  "m_alive (memory_init m) = m_alive m" "m_next (memory_init m) = m_next m"
  "m_canbang (memory_init m) = m_canbang m" "m_natmem_offset (memory_init m) = m_natmem_offset m"
  "b_handlers (m_banks (memory_init m) Dummy_bank) = H_dummy"
  "b_baseaddr (m_banks (memory_init m) Dummy_bank) = 0"
proof -
  obtain m1 where m1: "memory_init m = (fold memory_init_bank [0..<MEMORY_BANKS] m1)\<lparr>m_test_device := reset_test_device\<rparr>"
    "m_alive m1 = m_alive m" "m_next m1 = m_next m" "m_canbang m1 = m_canbang m"
    "m_natmem_offset m1 = m_natmem_offset m" "b_handlers (m_banks m1 Dummy_bank) = H_dummy"
    "b_baseaddr (m_banks m1 Dummy_bank) = 0"
    by (simp add: memory_init_def Let_def empty_bank_def)
  then show "m_alive (memory_init m) = m_alive m" "m_next (memory_init m) = m_next m"
  "m_canbang (memory_init m) = m_canbang m" "m_natmem_offset (memory_init m) = m_natmem_offset m"
    "b_handlers (m_banks (memory_init m) Dummy_bank) = H_dummy"
    "b_baseaddr (m_banks (memory_init m) Dummy_bank) = 0"
    using memory_init_fold_core [of m1 "[0..<MEMORY_BANKS]"] by (simp_all add: same_core_def)
qed

lemma memory_init_ok: "(\<And>n. m_alive m n \<Longrightarrow> n < m_next m) \<Longrightarrow> table_ok (memory_init m)"
  by (auto simp: table_ok_def ref_ok_def memory_init_table memory_init_core split: bankref.splits)

text \<open>
  The operations a host performs on the bank table, in any order; CPU accesses in between are
  covered by the last rule, which lets everything but the table and the descriptors change.
\<close>

inductive mem_reachable :: "'w mstate \<Rightarrow> bool" where
  init: "(\<And>n. \<not> m_alive m n) \<Longrightarrow> mem_reachable (memory_init m)"
| map_ptr: "mem_reachable m \<Longrightarrow> mem_reachable (snd (memory_map_ptr ok st sz p fl m))"
| map_custom: "mem_reachable m \<Longrightarrow> mem_reachable (snd (memory_map_custom ok st sz cbs m))"
| unmap: "mem_reachable m \<Longrightarrow> memory_unmap st sz m = Some m' \<Longrightarrow> mem_reachable m'"
| uninit: "mem_reachable m \<Longrightarrow> memory_uninit m = Some m' \<Longrightarrow> mem_reachable m'"
| write8: "mem_reachable m \<Longrightarrow> put_byte cb a v m = Some m' \<Longrightarrow> mem_reachable m'"
| write16: "mem_reachable m \<Longrightarrow> put_word cb a v m = Some m' \<Longrightarrow> mem_reachable m'"
| write32: "mem_reachable m \<Longrightarrow> put_long cb a v m = Some m' \<Longrightarrow> mem_reachable m'"

lemma memory_uninit_ok:
  "table_ok m \<Longrightarrow> \<exists>m'. memory_uninit m = Some m' \<and> table_ok m' \<and>
    (\<forall>j<MEMORY_BANKS. m_mem_banks m' j = Dummy_bank) \<and>
    (\<forall>n. m_alive m' n = (m_alive m n \<and> (\<forall>j<MEMORY_BANKS. m_mem_banks m j \<noteq> Heap_bank n)))"
  unfolding memory_uninit_def by (rule uninit_loop_ok) simp_all

lemmas write_handler_defs = dummy_bput_def dummy_wput_def dummy_lput_def musashi_bput_def
  musashi_wput_def musashi_lput_def ram_bput_def ram_wput_def ram_lput_def custom_bput_def
  custom_wput_def custom_lput_def testdev_put_def handle_test_device_write_def

lemma put_tables:
  "put_byte cb a v m = Some m' \<Longrightarrow> m_mem_banks m' = m_mem_banks m \<and> m_banks m' = m_banks m \<and>
     m_alive m' = m_alive m \<and> m_next m' = m_next m"
  "put_word cb a v m = Some m' \<Longrightarrow> m_mem_banks m' = m_mem_banks m \<and> m_banks m' = m_banks m \<and>
     m_alive m' = m_alive m \<and> m_next m' = m_next m"
  "put_long cb a v m = Some m' \<Longrightarrow> m_mem_banks m' = m_mem_banks m \<and> m_banks m' = m_banks m \<and>
     m_alive m' = m_alive m \<and> m_next m' = m_next m"
  by (auto simp: put_byte_def put_word_def put_long_def write_handler_defs Let_def
      split: handlers.splits option.splits if_splits)

lemma table_ok_frame:
  "m_mem_banks m' = m_mem_banks m \<and> m_banks m' = m_banks m \<and> m_alive m' = m_alive m \<and>
     m_next m' = m_next m \<Longrightarrow> table_ok m \<Longrightarrow> table_ok m'"
  by (simp add: table_ok_def ref_ok_def cong: bankref.case_cong)

lemma mem_reachable_table_ok: "mem_reachable m \<Longrightarrow> table_ok m"
proof (induction rule: mem_reachable.induct)
  case (unmap m st sz m')
  then show ?case using memory_unmap_ok [of m st sz] by auto
next
  case (uninit m m')
  then show ?case using memory_uninit_ok [of m] by auto
qed (auto intro: memory_init_ok memory_map_ptr_ok memory_map_custom_ok table_ok_frame dest: put_tables)


section \<open>Mapped regions\<close>

lemma num_banks_eq: "unat sz \<le> 0xFFFF0000 \<Longrightarrow> num_banks sz = (unat sz + 0xFFFF) div 65536"
  by (simp add: num_banks_def drop_bit_eq_div unat_div_distrib unat_word_ariths)

lemma num_banks_wraps: "0xFFFF0000 < unat sz \<Longrightarrow> num_banks sz = 0"
  using unsigned_less [where 'a=nat, of sz]
  by (simp add: num_banks_def drop_bit_eq_div unat_div_distrib unat_word_ariths mod_if)

lemma bankindex_region:
  assumes "unat st mod 65536 = 0" "unat st + k < 2 ^ 32"
  shows "bankindex (st + of_nat k) = bankindex st + k div 65536"
  using assms by (simp add: bankindex_eq unat_plus_of_nat) (metis div_plus_div_distrib_dvd_left dvd_eq_mod_eq_0)

lemma in_range_region:
  assumes "unat st mod 65536 = 0" "unat sz \<le> 0xFFFF0000" "unat st + unat sz \<le> 2 ^ 32" "k < unat sz"
  shows "in_range (bankindex st) (num_banks sz) (bankindex (st + of_nat k))"
proof -
  have "bankindex (st + of_nat k) = bankindex st + k div 65536"
    using assms by (intro bankindex_region) auto
  moreover have "k div 65536 < num_banks sz"
    using assms by (simp add: num_banks_eq)
  moreover have "bankindex (st + of_nat k) mod 65536 = bankindex (st + of_nat k)"
    using bankindex_less by (simp add: MEMORY_BANKS_def)
  ultimately show ?thesis unfolding in_range_def by metis
qed

lemma map_ptr_bank:
  assumes "in_range (bankindex st) (num_banks sz) (bankindex a)"
    and m': "snd (memory_map_ptr True st sz p fl m) = m'"
  shows "m_mem_banks m' (bankindex a) = Heap_bank (m_next m)"
    "b_handlers (get_mem_bank m' a) = H_ram" "b_start (get_mem_bank m' a) = st"
    "b_baseaddr (get_mem_bank m' a) = p" "b_flags (get_mem_bank m' a) = b_flags (ptr_bank st sz p fl :: 'w addrbank)"
    "b_host_flags (get_mem_bank m' a) = fl"
    "m_hmem m' = m_hmem (m :: 'w mstate)"
    "m_canbang m' = m_canbang m" "m_natmem_offset m' = m_natmem_offset m"
proof -
  obtain r m1 where a: "alloc_bank (ptr_bank st sz p fl) m = (r, m1)" by fastforce
  then have r: "r = Heap_bank (m_next m)" "m_banks m1 r = ptr_bank st sz p fl" "m_hmem m1 = m_hmem m"
    "m_canbang m1 = m_canbang m" "m_natmem_offset m1 = m_natmem_offset m"
    by (auto simp: alloc_bank_def)
  let ?m2 = "fold (map_ptr_step r fl (bankindex st)) [0..<num_banks sz] m1"
  have m2: "m' = memory_jit_sync_all ?m2" using m' a by (simp add: memory_map_ptr_def)
  have core: "same_core m1 m'" unfolding m2 by (rule same_core_map)
  show t: "m_mem_banks m' (bankindex a) = Heap_bank (m_next m)"
    using assms(1) r(1) by (simp add: m2 map_tables)
  have g: "get_mem_bank m' a = m_banks m' r" by (simp add: get_mem_bank_def t r)
  show "b_handlers (get_mem_bank m' a) = H_ram" "b_start (get_mem_bank m' a) = st"
    "b_baseaddr (get_mem_bank m' a) = p" "b_host_flags (get_mem_bank m' a) = fl"
    "b_flags (get_mem_bank m' a) = b_flags (ptr_bank st sz p fl :: 'w addrbank)"
    "m_hmem m' = m_hmem m" "m_canbang m' = m_canbang m" "m_natmem_offset m' = m_natmem_offset m"
    using core r(2-) by (simp_all add: g same_core_def)
qed


section \<open>Direct access by translated code\<close>










section \<open>Properties of the memory subsystem\<close>

text \<open>A concrete instance for the examples: a host process with nothing mapped.\<close>

definition blank_mstate :: "'w \<Rightarrow> 'w mstate" where
  "blank_mstate w = \<lparr>m_mem_banks = (\<lambda>_. Dummy_bank), m_banks = (\<lambda>_. empty_bank), m_alive = (\<lambda>_. False),
     m_next = 0, m_hmem = (\<lambda>_. 0), m_ce_cachable = (\<lambda>_. 0), m_ce_banktype = (\<lambda>_. 0),
     m_baseaddr = (\<lambda>_. 0), m_bank_ptr = (\<lambda>_. 0), m_canbang = True, m_natmem_offset = 0x100000000,
     m_jit_n_addr_bank_unsafe = False, m_special_mem = 0, m_test_device = reset_test_device,
     m_pending_irq_level = 0, m_console = [], m_musashi_mode = False, m_unmapped_bus_error = False,
     m_bus_error_unwinds = True, m_host = w\<rparr>"

lemma blank_reachable: "mem_reachable (memory_init (blank_mstate ()))"
  by (rule mem_reachable.init) (simp add: blank_mstate_def)



text \<open>
  Writes to a region mapped as ROM are dropped: byte, word and long stores succeed and leave
  the whole state as it was.
\<close>

theorem rom_writes_dropped:
  assumes "unat st mod 65536 = 0" "unat sz \<le> 0xFFFF0000" "unat st + unat sz \<le> 2 ^ 32"
    and "fl AND UAE_MEM_ROM \<noteq> 0" and "k < unat sz"
    and "m' = snd (memory_map_ptr True st sz p fl m)"
  shows "put_byte cb (st + of_nat k) v m' = Some m' \<and> put_word cb (st + of_nat k) v m' = Some m' \<and>
    put_long cb (st + of_nat k) v m' = Some m'"
proof -
  note b = map_ptr_bank [OF in_range_region [OF assms(1-3,5)] assms(6) [symmetric]]
  have "bank_is_rom m' (st + of_nat k)"
    using b(5) assms(4) ptr_bank_rom [of st sz p fl] by (auto simp: bank_is_rom_def)
  then show ?thesis
    by (simp add: put_byte_def put_word_def put_long_def b(2) ram_bput_def ram_wput_def
        ram_lput_def Let_def)
qed

theorem rom_writes_dropped_witness:
  "put_byte (undefined :: unit musashi_callbacks) (0xF80000 + of_nat 7) 1
     (snd (memory_map_ptr True 0xF80000 0x80000 0x7000 UAE_MEM_ROM (blank_mstate ()))) =
   Some (snd (memory_map_ptr True 0xF80000 0x80000 0x7000 UAE_MEM_ROM (blank_mstate ())))"
  by (rule rom_writes_dropped [THEN conjunct1]) (simp_all add: mem_consts)

text \<open>
  C17. In every state a host can reach by mapping, unmapping, tearing down and writing memory, no
  bank refers to a freed descriptor, and \<open>memory_unmap\<close> with any arguments neither frees a
  descriptor twice nor leaves a dangling reference: it succeeds, the banks of the range become the
  unmapped bank, all others keep their descriptor, and the table is again well formed.
\<close>

theorem memory_unmap_safe:
  assumes "mem_reachable m"
  shows "table_ok m \<and> (\<exists>m'. memory_unmap a sz m = Some m' \<and> table_ok m' \<and>
    (\<forall>i<MEMORY_BANKS. m_mem_banks m' i =
       (if in_range (bankindex a) (num_banks sz) i then Dummy_bank else m_mem_banks m i)))"
  using mem_reachable_table_ok [OF assms] memory_unmap_ok by blast

theorem memory_unmap_safe_witness:
  "\<exists>m'. memory_unmap 0x10000 0x10000
     (snd (memory_map_ptr True 0x10000 0x20000 0x7000 0 (memory_init (blank_mstate ())))) = Some m'"
  using memory_unmap_safe [OF mem_reachable.map_ptr [OF blank_reachable]] by blast

text \<open>
  \<open>memory_uninit\<close> frees every descriptor that a bank refers to, each exactly once (a
  second \<^verbatim>\<open>free\<close> would be \<open>None\<close>), leaves every bank unmapped and keeps exactly the
  descriptors that no bank referred to.
\<close>

theorem memory_uninit_frees:
  assumes "mem_reachable m"
  shows "\<exists>m'. memory_uninit m = Some m' \<and> (\<forall>j<MEMORY_BANKS. m_mem_banks m' j = Dummy_bank) \<and>
    (\<forall>n. m_alive m' n = (m_alive m n \<and> (\<forall>j<MEMORY_BANKS. m_mem_banks m j \<noteq> Heap_bank n)))"
  using memory_uninit_ok [OF mem_reachable_table_ok [OF assms]] by blast

theorem memory_uninit_frees_witness:
  "\<exists>m'. memory_uninit (snd (memory_map_ptr True 0x10000 0x20000 0x7000 0 (memory_init (blank_mstate ())))) = Some m'"
  using memory_uninit_frees [OF mem_reachable.map_ptr [OF blank_reachable]] by blast





text \<open>
  A custom device that provides only byte callbacks is accessed, for a long, exactly as the
  four byte accesses of its addresses in ascending order: the value is their big-endian
  composition and the device sees the same sequence of calls; so is a long write.
\<close>

theorem custom_long_is_bytes:
  assumes "b_handlers (get_mem_bank m a) = H_custom" "b_r32 (get_mem_bank m a) = None"
    "b_r16 (get_mem_bank m a) = None" "b_w32 (get_mem_bank m a) = None" "b_w16 (get_mem_bank m a) = None"
    and "\<And>k. k < 4 \<Longrightarrow> bankindex (a + of_nat k) = bankindex a"
  shows "get_long cb a m = do { (b0, m0) \<leftarrow> get_byte cb a m; (b1, m1) \<leftarrow> get_byte cb (a + 1) m0;
      (b2, m2) \<leftarrow> get_byte cb (a + 2) m1; (b3, m3) \<leftarrow> get_byte cb (a + 3) m2;
      Some (push_bit 24 b0 OR push_bit 16 b1 OR push_bit 8 b2 OR b3, m3) } \<and>
    put_long cb a v m = do { m1 \<leftarrow> put_byte cb a (drop_bit 24 v) m;
      m2 \<leftarrow> put_byte cb (a + 1) (drop_bit 16 v) m1; m3 \<leftarrow> put_byte cb (a + 2) (drop_bit 8 v) m2;
      put_byte cb (a + 3) v m3 }"
proof -
  have "bankindex (a + 1) = bankindex a" "bankindex (a + 2) = bankindex a" "bankindex (a + 3) = bankindex a"
    using assms(6) [of 1] assms(6) [of 2] assms(6) [of 3] by simp_all
  then have b: "get_mem_bank (m\<lparr>m_host := w\<rparr>) (a + 1) = get_mem_bank m a"
    "get_mem_bank (m\<lparr>m_host := w\<rparr>) (a + 2) = get_mem_bank m a"
    "get_mem_bank (m\<lparr>m_host := w\<rparr>) (a + 3) = get_mem_bank m a"
    "get_mem_bank m (a + 1) = get_mem_bank m a"
    "get_mem_bank m (a + 2) = get_mem_bank m a"
    "get_mem_bank m (a + 3) = get_mem_bank m a" for w
    by (simp_all add: get_mem_bank_def)
  have c: "ucast (x AND 0xFF) = (ucast (ucast (ucast x :: u8) :: u32) :: u8)"
    "ucast ((ucast (ucast x :: u8) :: u32) AND 0xFF) = (ucast x :: u8)" for x :: u32
    by (simp_all add: blast8)
  show ?thesis
    using assms(1-5)
    by (auto simp: get_long_def put_long_def get_byte_def put_byte_def b custom_lget_def custom_bget_def
      custom_lput_def custom_bput_def Let_def c blast32 split: option.splits prod.splits)
qed

text \<open>A device with byte callbacks only, which records the addresses it sees.\<close>

definition byte_device :: "u32 list addrbank" where
  "byte_device = empty_bank\<lparr>b_handlers := H_custom, b_r8 := Some (\<lambda>w a. (ucast a, w @ [a])),
     b_w8 := Some (\<lambda>w a v. w @ [a, ucast v])\<rparr>"

theorem custom_long_is_bytes_witness:
  "get_long (undefined :: u32 list musashi_callbacks) 0x10 ((blank_mstate [])\<lparr>m_banks := \<lambda>_. byte_device\<rparr>) =
     Some (0x10111213, (blank_mstate [0x10, 0x11, 0x12, 0x13])\<lparr>m_banks := \<lambda>_. byte_device\<rparr>)"
proof -
  let ?m = "\<lambda>w. (blank_mstate w)\<lparr>m_banks := \<lambda>_. byte_device\<rparr>"
  have b: "get_mem_bank (?m w) a = byte_device" for a w by (simp add: get_mem_bank_def)
  have d: "b_handlers byte_device = H_custom" "b_r16 byte_device = None" "b_r32 byte_device = None"
    "b_w16 byte_device = None" "b_w32 byte_device = None"
    "b_r8 byte_device = Some (\<lambda>w a. (ucast a, w @ [a]))"
    by (simp_all add: byte_device_def empty_bank_def)
  have u: "(?m w)\<lparr>m_host := w'\<rparr> = ?m w'" for w w' by (simp add: blank_mstate_def)
  have h: "m_host (?m w) = w" for w by (simp add: blank_mstate_def)
  have "bankindex (0x10 + of_nat k) = bankindex 0x10" if "k < 4" for k :: nat
    using that by (simp add: bankindex_eq unat_plus_of_nat)
  then show ?thesis
    by (subst custom_long_is_bytes [THEN conjunct1])
      (simp_all add: b d get_byte_def custom_bget_def u h)
qed

text \<open>
  On hosts with unaligned access the long accessors of maccess.h (one load or store and a byte
  swap) are equivalent to the portable byte-by-byte ones at every address.
\<close>

theorem unaligned_access_equiv:
  "do_get_mem_long_unaligned h p = do_get_mem_long h p \<and>
   do_put_mem_long_unaligned p v h = do_put_mem_long p v h"
  by (simp add: unaligned_get unaligned_put)

text \<open>
  C37. The bank count of a region is computed in 32 bits and wraps: a request to map more than
  0xFFFF0000 bytes is answered with success although no bank is changed.
\<close>

theorem map_ptr_size_wraps:
  assumes "0xFFFF0000 < unat sz"
  shows "fst (memory_map_ptr True st sz p fl m) = 0 \<and>
    m_mem_banks (snd (memory_map_ptr True st sz p fl m)) = m_mem_banks m"
  using assms by (simp add: memory_map_ptr_def alloc_bank_def num_banks_wraps)

theorem map_ptr_size_wraps_witness:
  "fst (memory_map_ptr True 0 0xFFFF0001 0x7000 0 (blank_mstate ())) = 0 \<and>
    m_mem_banks (snd (memory_map_ptr True 0 0xFFFF0001 0x7000 0 (blank_mstate ()))) =
    m_mem_banks (blank_mstate ())"
  by (rule map_ptr_size_wraps) simp

end
