(* ===== verification/Spec2Isabelle.thy ===== *)
theory Spec2Isabelle
  imports Arm64 Block_Cache Block_Check Block_Compile Block_Deps Block_Flow Block_Flush Block_Fresh
    Block_Inv Block_Program Block_Recheck Block_Sample Flags Interp_Flags Interp_Ops Jit_Add
    Jit_Alloc Jit_Bits Jit_Block Jit_Compile Jit_Copy Jit_Correct Jit_Flags Jit_Guest
    Jit_Jump Jit_Live Jit_Logic Jit_Midfunc Jit_Move Jit_Parts Jit_Program Jit_Regfile
    Jit_Regs Jit_Rules Jit_Scratch Jit_Sim Jit_Sound Jit_Words Links Membank
    Memory_Map Op_Arith Op_Bits Op_Logic Op_Move Op_Table Prelude
begin

text \<open>
  A verification library for the portable UAE CPU core: the emulation of a 68k processor with
  an interpreter, a banked memory, and a just-in-time translator from 68k blocks to AArch64
  code. File names below are relative to \<^verbatim>\<open>src/\<close> of the repository.

  \<^bold>\<open>The parts of the program and how they interact.\<close> The interpreter (generated by
  \<^verbatim>\<open>src/cpu/gencpu.c\<close>) executes one instruction at a time; it keeps the condition codes in the
  host-dependent flag word of \<^verbatim>\<open>src/cpu/machdep/m68k.h\<close> and reaches memory through the table
  of banks of \<^verbatim>\<open>src/cpu/memory.c\<close>. The translator (\<^verbatim>\<open>src/cpu/jit/arm\<close>) compiles a block of
  instructions that the interpreter has recorded: an analysis finds the condition codes that are
  still needed after each instruction, \<^verbatim>\<open>init_comp\<close> resets the register allocator, an opcode translator per instruction
  calls the mid-level functions (\<^verbatim>\<open>jnf_*\<close> without, \<^verbatim>\<open>jff_*\<close> with condition codes), these ask
  the allocator for native registers and append host instructions, and \<^verbatim>\<open>flush\<close> writes the
  registers and the condition codes back for the interpreter. The translator is correct when a
  compiled block leaves the register file as the interpreter would. The block cache keeps the compiled
  blocks: a table leads from an address to the code of a block or to the interpreter, blocks jump directly
  to the blocks that follow, and a flush throws them all away or has each one compared with its
  checksum before it runs again. It is correct when no stale code can be entered.

  \<^bold>\<open>Theories.\<close>
  \<^item> \<^verbatim>\<open>Prelude\<close>: C integer types and casts, generic lemmas on words.
  \<^item> \<^verbatim>\<open>Flags\<close>: the flag word of \<^verbatim>\<open>machdep/m68k.h\<close> on its three host layouts and
    \<^verbatim>\<open>cctrue\<close> of \<^verbatim>\<open>machdep/m68k.c\<close>. A locale states the layout's contract; the three layouts
    interpret it.
  \<^item> \<^verbatim>\<open>Membank\<close>, \<^verbatim>\<open>Memory_Map\<close>: \<^verbatim>\<open>memory.c\<close>, \<^verbatim>\<open>memory.h\<close> and \<^verbatim>\<open>maccess.h\<close>. The state
    \<open>mstate\<close> has the bank table, the allocated descriptors and the host bytes; an operation is a
    function to \<open>mstate option\<close>, \<open>None\<close> where the C code would touch freed or unmapped storage.
    The second theory follows the table through any sequence of calls (\<open>reachable\<close> states):
    descriptors are freed once and never while in use, mapped RAM is big-endian memory, ROM does
    not change, and the addresses the translator accesses directly are backed by host memory.
  \<^item> \<^verbatim>\<open>Interp_Flags\<close>: the statements that \<^verbatim>\<open>genflags_normal\<close> of \<^verbatim>\<open>gencpu.c\<close> writes for N, Z,
    V and C, at any operand width: the reference for the translator.
  \<^item> \<^verbatim>\<open>Arm64\<close>: the instructions \<^verbatim>\<open>codegen_arm64.h\<close> encodes, as a datatype with an operational
    semantics on registers, host flags and the words of the \<^verbatim>\<open>regs\<close> structure; every macro of
    the header used below is a definition.
  \<^item> \<^verbatim>\<open>Jit_Live\<close>, \<^verbatim>\<open>Jit_Sound\<close>, \<^verbatim>\<open>Jit_Alloc\<close>, \<^verbatim>\<open>Jit_Regs\<close>, \<^verbatim>\<open>Jit_Copy\<close>: the register
    allocator of \<^verbatim>\<open>compemu_support_arm.cpp\<close>. \<open>live\<close> is the C structure of the same name with the
    code emitted so far; \<open>rep X E l s V\<close> relates it to a machine \<open>s\<close> and the guest values \<open>V\<close>.
    Every operation keeps the tables consistent, emits code that keeps all values, and does not
    reach \<^verbatim>\<open>jit_abort\<close> (the value \<open>None\<close>) while enough native registers are unlocked.
  \<^item> \<^verbatim>\<open>Jit_Sim\<close>, \<^verbatim>\<open>Jit_Midfunc\<close>, \<^verbatim>\<open>Jit_Rules\<close>, \<^verbatim>\<open>Jit_Words\<close>, \<^verbatim>\<open>Jit_Parts\<close>: what it
    means that a code generator is correct (\<open>compiled\<close>), the frame macros of
    \<^verbatim>\<open>compemu_midfunc_arm64.cpp\<close>, and the rules that reduce a generator to the symbolic execution
    of the instructions it emits. The locale \<open>acquisition\<close> is the contract of \<open>readreg\<close>,
    \<open>writereg\<close> and \<open>rmw\<close>, each of which interprets it.
  \<^item> \<^verbatim>\<open>Jit_Add\<close>, \<^verbatim>\<open>Jit_Logic\<close>, \<^verbatim>\<open>Jit_Move\<close>, \<^verbatim>\<open>Jit_Bits\<close>: the mid-level functions of
    \<^verbatim>\<open>compemu_midfunc_arm64_2.cpp\<close>, one definition each, with the lemma that its code computes what
    the interpreter computes.
  \<^item> \<^verbatim>\<open>Jit_Flags\<close>: where the condition codes live during compilation.
  \<^item> \<^verbatim>\<open>Jit_Block\<close>: \<^verbatim>\<open>init_comp\<close>, \<^verbatim>\<open>sync_m68k_pc\<close>, \<^verbatim>\<open>flush\<close> and the scratch registers.
  \<^item> \<^verbatim>\<open>Jit_Correct\<close>: the properties of the translator, family by family, and the theorem that any
    generators with the contract compose to a correct block.

  \<^item> \<^verbatim>\<open>Interp_Ops\<close>: the interpreter's instructions with register and immediate operands, as
    \<^verbatim>\<open>gen_opcode\<close> of \<^verbatim>\<open>gencpu.c\<close> writes them, on a state \<open>guest\<close> of registers, X, condition codes
    and program counter.
  \<^item> \<^verbatim>\<open>Jit_Guest\<close>, \<^verbatim>\<open>Jit_Scratch\<close>: the contract \<open>translated\<close> of an opcode translator and the rules that
    reduce it to the contract of the mid-level function it calls. \<open>guest_rep\<close> relates the machine
    between two instructions to the guest as far as the live flags can tell.
  \<^item> \<^verbatim>\<open>Op_Arith\<close>, \<^verbatim>\<open>Op_Logic\<close>, \<^verbatim>\<open>Op_Move\<close>, \<^verbatim>\<open>Op_Bits\<close>: 272 generated functions of
    \<^verbatim>\<open>compemu_arm.cpp\<close>, one definition each, with the lemma that its code does what the interpreter's
    instruction does.
  \<^item> \<^verbatim>\<open>Op_Table\<close>: the rows of \<^verbatim>\<open>compstbl_arm.cpp\<close> and \<^verbatim>\<open>table68k\<close> for them, \<^verbatim>\<open>build_comp\<close>, and the locale
    \<open>translators\<close>, the contract of the tables, interpreted on what \<^verbatim>\<open>build_comp\<close> makes.
  \<^item> \<^verbatim>\<open>Jit_Regfile\<close>: the entry and the exit of a block at the level of the guest.
  \<^item> \<^verbatim>\<open>Jit_Compile\<close>: \<^verbatim>\<open>execute_normal\<close> of \<^verbatim>\<open>newcpu.c\<close>, and of \<^verbatim>\<open>compile_block\<close> the analysis of the live flags
    and the loop over the instructions; its lemmas are proved in the locale.
  \<^item> \<^verbatim>\<open>Jit_Program\<close>: the properties of whole blocks: a compiled block leaves the register file as the
    interpreter would, with enough room all of it is translated, and the analysis of the flags is sound.

  \<^item> \<^verbatim>\<open>Jit_Jump\<close>: \<^verbatim>\<open>write_jmp_target\<close> on the words of the branch instructions, against the targets that the
    architecture gives these words.
  \<^item> \<^verbatim>\<open>Links\<close>: the lists of the block cache, with a \<open>next\<close> field and a pointer to the pointer before, as maps
    from records to pointers; the locale \<open>record_lists\<close> is their contract, interpreted on the two operations that
    all list functions of \<^verbatim>\<open>compemu_support_arm.cpp\<close> are made of.
  \<^item> \<^verbatim>\<open>Block_Cache\<close>, \<^verbatim>\<open>Block_Flow\<close>: the block cache of \<^verbatim>\<open>compemu_support_arm.cpp\<close> and \<^verbatim>\<open>compemu_arm.h\<close>. \<open>bcache\<close>
    holds the globals: \<^verbatim>\<open>cache_tags\<close> (its even entries are \<open>bc_handler\<close>, its odd ones the roots of \<open>bc_cl\<close>),
    \<^verbatim>\<open>active\<close> and \<^verbatim>\<open>dormant\<close> (\<open>bc_list\<close>), the dependencies (\<open>bc_deps\<close>), the records (\<open>bc_blk\<close>), \<^verbatim>\<open>hold_bi\<close>, the free
    list, \<^verbatim>\<open>current_compile_p\<close>, and where the chained jumps in the code lead (\<open>bc_jumps\<close>). One definition per function;
    \<open>compile_block\<close> takes the code generator as a parameter that promises that the jumps it reports are places
    of the code it emitted (\<open>gen_ok\<close>). \<open>cache_step\<close> has one rule per entry of the emulator into the cache.
  \<^item> \<^verbatim>\<open>Block_Deps\<close>, \<^verbatim>\<open>Block_Inv\<close>, \<^verbatim>\<open>Block_Check\<close>, \<^verbatim>\<open>Block_Recheck\<close>, \<^verbatim>\<open>Block_Fresh\<close>, \<^verbatim>\<open>Block_Flush\<close>, \<^verbatim>\<open>Block_Compile\<close>: the
    invariant \<open>cache_inv\<close> (disjoint lists, one table entry per address, jumps in agreement with the state of their
    targets, free records apart from those in use) and that every operation keeps it.
  \<^item> \<^verbatim>\<open>Block_Sample\<close>, \<^verbatim>\<open>Block_Program\<close>: a run worked out state by state, and the properties of the cache over all
    reachable states: jumps and table entries are current, a soft flush lets no block run unchecked, a check
    ends, a compilation goes through, a hard flush leaves nothing.

  \<^bold>\<open>Bounds.\<close> One definition uses fuel: the check of a checksum follows the jumps to other blocks, and \<open>check_fuel\<close>
  allows one call more than there are records of blocks. It is enough (a theorem): a block in the check is no
  longer waiting for one. The walks along the lists of the cache are partial functions that end on every
  reachable state. The other loops of the source run over the fixed register tables
  (\<^verbatim>\<open>N_REGS\<close>, \<^verbatim>\<open>VREGS\<close>) or over a register's list of holders, which each turn shortens; they
  are recursions that terminate, and that \<open>free_nreg\<close> leaves the register empty is a theorem. Guest
  values are 32-bit words, host registers 64-bit words, the constants of the allocator
  pointer-wide as in the source. The allocator counts its operations in a 32-bit counter; \<open>op_ready (64 + t)\<close>
  asks for room for 64 of them per instruction, and the 1024 instructions of a longest block
  (\<^verbatim>\<open>MAXRUN\<close>) stay far below its limit. The room in the code cache is a parameter.

  \<^bold>\<open>Not modelled.\<close> The bit patterns of the host instructions other than the branches that are patched;
  host memory accesses of compiled code other than to \<^verbatim>\<open>regs\<close>, and with them the translators of
  instructions with memory operands; shifts, rotates, bit fields, multiplication and division; of
  \<^verbatim>\<open>compile_block\<close> the fallback to the interpreter within a block and the code that is emitted for branches
  and at the end of a block; of the block cache the replacement of the code cache (\<^verbatim>\<open>alloc_cache\<close>) and the pool
  of checksum records; floating point; the memory management units; the exception processing and the other
  run loops of \<^verbatim>\<open>newcpu.c\<close>; the x86 and 32-bit ARM translators, which repeat the AArch64 one for other hosts.
  The table of a block's theorem leaves out SWAP and EXT.W, whose translators are wrong on certain
  constants (two theorems say how), and its hypothesis \<open>nf_sound_block\<close> excludes the blocks in which
  a bit instruction drops live flags (a theorem too). What would extend the development next: shifts,
  multiplication and extended arithmetic, then the direct memory accesses.
\<close>

end
